(* ===== verification/Prelude.thy ===== *)
theory Prelude
  imports Main "HOL-Library.Monad_Syntax" "HOL-Library.Word"
begin

section \<open>Prelude: the Go fragment shared by the components\<close>

text \<open>
  What the component theories share: the shape of Go code (checked indexing, loops that may
  panic or fail), the BN254 scalar field as integers modulo its prime, and big-endian byte
  strings as \<^verbatim>\<open>math/big\<close> reads and writes them.

  A Go function that can panic, or a constraint system that can be unsatisfied, is modelled in
  the \<^typ>\<open>'a option\<close> monad: \<^term>\<open>None\<close> is the panic (or the violated constraint) and aborts
  the whole computation, \<^term>\<open>Some v\<close> is the returned value. Errors that the code returns to
  its caller are values of a sum type instead.
\<close>

named_theorems loop_simps \<open>characterisations of the loop combinators\<close>

named_theorems field_simps_fr \<open>reduction laws of the BN254 scalar field\<close>

subsection \<open>Checked indexing and loops\<close>

text \<open>Go's slice indexing \<^verbatim>\<open>xs[i]\<close>: an index out of range panics.\<close>

definition idx :: "'a list \<Rightarrow> nat \<Rightarrow> 'a option" where
  "idx xs i = (if i < length xs then Some (xs ! i) else None)"

text \<open>Go's slice expression \<^verbatim>\<open>xs[i:j]\<close>, with the bounds of a slice whose capacity is its length.\<close>

definition slice :: "'a list \<Rightarrow> nat \<Rightarrow> nat \<Rightarrow> 'a list option" where
  "slice xs i j = (if i \<le> j \<and> j \<le> length xs then Some (take (j - i) (drop i xs)) else None)"

text \<open>A loop that fills a fresh slice, one element per index.\<close>

fun mapM :: "('a \<Rightarrow> 'b option) \<Rightarrow> 'a list \<Rightarrow> 'b list option" where
  "mapM f [] = Some []"
| "mapM f (x # xs) = do { y \<leftarrow> f x; ys \<leftarrow> mapM f xs; Some (y # ys) }"

text \<open>A loop that threads a variable through its iterations.\<close>

fun foldM :: "('i \<Rightarrow> 's \<Rightarrow> 's option) \<Rightarrow> 'i list \<Rightarrow> 's \<Rightarrow> 's option" where
  "foldM f [] s = Some s"
| "foldM f (i # is) s = do { s' \<leftarrow> f i s; foldM f is s' }"

text \<open>A loop run for its effect only: every iteration has to succeed.\<close>

fun forM :: "('i \<Rightarrow> unit option) \<Rightarrow> 'i list \<Rightarrow> unit option" where
  "forM f [] = Some ()"
| "forM f (i # is) = do { f i; forM f is }"

text \<open>Evaluation from the left: a bind is not simplified under its binder.\<close>

lemma bind_strict: "m = m' \<Longrightarrow> Option.bind m f = Option.bind m' f"
  by simp

lemma idx_simps [simp]:
  "idx [] i = None" "idx (x # xs) 0 = Some x" "idx (x # xs) (Suc i) = idx xs i"
  by (simp_all add: idx_def)

lemma idx_numeral [simp]: "idx (x # xs) (numeral n) = idx xs (pred_numeral n)"
  by (simp add: numeral_eq_Suc)

lemma idx_Some_iff: "idx xs i = Some x \<longleftrightarrow> i < length xs \<and> x = xs ! i"
  by (auto simp: idx_def)

lemma idx_nth: "i < length xs \<Longrightarrow> idx xs i = Some (xs ! i)"
  by (simp add: idx_def)

lemma idx_map: "idx (map f xs) i = map_option f (idx xs i)"
  by (simp add: idx_def)

lemma slice_Some_iff:
  "slice xs i j = Some ys \<longleftrightarrow> i \<le> j \<and> j \<le> length xs \<and> ys = take (j - i) (drop i xs)"
  by (auto simp: slice_def)

lemma mapM_Some: "mapM (\<lambda>x. Some (g x)) xs = Some (map g xs)"
  by (induction xs) simp_all

lemma mapM_Some_iff [loop_simps]:
  "mapM f xs = Some ys \<longleftrightarrow> list_all2 (\<lambda>x y. f x = Some y) xs ys"
proof (induction xs arbitrary: ys)
  case Nil
  show ?case by auto
next
  case (Cons x xs)
  show ?case
    by (cases ys) (auto simp: Cons.IH bind_eq_Some_conv)
qed

lemma mapM_length: "mapM f xs = Some ys \<Longrightarrow> length ys = length xs"
  by (auto simp: mapM_Some_iff dest: list_all2_lengthD)

lemma mapM_nth: "mapM f xs = Some ys \<Longrightarrow> i < length xs \<Longrightarrow> f (xs ! i) = Some (ys ! i)"
  by (auto simp: mapM_Some_iff list_all2_conv_all_nth)

lemma mapM_map: "mapM f (map g xs) = mapM (\<lambda>x. f (g x)) xs"
  by (induction xs) simp_all

lemma mapM_cong [fundef_cong]:
  "xs = ys \<Longrightarrow> (\<And>x. x \<in> set ys \<Longrightarrow> f x = g x) \<Longrightarrow> mapM f xs = mapM g ys"
  by (induction xs arbitrary: ys) auto

lemma mapM_total:
  "(\<And>x. x \<in> set xs \<Longrightarrow> \<exists>y. f x = Some y) \<Longrightarrow> \<exists>ys. mapM f xs = Some ys"
proof (induction xs)
  case (Cons x xs)
  then obtain y ys where "f x = Some y" "mapM f xs = Some ys" by fastforce
  then show ?case by simp
qed simp

lemma mapM_total_length:
  assumes "\<And>x. x \<in> set xs \<Longrightarrow> \<exists>y. f x = Some y"
  shows "\<exists>ys. mapM f xs = Some ys \<and> length ys = length xs"
proof -
  obtain ys where "mapM f xs = Some ys" using mapM_total [of xs f] assms by blast
  then show ?thesis by (auto dest: mapM_length)
qed

lemma mapM_idx_all: "n = length xs \<Longrightarrow> mapM (idx xs) [0..<n] = Some xs"
  by (simp add: mapM_Some_iff list_all2_conv_all_nth idx_nth)

lemma forM_Some_iff [loop_simps]: "forM f xs = Some () \<longleftrightarrow> (\<forall>x\<in>set xs. f x = Some ())"
  by (induction xs) (auto simp: bind_eq_Some_conv)

lemma foldM_append: "foldM f (xs @ ys) s = do { s' \<leftarrow> foldM f xs s; foldM f ys s' }"
  by (induction xs arbitrary: s) (auto split: Option.bind_splits)

lemma foldM_cong [fundef_cong]:
  "xs = ys \<Longrightarrow> s = t \<Longrightarrow> (\<And>x u. x \<in> set ys \<Longrightarrow> f x u = g x u) \<Longrightarrow> foldM f xs s = foldM g ys t"
  by (induction xs arbitrary: ys s t) (auto split: Option.bind_splits)

lemma foldM_invariant:
  assumes "foldM f xs s = Some t" and "P s"
    and "\<And>x u v. x \<in> set xs \<Longrightarrow> P u \<Longrightarrow> f x u = Some v \<Longrightarrow> P v"
  shows "P t"
  using assms by (induction xs arbitrary: s) (auto simp: bind_eq_Some_conv)

lemma foldM_total:
  assumes "P s" and "\<And>x u. x \<in> set xs \<Longrightarrow> P u \<Longrightarrow> \<exists>v. f x u = Some v \<and> P v"
  shows "\<exists>t. foldM f xs s = Some t \<and> P t"
  using assms
proof (induction xs arbitrary: s)
  case Nil
  then show ?case by simp
next
  case (Cons x xs)
  from Cons.prems obtain v where v: "f x s = Some v" "P v" by force
  moreover from Cons.IH [OF v(2)] Cons.prems(2) obtain t where "foldM f xs v = Some t" "P t"
    by auto
  ultimately show ?case by auto
qed

text \<open>
  The loop shape of every verified note list: check each index, then add a value to a running
  total. Its success says that every check passed and what the total is.
\<close>

lemma foldM_check_acc:
  assumes "\<And>i a b. f i a = Some b \<longleftrightarrow> chk i \<and> b = g i a"
  shows "foldM f xs s = Some t \<longleftrightarrow> (\<forall>i\<in>set xs. chk i) \<and> t = fold g xs s"
  by (induction xs arbitrary: s) (auto simp: bind_eq_Some_conv assms)

lemma fold_tuple4:
  "fold (\<lambda>i (a, b, c, d). (f i a, g i b, h i c, k i d)) xs (a, b, c, d) =
   (fold f xs a, fold g xs b, fold h xs c, fold k xs d)"
  by (induction xs arbitrary: a b c d) simp_all

subsection \<open>The BN254 scalar field\<close>

text \<open>
  \<^verbatim>\<open>SNARK_SCALAR_FIELD\<close>, \<^verbatim>\<open>bn254p\<close>, \<^verbatim>\<open>bn254ScalarField\<close> and \<^verbatim>\<open>babyJubFieldPrime\<close> are one
  constant of the source, the order of the BN254 scalar field. Field elements are integers, and
  \<^term>\<open>fv x\<close> is the canonical representative of \<^term>\<open>x\<close>.
\<close>

definition SNARK_SCALAR_FIELD :: int where
  "SNARK_SCALAR_FIELD =
     21888242871839275222246405745257275088548364400416034343698204186575808495617"

definition fv :: "int \<Rightarrow> int" where
  "fv x = x mod SNARK_SCALAR_FIELD"

lemma SNARK_SCALAR_FIELD_pos [simp]: "0 < SNARK_SCALAR_FIELD"
  by (simp add: SNARK_SCALAR_FIELD_def)

text \<open>
  What the code relies on of the iden3 Poseidon hash: it accepts one to sixteen inputs that are reduced field elements, and returns one.
\<close>

definition iden3_total :: "(int list \<Rightarrow> int option) \<Rightarrow> bool" where
  "iden3_total H \<longleftrightarrow> (\<forall>xs. xs \<noteq> [] \<and> length xs \<le> 16 \<and> (\<forall>x\<in>set xs. 0 \<le> x \<and> x < SNARK_SCALAR_FIELD) \<longrightarrow>
     (\<exists>h. H xs = Some h)) \<and> (\<forall>xs h. H xs = Some h \<longrightarrow> 0 \<le> h \<and> h < SNARK_SCALAR_FIELD)"

lemma iden3_hashes:
  assumes "iden3_total H" "xs \<noteq> []" "length xs \<le> 16" "\<forall>x\<in>set xs. 0 \<le> x \<and> x < SNARK_SCALAR_FIELD"
  shows "\<exists>h. H xs = Some h \<and> 0 \<le> h \<and> h < SNARK_SCALAR_FIELD"
  using assms unfolding iden3_total_def by metis

lemma SNARK_SCALAR_FIELD_big: "2 ^ 253 < SNARK_SCALAR_FIELD"
  by (simp add: SNARK_SCALAR_FIELD_def)

lemma SNARK_SCALAR_FIELD_gt1 [simp]: "1 < SNARK_SCALAR_FIELD"
  by (simp add: SNARK_SCALAR_FIELD_def)

lemma fv_range [simp]: "0 \<le> fv x" "fv x < SNARK_SCALAR_FIELD"
  by (simp_all add: fv_def)

lemma fv_id: "0 \<le> x \<Longrightarrow> x < SNARK_SCALAR_FIELD \<Longrightarrow> fv x = x"
  by (simp add: fv_def)

lemma fv_0 [simp]: "fv 0 = 0" and fv_1 [simp]: "fv 1 = 1"
  by (simp_all add: fv_def SNARK_SCALAR_FIELD_def)

lemma fv_fv [simp]: "fv (fv x) = fv x"
  by (simp add: fv_def)

lemma fv_reduce [field_simps_fr, simp]:
  "fv (fv x + y) = fv (x + y)" "fv (x + fv y) = fv (x + y)"
  "fv (fv x - y) = fv (x - y)" "fv (x - fv y) = fv (x - y)"
  "fv (fv x * y) = fv (x * y)" "fv (x * fv y) = fv (x * y)"
  by (simp_all add: fv_def mod_simps)

lemma fv_diff_eq_0_iff: "fv (x - y) = 0 \<longleftrightarrow> fv x = fv y"
  by (simp add: fv_def mod_eq_dvd_iff dvd_eq_mod_eq_0)

lemma fv_numeral: "numeral n < SNARK_SCALAR_FIELD \<Longrightarrow> fv (numeral n) = numeral n"
  by (simp add: fv_id)

lemma fv_fold_add: "fv (fold (\<lambda>i a. fv (a + g i)) xs s) = fv (s + (\<Sum>i\<leftarrow>xs. g i))"
proof (induction xs arbitrary: s)
  case (Cons x xs)
  have "fv (fold (\<lambda>i a. fv (a + g i)) (x # xs) s) = fv (fv (s + g x) + (\<Sum>i\<leftarrow>xs. g i))"
    by (simp only: fold_simps Cons.IH)
  then show ?case by (simp add: add.assoc)
qed simp

lemma map_upt_nth: "map (\<lambda>i. f (xs ! i)) [0..<length xs] = map f xs"
  by (rule nth_equalityI) simp_all

lemma sum_list_upt_nth:
  assumes "n = length xs"
  shows "(\<Sum>i\<leftarrow>[0..<n]. f (xs ! i)) = (\<Sum>x\<leftarrow>xs. f x)"
  unfolding assms map_upt_nth ..

subsection \<open>Bytes\<close>

type_synonym byte = "8 word"

text \<open>\<^verbatim>\<open>big.Int.SetBytes\<close>: an unsigned big-endian integer.\<close>

definition SetBytes :: "byte list \<Rightarrow> int" where
  "SetBytes bs = fold (\<lambda>b v. 256 * v + uint b) bs 0"

definition ascii :: "string \<Rightarrow> byte list" where
  "ascii s = map (\<lambda>c. word_of_nat (of_char c)) s"

text \<open>
  The big-endian digits of a number: \<^verbatim>\<open>big.Int.FillBytes\<close> writes the absolute value in exactly \<open>n\<close> bytes and panics when the
  number does not fit; \<^verbatim>\<open>binary.BigEndian\<close> reads and writes a 32-bit word.
\<close>

definition be_bytes :: "nat \<Rightarrow> int \<Rightarrow> byte list" where
  "be_bytes n v = map (\<lambda>i. word_of_int (v div 256 ^ (n - 1 - i))) [0..<n]"

definition FillBytes :: "nat \<Rightarrow> int \<Rightarrow> byte list option" where
  "FillBytes n v = (if \<bar>v\<bar> < 256 ^ n then Some (be_bytes n \<bar>v\<bar>) else None)"

definition put_uint32 :: "32 word \<Rightarrow> byte list" where
  "put_uint32 w = be_bytes 4 (uint w)"

definition get_uint32 :: "byte list \<Rightarrow> 32 word" where
  "get_uint32 bs = word_of_int (SetBytes (take 4 bs))"

lemma length_be_bytes [simp]: "length (be_bytes n v) = n"
  by (simp add: be_bytes_def)

lemma length_put_uint32 [simp]: "length (put_uint32 w) = 4"
  by (simp add: put_uint32_def)

lemma be_bytes_Suc: "be_bytes (Suc n) v = be_bytes n (v div 256) @ [word_of_int v]"
proof -
  have "v div 256 ^ (Suc n - 1 - i) = v div 256 div 256 ^ (n - 1 - i)" if "i < n" for i
  proof -
    from that have "Suc n - 1 - i = Suc (n - 1 - i)" by simp
    then show ?thesis by (simp add: zdiv_zmult2_eq)
  qed
  then show ?thesis by (simp add: be_bytes_def)
qed

lemma SetBytes_snoc: "SetBytes (bs @ [b]) = 256 * SetBytes bs + uint b"
  by (simp add: SetBytes_def)

lemma SetBytes_be_bytes: "0 \<le> v \<Longrightarrow> v < 256 ^ n \<Longrightarrow> SetBytes (be_bytes n v) = v"
proof (induction n arbitrary: v)
  case 0
  then show ?case by (simp add: be_bytes_def SetBytes_def)
next
  case (Suc n)
  then have "SetBytes (be_bytes n (v div 256)) = v div 256" by (intro Suc.IH) auto
  then show ?case by (simp add: be_bytes_Suc SetBytes_snoc uint_word_of_int)
qed

lemma get_put_uint32 [simp]: "get_uint32 (put_uint32 w @ rest) = w" "get_uint32 (put_uint32 w) = w"
proof -
  have "uint w < 2 ^ 32" using uint_lt2p [of w] by simp
  then have "SetBytes (be_bytes 4 (uint w)) = uint w" by (intro SetBytes_be_bytes) auto
  then show "get_uint32 (put_uint32 w @ rest) = w" "get_uint32 (put_uint32 w) = w"
    by (simp_all add: get_uint32_def put_uint32_def)
qed

lemma FillBytes_SetBytes: "FillBytes n v = Some bs \<Longrightarrow> length bs = n \<and> SetBytes bs = \<bar>v\<bar>"
  by (auto simp: FillBytes_def SetBytes_be_bytes split: if_splits)

lemma SetBytes_bounds: "0 \<le> SetBytes bs \<and> SetBytes bs < 256 ^ length bs"
proof (induction bs rule: rev_induct)
  case (snoc b bs)
  have "uint b < 256" using uint_lt2p [of b] by simp
  with snoc show ?case by (simp add: SetBytes_snoc)
qed (simp add: SetBytes_def)

end
