(* ===== verification/Gnark.thy ===== *)
theory Gnark
  imports Prelude
begin

section \<open>The constraint API the circuits are written against\<close>

text \<open>
  Every circuit of the repository is a Go method \<^verbatim>\<open>Define(api frontend.API)\<close>. The API comes from
  the gnark library, which is not part of the repository, so it is a parameter of the model: a
  record of the operations the circuits call, handed to each definition as its first argument.
  The locale below states what the circuits rely on, gnark's documented behaviour over the BN254
  scalar field. A call that adds a constraint returns an option: \<^term>\<open>None\<close> when the assignment
  violates it. A circuit is satisfied by an assignment when its \<open>Define\<close> is \<^term>\<open>Some ()\<close>.
\<close>

type_synonym fr = int

record frontend_API =
  Add :: "fr \<Rightarrow> fr \<Rightarrow> fr"
  Sub :: "fr \<Rightarrow> fr \<Rightarrow> fr"
  Mul :: "fr \<Rightarrow> fr \<Rightarrow> fr"
  IsZero :: "fr \<Rightarrow> fr"
  Select :: "fr \<Rightarrow> fr \<Rightarrow> fr \<Rightarrow> fr option"
  ToBinary :: "fr \<Rightarrow> nat \<Rightarrow> fr list option"
  FromBinary :: "fr list \<Rightarrow> fr"
  IsLess :: "fr \<Rightarrow> fr \<Rightarrow> fr"
  IsLessOrEqual :: "fr \<Rightarrow> fr \<Rightarrow> fr"
  AssertIsEqual :: "fr \<Rightarrow> fr \<Rightarrow> unit option"
  AssertIsDifferent :: "fr \<Rightarrow> fr \<Rightarrow> unit option"
  AssertIsBoolean :: "fr \<Rightarrow> unit option"
  Inverse :: "fr \<Rightarrow> fr option"
  Cmp :: "fr \<Rightarrow> fr \<Rightarrow> fr"

text \<open>The little-endian bits of a field element, and the number they stand for.\<close>

definition le_bits :: "nat \<Rightarrow> int \<Rightarrow> int list" where
  "le_bits n x = map (\<lambda>i. (x div 2 ^ i) mod 2) [0..<n]"

fun le_value :: "int list \<Rightarrow> int" where
  "le_value [] = 0"
| "le_value (b # bs) = b + 2 * le_value bs"

lemma length_le_bits [simp]: "length (le_bits n x) = n"
  by (simp add: le_bits_def)

lemma le_bits_nth: "i < n \<Longrightarrow> le_bits n x ! i = (x div 2 ^ i) mod 2"
  by (simp add: le_bits_def)

lemma le_bits_Suc: "le_bits (Suc n) x = x mod 2 # le_bits n (x div 2)"
proof -
  have "map (\<lambda>i. (x div 2 ^ i) mod 2) (map Suc [0..<n]) = le_bits n (x div 2)"
    by (simp add: le_bits_def zdiv_zmult2_eq)
  then show ?thesis
    by (simp add: le_bits_def upt_conv_Cons map_Suc_upt del: upt_Suc)
qed

lemma le_value_le_bits: "0 \<le> x \<Longrightarrow> x < 2 ^ n \<Longrightarrow> le_value (le_bits n x) = x"
proof (induction n arbitrary: x)
  case 0
  then show ?case by (simp add: le_bits_def)
next
  case (Suc n)
  then have "le_value (le_bits n (x div 2)) = x div 2" by (intro Suc.IH) auto
  then show ?case by (simp add: le_bits_Suc)
qed

subsection \<open>The contract\<close>

locale gnark =
  fixes api :: frontend_API
  assumes Add: "Add api a b = fv (a + b)"
    and Sub: "Sub api a b = fv (a - b)"
    and Mul: "Mul api a b = fv (a * b)"
    and IsZero: "IsZero api a = (if fv a = 0 then 1 else 0)"
    and Select: "Select api c a b =
      (if fv c = 1 then Some (fv a) else if fv c = 0 then Some (fv b) else None)"
    and ToBinary: "n < 254 \<Longrightarrow>
      ToBinary api a n = (if fv a < 2 ^ n then Some (le_bits n (fv a)) else None)"
    and FromBinary: "FromBinary api bs = fv (le_value bs)"
    and IsLess: "IsLess api a b = (if fv a < fv b then 1 else 0)"
    and IsLessOrEqual: "IsLessOrEqual api a b = (if fv a \<le> fv b then 1 else 0)"
    and AssertIsEqual: "AssertIsEqual api a b = (if fv a = fv b then Some () else None)"
    and AssertIsDifferent: "AssertIsDifferent api a b = (if fv a \<noteq> fv b then Some () else None)"
    and AssertIsBoolean: "AssertIsBoolean api a = (if fv a = 0 \<or> fv a = 1 then Some () else None)"
    and Inverse: "Inverse api a = Some i \<Longrightarrow> fv (a * i) = 1"
    and Cmp: "Cmp api a b = (if fv b < fv a then 1 else if fv a = fv b then 0 else fv (- 1))"
begin

lemmas api_laws = Add Sub Mul IsZero Select IsLess IsLessOrEqual FromBinary

text \<open>The gadgets the circuits are built from, as equivalences on the assignment.\<close>

lemma assert_eq: "AssertIsEqual api a b = Some () \<longleftrightarrow> fv a = fv b"
  by (simp add: AssertIsEqual)

lemma assert_ne: "AssertIsDifferent api a b = Some () \<longleftrightarrow> fv a \<noteq> fv b"
  by (simp add: AssertIsDifferent)

lemma assert_bool: "AssertIsBoolean api a = Some () \<longleftrightarrow> fv a = 0 \<or> fv a = 1"
  by (simp add: AssertIsBoolean)

lemma fv_IsLess: "fv (IsLess api a b) = 1 \<longleftrightarrow> fv a < fv b" "fv (IsLess api a b) = 0 \<longleftrightarrow> fv b \<le> fv a"
  by (simp_all add: IsLess not_less)

lemma fv_IsLessOrEqual:
  "fv (IsLessOrEqual api a b) = 1 \<longleftrightarrow> fv a \<le> fv b" "fv (IsLessOrEqual api a b) = 0 \<longleftrightarrow> fv b < fv a"
  by (simp_all add: IsLessOrEqual not_le)

lemma fv_IsZero: "fv (IsZero api a) = 1 \<longleftrightarrow> fv a = 0" "fv (IsZero api a) = 0 \<longleftrightarrow> fv a \<noteq> 0"
  by (simp_all add: IsZero)

lemma fv_when_nonzero: "fv (Mul api d (Sub api 1 (IsZero api v))) = 0 \<longleftrightarrow> fv v = 0 \<or> fv d = 0"
  by (simp add: Mul Sub IsZero)

lemma fv_when_zero: "fv (Mul api d (IsZero api v)) = 0 \<longleftrightarrow> fv v \<noteq> 0 \<or> fv d = 0"
  by (simp add: Mul IsZero)

lemma fv_Mul_bool:
  "fv b = 0 \<or> fv b = 1 \<Longrightarrow> fv (Mul api b d) = 0 \<longleftrightarrow> fv b = 0 \<or> fv d = 0"
  by (metis Mul fv_0 fv_fv fv_reduce(5) mult_1 mult_zero_left)

lemma fv_Mul_not_bool:
  assumes "fv b = 0 \<or> fv b = 1"
  shows "fv (Mul api (Sub api 1 b) d) = 0 \<longleftrightarrow> fv b = 1 \<or> fv d = 0"
proof -
  have "fv (1 - b) = (if fv b = 1 then 0 else 1)"
    using assms by (metis diff_0_right diff_self fv_0 fv_1 fv_reduce(4) zero_neq_one)
  then show ?thesis by (metis Mul Sub fv_0 fv_fv fv_reduce(5) mult_1 mult_zero_left)
qed

lemma fv_Sub_eq_0: "fv (Sub api a b) = 0 \<longleftrightarrow> fv a = fv b"
  by (simp add: Sub fv_diff_eq_0_iff)

lemmas gadgets = assert_eq assert_ne assert_bool fv_IsLess fv_IsLessOrEqual fv_IsZero
  fv_when_nonzero fv_when_zero fv_Sub_eq_0

text \<open>
  The selection loop: starting from 0, add the \<open>i\<close>-th value times the indicator of \<open>i = k\<close>.
  Over distinct indices it picks the value at \<open>k\<close>, and 0 when no index equals \<open>k\<close>.
\<close>

lemma select_fold:
  assumes "distinct (map (\<lambda>i. fv (key i)) is)"
  shows "fv (fold (\<lambda>i a. Add api a (Mul api (IsZero api (Sub api k (key i))) (val i))) is s) =
         fv (s + (case find (\<lambda>i. fv (key i) = fv k) is of None \<Rightarrow> 0 | Some i \<Rightarrow> val i))"
  using assms
proof (induction "is" arbitrary: s)
  case (Cons i "is")
  have none: "find (\<lambda>j. fv (key j) = fv k) is = None" if "fv (key i) = fv k"
    using Cons.prems that by (auto simp: find_None_iff image_iff)
  have step: "fv (Add api s (Mul api (IsZero api (Sub api k (key i))) (val i)) + x)
     = fv (s + (if fv (key i) = fv k then val i else 0) + x)" for x
    by (auto simp: Add Mul IsZero fv_Sub_eq_0)
  have "fv (fold (\<lambda>i a. Add api a (Mul api (IsZero api (Sub api k (key i))) (val i))) (i # is) s)
     = fv (Add api s (Mul api (IsZero api (Sub api k (key i))) (val i)) +
          (case find (\<lambda>i. fv (key i) = fv k) is of None \<Rightarrow> 0 | Some i \<Rightarrow> val i))"
    using Cons.prems by (simp add: Cons.IH)
  then show ?case by (simp add: step none)
qed simp

lemma select_upt:
  assumes "int n \<le> SNARK_SCALAR_FIELD"
  shows "fv (fold (\<lambda>i a. Add api a (Mul api (IsZero api (Sub api k (int i))) (val i))) [0..<n] 0) =
    (if fv k < int n then fv (val (nat (fv k))) else 0)"
proof -
  have canon: "fv (int i) = int i" if "i < n" for i using that assms by (simp add: fv_id)
  have dist: "distinct (map (\<lambda>i. fv (int i)) [0..<n])"
    using canon by (auto simp: distinct_map inj_on_def)
  have "find (\<lambda>i. fv (int i) = fv k) [0..<n] = (if fv k < int n then Some (nat (fv k)) else None)"
  proof (cases "fv k < int n")
    case True
    then show ?thesis
      using canon nat_less_iff [of "fv k" n] by (auto simp: find_Some_iff intro!: exI [of _ "nat (fv k)"])
  next
    case False
    then show ?thesis using canon by (auto simp: find_None_iff)
  qed
  with select_fold [OF dist, of k val 0] show ?thesis by simp
qed

text \<open>The selection loop of the auction circuits: four fields of one entry at once.\<close>

lemma select4:
  assumes "int n \<le> SNARK_SCALAR_FIELD"
    and "\<forall>i<n. i < length as \<and> i < length bs \<and> i < length cs \<and> i < length ds"
  obtains a b c d where "foldM (\<lambda>i (a, b, c, d). do {
      let isIdx = IsZero api (Sub api k (int i));
      x \<leftarrow> idx as i; y \<leftarrow> idx bs i; z \<leftarrow> idx cs i; u \<leftarrow> idx ds i;
      Some (Add api a (Mul api isIdx x), Add api b (Mul api isIdx y),
            Add api c (Mul api isIdx z), Add api d (Mul api isIdx u)) }) [0..<n] (0, 0, 0, 0) = Some (a, b, c, d)"
    and "fv a = (if fv k < int n then fv (as ! nat (fv k)) else 0)"
    and "fv b = (if fv k < int n then fv (bs ! nat (fv k)) else 0)"
    and "fv c = (if fv k < int n then fv (cs ! nat (fv k)) else 0)"
    and "fv d = (if fv k < int n then fv (ds ! nat (fv k)) else 0)"
proof -
  let ?s = "\<lambda>xs i a. Add api a (Mul api (IsZero api (Sub api k (int i))) (xs ! i))"
  have "foldM (\<lambda>i (a, b, c, d). do {
      let isIdx = IsZero api (Sub api k (int i));
      x \<leftarrow> idx as i; y \<leftarrow> idx bs i; z \<leftarrow> idx cs i; u \<leftarrow> idx ds i;
      Some (Add api a (Mul api isIdx x), Add api b (Mul api isIdx y),
            Add api c (Mul api isIdx z), Add api d (Mul api isIdx u)) }) [0..<n] (0, 0, 0, 0)
    = foldM (\<lambda>i t. Some ((\<lambda>(a, b, c, d). (?s as i a, ?s bs i b, ?s cs i c, ?s ds i d)) t)) [0..<n] (0, 0, 0, 0)"
    using assms(2) by (intro foldM_cong) (auto simp: idx_nth Let_def split: prod.splits)
  also have "\<dots> = Some (fold (\<lambda>i (a, b, c, d). (?s as i a, ?s bs i b, ?s cs i c, ?s ds i d)) [0..<n] (0, 0, 0, 0))"
    by (rule foldM_check_acc [where chk = "\<lambda>_. True", THEN iffD2]) auto
  finally show ?thesis
    unfolding fold_tuple4 by (rule that) (rule select_upt [OF assms(1)])+
qed

end

subsection \<open>The arithmetic of the field provides the contract\<close>

text \<open>The reference implementation: arithmetic on canonical representatives.\<close>

definition fr_inverse :: "fr \<Rightarrow> fr option" where
  "fr_inverse a = (let x = fv (fst (bezw (nat (fv a)) (nat SNARK_SCALAR_FIELD)))
     in if fv (a * x) = 1 then Some x else None)"

definition fr_api :: frontend_API where
  "fr_api = \<lparr>
     Add = (\<lambda>a b. fv (a + b)), Sub = (\<lambda>a b. fv (a - b)), Mul = (\<lambda>a b. fv (a * b)),
     IsZero = (\<lambda>a. if fv a = 0 then 1 else 0),
     Select = (\<lambda>c a b. if fv c = 1 then Some (fv a) else if fv c = 0 then Some (fv b) else None),
     ToBinary = (\<lambda>a n. if fv a < 2 ^ n then Some (le_bits n (fv a)) else None),
     FromBinary = (\<lambda>bs. fv (le_value bs)),
     IsLess = (\<lambda>a b. if fv a < fv b then 1 else 0),
     IsLessOrEqual = (\<lambda>a b. if fv a \<le> fv b then 1 else 0),
     AssertIsEqual = (\<lambda>a b. if fv a = fv b then Some () else None),
     AssertIsDifferent = (\<lambda>a b. if fv a \<noteq> fv b then Some () else None),
     AssertIsBoolean = (\<lambda>a. if fv a = 0 \<or> fv a = 1 then Some () else None),
     Inverse = fr_inverse,
     Cmp = (\<lambda>a b. if fv b < fv a then 1 else if fv a = fv b then 0 else fv (- 1))\<rparr>"

interpretation fr: gnark fr_api
  by unfold_locales (auto simp: fr_api_def fr_inverse_def Let_def split: if_splits)

lemma gnark_fr_api: "gnark fr_api"
  by (rule fr.gnark_axioms)

end
