(* ===== verification/Poseidon.thy ===== *)
theory Poseidon
  imports Gnark
begin

section \<open>The Poseidon permutation and the Poseidon cipher\<close>

text \<open>
  \<^verbatim>\<open>enygma_dvp/gnark_circuits/poseidon\<close>: the in-circuit permutation (\<^verbatim>\<open>poseidon.go\<close>), its native
  twin on \<^verbatim>\<open>math/big\<close> integers and the sponge cipher built from it (\<^verbatim>\<open>native.go\<close>). The same three
  files are shared by the auction and retail packages. The constant tables of \<^verbatim>\<open>constants.go\<close> are
  data: they are an argument of the model, a record of the four accessors, with \<^term>\<open>None\<close> where the
  accessor panics.
\<close>

record poseidon_tables =
  GetPoseidonC :: "nat \<Rightarrow> fr list option"
  GetPoseidonS :: "nat \<Rightarrow> fr list option"
  GetPoseidonM :: "nat \<Rightarrow> fr list list option"
  GetPoseidonP :: "nat \<Rightarrow> fr list list option"

definition N_ROUNDS_P :: "nat list" where
  "N_ROUNDS_P = [56, 57, 56, 60, 60, 63, 64, 63, 60, 66, 60, 65, 70, 60, 64, 68]"

subsection \<open>The in-circuit permutation\<close>

definition sigma :: "frontend_API \<Rightarrow> fr \<Rightarrow> fr" where
  "sigma api x = (let in2 = Mul api x x; in4 = Mul api in2 in2 in Mul api in4 x)"

definition ark :: "frontend_API \<Rightarrow> nat \<Rightarrow> fr list \<Rightarrow> nat \<Rightarrow> fr list \<Rightarrow> fr list option" where
  "ark api t C r inp =
     mapM (\<lambda>i. do { x \<leftarrow> idx inp i; c \<leftarrow> idx C (r + i); Some (Add api x c) }) [0..<t]"

definition mixLast :: "frontend_API \<Rightarrow> nat \<Rightarrow> fr list list \<Rightarrow> nat \<Rightarrow> fr list \<Rightarrow> fr option" where
  "mixLast api t M s inp =
     foldM (\<lambda>j sum. do { row \<leftarrow> idx M j; m \<leftarrow> idx row s; x \<leftarrow> idx inp j;
                         Some (Add api sum (Mul api m x)) }) [0..<t] 0"

definition mix :: "frontend_API \<Rightarrow> nat \<Rightarrow> fr list list \<Rightarrow> fr list \<Rightarrow> fr list option" where
  "mix api t M inp =
     mapM (\<lambda>i. foldM (\<lambda>j sum. do { row \<leftarrow> idx M j; m \<leftarrow> idx row i; x \<leftarrow> idx inp j;
                                    Some (Add api sum (Mul api m x)) }) [0..<t] 0) [0..<t]"

definition mixS :: "frontend_API \<Rightarrow> nat \<Rightarrow> fr list \<Rightarrow> nat \<Rightarrow> fr list \<Rightarrow> fr list option" where
  "mixS api t S r inp = do {
     let baseIndex = (t * 2 - 1) * r;
     out0 \<leftarrow> foldM (\<lambda>i sum. do { s \<leftarrow> idx S (baseIndex + i); x \<leftarrow> idx inp i;
                                  Some (Add api sum (Mul api s x)) }) [0..<t] 0;
     rest \<leftarrow> mapM (\<lambda>i. do { x \<leftarrow> idx inp i; x0 \<leftarrow> idx inp 0; s \<leftarrow> idx S (baseIndex + t + i - 1);
                              Some (Add api x (Mul api x0 s)) }) [1..<t];
     Some (out0 # rest) }"

text \<open>The S-box on the whole state, the inner loop of every full round.\<close>

definition sigmaF :: "frontend_API \<Rightarrow> nat \<Rightarrow> fr list \<Rightarrow> fr list option" where
  "sigmaF api t inp = mapM (\<lambda>j. do { x \<leftarrow> idx inp j; Some (sigma api x) }) [0..<t]"

text \<open>A full round (the loop bodies with \<^verbatim>\<open>sigmaF\<close>, \<^verbatim>\<open>arkStates\<close>, \<^verbatim>\<open>mixStates\<close>) and a partial round.\<close>

definition full_round ::
  "frontend_API \<Rightarrow> nat \<Rightarrow> fr list \<Rightarrow> fr list list \<Rightarrow> nat \<Rightarrow> fr list \<Rightarrow> fr list option" where
  "full_round api t C M r st = do {
     f \<leftarrow> sigmaF api t st; a \<leftarrow> ark api t C r f; mix api t M a }"

definition partial_round ::
  "frontend_API \<Rightarrow> nat \<Rightarrow> fr list \<Rightarrow> fr list \<Rightarrow> nat \<Rightarrow> fr list \<Rightarrow> fr list option" where
  "partial_round api t C S r st = do {
     x0 \<leftarrow> idx st 0; c \<leftarrow> idx C ((8 div 2 + 1) * t + r);
     rest \<leftarrow> mapM (idx st) [1..<t];
     mixS api t S r (Add api (sigma api x0) c # rest) }"

definition PoseidonEx ::
  "frontend_API \<Rightarrow> poseidon_tables \<Rightarrow> fr list \<Rightarrow> fr \<Rightarrow> nat \<Rightarrow> fr list option" where
  "PoseidonEx api T inputs initialState nOuts = do {
     let t = length inputs + 1;
     let nRoundsF = 8;
     nRoundsP \<leftarrow> (if t < 2 then None else idx N_ROUNDS_P (t - 2));
     C \<leftarrow> GetPoseidonC T t; S \<leftarrow> GetPoseidonS T t; M \<leftarrow> GetPoseidonM T t; P \<leftarrow> GetPoseidonP T t;
     ark0 \<leftarrow> ark api t C 0 (initialState # inputs);
     st1 \<leftarrow> foldM (\<lambda>r. full_round api t C M ((r + 1) * t)) [0..<nRoundsF div 2 - 1] ark0;
     st2 \<leftarrow> full_round api t C P ((nRoundsF div 2) * t) st1;
     st3 \<leftarrow> foldM (partial_round api t C S) [0..<nRoundsP] st2;
     st4 \<leftarrow> foldM (\<lambda>r. full_round api t C M ((nRoundsF div 2 + 1) * t + nRoundsP + r * t))
              [0..<nRoundsF div 2 - 1] st3;
     h \<leftarrow> sigmaF api t st4;
     mapM (\<lambda>i. mixLast api t M i h) [0..<nOuts] }"

definition Poseidon :: "frontend_API \<Rightarrow> poseidon_tables \<Rightarrow> fr list \<Rightarrow> fr option" where
  "Poseidon api T inputs = do { out \<leftarrow> PoseidonEx api T inputs 0 1; idx out 0 }"

subsection \<open>The native permutation\<close>

definition bn254p :: int where
  "bn254p = 21888242871839275222246405745257275088548364400416034343698204186575808495617"

definition nativeArk :: "nat \<Rightarrow> int list \<Rightarrow> nat \<Rightarrow> int list \<Rightarrow> int list option" where
  "nativeArk t C r state =
     mapM (\<lambda>i. do { x \<leftarrow> idx state i; c \<leftarrow> idx C (r + i); Some ((x + c) mod bn254p) }) [0..<t]"

definition nativeSigma :: "int \<Rightarrow> int" where
  "nativeSigma x = (let x2 = (x * x) mod bn254p; x4 = (x2 * x2) mod bn254p in (x4 * x) mod bn254p)"

definition nativeMix :: "nat \<Rightarrow> int list list \<Rightarrow> int list \<Rightarrow> int list option" where
  "nativeMix t M state =
     mapM (\<lambda>i. foldM (\<lambda>j sum. do { row \<leftarrow> idx M j; m \<leftarrow> idx row i; x \<leftarrow> idx state j;
                                    let term = (m * x) mod bn254p;
                                    Some ((sum + term) mod bn254p) }) [0..<t] 0) [0..<t]"

definition nativeMixLast :: "nat \<Rightarrow> int list list \<Rightarrow> nat \<Rightarrow> int list \<Rightarrow> int option" where
  "nativeMixLast t M s state =
     foldM (\<lambda>j sum. do { row \<leftarrow> idx M j; m \<leftarrow> idx row s; x \<leftarrow> idx state j;
                         let term = (m * x) mod bn254p;
                         Some ((sum + term) mod bn254p) }) [0..<t] 0"

definition nativeMixS :: "nat \<Rightarrow> int list \<Rightarrow> nat \<Rightarrow> int list \<Rightarrow> int list option" where
  "nativeMixS t S r state = do {
     let baseIndex = (t * 2 - 1) * r;
     out0 \<leftarrow> foldM (\<lambda>i sum. do { s \<leftarrow> idx S (baseIndex + i); x \<leftarrow> idx state i;
                                  let term = (s * x) mod bn254p;
                                  Some ((sum + term) mod bn254p) }) [0..<t] 0;
     rest \<leftarrow> mapM (\<lambda>i. do { x \<leftarrow> idx state i; x0 \<leftarrow> idx state 0; s \<leftarrow> idx S (baseIndex + t + i - 1);
                              let term = (x0 * s) mod bn254p;
                              Some ((x + term) mod bn254p) }) [1..<t];
     Some (out0 # rest) }"

definition nativeSigmaF :: "nat \<Rightarrow> int list \<Rightarrow> int list option" where
  "nativeSigmaF t state = mapM (\<lambda>j. do { x \<leftarrow> idx state j; Some (nativeSigma x) }) [0..<t]"

definition native_full_round ::
  "nat \<Rightarrow> int list \<Rightarrow> int list list \<Rightarrow> nat \<Rightarrow> int list \<Rightarrow> int list option" where
  "native_full_round t C M r st = do {
     f \<leftarrow> nativeSigmaF t st; a \<leftarrow> nativeArk t C r f; nativeMix t M a }"

definition native_partial_round ::
  "nat \<Rightarrow> int list \<Rightarrow> int list \<Rightarrow> nat \<Rightarrow> int list \<Rightarrow> int list option" where
  "native_partial_round t C S r st = do {
     x0 \<leftarrow> idx st 0; c \<leftarrow> idx C ((8 div 2 + 1) * t + r);
     rest \<leftarrow> mapM (idx st) [1..<t];
     nativeMixS t S r ((nativeSigma x0 + c) mod bn254p # rest) }"

definition NativePoseidonEx :: "poseidon_tables \<Rightarrow> int list \<Rightarrow> int \<Rightarrow> nat \<Rightarrow> int list option" where
  "NativePoseidonEx T inputs initialState nOuts = do {
     let t = length inputs + 1;
     let nRoundsF = 8;
     nRoundsP \<leftarrow> (if t < 2 then None else idx N_ROUNDS_P (t - 2));
     C \<leftarrow> GetPoseidonC T t; S \<leftarrow> GetPoseidonS T t; M \<leftarrow> GetPoseidonM T t; P \<leftarrow> GetPoseidonP T t;
     ark0 \<leftarrow> nativeArk t C 0 (initialState # inputs);
     st1 \<leftarrow> foldM (\<lambda>r. native_full_round t C M ((r + 1) * t)) [0..<nRoundsF div 2 - 1] ark0;
     st2 \<leftarrow> native_full_round t C P ((nRoundsF div 2) * t) st1;
     st3 \<leftarrow> foldM (native_partial_round t C S) [0..<nRoundsP] st2;
     st4 \<leftarrow> foldM (\<lambda>r. native_full_round t C M ((nRoundsF div 2 + 1) * t + nRoundsP + r * t))
              [0..<nRoundsF div 2 - 1] st3;
     h \<leftarrow> nativeSigmaF t st4;
     mapM (\<lambda>i. nativeMixLast t M i h) [0..<nOuts] }"

subsection \<open>The sponge cipher\<close>

text \<open>\<^verbatim>\<open>for decryptedLength%3 != 0 { decryptedLength++ }\<close>\<close>

function pad_to_3 :: "nat \<Rightarrow> nat" where
  "pad_to_3 n = (if n mod 3 \<noteq> 0 then pad_to_3 (n + 1) else n)"
  by pat_completeness auto
termination
  by (relation "measure (\<lambda>n. (2 * n) mod 3)") (simp, simp, presburger)

declare pad_to_3.simps [simp del]

definition nonceEncoded :: "int \<Rightarrow> nat \<Rightarrow> int" where
  "nonceEncoded nonce realLength = (nonce + 2 ^ 128 * int realLength) mod bn254p"

text \<open>
  The body of the block loop in either direction. The pair is the permutation output the block
  starts from (\<^verbatim>\<open>strategyOuts[i]\<close>) and the field elements written so far. Both directions absorb
  the ciphertext of the block before they permute again.
\<close>

definition enc_block ::
  "poseidon_tables \<Rightarrow> int list \<Rightarrow> nat \<Rightarrow> nat \<Rightarrow> int list \<times> int list \<Rightarrow> (int list \<times> int list) option" where
  "enc_block T plain len i = (\<lambda>(strategy, cipher). do {
     block \<leftarrow> mapM (\<lambda>j. do { p \<leftarrow> idx plain (i * 3 + j); s \<leftarrow> idx strategy (j + 1);
                               Some ((p + s) mod bn254p) }) (filter (\<lambda>j. i * 3 + j < len) [0..<3]);
     let cipher' = cipher @ block;
     inputsNext \<leftarrow> mapM (\<lambda>j. if i * 3 + j < len then idx cipher' (i * 3 + j) else Some 0) [0..<3];
     st0 \<leftarrow> idx strategy 0;
     next_outs \<leftarrow> NativePoseidonEx T inputsNext st0 4;
     Some (next_outs, cipher') })"

definition dec_block ::
  "poseidon_tables \<Rightarrow> int list \<Rightarrow> nat \<Rightarrow> nat \<Rightarrow> int list \<times> int list \<Rightarrow> (int list \<times> int list) option" where
  "dec_block T encrypted len i = (\<lambda>(strategy, decrypted). do {
     block \<leftarrow> mapM (\<lambda>j. do { c \<leftarrow> idx encrypted (i * 3 + j); s \<leftarrow> idx strategy (j + 1);
                               Some ((c - s) mod bn254p) }) (filter (\<lambda>j. i * 3 + j < len) [0..<3]);
     let decrypted' = decrypted @ block;
     inputsNext \<leftarrow> mapM (\<lambda>j. if i * 3 + j < len then idx encrypted (i * 3 + j) else Some 0) [0..<3];
     st0 \<leftarrow> idx strategy 0;
     next_outs \<leftarrow> NativePoseidonEx T inputsNext st0 4;
     Some (next_outs, decrypted') })"

definition NativePoseidonEncrypt ::
  "poseidon_tables \<Rightarrow> int \<times> int \<Rightarrow> int \<Rightarrow> nat \<Rightarrow> int list \<Rightarrow> int list option" where
  "NativePoseidonEncrypt T key nonce realLength plaintext = do {
     let decryptedLength = pad_to_3 realLength;
     real \<leftarrow> mapM (idx plaintext) [0..<realLength];
     let plain = real @ replicate (decryptedLength - realLength) 0;
     let n = (decryptedLength + 1) div 3;
     outs0 \<leftarrow> NativePoseidonEx T [fst key, snd key, nonceEncoded nonce realLength] 0 4;
     (outs, cipher) \<leftarrow> foldM (enc_block T plain decryptedLength) [0..<n] (outs0, []);
     mac \<leftarrow> idx outs 1;
     Some (cipher @ [mac]) }"

datatype cipher_error = MAC_mismatch

definition NativePoseidonDecrypt ::
  "poseidon_tables \<Rightarrow> int \<times> int \<Rightarrow> int \<Rightarrow> nat \<Rightarrow> int list \<Rightarrow> (cipher_error + int list) option" where
  "NativePoseidonDecrypt T key nonce realLength encrypted = do {
     let decryptedLength = pad_to_3 realLength;
     let n = (decryptedLength + 1) div 3;
     outs0 \<leftarrow> NativePoseidonEx T [fst key, snd key, nonceEncoded nonce realLength] 0 4;
     (outs, decrypted) \<leftarrow> foldM (dec_block T encrypted decryptedLength) [0..<n] (outs0, []);
     mac \<leftarrow> idx outs 1;
     got \<leftarrow> idx encrypted decryptedLength;
     if got \<noteq> mac then Some (Inl MAC_mismatch)
     else Some (Inr (take realLength decrypted)) }"

subsection \<open>The circuit and the native permutation agree\<close>

lemma bn254p_eq: "bn254p = SNARK_SCALAR_FIELD"
  by (simp add: bn254p_def SNARK_SCALAR_FIELD_def)

lemma mod_bn254p: "x mod bn254p = fv x"
  by (simp add: bn254p_eq fv_def)

context gnark
begin

lemma sigma_native: "sigma api x = nativeSigma x"
  by (simp add: sigma_def nativeSigma_def Mul mod_bn254p Let_def)

lemma sigmaF_native: "sigmaF api = nativeSigmaF"
  by (simp add: fun_eq_iff sigmaF_def nativeSigmaF_def sigma_native)

lemma ark_native: "ark api = nativeArk"
  by (simp add: fun_eq_iff ark_def nativeArk_def Add mod_bn254p)

lemma mix_native: "mix api = nativeMix"
  by (simp add: fun_eq_iff mix_def nativeMix_def Add Mul mod_bn254p Let_def)

lemma mixLast_native: "mixLast api = nativeMixLast"
  by (simp add: fun_eq_iff mixLast_def nativeMixLast_def Add Mul mod_bn254p Let_def)

lemma mixS_native: "mixS api = nativeMixS"
  by (simp add: fun_eq_iff mixS_def nativeMixS_def Add Mul mod_bn254p Let_def)

lemmas layers_native =
  sigma_native sigmaF_native ark_native mix_native mixLast_native mixS_native

lemma rounds_native:
  "full_round api = native_full_round" "partial_round api = native_partial_round"
  by (simp_all add: fun_eq_iff full_round_def native_full_round_def partial_round_def
      native_partial_round_def layers_native Add mod_bn254p)

lemma PoseidonEx_native: "PoseidonEx api T inputs s n = NativePoseidonEx T inputs s n"
  unfolding PoseidonEx_def NativePoseidonEx_def layers_native rounds_native ..

end

subsection \<open>Neither permutation panics on well-shaped tables\<close>

text \<open>The shape of the tables for state size \<open>t\<close> that the loops index into.\<close>

definition poseidon_tables_wf :: "poseidon_tables \<Rightarrow> nat \<Rightarrow> bool" where
  "poseidon_tables_wf T t \<longleftrightarrow>
     2 \<le> t \<and> t - 2 < length N_ROUNDS_P \<and>
     (case (GetPoseidonC T t, GetPoseidonS T t, GetPoseidonM T t, GetPoseidonP T t) of
        (Some C, Some S, Some M, Some P) \<Rightarrow>
          length C = 8 * t + N_ROUNDS_P ! (t - 2) \<and> length S = (t * 2 - 1) * N_ROUNDS_P ! (t - 2) \<and>
          length M = t \<and> list_all (\<lambda>row. length row = t) M \<and>
          length P = t \<and> list_all (\<lambda>row. length row = t) P
      | _ \<Rightarrow> False)"

definition canonical :: "int list \<Rightarrow> bool" where
  "canonical xs \<longleftrightarrow> list_all (\<lambda>x. 0 \<le> x \<and> x < SNARK_SCALAR_FIELD) xs"

lemma canonical_simps [simp]:
  "canonical []" "canonical (x # xs) \<longleftrightarrow> 0 \<le> x \<and> x < SNARK_SCALAR_FIELD \<and> canonical xs"
  "canonical (xs @ ys) \<longleftrightarrow> canonical xs \<and> canonical ys"
  by (auto simp: canonical_def)

lemma canonical_nthD: "canonical xs \<Longrightarrow> i < length xs \<Longrightarrow> 0 \<le> xs ! i \<and> xs ! i < SNARK_SCALAR_FIELD"
  by (simp add: canonical_def list_all_length)

lemma canonical_nth: "canonical xs \<Longrightarrow> i < length xs \<Longrightarrow> fv (xs ! i) = xs ! i"
  by (simp add: canonical_def list_all_length fv_id)

lemma nativeArk_total:
  assumes "length st = t" "r + t \<le> length C"
  shows "\<exists>out. nativeArk t C r st = Some out \<and> length out = t"
  unfolding nativeArk_def using assms
  by (intro mapM_total_length [of "[0..<t]", simplified]) (auto simp: idx_nth)

lemma nativeSigmaF_total:
  assumes "length st = t"
  shows "\<exists>out. nativeSigmaF t st = Some out \<and> length out = t"
  unfolding nativeSigmaF_def using assms
  by (intro mapM_total_length [of "[0..<t]", simplified]) (auto simp: idx_nth)

lemma nativeMixLast_total:
  assumes "length st = t" "length M = t" "list_all (\<lambda>row. length row = t) M" "s < t"
  shows "\<exists>x. nativeMixLast t M s st = Some x \<and> 0 \<le> x \<and> x < SNARK_SCALAR_FIELD"
  unfolding nativeMixLast_def
proof (rule foldM_total)
  fix j u assume j: "j \<in> set [0..<t]"
  with assms have "length (M ! j) = t" by (simp add: list_all_length)
  with j assms show "\<exists>v. do { row \<leftarrow> idx M j; m \<leftarrow> idx row s; x \<leftarrow> idx st j;
      let term = (m * x) mod bn254p; Some ((u + term) mod bn254p) } = Some v
      \<and> 0 \<le> v \<and> v < SNARK_SCALAR_FIELD"
    by (simp add: idx_nth Let_def mod_bn254p)
qed simp

lemma nativeMix_MixLast: "nativeMix t M st = mapM (\<lambda>i. nativeMixLast t M i st) [0..<t]"
  by (simp add: nativeMix_def nativeMixLast_def)

lemma nativeMix_total:
  assumes "length st = t" "length M = t" "list_all (\<lambda>row. length row = t) M"
  shows "\<exists>out. nativeMix t M st = Some out \<and> length out = t"
  unfolding nativeMix_MixLast using nativeMixLast_total [OF assms]
  by (intro mapM_total_length [of "[0..<t]", simplified]) force

lemma nativeMixS_total:
  assumes len: "length st = t" "0 < t" and S: "(t * 2 - 1) * Suc r \<le> length S"
  shows "\<exists>out. nativeMixS t S r st = Some out \<and> length out = t"
proof -
  let ?b = "(t * 2 - 1) * r"
  from S have b: "?b + (t * 2 - 1) \<le> length S" by (simp only: mult_Suc_right add.commute)
  have "\<exists>x. foldM (\<lambda>i sum. do { s \<leftarrow> idx S (?b + i); x \<leftarrow> idx st i;
      let term = (s * x) mod bn254p; Some ((sum + term) mod bn254p) }) [0..<t] 0 = Some x \<and> True"
    using b len by (intro foldM_total) (auto simp: idx_nth Let_def)
  moreover have "\<exists>ys. mapM (\<lambda>i. do { x \<leftarrow> idx st i; x0 \<leftarrow> idx st 0; s \<leftarrow> idx S (?b + t + i - 1);
      let term = (x0 * s) mod bn254p; Some ((x + term) mod bn254p) }) [1..<t] = Some ys
      \<and> length ys = length [1..<t]"
    using b len by (intro mapM_total_length) (auto simp: idx_nth Let_def)
  ultimately show ?thesis
    using len by (auto simp: nativeMixS_def Let_def)
qed

lemma native_full_round_total:
  assumes "length st = t" "r + t \<le> length C" "length M = t" "list_all (\<lambda>row. length row = t) M"
  shows "\<exists>out. native_full_round t C M r st = Some out \<and> length out = t"
proof -
  from nativeSigmaF_total [OF assms(1)] obtain f where f: "nativeSigmaF t st = Some f" "length f = t"
    by auto
  from nativeArk_total [OF f(2) assms(2)] obtain a where "nativeArk t C r f = Some a" "length a = t"
    by auto
  with f nativeMix_total [OF _ assms(3,4)] show ?thesis by (auto simp: native_full_round_def)
qed

lemma native_full_rounds_total:
  assumes "length st = t" "\<And>r. r < k \<Longrightarrow> off r + t \<le> length C"
    and "length M = t" "list_all (\<lambda>row. length row = t) M"
  shows "\<exists>out. foldM (\<lambda>r. native_full_round t C M (off r)) [0..<k] st = Some out \<and> length out = t"
  by (rule foldM_total) (use assms native_full_round_total [of _ t _ C M] in auto)

lemma native_partial_round_total:
  assumes "length st = t" "0 < t" "5 * t + r < length C" "(t * 2 - 1) * Suc r \<le> length S"
  shows "\<exists>out. native_partial_round t C S r st = Some out \<and> length out = t"
proof -
  obtain rest where "mapM (idx st) [1..<t] = Some rest" "length rest = length [1..<t]"
    using mapM_total_length [of "[1..<t]" "idx st"] assms(1) by (auto simp: idx_nth)
  with assms nativeMixS_total [of "(nativeSigma (st ! 0) + C ! (5 * t + r)) mod bn254p # rest" t r S]
  show ?thesis by (simp add: native_partial_round_def idx_nth)
qed

lemma native_partial_rounds_total:
  fixes st :: "int list"
  assumes "length st = t" "0 < t" "length C = 8 * t + R" "length S = (t * 2 - 1) * R"
  shows "\<exists>out. foldM (native_partial_round t C S) [0..<R] st = Some out \<and> length out = t"
proof (rule foldM_total)
  fix r and u :: "int list" assume "r \<in> set [0..<R]" and u: "length u = t"
  then have r: "r < R" by simp
  then have "(t * 2 - 1) * Suc r \<le> length S" unfolding assms(4) by (intro mult_le_mono2) simp
  with r u assms show "\<exists>v. native_partial_round t C S r u = Some v \<and> length v = t"
    by (intro native_partial_round_total) auto
qed (fact assms(1))

lemma NativePoseidonEx_total:
  assumes wf: "poseidon_tables_wf T (Suc (length inputs))" and n: "nOuts \<le> Suc (length inputs)"
  shows "\<exists>out. NativePoseidonEx T inputs s nOuts = Some out \<and> length out = nOuts \<and> canonical out"
proof -
  define t where "t = Suc (length inputs)"
  define R where "R = N_ROUNDS_P ! (t - 2)"
  from wf obtain C S M P where tab: "GetPoseidonC T t = Some C" "GetPoseidonS T t = Some S"
      "GetPoseidonM T t = Some M" "GetPoseidonP T t = Some P"
    and C: "length C = 8 * t + R" and S: "length S = (t * 2 - 1) * R"
    and M: "length M = t" "list_all (\<lambda>row. length row = t) M"
    and P: "length P = t" "list_all (\<lambda>row. length row = t) P"
    and t2: "2 \<le> t" and np: "idx N_ROUNDS_P (t - 2) = Some R"
    by (auto simp: poseidon_tables_wf_def t_def R_def idx_nth split: option.splits)
  have le3: "(r + 1) * t + t \<le> length C" "5 * t + R + r * t + t \<le> length C" if "r < 3" for r
  proof -
    from that have "r * t \<le> 2 * t" by (intro mult_le_mono1) simp
    then show "(r + 1) * t + t \<le> length C" "5 * t + R + r * t + t \<le> length C"
      unfolding C add_mult_distrib by linarith+
  qed
  obtain st0 where st0: "nativeArk t C 0 (s # inputs) = Some st0" "length st0 = t"
    using nativeArk_total [of "s # inputs" t 0 C] C by (auto simp: t_def)
  obtain st1 where st1: "foldM (\<lambda>r. native_full_round t C M ((r + 1) * t)) [0..<3] st0 = Some st1"
      "length st1 = t"
    using native_full_rounds_total [where k = 3 and off = "\<lambda>r. (r + 1) * t", OF st0(2) le3(1) M] by blast
  obtain st2 where st2: "native_full_round t C P (4 * t) st1 = Some st2" "length st2 = t"
    using native_full_round_total [OF st1(2) _ P, of "4 * t" C] C by auto
  obtain st3 where st3: "foldM (native_partial_round t C S) [0..<R] st2 = Some st3" "length st3 = t"
    using native_partial_rounds_total [OF st2(2) _ C S] t2 by auto
  obtain st4 where st4: "foldM (\<lambda>r. native_full_round t C M (5 * t + R + r * t)) [0..<3] st3 = Some st4"
      "length st4 = t"
    using native_full_rounds_total [where k = 3 and off = "\<lambda>r. 5 * t + R + r * t", OF st3(2) le3(2) M] by blast
  obtain h where h: "nativeSigmaF t st4 = Some h" "length h = t"
    using nativeSigmaF_total [OF st4(2)] by auto
  have last: "\<exists>x. nativeMixLast t M i h = Some x \<and> 0 \<le> x \<and> x < SNARK_SCALAR_FIELD" if "i < nOuts" for i
    using that n nativeMixLast_total [OF h(2) M, of i] by (simp add: t_def)
  then obtain out where out: "mapM (\<lambda>i. nativeMixLast t M i h) [0..<nOuts] = Some out" "length out = nOuts"
    using mapM_total_length [of "[0..<nOuts]" "\<lambda>i. nativeMixLast t M i h"] by fastforce
  moreover have "canonical out"
    using last mapM_nth [OF out(1)] out(2) by (fastforce simp: canonical_def list_all_length)
  ultimately show ?thesis
    using t2 st1(1) st4(1) by (simp add: NativePoseidonEx_def t_def [symmetric] np tab st0 st2 st3 h)
qed

subsection \<open>Decryption inverts encryption\<close>

lemma pad_to_3_eq: "pad_to_3 n = 3 * ((n + 2) div 3)"
proof (induction n rule: pad_to_3.induct)
  case (1 n)
  show ?case
  proof (cases "n mod 3 = 0")
    case True
    then show ?thesis by (subst pad_to_3.simps) (simp, presburger)
  next
    case False
    with 1 have "pad_to_3 n = 3 * ((n + 3) div 3)" by (subst pad_to_3.simps) simp
    with False show ?thesis by presburger
  qed
qed

lemma pad_to_3_blocks: "(pad_to_3 n + 1) div 3 = (n + 2) div 3" "n \<le> pad_to_3 n"
  unfolding pad_to_3_eq by presburger+

lemma filter_block: "i < n \<Longrightarrow> filter (\<lambda>j. i * 3 + j < 3 * n) [0..<3] = [0, 1, 2]"
  by (simp add: upt_rec)

lemma enc_block_appends:
  assumes "enc_block T plain (3 * n) i (st, cipher) = Some (st', cipher')" and "i < n"
  shows "\<exists>a b c. cipher' = cipher @ [a, b, c]"
  using assms(1) by (auto simp: enc_block_def filter_block [OF assms(2)] bind_eq_Some_conv Let_def)

text \<open>One block: the decryption of the written ciphertext yields the plaintext and the same state.\<close>

lemma dec_enc_block:
  assumes enc: "enc_block T plain (3 * n) i (st, cipher) = Some (st', cipher')"
    and i: "i < n" and len: "length cipher = 3 * i" "length plain = 3 * n" and can: "canonical plain"
    and pre: "take (3 * Suc i) E = cipher'" and dl: "decrypted = take (3 * i) plain"
  shows "dec_block T E (3 * n) i (st, decrypted) = Some (st', take (3 * Suc i) plain)
     \<and> length cipher' = 3 * Suc i \<and> take (3 * i) cipher' = cipher"
proof -
  note fb = filter_block [OF i]
  have u3: "[0..<3] = [0, 1, 2 :: nat]" by (simp add: upt_rec)
  from enc obtain s0 s1 s2 s3 where st: "idx st 0 = Some s0" "idx st 1 = Some s1"
      "idx st 2 = Some s2" "idx st 3 = Some s3"
    and c': "cipher' = cipher @ [fv (plain ! (3 * i) + s1), fv (plain ! (3 * i + 1) + s2), fv (plain ! (3 * i + 2) + s3)]"
    and nx: "NativePoseidonEx T [fv (plain ! (3 * i) + s1), fv (plain ! (3 * i + 1) + s2),
        fv (plain ! (3 * i + 2) + s3)] s0 4 = Some st'"
    using i len by (auto simp: enc_block_def fb u3 bind_eq_Some_conv mod_bn254p idx_def nth_append
        mult.commute numeral_3_eq_3 numeral_2_eq_2 split: if_splits)
  have lc: "length cipher' = 3 * i + 3" using c' len by simp
  with pre have "3 * i + 3 \<le> length E"
    by (metis length_take min.absorb_iff2 mult_Suc_right add.commute)
  moreover have "E ! k = cipher' ! k" if "k < 3 * i + 3" for k
    using that pre by (metis nth_take mult_Suc_right add.commute)
  ultimately have E: "idx E (3 * i) = Some (fv (plain ! (3 * i) + s1))"
      "idx E (3 * i + 1) = Some (fv (plain ! (3 * i + 1) + s2))"
      "idx E (3 * i + 2) = Some (fv (plain ! (3 * i + 2) + s3))"
    using len by (auto simp: idx_def c' nth_append numeral_2_eq_2)
  have can3: "fv (plain ! k) = plain ! k" if "k < 3 * n" for k
    using canonical_nth [OF can] len that by simp
  have "take (3 * Suc i) plain = take (3 * i) plain @ [plain ! (3 * i), plain ! (3 * i + 1), plain ! (3 * i + 2)]"
    using i len by (simp add: take_Suc_conv_app_nth numeral_3_eq_3 numeral_2_eq_2)
  then show ?thesis
    using i len E st nx can3 lc c' by (simp add: dec_block_def fb u3 mod_bn254p dl mult.commute
        add.commute [of "Suc 0"] numeral_3_eq_3 numeral_2_eq_2)
qed

lemma dec_enc_blocks:
  assumes can: "canonical plain" and len: "length plain = 3 * n"
  shows "m \<le> n \<Longrightarrow> foldM (enc_block T plain (3 * n)) [0..<m] (st0, []) = Some (st, cipher) \<Longrightarrow>
     length cipher = 3 * m \<and> (\<forall>E. take (3 * m) E = cipher \<longrightarrow>
       foldM (dec_block T E (3 * n)) [0..<m] (st0, []) = Some (st, take (3 * m) plain))"
proof (induction m arbitrary: st cipher)
  case (Suc m)
  from Suc.prems(2) obtain st1 c1 where
      one: "foldM (enc_block T plain (3 * n)) [0..<m] (st0, []) = Some (st1, c1)"
      and two: "enc_block T plain (3 * n) m (st1, c1) = Some (st, cipher)"
    by (auto simp: foldM_append bind_eq_Some_conv)
  from Suc.IH [OF _ one] Suc.prems(1) have lc: "length c1 = 3 * m"
    and IH: "\<And>E. take (3 * m) E = c1 \<Longrightarrow>
      foldM (dec_block T E (3 * n)) [0..<m] (st0, []) = Some (st1, take (3 * m) plain)" by auto
  note blk = dec_enc_block [OF two _ lc len can _ refl]
  have m: "m < n" using Suc.prems(1) by simp
  have lc': "length cipher = 3 * Suc m" "take (3 * m) cipher = c1"
    using enc_block_appends [OF two m] lc by auto
  have "foldM (dec_block T E (3 * n)) [0..<Suc m] (st0, []) = Some (st, take (3 * Suc m) plain)"
    if E: "take (3 * Suc m) E = cipher" for E
  proof -
    from E lc'(2) have "take (3 * m) E = c1" by (auto simp: min_def)
    from IH [OF this] blk [OF m E] show ?thesis by (simp add: foldM_append)
  qed
  with lc' show ?case by simp
qed simp

lemma decrypt_encrypt:
  assumes enc: "NativePoseidonEncrypt T key nonce (length plaintext) plaintext = Some ct"
    and can: "canonical plaintext"
  shows "NativePoseidonDecrypt T key nonce (length plaintext) ct = Some (Inr plaintext)"
    and "length ct = pad_to_3 (length plaintext) + 1"
    and "mac \<noteq> last ct \<Longrightarrow>
      NativePoseidonDecrypt T key nonce (length plaintext) (butlast ct @ [mac]) = Some (Inl MAC_mismatch)"
proof -
  let ?n = "length plaintext"
  define n where "n = (?n + 2) div 3"
  have len: "pad_to_3 ?n = 3 * n" "Suc (3 * n) div 3 = n" "?n \<le> 3 * n"
    using pad_to_3_eq [of ?n] pad_to_3_blocks [of ?n] by (simp_all add: n_def)
  define plain where "plain = plaintext @ replicate (3 * n - ?n) 0"
  have plain: "length plain = 3 * n" "canonical plain" "take ?n plain = plaintext"
    using can len(3) by (auto simp: plain_def canonical_def list_all_iff)
  from enc obtain outs0 outs cipher where
      o: "NativePoseidonEx T [fst key, snd key, nonceEncoded nonce ?n] 0 4 = Some outs0"
      and f: "foldM (enc_block T plain (3 * n)) [0..<n] (outs0, []) = Some (outs, cipher)"
      and mac: "idx outs 1 = Some (last ct)" and ct: "ct = cipher @ [last ct]"
    by (auto simp: NativePoseidonEncrypt_def Let_def len mapM_idx_all plain_def [symmetric]
        bind_eq_Some_conv split: prod.splits)
  from dec_enc_blocks [OF plain(2,1) order_refl f] have lc: "length cipher = 3 * n"
    and dec: "\<And>E. take (3 * n) E = cipher \<Longrightarrow>
        foldM (dec_block T E (3 * n)) [0..<n] (outs0, []) = Some (outs, plain)"
    using plain(1) by auto
  have d: "NativePoseidonDecrypt T key nonce ?n (cipher @ [m]) =
      Some (if m \<noteq> last ct then Inl MAC_mismatch else Inr plaintext)" for m
    using dec [of "cipher @ [m]"] lc o mac plain(3)
    by (simp add: NativePoseidonDecrypt_def Let_def len idx_def nth_append)
  show "NativePoseidonDecrypt T key nonce ?n ct = Some (Inr plaintext)"
    by (subst ct) (simp add: d)
  show "length ct = pad_to_3 ?n + 1"
    by (subst ct) (simp add: lc len)
  show "mac \<noteq> last ct \<Longrightarrow>
      NativePoseidonDecrypt T key nonce ?n (butlast ct @ [mac]) = Some (Inl MAC_mismatch)"
    using d by (subst ct) simp
qed

lemma enc_block_total:
  assumes wf: "poseidon_tables_wf T 4" and i: "i < n" and len: "length plain = 3 * n"
    and st: "length (fst sc) = 4" "length (snd sc) = 3 * i"
  shows "\<exists>sc'. enc_block T plain (3 * n) i sc = Some sc' \<and> length (fst sc') = 4 \<and> length (snd sc') = 3 * Suc i"
proof -
  have u3: "[0..<3] = [0, 1, 2 :: nat]" by (simp add: upt_rec)
  have ex: "\<exists>out. NativePoseidonEx T [a, b, c] s 4 = Some out \<and> length out = 4" for a b c s
    using NativePoseidonEx_total [of T "[a, b, c]" 4 s] wf by (auto simp: numeral_eq_Suc)
  obtain st cipher where sc: "sc = (st, cipher)" by force
  show ?thesis
    using i len st ex [of _ _ _ "st ! 0"] unfolding sc
    by (fastforce simp: enc_block_def filter_block [OF i] u3 idx_nth Let_def nth_append bind_eq_Some_conv)
qed

lemma enc_blocks_total:
  assumes wf: "poseidon_tables_wf T 4" and len: "length plain = 3 * n" and st: "length st0 = 4"
  shows "m \<le> n \<Longrightarrow> \<exists>sc. foldM (enc_block T plain (3 * n)) [0..<m] (st0, []) = Some sc \<and>
     length (fst sc) = 4 \<and> length (snd sc) = 3 * m"
proof (induction m)
  case (Suc m)
  then obtain sc where "foldM (enc_block T plain (3 * n)) [0..<m] (st0, []) = Some sc"
      "length (fst sc) = 4" "length (snd sc) = 3 * m" by auto
  with enc_block_total [OF wf _ len, of m sc] Suc.prems show ?case
    by (auto simp: foldM_append)
qed (simp add: st)

lemma encrypt_total:
  assumes wf: "poseidon_tables_wf T 4"
  shows "\<exists>ct. NativePoseidonEncrypt T key nonce (length plaintext) plaintext = Some ct"
proof -
  let ?n = "length plaintext"
  define n where "n = (?n + 2) div 3"
  have len: "pad_to_3 ?n = 3 * n" "Suc (3 * n) div 3 = n" "?n \<le> 3 * n"
    using pad_to_3_eq [of ?n] pad_to_3_blocks [of ?n] by (simp_all add: n_def)
  obtain outs0 where o: "NativePoseidonEx T [fst key, snd key, nonceEncoded nonce ?n] 0 4 = Some outs0"
      "length outs0 = 4"
    using NativePoseidonEx_total [of T "[fst key, snd key, nonceEncoded nonce ?n]" 4 0] wf
    by (auto simp: numeral_eq_Suc)
  with enc_blocks_total [OF wf _ o(2), of "plaintext @ replicate (3 * n - ?n) 0" n n] len(3)
  show ?thesis
    by (auto simp: NativePoseidonEncrypt_def Let_def len mapM_idx_all idx_nth)
qed

subsection \<open>Properties\<close>

text \<open>
  C38. The in-circuit Poseidon permutation and the native one that the server computes are the same
  function: for every table set, every input list, every initial state and every number of outputs
  they return the same field elements, and they panic on the same inputs.
\<close>

theorem poseidon_circuit_native:
  assumes "gnark api"
  shows "PoseidonEx api T inputs s n = NativePoseidonEx T inputs s n"
  using gnark.PoseidonEx_native [OF assms] .

theorem poseidon_circuit_native_witness:
  "\<forall>T inputs s n. PoseidonEx fr_api T inputs s n = NativePoseidonEx T inputs s n"
  using poseidon_circuit_native [OF gnark_fr_api] by blast

text \<open>
  C37. The Poseidon cipher round trip. With tables of the shape the code indexes, encryption of
  canonical field elements never panics, the ciphertext has one element more than the padded
  plaintext, decryption under the same key and nonce returns exactly the plaintext, and a
  ciphertext whose last element is replaced by another is rejected with the MAC error.
\<close>

theorem poseidon_cipher_roundtrip:
  assumes "poseidon_tables_wf T 4" and "canonical plaintext"
  shows "\<exists>ct. NativePoseidonEncrypt T key nonce (length plaintext) plaintext = Some ct
    \<and> length ct = pad_to_3 (length plaintext) + 1
    \<and> NativePoseidonDecrypt T key nonce (length plaintext) ct = Some (Inr plaintext)
    \<and> (\<forall>mac. mac \<noteq> last ct \<longrightarrow>
        NativePoseidonDecrypt T key nonce (length plaintext) (butlast ct @ [mac]) = Some (Inl MAC_mismatch))"
proof -
  obtain ct where "NativePoseidonEncrypt T key nonce (length plaintext) plaintext = Some ct"
    using encrypt_total [OF assms(1)] by blast
  with decrypt_encrypt [OF this assms(2)] show ?thesis by blast
qed

text \<open>Tables of the right shape for one state size, filled with one constant.\<close>

definition uniform_tables :: "nat \<Rightarrow> fr \<Rightarrow> poseidon_tables" where
  "uniform_tables t c = \<lparr>
     GetPoseidonC = (\<lambda>u. if u = t then Some (replicate (8 * t + N_ROUNDS_P ! (t - 2)) c) else None),
     GetPoseidonS = (\<lambda>u. if u = t then Some (replicate ((t * 2 - 1) * N_ROUNDS_P ! (t - 2)) c) else None),
     GetPoseidonM = (\<lambda>u. if u = t then Some (replicate t (replicate t c)) else None),
     GetPoseidonP = (\<lambda>u. if u = t then Some (replicate t (replicate t c)) else None)\<rparr>"

theorem poseidon_cipher_roundtrip_witness:
  "poseidon_tables_wf (uniform_tables 4 5) 4 \<and> canonical [7, 8, 9, 10] \<and>
   (\<exists>ct. NativePoseidonEncrypt (uniform_tables 4 5) (3, 4) 11 4 [7, 8, 9, 10] = Some ct
     \<and> length ct = 7
     \<and> NativePoseidonDecrypt (uniform_tables 4 5) (3, 4) 11 4 ct = Some (Inr [7, 8, 9, 10]))"
proof -
  have wf: "poseidon_tables_wf (uniform_tables 4 5) 4"
    by (simp add: poseidon_tables_wf_def uniform_tables_def N_ROUNDS_P_def list_all_iff)
  have can: "canonical [7, 8, 9, 10]"
    by (simp add: canonical_def SNARK_SCALAR_FIELD_def)
  have len: "length [7, 8, 9, 10 :: int] = 4" "pad_to_3 4 + 1 = 7"
    by (simp_all add: pad_to_3_eq)
  show ?thesis
    using wf can poseidon_cipher_roundtrip [OF wf can, of "(3, 4)" 11, unfolded len] by blast
qed

end
