(* ===== verification/Primitives.thy ===== *)
theory Primitives
  imports Poseidon
begin

section \<open>The hash gadgets of the circuits\<close>

text \<open>
  \<^verbatim>\<open>gnark_circuits/primitives\<close> of the three note packages: key derivation, nullifiers, note
  commitments and the Merkle membership gadget. Each calls the permutation of \<^verbatim>\<open>gnark_circuits/poseidon\<close>,
  which the Go files import under the name \<^verbatim>\<open>pos\<close>. Here \<open>pos\<close> is an argument, so that what is proved
  about a circuit holds for every choice of the constant tables: the circuits of the repository are
  the instance \<open>pos = Poseidon api T\<close> of theory \<open>Poseidon\<close>.
\<close>

type_synonym hasher = "fr list \<Rightarrow> fr option"

definition PublicKey :: "frontend_API \<Rightarrow> hasher \<Rightarrow> fr \<Rightarrow> fr option" where
  "PublicKey api pos privateKey = pos [privateKey]"

definition Nullifier :: "frontend_API \<Rightarrow> hasher \<Rightarrow> fr \<Rightarrow> fr \<Rightarrow> fr option" where
  "Nullifier api pos privateKey pathIndex = pos [privateKey, pathIndex]"

definition NullifierBound :: "frontend_API \<Rightarrow> hasher \<Rightarrow> fr \<Rightarrow> fr \<Rightarrow> fr \<Rightarrow> fr option" where
  "NullifierBound api pos privateKey pathIndex contractAddress = pos [privateKey, pathIndex, contractAddress]"

definition Commitment :: "frontend_API \<Rightarrow> hasher \<Rightarrow> fr \<Rightarrow> fr \<Rightarrow> fr option" where
  "Commitment api pos uniqueId publicKey = pos [uniqueId, publicKey]"

definition Erc20Commitment :: "frontend_API \<Rightarrow> hasher \<Rightarrow> fr \<Rightarrow> fr \<Rightarrow> fr \<Rightarrow> fr \<Rightarrow> fr option" where
  "Erc20Commitment api pos contractAddress amount publicKey salt =
     pos [contractAddress, amount, publicKey, salt]"

definition Erc20CommitmentV2 :: "frontend_API \<Rightarrow> hasher \<Rightarrow> fr \<Rightarrow> fr \<Rightarrow> fr \<Rightarrow> fr \<Rightarrow> fr option" where
  "Erc20CommitmentV2 api pos pkSpend saltBField amount tokenId =
     pos [pkSpend, saltBField, amount, tokenId]"

definition Erc721Commitment :: "frontend_API \<Rightarrow> hasher \<Rightarrow> fr \<Rightarrow> fr \<Rightarrow> fr \<Rightarrow> fr option" where
  "Erc721Commitment api pos tokenId publicKey salt = Erc20CommitmentV2 api pos publicKey salt 1 tokenId"

definition Erc1155Commitment :: "frontend_API \<Rightarrow> hasher \<Rightarrow> fr \<Rightarrow> fr \<Rightarrow> fr \<Rightarrow> fr \<Rightarrow> fr option" where
  "Erc1155Commitment api pos tokenId amount publicKey salt =
     Erc20CommitmentV2 api pos publicKey salt amount tokenId"

definition AuctionId :: "frontend_API \<Rightarrow> hasher \<Rightarrow> fr \<Rightarrow> fr option" where
  "AuctionId api pos commitment = pos [commitment]"

lemmas prim_defs = PublicKey_def Nullifier_def NullifierBound_def Commitment_def Erc20Commitment_def
  Erc20CommitmentV2_def Erc721Commitment_def Erc1155Commitment_def AuctionId_def

subsection \<open>Merkle membership\<close>

definition MerkleProof :: "frontend_API \<Rightarrow> hasher \<Rightarrow> fr \<Rightarrow> fr \<Rightarrow> fr list \<Rightarrow> fr option" where
  "MerkleProof api pos leaf pathIndices pathElements = do {
     let levels = length pathElements;
     idxBits \<leftarrow> ToBinary api pathIndices levels;
     foldM (\<lambda>i currentHash. do {
         bit \<leftarrow> idx idxBits i;
         sibling \<leftarrow> idx pathElements i;
         left \<leftarrow> Select api bit sibling currentHash;
         right \<leftarrow> Select api bit currentHash sibling;
         pos [left, right] }) [0..<levels] leaf }"

text \<open>
  The reference: the node a leaf hashes to along a path, the position of the leaf read from its
  lowest bit up. \<open>path_nodes\<close> lists the pairs that are hashed on the way.
\<close>

definition node_pair :: "fr \<Rightarrow> int \<Rightarrow> fr \<Rightarrow> fr list" where
  "node_pair cur k s = (if odd k then [fv s, fv cur] else [fv cur, fv s])"

fun merkle_path :: "hasher \<Rightarrow> fr \<Rightarrow> int \<Rightarrow> fr list \<Rightarrow> fr option" where
  "merkle_path pos cur k [] = Some cur"
| "merkle_path pos cur k (s # ss) = do {
     h \<leftarrow> pos (node_pair cur k s); merkle_path pos h (k div 2) ss }"

fun path_nodes :: "hasher \<Rightarrow> fr \<Rightarrow> int \<Rightarrow> fr list \<Rightarrow> fr list list" where
  "path_nodes pos cur k [] = []"
| "path_nodes pos cur k (s # ss) = node_pair cur k s #
     (case pos (node_pair cur k s) of None \<Rightarrow> [] | Some h \<Rightarrow> path_nodes pos h (k div 2) ss)"

text \<open>Two hash inputs that differ as field elements and have the same digest.\<close>

definition collides :: "hasher \<Rightarrow> fr list \<Rightarrow> fr list \<Rightarrow> bool" where
  "collides pos xs ys \<longleftrightarrow> map fv xs \<noteq> map fv ys \<and>
     (\<exists>u v. pos xs = Some u \<and> pos ys = Some v \<and> fv u = fv v)"

lemma collidesI:
  "pos xs = Some u \<Longrightarrow> pos ys = Some v \<Longrightarrow> fv u = fv v \<Longrightarrow> \<not> collides pos xs ys \<Longrightarrow> map fv xs = map fv ys"
  by (auto simp: collides_def)

lemma collides_code [code]:
  "collides pos xs ys \<longleftrightarrow> map fv xs \<noteq> map fv ys \<and>
     (case (pos xs, pos ys) of (Some u, Some v) \<Rightarrow> fv u = fv v | _ \<Rightarrow> False)"
  by (auto simp: collides_def split: option.splits)

lemma merkle_path_SomeD:
  "merkle_path pos cur k (s # ss) = Some r \<Longrightarrow>
   \<exists>h. pos (node_pair cur k s) = Some h \<and> merkle_path pos h (k div 2) ss = Some r"
  by (auto simp: bind_eq_Some_conv)

lemma node_pair_fv: "map fv (node_pair a k s) = node_pair a k s"
  by (simp add: node_pair_def)

lemma node_pair_inj: "node_pair a k s = node_pair b k t \<Longrightarrow> fv a = fv b \<and> fv s = fv t"
  by (auto simp: node_pair_def split: if_splits)

lemma merkle_path_binding:
  assumes "merkle_path pos a k ss = Some r" and "merkle_path pos b k ts = Some r'" and "fv r = fv r'"
    and "length ss = length ts" and "fv a \<noteq> fv b"
  shows "\<exists>xs\<in>set (path_nodes pos a k ss). \<exists>ys\<in>set (path_nodes pos b k ts). collides pos xs ys"
  using assms
proof (induction ss arbitrary: a b k ts)
  case (Cons s ss)
  then obtain t ts' where ts: "ts = t # ts'" by (cases ts) auto
  obtain h where h: "pos (node_pair a k s) = Some h" "merkle_path pos h (k div 2) ss = Some r"
    using merkle_path_SomeD [OF Cons.prems(1)] by blast
  obtain g where g: "pos (node_pair b k t) = Some g" "merkle_path pos g (k div 2) ts' = Some r'"
    using merkle_path_SomeD [OF Cons.prems(2) [unfolded ts]] by blast
  have ne: "node_pair a k s \<noteq> node_pair b k t"
    using Cons.prems(5) node_pair_inj by blast
  show ?case
  proof (cases "fv h = fv g")
    case True
    with h(1) g(1) ne have "collides pos (node_pair a k s) (node_pair b k t)"
      by (simp add: collides_def node_pair_fv)
    then show ?thesis by (simp add: ts)
  next
    case False
    have "length ss = length ts'" using Cons.prems(4) by (simp add: ts)
    from Cons.IH [OF h(2) g(2) Cons.prems(3) this False]
    obtain xs ys where "xs \<in> set (path_nodes pos h (k div 2) ss)"
        "ys \<in> set (path_nodes pos g (k div 2) ts')" "collides pos xs ys" by blast
    with h(1) g(1) show ?thesis by (auto simp: ts)
  qed
qed simp

lemma foldM_upt_Suc: "foldM f [0..<Suc n] s = do { s' \<leftarrow> f 0 s; foldM (\<lambda>i. f (Suc i)) [0..<n] s' }"
proof -
  have "foldM f (map Suc is) = foldM (\<lambda>i. f (Suc i)) is" for "is"
    by (induction "is") (auto simp: fun_eq_iff split: Option.bind_splits)
  then show ?thesis by (simp add: upt_conv_Cons map_Suc_upt [symmetric] del: upt_Suc)
qed

lemma mapM_idx_take:
  "mapM (idx xs) [0..<n] = (if n \<le> length xs then Some (take n xs) else None)"
proof (cases "n \<le> length xs")
  case True
  then show ?thesis by (simp add: mapM_Some_iff list_all2_conv_all_nth idx_nth)
next
  case False
  then have "mapM (idx xs) [0..<n] \<noteq> Some ys" for ys
    using mapM_nth [of "idx xs" "[0..<n]" ys "length xs"] by (auto simp: idx_def)
  with False show ?thesis by auto
qed

context gnark
begin

lemma merkle_loop:
  "foldM (\<lambda>i currentHash. do {
         bit \<leftarrow> idx (le_bits (length ss) k) i; sibling \<leftarrow> idx ss i;
         left \<leftarrow> Select api bit sibling currentHash;
         right \<leftarrow> Select api bit currentHash sibling;
         pos [left, right] }) [0..<length ss] leaf = merkle_path pos leaf k ss"
proof (induction ss arbitrary: leaf k)
  case (Cons s ss)
  have "(do { left \<leftarrow> Select api (k mod 2) s leaf; right \<leftarrow> Select api (k mod 2) leaf s; pos [left, right] })
      = pos (node_pair leaf k s)"
    by (cases "odd k") (auto simp: Select node_pair_def odd_iff_mod_2_eq_one even_iff_mod_2_eq_zero)
  then show ?case
    by (simp add: foldM_upt_Suc le_bits_Suc Cons.IH del: upt_Suc Option.bind_assoc flip: Option.bind_assoc)
qed simp

lemma MerkleProof_path:
  assumes "length ss < 254"
  shows "MerkleProof api pos leaf k ss =
    (if fv k < 2 ^ length ss then merkle_path pos leaf (fv k) ss else None)"
  using merkle_loop [of ss "fv k" pos leaf] by (simp add: MerkleProof_def ToBinary [OF assms])

end

subsection \<open>Spending a note\<close>

text \<open>
  The vocabulary of the circuit specifications: a hash call whose digest is a given field element,
  and the note that a secret key opens at a position of a tree, with its nullifier and its root.
\<close>

definition hashes_to :: "hasher \<Rightarrow> fr list \<Rightarrow> fr \<Rightarrow> bool" where
  "hashes_to pos xs v \<longleftrightarrow> (case pos xs of None \<Rightarrow> False | Some h \<Rightarrow> fv h = fv v)"

definition spends ::
  "hasher \<Rightarrow> nat \<Rightarrow> fr \<Rightarrow> fr \<Rightarrow> fr \<Rightarrow> fr \<Rightarrow> fr \<Rightarrow> fr list \<Rightarrow> (fr \<Rightarrow> fr \<Rightarrow> fr \<Rightarrow> bool) \<Rightarrow> bool" where
  "spends pos depth sk salt amount tokenId k path P \<longleftrightarrow> fv k < 2 ^ depth \<and>
     (\<exists>pk nf cm root. pos [sk] = Some pk \<and> pos [sk, k] = Some nf \<and>
        pos [pk, salt, amount, tokenId] = Some cm \<and>
        merkle_path pos cm (fv k) (take depth path) = Some root \<and> P pk nf root)"

definition opens ::
  "hasher \<Rightarrow> nat \<Rightarrow> fr \<Rightarrow> fr \<Rightarrow> fr \<Rightarrow> fr \<Rightarrow> fr \<Rightarrow> fr list \<Rightarrow> (fr \<Rightarrow> fr \<Rightarrow> bool) \<Rightarrow> bool" where
  "opens pos depth sk salt amount tokenId k path P \<longleftrightarrow> fv k < 2 ^ depth \<and>
     (\<exists>pk cm root. pos [sk] = Some pk \<and> pos [pk, salt, amount, tokenId] = Some cm \<and>
        merkle_path pos cm (fv k) (take depth path) = Some root \<and> P pk root)"

lemma spends_eval [code]:
  "spends pos depth sk salt amount tokenId k path P \<longleftrightarrow> fv k < 2 ^ depth \<and>
     (case pos [sk] of None \<Rightarrow> False | Some pk \<Rightarrow>
      case pos [sk, k] of None \<Rightarrow> False | Some nf \<Rightarrow>
      case pos [pk, salt, amount, tokenId] of None \<Rightarrow> False | Some cm \<Rightarrow>
      case merkle_path pos cm (fv k) (take depth path) of None \<Rightarrow> False | Some root \<Rightarrow> P pk nf root)"
  by (auto simp: spends_def split: option.splits)

lemma opens_eval [code]:
  "opens pos depth sk salt amount tokenId k path P \<longleftrightarrow> fv k < 2 ^ depth \<and>
     (case pos [sk] of None \<Rightarrow> False | Some pk \<Rightarrow>
      case pos [pk, salt, amount, tokenId] of None \<Rightarrow> False | Some cm \<Rightarrow>
      case merkle_path pos cm (fv k) (take depth path) of None \<Rightarrow> False | Some root \<Rightarrow> P pk root)"
  by (auto simp: opens_def split: option.splits)

lemma hashes_to_iff: "hashes_to pos xs v \<longleftrightarrow> (\<exists>h. pos xs = Some h \<and> fv h = fv v)"
  by (simp add: hashes_to_def split: option.splits)

lemma hashes_to_unique:
  "hashes_to pos xs v \<Longrightarrow> hashes_to pos ys v \<Longrightarrow> map fv xs = map fv ys \<or> collides pos xs ys"
  by (auto simp: hashes_to_iff collides_def)

lemma spends_mono:
  "spends pos depth sk salt amount tokenId k path P \<Longrightarrow> (\<And>pk nf root. P pk nf root \<Longrightarrow> Q pk nf root) \<Longrightarrow>
   spends pos depth sk salt amount tokenId k path Q"
  unfolding spends_def by blast

lemma fold_sum_upt: "fv (fold (\<lambda>i a. fv (a + g i)) [0..<n] 0) = fv (\<Sum>i<n. g i)"
  by (simp add: fv_fold_add interv_sum_list_conv_sum_set_nat lessThan_atLeast0)

text \<open>
  Everything an opening hashes: the secret key, the note and the nodes of the path. Two openings
  of one position of one tree are openings of one note, by one key, unless two of these inputs
  collide. The hash is a function of field elements: it may not see which integer represents them.
\<close>

definition opening_inputs ::
  "hasher \<Rightarrow> nat \<Rightarrow> fr \<Rightarrow> fr \<Rightarrow> fr \<Rightarrow> fr \<Rightarrow> fr \<Rightarrow> fr list \<Rightarrow> fr list list" where
  "opening_inputs pos depth sk salt amount tokenId k path = [sk] #
     (case pos [sk] of None \<Rightarrow> [] | Some pk \<Rightarrow> [pk, salt, amount, tokenId] #
       (case pos [pk, salt, amount, tokenId] of None \<Rightarrow> []
        | Some cm \<Rightarrow> path_nodes pos cm (fv k) (take depth path)))"

definition some_collide :: "hasher \<Rightarrow> fr list list \<Rightarrow> fr list list \<Rightarrow> bool" where
  "some_collide pos xss yss \<longleftrightarrow> (\<exists>xs\<in>set xss. \<exists>ys\<in>set yss. collides pos xs ys)"

definition respects_fv :: "hasher \<Rightarrow> bool" where
  "respects_fv pos \<longleftrightarrow> (\<forall>xs ys. map fv xs = map fv ys \<longrightarrow> pos xs = pos ys)"

lemma spends_unique:
  assumes "respects_fv pos" and "fv k = fv k'"
    and "depth \<le> length path" "depth \<le> length path'" and "fv root = fv root'"
    and a: "spends pos depth sk salt v tok k path (\<lambda>pk nf r. fv nf = fv n \<and> fv r = fv root)"
    and b: "spends pos depth sk' salt' v' tok' k' path' (\<lambda>pk nf r. fv nf = fv n' \<and> fv r = fv root')"
  shows "(fv sk = fv sk' \<and> fv salt = fv salt' \<and> fv v = fv v' \<and> fv tok = fv tok' \<and> fv n = fv n')
    \<or> some_collide pos (opening_inputs pos depth sk salt v tok k path)
         (opening_inputs pos depth sk' salt' v' tok' k' path')"
proof (rule disjCI)
  assume free: "\<not> some_collide pos (opening_inputs pos depth sk salt v tok k path)
      (opening_inputs pos depth sk' salt' v' tok' k' path')"
  from a obtain pk nf cm r where 1: "pos [sk] = Some pk" "pos [sk, k] = Some nf"
      "pos [pk, salt, v, tok] = Some cm" "merkle_path pos cm (fv k) (take depth path) = Some r"
      "fv nf = fv n" "fv r = fv root" by (auto simp: spends_def)
  from b obtain pk' nf' cm' r' where 2: "pos [sk'] = Some pk'" "pos [sk', k'] = Some nf'"
      "pos [pk', salt', v', tok'] = Some cm'"
      "merkle_path pos cm' (fv k) (take depth path') = Some r'"
      "fv nf' = fv n'" "fv r' = fv root'" unfolding spends_def assms(2) by auto
  have cm: "fv cm = fv cm'"
    using merkle_path_binding [OF 1(4) 2(4)] 1 2 free assms(2-5)
    by (fastforce simp: some_collide_def opening_inputs_def)
  have cn: "map fv [pk, salt, v, tok] = map fv [pk', salt', v', tok']"
    by (rule collidesI [OF 1(3) 2(3) cm]) (use free 1 2 in \<open>auto simp: some_collide_def opening_inputs_def\<close>)
  have key: "map fv [sk] = map fv [sk']"
    by (rule collidesI [OF 1(1) 2(1)]) (use cn free in \<open>auto simp: some_collide_def opening_inputs_def\<close>)
  have "pos [sk, k] = pos [sk', k']"
    using assms(1) key assms(2) by (auto simp: respects_fv_def)
  with 1 2 cn key show "fv sk = fv sk' \<and> fv salt = fv salt' \<and> fv v = fv v' \<and> fv tok = fv tok' \<and> fv n = fv n'"
    by auto
qed

text \<open>
  Sums of range-checked values do not wrap: two sums of at most \<open>n\<close> values below \<open>R\<close> with
  \<open>n * R\<close> at most the field order are equal as integers when they are equal in the field.
\<close>

lemma sum_no_wrap:
  fixes n :: nat
  assumes "\<And>i. i < n \<Longrightarrow> fv (g i) < R" and "int n * R \<le> SNARK_SCALAR_FIELD"
  shows "fv (\<Sum>i<n. g i) = (\<Sum>i<n. fv (g i))"
proof (cases "n = 0")
  case False
  have "fv (\<Sum>i<n. g i) = fv (\<Sum>i<n. fv (g i))"
    by (simp add: fv_def mod_sum_eq)
  moreover have "(\<Sum>i<n. fv (g i)) < (\<Sum>i<n. R)"
    using False assms(1) by (intro sum_strict_mono) auto
  ultimately show ?thesis using assms(2) by (simp add: fv_id sum_nonneg)
qed simp

lemma nativeArk_fv:
  assumes eq: "map fv xs = map fv ys"
  shows "nativeArk (length xs + 1) C r (a # xs) = nativeArk (length ys + 1) C r (a # ys)"
proof -
  have len: "length xs = length ys" using map_eq_imp_length_eq [OF eq] .
  have "fv ((a # xs) ! i + c) = fv ((a # ys) ! i + c)" if i: "i < Suc (length ys)" for i c
  proof (cases i)
    case (Suc j)
    with i len have "fv (xs ! j) = fv (ys ! j)" using eq by (metis Suc_less_SucD nth_map)
    then have "fv (fv (xs ! j) + c) = fv (fv (ys ! j) + c)" by simp
    then show ?thesis using Suc by simp
  qed simp
  then show ?thesis by (auto simp: nativeArk_def mod_bn254p idx_nth len intro!: mapM_cong)
qed

lemma NativePoseidonEx_fv:
  assumes eq: "map fv xs = map fv ys"
  shows "NativePoseidonEx T xs s n = NativePoseidonEx T ys s n"
proof -
  have len: "length xs = length ys" using map_eq_imp_length_eq [OF eq] .
  show ?thesis
    unfolding NativePoseidonEx_def Let_def nativeArk_fv [OF eq] unfolding len ..
qed

context gnark
begin

lemma Poseidon_respects_fv: "respects_fv (Poseidon api T)"
  unfolding respects_fv_def Poseidon_def PoseidonEx_native by (metis NativePoseidonEx_fv)

lemmas circuit_simps = bind_eq_Some_conv idx_Some_iff mapM_idx_take gadgets MerkleProof_path
  prim_defs hashes_to_iff Add

end

subsection \<open>Properties\<close>

text \<open>
  The Merkle gadget computes the hash path of its leaf at the position given by the path index,
  and it is satisfiable for exactly the indices that fit the depth: an index of \<open>2 ^ depth\<close> or more
  violates the bit decomposition.
\<close>

theorem merkle_proof_refines_path:
  assumes "gnark api" and "length pathElements < 254"
  shows "MerkleProof api pos leaf pathIndices pathElements =
    (if fv pathIndices < 2 ^ length pathElements
     then merkle_path pos leaf (fv pathIndices) pathElements else None)"
  using gnark.MerkleProof_path [OF assms] .

text \<open>A small hash that witnesses evaluate: a weighted sum of its inputs, reduced in the field.\<close>

definition sum_hash :: hasher where
  "sum_hash xs = Some (fv (fold (\<lambda>x a. 31 * a + x) xs (int (length xs))))"

lemma sum_hash_respects_fv: "respects_fv sum_hash"
proof -
  have "fv (fold (\<lambda>x a. 31 * a + x) xs s) = fv (fold (\<lambda>x a. 31 * a + x) ys t)"
    if "map fv xs = map fv ys" "fv s = fv t" for xs ys :: "int list" and s t :: int
    using that
  proof (induction xs arbitrary: ys s t)
    case (Cons x xs)
    then obtain y ys' where ys: "ys = y # ys'" "fv x = fv y" "map fv xs = map fv ys'" by auto
    have "fv (31 * s + x) = fv (31 * fv s + fv x)" by (metis fv_reduce(2,6) add.commute)
    also have "\<dots> = fv (31 * t + y)" using Cons.prems(2) ys(2) by (metis fv_reduce(2,6) add.commute)
    finally show ?case using Cons.IH [OF ys(3)] by (simp add: ys(1))
  qed auto
  then show ?thesis
    unfolding respects_fv_def sum_hash_def by (metis map_eq_imp_length_eq)
qed

lemma fv_eval: "fv x = x mod 21888242871839275222246405745257275088548364400416034343698204186575808495617"
  by (simp add: fv_def SNARK_SCALAR_FIELD_def)

theorem merkle_proof_refines_path_witness:
  "MerkleProof fr_api sum_hash 5 2 [7, 8] = merkle_path sum_hash 5 2 [7, 8]
   \<and> MerkleProof fr_api sum_hash 5 2 [7, 8] = Some 4254 \<and> MerkleProof fr_api sum_hash 5 4 [7, 8] = None"
  using merkle_proof_refines_path [OF gnark_fr_api, of "[7, 8]" sum_hash 5 2]
    merkle_proof_refines_path [OF gnark_fr_api, of "[7, 8]" sum_hash 5 4]
  by (simp add: fv_eval sum_hash_def node_pair_def cong: bind_strict)

text \<open>
  Merkle binding. Two openings of the same root at the same position and depth open to the same
  leaf, unless the pairs hashed along the two paths contain an explicit collision of the hash.
\<close>

theorem merkle_proof_binding:
  assumes "gnark api" and "length ss < 254" and "length ts = length ss"
    and "MerkleProof api pos a k ss = Some r" and "MerkleProof api pos b k ts = Some r'" and "fv r = fv r'"
  shows "fv a = fv b \<or> (\<exists>xs\<in>set (path_nodes pos a (fv k) ss).
    \<exists>ys\<in>set (path_nodes pos b (fv k) ts). collides pos xs ys)"
proof -
  have "merkle_path pos a (fv k) ss = Some r" "merkle_path pos b (fv k) ts = Some r'"
    using assms gnark.MerkleProof_path [OF assms(1)] by (auto split: if_splits)
  with merkle_path_binding [of pos a "fv k" ss r b ts r'] assms show ?thesis by auto
qed

lemma merkle_proof_eval:
  "MerkleProof fr_api sum_hash 5 2 [7, 8] = Some 4254" "MerkleProof fr_api sum_hash 6 2 [7, 7] = Some 4254"
  "fv 5 = 5" "fv 6 = 6" "fv 2 = 2"
  by (simp_all add: fr.MerkleProof_path fv_eval sum_hash_def node_pair_def cong: bind_strict)

theorem merkle_proof_binding_witness:
  "MerkleProof fr_api sum_hash 5 2 [7, 8] = Some 4254
   \<and> MerkleProof fr_api sum_hash 6 2 [7, 7] = Some 4254
   \<and> ((5 :: int) = 6 \<or> (\<exists>xs\<in>set (path_nodes sum_hash 5 2 [7, 8]).
        \<exists>ys\<in>set (path_nodes sum_hash 6 2 [7, 7]). collides sum_hash xs ys))"
  using merkle_proof_binding [OF gnark_fr_api, of "[7, 8]" "[7, 7]" sum_hash 5 2 4254 6 4254]
    merkle_proof_eval by simp
end
