(* ===== verification/Erc20_JoinSplit.thy ===== *)
theory Erc20_JoinSplit
  imports Primitives
begin

section \<open>The join-split circuit of the DvP vault\<close>

text \<open>
  \<^verbatim>\<open>enygma_dvp/gnark_circuits/templates/ERC20.go\<close>: spend \<^verbatim>\<open>TmNInputs\<close> notes and create
  \<^verbatim>\<open>TmMOutputs\<close> notes of one token. \<open>Erc20Circuit_Define\<close> is the method \<^verbatim>\<open>Define\<close>; its two loop
  bodies are the definitions before it.
\<close>

record Erc20CircuitConfig =
  TmNInputs :: nat
  TmMOutputs :: nat
  TmMerkleTreeDepth :: nat
  TmRange :: fr

record Erc20Circuit =
  Config :: Erc20CircuitConfig
  StMessage :: fr
  StTreeNumber :: "fr list"
  StMerkleRoots :: "fr list"
  StNullifiers :: "fr list"
  StCommitmentOut :: "fr list"
  WtPrivateKeysIn :: "fr list"
  WtValuesIn :: "fr list"
  WtSaltsIn :: "fr list"
  WtPathElements :: "fr list list"
  WtPathIndices :: "fr list"
  WtTokenId :: fr
  WtSpendPublicKeysOut :: "fr list"
  WtValuesOut :: "fr list"
  WtSaltsOut :: "fr list"

definition erc20_input :: "frontend_API \<Rightarrow> hasher \<Rightarrow> Erc20Circuit \<Rightarrow> nat \<Rightarrow> fr \<Rightarrow> fr option" where
  "erc20_input api pos circuit i inputsTotals = do {
     value \<leftarrow> idx (WtValuesIn circuit) i;
     AssertIsEqual api (IsLess api value (TmRange (Config circuit))) 1;
     AssertIsEqual api (IsLessOrEqual api 0 value) 1;
     privateKey \<leftarrow> idx (WtPrivateKeysIn circuit) i;
     pkSpendIn \<leftarrow> PublicKey api pos privateKey;
     pathIndex \<leftarrow> idx (WtPathIndices circuit) i;
     nullifier \<leftarrow> Nullifier api pos privateKey pathIndex;
     stNullifier \<leftarrow> idx (StNullifiers circuit) i;
     AssertIsEqual api nullifier stNullifier;
     salt \<leftarrow> idx (WtSaltsIn circuit) i;
     commitment \<leftarrow> Erc20CommitmentV2 api pos pkSpendIn salt value (WtTokenId circuit);
     row \<leftarrow> idx (WtPathElements circuit) i;
     pathElement \<leftarrow> mapM (idx row) [0..<TmMerkleTreeDepth (Config circuit)];
     root \<leftarrow> MerkleProof api pos commitment pathIndex pathElement;
     let isZero = IsZero api value;
     let enable = Sub api 1 isZero;
     AssertIsEqual api (Mul api stNullifier isZero) 0;
     stRoot \<leftarrow> idx (StMerkleRoots circuit) i;
     let diff = Sub api stRoot root;
     AssertIsEqual api (Mul api diff enable) 0;
     Some (Add api inputsTotals value) }"

definition erc20_output :: "frontend_API \<Rightarrow> hasher \<Rightarrow> Erc20Circuit \<Rightarrow> nat \<Rightarrow> fr \<Rightarrow> fr option" where
  "erc20_output api pos circuit i outputsTotals = do {
     value \<leftarrow> idx (WtValuesOut circuit) i;
     AssertIsEqual api (IsLess api value (TmRange (Config circuit))) 1;
     AssertIsEqual api (IsLessOrEqual api 0 value) 1;
     pk \<leftarrow> idx (WtSpendPublicKeysOut circuit) i;
     salt \<leftarrow> idx (WtSaltsOut circuit) i;
     commitment \<leftarrow> Erc20CommitmentV2 api pos pk salt value (WtTokenId circuit);
     stCommitment \<leftarrow> idx (StCommitmentOut circuit) i;
     AssertIsEqual api commitment stCommitment;
     Some (Add api outputsTotals value) }"

definition Erc20Circuit_Define :: "frontend_API \<Rightarrow> hasher \<Rightarrow> Erc20Circuit \<Rightarrow> unit option" where
  "Erc20Circuit_Define api pos circuit = do {
     inputsTotals \<leftarrow> foldM (erc20_input api pos circuit) [0..<TmNInputs (Config circuit)] 0;
     outputsTotals \<leftarrow> foldM (erc20_output api pos circuit) [0..<TmMOutputs (Config circuit)] 0;
     AssertIsEqual api outputsTotals inputsTotals }"

subsection \<open>What the constraints say\<close>

definition erc20_input_ok :: "hasher \<Rightarrow> Erc20Circuit \<Rightarrow> nat \<Rightarrow> bool" where
  "erc20_input_ok pos c i \<longleftrightarrow>
     i < length (WtValuesIn c) \<and> i < length (WtPrivateKeysIn c) \<and> i < length (WtPathIndices c) \<and>
     i < length (StNullifiers c) \<and> i < length (WtSaltsIn c) \<and> i < length (WtPathElements c) \<and>
     i < length (StMerkleRoots c) \<and> TmMerkleTreeDepth (Config c) \<le> length (WtPathElements c ! i) \<and>
     fv (WtValuesIn c ! i) < fv (TmRange (Config c)) \<and>
     spends pos (TmMerkleTreeDepth (Config c)) (WtPrivateKeysIn c ! i) (WtSaltsIn c ! i)
       (WtValuesIn c ! i) (WtTokenId c) (WtPathIndices c ! i) (WtPathElements c ! i)
       (\<lambda>pk nf root. fv nf = fv (StNullifiers c ! i) \<and>
          (if fv (WtValuesIn c ! i) = 0 then fv (StNullifiers c ! i) = 0
           else fv root = fv (StMerkleRoots c ! i)))"

definition erc20_output_ok :: "hasher \<Rightarrow> Erc20Circuit \<Rightarrow> nat \<Rightarrow> bool" where
  "erc20_output_ok pos c i \<longleftrightarrow>
     i < length (WtValuesOut c) \<and> i < length (WtSpendPublicKeysOut c) \<and> i < length (WtSaltsOut c) \<and>
     i < length (StCommitmentOut c) \<and> fv (WtValuesOut c ! i) < fv (TmRange (Config c)) \<and>
     hashes_to pos [WtSpendPublicKeysOut c ! i, WtSaltsOut c ! i, WtValuesOut c ! i, WtTokenId c]
       (StCommitmentOut c ! i)"

definition erc20_spec :: "hasher \<Rightarrow> Erc20Circuit \<Rightarrow> bool" where
  "erc20_spec pos c \<longleftrightarrow>
     (\<forall>i<TmNInputs (Config c). erc20_input_ok pos c i) \<and>
     (\<forall>j<TmMOutputs (Config c). erc20_output_ok pos c j) \<and>
     fv (\<Sum>j<TmMOutputs (Config c). WtValuesOut c ! j) = fv (\<Sum>i<TmNInputs (Config c). WtValuesIn c ! i)"

context gnark
begin

lemma erc20_input_iff:
  assumes "TmMerkleTreeDepth (Config c) < 254"
  shows "erc20_input api pos c i a = Some b \<longleftrightarrow> erc20_input_ok pos c i \<and> b = fv (a + WtValuesIn c ! i)"
  using assms
  by (auto simp: erc20_input_def erc20_input_ok_def spends_def circuit_simps Let_def split: if_splits)

lemma erc20_output_iff:
  "erc20_output api pos c i a = Some b \<longleftrightarrow> erc20_output_ok pos c i \<and> b = fv (a + WtValuesOut c ! i)"
  by (auto simp: erc20_output_def erc20_output_ok_def circuit_simps)

lemma Erc20Circuit_Define_iff:
  assumes "TmMerkleTreeDepth (Config c) < 254"
  shows "Erc20Circuit_Define api pos c = Some () \<longleftrightarrow> erc20_spec pos c"
  unfolding Erc20Circuit_Define_def erc20_spec_def
  by (auto simp: foldM_check_acc [OF erc20_input_iff [OF assms]] foldM_check_acc [OF erc20_output_iff]
      bind_eq_Some_conv gadgets fold_sum_upt)

end
lemma erc20_specD:
  assumes "erc20_spec pos c"
  shows "i < TmNInputs (Config c) \<Longrightarrow> erc20_input_ok pos c i"
    and "j < TmMOutputs (Config c) \<Longrightarrow> erc20_output_ok pos c j"
    and "fv (\<Sum>j<TmMOutputs (Config c). WtValuesOut c ! j) = fv (\<Sum>i<TmNInputs (Config c). WtValuesIn c ! i)"
  using assms by (auto simp: erc20_spec_def)

lemma erc20_input_spends:
  assumes "erc20_input_ok pos c i" and "fv (WtValuesIn c ! i) \<noteq> 0"
  shows "spends pos (TmMerkleTreeDepth (Config c)) (WtPrivateKeysIn c ! i) (WtSaltsIn c ! i)
    (WtValuesIn c ! i) (WtTokenId c) (WtPathIndices c ! i) (WtPathElements c ! i)
    (\<lambda>pk nf r. fv nf = fv (StNullifiers c ! i) \<and> fv r = fv (StMerkleRoots c ! i))"
  using assms by (auto simp: erc20_input_ok_def elim: spends_mono)

text \<open>A payment of 30 out of a note of 50, with 20 of change, in a tree of depth 2.\<close>

definition erc20_example :: Erc20Circuit where
  "erc20_example = \<lparr>
     Config = \<lparr>TmNInputs = 1, TmMOutputs = 2, TmMerkleTreeDepth = 2, TmRange = 1000\<rparr>,
     StMessage = 0, StTreeNumber = [0], StMerkleRoots = [146296447], StNullifiers = [2017],
     StCommitmentOut = [6715446, 4720100],
     WtPrivateKeysIn = [3], WtValuesIn = [50], WtSaltsIn = [11], WtPathElements = [[7, 8]],
     WtPathIndices = [2], WtTokenId = 9,
     WtSpendPublicKeysOut = [101, 34], WtValuesOut = [30, 20], WtSaltsOut = [12, 13]\<rparr>"

lemmas eval_simps = sum_hash_def fv_eval node_pair_def

lemma erc20_example_spec: "erc20_spec sum_hash erc20_example"
  by (simp add: erc20_spec_def erc20_input_ok_def erc20_output_ok_def spends_eval hashes_to_def
      erc20_example_def eval_simps numeral_2_eq_2 All_less_Suc cong: bind_strict)

lemma erc20_example_sat: "Erc20Circuit_Define fr_api sum_hash erc20_example = Some ()"
  using fr.Erc20Circuit_Define_iff [of erc20_example sum_hash] erc20_example_spec
  by (simp add: erc20_example_def)

subsection \<open>Properties\<close>

text \<open>
  The join-split circuit accepts an assignment exactly when it meets the specification
  \<^term>\<open>erc20_spec\<close>: every input is in range and is opened with its key, salt and path, every output
  is in range and is the committed note, and the totals agree in the field.
\<close>

theorem erc20_define_refines_spec:
  assumes "gnark api" and "TmMerkleTreeDepth (Config c) < 254"
  shows "Erc20Circuit_Define api pos c = Some () \<longleftrightarrow> erc20_spec pos c"
  using gnark.Erc20Circuit_Define_iff [OF assms] .

theorem erc20_define_refines_spec_witness:
  "Erc20Circuit_Define fr_api sum_hash erc20_example = Some () \<and> erc20_spec sum_hash erc20_example"
  using erc20_define_refines_spec [OF gnark_fr_api, of erc20_example sum_hash] erc20_example_spec
  by (simp add: erc20_example_def)

text \<open>
  C2. No value is created. When the range bound is small enough for the totals not to wrap around the
  field, an accepted join-split has outputs whose values sum, as integers, to the sum of its inputs.
\<close>

theorem erc20_value_conserved:
  assumes "gnark api" and "TmMerkleTreeDepth (Config c) < 254"
    and "Erc20Circuit_Define api pos c = Some ()"
    and "int (max (TmNInputs (Config c)) (TmMOutputs (Config c))) * fv (TmRange (Config c)) \<le> SNARK_SCALAR_FIELD"
  shows "(\<Sum>j<TmMOutputs (Config c). fv (WtValuesOut c ! j)) = (\<Sum>i<TmNInputs (Config c). fv (WtValuesIn c ! i))"
proof -
  have spec: "erc20_spec pos c" using gnark.Erc20Circuit_Define_iff [OF assms(1,2)] assms(3) by blast
  have bound: "int n * fv (TmRange (Config c)) \<le> SNARK_SCALAR_FIELD"
    if "n \<le> max (TmNInputs (Config c)) (TmMOutputs (Config c))" for n
    using assms(4) that by (smt (verit) fv_range(1) mult_right_mono of_nat_mono)
  have "fv (\<Sum>i<TmNInputs (Config c). WtValuesIn c ! i) = (\<Sum>i<TmNInputs (Config c). fv (WtValuesIn c ! i))"
    by (rule sum_no_wrap [OF _ bound]) (auto dest: erc20_specD(1) [OF spec] simp: erc20_input_ok_def)
  moreover have "fv (\<Sum>j<TmMOutputs (Config c). WtValuesOut c ! j) = (\<Sum>j<TmMOutputs (Config c). fv (WtValuesOut c ! j))"
    by (rule sum_no_wrap [OF _ bound]) (auto dest: erc20_specD(2) [OF spec] simp: erc20_output_ok_def)
  ultimately show ?thesis using erc20_specD(3) [OF spec] by simp
qed

theorem erc20_value_conserved_witness:
  "Erc20Circuit_Define fr_api sum_hash erc20_example = Some () \<and>
   (\<Sum>j<2. fv (WtValuesOut erc20_example ! j)) = (\<Sum>i<1. fv (WtValuesIn erc20_example ! i))"
  using erc20_value_conserved [OF gnark_fr_api _ erc20_example_sat] erc20_example_sat
  by (simp add: erc20_example_def fv_eval SNARK_SCALAR_FIELD_def)

text \<open>
  C3. No note is spent twice under two nullifiers. If two accepted join-splits both spend, with a
  nonzero value, the leaf at one position under one root, then they publish the same nullifier for it
  (and open it with the same key, salt, value and token), unless the two openings exhibit a collision
  of the hash.
\<close>

theorem erc20_no_double_spend:
  assumes "gnark api" and "respects_fv pos"
    and "TmMerkleTreeDepth (Config c) < 254" and "TmMerkleTreeDepth (Config d) = TmMerkleTreeDepth (Config c)"
    and "Erc20Circuit_Define api pos c = Some ()" and "Erc20Circuit_Define api pos d = Some ()"
    and "i < TmNInputs (Config c)" and "j < TmNInputs (Config d)"
    and "fv (WtValuesIn c ! i) \<noteq> 0" and "fv (WtValuesIn d ! j) \<noteq> 0"
    and "fv (StMerkleRoots c ! i) = fv (StMerkleRoots d ! j)"
    and "fv (WtPathIndices c ! i) = fv (WtPathIndices d ! j)"
  shows "fv (StNullifiers c ! i) = fv (StNullifiers d ! j) \<and> fv (WtValuesIn c ! i) = fv (WtValuesIn d ! j)
      \<and> fv (WtTokenId c) = fv (WtTokenId d)
    \<or> some_collide pos
         (opening_inputs pos (TmMerkleTreeDepth (Config c)) (WtPrivateKeysIn c ! i) (WtSaltsIn c ! i)
            (WtValuesIn c ! i) (WtTokenId c) (WtPathIndices c ! i) (WtPathElements c ! i))
         (opening_inputs pos (TmMerkleTreeDepth (Config c)) (WtPrivateKeysIn d ! j) (WtSaltsIn d ! j)
            (WtValuesIn d ! j) (WtTokenId d) (WtPathIndices d ! j) (WtPathElements d ! j))"
proof -
  have "erc20_spec pos c" "erc20_spec pos d"
    using gnark.Erc20Circuit_Define_iff [OF assms(1)] assms(3-6) by auto
  then have ok: "erc20_input_ok pos c i" "erc20_input_ok pos d j"
    using assms(7,8) by (auto dest: erc20_specD)
  have len: "TmMerkleTreeDepth (Config c) \<le> length (WtPathElements c ! i)"
      "TmMerkleTreeDepth (Config c) \<le> length (WtPathElements d ! j)"
    using ok assms(4) by (auto simp: erc20_input_ok_def)
  show ?thesis
    using spends_unique [OF assms(2,12) len assms(11) erc20_input_spends [OF ok(1) assms(9)]
      erc20_input_spends [OF ok(2) assms(10), unfolded assms(4)]] by blast
qed

theorem erc20_no_double_spend_witness:
  "Erc20Circuit_Define fr_api sum_hash erc20_example = Some () \<and> respects_fv sum_hash \<and>
   (fv (StNullifiers erc20_example ! 0) = fv (StNullifiers (erc20_example\<lparr>StMessage := 5\<rparr>) ! 0) \<or>
    some_collide sum_hash (opening_inputs sum_hash 2 3 11 50 9 2 [7, 8]) (opening_inputs sum_hash 2 3 11 50 9 2 [7, 8]))"
proof -
  have "Erc20Circuit_Define fr_api sum_hash (erc20_example\<lparr>StMessage := 5\<rparr>) = Some ()"
    using fr.Erc20Circuit_Define_iff [of "erc20_example\<lparr>StMessage := 5\<rparr>" sum_hash]
    by (simp add: erc20_spec_def erc20_input_ok_def erc20_output_ok_def spends_eval hashes_to_def
        erc20_example_def eval_simps numeral_2_eq_2 All_less_Suc cong: bind_strict)
  from erc20_no_double_spend [OF gnark_fr_api sum_hash_respects_fv _ _ erc20_example_sat this, of 0 0]
  show ?thesis
    using erc20_example_sat sum_hash_respects_fv by (simp add: erc20_example_def fv_eval)
qed

text \<open>
  A padding input cannot be used as the comments intend. The code pins the nullifier of a
  zero-value input to 0, but it also keeps the unconditional equation with the hash of the key and
  the index: an accepted zero-value input is a preimage of 0 under the hash.
\<close>

theorem erc20_zero_input_preimage:
  assumes "gnark api" and "TmMerkleTreeDepth (Config c) < 254"
    and "Erc20Circuit_Define api pos c = Some ()"
    and "i < TmNInputs (Config c)" and "fv (WtValuesIn c ! i) = 0"
  shows "hashes_to pos [WtPrivateKeysIn c ! i, WtPathIndices c ! i] 0"
proof -
  have "erc20_input_ok pos c i"
    using gnark.Erc20Circuit_Define_iff [OF assms(1,2)] assms(3,4) erc20_specD(1) by blast
  with assms(5) show ?thesis by (auto simp: erc20_input_ok_def spends_def hashes_to_iff)
qed

theorem erc20_zero_input_preimage_witness:
  "Erc20Circuit_Define fr_api (\<lambda>xs. Some 0) (erc20_example\<lparr>StMerkleRoots := [0], StNullifiers := [0],
     StCommitmentOut := [0, 0], WtValuesIn := [0], WtValuesOut := [0, 0]\<rparr>) = Some ()
   \<and> hashes_to (\<lambda>xs. Some 0) [3, 2] 0"
proof -
  let ?c = "erc20_example\<lparr>StMerkleRoots := [0], StNullifiers := [0],
     StCommitmentOut := [0, 0], WtValuesIn := [0], WtValuesOut := [0, 0]\<rparr>"
  have sat: "Erc20Circuit_Define fr_api (\<lambda>xs. Some 0) ?c = Some ()"
    using fr.Erc20Circuit_Define_iff [of ?c "\<lambda>xs. Some 0"]
    by (simp add: erc20_spec_def erc20_input_ok_def erc20_output_ok_def spends_def hashes_to_def
        erc20_example_def fv_eval numeral_2_eq_2 All_less_Suc)
  from erc20_zero_input_preimage [OF gnark_fr_api _ sat, of 0] sat
  show ?thesis by (simp add: erc20_example_def)
qed

end
