(* ===== verification/Dvp_Initiator.thy ===== *)
theory Dvp_Initiator
  imports Primitives
begin

section \<open>The initiator's side of a delivery-versus-payment swap\<close>

text \<open>
  \<^verbatim>\<open>enygma_dvp/gnark_circuits/templates/DvpInitiator.go\<close>: Alice spends her note and commits to the
  note she delivers, the note she expects and the note she falls back to.
\<close>

record DvPInitiatorCircuitConfig =
  TmMerkleTreeDepth :: nat
  TmRange :: fr

record DvPInitiatorCircuit =
  Config :: DvPInitiatorCircuitConfig
  StMessage :: fr
  StTreeNumber :: fr
  StMerkleRoot :: fr
  StNullifier :: fr
  StCommitB :: fr
  StCommitA :: fr
  StRevertCommitA :: fr
  WtSpendKeyIn :: fr
  WtValueIn :: fr
  WtSaltIn :: fr
  WtTokenIdIn :: fr
  WtPathElements :: "fr list"
  WtPathIndex :: fr
  WtSpendPkBob :: fr
  WtSaltB :: fr
  WtValueBob :: fr
  WtTokenIdBob :: fr
  WtSaltA :: fr
  WtRevertSalt :: fr

definition DvPInitiatorCircuit_Define :: "frontend_API \<Rightarrow> hasher \<Rightarrow> DvPInitiatorCircuit \<Rightarrow> unit option" where
  "DvPInitiatorCircuit_Define api pos circuit = do {
     AssertIsEqual api (StMessage circuit) (StCommitA circuit);
     AssertIsEqual api (IsLess api (WtValueIn circuit) (TmRange (Config circuit))) 1;
     AssertIsEqual api (IsLessOrEqual api 0 (WtValueIn circuit)) 1;
     AssertIsEqual api (IsLess api (WtValueBob circuit) (TmRange (Config circuit))) 1;
     AssertIsEqual api (IsLessOrEqual api 0 (WtValueBob circuit)) 1;
     pkAlice \<leftarrow> PublicKey api pos (WtSpendKeyIn circuit);
     nullifier \<leftarrow> Nullifier api pos (WtSpendKeyIn circuit) (WtPathIndex circuit);
     AssertIsEqual api nullifier (StNullifier circuit);
     commitIn \<leftarrow> Erc20CommitmentV2 api pos pkAlice (WtSaltIn circuit) (WtValueIn circuit) (WtTokenIdIn circuit);
     pathElems \<leftarrow> mapM (idx (WtPathElements circuit)) [0..<TmMerkleTreeDepth (Config circuit)];
     root \<leftarrow> MerkleProof api pos commitIn (WtPathIndex circuit) pathElems;
     AssertIsEqual api root (StMerkleRoot circuit);
     commitB \<leftarrow> Erc20CommitmentV2 api pos (WtSpendPkBob circuit) (WtSaltB circuit) (WtValueIn circuit)
       (WtTokenIdIn circuit);
     AssertIsEqual api commitB (StCommitB circuit);
     commitA \<leftarrow> Erc20CommitmentV2 api pos pkAlice (WtSaltA circuit) (WtValueBob circuit) (WtTokenIdBob circuit);
     AssertIsEqual api commitA (StCommitA circuit);
     revertCommitA \<leftarrow> Erc20CommitmentV2 api pos pkAlice (WtRevertSalt circuit) (WtValueIn circuit)
       (WtTokenIdIn circuit);
     AssertIsEqual api revertCommitA (StRevertCommitA circuit) }"

definition initiator_spec :: "hasher \<Rightarrow> DvPInitiatorCircuit \<Rightarrow> bool" where
  "initiator_spec pos c \<longleftrightarrow>
     fv (StMessage c) = fv (StCommitA c) \<and>
     fv (WtValueIn c) < fv (TmRange (Config c)) \<and> fv (WtValueBob c) < fv (TmRange (Config c)) \<and>
     TmMerkleTreeDepth (Config c) \<le> length (WtPathElements c) \<and>
     spends pos (TmMerkleTreeDepth (Config c)) (WtSpendKeyIn c) (WtSaltIn c) (WtValueIn c)
       (WtTokenIdIn c) (WtPathIndex c) (WtPathElements c)
       (\<lambda>pk nf root. fv nf = fv (StNullifier c) \<and> fv root = fv (StMerkleRoot c) \<and>
          hashes_to pos [pk, WtSaltA c, WtValueBob c, WtTokenIdBob c] (StCommitA c) \<and>
          hashes_to pos [pk, WtRevertSalt c, WtValueIn c, WtTokenIdIn c] (StRevertCommitA c)) \<and>
     hashes_to pos [WtSpendPkBob c, WtSaltB c, WtValueIn c, WtTokenIdIn c] (StCommitB c)"

context gnark
begin

lemma DvPInitiatorCircuit_Define_iff:
  assumes "TmMerkleTreeDepth (Config c) < 254"
  shows "DvPInitiatorCircuit_Define api pos c = Some () \<longleftrightarrow> initiator_spec pos c"
  using assms by (auto simp: DvPInitiatorCircuit_Define_def initiator_spec_def spends_def circuit_simps)

end

text \<open>Alice offers 50 of token 9 and expects 70 of token 10.\<close>

definition initiator_example :: DvPInitiatorCircuit where
  "initiator_example = \<lparr>Config = \<lparr>TmMerkleTreeDepth = 2, TmRange = 1000\<rparr>,
     StMessage = 4730300, StTreeNumber = 0, StMerkleRoot = 146296447, StNullifier = 2017,
     StCommitB = 4758509, StCommitA = 4730300, StRevertCommitA = 4730640,
     WtSpendKeyIn = 3, WtValueIn = 50, WtSaltIn = 11, WtTokenIdIn = 9, WtPathElements = [7, 8],
     WtPathIndex = 2, WtSpendPkBob = 35, WtSaltB = 21, WtValueBob = 70, WtTokenIdBob = 10,
     WtSaltA = 22, WtRevertSalt = 23\<rparr>"

lemma initiator_example_spec: "initiator_spec sum_hash initiator_example"
  by (simp add: initiator_spec_def spends_eval hashes_to_def initiator_example_def sum_hash_def
      fv_eval node_pair_def cong: bind_strict)

lemma initiator_example_sat: "DvPInitiatorCircuit_Define fr_api sum_hash initiator_example = Some ()"
  using fr.DvPInitiatorCircuit_Define_iff [of initiator_example sum_hash] initiator_example_spec
  by (simp add: initiator_example_def)

text \<open>
  The initiator circuit accepts exactly the assignments of \<^term>\<open>initiator_spec\<close>: the message is
  Alice's receiving commitment, both amounts are in range, the spent note is in the tree under her
  key, and the three commitments carry the amounts and tokens of the swap.
\<close>

theorem dvp_initiator_refines_spec:
  assumes "gnark api" and "TmMerkleTreeDepth (Config c) < 254"
  shows "DvPInitiatorCircuit_Define api pos c = Some () \<longleftrightarrow> initiator_spec pos c"
  using gnark.DvPInitiatorCircuit_Define_iff [OF assms] .

theorem dvp_initiator_refines_spec_witness:
  "DvPInitiatorCircuit_Define fr_api sum_hash initiator_example = Some () \<and>
   initiator_spec sum_hash initiator_example"
  using dvp_initiator_refines_spec [OF gnark_fr_api, of initiator_example sum_hash] initiator_example_spec
  by (simp add: initiator_example_def)

end
