(* ===== verification/Dvp_Destination.thy ===== *)
theory Dvp_Destination
  imports Dvp_Initiator
begin

section \<open>The destination's side of a swap, and the swap\<close>

text \<open>
  \<^verbatim>\<open>enygma_dvp/gnark_circuits/templates/DvpDestination.go\<close>: Bob spends his note, proves that Alice's
  receiving commitment carries it, and binds his proof to the note Alice delivers. The last property
  joins the two circuits the way the vault's settlement does.
\<close>

record DvPDestinationCircuitConfig =
  TmMerkleTreeDepth :: nat
  TmRange :: fr

record DvPDestinationCircuit =
  Config :: DvPDestinationCircuitConfig
  StMessage :: fr
  StTreeNumber :: fr
  StMerkleRoot :: fr
  StNullifier :: fr
  StCommitA :: fr
  WtSpendKeyIn :: fr
  WtValueIn :: fr
  WtSaltIn :: fr
  WtTokenIdIn :: fr
  WtPathElements :: "fr list"
  WtPathIndex :: fr
  WtSpendPkAlice :: fr
  WtSaltA :: fr
  WtSaltB :: fr
  WtValueAlice :: fr
  WtTokenIdAlice :: fr

definition DvPDestinationCircuit_Define :: "frontend_API \<Rightarrow> hasher \<Rightarrow> DvPDestinationCircuit \<Rightarrow> unit option" where
  "DvPDestinationCircuit_Define api pos circuit = do {
     AssertIsEqual api (IsLess api (WtValueIn circuit) (TmRange (Config circuit))) 1;
     AssertIsEqual api (IsLessOrEqual api 0 (WtValueIn circuit)) 1;
     AssertIsEqual api (IsLess api (WtValueAlice circuit) (TmRange (Config circuit))) 1;
     AssertIsEqual api (IsLessOrEqual api 0 (WtValueAlice circuit)) 1;
     pkBob \<leftarrow> PublicKey api pos (WtSpendKeyIn circuit);
     nullifier \<leftarrow> Nullifier api pos (WtSpendKeyIn circuit) (WtPathIndex circuit);
     AssertIsEqual api nullifier (StNullifier circuit);
     commitIn \<leftarrow> Erc20CommitmentV2 api pos pkBob (WtSaltIn circuit) (WtValueIn circuit) (WtTokenIdIn circuit);
     pathElems \<leftarrow> mapM (idx (WtPathElements circuit)) [0..<TmMerkleTreeDepth (Config circuit)];
     root \<leftarrow> MerkleProof api pos commitIn (WtPathIndex circuit) pathElems;
     AssertIsEqual api root (StMerkleRoot circuit);
     commitA \<leftarrow> Erc20CommitmentV2 api pos (WtSpendPkAlice circuit) (WtSaltA circuit) (WtValueIn circuit)
       (WtTokenIdIn circuit);
     AssertIsEqual api commitA (StCommitA circuit);
     commitB \<leftarrow> Erc20CommitmentV2 api pos pkBob (WtSaltB circuit) (WtValueAlice circuit)
       (WtTokenIdAlice circuit);
     AssertIsEqual api (StMessage circuit) commitB }"

definition destination_spec :: "hasher \<Rightarrow> DvPDestinationCircuit \<Rightarrow> bool" where
  "destination_spec pos c \<longleftrightarrow>
     fv (WtValueIn c) < fv (TmRange (Config c)) \<and> fv (WtValueAlice c) < fv (TmRange (Config c)) \<and>
     TmMerkleTreeDepth (Config c) \<le> length (WtPathElements c) \<and>
     spends pos (TmMerkleTreeDepth (Config c)) (WtSpendKeyIn c) (WtSaltIn c) (WtValueIn c)
       (WtTokenIdIn c) (WtPathIndex c) (WtPathElements c)
       (\<lambda>pk nf root. fv nf = fv (StNullifier c) \<and> fv root = fv (StMerkleRoot c) \<and>
          hashes_to pos [pk, WtSaltB c, WtValueAlice c, WtTokenIdAlice c] (StMessage c)) \<and>
     hashes_to pos [WtSpendPkAlice c, WtSaltA c, WtValueIn c, WtTokenIdIn c] (StCommitA c)"

context gnark
begin

lemma DvPDestinationCircuit_Define_iff:
  assumes "TmMerkleTreeDepth (Config c) < 254"
  shows "DvPDestinationCircuit_Define api pos c = Some () \<longleftrightarrow> destination_spec pos c"
  using assms by (auto simp: DvPDestinationCircuit_Define_def destination_spec_def spends_def circuit_simps)

end

text \<open>Bob's answer to the offer of the initiator's example.\<close>

definition destination_example :: DvPDestinationCircuit where
  "destination_example = \<lparr>Config = \<lparr>TmMerkleTreeDepth = 2, TmRange = 1000\<rparr>,
     StMessage = 4758509, StTreeNumber = 0, StMerkleRoot = 147331226, StNullifier = 2047, StCommitA = 4730300,
     WtSpendKeyIn = 4, WtValueIn = 70, WtSaltIn = 12, WtTokenIdIn = 10, WtPathElements = [5, 6],
     WtPathIndex = 1, WtSpendPkAlice = 34, WtSaltA = 22, WtSaltB = 21, WtValueAlice = 50,
     WtTokenIdAlice = 9\<rparr>"

lemma destination_example_spec: "destination_spec sum_hash destination_example"
  by (simp add: destination_spec_def spends_eval hashes_to_def destination_example_def sum_hash_def
      fv_eval node_pair_def cong: bind_strict)

lemma destination_example_sat: "DvPDestinationCircuit_Define fr_api sum_hash destination_example = Some ()"
  using fr.DvPDestinationCircuit_Define_iff [of destination_example sum_hash] destination_example_spec
  by (simp add: destination_example_def)

text \<open>
  The destination circuit accepts exactly the assignments of \<^term>\<open>destination_spec\<close>.
\<close>

theorem dvp_destination_refines_spec:
  assumes "gnark api" and "TmMerkleTreeDepth (Config c) < 254"
  shows "DvPDestinationCircuit_Define api pos c = Some () \<longleftrightarrow> destination_spec pos c"
  using gnark.DvPDestinationCircuit_Define_iff [OF assms] .

theorem dvp_destination_refines_spec_witness:
  "DvPDestinationCircuit_Define fr_api sum_hash destination_example = Some () \<and>
   destination_spec sum_hash destination_example"
  using dvp_destination_refines_spec [OF gnark_fr_api, of destination_example sum_hash] destination_example_spec
  by (simp add: destination_example_def)

text \<open>The two notes of a swap as each side hashes them: the delivered note and the payment.\<close>

definition swap_note_B_initiator :: "DvPInitiatorCircuit \<Rightarrow> fr list" where
  "swap_note_B_initiator a = [WtSpendPkBob a, DvPInitiatorCircuit.WtSaltB a,
     DvPInitiatorCircuit.WtValueIn a, DvPInitiatorCircuit.WtTokenIdIn a]"

definition swap_note_B_destination :: "fr \<Rightarrow> DvPDestinationCircuit \<Rightarrow> fr list" where
  "swap_note_B_destination pk b = [pk, WtSaltB b, WtValueAlice b, WtTokenIdAlice b]"

definition swap_note_A_initiator :: "fr \<Rightarrow> DvPInitiatorCircuit \<Rightarrow> fr list" where
  "swap_note_A_initiator pk a = [pk, DvPInitiatorCircuit.WtSaltA a, WtValueBob a, WtTokenIdBob a]"

definition swap_note_A_destination :: "DvPDestinationCircuit \<Rightarrow> fr list" where
  "swap_note_A_destination b = [WtSpendPkAlice b, WtSaltA b, WtValueIn b, WtTokenIdIn b]"

text \<open>
  C4. A settled swap is the swap both sides agreed to. When the vault pairs an accepted initiator
  proof with an accepted destination proof (each side's message is the other side's commitment), then
  Bob spends exactly the amount and token Alice expects and they go to Alice's key, and Alice spends
  exactly the amount and token Bob expects and they go to Bob's key, unless the sides exhibit a
  collision of the hash on one of the two notes.
\<close>

theorem dvp_swap_is_fair:
  assumes "gnark api"
    and "DvPInitiatorCircuitConfig.TmMerkleTreeDepth (DvPInitiatorCircuit.Config a) < 254"
    and "TmMerkleTreeDepth (Config b) < 254"
    and "DvPInitiatorCircuit_Define api pos a = Some ()"
    and "DvPDestinationCircuit_Define api pos b = Some ()"
    and "fv (DvPInitiatorCircuit.StMessage a) = fv (StCommitA b)"
    and "fv (StMessage b) = fv (StCommitB a)"
  shows "\<exists>pkAlice pkBob. pos [DvPInitiatorCircuit.WtSpendKeyIn a] = Some pkAlice \<and>
     pos [WtSpendKeyIn b] = Some pkBob \<and>
     (fv (WtValueIn b) = fv (WtValueBob a) \<and> fv (WtTokenIdIn b) = fv (WtTokenIdBob a) \<and>
      fv (WtSpendPkAlice b) = fv pkAlice \<and>
      fv (DvPInitiatorCircuit.WtValueIn a) = fv (WtValueAlice b) \<and>
      fv (DvPInitiatorCircuit.WtTokenIdIn a) = fv (WtTokenIdAlice b) \<and> fv (WtSpendPkBob a) = fv pkBob
      \<or> collides pos (swap_note_A_initiator pkAlice a) (swap_note_A_destination b)
      \<or> collides pos (swap_note_B_initiator a) (swap_note_B_destination pkBob b))"
proof -
  have a: "initiator_spec pos a" using gnark.DvPInitiatorCircuit_Define_iff [OF assms(1,2)] assms(4) by blast
  have b: "destination_spec pos b" using gnark.DvPDestinationCircuit_Define_iff [OF assms(1,3)] assms(5) by blast
  from a obtain pkA where A: "pos [DvPInitiatorCircuit.WtSpendKeyIn a] = Some pkA"
      "hashes_to pos (swap_note_A_initiator pkA a) (StCommitA b)"
      "hashes_to pos (swap_note_B_initiator a) (StCommitB a)"
    using assms(6) by (auto simp: initiator_spec_def spends_def hashes_to_iff swap_note_A_initiator_def swap_note_B_initiator_def)
  from b obtain pkB where B: "pos [WtSpendKeyIn b] = Some pkB"
      "hashes_to pos (swap_note_A_destination b) (StCommitA b)"
      "hashes_to pos (swap_note_B_destination pkB b) (StCommitB a)"
    using assms(7) by (auto simp: destination_spec_def spends_def hashes_to_iff swap_note_A_destination_def swap_note_B_destination_def)
  show ?thesis
    using A(1) B(1) hashes_to_unique [OF A(2) B(2)] hashes_to_unique [OF A(3) B(3)]
    by (auto simp: swap_note_A_initiator_def swap_note_B_initiator_def swap_note_A_destination_def
        swap_note_B_destination_def)
qed

theorem dvp_swap_is_fair_witness:
  "DvPInitiatorCircuit_Define fr_api sum_hash initiator_example = Some () \<and>
   DvPDestinationCircuit_Define fr_api sum_hash destination_example = Some () \<and>
   (\<exists>pkAlice pkBob. sum_hash [3] = Some pkAlice \<and> sum_hash [4] = Some pkBob \<and>
     (fv 70 = fv (WtValueBob initiator_example) \<and> fv (WtSpendPkAlice destination_example) = fv pkAlice
       \<and> fv (WtSpendPkBob initiator_example) = fv pkBob
      \<or> collides sum_hash (swap_note_A_initiator pkAlice initiator_example) (swap_note_A_destination destination_example)
      \<or> collides sum_hash (swap_note_B_initiator initiator_example) (swap_note_B_destination pkBob destination_example)))"
proof -
  have key: "DvPInitiatorCircuit.WtSpendKeyIn initiator_example = 3" "WtSpendKeyIn destination_example = 4"
      "WtValueIn destination_example = 70" by (simp_all add: initiator_example_def destination_example_def)
  have "fv (DvPInitiatorCircuit.StMessage initiator_example) = fv (StCommitA destination_example)"
      "fv (StMessage destination_example) = fv (StCommitB initiator_example)"
    by (simp_all add: initiator_example_def destination_example_def)
  from dvp_swap_is_fair [OF gnark_fr_api _ _ initiator_example_sat destination_example_sat this]
  show ?thesis
    using initiator_example_sat destination_example_sat unfolding key
    by (simp add: initiator_example_def destination_example_def)
qed

end
