(* ===== verification/Private_Mint.thy ===== *)
theory Private_Mint
  imports Primitives
begin

section \<open>The private mint circuit\<close>

text \<open>
  \<^verbatim>\<open>enygma_dvp/gnark_circuits/templates/PrivateMint.go\<close>: a new note of a public token, with a tag that
  binds it to the contract it is minted in. The retail package has the same circuit.
\<close>

record PrivateMintConfig =
  TmRange :: fr

record PrivateMintCircuit =
  Config :: PrivateMintConfig
  Commitment :: fr
  ContractAddress :: fr
  TokenId :: fr
  CipherText :: fr
  Salt :: fr
  Amount :: fr
  PublicKey :: fr

definition PrivateMintCircuit_Define :: "frontend_API \<Rightarrow> hasher \<Rightarrow> PrivateMintCircuit \<Rightarrow> unit option" where
  "PrivateMintCircuit_Define api pos circuit = do {
     AssertIsEqual api (IsLess api (Amount circuit) (TmRange (Config circuit))) 1;
     AssertIsEqual api (IsLessOrEqual api 0 (Amount circuit)) 1;
     calculatedCommitment \<leftarrow> Erc20CommitmentV2 api pos (PublicKey circuit) (Salt circuit) (Amount circuit)
       (TokenId circuit);
     AssertIsEqual api calculatedCommitment (Commitment circuit);
     calculatedCipherText \<leftarrow> pos [PublicKey circuit, Salt circuit, ContractAddress circuit];
     AssertIsEqual api calculatedCipherText (CipherText circuit) }"

definition mint_note :: "PrivateMintCircuit \<Rightarrow> fr list" where
  "mint_note c = [PublicKey c, Salt c, Amount c, TokenId c]"

definition mint_tag :: "PrivateMintCircuit \<Rightarrow> fr list" where
  "mint_tag c = [PublicKey c, Salt c, ContractAddress c]"

definition mint_spec :: "hasher \<Rightarrow> PrivateMintCircuit \<Rightarrow> bool" where
  "mint_spec pos c \<longleftrightarrow> fv (Amount c) < fv (TmRange (Config c)) \<and>
     hashes_to pos (mint_note c) (Commitment c) \<and> hashes_to pos (mint_tag c) (CipherText c)"

context gnark
begin

lemma PrivateMintCircuit_Define_iff: "PrivateMintCircuit_Define api pos c = Some () \<longleftrightarrow> mint_spec pos c"
  by (auto simp: PrivateMintCircuit_Define_def mint_spec_def mint_note_def mint_tag_def circuit_simps)

end

definition mint_example :: PrivateMintCircuit where
  "mint_example = \<lparr>Config = \<lparr>TmRange = 1000\<rparr>, Commitment = 4719108, ContractAddress = 77, TokenId = 9,
     CipherText = 122465, Salt = 11, Amount = 50, PublicKey = 34\<rparr>"

lemma mint_example_spec: "mint_spec sum_hash mint_example"
  by (simp add: mint_spec_def mint_note_def mint_tag_def mint_example_def hashes_to_def sum_hash_def fv_eval)

text \<open>
  A mint proof fixes the minted note. An accepted proof has an amount below the range bound, and two
  accepted proofs with one commitment and one note tag mint the same amount of the same token to the
  same key in the same contract, unless the two notes or the two tags collide.
\<close>

theorem private_mint_binds_note:
  assumes "gnark api" and "PrivateMintCircuit_Define api pos c = Some ()"
    and "PrivateMintCircuit_Define api pos d = Some ()"
    and "fv (Commitment c) = fv (Commitment d)" and "fv (CipherText c) = fv (CipherText d)"
  shows "fv (Amount c) < fv (TmRange (Config c)) \<and>
    (fv (Amount c) = fv (Amount d) \<and> fv (TokenId c) = fv (TokenId d) \<and>
     fv (PublicKey c) = fv (PublicKey d) \<and> fv (ContractAddress c) = fv (ContractAddress d)
     \<or> collides pos (mint_note c) (mint_note d) \<or> collides pos (mint_tag c) (mint_tag d))"
proof -
  have c: "mint_spec pos c" and d: "mint_spec pos d"
    using gnark.PrivateMintCircuit_Define_iff [OF assms(1)] assms(2,3) by blast+
  have "hashes_to pos (mint_note d) (Commitment c)" "hashes_to pos (mint_tag d) (CipherText c)"
    using d assms(4,5) by (auto simp: mint_spec_def hashes_to_iff)
  with c hashes_to_unique [of pos "mint_note c" "Commitment c" "mint_note d"]
    hashes_to_unique [of pos "mint_tag c" "CipherText c" "mint_tag d"]
  show ?thesis by (auto simp: mint_spec_def mint_note_def mint_tag_def)
qed

theorem private_mint_binds_note_witness:
  "PrivateMintCircuit_Define fr_api sum_hash mint_example = Some () \<and>
   fv (Amount mint_example) < fv (TmRange (Config mint_example))"
proof -
  have sat: "PrivateMintCircuit_Define fr_api sum_hash mint_example = Some ()"
    using fr.PrivateMintCircuit_Define_iff mint_example_spec by blast
  from private_mint_binds_note [OF gnark_fr_api sat sat refl refl] sat show ?thesis by blast
qed

text \<open>
  A minted note can be spent: when the minted key is the public key of a secret key and the
  commitment is a leaf of a tree, the note opens under that key at its position, with the root of the
  tree, exactly as the spending circuits require.
\<close>

theorem private_mint_note_spendable:
  assumes "gnark api" and "PrivateMintCircuit_Define api pos c = Some ()"
    and "pos [sk] = Some (PublicKey c)" and "pos [sk, k] = Some nf" and "length path = depth"
    and "fv k < 2 ^ depth" and "depth > 0"
    and "merkle_path pos (Commitment c) (fv k) path = Some root"
  shows "spends pos depth sk (Salt c) (Amount c) (TokenId c) k path
    (\<lambda>pk' nf' root'. pk' = PublicKey c \<and> nf' = nf \<and> root' = root)"
proof -
  obtain cm where cm: "pos [PublicKey c, Salt c, Amount c, TokenId c] = Some cm" "fv cm = fv (Commitment c)"
    using gnark.PrivateMintCircuit_Define_iff [OF assms(1)] assms(2)
    by (auto simp: mint_spec_def mint_note_def hashes_to_iff)
  obtain s ss where path: "path = s # ss" using assms(5,7) by (cases path) auto
  have "merkle_path pos cm (fv k) path = merkle_path pos (Commitment c) (fv k) path"
    using cm(2) by (simp add: path node_pair_def)
  with assms cm show ?thesis by (simp add: spends_def)
qed

theorem private_mint_note_spendable_witness:
  "PrivateMintCircuit_Define fr_api sum_hash mint_example = Some () \<and>
   spends sum_hash 2 3 11 50 9 2 [7, 8] (\<lambda>pk' nf' root'. pk' = 34 \<and> nf' = 2017 \<and> root' = 146296447)"
proof -
  have sat: "PrivateMintCircuit_Define fr_api sum_hash mint_example = Some ()"
    using fr.PrivateMintCircuit_Define_iff mint_example_spec by blast
  have "spends sum_hash 2 3 (Salt mint_example) (Amount mint_example) (TokenId mint_example) 2 [7, 8]
    (\<lambda>pk' nf' root'. pk' = PublicKey mint_example \<and> nf' = 2017 \<and> root' = 146296447)"
    by (rule private_mint_note_spendable [OF gnark_fr_api sat])
      (simp_all add: mint_example_def sum_hash_def fv_eval node_pair_def cong: bind_strict)
  with sat show ?thesis by (simp add: mint_example_def)
qed

end
