(* ===== verification/Retail_Payment.thy ===== *)
theory Retail_Payment
  imports Primitives
begin

section \<open>The retail payment circuits\<close>

text \<open>
  \<^verbatim>\<open>enygma_retail_payments/gnark_circuits/templates\<close>: \<^verbatim>\<open>Payment.go\<close>, \<^verbatim>\<open>PaymentFee.go\<close> and
  \<^verbatim>\<open>PaymentRelayerFeePublic.go\<close>. The three structures differ in the public fee only, and the three
  methods \<^verbatim>\<open>Define\<close> share the text of their input loop and, but for the change condition, of their
  output loop, so the loop bodies are definitions over the common fields.
\<close>

record PaymentCircuitConfig =
  TmNInputs :: nat
  TmMOutputs :: nat
  TmMerkleTreeDepth :: nat
  TmRange :: fr

record PaymentCircuit =
  Config :: PaymentCircuitConfig
  StMessage :: fr
  StTreeNumbers :: "fr list"
  StMerkleRoots :: "fr list"
  StNullifiers :: "fr list"
  StCommitmentsOut :: "fr list"
  StContractAddress :: fr
  WtPrivateKeysIn :: "fr list"
  WtValuesIn :: "fr list"
  WtSaltsIn :: "fr list"
  WtPathElements :: "fr list list"
  WtPathIndices :: "fr list"
  WtTokenId :: fr
  WtSpendPublicKeysOut :: "fr list"
  WtValuesOut :: "fr list"
  WtSaltsOut :: "fr list"

record PaymentFeeCircuit = PaymentCircuit +
  StFee :: fr

type_synonym PaymentRelayerFeePublicCircuit = PaymentFeeCircuit

definition payment_input ::
  "frontend_API \<Rightarrow> hasher \<Rightarrow> 'a PaymentCircuit_scheme \<Rightarrow> fr \<Rightarrow> nat \<Rightarrow> fr \<Rightarrow> fr option" where
  "payment_input api pos circuit senderPk i inputsTotal = do {
     value \<leftarrow> idx (WtValuesIn circuit) i;
     AssertIsEqual api (IsLess api value (TmRange (Config circuit))) 1;
     AssertIsEqual api (IsLessOrEqual api 0 value) 1;
     let isZero = IsZero api value;
     let enable = Sub api 1 isZero;
     privateKey \<leftarrow> idx (WtPrivateKeysIn circuit) i;
     pkIn \<leftarrow> PublicKey api pos privateKey;
     (if i > 0
      then do { let pkDiff = Sub api pkIn senderPk; AssertIsEqual api (Mul api pkDiff enable) 0 }
      else Some ());
     pathIndex \<leftarrow> idx (WtPathIndices circuit) i;
     nullifier \<leftarrow> Nullifier api pos privateKey pathIndex;
     stNullifier \<leftarrow> idx (StNullifiers circuit) i;
     let nullifierDiff = Sub api nullifier stNullifier;
     AssertIsEqual api (Mul api nullifierDiff enable) 0;
     AssertIsEqual api (Mul api stNullifier isZero) 0;
     salt \<leftarrow> idx (WtSaltsIn circuit) i;
     commitment \<leftarrow> Erc20CommitmentV2 api pos pkIn salt value (WtTokenId circuit);
     row \<leftarrow> idx (WtPathElements circuit) i;
     pathElements \<leftarrow> mapM (idx row) [0..<TmMerkleTreeDepth (Config circuit)];
     root \<leftarrow> MerkleProof api pos commitment pathIndex pathElements;
     stRoot \<leftarrow> idx (StMerkleRoots circuit) i;
     let diff = Sub api stRoot root;
     AssertIsEqual api (Mul api diff enable) 0;
     AssertIsEqual api (Mul api stRoot isZero) 0;
     Some (Add api inputsTotal value) }"

definition payment_output ::
  "(nat \<Rightarrow> bool) \<Rightarrow> frontend_API \<Rightarrow> hasher \<Rightarrow> 'a PaymentCircuit_scheme \<Rightarrow> fr \<Rightarrow> nat \<Rightarrow> fr \<Rightarrow> fr option" where
  "payment_output is_change api pos circuit senderPk j outputsTotal = do {
     value \<leftarrow> idx (WtValuesOut circuit) j;
     AssertIsEqual api (IsLess api value (TmRange (Config circuit))) 1;
     AssertIsEqual api (IsLessOrEqual api 0 value) 1;
     pk \<leftarrow> idx (WtSpendPublicKeysOut circuit) j;
     salt \<leftarrow> idx (WtSaltsOut circuit) j;
     commitment \<leftarrow> Erc20CommitmentV2 api pos pk salt value (WtTokenId circuit);
     stCommitment \<leftarrow> idx (StCommitmentsOut circuit) j;
     AssertIsEqual api commitment stCommitment;
     (if is_change j then AssertIsEqual api pk senderPk else Some ());
     Some (Add api outputsTotal value) }"

definition PaymentCircuit_Define :: "frontend_API \<Rightarrow> hasher \<Rightarrow> PaymentCircuit \<Rightarrow> unit option" where
  "PaymentCircuit_Define api pos circuit = do {
     AssertIsEqual api (StMessage circuit) 0;
     sk0 \<leftarrow> idx (WtPrivateKeysIn circuit) 0;
     senderPk \<leftarrow> PublicKey api pos sk0;
     inputsTotal \<leftarrow> foldM (payment_input api pos circuit senderPk) [0..<TmNInputs (Config circuit)] 0;
     outputsTotal \<leftarrow> foldM (payment_output (\<lambda>j. j \<ge> 1) api pos circuit senderPk)
       [0..<TmMOutputs (Config circuit)] 0;
     AssertIsEqual api outputsTotal inputsTotal }"

definition PaymentFeeCircuit_Define :: "frontend_API \<Rightarrow> hasher \<Rightarrow> PaymentFeeCircuit \<Rightarrow> unit option" where
  "PaymentFeeCircuit_Define api pos circuit = do {
     AssertIsEqual api (StMessage circuit) 0;
     sk0 \<leftarrow> idx (WtPrivateKeysIn circuit) 0;
     senderPk \<leftarrow> PublicKey api pos sk0;
     inputsTotal \<leftarrow> foldM (payment_input api pos circuit senderPk) [0..<TmNInputs (Config circuit)] 0;
     outputsTotal \<leftarrow> foldM (payment_output (\<lambda>j. j = 1) api pos circuit senderPk)
       [0..<TmMOutputs (Config circuit)] 0;
     AssertIsEqual api (Add api outputsTotal (StFee circuit)) inputsTotal }"

definition PaymentRelayerFeePublicCircuit_Define ::
  "frontend_API \<Rightarrow> hasher \<Rightarrow> PaymentRelayerFeePublicCircuit \<Rightarrow> unit option" where
  "PaymentRelayerFeePublicCircuit_Define api pos circuit = do {
     AssertIsEqual api (StMessage circuit) 0;
     sk0 \<leftarrow> idx (WtPrivateKeysIn circuit) 0;
     senderPk \<leftarrow> PublicKey api pos sk0;
     inputsTotal \<leftarrow> foldM (payment_input api pos circuit senderPk) [0..<TmNInputs (Config circuit)] 0;
     outputsTotal \<leftarrow> foldM (payment_output (\<lambda>j. j = 1) api pos circuit senderPk)
       [0..<TmMOutputs (Config circuit)] 0;
     AssertIsEqual api outputsTotal inputsTotal;
     value2 \<leftarrow> idx (WtValuesOut circuit) 2;
     AssertIsEqual api value2 (StFee circuit) }"

subsection \<open>What the constraints say\<close>

text \<open>
  An input is either a note of the sender's, opened under the published root and nullifier, or
  padding: value 0 with root 0 and nullifier 0 published for it.
\<close>

definition payment_input_ok :: "hasher \<Rightarrow> 'a PaymentCircuit_scheme \<Rightarrow> fr \<Rightarrow> nat \<Rightarrow> bool" where
  "payment_input_ok pos c senderPk i \<longleftrightarrow>
     i < length (WtValuesIn c) \<and> i < length (WtPrivateKeysIn c) \<and> i < length (WtPathIndices c) \<and>
     i < length (StNullifiers c) \<and> i < length (WtSaltsIn c) \<and> i < length (WtPathElements c) \<and>
     i < length (StMerkleRoots c) \<and> TmMerkleTreeDepth (Config c) \<le> length (WtPathElements c ! i) \<and>
     fv (WtValuesIn c ! i) < fv (TmRange (Config c)) \<and>
     spends pos (TmMerkleTreeDepth (Config c)) (WtPrivateKeysIn c ! i) (WtSaltsIn c ! i)
       (WtValuesIn c ! i) (WtTokenId c) (WtPathIndices c ! i) (WtPathElements c ! i)
       (\<lambda>pk nf root. if fv (WtValuesIn c ! i) = 0
          then fv (StNullifiers c ! i) = 0 \<and> fv (StMerkleRoots c ! i) = 0
          else (i > 0 \<longrightarrow> fv pk = fv senderPk) \<and>
               fv nf = fv (StNullifiers c ! i) \<and> fv root = fv (StMerkleRoots c ! i))"

definition payment_output_ok ::
  "(nat \<Rightarrow> bool) \<Rightarrow> hasher \<Rightarrow> 'a PaymentCircuit_scheme \<Rightarrow> fr \<Rightarrow> nat \<Rightarrow> bool" where
  "payment_output_ok is_change pos c senderPk j \<longleftrightarrow>
     j < length (WtValuesOut c) \<and> j < length (WtSpendPublicKeysOut c) \<and> j < length (WtSaltsOut c) \<and>
     j < length (StCommitmentsOut c) \<and> fv (WtValuesOut c ! j) < fv (TmRange (Config c)) \<and>
     hashes_to pos [WtSpendPublicKeysOut c ! j, WtSaltsOut c ! j, WtValuesOut c ! j, WtTokenId c]
       (StCommitmentsOut c ! j) \<and>
     (is_change j \<longrightarrow> fv (WtSpendPublicKeysOut c ! j) = fv senderPk)"

definition payment_notes_ok :: "(nat \<Rightarrow> bool) \<Rightarrow> hasher \<Rightarrow> 'a PaymentCircuit_scheme \<Rightarrow> bool" where
  "payment_notes_ok is_change pos c \<longleftrightarrow> fv (StMessage c) = 0 \<and> WtPrivateKeysIn c \<noteq> [] \<and>
     (case pos [WtPrivateKeysIn c ! 0] of None \<Rightarrow> False | Some senderPk \<Rightarrow>
        (\<forall>i<TmNInputs (Config c). payment_input_ok pos c senderPk i) \<and>
        (\<forall>j<TmMOutputs (Config c). payment_output_ok is_change pos c senderPk j))"

definition sum_in :: "'a PaymentCircuit_scheme \<Rightarrow> fr" where
  "sum_in c = (\<Sum>i<TmNInputs (Config c). WtValuesIn c ! i)"

definition sum_out :: "'a PaymentCircuit_scheme \<Rightarrow> fr" where
  "sum_out c = (\<Sum>j<TmMOutputs (Config c). WtValuesOut c ! j)"

context gnark
begin

lemma payment_input_iff:
  assumes "TmMerkleTreeDepth (Config c) < 254"
  shows "payment_input api pos c s i a = Some b \<longleftrightarrow> payment_input_ok pos c s i \<and> b = fv (a + WtValuesIn c ! i)"
  using assms
  by (auto simp: payment_input_def payment_input_ok_def spends_def circuit_simps Let_def split: if_splits)

lemma payment_output_iff:
  "payment_output is_change api pos c s i a = Some b \<longleftrightarrow>
     payment_output_ok is_change pos c s i \<and> b = fv (a + WtValuesOut c ! i)"
  by (auto simp: payment_output_def payment_output_ok_def circuit_simps split: if_splits)

lemmas payment_simps = bind_eq_Some_conv gadgets foldM_check_acc [OF payment_output_iff] fold_sum_upt
  payment_notes_ok_def sum_in_def sum_out_def PublicKey_def idx_Some_iff

lemma PaymentCircuit_Define_iff:
  assumes "TmMerkleTreeDepth (Config c) < 254"
  shows "PaymentCircuit_Define api pos c = Some () \<longleftrightarrow>
    payment_notes_ok (\<lambda>j. j \<ge> 1) pos c \<and> fv (sum_out c) = fv (sum_in c)"
  unfolding PaymentCircuit_Define_def
  by (auto simp: foldM_check_acc [OF payment_input_iff [OF assms]] payment_simps split: option.splits)

lemma PaymentFeeCircuit_Define_iff:
  assumes "TmMerkleTreeDepth (Config c) < 254"
  shows "PaymentFeeCircuit_Define api pos c = Some () \<longleftrightarrow>
    payment_notes_ok (\<lambda>j. j = 1) pos c \<and> fv (sum_out c + StFee c) = fv (sum_in c)"
proof -
  have add: "fv (Add api (fold (\<lambda>i a. fv (a + g i)) [0..<n] 0) y) = fv ((\<Sum>i<n. g i) + y)" for g n y
    by (metis Add fold_sum_upt fv_fv fv_reduce(1))
  show ?thesis
    unfolding PaymentFeeCircuit_Define_def
    by (auto simp: foldM_check_acc [OF payment_input_iff [OF assms]] payment_simps add split: option.splits)
qed

lemma PaymentRelayerFeePublicCircuit_Define_iff:
  assumes "TmMerkleTreeDepth (Config c) < 254"
  shows "PaymentRelayerFeePublicCircuit_Define api pos c = Some () \<longleftrightarrow>
    payment_notes_ok (\<lambda>j. j = 1) pos c \<and> fv (sum_out c) = fv (sum_in c) \<and>
    2 < length (WtValuesOut c) \<and> fv (WtValuesOut c ! 2) = fv (StFee c)"
  unfolding PaymentRelayerFeePublicCircuit_Define_def
  by (auto simp: foldM_check_acc [OF payment_input_iff [OF assms]] payment_simps split: option.splits)

end

text \<open>The note list of an accepted circuit, and the totals over the integers.\<close>

lemma payment_notesD:
  assumes "payment_notes_ok is_change pos c"
  obtains senderPk where "pos [WtPrivateKeysIn c ! 0] = Some senderPk"
    and "\<And>i. i < TmNInputs (Config c) \<Longrightarrow> payment_input_ok pos c senderPk i"
    and "\<And>j. j < TmMOutputs (Config c) \<Longrightarrow> payment_output_ok is_change pos c senderPk j"
  using assms by (auto simp: payment_notes_ok_def split: option.splits)

definition no_wrap :: "'a PaymentCircuit_scheme \<Rightarrow> bool" where
  "no_wrap c \<longleftrightarrow>
     int (max (TmNInputs (Config c)) (TmMOutputs (Config c)) + 1) * fv (TmRange (Config c)) \<le> SNARK_SCALAR_FIELD"

lemma payment_totals:
  assumes "payment_notes_ok is_change pos c" and "no_wrap c"
  shows "fv (sum_in c) = (\<Sum>i<TmNInputs (Config c). fv (WtValuesIn c ! i))"
    and "fv (sum_out c) = (\<Sum>j<TmMOutputs (Config c). fv (WtValuesOut c ! j))"
    and "(\<Sum>j<TmMOutputs (Config c). fv (WtValuesOut c ! j)) + fv (TmRange (Config c)) \<le> SNARK_SCALAR_FIELD"
proof -
  obtain s where "\<And>i. i < TmNInputs (Config c) \<Longrightarrow> payment_input_ok pos c s i"
      "\<And>j. j < TmMOutputs (Config c) \<Longrightarrow> payment_output_ok is_change pos c s j"
    using payment_notesD [OF assms(1)] by metis
  then have range: "\<And>i. i < TmNInputs (Config c) \<Longrightarrow> fv (WtValuesIn c ! i) < fv (TmRange (Config c))"
      "\<And>j. j < TmMOutputs (Config c) \<Longrightarrow> fv (WtValuesOut c ! j) < fv (TmRange (Config c))"
    by (auto simp: payment_input_ok_def payment_output_ok_def)
  have bound: "int n * fv (TmRange (Config c)) \<le> SNARK_SCALAR_FIELD"
    if "n \<le> max (TmNInputs (Config c)) (TmMOutputs (Config c)) + 1" for n
    using assms(2) that unfolding no_wrap_def by (smt (verit) fv_range(1) mult_right_mono of_nat_mono)
  show "fv (sum_in c) = (\<Sum>i<TmNInputs (Config c). fv (WtValuesIn c ! i))"
    unfolding sum_in_def by (rule sum_no_wrap [OF range(1) bound]) auto
  show "fv (sum_out c) = (\<Sum>j<TmMOutputs (Config c). fv (WtValuesOut c ! j))"
    unfolding sum_out_def by (rule sum_no_wrap [OF range(2) bound]) auto
  have "(\<Sum>j<TmMOutputs (Config c). fv (WtValuesOut c ! j)) \<le> int (TmMOutputs (Config c)) * fv (TmRange (Config c))"
    using range(2) sum_mono [of "{..<TmMOutputs (Config c)}" "\<lambda>j. fv (WtValuesOut c ! j)" "\<lambda>_. fv (TmRange (Config c))"]
    by force
  moreover have "int (TmMOutputs (Config c) + 1) * fv (TmRange (Config c)) \<le> SNARK_SCALAR_FIELD"
    by (rule bound) simp
  ultimately show "(\<Sum>j<TmMOutputs (Config c). fv (WtValuesOut c ! j)) + fv (TmRange (Config c)) \<le> SNARK_SCALAR_FIELD"
    by (simp add: algebra_simps)
qed

text \<open>Payments out of a note of 50 with one padding input: plain, with a relayer note, with a fee.\<close>

definition payment_example :: PaymentCircuit where
  "payment_example = \<lparr>
     Config = \<lparr>TmNInputs = 2, TmMOutputs = 2, TmMerkleTreeDepth = 2, TmRange = 1000\<rparr>,
     StMessage = 0, StTreeNumbers = [0, 0], StMerkleRoots = [146296447, 0], StNullifiers = [2017, 0],
     StCommitmentsOut = [6715446, 4720100], StContractAddress = 77,
     WtPrivateKeysIn = [3, 0], WtValuesIn = [50, 0], WtSaltsIn = [11, 0], WtPathElements = [[7, 8], [0, 0]],
     WtPathIndices = [2, 0], WtTokenId = 9,
     WtSpendPublicKeysOut = [101, 34], WtValuesOut = [30, 20], WtSaltsOut = [12, 13]\<rparr>"

definition relayer_example :: PaymentRelayerFeePublicCircuit where
  "relayer_example = \<lparr>
     Config = \<lparr>TmNInputs = 2, TmMOutputs = 3, TmMerkleTreeDepth = 2, TmRange = 1000\<rparr>,
     StMessage = 0, StTreeNumbers = [0, 0], StMerkleRoots = [146296447, 0], StNullifiers = [2017, 0],
     StCommitmentsOut = [6715446, 4719945, 6746384], StContractAddress = 77,
     WtPrivateKeysIn = [3, 0], WtValuesIn = [50, 0], WtSaltsIn = [11, 0], WtPathElements = [[7, 8], [0, 0]],
     WtPathIndices = [2, 0], WtTokenId = 9,
     WtSpendPublicKeysOut = [101, 34, 102], WtValuesOut = [30, 15, 5], WtSaltsOut = [12, 13, 14], StFee = 5\<rparr>"

definition fee_example :: PaymentFeeCircuit where
  "fee_example = \<lparr>
     Config = \<lparr>TmNInputs = 2, TmMOutputs = 2, TmMerkleTreeDepth = 2, TmRange = 1000\<rparr>,
     StMessage = 0, StTreeNumbers = [0, 0], StMerkleRoots = [146296447, 0], StNullifiers = [2017, 0],
     StCommitmentsOut = [6715446, 4719945], StContractAddress = 77,
     WtPrivateKeysIn = [3, 0], WtValuesIn = [50, 0], WtSaltsIn = [11, 0], WtPathElements = [[7, 8], [0, 0]],
     WtPathIndices = [2, 0], WtTokenId = 9,
     WtSpendPublicKeysOut = [101, 34], WtValuesOut = [30, 15], WtSaltsOut = [12, 13], StFee = 5\<rparr>"

definition minting_example :: PaymentFeeCircuit where
  "minting_example = \<lparr>
     Config = \<lparr>TmNInputs = 2, TmMOutputs = 2, TmMerkleTreeDepth = 2, TmRange = 1000\<rparr>,
     StMessage = 0, StTreeNumbers = [0, 0], StMerkleRoots = [146296447, 0], StNullifiers = [2017, 0],
     StCommitmentsOut = [6742416, 4719945], StContractAddress = 77,
     WtPrivateKeysIn = [3, 0], WtValuesIn = [50, 0], WtSaltsIn = [11, 0], WtPathElements = [[7, 8], [0, 0]],
     WtPathIndices = [2, 0], WtTokenId = 9,
     WtSpendPublicKeysOut = [101, 34], WtValuesOut = [900, 15], WtSaltsOut = [12, 13], StFee = 0\<rparr>"

lemmas payment_eval = payment_notes_ok_def payment_input_ok_def payment_output_ok_def spends_eval
  hashes_to_def sum_hash_def fv_eval node_pair_def numeral_2_eq_2 numeral_3_eq_3 All_less_Suc
  sum_in_def sum_out_def

lemma payment_example_ok: "payment_notes_ok (\<lambda>j. j \<ge> 1) sum_hash payment_example"
  by (simp add: payment_eval payment_example_def cong: bind_strict)

lemma relayer_example_ok: "payment_notes_ok (\<lambda>j. j = 1) sum_hash relayer_example"
  by (simp add: payment_eval relayer_example_def cong: bind_strict)

lemma fee_example_ok: "payment_notes_ok (\<lambda>j. j = 1) sum_hash fee_example"
  by (simp add: payment_eval fee_example_def cong: bind_strict)

lemma minting_example_ok: "payment_notes_ok (\<lambda>j. j = 1) sum_hash minting_example"
  by (simp add: payment_eval minting_example_def cong: bind_strict)

lemma payment_example_sat: "PaymentCircuit_Define fr_api sum_hash payment_example = Some ()"
  using fr.PaymentCircuit_Define_iff [of payment_example sum_hash] payment_example_ok
  by (simp add: payment_example_def sum_in_def sum_out_def numeral_2_eq_2)

lemma relayer_example_sat: "PaymentRelayerFeePublicCircuit_Define fr_api sum_hash relayer_example = Some ()"
  using fr.PaymentRelayerFeePublicCircuit_Define_iff [of relayer_example sum_hash] relayer_example_ok
  by (simp add: relayer_example_def sum_in_def sum_out_def numeral_2_eq_2 numeral_3_eq_3)

lemma fee_example_sat: "PaymentFeeCircuit_Define fr_api sum_hash fee_example = Some ()"
  using fr.PaymentFeeCircuit_Define_iff [of fee_example sum_hash] fee_example_ok
  by (simp add: fee_example_def sum_in_def sum_out_def numeral_2_eq_2)

subsection \<open>Properties\<close>

text \<open>
  The plain payment circuit accepts exactly the assignments whose message is 0, whose inputs are
  the sender's notes or padding (value, nullifier and root 0), whose outputs are the published
  commitments, with every output after the first owned by the sender, and whose totals agree.
\<close>

theorem payment_refines_spec:
  assumes "gnark api" and "TmMerkleTreeDepth (Config c) < 254"
  shows "PaymentCircuit_Define api pos c = Some () \<longleftrightarrow>
    payment_notes_ok (\<lambda>j. j \<ge> 1) pos c \<and> fv (sum_out c) = fv (sum_in c)"
  using gnark.PaymentCircuit_Define_iff [OF assms] .

theorem payment_refines_spec_witness:
  "PaymentCircuit_Define fr_api sum_hash payment_example = Some () \<and>
   payment_notes_ok (\<lambda>j. j \<ge> 1) sum_hash payment_example"
  using payment_refines_spec [OF gnark_fr_api, of payment_example sum_hash] payment_example_sat
  by (simp add: payment_example_def)

text \<open>
  C9. A payment moves value and creates none: with a range bound that keeps the totals below the field
  order, the output values of an accepted payment sum over the integers to the input values, and what
  is not paid to the recipient (output 0) returns to the sender's own key.
\<close>

theorem payment_value_conserved:
  assumes "gnark api" and "TmMerkleTreeDepth (Config c) < 254" and "no_wrap c"
    and "PaymentCircuit_Define api pos c = Some ()"
  shows "(\<Sum>j<TmMOutputs (Config c). fv (WtValuesOut c ! j)) = (\<Sum>i<TmNInputs (Config c). fv (WtValuesIn c ! i))
    \<and> (\<exists>senderPk. pos [WtPrivateKeysIn c ! 0] = Some senderPk \<and>
         (\<forall>j. 1 \<le> j \<and> j < TmMOutputs (Config c) \<longrightarrow> fv (WtSpendPublicKeysOut c ! j) = fv senderPk))"
proof -
  have n: "payment_notes_ok (\<lambda>j. j \<ge> 1) pos c" and e: "fv (sum_out c) = fv (sum_in c)"
    using gnark.PaymentCircuit_Define_iff [OF assms(1,2)] assms(4) by auto
  have "\<exists>senderPk. pos [WtPrivateKeysIn c ! 0] = Some senderPk \<and>
         (\<forall>j. 1 \<le> j \<and> j < TmMOutputs (Config c) \<longrightarrow> fv (WtSpendPublicKeysOut c ! j) = fv senderPk)"
    by (rule payment_notesD [OF n]) (auto simp: payment_output_ok_def)
  with e payment_totals(1,2) [OF n assms(3)] show ?thesis by simp
qed

theorem payment_value_conserved_witness:
  "PaymentCircuit_Define fr_api sum_hash payment_example = Some () \<and> no_wrap payment_example \<and>
   (\<Sum>j<2. fv (WtValuesOut payment_example ! j)) = (\<Sum>i<2. fv (WtValuesIn payment_example ! i))"
proof -
  have w: "no_wrap payment_example" "TmMerkleTreeDepth (Config payment_example) < 254"
    by (simp_all add: no_wrap_def payment_example_def fv_eval SNARK_SCALAR_FIELD_def)
  from payment_value_conserved [OF gnark_fr_api w(2,1) payment_example_sat] w payment_example_sat
  show ?thesis by (simp add: payment_example_def)
qed

text \<open>
  The relayer's public fee is part of the balance: in an accepted three-output payment, what the
  recipient, the sender and the relayer receive sums over the integers to the inputs, the relayer's
  note is worth exactly the public fee, and the change belongs to the sender.
\<close>

theorem relayer_fee_in_balance:
  assumes "gnark api" and "TmMerkleTreeDepth (Config c) < 254" and "no_wrap c"
    and "TmMOutputs (Config c) = 3" and "PaymentRelayerFeePublicCircuit_Define api pos c = Some ()"
  shows "fv (WtValuesOut c ! 0) + fv (WtValuesOut c ! 1) + fv (StFee c)
      = (\<Sum>i<TmNInputs (Config c). fv (WtValuesIn c ! i))
    \<and> fv (WtValuesOut c ! 2) = fv (StFee c) \<and> hashes_to pos [WtPrivateKeysIn c ! 0] (WtSpendPublicKeysOut c ! 1)"
proof -
  have n: "payment_notes_ok (\<lambda>j. j = 1) pos c" and e: "fv (sum_out c) = fv (sum_in c)"
    and f: "fv (WtValuesOut c ! 2) = fv (StFee c)"
    using gnark.PaymentRelayerFeePublicCircuit_Define_iff [OF assms(1,2)] assms(5) by auto
  have "hashes_to pos [WtPrivateKeysIn c ! 0] (WtSpendPublicKeysOut c ! 1)"
  proof (rule payment_notesD [OF n])
    fix senderPk
    assume s: "pos [WtPrivateKeysIn c ! 0] = Some senderPk"
      and out: "\<And>j. j < TmMOutputs (Config c) \<Longrightarrow> payment_output_ok (\<lambda>j. j = 1) pos c senderPk j"
    from out [of 1] s show ?thesis by (simp add: payment_output_ok_def hashes_to_iff assms(4))
  qed
  with e f payment_totals(1,2) [OF n assms(3)] show ?thesis
    by (simp add: assms(4) numeral_3_eq_3 numeral_2_eq_2)
qed

theorem relayer_fee_in_balance_witness:
  "PaymentRelayerFeePublicCircuit_Define fr_api sum_hash relayer_example = Some () \<and>
   fv (WtValuesOut relayer_example ! 0) + fv (WtValuesOut relayer_example ! 1) + fv (StFee relayer_example)
      = (\<Sum>i<2. fv (WtValuesIn relayer_example ! i))"
proof -
  have w: "no_wrap relayer_example" "TmMerkleTreeDepth (Config relayer_example) < 254"
      "TmMOutputs (Config relayer_example) = 3" "TmNInputs (Config relayer_example) = 2"
    by (simp_all add: no_wrap_def relayer_example_def fv_eval SNARK_SCALAR_FIELD_def)
  from relayer_fee_in_balance [OF gnark_fr_api w(2,1,3) relayer_example_sat] w relayer_example_sat
  show ?thesis by simp
qed

text \<open>
  The fee-absorbing payment is balanced when the fee is in range: if the public fee is below the
  range bound, the outputs and the fee of an accepted proof sum over the integers to the inputs.
\<close>

theorem fee_payment_balanced:
  assumes "gnark api" and "TmMerkleTreeDepth (Config c) < 254" and "no_wrap c"
    and "PaymentFeeCircuit_Define api pos c = Some ()" and "fv (StFee c) < fv (TmRange (Config c))"
  shows "(\<Sum>j<TmMOutputs (Config c). fv (WtValuesOut c ! j)) + fv (StFee c)
      = (\<Sum>i<TmNInputs (Config c). fv (WtValuesIn c ! i))"
proof -
  have n: "payment_notes_ok (\<lambda>j. j = 1) pos c" and e: "fv (sum_out c + StFee c) = fv (sum_in c)"
    using gnark.PaymentFeeCircuit_Define_iff [OF assms(1,2)] assms(4) by auto
  note t = payment_totals [OF n assms(3)]
  have "fv (sum_out c + StFee c) = fv (fv (sum_out c) + fv (StFee c))" by simp
  also have "\<dots> = fv (sum_out c) + fv (StFee c)" using t(3) assms(5) unfolding t(2) [symmetric]
    by (intro fv_id add_nonneg_nonneg fv_range(1)) linarith
  finally show ?thesis using e t by simp
qed

theorem fee_payment_balanced_witness:
  "PaymentFeeCircuit_Define fr_api sum_hash fee_example = Some () \<and>
   (\<Sum>j<2. fv (WtValuesOut fee_example ! j)) + fv (StFee fee_example) = (\<Sum>i<2. fv (WtValuesIn fee_example ! i))"
proof -
  have w: "no_wrap fee_example" "TmMerkleTreeDepth (Config fee_example) < 254"
      "fv (StFee fee_example) < fv (TmRange (Config fee_example))"
      "TmMOutputs (Config fee_example) = 2" "TmNInputs (Config fee_example) = 2"
    by (simp_all add: no_wrap_def fee_example_def fv_eval SNARK_SCALAR_FIELD_def)
  from fee_payment_balanced [OF gnark_fr_api w(2,1) fee_example_sat w(3)] w fee_example_sat
  show ?thesis by simp
qed

lemma set_fee_fields [simp]:
  "Config (c\<lparr>StFee := x\<rparr>) = Config c"
  "StMessage (c\<lparr>StFee := x\<rparr>) = StMessage c"
  "StMerkleRoots (c\<lparr>StFee := x\<rparr>) = StMerkleRoots c"
  "StNullifiers (c\<lparr>StFee := x\<rparr>) = StNullifiers c"
  "StCommitmentsOut (c\<lparr>StFee := x\<rparr>) = StCommitmentsOut c"
  "WtPrivateKeysIn (c\<lparr>StFee := x\<rparr>) = WtPrivateKeysIn c"
  "WtValuesIn (c\<lparr>StFee := x\<rparr>) = WtValuesIn c"
  "WtSaltsIn (c\<lparr>StFee := x\<rparr>) = WtSaltsIn c"
  "WtPathElements (c\<lparr>StFee := x\<rparr>) = WtPathElements c"
  "WtPathIndices (c\<lparr>StFee := x\<rparr>) = WtPathIndices c"
  "WtTokenId (c\<lparr>StFee := x\<rparr>) = WtTokenId c"
  "WtSpendPublicKeysOut (c\<lparr>StFee := x\<rparr>) = WtSpendPublicKeysOut c"
  "WtValuesOut (c\<lparr>StFee := x\<rparr>) = WtValuesOut c"
  "WtSaltsOut (c\<lparr>StFee := x\<rparr>) = WtSaltsOut c"
  by (cases c; simp)+

text \<open>
  The circuit itself does not bound the fee. For every choice of spent and created notes that is
  valid note by note, whatever their amounts, there is a public fee that makes the fee-absorbing
  circuit accept: the balance equation is over the field, and the fee is free. In the example the
  outputs are worth 915 and the inputs 50.
\<close>

theorem fee_payment_absorbs_any_imbalance:
  assumes "gnark api" and "TmMerkleTreeDepth (Config c) < 254" and "payment_notes_ok (\<lambda>j. j = 1) pos c"
  shows "PaymentFeeCircuit_Define api pos (c\<lparr>StFee := fv (sum_in c - sum_out c)\<rparr>) = Some ()"
proof -
  let ?c = "c\<lparr>StFee := fv (sum_in c - sum_out c)\<rparr>"
  have "payment_notes_ok (\<lambda>j. j = 1) pos ?c"
    using assms(3) unfolding payment_notes_ok_def payment_input_ok_def payment_output_ok_def set_fee_fields .
  moreover have "fv (sum_out ?c + StFee ?c) = fv (sum_in ?c)"
    by (simp add: sum_in_def sum_out_def)
  ultimately show ?thesis
    using gnark.PaymentFeeCircuit_Define_iff [OF assms(1), of ?c] assms(2) by simp
qed

theorem fee_payment_absorbs_any_imbalance_witness:
  "PaymentFeeCircuit_Define fr_api sum_hash
     (minting_example\<lparr>StFee := fv (sum_in minting_example - sum_out minting_example)\<rparr>) = Some ()
   \<and> sum_in minting_example = 50 \<and> sum_out minting_example = 915"
  using fee_payment_absorbs_any_imbalance [OF gnark_fr_api _ minting_example_ok]
  by (simp add: minting_example_def sum_in_def sum_out_def numeral_2_eq_2)

end
