(* ===== verification/Auction_Bid.thy ===== *)
theory Auction_Bid
  imports Primitives
begin

section \<open>The bid circuit of the sealed-bid auction\<close>

text \<open>
  \<^verbatim>\<open>enygma_dvp_auctions/gnark_circuits/templates/AuctionBid.go\<close>: a bidder spends a note and commits its
  whole amount as a locked bid, a payout for the seller and a recovery note.
\<close>

record AuctionBidCircuitConfig =
  TmMerkleTreeDepth :: nat
  TmRange :: fr

record AuctionBidCircuit =
  Config :: AuctionBidCircuitConfig
  StAuctionId :: fr
  StTreeNumber :: fr
  StMerkleRoot :: fr
  StNullifier :: fr
  StCommitA :: fr
  StCommitB :: fr
  StRevertCommit :: fr
  WtAuctionId :: fr
  WtTreeNumber :: fr
  WtSpendKey :: fr
  WtAmount :: fr
  WtTokenId :: fr
  WtSaltIn :: fr
  WtPathElements :: "fr list"
  WtPathIndex :: fr
  WtSpendPkBob :: fr
  WtSaltA :: fr
  WtSaltB :: fr
  WtBidAmount :: fr
  WtSaltRevert :: fr

definition AuctionBidCircuit_Define :: "frontend_API \<Rightarrow> hasher \<Rightarrow> AuctionBidCircuit \<Rightarrow> unit option" where
  "AuctionBidCircuit_Define api pos circuit = do {
     AssertIsEqual api (WtAuctionId circuit) (StAuctionId circuit);
     AssertIsEqual api (WtTreeNumber circuit) (StTreeNumber circuit);
     let globalLeafIdx = Add api (Mul api (WtTreeNumber circuit) 256) (WtPathIndex circuit);
     pkAlice \<leftarrow> PublicKey api pos (WtSpendKey circuit);
     nullifier \<leftarrow> Nullifier api pos (WtSpendKey circuit) globalLeafIdx;
     AssertIsEqual api nullifier (StNullifier circuit);
     commitIn \<leftarrow> Erc20CommitmentV2 api pos pkAlice (WtSaltIn circuit) (WtAmount circuit) (WtTokenId circuit);
     pathElems \<leftarrow> mapM (idx (WtPathElements circuit)) [0..<TmMerkleTreeDepth (Config circuit)];
     root \<leftarrow> MerkleProof api pos commitIn (WtPathIndex circuit) pathElems;
     AssertIsEqual api root (StMerkleRoot circuit);
     commitA \<leftarrow> Erc20CommitmentV2 api pos pkAlice (WtSaltA circuit) (WtBidAmount circuit) (WtTokenId circuit);
     AssertIsEqual api commitA (StCommitA circuit);
     commitB \<leftarrow> Erc20CommitmentV2 api pos (WtSpendPkBob circuit) (WtSaltB circuit) (WtBidAmount circuit)
       (WtTokenId circuit);
     AssertIsEqual api commitB (StCommitB circuit);
     AssertIsEqual api (WtBidAmount circuit) (WtAmount circuit);
     AssertIsEqual api (IsLess api 0 (WtBidAmount circuit)) 1;
     AssertIsEqual api (IsLess api (WtBidAmount circuit) (TmRange (Config circuit))) 1;
     revertCommit \<leftarrow> Erc20CommitmentV2 api pos pkAlice (WtSaltRevert circuit) (WtBidAmount circuit)
       (WtTokenId circuit);
     AssertIsEqual api revertCommit (StRevertCommit circuit);
     AssertIsDifferent api (WtSaltRevert circuit) (WtSaltA circuit) }"

text \<open>The global position of the spent note, as the nullifier hashes it.\<close>

definition bid_leaf :: "AuctionBidCircuit \<Rightarrow> fr" where
  "bid_leaf c = fv (WtTreeNumber c * 256 + WtPathIndex c)"

definition bid_spec :: "hasher \<Rightarrow> AuctionBidCircuit \<Rightarrow> bool" where
  "bid_spec pos c \<longleftrightarrow>
     fv (WtAuctionId c) = fv (StAuctionId c) \<and> fv (WtTreeNumber c) = fv (StTreeNumber c) \<and>
     0 < fv (WtBidAmount c) \<and> fv (WtBidAmount c) < fv (TmRange (Config c)) \<and>
     fv (WtBidAmount c) = fv (WtAmount c) \<and> fv (WtSaltRevert c) \<noteq> fv (WtSaltA c) \<and>
     TmMerkleTreeDepth (Config c) \<le> length (WtPathElements c) \<and>
     hashes_to pos [WtSpendKey c, bid_leaf c] (StNullifier c) \<and>
     opens pos (TmMerkleTreeDepth (Config c)) (WtSpendKey c) (WtSaltIn c) (WtAmount c) (WtTokenId c)
       (WtPathIndex c) (WtPathElements c)
       (\<lambda>pk root. fv root = fv (StMerkleRoot c) \<and>
          hashes_to pos [pk, WtSaltA c, WtBidAmount c, WtTokenId c] (StCommitA c) \<and>
          hashes_to pos [pk, WtSaltRevert c, WtBidAmount c, WtTokenId c] (StRevertCommit c)) \<and>
     hashes_to pos [WtSpendPkBob c, WtSaltB c, WtBidAmount c, WtTokenId c] (StCommitB c)"

context gnark
begin

lemma AuctionBidCircuit_Define_iff:
  assumes "TmMerkleTreeDepth (Config c) < 254"
  shows "AuctionBidCircuit_Define api pos c = Some () \<longleftrightarrow> bid_spec pos c"
  using assms
  by (auto simp: AuctionBidCircuit_Define_def bid_spec_def opens_def circuit_simps bid_leaf_def Mul)

end

definition bid_example :: AuctionBidCircuit where
  "bid_example = \<lparr>Config = \<lparr>TmMerkleTreeDepth = 8, TmRange = 1000\<rparr>,
     StAuctionId = 5, StTreeNumber = 2, StMerkleRoot = 129838692089123839, StNullifier = 2529, StCommitA = 4720069, StCommitB = 6717027,
     StRevertCommit = 4721991, WtAuctionId = 5, WtTreeNumber = 2, WtSpendKey = 3, WtAmount = 50, WtTokenId = 9,
     WtSaltIn = 11, WtPathElements = [7, 8, 0, 0, 0, 0, 0, 0], WtPathIndex = 2, WtSpendPkBob = 101,
     WtSaltA = 12, WtSaltB = 13, WtBidAmount = 50, WtSaltRevert = 14\<rparr>"

lemma bid_example_spec: "bid_spec sum_hash bid_example"
  by (simp add: bid_spec_def bid_leaf_def opens_eval hashes_to_def bid_example_def sum_hash_def fv_eval
      node_pair_def cong: bind_strict)

lemma bid_example_sat: "AuctionBidCircuit_Define fr_api sum_hash bid_example = Some ()"
  using fr.AuctionBidCircuit_Define_iff [of bid_example sum_hash] bid_example_spec
  by (simp add: bid_example_def)

text \<open>
  The bid circuit accepts exactly the assignments of \<^term>\<open>bid_spec\<close>: a positive amount in range, the
  whole amount of the spent note, in the locked bid, the payout and the recovery note.
\<close>

theorem auction_bid_refines_spec:
  assumes "gnark api" and "TmMerkleTreeDepth (Config c) < 254"
  shows "AuctionBidCircuit_Define api pos c = Some () \<longleftrightarrow> bid_spec pos c"
  using gnark.AuctionBidCircuit_Define_iff [OF assms] .

theorem auction_bid_refines_spec_witness:
  "AuctionBidCircuit_Define fr_api sum_hash bid_example = Some () \<and> bid_spec sum_hash bid_example"
  using auction_bid_refines_spec [OF gnark_fr_api, of bid_example sum_hash] bid_example_spec
  by (simp add: bid_example_def)

lemma global_index_inj:
  fixes t k t' k' :: int
  assumes "fv (t * 256 + k) = fv (t' * 256 + k')" and "fv k < 256" "fv k' < 256"
    and "fv t * 256 + 256 \<le> SNARK_SCALAR_FIELD" "fv t' * 256 + 256 \<le> SNARK_SCALAR_FIELD"
  shows "fv t = fv t' \<and> fv k = fv k'"
proof -
  have canon: "fv (x * 256 + y) = fv x * 256 + fv y"
    if "fv y < 256" "fv x * 256 + 256 \<le> SNARK_SCALAR_FIELD" for x y :: int
  proof -
    have "fv (x * 256 + y) = fv (fv x * 256 + fv y)" by (metis fv_reduce(1,2,5))
    also have "\<dots> = fv x * 256 + fv y"
      using that fv_range [of x] fv_range [of y] by (intro fv_id) linarith+
    finally show ?thesis .
  qed
  have "fv t * 256 + fv k = fv t' * 256 + fv k'" using assms canon by simp
  moreover have "a = a' \<and> b = b'"
    if "a * 256 + b = a' * 256 + b'" "0 \<le> b" "b < 256" "0 \<le> b'" "b' < 256" for a b a' b' :: int
  proof -
    have "(a * 256 + b) div 256 = a" "(a' * 256 + b') div 256 = a'" using that by simp_all
    then show ?thesis using that(1) by simp
  qed
  ultimately show ?thesis using assms(2,3) fv_range(1) by blast
qed

text \<open>
  A bid's nullifier names the note, its tree included. Two accepted bids over depth-8 trees that
  publish the same nullifier spend the same position of the same tree with the same key, unless their
  nullifier inputs collide. (The tree numbers are far below the field order over 256.)
\<close>

theorem auction_nullifier_binds_tree:
  assumes "gnark api" and "AuctionBidCircuit_Define api pos c = Some ()" and "AuctionBidCircuit_Define api pos d = Some ()"
    and "TmMerkleTreeDepth (Config c) = 8" and "TmMerkleTreeDepth (Config d) = 8"
    and "fv (StTreeNumber c) * 256 + 256 \<le> SNARK_SCALAR_FIELD" and "fv (StTreeNumber d) * 256 + 256 \<le> SNARK_SCALAR_FIELD"
    and "fv (StNullifier c) = fv (StNullifier d)"
  shows "fv (WtSpendKey c) = fv (WtSpendKey d) \<and> fv (StTreeNumber c) = fv (StTreeNumber d)
      \<and> fv (WtPathIndex c) = fv (WtPathIndex d)
    \<or> collides pos [WtSpendKey c, bid_leaf c] [WtSpendKey d, bid_leaf d]"
proof -
  have c: "bid_spec pos c" and d: "bid_spec pos d"
    using gnark.AuctionBidCircuit_Define_iff [OF assms(1)] assms(2-5) by auto
  have "hashes_to pos [WtSpendKey d, bid_leaf d] (StNullifier c)"
    using d assms(8) by (auto simp: bid_spec_def hashes_to_iff)
  with c have "map fv [WtSpendKey c, bid_leaf c] = map fv [WtSpendKey d, bid_leaf d]
      \<or> collides pos [WtSpendKey c, bid_leaf c] [WtSpendKey d, bid_leaf d]"
    by (intro hashes_to_unique) (auto simp: bid_spec_def)
  moreover have "fv (StTreeNumber c) = fv (StTreeNumber d) \<and> fv (WtPathIndex c) = fv (WtPathIndex d)"
    if "fv (bid_leaf c) = fv (bid_leaf d)"
    using that c d assms(4-7) global_index_inj [of "WtTreeNumber c" "WtPathIndex c" "WtTreeNumber d" "WtPathIndex d"]
    by (auto simp: bid_leaf_def bid_spec_def opens_def)
  ultimately show ?thesis by auto
qed

theorem auction_nullifier_binds_tree_witness:
  "AuctionBidCircuit_Define fr_api sum_hash bid_example = Some () \<and>
   (fv (WtSpendKey bid_example) = fv (WtSpendKey bid_example)
     \<or> collides sum_hash [WtSpendKey bid_example, bid_leaf bid_example] [WtSpendKey bid_example, bid_leaf bid_example])"
  using auction_nullifier_binds_tree [OF gnark_fr_api bid_example_sat bid_example_sat] bid_example_sat
  by (simp add: bid_example_def fv_eval SNARK_SCALAR_FIELD_def)

end
