(* ===== verification/Auction_Withdraw.thy ===== *)
theory Auction_Withdraw
  imports Auction_Bid
begin

section \<open>Withdrawing a bid\<close>

text \<open>
  \<^verbatim>\<open>enygma_dvp_auctions/gnark_circuits/templates/AuctionWithdraw.go\<close>: whoever opens a locked bid of an
  auction may withdraw it.
\<close>

record AuctionWithdrawCircuit =
  StAuctionId :: fr
  StCommitA :: fr
  WtSpendKey :: fr
  WtSaltA :: fr
  WtAmount :: fr
  WtTokenId :: fr
  WtAuctionId :: fr

definition AuctionWithdrawCircuit_Define :: "frontend_API \<Rightarrow> hasher \<Rightarrow> AuctionWithdrawCircuit \<Rightarrow> unit option" where
  "AuctionWithdrawCircuit_Define api pos circuit = do {
     AssertIsEqual api (WtAuctionId circuit) (StAuctionId circuit);
     pkAlice \<leftarrow> PublicKey api pos (WtSpendKey circuit);
     commitA \<leftarrow> Erc20CommitmentV2 api pos pkAlice (WtSaltA circuit) (WtAmount circuit) (WtTokenId circuit);
     AssertIsEqual api commitA (StCommitA circuit) }"

definition withdraw_spec :: "hasher \<Rightarrow> AuctionWithdrawCircuit \<Rightarrow> bool" where
  "withdraw_spec pos c \<longleftrightarrow> fv (WtAuctionId c) = fv (StAuctionId c) \<and>
     (\<exists>pk. pos [WtSpendKey c] = Some pk \<and> hashes_to pos [pk, WtSaltA c, WtAmount c, WtTokenId c] (StCommitA c))"

context gnark
begin

lemma AuctionWithdrawCircuit_Define_iff:
  "AuctionWithdrawCircuit_Define api pos c = Some () \<longleftrightarrow> withdraw_spec pos c"
  by (auto simp: AuctionWithdrawCircuit_Define_def withdraw_spec_def circuit_simps)

end

definition withdraw_example :: AuctionWithdrawCircuit where
  "withdraw_example = \<lparr>StAuctionId = 5, StCommitA = 4720069, WtSpendKey = 3, WtSaltA = 12, WtAmount = 50,
     WtTokenId = 9, WtAuctionId = 5\<rparr>"

lemma withdraw_example_spec: "withdraw_spec sum_hash withdraw_example"
  by (simp add: withdraw_spec_def hashes_to_def withdraw_example_def sum_hash_def fv_eval)

definition bid_note :: "fr \<Rightarrow> AuctionBidCircuit \<Rightarrow> fr list" where
  "bid_note pk b = [pk, AuctionBidCircuit.WtSaltA b, WtBidAmount b, AuctionBidCircuit.WtTokenId b]"

definition withdraw_note :: "fr \<Rightarrow> AuctionWithdrawCircuit \<Rightarrow> fr list" where
  "withdraw_note pk w = [pk, WtSaltA w, WtAmount w, WtTokenId w]"

text \<open>
  A bid is withdrawn by its bidder only: an accepted withdraw proof for the locked commitment of an
  accepted bid opens it with the bidder's secret key, for the amount and token of the bid, unless the
  hash collides on the note or on the keys.
\<close>

theorem auction_withdraw_only_bidder:
  assumes "gnark api" and "AuctionBidCircuitConfig.TmMerkleTreeDepth (AuctionBidCircuit.Config b) < 254"
    and "AuctionBidCircuit_Define api pos b = Some ()" and "AuctionWithdrawCircuit_Define api pos w = Some ()"
    and "fv (AuctionBidCircuit.StCommitA b) = fv (StCommitA w)"
  shows "\<exists>pkB pkW. pos [AuctionBidCircuit.WtSpendKey b] = Some pkB \<and> pos [WtSpendKey w] = Some pkW \<and>
     (fv (WtSpendKey w) = fv (AuctionBidCircuit.WtSpendKey b) \<and> fv (WtAmount w) = fv (WtBidAmount b) \<and>
      fv (WtTokenId w) = fv (AuctionBidCircuit.WtTokenId b)
      \<or> collides pos (bid_note pkB b) (withdraw_note pkW w)
      \<or> collides pos [AuctionBidCircuit.WtSpendKey b] [WtSpendKey w])"
proof -
  from gnark.AuctionBidCircuit_Define_iff [OF assms(1,2)] assms(3,5)
  obtain pkB where B: "pos [AuctionBidCircuit.WtSpendKey b] = Some pkB" "hashes_to pos (bid_note pkB b) (StCommitA w)"
    by (auto simp: bid_spec_def opens_def bid_note_def hashes_to_iff)
  from gnark.AuctionWithdrawCircuit_Define_iff [OF assms(1)] assms(4)
  obtain pkW where W: "pos [WtSpendKey w] = Some pkW" "hashes_to pos (withdraw_note pkW w) (StCommitA w)"
    by (auto simp: withdraw_spec_def withdraw_note_def)
  show ?thesis
    using B(1) W(1) hashes_to_unique [OF B(2) W(2)] collidesI [OF B(1) W(1)]
    by (auto simp: bid_note_def withdraw_note_def)
qed

theorem auction_withdraw_only_bidder_witness:
  "AuctionBidCircuit_Define fr_api sum_hash bid_example = Some () \<and>
   AuctionWithdrawCircuit_Define fr_api sum_hash withdraw_example = Some () \<and>
   (\<exists>pkB pkW. sum_hash [3] = Some pkB \<and> sum_hash [3] = Some pkW \<and>
     (fv 50 = fv (WtBidAmount bid_example) \<or> collides sum_hash (bid_note pkB bid_example) (withdraw_note pkW withdraw_example)
      \<or> collides sum_hash [3] [3]))"
proof -
  have w: "AuctionWithdrawCircuit_Define fr_api sum_hash withdraw_example = Some ()"
    using fr.AuctionWithdrawCircuit_Define_iff withdraw_example_spec by blast
  have cm: "fv (AuctionBidCircuit.StCommitA bid_example) = fv (StCommitA withdraw_example)"
    and depth: "AuctionBidCircuitConfig.TmMerkleTreeDepth (AuctionBidCircuit.Config bid_example) < 254"
    and vals: "WtSpendKey withdraw_example = 3" "AuctionBidCircuit.WtSpendKey bid_example = 3" "WtAmount withdraw_example = 50"
    by (simp_all add: bid_example_def withdraw_example_def)
  from auction_withdraw_only_bidder [OF gnark_fr_api depth bid_example_sat w cm, unfolded vals]
  show ?thesis using w bid_example_sat by blast
qed

end
