(* ===== verification/Auction_Lock.thy ===== *)
theory Auction_Lock
  imports Primitives
begin

section \<open>Locking the auctioned token\<close>

text \<open>
  \<^verbatim>\<open>enygma_dvp_auctions/gnark_circuits/templates/AuctionLock.go\<close>: the seller spends the note of a
  non-fungible token, locks it in a commitment that names the auction, and commits to a recovery note.
\<close>

record AuctionLockCircuitConfig =
  TmMerkleTreeDepth :: nat

record AuctionLockCircuit =
  Config :: AuctionLockCircuitConfig
  StAuctionId :: fr
  StTreeNumber :: fr
  StMerkleRoot :: fr
  StNullifier :: fr
  StCommitLocked :: fr
  StNftTokenId :: fr
  StRevertCommit :: fr
  WtTreeNumber :: fr
  WtSpendKey :: fr
  WtTokenId :: fr
  WtSaltIn :: fr
  WtPathElements :: "fr list"
  WtPathIndex :: fr
  WtSaltLocked :: fr
  WtSaltRevert :: fr

definition AuctionLockCircuit_Define :: "frontend_API \<Rightarrow> hasher \<Rightarrow> AuctionLockCircuit \<Rightarrow> unit option" where
  "AuctionLockCircuit_Define api pos circuit = do {
     AssertIsEqual api (WtTreeNumber circuit) (StTreeNumber circuit);
     let globalLeafIdx = Add api (Mul api (WtTreeNumber circuit) 256) (WtPathIndex circuit);
     pkBob \<leftarrow> PublicKey api pos (WtSpendKey circuit);
     nullifier \<leftarrow> Nullifier api pos (WtSpendKey circuit) globalLeafIdx;
     AssertIsEqual api nullifier (StNullifier circuit);
     commitIn \<leftarrow> Erc721Commitment api pos (WtTokenId circuit) pkBob (WtSaltIn circuit);
     pathElems \<leftarrow> mapM (idx (WtPathElements circuit)) [0..<TmMerkleTreeDepth (Config circuit)];
     root \<leftarrow> MerkleProof api pos commitIn (WtPathIndex circuit) pathElems;
     AssertIsEqual api root (StMerkleRoot circuit);
     commitLocked \<leftarrow> Erc721Commitment api pos (WtTokenId circuit) pkBob (WtSaltLocked circuit);
     AssertIsEqual api commitLocked (StCommitLocked circuit);
     auctionId \<leftarrow> AuctionId api pos (StCommitLocked circuit);
     AssertIsEqual api auctionId (StAuctionId circuit);
     AssertIsEqual api (WtTokenId circuit) (StNftTokenId circuit);
     revertCommit \<leftarrow> Erc721Commitment api pos (WtTokenId circuit) pkBob (WtSaltRevert circuit);
     AssertIsEqual api revertCommit (StRevertCommit circuit);
     AssertIsDifferent api (WtSaltRevert circuit) (WtSaltLocked circuit) }"

definition lock_leaf :: "AuctionLockCircuit \<Rightarrow> fr" where
  "lock_leaf c = fv (WtTreeNumber c * 256 + WtPathIndex c)"

definition lock_spec :: "hasher \<Rightarrow> AuctionLockCircuit \<Rightarrow> bool" where
  "lock_spec pos c \<longleftrightarrow>
     fv (WtTreeNumber c) = fv (StTreeNumber c) \<and> fv (WtTokenId c) = fv (StNftTokenId c) \<and>
     fv (WtSaltRevert c) \<noteq> fv (WtSaltLocked c) \<and>
     TmMerkleTreeDepth (Config c) \<le> length (WtPathElements c) \<and>
     hashes_to pos [WtSpendKey c, lock_leaf c] (StNullifier c) \<and>
     opens pos (TmMerkleTreeDepth (Config c)) (WtSpendKey c) (WtSaltIn c) 1 (WtTokenId c)
       (WtPathIndex c) (WtPathElements c)
       (\<lambda>pk root. fv root = fv (StMerkleRoot c) \<and>
          hashes_to pos [pk, WtSaltLocked c, 1, WtTokenId c] (StCommitLocked c) \<and>
          hashes_to pos [pk, WtSaltRevert c, 1, WtTokenId c] (StRevertCommit c)) \<and>
     hashes_to pos [StCommitLocked c] (StAuctionId c)"

context gnark
begin

lemma AuctionLockCircuit_Define_iff:
  assumes "TmMerkleTreeDepth (Config c) < 254"
  shows "AuctionLockCircuit_Define api pos c = Some () \<longleftrightarrow> lock_spec pos c"
  using assms
  by (auto simp: AuctionLockCircuit_Define_def lock_spec_def opens_def circuit_simps lock_leaf_def Mul)

end

definition lock_example :: AuctionLockCircuit where
  "lock_example = \<lparr>Config = \<lparr>TmMerkleTreeDepth = 2\<rparr>,
     StAuctionId = 4718649, StTreeNumber = 2, StMerkleRoot = 146251466, StNullifier = 2529, StCommitLocked = 4718618,
     StNftTokenId = 77, StRevertCommit = 4720540, WtTreeNumber = 2, WtSpendKey = 3, WtTokenId = 77,
     WtSaltIn = 11, WtPathElements = [7, 8], WtPathIndex = 2, WtSaltLocked = 12, WtSaltRevert = 14\<rparr>"

lemma lock_example_spec: "lock_spec sum_hash lock_example"
  by (simp add: lock_spec_def lock_leaf_def opens_eval hashes_to_def lock_example_def sum_hash_def fv_eval
      node_pair_def cong: bind_strict)

lemma lock_example_sat: "AuctionLockCircuit_Define fr_api sum_hash lock_example = Some ()"
  using fr.AuctionLockCircuit_Define_iff [of lock_example sum_hash] lock_example_spec
  by (simp add: lock_example_def)

end
