(* ===== verification/Auction_Revert.thy ===== *)
theory Auction_Revert
  imports Auction_Lock
begin

section \<open>Reverting a cancelled auction\<close>

text \<open>
  \<^verbatim>\<open>enygma_dvp_auctions/gnark_circuits/templates/AuctionRevert.go\<close>: whoever opens the locked commitment of
  an auction mints the token back under a fresh salt.
\<close>

record AuctionRevertCircuit =
  StAuctionId :: fr
  StCommitLocked :: fr
  StNftTokenId :: fr
  StRevertedCommit :: fr
  WtSpendKey :: fr
  WtTokenId :: fr
  WtSaltLocked :: fr
  WtSaltOut :: fr

definition AuctionRevertCircuit_Define :: "frontend_API \<Rightarrow> hasher \<Rightarrow> AuctionRevertCircuit \<Rightarrow> unit option" where
  "AuctionRevertCircuit_Define api pos circuit = do {
     pkBob \<leftarrow> PublicKey api pos (WtSpendKey circuit);
     commitLocked \<leftarrow> Erc721Commitment api pos (WtTokenId circuit) pkBob (WtSaltLocked circuit);
     AssertIsEqual api commitLocked (StCommitLocked circuit);
     auctionId \<leftarrow> AuctionId api pos (StCommitLocked circuit);
     AssertIsEqual api auctionId (StAuctionId circuit);
     AssertIsEqual api (WtTokenId circuit) (StNftTokenId circuit);
     revertedCommit \<leftarrow> Erc721Commitment api pos (WtTokenId circuit) pkBob (WtSaltOut circuit);
     AssertIsEqual api revertedCommit (StRevertedCommit circuit);
     AssertIsDifferent api (WtSaltOut circuit) (WtSaltLocked circuit) }"

definition revert_spec :: "hasher \<Rightarrow> AuctionRevertCircuit \<Rightarrow> bool" where
  "revert_spec pos c \<longleftrightarrow> fv (WtTokenId c) = fv (StNftTokenId c) \<and> fv (WtSaltOut c) \<noteq> fv (WtSaltLocked c) \<and>
     hashes_to pos [StCommitLocked c] (StAuctionId c) \<and>
     (\<exists>pk. pos [WtSpendKey c] = Some pk \<and>
        hashes_to pos [pk, WtSaltLocked c, 1, WtTokenId c] (StCommitLocked c) \<and>
        hashes_to pos [pk, WtSaltOut c, 1, WtTokenId c] (StRevertedCommit c))"

context gnark
begin

lemma AuctionRevertCircuit_Define_iff:
  "AuctionRevertCircuit_Define api pos c = Some () \<longleftrightarrow> revert_spec pos c"
  by (auto simp: AuctionRevertCircuit_Define_def revert_spec_def circuit_simps)

end

definition revert_example :: AuctionRevertCircuit where
  "revert_example = \<lparr>StAuctionId = 4718649, StCommitLocked = 4718618, StNftTokenId = 77, StRevertedCommit = 4721501,
     WtSpendKey = 3, WtTokenId = 77, WtSaltLocked = 12, WtSaltOut = 15\<rparr>"

lemma revert_example_spec: "revert_spec sum_hash revert_example"
  by (simp add: revert_spec_def hashes_to_def revert_example_def sum_hash_def fv_eval)

text \<open>The locked note as the seller hashes it at lock time and as the reverting party opens it.\<close>

definition lock_note :: "fr \<Rightarrow> AuctionLockCircuit \<Rightarrow> fr list" where
  "lock_note pk l = [pk, AuctionLockCircuit.WtSaltLocked l, 1, AuctionLockCircuit.WtTokenId l]"

definition revert_note :: "fr \<Rightarrow> AuctionRevertCircuit \<Rightarrow> fr list" where
  "revert_note pk r = [pk, WtSaltLocked r, 1, WtTokenId r]"

text \<open>
  Only the seller reverts an auction, and the token comes back to them. If a revert proof is accepted
  for the auction id of an accepted lock proof, then it opens the same locked note: the same token and
  the seller's secret key, and the re-minted note belongs to that key, unless the hash collides on the
  auction id, on the locked note or on the two keys.
\<close>

theorem auction_revert_only_seller:
  assumes "gnark api" and "AuctionLockCircuitConfig.TmMerkleTreeDepth (AuctionLockCircuit.Config l) < 254"
    and "AuctionLockCircuit_Define api pos l = Some ()" and "AuctionRevertCircuit_Define api pos r = Some ()"
    and "fv (AuctionLockCircuit.StAuctionId l) = fv (StAuctionId r)"
  shows "\<exists>pkL pkR. pos [AuctionLockCircuit.WtSpendKey l] = Some pkL \<and> pos [WtSpendKey r] = Some pkR \<and>
     hashes_to pos [pkR, WtSaltOut r, 1, WtTokenId r] (StRevertedCommit r) \<and>
     (fv (StNftTokenId r) = fv (AuctionLockCircuit.StNftTokenId l) \<and>
      fv (WtSpendKey r) = fv (AuctionLockCircuit.WtSpendKey l)
      \<or> collides pos [AuctionLockCircuit.StCommitLocked l] [StCommitLocked r]
      \<or> collides pos (lock_note pkL l) (revert_note pkR r)
      \<or> collides pos [AuctionLockCircuit.WtSpendKey l] [WtSpendKey r])"
proof -
  have l: "lock_spec pos l" using gnark.AuctionLockCircuit_Define_iff [OF assms(1,2)] assms(3) by blast
  have r: "revert_spec pos r" using gnark.AuctionRevertCircuit_Define_iff [OF assms(1)] assms(4) by blast
  from l obtain pkL where L: "pos [AuctionLockCircuit.WtSpendKey l] = Some pkL"
      "hashes_to pos (lock_note pkL l) (AuctionLockCircuit.StCommitLocked l)"
      "hashes_to pos [AuctionLockCircuit.StCommitLocked l] (StAuctionId r)"
      "fv (AuctionLockCircuit.WtTokenId l) = fv (AuctionLockCircuit.StNftTokenId l)"
    using assms(5) by (auto simp: lock_spec_def opens_def lock_note_def hashes_to_iff)
  from r obtain pkR where R: "pos [WtSpendKey r] = Some pkR" "hashes_to pos (revert_note pkR r) (StCommitLocked r)"
      "hashes_to pos [StCommitLocked r] (StAuctionId r)" "fv (WtTokenId r) = fv (StNftTokenId r)"
      "hashes_to pos [pkR, WtSaltOut r, 1, WtTokenId r] (StRevertedCommit r)"
    by (auto simp: revert_spec_def revert_note_def)
  have "fv (StNftTokenId r) = fv (AuctionLockCircuit.StNftTokenId l) \<and>
      fv (WtSpendKey r) = fv (AuctionLockCircuit.WtSpendKey l)
      \<or> collides pos [AuctionLockCircuit.StCommitLocked l] [StCommitLocked r]
      \<or> collides pos (lock_note pkL l) (revert_note pkR r)
      \<or> collides pos [AuctionLockCircuit.WtSpendKey l] [WtSpendKey r]"
  proof (rule disjCI)
    assume free: "\<not> (collides pos [AuctionLockCircuit.StCommitLocked l] [StCommitLocked r]
      \<or> collides pos (lock_note pkL l) (revert_note pkR r)
      \<or> collides pos [AuctionLockCircuit.WtSpendKey l] [WtSpendKey r])"
    have "fv (AuctionLockCircuit.StCommitLocked l) = fv (StCommitLocked r)"
      using hashes_to_unique [OF L(3) R(3)] free by simp
    then have "hashes_to pos (lock_note pkL l) (StCommitLocked r)" using L(2) by (simp add: hashes_to_iff)
    from hashes_to_unique [OF this R(2)] free
    have n: "fv pkL = fv pkR" "fv (AuctionLockCircuit.WtTokenId l) = fv (WtTokenId r)"
      by (auto simp: lock_note_def revert_note_def)
    have "map fv [AuctionLockCircuit.WtSpendKey l] = map fv [WtSpendKey r]"
      by (rule collidesI [OF L(1) R(1) n(1)]) (use free in blast)
    with n L(4) R(4) show "fv (StNftTokenId r) = fv (AuctionLockCircuit.StNftTokenId l) \<and>
        fv (WtSpendKey r) = fv (AuctionLockCircuit.WtSpendKey l)" by simp
  qed
  with L(1) R(1,5) show ?thesis by blast
qed

theorem auction_revert_only_seller_witness:
  "AuctionLockCircuit_Define fr_api sum_hash lock_example = Some () \<and>
   AuctionRevertCircuit_Define fr_api sum_hash revert_example = Some () \<and>
   (\<exists>pkR. sum_hash [3] = Some pkR \<and> hashes_to sum_hash [pkR, 15, 1, 77] (StRevertedCommit revert_example))"
proof -
  have r: "AuctionRevertCircuit_Define fr_api sum_hash revert_example = Some ()"
    using fr.AuctionRevertCircuit_Define_iff revert_example_spec by blast
  have ids: "fv (AuctionLockCircuit.StAuctionId lock_example) = fv (StAuctionId revert_example)"
    and depth: "AuctionLockCircuitConfig.TmMerkleTreeDepth (AuctionLockCircuit.Config lock_example) < 254"
    and vals: "WtSpendKey revert_example = 3" "WtSaltOut revert_example = 15" "WtTokenId revert_example = 77"
    by (simp_all add: lock_example_def revert_example_def)
  from auction_revert_only_seller [OF gnark_fr_api depth lock_example_sat r ids, unfolded vals]
  show ?thesis using r lock_example_sat by blast
qed

end
