(* ===== verification/Auction_Batch.thy ===== *)
theory Auction_Batch
  imports Primitives
begin

section \<open>The batch circuit: the highest bid of a batch\<close>

text \<open>
  \<^verbatim>\<open>enygma_dvp_auctions/gnark_circuits/templates/AuctionBatch.go\<close>: the auctioneer opens the bids of a
  batch and proves which slot carries the highest. The selection of the winning slot is the loop of
  \<open>batch_select\<close>, four accumulators at once.
\<close>

definition AuctionBatchSize :: nat where
  "AuctionBatchSize = 100"

record AuctionBatchCircuit =
  StAuctionId :: fr
  StBidCommitA :: "fr list"
  StBatchWinnerCommit :: fr
  StBatchWinnerPk :: fr
  StBatchWinnerAmount :: fr
  WtAuctionId :: fr
  WtActive :: "fr list"
  WtPkBidder :: "fr list"
  WtSaltA :: "fr list"
  WtAmount :: "fr list"
  WtTokenId :: "fr list"
  WtWinnerIdx :: fr

definition batch_slot :: "frontend_API \<Rightarrow> hasher \<Rightarrow> AuctionBatchCircuit \<Rightarrow> nat \<Rightarrow> unit option" where
  "batch_slot api pos circuit i = do {
     active \<leftarrow> idx (WtActive circuit) i;
     AssertIsBoolean api active;
     stCommit \<leftarrow> idx (StBidCommitA circuit) i;
     AssertIsEqual api (Mul api (Sub api 1 active) stCommit) 0;
     pkBidder \<leftarrow> idx (WtPkBidder circuit) i;
     saltA \<leftarrow> idx (WtSaltA circuit) i;
     amount \<leftarrow> idx (WtAmount circuit) i;
     tokenId \<leftarrow> idx (WtTokenId circuit) i;
     computed \<leftarrow> Erc20CommitmentV2 api pos pkBidder saltA amount tokenId;
     AssertIsEqual api (Mul api active (Sub api computed stCommit)) 0;
     let isGreater = IsLess api (StBatchWinnerAmount circuit) amount;
     AssertIsEqual api (Mul api active isGreater) 0 }"

definition batch_select ::
  "frontend_API \<Rightarrow> AuctionBatchCircuit \<Rightarrow> nat \<Rightarrow> fr \<times> fr \<times> fr \<times> fr \<Rightarrow> (fr \<times> fr \<times> fr \<times> fr) option" where
  "batch_select api circuit i = (\<lambda>(selAmount, selCommit, selPk, selActive). do {
     let isIdx = IsZero api (Sub api (WtWinnerIdx circuit) (int i));
     amount \<leftarrow> idx (WtAmount circuit) i;
     stCommit \<leftarrow> idx (StBidCommitA circuit) i;
     pkBidder \<leftarrow> idx (WtPkBidder circuit) i;
     active \<leftarrow> idx (WtActive circuit) i;
     Some (Add api selAmount (Mul api isIdx amount), Add api selCommit (Mul api isIdx stCommit),
           Add api selPk (Mul api isIdx pkBidder), Add api selActive (Mul api isIdx active)) })"

definition AuctionBatchCircuit_Define :: "frontend_API \<Rightarrow> hasher \<Rightarrow> AuctionBatchCircuit \<Rightarrow> unit option" where
  "AuctionBatchCircuit_Define api pos circuit = do {
     AssertIsEqual api (WtAuctionId circuit) (StAuctionId circuit);
     forM (batch_slot api pos circuit) [0..<AuctionBatchSize];
     (selAmount, selCommit, selPk, selActive) \<leftarrow>
       foldM (batch_select api circuit) [0..<AuctionBatchSize] (0, 0, 0, 0);
     AssertIsEqual api selAmount (StBatchWinnerAmount circuit);
     AssertIsEqual api selCommit (StBatchWinnerCommit circuit);
     AssertIsEqual api selPk (StBatchWinnerPk circuit);
     AssertIsEqual api selActive 1;
     AssertIsEqual api (IsLess api 0 (StBatchWinnerAmount circuit)) 1 }"

subsection \<open>What the constraints say\<close>

definition batch_note :: "AuctionBatchCircuit \<Rightarrow> nat \<Rightarrow> fr list" where
  "batch_note c i = [WtPkBidder c ! i, WtSaltA c ! i, WtAmount c ! i, WtTokenId c ! i]"

definition batch_slot_ok :: "hasher \<Rightarrow> AuctionBatchCircuit \<Rightarrow> nat \<Rightarrow> bool" where
  "batch_slot_ok pos c i \<longleftrightarrow>
     i < length (WtActive c) \<and> i < length (StBidCommitA c) \<and> i < length (WtPkBidder c) \<and>
     i < length (WtSaltA c) \<and> i < length (WtAmount c) \<and> i < length (WtTokenId c) \<and>
     pos (batch_note c i) \<noteq> None \<and>
     (fv (WtActive c ! i) = 0 \<and> fv (StBidCommitA c ! i) = 0 \<or>
      fv (WtActive c ! i) = 1 \<and> hashes_to pos (batch_note c i) (StBidCommitA c ! i) \<and>
        fv (WtAmount c ! i) \<le> fv (StBatchWinnerAmount c))"

definition batch_winner_ok :: "AuctionBatchCircuit \<Rightarrow> nat \<Rightarrow> bool" where
  "batch_winner_ok c w \<longleftrightarrow> fv (WtActive c ! w) = 1 \<and> fv (WtAmount c ! w) = fv (StBatchWinnerAmount c) \<and>
     fv (StBidCommitA c ! w) = fv (StBatchWinnerCommit c) \<and> fv (WtPkBidder c ! w) = fv (StBatchWinnerPk c)"

definition batch_spec :: "hasher \<Rightarrow> AuctionBatchCircuit \<Rightarrow> bool" where
  "batch_spec pos c \<longleftrightarrow> fv (WtAuctionId c) = fv (StAuctionId c) \<and>
     (\<forall>i<AuctionBatchSize. batch_slot_ok pos c i) \<and>
     fv (WtWinnerIdx c) < int AuctionBatchSize \<and> batch_winner_ok c (nat (fv (WtWinnerIdx c))) \<and>
     0 < fv (StBatchWinnerAmount c)"

context gnark
begin

lemma batch_slot_iff: "batch_slot api pos c i = Some () \<longleftrightarrow> batch_slot_ok pos c i"
proof -
  have "fv b = 0 \<or> fv b = 1 \<Longrightarrow> fv (Mul api b (IsLess api x y)) = 0 \<longleftrightarrow> fv b = 0 \<or> fv y \<le> fv x" for b x y
    by (simp add: fv_Mul_bool fv_IsLess)
  then show ?thesis
    by (auto simp: batch_slot_def batch_slot_ok_def batch_note_def circuit_simps fv_Mul_bool fv_Mul_not_bool)
qed

lemma AuctionBatchCircuit_Define_iff:
  "AuctionBatchCircuit_Define api pos c = Some () \<longleftrightarrow> batch_spec pos c"
proof (cases "\<forall>i<AuctionBatchSize. batch_slot_ok pos c i")
  case True
  then have len: "\<forall>i<AuctionBatchSize. i < length (WtAmount c) \<and> i < length (StBidCommitA c) \<and>
      i < length (WtPkBidder c) \<and> i < length (WtActive c)" by (simp add: batch_slot_ok_def)
  have n: "int AuctionBatchSize \<le> SNARK_SCALAR_FIELD" by (simp add: AuctionBatchSize_def SNARK_SCALAR_FIELD_def)
  have sel: "batch_select api c = (\<lambda>i (a, b, c', d). do {
      let isIdx = IsZero api (Sub api (WtWinnerIdx c) (int i));
      x \<leftarrow> idx (WtAmount c) i; y \<leftarrow> idx (StBidCommitA c) i; z \<leftarrow> idx (WtPkBidder c) i; u \<leftarrow> idx (WtActive c) i;
      Some (Add api a (Mul api isIdx x), Add api b (Mul api isIdx y),
            Add api c' (Mul api isIdx z), Add api d (Mul api isIdx u)) })"
    by (intro ext) (simp add: batch_select_def)
  have slots: "forM (batch_slot api pos c) [0..<AuctionBatchSize] = Some ()"
    using True by (simp add: forM_Some_iff batch_slot_iff)
  show ?thesis
    by (rule select4 [OF n len, of "WtWinnerIdx c"])
      (use True slots in \<open>auto simp: AuctionBatchCircuit_Define_def sel batch_spec_def batch_winner_ok_def gadgets bind_eq_Some_conv\<close>)
next
  case False
  then show ?thesis
    by (auto simp: AuctionBatchCircuit_Define_def batch_spec_def bind_eq_Some_conv forM_Some_iff batch_slot_iff)
qed

end

text \<open>A batch with two bids, of 50 and 30, in a hundred slots.\<close>

definition batch_example :: AuctionBatchCircuit where
  "batch_example = \<lparr>StAuctionId = 5, StBidCommitA = [4720069, 5010632] @ replicate 98 0,
     StBatchWinnerCommit = 4720069, StBatchWinnerPk = 34, StBatchWinnerAmount = 50, WtAuctionId = 5,
     WtActive = [1, 1] @ replicate 98 0, WtPkBidder = [34, 44] @ replicate 98 0,
     WtSaltA = [12, 5] @ replicate 98 0, WtAmount = [50, 30] @ replicate 98 0,
     WtTokenId = [9, 9] @ replicate 98 0, WtWinnerIdx = 0\<rparr>"

lemma batch_example_spec: "batch_spec sum_hash batch_example"
proof -
  have slot: "batch_slot_ok sum_hash batch_example i" if "i < 100" for i
  proof -
    consider "i = 0" | "i = 1" | "2 \<le> i" by linarith
    then show ?thesis
      using that by cases (simp_all add: batch_slot_ok_def batch_note_def batch_example_def hashes_to_def
          sum_hash_def fv_eval nth_append)
  qed
  then show ?thesis
    by (simp add: batch_spec_def batch_winner_ok_def AuctionBatchSize_def)
      (simp add: batch_example_def fv_eval)
qed

lemma batch_example_sat: "AuctionBatchCircuit_Define fr_api sum_hash batch_example = Some ()"
  using fr.AuctionBatchCircuit_Define_iff batch_example_spec by blast

text \<open>
  The batch circuit accepts exactly the assignments of \<^term>\<open>batch_spec\<close>: every slot is either empty or
  an opened bid not above the winning amount, the winner is one of the active slots, with its
  commitment, key and amount published, and the amount is positive. A winner index outside the batch
  is refused.
\<close>

theorem auction_batch_refines_spec:
  assumes "gnark api"
  shows "AuctionBatchCircuit_Define api pos c = Some () \<longleftrightarrow> batch_spec pos c"
  using gnark.AuctionBatchCircuit_Define_iff [OF assms] .

theorem auction_batch_refines_spec_witness:
  "AuctionBatchCircuit_Define fr_api sum_hash batch_example = Some () \<and> batch_spec sum_hash batch_example"
  using auction_batch_refines_spec [OF gnark_fr_api] batch_example_spec by blast

end
