(* ===== verification/Auction_Final.thy ===== *)
theory Auction_Final
  imports Primitives
begin

section \<open>The settlement circuit\<close>

text \<open>
  \<^verbatim>\<open>enygma_dvp_auctions/gnark_circuits/templates/AuctionFinal.go\<close>: the overall winner among the batch
  winners, the seller's payout and the winner's token.
\<close>

definition AuctionFinalBatches :: nat where
  "AuctionFinalBatches = 10"

record AuctionFinalCircuit =
  StAuctionId :: fr
  StBatchWinnerCommit :: "fr list"
  StBatchWinnerPk :: "fr list"
  StBatchWinnerAmount :: "fr list"
  StOverallWinnerCommit :: fr
  StWinnerPk :: fr
  StWinnerCommitB :: fr
  StWinnerNftCommit :: fr
  StNftTokenId :: fr
  StWinningAmount :: fr
  StFloorPrice :: fr
  WtAuctionId :: fr
  WtBatchActive :: "fr list"
  WtWinnerBatchIdx :: fr
  WtPkBob :: fr
  WtSaltB :: fr
  WtUsdcTokenId :: fr
  WtSaltAlice :: fr
  WtNftTokenId :: fr

definition final_batch :: "frontend_API \<Rightarrow> AuctionFinalCircuit \<Rightarrow> nat \<Rightarrow> unit option" where
  "final_batch api circuit i = do {
     active \<leftarrow> idx (WtBatchActive circuit) i;
     AssertIsBoolean api active;
     commit \<leftarrow> idx (StBatchWinnerCommit circuit) i;
     AssertIsEqual api (Mul api (Sub api 1 active) commit) 0;
     amount \<leftarrow> idx (StBatchWinnerAmount circuit) i;
     let isGreater = IsLess api (StWinningAmount circuit) amount;
     AssertIsEqual api (Mul api active isGreater) 0 }"

definition final_select ::
  "frontend_API \<Rightarrow> AuctionFinalCircuit \<Rightarrow> nat \<Rightarrow> fr \<times> fr \<times> fr \<times> fr \<Rightarrow> (fr \<times> fr \<times> fr \<times> fr) option" where
  "final_select api circuit i = (\<lambda>(selAmount, selCommit, selPk, selActive). do {
     let isIdx = IsZero api (Sub api (WtWinnerBatchIdx circuit) (int i));
     amount \<leftarrow> idx (StBatchWinnerAmount circuit) i;
     commit \<leftarrow> idx (StBatchWinnerCommit circuit) i;
     pk \<leftarrow> idx (StBatchWinnerPk circuit) i;
     active \<leftarrow> idx (WtBatchActive circuit) i;
     Some (Add api selAmount (Mul api isIdx amount), Add api selCommit (Mul api isIdx commit),
           Add api selPk (Mul api isIdx pk), Add api selActive (Mul api isIdx active)) })"

definition AuctionFinalCircuit_Define :: "frontend_API \<Rightarrow> hasher \<Rightarrow> AuctionFinalCircuit \<Rightarrow> unit option" where
  "AuctionFinalCircuit_Define api pos circuit = do {
     AssertIsEqual api (WtAuctionId circuit) (StAuctionId circuit);
     forM (final_batch api circuit) [0..<AuctionFinalBatches];
     (selAmount, selCommit, selPk, selActive) \<leftarrow>
       foldM (final_select api circuit) [0..<AuctionFinalBatches] (0, 0, 0, 0);
     AssertIsEqual api selAmount (StWinningAmount circuit);
     AssertIsEqual api selCommit (StOverallWinnerCommit circuit);
     AssertIsEqual api selPk (StWinnerPk circuit);
     AssertIsEqual api selActive 1;
     commitB \<leftarrow> Erc20CommitmentV2 api pos (WtPkBob circuit) (WtSaltB circuit) (StWinningAmount circuit)
       (WtUsdcTokenId circuit);
     AssertIsEqual api commitB (StWinnerCommitB circuit);
     commitNft \<leftarrow> Erc721Commitment api pos (WtNftTokenId circuit) (StWinnerPk circuit) (WtSaltAlice circuit);
     AssertIsEqual api commitNft (StWinnerNftCommit circuit);
     AssertIsEqual api (WtNftTokenId circuit) (StNftTokenId circuit);
     AssertIsEqual api (IsLess api 0 (StWinningAmount circuit)) 1;
     AssertIsEqual api (IsLess api (StWinningAmount circuit) (StFloorPrice circuit)) 0 }"

subsection \<open>What the constraints say\<close>

definition final_batch_ok :: "AuctionFinalCircuit \<Rightarrow> nat \<Rightarrow> bool" where
  "final_batch_ok c i \<longleftrightarrow> i < length (WtBatchActive c) \<and> i < length (StBatchWinnerCommit c) \<and>
     i < length (StBatchWinnerAmount c) \<and>
     (fv (WtBatchActive c ! i) = 0 \<and> fv (StBatchWinnerCommit c ! i) = 0 \<or>
      fv (WtBatchActive c ! i) = 1 \<and> fv (StBatchWinnerAmount c ! i) \<le> fv (StWinningAmount c))"

definition final_winner_ok :: "AuctionFinalCircuit \<Rightarrow> nat \<Rightarrow> bool" where
  "final_winner_ok c w \<longleftrightarrow> fv (WtBatchActive c ! w) = 1 \<and>
     fv (StBatchWinnerAmount c ! w) = fv (StWinningAmount c) \<and>
     fv (StBatchWinnerCommit c ! w) = fv (StOverallWinnerCommit c) \<and> fv (StBatchWinnerPk c ! w) = fv (StWinnerPk c)"

definition final_spec :: "hasher \<Rightarrow> AuctionFinalCircuit \<Rightarrow> bool" where
  "final_spec pos c \<longleftrightarrow> fv (WtAuctionId c) = fv (StAuctionId c) \<and>
     AuctionFinalBatches \<le> length (StBatchWinnerPk c) \<and> (\<forall>i<AuctionFinalBatches. final_batch_ok c i) \<and>
     fv (WtWinnerBatchIdx c) < int AuctionFinalBatches \<and> final_winner_ok c (nat (fv (WtWinnerBatchIdx c))) \<and>
     hashes_to pos [WtPkBob c, WtSaltB c, StWinningAmount c, WtUsdcTokenId c] (StWinnerCommitB c) \<and>
     hashes_to pos [StWinnerPk c, WtSaltAlice c, 1, WtNftTokenId c] (StWinnerNftCommit c) \<and>
     fv (WtNftTokenId c) = fv (StNftTokenId c) \<and>
     0 < fv (StWinningAmount c) \<and> fv (StFloorPrice c) \<le> fv (StWinningAmount c)"

context gnark
begin

lemma final_batch_iff: "final_batch api c i = Some () \<longleftrightarrow> final_batch_ok c i"
proof -
  have "fv b = 0 \<or> fv b = 1 \<Longrightarrow> fv (Mul api b (IsLess api x y)) = 0 \<longleftrightarrow> fv b = 0 \<or> fv y \<le> fv x" for b x y
    by (simp add: fv_Mul_bool fv_IsLess)
  then show ?thesis
    by (auto simp: final_batch_def final_batch_ok_def circuit_simps fv_Mul_not_bool)
qed

lemma final_select_fold:
  assumes "\<forall>i<AuctionFinalBatches. final_batch_ok c i" and "AuctionFinalBatches \<le> length (StBatchWinnerPk c)"
  obtains a b p s where "foldM (final_select api c) [0..<AuctionFinalBatches] (0, 0, 0, 0) = Some (a, b, p, s)"
    and "fv s = 1 \<Longrightarrow> fv (WtWinnerBatchIdx c) < int AuctionFinalBatches"
    and "fv (WtWinnerBatchIdx c) < int AuctionFinalBatches \<Longrightarrow>
       fv a = fv (StBatchWinnerAmount c ! nat (fv (WtWinnerBatchIdx c))) \<and>
       fv b = fv (StBatchWinnerCommit c ! nat (fv (WtWinnerBatchIdx c))) \<and>
       fv p = fv (StBatchWinnerPk c ! nat (fv (WtWinnerBatchIdx c))) \<and>
       fv s = fv (WtBatchActive c ! nat (fv (WtWinnerBatchIdx c)))"
proof -
  have len: "\<forall>i<AuctionFinalBatches. i < length (StBatchWinnerAmount c) \<and> i < length (StBatchWinnerCommit c) \<and>
      i < length (StBatchWinnerPk c) \<and> i < length (WtBatchActive c)"
    using assms by (auto simp: final_batch_ok_def)
  have n: "int AuctionFinalBatches \<le> SNARK_SCALAR_FIELD"
    by (simp add: AuctionFinalBatches_def SNARK_SCALAR_FIELD_def)
  have sel: "final_select api c = (\<lambda>i (a, b, c', d). do {
      let isIdx = IsZero api (Sub api (WtWinnerBatchIdx c) (int i));
      x \<leftarrow> idx (StBatchWinnerAmount c) i; y \<leftarrow> idx (StBatchWinnerCommit c) i;
      z \<leftarrow> idx (StBatchWinnerPk c) i; u \<leftarrow> idx (WtBatchActive c) i;
      Some (Add api a (Mul api isIdx x), Add api b (Mul api isIdx y),
            Add api c' (Mul api isIdx z), Add api d (Mul api isIdx u)) })"
    by (intro ext) (simp add: final_select_def)
  show ?thesis
    by (rule select4 [OF n len, of "WtWinnerBatchIdx c"]) (rule that, unfold sel, assumption, auto split: if_splits)
qed

lemma final_select_short:
  assumes "foldM (final_select api c) [0..<AuctionFinalBatches] s = Some t"
  shows "AuctionFinalBatches \<le> length (StBatchWinnerPk c)"
proof (rule ccontr)
  let ?m = "length (StBatchWinnerPk c)"
  assume "\<not> AuctionFinalBatches \<le> ?m"
  then have "[0..<AuctionFinalBatches] = [0..<?m] @ ?m # [Suc ?m..<AuctionFinalBatches]"
    using upt_add_eq_append [of 0 ?m "AuctionFinalBatches - ?m"] upt_conv_Cons [of ?m AuctionFinalBatches]
    by simp
  with assms obtain u v where "final_select api c ?m u = Some v"
    by (simp only: foldM_append foldM.simps bind_eq_Some_conv) blast
  then show False by (cases u) (auto simp: final_select_def idx_def split: Option.bind_splits if_splits)
qed

lemma AuctionFinalCircuit_Define_iff: "AuctionFinalCircuit_Define api pos c = Some () \<longleftrightarrow> final_spec pos c"
proof (cases "(\<forall>i<AuctionFinalBatches. final_batch_ok c i) \<and> AuctionFinalBatches \<le> length (StBatchWinnerPk c)")
  case True
  then have batches: "forM (final_batch api c) [0..<AuctionFinalBatches] = Some ()"
    by (simp add: forM_Some_iff final_batch_iff)
  from True obtain a b p s where sel:
    "foldM (final_select api c) [0..<AuctionFinalBatches] (0, 0, 0, 0) = Some (a, b, p, s)"
    "fv s = 1 \<Longrightarrow> fv (WtWinnerBatchIdx c) < int AuctionFinalBatches"
    "fv (WtWinnerBatchIdx c) < int AuctionFinalBatches \<Longrightarrow>
       fv a = fv (StBatchWinnerAmount c ! nat (fv (WtWinnerBatchIdx c))) \<and>
       fv b = fv (StBatchWinnerCommit c ! nat (fv (WtWinnerBatchIdx c))) \<and>
       fv p = fv (StBatchWinnerPk c ! nat (fv (WtWinnerBatchIdx c))) \<and>
       fv s = fv (WtBatchActive c ! nat (fv (WtWinnerBatchIdx c)))"
    using final_select_fold by metis
  show ?thesis
    unfolding AuctionFinalCircuit_Define_def final_spec_def batches sel(1)
    using True sel(2,3) by (auto simp: circuit_simps final_winner_ok_def)
next
  case False
  then show ?thesis
    by (auto simp: AuctionFinalCircuit_Define_def final_spec_def bind_eq_Some_conv forM_Some_iff final_batch_iff
        dest: final_select_short)
qed

end

text \<open>The settlement of the batch example: one active batch, won with 50, floor price 40.\<close>

definition final_example :: AuctionFinalCircuit where
  "final_example = \<lparr>StAuctionId = 5, StBatchWinnerCommit = 4720069 # replicate 9 0,
     StBatchWinnerPk = 34 # replicate 9 0, StBatchWinnerAmount = 50 # replicate 9 0,
     StOverallWinnerCommit = 4720069, StWinnerPk = 34, StWinnerCommitB = 6717027, StWinnerNftCommit = 4722462,
     StNftTokenId = 77, StWinningAmount = 50, StFloorPrice = 40, WtAuctionId = 5,
     WtBatchActive = 1 # replicate 9 0, WtWinnerBatchIdx = 0, WtPkBob = 101, WtSaltB = 13,
     WtUsdcTokenId = 9, WtSaltAlice = 16, WtNftTokenId = 77\<rparr>"

lemma final_example_spec: "final_spec sum_hash final_example"
proof -
  have batch: "final_batch_ok final_example i" if "i < 10" for i
    using that by (cases i) (simp_all add: final_batch_ok_def final_example_def fv_eval)
  then show ?thesis
    by (simp add: final_spec_def AuctionFinalBatches_def)
      (simp add: final_example_def final_winner_ok_def hashes_to_def sum_hash_def fv_eval)
qed

lemma final_example_sat: "AuctionFinalCircuit_Define fr_api sum_hash final_example = Some ()"
  using fr.AuctionFinalCircuit_Define_iff final_example_spec by blast

text \<open>
  The settlement circuit accepts exactly the assignments of \<^term>\<open>final_spec\<close>. In particular the floor
  price is met with at least, not with more than, the floor.
\<close>

theorem auction_final_refines_spec:
  assumes "gnark api"
  shows "AuctionFinalCircuit_Define api pos c = Some () \<longleftrightarrow> final_spec pos c"
  using gnark.AuctionFinalCircuit_Define_iff [OF assms] .

theorem auction_final_refines_spec_witness:
  "AuctionFinalCircuit_Define fr_api sum_hash final_example = Some () \<and> final_spec sum_hash final_example"
  using auction_final_refines_spec [OF gnark_fr_api] final_example_spec by blast

end
