(* ===== verification/Auction.thy ===== *)
theory Auction
  imports Auction_Withdraw Auction_Revert Auction_Batch Auction_Final
begin

section \<open>The sealed-bid auction, end to end\<close>

text \<open>
  The circuits of \<^verbatim>\<open>enygma_dvp_auctions\<close> together, linked by their public inputs as the auction contract
  links them: bids are listed in the batches by their locked commitments, and the settlement consumes
  the public outputs of the batch proofs.
\<close>

definition batch_linked :: "AuctionFinalCircuit \<Rightarrow> AuctionBatchCircuit \<Rightarrow> nat \<Rightarrow> bool" where
  "batch_linked f B b \<longleftrightarrow>
     fv (AuctionBatchCircuit.StAuctionId B) = fv (StAuctionId f) \<and>
     fv (AuctionBatchCircuit.StBatchWinnerCommit B) = fv (StBatchWinnerCommit f ! b) \<and>
     fv (AuctionBatchCircuit.StBatchWinnerPk B) = fv (StBatchWinnerPk f ! b) \<and>
     fv (AuctionBatchCircuit.StBatchWinnerAmount B) = fv (StBatchWinnerAmount f ! b)"

text \<open>
  C5. The highest bid wins, and reaches the floor price. Take an accepted settlement and, for every batch it lists with a nonzero
  commitment, an accepted batch proof with the same public outputs. Then the winning amount is at least the floor price; every active slot
  of these batches opens its listed commitment to an amount of at most the winning amount; and every accepted bid whose nonzero
  commitment is listed in one of these batches is at most the winning amount, unless the bidder's and the auctioneer's openings
  of that commitment are a collision of the hash.
\<close>

theorem auction_highest_bid_wins:
  assumes "gnark api" and "AuctionFinalCircuit_Define api pos f = Some ()"
    and "\<forall>b<AuctionFinalBatches. fv (StBatchWinnerCommit f ! b) \<noteq> 0 \<longrightarrow>
      AuctionBatchCircuit_Define api pos (B b) = Some () \<and> batch_linked f (B b) b"
  shows "fv (StFloorPrice f) \<le> fv (StWinningAmount f) \<and>
    (\<forall>b<AuctionFinalBatches. \<forall>i<AuctionBatchSize. fv (StBatchWinnerCommit f ! b) \<noteq> 0 \<longrightarrow>
      (fv (WtActive (B b) ! i) \<noteq> 0 \<longrightarrow> hashes_to pos (batch_note (B b) i) (StBidCommitA (B b) ! i) \<and>
         fv (AuctionBatchCircuit.WtAmount (B b) ! i) \<le> fv (StWinningAmount f)) \<and>
      (\<forall>bid. AuctionBidCircuitConfig.TmMerkleTreeDepth (AuctionBidCircuit.Config bid) < 254 \<and>
         AuctionBidCircuit_Define api pos bid = Some () \<and> fv (StBidCommitA (B b) ! i) = fv (AuctionBidCircuit.StCommitA bid) \<and>
         fv (AuctionBidCircuit.StCommitA bid) \<noteq> 0 \<longrightarrow>
         fv (WtBidAmount bid) \<le> fv (StWinningAmount f) \<or>
         (\<exists>pk. pos [AuctionBidCircuit.WtSpendKey bid] = Some pk \<and> collides pos (bid_note pk bid) (batch_note (B b) i))))"
proof -
  have f: "final_spec pos f" using gnark.AuctionFinalCircuit_Define_iff [OF assms(1)] assms(2) by blast
  have slot: "fv (WtActive (B b) ! i) \<noteq> 0 \<Longrightarrow> hashes_to pos (batch_note (B b) i) (StBidCommitA (B b) ! i) \<and>
        fv (AuctionBatchCircuit.WtAmount (B b) ! i) \<le> fv (StWinningAmount f)"
      "fv (StBidCommitA (B b) ! i) \<noteq> 0 \<Longrightarrow> fv (WtActive (B b) ! i) \<noteq> 0"
    if "b < AuctionFinalBatches" "i < AuctionBatchSize" "fv (StBatchWinnerCommit f ! b) \<noteq> 0" for b i
  proof -
    have B: "batch_slot_ok pos (B b) i" "batch_linked f (B b) b"
      using assms(3) that gnark.AuctionBatchCircuit_Define_iff [OF assms(1)] by (auto simp: batch_spec_def)
    have "fv (StBatchWinnerAmount f ! b) \<le> fv (StWinningAmount f)"
      using f that(1,3) by (auto simp: final_spec_def final_batch_ok_def)
    with B show "fv (WtActive (B b) ! i) \<noteq> 0 \<Longrightarrow> hashes_to pos (batch_note (B b) i) (StBidCommitA (B b) ! i) \<and>
        fv (AuctionBatchCircuit.WtAmount (B b) ! i) \<le> fv (StWinningAmount f)"
      "fv (StBidCommitA (B b) ! i) \<noteq> 0 \<Longrightarrow> fv (WtActive (B b) ! i) \<noteq> 0"
      by (auto simp: batch_slot_ok_def batch_linked_def)
  qed
  have "fv (WtBidAmount bid) \<le> fv (StWinningAmount f) \<or>
       (\<exists>pk. pos [AuctionBidCircuit.WtSpendKey bid] = Some pk \<and> collides pos (bid_note pk bid) (batch_note (B b) i))"
    if b: "b < AuctionFinalBatches" "i < AuctionBatchSize" "fv (StBatchWinnerCommit f ! b) \<noteq> 0"
      and bid: "AuctionBidCircuitConfig.TmMerkleTreeDepth (AuctionBidCircuit.Config bid) < 254" "AuctionBidCircuit_Define api pos bid = Some ()"
        "fv (StBidCommitA (B b) ! i) = fv (AuctionBidCircuit.StCommitA bid)" "fv (AuctionBidCircuit.StCommitA bid) \<noteq> 0" for b i bid
  proof -
    from gnark.AuctionBidCircuit_Define_iff [OF assms(1) bid(1)] bid(2)
    obtain pk where pk: "pos [AuctionBidCircuit.WtSpendKey bid] = Some pk" "hashes_to pos (bid_note pk bid) (AuctionBidCircuit.StCommitA bid)"
      by (auto simp: bid_spec_def opens_def bid_note_def)
    have h: "hashes_to pos (batch_note (B b) i) (AuctionBidCircuit.StCommitA bid)"
        "fv (AuctionBatchCircuit.WtAmount (B b) ! i) \<le> fv (StWinningAmount f)"
      using slot [OF b] bid(3,4) by (auto simp: hashes_to_iff)
    with hashes_to_unique [OF pk(2) h(1)] pk(1) show ?thesis by (auto simp: bid_note_def batch_note_def)
  qed
  with f slot show ?thesis by (simp add: final_spec_def)
qed

lemma auction_examples_linked:
  "\<forall>b<AuctionFinalBatches. fv (StBatchWinnerCommit final_example ! b) \<noteq> 0 \<longrightarrow>
     AuctionBatchCircuit_Define fr_api sum_hash batch_example = Some () \<and> batch_linked final_example batch_example b"
proof (intro allI impI)
  fix b
  assume "b < AuctionFinalBatches" and "fv (StBatchWinnerCommit final_example ! b) \<noteq> 0"
  then have "b = 0" by (cases b) (simp_all add: final_example_def AuctionFinalBatches_def)
  then show "AuctionBatchCircuit_Define fr_api sum_hash batch_example = Some () \<and> batch_linked final_example batch_example b"
    using batch_example_sat by (simp add: batch_linked_def final_example_def batch_example_def)
qed

theorem auction_highest_bid_wins_witness:
  "AuctionFinalCircuit_Define fr_api sum_hash final_example = Some () \<and>
   AuctionBidCircuit_Define fr_api sum_hash bid_example = Some () \<and>
   fv (StFloorPrice final_example) \<le> fv (StWinningAmount final_example) \<and>
   fv (AuctionBatchCircuit.WtAmount batch_example ! 1) \<le> fv (StWinningAmount final_example) \<and>
   (fv (WtBidAmount bid_example) \<le> fv (StWinningAmount final_example) \<or>
    (\<exists>pk. sum_hash [AuctionBidCircuit.WtSpendKey bid_example] = Some pk \<and>
       collides sum_hash (bid_note pk bid_example) (batch_note batch_example 0)))"
proof -
  have e: "AuctionBidCircuitConfig.TmMerkleTreeDepth (AuctionBidCircuit.Config bid_example) < 254"
      "0 < AuctionFinalBatches" "0 < AuctionBatchSize" "1 < AuctionBatchSize" "fv (StBatchWinnerCommit final_example ! 0) \<noteq> 0"
      "fv (WtActive batch_example ! 1) \<noteq> 0"
      "fv (StBidCommitA batch_example ! 0) = fv (AuctionBidCircuit.StCommitA bid_example)"
      "fv (AuctionBidCircuit.StCommitA bid_example) \<noteq> 0"
    by (simp_all add: bid_example_def final_example_def batch_example_def AuctionFinalBatches_def
        AuctionBatchSize_def fv_eval)
  note wins = auction_highest_bid_wins [OF gnark_fr_api final_example_sat auction_examples_linked]
  from wins [THEN conjunct2, rule_format, OF e(2,3,5)] wins [THEN conjunct2, rule_format, OF e(2,4,5)] wins [THEN conjunct1] e
  show ?thesis using final_example_sat bid_example_sat by blast
qed

text \<open>
  C33. The winner is a bidder, paid for and rewarded as such. In an accepted settlement with a nonzero winning
  commitment, linked to its accepted batch proofs as above, the winning amount is positive and at least the floor
  price; the batch that the settlement selects is active, and the slot that this batch's proof selects is an active slot which
  lists the winning commitment and opens it to exactly the winning amount and the winner's key; the token commitment is a note of the
  auctioned token for that key, and the seller's payout is a note of the winning amount.
\<close>

theorem auction_winner_is_bidder:
  assumes "gnark api" and "AuctionFinalCircuit_Define api pos f = Some ()"
    and "\<forall>b<AuctionFinalBatches. fv (StBatchWinnerCommit f ! b) \<noteq> 0 \<longrightarrow>
      AuctionBatchCircuit_Define api pos (B b) = Some () \<and> batch_linked f (B b) b"
    and "fv (StOverallWinnerCommit f) \<noteq> 0"
  shows "0 < fv (StWinningAmount f) \<and> fv (StFloorPrice f) \<le> fv (StWinningAmount f) \<and>
    hashes_to pos [StWinnerPk f, WtSaltAlice f, 1, WtNftTokenId f] (StWinnerNftCommit f) \<and>
    fv (WtNftTokenId f) = fv (StNftTokenId f) \<and>
    hashes_to pos [WtPkBob f, WtSaltB f, StWinningAmount f, WtUsdcTokenId f] (StWinnerCommitB f) \<and>
    (\<exists>b<AuctionFinalBatches. \<exists>i<AuctionBatchSize. int b = fv (WtWinnerBatchIdx f) \<and> fv (WtBatchActive f ! b) = 1 \<and>
       int i = fv (WtWinnerIdx (B b)) \<and> fv (WtActive (B b) ! i) = 1 \<and>
       fv (StBidCommitA (B b) ! i) = fv (StOverallWinnerCommit f) \<and>
       hashes_to pos (batch_note (B b) i) (StOverallWinnerCommit f) \<and>
       fv (AuctionBatchCircuit.WtAmount (B b) ! i) = fv (StWinningAmount f) \<and>
       fv (WtPkBidder (B b) ! i) = fv (StWinnerPk f))"
proof -
  have f: "final_spec pos f" using gnark.AuctionFinalCircuit_Define_iff [OF assms(1)] assms(2) by blast
  let ?b = "nat (fv (WtWinnerBatchIdx f))"
  have b: "?b < AuctionFinalBatches" "final_winner_ok f ?b"
    using f by (auto simp: final_spec_def nat_less_iff)
  then have B: "batch_spec pos (B ?b)" "batch_linked f (B ?b) ?b"
    using assms(3,4) gnark.AuctionBatchCircuit_Define_iff [OF assms(1)] by (auto simp: final_winner_ok_def)
  let ?i = "nat (fv (WtWinnerIdx (B ?b)))"
  have i: "?i < AuctionBatchSize" "batch_winner_ok (B ?b) ?i" "batch_slot_ok pos (B ?b) ?i"
    using B(1) by (auto simp: batch_spec_def nat_less_iff)
  have "int ?b = fv (WtWinnerBatchIdx f) \<and> fv (WtBatchActive f ! ?b) = 1 \<and> int ?i = fv (WtWinnerIdx (B ?b)) \<and> fv (WtActive (B ?b) ! ?i) = 1 \<and>
       fv (StBidCommitA (B ?b) ! ?i) = fv (StOverallWinnerCommit f) \<and>
       hashes_to pos (batch_note (B ?b) ?i) (StOverallWinnerCommit f) \<and>
       fv (AuctionBatchCircuit.WtAmount (B ?b) ! ?i) = fv (StWinningAmount f) \<and>
       fv (WtPkBidder (B ?b) ! ?i) = fv (StWinnerPk f)"
    using i b(2) B(2) by (auto simp: batch_winner_ok_def final_winner_ok_def batch_linked_def batch_slot_ok_def hashes_to_iff)
  with f b(1) i(1) show ?thesis unfolding final_spec_def by blast
qed

theorem auction_winner_is_bidder_witness:
  "AuctionFinalCircuit_Define fr_api sum_hash final_example = Some () \<and>
   (\<exists>i<AuctionBatchSize. fv (WtActive batch_example ! i) = 1 \<and>
       hashes_to sum_hash (batch_note batch_example i) (StOverallWinnerCommit final_example) \<and>
       fv (WtPkBidder batch_example ! i) = fv (StWinnerPk final_example))"
proof -
  have "fv (StOverallWinnerCommit final_example) \<noteq> 0" by (simp add: final_example_def fv_eval)
  from auction_winner_is_bidder [OF gnark_fr_api final_example_sat auction_examples_linked this]
  show ?thesis using final_example_sat by blast
qed

end
