(* ===== verification/Go_Text.thy ===== *)
theory Go_Text
  imports Prelude
begin

section \<open>Texts and files\<close>

text \<open>
  What the clients use of the standard library for persisted state: \<^verbatim>\<open>big.Int.String\<close> and
  \<^verbatim>\<open>SetString(_, 10)\<close>, \<^verbatim>\<open>strings.TrimSpace\<close> on ASCII text, \<^verbatim>\<open>encoding/hex\<close>, and files that can be
  unreadable or fail to be written.
\<close>

subsection \<open>Decimal numerals\<close>

definition digit_char :: "nat \<Rightarrow> char" where
  "digit_char d = char_of (48 + d)"

fun nat_digits :: "nat \<Rightarrow> string" where
  "nat_digits n = (if n < 10 then [digit_char n] else nat_digits (n div 10) @ [digit_char (n mod 10)])"

declare nat_digits.simps [simp del]

definition bigInt_String :: "int \<Rightarrow> string" where
  "bigInt_String v = (if v < 0 then CHR ''-'' # nat_digits (nat (- v)) else nat_digits (nat v))"

definition parse_digits :: "string \<Rightarrow> int option" where
  "parse_digits s = (if s = [] then None else
     foldM (\<lambda>c v. let k = of_char c :: nat in
       if 48 \<le> k \<and> k < 58 then Some (10 * v + int (k - 48)) else None) s 0)"

definition bigInt_SetString :: "string \<Rightarrow> int option" where
  "bigInt_SetString s = (case s of
       [] \<Rightarrow> None
     | c # cs \<Rightarrow> if c = CHR ''-'' then map_option uminus (parse_digits cs)
                 else if c = CHR ''+'' then parse_digits cs else parse_digits s)"

lemma digit_char_value: "d < 10 \<Longrightarrow> (of_char (digit_char d) :: nat) = 48 + d"
  by (simp add: digit_char_def)

lemma nat_digits_nonempty [simp]: "nat_digits n \<noteq> []"
  by (subst nat_digits.simps) simp

lemma nat_digits_hd: "\<exists>d cs. d < 10 \<and> nat_digits n = digit_char d # cs"
proof (induction n rule: nat_digits.induct)
  case (1 n)
  show ?case
  proof (cases "n < 10")
    case False
    with 1 obtain d cs where "d < 10" "nat_digits (n div 10) = digit_char d # cs" by blast
    with False show ?thesis by (subst nat_digits.simps) auto
  next
    case True
    then show ?thesis by (subst nat_digits.simps) auto
  qed
qed

lemma parse_nat_digits: "parse_digits (nat_digits n) = Some (int n)"
proof (induction n rule: nat_digits.induct)
  case (1 n)
  show ?case
  proof (cases "n < 10")
    case True
    then show ?thesis by (subst nat_digits.simps) (simp add: parse_digits_def digit_char_value)
  next
    case False
    with 1 have "parse_digits (nat_digits (n div 10)) = Some (int (n div 10))" by simp
    moreover have "10 * int (n div 10) + int (n mod 10) = int n"
      by (metis mult_div_mod_eq of_nat_add of_nat_mult of_nat_numeral)
    ultimately show ?thesis
      using False by (subst nat_digits.simps) (simp add: parse_digits_def foldM_append digit_char_value)
  qed
qed

lemma SetString_String: "bigInt_SetString (bigInt_String v) = Some v"
proof (cases "v < 0")
  case True
  then show ?thesis by (simp add: bigInt_SetString_def bigInt_String_def parse_nat_digits)
next
  case False
  obtain d cs where d: "d < 10" "nat_digits (nat v) = digit_char d # cs" using nat_digits_hd by blast
  have "(of_char (digit_char d) :: nat) = 48 + d" using d(1) by (rule digit_char_value)
  then have "digit_char d \<noteq> CHR ''-''" "digit_char d \<noteq> CHR ''+''" by auto
  with False d(2) parse_nat_digits [of "nat v"] show ?thesis
    by (simp add: bigInt_SetString_def bigInt_String_def)
qed

lemma bigInt_String_nonempty: "bigInt_String v \<noteq> []"
proof
  assume "bigInt_String v = []"
  then have "bigInt_SetString [] = Some v" using SetString_String [of v] by simp
  then show False by (simp add: bigInt_SetString_def)
qed

text \<open>\<^verbatim>\<open>strconv.Atoi\<close> on a 64-bit machine.\<close>

definition Atoi :: "string \<Rightarrow> int option" where
  "Atoi s = (case bigInt_SetString s of None \<Rightarrow> None
     | Some v \<Rightarrow> if - (2 ^ 63) \<le> v \<and> v < 2 ^ 63 then Some v else None)"

subsection \<open>Numerals with a base prefix\<close>

text \<open>
  \<^verbatim>\<open>SetString(_, 0)\<close>: the prefix selects the base (\<^verbatim>\<open>0b\<close>, \<^verbatim>\<open>0o\<close>, \<^verbatim>\<open>0x\<close>; a leading \<^verbatim>\<open>0\<close> is octal), and underscores may
  separate digits or follow a prefix. The flag says that the last character was no digit.
\<close>

definition digit_value :: "char \<Rightarrow> nat" where
  "digit_value c = (let k = of_char c in
     if 48 \<le> k \<and> k < 58 then k - 48
     else if 97 \<le> k \<and> k < 123 then k - 87
     else if 65 \<le> k \<and> k < 91 then k - 55 else 36)"

fun scan_digits :: "nat \<Rightarrow> bool \<Rightarrow> int \<Rightarrow> string \<Rightarrow> int option" where
  "scan_digits b open_sep v [] = (if open_sep then None else Some v)"
| "scan_digits b open_sep v (c # cs) = (
     if c = CHR ''_'' then (if open_sep then None else scan_digits b True v cs)
     else if digit_value c < b then scan_digits b False (int b * v + int (digit_value c)) cs else None)"

definition scan_prefixed :: "string \<Rightarrow> int option" where
  "scan_prefixed s = (case s of
       d # c # cs \<Rightarrow>
         if d \<noteq> CHR ''0'' then scan_digits 10 True 0 s
         else if c = CHR ''b'' \<or> c = CHR ''B'' then (if cs = [] then None else scan_digits 2 False 0 cs)
         else if c = CHR ''o'' \<or> c = CHR ''O'' then (if cs = [] then None else scan_digits 8 False 0 cs)
         else if c = CHR ''x'' \<or> c = CHR ''X'' then (if cs = [] then None else scan_digits 16 False 0 cs)
         else scan_digits 8 False 0 (c # cs)
     | _ \<Rightarrow> scan_digits 10 True 0 s)"

definition bigInt_SetString0 :: "string \<Rightarrow> int option" where
  "bigInt_SetString0 s = (case s of
       [] \<Rightarrow> None
     | c # cs \<Rightarrow> if c = CHR ''-'' then map_option uminus (scan_prefixed cs)
                 else if c = CHR ''+'' then scan_prefixed cs else scan_prefixed s)"

lemma scan_decimal:
  assumes "foldM (\<lambda>c v. let k = of_char c :: nat in if 48 \<le> k \<and> k < 58 then Some (10 * v + int (k - 48)) else None) s v = Some n"
    and "\<not> open_sep \<or> s \<noteq> []"
  shows "scan_digits 10 open_sep v s = Some n"
  using assms by (induction s arbitrary: v open_sep) (auto simp: digit_value_def Let_def split: if_splits)

lemma nat_digits_lead: "nat_digits n = CHR ''0'' # c # cs \<Longrightarrow> False"
proof (induction n arbitrary: c cs rule: nat_digits.induct)
  case (1 n)
  then have big: "\<not> n < 10" and eq: "nat_digits (n div 10) @ [digit_char (n mod 10)] = CHR ''0'' # c # cs"
    by (auto simp: nat_digits.simps [of n] split: if_splits)
  obtain d ds where "nat_digits (n div 10) = d # ds" by (cases "nat_digits (n div 10)") simp_all
  with eq have d: "nat_digits (n div 10) = CHR ''0'' # ds" by simp
  then have "ds = []" using 1(1) [OF big] by (cases ds) auto
  with d have "parse_digits (nat_digits (n div 10)) = Some 0" by (simp add: parse_digits_def)
  then have "n div 10 = 0" by (simp add: parse_nat_digits)
  with big show False by simp
qed

lemma scan_nat_digits: "scan_prefixed (nat_digits n) = Some (int n)"
proof -
  have "parse_digits (nat_digits n) = Some (int n)" by (rule parse_nat_digits)
  then have "scan_digits 10 True 0 (nat_digits n) = Some (int n)" by (intro scan_decimal) (auto simp: parse_digits_def split: if_splits)
  moreover have "\<not> (\<exists>c cs. nat_digits n = CHR ''0'' # c # cs)" using nat_digits_lead by blast
  ultimately show ?thesis by (auto simp: scan_prefixed_def split: list.split)
qed

lemma SetString0_String: "bigInt_SetString0 (bigInt_String v) = Some v"
proof (cases "v < 0")
  case True
  then show ?thesis by (simp add: bigInt_SetString0_def bigInt_String_def scan_nat_digits)
next
  case False
  obtain d cs where d: "d < 10" "nat_digits (nat v) = digit_char d # cs" using nat_digits_hd by blast
  have "(of_char (digit_char d) :: nat) = 48 + d" using d(1) by (rule digit_char_value)
  then have "digit_char d \<noteq> CHR ''-''" "digit_char d \<noteq> CHR ''+''" by auto
  with False d(2) scan_nat_digits [of "nat v"] show ?thesis
    by (simp add: bigInt_SetString0_def bigInt_String_def)
qed

subsection \<open>Bytes as text\<close>

definition chars :: "byte list \<Rightarrow> string" where
  "chars bs = map (\<lambda>b. char_of (unat b)) bs"

lemma chars_ascii [simp]: "chars (ascii s) = s"
proof -
  have "char_of (unat (word_of_nat (of_char c) :: byte)) = c" for c
    by (simp add: unat_of_nat take_bit_nat_eq_self of_char_of)
  then show ?thesis by (induction s) (simp_all add: chars_def ascii_def)
qed

definition is_space :: "char \<Rightarrow> bool" where
  "is_space c \<longleftrightarrow> (let k = of_char c :: nat in 9 \<le> k \<and> k \<le> 13 \<or> k = 32)"

definition TrimSpace :: "string \<Rightarrow> string" where
  "TrimSpace s = rev (dropWhile is_space (rev (dropWhile is_space s)))"

lemma dropWhile_none: "(\<And>c. c \<in> set s \<Longrightarrow> \<not> P c) \<Longrightarrow> dropWhile P s = s"
  by (induction s) auto

lemma TrimSpace_id: "(\<And>c. c \<in> set s \<Longrightarrow> \<not> is_space c) \<Longrightarrow> TrimSpace s = s"
  using dropWhile_none [of s is_space] dropWhile_none [of "rev s" is_space] by (simp add: TrimSpace_def)

lemma nat_digits_no_space: "c \<in> set (nat_digits n) \<Longrightarrow> \<not> is_space c"
proof (induction n rule: nat_digits.induct)
  case (1 n)
  have "\<not> is_space (digit_char d)" if "d < 10" for d using digit_char_value [OF that] by (simp add: is_space_def)
  with 1 show ?case by (subst (asm) (2) nat_digits.simps) (auto split: if_splits)
qed

lemma TrimSpace_String [simp]: "TrimSpace (bigInt_String v) = bigInt_String v"
  by (rule TrimSpace_id) (auto simp: bigInt_String_def is_space_def dest: nat_digits_no_space split: if_splits)

subsection \<open>Hexadecimal\<close>

definition hex_char :: "nat \<Rightarrow> char" where
  "hex_char d = (if d < 10 then char_of (48 + d) else char_of (87 + d))"

definition hex_value :: "char \<Rightarrow> nat option" where
  "hex_value c = (let k = of_char c :: nat in
     if 48 \<le> k \<and> k < 58 then Some (k - 48)
     else if 97 \<le> k \<and> k < 103 then Some (k - 87)
     else if 65 \<le> k \<and> k < 71 then Some (k - 55) else None)"

definition EncodeToString :: "byte list \<Rightarrow> string" where
  "EncodeToString bs = concat (map (\<lambda>b. [hex_char (unat b div 16), hex_char (unat b mod 16)]) bs)"

fun DecodeString :: "string \<Rightarrow> byte list option" where
  "DecodeString [] = Some []"
| "DecodeString [c] = None"
| "DecodeString (c # d # s) = do {
     hi \<leftarrow> hex_value c; lo \<leftarrow> hex_value d; bs \<leftarrow> DecodeString s;
     Some (word_of_nat (16 * hi + lo) # bs) }"

lemma hex_char_value: "d < 16 \<Longrightarrow> hex_value (hex_char d) = Some d \<and> \<not> is_space (hex_char d)"
  by (simp add: hex_char_def hex_value_def is_space_def)

lemma DecodeString_Encode: "DecodeString (EncodeToString bs) = Some bs"
proof (induction bs)
  case (Cons b bs)
  have b: "unat b < 256" using unsigned_less [of b, where ?'a = nat] by simp
  then have "unat b div 16 < 16" "unat b mod 16 < 16" by auto
  then have "hex_value (hex_char (unat b div 16)) = Some (unat b div 16)"
      "hex_value (hex_char (unat b mod 16)) = Some (unat b mod 16)" by (simp_all add: hex_char_value)
  moreover have "word_of_nat (16 * (unat b div 16) + unat b mod 16) = b" by simp
  ultimately show ?case using Cons by (simp add: EncodeToString_def del: of_nat_add of_nat_mult)
qed (simp add: EncodeToString_def)

lemma TrimSpace_Encode [simp]: "TrimSpace (EncodeToString bs) = EncodeToString bs"
proof (rule TrimSpace_id)
  fix c assume "c \<in> set (EncodeToString bs)"
  then obtain b :: byte where "c \<in> {hex_char (unat b div 16), hex_char (unat b mod 16)}"
    unfolding EncodeToString_def by fastforce
  moreover have "unat b div 16 < 16" "unat b mod 16 < 16" for b :: byte
    using unsigned_less [of b, where ?'a = nat] by auto
  ultimately show "\<not> is_space c" using hex_char_value by blast
qed

subsection \<open>Files\<close>

text \<open>
  A directory: the files by name, the names that exist but cannot be read, and the names that cannot be
  written, each with what a failed \<^verbatim>\<open>os.WriteFile\<close> leaves behind.
\<close>

record disk =
  disk_files :: "string \<Rightarrow> byte list option"
  unreadable :: "string \<Rightarrow> bool"
  write_fault :: "string \<Rightarrow> byte list option option"

datatype read_result = Content "byte list" | NotExist | ReadError

definition ReadFile :: "disk \<Rightarrow> string \<Rightarrow> read_result" where
  "ReadFile d name = (case disk_files d name of
       None \<Rightarrow> NotExist
     | Some bs \<Rightarrow> if unreadable d name then ReadError else Content bs)"

definition WriteFile :: "disk \<Rightarrow> string \<Rightarrow> byte list \<Rightarrow> bool \<times> disk" where
  "WriteFile d name bs = (case write_fault d name of
       None \<Rightarrow> (True, d\<lparr>disk_files := (disk_files d)(name := Some bs)\<rparr>)
     | Some left_over \<Rightarrow> (False, d\<lparr>disk_files := (disk_files d)(name := left_over)\<rparr>))"

lemma ReadFile_WriteFile:
  assumes "WriteFile d name bs = (True, d')"
  shows "ReadFile d' name = (if unreadable d name then ReadError else Content bs)"
    and "name' \<noteq> name \<Longrightarrow> ReadFile d' name' = ReadFile d name'"
  using assms by (auto simp: WriteFile_def ReadFile_def split: option.splits)

lemma WriteFile_faults:
  assumes "WriteFile d name bs = (ok, d')"
  shows "unreadable d' = unreadable d" and "write_fault d' = write_fault d"
    and "name' \<noteq> name \<Longrightarrow> disk_files d' name' = disk_files d name'" and "ok \<Longrightarrow> disk_files d' name = Some bs"
  using assms by (auto simp: WriteFile_def split: option.splits)

subsection \<open>Hexadecimal numbers\<close>

text \<open>\<^verbatim>\<open>SetString(_, 16)\<close>, \<^verbatim>\<open>fmt.Sprintf("%064x", _)\<close> and \<^verbatim>\<open>strings.ToLower\<close> on ASCII text.\<close>

definition parse_hex :: "string \<Rightarrow> int option" where
  "parse_hex s = (if s = [] then None else
     foldM (\<lambda>c v. if digit_value c < 16 then Some (16 * v + int (digit_value c)) else None) s 0)"

definition bigInt_SetString16 :: "string \<Rightarrow> int option" where
  "bigInt_SetString16 s = (case s of
       [] \<Rightarrow> None
     | c # cs \<Rightarrow> if c = CHR ''-'' then map_option uminus (parse_hex cs)
                 else if c = CHR ''+'' then parse_hex cs else parse_hex s)"

fun hex_digits :: "nat \<Rightarrow> string" where
  "hex_digits n = (if n < 16 then [hex_char n] else hex_digits (n div 16) @ [hex_char (n mod 16)])"

declare hex_digits.simps [simp del]

definition Sprintf_064x :: "64 word \<Rightarrow> string" where
  "Sprintf_064x w = (let h = hex_digits (unat w) in replicate (64 - length h) (CHR ''0'') @ h)"

definition ToLower :: "string \<Rightarrow> string" where
  "ToLower s = map (\<lambda>c. let k = of_char c :: nat in if 65 \<le> k \<and> k < 91 then char_of (k + 32) else c) s"

subsection \<open>Splitting and joining\<close>

text \<open>\<^verbatim>\<open>strings.Split\<close> and \<^verbatim>\<open>strings.Join\<close> for a separator of one character.\<close>

fun Split :: "char \<Rightarrow> string \<Rightarrow> string list" where
  "Split c [] = [[]]"
| "Split c (x # xs) = (if x = c then [] # Split c xs
     else case Split c xs of [] \<Rightarrow> [[x]] | y # ys \<Rightarrow> (x # y) # ys)"

fun strings_Join :: "char \<Rightarrow> string list \<Rightarrow> string" where
  "strings_Join c [] = []"
| "strings_Join c [s] = s"
| "strings_Join c (s # t # ts) = s @ c # strings_Join c (t # ts)"

lemma Split_nonempty [simp]: "Split c s \<noteq> []"
  by (induction s) (auto split: list.split)

lemma Split_prefix: "c \<notin> set a \<Longrightarrow> Split c (a @ c # s) = a # Split c s" "c \<notin> set a \<Longrightarrow> Split c a = [a]"
  by (induction a) auto

lemma Split_parts: "a \<in> set (Split c s) \<Longrightarrow> c \<notin> set a"
  by (induction s arbitrary: a) (force split: list.splits if_splits)+

lemma Split_Join: "ss \<noteq> [] \<Longrightarrow> \<forall>s\<in>set ss. c \<notin> set s \<Longrightarrow> Split c (strings_Join c ss) = ss"
  by (induction c ss rule: strings_Join.induct) (simp_all add: Split_prefix)

lemma hex_char_digit: "d < 16 \<Longrightarrow> digit_value (hex_char d) = d"
  by (simp add: hex_char_def digit_value_def)

lemma parse_hex_digits: "parse_hex (hex_digits n) = Some (int n)"
proof (induction n rule: hex_digits.induct)
  case (1 n)
  show ?case
  proof (cases "n < 16")
    case True
    then show ?thesis by (subst hex_digits.simps) (simp add: parse_hex_def hex_char_digit)
  next
    case False
    with 1 have "parse_hex (hex_digits (n div 16)) = Some (int (n div 16))" by simp
    moreover have "16 * int (n div 16) + int (n mod 16) = int n"
      by (metis mult_div_mod_eq of_nat_add of_nat_mult of_nat_numeral)
    ultimately show ?thesis
      using False by (subst hex_digits.simps) (simp add: parse_hex_def foldM_append hex_char_digit split: if_splits)
  qed
qed

subsection \<open>Prefixes, and loops over a slice\<close>

definition TrimPrefix :: "string \<Rightarrow> string \<Rightarrow> string" where
  "TrimPrefix s pre = (if take (length pre) s = pre then drop (length pre) s else s)"

text \<open>A loop over a slice that stops at the first element that fails.\<close>

fun checkAll :: "(nat \<Rightarrow> 'a \<Rightarrow> 'e + 'b) \<Rightarrow> nat \<Rightarrow> 'a list \<Rightarrow> 'e + 'b list" where
  "checkAll f i [] = Inr []"
| "checkAll f i (x # xs) = (case f i x of Inl e \<Rightarrow> Inl e
     | Inr y \<Rightarrow> (case checkAll f (Suc i) xs of Inl e \<Rightarrow> Inl e | Inr ys \<Rightarrow> Inr (y # ys)))"

lemma checkAll_Inr:
  assumes "\<And>i x y. f i x = Inr y \<longleftrightarrow> P x y"
  shows "checkAll f i xs = Inr ys \<longleftrightarrow> list_all2 P xs ys"
proof (induction xs arbitrary: i ys)
  case (Cons x xs)
  have "checkAll f i (x # xs) = Inr ys \<longleftrightarrow> (\<exists>y zs. f i x = Inr y \<and> checkAll f (Suc i) xs = Inr zs \<and> ys = y # zs)"
    by (auto split: sum.splits)
  then show ?case
    by (auto simp: Cons.IH assms list_all2_Cons1)
qed auto

end
