(* ===== verification/Merkle_Tree.thy ===== *)
theory Merkle_Tree
  imports Primitives Go_Text
begin

unbundle bit_operations_syntax

section \<open>The client's Merkle tree\<close>

text \<open>
  \<^verbatim>\<open>enygma_dvp/src/core/merkle.go\<close>: the sparse tree the clients keep of the note commitments, with its
  roll-over to a fresh tree and its membership proofs. The Poseidon hash of the iden3 library is the
  argument \<open>Hash\<close> (\<^term>\<open>None\<close> when it returns an error, on which \<^verbatim>\<open>HashLeftRight\<close> panics) and the Keccak
  hash of the sha3 package is the argument \<open>keccak256\<close>. \<^term>\<open>None\<close> is a panic throughout. A \<^verbatim>\<open>*big.Int\<close> is
  an integer, a Go \<^verbatim>\<open>int\<close> that counts or indexes is a natural number, and the capacity \<^verbatim>\<open>1 << depth\<close> is
  computed at 64 bits.
\<close>

type_synonym native_hash = "int list \<Rightarrow> int option"

record MerkleProof_data =
  Element :: int
  Elements :: "int list"
  Indices :: int
  Root :: int

record MerkleTree =
  depth :: nat
  zeros :: "int list"
  tree :: "int list list"
  treeNumber :: nat
  prevTrees :: "int list list list"
  savePath :: string

definition HashLeftRight :: "native_hash \<Rightarrow> int \<Rightarrow> int \<Rightarrow> int option" where
  "HashLeftRight Hash left right = Hash [left, right]"

definition GetZeroValue :: "(byte list \<Rightarrow> byte list) \<Rightarrow> int" where
  "GetZeroValue keccak256 = SetBytes (keccak256 (ascii ''ZkDvp'')) mod SNARK_SCALAR_FIELD"

definition getZeroValueLevels :: "native_hash \<Rightarrow> (byte list \<Rightarrow> byte list) \<Rightarrow> nat \<Rightarrow> int list option" where
  "getZeroValueLevels Hash keccak256 d =
     (if d = 0 then None else
        foldM (\<lambda>level levels. do {
            z \<leftarrow> idx levels (level - 1);
            h \<leftarrow> HashLeftRight Hash z z;
            Some (levels @ [h]) }) [1..<d] [GetZeroValue keccak256])"

text \<open>The levels of an empty tree: no nodes below the root (the shared tail of the two constructors and of \<^verbatim>\<open>newTree\<close>).\<close>

definition empty_tree :: "native_hash \<Rightarrow> int list \<Rightarrow> nat \<Rightarrow> int list list option" where
  "empty_tree Hash zs d = (if d = 0 then None else do {
     z \<leftarrow> idx zs (d - 1);
     top \<leftarrow> HashLeftRight Hash z z;
     Some (replicate d [] @ [[top]]) })"

definition NewMerkleTree :: "native_hash \<Rightarrow> (byte list \<Rightarrow> byte list) \<Rightarrow> nat \<Rightarrow> MerkleTree option" where
  "NewMerkleTree Hash keccak256 d = do {
     zs \<leftarrow> getZeroValueLevels Hash keccak256 d;
     t \<leftarrow> empty_tree Hash zs d;
     Some \<lparr>depth = d, zeros = zs, tree = t, treeNumber = 0, prevTrees = [], savePath = ''''\<rparr> }"

text \<open>One pass of the inner loop of \<^verbatim>\<open>rebuildSparseTree\<close>; the zero is read only for an unpaired node.\<close>

fun hash_level :: "native_hash \<Rightarrow> int option \<Rightarrow> int list \<Rightarrow> int list option" where
  "hash_level Hash zero [] = Some []"
| "hash_level Hash zero [x] = do { right \<leftarrow> zero; h \<leftarrow> HashLeftRight Hash x right; Some [h] }"
| "hash_level Hash zero (x # right # xs) = do {
     h \<leftarrow> HashLeftRight Hash x right; hs \<leftarrow> hash_level Hash zero xs; Some (h # hs) }"

definition rebuildSparseTree :: "native_hash \<Rightarrow> MerkleTree \<Rightarrow> MerkleTree option" where
  "rebuildSparseTree Hash mt = do {
     t \<leftarrow> foldM (\<lambda>level t. do {
         nodes \<leftarrow> idx t level;
         parents \<leftarrow> hash_level Hash (idx (zeros mt) level) nodes;
         if level + 1 < length t then Some (t[level + 1 := parents]) else None })
       [0..<depth mt] (tree mt);
     Some (mt\<lparr>tree := t\<rparr>) }"

definition newTree :: "native_hash \<Rightarrow> (byte list \<Rightarrow> byte list) \<Rightarrow> MerkleTree \<Rightarrow> MerkleTree option" where
  "newTree Hash keccak256 mt = do {
     zs \<leftarrow> getZeroValueLevels Hash keccak256 (depth mt);
     t \<leftarrow> empty_tree Hash zs (depth mt);
     Some (mt\<lparr>prevTrees := prevTrees mt @ [tree mt], treeNumber := treeNumber mt + 1,
              zeros := zs, tree := t\<rparr>) }"

definition maxLeaves :: "nat \<Rightarrow> int" where
  "maxLeaves d = sint (push_bit d 1 :: 64 word)"

definition InsertLeaves ::
  "native_hash \<Rightarrow> (byte list \<Rightarrow> byte list) \<Rightarrow> MerkleTree \<Rightarrow> int list \<Rightarrow> MerkleTree option" where
  "InsertLeaves Hash keccak256 mt leaves = do {
     cur \<leftarrow> idx (tree mt) 0;
     mt1 \<leftarrow> (if int (length cur + length leaves) \<ge> maxLeaves (depth mt)
              then newTree Hash keccak256 mt else Some mt);
     cur1 \<leftarrow> idx (tree mt1) 0;
     rebuildSparseTree Hash (mt1\<lparr>tree := (tree mt1)[0 := cur1 @ leaves]\<rparr>) }"

definition InsertLeaf ::
  "native_hash \<Rightarrow> (byte list \<Rightarrow> byte list) \<Rightarrow> MerkleTree \<Rightarrow> int \<Rightarrow> MerkleTree option" where
  "InsertLeaf Hash keccak256 mt leaf = InsertLeaves Hash keccak256 mt [leaf]"

definition GetLeaves :: "MerkleTree \<Rightarrow> int list option" where
  "GetLeaves mt = idx (tree mt) 0"

definition MerkleTree_Root :: "MerkleTree \<Rightarrow> int option" where
  "MerkleTree_Root mt = do { top \<leftarrow> idx (tree mt) (depth mt); idx top 0 }"

definition LastTreeNumber :: "MerkleTree \<Rightarrow> nat" where
  "LastTreeNumber mt = length (prevTrees mt)"

definition RootOfPrevTree :: "MerkleTree \<Rightarrow> nat \<Rightarrow> int option" where
  "RootOfPrevTree mt treeNum = (if treeNum = 0 then MerkleTree_Root mt else do {
     t \<leftarrow> idx (prevTrees mt) treeNum; top \<leftarrow> idx t (depth mt); idx top 0 })"

subsection \<open>Membership proofs\<close>

datatype merkle_error = Element_not_found

text \<open>\<^verbatim>\<open>for i, leaf := range leaves { if leaf.Cmp(element) == 0 ... break }\<close>\<close>

fun find_leaf :: "int \<Rightarrow> int list \<Rightarrow> nat option" where
  "find_leaf element [] = None"
| "find_leaf element (x # xs) = (if x = element then Some 0 else map_option Suc (find_leaf element xs))"

text \<open>The search through the previous trees: the first tree that has the element, and its index there.\<close>

fun find_prev :: "int \<Rightarrow> int list list list \<Rightarrow> (nat \<times> nat) option option" where
  "find_prev element [] = Some None"
| "find_prev element (t # ts) = do {
     leaves \<leftarrow> idx t 0;
     case find_leaf element leaves of
       Some j \<Rightarrow> Some (Some (0, j))
     | None \<Rightarrow> do { r \<leftarrow> find_prev element ts; Some (map_option (\<lambda>(i, j). (Suc i, j)) r) } }"

text \<open>The body of the loop over the levels; the state is \<^verbatim>\<open>elements\<close>, \<^verbatim>\<open>indices\<close> and \<^verbatim>\<open>index\<close>.\<close>

definition proof_level ::
  "int list \<Rightarrow> int list list \<Rightarrow> nat \<Rightarrow> int list \<times> nat list \<times> nat \<Rightarrow> (int list \<times> nat list \<times> nat) option" where
  "proof_level zs activeTree level = (\<lambda>(elements, indices, index). do {
     nodes \<leftarrow> idx activeTree level;
     if index mod 2 = 0
     then do {
       right \<leftarrow> (if index + 1 < length nodes then idx nodes (index + 1) else idx zs level);
       Some (elements @ [right], indices @ [0], index div 2) }
     else do {
       left \<leftarrow> idx nodes (index - 1);
       Some (elements @ [left], indices @ [1], index div 2) } })"

text \<open>\<^verbatim>\<open>for i := len(indices)-1; i >= 0; i-- { Lsh 1; if indices[i] == 1 { Or 1 } }\<close>\<close>

definition indicesBigInt :: "nat list \<Rightarrow> int" where
  "indicesBigInt indices =
     fold (\<lambda>b v. let v = push_bit 1 v in if b = 1 then v OR 1 else v) (rev indices) 0"

definition GenerateProof :: "MerkleTree \<Rightarrow> int \<Rightarrow> (merkle_error + MerkleProof_data) option" where
  "GenerateProof mt element = do {
     leaves \<leftarrow> idx (tree mt) 0;
     found \<leftarrow> (case find_leaf element leaves of
         Some i \<Rightarrow> Some (Some (None, i))
       | None \<Rightarrow> do { r \<leftarrow> find_prev element (prevTrees mt);
                      Some (map_option (\<lambda>(n, j). (Some n, j)) r) });
     case found of
       None \<Rightarrow> Some (Inl Element_not_found)
     | Some (treeNum, index) \<Rightarrow> do {
         curRoot \<leftarrow> MerkleTree_Root mt;
         (activeTree, activeRoot) \<leftarrow> (case treeNum of
             None \<Rightarrow> Some (tree mt, curRoot)
           | Some n \<Rightarrow> do { t \<leftarrow> idx (prevTrees mt) n; r \<leftarrow> RootOfPrevTree mt n; Some (t, r) });
         (elements, indices, _) \<leftarrow>
           foldM (proof_level (zeros mt) activeTree) [0..<depth mt] ([], [], index);
         Some (Inr \<lparr>Element = element, Elements = elements, Indices = indicesBigInt indices,
                    Root = activeRoot\<rparr>) } }"

subsection \<open>The saved state\<close>

text \<open>
  \<^verbatim>\<open>big.Int.String\<close> and \<^verbatim>\<open>SetString(_, 10)\<close>. \<^verbatim>\<open>SetString\<close> returns a nil number for text that is no decimal
  numeral; the code keeps the nil, and its first use panics, so reading such a file is \<^term>\<open>None\<close> here.
  Reading and writing the file and its JSON form belong to the standard library: the model's file is
  the state record itself, or the error that reading it gave.
\<close>

record MerkleTreeState =
  Depth :: nat
  Tree :: "string list list"
  Zeros :: "string list"

definition GetTree :: "MerkleTree \<Rightarrow> MerkleTreeState" where
  "GetTree mt = \<lparr>Depth = depth mt, Tree = map (map bigInt_String) (tree mt), Zeros = map bigInt_String (zeros mt)\<rparr>"

text \<open>The value that \<^verbatim>\<open>SaveToFile\<close> marshals and writes.\<close>

definition SaveToFile :: "MerkleTree \<Rightarrow> MerkleTreeState" where
  "SaveToFile mt = \<lparr>Depth = depth mt, Tree = map (map bigInt_String) (tree mt), Zeros = map bigInt_String (zeros mt)\<rparr>"

datatype file_error = Read_failed | Unmarshal_failed

definition loadFromFile :: "file_error + MerkleTreeState \<Rightarrow> MerkleTree \<Rightarrow> (file_error + MerkleTree) option" where
  "loadFromFile file mt = (case file of
       Inl err \<Rightarrow> Some (Inl err)
     | Inr state \<Rightarrow> do {
         zs \<leftarrow> mapM bigInt_SetString (Zeros state);
         t \<leftarrow> mapM (mapM bigInt_SetString) (Tree state);
         Some (Inr (mt\<lparr>depth := Depth state, zeros := zs, tree := t\<rparr>)) })"

text \<open>The file is absent (\<^term>\<open>None\<close>) or present; the path is \<^verbatim>\<open>filepath.Join\<close> of directory and name.\<close>

definition NewMerkleTreeWithPath ::
  "native_hash \<Rightarrow> (byte list \<Rightarrow> byte list) \<Rightarrow> (string \<Rightarrow> string \<Rightarrow> string) \<Rightarrow>
   (string \<Rightarrow> (file_error + MerkleTreeState) option) \<Rightarrow> nat \<Rightarrow> string \<Rightarrow> string \<Rightarrow>
   (file_error + MerkleTree) option" where
  "NewMerkleTreeWithPath Hash keccak256 Join files d prefix clientPath = (
     let path = (if clientPath \<noteq> '''' then Join clientPath (prefix @ ''MerkleTreeState.json'')
                 else Join ''./src/appdata/'' (prefix @ ''MerkleTreeState.json''));
         mt = \<lparr>depth = d, zeros = [], tree = [], treeNumber = 0, prevTrees = [], savePath = path\<rparr>
     in case files path of
          Some file \<Rightarrow> loadFromFile file mt
        | None \<Rightarrow> do {
            zs \<leftarrow> getZeroValueLevels Hash keccak256 d;
            t \<leftarrow> empty_tree Hash zs d;
            Some (Inr (mt\<lparr>zeros := zs, tree := t\<rparr>)) })"

subsection \<open>What the tree relies on of its hash\<close>

text \<open>
  A hash of pairs of field elements that is total on them and returns field elements, as the Poseidon
  hash of the library does. The package's own native permutation has this contract for every table set
  of the right shape.
\<close>

locale field_hash =
  fixes Hash :: native_hash
  assumes pair: "canonical [l, r] \<Longrightarrow> \<exists>h. Hash [l, r] = Some h \<and> canonical [h]"
begin

lemma HashLeftRight_total: "canonical [l, r] \<Longrightarrow> \<exists>h. HashLeftRight Hash l r = Some h \<and> canonical [h]"
  unfolding HashLeftRight_def by (rule pair)

lemma hash_level_total:
  "canonical xs \<Longrightarrow> canonical [z] \<Longrightarrow> \<exists>ys. hash_level Hash (Some z) xs = Some ys \<and> canonical ys"
proof (induction xs rule: induct_list012)
  case (2 x)
  then show ?case using HashLeftRight_total [of x z] by auto
next
  case (3 x r xs)
  then obtain h ys where "HashLeftRight Hash x r = Some h" "canonical [h]"
      "hash_level Hash (Some z) xs = Some ys" "canonical ys"
    using HashLeftRight_total [of x r] by auto
  then show ?case by simp
qed simp

lemma getZeroValueLevels_total:
  assumes "0 < d"
  shows "\<exists>zs. getZeroValueLevels Hash keccak256 d = Some zs \<and> length zs = d \<and> canonical zs"
proof -
  let ?f = "\<lambda>level levels. do { z \<leftarrow> idx levels (level - 1); h \<leftarrow> HashLeftRight Hash z z; Some (levels @ [h]) }"
  have "\<exists>zs. foldM ?f [1..<Suc n] [GetZeroValue keccak256] = Some zs \<and> length zs = Suc n \<and> canonical zs" for n
  proof (induction n)
    case 0
    show ?case by (simp add: GetZeroValue_def)
  next
    case (Suc n)
    then obtain zs where zs: "foldM ?f [1..<Suc n] [GetZeroValue keccak256] = Some zs" "length zs = Suc n" "canonical zs"
      by blast
    then have "canonical [zs ! n, zs ! n]" using canonical_nthD [of zs n] by simp
    from HashLeftRight_total [OF this] obtain h where "HashLeftRight Hash (zs ! n) (zs ! n) = Some h" "canonical [h]"
      by blast
    moreover have "[1..<Suc (Suc n)] = [1..<Suc n] @ [Suc n]" by simp
    ultimately show ?case
      using zs by (simp add: foldM_append idx_nth del: upt_Suc)
  qed
  from this [of "d - 1"] assms show ?thesis by (simp add: getZeroValueLevels_def)
qed

lemma empty_tree_total:
  assumes "0 < d" and "length zs = d" and "canonical zs"
  shows "\<exists>top. empty_tree Hash zs d = Some (replicate d [] @ [[top]]) \<and> canonical [top]"
proof -
  have "canonical [zs ! (d - 1), zs ! (d - 1)]" using assms canonical_nthD [of zs "d - 1"] by simp
  from HashLeftRight_total [OF this] assms show ?thesis by (auto simp: empty_tree_def idx_nth)
qed

end

text \<open>The native permutation with any tables of the right shape is such a hash.\<close>

lemma poseidon_field_hash:
  assumes "poseidon_tables_wf T 3" and "gnark api"
  shows "field_hash (Poseidon api T)"
proof
  fix l r :: int
  from NativePoseidonEx_total [of T "[l, r]" 1 0] assms(1)
  obtain out where "NativePoseidonEx T [l, r] 0 1 = Some out" "length out = 1" "canonical out"
    by (auto simp: numeral_3_eq_3)
  then show "\<exists>h. Poseidon api T [l, r] = Some h \<and> canonical [h]"
    by (auto simp: Poseidon_def gnark.PoseidonEx_native [OF assms(2)] idx_nth length_Suc_conv)
qed

interpretation poseidon3: field_hash "Poseidon fr_api (uniform_tables 3 1)"
  by (rule poseidon_field_hash [OF _ gnark_fr_api])
    (simp add: poseidon_tables_wf_def uniform_tables_def N_ROUNDS_P_def list_all_iff)

subsection \<open>Levels and paths\<close>

lemma hash_level_nth:
  "hash_level Hash z xs = Some ys \<Longrightarrow> length ys = (length xs + 1) div 2 \<and>
   (\<forall>j<length ys. \<exists>r. (if 2 * j + 1 < length xs then r = xs ! (2 * j + 1) else z = Some r) \<and>
      Hash [xs ! (2 * j), r] = Some (ys ! j))"
proof (induction xs arbitrary: ys rule: induct_list012)
  case (2 x)
  then show ?case by (auto simp: bind_eq_Some_conv HashLeftRight_def)
next
  case (3 x r xs)
  then obtain h hs where h: "Hash [x, r] = Some h" "hash_level Hash z xs = Some hs" "ys = h # hs"
    by (auto simp: bind_eq_Some_conv HashLeftRight_def)
  show ?case
  proof (intro conjI allI impI)
    show "length ys = (length (x # r # xs) + 1) div 2" using 3(1) [OF h(2)] h(3) by simp
  next
    fix j assume "j < length ys"
    then show "\<exists>q. (if 2 * j + 1 < length (x # r # xs) then q = (x # r # xs) ! (2 * j + 1) else z = Some q) \<and>
        Hash [(x # r # xs) ! (2 * j), q] = Some (ys ! j)"
      using 3(1) [OF h(2)] h(1,3) by (cases j) (auto split: if_splits)
  qed
qed simp

definition linked :: "native_hash \<Rightarrow> int list \<Rightarrow> int list list \<Rightarrow> nat \<Rightarrow> bool" where
  "linked Hash zs t d \<longleftrightarrow> length t = d + 1 \<and> length zs = d \<and> canonical zs \<and> list_all canonical t \<and>
     (\<forall>l<d. hash_level Hash (idx zs l) (t ! l) = Some (t ! (l + 1)))"

lemma proof_level_step:
  assumes t: "linked Hash zs t d" and l: "l < d" and i: "i < length (t ! l)"
  obtains s where "proof_level zs t l (els, ins, i) = Some (els @ [s], ins @ [i mod 2], i div 2)"
    and "Hash (node_pair (t ! l ! i) (int i) s) = Some (t ! (l + 1) ! (i div 2))"
    and "i div 2 < length (t ! (l + 1))"
proof -
  have can: "canonical (t ! l)" "canonical zs" and len: "length t = d + 1" "length zs = d"
    and lev: "hash_level Hash (idx zs l) (t ! l) = Some (t ! (l + 1))"
    using t l by (auto simp: linked_def list_all_length)
  from hash_level_nth [OF lev] have up: "length (t ! (l + 1)) = (length (t ! l) + 1) div 2"
    and nodes: "\<And>j. j < length (t ! (l + 1)) \<Longrightarrow> \<exists>r. (if 2 * j + 1 < length (t ! l) then r = t ! l ! (2 * j + 1)
       else idx zs l = Some r) \<and> Hash [t ! l ! (2 * j), r] = Some (t ! (l + 1) ! j)" by auto
  have in_up: "i div 2 < length (t ! (l + 1))" using i up by linarith
  from nodes [OF this] obtain r where r: "if 2 * (i div 2) + 1 < length (t ! l)
      then r = t ! l ! (2 * (i div 2) + 1) else idx zs l = Some r"
      "Hash [t ! l ! (2 * (i div 2)), r] = Some (t ! (l + 1) ! (i div 2))" by blast
  have canon: "fv (t ! l ! k) = t ! l ! k" if "k < length (t ! l)" for k using canonical_nth [OF can(1) that] .
  have zc: "fv (zs ! l) = zs ! l" using canonical_nth [OF can(2)] len l by simp
  show ?thesis
  proof (cases "even i")
    case True
    then have 2: "2 * (i div 2) = i" by simp
    have fr: "fv r = r" using r(1) canon zc by (auto simp: 2 idx_Some_iff split: if_splits)
    have "Hash (node_pair (t ! l ! i) (int i) r) = Some (t ! (l + 1) ! (i div 2))"
      using r(2) True canon [OF i] fr by (simp add: node_pair_def 2)
    moreover have "proof_level zs t l (els, ins, i) = Some (els @ [r], ins @ [i mod 2], i div 2)"
      using r(1) True l len by (auto simp: proof_level_def idx_def 2 split: if_splits)
    ultimately show ?thesis using in_up that by blast
  next
    case False
    then have 2: "2 * (i div 2) = i - 1" "Suc (i - 1) = i" by (auto simp: odd_two_times_div_two_nat)
    then have "r = t ! l ! i" using r(1) i by simp
    then have "Hash (node_pair (t ! l ! i) (int i) (t ! l ! (i - 1))) = Some (t ! (l + 1) ! (i div 2))"
      using r(2) False canon [OF i] canon [of "i - 1"] i by (simp add: node_pair_def 2)
    moreover have "proof_level zs t l (els, ins, i) = Some (els @ [t ! l ! (i - 1)], ins @ [i mod 2], i div 2)"
      using False l len i by (auto simp: proof_level_def idx_def odd_iff_mod_2_eq_one)
    ultimately show ?thesis using in_up that by blast
  qed
qed

lemma merkle_path_snoc:
  "merkle_path pos c k (ss @ [s]) =
   do { h \<leftarrow> merkle_path pos c k ss; pos (node_pair h (k div 2 ^ length ss) s) }"
proof (induction ss arbitrary: c k)
  case (Cons x ss)
  have "k div 2 div 2 ^ length ss = k div (2 * 2 ^ length ss)" by (simp add: zdiv_zmult2_eq)
  then show ?case by (simp add: Cons.IH)
qed simp

lemma proof_levels:
  assumes t: "linked Hash zs t d" and i: "i < length (t ! 0)"
  shows "n \<le> d \<Longrightarrow> \<exists>els. foldM (proof_level zs t) [0..<n] ([], [], i) =
       Some (els, map (\<lambda>l. i div 2 ^ l mod 2) [0..<n], i div 2 ^ n)
     \<and> length els = n \<and> merkle_path Hash (t ! 0 ! i) (int i) els = Some (t ! n ! (i div 2 ^ n))
     \<and> i div 2 ^ n < length (t ! n)"
proof (induction n)
  case (Suc n)
  then obtain els where els: "foldM (proof_level zs t) [0..<n] ([], [], i) =
       Some (els, map (\<lambda>l. i div 2 ^ l mod 2) [0..<n], i div 2 ^ n)" "length els = n"
     "merkle_path Hash (t ! 0 ! i) (int i) els = Some (t ! n ! (i div 2 ^ n))" "i div 2 ^ n < length (t ! n)"
    by auto
  have d: "n < d" using Suc.prems by simp
  from proof_level_step [OF t d els(4)] obtain s where
    s: "proof_level zs t n (els, map (\<lambda>l. i div 2 ^ l mod 2) [0..<n], i div 2 ^ n) =
        Some (els @ [s], map (\<lambda>l. i div 2 ^ l mod 2) [0..<n] @ [i div 2 ^ n mod 2], i div 2 ^ n div 2)"
      "Hash (node_pair (t ! n ! (i div 2 ^ n)) (int (i div 2 ^ n)) s) = Some (t ! (n + 1) ! (i div 2 ^ n div 2))"
      "i div 2 ^ n div 2 < length (t ! (n + 1))" by blast
  have dd: "i div 2 ^ n div 2 = i div 2 ^ Suc n" by (simp add: div_mult2_eq [symmetric] mult.commute)
  have "merkle_path Hash (t ! 0 ! i) (int i) (els @ [s]) = Some (t ! Suc n ! (i div 2 ^ Suc n))"
    using els(2,3) s(2) dd by (simp add: merkle_path_snoc zdiv_int)
  then show ?case
    using els s dd by (intro exI [of _ "els @ [s]"]) (simp add: foldM_append)
qed (simp add: i)

lemma indicesBigInt_Cons: "indicesBigInt (b # bs) = 2 * indicesBigInt bs + of_bool (b = 1)"
  by (simp add: indicesBigInt_def Let_def or_one_eq push_bit_eq_mult)

lemma indicesBigInt_bits: "i < 2 ^ n \<Longrightarrow> indicesBigInt (map (\<lambda>l. i div 2 ^ l mod 2) [0..<n]) = int i"
proof (induction n arbitrary: i)
  case 0
  then show ?case by (simp add: indicesBigInt_def)
next
  case (Suc n)
  have "map (\<lambda>l. i div 2 ^ l mod 2) [0..<Suc n] = i mod 2 # map (\<lambda>l. (i div 2) div 2 ^ l mod 2) [0..<n]"
    by (simp add: upt_conv_Cons map_Suc_upt [symmetric] div_mult2_eq o_def del: upt_Suc)
  moreover have "i div 2 < 2 ^ n" using Suc.prems by simp
  moreover have "int i = 2 * int (i div 2) + of_bool (i mod 2 = 1)"
    by (cases "even i") (auto elim!: evenE oddE)
  ultimately show ?case using Suc.IH [of "i div 2"] by (simp add: indicesBigInt_Cons)
qed

subsection \<open>The tree invariant\<close>

text \<open>
  A tree is empty, with only its root present, or every level is the level below, hashed in pairs; it
  holds at most \<open>2 ^ d\<close> leaves.
\<close>

definition tree_ok :: "native_hash \<Rightarrow> int list \<Rightarrow> nat \<Rightarrow> int list list \<Rightarrow> bool" where
  "tree_ok Hash zs d t \<longleftrightarrow> (if t ! 0 = [] then empty_tree Hash zs d = Some t
     else linked Hash zs t d \<and> length (t ! 0) \<le> 2 ^ d)"

definition mt_inv :: "native_hash \<Rightarrow> (byte list \<Rightarrow> byte list) \<Rightarrow> MerkleTree \<Rightarrow> bool" where
  "mt_inv Hash keccak256 mt \<longleftrightarrow> 0 < depth mt \<and> depth mt < 63 \<and>
     getZeroValueLevels Hash keccak256 (depth mt) = Some (zeros mt) \<and>
     tree_ok Hash (zeros mt) (depth mt) (tree mt) \<and>
     list_all (tree_ok Hash (zeros mt) (depth mt)) (prevTrees mt) \<and>
     treeNumber mt = length (prevTrees mt)"

lemma empty_tree_shape:
  "empty_tree Hash zs d = Some t \<Longrightarrow> 0 < d \<and> length t = d + 1 \<and> t ! 0 = [] \<and> (\<exists>top. t = replicate d [] @ [[top]])"
  by (auto simp: empty_tree_def bind_eq_Some_conv nth_append split: if_splits)

lemma tree_ok_length: "tree_ok Hash zs d t \<Longrightarrow> length t = d + 1"
  by (auto simp: tree_ok_def linked_def dest: empty_tree_shape split: if_splits)

lemma tree_ok_leaves_canonical: "tree_ok Hash zs d t \<Longrightarrow> canonical (t ! 0)"
  by (auto simp: tree_ok_def linked_def list_all_length split: if_splits)

lemma length_level_bound:
  assumes "linked Hash zs t d" and "length (t ! 0) \<le> 2 ^ d" and "l \<le> d"
  shows "length (t ! l) \<le> 2 ^ (d - l)"
  using assms(3)
proof (induction l)
  case (Suc l)
  then have "hash_level Hash (idx zs l) (t ! l) = Some (t ! Suc l)" using assms(1) by (auto simp: linked_def)
  from hash_level_nth [OF this] have "length (t ! Suc l) = (length (t ! l) + 1) div 2" by simp
  moreover have "length (t ! l) \<le> 2 * 2 ^ (d - Suc l)"
    using Suc by (metis Suc_diff_Suc Suc_leD less_eq_Suc_le power_Suc)
  ultimately show ?case by linarith
qed (use assms(2) in simp)

lemma maxLeaves_eq:
  assumes "d < 63"
  shows "maxLeaves d = 2 ^ d"
proof -
  have b: "(2 :: int) ^ d < 2 ^ 63" using assms by (intro power_strict_increasing) auto
  have "(push_bit d 1 :: 64 word) = word_of_int (2 ^ d)" by (simp add: push_bit_eq_mult)
  then have "maxLeaves d = (2 ^ d + 2 ^ 63) mod 2 ^ 64 - 2 ^ 63"
    unfolding maxLeaves_def by (simp only: int_word_sint) simp
  also have "(2 ^ d + 2 ^ 63) mod 2 ^ 64 = (2 ^ d + 2 ^ 63 :: int)" using b by (intro mod_pos_pos_trivial) auto
  finally show ?thesis by simp
qed

context field_hash
begin

lemma zeros_ok:
  assumes "mt_inv Hash keccak256 mt"
  shows "length (zeros mt) = depth mt" "canonical (zeros mt)"
  using getZeroValueLevels_total [of "depth mt" keccak256] assms by (auto simp: mt_inv_def)

lemma rebuild_levels:
  assumes "length t = d + 1" and "length zs = d" and "canonical zs" and "canonical (t ! 0)"
  shows "n \<le> d \<Longrightarrow> \<exists>t'. foldM (\<lambda>level t. do { nodes \<leftarrow> idx t level;
         parents \<leftarrow> hash_level Hash (idx zs level) nodes;
         if level + 1 < length t then Some (t[level + 1 := parents]) else None }) [0..<n] t = Some t'
     \<and> length t' = d + 1 \<and> t' ! 0 = t ! 0 \<and> (\<forall>l\<le>n. canonical (t' ! l))
     \<and> (\<forall>l<n. hash_level Hash (idx zs l) (t' ! l) = Some (t' ! (l + 1)))"
proof (induction n)
  case 0
  then show ?case using assms by simp
next
  case (Suc n)
  then obtain t' where t': "foldM (\<lambda>level t. do { nodes \<leftarrow> idx t level;
         parents \<leftarrow> hash_level Hash (idx zs level) nodes;
         if level + 1 < length t then Some (t[level + 1 := parents]) else None }) [0..<n] t = Some t'"
     "length t' = d + 1" "t' ! 0 = t ! 0" "\<forall>l\<le>n. canonical (t' ! l)"
     "\<forall>l<n. hash_level Hash (idx zs l) (t' ! l) = Some (t' ! (l + 1))" by auto
  have n: "n < d" using Suc.prems by simp
  then have "idx zs n = Some (zs ! n)" "canonical [zs ! n]"
    using assms(2,3) canonical_nthD [of zs n] by (simp_all add: idx_nth)
  with hash_level_total [of "t' ! n" "zs ! n"] t'(4)
  obtain ys where ys: "hash_level Hash (idx zs n) (t' ! n) = Some ys" "canonical ys" by auto
  show ?case
    by (rule exI [of _ "t'[n + 1 := ys]"])
      (use t' ys n in \<open>auto simp: foldM_append idx_nth nth_list_update less_Suc_eq le_Suc_eq\<close>)
qed

lemma rebuild_linked:
  assumes "length (tree mt) = depth mt + 1" and "length (zeros mt) = depth mt" and "canonical (zeros mt)"
    and "canonical (tree mt ! 0)"
  shows "\<exists>t. rebuildSparseTree Hash mt = Some (mt\<lparr>tree := t\<rparr>) \<and> linked Hash (zeros mt) t (depth mt) \<and> t ! 0 = tree mt ! 0"
proof -
  from rebuild_levels [OF assms order_refl] obtain t where t: "foldM (\<lambda>level t. do { nodes \<leftarrow> idx t level;
         parents \<leftarrow> hash_level Hash (idx (zeros mt) level) nodes;
         if level + 1 < length t then Some (t[level + 1 := parents]) else None }) [0..<depth mt] (tree mt) = Some t"
     "length t = depth mt + 1" "t ! 0 = tree mt ! 0" "\<forall>l\<le>depth mt. canonical (t ! l)"
     "\<forall>l<depth mt. hash_level Hash (idx (zeros mt) l) (t ! l) = Some (t ! (l + 1))" by blast
  then have "linked Hash (zeros mt) t (depth mt)"
    using assms(2,3) by (auto simp: linked_def list_all_length)
  with t show ?thesis by (auto simp: rebuildSparseTree_def)
qed

lemma InsertLeaves_ok:
  assumes inv: "mt_inv Hash keccak256 mt" and ne: "leaves \<noteq> []" and can: "canonical leaves"
    and fits: "length leaves \<le> 2 ^ depth mt"
  shows "\<exists>mt'. InsertLeaves Hash keccak256 mt leaves = Some mt' \<and> mt_inv Hash keccak256 mt' \<and>
    depth mt' = depth mt \<and>
    (if length (tree mt ! 0) + length leaves < 2 ^ depth mt
     then tree mt' ! 0 = tree mt ! 0 @ leaves \<and> prevTrees mt' = prevTrees mt
     else tree mt' ! 0 = leaves \<and> prevTrees mt' = prevTrees mt @ [tree mt])"
proof -
  note z = zeros_ok [OF inv]
  have ok: "tree_ok Hash (zeros mt) (depth mt) (tree mt)" and d: "0 < depth mt" "depth mt < 63"
    and gz: "getZeroValueLevels Hash keccak256 (depth mt) = Some (zeros mt)"
    using inv by (auto simp: mt_inv_def)
  have len: "length (tree mt) = depth mt + 1" and lc: "canonical (tree mt ! 0)"
    using tree_ok_length [OF ok] tree_ok_leaves_canonical [OF ok] by auto
  have full: "maxLeaves (depth mt) \<le> int (length (tree mt ! 0) + length leaves) \<longleftrightarrow>
      \<not> length (tree mt ! 0) + length leaves < 2 ^ depth mt"
    unfolding maxLeaves_eq [OF d(2)] by (metis linorder_not_less of_nat_less_iff of_nat_numeral of_nat_power)
  show ?thesis
  proof (cases "length (tree mt ! 0) + length leaves < 2 ^ depth mt")
    case True
    let ?m = "mt\<lparr>tree := (tree mt)[0 := tree mt ! 0 @ leaves]\<rparr>"
    from rebuild_linked [of ?m] len z lc can obtain t where
      t: "rebuildSparseTree Hash ?m = Some (?m\<lparr>tree := t\<rparr>)" "linked Hash (zeros mt) t (depth mt)"
        "t ! 0 = tree mt ! 0 @ leaves" by auto
    have "mt_inv Hash keccak256 (?m\<lparr>tree := t\<rparr>)"
      using inv t(2,3) True ne by (simp add: mt_inv_def tree_ok_def)
    moreover have "InsertLeaves Hash keccak256 mt leaves = Some (?m\<lparr>tree := t\<rparr>)"
      using t(1) True full len by (simp add: InsertLeaves_def idx_nth)
    ultimately show ?thesis using True t(3) by simp
  next
    case False
    obtain top where e: "empty_tree Hash (zeros mt) (depth mt) = Some (replicate (depth mt) [] @ [[top]])"
      using empty_tree_total [OF d(1) z] by blast
    let ?n = "mt\<lparr>prevTrees := prevTrees mt @ [tree mt], treeNumber := treeNumber mt + 1,
        zeros := zeros mt, tree := replicate (depth mt) [] @ [[top]]\<rparr>"
    let ?m = "?n\<lparr>tree := (tree ?n)[0 := leaves]\<rparr>"
    from rebuild_linked [of ?m] z can d(1) obtain t where
      t: "rebuildSparseTree Hash ?m = Some (?m\<lparr>tree := t\<rparr>)" "linked Hash (zeros mt) t (depth mt)" "t ! 0 = leaves"
      by (auto simp: nth_append)
    have "mt_inv Hash keccak256 (?m\<lparr>tree := t\<rparr>)"
      using inv t(2,3) ne fits ok by (simp add: mt_inv_def tree_ok_def)
    moreover have "InsertLeaves Hash keccak256 mt leaves = Some (?m\<lparr>tree := t\<rparr>)"
      using t(1) False full len d(1) by (simp add: InsertLeaves_def newTree_def gz e idx_nth nth_append)
    ultimately show ?thesis using False t(3) by simp
  qed
qed

end

subsection \<open>Correctness of the proofs\<close>

lemma find_leaf_Some: "find_leaf x xs = Some i \<Longrightarrow> i < length xs \<and> xs ! i = x"
  by (induction xs arbitrary: i) (auto split: if_splits)

lemma find_leaf_None_iff: "find_leaf x xs = None \<longleftrightarrow> x \<notin> set xs"
  by (induction xs) auto

lemma find_prev_None:
  "find_prev x ts = Some None \<Longrightarrow> t \<in> set ts \<Longrightarrow> x \<notin> set (t ! 0)"
  by (induction ts) (auto simp: bind_eq_Some_conv idx_Some_iff find_leaf_None_iff split: option.splits)

lemma find_prev_Some:
  "find_prev x ts = Some (Some (n, j)) \<Longrightarrow> n < length ts \<and> j < length (ts ! n ! 0) \<and> ts ! n ! 0 ! j = x"
  by (induction ts arbitrary: n)
    (auto simp: bind_eq_Some_conv idx_Some_iff find_leaf_None_iff dest!: find_leaf_Some split: option.splits)

lemma find_prev_total: "list_all (tree_ok Hash zs d) ts \<Longrightarrow> \<exists>r. find_prev x ts = Some r"
  by (induction ts) (auto simp: idx_def dest: tree_ok_length split: option.splits)

context field_hash
begin

text \<open>
  A search and its path: the levels of a well-formed tree give a path from the leaf to the root, whose
  index is the position of the leaf.
\<close>

lemma path_to_root:
  assumes "tree_ok Hash zs d t" and "i < length (t ! 0)"
  obtains els where "foldM (proof_level zs t) [0..<d] ([], [], i) =
      Some (els, map (\<lambda>l. i div 2 ^ l mod 2) [0..<d], 0)"
    and "length els = d" and "merkle_path Hash (t ! 0 ! i) (int i) els = Some (t ! d ! 0)"
    and "i < 2 ^ d" and "t ! d \<noteq> []"
proof -
  have t: "linked Hash zs t d" and n: "length (t ! 0) \<le> 2 ^ d"
    using assms by (auto simp: tree_ok_def split: if_splits)
  have i: "i < 2 ^ d" using assms(2) n by linarith
  then have "i div 2 ^ d = 0" by simp
  with proof_levels [OF t assms(2) order_refl] that i show ?thesis by fastforce
qed

lemma Root_Some:
  assumes "mt_inv Hash keccak256 mt"
  shows "MerkleTree_Root mt = Some (tree mt ! depth mt ! 0)"
proof -
  have ok: "tree_ok Hash (zeros mt) (depth mt) (tree mt)" using assms by (simp add: mt_inv_def)
  have "tree mt ! depth mt \<noteq> []"
  proof (cases "tree mt ! 0 = []")
    case True
    then show ?thesis using ok empty_tree_shape by (fastforce simp: tree_ok_def nth_append)
  next
    case False
    then show ?thesis using path_to_root [OF ok, of 0] by blast
  qed
  then show ?thesis using tree_ok_length [OF ok] by (simp add: MerkleTree_Root_def idx_def)
qed

lemma GenerateProof_current:
  assumes inv: "mt_inv Hash keccak256 mt" and x: "x \<in> set (tree mt ! 0)"
  shows "\<exists>p i. GenerateProof mt x = Some (Inr p) \<and> Element p = x \<and> length (Elements p) = depth mt \<and>
    MerkleTree_Root mt = Some (Root p) \<and> i < length (tree mt ! 0) \<and> tree mt ! 0 ! i = x \<and>
    Indices p = int i \<and> i < 2 ^ depth mt \<and> merkle_path Hash x (Indices p) (Elements p) = Some (Root p)"
proof -
  have ok: "tree_ok Hash (zeros mt) (depth mt) (tree mt)" using inv by (simp add: mt_inv_def)
  obtain i where i: "find_leaf x (tree mt ! 0) = Some i" using x find_leaf_None_iff by fastforce
  from find_leaf_Some [OF i] have b: "i < length (tree mt ! 0)" "tree mt ! 0 ! i = x" by auto
  obtain els where els: "foldM (proof_level (zeros mt) (tree mt)) [0..<depth mt] ([], [], i) =
      Some (els, map (\<lambda>l. i div 2 ^ l mod 2) [0..<depth mt], 0)" "length els = depth mt"
      "merkle_path Hash x (int i) els = Some (tree mt ! depth mt ! 0)" "i < 2 ^ depth mt"
    using path_to_root [OF ok b(1)] b(2) by metis
  let ?p = "\<lparr>Element = x, Elements = els, Indices = int i, Root = tree mt ! depth mt ! 0\<rparr>"
  have "GenerateProof mt x = Some (Inr ?p)"
    using i els Root_Some [OF inv] tree_ok_length [OF ok] indicesBigInt_bits [OF els(4)]
    by (simp add: GenerateProof_def idx_nth)
  with b els Root_Some [OF inv] show ?thesis
    by (intro exI [of _ ?p] exI [of _ i]) simp
qed

lemma NewMerkleTree_inv:
  assumes "0 < d" "d < 63"
  shows "\<exists>mt. NewMerkleTree Hash keccak256 d = Some mt \<and> mt_inv Hash keccak256 mt \<and> tree mt ! 0 = [] \<and> depth mt = d"
proof -
  obtain zs where zs: "getZeroValueLevels Hash keccak256 d = Some zs" "length zs = d" "canonical zs"
    using getZeroValueLevels_total [OF assms(1)] by blast
  obtain top where "empty_tree Hash zs d = Some (replicate d [] @ [[top]])"
    using empty_tree_total [OF assms(1) zs(2,3)] by blast
  with zs assms show ?thesis
    by (simp add: NewMerkleTree_def mt_inv_def tree_ok_def nth_append)
qed

end

lemma find_leaf_absent: "x \<notin> set xs \<Longrightarrow> find_leaf x xs = None"
  by (simp add: find_leaf_None_iff)

context field_hash
begin

lemma GenerateProof_prev:
  assumes inv: "mt_inv Hash keccak256 mt" and x: "x \<notin> set (tree mt ! 0)"
    and n: "find_prev x (prevTrees mt) = Some (Some (n, j))"
  shows "\<exists>p. GenerateProof mt x = Some (Inr p) \<and> prevTrees mt ! n ! 0 ! j = x \<and> Indices p = int j \<and>
    merkle_path Hash x (Indices p) (Elements p) = Some (prevTrees mt ! n ! depth mt ! 0) \<and>
    Root p = (if n = 0 then tree mt ! depth mt ! 0 else prevTrees mt ! n ! depth mt ! 0)"
proof -
  from find_prev_Some [OF n] have b: "n < length (prevTrees mt)" "j < length (prevTrees mt ! n ! 0)"
      "prevTrees mt ! n ! 0 ! j = x" by auto
  have ok: "tree_ok Hash (zeros mt) (depth mt) (prevTrees mt ! n)" "tree_ok Hash (zeros mt) (depth mt) (tree mt)"
    using inv b(1) by (auto simp: mt_inv_def list_all_length)
  obtain els where els: "foldM (proof_level (zeros mt) (prevTrees mt ! n)) [0..<depth mt] ([], [], j) =
      Some (els, map (\<lambda>l. j div 2 ^ l mod 2) [0..<depth mt], 0)" "length els = depth mt"
      "merkle_path Hash x (int j) els = Some (prevTrees mt ! n ! depth mt ! 0)" "j < 2 ^ depth mt"
      "prevTrees mt ! n ! depth mt \<noteq> []"
    using path_to_root [OF ok(1) b(2)] b(3) by metis
  have root: "RootOfPrevTree mt n = Some (if n = 0 then tree mt ! depth mt ! 0 else prevTrees mt ! n ! depth mt ! 0)"
    using Root_Some [OF inv] b(1) els(5) tree_ok_length [OF ok(1)] by (simp add: RootOfPrevTree_def idx_nth)
  have "GenerateProof mt x = Some (Inr \<lparr>Element = x, Elements = els, Indices = int j,
      Root = (if n = 0 then tree mt ! depth mt ! 0 else prevTrees mt ! n ! depth mt ! 0)\<rparr>)"
    using find_leaf_absent [OF x] n els root Root_Some [OF inv] tree_ok_length [OF ok(2)] b(1)
      indicesBigInt_bits [OF els(4)] by (simp add: GenerateProof_def idx_nth)
  with els b show ?thesis by simp
qed

lemma GenerateProof_absent:
  assumes inv: "mt_inv Hash keccak256 mt" and x: "x \<notin> set (tree mt ! 0)"
    and prev: "\<And>t. t \<in> set (prevTrees mt) \<Longrightarrow> x \<notin> set (t ! 0)"
  shows "GenerateProof mt x = Some (Inl Element_not_found)"
proof -
  have ok: "tree_ok Hash (zeros mt) (depth mt) (tree mt)" using inv by (simp add: mt_inv_def)
  obtain r where r: "find_prev x (prevTrees mt) = Some r"
    using inv find_prev_total by (fastforce simp: mt_inv_def)
  moreover have "r = None"
  proof (rule ccontr)
    assume "r \<noteq> None"
    then obtain n j where "r = Some (n, j)" by auto
    from find_prev_Some [OF r [unfolded this]] have "prevTrees mt ! n \<in> set (prevTrees mt)"
        "x \<in> set (prevTrees mt ! n ! 0)" by auto
    with prev show False by blast
  qed
  ultimately show ?thesis
    using find_leaf_absent [OF x] tree_ok_length [OF ok] by (simp add: GenerateProof_def idx_nth)
qed

end

text \<open>The circuits' hash and the library's hash are one function on pairs of field elements.\<close>

definition hashes_agree :: "hasher \<Rightarrow> native_hash \<Rightarrow> bool" where
  "hashes_agree pos Hash \<longleftrightarrow> (\<forall>l r h. canonical [l, r] \<longrightarrow> Hash [l, r] = Some h \<longrightarrow> pos [l, r] = Some h)"

lemma merkle_path_agree:
  assumes "hashes_agree pos Hash"
  shows "merkle_path Hash c k ss = Some r \<Longrightarrow> merkle_path pos c k ss = Some r"
proof (induction ss arbitrary: c k)
  case (Cons s ss)
  then obtain h where h: "Hash (node_pair c k s) = Some h" "merkle_path Hash h (k div 2) ss = Some r"
    by (auto simp: bind_eq_Some_conv)
  have "pos (node_pair c k s) = Some h"
    using assms h(1) by (auto simp: hashes_agree_def node_pair_def)
  with Cons.IH [OF h(2)] show ?case by simp
qed simp

subsection \<open>Properties\<close>

text \<open>
  C35. Inserting leaves keeps the tree well formed. From a well-formed tree, inserting a nonempty batch of
  field elements that fits a tree never panics and gives a well-formed tree: the leaves are appended to
  the current tree while there is room for them and one more, and otherwise the current tree is archived
  unchanged and a fresh tree holds exactly the batch. (The code does not check that a batch fits.)
\<close>

theorem merkle_insert_keeps_invariant:
  assumes "field_hash Hash" and "mt_inv Hash keccak256 mt" and "leaves \<noteq> []" and "canonical leaves"
    and "length leaves \<le> 2 ^ depth mt"
  shows "\<exists>mt'. InsertLeaves Hash keccak256 mt leaves = Some mt' \<and> mt_inv Hash keccak256 mt' \<and>
    depth mt' = depth mt \<and>
    (if length (tree mt ! 0) + length leaves < 2 ^ depth mt
     then tree mt' ! 0 = tree mt ! 0 @ leaves \<and> prevTrees mt' = prevTrees mt
     else tree mt' ! 0 = leaves \<and> prevTrees mt' = prevTrees mt @ [tree mt])"
  using field_hash.InsertLeaves_ok [OF assms] .

text \<open>A tree of depth 2 with two leaves, and the tree after a roll-over.\<close>

definition mt_two :: MerkleTree where
  "mt_two = \<lparr>depth = 2, zeros = [7, 2146], tree = [[5, 6], [2083], [68641]], treeNumber = 0,
     prevTrees = [], savePath = []\<rparr>"

definition mt_rolled :: MerkleTree where
  "mt_rolled = \<lparr>depth = 2, zeros = [7, 2146], tree = [[10], [2239], [73477]], treeNumber = 1,
     prevTrees = [[[5, 6, 9], [2083, 2208], [68703]]], savePath = []\<rparr>"

definition keccak_seven :: "byte list \<Rightarrow> byte list" where
  "keccak_seven bs = [7]"

interpretation sum_hash: field_hash sum_hash
  by unfold_locales (simp add: sum_hash_def)

lemma iden3_field_hash: "iden3_total H \<Longrightarrow> field_hash H"
  by unfold_locales (use iden3_hashes in fastforce)

lemma sum_hash_total: "iden3_total sum_hash"
  by (auto simp: iden3_total_def sum_hash_def fv_def)

lemma sum_hash_field_hash: "field_hash sum_hash"
  by (rule sum_hash.field_hash_axioms)

lemmas mt_eval = mt_inv_def tree_ok_def linked_def getZeroValueLevels_def GetZeroValue_def keccak_seven_def
  HashLeftRight_def sum_hash_def fv_eval SNARK_SCALAR_FIELD_def All_less_Suc numeral_2_eq_2 upt_rec

lemma seven_zero: "SetBytes [7] = 7"
  by (simp add: SetBytes_def)

lemma mt_two_inv: "mt_inv sum_hash keccak_seven mt_two"
  by (simp add: mt_two_def mt_eval seven_zero cong: bind_strict)

lemma mt_rolled_inv: "mt_inv sum_hash keccak_seven mt_rolled"
  by (simp add: mt_rolled_def mt_eval seven_zero cong: bind_strict)

theorem merkle_insert_keeps_invariant_witness:
  "mt_inv sum_hash keccak_seven mt_two \<and>
   (\<exists>mt'. InsertLeaves sum_hash keccak_seven mt_two [9] = Some mt' \<and> mt_inv sum_hash keccak_seven mt' \<and>
      tree mt' ! 0 = [5, 6, 9] \<and> prevTrees mt' = [])"
  using merkle_insert_keeps_invariant [OF sum_hash_field_hash mt_two_inv, of "[9]"] mt_two_inv
  by (auto simp: mt_two_def SNARK_SCALAR_FIELD_def)

text \<open>
  C8. The proofs the client builds are the proofs the circuit accepts. For a leaf of the current tree,
  \<^term>\<open>GenerateProof\<close> returns a proof under the current root, of the depth of the tree, whose index is a
  position of the leaf, and the circuits' Merkle gadget maps the leaf along it to exactly that root.
\<close>

theorem merkle_proof_accepted_by_circuit:
  assumes "gnark api" and "field_hash Hash" and "hashes_agree pos Hash"
    and "mt_inv Hash keccak256 mt" and "x \<in> set (tree mt ! 0)"
  shows "\<exists>p. GenerateProof mt x = Some (Inr p) \<and> MerkleTree_Root mt = Some (Root p) \<and>
    length (Elements p) = depth mt \<and> tree mt ! 0 ! nat (Indices p) = x \<and>
    MerkleProof api pos x (Indices p) (Elements p) = Some (Root p)"
proof -
  from field_hash.GenerateProof_current [OF assms(2,4,5)]
  obtain p i where p: "GenerateProof mt x = Some (Inr p)" "length (Elements p) = depth mt"
    "MerkleTree_Root mt = Some (Root p)" "tree mt ! 0 ! i = x" "Indices p = int i" "i < 2 ^ depth mt"
    "merkle_path Hash x (Indices p) (Elements p) = Some (Root p)" by blast
  have d: "depth mt < 254" using assms(4) by (simp add: mt_inv_def)
  have "(2 :: int) ^ depth mt \<le> 2 ^ 253" using d by (intro power_increasing) auto
  moreover have i2: "int i < 2 ^ depth mt" using p(6) by (metis of_nat_less_iff of_nat_numeral of_nat_power)
  ultimately have "int i < SNARK_SCALAR_FIELD" using SNARK_SCALAR_FIELD_big by linarith
  with i2 have i: "fv (Indices p) = int i" "int i < 2 ^ depth mt"
    using p(5) by (simp_all add: fv_id)
  have "MerkleProof api pos x (Indices p) (Elements p) = Some (Root p)"
    using gnark.MerkleProof_path [OF assms(1)] p(2,5,7) d i merkle_path_agree [OF assms(3)] by simp
  with p show ?thesis by auto
qed

theorem merkle_proof_accepted_by_circuit_witness:
  "mt_inv sum_hash keccak_seven mt_two \<and>
   (\<exists>p. GenerateProof mt_two 6 = Some (Inr p) \<and> MerkleTree_Root mt_two = Some (Root p) \<and>
      MerkleProof fr_api sum_hash 6 (Indices p) (Elements p) = Some (Root p))"
  using merkle_proof_accepted_by_circuit [OF gnark_fr_api sum_hash_field_hash _ mt_two_inv, of sum_hash 6] mt_two_inv
  by (auto simp: hashes_agree_def mt_two_def)

text \<open>
  An element that is in no tree is reported as an error, and is never given a proof.
\<close>

theorem merkle_proof_unknown_element:
  assumes "field_hash Hash" and "mt_inv Hash keccak256 mt" and "x \<notin> set (tree mt ! 0)"
    and "\<forall>t\<in>set (prevTrees mt). x \<notin> set (t ! 0)"
  shows "GenerateProof mt x = Some (Inl Element_not_found)"
  using field_hash.GenerateProof_absent [OF assms(1-3)] assms(4) by blast

theorem merkle_proof_unknown_element_witness:
  "mt_inv sum_hash keccak_seven mt_rolled \<and> GenerateProof mt_rolled 8 = Some (Inl Element_not_found)"
  using merkle_proof_unknown_element [OF sum_hash_field_hash mt_rolled_inv, of 8] mt_rolled_inv
  by (simp add: mt_rolled_def)

text \<open>
  A leaf of the first archived tree gets the wrong root. For an element found in an archived tree,
  the path of the proof leads to the root of that tree, but the root field of the proof is the root of
  the current tree when the archived tree is number 0, because \<^verbatim>\<open>RootOfPrevTree\<close> reads 0 as "current".
\<close>

theorem merkle_proof_archived_root:
  assumes "field_hash Hash" and "mt_inv Hash keccak256 mt" and "x \<notin> set (tree mt ! 0)"
    and "find_prev x (prevTrees mt) = Some (Some (n, j))"
  shows "\<exists>p. GenerateProof mt x = Some (Inr p) \<and> prevTrees mt ! n ! 0 ! j = x \<and> Indices p = int j \<and>
    merkle_path Hash x (Indices p) (Elements p) = Some (prevTrees mt ! n ! depth mt ! 0) \<and>
    Root p = (if n = 0 then tree mt ! depth mt ! 0 else prevTrees mt ! n ! depth mt ! 0)"
  using field_hash.GenerateProof_prev [OF assms] .

theorem merkle_proof_archived_root_witness:
  "\<exists>p. GenerateProof mt_rolled 6 = Some (Inr p) \<and>
     merkle_path sum_hash 6 (Indices p) (Elements p) = Some 68703 \<and> Root p = 73477"
  using merkle_proof_archived_root [OF sum_hash_field_hash mt_rolled_inv, of 6 0 1]
  by (auto simp: mt_rolled_def)

text \<open>
  Saving and loading restores the depth, the zero values and the levels of the tree exactly; the tree
  number and the archived trees are not part of the saved state, so the loading tree keeps its own.
\<close>

theorem merkle_save_load_roundtrip:
  "loadFromFile (Inr (SaveToFile mt)) mt0 =
     Some (Inr (mt0\<lparr>depth := depth mt, zeros := zeros mt, tree := tree mt\<rparr>))"
proof -
  have one: "mapM bigInt_SetString (map bigInt_String xs) = Some xs" for xs
    unfolding mapM_map SetString_String using mapM_Some [of "\<lambda>x. x" xs] by simp
  have "mapM (mapM bigInt_SetString) (map (map bigInt_String) xss) = Some xss" for xss
    using mapM_Some [of "\<lambda>x. x" xss] by (simp only: mapM_map [of "mapM bigInt_SetString"] one) simp
  with one show ?thesis by (simp add: loadFromFile_def SaveToFile_def)
qed

text \<open>
  Inserting an empty batch into an empty tree removes its root: the levels are rebuilt from no leaves,
  so the top level is empty and the next call of \<^verbatim>\<open>Root\<close> panics.
\<close>

theorem merkle_empty_insert_loses_root:
  assumes "field_hash Hash" and "0 < d" and "d < 63"
  shows "\<exists>mt mt'. NewMerkleTree Hash keccak256 d = Some mt \<and>
    InsertLeaves Hash keccak256 mt [] = Some mt' \<and> MerkleTree_Root mt' = None"
proof -
  obtain mt where mt: "NewMerkleTree Hash keccak256 d = Some mt" "mt_inv Hash keccak256 mt" "tree mt ! 0 = []" "depth mt = d"
    using field_hash.NewMerkleTree_inv [OF assms] by blast
  have ok: "tree_ok Hash (zeros mt) (depth mt) (tree mt)" using mt(2) by (simp add: mt_inv_def)
  note z = field_hash.zeros_ok [OF assms(1) mt(2)]
  have len: "length (tree mt) = depth mt + 1" using tree_ok_length [OF ok] .
  from field_hash.rebuild_linked [OF assms(1), of mt] len z mt(3)
  obtain t where t: "rebuildSparseTree Hash mt = Some (mt\<lparr>tree := t\<rparr>)" "linked Hash (zeros mt) t (depth mt)"
      "t ! 0 = []" by auto
  have "t ! l = []" if "l \<le> depth mt" for l
    using that
  proof (induction l)
    case (Suc l)
    have "hash_level Hash (idx (zeros mt) l) (t ! l) = Some (t ! Suc l)"
      using t(2) Suc.prems by (auto simp: linked_def)
    with Suc show ?case by (metis Suc_leD hash_level.simps(1) option.inject)
  qed (simp add: t(3))
  then have "MerkleTree_Root (mt\<lparr>tree := t\<rparr>) = None"
    using t(2) by (simp add: MerkleTree_Root_def idx_def linked_def)
  moreover have "(tree mt)[0 := []] = tree mt" using list_update_id [of "tree mt" 0] mt(3) by simp
  then have "InsertLeaves Hash keccak256 mt [] = Some (mt\<lparr>tree := t\<rparr>)"
    using t(1) len mt(3,4) maxLeaves_eq [OF assms(3)] by (simp add: InsertLeaves_def idx_nth)
  ultimately show ?thesis using mt(1) by blast
qed

theorem merkle_empty_insert_loses_root_witness:
  "\<exists>mt mt'. NewMerkleTree sum_hash keccak_seven 2 = Some mt \<and>
    InsertLeaves sum_hash keccak_seven mt [] = Some mt' \<and> MerkleTree_Root mt' = None"
  by (rule merkle_empty_insert_loses_root [OF sum_hash_field_hash]) simp_all

end
