(* ===== verification/Tag_Channel.thy ===== *)
theory Tag_Channel
  imports Primitives
begin

unbundle bit_operations_syntax

section \<open>Private messaging channels\<close>

text \<open>
  \<^verbatim>\<open>enygma_retail_payments/private_tags/src/channel.go\<close>: the payload format, the anonymity bitmap, the
  sender's channel setup and the recipient's scan of the channel registry. ML-KEM, AES-GCM, HKDF, the
  random source and the contract calls are not part of the repository: they are arguments, and what the
  code relies on of them is named below (\<open>kem_correct\<close>, \<open>aead_correct\<close>). Lengths and offsets of the wire
  format are 32-bit words and channel indices 64-bit words, as in the source. \<^term>\<open>None\<close> is a panic.
\<close>

subsection \<open>Types\<close>

text \<open>The mode is a byte with four named values; any other byte is an undefined mode.\<close>

datatype PrivacyMode = PrivacyNone | PrivacySubset | PrivacyRift | PrivacyFull | PrivacyUndefined byte

type_synonym address = int

record ChannelRecord =
  Sender :: address
  C1 :: "byte list"
  C2 :: "byte list"
  Bitmap :: "byte list"

record ChannelPayload =
  Message :: "byte list"
  SenderId :: "byte list"

record FoundChannel =
  ChannelIdx :: "64 word"
  SharedSecret :: "byte list"
  FoundMessage :: "byte list"
  FoundSenderId :: "byte list"
  FoundSender :: address

subsection \<open>Payload encoding\<close>

text \<open>\<^verbatim>\<open>copy(out[lo:hi], src)\<close>: the slice bounds are checked, the shorter of the two lengths is copied.\<close>

definition copy_at :: "'a list \<Rightarrow> nat \<Rightarrow> nat \<Rightarrow> 'a list \<Rightarrow> 'a list option" where
  "copy_at out lo hi src = (if lo \<le> hi \<and> hi \<le> length out
     then Some (take lo out @ take (hi - lo) src @ drop (lo + min (hi - lo) (length src)) out) else None)"

definition encodeChannelPayload :: "ChannelPayload \<Rightarrow> byte list option" where
  "encodeChannelPayload p = do {
     let msgLen = (word_of_nat (length (Message p)) :: 32 word);
     let senderIdLen = (word_of_nat (length (SenderId p)) :: 32 word);
     let out0 = replicate (unat (4 + msgLen + 4 + senderIdLen)) 0;
     out1 \<leftarrow> copy_at out0 0 4 (put_uint32 msgLen);
     out2 \<leftarrow> copy_at out1 4 (unat (4 + msgLen)) (Message p);
     out3 \<leftarrow> copy_at out2 (unat (4 + msgLen)) (unat (8 + msgLen)) (put_uint32 senderIdLen);
     copy_at out3 (unat (8 + msgLen)) (length out3) (SenderId p) }"

datatype payload_error = Payload_too_short | Truncated_at_message | Truncated_at_senderId

definition decodeChannelPayload :: "byte list \<Rightarrow> (payload_error + ChannelPayload) option" where
  "decodeChannelPayload data = (
     if length data < 4 then Some (Inl Payload_too_short)
     else do {
       header \<leftarrow> slice data 0 4;
       let msgLen = get_uint32 header;
       if (word_of_nat (length data) :: 32 word) < 4 + msgLen + 4 then Some (Inl Truncated_at_message)
       else do {
         body \<leftarrow> slice data 4 (unat (4 + msgLen));
         let msg = take (unat msgLen) body @ replicate (unat msgLen - length body) 0;
         let offset = 4 + msgLen;
         lenBytes \<leftarrow> slice data (unat offset) (unat (offset + 4));
         let senderIdLen = get_uint32 lenBytes;
         let offset = offset + 4;
         if (word_of_nat (length data) :: 32 word) < offset + senderIdLen then Some (Inl Truncated_at_senderId)
         else do {
           senderId \<leftarrow> (if senderIdLen > 0 then slice data (unat offset) (unat (offset + senderIdLen)) else Some []);
           Some (Inr \<lparr>Message = msg, SenderId = senderId\<rparr>) } } })"

lemma unat_small: "n < 2 ^ 32 \<Longrightarrow> unat (word_of_nat n :: 32 word) = n"
  by (simp add: unat_of_nat take_bit_nat_eq_self)

text \<open>The wire format, for a payload that fits 32-bit lengths.\<close>

definition wire :: "byte list \<Rightarrow> byte list \<Rightarrow> byte list" where
  "wire m s = put_uint32 (word_of_nat (length m)) @ m @ put_uint32 (word_of_nat (length s)) @ s"

lemma encode_wire:
  assumes "length (Message p) + length (SenderId p) + 8 < 2 ^ 32"
  shows "encodeChannelPayload p = Some (wire (Message p) (SenderId p))"
proof -
  let ?m = "length (Message p)" and ?s = "length (SenderId p)"
  have w: "unat (4 + word_of_nat ?m :: 32 word) = 4 + ?m" "unat (8 + word_of_nat ?m :: 32 word) = 8 + ?m"
      "unat (4 + word_of_nat ?m + 4 + word_of_nat ?s :: 32 word) = ?m + ?s + 8"
    using unat_small [of "4 + ?m"] unat_small [of "8 + ?m"] unat_small [of "?m + ?s + 8"] assms
    by (simp_all add: algebra_simps)
  show ?thesis
    unfolding encodeChannelPayload_def Let_def w by (simp add: copy_at_def wire_def)
qed

lemma decode_wire:
  assumes "length m + length s + 8 < 2 ^ 32"
  shows "decodeChannelPayload (wire m s) = Some (Inr \<lparr>Message = m, SenderId = s\<rparr>)"
proof -
  let ?m = "length m" and ?s = "length s"
  have len: "length (wire m s) = ?m + ?s + 8" by (simp add: wire_def)
  define M S D where "M = (word_of_nat ?m :: 32 word)" and "S = (word_of_nat ?s :: 32 word)"
    and "D = (word_of_nat (?m + ?s + 8) :: 32 word)"
  have w: "unat (4 + M) = 4 + ?m" "unat (8 + M) = ?m + 8" "unat (8 + M + S) = ?m + ?s + 8"
      "unat M = ?m" "unat S = ?s" "unat D = ?m + ?s + 8"
    using unat_small [of "4 + ?m"] unat_small [of "?m + 8"] unat_small [of "?m + ?s + 8"] unat_small [of ?m]
      unat_small [of ?s] assms by (simp_all add: M_def S_def D_def algebra_simps)
  have sl: "slice (wire m s) 0 4 = Some (put_uint32 M)" "slice (wire m s) 4 (4 + ?m) = Some m"
      "slice (wire m s) (4 + ?m) (?m + 8) = Some (put_uint32 S)"
      "slice (wire m s) (?m + 8) (?m + ?s + 8) = Some s"
    by (simp_all add: wire_def slice_def M_def S_def)
  have "S = 0 \<Longrightarrow> s = []" using w(5) by auto
  moreover have "(word_of_nat (length (wire m s)) :: 32 word) = D" "\<not> length (wire m s) < 4"
    by (simp_all only: len D_def)
  ultimately show ?thesis
    using sl by (auto simp: decodeChannelPayload_def Let_def word_less_nat_alt w word_neq_0_conv)
qed

subsection \<open>The anonymity bitmap\<close>

text \<open>
  Go's integer division truncates towards zero and an index out of range panics. The bit position is
  taken of the index as an unsigned number, which modulo 8 is the index modulo 8.
\<close>

definition byte_index :: "int \<Rightarrow> nat option" where
  "byte_index i = (let q = (if i < 0 then - ((- i) div 8) else i div 8) in if q < 0 then None else Some (nat q))"

definition bit_mask :: "int \<Rightarrow> byte" where
  "bit_mask i = push_bit (nat (i mod 8)) 1"

definition set_bit_at :: "int \<Rightarrow> byte list \<Rightarrow> byte list option" where
  "set_bit_at i bits = do { q \<leftarrow> byte_index i; b \<leftarrow> idx bits q; Some (bits[q := b OR bit_mask i]) }"

definition clear_bit_at :: "int \<Rightarrow> byte list \<Rightarrow> byte list option" where
  "clear_bit_at i bits = do { q \<leftarrow> byte_index i; b \<leftarrow> idx bits q; Some (bits[q := b AND (NOT (bit_mask i))]) }"

definition get_bit_at :: "int \<Rightarrow> byte list \<Rightarrow> bool option" where
  "get_bit_at i bits = do { q \<leftarrow> byte_index i; b \<leftarrow> idx bits q; Some (b AND bit_mask i \<noteq> 0) }"

text \<open>
  \<^verbatim>\<open>int(math.Max(1, math.Sqrt(float64(n))))\<close>: the integer square root, at least 1 (the correctly rounded
  double is exact for the integer part of numbers below \<open>2 ^ 52\<close>).
\<close>

fun isqrt_upto :: "nat \<Rightarrow> nat \<Rightarrow> nat" where
  "isqrt_upto n 0 = 0"
| "isqrt_upto n (Suc k) = (if Suc k * Suc k \<le> n then Suc k else isqrt_upto n k)"

definition decoys :: "nat \<Rightarrow> nat" where
  "decoys n = max 1 (isqrt_upto n n)"

text \<open>
  The decoy loop draws random indices until enough new bits are set. The list holds the draws
  (\<^term>\<open>None\<close> when the random source fails, which ends the loop); running out of draws before the loop
  is done is the loop not returning, the outer \<^term>\<open>None\<close>.
\<close>

fun decoy_loop :: "int \<Rightarrow> nat \<Rightarrow> nat \<Rightarrow> int option list \<Rightarrow> byte list \<Rightarrow> byte list option" where
  "decoy_loop recipientIdx wanted added draws bits = (
     if \<not> added < wanted then Some bits
     else case draws of
       [] \<Rightarrow> None
     | None # _ \<Rightarrow> Some bits
     | Some i # rest \<Rightarrow> do {
         g \<leftarrow> (if i = recipientIdx then Some True else get_bit_at i bits);
         if g then decoy_loop recipientIdx wanted added rest bits
         else do { bits' \<leftarrow> set_bit_at i bits; decoy_loop recipientIdx wanted (added + 1) rest bits' } })"

declare decoy_loop.simps [simp del]

text \<open>The Go map of excluded indices is iterated in some order; clearing bits commutes, so list order is used.\<close>

definition buildBitmap :: "PrivacyMode \<Rightarrow> int \<Rightarrow> int \<Rightarrow> int list \<Rightarrow> int option list \<Rightarrow> byte list option" where
  "buildBitmap mode totalUsers recipientIdx excludedIndices draws = (
     if totalUsers \<le> 0 then Some []
     else let bits = replicate (nat ((totalUsers + 7) div 8)) 0 in
       case mode of
         PrivacyNone \<Rightarrow> set_bit_at recipientIdx bits
       | PrivacySubset \<Rightarrow> do {
           bits1 \<leftarrow> set_bit_at recipientIdx bits;
           decoy_loop recipientIdx (decoys (nat totalUsers)) 0 draws bits1 }
       | PrivacyRift \<Rightarrow> do {
           bits1 \<leftarrow> foldM set_bit_at (map int [0..<nat totalUsers]) bits;
           foldM (\<lambda>i bs. if i \<ge> 0 \<and> i < totalUsers \<and> i \<noteq> recipientIdx then clear_bit_at i bs else Some bs)
             excludedIndices bits1 }
       | PrivacyFull \<Rightarrow> foldM set_bit_at (map int [0..<nat totalUsers]) bits
       | PrivacyUndefined _ \<Rightarrow> Some bits)"

subsection \<open>Authenticated encryption and the channel setup\<close>

text \<open>
  The cryptographic operations the package calls: HKDF-SHA256 (secret, salt, info, length), the AES-GCM
  \<^verbatim>\<open>Seal\<close> and \<^verbatim>\<open>Open\<close> (key, nonce, data, additional data) and ML-KEM-768.
\<close>

record crypto =
  hkdf :: "byte list \<Rightarrow> byte list \<Rightarrow> byte list \<Rightarrow> nat \<Rightarrow> byte list"
  Seal :: "byte list \<Rightarrow> byte list \<Rightarrow> byte list \<Rightarrow> byte list \<Rightarrow> byte list"
  Open :: "byte list \<Rightarrow> byte list \<Rightarrow> byte list \<Rightarrow> byte list \<Rightarrow> byte list option"
  ValidKey :: "byte list \<Rightarrow> bool"
  Encapsulate :: "byte list \<Rightarrow> byte list \<Rightarrow> byte list \<times> byte list"
  Decapsulate :: "byte list \<Rightarrow> byte list \<Rightarrow> byte list option"

datatype channel_error = Bad_encapsulation_key | Rand_failed | Ciphertext_too_short | Auth_failed
  | Abi_failed | Call_failed

definition DeriveChannelKey :: "crypto \<Rightarrow> byte list \<Rightarrow> byte list" where
  "DeriveChannelKey cr sharedSecret = hkdf cr sharedSecret [] (ascii ''enygma-channel-key-v1'') 32"

text \<open>The 12-byte nonce comes from the random source, \<^term>\<open>None\<close> when reading it fails.\<close>

definition aesGCMEncryptWithAAD ::
  "crypto \<Rightarrow> byte list option \<Rightarrow> byte list \<Rightarrow> byte list \<Rightarrow> byte list \<Rightarrow> channel_error + byte list" where
  "aesGCMEncryptWithAAD cr rand key plaintext aad = (case rand of
       None \<Rightarrow> Inl Rand_failed
     | Some nonce \<Rightarrow> Inr (nonce @ Seal cr key nonce plaintext aad))"

definition aesGCMDecryptWithAAD ::
  "crypto \<Rightarrow> byte list \<Rightarrow> byte list \<Rightarrow> byte list \<Rightarrow> channel_error + byte list" where
  "aesGCMDecryptWithAAD cr key ct aad = (
     if length ct < 12 then Inl Ciphertext_too_short
     else case Open cr key (take 12 ct) (drop 12 ct) aad of
       None \<Rightarrow> Inl Auth_failed
     | Some plaintext \<Rightarrow> Inr plaintext)"

definition PrepareChannelSetup ::
  "crypto \<Rightarrow> byte list \<Rightarrow> byte list option \<Rightarrow> int option list \<Rightarrow> byte list \<Rightarrow> byte list \<Rightarrow> byte list \<Rightarrow> PrivacyMode \<Rightarrow>
   int \<Rightarrow> int \<Rightarrow> int list \<Rightarrow> (channel_error + byte list \<times> byte list \<times> byte list \<times> byte list) option" where
  "PrepareChannelSetup cr coins nonce draws recipientPkView message senderId mode totalUsers recipientIdx
     excludedIndices = (
     if \<not> ValidKey cr recipientPkView then Some (Inl Bad_encapsulation_key)
     else do {
       let (ss, c1) = Encapsulate cr recipientPkView coins;
       let k = DeriveChannelKey cr ss;
       payload \<leftarrow> encodeChannelPayload \<lparr>Message = message, SenderId = senderId\<rparr>;
       case aesGCMEncryptWithAAD cr nonce k payload c1 of
         Inl err \<Rightarrow> Some (Inl err)
       | Inr c2 \<Rightarrow> do {
           bitmap \<leftarrow> buildBitmap mode totalUsers recipientIdx excludedIndices draws;
           Some (Inr (ss, c1, c2, bitmap)) } })"

subsection \<open>Scanning the registry\<close>

text \<open>The registry contract as the client sees it; a failed call is \<^term>\<open>None\<close>.\<close>

record channel_registry =
  abi_ok :: bool
  getChannelCount :: "64 word option"
  getChannel :: "64 word \<Rightarrow> ChannelRecord option"

text \<open>One iteration: \<^term>\<open>None\<close> is a panic, \<^term>\<open>Some None\<close> a \<^verbatim>\<open>continue\<close>.\<close>

definition scan_channel :: "crypto \<Rightarrow> channel_registry \<Rightarrow> byte list \<Rightarrow> 64 word \<Rightarrow> FoundChannel option option" where
  "scan_channel cr reg dk i = (case getChannel reg i of
       None \<Rightarrow> Some None
     | Some rec \<Rightarrow>
         if C1 rec = [] then Some None
         else case Decapsulate cr dk (C1 rec) of
           None \<Rightarrow> Some None
         | Some ss \<Rightarrow>
             (case aesGCMDecryptWithAAD cr (DeriveChannelKey cr ss) (C2 rec) (C1 rec) of
               Inl _ \<Rightarrow> Some None
             | Inr plaintext \<Rightarrow> do {
                 r \<leftarrow> decodeChannelPayload plaintext;
                 case r of
                   Inl _ \<Rightarrow> Some None
                 | Inr p \<Rightarrow> Some (Some \<lparr>ChannelIdx = i, SharedSecret = ss, FoundMessage = Message p,
                                       FoundSenderId = SenderId p, FoundSender = Sender rec\<rparr>) }))"

definition scan_range :: "64 word \<Rightarrow> 64 word \<Rightarrow> 64 word list" where
  "scan_range lo hi = map word_of_nat [unat lo..<unat hi]"

definition ScanChannels ::
  "crypto \<Rightarrow> channel_registry \<Rightarrow> byte list \<Rightarrow> 64 word \<Rightarrow> 64 word \<Rightarrow> (channel_error + FoundChannel list) option" where
  "ScanChannels cr reg dk fromIdx maxCount = (
     if \<not> abi_ok reg then Some (Inl Abi_failed)
     else case getChannelCount reg of
       None \<Rightarrow> Some (Inl Call_failed)
     | Some count \<Rightarrow> do {
         let end_idx = (if fromIdx + maxCount < count then fromIdx + maxCount else count);
         found \<leftarrow> mapM (scan_channel cr reg dk) (scan_range fromIdx end_idx);
         Some (Inr (List.map_filter id found)) })"

subsection \<open>Bitmaps as sets of users\<close>

definition in_range :: "byte list \<Rightarrow> int \<Rightarrow> bool" where
  "in_range bits i \<longleftrightarrow> 0 \<le> i \<and> i < 8 * int (length bits)"

definition marked :: "byte list \<Rightarrow> int \<Rightarrow> bool" where
  "marked bits i \<longleftrightarrow> get_bit_at i bits = Some True"

lemma byte_index_in_range:
  assumes "in_range bits i"
  shows "byte_index i = Some (nat (i div 8))" "nat (i div 8) < length bits" "nat (i mod 8) < 8"
  using assms by (auto simp: in_range_def byte_index_def Let_def nat_less_iff)

lemma same_bit_iff:
  assumes "0 \<le> i" "0 \<le> j"
  shows "nat (i div 8) = nat (j div 8) \<and> nat (i mod 8) = nat (j mod 8) \<longleftrightarrow> i = j"
  using assms by (metis eq_nat_nat_iff mod_0 mult_div_mod_eq pos_imp_zdiv_nonneg_iff pos_mod_sign zero_less_numeral)

lemma bit_mask_bit: "k < 8 \<Longrightarrow> nat (i mod 8) < 8 \<Longrightarrow> bit (bit_mask i) k \<longleftrightarrow> k = nat (i mod 8)"
  by (auto simp: bit_mask_def push_bit_eq_mult bit_exp_iff)

lemma get_bit_bit:
  assumes "in_range bits i"
  shows "get_bit_at i bits = Some (bit (bits ! nat (i div 8)) (nat (i mod 8)))"
  using byte_index_in_range [OF assms]
  by (simp add: get_bit_at_def idx_nth bit_mask_def push_bit_eq_mult and_exp_eq_0_iff_not_bit)

lemma marked_bit: "in_range bits i \<Longrightarrow> marked bits i \<longleftrightarrow> bit (bits ! nat (i div 8)) (nat (i mod 8))"
  by (simp add: marked_def get_bit_bit)

lemma set_bit_marked:
  assumes "in_range bits i"
  obtains bits' where "set_bit_at i bits = Some bits'" and "length bits' = length bits"
    and "\<And>j. in_range bits j \<Longrightarrow> marked bits' j \<longleftrightarrow> j = i \<or> marked bits j"
proof -
  note i = byte_index_in_range [OF assms]
  let ?b = "bits[nat (i div 8) := bits ! nat (i div 8) OR bit_mask i]"
  have "marked ?b j \<longleftrightarrow> j = i \<or> marked bits j" if j: "in_range bits j" for j
  proof -
    note jb = byte_index_in_range [OF j]
    have m: "marked ?b j \<longleftrightarrow> bit (?b ! nat (j div 8)) (nat (j mod 8))"
      by (rule marked_bit) (use j in \<open>simp add: in_range_def\<close>)
    have eq: "nat (i div 8) = nat (j div 8) \<and> nat (i mod 8) = nat (j mod 8) \<longleftrightarrow> i = j"
      by (rule same_bit_iff) (use j assms in \<open>auto simp: in_range_def\<close>)
    show ?thesis
    proof (cases "nat (j div 8) = nat (i div 8)")
      case True
      then show ?thesis
        using i jb eq unfolding m marked_bit [OF j] by (auto simp: bit_or_iff bit_mask_bit)
    next
      case False
      then show ?thesis using eq unfolding m marked_bit [OF j] by auto
    qed
  qed
  moreover have "set_bit_at i bits = Some ?b" using i by (simp add: set_bit_at_def idx_nth)
  ultimately show ?thesis using that [of ?b] by simp
qed

lemma clear_bit_marked:
  assumes "in_range bits i"
  obtains bits' where "clear_bit_at i bits = Some bits'" and "length bits' = length bits"
    and "\<And>j. in_range bits j \<Longrightarrow> marked bits' j \<longleftrightarrow> j \<noteq> i \<and> marked bits j"
proof -
  note i = byte_index_in_range [OF assms]
  let ?b = "bits[nat (i div 8) := bits ! nat (i div 8) AND NOT (bit_mask i)]"
  have "marked ?b j \<longleftrightarrow> j \<noteq> i \<and> marked bits j" if j: "in_range bits j" for j
  proof -
    note jb = byte_index_in_range [OF j]
    have m: "marked ?b j \<longleftrightarrow> bit (?b ! nat (j div 8)) (nat (j mod 8))"
      by (rule marked_bit) (use j in \<open>simp add: in_range_def\<close>)
    have eq: "nat (i div 8) = nat (j div 8) \<and> nat (i mod 8) = nat (j mod 8) \<longleftrightarrow> i = j"
      by (rule same_bit_iff) (use j assms in \<open>auto simp: in_range_def\<close>)
    show ?thesis
    proof (cases "nat (j div 8) = nat (i div 8)")
      case True
      then show ?thesis
        using i jb eq unfolding m marked_bit [OF j] by (auto simp: bit_and_iff bit_not_iff bit_mask_bit)
    next
      case False
      then show ?thesis using eq unfolding m marked_bit [OF j] by auto
    qed
  qed
  moreover have "clear_bit_at i bits = Some ?b" using i by (simp add: clear_bit_at_def idx_nth)
  ultimately show ?thesis using that [of ?b] by simp
qed

lemma set_all_marked:
  assumes "\<And>i. i \<in> set is \<Longrightarrow> in_range bits i"
  shows "\<exists>bits'. foldM set_bit_at is bits = Some bits' \<and> length bits' = length bits \<and>
    (\<forall>j. in_range bits j \<longrightarrow> (marked bits' j \<longleftrightarrow> j \<in> set is \<or> marked bits j))"
  using assms
proof (induction "is" arbitrary: bits)
  case (Cons i "is")
  then have "in_range bits i" by simp
  then obtain b where b: "set_bit_at i bits = Some b" "length b = length bits"
      "\<And>j. in_range bits j \<Longrightarrow> marked b j \<longleftrightarrow> j = i \<or> marked bits j" by (rule set_bit_marked) blast
  have same: "in_range b j = in_range bits j" for j using b(2) by (simp add: in_range_def)
  from Cons.IH [of b] Cons.prems same obtain b' where "foldM set_bit_at is b = Some b'" "length b' = length b"
      "\<forall>j. in_range b j \<longrightarrow> (marked b' j \<longleftrightarrow> j \<in> set is \<or> marked b j)" by auto
  with b same show ?case by auto
qed simp

lemma clear_all_marked:
  assumes "\<And>i. P i \<Longrightarrow> in_range bits i"
  shows "\<exists>bits'. foldM (\<lambda>i bs. if P i then clear_bit_at i bs else Some bs) is bits = Some bits' \<and>
    length bits' = length bits \<and>
    (\<forall>j. in_range bits j \<longrightarrow> (marked bits' j \<longleftrightarrow> \<not> (j \<in> set is \<and> P j) \<and> marked bits j))"
  using assms
proof (induction "is" arbitrary: bits)
  case (Cons i "is")
  show ?case
  proof (cases "P i")
    case True
    with Cons.prems have "in_range bits i" by simp
    then obtain b where b: "clear_bit_at i bits = Some b" "length b = length bits"
        "\<And>j. in_range bits j \<Longrightarrow> marked b j \<longleftrightarrow> j \<noteq> i \<and> marked bits j" by (rule clear_bit_marked) blast
    have same: "in_range b j = in_range bits j" for j using b(2) by (simp add: in_range_def)
    from Cons.IH [of b] Cons.prems same obtain b' where
        "foldM (\<lambda>i bs. if P i then clear_bit_at i bs else Some bs) is b = Some b'" "length b' = length b"
        "\<forall>j. in_range b j \<longrightarrow> (marked b' j \<longleftrightarrow> \<not> (j \<in> set is \<and> P j) \<and> marked b j)" by auto
    with b same True show ?thesis by auto
  next
    case False
    from Cons.IH [of bits] Cons.prems False show ?thesis by auto
  qed
qed simp

lemma fresh_bits:
  assumes "0 < n"
  shows "0 \<le> i \<and> i < n \<Longrightarrow> in_range (replicate (nat ((n + 7) div 8)) 0) i"
    and "0 \<le> i \<and> i < n \<Longrightarrow> \<not> marked (replicate (nat ((n + 7) div 8)) 0) i"
proof -
  show r: "0 \<le> i \<and> i < n \<Longrightarrow> in_range (replicate (nat ((n + 7) div 8)) 0) i"
    using assms by (auto simp: in_range_def)
  show "0 \<le> i \<and> i < n \<Longrightarrow> \<not> marked (replicate (nat ((n + 7) div 8)) 0) i"
    using r byte_index_in_range(2) [of "replicate (nat ((n + 7) div 8)) 0" i]
    by (auto simp: marked_def get_bit_bit)
qed

lemma get_bit_marked: "in_range bits i \<Longrightarrow> get_bit_at i bits = Some (marked bits i)"
  by (simp add: marked_def get_bit_bit)

lemma finite_users: "finite {j\<in>{0..<n :: int}. P j}"
  by (rule finite_subset [of _ "{0..<n}"]) auto

text \<open>The decoys still missing are among the draws: the loop returns, and sets exactly the missing number of bits.\<close>

lemma decoy_loop_returns:
  assumes "\<And>i. 0 \<le> i \<and> i < n \<Longrightarrow> in_range bits i" and "set draws \<subseteq> Some ` {0..<n}" and "added \<le> wanted"
    and "wanted - added \<le> card {i\<in>{0..<n}. Some i \<in> set draws \<and> i \<noteq> r \<and> \<not> marked bits i}"
    and "marked bits r" and "0 \<le> r" "r < n"
  shows "\<exists>bits'. decoy_loop r wanted added draws bits = Some bits' \<and> length bits' = length bits \<and> marked bits' r \<and>
    card {i\<in>{0..<n}. marked bits' i} = card {i\<in>{0..<n}. marked bits i} + (wanted - added)"
  using assms
proof (induction draws arbitrary: added bits)
  case Nil
  then show ?case by (subst decoy_loop.simps) auto
next
  case (Cons d draws)
  obtain i where d: "d = Some i" and i: "0 \<le> i" "i < n" using Cons.prems(2) by auto
  have ri: "in_range bits i" using Cons.prems(1) i by blast
  show ?case
  proof (cases "added < wanted")
    case False
    then show ?thesis using Cons.prems by (subst decoy_loop.simps) auto
  next
    case more: True
    show ?thesis
    proof (cases "i = r \<or> marked bits i")
      case True
      then have "{j\<in>{0..<n}. Some j \<in> set (d # draws) \<and> j \<noteq> r \<and> \<not> marked bits j}
        = {j\<in>{0..<n}. Some j \<in> set draws \<and> j \<noteq> r \<and> \<not> marked bits j}" using d by auto
      then have "\<exists>bits'. decoy_loop r wanted added draws bits = Some bits' \<and> length bits' = length bits \<and> marked bits' r \<and>
          card {i\<in>{0..<n}. marked bits' i} = card {i\<in>{0..<n}. marked bits i} + (wanted - added)"
        using Cons.prems by (intro Cons.IH) auto
      moreover have "decoy_loop r wanted added (d # draws) bits = decoy_loop r wanted added draws bits"
        using True more d get_bit_marked [OF ri] by (subst decoy_loop.simps) auto
      ultimately show ?thesis by simp
    next
      case False
      from ri obtain b where b: "set_bit_at i bits = Some b" "length b = length bits"
          "\<And>j. in_range bits j \<Longrightarrow> marked b j \<longleftrightarrow> j = i \<or> marked bits j" by (rule set_bit_marked) blast
      have mk: "marked b j \<longleftrightarrow> j = i \<or> marked bits j" if "0 \<le> j \<and> j < n" for j
        using that Cons.prems(1) b(3) by blast
      let ?D = "{j\<in>{0..<n}. Some j \<in> set (d # draws) \<and> j \<noteq> r \<and> \<not> marked bits j}"
      have "card (?D - {i}) \<le> card {j\<in>{0..<n}. Some j \<in> set draws \<and> j \<noteq> r \<and> \<not> marked b j}"
      proof (rule card_mono)
        show "finite {j\<in>{0..<n}. Some j \<in> set draws \<and> j \<noteq> r \<and> \<not> marked b j}"
          by (rule finite_users)
      qed (use mk d in auto)
      moreover have "card (?D - {i}) = card ?D - 1" using d i False by (subst card_Diff_singleton) auto
      ultimately have "card ?D - 1 \<le> card {j\<in>{0..<n}. Some j \<in> set draws \<and> j \<noteq> r \<and> \<not> marked b j}"
        by simp
      with Cons.prems(4) have "wanted - (added + 1) \<le> card {j\<in>{0..<n}. Some j \<in> set draws \<and> j \<noteq> r \<and> \<not> marked b j}"
        by linarith
      moreover have "\<And>j. 0 \<le> j \<and> j < n \<Longrightarrow> in_range b j" using Cons.prems(1) b(2) by (simp add: in_range_def)
      ultimately have "\<exists>bits'. decoy_loop r wanted (added + 1) draws b = Some bits' \<and> length bits' = length b \<and>
          marked bits' r \<and> card {i\<in>{0..<n}. marked bits' i} = card {i\<in>{0..<n}. marked b i} + (wanted - (added + 1))"
        using Cons.prems(2,5,6,7) more mk by (intro Cons.IH) auto
      moreover have "{j\<in>{0..<n}. marked b j} = insert i {j\<in>{0..<n}. marked bits j}" using mk i by auto
      then have "card {j\<in>{0..<n}. marked b j} = card {j\<in>{0..<n}. marked bits j} + 1"
        using False finite_users [of n "marked bits"] by (simp only: card_insert_disjoint) simp
      moreover have "decoy_loop r wanted added (d # draws) bits = decoy_loop r wanted (added + 1) draws b"
        using False more d get_bit_marked [OF ri] b(1) by (subst decoy_loop.simps) auto
      ultimately show ?thesis using more b(2) by auto
    qed
  qed
qed

subsection \<open>What the channels rely on of the cryptography\<close>

text \<open>
  Correctness, not security: decapsulation with the matching key returns the encapsulated secret, and
  opening returns what was sealed.
\<close>

definition kem_correct :: "('a) crypto_scheme \<Rightarrow> byte list \<Rightarrow> byte list \<Rightarrow> bool" where
  "kem_correct cr ek dk \<longleftrightarrow> ValidKey cr ek \<and>
     (\<forall>coins. snd (Encapsulate cr ek coins) \<noteq> [] \<and>
        Decapsulate cr dk (snd (Encapsulate cr ek coins)) = Some (fst (Encapsulate cr ek coins)))"

definition aead_correct :: "crypto \<Rightarrow> bool" where
  "aead_correct cr \<longleftrightarrow> (\<forall>k n p a. length n = 12 \<longrightarrow> Open cr k n (Seal cr k n p a) a = Some p)"

lemma decrypt_encrypt_aad:
  assumes "aead_correct cr" and "length n = 12"
  shows "aesGCMDecryptWithAAD cr k (n @ Seal cr k n p a) a = Inr p"
  using assms by (simp add: aesGCMDecryptWithAAD_def aead_correct_def)

text \<open>A record in the scanned range whose handling panics makes the whole scan panic.\<close>

lemma mapM_None: "x \<in> set xs \<Longrightarrow> f x = None \<Longrightarrow> mapM f xs = None"
  by (induction xs) auto

lemma in_scan_range: "i \<in> set (scan_range lo hi) \<longleftrightarrow> lo \<le> i \<and> i < hi"
proof
  assume "i \<in> set (scan_range lo hi)"
  then obtain n where n: "i = word_of_nat n" "unat lo \<le> n" "n < unat hi" by (auto simp: scan_range_def)
  have "unat hi < 2 ^ 64" using unsigned_less [of hi, where ?'a = nat] by simp
  then have "n < 2 ^ 64" using n(3) by simp
  then have "unat i = n" using n(1) by (simp add: unat_of_nat take_bit_nat_eq_self)
  with n show "lo \<le> i \<and> i < hi" by (simp add: word_le_nat_alt word_less_nat_alt)
next
  assume "lo \<le> i \<and> i < hi"
  then have "unat i \<in> {unat lo..<unat hi}" by (simp add: word_le_nat_alt word_less_nat_alt)
  moreover have "i = word_of_nat (unat i)" by simp
  ultimately show "i \<in> set (scan_range lo hi)" unfolding scan_range_def by (metis image_eqI set_map set_upt)
qed

text \<open>The encoded length \<open>0xFFFFFFFC\<close>, for which the 32-bit end offset wraps around to 0.\<close>

definition wrapping_header :: "byte list" where
  "wrapping_header = put_uint32 0xFFFFFFFC"

lemma decode_wrapping:
  assumes "length rest + 4 < 2 ^ 32"
  shows "decodeChannelPayload (wrapping_header @ rest) = None"
proof -
  have len: "\<not> (word_of_nat (length (wrapping_header @ rest)) :: 32 word) < 4"
  proof -
    have "unat (word_of_nat (length rest + 4) :: 32 word) = length rest + 4"
      using assms by (rule unat_small)
    then have "4 \<le> (word_of_nat (length rest + 4) :: 32 word)" by (simp add: word_le_nat_alt)
    then show ?thesis by (simp add: wrapping_header_def add.commute)
  qed
  have hd: "slice (wrapping_header @ rest) 0 4 = Some (put_uint32 0xFFFFFFFC)"
    by (simp add: slice_def wrapping_header_def)
  have "slice (wrapping_header @ rest) 4 0 = None" by (simp add: slice_def)
  moreover have "(4 + 0xFFFFFFFC :: 32 word) = 0" "(4 + 0xFFFFFFFC + 4 :: 32 word) = 4" by simp_all
  moreover have "\<not> length (wrapping_header @ rest) < 4" by (simp add: wrapping_header_def)
  moreover have w: "(4294967296 :: 32 word) = 0" "(4294967300 :: 32 word) = 4" by simp_all
  ultimately show ?thesis
    unfolding decodeChannelPayload_def Let_def hd using len by (simp add: w)
qed

subsection \<open>Properties\<close>

text \<open>
  The payload format is unambiguous: a message and a sender identity whose lengths fit the 32-bit
  fields are encoded without a panic, and decoding returns exactly them.
\<close>

theorem channel_payload_roundtrip:
  assumes "length (Message p) + length (SenderId p) + 8 < 2 ^ 32"
  shows "\<exists>bs. encodeChannelPayload p = Some bs \<and> decodeChannelPayload bs = Some (Inr p)"
  using encode_wire [OF assms] decode_wire [OF assms] by auto

theorem channel_payload_roundtrip_witness:
  "\<exists>bs. encodeChannelPayload \<lparr>Message = [1, 2, 3], SenderId = [9]\<rparr> = Some bs \<and>
     decodeChannelPayload bs = Some (Inr \<lparr>Message = [1, 2, 3], SenderId = [9]\<rparr>)"
  by (rule channel_payload_roundtrip) simp

text \<open>
  A channel reaches its recipient. With correct key encapsulation and authenticated encryption, a
  record published from the output of \<^verbatim>\<open>PrepareChannelSetup\<close> is recognised by the holder of the
  decapsulation key: the scan of that index yields the shared secret of the sender, the message, the
  sender identity and the publisher, and every completed scan of a range that has the index returns it.
\<close>

theorem channel_delivered:
  assumes "kem_correct cr ek dk" and "aead_correct cr" and "length nonce = 12"
    and "length message + length senderId + 8 < 2 ^ 32"
    and "PrepareChannelSetup cr coins (Some nonce) draws ek message senderId mode totalUsers recipientIdx excluded
       = Some (Inr (ss, c1, c2, bitmap))"
    and "getChannel reg i = Some \<lparr>Sender = publisher, C1 = c1, C2 = c2, Bitmap = bitmap\<rparr>"
  shows "scan_channel cr reg dk i = Some (Some \<lparr>ChannelIdx = i, SharedSecret = ss, FoundMessage = message,
      FoundSenderId = senderId, FoundSender = publisher\<rparr>)
    \<and> (\<forall>lo maxCount count found. getChannelCount reg = Some count \<longrightarrow> lo \<le> i \<longrightarrow> i < count \<longrightarrow>
         (lo + maxCount < count \<longrightarrow> i < lo + maxCount) \<longrightarrow>
         ScanChannels cr reg dk lo maxCount = Some (Inr found) \<longrightarrow>
         \<lparr>ChannelIdx = i, SharedSecret = ss, FoundMessage = message, FoundSenderId = senderId,
           FoundSender = publisher\<rparr> \<in> set found)"
proof -
  let ?p = "\<lparr>Message = message, SenderId = senderId\<rparr>"
  have enc: "encodeChannelPayload ?p = Some (wire message senderId)" using encode_wire [of ?p] assms(4) by simp
  obtain s c where e: "Encapsulate cr ek coins = (s, c)" by force
  have out: "ss = s" "c1 = c" "c2 = nonce @ Seal cr (DeriveChannelKey cr s) nonce (wire message senderId) c"
    using assms(1,5) e enc
    by (auto simp: PrepareChannelSetup_def kem_correct_def aesGCMEncryptWithAAD_def bind_eq_Some_conv)
  have "c \<noteq> []" "Decapsulate cr dk c = Some s" using assms(1) e by (auto simp: kem_correct_def dest: spec [of _ coins])
  with decrypt_encrypt_aad [OF assms(2,3)] decode_wire [OF assms(4)]
  have one: "scan_channel cr reg dk i = Some (Some \<lparr>ChannelIdx = i, SharedSecret = ss, FoundMessage = message,
      FoundSenderId = senderId, FoundSender = publisher\<rparr>)"
    unfolding scan_channel_def assms(6) out by simp
  moreover have "\<lparr>ChannelIdx = i, SharedSecret = ss, FoundMessage = message, FoundSenderId = senderId,
      FoundSender = publisher\<rparr> \<in> set found"
    if cnt: "getChannelCount reg = Some count" and rng: "lo \<le> i" "i < count" "lo + maxCount < count \<longrightarrow> i < lo + maxCount"
      and scan: "ScanChannels cr reg dk lo maxCount = Some (Inr found)" for lo maxCount count found
  proof -
    let ?hi = "if lo + maxCount < count then lo + maxCount else count"
    obtain rs where rs: "mapM (scan_channel cr reg dk) (scan_range lo ?hi) = Some rs" "found = List.map_filter id rs"
      using cnt scan by (auto simp: ScanChannels_def bind_eq_Some_conv split: if_splits)
    have "i \<in> set (scan_range lo ?hi)" using rng by (simp add: in_scan_range)
    then obtain k where "k < length (scan_range lo ?hi)" "scan_range lo ?hi ! k = i" by (auto simp: in_set_conv_nth)
    with mapM_nth [OF rs(1)] mapM_length [OF rs(1)] one have "Some \<lparr>ChannelIdx = i, SharedSecret = ss,
        FoundMessage = message, FoundSenderId = senderId, FoundSender = publisher\<rparr> \<in> set rs"
      by (metis nth_mem option.inject)
    then show ?thesis using rs(2) by (force simp: map_filter_def)
  qed
  ultimately show ?thesis by blast
qed

text \<open>Stand-ins with the assumed laws, for the witnesses.\<close>

definition toy_crypto :: crypto where
  "toy_crypto = \<lparr>hkdf = (\<lambda>s salt info n. take n (s @ info)), Seal = (\<lambda>k n p a. p @ k),
     Open = (\<lambda>k n c a. if drop (length c - length k) c = k then Some (take (length c - length k) c) else None),
     ValidKey = (\<lambda>k. True), Encapsulate = (\<lambda>ek coins. (coins, 1 # coins)),
     Decapsulate = (\<lambda>dk c. case c of [] \<Rightarrow> None | _ # s \<Rightarrow> Some s)\<rparr>"

lemma toy_crypto_laws: "kem_correct toy_crypto ek dk" "aead_correct toy_crypto"
  by (auto simp: kem_correct_def aead_correct_def toy_crypto_def)

definition toy_registry :: "byte list \<Rightarrow> byte list \<Rightarrow> channel_registry" where
  "toy_registry c1 c2 = \<lparr>abi_ok = True, getChannelCount = Some 1,
     getChannel = (\<lambda>i. if i = 0 then Some \<lparr>Sender = 7, C1 = c1, C2 = c2, Bitmap = [4]\<rparr> else None)\<rparr>"

theorem channel_delivered_witness:
  "\<exists>ss c1 c2. PrepareChannelSetup toy_crypto [5] (Some (replicate 12 0)) [] [] [1, 2] [3] PrivacyNone 8 2 []
       = Some (Inr (ss, c1, c2, [4])) \<and>
     scan_channel toy_crypto (toy_registry c1 c2) [] 0 = Some (Some \<lparr>ChannelIdx = 0, SharedSecret = ss,
       FoundMessage = [1, 2], FoundSenderId = [3], FoundSender = 7\<rparr>)"
proof -
  have bm: "buildBitmap PrivacyNone 8 2 [] [] = Some [4]"
    by (simp add: buildBitmap_def set_bit_at_def byte_index_def bit_mask_def)
  have enc: "encodeChannelPayload \<lparr>Message = [1, 2], SenderId = [3]\<rparr> = Some (wire [1, 2] [3])"
    using encode_wire [of "\<lparr>Message = [1, 2], SenderId = [3]\<rparr>"] by simp
  obtain ss c1 c2 where s: "PrepareChannelSetup toy_crypto [5] (Some (replicate 12 0)) [] [] [1, 2] [3] PrivacyNone 8 2 []
      = Some (Inr (ss, c1, c2, [4]))"
    by (simp add: PrepareChannelSetup_def bm enc toy_crypto_def aesGCMEncryptWithAAD_def)
  have "getChannel (toy_registry c1 c2) 0 = Some \<lparr>Sender = 7, C1 = c1, C2 = c2, Bitmap = [4]\<rparr>"
    by (simp add: toy_registry_def)
  from channel_delivered [OF toy_crypto_laws _ _ s this] s show ?thesis by auto
qed

text \<open>
  C40. A crafted channel crashes the wallet that scans it. A sender who encapsulates to the recipient and
  seals a payload whose length field is \<open>0xFFFFFFFC\<close> passes the 32-bit bounds check of the decoder, which
  wraps around, and the slice expression panics: every scan of a range that has the record panics.
\<close>

theorem channel_scan_panic:
  assumes "kem_correct cr ek dk" and "aead_correct cr" and "length nonce = 12" and "length rest + 4 < 2 ^ 32"
    and "Encapsulate cr ek coins = (ss, c1)"
    and "getChannel reg i = Some \<lparr>Sender = publisher, C1 = c1,
       C2 = nonce @ Seal cr (DeriveChannelKey cr ss) nonce (wrapping_header @ rest) c1, Bitmap = bitmap\<rparr>"
    and "abi_ok reg" and "getChannelCount reg = Some count" and "lo \<le> i" and "i < count"
    and "lo + maxCount < count \<longrightarrow> i < lo + maxCount"
  shows "ScanChannels cr reg dk lo maxCount = None"
proof -
  have "c1 \<noteq> []" "Decapsulate cr dk c1 = Some ss" using assms(1,5) by (auto simp: kem_correct_def dest: spec [of _ coins])
  then have "scan_channel cr reg dk i = None"
    unfolding scan_channel_def assms(6) using decrypt_encrypt_aad [OF assms(2,3)] decode_wrapping [OF assms(4)] by simp
  moreover have "i \<in> set (scan_range lo (if lo + maxCount < count then lo + maxCount else count))"
    using assms(9-11) by (simp add: in_scan_range)
  ultimately have "mapM (scan_channel cr reg dk) (scan_range lo (if lo + maxCount < count then lo + maxCount else count)) = None"
    by (intro mapM_None)
  then show ?thesis unfolding ScanChannels_def Let_def using assms(7,8) by simp
qed

theorem channel_scan_panic_witness:
  "ScanChannels toy_crypto (toy_registry [1, 5]
     (replicate 12 0 @ Seal toy_crypto (DeriveChannelKey toy_crypto [5]) (replicate 12 0) (wrapping_header @ []) [1, 5])) [] 0 9 = None"
proof -
  have e: "Encapsulate toy_crypto [] [5] = ([5], [1, 5])" by (simp add: toy_crypto_def)
  show ?thesis
    by (rule channel_scan_panic [OF toy_crypto_laws _ _ e, where i = 0 and count = 1 and publisher = 7 and bitmap = "[4]"
          and nonce = "replicate 12 0" and rest = "[]"])
      (simp_all add: toy_registry_def)
qed

text \<open>
  The bitmaps say exactly what the modes promise. For a recipient among the users, in mode None only
  the recipient is marked, in mode Full every user is, and in mode Rift every user is but the excluded
  ones, the recipient always remaining marked.
\<close>

theorem bitmap_modes_exact:
  assumes "0 < n" and "0 \<le> r" and "r < n"
  shows "(\<exists>bs. buildBitmap PrivacyNone n r excl draws = Some bs \<and> (\<forall>i. 0 \<le> i \<and> i < n \<longrightarrow> (marked bs i \<longleftrightarrow> i = r)))
    \<and> (\<exists>bs. buildBitmap PrivacyFull n r excl draws = Some bs \<and> (\<forall>i. 0 \<le> i \<and> i < n \<longrightarrow> marked bs i))
    \<and> (\<exists>bs. buildBitmap PrivacyRift n r excl draws = Some bs \<and>
      (\<forall>i. 0 \<le> i \<and> i < n \<longrightarrow> (marked bs i \<longleftrightarrow> i = r \<or> i \<notin> set excl)))"
proof (intro conjI)
  let ?b = "replicate (nat ((n + 7) div 8)) 0 :: byte list"
  note fresh = fresh_bits [OF assms(1)]
  have "in_range ?b r" using fresh(1) assms by blast
  then obtain b where "set_bit_at r ?b = Some b" "\<And>j. in_range ?b j \<Longrightarrow> marked b j \<longleftrightarrow> j = r \<or> marked ?b j"
    by (rule set_bit_marked) blast
  then show "\<exists>bs. buildBitmap PrivacyNone n r excl draws = Some bs \<and> (\<forall>i. 0 \<le> i \<and> i < n \<longrightarrow> (marked bs i \<longleftrightarrow> i = r))"
    using assms(1) fresh by (auto simp: buildBitmap_def)
  obtain f where f: "foldM set_bit_at (map int [0..<nat n]) ?b = Some f" "length f = length ?b"
      "\<forall>j. in_range ?b j \<longrightarrow> (marked f j \<longleftrightarrow> j \<in> set (map int [0..<nat n]) \<or> marked ?b j)"
    using set_all_marked [of "map int [0..<nat n]" ?b] fresh(1) by fastforce
  have all: "marked f i" if "0 \<le> i \<and> i < n" for i
  proof -
    have "i \<in> set (map int [0..<nat n])" using that by (auto intro!: image_eqI [of _ _ "nat i"])
    then show ?thesis using f(3) fresh(1) that by blast
  qed
  then show "\<exists>bs. buildBitmap PrivacyFull n r excl draws = Some bs \<and> (\<forall>i. 0 \<le> i \<and> i < n \<longrightarrow> marked bs i)"
    using assms(1) f(1) by (simp add: buildBitmap_def)
  have rf: "in_range f i" if "0 \<le> i \<and> i < n" for i using fresh(1) [OF that] f(2) by (simp add: in_range_def)
  obtain g where g: "foldM (\<lambda>i bs. if 0 \<le> i \<and> i < n \<and> i \<noteq> r then clear_bit_at i bs else Some bs) excl f = Some g"
      "\<forall>j. in_range f j \<longrightarrow> (marked g j \<longleftrightarrow> \<not> (j \<in> set excl \<and> (0 \<le> j \<and> j < n \<and> j \<noteq> r)) \<and> marked f j)"
    using clear_all_marked [of "\<lambda>i. 0 \<le> i \<and> i < n \<and> i \<noteq> r" f excl] rf by auto
  then show "\<exists>bs. buildBitmap PrivacyRift n r excl draws = Some bs \<and>
      (\<forall>i. 0 \<le> i \<and> i < n \<longrightarrow> (marked bs i \<longleftrightarrow> i = r \<or> i \<notin> set excl))"
    using assms(1) f(1) all rf by (auto simp: buildBitmap_def)
qed

theorem bitmap_modes_exact_witness:
  "\<exists>bs. buildBitmap PrivacyRift 9 2 [4, 2] [] = Some bs \<and>
     (\<forall>i. 0 \<le> i \<and> i < 9 \<longrightarrow> (marked bs i \<longleftrightarrow> i = 2 \<or> i \<notin> set [4, 2]))"
  using bitmap_modes_exact [of 9 2 "[4, 2]" "[]"] by simp

text \<open>
  The subset mode returns when the random draws name enough other users, and then marks the recipient
  and exactly as many decoys as the integer square root of the number of users.
\<close>

theorem bitmap_subset_returns:
  assumes "0 \<le> r" and "r < n" and "set draws \<subseteq> Some ` {0..<n}"
    and "decoys (nat n) \<le> card {i\<in>{0..<n}. Some i \<in> set draws \<and> i \<noteq> r}"
  shows "\<exists>bs. buildBitmap PrivacySubset n r excl draws = Some bs \<and> marked bs r \<and>
    card {i\<in>{0..<n}. marked bs i} = decoys (nat n) + 1"
proof -
  have n: "0 < n" using assms by simp
  let ?b = "replicate (nat ((n + 7) div 8)) 0 :: byte list"
  note fresh = fresh_bits [OF n]
  have "in_range ?b r" using fresh(1) assms by blast
  then obtain b where b: "set_bit_at r ?b = Some b" "length b = length ?b"
      "\<And>j. in_range ?b j \<Longrightarrow> marked b j \<longleftrightarrow> j = r \<or> marked ?b j" by (rule set_bit_marked) blast
  have mk: "marked b i \<longleftrightarrow> i = r" if "0 \<le> i \<and> i < n" for i using b(3) fresh that by blast
  have rb: "in_range b i" if "0 \<le> i \<and> i < n" for i using fresh(1) [OF that] b(2) by (simp add: in_range_def)
  have "{i\<in>{0..<n}. Some i \<in> set draws \<and> i \<noteq> r \<and> \<not> marked b i} = {i\<in>{0..<n}. Some i \<in> set draws \<and> i \<noteq> r}"
    using mk by auto
  then obtain bs where bs: "decoy_loop r (decoys (nat n)) 0 draws b = Some bs" "marked bs r"
      "card {i\<in>{0..<n}. marked bs i} = card {i\<in>{0..<n}. marked b i} + decoys (nat n)"
    using decoy_loop_returns [of n b draws 0 "decoys (nat n)" r] rb assms mk by auto
  have "{i\<in>{0..<n}. marked b i} = {r}" using mk assms by auto
  with bs b(1) n show ?thesis by (simp add: buildBitmap_def)
qed

theorem bitmap_subset_returns_witness:
  "\<exists>bs. buildBitmap PrivacySubset 5 2 [] [Some 2, Some 3, Some 3, Some 0] = Some bs \<and> marked bs 2 \<and>
     card {i\<in>{0..<5}. marked bs i} = decoys (nat 5) + 1"
proof (rule bitmap_subset_returns)
  have "{i\<in>{0..<5 :: int}. Some i \<in> set [Some 2, Some 3, Some 3, Some 0] \<and> i \<noteq> 2} = {3, 0}" (is "?D = _") by auto
  moreover have "decoys (nat 5) = 2" by (simp add: decoys_def numeral_eq_Suc)
  ultimately show "decoys (nat 5) \<le> card ?D" by (simp only: card_insert_if) simp
qed auto

text \<open>
  With a single registered user the subset mode never returns: the only index there is to draw is the
  recipient, and the loop asks for one decoy, whatever number of draws it is given.
\<close>

theorem bitmap_subset_single_user_diverges:
  "buildBitmap PrivacySubset 1 0 excl (replicate k (Some 0)) = None"
proof -
  have "decoy_loop 0 1 0 (replicate k (Some 0)) bits = None" for bits
    by (induction k) (subst decoy_loop.simps; simp)+
  moreover have "decoys (nat 1) = 1" by (simp add: decoys_def)
  ultimately show ?thesis by (simp add: buildBitmap_def bind_eq_None_conv)
qed

end
