(* ===== verification/Tag_Scan.thy ===== *)
theory Tag_Scan
  imports Tag_Channel
begin

section \<open>Private tags and incremental scanning\<close>

text \<open>
  \<^verbatim>\<open>enygma_retail_payments/private_tags/src/tag.go\<close> and \<^verbatim>\<open>scanner.go\<close>: the derivation of message tags, the
  tag window a sender hands to the relayer, the payload encryption, the scan of one block, and the scans
  that resume from a persisted cursor. The iden3 Poseidon hash, the node (its logs and its tag entries)
  and the ABI decoder are arguments. Block numbers and channel indices are 64-bit words and wrap as
  \<^verbatim>\<open>uint64\<close> does. The outer \<^term>\<open>None\<close> is a panic; a returned error is an \<^term>\<open>Inl\<close>.
\<close>

subsection \<open>Types\<close>

record TagEntry =
  Publisher :: address
  Tag :: "byte list"
  Ctxt :: "byte list"

record Channel =
  Channel_SharedSecret :: "byte list"
  PkSpend :: int

record ScannedTag =
  BlockNumber :: "64 word"
  Entry :: TagEntry
  Scanned_SharedSecret :: "byte list"

datatype tag_error = Poseidon_failed | BlockNumber_failed | GetEntries_failed | FilterLogs_failed
  | Payload_failed channel_error

subsection \<open>Tag derivation\<close>

type_synonym iden3_hash = "int list \<Rightarrow> int option"

definition DeriveTag :: "iden3_hash \<Rightarrow> 64 word \<Rightarrow> int \<Rightarrow> byte list \<Rightarrow> (tag_error + byte list) option" where
  "DeriveTag H blockNumber recipientPkSpend sharedSecret = (
     let ssField = SetBytes sharedSecret mod SNARK_SCALAR_FIELD;
         blockInt = uint blockNumber
     in case H [blockInt, recipientPkSpend, ssField] of
       None \<Rightarrow> Some (Inl Poseidon_failed)
     | Some result \<Rightarrow> do { tag \<leftarrow> FillBytes 32 result; Some (Inr tag) })"

text \<open>The loop returns at the first error. \<^verbatim>\<open>make\<close> panics on a negative size.\<close>

fun tag_window_loop ::
  "iden3_hash \<Rightarrow> 64 word \<Rightarrow> int \<Rightarrow> byte list \<Rightarrow> nat list \<Rightarrow> (tag_error + byte list list) option" where
  "tag_window_loop H startBlock pk ss [] = Some (Inr [])"
| "tag_window_loop H startBlock pk ss (i # is) = do {
     r \<leftarrow> DeriveTag H (startBlock + word_of_nat i) pk ss;
     case r of
       Inl err \<Rightarrow> Some (Inl err)
     | Inr t \<Rightarrow> do {
         rs \<leftarrow> tag_window_loop H startBlock pk ss is;
         Some (case rs of Inl err \<Rightarrow> Inl err | Inr ts \<Rightarrow> Inr (t # ts)) } }"

definition DeriveTagWindow ::
  "iden3_hash \<Rightarrow> 64 word \<Rightarrow> int \<Rightarrow> int \<Rightarrow> byte list \<Rightarrow> (tag_error + byte list list) option" where
  "DeriveTagWindow H startBlock windowSize recipientPkSpend sharedSecret = (
     if windowSize < 0 then None
     else tag_window_loop H startBlock recipientPkSpend sharedSecret [0..<nat windowSize])"

subsection \<open>Payload encryption\<close>

definition EncryptPayload :: "crypto \<Rightarrow> byte list option \<Rightarrow> byte list \<Rightarrow> byte list \<Rightarrow> channel_error + byte list" where
  "EncryptPayload cr rand channelKey plaintext = (case rand of
       None \<Rightarrow> Inl Rand_failed
     | Some nonce \<Rightarrow> Inr (nonce @ Seal cr channelKey nonce plaintext []))"

definition DecryptPayload :: "crypto \<Rightarrow> byte list \<Rightarrow> byte list \<Rightarrow> channel_error + byte list" where
  "DecryptPayload cr channelKey ct = (
     if length ct < 12 then Inl Ciphertext_too_short
     else case Open cr channelKey (take 12 ct) (drop 12 ct) [] of
       None \<Rightarrow> Inl Auth_failed
     | Some plaintext \<Rightarrow> Inr plaintext)"

definition PrepareTagWithWindow ::
  "iden3_hash \<Rightarrow> crypto \<Rightarrow> byte list option \<Rightarrow> 64 word option \<Rightarrow> int \<Rightarrow> int \<Rightarrow> byte list \<Rightarrow> byte list \<Rightarrow> byte list \<Rightarrow>
   (tag_error + 64 word \<times> byte list list \<times> byte list) option" where
  "PrepareTagWithWindow H cr rand currentBlock windowSize recipientPkSpend sharedSecret channelKey payload = (
     case currentBlock of
       None \<Rightarrow> Some (Inl BlockNumber_failed)
     | Some cur \<Rightarrow> do {
         let startBlock = cur + 1;
         r \<leftarrow> DeriveTagWindow H startBlock windowSize recipientPkSpend sharedSecret;
         Some (case r of
             Inl err \<Rightarrow> Inl err
           | Inr tags \<Rightarrow> (case EncryptPayload cr rand channelKey payload of
               Inl err \<Rightarrow> Inl (Payload_failed err)
             | Inr ctxt \<Rightarrow> Inr (startBlock, tags, ctxt))) })"

definition dummyMsgMarker :: string where
  "dummyMsgMarker = ''enygma-dummy-v1''"

definition PrepareDummyTag ::
  "iden3_hash \<Rightarrow> crypto \<Rightarrow> byte list option \<Rightarrow> 64 word \<Rightarrow> int \<Rightarrow> byte list \<Rightarrow> (tag_error + byte list \<times> byte list) option" where
  "PrepareDummyTag H cr rand blockNumber recipientPkSpend sharedSecret = do {
     r \<leftarrow> DeriveTag H blockNumber recipientPkSpend sharedSecret;
     Some (case r of
         Inl err \<Rightarrow> Inl err
       | Inr tag \<Rightarrow>
           (let k = DeriveChannelKey cr sharedSecret
            in case EncryptPayload cr rand k (ascii dummyMsgMarker) of
                 Inl err \<Rightarrow> Inl (Payload_failed err)
               | Inr ctxt \<Rightarrow> Inr (tag, ctxt))) }"

definition IsDummyPayload :: "byte list \<Rightarrow> bool" where
  "IsDummyPayload plaintext \<longleftrightarrow> plaintext = ascii dummyMsgMarker"

subsection \<open>Scanning one block\<close>

text \<open>
  \<^verbatim>\<open>getEntries\<close> is the contract call, \<^term>\<open>None\<close> when it fails. The loop over the channels returns at the
  first error and drops what was matched before.
\<close>

fun match_loop ::
  "iden3_hash \<Rightarrow> 64 word \<Rightarrow> TagEntry list \<Rightarrow> Channel list \<Rightarrow> ScannedTag list \<Rightarrow> (tag_error + ScannedTag list) option" where
  "match_loop H blockNumber entries [] acc = Some (Inr acc)"
| "match_loop H blockNumber entries (ch # chs) acc = do {
     r \<leftarrow> DeriveTag H blockNumber (PkSpend ch) (Channel_SharedSecret ch);
     case r of
       Inl err \<Rightarrow> Some (Inl err)
     | Inr expected \<Rightarrow> match_loop H blockNumber entries chs
         (acc @ map (\<lambda>e. \<lparr>BlockNumber = blockNumber, Entry = e, Scanned_SharedSecret = Channel_SharedSecret ch\<rparr>)
            (filter (\<lambda>e. Tag e = expected) entries)) }"

definition ScanBlock ::
  "iden3_hash \<Rightarrow> (64 word \<Rightarrow> TagEntry list option) \<Rightarrow> 64 word \<Rightarrow> Channel list \<Rightarrow> (tag_error + ScannedTag list) option" where
  "ScanBlock H getEntries blockNumber channels = (case getEntries blockNumber of
       None \<Rightarrow> Some (Inl GetEntries_failed)
     | Some entries \<Rightarrow>
         if length entries = 0 then Some (Inr [])
         else match_loop H blockNumber entries channels [])"

subsection \<open>Scanning from a cursor\<close>

record ScanCursor =
  LastTagBlock :: "64 word"
  LastChannelIdx :: "64 word"

definition NewScanCursor :: ScanCursor where
  "NewScanCursor = \<lparr>LastTagBlock = 0, LastChannelIdx = 0\<rparr>"

text \<open>An event log as the node returns it: 32-byte topics, data and the block it is in.\<close>

record event_log =
  Topics :: "byte list list"
  Data :: "byte list"
  LogBlock :: "64 word"

definition BytesToAddress :: "byte list \<Rightarrow> address" where
  "BytesToAddress bs = SetBytes (drop (length bs - 20) bs)"

definition match_channel :: "iden3_hash \<Rightarrow> 64 word \<Rightarrow> TagEntry \<Rightarrow> Channel \<Rightarrow> ScannedTag list option" where
  "match_channel H blockNumber entry ch = do {
     r \<leftarrow> DeriveTag H blockNumber (PkSpend ch) (Channel_SharedSecret ch);
     Some (case r of
         Inl _ \<Rightarrow> []
       | Inr expected \<Rightarrow>
           if Tag entry = expected
           then [\<lparr>BlockNumber = blockNumber, Entry = entry, Scanned_SharedSecret = Channel_SharedSecret ch\<rparr>]
           else []) }"

definition match_log :: "iden3_hash \<Rightarrow> (byte list \<Rightarrow> byte list option) \<Rightarrow> Channel list \<Rightarrow> event_log \<Rightarrow> ScannedTag list option" where
  "match_log H unpack channels log = (
     if length (Topics log) < 4 then Some []
     else let tag = Topics log ! 2; publisher = BytesToAddress (Topics log ! 3)
     in case unpack (Data log) of
       None \<Rightarrow> Some []
     | Some ctxt \<Rightarrow> do {
         ms \<leftarrow> mapM (match_channel H (LogBlock log) \<lparr>Publisher = publisher, Tag = tag, Ctxt = ctxt\<rparr>) channels;
         Some (concat ms) })"

text \<open>The node answers a filter query for a block range, or fails. The returned pair is the result and the next cursor.\<close>

definition ScanBlocksFromCursor ::
  "iden3_hash \<Rightarrow> (byte list \<Rightarrow> byte list option) \<Rightarrow> (int \<Rightarrow> int \<Rightarrow> event_log list option) \<Rightarrow> Channel list \<Rightarrow> ScanCursor \<Rightarrow>
   64 word \<Rightarrow> ((tag_error + ScannedTag list) \<times> ScanCursor) option" where
  "ScanBlocksFromCursor H unpack filterLogs channels cursor toBlock = (
     let next = \<lparr>LastTagBlock = LastTagBlock cursor, LastChannelIdx = LastChannelIdx cursor\<rparr> in
     if LastTagBlock cursor \<ge> toBlock then Some (Inr [], next)
     else case filterLogs (uint (LastTagBlock cursor + 1)) (uint toBlock) of
       None \<Rightarrow> Some (Inl FilterLogs_failed, next)
     | Some logs \<Rightarrow> do {
         ms \<leftarrow> mapM (match_log H unpack channels) logs;
         Some (Inr (concat ms), next\<lparr>LastTagBlock := toBlock\<rparr>) })"

text \<open>
  The count is read twice, here and in \<^const>\<open>ScanChannels\<close>: \<open>reg\<close> and \<open>reg'\<close> are the registry at the two
  moments.
\<close>

definition ScanChannelsFromCursor ::
  "crypto \<Rightarrow> channel_registry \<Rightarrow> channel_registry \<Rightarrow> byte list \<Rightarrow> ScanCursor \<Rightarrow> 64 word \<Rightarrow>
   ((channel_error + FoundChannel list) \<times> ScanCursor) option" where
  "ScanChannelsFromCursor cr reg reg' dk cursor maxNew = (
     let next = \<lparr>LastTagBlock = LastTagBlock cursor, LastChannelIdx = LastChannelIdx cursor\<rparr> in
     if \<not> abi_ok reg then Some (Inl Abi_failed, next)
     else case getChannelCount reg of
       None \<Rightarrow> Some (Inl Call_failed, next)
     | Some n \<Rightarrow> do {
         let fromIdx = LastChannelIdx cursor;
         let endIdx = (if fromIdx + maxNew > n then n else fromIdx + maxNew);
         r \<leftarrow> ScanChannels cr reg' dk fromIdx (endIdx - fromIdx);
         Some (case r of
             Inl err \<Rightarrow> (Inl err, next)
           | Inr found \<Rightarrow> (Inr found, next\<lparr>LastChannelIdx := endIdx\<rparr>)) })"

subsection \<open>Scans that resume\<close>

text \<open>
  Both scanners walk an append-only sequence and keep a watermark. The interface they share: what a scan
  collects between two watermarks, empty for an empty range and composed over an intermediate watermark.
  Any increasing sequence of watermarks then collects what one scan collects.
\<close>

fun polls :: "('w \<Rightarrow> 'w \<Rightarrow> 'a list option) \<Rightarrow> 'w \<Rightarrow> 'w list \<Rightarrow> 'a list option" where
  "polls collect c [] = Some []"
| "polls collect c (t # ts) = do { xs \<leftarrow> collect c t; ys \<leftarrow> polls collect t ts; Some (xs @ ys) }"

locale incremental_scan =
  fixes collect :: "('w :: linorder) \<Rightarrow> 'w \<Rightarrow> 'a list option"
  assumes collect_empty: "collect c c = Some []"
    and collect_split: "lo \<le> mid \<Longrightarrow> mid \<le> hi \<Longrightarrow>
      collect lo hi = do { xs \<leftarrow> collect lo mid; ys \<leftarrow> collect mid hi; Some (xs @ ys) }"
begin

lemma polls_one_scan: "sorted (c # ts) \<Longrightarrow> polls collect c ts = collect c (last (c # ts))"
proof (induction ts arbitrary: c)
  case Nil
  show ?case by (simp add: collect_empty)
next
  case (Cons t ts)
  then have "polls collect t ts = collect t (last (t # ts))" by simp
  moreover have "t \<le> last (t # ts)" using Cons.prems last_in_set [of "t # ts"] by auto
  ultimately show ?case using collect_split [of c t "last (t # ts)"] Cons.prems by simp
qed

end

lemma mapM_append: "mapM f (xs @ ys) = do { as \<leftarrow> mapM f xs; bs \<leftarrow> mapM f ys; Some (as @ bs) }"
  by (induction xs) (auto split: Option.bind_splits)

lemma upt_split: "lo \<le> mid \<Longrightarrow> mid \<le> hi \<Longrightarrow> [lo..<hi] = [lo..<mid] @ [mid..<hi]"
  by (metis le_add_diff_inverse upt_add_eq_append)

definition tag_collect ::
  "iden3_hash \<Rightarrow> (byte list \<Rightarrow> byte list option) \<Rightarrow> Channel list \<Rightarrow> (64 word \<Rightarrow> event_log list) \<Rightarrow> 64 word \<Rightarrow> 64 word \<Rightarrow>
   ScannedTag list option" where
  "tag_collect H unpack channels blocks lo hi = do {
     ms \<leftarrow> mapM (match_log H unpack channels)
       (concat (map (\<lambda>b. blocks (word_of_nat b)) [Suc (unat lo)..<Suc (unat hi)]));
     Some (concat ms) }"

definition channel_collect :: "crypto \<Rightarrow> channel_registry \<Rightarrow> byte list \<Rightarrow> 64 word \<Rightarrow> 64 word \<Rightarrow> FoundChannel list option" where
  "channel_collect cr reg dk lo hi = do {
     found \<leftarrow> mapM (scan_channel cr reg dk) (scan_range lo hi);
     Some (List.map_filter id found) }"

interpretation tag_scan: incremental_scan "tag_collect H unpack channels blocks"
proof
  show "tag_collect H unpack channels blocks c c = Some []" for c by (simp add: tag_collect_def)
  fix lo mid hi :: "64 word"
  assume "lo \<le> mid" "mid \<le> hi"
  then have "[Suc (unat lo)..<Suc (unat hi)] = [Suc (unat lo)..<Suc (unat mid)] @ [Suc (unat mid)..<Suc (unat hi)]"
    by (intro upt_split) (simp_all add: word_le_nat_alt)
  then show "tag_collect H unpack channels blocks lo hi = do {
      xs \<leftarrow> tag_collect H unpack channels blocks lo mid;
      ys \<leftarrow> tag_collect H unpack channels blocks mid hi; Some (xs @ ys) }"
    by (simp add: tag_collect_def mapM_append del: upt_Suc split: Option.bind_splits)
qed

interpretation channel_scan: incremental_scan "channel_collect cr reg dk"
proof
  show "channel_collect cr reg dk c c = Some []" for c by (simp add: channel_collect_def scan_range_def map_filter_def)
  fix lo mid hi :: "64 word"
  assume "lo \<le> mid" "mid \<le> hi"
  then have "scan_range lo hi = scan_range lo mid @ scan_range mid hi"
    using upt_split [of "unat lo" "unat mid" "unat hi"] by (simp add: scan_range_def word_le_nat_alt)
  then show "channel_collect cr reg dk lo hi = do {
      xs \<leftarrow> channel_collect cr reg dk lo mid; ys \<leftarrow> channel_collect cr reg dk mid hi; Some (xs @ ys) }"
    by (simp add: channel_collect_def mapM_append map_filter_def split: Option.bind_splits)
qed

subsection \<open>What the scans rely on\<close>

text \<open>
  Besides the domain of the iden3 hash (\<^const>\<open>iden3_total\<close>): the node answers a range query with the logs of its blocks in order.
\<close>

definition logs_by_block :: "(int \<Rightarrow> int \<Rightarrow> event_log list option) \<Rightarrow> (64 word \<Rightarrow> event_log list) \<Rightarrow> bool" where
  "logs_by_block filterLogs blocks \<longleftrightarrow> (\<forall>lo hi. 0 \<le> lo \<and> lo \<le> hi \<longrightarrow>
     filterLogs lo hi = Some (concat (map (\<lambda>b. blocks (word_of_nat b)) [nat lo..<Suc (nat hi)])))"

lemma SNARK_SCALAR_FIELD_bytes: "v < SNARK_SCALAR_FIELD \<Longrightarrow> v < 256 ^ 32"
proof (erule less_trans)
  show "SNARK_SCALAR_FIELD < 256 ^ 32" by (simp add: SNARK_SCALAR_FIELD_def)
qed

text \<open>A derived tag never panics, and fails only for a spend key outside the field.\<close>

lemma DeriveTag_returns:
  assumes "iden3_total H"
  shows "\<exists>r. DeriveTag H b pk ss = Some r"
proof (cases "H [uint b, pk, SetBytes ss mod SNARK_SCALAR_FIELD]")
  case None
  then show ?thesis by (simp add: DeriveTag_def Let_def)
next
  case (Some h)
  then have "0 \<le> h" "h < 256 ^ 32" using assms SNARK_SCALAR_FIELD_bytes unfolding iden3_total_def by blast+
  then show ?thesis using Some by (simp add: DeriveTag_def FillBytes_def)
qed

lemma DeriveTag_valid:
  assumes "iden3_total H" and "0 \<le> pk" "pk < SNARK_SCALAR_FIELD"
  shows "\<exists>t. DeriveTag H b pk ss = Some (Inr t)"
proof -
  have "uint b < 2 ^ 64" using uint_lt2p [of b] by simp
  then have "uint b < SNARK_SCALAR_FIELD" using SNARK_SCALAR_FIELD_big by simp
  then obtain h where h: "H [uint b, pk, SetBytes ss mod SNARK_SCALAR_FIELD] = Some h"
    using assms unfolding iden3_total_def by fastforce
  then have "0 \<le> h" "h < 256 ^ 32" using assms(1) SNARK_SCALAR_FIELD_bytes unfolding iden3_total_def by blast+
  then show ?thesis using h by (simp add: DeriveTag_def FillBytes_def)
qed

text \<open>The tag scan is a collection between watermarks, and leaves the cursor alone when there is nothing new.\<close>

lemma unat_Suc_le: "lo < hi \<Longrightarrow> uint (lo + 1 :: 64 word) = int (Suc (unat lo)) \<and> uint (lo + 1) \<le> uint hi"
proof -
  assume a: "lo < hi"
  then have "unat lo < unat hi" by (simp add: word_less_nat_alt)
  moreover have "unat (lo + 1) = Suc (unat lo)"
    using calculation unsigned_less [of hi, where ?'a = nat] by (simp add: unat_word_ariths)
  ultimately show ?thesis by (metis Suc_leI int_nat_eq nat_int of_nat_le_iff uint_nat)
qed

lemma word_of_nat_range:
  "word_of_nat ` {Suc (unat lo)..<Suc (unat hi)} = {b :: 64 word. lo < b \<and> b \<le> hi}" (is "?L = ?R")
proof (intro set_eqI iffI)
  fix b assume "b \<in> ?L"
  then obtain n where n: "b = word_of_nat n" "unat lo < n" "n \<le> unat hi" by (auto simp: less_Suc_eq_le)
  then have "n < 2 ^ 64" using unsigned_less [of hi, where ?'a = nat] by simp
  then have "unat b = n" using n(1) by (simp add: unat_of_nat take_bit_nat_eq_self)
  with n show "b \<in> ?R" by (simp add: word_le_nat_alt word_less_nat_alt)
next
  fix b assume "b \<in> ?R"
  then have "unat b \<in> {Suc (unat lo)..<Suc (unat hi)}" by (simp add: word_le_nat_alt word_less_nat_alt less_Suc_eq_le)
  moreover have "b = word_of_nat (unat b)" by simp
  ultimately show "b \<in> ?L" by (metis image_eqI)
qed

lemma ScanBlocksFromCursor_collect:
  assumes "logs_by_block filterLogs blocks" and "LastTagBlock cursor \<le> toBlock"
  shows "ScanBlocksFromCursor H unpack filterLogs channels cursor toBlock =
    map_option (\<lambda>ms. (Inr ms, cursor\<lparr>LastTagBlock := toBlock\<rparr>))
      (tag_collect H unpack channels blocks (LastTagBlock cursor) toBlock)"
proof (cases "LastTagBlock cursor < toBlock")
  case True
  note u = unat_Suc_le [OF True]
  then have "filterLogs (uint (LastTagBlock cursor + 1)) (uint toBlock) =
      Some (concat (map (\<lambda>b. blocks (word_of_nat b)) [Suc (unat (LastTagBlock cursor))..<Suc (unat toBlock)]))"
    using assms(1) unfolding logs_by_block_def by (metis nat_int of_nat_0_le_iff unat_eq_nat_uint)
  with True show ?thesis
    unfolding ScanBlocksFromCursor_def Let_def tag_collect_def
    by (cases cursor) (auto simp del: upt_Suc split: Option.bind_splits)
next
  case False
  then have "LastTagBlock cursor = toBlock" using assms(2) by simp
  then show ?thesis
    by (cases cursor) (simp add: ScanBlocksFromCursor_def tag_scan.collect_empty)
qed

lemma ScanBlocksFromCursor_stale:
  "toBlock \<le> LastTagBlock cursor \<Longrightarrow>
    ScanBlocksFromCursor H unpack filterLogs channels cursor toBlock = Some (Inr [], cursor)"
  by (cases cursor) (simp add: ScanBlocksFromCursor_def)

text \<open>A wallet that polls: each poll scans up to the chain tip it sees and keeps the returned cursor.\<close>

fun poll_tags ::
  "iden3_hash \<Rightarrow> (byte list \<Rightarrow> byte list option) \<Rightarrow> (int \<Rightarrow> int \<Rightarrow> event_log list option) \<Rightarrow> Channel list \<Rightarrow> ScanCursor \<Rightarrow>
   64 word list \<Rightarrow> ((tag_error + ScannedTag list) \<times> ScanCursor) option" where
  "poll_tags H unpack filterLogs channels cursor [] = Some (Inr [], cursor)"
| "poll_tags H unpack filterLogs channels cursor (tip # tips) = do {
     (r, next) \<leftarrow> ScanBlocksFromCursor H unpack filterLogs channels cursor tip;
     case r of
       Inl err \<Rightarrow> Some (Inl err, next)
     | Inr ms \<Rightarrow> do {
         (r', next') \<leftarrow> poll_tags H unpack filterLogs channels next tips;
         Some (case r' of Inl err \<Rightarrow> Inl err | Inr ms' \<Rightarrow> Inr (ms @ ms'), next') } }"

lemma poll_tags_collect:
  assumes "logs_by_block filterLogs blocks"
  shows "poll_tags H unpack filterLogs channels cursor tips =
    map_option (\<lambda>ms. (Inr ms, cursor\<lparr>LastTagBlock := fold max tips (LastTagBlock cursor)\<rparr>))
      (tag_collect H unpack channels blocks (LastTagBlock cursor) (fold max tips (LastTagBlock cursor)))"
proof (induction tips arbitrary: cursor)
  case Nil
  show ?case by (cases cursor) (simp add: tag_scan.collect_empty)
next
  case (Cons tip tips)
  show ?case
  proof (cases "LastTagBlock cursor < tip")
    case True
    have "tip \<le> fold max tips tip" by (induction tips rule: rev_induct) (auto simp: max_def)
    moreover have "max tip (LastTagBlock cursor) = tip" using True by simp
    ultimately show ?thesis using True tag_scan.collect_split [of "LastTagBlock cursor" tip "fold max tips tip" H unpack channels blocks]
      ScanBlocksFromCursor_collect [OF assms, of cursor tip H unpack channels]
      by (auto simp: Cons.IH split: Option.bind_splits)
  next
    case False
    have "map_option (\<lambda>(r', next'). (case r' of Inl err \<Rightarrow> Inl err | Inr ms' \<Rightarrow> Inr ms', next')) p = p" for p
      by (cases p) (auto split: sum.splits)
    moreover have "max tip (LastTagBlock cursor) = LastTagBlock cursor" using False by simp
    ultimately show ?thesis using False
      by (auto simp: ScanBlocksFromCursor_stale Cons.IH split: Option.bind_splits)
  qed
qed

text \<open>When every log is handled, the matches are exactly those of the logs.\<close>

lemma mapM_concat_set: "mapM f xs = Some ys \<Longrightarrow> m \<in> set (concat ys) \<longleftrightarrow> (\<exists>x\<in>set xs. \<exists>y. f x = Some y \<and> m \<in> set y)"
  by (induction xs arbitrary: ys) (auto simp: bind_eq_Some_conv)

lemma match_log_total:
  assumes "iden3_total H"
  shows "\<exists>ms. match_log H unpack channels log = Some ms"
proof -
  have "\<exists>ys. mapM (match_channel H b e) channels = Some ys" for b e
    using DeriveTag_returns [OF assms] unfolding match_channel_def by (intro mapM_total) (metis bind.bind_lunit)
  then have "\<exists>ms. mapM (match_channel H b e) channels \<bind> (\<lambda>ms. Some (concat ms)) = Some ms" for b e
    by (metis bind.bind_lunit)
  then show ?thesis by (auto simp: match_log_def Let_def split: option.split)
qed

lemma match_log_set:
  assumes "match_log H unpack channels log = Some ms"
  shows "m \<in> set ms \<longleftrightarrow> 4 \<le> length (Topics log) \<and> (\<exists>ctxt ch. unpack (Data log) = Some ctxt \<and> ch \<in> set channels \<and>
    DeriveTag H (LogBlock log) (PkSpend ch) (Channel_SharedSecret ch) = Some (Inr (Topics log ! 2)) \<and>
    m = \<lparr>BlockNumber = LogBlock log,
         Entry = \<lparr>Publisher = BytesToAddress (Topics log ! 3), Tag = Topics log ! 2, Ctxt = ctxt\<rparr>,
         Scanned_SharedSecret = Channel_SharedSecret ch\<rparr>)"
proof (cases "length (Topics log) < 4 \<or> unpack (Data log) = None")
  case True
  then show ?thesis using assms by (auto simp: match_log_def Let_def split: if_splits)
next
  case False
  then obtain ctxt where c: "unpack (Data log) = Some ctxt" by auto
  let ?e = "\<lparr>Publisher = BytesToAddress (Topics log ! 3), Tag = Topics log ! 2, Ctxt = ctxt\<rparr>"
  from False c assms obtain rs where rs: "mapM (match_channel H (LogBlock log) ?e) channels = Some rs" "ms = concat rs"
    by (auto simp: match_log_def Let_def bind_eq_Some_conv)
  have "(\<exists>y. match_channel H (LogBlock log) ?e ch = Some y \<and> m \<in> set y) \<longleftrightarrow>
      DeriveTag H (LogBlock log) (PkSpend ch) (Channel_SharedSecret ch) = Some (Inr (Topics log ! 2)) \<and>
      m = \<lparr>BlockNumber = LogBlock log, Entry = ?e, Scanned_SharedSecret = Channel_SharedSecret ch\<rparr>" for ch
    by (cases "DeriveTag H (LogBlock log) (PkSpend ch) (Channel_SharedSecret ch)")
      (auto simp: match_channel_def split: sum.splits)
  with mapM_concat_set [OF rs(1), of m] show ?thesis using False c rs(2) by auto
qed

lemma match_log_iff:
  assumes "iden3_total H"
  shows "(\<exists>ms. match_log H unpack channels log = Some ms \<and> m \<in> set ms) \<longleftrightarrow>
    4 \<le> length (Topics log) \<and> (\<exists>ctxt ch. unpack (Data log) = Some ctxt \<and> ch \<in> set channels \<and>
    DeriveTag H (LogBlock log) (PkSpend ch) (Channel_SharedSecret ch) = Some (Inr (Topics log ! 2)) \<and>
    m = \<lparr>BlockNumber = LogBlock log,
         Entry = \<lparr>Publisher = BytesToAddress (Topics log ! 3), Tag = Topics log ! 2, Ctxt = ctxt\<rparr>,
         Scanned_SharedSecret = Channel_SharedSecret ch\<rparr>)"
proof -
  obtain ms where "match_log H unpack channels log = Some ms" using match_log_total [OF assms] by blast
  with match_log_set [OF this, of m] show ?thesis by simp
qed

subsection \<open>Tags from the sender to the recipient\<close>

lemma tag_window_loop_nth:
  "tag_window_loop H b pk ss is = Some (Inr ts) \<Longrightarrow>
    length ts = length is \<and> (\<forall>k<length is. DeriveTag H (b + word_of_nat (is ! k)) pk ss = Some (Inr (ts ! k)))"
  by (induction "is" arbitrary: ts)
    (auto simp: nth_Cons split: Option.bind_split_asm sum.split_asm nat.splits)

lemma tag_window_loop_total:
  "iden3_total H \<Longrightarrow> 0 \<le> pk \<Longrightarrow> pk < SNARK_SCALAR_FIELD \<Longrightarrow> \<exists>ts. tag_window_loop H b pk ss is = Some (Inr ts)"
proof (induction "is")
  case (Cons i "is")
  then obtain t where "DeriveTag H (b + word_of_nat i) pk ss = Some (Inr t)" using DeriveTag_valid by blast
  with Cons show ?case by auto
qed simp

text \<open>With valid spend keys the loop over the channels matches exactly the entries that carry a derived tag.\<close>

lemma match_loop_set:
  assumes "iden3_total H" and "\<forall>ch\<in>set chs. 0 \<le> PkSpend ch \<and> PkSpend ch < SNARK_SCALAR_FIELD"
  shows "\<exists>ms. match_loop H b entries chs acc = Some (Inr ms) \<and> set ms = set acc \<union>
    {\<lparr>BlockNumber = b, Entry = e, Scanned_SharedSecret = Channel_SharedSecret ch\<rparr> | e ch.
       e \<in> set entries \<and> ch \<in> set chs \<and> DeriveTag H b (PkSpend ch) (Channel_SharedSecret ch) = Some (Inr (Tag e))}"
  using assms(2)
proof (induction chs arbitrary: acc)
  case Nil
  show ?case by simp
next
  case (Cons ch chs)
  then obtain t where t: "DeriveTag H b (PkSpend ch) (Channel_SharedSecret ch) = Some (Inr t)"
    using DeriveTag_valid [OF assms(1), of "PkSpend ch" b "Channel_SharedSecret ch"] by auto
  let ?acc = "acc @ map (\<lambda>e. \<lparr>BlockNumber = b, Entry = e, Scanned_SharedSecret = Channel_SharedSecret ch\<rparr>)
    (filter (\<lambda>e. Tag e = t) entries)"
  obtain ms where ms: "match_loop H b entries chs ?acc = Some (Inr ms)" "set ms = set ?acc \<union>
      {\<lparr>BlockNumber = b, Entry = e, Scanned_SharedSecret = Channel_SharedSecret c\<rparr> | e c.
         e \<in> set entries \<and> c \<in> set chs \<and> DeriveTag H b (PkSpend c) (Channel_SharedSecret c) = Some (Inr (Tag e))}"
    using Cons.IH [of ?acc] Cons.prems by auto
  then show ?case using t by (intro exI [of _ ms]) auto
qed

lemma DecryptPayload_EncryptPayload:
  assumes "aead_correct cr" and "length nonce = 12" and "EncryptPayload cr (Some nonce) k p = Inr ct"
  shows "DecryptPayload cr k ct = Inr p"
  using assms by (auto simp: EncryptPayload_def DecryptPayload_def aead_correct_def)

subsection \<open>Resuming the channel scan\<close>

text \<open>
  A registry at some moment, as a prefix of the registry at the end: its count, and its records up to it.
\<close>

definition snapshot :: "channel_registry \<Rightarrow> channel_registry \<Rightarrow> 64 word \<Rightarrow> bool" where
  "snapshot final reg n \<longleftrightarrow> abi_ok reg \<and> getChannelCount reg = Some n \<and> (\<forall>i<n. getChannel reg i = getChannel final i)"

definition no_wrap :: "64 word \<Rightarrow> 64 word \<Rightarrow> bool" where
  "no_wrap a b \<longleftrightarrow> unat a + unat b < 2 ^ 64"

lemma no_wrap_le: "no_wrap a b \<Longrightarrow> a \<le> a + b"
  by (simp add: no_wrap_def word_le_nat_alt unat_word_ariths)

lemma ScanChannelsFromCursor_collect:
  assumes "snapshot final reg n" and "snapshot final reg' n'" and "n \<le> n'" and "LastChannelIdx cursor \<le> n"
    and "no_wrap (LastChannelIdx cursor) maxNew"
  shows "ScanChannelsFromCursor cr reg reg' dk cursor maxNew =
    map_option (\<lambda>found. (Inr found, cursor\<lparr>LastChannelIdx := min n (LastChannelIdx cursor + maxNew)\<rparr>))
      (channel_collect cr final dk (LastChannelIdx cursor) (min n (LastChannelIdx cursor + maxNew)))"
proof -
  define i j where "i = LastChannelIdx cursor" and "j = min n (LastChannelIdx cursor + maxNew)"
  have e: "i \<le> j" "j \<le> n'" "j \<le> n" using no_wrap_le [OF assms(5)] assms(3,4)
    by (auto simp: i_def j_def min_le_iff_disj)
  have "scan_channel cr reg' dk x = scan_channel cr final dk x" if "x \<in> set (scan_range i j)" for x
  proof -
    have "x < n'" using that e(2) by (auto simp: in_scan_range)
    then show ?thesis using assms(2) by (simp add: snapshot_def scan_channel_def)
  qed
  then have "mapM (scan_channel cr reg' dk) (scan_range i j) = mapM (scan_channel cr final dk) (scan_range i j)"
    by (intro mapM_cong) auto
  moreover have "j < n' \<or> j = n'" using e by auto
  ultimately have "ScanChannels cr reg' dk i (j - i) = map_option Inr (channel_collect cr final dk i j)"
    using assms(2) by (elim disjE) (auto simp: ScanChannels_def channel_collect_def snapshot_def split: Option.bind_splits)
  moreover have "(if i + maxNew > n then n else i + maxNew) = j" by (auto simp: i_def j_def min_def)
  ultimately show ?thesis
    using assms(1) unfolding ScanChannelsFromCursor_def Let_def snapshot_def i_def [symmetric] j_def [symmetric]
    by (cases cursor) (auto simp: i_def split: Option.bind_splits)
qed

text \<open>A wallet that polls the channel registry as it grows: per poll the two reads of the registry, the count and \<^verbatim>\<open>maxNew\<close>.\<close>

type_synonym channel_poll = "channel_registry \<times> channel_registry \<times> 64 word"

fun poll_channels ::
  "crypto \<Rightarrow> byte list \<Rightarrow> ScanCursor \<Rightarrow> channel_poll list \<Rightarrow> ((channel_error + FoundChannel list) \<times> ScanCursor) option" where
  "poll_channels cr dk cursor [] = Some (Inr [], cursor)"
| "poll_channels cr dk cursor ((reg, reg', maxNew) # ps) = do {
     (r, next) \<leftarrow> ScanChannelsFromCursor cr reg reg' dk cursor maxNew;
     case r of
       Inl err \<Rightarrow> Some (Inl err, next)
     | Inr xs \<Rightarrow> do {
         (r', next') \<leftarrow> poll_channels cr dk next ps;
         Some (case r' of Inl err \<Rightarrow> Inl err | Inr ys \<Rightarrow> Inr (xs @ ys), next') } }"

text \<open>The registry only grows, from a count of at least \<open>k\<close>, and no index sum of the polls wraps.\<close>

fun growing :: "channel_registry \<Rightarrow> 64 word \<Rightarrow> channel_poll list \<Rightarrow> bool" where
  "growing final k [] \<longleftrightarrow> True"
| "growing final k ((reg, reg', maxNew) # ps) \<longleftrightarrow>
     (case (getChannelCount reg, getChannelCount reg') of
       (Some n, Some n') \<Rightarrow> snapshot final reg n \<and> snapshot final reg' n' \<and> k \<le> n \<and> n \<le> n' \<and> no_wrap n maxNew
         \<and> growing final n' ps
     | _ \<Rightarrow> False)"

definition poll_target :: "channel_poll \<Rightarrow> 64 word \<Rightarrow> 64 word" where
  "poll_target p i = (case p of (reg, _, maxNew) \<Rightarrow>
     (case getChannelCount reg of None \<Rightarrow> i | Some n \<Rightarrow> min n (i + maxNew)))"

lemma no_wrap_mono: "no_wrap n m \<Longrightarrow> i \<le> n \<Longrightarrow> no_wrap i m"
  by (simp add: no_wrap_def word_le_nat_alt)

lemma poll_channels_collect:
  assumes "growing final k ps" and "LastChannelIdx cursor \<le> k"
  shows "LastChannelIdx cursor \<le> fold poll_target ps (LastChannelIdx cursor) \<and>
    poll_channels cr dk cursor ps =
      map_option (\<lambda>found. (Inr found, cursor\<lparr>LastChannelIdx := fold poll_target ps (LastChannelIdx cursor)\<rparr>))
        (channel_collect cr final dk (LastChannelIdx cursor) (fold poll_target ps (LastChannelIdx cursor)))"
  using assms
proof (induction ps arbitrary: k cursor)
  case Nil
  show ?case by (cases cursor) (simp add: channel_scan.collect_empty)
next
  case (Cons p ps)
  obtain reg reg' maxNew where p: "p = (reg, reg', maxNew)" by (cases p)
  then obtain n n' where n: "getChannelCount reg = Some n" "snapshot final reg n" "snapshot final reg' n'" "k \<le> n"
      "n \<le> n'" "no_wrap n maxNew" "growing final n' ps"
    using Cons.prems(1) by (auto split: option.splits)
  define i j where "i = LastChannelIdx cursor" and "j = min n (LastChannelIdx cursor + maxNew)"
  have i: "LastChannelIdx cursor \<le> n" using Cons.prems(2) n(4) by simp
  have w: "no_wrap (LastChannelIdx cursor) maxNew" using no_wrap_mono [OF n(6) i] .
  have ij: "i \<le> j" using no_wrap_le [OF w] i by (simp add: i_def j_def)
  have t: "poll_target p i = j" using n(1) p by (simp add: poll_target_def i_def j_def)
  have "j \<le> n'" using n(5) by (auto simp: min_le_iff_disj j_def)
  with Cons.IH [OF n(7), of "cursor\<lparr>LastChannelIdx := j\<rparr>"]
  have ih: "j \<le> fold poll_target ps j" "poll_channels cr dk (cursor\<lparr>LastChannelIdx := j\<rparr>) ps =
      map_option (\<lambda>found. (Inr found, cursor\<lparr>LastChannelIdx := fold poll_target ps j\<rparr>))
        (channel_collect cr final dk j (fold poll_target ps j))" by simp_all
  have "ScanChannelsFromCursor cr reg reg' dk cursor maxNew =
      map_option (\<lambda>found. (Inr found, cursor\<lparr>LastChannelIdx := j\<rparr>)) (channel_collect cr final dk i j)"
    using ScanChannelsFromCursor_collect [OF n(2,3,5) i w] by (simp add: i_def j_def)
  with channel_scan.collect_split [OF ij ih(1), of cr final dk] ih show ?case
    unfolding i_def [symmetric] using ij p t by (auto split: Option.bind_splits)
qed

subsection \<open>Properties\<close>

text \<open>Stand-ins with the assumed laws, for the witnesses.\<close>

definition toy_hash :: iden3_hash where
  "toy_hash xs = Some (sum_list xs mod SNARK_SCALAR_FIELD)"

definition toy_node :: "(64 word \<Rightarrow> event_log list) \<Rightarrow> int \<Rightarrow> int \<Rightarrow> event_log list option" where
  "toy_node blocks lo hi = Some (concat (map (\<lambda>b. blocks (word_of_nat b)) [nat lo..<Suc (nat hi)]))"

definition toy_blocks :: "64 word \<Rightarrow> event_log list" where
  "toy_blocks b = (if b = 3 then [\<lparr>Topics = [[], [], be_bytes 32 15, [4]], Data = [1], LogBlock = 3\<rparr>] else [])"

lemma toy_laws: "iden3_total toy_hash" "logs_by_block (toy_node blocks) blocks"
  by (simp_all add: iden3_total_def toy_hash_def logs_by_block_def toy_node_def del: upt_Suc)

lemma tag_window_scan:
  assumes "iden3_total H" and "aead_correct cr" and "length nonce = 12"
    and "PrepareTagWithWindow H cr (Some nonce) (Some cur) windowSize (PkSpend ch) (Channel_SharedSecret ch)
       (DeriveChannelKey cr (Channel_SharedSecret ch)) payload = Some (Inr (startBlock, tags, ctxt))"
    and "i < length tags" and "getEntries (startBlock + word_of_nat i) = Some entries"
    and "\<lparr>Publisher = who, Tag = tags ! i, Ctxt = ctxt\<rparr> \<in> set entries" and "ch \<in> set channels"
    and "\<forall>c\<in>set channels. 0 \<le> PkSpend c \<and> PkSpend c < SNARK_SCALAR_FIELD"
  shows "startBlock = cur + 1 \<and> length tags = nat windowSize \<and>
    (\<exists>found. ScanBlock H getEntries (startBlock + word_of_nat i) channels = Some (Inr found) \<and>
      \<lparr>BlockNumber = startBlock + word_of_nat i, Entry = \<lparr>Publisher = who, Tag = tags ! i, Ctxt = ctxt\<rparr>,
        Scanned_SharedSecret = Channel_SharedSecret ch\<rparr> \<in> set found) \<and>
    DecryptPayload cr (DeriveChannelKey cr (Channel_SharedSecret ch)) ctxt = Inr payload"
proof -
  let ?b = "startBlock + word_of_nat i" and ?k = "DeriveChannelKey cr (Channel_SharedSecret ch)"
  have pre: "startBlock = cur + 1" "0 \<le> windowSize"
      "tag_window_loop H startBlock (PkSpend ch) (Channel_SharedSecret ch) [0..<nat windowSize] = Some (Inr tags)"
      "EncryptPayload cr (Some nonce) ?k payload = Inr ctxt"
    using assms(4) by (auto simp: PrepareTagWithWindow_def DeriveTagWindow_def Let_def
        split: Option.bind_split_asm sum.split_asm if_split_asm)
  note tags = tag_window_loop_nth [OF pre(3)]
  then have "DeriveTag H ?b (PkSpend ch) (Channel_SharedSecret ch) = Some (Inr (tags ! i))" using assms(5) by auto
  moreover obtain found where "match_loop H ?b entries channels [] = Some (Inr found)"
      "set found = {\<lparr>BlockNumber = ?b, Entry = e, Scanned_SharedSecret = Channel_SharedSecret c\<rparr> | e c.
         e \<in> set entries \<and> c \<in> set channels \<and> DeriveTag H ?b (PkSpend c) (Channel_SharedSecret c) = Some (Inr (Tag e))}"
    using match_loop_set [OF assms(1,9), of ?b entries "[]"] by auto
  moreover have "length entries \<noteq> 0" using assms(7) by auto
  ultimately have "ScanBlock H getEntries ?b channels = Some (Inr found)"
      "\<lparr>BlockNumber = ?b, Entry = \<lparr>Publisher = who, Tag = tags ! i, Ctxt = ctxt\<rparr>,
        Scanned_SharedSecret = Channel_SharedSecret ch\<rparr> \<in> set found"
    using assms(6-8) by (auto simp: ScanBlock_def intro!: exI [of _ ch])
  then show ?thesis using pre(1,2) tags DecryptPayload_EncryptPayload [OF assms(2,3) pre(4)] by auto
qed

text \<open>
  Tags reach their recipient whatever block of the window the transaction lands in. When the entry
  published in block \<open>startBlock + i\<close> carries the \<open>i\<close>-th tag and the ciphertext that
  \<^verbatim>\<open>PrepareTagWithWindow\<close> returned, the scan of that block by a recipient who has the channel (and whose
  channels all have a spend key in the field) returns the entry, and decrypting it with the channel key
  gives the payload.
\<close>

theorem tag_window_delivered:
  assumes "iden3_total H" and "aead_correct cr" and "length nonce = 12"
    and "PrepareTagWithWindow H cr (Some nonce) (Some cur) windowSize (PkSpend ch) (Channel_SharedSecret ch)
       (DeriveChannelKey cr (Channel_SharedSecret ch)) payload = Some (Inr (startBlock, tags, ctxt))"
    and "i < length tags" and "getEntries (startBlock + word_of_nat i) = Some entries"
    and "\<lparr>Publisher = who, Tag = tags ! i, Ctxt = ctxt\<rparr> \<in> set entries" and "ch \<in> set channels"
    and "\<forall>c\<in>set channels. 0 \<le> PkSpend c \<and> PkSpend c < SNARK_SCALAR_FIELD"
  shows "startBlock = cur + 1 \<and> length tags = nat windowSize \<and>
    (\<exists>found. ScanBlock H getEntries (startBlock + word_of_nat i) channels = Some (Inr found) \<and>
      \<lparr>BlockNumber = startBlock + word_of_nat i, Entry = \<lparr>Publisher = who, Tag = tags ! i, Ctxt = ctxt\<rparr>,
        Scanned_SharedSecret = Channel_SharedSecret ch\<rparr> \<in> set found) \<and>
    DecryptPayload cr (DeriveChannelKey cr (Channel_SharedSecret ch)) ctxt = Inr payload"
  using assms by (rule tag_window_scan)

theorem tag_window_delivered_witness:
  "\<exists>tags ctxt. PrepareTagWithWindow toy_hash toy_crypto (Some (replicate 12 0)) (Some 9) 2 5 [7]
       (DeriveChannelKey toy_crypto [7]) [1, 2] = Some (Inr (10, tags, ctxt)) \<and>
     (\<exists>found. ScanBlock toy_hash (\<lambda>b. if b = 11 then Some [\<lparr>Publisher = 3, Tag = tags ! 1, Ctxt = ctxt\<rparr>] else Some [])
         11 [\<lparr>Channel_SharedSecret = [7], PkSpend = 5\<rparr>] = Some (Inr found) \<and>
       \<lparr>BlockNumber = 11, Entry = \<lparr>Publisher = 3, Tag = tags ! 1, Ctxt = ctxt\<rparr>, Scanned_SharedSecret = [7]\<rparr> \<in> set found) \<and>
     DecryptPayload toy_crypto (DeriveChannelKey toy_crypto [7]) ctxt = Inr [1, 2]"
proof -
  let ?ch = "\<lparr>Channel_SharedSecret = [7], PkSpend = 5\<rparr>"
  have pk: "(5 :: int) < SNARK_SCALAR_FIELD" by (simp add: SNARK_SCALAR_FIELD_def)
  obtain tags where "tag_window_loop toy_hash 10 5 [7] [0..<2] = Some (Inr tags)"
    using tag_window_loop_total [OF toy_laws(1) _ pk] by fastforce
  moreover obtain ctxt where "EncryptPayload toy_crypto (Some (replicate 12 0)) (DeriveChannelKey toy_crypto [7]) [1, 2] = Inr ctxt"
    by (simp add: EncryptPayload_def)
  ultimately have p: "PrepareTagWithWindow toy_hash toy_crypto (Some (replicate 12 0)) (Some 9) 2 (PkSpend ?ch)
      (Channel_SharedSecret ?ch) (DeriveChannelKey toy_crypto (Channel_SharedSecret ?ch)) [1, 2] = Some (Inr (10, tags, ctxt))"
    and "length tags = 2"
    using tag_window_loop_nth [of toy_hash 10 5 "[7]" "[0..<2]" tags]
    by (simp_all add: PrepareTagWithWindow_def DeriveTagWindow_def)
  then show ?thesis
    using tag_window_delivered [OF toy_laws(1) toy_crypto_laws(2) _ p, of 1
        "\<lambda>b. if b = 11 then Some [\<lparr>Publisher = 3, Tag = tags ! 1, Ctxt = ctxt\<rparr>] else Some []"
        "[\<lparr>Publisher = 3, Tag = tags ! 1, Ctxt = ctxt\<rparr>]" 3 "[?ch]"] pk
    by auto
qed

text \<open>
  A cursor scan is sound and complete. With a node that answers range queries from its blocks, the scan
  never panics, moves the cursor to the target block (never back), and returns exactly the events of the
  blocks after the cursor, up to and including the target, whose tag topic is the tag derived for the
  event's block from one of the channels.
\<close>

theorem tag_cursor_scan_exact:
  assumes "iden3_total H" and "logs_by_block filterLogs blocks"
  shows "\<exists>ms. ScanBlocksFromCursor H unpack filterLogs channels cursor toBlock =
      Some (Inr ms, cursor\<lparr>LastTagBlock := max (LastTagBlock cursor) toBlock\<rparr>) \<and>
    (\<forall>m. m \<in> set ms \<longleftrightarrow> (\<exists>b log ctxt ch. LastTagBlock cursor < b \<and> b \<le> toBlock \<and> log \<in> set (blocks b) \<and>
       4 \<le> length (Topics log) \<and> unpack (Data log) = Some ctxt \<and> ch \<in> set channels \<and>
       DeriveTag H (LogBlock log) (PkSpend ch) (Channel_SharedSecret ch) = Some (Inr (Topics log ! 2)) \<and>
       m = \<lparr>BlockNumber = LogBlock log,
            Entry = \<lparr>Publisher = BytesToAddress (Topics log ! 3), Tag = Topics log ! 2, Ctxt = ctxt\<rparr>,
            Scanned_SharedSecret = Channel_SharedSecret ch\<rparr>))"
proof (cases "LastTagBlock cursor \<le> toBlock")
  case True
  let ?logs = "concat (map (\<lambda>b. blocks (word_of_nat b)) [Suc (unat (LastTagBlock cursor))..<Suc (unat toBlock)])"
  obtain rs where rs: "mapM (match_log H unpack channels) ?logs = Some rs"
    using mapM_total match_log_total [OF assms(1)] by metis
  have logs: "log \<in> set ?logs \<longleftrightarrow> (\<exists>b. LastTagBlock cursor < b \<and> b \<le> toBlock \<and> log \<in> set (blocks b))" for log
    using word_of_nat_range [of "LastTagBlock cursor" toBlock]
    by (simp only: set_concat set_map set_upt image_image [symmetric]) auto
  show ?thesis
  proof (intro exI [of _ "concat rs"] conjI allI)
    show "ScanBlocksFromCursor H unpack filterLogs channels cursor toBlock =
        Some (Inr (concat rs), cursor\<lparr>LastTagBlock := max (LastTagBlock cursor) toBlock\<rparr>)"
      using ScanBlocksFromCursor_collect [OF assms(2) True] True rs
      by (simp add: tag_collect_def max.absorb2 del: upt_Suc)
  qed (unfold mapM_concat_set [OF rs] match_log_iff [OF assms(1)] Bex_def logs, blast)
next
  case False
  then show ?thesis using ScanBlocksFromCursor_stale [of toBlock cursor] by (auto simp: max_def)
qed

theorem tag_cursor_scan_exact_witness:
  "\<exists>ms. ScanBlocksFromCursor toy_hash Some (toy_node toy_blocks) [\<lparr>Channel_SharedSecret = [7], PkSpend = 5\<rparr>]
       NewScanCursor 4 = Some (Inr ms, \<lparr>LastTagBlock = 4, LastChannelIdx = 0\<rparr>) \<and>
     \<lparr>BlockNumber = 3, Entry = \<lparr>Publisher = 4, Tag = be_bytes 32 15, Ctxt = [1]\<rparr>, Scanned_SharedSecret = [7]\<rparr> \<in> set ms"
proof -
  let ?ch = "\<lparr>Channel_SharedSecret = [7], PkSpend = 5\<rparr>"
  let ?log = "\<lparr>Topics = [[], [], be_bytes 32 15, [4]], Data = [1], LogBlock = 3\<rparr>"
  have d: "DeriveTag toy_hash 3 5 [7] = Some (Inr (be_bytes 32 15))"
    by (simp add: DeriveTag_def toy_hash_def SetBytes_def FillBytes_def SNARK_SCALAR_FIELD_def)
  have log: "?log \<in> set (toy_blocks 3)" by (simp add: toy_blocks_def)
  obtain ms where ms: "ScanBlocksFromCursor toy_hash Some (toy_node toy_blocks) [?ch] NewScanCursor 4 =
      Some (Inr ms, NewScanCursor\<lparr>LastTagBlock := max (LastTagBlock NewScanCursor) 4\<rparr>)"
    and iff: "\<forall>m. m \<in> set ms \<longleftrightarrow> (\<exists>b log ctxt ch. LastTagBlock NewScanCursor < b \<and> b \<le> 4 \<and> log \<in> set (toy_blocks b) \<and>
       4 \<le> length (Topics log) \<and> Some (Data log) = Some ctxt \<and> ch \<in> set [?ch] \<and>
       DeriveTag toy_hash (LogBlock log) (PkSpend ch) (Channel_SharedSecret ch) = Some (Inr (Topics log ! 2)) \<and>
       m = \<lparr>BlockNumber = LogBlock log,
            Entry = \<lparr>Publisher = BytesToAddress (Topics log ! 3), Tag = Topics log ! 2, Ctxt = ctxt\<rparr>,
            Scanned_SharedSecret = Channel_SharedSecret ch\<rparr>)"
    using tag_cursor_scan_exact [OF toy_laws(1) toy_laws(2) [of toy_blocks], where unpack = Some and channels = "[?ch]" and cursor = NewScanCursor and toBlock = 4]
    by blast
  have "\<lparr>BlockNumber = 3, Entry = \<lparr>Publisher = 4, Tag = be_bytes 32 15, Ctxt = [1]\<rparr>, Scanned_SharedSecret = [7]\<rparr> \<in> set ms"
    by (rule iffD2 [OF spec [OF iff]], rule exI [of _ 3], rule exI [of _ ?log], rule exI [of _ "[1]"], rule exI [of _ ?ch])
      (use d log in \<open>simp add: NewScanCursor_def BytesToAddress_def SetBytes_def\<close>)
  with ms show ?thesis by (auto simp: NewScanCursor_def)
qed

text \<open>
  C34. Polling loses nothing and repeats nothing. However a wallet spreads its polls over the chain tips it
  sees (tips may repeat or go back), the matches it collects are, in order, those of a single scan from its
  first cursor to the highest tip, and it ends with the same cursor.
\<close>

theorem tag_polls_equal_one_scan:
  assumes "logs_by_block filterLogs blocks"
  shows "poll_tags H unpack filterLogs channels cursor tips =
    ScanBlocksFromCursor H unpack filterLogs channels cursor (fold max tips (LastTagBlock cursor))"
proof -
  have "LastTagBlock cursor \<le> fold max tips (LastTagBlock cursor)"
    by (induction tips rule: rev_induct) (auto simp: max_def)
  then show ?thesis using poll_tags_collect [OF assms] ScanBlocksFromCursor_collect [OF assms] by metis
qed

theorem tag_polls_equal_one_scan_witness:
  "poll_tags toy_hash Some (toy_node toy_blocks) [\<lparr>Channel_SharedSecret = [7], PkSpend = 5\<rparr>] NewScanCursor [2, 1, 4] =
   ScanBlocksFromCursor toy_hash Some (toy_node toy_blocks) [\<lparr>Channel_SharedSecret = [7], PkSpend = 5\<rparr>] NewScanCursor
     (fold max [2, 1, 4] (LastTagBlock NewScanCursor))"
  by (rule tag_polls_equal_one_scan [OF toy_laws(2)])

text \<open>
  Polling the channel registry while it grows is complete. If no poll's index sum wraps, the channels
  found over all polls are, in order, those of one pass over the final registry from the first cursor to
  the last one, which each poll moves to the smaller of the count it saw and \<^verbatim>\<open>maxNew\<close> further; the cursor
  never moves back.
\<close>

theorem channel_polls_equal_one_pass:
  assumes "growing final k ps" and "LastChannelIdx cursor \<le> k"
  shows "LastChannelIdx cursor \<le> fold poll_target ps (LastChannelIdx cursor) \<and>
    poll_channels cr dk cursor ps =
      map_option (\<lambda>found. (Inr (List.map_filter id found),
          cursor\<lparr>LastChannelIdx := fold poll_target ps (LastChannelIdx cursor)\<rparr>))
        (mapM (scan_channel cr final dk) (scan_range (LastChannelIdx cursor) (fold poll_target ps (LastChannelIdx cursor))))"
  using poll_channels_collect [OF assms, of cr dk] by (auto simp: channel_collect_def split: Option.bind_splits)

theorem channel_polls_equal_one_pass_witness:
  "poll_channels toy_crypto [] NewScanCursor [(toy_registry [1, 5] [], toy_registry [1, 5] [], 9)] =
     map_option (\<lambda>found. (Inr (List.map_filter id found), \<lparr>LastTagBlock = 0, LastChannelIdx = 1\<rparr>))
       (mapM (scan_channel toy_crypto (toy_registry [1, 5] []) []) (scan_range 0 1))"
proof -
  have "growing (toy_registry [1, 5] []) 0 [(toy_registry [1, 5] [], toy_registry [1, 5] [], 9)]"
    by (simp add: toy_registry_def snapshot_def no_wrap_def)
  from channel_polls_equal_one_pass [OF this, of NewScanCursor toy_crypto "[]"] show ?thesis
    by (simp add: NewScanCursor_def poll_target_def toy_registry_def)
qed

text \<open>
  A \<^verbatim>\<open>maxNew\<close> so large that the index sum wraps makes the channel scan go backwards: nothing is scanned,
  no error is returned, and the cursor moves to the wrapped sum, before where it was.
\<close>

theorem channel_cursor_wraps_back:
  assumes "abi_ok reg" and "getChannelCount reg = Some n" and "LastChannelIdx cursor \<le> n"
    and "2 ^ 64 \<le> unat (LastChannelIdx cursor) + unat maxNew"
  shows "ScanChannelsFromCursor cr reg reg dk cursor maxNew =
      Some (Inr [], cursor\<lparr>LastChannelIdx := LastChannelIdx cursor + maxNew\<rparr>)
    \<and> LastChannelIdx cursor + maxNew < LastChannelIdx cursor"
proof -
  define i where "i = LastChannelIdx cursor"
  have lt: "i + maxNew < i"
  proof -
    have "unat maxNew < 2 ^ 64" "unat i < 2 ^ 64"
      using unsigned_less [of maxNew, where ?'a = nat] unsigned_less [of i, where ?'a = nat] by simp_all
    then have "unat (i + maxNew) = unat i + unat maxNew - 2 ^ 64"
      using assms(4) by (simp add: i_def unat_word_ariths mod_if)
    then show ?thesis using \<open>unat maxNew < 2 ^ 64\<close> assms(4) by (simp add: i_def word_less_nat_alt)
  qed
  moreover have "i + maxNew < n" using lt assms(3) by (simp add: i_def)
  moreover have "scan_range i (i + maxNew) = []" using lt by (simp add: scan_range_def word_less_nat_alt)
  ultimately show ?thesis
    using assms(1,2) by (cases cursor) (auto simp: ScanChannelsFromCursor_def ScanChannels_def i_def map_filter_def)
qed

theorem channel_cursor_wraps_back_witness:
  "ScanChannelsFromCursor toy_crypto (toy_registry [1, 5] []) (toy_registry [1, 5] []) []
     \<lparr>LastTagBlock = 0, LastChannelIdx = 1\<rparr> (- 1) = Some (Inr [], \<lparr>LastTagBlock = 0, LastChannelIdx = 0\<rparr>)"
  using channel_cursor_wraps_back [of "toy_registry [1, 5] []" 1 "\<lparr>LastTagBlock = 0, LastChannelIdx = 1\<rparr>" "- 1"
      toy_crypto "[]"]
  by (simp add: toy_registry_def unsigned_minus_1_eq_mask mask_eq_exp_minus_1)

end
