(* ===== verification/Agreement.thy ===== *)
theory Agreement
  imports Go_Text
begin

section \<open>Pairwise key agreement between banks\<close>

text \<open>
  \<^verbatim>\<open>enygma_payments/go_client/agreement/manager.go\<close> and \<^verbatim>\<open>initializeSecrets\<close> of
  \<^verbatim>\<open>go_client/transaction/main.go\<close>: a bank's ML-KEM view key, the leader's and the follower's half of the
  agreement on a pairwise secret, its cache in memory and on disk. The state of an operation is the
  manager and the store directory, both returned, also on an error. ML-KEM-768, SHA-256 and the random
  source are arguments; file names are relative to the store directory. One goroutine at a time runs an
  operation, so the mutex around the cache does not appear.
\<close>

subsection \<open>Types\<close>

record manager =
  bankID :: int
  dk :: "byte list"
  cache :: "string \<Rightarrow> int option"

datatype agreement_error = Mkdir_failed | Bad_seed | Read_seed_failed | Keygen_failed | Save_seed_failed
  | Save_ek_failed | No_published_key | Read_ek_failed | Cannot_lead | Encapsulate_failed
  | Persist_ct_failed | Persist_id_failed | Cannot_accept | Read_ct_failed | Decapsulate_failed
  | Read_id_failed | Parse_id_failed | Id_mismatch

text \<open>
  The primitives: SHA-256, ML-KEM-768 encapsulation (key, random coins) and decapsulation, a decapsulation
  key from a seed, the seed of a key, and the public half of a key.
\<close>

record kem_api =
  Sum256 :: "byte list \<Rightarrow> byte list"
  Encapsulate768 :: "byte list \<Rightarrow> byte list \<Rightarrow> (byte list \<times> byte list) option"
  Decapsulate768 :: "byte list \<Rightarrow> byte list \<Rightarrow> byte list option"
  NewKeyFromSeed :: "byte list \<Rightarrow> byte list option"
  KeyBytes :: "byte list \<Rightarrow> byte list"
  PublicHalf :: "byte list \<Rightarrow> byte list"

definition curveP :: int where
  "curveP = 2736030358979909402780800718157159386076813972158567259200215660948447373041"

subsection \<open>Helpers\<close>

definition pairKey :: "int \<Rightarrow> int \<Rightarrow> string" where
  "pairKey a b = (if a < b then bigInt_String a @ ''_'' @ bigInt_String b
                  else bigInt_String b @ ''_'' @ bigInt_String a)"

definition toFieldElement :: "kem_api \<Rightarrow> byte list \<Rightarrow> int" where
  "toFieldElement api rawSS = SetBytes (Sum256 api (ascii ''enygma-view-key-v1:'' @ rawSS)) mod curveP"

definition confirmationID :: "kem_api \<Rightarrow> byte list \<Rightarrow> byte list" where
  "confirmationID api rawSS = Sum256 api (ascii ''enygma-view-key-confirm-v1:'' @ rawSS)"

definition ctPath :: "int \<Rightarrow> int \<Rightarrow> string" where
  "ctPath leaderID followerID = ''ct_'' @ bigInt_String leaderID @ ''_to_'' @ bigInt_String followerID @ ''.bin''"

definition confirmationIDPath :: "int \<Rightarrow> int \<Rightarrow> string" where
  "confirmationIDPath leaderID followerID =
     ''id_'' @ bigInt_String leaderID @ ''_to_'' @ bigInt_String followerID @ ''.txt''"

definition ssPath :: "string \<Rightarrow> string" where
  "ssPath key = ''ss_'' @ key @ ''.txt''"

definition seedPath :: "int \<Rightarrow> string" where
  "seedPath i = ''bank_'' @ bigInt_String i @ ''_dk.seed''"

definition ekPath :: "int \<Rightarrow> string" where
  "ekPath i = ''bank_'' @ bigInt_String i @ ''_ek.bin''"

definition loadCached :: "string \<Rightarrow> manager \<Rightarrow> disk \<Rightarrow> int option \<times> manager" where
  "loadCached key m d = (case cache m key of
       Some ss \<Rightarrow> (Some ss, m)
     | None \<Rightarrow> (case ReadFile d (ssPath key) of
         Content bs \<Rightarrow> (case bigInt_SetString (TrimSpace (chars bs)) of
             None \<Rightarrow> (None, m)
           | Some n \<Rightarrow> (Some n, m\<lparr>cache := (cache m)(key := Some n)\<rparr>))
       | _ \<Rightarrow> (None, m)))"

text \<open>The result of writing the file is ignored.\<close>

definition persistSecret :: "string \<Rightarrow> int \<Rightarrow> manager \<Rightarrow> disk \<Rightarrow> manager \<times> disk" where
  "persistSecret key ss m d =
     (m\<lparr>cache := (cache m)(key := Some ss)\<rparr>, snd (WriteFile d (ssPath key) (ascii (bigInt_String ss))))"

subsection \<open>Loading an identity\<close>

text \<open>\<open>generated\<close> is what \<^verbatim>\<open>mlkem768.GenerateKey\<close> returns.\<close>

definition loadOrCreate ::
  "kem_api \<Rightarrow> byte list option \<Rightarrow> manager \<Rightarrow> disk \<Rightarrow> (agreement_error + manager) \<times> disk" where
  "loadOrCreate api generated m d = (case ReadFile d (seedPath (bankID m)) of
       Content seed \<Rightarrow> (case NewKeyFromSeed api seed of
           None \<Rightarrow> (Inl Bad_seed, d)
         | Some k \<Rightarrow> (Inr (m\<lparr>dk := k\<rparr>), d))
     | ReadError \<Rightarrow> (Inl Read_seed_failed, d)
     | NotExist \<Rightarrow> (case generated of
           None \<Rightarrow> (Inl Keygen_failed, d)
         | Some k \<Rightarrow>
             (let (ok, d1) = WriteFile d (seedPath (bankID m)) (KeyBytes api k)
              in if \<not> ok then (Inl Save_seed_failed, d1)
                 else let (ok2, d2) = WriteFile d1 (ekPath (bankID m)) (PublicHalf api k)
                 in if \<not> ok2 then (Inl Save_ek_failed, d2)
                    else (Inr (m\<lparr>dk := k\<rparr>), d2))))"

definition New :: "kem_api \<Rightarrow> byte list option \<Rightarrow> bool \<Rightarrow> int \<Rightarrow> disk \<Rightarrow> (agreement_error + manager) \<times> disk" where
  "New api generated mkdir_ok i d = (
     let m = \<lparr>bankID = i, dk = [], cache = Map.empty\<rparr> in
     if \<not> mkdir_ok then (Inl Mkdir_failed, d)
     else loadOrCreate api generated m d)"

definition EncapsulationKey :: "kem_api \<Rightarrow> manager \<Rightarrow> byte list" where
  "EncapsulationKey api m = PublicHalf api (dk m)"

definition LoadPeerEncapsulationKey :: "int \<Rightarrow> disk \<Rightarrow> agreement_error + byte list" where
  "LoadPeerEncapsulationKey peerID d = (case ReadFile d (ekPath peerID) of
       Content ek \<Rightarrow> Inr ek
     | NotExist \<Rightarrow> Inl No_published_key
     | ReadError \<Rightarrow> Inl Read_ek_failed)"

subsection \<open>The leader and the follower\<close>

definition GetOrEstablish ::
  "kem_api \<Rightarrow> byte list \<Rightarrow> int \<Rightarrow> byte list \<Rightarrow> manager \<Rightarrow> disk \<Rightarrow> (agreement_error + int) \<times> manager \<times> disk" where
  "GetOrEstablish api coins peerID peerEK m d = (
     if \<not> bankID m < peerID then (Inl Cannot_lead, m, d)
     else let key = pairKey (bankID m) peerID; (cached, m1) = loadCached key m d in
       case cached of
         Some ss \<Rightarrow> (Inr ss, m1, d)
       | None \<Rightarrow> (case Encapsulate768 api peerEK coins of
           None \<Rightarrow> (Inl Encapsulate_failed, m1, d)
         | Some (ct, rawSS) \<Rightarrow>
             (let (ok, d1) = WriteFile d (ctPath (bankID m) peerID) ct in
              if \<not> ok then (Inl Persist_ct_failed, m1, d1)
              else let ss = toFieldElement api rawSS;
                       (ok2, d2) = WriteFile d1 (confirmationIDPath (bankID m) peerID)
                         (ascii (EncodeToString (confirmationID api rawSS))) in
                if \<not> ok2 then (Inl Persist_id_failed, m1, d2)
                else (Inr ss, persistSecret key ss m1 d2))))"

definition GetOrAccept :: "kem_api \<Rightarrow> int \<Rightarrow> manager \<Rightarrow> disk \<Rightarrow> (agreement_error + int) \<times> manager \<times> disk" where
  "GetOrAccept api leaderID m d = (
     if \<not> leaderID < bankID m then (Inl Cannot_accept, m, d)
     else let key = pairKey leaderID (bankID m); (cached, m1) = loadCached key m d in
       case cached of
         Some ss \<Rightarrow> (Inr ss, m1, d)
       | None \<Rightarrow> (case ReadFile d (ctPath leaderID (bankID m)) of
           Content ct \<Rightarrow> (case Decapsulate768 api (dk m) ct of
               None \<Rightarrow> (Inl Decapsulate_failed, m1, d)
             | Some rawSS \<Rightarrow> (case ReadFile d (confirmationIDPath leaderID (bankID m)) of
                 Content wantHex \<Rightarrow> (case DecodeString (TrimSpace (chars wantHex)) of
                     None \<Rightarrow> (Inl Parse_id_failed, m1, d)
                   | Some want \<Rightarrow>
                       (let got = confirmationID api rawSS in
                        if want \<noteq> got then (Inl Id_mismatch, m1, d)
                        else let ss = toFieldElement api rawSS in (Inr ss, persistSecret key ss m1 d)))
               | _ \<Rightarrow> (Inl Read_id_failed, m1, d)))
         | _ \<Rightarrow> (Inl Read_ct_failed, m1, d)))"

subsection \<open>The sender's secrets\<close>

text \<open>The loop over the banks; the sender's own slot stays nil, \<^term>\<open>None\<close>.\<close>

fun secrets_loop ::
  "kem_api \<Rightarrow> (int \<Rightarrow> byte list) \<Rightarrow> int list \<Rightarrow> manager \<Rightarrow> disk \<Rightarrow> (agreement_error + int option list) \<times> disk" where
  "secrets_loop api coins [] m d = (Inr [], d)"
| "secrets_loop api coins (i # is) m d = (
     if i = bankID m then
       (case secrets_loop api coins is m d of
          (Inl err, d') \<Rightarrow> (Inl err, d') | (Inr xs, d') \<Rightarrow> (Inr (None # xs), d'))
     else case (if bankID m < i
                then (case LoadPeerEncapsulationKey i d of
                        Inl err \<Rightarrow> (Inl err, m, d)
                      | Inr peerEK \<Rightarrow> GetOrEstablish api (coins i) i peerEK m d)
                else GetOrAccept api i m d) of
       (Inl err, _, d') \<Rightarrow> (Inl err, d')
     | (Inr ss, m', d') \<Rightarrow>
         (case secrets_loop api coins is m' d' of
            (Inl err, d'') \<Rightarrow> (Inl err, d'') | (Inr xs, d'') \<Rightarrow> (Inr (Some ss # xs), d'')))"

definition initializeSecrets ::
  "kem_api \<Rightarrow> byte list option \<Rightarrow> bool \<Rightarrow> (int \<Rightarrow> byte list) \<Rightarrow> int \<Rightarrow> nat \<Rightarrow> disk \<Rightarrow>
   (agreement_error + int option list) \<times> disk" where
  "initializeSecrets api generated mkdir_ok coins senderID nBanks d = (
     case New api generated mkdir_ok senderID d of
       (Inl err, d') \<Rightarrow> (Inl err, d')
     | (Inr sender, d') \<Rightarrow> secrets_loop api coins (map int [0..<nBanks]) sender d')"

subsection \<open>File names\<close>

lemma bigInt_String_inject [simp]: "bigInt_String a = bigInt_String b \<longleftrightarrow> a = b"
  by (metis SetString_String option.inject)

lemma path_distinct:
  "ctPath a b \<noteq> confirmationIDPath c e" "ctPath a b \<noteq> ssPath k" "confirmationIDPath a b \<noteq> ssPath k"
  "seedPath i \<noteq> ekPath j" "ctPath a b \<noteq> seedPath i" "ctPath a b \<noteq> ekPath i"
  "confirmationIDPath a b \<noteq> seedPath i" "confirmationIDPath a b \<noteq> ekPath i" "ssPath k \<noteq> seedPath i" "ssPath k \<noteq> ekPath i"
proof -
  have "last (seedPath i) \<noteq> last (ekPath j)" by (simp add: seedPath_def ekPath_def)
  then show "seedPath i \<noteq> ekPath j" by metis
qed (simp_all add: ctPath_def confirmationIDPath_def ssPath_def seedPath_def ekPath_def)

lemma path_inject: "seedPath i = seedPath j \<longleftrightarrow> i = j" "ekPath i = ekPath j \<longleftrightarrow> i = j"
  by (simp_all add: seedPath_def ekPath_def)

lemma pairKey_commute: "pairKey a b = pairKey b a"
  by (auto simp: pairKey_def)

subsection \<open>The effect of a fresh agreement\<close>

lemma loadCached_None: "loadCached key m d = (None, m1) \<Longrightarrow> m1 = m \<and> cache m key = None"
  by (auto simp: loadCached_def split: option.splits read_result.splits)

lemma loadCached_hit: "cache m key = Some ss \<Longrightarrow> loadCached key m d = (Some ss, m)"
  by (simp add: loadCached_def)

lemma loadCached_disk:
  assumes "cache m key = None" and "ReadFile d (ssPath key) = Content (ascii (bigInt_String ss))"
  shows "loadCached key m d = (Some ss, m\<lparr>cache := (cache m)(key := Some ss)\<rparr>)"
  using assms by (simp add: loadCached_def SetString_String)

text \<open>A leader without a cached secret that succeeds has written the three files and cached the secret.\<close>

lemma GetOrEstablish_fresh:
  assumes "GetOrEstablish api coins peer ek m d = (Inr ss, m', d')" and "fst (loadCached (pairKey (bankID m) peer) m d) = None"
  obtains ct raw where "bankID m < peer" "Encapsulate768 api ek coins = Some (ct, raw)" "ss = toFieldElement api raw"
    "m' = m\<lparr>cache := (cache m)(pairKey (bankID m) peer := Some ss)\<rparr>"
    "disk_files d' (ctPath (bankID m) peer) = Some ct"
    "disk_files d' (confirmationIDPath (bankID m) peer) = Some (ascii (EncodeToString (confirmationID api raw)))"
    "write_fault d (ssPath (pairKey (bankID m) peer)) = None \<longrightarrow>
       disk_files d' (ssPath (pairKey (bankID m) peer)) = Some (ascii (bigInt_String ss))"
    "unreadable d' = unreadable d"
proof -
  let ?key = "pairKey (bankID m) peer"
  have ld: "loadCached ?key m d = (None, m)" using assms(2) loadCached_None by (metis prod.collapse)
  have lt: "bankID m < peer" using assms(1) by (auto simp: GetOrEstablish_def split: if_splits)
  obtain ct raw where e: "Encapsulate768 api ek coins = Some (ct, raw)"
    using assms(1) ld lt by (auto simp: GetOrEstablish_def split: option.splits)
  obtain ok1 d1 where w1: "WriteFile d (ctPath (bankID m) peer) ct = (ok1, d1)" by force
  obtain ok2 d2 where w2: "WriteFile d1 (confirmationIDPath (bankID m) peer)
      (ascii (EncodeToString (confirmationID api raw))) = (ok2, d2)" by force
  have r: "ok1" "ok2" "ss = toFieldElement api raw" "(m', d') = persistSecret ?key ss m d2"
    using assms(1) ld lt e w1 w2 by (auto simp: GetOrEstablish_def Let_def split: if_splits)
  obtain ok3 where w3: "WriteFile d2 (ssPath ?key) (ascii (bigInt_String ss)) = (ok3, d')"
    and m': "m' = m\<lparr>cache := (cache m)(?key := Some ss)\<rparr>"
    using r(4) by (auto simp: persistSecret_def) (metis prod.collapse)
  note f = WriteFile_faults [OF w1] WriteFile_faults [OF w2] WriteFile_faults [OF w3]
  have "ok3" if "write_fault d (ssPath ?key) = None" using that w3 f by (auto simp: WriteFile_def)
  with f r(1,2) have "disk_files d' (ctPath (bankID m) peer) = Some ct"
      "disk_files d' (confirmationIDPath (bankID m) peer) = Some (ascii (EncodeToString (confirmationID api raw)))"
      "write_fault d (ssPath ?key) = None \<longrightarrow> disk_files d' (ssPath ?key) = Some (ascii (bigInt_String ss))"
      "unreadable d' = unreadable d"
    by (simp_all add: path_distinct)
  with that [OF lt e r(3) m'] show thesis by blast
qed

lemma GetOrAccept_fresh:
  assumes "leader < bankID m" and "fst (loadCached (pairKey leader (bankID m)) m d) = None"
    and "ReadFile d (ctPath leader (bankID m)) = Content ct" and "Decapsulate768 api (dk m) ct = Some raw"
    and "ReadFile d (confirmationIDPath leader (bankID m)) = Content (ascii (EncodeToString want))"
  shows "GetOrAccept api leader m d = (if want = confirmationID api raw
    then (Inr (toFieldElement api raw), persistSecret (pairKey leader (bankID m)) (toFieldElement api raw) m d)
    else (Inl Id_mismatch, m, d))"
proof -
  have "loadCached (pairKey leader (bankID m)) m d = (None, m)" using assms(2) loadCached_None by (metis prod.collapse)
  then show ?thesis using assms by (simp add: GetOrAccept_def DecodeString_Encode Let_def)
qed

lemma GetOrAccept_error_unchanged:
  assumes "GetOrAccept api leader m d = (Inl err, m', d')"
  shows "m' = m \<and> d' = d"
proof -
  obtain c m1 where c: "loadCached (pairKey leader (bankID m)) m d = (c, m1)" by force
  then show ?thesis using assms loadCached_None [of "pairKey leader (bankID m)" m d m1]
    by (auto simp: GetOrAccept_def Let_def split: if_splits option.splits read_result.splits)
qed

subsection \<open>Identity files\<close>

text \<open>The files that hold bank \<open>i\<close>'s identity are the same in both stores.\<close>

definition same_identity :: "int \<Rightarrow> disk \<Rightarrow> disk \<Rightarrow> bool" where
  "same_identity i d d' \<longleftrightarrow> disk_files d' (seedPath i) = disk_files d (seedPath i) \<and>
     disk_files d' (ekPath i) = disk_files d (ekPath i)"

lemma same_identity_refl [simp]: "same_identity i d d"
  by (simp add: same_identity_def)

lemma same_identity_trans: "same_identity i d d' \<Longrightarrow> same_identity i d' d'' \<Longrightarrow> same_identity i d d''"
  by (simp add: same_identity_def)

lemma same_identity_write: "name \<noteq> seedPath i \<Longrightarrow> name \<noteq> ekPath i \<Longrightarrow> same_identity i d (snd (WriteFile d name bs))"
  by (auto simp: same_identity_def WriteFile_def split: option.split)

lemmas same_identity_writes = same_identity_write [of "ctPath a b" for a b, OF path_distinct(5,6)]
  same_identity_write [of "confirmationIDPath a b" for a b, OF path_distinct(7,8)]
  same_identity_write [of "ssPath k" for k, OF path_distinct(9,10)]

lemma GetOrEstablish_identity:
  assumes "GetOrEstablish api coins peer ek m d = (r, m', d')"
  shows "same_identity i d d' \<and> bankID m' = bankID m"
proof -
  obtain c m1 where c: "loadCached (pairKey (bankID m) peer) m d = (c, m1)" by force
  have b: "bankID m1 = bankID m" using c by (auto simp: loadCached_def split: option.splits read_result.splits)
  have ct: "same_identity i d (snd (WriteFile d (ctPath (bankID m) peer) x))" for x by (rule same_identity_writes)
  have "same_identity i d (snd (WriteFile (snd (WriteFile d (ctPath (bankID m) peer) x)) (confirmationIDPath (bankID m) peer) y))"
    for x y by (rule same_identity_trans [OF ct]) (rule same_identity_writes)
  moreover from this have "same_identity i d (snd (WriteFile (snd (WriteFile (snd (WriteFile d (ctPath (bankID m) peer) x))
      (confirmationIDPath (bankID m) peer) y)) (ssPath k) z))" for x y k z
    by (rule same_identity_trans) (rule same_identity_writes)
  ultimately show ?thesis using assms c b ct
    by (auto simp: GetOrEstablish_def Let_def persistSecret_def case_prod_beta split: if_splits option.splits)
qed

lemma GetOrAccept_identity:
  assumes "GetOrAccept api leader m d = (r, m', d')"
  shows "same_identity i d d' \<and> bankID m' = bankID m"
proof -
  obtain c m1 where c: "loadCached (pairKey leader (bankID m)) m d = (c, m1)" by force
  have "bankID m1 = bankID m" using c by (auto simp: loadCached_def split: option.splits read_result.splits)
  then show ?thesis using assms c same_identity_writes(3) [of i]
    by (auto simp: GetOrAccept_def Let_def persistSecret_def split: if_splits option.splits read_result.splits)
qed

lemma New_identity:
  assumes "New api generated mkdir_ok j d = (r, d')" and "i \<noteq> j"
  shows "same_identity i d d'"
proof -
  have w: "same_identity i d (snd (WriteFile d (seedPath j) x))" "same_identity i d (snd (WriteFile d (ekPath j) x))" for x d
    using assms(2) by (auto intro!: same_identity_write simp: path_inject path_distinct path_distinct(4) [symmetric])
  have "same_identity i d (snd (WriteFile (snd (WriteFile d (seedPath j) x)) (ekPath j) y))" for x y
    by (rule same_identity_trans [OF w(1) w(2)])
  with assms(1) w show ?thesis
    by (auto simp: New_def loadOrCreate_def Let_def case_prod_beta split: if_splits option.splits read_result.splits)
qed

lemma New_bankID: "New api generated mkdir_ok j d = (Inr m, d') \<Longrightarrow> bankID m = j"
  by (auto simp: New_def loadOrCreate_def Let_def case_prod_beta split: if_splits option.splits read_result.splits)

lemma secrets_loop_identity:
  "secrets_loop api coins is m d = (r, d') \<Longrightarrow> same_identity i d d'"
proof (induction "is" arbitrary: m d r d')
  case (Cons j "is")
  show ?case
  proof (cases "j = bankID m")
    case True
    then show ?thesis using Cons.prems by (auto split: prod.splits sum.splits dest: Cons.IH)
  next
    case False
    let ?step = "if bankID m < j then (case LoadPeerEncapsulationKey j d of Inl err \<Rightarrow> (Inl err, m, d)
        | Inr peerEK \<Rightarrow> GetOrEstablish api (coins j) j peerEK m d) else GetOrAccept api j m d"
    obtain r1 m1 d1 where s: "?step = (r1, m1, d1)" by (cases ?step) auto
    then have "same_identity i d d1"
      using GetOrEstablish_identity GetOrAccept_identity by (auto split: if_splits sum.splits)
    moreover have "same_identity i d1 d'"
      using Cons.prems False s by (auto split: prod.splits sum.splits dest: Cons.IH)
    ultimately show ?thesis by (rule same_identity_trans)
  qed
qed simp

lemma secrets_loop_missing_key:
  "i \<in> set is \<Longrightarrow> bankID m < i \<Longrightarrow> disk_files d (ekPath i) = None \<Longrightarrow> \<exists>err. fst (secrets_loop api coins is m d) = Inl err"
proof (induction "is" arbitrary: m d)
  case (Cons j "is")
  show ?case
  proof (cases "j = i")
    case True
    with Cons.prems show ?thesis by (auto simp: LoadPeerEncapsulationKey_def ReadFile_def)
  next
    case False
    then have tail: "i \<in> set is" using Cons.prems(1) by simp
    show ?thesis
    proof (cases "j = bankID m")
      case True
      then show ?thesis using Cons.IH [OF tail Cons.prems(2,3)] by (auto split: prod.splits sum.splits)
    next
      case False
      let ?step = "if bankID m < j then (case LoadPeerEncapsulationKey j d of Inl err \<Rightarrow> (Inl err, m, d)
          | Inr peerEK \<Rightarrow> GetOrEstablish api (coins j) j peerEK m d) else GetOrAccept api j m d"
      obtain r1 m1 d1 where s: "?step = (r1, m1, d1)" by (cases ?step) auto
      then have "same_identity i d d1 \<and> bankID m1 = bankID m"
        using GetOrEstablish_identity GetOrAccept_identity by (auto split: if_splits sum.splits)
      then have "bankID m1 < i" "disk_files d1 (ekPath i) = None" using Cons.prems by (simp_all add: same_identity_def)
      with Cons.IH [OF tail, of m1 d1] show ?thesis using False s by (auto split: prod.splits sum.splits)
    qed
  qed
qed simp

subsection \<open>Properties\<close>

text \<open>What the agreement relies on: decapsulation with the matching key returns the encapsulated secret.\<close>

definition kem768_correct :: "kem_api \<Rightarrow> byte list \<Rightarrow> byte list \<Rightarrow> bool" where
  "kem768_correct api ek k \<longleftrightarrow>
     (\<forall>coins ct raw. Encapsulate768 api ek coins = Some (ct, raw) \<longrightarrow> Decapsulate768 api k ct = Some raw)"

definition toy_kem :: kem_api where
  "toy_kem = \<lparr>Sum256 = (\<lambda>xs. xs), Encapsulate768 = (\<lambda>ek coins. Some (coins, coins)), Decapsulate768 = (\<lambda>k ct. Some ct),
     NewKeyFromSeed = Some, KeyBytes = (\<lambda>k. k), PublicHalf = (\<lambda>k. k)\<rparr>"

definition toy_bank :: "int \<Rightarrow> manager" where
  "toy_bank i = \<lparr>bankID = i, dk = [], cache = Map.empty\<rparr>"

definition toy_disk :: "(string \<times> byte list) list \<Rightarrow> disk" where
  "toy_disk fs = \<lparr>disk_files = map_of fs, unreadable = (\<lambda>_. False), write_fault = (\<lambda>_. None)\<rparr>"

text \<open>
  C10. The two banks of a pair agree on one secret. If the lower bank establishes a fresh secret against the
  higher bank's published key, and the higher bank, which has no secret for the pair yet, finds the two
  files the leader wrote, then it accepts, returns the leader's secret (a reduced scalar), and both banks
  have it cached under the same key.
\<close>

theorem agreement_secrets_agree:
  assumes "GetOrEstablish api coins (bankID f) ek l d = (Inr ss, l', d')"
    and "fst (loadCached (pairKey (bankID l) (bankID f)) l d) = None" and "kem768_correct api ek (dk f)"
    and "\<forall>name\<in>{ctPath (bankID l) (bankID f), confirmationIDPath (bankID l) (bankID f)}.
       \<forall>bs. disk_files d' name = Some bs \<longrightarrow> ReadFile d2 name = Content bs"
    and "fst (loadCached (pairKey (bankID l) (bankID f)) f d2) = None"
  shows "\<exists>f' d2'. GetOrAccept api (bankID l) f d2 = (Inr ss, f', d2') \<and>
    cache f' (pairKey (bankID l) (bankID f)) = Some ss \<and> cache l' (pairKey (bankID l) (bankID f)) = Some ss \<and>
    0 \<le> ss \<and> ss < curveP"
proof -
  from assms(1,2) obtain ct raw where e: "bankID l < bankID f" "Encapsulate768 api ek coins = Some (ct, raw)"
      "ss = toFieldElement api raw" "l' = l\<lparr>cache := (cache l)(pairKey (bankID l) (bankID f) := Some ss)\<rparr>"
      "disk_files d' (ctPath (bankID l) (bankID f)) = Some ct"
      "disk_files d' (confirmationIDPath (bankID l) (bankID f)) = Some (ascii (EncodeToString (confirmationID api raw)))"
    by (rule GetOrEstablish_fresh) blast
  have "Decapsulate768 api (dk f) ct = Some raw" using assms(3) e(2) by (auto simp: kem768_correct_def)
  moreover have "ReadFile d2 (ctPath (bankID l) (bankID f)) = Content ct"
      "ReadFile d2 (confirmationIDPath (bankID l) (bankID f)) = Content (ascii (EncodeToString (confirmationID api raw)))"
    using assms(4) e(5,6) by auto
  ultimately have "GetOrAccept api (bankID l) f d2 = (Inr ss, persistSecret (pairKey (bankID l) (bankID f)) ss f d2)"
    using GetOrAccept_fresh [OF e(1) assms(5)] e(3) by simp
  moreover have "0 \<le> ss" "ss < curveP" using e(3) by (simp_all add: toFieldElement_def curveP_def)
  ultimately show ?thesis using e(4) by (auto simp: persistSecret_def)
qed

theorem agreement_secrets_agree_witness:
  "\<exists>ss l' d'. GetOrEstablish toy_kem [7] 2 [] (toy_bank 1) (toy_disk []) = (Inr ss, l', d') \<and>
     (\<exists>f' d2'. GetOrAccept toy_kem 1 (toy_bank 2) (d'\<lparr>disk_files := (disk_files d')(ssPath (pairKey 1 2) := None)\<rparr>)
        = (Inr ss, f', d2'))"
proof -
  obtain ss l' d' where e: "GetOrEstablish toy_kem [7] (bankID (toy_bank 2)) [] (toy_bank 1) (toy_disk []) = (Inr ss, l', d')"
    and u: "unreadable d' = (\<lambda>_. False)"
    by (simp add: GetOrEstablish_def loadCached_def toy_kem_def toy_bank_def toy_disk_def ReadFile_def WriteFile_def
        persistSecret_def Let_def)
  let ?d2 = "d'\<lparr>disk_files := (disk_files d')(ssPath (pairKey 1 2) := None)\<rparr>"
  have b: "bankID (toy_bank i) = i" for i by (simp add: toy_bank_def)
  have "\<exists>f' d2'. GetOrAccept toy_kem (bankID (toy_bank 1)) (toy_bank 2) ?d2 = (Inr ss, f', d2') \<and>
      cache f' (pairKey (bankID (toy_bank 1)) (bankID (toy_bank 2))) = Some ss \<and>
      cache l' (pairKey (bankID (toy_bank 1)) (bankID (toy_bank 2))) = Some ss \<and> 0 \<le> ss \<and> ss < curveP"
  proof (rule agreement_secrets_agree [OF e])
    show "fst (loadCached (pairKey (bankID (toy_bank 1)) (bankID (toy_bank 2))) (toy_bank 1) (toy_disk [])) = None"
      by (simp add: loadCached_def ReadFile_def toy_bank_def toy_disk_def)
    show "kem768_correct toy_kem [] (dk (toy_bank 2))" by (simp add: kem768_correct_def toy_kem_def)
    show "fst (loadCached (pairKey (bankID (toy_bank 1)) (bankID (toy_bank 2))) (toy_bank 2) ?d2) = None"
      by (simp add: loadCached_def ReadFile_def toy_bank_def)
  qed (auto simp: ReadFile_def u path_distinct)
  with e show ?thesis by (auto simp: b)
qed

text \<open>
  No secret is accepted unless it is the one the leader confirmed. Whatever ciphertext the follower
  finds, if the confirmation file is the leader's, then the follower either fails and leaves its cache and
  its store as they were, or returns exactly the leader's secret, unless the decapsulated secret and the
  leader's are an explicit collision of SHA-256 under the confirmation tag.
\<close>

theorem agreement_only_confirmed_secret:
  assumes "leader < bankID f" and "fst (loadCached (pairKey leader (bankID f)) f d) = None"
    and "ReadFile d (confirmationIDPath leader (bankID f)) = Content (ascii (EncodeToString (confirmationID api raw)))"
  shows "(\<exists>err. GetOrAccept api leader f d = (Inl err, f, d))
    \<or> (\<exists>f' d'. GetOrAccept api leader f d = (Inr (toFieldElement api raw), f', d'))
    \<or> (\<exists>ct raw'. ReadFile d (ctPath leader (bankID f)) = Content ct \<and> Decapsulate768 api (dk f) ct = Some raw' \<and>
         raw' \<noteq> raw \<and> Sum256 api (ascii ''enygma-view-key-confirm-v1:'' @ raw') =
           Sum256 api (ascii ''enygma-view-key-confirm-v1:'' @ raw))"
proof (cases "\<exists>err m' d'. GetOrAccept api leader f d = (Inl err, m', d')")
  case True
  then show ?thesis using GetOrAccept_error_unchanged by blast
next
  case False
  have ld: "loadCached (pairKey leader (bankID f)) f d = (None, f)" using assms(2) loadCached_None by (metis prod.collapse)
  obtain ct raw' where c: "ReadFile d (ctPath leader (bankID f)) = Content ct" "Decapsulate768 api (dk f) ct = Some raw'"
    using False assms(1) ld by (auto simp: GetOrAccept_def split: read_result.splits option.splits)
  have "confirmationID api raw = confirmationID api raw'"
    using GetOrAccept_fresh [OF assms(1,2) c assms(3)] False by (auto split: if_splits)
  then show ?thesis using GetOrAccept_fresh [OF assms(1,2) c assms(3)] c
    by (cases "raw' = raw") (auto simp: confirmationID_def persistSecret_def)
qed

theorem agreement_only_confirmed_secret_witness:
  "\<exists>err. GetOrAccept toy_kem 1 (toy_bank 2) (toy_disk [(ctPath 1 2, [9]),
       (confirmationIDPath 1 2, ascii (EncodeToString (confirmationID toy_kem [7])))])
     = (Inl err, toy_bank 2, toy_disk [(ctPath 1 2, [9]),
       (confirmationIDPath 1 2, ascii (EncodeToString (confirmationID toy_kem [7])))])" (is "\<exists>err. ?call = (Inl err, _, ?d)")
proof -
  have b: "bankID (toy_bank 2) = 2" by (simp add: toy_bank_def)
  have r: "ReadFile ?d (ctPath 1 2) = Content [9]"
      "ReadFile ?d (confirmationIDPath 1 2) = Content (ascii (EncodeToString (confirmationID toy_kem [7])))"
    using path_distinct(1) [of 1 2 1 2] by (simp_all add: ReadFile_def toy_disk_def)
  have n: "fst (loadCached (pairKey 1 2) (toy_bank 2) ?d) = None"
    by (simp add: loadCached_def ReadFile_def toy_bank_def toy_disk_def path_distinct path_distinct [symmetric])
  have "GetOrAccept toy_kem 1 (toy_bank 2) ?d \<noteq> (Inr x, f', d')" for x f' d'
    using GetOrAccept_fresh [of 1 "toy_bank 2" ?d "[9]" toy_kem "[9]"] b r n
    by (auto simp: toy_kem_def confirmationID_def)
  then show ?thesis using agreement_only_confirmed_secret [of 1 "toy_bank 2" ?d toy_kem "[7]"] b r n
    by (auto simp: toy_kem_def)
qed

text \<open>
  An agreed secret survives a restart. After the leader established a fresh secret and its file could be
  written and read, a new process of the same bank with an empty cache gets the same secret from the store,
  whatever peer key and randomness it is called with, and leaves the store alone.
\<close>

theorem agreement_restart_same_secret:
  assumes "GetOrEstablish api coins peer ek l d = (Inr ss, l', d')"
    and "fst (loadCached (pairKey (bankID l) peer) l d) = None"
    and "write_fault d (ssPath (pairKey (bankID l) peer)) = None" and "\<not> unreadable d (ssPath (pairKey (bankID l) peer))"
  shows "GetOrEstablish api coins' peer ek' \<lparr>bankID = bankID l, dk = k, cache = Map.empty\<rparr> d' =
    (Inr ss, \<lparr>bankID = bankID l, dk = k, cache = [pairKey (bankID l) peer \<mapsto> ss]\<rparr>, d')"
proof -
  have e: "bankID l < peer" "disk_files d' (ssPath (pairKey (bankID l) peer)) = Some (ascii (bigInt_String ss))"
      "unreadable d' = unreadable d"
    by (rule GetOrEstablish_fresh [OF assms(1,2)], use assms(3) in simp)+
  then have "ReadFile d' (ssPath (pairKey (bankID l) peer)) = Content (ascii (bigInt_String ss))"
    using assms(3,4) by (simp add: ReadFile_def)
  then show ?thesis using e(1) loadCached_disk [of "\<lparr>bankID = bankID l, dk = k, cache = Map.empty\<rparr>"]
    by (simp add: GetOrEstablish_def)
qed

theorem agreement_restart_same_secret_witness:
  "\<exists>ss l' d'. GetOrEstablish toy_kem [7] 2 [] (toy_bank 1) (toy_disk []) = (Inr ss, l', d') \<and>
     GetOrEstablish toy_kem [8] 2 [3] (toy_bank 1) d' =
       (Inr ss, \<lparr>bankID = 1, dk = [], cache = [pairKey 1 2 \<mapsto> ss]\<rparr>, d')"
proof -
  obtain ss l' d' where e: "GetOrEstablish toy_kem [7] 2 [] (toy_bank 1) (toy_disk []) = (Inr ss, l', d')"
    by (simp add: GetOrEstablish_def loadCached_def toy_kem_def toy_bank_def toy_disk_def ReadFile_def WriteFile_def
        persistSecret_def Let_def)
  have "GetOrEstablish toy_kem [8] 2 [3] \<lparr>bankID = bankID (toy_bank 1), dk = [], cache = Map.empty\<rparr> d' =
      (Inr ss, \<lparr>bankID = bankID (toy_bank 1), dk = [], cache = [pairKey (bankID (toy_bank 1)) 2 \<mapsto> ss]\<rparr>, d')"
    by (rule agreement_restart_same_secret [OF e]) (simp_all add: loadCached_def ReadFile_def toy_bank_def toy_disk_def)
  with e show ?thesis by (auto simp: toy_bank_def)
qed

text \<open>
  A secret file in a shared store is trusted without confirmation. If the store already has a secret for
  the pair, such as the one the leader itself wrote there, the follower returns it whatever the ciphertext
  and the confirmation file are, and even when they are absent: the confirmation check is not reached.
\<close>

theorem agreement_shared_store_skips_confirmation:
  assumes "leader < bankID f" and "cache f (pairKey leader (bankID f)) = None"
    and "ReadFile d (ssPath (pairKey leader (bankID f))) = Content (ascii (bigInt_String n))"
  shows "GetOrAccept api leader f d = (Inr n, f\<lparr>cache := (cache f)(pairKey leader (bankID f) := Some n)\<rparr>, d)"
  using assms loadCached_disk [OF assms(2,3)] by (simp add: GetOrAccept_def)

theorem agreement_shared_store_skips_confirmation_witness:
  "GetOrAccept toy_kem 1 (toy_bank 2) (toy_disk [(ssPath (pairKey 1 2), ascii (bigInt_String 42))]) =
     (Inr 42, (toy_bank 2)\<lparr>cache := [pairKey 1 2 \<mapsto> 42]\<rparr>, toy_disk [(ssPath (pairKey 1 2), ascii (bigInt_String 42))])"
proof -
  let ?d = "toy_disk [(ssPath (pairKey 1 2), ascii (bigInt_String 42))]"
  have "ReadFile ?d (ssPath (pairKey 1 (bankID (toy_bank 2)))) = Content (ascii (bigInt_String 42))"
    by (simp add: ReadFile_def toy_bank_def toy_disk_def)
  from agreement_shared_store_skips_confirmation [OF _ _ this, of toy_kem] show ?thesis by (simp add: toy_bank_def)
qed

text \<open>
  The sender never makes up a peer's identity. \<^verbatim>\<open>initializeSecrets\<close> leaves the seed and the key file of
  every other bank as they were, whatever it returns, and fails when a bank it has to encapsulate to has
  not published its key.
\<close>

theorem secrets_never_fabricate_peer_keys:
  assumes "initializeSecrets api generated mkdir_ok coins senderID nBanks d = (r, d')" and "i \<noteq> senderID"
  shows "disk_files d' (seedPath i) = disk_files d (seedPath i) \<and> disk_files d' (ekPath i) = disk_files d (ekPath i)
    \<and> (0 \<le> i \<and> senderID < i \<and> i < int nBanks \<and> disk_files d (ekPath i) = None \<longrightarrow> (\<exists>err. r = Inl err))"
proof -
  obtain rn d1 where n: "New api generated mkdir_ok senderID d = (rn, d1)" by force
  have id1: "same_identity i d d1" by (rule New_identity [OF n assms(2)])
  show ?thesis
  proof (cases rn)
    case (Inl err)
    then show ?thesis using assms(1) n id1 by (auto simp: initializeSecrets_def same_identity_def)
  next
    case (Inr m)
    then have l: "secrets_loop api coins (map int [0..<nBanks]) m d1 = (r, d')"
      using assms(1) n by (simp add: initializeSecrets_def)
    have "\<exists>err. r = Inl err" if "0 \<le> i" "senderID < i" "i < int nBanks" "disk_files d (ekPath i) = None"
    proof -
      have "i \<in> set (map int [0..<nBanks])" using that by (auto intro!: image_eqI [of _ _ "nat i"])
      moreover have "bankID m < i" using New_bankID n Inr that(2) by simp
      moreover have "disk_files d1 (ekPath i) = None" using id1 that(4) by (simp add: same_identity_def)
      ultimately show ?thesis using secrets_loop_missing_key l by (metis fst_conv)
    qed
    moreover have "same_identity i d d'" using same_identity_trans [OF id1 secrets_loop_identity [OF l]] .
    ultimately show ?thesis by (auto simp: same_identity_def)
  qed
qed

theorem secrets_never_fabricate_peer_keys_witness:
  "\<exists>err d'. initializeSecrets toy_kem (Some [1]) True (\<lambda>i. [7]) 0 3 (toy_disk [(ekPath 1, [4])]) = (Inl err, d') \<and>
     disk_files d' (ekPath 2) = None"
proof -
  let ?d = "toy_disk [(ekPath 1, [4])]"
  obtain r d' where i: "initializeSecrets toy_kem (Some [1]) True (\<lambda>i. [7]) 0 3 ?d = (r, d')" by force
  have "disk_files ?d (ekPath 2) = None" by (simp add: toy_disk_def path_inject)
  with secrets_never_fabricate_peer_keys [OF i, of 2] i show ?thesis by auto
qed

end
