(* ===== verification/BabyJub.thy ===== *)
theory BabyJub
  imports Gnark
begin

section \<open>Baby Jubjub inside a circuit\<close>

text \<open>
  \<^verbatim>\<open>enygma_payments/gnark-server/utils/circuits.go\<close>: twisted Edwards addition, double-and-add scalar
  multiplication, Pedersen commitments and the reduction of a field element modulo the order of the prime
  subgroup. The reduction takes its quotient and remainder from a hint, which the prover is free to choose:
  they are an argument here, and what is proved holds for every choice.
\<close>

definition A :: int where
  "A = 168700"

definition D :: int where
  "D = 168696"

definition P :: int where
  "P = 2736030358979909402780800718157159386076813972158567259200215660948447373041"

record Point =
  X :: fr
  Y :: fr

definition G :: Point where
  "G = \<lparr>X = 12337812418750581066638756637363471856433191340622504180842886595232027947307,
        Y = 15225366398330386329633463986700597127113326976080712967801565482915963669722\<rparr>"

definition H :: Point where
  "H = \<lparr>X = 10100005861917718053548237064487763771145251762383025193119768015180892676690,
        Y = 7512830269827713629724023825249861327768672768516116945507944076335453576011\<rparr>"

subsection \<open>The gadgets\<close>

definition PointAdd :: "frontend_API \<Rightarrow> Point \<Rightarrow> Point \<Rightarrow> Point option" where
  "PointAdd api p1 p2 = do {
     let x1y2 = Mul api (X p1) (Y p2);
     let y1x2 = Mul api (Y p1) (X p2);
     let x1x2 = Mul api (X p1) (X p2);
     let y1y2 = Mul api (Y p1) (Y p2);
     let denomX = Add api (Mul api D (Mul api x1x2 y1y2)) 1;
     let denomY = Sub api 1 (Mul api D (Mul api x1x2 y1y2));
     AssertIsDifferent api denomX 0;
     AssertIsDifferent api denomY 0;
     let numerX = Add api x1y2 y1x2;
     let numerY = Sub api y1y2 (Mul api A x1x2);
     invDenomX \<leftarrow> Inverse api denomX;
     invDenomY \<leftarrow> Inverse api denomY;
     Some \<lparr>X = Mul api numerX invDenomX, Y = Mul api numerY invDenomY\<rparr> }"

definition PointDouble :: "frontend_API \<Rightarrow> Point \<Rightarrow> Point option" where
  "PointDouble api p = PointAdd api p p"

definition PointSelect :: "frontend_API \<Rightarrow> fr \<Rightarrow> Point \<Rightarrow> Point \<Rightarrow> Point option" where
  "PointSelect api cond p0 p1 = do {
     x \<leftarrow> Select api cond (X p1) (X p0);
     y \<leftarrow> Select api cond (Y p1) (Y p0);
     Some \<lparr>X = x, Y = y\<rparr> }"

definition ScalarMul :: "frontend_API \<Rightarrow> Point \<Rightarrow> fr \<Rightarrow> Point option" where
  "ScalarMul api p scalar = do {
     bits \<leftarrow> ToBinary api scalar 256;
     (result, temp) \<leftarrow> foldM (\<lambda>i (result, temp). do {
         add \<leftarrow> PointAdd api result temp;
         b \<leftarrow> idx bits i;
         result' \<leftarrow> PointSelect api b result add;
         temp' \<leftarrow> PointDouble api temp;
         Some (result', temp') }) [0..<256] (\<lparr>X = 0, Y = 1\<rparr>, p);
     Some result }"

definition PedersenCommitment :: "frontend_API \<Rightarrow> fr \<Rightarrow> fr \<Rightarrow> Point option" where
  "PedersenCommitment api x y = do {
     vG \<leftarrow> ScalarMul api G x;
     rH \<leftarrow> ScalarMul api H y;
     PointAdd api vG rH }"

definition AssertPointsIsOnCurve :: "frontend_API \<Rightarrow> fr \<Rightarrow> fr \<Rightarrow> unit option" where
  "AssertPointsIsOnCurve api x y = do {
     let x2 = Mul api x x;
     let y2 = Mul api y y;
     let x2y2 = Mul api x2 y2;
     let lhs = Add api (Mul api A x2) y2;
     let rhs = Add api 1 (Mul api D x2y2);
     AssertIsEqual api lhs rhs }"

text \<open>The honest hint, and the reduction for any hint \<open>(r, q)\<close>.\<close>

definition ModHint :: "int \<Rightarrow> int \<times> int" where
  "ModHint value = (value mod P, value div P)"

definition ReduceModP :: "frontend_API \<Rightarrow> fr \<times> fr \<Rightarrow> fr \<Rightarrow> fr option" where
  "ReduceModP api hint value = do {
     let (r, q) = hint;
     AssertIsEqual api (Add api (Mul api q P) r) value;
     AssertIsEqual api (IsLess api r P) 1;
     _ \<leftarrow> ToBinary api q 3;
     Some r }"

subsection \<open>What the reduction guarantees\<close>

text \<open>
  The field order lies between \<open>7 P\<close> and \<open>8 P\<close>. The gap \<open>8 P - r\<close> is where two quotients are possible.
\<close>

definition slack :: int where
  "slack = 8 * P - SNARK_SCALAR_FIELD"

lemma P_bounds: "7 * P < SNARK_SCALAR_FIELD" "SNARK_SCALAR_FIELD < 8 * P" "0 < P" "0 < slack" "slack < 2 ^ 126" "slack < P"
  by (simp_all add: P_def SNARK_SCALAR_FIELD_def slack_def)

lemma fv_below_P: "0 \<le> x \<Longrightarrow> x < P \<Longrightarrow> fv x = x"
proof -
  assume "0 \<le> x" "x < P"
  moreover have "P < SNARK_SCALAR_FIELD" by (simp add: P_def SNARK_SCALAR_FIELD_def)
  ultimately show ?thesis by (simp add: fv_id)
qed

definition reduces :: "int \<Rightarrow> int \<Rightarrow> bool" where
  "reduces value r \<longleftrightarrow> r = value mod P \<or> (value < slack \<and> r = (value + SNARK_SCALAR_FIELD) mod P)"

lemma reduces_range: "reduces v r \<Longrightarrow> 0 \<le> r \<and> r < P"
  using P_bounds(3) by (auto simp: reduces_def)

context gnark
begin

lemma ReduceModP_iff:
  "ReduceModP api (r, q) value = Some r' \<longleftrightarrow>
     r' = r \<and> fv (q * P + r) = fv value \<and> fv r < P \<and> fv q < 8"
proof -
  have "fv P = P" using P_bounds by (simp add: fv_id)
  moreover have "fv (Add api (Mul api q P) r) = fv (q * P + r)" by (simp add: Add Mul)
  ultimately show ?thesis
    by (auto simp: ReduceModP_def bind_eq_Some_conv assert_eq fv_IsLess ToBinary)
qed

lemma ReduceModP_sound:
  assumes "ReduceModP api hint value = Some r'"
  shows "reduces (fv value) (fv r')"
proof -
  obtain r q where h: "hint = (r, q)" by force
  have r: "r' = r" "fv (q * P + r) = fv value" "fv r < P" "fv q < 8"
    using assms by (simp_all add: h ReduceModP_iff)
  define n where "n = fv q * P + fv r"
  have "0 \<le> fv q * P" "fv q * P \<le> 7 * P" using r(4) P_bounds(3) by (auto intro!: mult_right_mono)
  then have n: "0 \<le> n" "n < 8 * P" using r(3) by (auto simp: n_def)
  have "fv (fv q * P + r) = fv (q * P + r)"
    using fv_reduce(1) [of "fv q * P" r] fv_reduce(1) [of "q * P" r] fv_reduce(5) [of q P] by simp
  then have m: "fv n = fv value" using r(2) by (simp add: n_def)
  have "n mod P = fv r" using r(3) by (simp add: n_def mod_pos_pos_trivial)
  moreover have "n = fv value \<or> n = fv value + SNARK_SCALAR_FIELD \<and> fv value < slack"
  proof (cases "n < SNARK_SCALAR_FIELD")
    case True
    then show ?thesis using n(1) m by (simp add: fv_id)
  next
    case False
    then have "0 \<le> n - SNARK_SCALAR_FIELD" "n - SNARK_SCALAR_FIELD < SNARK_SCALAR_FIELD" using n(2) P_bounds(1,3) by auto
    then have "fv (n - SNARK_SCALAR_FIELD) = n - SNARK_SCALAR_FIELD" by (simp add: fv_id)
    moreover have "fv (n - SNARK_SCALAR_FIELD) = fv n" by (simp add: fv_def)
    ultimately show ?thesis using m n(2) by (auto simp: slack_def)
  qed
  ultimately show ?thesis using r(1) by (auto simp: reduces_def)
qed

end

end
