(* ===== verification/Bank_Circuit.thy ===== *)
theory Bank_Circuit
  imports BabyJub Primitives
begin

section \<open>The blocks shared by the circuits over an anonymity set of banks\<close>

text \<open>
  The circuits \<^verbatim>\<open>enygma\<close>, \<^verbatim>\<open>enygma_fee\<close>, \<^verbatim>\<open>deposit\<close> and \<^verbatim>\<open>withdraw\<close> of
  \<^verbatim>\<open>enygma_payments/gnark-server/pkg/circuits\<close> repeat the same blocks over the same signals: an anonymity
  set of \<open>k\<close> banks, a Pedersen commitment to the balance of each, and one transaction commitment per bank.
  The common signals are a record that each circuit extends by its own, and each repeated block is one
  definition over any extension. The hash \<open>pos\<close> and the Pedersen gadget \<open>ped\<close> are arguments: the
  repository's circuits are the instances \<open>pos = Poseidon api T\<close>, \<open>ped = PedersenCommitment api\<close>. The prover's
  answers to the reduction hints are given per call site. The hash of a slot, from which tags and blinding
  factors are derived, differs between the circuits: it is the argument \<open>slot\<close>, applied to the domain hash.
\<close>

subsection \<open>The blocks\<close>

record EnygmaCircuitConfig =
  NCommitment :: nat

record bank_tx =
  Config :: EnygmaCircuitConfig
  PublicKeys :: "fr list"
  PreviousCommit :: "(fr \<times> fr) list"
  TxCommit :: "(fr \<times> fr) list"
  BlockNumber :: fr
  AnonymitySet :: "fr list"
  MessageTags :: "fr list"
  TxNullifier :: fr
  DomainId :: fr
  SenderId :: fr
  SharedSecrets :: "fr list"
  SecretKey :: fr
  PreviousSenderBalance :: fr
  PreviousSenderRandomValue :: fr
  TxValues :: "fr list"
  TxRandomValues :: "fr list"
  SenderTxValue :: fr

datatype hint_site = Site_value | Site_secret | Site_finger nat | Site_hashed nat | Site_pk | Site_tag nat
  | Site_random nat | Site_sum | Site_total

type_synonym pedersen = "fr \<Rightarrow> fr \<Rightarrow> Point option"

text \<open>The indicator of the sender's slot, in the two operand orders the code uses, and the selection loop.\<close>

definition is_sender :: "frontend_API \<Rightarrow> 'a bank_tx_scheme \<Rightarrow> nat \<Rightarrow> fr option" where
  "is_sender api c i = do { a \<leftarrow> idx (AnonymitySet c) i; Some (IsZero api (Sub api a (SenderId c))) }"

definition sender_is :: "frontend_API \<Rightarrow> 'a bank_tx_scheme \<Rightarrow> nat \<Rightarrow> fr option" where
  "sender_is api c i = do { a \<leftarrow> idx (AnonymitySet c) i; Some (IsZero api (Sub api (SenderId c) a)) }"

definition select_sender :: "frontend_API \<Rightarrow> 'a bank_tx_scheme \<Rightarrow> fr list \<Rightarrow> fr option" where
  "select_sender api c vals = foldM (\<lambda>i acc. do {
     eq \<leftarrow> sender_is api c i; v \<leftarrow> idx vals i; Some (Add api acc (Mul api eq v)) }) [0..<NCommitment (Config c)] 0"

definition check_sender_in_set :: "frontend_API \<Rightarrow> 'a bank_tx_scheme \<Rightarrow> unit option" where
  "check_sender_in_set api c = do {
     sumIsInK \<leftarrow> foldM (\<lambda>i acc. do { isEqual \<leftarrow> is_sender api c i; Some (Add api isEqual acc) })
       [0..<NCommitment (Config c)] 0;
     AssertIsEqual api sumIsInK 1 }"

text \<open>The sender's slot is the negative of the amount; the results are that slot and the range-checked amount.\<close>

definition check_sender_value :: "frontend_API \<Rightarrow> (hint_site \<Rightarrow> fr \<times> fr) \<Rightarrow> 'a bank_tx_scheme \<Rightarrow> (fr \<times> fr) option" where
  "check_sender_value api hint c = do {
     selected_v \<leftarrow> select_sender api c (TxValues c);
     selectedVBits \<leftarrow> ToBinary api selected_v 252;
     vBits \<leftarrow> ToBinary api (SenderTxValue c) 64;
     pDiffBits \<leftarrow> ToBinary api P 252;
     let selectedVConstrained = FromBinary api selectedVBits;
     let vConstrained = FromBinary api vBits;
     let pDiffConstrained = FromBinary api pDiffBits;
     let expectedTxValue = Sub api pDiffConstrained vConstrained;
     expectedTxValueMod \<leftarrow> ReduceModP api (hint Site_value) expectedTxValue;
     AssertIsEqual api selectedVConstrained expectedTxValueMod;
     Some (selected_v, vConstrained) }"

definition check_receivers_sum :: "frontend_API \<Rightarrow> 'a bank_tx_scheme \<Rightarrow> fr \<Rightarrow> unit option" where
  "check_receivers_sum api c vConstrained = do {
     sumNonSenderValues \<leftarrow> foldM (\<lambda>i acc. do {
         isSenderSlot \<leftarrow> is_sender api c i;
         v \<leftarrow> idx (TxValues c) i;
         nonSenderValue \<leftarrow> Select api isSenderSlot 0 v;
         nonSenderBits \<leftarrow> ToBinary api nonSenderValue 64;
         Some (Add api acc (FromBinary api nonSenderBits)) }) [0..<NCommitment (Config c)] 0;
     AssertIsEqual api sumNonSenderValues vConstrained }"

definition check_on_curve :: "frontend_API \<Rightarrow> 'a bank_tx_scheme \<Rightarrow> unit option" where
  "check_on_curve api c = forM (\<lambda>i. do {
     (px, py) \<leftarrow> idx (PreviousCommit c) i;
     AssertPointsIsOnCurve api px py;
     (tx, ty) \<leftarrow> idx (TxCommit c) i;
     AssertPointsIsOnCurve api tx ty }) [0..<NCommitment (Config c)]"

definition check_sender_secret :: "frontend_API \<Rightarrow> hasher \<Rightarrow> (hint_site \<Rightarrow> fr \<times> fr) \<Rightarrow> 'a bank_tx_scheme \<Rightarrow> fr option" where
  "check_sender_secret api pos hint c = do {
     selectedSecret \<leftarrow> select_sender api c (SharedSecrets c);
     secretSenderCalculated \<leftarrow> pos [PreviousSenderRandomValue c, SecretKey c];
     secretRemain \<leftarrow> ReduceModP api (hint Site_secret) secretSenderCalculated;
     AssertIsEqual api secretRemain selectedSecret;
     Some secretRemain }"

definition check_public_key :: "frontend_API \<Rightarrow> hasher \<Rightarrow> (hint_site \<Rightarrow> fr \<times> fr) \<Rightarrow> 'a bank_tx_scheme \<Rightarrow> unit option" where
  "check_public_key api pos hint c = do {
     selectedPK \<leftarrow> select_sender api c (PublicKeys c);
     pk \<leftarrow> pos [SecretKey c, SecretKey c];
     pkMod \<leftarrow> ReduceModP api (hint Site_pk) pk;
     AssertIsEqual api selectedPK pkMod }"

definition check_previous_commitment :: "frontend_API \<Rightarrow> pedersen \<Rightarrow> 'a bank_tx_scheme \<Rightarrow> unit option" where
  "check_previous_commitment api ped c = do {
     selX \<leftarrow> select_sender api c (map fst (PreviousCommit c));
     selY \<leftarrow> select_sender api c (map snd (PreviousCommit c));
     computed \<leftarrow> ped (PreviousSenderBalance c) (PreviousSenderRandomValue c);
     AssertIsEqual api selX (X computed);
     AssertIsEqual api selY (Y computed) }"

definition check_tags :: "frontend_API \<Rightarrow> hasher \<Rightarrow> (hint_site \<Rightarrow> fr \<times> fr) \<Rightarrow> 'a bank_tx_scheme \<Rightarrow> (fr \<Rightarrow> nat \<Rightarrow> fr option) \<Rightarrow> unit option" where
  "check_tags api pos hint c slot = do {
     HashTag \<leftarrow> pos [12];
     forM (\<lambda>i. do {
       calculatedMessageTag \<leftarrow> slot HashTag i;
       calculatedMessageTagMod \<leftarrow> ReduceModP api (hint (Site_tag i)) calculatedMessageTag;
       t \<leftarrow> idx (MessageTags c) i;
       AssertIsEqual api t calculatedMessageTagMod }) [0..<NCommitment (Config c)] }"

definition check_solvency :: "frontend_API \<Rightarrow> 'a bank_tx_scheme \<Rightarrow> fr \<Rightarrow> unit option" where
  "check_solvency api c vConstrained = do {
     previousVBits \<leftarrow> ToBinary api (PreviousSenderBalance c) 64;
     let previousVConstrained = FromBinary api previousVBits;
     let prevVGreaterEqualV = Cmp api previousVConstrained vConstrained;
     AssertIsEqual api (IsZero api (Add api prevVGreaterEqualV 1)) 0;
     let vGreaterEqualZero = Cmp api vConstrained 0;
     AssertIsEqual api (IsZero api (Add api vGreaterEqualZero 1)) 0 }"

definition check_tx_commitments :: "frontend_API \<Rightarrow> pedersen \<Rightarrow> 'a bank_tx_scheme \<Rightarrow> unit option" where
  "check_tx_commitments api ped c = forM (\<lambda>i. do {
     v \<leftarrow> idx (TxValues c) i; r \<leftarrow> idx (TxRandomValues c) i;
     computed \<leftarrow> ped v r;
     (x, y) \<leftarrow> idx (TxCommit c) i;
     AssertIsEqual api x (X computed);
     AssertIsEqual api y (Y computed) }) [0..<NCommitment (Config c)]"

text \<open>The first pass: the reduced hashes, and the sum of the receivers' ones.\<close>

definition random_pass ::
  "frontend_API \<Rightarrow> (fr \<Rightarrow> nat \<Rightarrow> fr option) \<Rightarrow> (hint_site \<Rightarrow> fr \<times> fr) \<Rightarrow> 'a bank_tx_scheme \<Rightarrow> fr \<Rightarrow> (fr list \<times> fr) option" where
  "random_pass api slot hint c HashRandom = foldM (\<lambda>i (hs, acc). do {
     RandomFactor \<leftarrow> slot HashRandom i;
     hashModP \<leftarrow> ReduceModP api (hint (Site_random i)) RandomFactor;
     isSender \<leftarrow> is_sender api c i;
     let isReceiver = Sub api 1 isSender;
     Some (hs @ [hashModP], Add api acc (Mul api isReceiver hashModP)) }) [0..<NCommitment (Config c)] ([], 0)"

definition check_random_factors ::
  "frontend_API \<Rightarrow> hasher \<Rightarrow> (hint_site \<Rightarrow> fr \<times> fr) \<Rightarrow> 'a bank_tx_scheme \<Rightarrow> (fr \<Rightarrow> nat \<Rightarrow> fr option) \<Rightarrow> unit option" where
  "check_random_factors api pos hint c slot = do {
     HashRandom \<leftarrow> pos [21];
     (receiverHashesModP, sumOfReceiverHashes) \<leftarrow> random_pass api slot hint c HashRandom;
     senderRandomFactor \<leftarrow> ReduceModP api (hint Site_sum) sumOfReceiverHashes;
     calculatedRandomFactor \<leftarrow> mapM (\<lambda>i. do {
         isSender \<leftarrow> is_sender api c i;
         h \<leftarrow> idx receiverHashesModP i;
         Select api isSender senderRandomFactor (Sub api P h) }) [0..<NCommitment (Config c)];
     forM (\<lambda>i. do {
         f \<leftarrow> idx calculatedRandomFactor i; r \<leftarrow> idx (TxRandomValues c) i;
         AssertIsEqual api f r }) [0..<NCommitment (Config c)] }"

subsection \<open>The sender's slot\<close>

definition sends :: "'a bank_tx_scheme \<Rightarrow> nat \<Rightarrow> bool" where
  "sends c i \<longleftrightarrow> fv (AnonymitySet c ! i) = fv (SenderId c)"

text \<open>Slot \<open>s\<close> is the sender's, and the only one.\<close>

definition sender_slot :: "'a bank_tx_scheme \<Rightarrow> nat \<Rightarrow> bool" where
  "sender_slot c s \<longleftrightarrow> s < NCommitment (Config c) \<and> (\<forall>i<NCommitment (Config c). sends c i \<longleftrightarrow> i = s)"

lemma sum_upt_one: "s < n \<Longrightarrow> (\<Sum>i\<leftarrow>[0..<n]. if i = s then f i else 0) = (f s :: int)"
  by (simp add: interv_sum_list_conv_sum_set_nat)

lemma sum_sender:
  fixes f :: "nat \<Rightarrow> int"
  assumes "sender_slot c s"
  shows "(\<Sum>i\<leftarrow>[0..<NCommitment (Config c)]. if sends c i then f i else 0) = f s"
proof -
  have "(\<Sum>i\<leftarrow>[0..<NCommitment (Config c)]. if sends c i then f i else 0) =
      (\<Sum>i\<leftarrow>[0..<NCommitment (Config c)]. if i = s then f i else 0)"
    using assms by (intro arg_cong [of _ _ sum_list] map_cong) (auto simp: sender_slot_def)
  also have "\<dots> = f s" using assms by (intro sum_upt_one) (simp add: sender_slot_def)
  finally show ?thesis .
qed

text \<open>The amounts credited: every slot but the sender's.\<close>

definition credits :: "'a bank_tx_scheme \<Rightarrow> int" where
  "credits c = (\<Sum>i\<leftarrow>[0..<NCommitment (Config c)]. if sends c i then 0 else fv (TxValues c ! i))"

context gnark
begin

lemma is_sender_Some: "is_sender api c i = Some e \<longleftrightarrow> i < length (AnonymitySet c) \<and> e = (if sends c i then 1 else 0)"
  by (auto simp: is_sender_def sends_def bind_eq_Some_conv idx_Some_iff IsZero fv_Sub_eq_0)

lemma sender_is_Some: "sender_is api c i = Some e \<longleftrightarrow> i < length (AnonymitySet c) \<and> e = (if sends c i then 1 else 0)"
  by (auto simp: sender_is_def sends_def bind_eq_Some_conv idx_Some_iff IsZero fv_Sub_eq_0)

lemma select_sender_sum:
  assumes "select_sender api c vals = Some x"
  shows "fv x = fv (\<Sum>i\<leftarrow>[0..<NCommitment (Config c)]. if sends c i then vals ! i else 0)"
    and "\<forall>i<NCommitment (Config c). i < length (AnonymitySet c) \<and> i < length vals"
proof -
  have "foldM (\<lambda>i acc. do { eq \<leftarrow> sender_is api c i; v \<leftarrow> idx vals i; Some (Add api acc (Mul api eq v)) })
      [0..<NCommitment (Config c)] 0 = Some x" using assms by (simp add: select_sender_def)
  then have "(\<forall>i\<in>set [0..<NCommitment (Config c)]. i < length (AnonymitySet c) \<and> i < length vals) \<and>
      x = fold (\<lambda>i a. fv (a + (if sends c i then vals ! i else 0))) [0..<NCommitment (Config c)] 0"
    by (subst (asm) foldM_check_acc [where chk = "\<lambda>i. i < length (AnonymitySet c) \<and> i < length vals"
          and g = "\<lambda>i a. fv (a + (if sends c i then vals ! i else 0))"])
      (auto simp: bind_eq_Some_conv sender_is_Some idx_Some_iff Add Mul)
  then show "fv x = fv (\<Sum>i\<leftarrow>[0..<NCommitment (Config c)]. if sends c i then vals ! i else 0)"
    and "\<forall>i<NCommitment (Config c). i < length (AnonymitySet c) \<and> i < length vals"
    using fv_fold_add [of "\<lambda>i. if sends c i then vals ! i else 0" "[0..<NCommitment (Config c)]" 0] by auto
qed

lemma select_sender_value:
  "select_sender api c vals = Some x \<Longrightarrow> sender_slot c s \<Longrightarrow> fv x = fv (vals ! s) \<and> s < length vals"
  using select_sender_sum [of c vals x] sum_sender [of c s "\<lambda>i. vals ! i"] by (auto simp: sender_slot_def)

lemma sender_in_set:
  assumes "check_sender_in_set api c = Some ()" and "int (NCommitment (Config c)) < SNARK_SCALAR_FIELD"
  shows "\<exists>s. sender_slot c s"
proof -
  let ?k = "NCommitment (Config c)" and ?S = "{i. i < NCommitment (Config c) \<and> sends c i}"
  obtain x where x: "foldM (\<lambda>i acc. do { isEqual \<leftarrow> is_sender api c i; Some (Add api isEqual acc) }) [0..<?k] 0 = Some x"
      "fv x = 1" using assms(1) by (auto simp: check_sender_in_set_def bind_eq_Some_conv assert_eq)
  have "x = fold (\<lambda>i a. fv (a + (if sends c i then 1 else 0))) [0..<?k] 0"
    using x(1) by (subst (asm) foldM_check_acc [where chk = "\<lambda>i. i < length (AnonymitySet c)"
          and g = "\<lambda>i a. fv (a + (if sends c i then 1 else 0))"])
      (auto simp: bind_eq_Some_conv is_sender_Some Add add.commute)
  then have "fv (\<Sum>i\<leftarrow>[0..<?k]. if sends c i then 1 else 0) = 1"
    using x(2) fv_fold_add [of "\<lambda>i. if sends c i then 1 else 0" "[0..<?k]" 0] by simp
  moreover have "(\<Sum>i\<leftarrow>[0..<?k]. if sends c i then 1 else 0) = int (card ?S)"
    by (simp add: interv_sum_list_conv_sum_set_nat sum.If_cases Int_def conj_commute)
  moreover have "card ?S \<le> ?k" using card_mono [of "{..<?k}" ?S] by (simp add: subset_iff)
  ultimately have "card ?S = 1" using assms(2) by (simp add: fv_id)
  then obtain s where "?S = {s}" by (auto simp: card_1_singleton_iff)
  then show ?thesis unfolding sender_slot_def by (metis (mono_tags, lifting) mem_Collect_eq singleton_iff)
qed

lemma from_to_binary: "n < 254 \<Longrightarrow> ToBinary api a n = Some bs \<Longrightarrow> FromBinary api bs = fv a \<and> fv a < 2 ^ n"
  by (auto simp: ToBinary FromBinary le_value_le_bits split: if_splits)

lemma sender_value:
  assumes "check_sender_value api hint c = Some (sv, v)" and "sender_slot c s"
  shows "fv sv = fv (TxValues c ! s) \<and> v = fv (SenderTxValue c) \<and> v < 2 ^ 64 \<and> fv (TxValues c ! s) = (P - v) mod P"
proof -
  have "\<exists>sel sb vb pb m. select_sender api c (TxValues c) = Some sel \<and> ToBinary api sel 252 = Some sb \<and>
      ToBinary api (SenderTxValue c) 64 = Some vb \<and> ToBinary api P 252 = Some pb \<and> FromBinary api vb = v \<and> sel = sv \<and>
      ReduceModP api (hint Site_value) (Sub api (FromBinary api pb) (FromBinary api vb)) = Some m \<and>
      fv (FromBinary api sb) = fv m"
    using assms(1) unfolding check_sender_value_def Let_def by (simp add: bind_eq_Some_conv assert_eq) blast
  then obtain sel sb vb pb m where d: "select_sender api c (TxValues c) = Some sel" "ToBinary api sel 252 = Some sb"
      "ToBinary api (SenderTxValue c) 64 = Some vb" "ToBinary api P 252 = Some pb" "v = FromBinary api vb" "sel = sv"
      "ReduceModP api (hint Site_value) (Sub api (FromBinary api pb) v) = Some m"
      "fv (FromBinary api sb) = fv m" by blast
  have v: "v = fv (SenderTxValue c)" "v < 2 ^ 64" using from_to_binary [OF _ d(3)] d(5) by auto
  have "0 \<le> v" using v(1) by simp
  have p: "FromBinary api pb = P" using from_to_binary [OF _ d(4)] P_bounds by (simp add: fv_id)
  have "slack < P - v" using v(2) by (simp add: slack_def P_def SNARK_SCALAR_FIELD_def)
  moreover have "fv (Sub api P v) = P - v"
    using \<open>0 \<le> v\<close> calculation P_bounds by (simp add: Sub fv_id)
  ultimately have "fv m = (P - v) mod P" using ReduceModP_sound [OF d(7)] p by (simp add: reduces_def)
  then show ?thesis using from_to_binary [OF _ d(2)] d(8) v d(6) select_sender_value [OF d(1) assms(2)] by simp
qed

lemma receivers_sum:
  assumes "check_receivers_sum api c v = Some ()" and "int (NCommitment (Config c)) * 2 ^ 64 < SNARK_SCALAR_FIELD"
  shows "credits c = fv v \<and> (\<forall>i<NCommitment (Config c). \<not> sends c i \<longrightarrow> fv (TxValues c ! i) < 2 ^ 64)"
proof -
  let ?k = "NCommitment (Config c)" and ?g = "\<lambda>i. if sends c i then 0 else fv (TxValues c ! i)"
  let ?chk = "\<lambda>i. i < length (AnonymitySet c) \<and> i < length (TxValues c) \<and> ?g i < 2 ^ 64"
  obtain x where x: "foldM (\<lambda>i acc. do {
         isSenderSlot \<leftarrow> is_sender api c i; v \<leftarrow> idx (TxValues c) i; nonSenderValue \<leftarrow> Select api isSenderSlot 0 v;
         nonSenderBits \<leftarrow> ToBinary api nonSenderValue 64;
         Some (Add api acc (FromBinary api nonSenderBits)) }) [0..<?k] 0 = Some x" "fv x = fv v"
    using assms(1) by (auto simp: check_receivers_sum_def bind_eq_Some_conv assert_eq)
  have "(\<forall>i\<in>set [0..<?k]. ?chk i) \<and> x = fold (\<lambda>i a. fv (a + ?g i)) [0..<?k] 0"
    using x(1) by (subst (asm) foldM_check_acc [where chk = ?chk and g = "\<lambda>i a. fv (a + ?g i)"])
      (auto simp: bind_eq_Some_conv is_sender_Some idx_Some_iff Select ToBinary FromBinary le_value_le_bits Add split: if_splits)
  then have b: "\<forall>i<?k. ?g i < 2 ^ 64" and f: "fv (credits c) = fv v"
    using fv_fold_add [of ?g "[0..<?k]" 0] x(2) by (auto simp: credits_def)
  have "0 \<le> credits c" unfolding credits_def by (rule sum_list_nonneg) auto
  moreover have "credits c \<le> (\<Sum>i\<leftarrow>[0..<?k]. 2 ^ 64)"
    unfolding credits_def using b by (intro sum_list_mono) (auto simp: less_imp_le)
  then have "credits c < SNARK_SCALAR_FIELD" using assms(2) by (simp add: sum_list_triv)
  ultimately show ?thesis using f b by (auto simp: fv_id)
qed

lemma solvency:
  assumes "check_solvency api c v = Some ()"
  shows "fv v \<le> fv (PreviousSenderBalance c) \<and> fv (PreviousSenderBalance c) < 2 ^ 64"
proof -
  obtain pb where d: "ToBinary api (PreviousSenderBalance c) 64 = Some pb"
      "fv (IsZero api (Add api (Cmp api (FromBinary api pb) v) 1)) = 0"
    using assms by (auto simp: check_solvency_def bind_eq_Some_conv assert_eq)
  have p: "FromBinary api pb = fv (PreviousSenderBalance c)" "fv (PreviousSenderBalance c) < 2 ^ 64"
    using from_to_binary [OF _ d(1)] by auto
  then show ?thesis using d(2) by (auto simp: fv_IsZero Add Cmp split: if_splits)
qed

end

subsection \<open>The blinding factors\<close>

context gnark
begin

lemma random_pass_prefix:
  assumes "foldM (\<lambda>i (hs, acc). do {
     RandomFactor \<leftarrow> slot d i;
     hashModP \<leftarrow> ReduceModP api (hint (Site_random i)) RandomFactor;
     isSender \<leftarrow> is_sender api c i;
     let isReceiver = Sub api 1 isSender;
     Some (hs @ [hashModP], Add api acc (Mul api isReceiver hashModP)) }) [0..<n] ([], 0) = Some (hs, acc)"
  shows "length hs = n \<and> (\<forall>i<n. fv (hs ! i) < P) \<and>
    fv acc = fv (\<Sum>i\<leftarrow>[0..<n]. if sends c i then 0 else fv (hs ! i))"
  using assms
proof (induction n arbitrary: hs acc)
  case 0
  then show ?case by simp
next
  case (Suc n)
  let ?F = "\<lambda>i (hs, acc). do {
     RandomFactor \<leftarrow> slot d i;
     hashModP \<leftarrow> ReduceModP api (hint (Site_random i)) RandomFactor;
     isSender \<leftarrow> is_sender api c i;
     let isReceiver = Sub api 1 isSender;
     Some (hs @ [hashModP], Add api acc (Mul api isReceiver hashModP)) }"
  from Suc.prems obtain hs0 acc0 where 0: "foldM ?F [0..<n] ([], 0) = Some (hs0, acc0)" "?F n (hs0, acc0) = Some (hs, acc)"
    by (auto simp: foldM_append bind_eq_Some_conv)
  note ih = Suc.IH [OF 0(1)]
  from 0(2) obtain v h e where h: "ReduceModP api (hint (Site_random n)) v = Some h" "is_sender api c n = Some e"
      "hs = hs0 @ [h]" "acc = Add api acc0 (Mul api (Sub api 1 e) h)"
    by (auto simp: bind_eq_Some_conv)
  have "fv h < P" using reduces_range [OF ReduceModP_sound [OF h(1)]] by simp
  moreover have "fv acc = fv (fv acc0 + (if sends c n then 0 else fv h))"
    using h(2,4) by (auto simp: is_sender_Some Add Mul Sub)
  moreover have "(\<Sum>i\<leftarrow>[0..<n]. if sends c i then 0 else fv (hs ! i)) = (\<Sum>i\<leftarrow>[0..<n]. if sends c i then 0 else fv (hs0 ! i))"
    using ih h(3) by (intro arg_cong [of _ _ sum_list] map_cong) (auto simp: nth_append)
  ultimately show ?case using ih h(3) by (auto simp: nth_append less_Suc_eq)
qed

lemma random_factors:
  assumes "check_random_factors api pos hint c slot = Some ()" and "sender_slot c s"
  obtains hs sr where "length hs = NCommitment (Config c)" "\<forall>i<NCommitment (Config c). 0 \<le> hs ! i \<and> hs ! i < P"
    "reduces (fv (\<Sum>i\<leftarrow>[0..<NCommitment (Config c)]. if sends c i then 0 else hs ! i)) sr"
    "fv (TxRandomValues c ! s) = sr"
    "\<forall>i<NCommitment (Config c). i \<noteq> s \<longrightarrow> fv (TxRandomValues c ! i) = P - hs ! i"
proof -
  let ?k = "NCommitment (Config c)"
  have "\<exists>HR hs acc sr fs. random_pass api slot hint c HR = Some (hs, acc) \<and> ReduceModP api (hint Site_sum) acc = Some sr \<and>
      mapM (\<lambda>i. do { isSender \<leftarrow> is_sender api c i; h \<leftarrow> idx hs i; Select api isSender sr (Sub api P h) }) [0..<?k] = Some fs \<and>
      forM (\<lambda>i. do { f \<leftarrow> idx fs i; r \<leftarrow> idx (TxRandomValues c) i; AssertIsEqual api f r }) [0..<?k] = Some ()"
    using assms(1) by (clarsimp simp: check_random_factors_def bind_eq_Some_conv) blast
  then obtain HR hs acc sr fs where d: "random_pass api slot hint c HR = Some (hs, acc)"
      "ReduceModP api (hint Site_sum) acc = Some sr"
      "mapM (\<lambda>i. do { isSender \<leftarrow> is_sender api c i; h \<leftarrow> idx hs i; Select api isSender sr (Sub api P h) }) [0..<?k] = Some fs"
      "forM (\<lambda>i. do { f \<leftarrow> idx fs i; r \<leftarrow> idx (TxRandomValues c) i; AssertIsEqual api f r }) [0..<?k] = Some ()" by blast
  have hs: "length hs = ?k" "\<forall>i<?k. fv (hs ! i) < P"
      "fv acc = fv (\<Sum>i\<leftarrow>[0..<?k]. if sends c i then 0 else fv (hs ! i))"
    using random_pass_prefix [of slot HR hint c ?k hs acc] d(1) by (simp_all add: random_pass_def)
  have fs: "fs ! i = (if i = s then fv sr else fv (P - hs ! i))" if "i < ?k" for i
    using mapM_nth [OF d(3), of i] that assms(2)
    by (auto simp: sender_slot_def bind_eq_Some_conv is_sender_Some idx_Some_iff Select Sub split: if_splits)
  have len: "length fs = ?k" using mapM_length [OF d(3)] by simp
  have tx: "fv (TxRandomValues c ! i) = fv (fs ! i)" if "i < ?k" for i
    using d(4) that len by (auto simp: forM_Some_iff bind_eq_Some_conv idx_Some_iff assert_eq)
  have map: "map fv hs ! i = fv (hs ! i)" if "i < ?k" for i using that hs(1) by simp
  show thesis
  proof (rule that)
    show "length (map fv hs) = ?k" using hs(1) by simp
    show "\<forall>i<?k. 0 \<le> map fv hs ! i \<and> map fv hs ! i < P" using hs(2) map by simp
    have "(\<Sum>i\<leftarrow>[0..<?k]. if sends c i then 0 else map fv hs ! i) = (\<Sum>i\<leftarrow>[0..<?k]. if sends c i then 0 else fv (hs ! i))"
      using map by (intro arg_cong [of _ _ sum_list] map_cong) auto
    then show "reduces (fv (\<Sum>i\<leftarrow>[0..<?k]. if sends c i then 0 else map fv hs ! i)) (fv sr)"
      using ReduceModP_sound [OF d(2)] hs(3) by simp
    show "fv (TxRandomValues c ! s) = fv sr" using tx fs assms(2) by (simp add: sender_slot_def)
    show "\<forall>i<?k. i \<noteq> s \<longrightarrow> fv (TxRandomValues c ! i) = P - map fv hs ! i"
    proof (intro allI impI)
      fix i assume i: "i < ?k" "i \<noteq> s"
      have "0 \<le> fv (hs ! i)" "fv (hs ! i) < P" using hs(2) i(1) by simp_all
      then have "fv (P - fv (hs ! i)) = P - fv (hs ! i)" using P_bounds(1,3) by (intro fv_id) linarith+
      then show "fv (TxRandomValues c ! i) = P - map fv hs ! i" using tx fs i map by simp
    qed
  qed
qed

end

text \<open>
  The algebra behind the cancelling blinding factors: the sender's factor is the sum of the receivers'
  hashes, each receiver's is the negative of its own.
\<close>

lemma blinding_cancels:
  fixes h :: "nat \<Rightarrow> int"
  assumes "s < k" and "k \<le> 8" and "\<forall>i<k. 0 \<le> h i \<and> h i < P" and "\<forall>i<k. i \<noteq> s \<longrightarrow> r i = P - h i"
    and "reduces (fv (\<Sum>i\<leftarrow>[0..<k]. if i = s then 0 else h i)) (r s)"
  shows "(\<Sum>i\<leftarrow>[0..<k]. r i) mod P = 0 \<or> (\<Sum>i\<leftarrow>[0..<k]. if i = s then 0 else P - r i) < slack"
proof -
  define S where "S = (\<Sum>i\<leftarrow>[0..<k]. if i = s then 0 else h i)"
  have S: "S = (\<Sum>i\<in>{0..<k} - {s}. h i)"
    unfolding S_def interv_sum_list_conv_sum_set_nat using assms(1) by (subst sum.remove [of _ s]) (auto intro: sum.cong)
  have rs: "(\<Sum>i\<in>{0..<k} - {s}. r i) = int (k - 1) * P - S"
  proof -
    have "(\<Sum>i\<in>{0..<k} - {s}. r i) = (\<Sum>i\<in>{0..<k} - {s}. P - h i)" using assms(4) by (intro sum.cong) auto
    also have "\<dots> = int (k - 1) * P - S" using assms(1) by (simp add: S sum_subtractf)
    finally show ?thesis .
  qed
  have T: "(\<Sum>i\<leftarrow>[0..<k]. if i = s then 0 else P - r i) = S"
    unfolding S_def using assms(4) by (intro arg_cong [of _ _ sum_list] map_cong) auto
  have "0 \<le> S" unfolding S using assms(3) by (intro sum_nonneg) auto
  moreover have "S \<le> (\<Sum>i\<in>{0..<k} - {s}. P)" unfolding S using assms(3) by (intro sum_mono) (auto simp: less_imp_le)
  then have "S \<le> int (k - 1) * P" using assms(1) by simp
  moreover have "int (k - 1) * P \<le> 7 * P" using assms(2) P_bounds(3) by (intro mult_right_mono) auto
  ultimately have "fv S = S" using P_bounds(1) by (simp add: fv_id)
  then have "r s = S mod P \<or> S < slack" using assms(5) by (auto simp: reduces_def S_def)
  then show ?thesis
  proof
    assume "r s = S mod P"
    moreover have "(\<Sum>i\<leftarrow>[0..<k]. r i) = r s + (int (k - 1) * P - S)"
      unfolding interv_sum_list_conv_sum_set_nat rs [symmetric] using assms(1) by (subst sum.remove [of _ s]) auto
    ultimately have "(\<Sum>i\<leftarrow>[0..<k]. r i) mod P = (S mod P + (int (k - 1) * P - S)) mod P" by simp
    also have "\<dots> = (S + (int (k - 1) * P - S)) mod P" by (rule mod_add_left_eq)
    finally show ?thesis by simp
  qed (simp add: T)
qed

context gnark
begin

lemma random_factors_cancel:
  assumes "check_random_factors api pos hint c slot = Some ()" and "sender_slot c s" and "NCommitment (Config c) \<le> 8"
  shows "(\<Sum>i\<leftarrow>[0..<NCommitment (Config c)]. fv (TxRandomValues c ! i)) mod P = 0 \<or>
    (\<Sum>i\<leftarrow>[0..<NCommitment (Config c)]. if i = s then 0 else P - fv (TxRandomValues c ! i)) < slack"
proof -
  let ?k = "NCommitment (Config c)"
  from assms(1,2) obtain hs sr where h: "\<forall>i<?k. 0 \<le> hs ! i \<and> hs ! i < P"
      "reduces (fv (\<Sum>i\<leftarrow>[0..<?k]. if sends c i then 0 else hs ! i)) sr" "fv (TxRandomValues c ! s) = sr"
      "\<forall>i<?k. i \<noteq> s \<longrightarrow> fv (TxRandomValues c ! i) = P - hs ! i"
    by (rule random_factors) blast
  have "(\<Sum>i\<leftarrow>[0..<?k]. if sends c i then 0 else hs ! i) = (\<Sum>i\<leftarrow>[0..<?k]. if i = s then 0 else hs ! i)"
    using assms(2) by (intro arg_cong [of _ _ sum_list] map_cong) (auto simp: sender_slot_def)
  with h assms(2,3) show ?thesis
    using blinding_cancels [of s ?k "\<lambda>i. hs ! i" "\<lambda>i. fv (TxRandomValues c ! i)"] by (auto simp: sender_slot_def)
qed

end

subsection \<open>What the knowledge checks establish\<close>

context gnark
begin

lemma sender_secret:
  assumes "check_sender_secret api pos hint c = Some secret" and "sender_slot c s"
  shows "\<exists>h. pos [PreviousSenderRandomValue c, SecretKey c] = Some h \<and> reduces (fv h) (fv secret) \<and>
    fv (SharedSecrets c ! s) = fv secret"
proof -
  obtain h sel where h: "pos [PreviousSenderRandomValue c, SecretKey c] = Some h"
      "ReduceModP api (hint Site_secret) h = Some secret" "select_sender api c (SharedSecrets c) = Some sel" "fv secret = fv sel"
    using assms(1) by (auto simp: check_sender_secret_def bind_eq_Some_conv assert_eq)
  then show ?thesis using ReduceModP_sound [OF h(2)] select_sender_value [OF h(3) assms(2)] by simp
qed

lemma public_key:
  assumes "check_public_key api pos hint c = Some ()" and "sender_slot c s"
  shows "\<exists>hp. pos [SecretKey c, SecretKey c] = Some hp \<and> reduces (fv hp) (fv (PublicKeys c ! s))"
proof -
  obtain pk hp m where p: "select_sender api c (PublicKeys c) = Some pk" "pos [SecretKey c, SecretKey c] = Some hp"
      "ReduceModP api (hint Site_pk) hp = Some m" "fv pk = fv m"
    using assms(1) by (clarsimp simp: check_public_key_def bind_eq_Some_conv assert_eq)
  then show ?thesis using ReduceModP_sound [OF p(3)] select_sender_value [OF p(1) assms(2)] by simp
qed

lemma previous_commitment:
  assumes "check_previous_commitment api ped c = Some ()" and "sender_slot c s"
  shows "\<exists>p. ped (PreviousSenderBalance c) (PreviousSenderRandomValue c) = Some p \<and>
    fv (fst (PreviousCommit c ! s)) = fv (X p) \<and> fv (snd (PreviousCommit c ! s)) = fv (Y p)"
proof -
  obtain x y q where q: "select_sender api c (map fst (PreviousCommit c)) = Some x"
      "select_sender api c (map snd (PreviousCommit c)) = Some y"
      "ped (PreviousSenderBalance c) (PreviousSenderRandomValue c) = Some q" "fv x = fv (X q)" "fv y = fv (Y q)"
    using assms(1) by (clarsimp simp: check_previous_commitment_def bind_eq_Some_conv assert_eq)
  have "fv (fst (PreviousCommit c ! s)) = fv (X q)" "fv (snd (PreviousCommit c ! s)) = fv (Y q)"
    using select_sender_value [OF q(1) assms(2)] select_sender_value [OF q(2) assms(2)] q(4,5) by auto
  then show ?thesis using q(3) by blast
qed

lemma credits_zero:
  assumes "check_receivers_sum api c 0 = Some ()" and "int (NCommitment (Config c)) * 2 ^ 64 < SNARK_SCALAR_FIELD"
    and "i < NCommitment (Config c)" and "\<not> sends c i"
  shows "fv (TxValues c ! i) = 0"
proof -
  have "(\<Sum>i\<in>{0..<NCommitment (Config c)}. if sends c i then 0 else fv (TxValues c ! i)) = 0"
    using receivers_sum [OF assms(1,2)] by (simp add: credits_def interv_sum_list_conv_sum_set_nat)
  then have "\<forall>i\<in>{0..<NCommitment (Config c)}. (if sends c i then 0 else fv (TxValues c ! i)) = 0"
    by (subst (asm) sum_nonneg_eq_0_iff) auto
  with assms(3,4) show ?thesis by (metis atLeastLessThan_iff le0)
qed

end

end
