(* ===== verification/Bank_Example.thy ===== *)
theory Bank_Example
  imports Bank_Circuit
begin

section \<open>Example transactions of the bank circuits\<close>

text \<open>
  Two banks, of which the first one acts, for a hash that is constantly 0 and the commitment that is always
  the neutral point. The shared blocks accept them, whatever the values of the transaction; the witnesses of
  each circuit add their own values and blocks.
\<close>

definition zero_hash :: hasher where
  "zero_hash xs = Some 0"

definition zero_ped :: pedersen where
  "zero_ped x y = Some \<lparr>X = 0, Y = 1\<rparr>"

definition pay_hint :: "hint_site \<Rightarrow> fr \<times> fr" where
  "pay_hint site = (case site of Site_value \<Rightarrow> (P - 5, 0) | Site_total \<Rightarrow> (0, 1) | _ \<Rightarrow> (0, 0))"

definition two_banks :: "'a bank_tx_scheme \<Rightarrow> bool" where
  "two_banks c \<longleftrightarrow> NCommitment (Config c) = 2 \<and> PublicKeys c = [0, 0] \<and> PreviousCommit c = [(0, 1), (0, 1)] \<and>
     TxCommit c = [(0, 1), (0, 1)] \<and> AnonymitySet c = [0, 1] \<and> MessageTags c = [0, 0] \<and> TxNullifier c = 0 \<and> SenderId c = 0 \<and>
     SharedSecrets c = [0, 0] \<and> PreviousSenderBalance c = 9 \<and> TxRandomValues c = [0, P]"

lemma two_banks_fields:
  assumes "two_banks c"
  shows "NCommitment (Config c) = 2" "PublicKeys c = [0, 0]" "PreviousCommit c = [(0, 1), (0, 1)]"
    "TxCommit c = [(0, 1), (0, 1)]" "AnonymitySet c = [0, 1]" "MessageTags c = [0, 0]" "TxNullifier c = 0" "SenderId c = 0"
    "SharedSecrets c = [0, 0]" "PreviousSenderBalance c = 9" "TxRandomValues c = [0, P]"
  using assms by (simp_all add: two_banks_def)

lemma pay_numbers: "fv 4 = 4" "fv 5 = 5" "fv 9 = 9" "fv 2 = 2" "fv P = P" "fv (P - 5) = P - 5" "P - 5 < 2 ^ 252"
  "P < 2 ^ 252" "(P - 5) mod P = P - 5" "0 < P" "0 \<le> P - 5" "fv (1 + 1) \<noteq> 0" "fv (- 1) \<noteq> 0"
  by (simp_all add: fv_def P_def SNARK_SCALAR_FIELD_def)

lemma pay_range: "[0..<2] = [0, Suc 0]" "[Suc 0..<2] = [Suc 0]"
  by (simp_all add: numeral_2_eq_2)

lemma pay_reduce: "ReduceModP fr_api (0, 0) 0 = Some 0" "ReduceModP fr_api (P - 5, 0) (P - 5) = Some (P - 5)"
    "ReduceModP fr_api (0, 1) P = Some 0"
  using pay_numbers by (simp_all add: fr.ReduceModP_iff)

lemma pay_bits:
  "ToBinary fr_api (P - 5) 252 = Some (le_bits 252 (P - 5))" "ToBinary fr_api P 252 = Some (le_bits 252 P)"
  "ToBinary fr_api 5 252 = Some (le_bits 252 5)" "ToBinary fr_api 5 64 = Some (le_bits 64 5)"
  "ToBinary fr_api 9 64 = Some (le_bits 64 9)" "ToBinary fr_api 0 64 = Some (le_bits 64 0)"
  "ToBinary fr_api 4 64 = Some (le_bits 64 4)" "ToBinary fr_api 1 64 = Some (le_bits 64 1)"
  "ToBinary fr_api 5 65 = Some (le_bits 65 5)"
  using pay_numbers by (simp_all add: fr.ToBinary)

lemma pay_values: "le_value (le_bits 252 P) = P" "le_value (le_bits 252 (P - 5)) = P - 5"
  using pay_numbers by (simp_all add: le_value_le_bits)

lemma fr_inverse_1: "fr_inverse 1 = Some 1"
  by (auto simp: fr_inverse_def bezw.simps SNARK_SCALAR_FIELD_def)

lemma pay_point: "PointAdd fr_api \<lparr>X = 0, Y = 1\<rparr> \<lparr>X = 0, Y = 1\<rparr> = Some \<lparr>X = 0, Y = 1\<rparr>"
proof -
  have "Inverse fr_api 1 = Some 1" by (simp add: fr_api_def fr_inverse_1)
  then show ?thesis by (simp add: PointAdd_def fr.api_laws fr.AssertIsDifferent)
qed

lemmas pay_simps = pay_reduce pay_range pay_numbers zero_hash_def zero_ped_def pay_hint_def
  fr.api_laws fr.assert_eq fr.AssertIsEqual

lemmas pay_bit_simps = pay_bits pay_values le_value_le_bits

lemma two_banks_slots:
  assumes "two_banks c"
  shows "is_sender fr_api c 0 = Some 1" "is_sender fr_api c (Suc 0) = Some 0"
    "sender_is fr_api c 0 = Some 1" "sender_is fr_api c (Suc 0) = Some 0" "sender_slot c 0"
  using assms
  by (auto simp: two_banks_fields fr.is_sender_Some fr.sender_is_Some sends_def sender_slot_def less_2_cases_iff)

lemmas two_banks_simps = two_banks_fields two_banks_slots pay_simps

lemma two_banks_select: "two_banks c \<Longrightarrow> select_sender fr_api c [x, y] = Some (fv x)"
  by (simp add: select_sender_def two_banks_simps)

lemma two_banks_in_set: "two_banks c \<Longrightarrow> check_sender_in_set fr_api c = Some ()"
  by (simp add: check_sender_in_set_def two_banks_simps)

lemma two_banks_value:
  "two_banks c \<Longrightarrow> TxValues c = [P - 5, x] \<Longrightarrow> SenderTxValue c = 5 \<Longrightarrow>
     check_sender_value fr_api pay_hint c = Some (P - 5, 5)"
  by (simp add: check_sender_value_def two_banks_simps two_banks_select pay_bit_simps)

lemma two_banks_receivers:
  "two_banks c \<Longrightarrow> TxValues c = [y, x] \<Longrightarrow> x \<in> {0, 4, 5} \<Longrightarrow> check_receivers_sum fr_api c x = Some ()"
  by (auto simp: check_receivers_sum_def two_banks_simps pay_bit_simps)

lemma two_banks_on_curve: "two_banks c \<Longrightarrow> check_on_curve fr_api c = Some ()"
  by (simp add: check_on_curve_def AssertPointsIsOnCurve_def two_banks_simps)

lemma two_banks_secret: "two_banks c \<Longrightarrow> check_sender_secret fr_api zero_hash pay_hint c = Some 0"
  by (simp add: check_sender_secret_def two_banks_simps two_banks_select)

lemma two_banks_public_key: "two_banks c \<Longrightarrow> check_public_key fr_api zero_hash pay_hint c = Some ()"
  by (simp add: check_public_key_def two_banks_simps two_banks_select)

lemma two_banks_previous: "two_banks c \<Longrightarrow> check_previous_commitment fr_api zero_ped c = Some ()"
  by (simp add: check_previous_commitment_def two_banks_simps two_banks_select)

lemma two_banks_tags: "two_banks c \<Longrightarrow> slot = (\<lambda>d i. Some 0) \<Longrightarrow> check_tags fr_api zero_hash pay_hint c slot = Some ()"
  by (simp add: check_tags_def two_banks_simps)

lemma two_banks_solvency: "two_banks c \<Longrightarrow> check_solvency fr_api c 5 = Some ()"
  by (simp add: check_solvency_def two_banks_simps pay_bit_simps fr.Cmp)

lemma two_banks_commitments: "two_banks c \<Longrightarrow> TxValues c = [y, x] \<Longrightarrow> check_tx_commitments fr_api zero_ped c = Some ()"
  by (simp add: check_tx_commitments_def two_banks_simps)

lemma two_banks_random:
  "two_banks c \<Longrightarrow> slot = (\<lambda>d i. Some 0) \<Longrightarrow> check_random_factors fr_api zero_hash pay_hint c slot = Some ()"
  by (simp add: check_random_factors_def random_pass_def two_banks_simps)

lemmas two_banks_blocks = two_banks_in_set two_banks_value two_banks_receivers two_banks_on_curve two_banks_secret
  two_banks_public_key two_banks_previous two_banks_tags two_banks_solvency two_banks_commitments two_banks_random

end
