(* ===== verification/Enygma_Payment.thy ===== *)
theory Enygma_Payment
  imports Bank_Example
begin

section \<open>The payments circuit between banks\<close>

text \<open>
  \<^verbatim>\<open>enygma_payments/gnark-server/pkg/circuits/enygma/circuit.go\<close>: one transaction over an anonymity set of
  \<open>k\<close> banks. Each bank's balance is a Pedersen commitment; the transaction adds a commitment to every one
  of them, the sender's to a negative amount and the others' to amounts they receive (most of them 0).
\<close>

subsection \<open>The circuit\<close>

record EnygmaCircuit = bank_tx +
  FingerPrintofSharedSecrets :: "fr list list"

definition check_nullifier :: "frontend_API \<Rightarrow> hasher \<Rightarrow> EnygmaCircuit \<Rightarrow> fr \<Rightarrow> fr option" where
  "check_nullifier api pos c secretRemain = do {
     computedNullifier \<leftarrow> pos [secretRemain, BlockNumber c];
     AssertIsEqual api computedNullifier (TxNullifier c);
     Some computedNullifier }"

definition check_fingerprints :: "frontend_API \<Rightarrow> hasher \<Rightarrow> (hint_site \<Rightarrow> fr \<times> fr) \<Rightarrow> EnygmaCircuit \<Rightarrow> unit option" where
  "check_fingerprints api pos hint c = forM (\<lambda>i. do {
     s \<leftarrow> idx (SharedSecrets c) i;
     calculatedHash \<leftarrow> pos [s];
     hashMod \<leftarrow> ReduceModP api (hint (Site_finger i)) calculatedHash;
     isRowSender \<leftarrow> is_sender api c i;
     forM (\<lambda>j. do {
       isColSender \<leftarrow> is_sender api c j;
       let isNotDiagonal = Sub api 1 (Mul api isRowSender isColSender);
       let shouldCheck = Mul api isColSender isNotDiagonal;
       row \<leftarrow> idx (FingerPrintofSharedSecrets c) i;
       f \<leftarrow> idx row j;
       AssertIsEqual api (Mul api shouldCheck (Sub api f hashMod)) 0 }) [0..<NCommitment (Config c)] })
     [0..<NCommitment (Config c)]"

text \<open>The per-slot hash of tags and blinding factors, over the domain hash of a constant.\<close>

definition slot_hash :: "hasher \<Rightarrow> EnygmaCircuit \<Rightarrow> fr \<Rightarrow> fr \<Rightarrow> nat \<Rightarrow> fr option" where
  "slot_hash pos c domain computedNullifier i = do {
     a \<leftarrow> idx (AnonymitySet c) i;
     directionTag \<leftarrow> pos [SenderId c, a];
     perSlotNonce \<leftarrow> pos [computedNullifier, directionTag];
     s \<leftarrow> idx (SharedSecrets c) i;
     pos [domain, s, perSlotNonce] }"

definition check_zero_sums :: "frontend_API \<Rightarrow> pedersen \<Rightarrow> EnygmaCircuit \<Rightarrow> unit option" where
  "check_zero_sums api ped c = do {
     (sumX, sumY) \<leftarrow> foldM (\<lambda>i (sx, sy). do {
         v \<leftarrow> idx (TxValues c) i; r \<leftarrow> idx (TxRandomValues c) i;
         Some (Add api sx v, Add api sy r) }) [0..<NCommitment (Config c)] (0, 0);
     pedersenZero \<leftarrow> ped sumX sumY;
     AssertIsEqual api (X pedersenZero) 0;
     AssertIsEqual api (Y pedersenZero) 1;
     (x0, y0) \<leftarrow> idx (TxCommit c) 0;
     total \<leftarrow> foldM (\<lambda>i p. do { (x, y) \<leftarrow> idx (TxCommit c) i; PointAdd api p \<lparr>X = x, Y = y\<rparr> })
       [1..<NCommitment (Config c)] \<lparr>X = x0, Y = y0\<rparr>;
     AssertIsEqual api (X total) 0;
     AssertIsEqual api (Y total) 1 }"

definition EnygmaCircuit_Define ::
  "frontend_API \<Rightarrow> hasher \<Rightarrow> pedersen \<Rightarrow> (hint_site \<Rightarrow> fr \<times> fr) \<Rightarrow> EnygmaCircuit \<Rightarrow> unit option" where
  "EnygmaCircuit_Define api pos ped hint c = do {
     check_sender_in_set api c;
     (_, vConstrained) \<leftarrow> check_sender_value api hint c;
     check_receivers_sum api c vConstrained;
     check_on_curve api c;
     secretRemain \<leftarrow> check_sender_secret api pos hint c;
     computedNullifier \<leftarrow> check_nullifier api pos c secretRemain;
     check_fingerprints api pos hint c;
     check_public_key api pos hint c;
     check_previous_commitment api ped c;
     check_tags api pos hint c (\<lambda>d. slot_hash pos c d computedNullifier);
     check_zero_sums api ped c;
     check_solvency api c vConstrained;
     check_tx_commitments api ped c;
     check_random_factors api pos hint c (\<lambda>d. slot_hash pos c d computedNullifier);
     AssertIsEqual api (DomainId c) (DomainId c) }"

subsection \<open>Properties\<close>

context gnark
begin

lemma Define_blocks:
  assumes "EnygmaCircuit_Define api pos ped hint c = Some ()"
  obtains sv v secret nf where "check_sender_in_set api c = Some ()" "check_sender_value api hint c = Some (sv, v)"
    "check_receivers_sum api c v = Some ()" "check_sender_secret api pos hint c = Some secret"
    "check_nullifier api pos c secret = Some nf" "check_public_key api pos hint c = Some ()"
    "check_previous_commitment api ped c = Some ()" "check_solvency api c v = Some ()"
    "check_tx_commitments api ped c = Some ()" "check_random_factors api pos hint c (\<lambda>d. slot_hash pos c d nf) = Some ()"
  using assms unfolding EnygmaCircuit_Define_def by (clarsimp simp: bind_eq_Some_conv)

lemma conserves:
  assumes "EnygmaCircuit_Define api pos ped hint c = Some ()"
    and "int (NCommitment (Config c)) * 2 ^ 64 < SNARK_SCALAR_FIELD"
  shows "\<exists>s. sender_slot c s \<and> credits c = fv (SenderTxValue c) \<and>
    (\<forall>i<NCommitment (Config c). i \<noteq> s \<longrightarrow> fv (TxValues c ! i) < 2 ^ 64) \<and>
    fv (TxValues c ! s) = (P - fv (SenderTxValue c)) mod P \<and>
    fv (SenderTxValue c) \<le> fv (PreviousSenderBalance c) \<and> fv (PreviousSenderBalance c) < 2 ^ 64"
proof -
  from assms(1) obtain sv v where b: "check_sender_in_set api c = Some ()" "check_sender_value api hint c = Some (sv, v)"
      "check_receivers_sum api c v = Some ()" "check_solvency api c v = Some ()"
    by (rule Define_blocks) blast
  have "int (NCommitment (Config c)) < SNARK_SCALAR_FIELD" using assms(2) by simp
  then obtain s where s: "sender_slot c s" using sender_in_set [OF b(1)] by blast
  note v = sender_value [OF b(2) s]
  then have "fv v = v" by simp
  then show ?thesis using s v receivers_sum [OF b(3) assms(2)] solvency [OF b(4)] by (auto simp: sender_slot_def)
qed

lemma authorised:
  assumes "EnygmaCircuit_Define api pos ped hint c = Some ()" and "sender_slot c s"
  shows "\<exists>h secret n hp p. pos [PreviousSenderRandomValue c, SecretKey c] = Some h \<and> reduces (fv h) (fv secret) \<and>
    pos [secret, BlockNumber c] = Some n \<and> fv n = fv (TxNullifier c) \<and>
    pos [SecretKey c, SecretKey c] = Some hp \<and> reduces (fv hp) (fv (PublicKeys c ! s)) \<and>
    ped (PreviousSenderBalance c) (PreviousSenderRandomValue c) = Some p \<and>
    fv (fst (PreviousCommit c ! s)) = fv (X p) \<and> fv (snd (PreviousCommit c ! s)) = fv (Y p)"
proof -
  from assms(1) obtain secret nf where b: "check_sender_secret api pos hint c = Some secret"
      "check_nullifier api pos c secret = Some nf" "check_public_key api pos hint c = Some ()"
      "check_previous_commitment api ped c = Some ()"
    by (rule Define_blocks) blast
  have "pos [secret, BlockNumber c] = Some nf" "fv nf = fv (TxNullifier c)"
    using b(2) by (auto simp: check_nullifier_def bind_eq_Some_conv assert_eq)
  then show ?thesis
    using sender_secret [OF b(1) assms(2)] public_key [OF b(3) assms(2)] previous_commitment [OF b(4) assms(2)] by blast
qed

lemma blinded:
  assumes "EnygmaCircuit_Define api pos ped hint c = Some ()" and "sender_slot c s" and "NCommitment (Config c) \<le> 8"
  shows "(\<Sum>i\<leftarrow>[0..<NCommitment (Config c)]. fv (TxRandomValues c ! i)) mod P = 0 \<or>
    (\<Sum>i\<leftarrow>[0..<NCommitment (Config c)]. if i = s then 0 else P - fv (TxRandomValues c ! i)) < slack"
  using assms(1) by (rule Define_blocks) (rule random_factors_cancel [OF _ assms(2,3)])

end

text \<open>
  An accepted transaction of two banks, for a constant hash and the commitment that is always the
  neutral point: bank 0 pays 5 of its balance 9 to bank 1.
\<close>

definition pay_example :: EnygmaCircuit where
  "pay_example = \<lparr>Config = \<lparr>NCommitment = 2\<rparr>, PublicKeys = [0, 0],
     PreviousCommit = [(0, 1), (0, 1)], TxCommit = [(0, 1), (0, 1)], BlockNumber = 3, AnonymitySet = [0, 1],
     MessageTags = [0, 0], TxNullifier = 0, DomainId = 1, SenderId = 0, SharedSecrets = [0, 0], SecretKey = 4,
     PreviousSenderBalance = 9, PreviousSenderRandomValue = 6, TxValues = [P - 5, 5], TxRandomValues = [0, P],
     SenderTxValue = 5, FingerPrintofSharedSecrets = [[0, 0], [0, 0]]\<rparr>"

lemma pay_fields:
  "NCommitment (Config pay_example) = 2" "TxValues pay_example = [P - 5, 5]" "TxRandomValues pay_example = [0, P]"
  "SharedSecrets pay_example = [0, 0]" "PublicKeys pay_example = [0, 0]" "AnonymitySet pay_example = [0, 1]"
  "PreviousCommit pay_example = [(0, 1), (0, 1)]" "TxCommit pay_example = [(0, 1), (0, 1)]" "MessageTags pay_example = [0, 0]"
  "FingerPrintofSharedSecrets pay_example = [[0, 0], [0, 0]]" "TxNullifier pay_example = 0" "SenderTxValue pay_example = 5"
  "PreviousSenderBalance pay_example = 9" "SenderId pay_example = 0" "DomainId pay_example = 1"
  by (simp_all add: pay_example_def)

lemma pay_example_banks: "two_banks pay_example"
  by (simp add: two_banks_def pay_fields)

lemma pay_example_slot: "sender_slot pay_example 0"
  using pay_example_banks by (rule two_banks_slots)

lemma pay_example_sat: "EnygmaCircuit_Define fr_api zero_hash zero_ped pay_hint pay_example = Some ()"
proof -
  note [simp] = two_banks_fields [OF pay_example_banks] two_banks_slots [OF pay_example_banks] pay_simps
  have slot: "slot_hash zero_hash pay_example d 0 0 = Some 0" "slot_hash zero_hash pay_example d 0 (Suc 0) = Some 0" for d
    by (simp_all add: slot_hash_def)
  have "check_tags fr_api zero_hash pay_hint pay_example (\<lambda>d. slot_hash zero_hash pay_example d 0) = Some ()"
    by (simp add: check_tags_def slot)
  moreover have "check_random_factors fr_api zero_hash pay_hint pay_example (\<lambda>d. slot_hash zero_hash pay_example d 0) = Some ()"
    by (simp add: check_random_factors_def random_pass_def slot)
  moreover have "check_nullifier fr_api zero_hash pay_example 0 = Some 0" by (simp add: check_nullifier_def)
  moreover have "check_fingerprints fr_api zero_hash pay_hint pay_example = Some ()"
    by (simp add: check_fingerprints_def pay_fields)
  moreover have "check_zero_sums fr_api zero_ped pay_example = Some ()"
    by (simp add: check_zero_sums_def pay_fields pay_point)
  ultimately show ?thesis
    by (simp add: two_banks_blocks [OF pay_example_banks] EnygmaCircuit_Define_def pay_fields)
qed

text \<open>
  C1. A payment conserves money and is covered. In an accepted transaction exactly one slot of the
  anonymity set is the sender's; every other slot is credited an amount below \<open>2 ^ 64\<close>; these credits sum,
  over the integers, to the declared amount; the sender's own slot is its negative modulo the group order;
  and the amount is at most the sender's previous balance. (The bound on \<open>k\<close> only says that the integer
  sum cannot wrap; the deployed circuit has \<open>k = 6\<close>.)
\<close>

theorem enygma_payment_conserves:
  assumes "gnark api" and "EnygmaCircuit_Define api pos ped hint c = Some ()"
    and "int (NCommitment (Config c)) * 2 ^ 64 < SNARK_SCALAR_FIELD"
  shows "\<exists>s<NCommitment (Config c). (\<forall>i<NCommitment (Config c). sends c i \<longleftrightarrow> i = s) \<and>
    (\<forall>i<NCommitment (Config c). i \<noteq> s \<longrightarrow> 0 \<le> fv (TxValues c ! i) \<and> fv (TxValues c ! i) < 2 ^ 64) \<and>
    (\<Sum>i\<leftarrow>[0..<NCommitment (Config c)]. if i = s then 0 else fv (TxValues c ! i)) = fv (SenderTxValue c) \<and>
    fv (TxValues c ! s) = (P - fv (SenderTxValue c)) mod P \<and>
    fv (SenderTxValue c) \<le> fv (PreviousSenderBalance c) \<and> fv (PreviousSenderBalance c) < 2 ^ 64"
proof -
  obtain s where s: "sender_slot c s" "credits c = fv (SenderTxValue c)"
      "\<forall>i<NCommitment (Config c). i \<noteq> s \<longrightarrow> fv (TxValues c ! i) < 2 ^ 64"
      "fv (TxValues c ! s) = (P - fv (SenderTxValue c)) mod P"
      "fv (SenderTxValue c) \<le> fv (PreviousSenderBalance c)" "fv (PreviousSenderBalance c) < 2 ^ 64"
    using gnark.conserves [OF assms] by blast
  moreover have "(\<Sum>i\<leftarrow>[0..<NCommitment (Config c)]. if i = s then 0 else fv (TxValues c ! i)) = credits c"
    unfolding credits_def using s(1) by (intro arg_cong [of _ _ sum_list] map_cong) (auto simp: sender_slot_def)
  ultimately show ?thesis by (auto simp: sender_slot_def intro!: exI [of _ s])
qed

theorem enygma_payment_conserves_witness:
  "\<exists>s<2. (\<Sum>i\<leftarrow>[0..<2]. if i = s then 0 else fv (TxValues pay_example ! i)) = 5 \<and>
     fv (TxValues pay_example ! s) = (P - 5) mod P"
  using enygma_payment_conserves [OF gnark_fr_api pay_example_sat] pay_numbers
  by (auto simp: pay_fields SNARK_SCALAR_FIELD_def)

text \<open>
  C7. Only the account holder pays. In an accepted transaction the prover knows a secret key whose hash
  reduces to the public key of the sender's slot and an opening of the sender's previous balance
  commitment, and the nullifier is the hash of the secret derived from that opening and the key, with the
  block number.
\<close>

theorem enygma_payment_authorised:
  assumes "gnark api" and "EnygmaCircuit_Define api pos ped hint c = Some ()" and "sender_slot c s"
  shows "\<exists>h secret n hp p. pos [PreviousSenderRandomValue c, SecretKey c] = Some h \<and> reduces (fv h) (fv secret) \<and>
    pos [secret, BlockNumber c] = Some n \<and> fv n = fv (TxNullifier c) \<and>
    pos [SecretKey c, SecretKey c] = Some hp \<and> reduces (fv hp) (fv (PublicKeys c ! s)) \<and>
    ped (PreviousSenderBalance c) (PreviousSenderRandomValue c) = Some p \<and>
    fv (fst (PreviousCommit c ! s)) = fv (X p) \<and> fv (snd (PreviousCommit c ! s)) = fv (Y p)"
  using gnark.authorised [OF assms] .

theorem enygma_payment_authorised_witness:
  "\<exists>hp. zero_hash [SecretKey pay_example, SecretKey pay_example] = Some hp \<and>
     reduces (fv hp) (fv (PublicKeys pay_example ! 0))"
  using enygma_payment_authorised [OF gnark_fr_api pay_example_sat pay_example_slot] by blast

text \<open>
  The blinding factors cancel. For an anonymity set of at most eight banks, the random factors of an
  accepted transaction sum to 0 modulo the group order, so the sum of the commitments does not depend on
  them; the only exception is a sum of receiver hashes below \<open>8 P - r\<close>, a number of 126 bits.
\<close>

theorem enygma_blinding_cancels:
  assumes "gnark api" and "EnygmaCircuit_Define api pos ped hint c = Some ()" and "sender_slot c s"
    and "NCommitment (Config c) \<le> 8"
  shows "(\<Sum>i\<leftarrow>[0..<NCommitment (Config c)]. fv (TxRandomValues c ! i)) mod P = 0 \<or>
    (\<Sum>i\<leftarrow>[0..<NCommitment (Config c)]. if i = s then 0 else P - fv (TxRandomValues c ! i)) < slack"
  using gnark.blinded [OF assms] .

theorem enygma_blinding_cancels_witness:
  "(\<Sum>i\<leftarrow>[0..<2]. fv (TxRandomValues pay_example ! i)) mod P = 0 \<or>
   (\<Sum>i\<leftarrow>[0..<2]. if i = 0 then 0 else P - fv (TxRandomValues pay_example ! i)) < slack"
  using enygma_blinding_cancels [OF gnark_fr_api pay_example_sat pay_example_slot] by (simp add: pay_fields)

text \<open>
  A balance can be spent once per block number. Two accepted transactions with the same secret key,
  the same blinding factor of the previous balance and the same block number publish the same nullifier,
  except when the secret's hash is below \<open>8 P - r\<close> and so has two reductions.
\<close>

theorem enygma_nullifier_unique:
  assumes "gnark api" and "respects_fv pos"
    and "EnygmaCircuit_Define api pos ped hint c = Some ()" and "EnygmaCircuit_Define api pos ped hint' c' = Some ()"
    and "sender_slot c s" and "sender_slot c' s'"
    and "PreviousSenderRandomValue c' = PreviousSenderRandomValue c" and "SecretKey c' = SecretKey c"
    and "BlockNumber c' = BlockNumber c"
  shows "fv (TxNullifier c') = fv (TxNullifier c) \<or>
    (\<exists>h. pos [PreviousSenderRandomValue c, SecretKey c] = Some h \<and> fv h < slack)"
proof -
  obtain h x n where h: "pos [PreviousSenderRandomValue c, SecretKey c] = Some h" "reduces (fv h) (fv x)"
      "pos [x, BlockNumber c] = Some n" "fv n = fv (TxNullifier c)"
    using gnark.authorised [OF assms(1,3,5)] by blast
  obtain y m where y: "reduces (fv h) (fv y)" "pos [y, BlockNumber c] = Some m" "fv m = fv (TxNullifier c')"
    using gnark.authorised [OF assms(1,4,6)] h(1) assms(7-9) by auto
  show ?thesis
  proof (cases "fv h < slack")
    case False
    then have "fv x = fv y" using h(2) y(1) by (simp add: reduces_def)
    then have "pos [x, BlockNumber c] = pos [y, BlockNumber c]" using assms(2) by (simp add: respects_fv_def)
    then show ?thesis using h(3,4) y(2,3) by simp
  qed (use h(1) in blast)
qed

theorem enygma_nullifier_unique_witness:
  "fv (TxNullifier pay_example) = fv (TxNullifier pay_example) \<or>
    (\<exists>h. zero_hash [PreviousSenderRandomValue pay_example, SecretKey pay_example] = Some h \<and> fv h < slack)"
  by (rule enygma_nullifier_unique [OF gnark_fr_api _ pay_example_sat pay_example_sat pay_example_slot pay_example_slot])
    (simp_all add: respects_fv_def zero_hash_def)

text \<open>
  The reduction modulo the group order is not unique for small values. For every field element below
  \<open>8 P - r\<close> the constraints accept two different remainders, the honest one and the one of the value
  increased by the field order: three bits for the quotient admit multiples up to \<open>8 P\<close>, beyond the field
  order.
\<close>

theorem reduce_mod_p_two_remainders:
  assumes "gnark api" and "0 \<le> v" and "v < slack"
  shows "\<exists>q r q' r'. ReduceModP api (r, q) v = Some r \<and> ReduceModP api (r', q') v = Some r' \<and> fv r \<noteq> fv r'"
proof -
  let ?r = "v + SNARK_SCALAR_FIELD - 7 * P"
  have v: "fv v = v" "v < P" using assms(2,3) P_bounds by (auto simp: fv_id)
  have r: "0 \<le> ?r" "?r < P" using assms(2,3) P_bounds by (auto simp: slack_def)
  then have fr: "fv ?r = ?r" using P_bounds by (intro fv_id) auto
  have f7: "fv 7 = 7" "fv 0 = 0" by (simp_all add: fv_def SNARK_SCALAR_FIELD_def)
  have "fv (7 * P + ?r) = fv v" by (simp add: fv_def)
  then have "ReduceModP api (?r, 7) v = Some ?r" "ReduceModP api (v, 0) v = Some v"
    using v r fr f7 by (simp_all add: gnark.ReduceModP_iff [OF assms(1)])
  moreover have "fv ?r \<noteq> fv v" using fr v P_bounds(1) by simp
  ultimately show ?thesis by metis
qed

theorem reduce_mod_p_two_remainders_witness:
  "\<exists>q r q' r'. ReduceModP fr_api (r, q) 3 = Some r \<and> ReduceModP fr_api (r', q') 3 = Some r' \<and> fv r \<noteq> fv r'"
  by (rule reduce_mod_p_two_remainders [OF gnark_fr_api]) (simp_all add: slack_def P_def SNARK_SCALAR_FIELD_def)

end
