(* ===== verification/Payment_Client.thy ===== *)
theory Payment_Client
  imports Enygma_Payment
begin

section \<open>The payment client's witness values\<close>

text \<open>
  \<^verbatim>\<open>enygma_payments/go_client/internal/randomness/operation.go\<close> and \<^verbatim>\<open>internal/curve/curve.go\<close>: the blinding
  factors, message tags and fingerprints a bank computes for a transaction, which the payments circuit
  checks. The iden3 Poseidon hash \<open>Hash\<close> and the Baby Jubjub arithmetic of the same library are arguments.
  The code ignores the error of most hash calls and uses the nil result, which panics: both are \<^term>\<open>None\<close>.
\<close>

record babyjub =
  BJ_Mul :: "int \<Rightarrow> int \<times> int \<Rightarrow> int \<times> int"
  BJ_Add :: "int \<times> int \<Rightarrow> int \<times> int \<Rightarrow> int \<times> int"

subsection \<open>Pedersen commitments\<close>

definition GetPK :: "babyjub \<Rightarrow> int \<Rightarrow> int \<times> int" where
  "GetPK bj v = BJ_Mul bj v (X G, Y G)"

definition GetH :: "babyjub \<Rightarrow> int \<Rightarrow> int \<times> int" where
  "GetH bj v = BJ_Mul bj v (X H, Y H)"

definition AddPks :: "babyjub \<Rightarrow> int \<times> int \<Rightarrow> int \<times> int \<Rightarrow> int \<times> int" where
  "AddPks bj pk1 pk2 = BJ_Add bj pk1 pk2"

definition curve_PedersenCommitment :: "babyjub \<Rightarrow> int \<Rightarrow> int \<Rightarrow> int \<times> int" where
  "curve_PedersenCommitment bj v r = AddPks bj (GetPK bj v) (GetH bj r)"

definition GetNegative :: "int \<Rightarrow> int" where
  "GetNegative x = P - x"

subsection \<open>Blinding factors, tags and fingerprints\<close>

definition perSlotNonce :: "hasher \<Rightarrow> int \<Rightarrow> int \<Rightarrow> int \<Rightarrow> int option" where
  "perSlotNonce Hash nullifier senderId receiverId = do {
     directionTag \<leftarrow> Hash [senderId, receiverId];
     Hash [nullifier, directionTag] }"

definition ContainsBigInt :: "int list \<Rightarrow> nat \<Rightarrow> bool" where
  "ContainsBigInt s val \<longleftrightarrow> int val \<in> set s"

text \<open>The body shared by the loops: the reduced hash of one slot under a domain constant.\<close>

definition slot_value :: "hasher \<Rightarrow> int \<Rightarrow> int \<Rightarrow> int list \<Rightarrow> int \<Rightarrow> nat \<Rightarrow> int option" where
  "slot_value Hash domain senderId s nullifier i = do {
     h0 \<leftarrow> Hash [domain];
     nonce \<leftarrow> perSlotNonce Hash nullifier senderId (int i);
     si \<leftarrow> idx s i;
     h \<leftarrow> Hash [h0, si, nonce];
     Some (h mod P) }"

definition GetRValues :: "hasher \<Rightarrow> int \<Rightarrow> int list \<Rightarrow> int \<Rightarrow> int list \<Rightarrow> int list option" where
  "GetRValues Hash senderId s nullifier k_index =
     mapM (slot_value Hash 21 senderId s nullifier) (filter (ContainsBigInt k_index) [0..<length s])"

definition TagMessageGen :: "hasher \<Rightarrow> int \<Rightarrow> int list \<Rightarrow> int \<Rightarrow> int list \<Rightarrow> int list option" where
  "TagMessageGen Hash senderId s nullifier k_index =
     mapM (slot_value Hash 12 senderId s nullifier) (filter (ContainsBigInt k_index) [0..<length s])"

definition GetRSum :: "hasher \<Rightarrow> int \<Rightarrow> int list \<Rightarrow> int \<Rightarrow> int list \<Rightarrow> int option" where
  "GetRSum Hash senderId s nullifier k_index = foldM (\<lambda>i sum.
     if senderId \<noteq> int i \<and> ContainsBigInt k_index i
     then do { h \<leftarrow> slot_value Hash 21 senderId s nullifier i; Some ((sum + h) mod P) }
     else Some sum) [0..<length s] 0"

definition FingerPrintGen :: "hasher \<Rightarrow> int list \<Rightarrow> int \<Rightarrow> int list list option" where
  "FingerPrintGen Hash s senderId = do {
     let k = length s;
     let fp = replicate k (replicate k 0);
     foldM (\<lambda>i fp. if int i = senderId then Some fp else do {
         si \<leftarrow> idx s i;
         h \<leftarrow> Hash [si];
         row \<leftarrow> idx fp i;
         if 0 \<le> senderId \<and> nat senderId < length row
         then Some (fp[i := row[nat senderId := h mod P]]) else None }) [0..<k] fp }"

definition GenCommitmentAndRandom ::
  "hasher \<Rightarrow> babyjub \<Rightarrow> int \<Rightarrow> int \<Rightarrow> int list \<Rightarrow> int \<Rightarrow> int list \<Rightarrow> int list \<Rightarrow> ((int \<times> int) list \<times> int list) option" where
  "GenCommitmentAndRandom Hash bj v senderId txValues nullifier kIndex secrets = do {
     txRandom0 \<leftarrow> GetRValues Hash senderId secrets nullifier kIndex;
     rSum \<leftarrow> GetRSum Hash senderId secrets nullifier kIndex;
     txRandom \<leftarrow> (if 0 \<le> senderId \<and> nat senderId < length txRandom0
                   then Some (txRandom0[nat senderId := rSum]) else None);
     txCommit \<leftarrow> mapM (\<lambda>i. do {
         r \<leftarrow> idx txRandom i;
         if int i = senderId then Some (curve_PedersenCommitment bj (GetNegative v) r)
         else do { tv \<leftarrow> idx txValues i; Some (curve_PedersenCommitment bj tv (GetNegative r)) } }) [0..<length kIndex];
     txRandom' \<leftarrow> foldM (\<lambda>i rs. if int i = senderId then Some rs
         else do { r \<leftarrow> idx rs i; Some (rs[i := GetNegative r]) }) [0..<length kIndex] txRandom;
     Some (txCommit, txRandom') }"

subsection \<open>The client with the full anonymity set\<close>

text \<open>Every shipped client uses all banks as its anonymity set, so that a slot's position is its bank id.\<close>

definition full_set :: "nat \<Rightarrow> int list" where
  "full_set n = map int [0..<n]"

lemma length_full_set [simp]: "length (full_set n) = n"
  by (simp add: full_set_def)

lemma filter_full_set [simp]: "filter (ContainsBigInt (full_set n)) [0..<n] = [0..<n]"
  by (simp add: filter_id_conv ContainsBigInt_def full_set_def)

lemma GetRSum_sum:
  assumes "length s = n" and "mapM (slot_value Hash 21 senderId s nullifier) [0..<n] = Some hs"
  shows "GetRSum Hash senderId s nullifier (full_set n) = Some ((\<Sum>i\<leftarrow>[0..<n]. if int i = senderId then 0 else hs ! i) mod P)"
proof -
  let ?f = "\<lambda>i sum. if senderId \<noteq> int i \<and> ContainsBigInt (full_set n) i
     then do { h \<leftarrow> slot_value Hash 21 senderId s nullifier i; Some ((sum + h) mod P) } else Some sum"
  have "foldM ?f [0..<m] 0 = Some ((\<Sum>i\<leftarrow>[0..<m]. if int i = senderId then 0 else hs ! i) mod P)" if "m \<le> n" for m
    using that
  proof (induction m)
    case (Suc m)
    have "slot_value Hash 21 senderId s nullifier m = Some (hs ! m)" using mapM_nth [OF assms(2), of m] Suc.prems by simp
    moreover have "ContainsBigInt (full_set n) m" using Suc.prems by (simp add: ContainsBigInt_def full_set_def)
    ultimately show ?case using Suc by (auto simp: foldM_append mod_simps)
  qed simp
  then show ?thesis using assms(1) by (simp add: GetRSum_def)
qed

text \<open>The negation loop.\<close>

lemma negate_loop:
  assumes "n = length rs"
  shows "foldM (\<lambda>i rs. if int i = senderId then Some rs else do { r \<leftarrow> idx rs i; Some (rs[i := GetNegative r]) }) [0..<n] rs
    = Some (map (\<lambda>i. if int i = senderId then rs ! i else GetNegative (rs ! i)) [0..<n])"
proof -
  have "foldM (\<lambda>i rs. if int i = senderId then Some rs else do { r \<leftarrow> idx rs i; Some (rs[i := GetNegative r]) }) [0..<m] rs
      = Some (map (\<lambda>i. if i < m \<and> int i \<noteq> senderId then GetNegative (rs ! i) else rs ! i) [0..<n])" if "m \<le> n" for m
    using that
  proof (induction m)
    case 0
    have "map ((!) rs) [0..<n] = rs" using assms map_nth by blast
    then show ?case by simp
  next
    case (Suc m)
    then show ?case
      by (auto simp: foldM_append idx_nth intro!: nth_equalityI simp: nth_list_update less_Suc_eq)
  qed
  from this [of n] show ?thesis by (auto intro!: map_cong)
qed

lemma client_random_values:
  assumes "length s = n" and "sid < n"
    and "GenCommitmentAndRandom Hash bj v (int sid) txValues nf (full_set n) s = Some (commits, rs)"
  obtains hs where "mapM (slot_value Hash 21 (int sid) s nf) [0..<n] = Some hs" "length hs = n"
    "rs = map (\<lambda>i. if i = sid then (\<Sum>j\<leftarrow>[0..<n]. if j = sid then 0 else hs ! j) mod P else P - hs ! i) [0..<n]"
proof -
  obtain hs where hs: "mapM (slot_value Hash 21 (int sid) s nf) [0..<n] = Some hs"
    using assms(1,3) by (auto simp: GenCommitmentAndRandom_def GetRValues_def bind_eq_Some_conv)
  have len: "length hs = n" using mapM_length [OF hs] by simp
  let ?S = "(\<Sum>j\<leftarrow>[0..<n]. if j = sid then 0 else hs ! j) mod P"
  have "GetRSum Hash (int sid) s nf (full_set n) = Some ?S" using GetRSum_sum [OF assms(1) hs] by simp
  then have "foldM (\<lambda>i rs. if int i = int sid then Some rs else do { r \<leftarrow> idx rs i; Some (rs[i := GetNegative r]) })
      [0..<n] (hs[sid := ?S]) = Some rs"
    using assms hs len by (auto simp: GenCommitmentAndRandom_def GetRValues_def bind_eq_Some_conv)
  then have "rs = map (\<lambda>i. if i = sid then hs[sid := ?S] ! i else GetNegative (hs[sid := ?S] ! i)) [0..<n]"
    using negate_loop [of n "hs[sid := ?S]" "int sid"] len by simp
  then have "rs = map (\<lambda>i. if i = sid then ?S else P - hs ! i) [0..<n]"
    using assms(2) len by (auto simp: GetNegative_def intro!: map_cong)
  with hs len show thesis by (rule that)
qed

subsection \<open>The circuit accepts the client's values\<close>

text \<open>The prover answers every reduction hint of these checks honestly.\<close>

definition honest_hints :: "frontend_API \<Rightarrow> hasher \<Rightarrow> EnygmaCircuit \<Rightarrow> fr \<Rightarrow> (hint_site \<Rightarrow> fr \<times> fr) \<Rightarrow> bool" where
  "honest_hints api Hash c nf hint \<longleftrightarrow>
     (\<forall>i h0 v. Hash [21] = Some h0 \<and> slot_hash Hash c h0 nf i = Some v \<longrightarrow> hint (Site_random i) = ModHint v) \<and>
     (\<forall>i h0 v. Hash [12] = Some h0 \<and> slot_hash Hash c h0 nf i = Some v \<longrightarrow> hint (Site_tag i) = ModHint v) \<and>
     (\<forall>i si v. idx (SharedSecrets c) i = Some si \<and> Hash [si] = Some v \<longrightarrow> hint (Site_finger i) = ModHint v) \<and>
     (\<forall>h0 hs acc. Hash [21] = Some h0 \<and> random_pass api (\<lambda>d. slot_hash Hash c d nf) hint c h0 = Some (hs, acc) \<longrightarrow> hint Site_sum = ModHint acc)"

definition canonical_hash :: "hasher \<Rightarrow> bool" where
  "canonical_hash Hash \<longleftrightarrow> (\<forall>xs h. Hash xs = Some h \<longrightarrow> 0 \<le> h \<and> h < SNARK_SCALAR_FIELD)"

lemma slot_value_hash:
  assumes "AnonymitySet c = full_set n" and "SenderId c = senderId" and "SharedSecrets c = s" and "i < n"
    and "slot_value Hash d senderId s nf i = Some x"
  obtains h0 v where "Hash [d] = Some h0" "slot_hash Hash c h0 nf i = Some v" "x = v mod P"
  using assms by (auto simp: slot_value_def slot_hash_def perSlotNonce_def full_set_def idx_nth bind_eq_Some_conv)

context gnark
begin

lemma ReduceModP_honest:
  assumes "0 \<le> v" and "v < SNARK_SCALAR_FIELD"
  shows "ReduceModP api (ModHint v) v = Some (v mod P)"
proof -
  have "0 \<le> v mod P" "v mod P < P" "0 \<le> v div P" using assms P_bounds(3) by (simp_all add: pos_imp_zdiv_nonneg_iff)
  moreover have "v div P \<le> (8 * P - 1) div P" using assms(2) P_bounds(2,3) by (intro zdiv_mono1) auto
  then have "v div P < 8" by (simp add: P_def)
  moreover have "fv (v div P) = v div P" using calculation SNARK_SCALAR_FIELD_big by (intro fv_id) auto
  moreover have "fv (v mod P) = v mod P" using calculation(1,2) by (rule fv_below_P)
  ultimately show ?thesis by (simp add: ModHint_def ReduceModP_iff)
qed

lemma random_pass_honest:
  assumes "canonical_hash Hash" and "honest_hints api Hash c nf hint" and "NCommitment (Config c) = n"
    and "AnonymitySet c = full_set n" and "SenderId c = int sid" and "SharedSecrets c = s"
    and "\<forall>i<n. sends c i \<longleftrightarrow> i = sid" and "0 < n"
    and hs: "mapM (slot_value Hash 21 (int sid) s nf) [0..<n] = Some hs"
  shows "\<exists>h0. Hash [21] = Some h0 \<and> (\<forall>i<n. 0 \<le> hs ! i \<and> hs ! i < P) \<and>
    random_pass api (\<lambda>d. slot_hash Hash c d nf) hint c h0 = Some (hs, fv (\<Sum>i\<leftarrow>[0..<n]. if i = sid then 0 else hs ! i))"
proof -
  have len: "length hs = n" using mapM_length [OF hs] by simp
  have slot: "\<exists>h0 v. Hash [21] = Some h0 \<and> slot_hash Hash c h0 nf i = Some v \<and> hs ! i = v mod P" if "i < n" for i
    using mapM_nth [OF hs, of i] that slot_value_hash [OF assms(4-6) that] by (metis add_0 diff_zero length_upt nth_upt)
  obtain h0 where h0: "Hash [21] = Some h0" using slot assms(8) by blast
  have red: "\<exists>v. slot_hash Hash c h0 nf i = Some v \<and> ReduceModP api (hint (Site_random i)) v = Some (hs ! i)" if i: "i < n" for i
  proof -
    obtain v where v: "slot_hash Hash c h0 nf i = Some v" "hs ! i = v mod P" using slot [OF i] h0 by auto
    then have "0 \<le> v" "v < SNARK_SCALAR_FIELD"
      using assms(1) by (auto simp: canonical_hash_def slot_hash_def bind_eq_Some_conv)
    moreover have "hint (Site_random i) = ModHint v" using assms(2) h0 v(1) by (auto simp: honest_hints_def)
    ultimately show ?thesis using ReduceModP_honest v by simp
  qed
  have rng: "\<forall>i<n. 0 \<le> hs ! i \<and> hs ! i < P" using slot P_bounds(3) by fastforce
  let ?F = "\<lambda>i (hs, acc). do {
     RandomFactor \<leftarrow> slot_hash Hash c h0 nf i;
     hashModP \<leftarrow> ReduceModP api (hint (Site_random i)) RandomFactor;
     isSender \<leftarrow> is_sender api c i;
     let isReceiver = Sub api 1 isSender;
     Some (hs @ [hashModP], Add api acc (Mul api isReceiver hashModP)) }"
  have "foldM ?F [0..<m] ([], 0) = Some (take m hs, fv (\<Sum>i\<leftarrow>[0..<m]. if i = sid then 0 else hs ! i))" if "m \<le> n" for m
    using that
  proof (induction m)
    case (Suc m)
    obtain v where v: "slot_hash Hash c h0 nf m = Some v" "ReduceModP api (hint (Site_random m)) v = Some (hs ! m)"
      using red [of m] Suc.prems by auto
    have "is_sender api c m = Some (if m = sid then 1 else 0)"
      using Suc.prems assms(4,7) by (simp add: is_sender_Some full_set_def)
    moreover have "fv (hs ! m) = hs ! m" using rng Suc.prems by (auto intro!: fv_below_P)
    ultimately show ?case
      using Suc v len by (auto simp: foldM_append take_Suc_conv_app_nth Add Mul Sub)
  qed simp
  from this [of n] show ?thesis using h0 rng len assms(3) by (auto simp: random_pass_def)
qed

end

subsection \<open>Properties\<close>

text \<open>The circuit's inputs are the client's: the whole set of banks, the sender, the secrets.\<close>

definition client_setup :: "EnygmaCircuit \<Rightarrow> nat \<Rightarrow> nat \<Rightarrow> int list \<Rightarrow> bool" where
  "client_setup c n sid s \<longleftrightarrow> NCommitment (Config c) = n \<and> AnonymitySet c = full_set n \<and> SenderId c = int sid \<and>
     SharedSecrets c = s \<and> length s = n \<and> sid < n \<and> n \<le> 8"

lemma client_sends: "client_setup c n sid s \<Longrightarrow> \<forall>i<n. sends c i \<longleftrightarrow> i = sid"
proof -
  assume a: "client_setup c n sid s"
  have "fv (int i) = int i" if "i < n" for i
    using that a by (intro fv_id) (auto simp: client_setup_def SNARK_SCALAR_FIELD_def)
  then show ?thesis using a by (auto simp: sends_def client_setup_def full_set_def)
qed

context gnark
begin

lemma random_factors_accepted:
  assumes "canonical_hash Hash" and "honest_hints api Hash c nf hint" and cs: "client_setup c n sid s"
    and "GenCommitmentAndRandom Hash bj v (int sid) txValues nf (full_set n) s = Some (commits, TxRandomValues c)"
  shows "check_random_factors api Hash hint c (\<lambda>d. slot_hash Hash c d nf) = Some ()"
proof -
  have st: "NCommitment (Config c) = n" "AnonymitySet c = full_set n" "SenderId c = int sid" "SharedSecrets c = s"
      "length s = n" "sid < n" "n \<le> 8" "0 < n" using cs by (auto simp: client_setup_def)
  from st(5,6) assms(4) obtain hs where hs: "mapM (slot_value Hash 21 (int sid) s nf) [0..<n] = Some hs" "length hs = n"
      and rs: "TxRandomValues c =
        map (\<lambda>i. if i = sid then (\<Sum>j\<leftarrow>[0..<n]. if j = sid then 0 else hs ! j) mod P else P - hs ! i) [0..<n]"
    by (rule client_random_values)
  let ?S = "\<Sum>i\<leftarrow>[0..<n]. if i = sid then 0 else hs ! i"
  obtain h0 where h0: "Hash [21] = Some h0" "\<forall>i<n. 0 \<le> hs ! i \<and> hs ! i < P"
      "random_pass api (\<lambda>d. slot_hash Hash c d nf) hint c h0 = Some (hs, fv ?S)"
    using random_pass_honest [OF assms(1,2) st(1-4) client_sends [OF cs] st(8) hs(1)] by blast
  have "0 \<le> ?S" using h0(2) by (intro sum_list_nonneg) auto
  moreover have "?S < SNARK_SCALAR_FIELD"
  proof -
    have "?S = (\<Sum>i\<in>{0..<n} - {sid}. hs ! i)"
      unfolding interv_sum_list_conv_sum_set_nat using st(6) by (subst sum.remove [of _ sid]) (auto intro: sum.cong)
    also have "\<dots> \<le> (\<Sum>i\<in>{0..<n} - {sid}. P)" using h0(2) by (intro sum_mono) (auto simp: less_imp_le)
    also have "\<dots> = int (n - 1) * P" using st(6) by simp
    also have "\<dots> \<le> 7 * P" using st(7) P_bounds(3) by (intro mult_right_mono) auto
    finally show ?thesis using P_bounds(1) by simp
  qed
  ultimately have S: "fv ?S = ?S" by (rule fv_id)
  have "hint Site_sum = ModHint (fv ?S)" using assms(2) h0(1,3) by (auto simp: honest_hints_def)
  then have sum: "ReduceModP api (hint Site_sum) (fv ?S) = Some (?S mod P)"
    using ReduceModP_honest [OF fv_range(1) fv_range(2), of ?S] S by simp
  have fac: "do { isSender \<leftarrow> is_sender api c i; h \<leftarrow> idx hs i; Select api isSender (?S mod P) (Sub api P h) } =
      Some (fv (TxRandomValues c ! i))" if "i < n" for i
    using that client_sends [OF cs] st(2) hs(2) rs by (simp add: is_sender_Some [THEN iffD2] full_set_def idx_nth Select Sub)
  then have "mapM (\<lambda>i. do { isSender \<leftarrow> is_sender api c i; h \<leftarrow> idx hs i; Select api isSender (?S mod P) (Sub api P h) }) [0..<n]
      = Some (map (\<lambda>i. fv (TxRandomValues c ! i)) [0..<n])"
    by (simp add: mapM_Some_iff list_all2_conv_all_nth)
  moreover have "length (TxRandomValues c) = n" using rs by simp
  ultimately show ?thesis using h0 sum st(1)
    by (simp add: check_random_factors_def forM_Some_iff idx_nth AssertIsEqual)
qed

lemma tags_accepted:
  assumes "canonical_hash Hash" and "honest_hints api Hash c nf hint" and cs: "client_setup c n sid s"
    and "TagMessageGen Hash (int sid) s nf (full_set n) = Some (MessageTags c)"
  shows "check_tags api Hash hint c (\<lambda>d. slot_hash Hash c d nf) = Some ()"
proof -
  have st: "NCommitment (Config c) = n" "AnonymitySet c = full_set n" "SenderId c = int sid" "SharedSecrets c = s"
      "length s = n" "0 < n" using cs by (auto simp: client_setup_def)
  have m: "mapM (slot_value Hash 12 (int sid) s nf) [0..<n] = Some (MessageTags c)"
    using assms(4) st(5) by (simp add: TagMessageGen_def)
  have slot: "\<exists>h0 v. Hash [12] = Some h0 \<and> slot_hash Hash c h0 nf i = Some v \<and> MessageTags c ! i = v mod P" if "i < n" for i
    using mapM_nth [OF m, of i] that slot_value_hash [OF st(2-4) that] by (metis add_0 diff_zero length_upt nth_upt)
  then obtain h0 where h0: "Hash [12] = Some h0" using st(6) by blast
  have len: "length (MessageTags c) = n" using mapM_length [OF m] by simp
  have "do { t' \<leftarrow> slot_hash Hash c h0 nf i; t \<leftarrow> ReduceModP api (hint (Site_tag i)) t'; t'' \<leftarrow> idx (MessageTags c) i;
      AssertIsEqual api t'' t } = Some ()" if i: "i < n" for i
  proof -
    obtain v where v: "slot_hash Hash c h0 nf i = Some v" "MessageTags c ! i = v mod P" using slot [OF i] h0 by auto
    then have "0 \<le> v" "v < SNARK_SCALAR_FIELD"
      using assms(1) by (auto simp: canonical_hash_def slot_hash_def bind_eq_Some_conv)
    moreover have "hint (Site_tag i) = ModHint v" using assms(2) h0 v(1) by (auto simp: honest_hints_def)
    ultimately show ?thesis using ReduceModP_honest v i len by (simp add: idx_nth AssertIsEqual)
  qed
  then show ?thesis using h0 st(1) by (simp add: check_tags_def forM_Some_iff)
qed

lemma FingerPrintGen_entries:
  assumes "FingerPrintGen Hash s (int sid) = Some fp" and "sid < length s"
  shows "length fp = length s \<and> (\<forall>i<length s. length (fp ! i) = length s) \<and>
    (\<forall>i<length s. i \<noteq> sid \<longrightarrow> (\<exists>h. Hash [s ! i] = Some h \<and> fp ! i ! sid = h mod P))"
proof -
  let ?n = "length s"
  let ?f = "\<lambda>i fp. if int i = int sid then Some fp else do { si \<leftarrow> idx s i; h \<leftarrow> Hash [si]; row \<leftarrow> idx fp i;
         if 0 \<le> int sid \<and> nat (int sid) < length row
         then Some (fp[i := row[nat (int sid) := h mod P]]) else None }"
  have inv: "length fp = ?n \<and> (\<forall>i<?n. length (fp ! i) = ?n) \<and>
      (\<forall>i<m. i \<noteq> sid \<longrightarrow> (\<exists>h. Hash [s ! i] = Some h \<and> fp ! i ! sid = h mod P))"
    if "foldM ?f [0..<m] (replicate ?n (replicate ?n 0)) = Some fp" "m \<le> ?n" for m fp
    using that
  proof (induction m arbitrary: fp)
    case (Suc m)
    obtain fp0 where 0: "foldM ?f [0..<m] (replicate ?n (replicate ?n 0)) = Some fp0" "?f m fp0 = Some fp"
      using Suc.prems(1) by (auto simp: foldM_append bind_eq_Some_conv)
    have ih: "length fp0 = ?n" "\<forall>i<?n. length (fp0 ! i) = ?n"
        "\<forall>i<m. i \<noteq> sid \<longrightarrow> (\<exists>h. Hash [s ! i] = Some h \<and> fp0 ! i ! sid = h mod P)"
      using Suc.IH [OF 0(1)] Suc.prems(2) by simp_all
    show ?case
    proof (cases "m = sid")
      case True
      then show ?thesis using 0(2) ih by (auto simp: less_Suc_eq)
    next
      case False
      then obtain h where h: "Hash [s ! m] = Some h" "fp = fp0[m := (fp0 ! m)[sid := h mod P]]"
        using 0(2) Suc.prems(2) ih(1) by (auto simp: bind_eq_Some_conv idx_nth split: if_splits)
      then show ?thesis using ih Suc.prems(2) assms(2) by (auto simp: nth_list_update less_Suc_eq)
    qed
  qed simp
  show ?thesis by (rule inv) (use assms(1) in \<open>simp_all only: FingerPrintGen_def Let_def order.refl\<close>)
qed

lemma fingerprints_accepted:
  assumes "canonical_hash Hash" and "honest_hints api Hash c nf hint" and cs: "client_setup c n sid s"
    and "FingerPrintGen Hash s (int sid) = Some (FingerPrintofSharedSecrets c)" and "Hash [s ! sid] = Some own"
  shows "check_fingerprints api Hash hint c = Some ()"
proof -
  have st: "NCommitment (Config c) = n" "AnonymitySet c = full_set n" "SharedSecrets c = s" "length s = n" "sid < n"
    using cs by (auto simp: client_setup_def)
  note fp = FingerPrintGen_entries [OF assms(4)]
  have sen: "is_sender api c i = Some (if i = sid then 1 else 0)" if "i < n" for i
    using that client_sends [OF cs] st(2) by (simp add: is_sender_Some)
  have hash: "\<exists>h. Hash [s ! i] = Some h \<and> ReduceModP api (hint (Site_finger i)) h = Some (h mod P) \<and>
      (i \<noteq> sid \<longrightarrow> FingerPrintofSharedSecrets c ! i ! sid = h mod P)" if i: "i < n" for i
  proof -
    obtain h where h: "Hash [s ! i] = Some h" "i \<noteq> sid \<longrightarrow> FingerPrintofSharedSecrets c ! i ! sid = h mod P"
      using fp st(4,5) i assms(5) by (cases "i = sid") auto
    then have "0 \<le> h" "h < SNARK_SCALAR_FIELD" using assms(1) by (auto simp: canonical_hash_def)
    moreover have "hint (Site_finger i) = ModHint h"
      using assms(2) h(1) i st(3,4) by (auto simp: honest_hints_def idx_nth)
    ultimately show ?thesis using h ReduceModP_honest by auto
  qed
  show ?thesis
    unfolding check_fingerprints_def forM_Some_iff st(1)
  proof
    fix i assume "i \<in> set [0..<n]"
    then have i: "i < n" by simp
    obtain h where h: "Hash [s ! i] = Some h" "ReduceModP api (hint (Site_finger i)) h = Some (h mod P)"
        "i \<noteq> sid \<longrightarrow> FingerPrintofSharedSecrets c ! i ! sid = h mod P" using hash [OF i] by blast
    have "\<forall>j\<in>set [0..<n]. do { isColSender \<leftarrow> is_sender api c j;
        let isNotDiagonal = Sub api 1 (Mul api (if i = sid then 1 else 0) isColSender);
        let shouldCheck = Mul api isColSender isNotDiagonal;
        row \<leftarrow> idx (FingerPrintofSharedSecrets c) i; f \<leftarrow> idx row j;
        AssertIsEqual api (Mul api shouldCheck (Sub api f (h mod P))) 0 } = Some ()"
      using sen fp st(4,5) i h(3) by (auto simp: idx_nth AssertIsEqual Mul Sub)
    then show "do { si \<leftarrow> idx (SharedSecrets c) i; calculatedHash \<leftarrow> Hash [si];
        hashMod \<leftarrow> ReduceModP api (hint (Site_finger i)) calculatedHash; isRowSender \<leftarrow> is_sender api c i;
        forM (\<lambda>j. do { isColSender \<leftarrow> is_sender api c j;
          let isNotDiagonal = Sub api 1 (Mul api isRowSender isColSender);
          let shouldCheck = Mul api isColSender isNotDiagonal;
          row \<leftarrow> idx (FingerPrintofSharedSecrets c) i; f \<leftarrow> idx row j;
          AssertIsEqual api (Mul api shouldCheck (Sub api f hashMod)) 0 }) [0..<n] } = Some ()"
      using h st(3,4) i sen [OF i] by (simp add: idx_nth forM_Some_iff del: set_upt)
  qed
qed

end

lemma client_randoms_cancel:
  assumes "client_setup c n sid s"
    and "GenCommitmentAndRandom Hash bj v (int sid) txValues nf (full_set n) s = Some (commits, TxRandomValues c)"
  shows "(\<Sum>i\<leftarrow>[0..<n]. TxRandomValues c ! i) mod P = 0"
proof -
  have st: "length s = n" "sid < n" using assms(1) by (auto simp: client_setup_def)
  from st assms(2) obtain hs where "TxRandomValues c =
      map (\<lambda>i. if i = sid then (\<Sum>j\<leftarrow>[0..<n]. if j = sid then 0 else hs ! j) mod P else P - hs ! i) [0..<n]"
    by (rule client_random_values)
  then have "(\<Sum>i\<leftarrow>[0..<n]. TxRandomValues c ! i) =
      (\<Sum>j\<leftarrow>[0..<n]. if j = sid then 0 else hs ! j) mod P + (\<Sum>i\<in>{0..<n} - {sid}. P - hs ! i)"
    unfolding interv_sum_list_conv_sum_set_nat using st(2)
    by (subst sum.remove [of _ sid]) (auto intro!: sum.cong)
  moreover have "(\<Sum>j\<leftarrow>[0..<n]. if j = sid then 0 else hs ! j) = (\<Sum>i\<in>{0..<n} - {sid}. hs ! i)"
    unfolding interv_sum_list_conv_sum_set_nat using st(2) by (subst sum.remove [of _ sid]) (auto intro: sum.cong)
  ultimately show ?thesis by (simp add: sum_subtractf mod_simps)
qed

text \<open>
  C6. The client's values are the circuit's. For a bank that uses all \<open>n \<le> 8\<close> banks as its anonymity set,
  whose hash is the circuit's hash, and a prover that answers the reduction hints honestly, the tags, the
  fingerprints and the blinding factors the client computes pass the checks the circuit makes of them; and
  the client's blinding factors sum to 0 modulo the group order.
\<close>

theorem client_values_accepted:
  assumes "gnark api" and "canonical_hash Hash" and "honest_hints api Hash c nf hint" and "client_setup c n sid s"
    and "Hash [s ! sid] = Some own"
    and "GenCommitmentAndRandom Hash bj v (int sid) txValues nf (full_set n) s = Some (commits, TxRandomValues c)"
    and "TagMessageGen Hash (int sid) s nf (full_set n) = Some (MessageTags c)"
    and "FingerPrintGen Hash s (int sid) = Some (FingerPrintofSharedSecrets c)"
  shows "check_random_factors api Hash hint c (\<lambda>d. slot_hash Hash c d nf) = Some () \<and> check_tags api Hash hint c (\<lambda>d. slot_hash Hash c d nf) = Some () \<and>
    check_fingerprints api Hash hint c = Some () \<and> (\<Sum>i\<leftarrow>[0..<n]. TxRandomValues c ! i) mod P = 0"
  using gnark.random_factors_accepted [OF assms(1-4,6)] gnark.tags_accepted [OF assms(1-4,7)]
    gnark.fingerprints_accepted [OF assms(1-4,8,5)] client_randoms_cancel [OF assms(4,6)] by blast

definition toy_curve :: babyjub where
  "toy_curve = \<lparr>BJ_Mul = (\<lambda>n p. p), BJ_Add = (\<lambda>p q. p)\<rparr>"

theorem client_values_accepted_witness:
  "check_random_factors fr_api zero_hash pay_hint pay_example (\<lambda>d. slot_hash zero_hash pay_example d 0) = Some () \<and>
   check_tags fr_api zero_hash pay_hint pay_example (\<lambda>d. slot_hash zero_hash pay_example d 0) = Some () \<and>
   check_fingerprints fr_api zero_hash pay_hint pay_example = Some () \<and>
   (\<Sum>i\<leftarrow>[0..<2]. TxRandomValues pay_example ! i) mod P = 0"
proof -
  have hint: "honest_hints fr_api zero_hash pay_example 0 pay_hint"
    by (auto simp: honest_hints_def slot_hash_def random_pass_def ModHint_def pay_simps pay_fields
        two_banks_slots [OF pay_example_banks] bind_eq_Some_conv)
  have cs: "client_setup pay_example 2 0 [0, 0]"
    by (simp add: client_setup_def full_set_def pay_fields pay_range)
  have sv: "slot_value zero_hash d 0 [0, 0] 0 i = Some 0" if "i < 2" for d i
    using that by (auto simp: slot_value_def perSlotNonce_def zero_hash_def less_2_cases_iff)
  have vals: "mapM (slot_value zero_hash d 0 [0, 0] 0) [0..<2] = Some [0, 0]" for d
    using sv [of 0] sv [of 1] by (simp add: pay_range)
  have all: "ContainsBigInt (full_set 2) 0" "ContainsBigInt (full_set 2) (Suc 0)"
    by (simp_all add: ContainsBigInt_def full_set_def pay_range)
  have rs: "GetRSum zero_hash 0 [0, 0] 0 (full_set 2) = Some 0"
    using GetRSum_sum [of "[0, 0]" 2 zero_hash 0 0 "[0, 0]"] vals by (simp add: pay_range)
  obtain commits where "GenCommitmentAndRandom zero_hash toy_curve 5 (int 0) [0, 5] 0 (full_set 2) [0, 0] =
      Some (commits, TxRandomValues pay_example)"
    using sv [of 0 21] sv [of 1 21] rs
    by (simp add: GenCommitmentAndRandom_def GetRValues_def pay_range all pay_fields GetNegative_def)
  moreover have "TagMessageGen zero_hash (int 0) [0, 0] 0 (full_set 2) = Some (MessageTags pay_example)"
    using sv [of 0 12] sv [of 1 12] by (simp add: TagMessageGen_def pay_fields pay_range all)
  moreover have "FingerPrintGen zero_hash [0, 0] (int 0) = Some (FingerPrintofSharedSecrets pay_example)"
    by (simp add: FingerPrintGen_def pay_fields zero_hash_def pay_range)
  ultimately show ?thesis
    using client_values_accepted [OF gnark_fr_api _ hint cs, of 0] by (simp add: canonical_hash_def zero_hash_def)
qed

end
