(* ===== verification/Bank_Bridge.thy ===== *)
theory Bank_Bridge
  imports Bank_Example
begin

section \<open>Deposits into and withdrawals from the shielded pool\<close>

text \<open>
  \<^verbatim>\<open>pkg/circuits/deposit/circuit.go\<close> and \<^verbatim>\<open>pkg/circuits/withdraw/circuit.go\<close>: one bank moves value between
  its shielded balance and the delivery-versus-payment side, hidden in an anonymity set. A deposit credits
  the bank and redeems one note, a withdrawal debits it and creates up to ten notes. Both circuits, and the
  fee circuit, publish the hashes of the shared secrets; their nullifier and their slot hashes are built from
  these and the block number.
\<close>

record hashed_bank_tx = bank_tx +
  HashedSharedSecrets :: "fr list"

definition check_hashed_secrets ::
  "frontend_API \<Rightarrow> hasher \<Rightarrow> (hint_site \<Rightarrow> fr \<times> fr) \<Rightarrow> 'a hashed_bank_tx_scheme \<Rightarrow> unit option" where
  "check_hashed_secrets api pos hint c = forM (\<lambda>i. do {
     s \<leftarrow> idx (SharedSecrets c) i;
     calculatedHash \<leftarrow> pos [s, s];
     hashMod \<leftarrow> ReduceModP api (hint (Site_hashed i)) calculatedHash;
     h \<leftarrow> idx (HashedSharedSecrets c) i;
     AssertIsEqual api hashMod h }) [0..<NCommitment (Config c)]"

definition check_hashed_nullifier :: "frontend_API \<Rightarrow> hasher \<Rightarrow> 'a hashed_bank_tx_scheme \<Rightarrow> unit option" where
  "check_hashed_nullifier api pos c = do {
     selectedPreImage \<leftarrow> select_sender api c (HashedSharedSecrets c);
     computedNullifier \<leftarrow> pos [selectedPreImage, BlockNumber c];
     AssertIsEqual api computedNullifier (TxNullifier c) }"

text \<open>The hash of a slot, for tags and blinding factors.\<close>

definition block_slot :: "hasher \<Rightarrow> 'a bank_tx_scheme \<Rightarrow> fr \<Rightarrow> nat \<Rightarrow> fr option" where
  "block_slot pos c domain i = do {
     s \<leftarrow> idx (SharedSecrets c) i;
     pos [domain, s, BlockNumber c] }"

text \<open>The commitment to all values and blinding factors is that of the sender's value alone.\<close>

definition check_own_sum :: "frontend_API \<Rightarrow> pedersen \<Rightarrow> 'a bank_tx_scheme \<Rightarrow> fr \<Rightarrow> unit option" where
  "check_own_sum api ped c selected_v = do {
     (sumX, sumY, senderV) \<leftarrow> foldM (\<lambda>i (sx, sy, _). do {
         v \<leftarrow> idx (TxValues c) i; r \<leftarrow> idx (TxRandomValues c) i;
         Some (Add api sx v, Add api sy r, selected_v) }) [0..<NCommitment (Config c)] (0, 0, 0);
     pedersenObtained \<leftarrow> ped sumX sumY;
     pedersenExpected \<leftarrow> ped senderV 0;
     AssertIsEqual api (X pedersenObtained) (X pedersenExpected);
     AssertIsEqual api (Y pedersenObtained) (Y pedersenExpected) }"

subsection \<open>The deposit circuit\<close>

record DepositEnygmaCircuit = hashed_bank_tx +
  DepositHash :: fr
  PkDeposit :: fr
  DepositAddress :: fr

text \<open>The sender's slot is the amount itself; the results are that slot and the range-checked amount.\<close>

definition check_deposit_value :: "frontend_API \<Rightarrow> DepositEnygmaCircuit \<Rightarrow> (fr \<times> fr) option" where
  "check_deposit_value api c = do {
     selected_v \<leftarrow> select_sender api c (TxValues c);
     selectedVBits \<leftarrow> ToBinary api selected_v 252;
     vBits \<leftarrow> ToBinary api (SenderTxValue c) 64;
     let selectedVConstrained = FromBinary api selectedVBits;
     let vConstrained = FromBinary api vBits;
     AssertIsEqual api selectedVConstrained vConstrained;
     Some (selected_v, vConstrained) }"

definition check_deposit_range :: "frontend_API \<Rightarrow> DepositEnygmaCircuit \<Rightarrow> fr \<Rightarrow> unit option" where
  "check_deposit_range api c vConstrained = do {
     _ \<leftarrow> ToBinary api (PreviousSenderBalance c) 64;
     let vGreaterEqualZero = Cmp api vConstrained 0;
     AssertIsEqual api (IsZero api (Add api vGreaterEqualZero 1)) 0 }"

definition check_deposit_note :: "frontend_API \<Rightarrow> hasher \<Rightarrow> DepositEnygmaCircuit \<Rightarrow> unit option" where
  "check_deposit_note api pos c = do {
     uid \<leftarrow> pos [DepositAddress c, SenderTxValue c];
     calculatedHash \<leftarrow> pos [uid, PkDeposit c];
     AssertIsEqual api calculatedHash (DepositHash c) }"

definition DepositEnygmaCircuit_Define ::
  "frontend_API \<Rightarrow> hasher \<Rightarrow> pedersen \<Rightarrow> (hint_site \<Rightarrow> fr \<times> fr) \<Rightarrow> DepositEnygmaCircuit \<Rightarrow> unit option" where
  "DepositEnygmaCircuit_Define api pos ped hint c = do {
     check_sender_in_set api c;
     (selected_v, vConstrained) \<leftarrow> check_deposit_value api c;
     check_receivers_sum api c 0;
     check_on_curve api c;
     _ \<leftarrow> check_sender_secret api pos hint c;
     check_hashed_secrets api pos hint c;
     check_public_key api pos hint c;
     check_previous_commitment api ped c;
     check_own_sum api ped c selected_v;
     check_deposit_range api c vConstrained;
     check_hashed_nullifier api pos c;
     check_tx_commitments api ped c;
     check_tags api pos hint c (block_slot pos c);
     check_random_factors api pos hint c (block_slot pos c);
     check_deposit_note api pos c;
     AssertIsEqual api (DomainId c) (DomainId c) }"

subsection \<open>The withdraw circuit\<close>

record WithdrawEnygmaCircuit = hashed_bank_tx +
  TotalDepositValue :: fr
  Hashes :: "fr list"
  SkDeposits :: "fr list"
  VPerDeposit :: "fr list"
  WithdrawAddress :: fr

definition withdraw_slot :: "frontend_API \<Rightarrow> hasher \<Rightarrow> WithdrawEnygmaCircuit \<Rightarrow> nat \<Rightarrow> fr \<Rightarrow> fr option" where
  "withdraw_slot api pos c i sumVPerDeposit = do {
     v \<leftarrow> idx (VPerDeposit c) i;
     let isDepositZero = IsZero api v;
     sk \<leftarrow> idx (SkDeposits c) i;
     publicKeyFromSk \<leftarrow> pos [sk];
     firstHash \<leftarrow> pos [WithdrawAddress c, v];
     secondHash \<leftarrow> pos [firstHash, publicKeyFromSk];
     let enabled = Sub api 1 isDepositZero;
     h \<leftarrow> idx (Hashes c) i;
     let difference = Sub api h secondHash;
     let conditionalDifference = Mul api enabled difference;
     AssertIsEqual api conditionalDifference 0;
     Some (Add api sumVPerDeposit v) }"

definition check_withdraw_notes :: "frontend_API \<Rightarrow> hasher \<Rightarrow> WithdrawEnygmaCircuit \<Rightarrow> unit option" where
  "check_withdraw_notes api pos c = do {
     sumVPerDeposit \<leftarrow> foldM (withdraw_slot api pos c) [0..<10] 0;
     AssertIsEqual api sumVPerDeposit (SenderTxValue c);
     AssertIsEqual api (TotalDepositValue c) sumVPerDeposit }"

definition WithdrawEnygmaCircuit_Define ::
  "frontend_API \<Rightarrow> hasher \<Rightarrow> pedersen \<Rightarrow> (hint_site \<Rightarrow> fr \<times> fr) \<Rightarrow> WithdrawEnygmaCircuit \<Rightarrow> unit option" where
  "WithdrawEnygmaCircuit_Define api pos ped hint c = do {
     check_sender_in_set api c;
     (selected_v, vConstrained) \<leftarrow> check_sender_value api hint c;
     check_receivers_sum api c 0;
     _ \<leftarrow> check_sender_secret api pos hint c;
     check_hashed_secrets api pos hint c;
     check_public_key api pos hint c;
     check_on_curve api c;
     check_previous_commitment api ped c;
     check_own_sum api ped c selected_v;
     check_solvency api c vConstrained;
     check_hashed_nullifier api pos c;
     check_tx_commitments api ped c;
     check_tags api pos hint c (block_slot pos c);
     check_random_factors api pos hint c (block_slot pos c);
     check_withdraw_notes api pos c;
     AssertIsEqual api (DomainId c) (DomainId c) }"

subsection \<open>The shared consequences\<close>

text \<open>One slot of a withdrawal: a note of value 0 is not checked, any other is the stated hash.\<close>

definition withdraw_note :: "hasher \<Rightarrow> WithdrawEnygmaCircuit \<Rightarrow> nat \<Rightarrow> bool" where
  "withdraw_note pos c i \<longleftrightarrow> i < length (VPerDeposit c) \<and> i < length (SkDeposits c) \<and> i < length (Hashes c) \<and>
     (\<exists>pk u h. pos [SkDeposits c ! i] = Some pk \<and> pos [WithdrawAddress c, VPerDeposit c ! i] = Some u \<and> pos [u, pk] = Some h \<and>
        (fv (VPerDeposit c ! i) = 0 \<or> fv (Hashes c ! i) = fv h))"

context gnark
begin

lemma hashed_secret:
  assumes "check_hashed_secrets api pos hint c = Some ()" and "i < NCommitment (Config c)"
  shows "\<exists>h. pos [SharedSecrets c ! i, SharedSecrets c ! i] = Some h \<and> reduces (fv h) (fv (HashedSharedSecrets c ! i))"
proof -
  obtain h m where h: "pos [SharedSecrets c ! i, SharedSecrets c ! i] = Some h"
      "ReduceModP api (hint (Site_hashed i)) h = Some m" "fv m = fv (HashedSharedSecrets c ! i)"
    using assms unfolding check_hashed_secrets_def forM_Some_iff
    by (drule_tac bspec [of _ _ i]) (auto simp: bind_eq_Some_conv idx_Some_iff assert_eq)
  then show ?thesis using ReduceModP_sound [OF h(2)] by auto
qed

lemma hashed_nullifier:
  assumes "check_hashed_nullifier api pos c = Some ()" and "sender_slot c s"
  shows "\<exists>pre n. fv pre = fv (HashedSharedSecrets c ! s) \<and> pos [pre, BlockNumber c] = Some n \<and> fv n = fv (TxNullifier c)"
  using assms select_sender_value [of c "HashedSharedSecrets c" _ s]
  by (auto simp: check_hashed_nullifier_def bind_eq_Some_conv assert_eq)

text \<open>The key, the opening and the nullifier behind an accepted transaction, with every reduction in between.\<close>

lemma hashed_authorised:
  assumes "check_sender_secret api pos hint c = Some secret" and "check_hashed_secrets api pos hint c = Some ()"
    and "check_public_key api pos hint c = Some ()" and "check_previous_commitment api ped c = Some ()"
    and "check_hashed_nullifier api pos c = Some ()" and "sender_slot c s"
  shows "\<exists>h hh pre n hp p. pos [PreviousSenderRandomValue c, SecretKey c] = Some h \<and> reduces (fv h) (fv (SharedSecrets c ! s)) \<and>
    pos [SharedSecrets c ! s, SharedSecrets c ! s] = Some hh \<and> reduces (fv hh) (fv pre) \<and>
    pos [pre, BlockNumber c] = Some n \<and> fv n = fv (TxNullifier c) \<and>
    pos [SecretKey c, SecretKey c] = Some hp \<and> reduces (fv hp) (fv (PublicKeys c ! s)) \<and>
    ped (PreviousSenderBalance c) (PreviousSenderRandomValue c) = Some p \<and>
    fv (fst (PreviousCommit c ! s)) = fv (X p) \<and> fv (snd (PreviousCommit c ! s)) = fv (Y p)"
proof -
  have "s < NCommitment (Config c)" using assms(6) by (simp add: sender_slot_def)
  then obtain hh where "pos [SharedSecrets c ! s, SharedSecrets c ! s] = Some hh" "reduces (fv hh) (fv (HashedSharedSecrets c ! s))"
    using hashed_secret [OF assms(2)] by blast
  then show ?thesis
    using sender_secret [OF assms(1,6)] public_key [OF assms(3,6)] previous_commitment [OF assms(4,6)]
      hashed_nullifier [OF assms(5,6)] by metis
qed

lemma deposit_value:
  assumes "check_deposit_value api c = Some (sv, v)" and "sender_slot c s"
  shows "v = fv (SenderTxValue c) \<and> v < 2 ^ 64 \<and> fv (TxValues c ! s) = v"
proof -
  obtain sb vb where d: "select_sender api c (TxValues c) = Some sv" "ToBinary api sv 252 = Some sb"
      "ToBinary api (SenderTxValue c) 64 = Some vb" "v = FromBinary api vb" "fv (FromBinary api sb) = fv v"
    using assms(1) by (auto simp: check_deposit_value_def Let_def bind_eq_Some_conv assert_eq)
  then show ?thesis
    using from_to_binary [OF _ d(2)] from_to_binary [OF _ d(3)] select_sender_value [OF d(1) assms(2)] by simp
qed

lemma withdraw_slot_iff:
  "withdraw_slot api pos c i a = Some b \<longleftrightarrow> withdraw_note pos c i \<and> b = fv (a + VPerDeposit c ! i)"
proof -
  have "fv (Mul api (Sub api 1 (IsZero api v)) (Sub api x y)) = 0 \<longleftrightarrow> fv v = 0 \<or> fv x = fv y" for v x y
    by (simp add: Mul Sub IsZero fv_diff_eq_0_iff)
  then show ?thesis
    by (auto simp: withdraw_slot_def withdraw_note_def Let_def bind_eq_Some_conv idx_Some_iff assert_eq Add)
qed

lemma withdraw_notes_iff:
  "check_withdraw_notes api pos c = Some () \<longleftrightarrow> (\<forall>i<10. withdraw_note pos c i) \<and>
     fv (\<Sum>i\<leftarrow>[0..<10]. VPerDeposit c ! i) = fv (SenderTxValue c) \<and> fv (TotalDepositValue c) = fv (SenderTxValue c)"
proof -
  have "foldM (withdraw_slot api pos c) [0..<10] 0 = Some t \<longleftrightarrow> (\<forall>i\<in>set [0..<10]. withdraw_note pos c i) \<and>
      t = fold (\<lambda>i a. fv (a + VPerDeposit c ! i)) [0..<10] 0" for t
    by (rule foldM_check_acc) (rule withdraw_slot_iff)
  then show ?thesis
    using fv_fold_add [of "\<lambda>i. VPerDeposit c ! i" "[0..<10]" 0]
    by (auto simp: check_withdraw_notes_def bind_eq_Some_conv assert_eq)
qed

end

subsection \<open>What an accepted circuit establishes\<close>

context gnark
begin

lemma deposit_blocks:
  assumes "DepositEnygmaCircuit_Define api pos ped hint c = Some ()"
  obtains sv v secret where "check_sender_in_set api c = Some ()" "check_deposit_value api c = Some (sv, v)"
    "check_receivers_sum api c 0 = Some ()" "check_sender_secret api pos hint c = Some secret"
    "check_hashed_secrets api pos hint c = Some ()" "check_public_key api pos hint c = Some ()"
    "check_previous_commitment api ped c = Some ()" "check_hashed_nullifier api pos c = Some ()"
    "check_deposit_note api pos c = Some ()" "check_random_factors api pos hint c (block_slot pos c) = Some ()"
  using assms unfolding DepositEnygmaCircuit_Define_def by (clarsimp simp: bind_eq_Some_conv)

lemma withdraw_blocks:
  assumes "WithdrawEnygmaCircuit_Define api pos ped hint c = Some ()"
  obtains sv v secret where "check_sender_in_set api c = Some ()" "check_sender_value api hint c = Some (sv, v)"
    "check_receivers_sum api c 0 = Some ()" "check_sender_secret api pos hint c = Some secret"
    "check_hashed_secrets api pos hint c = Some ()" "check_public_key api pos hint c = Some ()"
    "check_previous_commitment api ped c = Some ()" "check_hashed_nullifier api pos c = Some ()"
    "check_solvency api c v = Some ()" "check_withdraw_notes api pos c = Some ()"
    "check_random_factors api pos hint c (block_slot pos c) = Some ()"
  using assms unfolding WithdrawEnygmaCircuit_Define_def by (clarsimp simp: bind_eq_Some_conv)

lemma deposit_credits:
  assumes "DepositEnygmaCircuit_Define api pos ped hint c = Some ()"
    and "int (NCommitment (Config c)) * 2 ^ 64 < SNARK_SCALAR_FIELD"
  shows "\<exists>s. sender_slot c s \<and> (\<forall>i<NCommitment (Config c). i \<noteq> s \<longrightarrow> fv (TxValues c ! i) = 0) \<and>
    fv (TxValues c ! s) = fv (SenderTxValue c) \<and> fv (SenderTxValue c) < 2 ^ 64"
proof -
  from assms(1) obtain sv v where b: "check_sender_in_set api c = Some ()" "check_deposit_value api c = Some (sv, v)"
      "check_receivers_sum api c 0 = Some ()" by (rule deposit_blocks) blast
  have "int (NCommitment (Config c)) < SNARK_SCALAR_FIELD" using assms(2) by simp
  then obtain s where s: "sender_slot c s" using sender_in_set [OF b(1)] by blast
  then show ?thesis using deposit_value [OF b(2) s] credits_zero [OF b(3) assms(2)] by (auto simp: sender_slot_def)
qed

lemma withdraw_debits:
  assumes "WithdrawEnygmaCircuit_Define api pos ped hint c = Some ()"
    and "int (NCommitment (Config c)) * 2 ^ 64 < SNARK_SCALAR_FIELD"
  shows "\<exists>s. sender_slot c s \<and> (\<forall>i<NCommitment (Config c). i \<noteq> s \<longrightarrow> fv (TxValues c ! i) = 0) \<and>
    fv (TxValues c ! s) = (P - fv (SenderTxValue c)) mod P \<and>
    fv (SenderTxValue c) \<le> fv (PreviousSenderBalance c) \<and> fv (PreviousSenderBalance c) < 2 ^ 64"
proof -
  from assms(1) obtain sv v where b: "check_sender_in_set api c = Some ()" "check_sender_value api hint c = Some (sv, v)"
      "check_receivers_sum api c 0 = Some ()" "check_solvency api c v = Some ()" by (rule withdraw_blocks) blast
  have "int (NCommitment (Config c)) < SNARK_SCALAR_FIELD" using assms(2) by simp
  then obtain s where s: "sender_slot c s" using sender_in_set [OF b(1)] by blast
  note v = sender_value [OF b(2) s]
  then have "fv v = v" by simp
  then show ?thesis using s v credits_zero [OF b(3) assms(2)] solvency [OF b(4)] by (auto simp: sender_slot_def)
qed

text \<open>Only the last block of the withdrawal reads the values and hashes of the notes.\<close>

lemma withdraw_notes_only:
  "WithdrawEnygmaCircuit_Define api pos ped hint c = Some () \<Longrightarrow>
   check_withdraw_notes api pos (c\<lparr>Hashes := hs, VPerDeposit := vs\<rparr>) = Some () \<Longrightarrow>
   WithdrawEnygmaCircuit_Define api pos ped hint (c\<lparr>Hashes := hs, VPerDeposit := vs\<rparr>) = Some ()"
proof -
  let ?c = "c\<lparr>Hashes := hs, VPerDeposit := vs\<rparr>"
  have sel [simp]: "is_sender api ?c = is_sender api c" "sender_is api ?c = sender_is api c"
      "select_sender api ?c = select_sender api c" "block_slot pos ?c = block_slot pos c"
    by (simp_all add: fun_eq_iff is_sender_def sender_is_def select_sender_def block_slot_def)
  have [simp]: "check_sender_in_set api ?c = check_sender_in_set api c" "check_sender_value api hint ?c = check_sender_value api hint c"
      "check_receivers_sum api ?c = check_receivers_sum api c" "check_sender_secret api pos hint ?c = check_sender_secret api pos hint c"
      "check_hashed_secrets api pos hint ?c = check_hashed_secrets api pos hint c"
      "check_public_key api pos hint ?c = check_public_key api pos hint c" "check_on_curve api ?c = check_on_curve api c"
      "check_previous_commitment api ped ?c = check_previous_commitment api ped c" "check_own_sum api ped ?c = check_own_sum api ped c"
      "check_solvency api ?c = check_solvency api c" "check_hashed_nullifier api pos ?c = check_hashed_nullifier api pos c"
      "check_tx_commitments api ped ?c = check_tx_commitments api ped c"
      "check_tags api pos hint ?c = check_tags api pos hint c" "random_pass api slot hint ?c = random_pass api slot hint c" for slot
    by (simp_all only: fun_eq_iff check_sender_in_set_def check_sender_value_def check_receivers_sum_def check_sender_secret_def
      check_hashed_secrets_def check_public_key_def check_on_curve_def check_previous_commitment_def check_own_sum_def
      check_solvency_def check_hashed_nullifier_def check_tx_commitments_def check_tags_def random_pass_def sel) simp_all
  have [simp]: "check_random_factors api pos hint ?c = check_random_factors api pos hint c"
    by (simp add: fun_eq_iff check_random_factors_def)
  assume "WithdrawEnygmaCircuit_Define api pos ped hint c = Some ()" and "check_withdraw_notes api pos ?c = Some ()"
  then show "WithdrawEnygmaCircuit_Define api pos ped hint ?c = Some ()"
    unfolding WithdrawEnygmaCircuit_Define_def by (clarsimp simp: bind_eq_Some_conv)
qed

end

lemma upt_10: "[0..<10] = [0, 1, 2, 3, 4, 5, 6, 7, 8, 9]"
  by (simp add: upt_rec)

lemma withdraw_reshuffle:
  assumes "gnark api" and "\<And>xs. \<exists>h. pos xs = Some h" and "WithdrawEnygmaCircuit_Define api pos ped hint c = Some ()"
  shows "\<exists>hs vs. WithdrawEnygmaCircuit_Define api pos ped hint (c\<lparr>Hashes := hs, VPerDeposit := vs\<rparr>) = Some () \<and> vs ! 0 = x"
proof -
  have n: "\<forall>i<10. withdraw_note pos c i" "fv (\<Sum>i\<leftarrow>[0..<10]. VPerDeposit c ! i) = fv (SenderTxValue c)"
      "fv (TotalDepositValue c) = fv (SenderTxValue c)"
    using gnark.withdraw_blocks [OF assms(1,3)] gnark.withdraw_notes_iff [OF assms(1)] by metis+
  have len: "10 \<le> length (VPerDeposit c)" "10 \<le> length (SkDeposits c)"
    using n(1) by (auto simp: withdraw_note_def dest!: spec [of _ 9])
  then have zero: "(VPerDeposit c)[0 := x] ! 0 = x" by (intro nth_list_update_eq) linarith
  define vs where "vs = (VPerDeposit c)[0 := x, 1 := VPerDeposit c ! 0 + VPerDeposit c ! 1 - x]"
  define hs where "hs = map (\<lambda>i. the (pos [the (pos [WithdrawAddress c, vs ! i]), the (pos [SkDeposits c ! i])])) [0..<10]"
  have tot: "pos xs = Some (the (pos xs))" for xs using assms(2) by (metis option.sel)
  have "\<forall>i<10. withdraw_note pos (c\<lparr>Hashes := hs, VPerDeposit := vs\<rparr>) i"
    using len tot by (auto simp: withdraw_note_def vs_def hs_def)
  moreover have "(\<Sum>i\<leftarrow>[0..<10]. vs ! i) = (\<Sum>i\<leftarrow>[0..<10]. VPerDeposit c ! i)"
    using len(1) zero by (simp add: upt_10 vs_def nth_list_update)
  ultimately have "check_withdraw_notes api pos (c\<lparr>Hashes := hs, VPerDeposit := vs\<rparr>) = Some ()"
    using n(2,3) by (simp add: gnark.withdraw_notes_iff [OF assms(1)])
  then have "WithdrawEnygmaCircuit_Define api pos ped hint (c\<lparr>Hashes := hs, VPerDeposit := vs\<rparr>) = Some ()"
    by (rule gnark.withdraw_notes_only [OF assms(1,3)])
  moreover have "vs ! 0 = x" using zero by (simp add: vs_def)
  ultimately show ?thesis by blast
qed

subsection \<open>Examples\<close>

definition deposit_example :: DepositEnygmaCircuit where
  "deposit_example = \<lparr>Config = \<lparr>NCommitment = 2\<rparr>, PublicKeys = [0, 0], PreviousCommit = [(0, 1), (0, 1)],
     TxCommit = [(0, 1), (0, 1)], BlockNumber = 3, AnonymitySet = [0, 1], MessageTags = [0, 0], TxNullifier = 0,
     DomainId = 1, SenderId = 0, SharedSecrets = [0, 0], SecretKey = 4, PreviousSenderBalance = 9,
     PreviousSenderRandomValue = 6, TxValues = [5, 0], TxRandomValues = [0, P], SenderTxValue = 5,
     HashedSharedSecrets = [0, 0], DepositHash = 0, PkDeposit = 8, DepositAddress = 7\<rparr>"

definition withdraw_example :: WithdrawEnygmaCircuit where
  "withdraw_example = \<lparr>Config = \<lparr>NCommitment = 2\<rparr>, PublicKeys = [0, 0], PreviousCommit = [(0, 1), (0, 1)],
     TxCommit = [(0, 1), (0, 1)], BlockNumber = 3, AnonymitySet = [0, 1], MessageTags = [0, 0], TxNullifier = 0,
     DomainId = 1, SenderId = 0, SharedSecrets = [0, 0], SecretKey = 4, PreviousSenderBalance = 9,
     PreviousSenderRandomValue = 6, TxValues = [P - 5, 0], TxRandomValues = [0, P], SenderTxValue = 5,
     HashedSharedSecrets = [0, 0], TotalDepositValue = 5, Hashes = replicate 10 0, SkDeposits = replicate 10 1,
     VPerDeposit = 5 # replicate 9 0, WithdrawAddress = 7\<rparr>"

lemma bridge_fields:
  "two_banks deposit_example" "TxValues deposit_example = [5, 0]" "SenderTxValue deposit_example = 5"
  "HashedSharedSecrets deposit_example = [0, 0]" "DepositHash deposit_example = 0"
  "two_banks withdraw_example" "TxValues withdraw_example = [P - 5, 0]" "SenderTxValue withdraw_example = 5"
  "HashedSharedSecrets withdraw_example = [0, 0]" "TotalDepositValue withdraw_example = 5"
  "Hashes withdraw_example = replicate 10 0" "SkDeposits withdraw_example = replicate 10 1"
  "VPerDeposit withdraw_example = 5 # replicate 9 0"
  by (simp_all add: two_banks_def deposit_example_def withdraw_example_def)

lemma two_banks_hashed:
  assumes "two_banks c" and "HashedSharedSecrets c = [0, 0]"
  shows "check_hashed_secrets fr_api zero_hash pay_hint c = Some ()" "check_hashed_nullifier fr_api zero_hash c = Some ()"
  using assms by (simp_all add: check_hashed_secrets_def check_hashed_nullifier_def two_banks_simps two_banks_select)

lemma two_banks_own_sum: "two_banks c \<Longrightarrow> TxValues c = [y, x] \<Longrightarrow> check_own_sum fr_api zero_ped c v = Some ()"
  by (simp add: check_own_sum_def two_banks_simps)

lemma two_banks_block_slot:
  assumes "two_banks c"
  shows "check_tags fr_api zero_hash pay_hint c (block_slot zero_hash c) = Some ()"
    "check_random_factors fr_api zero_hash pay_hint c (block_slot zero_hash c) = Some ()"
  using assms
  by (simp_all add: check_tags_def check_random_factors_def random_pass_def block_slot_def two_banks_simps)

lemmas bridge_blocks = bridge_fields two_banks_blocks two_banks_hashed two_banks_own_sum two_banks_block_slot

lemma deposit_example_sat: "DepositEnygmaCircuit_Define fr_api zero_hash zero_ped pay_hint deposit_example = Some ()"
proof -
  have "check_deposit_value fr_api deposit_example = Some (5, 5)"
    by (simp add: check_deposit_value_def bridge_fields two_banks_select pay_bit_simps pay_simps)
  moreover have "check_deposit_range fr_api deposit_example 5 = Some ()"
    by (simp add: check_deposit_range_def two_banks_fields bridge_fields pay_bit_simps pay_simps fr.Cmp)
  moreover have "check_deposit_note fr_api zero_hash deposit_example = Some ()"
    by (simp add: check_deposit_note_def bridge_fields pay_simps)
  ultimately show ?thesis by (simp add: DepositEnygmaCircuit_Define_def bridge_blocks pay_simps)
qed

lemma withdraw_example_sat: "WithdrawEnygmaCircuit_Define fr_api zero_hash zero_ped pay_hint withdraw_example = Some ()"
proof -
  have "withdraw_note zero_hash withdraw_example i" if "i < 10" for i
    using that by (simp add: withdraw_note_def bridge_fields zero_hash_def)
  then have "check_withdraw_notes fr_api zero_hash withdraw_example = Some ()"
    by (simp add: fr.withdraw_notes_iff bridge_fields upt_10)
  then show ?thesis by (simp add: WithdrawEnygmaCircuit_Define_def bridge_blocks pay_simps)
qed

subsection \<open>Properties\<close>

text \<open>
  C25. A withdrawal debits its bank and no other. In an accepted withdrawal exactly one slot of the anonymity
  set is the bank's; every other slot is 0; the bank's slot is the negative of the amount modulo the group
  order; the amount is at most the bank's previous balance; it is the public total, and the values of the
  ten notes sum to it in the field.
\<close>

theorem withdraw_debits_only_sender:
  assumes "gnark api" and "WithdrawEnygmaCircuit_Define api pos ped hint c = Some ()"
    and "int (NCommitment (Config c)) * 2 ^ 64 < SNARK_SCALAR_FIELD"
  shows "\<exists>s<NCommitment (Config c). (\<forall>i<NCommitment (Config c). sends c i \<longleftrightarrow> i = s) \<and>
    (\<forall>i<NCommitment (Config c). i \<noteq> s \<longrightarrow> fv (TxValues c ! i) = 0) \<and>
    fv (TxValues c ! s) = (P - fv (SenderTxValue c)) mod P \<and>
    fv (SenderTxValue c) \<le> fv (PreviousSenderBalance c) \<and> fv (PreviousSenderBalance c) < 2 ^ 64 \<and>
    fv (TotalDepositValue c) = fv (SenderTxValue c) \<and>
    fv (\<Sum>i\<leftarrow>[0..<10]. VPerDeposit c ! i) = fv (SenderTxValue c)"
proof -
  have "check_withdraw_notes api pos c = Some ()" using gnark.withdraw_blocks [OF assms(1,2)] by blast
  then show ?thesis
    using gnark.withdraw_debits [OF assms] gnark.withdraw_notes_iff [OF assms(1), of pos c] by (auto simp: sender_slot_def)
qed

theorem withdraw_debits_only_sender_witness:
  "\<exists>s<2. fv (TxValues withdraw_example ! s) = (P - 5) mod P \<and> fv (\<Sum>i\<leftarrow>[0..<10]. VPerDeposit withdraw_example ! i) = 5"
  using withdraw_debits_only_sender [OF gnark_fr_api withdraw_example_sat] pay_numbers
  by (auto simp: bridge_fields two_banks_fields [OF bridge_fields(6)] SNARK_SCALAR_FIELD_def simp del: replicate.simps)

text \<open>
  A deposit credits its bank and no other. In an accepted deposit exactly one slot is the bank's and holds
  the amount, which is below \<open>2 ^ 64\<close>; every other slot is 0; and the public hash is the commitment of the
  redeemed note to that amount, at the given address and key.
\<close>

theorem deposit_credits_only_sender:
  assumes "gnark api" and "DepositEnygmaCircuit_Define api pos ped hint c = Some ()"
    and "int (NCommitment (Config c)) * 2 ^ 64 < SNARK_SCALAR_FIELD"
  shows "(\<exists>s<NCommitment (Config c). (\<forall>i<NCommitment (Config c). sends c i \<longleftrightarrow> i = s) \<and>
      (\<forall>i<NCommitment (Config c). i \<noteq> s \<longrightarrow> fv (TxValues c ! i) = 0) \<and>
      fv (TxValues c ! s) = fv (SenderTxValue c) \<and> fv (SenderTxValue c) < 2 ^ 64) \<and>
    (\<exists>u h. pos [DepositAddress c, SenderTxValue c] = Some u \<and> pos [u, PkDeposit c] = Some h \<and> fv h = fv (DepositHash c))"
proof -
  have "check_deposit_note api pos c = Some ()" using gnark.deposit_blocks [OF assms(1,2)] by blast
  then have "\<exists>u h. pos [DepositAddress c, SenderTxValue c] = Some u \<and> pos [u, PkDeposit c] = Some h \<and> fv h = fv (DepositHash c)"
    by (auto simp: check_deposit_note_def bind_eq_Some_conv gnark.assert_eq [OF assms(1)])
  then show ?thesis using gnark.deposit_credits [OF assms] by (auto simp: sender_slot_def)
qed

theorem deposit_credits_only_sender_witness:
  "\<exists>s<2. fv (TxValues deposit_example ! s) = 5 \<and> (\<forall>i<2. i \<noteq> s \<longrightarrow> fv (TxValues deposit_example ! i) = 0)"
  using deposit_credits_only_sender [OF gnark_fr_api deposit_example_sat] pay_numbers
  by (auto simp: bridge_fields two_banks_fields [OF bridge_fields(1)] SNARK_SCALAR_FIELD_def)

text \<open>
  Only the account holder withdraws. In an accepted withdrawal the prover knows a secret key whose hash
  reduces to the public key of the bank's slot and an opening of its previous balance commitment; the
  nullifier is the hash, with the block number, of the reduced double hash of the secret derived from them.
\<close>

theorem withdraw_authorised:
  assumes "gnark api" and "WithdrawEnygmaCircuit_Define api pos ped hint c = Some ()" and "sender_slot c s"
  shows "\<exists>h hh pre n hp p. pos [PreviousSenderRandomValue c, SecretKey c] = Some h \<and> reduces (fv h) (fv (SharedSecrets c ! s)) \<and>
    pos [SharedSecrets c ! s, SharedSecrets c ! s] = Some hh \<and> reduces (fv hh) (fv pre) \<and>
    pos [pre, BlockNumber c] = Some n \<and> fv n = fv (TxNullifier c) \<and>
    pos [SecretKey c, SecretKey c] = Some hp \<and> reduces (fv hp) (fv (PublicKeys c ! s)) \<and>
    ped (PreviousSenderBalance c) (PreviousSenderRandomValue c) = Some p \<and>
    fv (fst (PreviousCommit c ! s)) = fv (X p) \<and> fv (snd (PreviousCommit c ! s)) = fv (Y p)"
  using assms(2) by (rule gnark.withdraw_blocks [OF assms(1)]) (rule gnark.hashed_authorised [OF assms(1) _ _ _ _ _ assms(3)])

theorem withdraw_authorised_witness:
  "\<exists>hp. zero_hash [SecretKey withdraw_example, SecretKey withdraw_example] = Some hp \<and>
     reduces (fv hp) (fv (PublicKeys withdraw_example ! 0))"
  using withdraw_authorised [OF gnark_fr_api withdraw_example_sat two_banks_slots(5) [OF bridge_fields(6)]] by blast

text \<open>
  The notes of a withdrawal are bounded together and not one by one. For a hash that always returns, from
  every accepted withdrawal and every field element \<open>x\<close> there is another accepted one with the same public
  signals whose first note has the value \<open>x\<close>: the values only sum to the amount modulo the field order.
\<close>

theorem withdraw_note_value_unbounded:
  assumes "gnark api" and "\<And>xs. \<exists>h. pos xs = Some h" and "WithdrawEnygmaCircuit_Define api pos ped hint c = Some ()"
  shows "\<exists>hs vs. WithdrawEnygmaCircuit_Define api pos ped hint (c\<lparr>Hashes := hs, VPerDeposit := vs\<rparr>) = Some () \<and> vs ! 0 = x"
  using withdraw_reshuffle [OF assms] .

theorem withdraw_note_value_unbounded_witness:
  "\<exists>hs vs. WithdrawEnygmaCircuit_Define fr_api zero_hash zero_ped pay_hint
      (withdraw_example\<lparr>Hashes := hs, VPerDeposit := vs\<rparr>) = Some () \<and> vs ! 0 = 2 ^ 200"
  by (rule withdraw_note_value_unbounded [OF gnark_fr_api _ withdraw_example_sat]) (simp add: zero_hash_def)

end
