(* ===== verification/Bank_Fee.thy ===== *)
theory Bank_Fee
  imports Bank_Bridge
begin

section \<open>Payments with a public fee\<close>

text \<open>
  \<^verbatim>\<open>pkg/circuits/enygma_fee/circuit.go\<close>: the payments circuit with a public fee that the sender pays on top
  of the amount, and two public aggregates. The multiplication of the value generator by the fee is an
  argument \<open>feeG\<close>, as the Pedersen gadget is: the repository's circuit is the instance
  \<open>feeG = ScalarMul api G\<close>.
\<close>

subsection \<open>The circuit\<close>

record EnygmaFeeCircuit = hashed_bank_tx +
  Fee :: fr
  SumTxCommit :: "fr \<times> fr"
  SumTxValuesWithFee :: fr

definition check_fee_value :: "frontend_API \<Rightarrow> (hint_site \<Rightarrow> fr \<times> fr) \<Rightarrow> EnygmaFeeCircuit \<Rightarrow> fr option" where
  "check_fee_value api hint c = do {
     selected_v \<leftarrow> select_sender api c (TxValues c);
     selectedVBits \<leftarrow> ToBinary api selected_v 252;
     vBits \<leftarrow> ToBinary api (SenderTxValue c) 64;
     pDiffBits \<leftarrow> ToBinary api P 252;
     let selectedVConstrained = FromBinary api selectedVBits;
     let vConstrained = FromBinary api vBits;
     let pDiffConstrained = FromBinary api pDiffBits;
     let expectedTxValue = Sub api (Sub api pDiffConstrained vConstrained) (Fee c);
     expectedTxValueMod \<leftarrow> ReduceModP api (hint Site_value) expectedTxValue;
     AssertIsEqual api selectedVConstrained expectedTxValueMod;
     Some vConstrained }"

definition check_sum_values :: "frontend_API \<Rightarrow> (hint_site \<Rightarrow> fr \<times> fr) \<Rightarrow> EnygmaFeeCircuit \<Rightarrow> unit option" where
  "check_sum_values api hint c = do {
     sumX \<leftarrow> foldM (\<lambda>i acc. do { v \<leftarrow> idx (TxValues c) i; Some (Add api acc v) }) [0..<NCommitment (Config c)] 0;
     let sumXWithFee = Add api sumX (Fee c);
     sumXWithFeeMod \<leftarrow> ReduceModP api (hint Site_total) sumXWithFee;
     AssertIsEqual api sumXWithFeeMod (SumTxValuesWithFee c) }"

definition check_sum_commits :: "frontend_API \<Rightarrow> (fr \<Rightarrow> Point option) \<Rightarrow> EnygmaFeeCircuit \<Rightarrow> unit option" where
  "check_sum_commits api feeG c = do {
     (x0, y0) \<leftarrow> idx (TxCommit c) 0;
     txCommitSum \<leftarrow> foldM (\<lambda>i p. do { (x, y) \<leftarrow> idx (TxCommit c) i; PointAdd api p \<lparr>X = x, Y = y\<rparr> })
       [1..<NCommitment (Config c)] \<lparr>X = x0, Y = y0\<rparr>;
     feeCommit \<leftarrow> feeG (Fee c);
     total \<leftarrow> PointAdd api txCommitSum feeCommit;
     AssertIsEqual api (X total) 0;
     AssertIsEqual api (Y total) 1;
     AssertIsEqual api (X total) (fst (SumTxCommit c));
     AssertIsEqual api (Y total) (snd (SumTxCommit c)) }"

definition check_fee_solvency :: "frontend_API \<Rightarrow> EnygmaFeeCircuit \<Rightarrow> fr \<Rightarrow> unit option" where
  "check_fee_solvency api c vConstrained = do {
     previousVBits \<leftarrow> ToBinary api (PreviousSenderBalance c) 64;
     let previousVConstrained = FromBinary api previousVBits;
     feeBits \<leftarrow> ToBinary api (Fee c) 64;
     let feeConstrained = FromBinary api feeBits;
     let totalDebit = Add api vConstrained feeConstrained;
     totalDebitBits \<leftarrow> ToBinary api totalDebit 65;
     let totalDebitConstrained = FromBinary api totalDebitBits;
     let prevVGreaterEqualTotal = Cmp api previousVConstrained totalDebitConstrained;
     AssertIsEqual api (IsZero api (Add api prevVGreaterEqualTotal 1)) 0;
     let vGreaterEqualZero = Cmp api vConstrained 0;
     AssertIsEqual api (IsZero api (Add api vGreaterEqualZero 1)) 0 }"

definition EnygmaFeeCircuit_Define ::
  "frontend_API \<Rightarrow> hasher \<Rightarrow> pedersen \<Rightarrow> (fr \<Rightarrow> Point option) \<Rightarrow> (hint_site \<Rightarrow> fr \<times> fr) \<Rightarrow> EnygmaFeeCircuit \<Rightarrow> unit option" where
  "EnygmaFeeCircuit_Define api pos ped feeG hint c = do {
     check_sender_in_set api c;
     vConstrained \<leftarrow> check_fee_value api hint c;
     check_receivers_sum api c vConstrained;
     check_on_curve api c;
     _ \<leftarrow> check_sender_secret api pos hint c;
     check_hashed_secrets api pos hint c;
     check_public_key api pos hint c;
     check_previous_commitment api ped c;
     check_tags api pos hint c (block_slot pos c);
     check_sum_values api hint c;
     check_sum_commits api feeG c;
     check_fee_solvency api c vConstrained;
     check_hashed_nullifier api pos c;
     check_tx_commitments api ped c;
     check_random_factors api pos hint c (block_slot pos c);
     AssertIsEqual api (DomainId c) (DomainId c) }"

subsection \<open>What the blocks establish\<close>

lemma sum_upt_split:
  fixes f :: "nat \<Rightarrow> int"
  assumes "s < n"
  shows "(\<Sum>i\<leftarrow>[0..<n]. f i) = f s + (\<Sum>i\<leftarrow>[0..<n]. if i = s then 0 else f i)"
proof -
  have "(\<Sum>i\<in>{0..<n}. f i) = f s + (\<Sum>i\<in>{0..<n} - {s}. f i)" using assms by (subst sum.remove [of _ s]) auto
  moreover have "(\<Sum>i\<in>{0..<n}. if i = s then 0 else f i) = (\<Sum>i\<in>{0..<n} - {s}. f i)"
    using assms by (subst sum.remove [of _ s]) (auto intro: sum.cong)
  ultimately show ?thesis by (simp add: interv_sum_list_conv_sum_set_nat)
qed

context gnark
begin

lemma fee_solvency:
  assumes "check_fee_solvency api c v = Some ()" and "0 \<le> v" and "v < 2 ^ 64"
  shows "v + fv (Fee c) \<le> fv (PreviousSenderBalance c) \<and> fv (PreviousSenderBalance c) < 2 ^ 64 \<and> fv (Fee c) < 2 ^ 64"
proof -
  obtain pb fb tb where d: "ToBinary api (PreviousSenderBalance c) 64 = Some pb" "ToBinary api (Fee c) 64 = Some fb"
      "ToBinary api (Add api v (FromBinary api fb)) 65 = Some tb"
      "fv (IsZero api (Add api (Cmp api (FromBinary api pb) (FromBinary api tb)) 1)) = 0"
    using assms(1) by (auto simp: check_fee_solvency_def bind_eq_Some_conv assert_eq)
  have f: "FromBinary api fb = fv (Fee c)" "fv (Fee c) < 2 ^ 64" using from_to_binary [OF _ d(2)] by auto
  have "v + fv (Fee c) < 2 ^ 65" using assms(3) f(2) by simp
  then have "fv (v + fv (Fee c)) = v + fv (Fee c)" using assms(2) by (intro fv_id) (auto simp: SNARK_SCALAR_FIELD_def)
  then have t: "FromBinary api tb = v + fv (Fee c)" using from_to_binary [OF _ d(3)] f(1) by (simp add: Add)
  have p: "FromBinary api pb = fv (PreviousSenderBalance c)" "fv (PreviousSenderBalance c) < 2 ^ 64"
    using from_to_binary [OF _ d(1)] by auto
  show ?thesis using d(4) f p t \<open>fv (v + fv (Fee c)) = v + fv (Fee c)\<close>
    by (auto simp: fv_IsZero Add Cmp split: if_splits)
qed

lemma fee_value:
  assumes "check_fee_value api hint c = Some v" and "sender_slot c s" and "fv (Fee c) < 2 ^ 64"
  shows "v = fv (SenderTxValue c) \<and> v < 2 ^ 64 \<and> fv (TxValues c ! s) = (P - v - fv (Fee c)) mod P"
proof -
  have "\<exists>sel sb vb pb m. select_sender api c (TxValues c) = Some sel \<and> ToBinary api sel 252 = Some sb \<and>
      ToBinary api (SenderTxValue c) 64 = Some vb \<and> ToBinary api P 252 = Some pb \<and> FromBinary api vb = v \<and>
      ReduceModP api (hint Site_value) (Sub api (Sub api (FromBinary api pb) (FromBinary api vb)) (Fee c)) = Some m \<and>
      fv (FromBinary api sb) = fv m"
    using assms(1) unfolding check_fee_value_def Let_def by (simp add: bind_eq_Some_conv assert_eq) blast
  then obtain sel sb vb pb m where d: "select_sender api c (TxValues c) = Some sel" "ToBinary api sel 252 = Some sb"
      "ToBinary api (SenderTxValue c) 64 = Some vb" "ToBinary api P 252 = Some pb" "v = FromBinary api vb"
      "ReduceModP api (hint Site_value) (Sub api (Sub api (FromBinary api pb) v) (Fee c)) = Some m"
      "fv (FromBinary api sb) = fv m" by blast
  have v: "v = fv (SenderTxValue c)" "v < 2 ^ 64" using from_to_binary [OF _ d(3)] d(5) by auto
  have nn: "0 \<le> v" "0 \<le> fv (Fee c)" using v(1) by simp_all
  have p: "FromBinary api pb = P" using from_to_binary [OF _ d(4)] P_bounds by (simp add: fv_id)
  have big: "slack < P - v - fv (Fee c)" using v(2) assms(3) by (simp add: slack_def P_def SNARK_SCALAR_FIELD_def)
  have "fv (Sub api (Sub api P v) (Fee c)) = fv (P - v - fv (Fee c))" by (simp add: Sub)
  also have "\<dots> = P - v - fv (Fee c)" using nn big P_bounds(1,3,4) by (intro fv_id) linarith+
  finally have "fv m = (P - v - fv (Fee c)) mod P" using ReduceModP_sound [OF d(6)] p big by (simp add: reduces_def)
  then show ?thesis using from_to_binary [OF _ d(2)] d(7) v select_sender_value [OF d(1) assms(2)] by simp
qed

lemma sum_values:
  assumes "check_sum_values api hint c = Some ()"
  shows "reduces (fv ((\<Sum>i\<leftarrow>[0..<NCommitment (Config c)]. fv (TxValues c ! i)) + fv (Fee c))) (fv (SumTxValuesWithFee c))"
proof -
  let ?k = "NCommitment (Config c)"
  obtain t m where t: "foldM (\<lambda>i acc. do { v \<leftarrow> idx (TxValues c) i; Some (Add api acc v) }) [0..<?k] 0 = Some t"
      "ReduceModP api (hint Site_total) (Add api t (Fee c)) = Some m" "fv m = fv (SumTxValuesWithFee c)"
    using assms by (auto simp: check_sum_values_def bind_eq_Some_conv assert_eq)
  have "t = fold (\<lambda>i a. fv (a + TxValues c ! i)) [0..<?k] 0"
    using t(1) by (subst (asm) foldM_check_acc [where chk = "\<lambda>i. i < length (TxValues c)" and g = "\<lambda>i a. fv (a + TxValues c ! i)"])
      (auto simp: bind_eq_Some_conv idx_Some_iff Add)
  then have "fv t = fv (\<Sum>i\<leftarrow>[0..<?k]. TxValues c ! i)" using fv_fold_add [of "\<lambda>i. TxValues c ! i" "[0..<?k]" 0] by simp
  also have "\<dots> = fv (\<Sum>i\<leftarrow>[0..<?k]. fv (TxValues c ! i))"
    using fv_fold_add [of "\<lambda>i. TxValues c ! i" "[0..<?k]" 0] fv_fold_add [of "\<lambda>i. fv (TxValues c ! i)" "[0..<?k]" 0] by simp
  finally have "fv (Add api t (Fee c)) = fv ((\<Sum>i\<leftarrow>[0..<?k]. fv (TxValues c ! i)) + fv (Fee c))"
    by (metis Add fv_fv fv_reduce(1,2))
  then show ?thesis using ReduceModP_sound [OF t(2)] t(3) by simp
qed

lemma fee_blocks:
  assumes "EnygmaFeeCircuit_Define api pos ped feeG hint c = Some ()"
  obtains v secret where "check_sender_in_set api c = Some ()" "check_fee_value api hint c = Some v"
    "check_receivers_sum api c v = Some ()" "check_sender_secret api pos hint c = Some secret"
    "check_hashed_secrets api pos hint c = Some ()" "check_public_key api pos hint c = Some ()"
    "check_previous_commitment api ped c = Some ()" "check_hashed_nullifier api pos c = Some ()"
    "check_sum_values api hint c = Some ()" "check_sum_commits api feeG c = Some ()" "check_fee_solvency api c v = Some ()"
  using assms unfolding EnygmaFeeCircuit_Define_def by (clarsimp simp: bind_eq_Some_conv)

lemma fee_values:
  assumes "EnygmaFeeCircuit_Define api pos ped feeG hint c = Some ()"
    and "int (NCommitment (Config c)) * 2 ^ 64 < SNARK_SCALAR_FIELD"
  shows "\<exists>s. sender_slot c s \<and> credits c = fv (SenderTxValue c) \<and>
    (\<forall>i<NCommitment (Config c). i \<noteq> s \<longrightarrow> fv (TxValues c ! i) < 2 ^ 64) \<and>
    fv (TxValues c ! s) = (P - fv (SenderTxValue c) - fv (Fee c)) mod P \<and>
    fv (SenderTxValue c) + fv (Fee c) \<le> fv (PreviousSenderBalance c) \<and> fv (PreviousSenderBalance c) < 2 ^ 64"
proof -
  from assms(1) obtain v where b: "check_sender_in_set api c = Some ()" "check_fee_value api hint c = Some v"
      "check_receivers_sum api c v = Some ()" "check_fee_solvency api c v = Some ()" by (rule fee_blocks) blast
  have "int (NCommitment (Config c)) < SNARK_SCALAR_FIELD" using assms(2) by simp
  then obtain s where s: "sender_slot c s" using sender_in_set [OF b(1)] by blast
  obtain vb where "ToBinary api (SenderTxValue c) 64 = Some vb" "v = FromBinary api vb"
    using b(2) by (auto simp: check_fee_value_def Let_def bind_eq_Some_conv)
  then have v0: "0 \<le> v" "v < 2 ^ 64" "fv v = v" using from_to_binary [of 64 "SenderTxValue c" vb] by simp_all
  note sol = fee_solvency [OF b(4) v0(1,2)]
  then show ?thesis using s fee_value [OF b(2) s] receivers_sum [OF b(3) assms(2)] v0 by (auto simp: sender_slot_def)
qed

lemma sum_commits: "check_sum_commits api feeG c = Some () \<Longrightarrow> fv (fst (SumTxCommit c)) = 0 \<and> fv (snd (SumTxCommit c)) = 1"
  by (auto simp: check_sum_commits_def bind_eq_Some_conv assert_eq)

end

lemma fee_total:
  assumes "gnark api" and "EnygmaFeeCircuit_Define api pos ped feeG hint c = Some ()"
    and "int (NCommitment (Config c)) * 2 ^ 64 < SNARK_SCALAR_FIELD"
  shows "fv (SumTxValuesWithFee c) = 0 \<or> fv (SenderTxValue c) + fv (Fee c) = 0"
proof (cases "fv (SenderTxValue c) + fv (Fee c) = 0")
  case False
  let ?k = "NCommitment (Config c)" and ?d = "fv (SenderTxValue c) + fv (Fee c)"
  obtain s where s: "sender_slot c s" "credits c = fv (SenderTxValue c)"
      "fv (TxValues c ! s) = (P - fv (SenderTxValue c) - fv (Fee c)) mod P"
      "?d \<le> fv (PreviousSenderBalance c)" "fv (PreviousSenderBalance c) < 2 ^ 64"
    using gnark.fee_values [OF assms] by blast
  have "0 < ?d" using False fv_range(1) [of "SenderTxValue c"] fv_range(1) [of "Fee c"] by linarith
  moreover have "?d < P" using s(4,5) by (simp add: P_def)
  ultimately have d: "0 < ?d" "?d < P" by auto
  then have "(P - ?d) mod P = P - ?d" by (intro mod_pos_pos_trivial) linarith+
  then have ts: "fv (TxValues c ! s) = P - ?d" unfolding s(3) by (simp only: diff_diff_eq)
  have "(\<Sum>i\<leftarrow>[0..<?k]. if i = s then 0 else fv (TxValues c ! i)) = credits c"
    unfolding credits_def using s(1) by (intro arg_cong [of _ _ sum_list] map_cong) (auto simp: sender_slot_def)
  then have "(\<Sum>i\<leftarrow>[0..<?k]. fv (TxValues c ! i)) + fv (Fee c) = P"
    using sum_upt_split [of s ?k "\<lambda>i. fv (TxValues c ! i)"] s(1,2) ts by (simp add: sender_slot_def)
  moreover have "check_sum_values api hint c = Some ()" using gnark.fee_blocks [OF assms(1,2)] by blast
  ultimately have "reduces (fv P) (fv (SumTxValuesWithFee c))" using gnark.sum_values [OF assms(1)] by metis
  then show ?thesis using P_bounds by (simp add: reduces_def fv_id)
qed simp

text \<open>The first bank pays 4 to the second and a fee of 1.\<close>

definition fee_tx_example :: EnygmaFeeCircuit where
  "fee_tx_example = \<lparr>Config = \<lparr>NCommitment = 2\<rparr>, PublicKeys = [0, 0], PreviousCommit = [(0, 1), (0, 1)],
     TxCommit = [(0, 1), (0, 1)], BlockNumber = 3, AnonymitySet = [0, 1], MessageTags = [0, 0], TxNullifier = 0,
     DomainId = 1, SenderId = 0, SharedSecrets = [0, 0], SecretKey = 4, PreviousSenderBalance = 9,
     PreviousSenderRandomValue = 6, TxValues = [P - 5, 4], TxRandomValues = [0, P], SenderTxValue = 4,
     HashedSharedSecrets = [0, 0], Fee = 1, SumTxCommit = (0, 1), SumTxValuesWithFee = 0\<rparr>"

lemma fee_fields:
  "two_banks fee_tx_example" "TxValues fee_tx_example = [P - 5, 4]" "SenderTxValue fee_tx_example = 4" "Fee fee_tx_example = 1"
  "HashedSharedSecrets fee_tx_example = [0, 0]" "SumTxCommit fee_tx_example = (0, 1)" "SumTxValuesWithFee fee_tx_example = 0"
  by (simp_all add: two_banks_def fee_tx_example_def)

lemma fee_tx_example_sat:
  "EnygmaFeeCircuit_Define fr_api zero_hash zero_ped (\<lambda>_. Some \<lparr>X = 0, Y = 1\<rparr>) pay_hint fee_tx_example = Some ()"
proof -
  have "fv (fv (P - 4) - 1) = P - 5" "fv (P - 5 + 4 + 1) = P" "fv (P - 4) = P - 4" "fv (P - 1) = P - 1"
    by (simp_all add: fv_def P_def SNARK_SCALAR_FIELD_def)
  note num = this
  have "check_fee_value fr_api pay_hint fee_tx_example = Some 4"
    using num by (simp add: check_fee_value_def fee_fields two_banks_select pay_bit_simps pay_simps)
  moreover have "check_sum_values fr_api pay_hint fee_tx_example = Some ()"
    using num by (simp add: check_sum_values_def fee_fields two_banks_fields pay_simps algebra_simps)
  moreover have "check_sum_commits fr_api (\<lambda>_. Some \<lparr>X = 0, Y = 1\<rparr>) fee_tx_example = Some ()"
    by (simp add: check_sum_commits_def fee_fields two_banks_fields pay_simps pay_point)
  moreover have "check_fee_solvency fr_api fee_tx_example 4 = Some ()"
    by (simp add: check_fee_solvency_def fee_fields two_banks_fields pay_bit_simps pay_simps fr.Cmp)
  ultimately show ?thesis by (simp add: EnygmaFeeCircuit_Define_def bridge_blocks fee_fields pay_simps)
qed

subsection \<open>Properties\<close>

text \<open>
  C26. A payment with a fee conserves money and is covered. In an accepted transaction exactly one slot is the
  sender's; every other slot is credited an amount below \<open>2 ^ 64\<close>; the credits sum, over the integers, to the
  declared amount; the sender's slot is the negative, modulo the group order, of amount and fee together,
  which its previous balance covers; the published sum of the commitments is the neutral point, and the
  published sum of values and fee is 0 (except when amount and fee are both 0).
\<close>

theorem fee_payment_conserves:
  assumes "gnark api" and "EnygmaFeeCircuit_Define api pos ped feeG hint c = Some ()"
    and "int (NCommitment (Config c)) * 2 ^ 64 < SNARK_SCALAR_FIELD"
  shows "(\<exists>s<NCommitment (Config c). (\<forall>i<NCommitment (Config c). sends c i \<longleftrightarrow> i = s) \<and>
      (\<forall>i<NCommitment (Config c). i \<noteq> s \<longrightarrow> fv (TxValues c ! i) < 2 ^ 64) \<and>
      (\<Sum>i\<leftarrow>[0..<NCommitment (Config c)]. if i = s then 0 else fv (TxValues c ! i)) = fv (SenderTxValue c) \<and>
      fv (TxValues c ! s) = (P - fv (SenderTxValue c) - fv (Fee c)) mod P) \<and>
    fv (SenderTxValue c) + fv (Fee c) \<le> fv (PreviousSenderBalance c) \<and> fv (PreviousSenderBalance c) < 2 ^ 64 \<and>
    fv (fst (SumTxCommit c)) = 0 \<and> fv (snd (SumTxCommit c)) = 1 \<and>
    (fv (SumTxValuesWithFee c) = 0 \<or> fv (SenderTxValue c) + fv (Fee c) = 0)"
proof -
  obtain s where s: "sender_slot c s" "credits c = fv (SenderTxValue c)"
      "\<forall>i<NCommitment (Config c). i \<noteq> s \<longrightarrow> fv (TxValues c ! i) < 2 ^ 64"
      "fv (TxValues c ! s) = (P - fv (SenderTxValue c) - fv (Fee c)) mod P"
      "fv (SenderTxValue c) + fv (Fee c) \<le> fv (PreviousSenderBalance c)" "fv (PreviousSenderBalance c) < 2 ^ 64"
    using gnark.fee_values [OF assms] by blast
  have "(\<Sum>i\<leftarrow>[0..<NCommitment (Config c)]. if i = s then 0 else fv (TxValues c ! i)) = credits c"
    unfolding credits_def using s(1) by (intro arg_cong [of _ _ sum_list] map_cong) (auto simp: sender_slot_def)
  moreover have "check_sum_commits api feeG c = Some ()" using gnark.fee_blocks [OF assms(1,2)] by blast
  ultimately show ?thesis
    using s gnark.sum_commits [OF assms(1)] fee_total [OF assms] by (auto simp: sender_slot_def intro!: exI [of _ s])
qed

theorem fee_payment_conserves_witness:
  "\<exists>s<2. (\<Sum>i\<leftarrow>[0..<2]. if i = s then 0 else fv (TxValues fee_tx_example ! i)) = 4 \<and>
     fv (TxValues fee_tx_example ! s) = (P - 4 - 1) mod P"
  using fee_payment_conserves [OF gnark_fr_api fee_tx_example_sat] pay_numbers
  by (auto simp: fee_fields two_banks_fields [OF fee_fields(1)] SNARK_SCALAR_FIELD_def)

end
