(* ===== verification/Bank_Burn.thy ===== *)
theory Bank_Burn
  imports Bank_Example
begin

section \<open>Burning part of a balance\<close>

text \<open>
  \<^verbatim>\<open>pkg/circuits/burn/circuit.go\<close>: the holder of an account proves that it knows the key and the opening of
  its balance commitment, that the balance covers the burned amount, and what the commitment to the rest is.
\<close>

subsection \<open>The circuit\<close>

record BurnCircuit =
  BurnPublicKey :: fr
  BurnPreviousCommit :: "fr \<times> fr"
  NewCommit :: "fr \<times> fr"
  Amount :: fr
  BurnBlockNumber :: fr
  BurnNullifier :: fr
  BurnDomainId :: fr
  BurnSecretKey :: fr
  PreviousBalance :: fr
  PreviousRandomValue :: fr

definition BurnCircuit_Define ::
  "frontend_API \<Rightarrow> hasher \<Rightarrow> pedersen \<Rightarrow> (hint_site \<Rightarrow> fr \<times> fr) \<Rightarrow> BurnCircuit \<Rightarrow> unit option" where
  "BurnCircuit_Define api pos ped hint circuit = do {
     pk \<leftarrow> pos [BurnSecretKey circuit, BurnSecretKey circuit];
     pkMod \<leftarrow> ReduceModP api (hint Site_pk) pk;
     AssertIsEqual api (BurnPublicKey circuit) pkMod;
     computedPreviousCommitment \<leftarrow> ped (PreviousBalance circuit) (PreviousRandomValue circuit);
     AssertIsEqual api (fst (BurnPreviousCommit circuit)) (X computedPreviousCommitment);
     AssertIsEqual api (snd (BurnPreviousCommit circuit)) (Y computedPreviousCommitment);
     amountBits \<leftarrow> ToBinary api (Amount circuit) 64;
     let amountConstrained = FromBinary api amountBits;
     previousVBits \<leftarrow> ToBinary api (PreviousBalance circuit) 64;
     let previousVConstrained = FromBinary api previousVBits;
     let prevGreaterEqualAmount = Cmp api previousVConstrained amountConstrained;
     AssertIsEqual api (IsZero api (Add api prevGreaterEqualAmount 1)) 0;
     let newBalance = Sub api previousVConstrained amountConstrained;
     computedNewCommitment \<leftarrow> ped newBalance (PreviousRandomValue circuit);
     AssertIsEqual api (fst (NewCommit circuit)) (X computedNewCommitment);
     AssertIsEqual api (snd (NewCommit circuit)) (Y computedNewCommitment);
     secretSenderCalculated \<leftarrow> pos [PreviousRandomValue circuit, BurnSecretKey circuit];
     secretRemain \<leftarrow> ReduceModP api (hint Site_secret) secretSenderCalculated;
     computedNullifier \<leftarrow> pos [secretRemain, BurnBlockNumber circuit];
     AssertIsEqual api computedNullifier (BurnNullifier circuit);
     AssertIsEqual api (BurnDomainId circuit) (BurnDomainId circuit) }"

subsection \<open>The specification\<close>

text \<open>The coordinates of a public commitment are those of a point.\<close>

definition commits_to :: "fr \<times> fr \<Rightarrow> Point option \<Rightarrow> bool" where
  "commits_to xy p \<longleftrightarrow> (\<exists>q. p = Some q \<and> fv (fst xy) = fv (X q) \<and> fv (snd xy) = fv (Y q))"

text \<open>
  What a burn proves, without bits, hints or comparison gadgets: the key, both openings with one blinding
  factor, and a balance that covers the amount. The reductions of the two hashes are left to \<^const>\<open>reduces\<close>.
\<close>

definition burn_spec :: "hasher \<Rightarrow> pedersen \<Rightarrow> BurnCircuit \<Rightarrow> fr \<Rightarrow> fr \<Rightarrow> bool" where
  "burn_spec pos ped b key secret \<longleftrightarrow>
     (\<exists>h. pos [BurnSecretKey b, BurnSecretKey b] = Some h \<and> reduces (fv h) (fv key)) \<and> fv (BurnPublicKey b) = fv key \<and>
     commits_to (BurnPreviousCommit b) (ped (PreviousBalance b) (PreviousRandomValue b)) \<and>
     fv (Amount b) \<le> fv (PreviousBalance b) \<and> fv (PreviousBalance b) < 2 ^ 64 \<and>
     commits_to (NewCommit b) (ped (fv (PreviousBalance b) - fv (Amount b)) (PreviousRandomValue b)) \<and>
     (\<exists>h. pos [PreviousRandomValue b, BurnSecretKey b] = Some h \<and> reduces (fv h) (fv secret)) \<and>
     (\<exists>n. pos [secret, BurnBlockNumber b] = Some n \<and> fv n = fv (BurnNullifier b))"

context gnark
begin

text \<open>Every reduction of the specification has a hint for which the gadget returns it.\<close>

lemma ReduceModP_complete:
  assumes "reduces (fv v) (fv r)"
  shows "\<exists>q. ReduceModP api (r, q) v = Some r"
proof -
  have r: "0 \<le> fv r" "fv r < P" using reduces_range [OF assms] by auto
  obtain n where n: "fv n = fv v" "0 \<le> n" "n < 8 * P" "n mod P = fv r"
  proof (cases "fv r = fv v mod P")
    case True
    have "fv v < 8 * P" using fv_range(2) [of v] P_bounds(2) by linarith
    with True show thesis by (intro that [of "fv v"]) auto
  next
    case False
    then have "fv v < slack" "fv r = (fv v + SNARK_SCALAR_FIELD) mod P" using assms by (auto simp: reduces_def)
    moreover have "fv (fv v + SNARK_SCALAR_FIELD) = fv v" by (simp add: fv_def)
    moreover have "0 \<le> fv v + SNARK_SCALAR_FIELD" using fv_range(1) [of v] SNARK_SCALAR_FIELD_pos by linarith
    ultimately show thesis by (intro that [of "fv v + SNARK_SCALAR_FIELD"]) (auto simp: slack_def)
  qed
  have q: "0 \<le> n div P" "n div P < 8"
    using n(2,3) P_bounds(3) by (simp_all add: pos_imp_zdiv_nonneg_iff) (simp add: P_def)
  then have "fv (n div P) = n div P" using SNARK_SCALAR_FIELD_big by (intro fv_id) auto
  moreover have "fv (n div P * P + r) = fv v"
    using n(1,4) by (metis div_mult_mod_eq fv_reduce(2))
  ultimately have "ReduceModP api (r, n div P) v = Some r" using r q by (simp add: ReduceModP_iff)
  then show ?thesis ..
qed

lemma burn_sound:
  assumes "BurnCircuit_Define api pos ped hint b = Some ()"
  shows "\<exists>key secret. burn_spec pos ped b key secret"
proof -
  from assms have "\<exists>h key p ab vb q h' secret n. pos [BurnSecretKey b, BurnSecretKey b] = Some h \<and>
      ReduceModP api (hint Site_pk) h = Some key \<and> fv (BurnPublicKey b) = fv key \<and>
      ped (PreviousBalance b) (PreviousRandomValue b) = Some p \<and> fv (fst (BurnPreviousCommit b)) = fv (X p) \<and>
      fv (snd (BurnPreviousCommit b)) = fv (Y p) \<and> ToBinary api (Amount b) 64 = Some ab \<and>
      ToBinary api (PreviousBalance b) 64 = Some vb \<and>
      fv (IsZero api (Add api (Cmp api (FromBinary api vb) (FromBinary api ab)) 1)) = 0 \<and>
      ped (Sub api (FromBinary api vb) (FromBinary api ab)) (PreviousRandomValue b) = Some q \<and>
      fv (fst (NewCommit b)) = fv (X q) \<and> fv (snd (NewCommit b)) = fv (Y q) \<and>
      pos [PreviousRandomValue b, BurnSecretKey b] = Some h' \<and> ReduceModP api (hint Site_secret) h' = Some secret \<and>
      pos [secret, BurnBlockNumber b] = Some n \<and> fv n = fv (BurnNullifier b)"
    unfolding BurnCircuit_Define_def Let_def by (simp add: bind_eq_Some_conv assert_eq)
  then obtain h key p ab vb q h' secret n where d: "pos [BurnSecretKey b, BurnSecretKey b] = Some h"
      "ReduceModP api (hint Site_pk) h = Some key" "fv (BurnPublicKey b) = fv key"
      "ped (PreviousBalance b) (PreviousRandomValue b) = Some p" "fv (fst (BurnPreviousCommit b)) = fv (X p)"
      "fv (snd (BurnPreviousCommit b)) = fv (Y p)" "ToBinary api (Amount b) 64 = Some ab"
      "ToBinary api (PreviousBalance b) 64 = Some vb"
      "fv (IsZero api (Add api (Cmp api (FromBinary api vb) (FromBinary api ab)) 1)) = 0"
      "ped (Sub api (FromBinary api vb) (FromBinary api ab)) (PreviousRandomValue b) = Some q"
      "fv (fst (NewCommit b)) = fv (X q)" "fv (snd (NewCommit b)) = fv (Y q)"
      "pos [PreviousRandomValue b, BurnSecretKey b] = Some h'" "ReduceModP api (hint Site_secret) h' = Some secret"
      "pos [secret, BurnBlockNumber b] = Some n" "fv n = fv (BurnNullifier b)" by blast
  have bits: "FromBinary api ab = fv (Amount b)" "FromBinary api vb = fv (PreviousBalance b)" "fv (PreviousBalance b) < 2 ^ 64"
    using from_to_binary [OF _ d(7)] from_to_binary [OF _ d(8)] by auto
  then have le: "fv (Amount b) \<le> fv (PreviousBalance b)" using d(9) by (auto simp: fv_IsZero Add Cmp split: if_splits)
  then have "Sub api (FromBinary api vb) (FromBinary api ab) = fv (PreviousBalance b) - fv (Amount b)"
    using bits fv_range(2) [of "PreviousBalance b"] fv_range(1) [of "Amount b"] by (simp add: Sub fv_id del: fv_reduce fv_range)
  then have "burn_spec pos ped b key secret"
    using d(1,3-6,10-13,15,16) bits(3) le ReduceModP_sound [OF d(2)] ReduceModP_sound [OF d(14)]
    by (simp add: burn_spec_def commits_to_def)
  then show ?thesis by blast
qed

lemma burn_complete:
  assumes "burn_spec pos ped b key secret"
  shows "\<exists>hint. BurnCircuit_Define api pos ped hint b = Some ()"
proof -
  obtain h h' where h: "pos [BurnSecretKey b, BurnSecretKey b] = Some h" "reduces (fv h) (fv key)"
      "pos [PreviousRandomValue b, BurnSecretKey b] = Some h'" "reduces (fv h') (fv secret)"
    using assms by (auto simp: burn_spec_def)
  obtain q q' where q: "ReduceModP api (key, q) h = Some key" "ReduceModP api (secret, q') h' = Some secret"
    using ReduceModP_complete [OF h(2)] ReduceModP_complete [OF h(4)] by blast
  define hint where "hint site = (if site = Site_pk then (key, q) else (secret, q'))" for site
  have le: "fv (Amount b) \<le> fv (PreviousBalance b)" "fv (PreviousBalance b) < 2 ^ 64" using assms by (simp_all add: burn_spec_def)
  then have bits: "ToBinary api (Amount b) 64 = Some (le_bits 64 (fv (Amount b)))"
      "ToBinary api (PreviousBalance b) 64 = Some (le_bits 64 (fv (PreviousBalance b)))"
      "FromBinary api (le_bits 64 (fv (Amount b))) = fv (Amount b)"
      "FromBinary api (le_bits 64 (fv (PreviousBalance b))) = fv (PreviousBalance b)"
    by (simp_all add: ToBinary FromBinary le_value_le_bits)
  have sub: "Sub api (fv (PreviousBalance b)) (fv (Amount b)) = fv (PreviousBalance b) - fv (Amount b)"
    using le(1) fv_range(2) [of "PreviousBalance b"] fv_range(1) [of "Amount b"] by (simp add: Sub fv_id del: fv_reduce fv_range)
  have cmp: "fv (IsZero api (Add api (Cmp api (fv (PreviousBalance b)) (fv (Amount b))) 1)) = 0"
    using le(1) pay_numbers(12) by (auto simp: fv_IsZero Add Cmp fv_numeral)
  have "BurnCircuit_Define api pos ped hint b = Some ()"
    using assms h q cmp by (auto simp: BurnCircuit_Define_def burn_spec_def commits_to_def hint_def bits sub AssertIsEqual)
  then show ?thesis by (rule exI [where x = hint])
qed

end

subsection \<open>Properties\<close>

text \<open>The account holds 9 and burns 5.\<close>

definition burn_example :: BurnCircuit where
  "burn_example = \<lparr>BurnPublicKey = 0, BurnPreviousCommit = (0, 1), NewCommit = (0, 1), Amount = 5, BurnBlockNumber = 3,
     BurnNullifier = 0, BurnDomainId = 1, BurnSecretKey = 4, PreviousBalance = 9, PreviousRandomValue = 6\<rparr>"

text \<open>
  The burn circuit means what it should. A prover can satisfy it, by some answers to the reduction hints,
  exactly when the specification holds: the secret key hashes to the public key, the previous commitment
  opens to a balance below \<open>2 ^ 64\<close> that covers the burned amount, the new commitment opens to the difference
  over the integers under the same blinding factor, and the nullifier is derived from that factor, the key
  and the block number.
\<close>

theorem burn_refines_spec:
  assumes "gnark api"
  shows "(\<exists>hint. BurnCircuit_Define api pos ped hint b = Some ()) \<longleftrightarrow> (\<exists>key secret. burn_spec pos ped b key secret)"
  using gnark.burn_sound [OF assms] gnark.burn_complete [OF assms] by blast

theorem burn_refines_spec_witness: "\<exists>hint. BurnCircuit_Define fr_api zero_hash zero_ped hint burn_example = Some ()"
proof -
  have "reduces 0 0" using P_bounds(3) by (simp add: reduces_def)
  then have "burn_spec zero_hash zero_ped burn_example 0 0"
    using pay_numbers by (simp add: burn_spec_def commits_to_def burn_example_def zero_hash_def zero_ped_def)
  then show ?thesis using burn_refines_spec [OF gnark_fr_api] by blast
qed

end
