(* ===== verification/Relay_Machine.thy ===== *)
theory Relay_Machine
  imports Prelude
begin

section \<open>The relayers as a system of concurrent handlers\<close>

text \<open>
  The three relayers (\<^verbatim>\<open>enygma_payments\<close>, \<^verbatim>\<open>enygma_dvp\<close> and \<^verbatim>\<open>enygma_retail_payments\<close>, each
  \<^verbatim>\<open>relayer/server/handler.go\<close>) answer requests concurrently. Their handlers share a map of keys in flight
  (\<^verbatim>\<open>sync.Map\<close>), a mutex around the submission of transactions, and, for payments between banks, an atomic
  counter of transactions that are not mined yet. This theory models a running handler as a program point,
  the effect of each atomic operation on the shared state as a step, and a run as any interleaving of the
  steps of any number of handlers. What the chain answers is not determined: a submission may fail, a mined
  transaction may be reverted.

  The relayers differ in two ways, which are parameters: payments between banks release the mutex before they
  wait for the transaction to be mined, the other relayers after; and a tag that missed its block is
  submitted again, a bounded number of times, under the same lock.
\<close>

subsection \<open>Program points and shared state\<close>

record relay_conf =
  holds_lock :: bool

text \<open>
  The lists are the keys still to be claimed and the keys claimed; a number after them counts the
  resubmissions left; the number of a transaction is its nonce; the last number is the HTTP status of the
  answer.
\<close>

datatype handler =
    Claiming "string list" "string list" nat
  | Ready "string list" nat
  | Locked "string list" nat
  | Fetched "string list" nat nat
  | Sent "string list" nat nat
  | Releasing "string list" nat
  | Unlocked "string list" nat
  | Waiting "string list" nat
  | Mined "string list" nat
  | Leaving "string list" nat
  | Answered nat

record relay_state =
  inFlight :: "string set"
  txMu :: "nat option"
  pendingTxs :: int
  next_nonce :: nat
  sent :: "nat list"
  handlers :: "handler list"

definition goto :: "nat \<Rightarrow> handler \<Rightarrow> relay_state \<Rightarrow> relay_state" where
  "goto t p s = s\<lparr>handlers := (handlers s)[t := p]\<rparr>"

definition at :: "relay_state \<Rightarrow> nat \<Rightarrow> handler \<Rightarrow> bool" where
  "at s t p \<longleftrightarrow> t < length (handlers s) \<and> handlers s ! t = p"

definition final_status :: "nat set" where
  "final_status = {200, 400, 409, 500}"

subsection \<open>Steps\<close>

text \<open>
  One rule per atomic operation: \<^verbatim>\<open>LoadOrStore\<close> on the map of keys in flight and its two answers, the
  mutex, the two halves of go-ethereum's submission (the nonce is read from the pending pool, then the
  transaction is sent), the counter, and the deferred deletions in the order in which they run.
\<close>

inductive handler_step :: "relay_conf \<Rightarrow> nat \<Rightarrow> relay_state \<Rightarrow> relay_state \<Rightarrow> bool" for conf t where
  claim: "at s t (Claiming (k # ks) got r) \<Longrightarrow> k \<notin> inFlight s \<Longrightarrow>
    handler_step conf t s (goto t (Claiming ks (got @ [k]) r) (s\<lparr>inFlight := insert k (inFlight s)\<rparr>))"
| conflict: "at s t (Claiming (k # ks) got r) \<Longrightarrow> k \<in> inFlight s \<Longrightarrow>
    handler_step conf t s (goto t (Leaving got 409) s)"
| claimed: "at s t (Claiming [] got r) \<Longrightarrow> handler_step conf t s (goto t (Ready got r) s)"
| lock: "at s t (Ready got r) \<Longrightarrow> txMu s = None \<Longrightarrow>
    handler_step conf t s (goto t (Locked got r) (s\<lparr>txMu := Some t\<rparr>))"
| fetch: "at s t (Locked got r) \<Longrightarrow> handler_step conf t s (goto t (Fetched got (next_nonce s) r) s)"
| refuse: "at s t (Locked got r) \<Longrightarrow> status \<in> final_status \<Longrightarrow> handler_step conf t s (goto t (Releasing got status) s)"
| submit: "at s t (Fetched got n r) \<Longrightarrow>
    handler_step conf t s (goto t (Sent got n r) (s\<lparr>sent := sent s @ [n], next_nonce := Suc n\<rparr>))"
| submit_error: "at s t (Fetched got n r) \<Longrightarrow> handler_step conf t s (goto t (Releasing got 500) s)"
| unlock_early: "at s t (Sent got n r) \<Longrightarrow> \<not> holds_lock conf \<Longrightarrow>
    handler_step conf t s (goto t (Unlocked got n) (s\<lparr>txMu := None\<rparr>))"
| count: "at s t (Unlocked got n) \<Longrightarrow>
    handler_step conf t s (goto t (Waiting got n) (s\<lparr>pendingTxs := pendingTxs s + 1\<rparr>))"
| mined: "at s t (Waiting got n) \<Longrightarrow> status \<in> final_status \<Longrightarrow> handler_step conf t s (goto t (Mined got status) s)"
| uncount: "at s t (Mined got status) \<Longrightarrow>
    handler_step conf t s (goto t (Leaving got status) (s\<lparr>pendingTxs := pendingTxs s - 1\<rparr>))"
| mined_locked: "at s t (Sent got n r) \<Longrightarrow> holds_lock conf \<Longrightarrow> status \<in> final_status \<Longrightarrow>
    handler_step conf t s (goto t (Releasing got status) s)"
| retry: "at s t (Sent got n (Suc r)) \<Longrightarrow> holds_lock conf \<Longrightarrow> handler_step conf t s (goto t (Locked got r) s)"
| unlock: "at s t (Releasing got status) \<Longrightarrow>
    handler_step conf t s (goto t (Leaving got status) (s\<lparr>txMu := None\<rparr>))"
| release: "at s t (Leaving (k # ks) status) \<Longrightarrow>
    handler_step conf t s (goto t (Leaving ks status) (s\<lparr>inFlight := inFlight s - {k}\<rparr>))"
| answer: "at s t (Leaving [] status) \<Longrightarrow> handler_step conf t s (goto t (Answered status) s)"

text \<open>
  A request arrives: it is answered at once when its validation fails, otherwise its handler starts to claim
  the keys of the request.
\<close>

definition arrive :: "nat + string list \<times> nat \<Rightarrow> relay_state \<Rightarrow> relay_state" where
  "arrive plan s = s\<lparr>handlers := handlers s @
     [case plan of Inl status \<Rightarrow> Answered status | Inr (keys, r) \<Rightarrow> Claiming keys [] r]\<rparr>"

definition idle :: "nat \<Rightarrow> relay_state" where
  "idle n0 = \<lparr>inFlight = {}, txMu = None, pendingTxs = 0, next_nonce = n0, sent = [], handlers = []\<rparr>"

inductive reachable :: "relay_conf \<Rightarrow> nat \<Rightarrow> relay_state \<Rightarrow> bool" for conf n0 where
  start: "reachable conf n0 (idle n0)"
| arrival: "reachable conf n0 s \<Longrightarrow> reachable conf n0 (arrive plan s)"
| step: "reachable conf n0 s \<Longrightarrow> handler_step conf t s s' \<Longrightarrow> reachable conf n0 s'"

subsection \<open>Invariants\<close>

fun held :: "handler \<Rightarrow> string list" where
  "held (Claiming todo got r) = got"
| "held (Ready got r) = got"
| "held (Locked got r) = got"
| "held (Fetched got n r) = got"
| "held (Sent got n r) = got"
| "held (Releasing got status) = got"
| "held (Unlocked got n) = got"
| "held (Waiting got n) = got"
| "held (Mined got status) = got"
| "held (Leaving got status) = got"
| "held (Answered status) = []"

fun locking :: "handler \<Rightarrow> bool" where
  "locking (Locked got r) = True"
| "locking (Fetched got n r) = True"
| "locking (Sent got n r) = True"
| "locking (Releasing got status) = True"
| "locking _ = False"

fun counted :: "handler \<Rightarrow> bool" where
  "counted (Waiting got n) = True"
| "counted (Mined got status) = True"
| "counted _ = False"

text \<open>What one handler contributes, for every index: the keys it holds, and whether it holds the mutex.\<close>

definition own :: "relay_state \<Rightarrow> nat \<Rightarrow> string list" where
  "own s t = (if t < length (handlers s) then held (handlers s ! t) else [])"

definition locks :: "relay_state \<Rightarrow> nat \<Rightarrow> bool" where
  "locks s t \<longleftrightarrow> t < length (handlers s) \<and> locking (handlers s ! t)"

text \<open>Every key in flight is held by exactly one handler, once.\<close>

definition keys_ok :: "string set \<Rightarrow> (nat \<Rightarrow> string list) \<Rightarrow> bool" where
  "keys_ok F K \<longleftrightarrow> (\<forall>t. distinct (K t)) \<and> (\<forall>t u. t \<noteq> u \<longrightarrow> set (K t) \<inter> set (K u) = {}) \<and> F = (\<Union>t. set (K t))"

definition keys_inv :: "relay_state \<Rightarrow> bool" where
  "keys_inv s \<longleftrightarrow> keys_ok (inFlight s) (own s)"

text \<open>The mutex is held by the one handler between its lock and its unlock.\<close>

definition lock_inv :: "relay_state \<Rightarrow> bool" where
  "lock_inv s \<longleftrightarrow> (\<forall>t. txMu s = Some t \<longleftrightarrow> locks s t)"

definition count_inv :: "relay_state \<Rightarrow> bool" where
  "count_inv s \<longleftrightarrow> pendingTxs s = (\<Sum>p\<leftarrow>handlers s. if counted p then 1 else 0)"

text \<open>The nonces sent are consecutive, and a nonce just read is the next one.\<close>

definition nonce_inv :: "nat \<Rightarrow> relay_state \<Rightarrow> bool" where
  "nonce_inv n0 s \<longleftrightarrow> n0 \<le> next_nonce s \<and> sent s = [n0..<next_nonce s] \<and>
     (\<forall>t got n r. at s t (Fetched got n r) \<longrightarrow> n = next_nonce s)"

lemmas step_defs = at_def goto_def

lemma keys_ok_add: "keys_ok F K \<Longrightarrow> k \<notin> F \<Longrightarrow> keys_ok (insert k F) (K(t := K t @ [k]))"
  unfolding keys_ok_def by (auto split: if_splits)

lemma keys_ok_remove:
  assumes "keys_ok F K" and "K t = k # ks"
  shows "keys_ok (F - {k}) (K(t := ks))"
proof -
  have "distinct (k # ks)" using assms by (metis keys_ok_def)
  moreover have "k \<notin> set (K u)" if "u \<noteq> t" for u
  proof -
    have "set (K t) \<inter> set (K u) = {}" using assms(1) that unfolding keys_ok_def by blast
    then show ?thesis using assms(2) by auto
  qed
  moreover have "F = (\<Union>t. set (K t))" using assms(1) by (simp add: keys_ok_def)
  ultimately have "F - {k} = (\<Union>u. set ((K(t := ks)) u))"
    using assms(2) by (auto split: if_splits) (metis set_ConsD)+
  moreover have "set (K t) \<inter> set (K u) = {}" if "t \<noteq> u" for t u using assms(1) that unfolding keys_ok_def by blast
  then have "set ((K(t := ks)) v) \<inter> set ((K(t := ks)) u) = {}" if "v \<noteq> u" for v u
    using that assms(2) by (auto split: if_splits) (metis disjoint_iff list.set_intros(2))+
  moreover have "distinct ((K(t := ks)) u)" for u using assms(1) \<open>distinct (k # ks)\<close> by (simp add: keys_ok_def)
  ultimately show ?thesis by (simp add: keys_ok_def)
qed

lemma at_goto: "at s t p \<Longrightarrow> at (goto t q s') u x \<longleftrightarrow> (if u = t then x = q else at s u x)"
  if "handlers s' = handlers s"
  using that by (auto simp: at_def goto_def nth_list_update)

lemma own_goto: "at s t p \<Longrightarrow> handlers s' = handlers s \<Longrightarrow> own (goto t q s') = (own s)(t := held q)"
  by (auto simp: fun_eq_iff own_def at_def goto_def nth_list_update)

lemma own_at: "at s t p \<Longrightarrow> own s t = held p"
  by (simp add: own_def at_def)

lemma locks_goto: "at s t p \<Longrightarrow> handlers s' = handlers s \<Longrightarrow> locks (goto t q s') = (locks s)(t := locking q)"
  by (auto simp: fun_eq_iff locks_def at_def goto_def nth_list_update)

lemma locks_at: "at s t p \<Longrightarrow> locks s t = locking p"
  by (simp add: locks_def at_def)

lemma goto_fields [simp]:
  "inFlight (goto t p s) = inFlight s" "txMu (goto t p s) = txMu s" "pendingTxs (goto t p s) = pendingTxs s"
  "next_nonce (goto t p s) = next_nonce s" "sent (goto t p s) = sent s"
  by (simp_all add: goto_def)

lemma keys_step: "handler_step conf t s s' \<Longrightarrow> keys_inv s \<Longrightarrow> keys_inv s'"
proof (induction rule: handler_step.induct)
  case (claim s k ks got r)
  then show ?case using keys_ok_add [of "inFlight s" "own s" k t] by (simp add: keys_inv_def own_goto own_at)
next
  case (release s k ks status)
  then show ?case using keys_ok_remove [of "inFlight s" "own s" t k ks] by (simp add: keys_inv_def own_goto own_at)
qed (auto simp: keys_inv_def own_goto own_at fun_upd_idem)

lemma lock_step: "handler_step conf t s s' \<Longrightarrow> lock_inv s \<Longrightarrow> lock_inv s'"
proof (induction rule: handler_step.induct)
  case (unlock_early s got n r)
  then show ?case using locks_at [of s t] by (auto simp: lock_inv_def locks_goto) (metis locking.simps(3) option.sel)
next
  case (unlock s got status)
  then show ?case using locks_at [of s t] by (auto simp: lock_inv_def locks_goto) (metis locking.simps(4) option.sel)
qed (auto simp: lock_inv_def locks_goto locks_at)

lemma sum_list_update_int:
  fixes f :: "'a \<Rightarrow> int"
  assumes "t < length xs"
  shows "(\<Sum>x\<leftarrow>xs[t := y]. f x) = (\<Sum>x\<leftarrow>xs. f x) + f y - f (xs ! t)"
  using assms by (induction xs arbitrary: t) (auto split: nat.splits)

lemma count_step: "handler_step conf t s s' \<Longrightarrow> count_inv s \<Longrightarrow> count_inv s'"
  by (induction rule: handler_step.induct) (auto simp: count_inv_def at_def goto_def sum_list_update_int)

lemma nonce_step: "handler_step conf t s s' \<Longrightarrow> lock_inv s \<Longrightarrow> nonce_inv n0 s \<Longrightarrow> nonce_inv n0 s'"
proof (induction rule: handler_step.induct)
  case (submit s got n r)
  have "\<not> at s u (Fetched got' n' r')" if "u \<noteq> t" for u got' n' r'
    using submit(1,2) that locks_at [of s t] locks_at [of s u] unfolding lock_inv_def
    by (metis locking.simps(2) option.sel)
  moreover have "n = next_nonce s" using submit(1,3) by (auto simp: nonce_inv_def)
  ultimately show ?case using submit by (auto simp: nonce_inv_def at_goto)
qed (auto simp: nonce_inv_def at_goto)

lemma own_arrive: "own (arrive plan s) = own s"
  by (auto simp: fun_eq_iff own_def arrive_def nth_append less_Suc_eq split: sum.splits prod.splits)

lemma locks_arrive: "locks (arrive plan s) = locks s"
  by (auto simp: fun_eq_iff locks_def arrive_def nth_append less_Suc_eq split: sum.splits prod.splits)

lemma at_arrive: "at (arrive plan s) t (Fetched got n r) \<longleftrightarrow> at s t (Fetched got n r)"
  by (auto simp: at_def arrive_def nth_append less_Suc_eq split: sum.splits prod.splits)

lemma arrive_fields [simp]:
  "inFlight (arrive plan s) = inFlight s" "txMu (arrive plan s) = txMu s" "pendingTxs (arrive plan s) = pendingTxs s"
  "next_nonce (arrive plan s) = next_nonce s" "sent (arrive plan s) = sent s"
  by (simp_all add: arrive_def)

lemma reachable_inv: "reachable conf n0 s \<Longrightarrow> keys_inv s \<and> lock_inv s \<and> count_inv s \<and> nonce_inv n0 s"
proof (induction rule: reachable.induct)
  case start
  show ?case
    by (auto simp: idle_def keys_inv_def keys_ok_def own_def lock_inv_def locks_def count_inv_def nonce_inv_def at_def)
next
  case (arrival s plan)
  then show ?case
    by (auto simp: keys_inv_def own_arrive lock_inv_def locks_arrive nonce_inv_def at_arrive)
      (auto simp: count_inv_def arrive_def split: sum.splits prod.splits)
next
  case (step s t s')
  then show ?case using keys_step lock_step count_step nonce_step by blast
qed

subsection \<open>Progress\<close>

text \<open>The steps a handler has left, at most.\<close>

fun work :: "handler \<Rightarrow> nat" where
  "work (Claiming todo got r) = 9 + 2 * length todo + length got + 3 * r"
| "work (Ready got r) = 8 + length got + 3 * r"
| "work (Locked got r) = 7 + length got + 3 * r"
| "work (Fetched got n r) = 6 + length got + 3 * r"
| "work (Sent got n r) = 5 + length got + 3 * r"
| "work (Unlocked got n) = 4 + length got"
| "work (Waiting got n) = 3 + length got"
| "work (Mined got status) = 2 + length got"
| "work (Releasing got status) = 2 + length got"
| "work (Leaving got status) = 1 + length got"
| "work (Answered status) = 0"

definition total_work :: "relay_state \<Rightarrow> nat" where
  "total_work s = (\<Sum>p\<leftarrow>handlers s. work p)"

inductive runs :: "relay_conf \<Rightarrow> nat \<Rightarrow> relay_state \<Rightarrow> relay_state \<Rightarrow> bool" for conf where
  run_refl: "runs conf 0 s s"
| run_step: "runs conf n s s' \<Longrightarrow> handler_step conf t s' s'' \<Longrightarrow> runs conf (Suc n) s s''"

definition quiescent :: "relay_state \<Rightarrow> bool" where
  "quiescent s \<longleftrightarrow> (\<forall>p\<in>set (handlers s). \<exists>status. p = Answered status) \<and> inFlight s = {} \<and> txMu s = None \<and> pendingTxs s = 0"

lemma work_update:
  assumes "t < length hs" and "work p < work (hs ! t)"
  shows "(\<Sum>q\<leftarrow>hs[t := p]. work q) < (\<Sum>q\<leftarrow>hs. work q)"
proof -
  have "hs = take t hs @ hs ! t # drop (Suc t) hs" using assms(1) by (rule id_take_nth_drop)
  then have "(\<Sum>q\<leftarrow>hs. work q) = (\<Sum>q\<leftarrow>take t hs. work q) + work (hs ! t) + (\<Sum>q\<leftarrow>drop (Suc t) hs. work q)"
    by (metis (no_types, lifting) add.assoc list.simps(9) map_append sum_list.Cons sum_list.append)
  moreover have "hs[t := p] = take t hs @ p # drop (Suc t) hs" using assms(1) by (rule upd_conv_take_nth_drop)
  ultimately show ?thesis using assms(2) by simp
qed

lemma work_decreases: "handler_step conf t s s' \<Longrightarrow> total_work s' < total_work s"
  by (induction rule: handler_step.induct) (auto simp: total_work_def at_def goto_def intro!: work_update)

lemma runs_bounded: "runs conf n s s' \<Longrightarrow> n + total_work s' \<le> total_work s"
  by (induction rule: runs.induct) (auto dest: work_decreases)

lemma runs_reachable: "runs conf n s s' \<Longrightarrow> reachable conf n0 s \<Longrightarrow> reachable conf n0 s'"
  by (induction rule: runs.induct) (auto intro: reachable.step)

text \<open>A handler is stuck only when it waits for the mutex, and then the holder of the mutex is not.\<close>

lemma handler_enabled:
  assumes "at s t p" and "\<nexists>status. p = Answered status" and "\<nexists>got r. p = Ready got r"
  shows "\<exists>s'. handler_step conf t s s'"
proof (cases p)
  case (Claiming todo got r)
  then show ?thesis using assms(1) by (cases todo) (metis handler_step.claim handler_step.conflict handler_step.claimed)+
next
  case (Sent got n r)
  then show ?thesis using assms(1) handler_step.unlock_early [of s t got n r conf] handler_step.mined_locked [of s t got n r conf 200]
    by (cases "holds_lock conf") (auto simp: final_status_def)
next
  case (Waiting got n)
  then show ?thesis using assms(1) handler_step.mined [of s t got n 200 conf] by (auto simp: final_status_def)
next
  case (Leaving got status)
  then show ?thesis using assms(1) by (cases got) (metis handler_step.release handler_step.answer)+
qed (use assms in \<open>blast intro: handler_step.intros\<close>)+

lemma progress:
  assumes "lock_inv s" and "p \<in> set (handlers s)" and "\<nexists>status. p = Answered status"
  shows "\<exists>t s'. handler_step conf t s s'"
proof -
  obtain t where t: "at s t p" using assms(2) by (auto simp: at_def in_set_conv_nth)
  show ?thesis
  proof (cases "\<exists>got r. p = Ready got r")
    case True
    then obtain got r where p: "p = Ready got r" by blast
    show ?thesis
    proof (cases "txMu s")
      case None
      then show ?thesis using handler_step.lock [of s t got r] t p by blast
    next
      case (Some u)
      then have "at s u (handlers s ! u)" "locking (handlers s ! u)" using assms(1) by (auto simp: lock_inv_def locks_def at_def)
      then show ?thesis using handler_enabled [of s u "handlers s ! u"] by (metis locking.simps(6,11))
    qed
  qed (use handler_enabled [OF t assms(3)] in blast)
qed

lemma quiescent_or_step:
  assumes "reachable conf n0 s"
  shows "quiescent s \<or> (\<exists>t s'. handler_step conf t s s')"
proof (cases "\<forall>p\<in>set (handlers s). \<exists>status. p = Answered status")
  case True
  note inv = reachable_inv [OF assms]
  have p: "\<exists>status. handlers s ! t = Answered status" if "t < length (handlers s)" for t using True that by simp
  have "own s t = []" "\<not> locks s t" for t using p [of t] by (auto simp: own_def locks_def)
  then have "inFlight s = {}" "txMu s = None" using inv by (auto simp: keys_inv_def keys_ok_def lock_inv_def)
  moreover have "(\<Sum>p\<leftarrow>handlers s. if counted p then 1 else 0 :: int) = (\<Sum>p\<leftarrow>handlers s. 0)"
    using True by (intro arg_cong [of _ _ sum_list] map_cong) auto
  then have "pendingTxs s = 0" using inv by (simp add: count_inv_def)
  ultimately show ?thesis using True by (simp add: quiescent_def)
next
  case False
  then show ?thesis using progress reachable_inv [OF assms] by blast
qed

subsection \<open>An example run\<close>

text \<open>A relayer for payments between banks: one transaction waits to be mined while the next one is submitted.\<close>

definition bank_conf :: relay_conf where
  "bank_conf = \<lparr>holds_lock = False\<rparr>"

definition busy :: relay_state where
  "busy = \<lparr>inFlight = {''a'', ''b''}, txMu = Some 1, pendingTxs = 1, next_nonce = 8, sent = [7],
     handlers = [Waiting [''a''] 7, Locked [''b''] 0]\<rparr>"

lemma reachable_step: "reachable conf n0 s \<Longrightarrow> handler_step conf t s s' \<Longrightarrow> s' = s'' \<Longrightarrow> reachable conf n0 s''"
  by (auto intro: reachable.step)

lemma busy_reachable: "reachable bank_conf 7 busy"
proof -
  let ?st = "\<lambda>F m c n xs hs. \<lparr>inFlight = F, txMu = m, pendingTxs = c, next_nonce = n, sent = xs, handlers = hs\<rparr>"
  have "reachable bank_conf 7 (?st {} None 0 7 [] [Claiming [''a''] [] 0])"
    using reachable.arrival [OF reachable.start, of bank_conf 7 "Inr ([''a''], 0)"] by (simp add: arrive_def idle_def)
  then have "reachable bank_conf 7 (?st {''a''} None 0 7 [] [Claiming [] [''a''] 0])"
    by (rule reachable_step [OF _ handler_step.claim [where t = 0]]) (simp_all add: step_defs)
  then have "reachable bank_conf 7 (?st {''a''} None 0 7 [] [Ready [''a''] 0])"
    by (rule reachable_step [OF _ handler_step.claimed [where t = 0]]) (simp_all add: step_defs)
  then have "reachable bank_conf 7 (?st {''a''} (Some 0) 0 7 [] [Locked [''a''] 0])"
    by (rule reachable_step [OF _ handler_step.lock [where t = 0]]) (simp_all add: step_defs)
  then have "reachable bank_conf 7 (?st {''a''} (Some 0) 0 7 [] [Fetched [''a''] 7 0])"
    by (rule reachable_step [OF _ handler_step.fetch [where t = 0]]) (simp_all add: step_defs)
  then have "reachable bank_conf 7 (?st {''a''} (Some 0) 0 8 [7] [Sent [''a''] 7 0])"
    by (rule reachable_step [OF _ handler_step.submit [where t = 0]]) (simp_all add: step_defs)
  then have "reachable bank_conf 7 (?st {''a''} None 0 8 [7] [Unlocked [''a''] 7])"
    by (rule reachable_step [OF _ handler_step.unlock_early [where t = 0]]) (simp_all add: step_defs bank_conf_def)
  then have "reachable bank_conf 7 (?st {''a''} None 1 8 [7] [Waiting [''a''] 7])"
    by (rule reachable_step [OF _ handler_step.count [where t = 0]]) (simp_all add: step_defs)
  then have "reachable bank_conf 7 (?st {''a''} None 1 8 [7] [Waiting [''a''] 7, Claiming [''b''] [] 0])"
    using reachable.arrival [of bank_conf 7 _ "Inr ([''b''], 0)"] by (force simp: arrive_def)
  then have "reachable bank_conf 7 (?st {''b'', ''a''} None 1 8 [7] [Waiting [''a''] 7, Claiming [] [''b''] 0])"
    by (rule reachable_step [OF _ handler_step.claim [where t = 1]]) (simp_all add: step_defs)
  then have "reachable bank_conf 7 (?st {''b'', ''a''} None 1 8 [7] [Waiting [''a''] 7, Ready [''b''] 0])"
    by (rule reachable_step [OF _ handler_step.claimed [where t = 1]]) (simp_all add: step_defs)
  then have "reachable bank_conf 7 (?st {''b'', ''a''} (Some 1) 1 8 [7] [Waiting [''a''] 7, Locked [''b''] 0])"
    by (rule reachable_step [OF _ handler_step.lock [where t = 1]]) (simp_all add: step_defs)
  then show ?thesis by (simp add: busy_def insert_commute)
qed

text \<open>Two requests with different keys, both past their claims.\<close>

definition two_ready :: "nat \<Rightarrow> string \<Rightarrow> string \<Rightarrow> relay_state" where
  "two_ready n0 a b = \<lparr>inFlight = {b, a}, txMu = None, pendingTxs = 0, next_nonce = n0, sent = [],
     handlers = [Ready [a] 0, Ready [b] 0]\<rparr>"

lemma two_ready_reachable: "a \<noteq> b \<Longrightarrow> reachable conf n0 (two_ready n0 a b)"
proof -
  assume ab: "a \<noteq> b"
  let ?st = "\<lambda>F hs. \<lparr>inFlight = F, txMu = None, pendingTxs = 0, next_nonce = n0, sent = [], handlers = hs\<rparr>"
  have "reachable conf n0 (?st {} [Claiming [a] [] 0])"
    using reachable.arrival [OF reachable.start, of conf n0 "Inr ([a], 0)"] by (simp add: arrive_def idle_def)
  then have "reachable conf n0 (?st {a} [Claiming [] [a] 0])"
    by (rule reachable_step [OF _ handler_step.claim [where t = 0]]) (simp_all add: step_defs)
  then have "reachable conf n0 (?st {a} [Ready [a] 0])"
    by (rule reachable_step [OF _ handler_step.claimed [where t = 0]]) (simp_all add: step_defs)
  then have "reachable conf n0 (?st {a} [Ready [a] 0, Claiming [b] [] 0])"
    using reachable.arrival [of conf n0 _ "Inr ([b], 0)"] by (force simp: arrive_def)
  from reachable_step [OF this handler_step.claim [where t = 1], of b "[]" "[]" 0]
  have "reachable conf n0 (?st {b, a} [Ready [a] 0, Claiming [] [b] 0])"
    using ab by (simp add: step_defs)
  then have "reachable conf n0 (?st {b, a} [Ready [a] 0, Ready [b] 0])"
    by (rule reachable_step [OF _ handler_step.claimed [where t = 1]]) (simp_all add: step_defs)
  then show ?thesis by (simp add: two_ready_def)
qed

lemma reachable_held_disjoint:
  assumes "reachable conf n0 s" "at s t p" "at s u q" "t \<noteq> u"
  shows "set (held p) \<inter> set (held q) = {}"
  using reachable_inv [OF assms(1)] own_at [OF assms(2)] own_at [OF assms(3)] assms(4)
  unfolding keys_inv_def keys_ok_def by metis

subsection \<open>Properties\<close>

text \<open>
  No key is processed twice at the same time. In every reachable state two different handlers hold
  disjoint sets of keys, no handler holds a key twice, and the keys in flight are exactly the keys some
  handler holds: a request is refused as a duplicate only while another handler (or the request itself)
  holds one of its keys.
\<close>

theorem relay_no_duplicate_in_flight:
  assumes "reachable conf n0 s"
  shows "(\<forall>t u p q. at s t p \<and> at s u q \<and> t \<noteq> u \<longrightarrow> set (held p) \<inter> set (held q) = {}) \<and>
    (\<forall>t p. at s t p \<longrightarrow> distinct (held p)) \<and> inFlight s = \<Union> {set (held p) | t p. at s t p}"
proof -
  have k: "keys_ok (inFlight s) (own s)" using reachable_inv [OF assms] by (simp add: keys_inv_def)
  have "set (held p) \<inter> set (held q) = {}" if "at s t p" "at s u q" "t \<noteq> u" for t u p q
    using reachable_held_disjoint [OF assms that] .
  moreover have "distinct (held p)" if "at s t p" for t p using k own_at [OF that] unfolding keys_ok_def by metis
  moreover have "(\<Union>t. set (own s t)) = \<Union> {set (held p) | t p. at s t p}"
    by (auto simp: own_def at_def split: if_splits)
  then have "inFlight s = \<Union> {set (held p) | t p. at s t p}" using k by (simp add: keys_ok_def)
  ultimately show ?thesis by (intro conjI allI impI) blast+
qed

theorem relay_no_duplicate_in_flight_witness:
  "\<forall>t u p q. at busy t p \<and> at busy u q \<and> t \<noteq> u \<longrightarrow> set (held p) \<inter> set (held q) = {}"
  using relay_no_duplicate_in_flight [OF busy_reachable] by blast

text \<open>
  C30. Transactions are submitted one after the other. In every reachable state at most one handler is between
  its lock and its unlock, the handler the mutex names; the nonces of the transactions sent are consecutive,
  so that no two submissions raced for the same one; and the counter of pending transactions is the number
  of handlers that wait for a transaction or have just seen it mined.
\<close>

theorem relay_submissions_serialised:
  assumes "reachable conf n0 s"
  shows "(\<forall>t p. at s t p \<and> locking p \<longrightarrow> txMu s = Some t) \<and> sent s = [n0..<next_nonce s] \<and>
    pendingTxs s = int (length (filter counted (handlers s)))"
proof -
  note inv = reachable_inv [OF assms]
  have "(\<Sum>p\<leftarrow>hs. if counted p then 1 else 0) = int (length (filter counted hs))" for hs by (induction hs) auto
  then show ?thesis using inv by (auto simp: lock_inv_def locks_def at_def nonce_inv_def count_inv_def)
qed

theorem relay_submissions_serialised_witness: "txMu busy = Some 1 \<and> sent busy = [7..<8] \<and> pendingTxs busy = 1"
proof -
  have "at busy 1 (Locked [''b''] 0)" by (simp add: at_def busy_def)
  then have "txMu busy = Some 1" using relay_submissions_serialised [OF busy_reachable] by (metis locking.simps(1))
  moreover have "next_nonce busy = 8" "filter counted (handlers busy) = [Waiting [''a''] 7]" by (simp_all add: busy_def)
  ultimately show ?thesis using relay_submissions_serialised [OF busy_reachable] by simp
qed

text \<open>
  C20. Every request is answered. From a reachable state, with no further requests, the handlers can make only
  finitely many steps, at most \<open>total_work\<close>; and as long as a handler has not answered, some handler can make
  a step. So every run that is continued while it can be ends with all requests answered, no key in flight,
  the mutex free and no pending transaction: the handlers never deadlock and leave nothing behind. A wait for a mined
  transaction is a step that can always be made; that the node reports the transaction is an assumption on the environment, since two of the
  relayers wait without a deadline.
\<close>

theorem relay_every_request_answered:
  assumes "reachable conf n0 s" and "runs conf n s s'"
  shows "n \<le> total_work s \<and> (quiescent s' \<or> (\<exists>t s''. handler_step conf t s' s''))"
  using runs_bounded [OF assms(2)] quiescent_or_step [OF runs_reachable [OF assms(2,1)]] by auto

theorem relay_every_request_answered_witness:
  "0 \<le> total_work busy \<and> (quiescent busy \<or> (\<exists>t s''. handler_step bank_conf t busy s''))"
  using relay_every_request_answered [OF busy_reachable runs.run_refl] .

end
