(* ===== verification/Relay_Bank.thy ===== *)
theory Relay_Bank
  imports Go_Text Relay_Machine
begin

section \<open>The relayer of payments between banks: configuration, authentication, validation\<close>

text \<open>
  \<^verbatim>\<open>enygma_payments/relayer\<close>: the API keys read from the environment (\<^verbatim>\<open>config/config.go\<close>), the bearer
  authentication (\<^verbatim>\<open>server/server.go\<close>) and what the two transfer endpoints check of a request before they
  sign it (\<^verbatim>\<open>server/handler.go\<close>). The concurrent part of the handlers is the machine of
  \<^theory_text>\<open>Relay_Machine\<close>. The JSON encoder and SHA-256 are arguments.
\<close>

subsection \<open>Configuration\<close>

text \<open>\<^verbatim>\<open>strings.SplitN(_, _, 2)\<close> for a separator of one character.\<close>

definition SplitN2 :: "char \<Rightarrow> string \<Rightarrow> string list" where
  "SplitN2 c s = (let a = takeWhile (\<lambda>x. x \<noteq> c) s; b = dropWhile (\<lambda>x. x \<noteq> c) s in if b = [] then [s] else [a, tl b])"

datatype config_error = Bad_chain_id string | Bad_gas_limit string | Malformed_entry string | Token_reused string
  | No_private_key | No_api_keys

text \<open>The map from tokens to banks, in the order of the assignments.\<close>

definition api_entry :: "string \<Rightarrow> (string \<times> string) list \<Rightarrow> config_error + (string \<times> string) list" where
  "api_entry entry out = (let entry = TrimSpace entry in
     if entry = [] then Inr out
     else case SplitN2 (CHR '':'') entry of
         [bankID, token] \<Rightarrow>
           if bankID = [] \<or> token = [] then Inl (Malformed_entry entry)
           else (case map_of out token of
               Some existing \<Rightarrow> Inl (Token_reused bankID)
             | None \<Rightarrow> Inr (out @ [(token, bankID)]))
       | _ \<Rightarrow> Inl (Malformed_entry entry))"

fun api_entries :: "string list \<Rightarrow> (string \<times> string) list \<Rightarrow> config_error + (string \<times> string) list" where
  "api_entries [] out = Inr out"
| "api_entries (e # es) out = (case api_entry e out of Inl err \<Rightarrow> Inl err | Inr out' \<Rightarrow> api_entries es out')"

definition parseAPIKeys :: "string \<Rightarrow> config_error + (string \<times> string) list" where
  "parseAPIKeys raw = (if raw = [] then Inr [] else api_entries (Split (CHR '','') raw) [])"

record RelayConfig =
  RPCURL :: string
  ChainID :: int
  RelayerPrivateKeyHex :: string
  APIKeys :: "(string \<times> string) list"
  ContractAddr :: string
  AddressJSONPath :: string
  ABIPath :: string
  Port :: string
  GasLimit :: "64 word"

definition getenv :: "(string \<Rightarrow> string) \<Rightarrow> string \<Rightarrow> string \<Rightarrow> string" where
  "getenv env key fallback = (if env key \<noteq> [] then env key else fallback)"

definition Load :: "(string \<Rightarrow> string) \<Rightarrow> config_error + RelayConfig" where
  "Load env = (
     let chainIDStr = getenv env ''RELAYER_CHAIN_ID'' ''1337'';
         gasLimitStr = getenv env ''RELAYER_GAS_LIMIT'' ''0'';
         privateKey = TrimPrefix (getenv env ''RELAYER_PRIVATE_KEY'' '''') ''0x'' in
     case bigInt_SetString chainIDStr of
       None \<Rightarrow> Inl (Bad_chain_id chainIDStr)
     | Some chainID \<Rightarrow>
     case bigInt_SetString gasLimitStr of
       None \<Rightarrow> Inl (Bad_gas_limit gasLimitStr)
     | Some gasLimit \<Rightarrow>
     if \<not> (0 \<le> gasLimit \<and> gasLimit < 2 ^ 64) then Inl (Bad_gas_limit gasLimitStr)
     else case parseAPIKeys (getenv env ''RELAYER_API_KEYS'' '''') of
       Inl err \<Rightarrow> Inl err
     | Inr parsed \<Rightarrow>
       (let legacy = getenv env ''RELAYER_API_KEY'' '''';
            apiKeys = if parsed = [] \<and> legacy \<noteq> [] then [(legacy, ''default'')] else parsed in
        if privateKey = [] then Inl No_private_key
        else if apiKeys = [] then Inl No_api_keys
        else Inr \<lparr>RPCURL = getenv env ''RELAYER_RPC_URL'' ''http://127.0.0.1:8545'', ChainID = chainID,
                  RelayerPrivateKeyHex = privateKey, APIKeys = apiKeys,
                  ContractAddr = getenv env ''RELAYER_CONTRACT_ADDR'' '''',
                  AddressJSONPath = getenv env ''RELAYER_ADDRESS_JSON'' ''../go_client/address.json'',
                  ABIPath = getenv env ''RELAYER_ABI_PATH'' ''../contracts/enygma/artifacts/contracts/Enygma.sol/Enygma.json'',
                  Port = getenv env ''RELAYER_PORT'' ''8082'', GasLimit = word_of_int gasLimit\<rparr>))"

subsection \<open>Authentication\<close>

definition to_lower :: "char \<Rightarrow> char" where
  "to_lower c = (let k = of_char c :: nat in if 65 \<le> k \<and> k \<le> 90 then char_of (k + 32) else c)"

definition EqualFold :: "string \<Rightarrow> string \<Rightarrow> bool" where
  "EqualFold s t \<longleftrightarrow> map to_lower s = map to_lower t"

text \<open>The loop over the issued tokens: the last match wins. The result is a status or the bank.\<close>

definition find_bank :: "(string \<times> string) list \<Rightarrow> string \<Rightarrow> string option" where
  "find_bank apiKeys token = fold (\<lambda>(tok, id) found. if token = tok then Some id else found) apiKeys None"

definition bearerAuth :: "(string \<times> string) list \<Rightarrow> string \<Rightarrow> nat + string" where
  "bearerAuth apiKeys authHeader = (
     if authHeader = [] then Inl 401
     else case SplitN2 (CHR '' '') authHeader of
         [scheme, token] \<Rightarrow>
           if \<not> EqualFold scheme ''Bearer'' then Inl 401
           else (case find_bank apiKeys token of None \<Rightarrow> Inl 403 | Some bankID \<Rightarrow> Inr bankID)
       | _ \<Rightarrow> Inl 401)"

subsection \<open>Validation of a transfer\<close>

definition maxParticipants :: nat where
  "maxParticipants = 6"

definition bn254Fr :: int where
  "bn254Fr = 21888242871839275222246405745257275088548364400416034343698204186575808495617"

definition bn254Fq :: int where
  "bn254Fq = 21888242871839275222246405745257275088696311157297823662689037894645226208583"

datatype field_error = Invalid_decimal | Negative_value | Above_modulus

definition checkFieldElement :: "string \<Rightarrow> int \<Rightarrow> field_error + int" where
  "checkFieldElement s modulus = (case bigInt_SetString s of
       None \<Rightarrow> Inl Invalid_decimal
     | Some n \<Rightarrow> if n < 0 then Inl Negative_value else if modulus \<le> n then Inl Above_modulus else Inr n)"

datatype relay_error = Proof_element nat field_error | Signal_count nat | Signal_element nat field_error
  | Pair_length nat nat | Commitment_x nat field_error | Commitment_y nat field_error
  | Negative_id nat int | Counts_differ nat nat | Count_not_six nat

definition parseProof8 :: "string list \<Rightarrow> relay_error + int list" where
  "parseProof8 raw = checkAll (\<lambda>i s. case checkFieldElement s bn254Fq of
     Inl e \<Rightarrow> Inl (Proof_element i e) | Inr n \<Rightarrow> Inr n) 0 raw"

definition parseCommitments :: "string list list \<Rightarrow> relay_error + (int \<times> int) list" where
  "parseCommitments raw = checkAll (\<lambda>i pair. case pair of
       [x, y] \<Rightarrow> (case checkFieldElement x bn254Fr of
           Inl e \<Rightarrow> Inl (Commitment_x i e)
         | Inr c1 \<Rightarrow> (case checkFieldElement y bn254Fr of
             Inl e \<Rightarrow> Inl (Commitment_y i e)
           | Inr c2 \<Rightarrow> Inr (c1, c2)))
     | _ \<Rightarrow> Inl (Pair_length i (length pair))) 0 raw"

definition parseParticipantIds :: "int list \<Rightarrow> relay_error + int list" where
  "parseParticipantIds ids = checkAll (\<lambda>i id. if id < 0 then Inl (Negative_id i id) else Inr id) 0 ids"

definition checkParticipantCount :: "nat \<Rightarrow> nat \<Rightarrow> relay_error option" where
  "checkParticipantCount nCommitments nKIndex = (
     if nCommitments \<noteq> nKIndex then Some (Counts_differ nCommitments nKIndex)
     else if nCommitments \<noteq> maxParticipants then Some (Count_not_six nCommitments) else None)"

text \<open>
  The request as its JSON decodes: eight strings for the proof, the others of any length; the participant ids
  are 64-bit integers. The validation is that of both endpoints, for 81 public signals (\<^verbatim>\<open>RelayTransfer\<close>)
  or 55 (\<^verbatim>\<open>RelayTransferFee\<close>); it returns what is handed to the contract.
\<close>

record RelayTransferRequest =
  Proof :: "string list"
  PublicSignal :: "string list"
  Commitments :: "string list list"
  KIndex :: "int list"

record transfer_call =
  proof8 :: "int list"
  pubSig :: "int list"
  commitments :: "(int \<times> int) list"
  kIndex :: "int list"

definition check_transfer :: "nat \<Rightarrow> RelayTransferRequest \<Rightarrow> relay_error + transfer_call" where
  "check_transfer signals req = (case parseProof8 (Proof req) of
       Inl e \<Rightarrow> Inl e
     | Inr p \<Rightarrow>
     if length (PublicSignal req) \<noteq> signals then Inl (Signal_count (length (PublicSignal req)))
     else case checkAll (\<lambda>i s. case checkFieldElement s bn254Fr of Inl e \<Rightarrow> Inl (Signal_element i e) | Inr n \<Rightarrow> Inr n)
         0 (PublicSignal req) of
       Inl e \<Rightarrow> Inl e
     | Inr sig \<Rightarrow>
     case parseCommitments (Commitments req) of
       Inl e \<Rightarrow> Inl e
     | Inr cs \<Rightarrow>
     case parseParticipantIds (KIndex req) of
       Inl e \<Rightarrow> Inl e
     | Inr ks \<Rightarrow>
     case checkParticipantCount (length cs) (length ks) of
       Some e \<Rightarrow> Inl e
     | None \<Rightarrow> Inr \<lparr>proof8 = p, pubSig = sig, commitments = cs, kIndex = ks\<rparr>)"

definition requestDedupKey ::
  "('r \<Rightarrow> byte list option) \<Rightarrow> (byte list \<Rightarrow> byte list) \<Rightarrow> string \<Rightarrow> 'r \<Rightarrow> string option" where
  "requestDedupKey marshal sha256 kind req = do {
     data \<leftarrow> marshal req;
     Some (kind @ '':'' @ EncodeToString (sha256 data)) }"

text \<open>
  What a transfer handler does before it claims its key: the status of a refused request, or the key and
  no resubmission.
\<close>

definition RelayTransfer ::
  "(RelayTransferRequest \<Rightarrow> byte list option) \<Rightarrow> (byte list \<Rightarrow> byte list) \<Rightarrow> RelayTransferRequest \<Rightarrow> nat + string list \<times> nat" where
  "RelayTransfer marshal sha256 req = (case check_transfer 81 req of
       Inl e \<Rightarrow> Inl 400
     | Inr call \<Rightarrow> (case requestDedupKey marshal sha256 ''transfer'' req of
         None \<Rightarrow> Inl 500 | Some key \<Rightarrow> Inr ([key], 0)))"

definition RelayTransferFee ::
  "(RelayTransferRequest \<Rightarrow> byte list option) \<Rightarrow> (byte list \<Rightarrow> byte list) \<Rightarrow> RelayTransferRequest \<Rightarrow> nat + string list \<times> nat" where
  "RelayTransferFee marshal sha256 req = (case check_transfer 55 req of
       Inl e \<Rightarrow> Inl 400
     | Inr call \<Rightarrow> (case requestDedupKey marshal sha256 ''transfer_fee'' req of
         None \<Rightarrow> Inl 500 | Some key \<Rightarrow> Inr ([key], 0)))"

subsection \<open>Lemmas\<close>

definition decimal :: "int \<Rightarrow> string \<Rightarrow> int \<Rightarrow> bool" where
  "decimal m s n \<longleftrightarrow> bigInt_SetString s = Some n \<and> 0 \<le> n \<and> n < m"

lemma checkFieldElement_Inr: "checkFieldElement s m = Inr n \<longleftrightarrow> decimal m s n"
  by (auto simp: checkFieldElement_def decimal_def split: option.splits if_splits)

lemma checkFieldElement_case:
  "(case checkFieldElement s m of Inl e \<Rightarrow> Inl (g e) | Inr n \<Rightarrow> Inr n) = Inr n \<longleftrightarrow> decimal m s n"
  by (auto simp flip: checkFieldElement_Inr split: sum.splits)

lemma parseProof8_Inr: "parseProof8 raw = Inr p \<longleftrightarrow> list_all2 (decimal bn254Fq) raw p"
  unfolding parseProof8_def by (rule checkAll_Inr) (rule checkFieldElement_case)

lemma parseParticipantIds_Inr: "parseParticipantIds ids = Inr ks \<longleftrightarrow> ks = ids \<and> list_all (\<lambda>k. 0 \<le> k) ids"
proof -
  have "parseParticipantIds ids = Inr ks \<longleftrightarrow> list_all2 (\<lambda>i k. 0 \<le> i \<and> k = i) ids ks"
    unfolding parseParticipantIds_def by (rule checkAll_Inr) auto
  then show ?thesis
    by (auto simp: list_all2_conv_all_nth list_all_length intro: nth_equalityI)
qed

definition decimal_pair :: "string list \<Rightarrow> int \<times> int \<Rightarrow> bool" where
  "decimal_pair raw c \<longleftrightarrow> list_all2 (decimal bn254Fr) raw [fst c, snd c]"

lemma parseCommitments_Inr: "parseCommitments raw = Inr cs \<longleftrightarrow> list_all2 decimal_pair raw cs"
  unfolding parseCommitments_def
proof (rule checkAll_Inr)
  fix i :: nat and pair :: "string list" and c
  show "(case pair of [x, y] \<Rightarrow> (case checkFieldElement x bn254Fr of
           Inl e \<Rightarrow> Inl (Commitment_x i e)
         | Inr c1 \<Rightarrow> (case checkFieldElement y bn254Fr of
             Inl e \<Rightarrow> Inl (Commitment_y i e)
           | Inr c2 \<Rightarrow> Inr (c1, c2)))
     | _ \<Rightarrow> Inl (Pair_length i (length pair))) = Inr c \<longleftrightarrow> decimal_pair pair c"
    by (cases c) (auto simp: decimal_pair_def list_all2_Cons2 simp flip: checkFieldElement_Inr split: list.splits sum.splits)
qed

lemma checkParticipantCount_None: "checkParticipantCount m n = None \<longleftrightarrow> m = 6 \<and> n = 6"
  by (auto simp: checkParticipantCount_def maxParticipants_def)

lemma SplitN2_sep: "c \<notin> set a \<Longrightarrow> SplitN2 c (a @ c # b) = [a, b]"
proof -
  assume "c \<notin> set a"
  then have "takeWhile (\<lambda>x. x \<noteq> c) (a @ c # b) = a" "dropWhile (\<lambda>x. x \<noteq> c) (a @ c # b) = c # b"
    by (induction a) auto
  then show ?thesis by (simp add: SplitN2_def)
qed

lemma SplitN2_pair: "SplitN2 c s = [a, b] \<longleftrightarrow> s = a @ c # b \<and> c \<notin> set a"
proof
  assume s: "SplitN2 c s = [a, b]"
  then have d: "dropWhile (\<lambda>x. x \<noteq> c) s \<noteq> []" "a = takeWhile (\<lambda>x. x \<noteq> c) s" "b = tl (dropWhile (\<lambda>x. x \<noteq> c) s)"
    by (auto simp: SplitN2_def Let_def split: if_splits)
  moreover have "hd (dropWhile (\<lambda>x. x \<noteq> c) s) = c" using hd_dropWhile [OF d(1)] by simp
  ultimately show "s = a @ c # b \<and> c \<notin> set a"
    by (metis (mono_tags, lifting) list.collapse set_takeWhileD takeWhile_dropWhile_id)
qed (auto simp: SplitN2_sep)

text \<open>The tokens that an administrator issued: one trimmed entry \<^verbatim>\<open>bank:token\<close> each.\<close>

definition issues :: "string list \<Rightarrow> string \<Rightarrow> string \<Rightarrow> bool" where
  "issues es token bank \<longleftrightarrow> bank @ CHR '':'' # token \<in> TrimSpace ` set es \<and> CHR '':'' \<notin> set bank \<and> bank \<noteq> [] \<and> token \<noteq> []"

lemma issues_SplitN2:
  "issues es token bank \<longleftrightarrow> (\<exists>e\<in>set es. SplitN2 (CHR '':'') (TrimSpace e) = [bank, token]) \<and> bank \<noteq> [] \<and> token \<noteq> []"
  by (auto simp: issues_def SplitN2_pair image_iff) metis

lemma api_entry_Inr:
  "api_entry e out = Inr out' \<longleftrightarrow>
     (if TrimSpace e = [] then out' = out
      else \<exists>bank token. SplitN2 (CHR '':'') (TrimSpace e) = [bank, token] \<and> bank \<noteq> [] \<and> token \<noteq> [] \<and>
        token \<notin> fst ` set out \<and> out' = out @ [(token, bank)])"
  by (auto simp: api_entry_def Let_def map_of_eq_None_iff split: list.splits option.splits)
    (metis map_of_eq_None_iff option.distinct(1))+

lemma api_entries_Inr:
  assumes "api_entries es out = Inr keys" "distinct (map fst out)"
  shows "distinct (map fst keys)" "set keys = set out \<union> {(t, b). issues es t b}"
  using assms
proof (induction es arbitrary: out)
  case Nil { case 1 then show ?case by simp next case 2 then show ?case by (simp add: issues_def) }
next
  case (Cons e es)
  { case 1 with Cons.IH(1) show ?case by (fastforce simp: api_entry_Inr split: sum.splits if_splits) }
  { case 2
    then obtain out' where o: "api_entry e out = Inr out'" "api_entries es out' = Inr keys"
      by (auto split: sum.splits)
    with 2(2) have "distinct (map fst out')" by (auto simp: api_entry_Inr split: if_splits)
    with Cons.IH(2) o(2) have "set keys = set out' \<union> {(t, b). issues es t b}" by blast
    moreover have "set out' \<union> {(t, b). issues es t b} = set out \<union> {(t, b). issues (e # es) t b}"
      using o(1) by (auto simp: api_entry_Inr issues_SplitN2 SplitN2_def split: if_splits)
    ultimately show ?case by simp }
qed

lemma find_bank_distinct:
  assumes "distinct (map fst keys)"
  shows "find_bank keys token = Some bank \<longleftrightarrow> (token, bank) \<in> set keys"
  using assms
proof (induction keys rule: rev_induct)
  case Nil
  then show ?case by (simp add: find_bank_def)
next
  case (snoc k keys)
  then show ?case by (cases k) (force simp: find_bank_def image_iff)
qed

definition issued :: "(string \<Rightarrow> string) \<Rightarrow> string \<Rightarrow> string \<Rightarrow> bool" where
  "issued env token bank \<longleftrightarrow> (
     let es = Split (CHR '','') (env ''RELAYER_API_KEYS'') in
     if \<exists>t b. issues es t b then issues es token bank
     else token = env ''RELAYER_API_KEY'' \<and> token \<noteq> [] \<and> bank = ''default'')"

lemma Load_Inr:
  assumes "Load env = Inr cfg"
  obtains parsed where "parseAPIKeys (env ''RELAYER_API_KEYS'') = Inr parsed" "RelayerPrivateKeyHex cfg \<noteq> []" "APIKeys cfg \<noteq> []"
    "APIKeys cfg = (if parsed = [] \<and> env ''RELAYER_API_KEY'' \<noteq> [] then [(env ''RELAYER_API_KEY'', ''default'')] else parsed)"
proof -
  have g: "getenv env k [] = env k" for k by (simp add: getenv_def)
  from assms obtain parsed where p: "parseAPIKeys (env ''RELAYER_API_KEYS'') = Inr parsed"
    by (auto simp: Load_def Let_def g split: option.splits sum.splits if_splits)
  with assms show ?thesis
    by (intro that [OF p]) (auto simp: Load_def Let_def g split: option.splits if_splits)
qed

lemma parseAPIKeys_Inr:
  assumes "parseAPIKeys raw = Inr keys"
  shows "distinct (map fst keys)" "set keys = {(t, b). issues (Split (CHR '','') raw) t b}"
proof -
  have "issues [[]] t b = False" for t b by (simp add: issues_def TrimSpace_def)
  with assms api_entries_Inr [of "Split (CHR '','') raw" "[]" keys]
  show "distinct (map fst keys)" "set keys = {(t, b). issues (Split (CHR '','') raw) t b}"
    by (auto simp: parseAPIKeys_def split: if_splits)
qed

lemma APIKeys_issued:
  assumes "Load env = Inr cfg"
  shows "distinct (map fst (APIKeys cfg))" "(t, b) \<in> set (APIKeys cfg) \<longleftrightarrow> issued env t b"
proof -
  from assms obtain parsed where p: "parseAPIKeys (env ''RELAYER_API_KEYS'') = Inr parsed" "APIKeys cfg \<noteq> []"
    "APIKeys cfg = (if parsed = [] \<and> env ''RELAYER_API_KEY'' \<noteq> [] then [(env ''RELAYER_API_KEY'', ''default'')] else parsed)"
    by (rule Load_Inr)
  note k = parseAPIKeys_Inr [OF p(1)]
  show "distinct (map fst (APIKeys cfg))" using k(1) p(3) by simp
  have e: "(\<exists>t b. issues (Split (CHR '','') (env ''RELAYER_API_KEYS'')) t b) \<longleftrightarrow> parsed \<noteq> []"
    using k(2) by (metis (no_types, lifting) case_prodI empty_iff list.set(1) list.set_intros(1) mem_Collect_eq neq_Nil_conv split_beta)
  show "(t, b) \<in> set (APIKeys cfg) \<longleftrightarrow> issued env t b"
    unfolding issued_def Let_def e using p(2,3) k(2) by (cases "parsed = []") (auto split: if_splits)
qed

lemma bearerAuth_Inr:
  "bearerAuth keys header = Inr bank \<longleftrightarrow>
     (\<exists>scheme token. header = scheme @ CHR '' '' # token \<and> CHR '' '' \<notin> set scheme \<and> EqualFold scheme ''Bearer'' \<and> find_bank keys token = Some bank)"
proof -
  have "bearerAuth keys header = Inr bank \<longleftrightarrow>
     (\<exists>scheme token. SplitN2 (CHR '' '') header = [scheme, token] \<and> EqualFold scheme ''Bearer'' \<and> find_bank keys token = Some bank)"
    by (auto simp: bearerAuth_def SplitN2_def split: list.splits option.splits if_splits)
  then show ?thesis by (auto simp: SplitN2_pair)
qed

lemma decimal_alternative: "decimal m s n \<Longrightarrow> \<exists>s'. s' \<noteq> s \<and> decimal m s' n"
proof -
  assume "decimal m s n"
  then have n: "0 \<le> n" "n < m" by (auto simp: decimal_def)
  have "parse_digits (CHR ''0'' # nat_digits (nat n)) = Some n"
    using parse_nat_digits [of "nat n"] n(1) by (simp add: parse_digits_def)
  then have "decimal m (CHR ''0'' # nat_digits (nat n)) n" using n by (simp add: decimal_def bigInt_SetString_def)
  moreover have "decimal m (nat_digits (nat n)) n"
    using SetString_String [of n] n by (simp add: decimal_def bigInt_String_def)
  moreover have "CHR ''0'' # nat_digits (nat n) \<noteq> nat_digits (nat n)" by simp
  ultimately show ?thesis by metis
qed

lemma check_transfer_Inr:
  "check_transfer k req = Inr call \<longleftrightarrow>
     list_all2 (decimal bn254Fq) (Proof req) (proof8 call) \<and>
     length (PublicSignal req) = k \<and> list_all2 (decimal bn254Fr) (PublicSignal req) (pubSig call) \<and>
     length (Commitments req) = 6 \<and> list_all2 decimal_pair (Commitments req) (commitments call) \<and>
     length (KIndex req) = 6 \<and> list_all (\<lambda>k. 0 \<le> k) (KIndex req) \<and> kIndex call = KIndex req"
proof -
  have "checkAll (\<lambda>i s. case checkFieldElement s bn254Fr of Inl e \<Rightarrow> Inl (Signal_element i e) | Inr n \<Rightarrow> Inr n) 0 raw = Inr sig
      \<longleftrightarrow> list_all2 (decimal bn254Fr) raw sig" for raw sig
    by (rule checkAll_Inr) (rule checkFieldElement_case)
  note i = this parseProof8_Inr parseCommitments_Inr parseParticipantIds_Inr checkParticipantCount_None
  have "check_transfer k req = Inr call \<longleftrightarrow>
     parseProof8 (Proof req) = Inr (proof8 call) \<and> length (PublicSignal req) = k \<and>
     checkAll (\<lambda>i s. case checkFieldElement s bn254Fr of Inl e \<Rightarrow> Inl (Signal_element i e) | Inr n \<Rightarrow> Inr n) 0 (PublicSignal req) = Inr (pubSig call) \<and>
     parseCommitments (Commitments req) = Inr (commitments call) \<and>
     parseParticipantIds (KIndex req) = Inr (kIndex call) \<and>
     checkParticipantCount (length (commitments call)) (length (kIndex call)) = None"
    unfolding check_transfer_def by (cases call) (auto split: sum.splits option.splits)
  then show ?thesis unfolding i by (auto dest: list_all2_lengthD)
qed

lemma decimal_String: "0 \<le> n \<Longrightarrow> n < m \<Longrightarrow> decimal m (bigInt_String n) n"
  by (simp add: decimal_def SetString_String)

text \<open>The request of a client that prints the arguments of a call.\<close>

definition print_call :: "transfer_call \<Rightarrow> RelayTransferRequest" where
  "print_call call = \<lparr>Proof = map bigInt_String (proof8 call), PublicSignal = map bigInt_String (pubSig call),
     Commitments = map (\<lambda>(x, y). [bigInt_String x, bigInt_String y]) (commitments call), KIndex = kIndex call\<rparr>"

definition below :: "int \<Rightarrow> int list \<Rightarrow> bool" where
  "below m ns \<longleftrightarrow> list_all (\<lambda>n. 0 \<le> n \<and> n < m) ns"

definition call_bounds :: "nat \<Rightarrow> transfer_call \<Rightarrow> bool" where
  "call_bounds k call \<longleftrightarrow> length (proof8 call) = 8 \<and> below bn254Fq (proof8 call) \<and>
     length (pubSig call) = k \<and> below bn254Fr (pubSig call) \<and>
     length (commitments call) = 6 \<and> list_all (\<lambda>(x, y). below bn254Fr [x, y]) (commitments call) \<and>
     length (kIndex call) = 6 \<and> list_all (\<lambda>k. 0 \<le> k) (kIndex call)"

lemma decimals_below: "list_all2 (decimal m) ss ns \<Longrightarrow> below m ns"
  unfolding below_def by (induction rule: list_all2_induct) (auto simp: decimal_def)

lemma decimal_pairs_below: "list_all2 decimal_pair raw cs \<Longrightarrow> list_all (\<lambda>(x, y). below bn254Fr [x, y]) cs"
  by (induction rule: list_all2_induct) (auto simp: decimal_pair_def dest!: decimals_below split: prod.splits)

lemma below_decimals: "below m ns \<Longrightarrow> list_all2 (decimal m) (map bigInt_String ns) ns"
  by (induction ns) (auto simp: below_def decimal_String)

lemma below_decimal_pairs:
  "list_all (\<lambda>(x, y). below bn254Fr [x, y]) cs \<Longrightarrow> list_all2 decimal_pair (map (\<lambda>(x, y). [bigInt_String x, bigInt_String y]) cs) cs"
  by (induction cs) (auto simp: decimal_pair_def below_def decimal_String)

lemma check_transfer_print: "call_bounds k call \<Longrightarrow> check_transfer k (print_call call) = Inr call"
  by (auto simp: check_transfer_Inr print_call_def call_bounds_def intro: below_decimals below_decimal_pairs)

lemma check_transfer_bounds:
  assumes "check_transfer k req = Inr call" "length (Proof req) = 8"
  shows "call_bounds k call"
proof -
  from assms(1) have "list_all2 (decimal bn254Fq) (Proof req) (proof8 call)"
    "list_all2 (decimal bn254Fr) (PublicSignal req) (pubSig call)"
    "list_all2 decimal_pair (Commitments req) (commitments call)"
    by (simp_all add: check_transfer_Inr)
  note l = this[THEN list_all2_lengthD] and d = decimals_below [OF this(1)] decimals_below [OF this(2)] decimal_pairs_below [OF this(3)]
  from l d assms show ?thesis by (simp add: call_bounds_def check_transfer_Inr)
qed

lemma requestDedupKey_eq:
  assumes "requestDedupKey marshal sha256 k1 r1 = Some key" "requestDedupKey marshal sha256 k2 r2 = Some key"
    "CHR '':'' \<notin> set k1" "CHR '':'' \<notin> set k2"
  shows "k1 = k2 \<and> (\<exists>d1 d2. marshal r1 = Some d1 \<and> marshal r2 = Some d2 \<and> sha256 d1 = sha256 d2)"
proof -
  from assms(1,2) obtain d1 d2 where d: "marshal r1 = Some d1" "marshal r2 = Some d2"
    "key = k1 @ CHR '':'' # EncodeToString (sha256 d1)" "key = k2 @ CHR '':'' # EncodeToString (sha256 d2)"
    by (auto simp: requestDedupKey_def bind_eq_Some_conv)
  with assms(3,4) have "[k1, EncodeToString (sha256 d1)] = [k2, EncodeToString (sha256 d2)]"
    by (metis SplitN2_sep)
  then have "k1 = k2" "DecodeString (EncodeToString (sha256 d1)) = DecodeString (EncodeToString (sha256 d2))" by simp_all
  then have "k1 = k2" "sha256 d1 = sha256 d2" unfolding DecodeString_Encode by simp_all
  with d show ?thesis by blast
qed

subsection \<open>Properties\<close>

text \<open>
  C36. What the relayer hands to the contract is bounded, and every bounded call can be requested. With the eight
  proof strings of the request type, the calls that the validation lets through are exactly those with eight proof
  coordinates in \<^verbatim>\<open>[0, Fq)\<close>, exactly the public signals of the circuit, each in \<^verbatim>\<open>[0, Fr)\<close>, exactly six
  commitments over \<^verbatim>\<open>[0, Fr)\<close> and exactly six participant ids, none negative; and for every such call the request with
  its decimals passes the validation and gives the call back.
\<close>

theorem transfer_request_checked:
  defines "bounded \<equiv> \<lambda>k call. length (proof8 call) = 8 \<and> below bn254Fq (proof8 call) \<and> length (pubSig call) = k \<and> below bn254Fr (pubSig call) \<and>
     length (commitments call) = 6 \<and> list_all (\<lambda>(x, y). below bn254Fr [x, y]) (commitments call) \<and>
     length (kIndex call) = 6 \<and> list_all (\<lambda>k. 0 \<le> k) (kIndex call)"
  shows "((\<exists>req. length (Proof req) = 8 \<and> check_transfer k req = Inr call) \<longleftrightarrow> bounded k call) \<and>
    (bounded k call \<longrightarrow> length (Proof (print_call call)) = 8 \<and> check_transfer k (print_call call) = Inr call)"
proof -
  have b: "bounded = call_bounds" by (intro ext) (simp add: bounded_def call_bounds_def)
  have "length (Proof (print_call call)) = 8 \<and> check_transfer k (print_call call) = Inr call" if "call_bounds k call"
    using check_transfer_print [OF that] that by (simp add: print_call_def call_bounds_def)
  then show ?thesis unfolding b by (blast intro: check_transfer_bounds)
qed

theorem transfer_request_checked_witness:
  "\<exists>call. check_transfer 81 (print_call call) = Inr call \<and> kIndex call = [1, 2, 3, 4, 5, 6] \<and> proof8 call = replicate 8 (bn254Fq - 1)"
proof -
  let ?call = "\<lparr>proof8 = replicate 8 (bn254Fq - 1), pubSig = replicate 81 7, commitments = replicate 6 (0, 1), kIndex = [1, 2, 3, 4, 5, 6]\<rparr>"
  have "check_transfer 81 (print_call ?call) = Inr ?call"
    using transfer_request_checked [of 81 ?call] by (simp add: below_def list_all_iff bn254Fq_def bn254Fr_def)
  then show ?thesis by (intro exI [of _ ?call]) simp
qed

text \<open>
  A relay started from an environment attributes a request to a bank exactly when the header carries, after
  a scheme equal to \<^verbatim>\<open>Bearer\<close> up to case, a token issued to that bank: by an entry \<^verbatim>\<open>bank:token\<close> of
  \<^verbatim>\<open>RELAYER_API_KEYS\<close>, or, when that has no entry, by the single legacy key. No token stands for two banks.
\<close>

theorem api_key_attribution:
  assumes "Load env = Inr cfg"
  shows "(bearerAuth (APIKeys cfg) header = Inr bank \<longleftrightarrow>
       (\<exists>scheme token. header = scheme @ CHR '' '' # token \<and> CHR '' '' \<notin> set scheme \<and> EqualFold scheme ''Bearer'' \<and> issued env token bank)) \<and>
     (issued env token bank \<and> issued env token bank' \<longrightarrow> bank = bank')"
proof -
  have "find_bank (APIKeys cfg) t = Some b \<longleftrightarrow> issued env t b" for t b
    using APIKeys_issued [OF assms] find_bank_distinct by blast
  note i = this
  have "bank = bank'" if "issued env token bank" "issued env token bank'"
    using that unfolding i [symmetric] by simp
  then show ?thesis by (simp add: bearerAuth_Inr i)
qed

definition two_keys :: "string \<Rightarrow> string" where
  "two_keys k = (if k = ''RELAYER_PRIVATE_KEY'' then ''0x1'' else if k = ''RELAYER_API_KEYS'' then ''a:x, b:y:z'' else [])"

theorem api_key_attribution_witness:
  "\<exists>cfg. Load two_keys = Inr cfg \<and> bearerAuth (APIKeys cfg) ''bearer y:z'' = Inr ''b''"
proof -
  obtain cfg where c: "Load two_keys = Inr cfg"
    by (simp add: Load_def two_keys_def getenv_def bigInt_SetString_def parse_digits_def parseAPIKeys_def
        api_entry_def TrimSpace_def is_space_def SplitN2_def TrimPrefix_def)
  have "issued two_keys ''y:z'' ''b''"
    by (auto simp: issued_def two_keys_def issues_def TrimSpace_def is_space_def intro: exI [of _ "''x''"] exI [of _ "''a''"])
  moreover have "''bearer y:z'' = ''bearer'' @ CHR '' '' # ''y:z''" "EqualFold ''bearer'' ''Bearer''"
    by (simp_all add: EqualFold_def to_lower_def char_of_def bit_0)
  moreover have "CHR '' '' \<notin> set ''bearer''" by simp
  ultimately have "bearerAuth (APIKeys cfg) ''bearer y:z'' = Inr ''b''"
    using api_key_attribution [OF c, of "''bearer y:z''" "''b''" "[]" "[]"] by blast
  with c show ?thesis by blast
qed

text \<open>
  The key that should recognise a repeated request is that of its text, not of its content: for every accepted
  transfer there is another accepted request that leads to the very same call of the contract, and it gets the
  same key only if the hash of the two encodings agrees. Writing one public signal with a leading zero is
  enough.
\<close>

theorem dedup_key_not_canonical:
  assumes "RelayTransfer marshal sha256 req = Inr ([key], 0)" and "\<And>r. marshal r \<noteq> None"
  shows "\<exists>req' key'. req' \<noteq> req \<and> check_transfer 81 req' = check_transfer 81 req \<and>
    RelayTransfer marshal sha256 req' = Inr ([key'], 0) \<and>
    (key' = key \<longrightarrow> map_option sha256 (marshal req') = map_option sha256 (marshal req))"
proof -
  from assms(1) obtain call where c: "check_transfer 81 req = Inr call" and k: "requestDedupKey marshal sha256 ''transfer'' req = Some key"
    by (auto simp: RelayTransfer_def split: sum.splits option.splits)
  then obtain s ss where s: "PublicSignal req = s # ss" by (cases "PublicSignal req") (auto simp: check_transfer_Inr)
  with c obtain n ns where n: "pubSig call = n # ns" "decimal bn254Fr s n" by (auto simp: check_transfer_Inr list_all2_Cons1)
  from decimal_alternative [OF n(2)] obtain s' where s': "s' \<noteq> s" "decimal bn254Fr s' n" by blast
  define req' where "req' = req\<lparr>PublicSignal := s' # ss\<rparr>"
  have c': "check_transfer 81 req' = Inr call" using c s s' n by (simp add: check_transfer_Inr req'_def)
  from assms(2) [of req'] obtain key' where k': "requestDedupKey marshal sha256 ''transfer'' req' = Some key'"
    by (auto simp: requestDedupKey_def)
  have "req' \<noteq> req" using s s'(1) by (cases req) (simp add: req'_def)
  moreover have "RelayTransfer marshal sha256 req' = Inr ([key'], 0)" by (simp add: RelayTransfer_def c' k')
  moreover have "map_option sha256 (marshal req') = map_option sha256 (marshal req)" if "key' = key"
    using requestDedupKey_eq [of marshal sha256 "''transfer''" req' key "''transfer''" req] k k' that by auto
  ultimately show ?thesis using c c' by auto
qed

definition zero_call :: transfer_call where
  "zero_call = \<lparr>proof8 = replicate 8 0, pubSig = replicate 81 0, commitments = replicate 6 (0, 1), kIndex = [1..6]\<rparr>"

theorem dedup_key_not_canonical_witness:
  "\<exists>req'. req' \<noteq> print_call zero_call \<and> check_transfer 81 req' = Inr zero_call"
proof -
  have c: "check_transfer 81 (print_call zero_call) = Inr zero_call"
    by (rule check_transfer_print) (simp add: call_bounds_def below_def zero_call_def bn254Fq_def bn254Fr_def list_all_iff)
  let ?m = "\<lambda>r. Some (ascii (concat (PublicSignal r)))"
  obtain key where "RelayTransfer ?m id (print_call zero_call) = Inr ([key], 0)"
    using c by (simp add: RelayTransfer_def requestDedupKey_def)
  from dedup_key_not_canonical [OF this] c show ?thesis by auto
qed

end
