(* ===== verification/Relay_Dvp.thy ===== *)
theory Relay_Dvp
  imports Go_Text Relay_Machine
begin

section \<open>The relayer of delivery versus payment\<close>

text \<open>
  \<^verbatim>\<open>enygma_dvp/relayer/server/handler.go\<close>: receipts are parsed, checked against the roots and nullifiers of
  the vault, and their nullifiers claimed, before the transaction is submitted. The contract calls are
  arguments (\<^verbatim>\<open>None\<close> is an error of the call). The concurrent part is the machine of \<^theory_text>\<open>Relay_Machine\<close>
  with the nullifier keys as the keys of a handler.
\<close>

subsection \<open>Receipts\<close>

record ReceiptPayload =
  Proof :: "string list"
  PublicSignal :: "string list"
  NumberOfInputs :: int
  NumberOfOutputs :: int

record parsedReceipt =
  proof8 :: "int list"
  signal :: "int list"
  nIn :: int
  nOut :: int

datatype receipt_error = Invalid_proof nat | Invalid_signal nat | No_inputs | No_outputs | Too_many | Signal_short nat int
  | Root_call nat | Root_unknown nat | Nullifier_call nat | Nullifier_spent nat

definition parseReceipt :: "ReceiptPayload \<Rightarrow> receipt_error + parsedReceipt" where
  "parseReceipt r = (case checkAll (\<lambda>i s. case bigInt_SetString s of None \<Rightarrow> Inl (Invalid_proof i) | Some n \<Rightarrow> Inr n) 0 (Proof r) of
       Inl e \<Rightarrow> Inl e
     | Inr p \<Rightarrow>
     case checkAll (\<lambda>i s. case bigInt_SetString s of None \<Rightarrow> Inl (Invalid_signal i) | Some n \<Rightarrow> Inr n) 0 (PublicSignal r) of
       Inl e \<Rightarrow> Inl e
     | Inr sig \<Rightarrow>
     if NumberOfInputs r \<le> 0 then Inl No_inputs
     else if NumberOfOutputs r \<le> 0 then Inl No_outputs
     else if NumberOfInputs r > 10 \<or> NumberOfOutputs r > 10 then Inl Too_many
     else let minExpected = 1 + 3 * NumberOfInputs r + NumberOfOutputs r in
     if int (length sig) < minExpected then Inl (Signal_short (length sig) minExpected)
     else Inr \<lparr>proof8 = p, signal = sig, nIn = NumberOfInputs r, nOut = NumberOfOutputs r\<rparr>)"

record proofReceipt =
  A :: "int \<times> int"
  B :: "(int \<times> int) \<times> (int \<times> int)"
  C :: "int \<times> int"
  Statement :: "int list"
  NumInputs :: int
  NumOutputs :: int

definition buildProofReceipt :: "parsedReceipt \<Rightarrow> proofReceipt" where
  "buildProofReceipt p = (let f = (!) (proof8 p) in
     \<lparr>A = (f 0, f 1), B = ((f 2, f 3), (f 4, f 5)), C = (f 6, f 7),
      Statement = signal p, NumInputs = nIn p, NumOutputs = nOut p\<rparr>)"

subsection \<open>Checks against the vault\<close>

text \<open>The views of a vault that the handler calls: \<^verbatim>\<open>rootHistory\<close> and \<^verbatim>\<open>nullifiers\<close>.\<close>

record vault =
  rootHistory :: "int \<Rightarrow> int \<Rightarrow> bool option"
  nullifiers :: "int \<Rightarrow> int \<Rightarrow> bool option"

definition check_input :: "vault \<Rightarrow> int list \<Rightarrow> nat \<Rightarrow> nat \<Rightarrow> receipt_error option" where
  "check_input v sig n i = (
     let treeNum = sig ! (1 + i); root = sig ! (1 + n + i); nullifier = sig ! (1 + 2 * n + i) in
     case rootHistory v treeNum root of
       None \<Rightarrow> Some (Root_call i)
     | Some known \<Rightarrow> if \<not> known then Some (Root_unknown i)
     else case nullifiers v treeNum nullifier of
       None \<Rightarrow> Some (Nullifier_call i)
     | Some spent \<Rightarrow> if spent then Some (Nullifier_spent i) else None)"

fun first_error :: "(nat \<Rightarrow> 'e option) \<Rightarrow> nat list \<Rightarrow> 'e option" where
  "first_error f [] = None"
| "first_error f (i # is) = (case f i of Some e \<Rightarrow> Some e | None \<Rightarrow> first_error f is)"

definition validateReceipt :: "vault \<Rightarrow> parsedReceipt \<Rightarrow> receipt_error option" where
  "validateReceipt v p = (
     if int (length (signal p)) < 1 + 3 * nIn p then Some (Signal_short (length (signal p)) (1 + 3 * nIn p))
     else first_error (check_input v (signal p) (nat (nIn p))) [0..<nat (nIn p)])"

subsection \<open>Nullifiers in flight\<close>

definition nullifier_key :: "int \<Rightarrow> int \<Rightarrow> string" where
  "nullifier_key treeNum nullifier = bigInt_String treeNum @ '':'' @ bigInt_String nullifier"

text \<open>The keys of the receipts, in the order of the two loops; dummy inputs have no key.\<close>

definition receipt_keys :: "parsedReceipt \<Rightarrow> string list" where
  "receipt_keys r = concat (map (\<lambda>i. let nullifier = signal r ! (1 + 2 * nat (nIn r) + i) in
     if nullifier = 0 then [] else [nullifier_key (signal r ! (1 + i)) nullifier]) [0..<nat (nIn r)])"

definition releaseNullifiers :: "string list \<Rightarrow> string set \<Rightarrow> string set" where
  "releaseNullifiers keys inflight = fold (\<lambda>k s. s - {k}) keys inflight"

text \<open>The claiming loop run without interruption: the keys in flight and the claimed keys, or the key in conflict.\<close>

fun claim_loop :: "string list \<Rightarrow> string list \<Rightarrow> string set \<Rightarrow> (string + string list) \<times> string set" where
  "claim_loop [] claimed inflight = (Inr claimed, inflight)"
| "claim_loop (k # ks) claimed inflight = (
     if k \<in> inflight then (Inl k, releaseNullifiers claimed inflight)
     else claim_loop ks (claimed @ [k]) (insert k inflight))"

definition claimNullifiers :: "parsedReceipt list \<Rightarrow> string set \<Rightarrow> (string + string list) \<times> string set" where
  "claimNullifiers receipts inflight = claim_loop (concat (map receipt_keys receipts)) [] inflight"

subsection \<open>Endpoints\<close>

text \<open>
  What an endpoint does before it claims the nullifiers: the status of a refusal, or the keys to claim and
  the call to submit.
\<close>

record RelayPaymentRequest =
  VaultId :: string
  Receipt :: ReceiptPayload
  CipherText :: string
  EncTxData :: string

record RelayPairRequest =
  Receipt1 :: ReceiptPayload
  Receipt2 :: ReceiptPayload
  VaultId1 :: string
  VaultId2 :: string

datatype dvp_call =
    Payment proofReceipt int "byte list" "byte list"
  | Swap proofReceipt proofReceipt int int
  | Exchange proofReceipt proofReceipt int int

definition decodeHex :: "string \<Rightarrow> byte list option" where
  "decodeHex s = DecodeString (TrimPrefix s ''0x'')"

text \<open>\<open>vaultById\<close> is \<^verbatim>\<open>None\<close> when the call fails, and address \<^verbatim>\<open>0\<close> means no vault.\<close>

definition resolveVault :: "(int \<Rightarrow> nat option) \<Rightarrow> int \<Rightarrow> nat option" where
  "resolveVault vaultById vaultId = (case vaultById vaultId of None \<Rightarrow> None | Some addr \<Rightarrow> if addr = 0 then None else Some addr)"

definition RelayPayment :: "(int \<Rightarrow> nat option) \<Rightarrow> (nat \<Rightarrow> vault) \<Rightarrow> RelayPaymentRequest \<Rightarrow> nat + string list \<times> dvp_call" where
  "RelayPayment vaultById vaults req = (case parseReceipt (Receipt req) of
       Inl e \<Rightarrow> Inl 400
     | Inr parsed \<Rightarrow> (case bigInt_SetString (VaultId req) of
       None \<Rightarrow> Inl 400
     | Some vaultId \<Rightarrow> (case decodeHex (CipherText req) of
       None \<Rightarrow> Inl 400
     | Some ctBytes \<Rightarrow> (case decodeHex (EncTxData req) of
       None \<Rightarrow> Inl 400
     | Some encBytes \<Rightarrow> (case resolveVault vaultById vaultId of
       None \<Rightarrow> Inl 500
     | Some addr \<Rightarrow> (case validateReceipt (vaults addr) parsed of
       Some e \<Rightarrow> Inl 400
     | None \<Rightarrow> Inr (receipt_keys parsed, Payment (buildProofReceipt parsed) vaultId ctBytes encBytes)))))))"

definition relay_pair ::
  "(proofReceipt \<Rightarrow> proofReceipt \<Rightarrow> int \<Rightarrow> int \<Rightarrow> dvp_call) \<Rightarrow> (int \<Rightarrow> nat option) \<Rightarrow> (nat \<Rightarrow> vault) \<Rightarrow> RelayPairRequest \<Rightarrow>
   nat + string list \<times> dvp_call" where
  "relay_pair call vaultById vaults req = (case parseReceipt (Receipt1 req) of
       Inl e \<Rightarrow> Inl 400
     | Inr parsed1 \<Rightarrow> (case parseReceipt (Receipt2 req) of
       Inl e \<Rightarrow> Inl 400
     | Inr parsed2 \<Rightarrow> (case bigInt_SetString (VaultId1 req) of
       None \<Rightarrow> Inl 400
     | Some vaultId1 \<Rightarrow> (case bigInt_SetString (VaultId2 req) of
       None \<Rightarrow> Inl 400
     | Some vaultId2 \<Rightarrow> (case resolveVault vaultById vaultId1 of
       None \<Rightarrow> Inl 500
     | Some addr1 \<Rightarrow> (case resolveVault vaultById vaultId2 of
       None \<Rightarrow> Inl 500
     | Some addr2 \<Rightarrow> (case validateReceipt (vaults addr1) parsed1 of
       Some e \<Rightarrow> Inl 400
     | None \<Rightarrow> (case validateReceipt (vaults addr2) parsed2 of
       Some e \<Rightarrow> Inl 400
     | None \<Rightarrow> Inr (receipt_keys parsed1 @ receipt_keys parsed2,
         call (buildProofReceipt parsed1) (buildProofReceipt parsed2) vaultId1 vaultId2)))))))))"

definition RelaySwap :: "(int \<Rightarrow> nat option) \<Rightarrow> (nat \<Rightarrow> vault) \<Rightarrow> RelayPairRequest \<Rightarrow> nat + string list \<times> dvp_call" where
  "RelaySwap = relay_pair Swap"

definition RelayExchange :: "(int \<Rightarrow> nat option) \<Rightarrow> (nat \<Rightarrow> vault) \<Rightarrow> RelayPairRequest \<Rightarrow> nat + string list \<times> dvp_call" where
  "RelayExchange = relay_pair Exchange"

subsection \<open>Lemmas\<close>

lemma first_error_None: "first_error f is = None \<longleftrightarrow> list_all (\<lambda>i. f i = None) is"
  by (induction "is") (auto split: option.splits)

lemma SetString_case: "(case bigInt_SetString s of None \<Rightarrow> Inl e | Some n \<Rightarrow> Inr n) = Inr n \<longleftrightarrow> bigInt_SetString s = Some n"
  by (auto split: option.splits)

lemma parseReceipt_Inr:
  "parseReceipt r = Inr p \<longleftrightarrow>
     list_all2 (\<lambda>s n. bigInt_SetString s = Some n) (Proof r) (proof8 p) \<and>
     list_all2 (\<lambda>s n. bigInt_SetString s = Some n) (PublicSignal r) (signal p) \<and>
     nIn p = NumberOfInputs r \<and> nOut p = NumberOfOutputs r \<and>
     1 \<le> nIn p \<and> nIn p \<le> 10 \<and> 1 \<le> nOut p \<and> nOut p \<le> 10 \<and> 1 + 3 * nIn p + nOut p \<le> int (length (signal p))"
proof -
  have i: "checkAll (\<lambda>i s. case bigInt_SetString s of None \<Rightarrow> Inl (f i) | Some n \<Rightarrow> Inr n) 0 raw = Inr ns
      \<longleftrightarrow> list_all2 (\<lambda>s n. bigInt_SetString s = Some n) raw ns" for f :: "nat \<Rightarrow> receipt_error" and raw ns
    by (rule checkAll_Inr) (rule SetString_case)
  have "parseReceipt r = Inr p \<longleftrightarrow>
     checkAll (\<lambda>i s. case bigInt_SetString s of None \<Rightarrow> Inl (Invalid_proof i) | Some n \<Rightarrow> Inr n) 0 (Proof r) = Inr (proof8 p) \<and>
     checkAll (\<lambda>i s. case bigInt_SetString s of None \<Rightarrow> Inl (Invalid_signal i) | Some n \<Rightarrow> Inr n) 0 (PublicSignal r) = Inr (signal p) \<and>
     nIn p = NumberOfInputs r \<and> nOut p = NumberOfOutputs r \<and>
     1 \<le> nIn p \<and> nIn p \<le> 10 \<and> 1 \<le> nOut p \<and> nOut p \<le> 10 \<and> 1 + 3 * nIn p + nOut p \<le> int (length (signal p))"
    unfolding parseReceipt_def by (cases p) (auto simp: Let_def split: sum.splits if_splits)
  then show ?thesis unfolding i .
qed

lemma check_input_None:
  "check_input v sig n i = None \<longleftrightarrow> rootHistory v (sig ! (1 + i)) (sig ! (1 + n + i)) = Some True \<and>
     nullifiers v (sig ! (1 + i)) (sig ! (1 + 2 * n + i)) = Some False"
  by (auto simp: check_input_def Let_def split: option.splits)

lemma nat_digits_no_colon: "CHR '':'' \<notin> set (nat_digits n)"
proof (induction n rule: nat_digits.induct)
  case (1 n)
  have "CHR '':'' \<noteq> digit_char d" if "d < 10" for d
  proof
    assume "CHR '':'' = digit_char d"
    then have "(of_char CHR '':'' :: nat) = 48 + d" using digit_char_value [OF that] by simp
    with that show False by simp
  qed
  with 1 show ?case by (subst nat_digits.simps) auto
qed

lemma String_no_colon: "CHR '':'' \<notin> set (bigInt_String n)"
  using nat_digits_no_colon by (simp add: bigInt_String_def)

lemma String_inject: "bigInt_String m = bigInt_String n \<longleftrightarrow> m = n"
  by (metis SetString_String option.inject)

lemma nullifier_key_inject: "nullifier_key t n = nullifier_key t' n' \<longleftrightarrow> t = t' \<and> n = n'"
proof
  assume k: "nullifier_key t n = nullifier_key t' n'"
  have "takeWhile (\<lambda>c. c \<noteq> CHR '':'') (nullifier_key t n) = bigInt_String t" for t n
    using String_no_colon [of t] unfolding nullifier_key_def by (subst takeWhile_append2) auto
  with k have "t = t'" by (metis String_inject)
  with k show "t = t' \<and> n = n'" by (simp add: nullifier_key_def String_inject)
qed simp

text \<open>The nullifiers a receipt spends, each with its tree.\<close>

definition spends :: "parsedReceipt \<Rightarrow> int \<Rightarrow> int \<Rightarrow> bool" where
  "spends r treeNum nullifier \<longleftrightarrow> nullifier \<noteq> 0 \<and>
     (\<exists>i < nat (nIn r). signal r ! (1 + i) = treeNum \<and> signal r ! (1 + 2 * nat (nIn r) + i) = nullifier)"

lemma receipt_keys_spends: "nullifier_key t n \<in> set (receipt_keys r) \<longleftrightarrow> spends r t n"
  by (auto simp: receipt_keys_def spends_def Let_def nullifier_key_inject split: if_splits)

lemma releaseNullifiers_eq: "releaseNullifiers ks F = F - set ks"
  unfolding releaseNullifiers_def by (induction ks arbitrary: F) auto

lemma claim_loop_ok:
  "distinct ks \<Longrightarrow> set ks \<inter> F = {} \<Longrightarrow> claim_loop ks claimed F = (Inr (claimed @ ks), F \<union> set ks)"
  by (induction ks arbitrary: claimed F) (auto simp: Int_insert_right)

lemma claim_loop_conflict:
  "set claimed \<subseteq> F \<Longrightarrow> \<not> (distinct ks \<and> set ks \<inter> F = {}) \<Longrightarrow> \<exists>k \<in> set ks. claim_loop ks claimed F = (Inl k, F - set claimed)"
proof (induction ks arbitrary: claimed F)
  case (Cons k ks)
  show ?case
  proof (cases "k \<in> F")
    case True
    then show ?thesis by (simp add: releaseNullifiers_eq)
  next
    case False
    then have "insert k F - set (claimed @ [k]) = F - set claimed" "\<not> (distinct ks \<and> set ks \<inter> insert k F = {})"
      using Cons.prems by auto
    with False Cons.IH [of "claimed @ [k]" "insert k F"] Cons.prems(1) show ?thesis by fastforce
  qed
qed simp

lemma validateReceipt_None:
  assumes "validateReceipt v p = None" "i < nat (nIn p)"
  shows "rootHistory v (signal p ! (1 + i)) (signal p ! (1 + nat (nIn p) + i)) = Some True"
    and "nullifiers v (signal p ! (1 + i)) (signal p ! (1 + 2 * nat (nIn p) + i)) = Some False"
  using assms by (auto simp: validateReceipt_def first_error_None list_all_iff check_input_None split: if_splits)

text \<open>What a call of the contract spends, read from the statements of its receipts.\<close>

definition receipt_spends :: "proofReceipt \<Rightarrow> int \<Rightarrow> int \<Rightarrow> bool" where
  "receipt_spends r treeNum nullifier \<longleftrightarrow> nullifier \<noteq> 0 \<and>
     (\<exists>i < nat (NumInputs r). Statement r ! (1 + i) = treeNum \<and> Statement r ! (1 + 2 * nat (NumInputs r) + i) = nullifier)"

fun call_receipts :: "dvp_call \<Rightarrow> (proofReceipt \<times> int) list" where
  "call_receipts (Payment r v ct enc) = [(r, v)]"
| "call_receipts (Swap r1 r2 v1 v2) = [(r1, v1), (r2, v2)]"
| "call_receipts (Exchange r1 r2 v1 v2) = [(r1, v1), (r2, v2)]"

definition call_spends :: "dvp_call \<Rightarrow> int \<Rightarrow> int \<Rightarrow> bool" where
  "call_spends call treeNum nullifier \<longleftrightarrow> (\<exists>(r, v) \<in> set (call_receipts call). receipt_spends r treeNum nullifier)"

text \<open>The endpoints together: some request leads to these keys and this call.\<close>

definition relayed :: "(int \<Rightarrow> nat option) \<Rightarrow> (nat \<Rightarrow> vault) \<Rightarrow> string list \<Rightarrow> dvp_call \<Rightarrow> bool" where
  "relayed vaultById vaults keys call \<longleftrightarrow> (\<exists>req. RelayPayment vaultById vaults req = Inr (keys, call)) \<or>
     (\<exists>req. RelaySwap vaultById vaults req = Inr (keys, call)) \<or> (\<exists>req. RelayExchange vaultById vaults req = Inr (keys, call))"

definition checked_receipt :: "(int \<Rightarrow> nat option) \<Rightarrow> (nat \<Rightarrow> vault) \<Rightarrow> parsedReceipt \<Rightarrow> int \<Rightarrow> bool" where
  "checked_receipt vaultById vaults p vaultId \<longleftrightarrow> (\<exists>raw addr. parseReceipt raw = Inr p \<and>
     resolveVault vaultById vaultId = Some addr \<and> validateReceipt (vaults addr) p = None)"

lemma checked_receiptI:
  "parseReceipt raw = Inr p \<Longrightarrow> resolveVault vb v = Some addr \<Longrightarrow> validateReceipt (vs addr) p = None \<Longrightarrow> checked_receipt vb vs p v"
  by (auto simp: checked_receipt_def)

lemma relay_pair_Inr:
  assumes "relay_pair f vb vs req = Inr (keys, call)"
  shows "\<exists>p1 p2 v1 v2. checked_receipt vb vs p1 v1 \<and> checked_receipt vb vs p2 v2 \<and>
    keys = receipt_keys p1 @ receipt_keys p2 \<and> call = f (buildProofReceipt p1) (buildProofReceipt p2) v1 v2"
  using assms unfolding relay_pair_def by (clarsimp split: sum.splits option.splits) (metis checked_receiptI)

lemma RelayPayment_Inr:
  assumes "RelayPayment vb vs req = Inr (keys, call)"
  shows "\<exists>p v ct enc. checked_receipt vb vs p v \<and> keys = receipt_keys p \<and> call = Payment (buildProofReceipt p) v ct enc"
  using assms unfolding RelayPayment_def by (clarsimp split: sum.splits option.splits) (metis checked_receiptI)

lemma relayed_receipts:
  assumes "relayed vb vs keys call"
  obtains ps where "list_all (\<lambda>(p, v). checked_receipt vb vs p v) ps" "keys = concat (map (receipt_keys \<circ> fst) ps)"
    "call_receipts call = map (\<lambda>(p, v). (buildProofReceipt p, v)) ps"
proof -
  from assms consider (one) req where "RelayPayment vb vs req = Inr (keys, call)"
    | (two) req f where "relay_pair f vb vs req = Inr (keys, call)" "f = Swap \<or> f = Exchange"
    by (auto simp: relayed_def RelaySwap_def RelayExchange_def)
  then show ?thesis
  proof cases
    case one
    from RelayPayment_Inr [OF this] obtain p v ct enc where "checked_receipt vb vs p v" "keys = receipt_keys p"
      "call = Payment (buildProofReceipt p) v ct enc" by blast
    then show ?thesis by (intro that [of "[(p, v)]"]) auto
  next
    case two
    from relay_pair_Inr [OF two(1)] obtain p1 p2 v1 v2 where "checked_receipt vb vs p1 v1" "checked_receipt vb vs p2 v2"
      "keys = receipt_keys p1 @ receipt_keys p2" "call = f (buildProofReceipt p1) (buildProofReceipt p2) v1 v2"
      by blast
    with two(2) show ?thesis by (intro that [of "[(p1, v1), (p2, v2)]"]) auto
  qed
qed

lemma buildProofReceipt_spends: "receipt_spends (buildProofReceipt p) t n = spends p t n"
  by (simp add: receipt_spends_def spends_def buildProofReceipt_def Let_def)

lemma relayed_keys:
  assumes "relayed vb vs keys call"
  shows "nullifier_key t n \<in> set keys \<longleftrightarrow> call_spends call t n"
proof -
  from assms obtain ps where "keys = concat (map (receipt_keys \<circ> fst) ps)"
    "call_receipts call = map (\<lambda>(p, v). (buildProofReceipt p, v)) ps"
    by (rule relayed_receipts)
  then show ?thesis by (force simp: call_spends_def buildProofReceipt_spends receipt_keys_spends)
qed

subsection \<open>An example\<close>

text \<open>A vault that knows every root and no nullifier, and receipts with one input and one output.\<close>

definition open_vault :: "nat \<Rightarrow> vault" where
  "open_vault addr = \<lparr>rootHistory = \<lambda>_ _. Some True, nullifiers = \<lambda>_ _. Some False\<rparr>"

definition vault_one :: "int \<Rightarrow> nat option" where
  "vault_one vaultId = Some 1"

definition note_receipt :: "int \<Rightarrow> parsedReceipt" where
  "note_receipt nf = \<lparr>proof8 = replicate 8 1, signal = [9, 0, 5, nf, 4], nIn = 1, nOut = 1\<rparr>"

definition note_call :: "int \<Rightarrow> dvp_call" where
  "note_call nf = Payment (buildProofReceipt (note_receipt nf)) 3 [] []"

definition note_request :: "int \<Rightarrow> RelayPaymentRequest" where
  "note_request nf = \<lparr>VaultId = bigInt_String 3, Receipt = \<lparr>Proof = replicate 8 (bigInt_String 1),
     PublicSignal = map bigInt_String [9, 0, 5, nf, 4], NumberOfInputs = 1, NumberOfOutputs = 1\<rparr>,
     CipherText = ''0x'', EncTxData = []\<rparr>"

lemma list_all2_replicate: "P x y \<Longrightarrow> list_all2 P (replicate n x) (replicate n y)"
  by (induction n) auto

lemma note_relayed: "nf \<noteq> 0 \<Longrightarrow> relayed vault_one open_vault [nullifier_key 0 nf] (note_call nf)"
proof -
  assume nf: "nf \<noteq> 0"
  have "parseReceipt (Receipt (note_request nf)) = Inr (note_receipt nf)"
    by (simp add: parseReceipt_Inr note_request_def note_receipt_def SetString_String list_all2_replicate)
  moreover have "validateReceipt (open_vault 1) (note_receipt nf) = None"
    by (simp add: validateReceipt_def note_receipt_def check_input_def open_vault_def)
  moreover have "receipt_keys (note_receipt nf) = [nullifier_key 0 nf]"
    using nf by (simp add: receipt_keys_def note_receipt_def numeral_eq_Suc)
  moreover have "bigInt_SetString (VaultId (note_request nf)) = Some 3" "decodeHex (CipherText (note_request nf)) = Some []"
    "decodeHex (EncTxData (note_request nf)) = Some []" "resolveVault vault_one 3 = Some 1"
    by (simp_all add: note_request_def SetString_String decodeHex_def TrimPrefix_def resolveVault_def vault_one_def)
  ultimately have "RelayPayment vault_one open_vault (note_request nf) = Inr ([nullifier_key 0 nf], note_call nf)"
    by (simp add: RelayPayment_def note_call_def)
  then show ?thesis by (auto simp: relayed_def)
qed

lemma String_examples: "bigInt_String 0 = ''0''" "bigInt_String 7 = ''7''" "bigInt_String 8 = ''8''"
  by (simp_all add: bigInt_String_def nat_digits.simps digit_char_def char_of_def bit_0)

subsection \<open>Properties\<close>

text \<open>
  Claiming is all or nothing: the nullifiers of the receipts of a request are claimed exactly when none of
  them is in flight and none occurs twice among the receipts (both sides of a swap included); otherwise the
  request is refused with one of its own keys and the set of keys in flight is left as it was.
\<close>

theorem claim_all_or_nothing:
  "let keys = concat (map receipt_keys receipts) in
    if distinct keys \<and> set keys \<inter> inflight = {}
    then claimNullifiers receipts inflight = (Inr keys, inflight \<union> set keys) \<and>
      releaseNullifiers keys (inflight \<union> set keys) = inflight
    else \<exists>k \<in> set keys. claimNullifiers receipts inflight = (Inl k, inflight)"
  using claim_loop_ok [of "concat (map receipt_keys receipts)" inflight "[]"]
    claim_loop_conflict [of "[]" inflight "concat (map receipt_keys receipts)"]
  by (auto simp: claimNullifiers_def releaseNullifiers_eq Let_def)

text \<open>
  C19. A nullifier is in flight once. Whatever the requests and their interleaving, two handlers that have claimed
  their keys and are submitting calls, or waiting for them, never spend the same nullifier of the same tree,
  also when it comes from different endpoints or is written differently in the two requests.
\<close>

theorem dvp_nullifier_in_flight_once:
  assumes "reachable conf n0 s" "at s t p" "at s u q" "t \<noteq> u"
    and "relayed vaultById vaults (held p) call1" "relayed vaultById vaults (held q) call2"
  shows "\<not> (call_spends call1 treeNum nullifier \<and> call_spends call2 treeNum nullifier)"
proof
  assume "call_spends call1 treeNum nullifier \<and> call_spends call2 treeNum nullifier"
  then have "nullifier_key treeNum nullifier \<in> set (held p) \<inter> set (held q)"
    using relayed_keys assms(5,6) by blast
  moreover have "set (held p) \<inter> set (held q) = {}"
    using reachable_held_disjoint [OF assms(1-4)] .
  ultimately show False by simp
qed

theorem dvp_nullifier_in_flight_once_witness:
  "\<not> (call_spends (note_call 7) 0 8 \<and> call_spends (note_call 8) 0 8)"
proof -
  have "reachable bank_conf 0 (two_ready 0 ''0:7'' ''0:8'')" by (rule two_ready_reachable) simp
  moreover have "at (two_ready 0 ''0:7'' ''0:8'') 0 (Ready [''0:7''] 0)" "at (two_ready 0 ''0:7'' ''0:8'') 1 (Ready [''0:8''] 0)"
    by (simp_all add: at_def two_ready_def)
  moreover have "relayed vault_one open_vault (held (Ready [''0:7''] 0)) (note_call 7)"
    "relayed vault_one open_vault (held (Ready [''0:8''] 0)) (note_call 8)"
    using note_relayed [of 7] note_relayed [of 8] by (simp_all add: nullifier_key_def String_examples)
  ultimately show ?thesis using dvp_nullifier_in_flight_once [of bank_conf 0 _ 0 _ 1] by (metis zero_neq_one)
qed

text \<open>
  Nothing is submitted unchecked. For every receipt of a relayed call the contract of its vault knew the
  root and did not know the nullifier of each input at the time of the checks; there are one to ten inputs
  and outputs (so a receipt costs at most twenty contract calls), and the statement has all the entries
  that the checks read.
\<close>

theorem dvp_call_checked:
  assumes "relayed vaultById vaults keys call" "(r, vaultId) \<in> set (call_receipts call)"
  shows "1 \<le> NumInputs r \<and> NumInputs r \<le> 10 \<and> 1 \<le> NumOutputs r \<and> NumOutputs r \<le> 10 \<and>
    1 + 3 * NumInputs r + NumOutputs r \<le> int (length (Statement r)) \<and>
    (\<exists>addr. vaultById vaultId = Some addr \<and> addr \<noteq> 0 \<and>
      (\<forall>i < nat (NumInputs r).
        rootHistory (vaults addr) (Statement r ! (1 + i)) (Statement r ! (1 + nat (NumInputs r) + i)) = Some True \<and>
        nullifiers (vaults addr) (Statement r ! (1 + i)) (Statement r ! (1 + 2 * nat (NumInputs r) + i)) = Some False))"
proof -
  from assms obtain p where c: "checked_receipt vaultById vaults p vaultId" and r: "r = buildProofReceipt p"
    by (elim relayed_receipts) (fastforce simp: list_all_iff)
  from c obtain raw addr where a: "parseReceipt raw = Inr p" "resolveVault vaultById vaultId = Some addr" "validateReceipt (vaults addr) p = None"
    by (auto simp: checked_receipt_def)
  have "vaultById vaultId = Some addr \<and> addr \<noteq> 0" using a(2) by (auto simp: resolveVault_def split: option.splits if_splits)
  moreover have "Statement r = signal p" "NumInputs r = nIn p" "NumOutputs r = nOut p" by (simp_all add: r buildProofReceipt_def Let_def)
  ultimately show ?thesis using a(1) validateReceipt_None [OF a(3)] by (simp add: parseReceipt_Inr)
qed

theorem dvp_call_checked_witness:
  "rootHistory (open_vault 1) 0 5 = Some True \<and> nullifiers (open_vault 1) 0 7 = Some False"
proof -
  obtain r where r: "call_receipts (note_call 7) = [(r, 3)]" "Statement r = [9, 0, 5, 7, 4]" "NumInputs r = 1"
    by (simp add: note_call_def buildProofReceipt_def note_receipt_def)
  then have "(r, 3) \<in> set (call_receipts (note_call 7))" by simp
  from dvp_call_checked [OF note_relayed this] r show ?thesis by (auto simp: vault_one_def)
qed

end
