(* ===== verification/Relay_Retail.thy ===== *)
theory Relay_Retail
  imports Tag_Scan Relay_Dvp
begin

section \<open>The relayer of retail payments, tags and channels\<close>

text \<open>
  \<^verbatim>\<open>enygma_retail_payments/relayer/server/handler.go\<close>: the checks of a payment before it is claimed and
  submitted, the submission of tags with a window of candidate blocks, and the opening of channels. What the
  chain answers to each attempt is an argument; the concurrent part is the machine of \<^theory_text>\<open>Relay_Machine\<close>.
\<close>

definition decodeHexField :: "string \<Rightarrow> byte list option" where
  "decodeHexField s = DecodeString (TrimPrefix s ''0x'')"

subsection \<open>Payments\<close>

record retail_request =
  pay_vaultId :: string
  pay_proof :: "string list"
  pay_signal :: "string list"
  pay_cipherText :: string
  pay_encTxData :: string

record parsed =
  vaultId :: int
  proof_elems :: "int list"
  publicSignal :: "int list"
  cipherText :: "byte list"
  encTxData :: "byte list"

definition parseRequest :: "retail_request \<Rightarrow> parsed option" where
  "parseRequest req = do {
     v \<leftarrow> bigInt_SetString (pay_vaultId req);
     p \<leftarrow> those (map bigInt_SetString (pay_proof req));
     sig \<leftarrow> those (map bigInt_SetString (pay_signal req));
     ct \<leftarrow> decodeHexField (pay_cipherText req);
     enc \<leftarrow> decodeHexField (pay_encTxData req);
     Some \<lparr>vaultId = v, proof_elems = p, publicSignal = sig, cipherText = ct, encTxData = enc\<rparr> }"

definition buildPaymentReceipt :: "parsed \<Rightarrow> proofReceipt" where
  "buildPaymentReceipt p = (let f = (!) (proof_elems p) in
     \<lparr>A = (f 0, f 1), B = ((f 2, f 3), (f 4, f 5)), C = (f 6, f 7),
      Statement = publicSignal p, NumInputs = 1, NumOutputs = 2\<rparr>)"

text \<open>The steps before the nullifier is claimed: the status of a refusal, or the key and the call.\<close>

definition RelayRetailPayment :: "vault \<Rightarrow> retail_request \<Rightarrow> nat + string list \<times> dvp_call" where
  "RelayRetailPayment v req = (case parseRequest req of
       None \<Rightarrow> Inl 400
     | Some p \<Rightarrow>
       (let treeNum = publicSignal p ! 1; root = publicSignal p ! 2; nullifier = publicSignal p ! 3 in
        case rootHistory v treeNum root of
          None \<Rightarrow> Inl 500
        | Some known \<Rightarrow> if \<not> known then Inl 400
        else case nullifiers v treeNum nullifier of
          None \<Rightarrow> Inl 500
        | Some spent \<Rightarrow> if spent then Inl 400
        else Inr ([nullifier_key treeNum nullifier],
               Payment (buildPaymentReceipt p) (vaultId p) (cipherText p) (encTxData p))))"

subsection \<open>Tags\<close>

record RelayTagRequest =
  req_tag :: string
  req_tags :: "string list"
  req_startBlock :: "64 word"
  req_ctxt :: string

text \<open>
  What the chain does in one attempt: the current block (or an error), whether the transaction is accepted,
  and how it is mined (or an error while waiting): not reverted or reverted, in which block.
\<close>

record chain_attempt =
  current_block :: "64 word option"
  transact_ok :: bool
  mined :: "(bool \<times> 64 word) option"

definition window_index :: "64 word \<Rightarrow> RelayTagRequest \<Rightarrow> nat option" where
  "window_index block req = (let i = sint (block - req_startBlock req) in
     if i < 0 \<or> i \<ge> int (length (req_tags req)) then None else Some (nat i))"

definition choose_tag :: "chain_attempt \<Rightarrow> RelayTagRequest \<Rightarrow> nat + byte list" where
  "choose_tag env req = (case current_block env of
       None \<Rightarrow> Inl 500
     | Some currentBlock \<Rightarrow> (case window_index (currentBlock + 1) req of
         None \<Rightarrow> Inl 409
       | Some i \<Rightarrow> (case decodeHexField (req_tags req ! i) of
           None \<Rightarrow> Inl 400
         | Some tagBytes \<Rightarrow> if length tagBytes \<noteq> 32 then Inl 400 else Inr tagBytes)))"

definition submittedCorrect :: "RelayTagRequest \<Rightarrow> nat \<Rightarrow> byte list \<Rightarrow> bool" where
  "submittedCorrect req tagIdx tag = (case decodeHexField (req_tags req ! tagIdx) of
       None \<Rightarrow> True
     | Some correctTagBytes \<Rightarrow> if length correctTagBytes = 32 then correctTagBytes = tag else True)"

text \<open>
  The attempts still allowed are the last argument. The answer is a status or the block of a success; beside
  it, the tags that were mined, in order, each with its block.
\<close>

fun tag_attempts ::
  "(nat \<Rightarrow> chain_attempt) \<Rightarrow> RelayTagRequest \<Rightarrow> bool \<Rightarrow> byte list \<Rightarrow> nat \<Rightarrow> nat \<Rightarrow> (nat + 64 word) \<times> (64 word \<times> byte list) list" where
  "tag_attempts env req windowMode singleTag a 0 = (Inl 409, [])"
| "tag_attempts env req windowMode singleTag a (Suc n) = (
     case if windowMode then choose_tag (env a) req else Inr singleTag of
       Inl status \<Rightarrow> (Inl status, [])
     | Inr tag \<Rightarrow>
     if \<not> transact_ok (env a) then (Inl 500, [])
     else case mined (env a) of
       None \<Rightarrow> (Inl 500, [])
     | Some (ok, actualBlock) \<Rightarrow>
     if \<not> ok then (Inl 400, [])
     else if windowMode then
       (case window_index actualBlock req of
          None \<Rightarrow> (Inl 409, [(actualBlock, tag)])
        | Some tagIdx \<Rightarrow>
          if submittedCorrect req tagIdx tag then (Inr actualBlock, [(actualBlock, tag)])
          else let (r, rest) = tag_attempts env req windowMode singleTag (Suc a) n in (r, (actualBlock, tag) # rest))
     else (Inr actualBlock, [(actualBlock, tag)]))"

definition maxAttempts :: nat where
  "maxAttempts = 3"

text \<open>The checks of \<^verbatim>\<open>RelayTag\<close> before it claims its key: the mode, the key, the single tag, the ciphertext.\<close>

definition check_tag_request :: "bool \<Rightarrow> RelayTagRequest \<Rightarrow> nat + bool \<times> string \<times> byte list \<times> byte list" where
  "check_tag_request configured req = (
     let windowMode = length (req_tags req) > 0 in
     if \<not> windowMode \<and> req_tag req = [] then Inl 400
     else if windowMode \<and> req_tag req \<noteq> [] then Inl 400
     else if windowMode \<and> length (req_tags req) > 16 then Inl 400
     else case decodeHexField (req_ctxt req) of
       None \<Rightarrow> Inl 400
     | Some ctxt \<Rightarrow>
     case if windowMode then Inr (replicate 32 0)
          else case decodeHexField (req_tag req) of
            None \<Rightarrow> Inl 400
          | Some tagBytes \<Rightarrow> if length tagBytes \<noteq> 32 then Inl 400 else Inr tagBytes of
       Inl status \<Rightarrow> Inl status
     | Inr singleTag \<Rightarrow>
     if \<not> configured then Inl 503
     else Inr (windowMode, if windowMode then req_tags req ! 0 else req_tag req, singleTag, ctxt))"

definition RelayTag ::
  "bool \<Rightarrow> string set \<Rightarrow> (nat \<Rightarrow> chain_attempt) \<Rightarrow> RelayTagRequest \<Rightarrow>
   (nat + 64 word) \<times> (64 word \<times> byte list \<times> byte list) list" where
  "RelayTag configured inflight env req = (case check_tag_request configured req of
       Inl status \<Rightarrow> (Inl status, [])
     | Inr (windowMode, key, singleTag, ctxt) \<Rightarrow>
       if key \<in> inflight then (Inl 409, [])
       else let (r, tags) = tag_attempts env req windowMode singleTag 0 maxAttempts in
         (r, map (\<lambda>(block, tag). (block, tag, ctxt)) tags))"

subsection \<open>Channels\<close>

record RelayChannelRequest =
  req_c1 :: string
  req_c2 :: string
  req_bitmap :: string

text \<open>The steps before \<^verbatim>\<open>c1\<close> is claimed: the status of a refusal, or the key and the arguments of \<^verbatim>\<open>openChannel\<close>.\<close>

definition RelayChannel ::
  "bool \<Rightarrow> RelayChannelRequest \<Rightarrow> nat + string list \<times> byte list \<times> byte list \<times> byte list" where
  "RelayChannel configured req = (case decodeHexField (req_c1 req) of
       None \<Rightarrow> Inl 400
     | Some c1 \<Rightarrow> if length c1 \<noteq> 1088 then Inl 400
     else case decodeHexField (req_c2 req) of
       None \<Rightarrow> Inl 400
     | Some c2 \<Rightarrow> if length c2 = 0 then Inl 400
     else case decodeHexField (req_bitmap req) of
       None \<Rightarrow> Inl 400
     | Some bitmap \<Rightarrow> if \<not> configured then Inl 503
     else Inr ([take (min 34 (length (req_c1 req))) (req_c1 req)], c1, c2, bitmap))"

text \<open>The index in the first matching event of the receipt, 0 without one; a log without topics panics.\<close>

fun channel_index :: "byte list \<Rightarrow> byte list list list \<Rightarrow> 64 word option" where
  "channel_index sig [] = Some 0"
| "channel_index sig (topics # logs) = (case topics of
       [] \<Rightarrow> None
     | t # ts \<Rightarrow> if t = sig then (case ts of [] \<Rightarrow> None | i # _ \<Rightarrow> Some (word_of_int (SetBytes i)))
                 else channel_index sig logs)"

subsection \<open>Lemmas\<close>

text \<open>How the clients send bytes.\<close>

definition hex0x :: "byte list \<Rightarrow> string" where
  "hex0x bs = ''0x'' @ EncodeToString bs"

lemma decodeHexField_hex0x [simp]: "decodeHexField (hex0x bs) = Some bs"
  by (simp add: decodeHexField_def hex0x_def TrimPrefix_def DecodeString_Encode)

lemma hex0x_inject: "hex0x bs = hex0x cs \<longleftrightarrow> bs = cs"
  by (metis decodeHexField_hex0x option.inject)

lemma length_hex0x: "length (hex0x bs) = 2 + 2 * length bs"
  by (induction bs) (simp_all add: hex0x_def EncodeToString_def)

lemma EncodeToString_take: "take (2 * n) (EncodeToString bs) = EncodeToString (take n bs)"
proof (induction bs arbitrary: n)
  case (Cons b bs)
  then show ?case by (cases n) (simp_all add: EncodeToString_def)
qed (simp add: EncodeToString_def)

lemma hex0x_take: "take 34 (hex0x bs) = hex0x (take 16 bs)"
  using EncodeToString_take [of 16 bs] by (simp add: hex0x_def numeral_eq_Suc)

lemma tag_attempts_length: "length (snd (tag_attempts env req w single a n)) \<le> n"
proof (induction n arbitrary: a)
  case (Suc n)
  from Suc [of "Suc a"] show ?case by (auto simp: Let_def split: sum.splits option.splits prod.splits)
qed simp

lemma window_index_Some:
  "window_index block req = Some i \<Longrightarrow> i < length (req_tags req) \<and> block = req_startBlock req + word_of_nat i"
proof -
  assume w: "window_index block req = Some i"
  then have i: "sint (block - req_startBlock req) = int i" "i < length (req_tags req)"
    by (auto simp: window_index_def Let_def split: if_splits)
  from i(1) have "block - req_startBlock req = word_of_nat i"
    by (metis of_int_of_nat_eq scast_eq scast_id)
  with i(2) show ?thesis by (simp add: algebra_simps)
qed

lemma tag_attempts_window:
  assumes "tag_attempts env req True single a n = (Inr block, log)"
  shows "\<exists>i tag. window_index block req = Some i \<and> submittedCorrect req i tag \<and> log \<noteq> [] \<and> last log = (block, tag) \<and> length tag = 32"
  using assms
proof (induction n arbitrary: a log)
  case (Suc n)
  then show ?case
    by (fastforce simp: Let_def choose_tag_def split: sum.splits option.splits prod.splits if_splits)
qed simp

lemma DeriveTag_length: "DeriveTag H b pk ss = Some (Inr t) \<Longrightarrow> length t = 32"
  by (auto simp: DeriveTag_def Let_def FillBytes_def split: option.splits if_splits)

lemma RelayTag_window:
  assumes "RelayTag configured inflight env req = (Inr block, log)" "req_tag req = []"
  obtains i tag ctxt where "window_index block req = Some i" "submittedCorrect req i tag" "(block, tag, ctxt) \<in> set log"
    "decodeHexField (req_ctxt req) = Some ctxt" "length tag = 32"
proof -
  from assms obtain key single ctxt tags where c: "check_tag_request configured req = Inr (True, key, single, ctxt)"
    and t: "tag_attempts env req True single 0 maxAttempts = (Inr block, tags)"
      "log = map (\<lambda>(block, tag). (block, tag, ctxt)) tags"
    by (auto simp: RelayTag_def check_tag_request_def Let_def split: sum.splits option.splits prod.splits if_splits)
  from tag_attempts_window [OF t(1)] obtain i tag where "window_index block req = Some i" "submittedCorrect req i tag"
    "tags \<noteq> []" "last tags = (block, tag)" "length tag = 32" by blast
  moreover from this have "(block, tag) \<in> set tags" by (metis last_in_set)
  moreover have "decodeHexField (req_ctxt req) = Some ctxt"
    using c by (auto simp: check_tag_request_def Let_def split: sum.splits option.splits if_splits)
  ultimately show ?thesis using that t(2) by force
qed

subsection \<open>Properties\<close>

text \<open>
  C21. A tag that the relayer reports as published is found by its recipient. The client prepares a window of tags
  and sends it in hexadecimal; whatever block the transactions land in and however often the relayer
  resubmits, if it answers with success for a block, then that block is in the window, the recipient's scan of
  that block returns the published entry, and its ciphertext decrypts to the payload.
\<close>

theorem relayed_tag_found:
  assumes "iden3_total H" and "aead_correct cr" and "length nonce = 12"
    and "PrepareTagWithWindow H cr (Some nonce) (Some cur) windowSize (PkSpend ch) (Channel_SharedSecret ch)
       (DeriveChannelKey cr (Channel_SharedSecret ch)) payload = Some (Inr (startBlock, tags, ctxt))"
    and "RelayTag configured inflight env \<lparr>req_tag = [], req_tags = map hex0x tags, req_startBlock = startBlock, req_ctxt = hex0x ctxt\<rparr>
       = (Inr block, log)"
    and "getEntries block = Some entries"
    and "\<forall>tag ct. (block, tag, ct) \<in> set log \<longrightarrow> \<lparr>Publisher = relayer, Tag = tag, Ctxt = ct\<rparr> \<in> set entries"
    and "ch \<in> set channels" and "\<forall>c\<in>set channels. 0 \<le> PkSpend c \<and> PkSpend c < SNARK_SCALAR_FIELD"
  shows "\<exists>i < length tags. block = startBlock + word_of_nat i \<and>
    (\<exists>found. ScanBlock H getEntries block channels = Some (Inr found) \<and>
      \<lparr>BlockNumber = block, Entry = \<lparr>Publisher = relayer, Tag = tags ! i, Ctxt = ctxt\<rparr>,
        Scanned_SharedSecret = Channel_SharedSecret ch\<rparr> \<in> set found) \<and>
    DecryptPayload cr (DeriveChannelKey cr (Channel_SharedSecret ch)) ctxt = Inr payload"
proof -
  let ?req = "\<lparr>req_tag = [], req_tags = map hex0x tags, req_startBlock = startBlock, req_ctxt = hex0x ctxt\<rparr>"
  have "req_tag ?req = []" by simp
  with assms(5) obtain i tag ct where i: "window_index block ?req = Some i" "submittedCorrect ?req i tag"
    "(block, tag, ct) \<in> set log" "decodeHexField (req_ctxt ?req) = Some ct" by (rule RelayTag_window)
  then have b: "block = startBlock + word_of_nat i" "i < length tags" and ct: "ct = ctxt"
    using window_index_Some [OF i(1)] by simp_all
  have "tag_window_loop H startBlock (PkSpend ch) (Channel_SharedSecret ch) [0..<nat windowSize] = Some (Inr tags)"
    using assms(4) by (auto simp: PrepareTagWithWindow_def DeriveTagWindow_def Let_def
        split: Option.bind_split_asm sum.split_asm if_split_asm)
  from tag_window_loop_nth [OF this] b(2) have "length (tags ! i) = 32" using DeriveTag_length by auto
  with i(2) b(2) have tag: "tag = tags ! i" by (simp add: submittedCorrect_def)
  have "\<lparr>Publisher = relayer, Tag = tags ! i, Ctxt = ctxt\<rparr> \<in> set entries" using assms(7) i(3) tag ct by blast
  from tag_window_scan [OF assms(1-4) b(2) _ this assms(8,9)] assms(6) b show ?thesis by blast
qed

theorem relayed_tag_found_witness:
  "\<exists>tags ctxt. PrepareTagWithWindow toy_hash toy_crypto (Some (replicate 12 0)) (Some 9) 2 5 [7]
       (DeriveChannelKey toy_crypto [7]) [1, 2] = Some (Inr (10, tags, ctxt)) \<and>
     (\<exists>i<length tags. (11 :: 64 word) = 10 + word_of_nat i) \<and>
     DecryptPayload toy_crypto (DeriveChannelKey toy_crypto [7]) ctxt = Inr [1, 2]"
proof -
  let ?ch = "\<lparr>Channel_SharedSecret = [7], PkSpend = 5\<rparr>"
  let ?env = "\<lambda>a. if a = 0 then \<lparr>current_block = Some 9, transact_ok = True, mined = Some (True, 11)\<rparr>
    else \<lparr>current_block = Some 10, transact_ok = True, mined = Some (True, 11)\<rparr>"
  have pk: "(5 :: int) < SNARK_SCALAR_FIELD" by (simp add: SNARK_SCALAR_FIELD_def)
  obtain tags where tags: "tag_window_loop toy_hash 10 5 [7] [0..<2] = Some (Inr tags)"
    using tag_window_loop_total [OF toy_laws(1) _ pk] by fastforce
  moreover obtain ctxt where "EncryptPayload toy_crypto (Some (replicate 12 0)) (DeriveChannelKey toy_crypto [7]) [1, 2] = Inr ctxt"
    by (simp add: EncryptPayload_def)
  ultimately have p: "PrepareTagWithWindow toy_hash toy_crypto (Some (replicate 12 0)) (Some 9) 2 (PkSpend ?ch)
      (Channel_SharedSecret ?ch) (DeriveChannelKey toy_crypto (Channel_SharedSecret ?ch)) [1, 2] = Some (Inr (10, tags, ctxt))"
    by (simp add: PrepareTagWithWindow_def DeriveTagWindow_def)
  from tag_window_loop_nth [OF tags] obtain t0 t1 where t: "tags = [t0, t1]" "length t0 = 32" "length t1 = 32"
    by (auto simp: length_Suc_conv numeral_2_eq_2 All_less_Suc dest!: DeriveTag_length)
  let ?req = "\<lparr>req_tag = [], req_tags = map hex0x tags, req_startBlock = 10, req_ctxt = hex0x ctxt\<rparr>"
  have "window_index 10 ?req = Some 0" "window_index 11 ?req = Some 1" by (simp_all add: window_index_def t)
  then obtain log where r: "RelayTag True {} ?env ?req = (Inr 11, log)"
    by (cases "t1 = t0")
      (simp_all add: RelayTag_def check_tag_request_def maxAttempts_def numeral_3_eq_3 choose_tag_def submittedCorrect_def t)
  let ?entries = "map (\<lambda>(b, tag, ct). \<lparr>Publisher = 3, Tag = tag, Ctxt = ct\<rparr>) log"
  have "\<forall>tag ct. (11, tag, ct) \<in> set log \<longrightarrow> \<lparr>Publisher = 3, Tag = tag, Ctxt = ct\<rparr> \<in> set ?entries" by force
  from relayed_tag_found [OF toy_laws(1) toy_crypto_laws(2) _ p r, of "\<lambda>_. Some ?entries", OF _ _ this, of "[?ch]"] pk p
  show ?thesis by auto
qed

text \<open>
  The check of the mined block trusts malformed tags. When the transaction lands in a block of the window whose
  own tag is not 32 bytes of hexadecimal, the relayer reports success although the tag it published is that of
  another block. (Windows from \<^verbatim>\<open>PrepareTagWithWindow\<close> are not affected.)
\<close>

theorem tag_relay_accepts_wrong_tag:
  assumes "check_tag_request configured req = Inr (True, key, single, ctxt)" "key \<notin> inflight"
    and "env 0 = \<lparr>current_block = Some (expected - 1), transact_ok = True, mined = Some (True, actual)\<rparr>"
    and "window_index expected req = Some i" "decodeHexField (req_tags req ! i) = Some tag" "length tag = 32"
    and "window_index actual req = Some j" "\<nexists>t. decodeHexField (req_tags req ! j) = Some t \<and> length t = 32"
  shows "RelayTag configured inflight env req = (Inr actual, [(actual, tag, ctxt)]) \<and> actual \<noteq> expected"
proof -
  have "submittedCorrect req j tag" using assms(8) by (auto simp: submittedCorrect_def split: option.splits)
  moreover have "choose_tag (env 0) req = Inr tag" using assms(3-6) by (simp add: choose_tag_def)
  ultimately have "tag_attempts env req True single 0 maxAttempts = (Inr actual, [(actual, tag)])"
    using assms(3,7) by (simp add: maxAttempts_def numeral_3_eq_3)
  with assms show ?thesis by (auto simp: RelayTag_def)
qed

theorem tag_relay_accepts_wrong_tag_witness:
  "RelayTag True {} (\<lambda>_. \<lparr>current_block = Some 9, transact_ok = True, mined = Some (True, 11)\<rparr>)
     \<lparr>req_tag = [], req_tags = [hex0x (replicate 32 1), ''zz''], req_startBlock = 10, req_ctxt = hex0x [5]\<rparr>
   = (Inr 11, [(11, replicate 32 1, [5])])"
proof -
  let ?req = "\<lparr>req_tag = [], req_tags = [hex0x (replicate 32 1), ''zz''], req_startBlock = 10, req_ctxt = hex0x [5]\<rparr>"
  have "check_tag_request True ?req = Inr (True, hex0x (replicate 32 1), replicate 32 0, [5])"
    by (simp add: check_tag_request_def)
  moreover have "window_index 10 ?req = Some 0" "window_index 11 ?req = Some 1" by (simp_all add: window_index_def)
  moreover have "decodeHexField ''zz'' = None" by (simp add: decodeHexField_def TrimPrefix_def hex_value_def)
  ultimately show ?thesis
    using tag_relay_accepts_wrong_tag [of True ?req "hex0x (replicate 32 1)" "replicate 32 0" "[5]" "{}"
        "\<lambda>_. \<lparr>current_block = Some 9, transact_ok = True, mined = Some (True, 11)\<rparr>" 10 11 0 "replicate 32 1" 1]
    by simp
qed

text \<open>
  A channel set-up passes through the relayer unchanged. For a KEM ciphertext of 1088 bytes and a non-empty
  payload ciphertext, sent in hexadecimal, the call has exactly the bytes that were sent, and two set-ups
  exclude each other while in flight exactly when the first 16 bytes of their KEM ciphertexts agree.
\<close>

theorem channel_relay_roundtrip:
  assumes "length c1 = 1088" "c2 \<noteq> []" "length c1' = 1088" "c2' \<noteq> []"
  shows "\<exists>key key'. RelayChannel True \<lparr>req_c1 = hex0x c1, req_c2 = hex0x c2, req_bitmap = hex0x bitmap\<rparr> = Inr ([key], c1, c2, bitmap) \<and>
    RelayChannel True \<lparr>req_c1 = hex0x c1', req_c2 = hex0x c2', req_bitmap = hex0x bitmap'\<rparr> = Inr ([key'], c1', c2', bitmap') \<and>
    (key = key' \<longleftrightarrow> take 16 c1 = take 16 c1')"
proof -
  have "RelayChannel True \<lparr>req_c1 = hex0x c, req_c2 = hex0x d, req_bitmap = hex0x e\<rparr> = Inr ([hex0x (take 16 c)], c, d, e)"
    if "length c = 1088" "d \<noteq> []" for c d e
    using that by (simp add: RelayChannel_def hex0x_take length_hex0x)
  with assms show ?thesis by (simp add: hex0x_inject)
qed

theorem channel_relay_roundtrip_witness:
  "\<exists>key. RelayChannel True \<lparr>req_c1 = hex0x (replicate 1088 3), req_c2 = hex0x [1], req_bitmap = hex0x []\<rparr>
     = Inr ([key], replicate 1088 3, [1], [])"
  using channel_relay_roundtrip [of "replicate 1088 3" "[1]" "replicate 1088 3" "[1]" "[]" "[]"] by auto

end
