(* ===== verification/Client_Notes.thy ===== *)
theory Client_Notes
  imports Tag_Channel
begin

section \<open>Notes as the clients build them\<close>

text \<open>
  \<^verbatim>\<open>enygma_dvp/src/core/utils.go\<close>: nullifiers and commitments, the values derived from an ML-KEM shared
  secret, the encrypted payload that travels with a note, and ElGamal encryption on Baby Jubjub. Poseidon
  (\<^verbatim>\<open>None\<close> is its error for a value outside the field), HKDF, the two AEADs, ML-KEM and the curve are arguments.
\<close>

subsection \<open>Poseidon based values\<close>

type_synonym client_hash = "int list \<Rightarrow> int option"

definition GetNullifier :: "client_hash \<Rightarrow> int \<Rightarrow> int \<Rightarrow> int option" where
  "GetNullifier H privateKey pathIndices = H [privateKey, pathIndices]"

definition GetNullifierWithTree :: "client_hash \<Rightarrow> int \<Rightarrow> int \<Rightarrow> int \<Rightarrow> nat \<Rightarrow> int option" where
  "GetNullifierWithTree H sk treeNumber pathIndex treeDepth = (
     let capacity = 2 ^ treeDepth; globalIdx = treeNumber * capacity + pathIndex in H [sk, globalIdx])"

definition GetNullifierBound :: "client_hash \<Rightarrow> int \<Rightarrow> int \<Rightarrow> int \<Rightarrow> int option" where
  "GetNullifierBound H privateKey pathIndices contractAddress = H [privateKey, pathIndices, contractAddress]"

definition GetCommitment :: "client_hash \<Rightarrow> int \<Rightarrow> int \<Rightarrow> int option" where
  "GetCommitment H uniqueId publicKey = H [uniqueId, publicKey]"

definition GetPublicKey :: "client_hash \<Rightarrow> int \<Rightarrow> int option" where
  "GetPublicKey H privateKey = H [privateKey]"

definition GetAuctionId :: "client_hash \<Rightarrow> int \<Rightarrow> int option" where
  "GetAuctionId H commitment = H [commitment]"

definition client_Erc20Commitment :: "client_hash \<Rightarrow> int \<Rightarrow> int \<Rightarrow> int \<Rightarrow> int \<Rightarrow> int option" where
  "client_Erc20Commitment H contractAddress amount publicKey salt = H [contractAddress, amount, publicKey, salt]"

definition client_Erc20CommitmentV2 :: "client_hash \<Rightarrow> int \<Rightarrow> int \<Rightarrow> int \<Rightarrow> int \<Rightarrow> int option" where
  "client_Erc20CommitmentV2 H pkSpend saltBField amount tokenId = H [pkSpend, saltBField, amount, tokenId]"

definition client_Erc721Commitment :: "client_hash \<Rightarrow> int \<Rightarrow> int \<Rightarrow> int \<Rightarrow> int option" where
  "client_Erc721Commitment H tokenId publicKey salt = client_Erc20CommitmentV2 H publicKey salt 1 tokenId"

definition client_Erc1155Commitment :: "client_hash \<Rightarrow> int \<Rightarrow> int \<Rightarrow> int \<Rightarrow> int \<Rightarrow> int option" where
  "client_Erc1155Commitment H tokenId amount publicKey salt = client_Erc20CommitmentV2 H publicKey salt amount tokenId"

definition Erc1155UniqueId :: "client_hash \<Rightarrow> int \<Rightarrow> int \<Rightarrow> int \<Rightarrow> int option" where
  "Erc1155UniqueId H contractAddress tokenId amount = do { uid1 \<leftarrow> H [contractAddress, tokenId]; H [uid1, amount] }"

record KeyPair =
  PrivateKey :: int
  PublicKey :: int

text \<open>The 32 random bytes are an argument.\<close>

definition NewSpendKeyPair :: "client_hash \<Rightarrow> byte list \<Rightarrow> KeyPair option" where
  "NewSpendKeyPair H b = do {
     let seed = SetBytes b mod SNARK_SCALAR_FIELD;
     sk \<leftarrow> H [seed];
     pk \<leftarrow> H [sk];
     Some \<lparr>PrivateKey = sk, PublicKey = pk\<rparr> }"

definition RandomInField :: "byte list \<Rightarrow> int" where
  "RandomInField b = SetBytes b mod SNARK_SCALAR_FIELD"

subsection \<open>Values derived from a shared secret\<close>

text \<open>ChaCha20-Poly1305 stands beside the AES-GCM of the other flows.\<close>

record note_crypto = crypto +
  ChachaSeal :: "byte list \<Rightarrow> byte list \<Rightarrow> byte list \<Rightarrow> byte list \<Rightarrow> byte list"
  ChachaOpen :: "byte list \<Rightarrow> byte list \<Rightarrow> byte list \<Rightarrow> byte list \<Rightarrow> byte list option"

definition SaltBToField :: "byte list \<Rightarrow> int" where
  "SaltBToField saltB = SetBytes saltB mod SNARK_SCALAR_FIELD"

definition hkdfDerive :: "('a) crypto_scheme \<Rightarrow> byte list \<Rightarrow> string \<Rightarrow> nat \<Rightarrow> byte list" where
  "hkdfDerive cr ikm info n = hkdf cr ikm [] (ascii info) n"

definition DerivePaymentSalt :: "('a) crypto_scheme \<Rightarrow> byte list \<Rightarrow> byte list" where
  "DerivePaymentSalt cr ss = hkdfDerive cr ss ''note salt'' 32"

definition DerivePaymentKey :: "('a) crypto_scheme \<Rightarrow> byte list \<Rightarrow> byte list" where
  "DerivePaymentKey cr ss = hkdfDerive cr ss ''encryption key'' 32"

definition DeriveDvpSaltInit :: "('a) crypto_scheme \<Rightarrow> byte list \<Rightarrow> byte list" where
  "DeriveDvpSaltInit cr ss = hkdfDerive cr ss ''Init Salt'' 32"

subsection \<open>Payloads\<close>

text \<open>
  The outer option is a panic (of \<^verbatim>\<open>FillBytes\<close>, on a number of more than 32 bytes), the sum an error. AES takes keys
  of 16, 24 or 32 bytes, ChaCha20-Poly1305 of 32.
\<close>

datatype note_error = Bad_key | No_randomness | Too_short | Not_authentic | Bad_plaintext nat

definition EncryptNotePayload ::
  "('a) crypto_scheme \<Rightarrow> byte list option \<Rightarrow> byte list \<Rightarrow> int \<Rightarrow> int \<Rightarrow> (note_error + byte list) option" where
  "EncryptNotePayload cr rand encKey tokenId amount = (
     if length encKey \<notin> {16, 24, 32} then Some (Inl Bad_key)
     else do {
       t \<leftarrow> FillBytes 32 tokenId;
       a \<leftarrow> FillBytes 32 amount;
       Some (case rand of None \<Rightarrow> Inl No_randomness | Some nonce \<Rightarrow> Inr (nonce @ Seal cr encKey nonce (t @ a) [])) })"

definition DecryptNotePayload :: "('a) crypto_scheme \<Rightarrow> byte list \<Rightarrow> byte list \<Rightarrow> note_error + int \<times> int" where
  "DecryptNotePayload cr encKey encTxData = (
     if length encKey \<notin> {16, 24, 32} then Inl Bad_key
     else if length encTxData < 12 then Inl Too_short
     else case Open cr encKey (take 12 encTxData) (drop 12 encTxData) [] of
       None \<Rightarrow> Inl Not_authentic
     | Some plaintext \<Rightarrow>
       if length plaintext \<noteq> 64 then Inl (Bad_plaintext (length plaintext))
       else Inr (SetBytes (take 32 plaintext), SetBytes (drop 32 plaintext)))"

definition EncryptSwapPayload ::
  "('a) note_crypto_scheme \<Rightarrow> byte list option \<Rightarrow> byte list \<Rightarrow> int \<Rightarrow> int \<Rightarrow> byte list \<Rightarrow> (note_error + byte list) option" where
  "EncryptSwapPayload cr rand saltB tokenId amount saltStar = (
     if length saltB \<noteq> 32 then Some (Inl Bad_key)
     else do {
       t \<leftarrow> FillBytes 32 tokenId;
       a \<leftarrow> FillBytes 32 amount;
       Some (case rand of None \<Rightarrow> Inl No_randomness
         | Some nonce \<Rightarrow> Inr (nonce @ ChachaSeal cr saltB nonce (t @ a @ saltStar) [])) })"

definition DecryptSwapPayload :: "('a) note_crypto_scheme \<Rightarrow> byte list \<Rightarrow> byte list \<Rightarrow> note_error + int \<times> int \<times> byte list" where
  "DecryptSwapPayload cr saltB encTxData = (
     if length saltB \<noteq> 32 then Inl Bad_key
     else if length encTxData < 12 then Inl Too_short
     else case ChachaOpen cr saltB (take 12 encTxData) (drop 12 encTxData) [] of
       None \<Rightarrow> Inl Not_authentic
     | Some plaintext \<Rightarrow>
       if length plaintext < 64 then Inl (Bad_plaintext (length plaintext))
       else Inr (SetBytes (take 32 plaintext), SetBytes (take 32 (drop 32 plaintext)), drop 64 plaintext))"

subsection \<open>ElGamal encryption on Baby Jubjub\<close>

text \<open>The library's base point, scalar multiplication and addition.\<close>

type_synonym jub_point = "int \<times> int"

record jubjub =
  B8 :: jub_point
  Mul :: "int \<Rightarrow> jub_point \<Rightarrow> jub_point"
  Add :: "jub_point \<Rightarrow> jub_point \<Rightarrow> jub_point"

definition NegatePoint :: "jub_point \<Rightarrow> jub_point" where
  "NegatePoint p = (SNARK_SCALAR_FIELD - fst p, snd p)"

definition EncodeMessage :: "jubjub \<Rightarrow> int \<Rightarrow> jub_point" where
  "EncodeMessage J m = Mul J m (B8 J)"

function DecodeMessage_from :: "jubjub \<Rightarrow> jub_point \<Rightarrow> int \<Rightarrow> int \<Rightarrow> int option" where
  "DecodeMessage_from J point maxM m = (
     if m < maxM then (if EncodeMessage J m = point then Some m else DecodeMessage_from J point maxM (m + 1))
     else None)"
  by pat_completeness auto
termination by (relation "measure (\<lambda>(J, point, maxM, m). nat (maxM - m))") auto

definition DecodeMessage :: "jubjub \<Rightarrow> jub_point \<Rightarrow> int \<Rightarrow> int option" where
  "DecodeMessage J point maxM = DecodeMessage_from J point maxM 0"

definition BabyEncrypt :: "jubjub \<Rightarrow> int \<Rightarrow> int \<Rightarrow> jub_point \<Rightarrow> jub_point \<times> jub_point" where
  "BabyEncrypt J m r pubKey = (
     let c1 = Mul J r (B8 J); rPub = Mul J r pubKey; mG = EncodeMessage J m in (c1, Add J mG rPub))"

definition BabyDecrypt :: "jubjub \<Rightarrow> jub_point \<Rightarrow> jub_point \<Rightarrow> int \<Rightarrow> int option \<Rightarrow> int option" where
  "BabyDecrypt J c1 c2 privateKey allowedRange = (
     let range = (case allowedRange of None \<Rightarrow> 1000 | Some r \<Rightarrow> r);
         rPub = Mul J privateKey c1;
         mDec = Add J c2 (NegatePoint rPub) in
     DecodeMessage J mDec range)"

text \<open>A key pair from a sequence of random draws: the first whose residue is not zero.\<close>

fun BabyKeyPair :: "jubjub \<Rightarrow> int \<Rightarrow> byte list list \<Rightarrow> (int \<times> jub_point) option" where
  "BabyKeyPair J subOrder [] = None"
| "BabyKeyPair J subOrder (b # bs) = (
     let privateKey = RandomInField b mod subOrder in
     if privateKey \<noteq> 0 then Some (privateKey, Mul J privateKey (B8 J)) else BabyKeyPair J subOrder bs)"

declare DecodeMessage_from.simps [simp del]

subsection \<open>Lemmas\<close>

lemma note_payload_plaintext:
  assumes "FillBytes 32 tokenId = Some t" "FillBytes 32 amount = Some a"
  shows "length (t @ a) = 64" "SetBytes (take 32 (t @ a)) = \<bar>tokenId\<bar>" "SetBytes (drop 32 (t @ a)) = \<bar>amount\<bar>"
  using FillBytes_SetBytes [OF assms(1)] FillBytes_SetBytes [OF assms(2)] by simp_all

text \<open>AEAD correctness for both ciphers, and HKDF outputs of the length asked for.\<close>

definition note_aead :: "('a) note_crypto_scheme \<Rightarrow> bool" where
  "note_aead cr \<longleftrightarrow> (\<forall>k n p a. length n = 12 \<longrightarrow> Open cr k n (Seal cr k n p a) a = Some p \<and>
     ChachaOpen cr k n (ChachaSeal cr k n p a) a = Some p)"

definition hkdf_length :: "('a) crypto_scheme \<Rightarrow> bool" where
  "hkdf_length cr \<longleftrightarrow> (\<forall>ss info n. length (hkdf cr ss [] info n) = n)"

lemma decrypt_encrypt_note:
  assumes "note_aead cr" "length nonce = 12" "EncryptNotePayload cr (Some nonce) k tokenId amount = Some (Inr ct)"
  shows "DecryptNotePayload cr k ct = Inr (\<bar>tokenId\<bar>, \<bar>amount\<bar>)"
proof -
  from assms(3) obtain t a where ta: "FillBytes 32 tokenId = Some t" "FillBytes 32 amount = Some a"
    "length k \<in> {16, 24, 32}" "ct = nonce @ Seal cr k nonce (t @ a) []"
    by (auto simp: EncryptNotePayload_def bind_eq_Some_conv split: if_splits)
  then have "Open cr k (take 12 ct) (drop 12 ct) [] = Some (t @ a)" "\<not> length ct < 12"
    using assms(1,2) by (simp_all add: note_aead_def)
  with ta(3) note_payload_plaintext [OF ta(1,2)] show ?thesis by (simp add: DecryptNotePayload_def)
qed

lemma decrypt_encrypt_swap:
  assumes "note_aead cr" "length nonce = 12" "EncryptSwapPayload cr (Some nonce) k tokenId amount salt = Some (Inr ct)"
  shows "DecryptSwapPayload cr k ct = Inr (\<bar>tokenId\<bar>, \<bar>amount\<bar>, salt)"
proof -
  from assms(3) obtain t a where ta: "FillBytes 32 tokenId = Some t" "FillBytes 32 amount = Some a"
    "length k = 32" "ct = nonce @ ChachaSeal cr k nonce (t @ a @ salt) []"
    by (auto simp: EncryptSwapPayload_def bind_eq_Some_conv split: if_splits)
  then have "ChachaOpen cr k (take 12 ct) (drop 12 ct) [] = Some (t @ a @ salt)" "\<not> length ct < 12"
    using assms(1,2) by (simp_all add: note_aead_def)
  with ta(3) FillBytes_SetBytes [OF ta(1)] FillBytes_SetBytes [OF ta(2)] show ?thesis by (simp add: DecryptSwapPayload_def)
qed

lemma encrypt_note_total:
  assumes "length k = 32" "\<bar>tokenId\<bar> < 2 ^ 256" "\<bar>amount\<bar> < 2 ^ 256"
  shows "\<exists>ct. EncryptNotePayload cr (Some nonce) k tokenId amount = Some (Inr ct)"
  using assms by (simp add: EncryptNotePayload_def FillBytes_def)

lemma global_index_inject:
  assumes "0 \<le> i" "i < 2 ^ d" "0 \<le> j" "j < 2 ^ d"
  shows "t * 2 ^ d + i = u * 2 ^ d + j \<longleftrightarrow> t = u \<and> i = (j :: int)"
proof
  assume e: "t * 2 ^ d + i = u * 2 ^ d + j"
  have "(t * 2 ^ d + i) div 2 ^ d = t" "(u * 2 ^ d + j) div 2 ^ d = u" using assms by simp_all
  with e show "t = u \<and> i = j" by simp
qed simp

lemma DecodeMessage_from_Some:
  "DecodeMessage_from J point maxM m = Some k \<longleftrightarrow>
     m \<le> k \<and> k < maxM \<and> EncodeMessage J k = point \<and> (\<forall>l. m \<le> l \<and> l < k \<longrightarrow> EncodeMessage J l \<noteq> point)"
proof (induction J point maxM m rule: DecodeMessage_from.induct)
  case (1 J point maxM m)
  show ?case
  proof (cases "m < maxM \<and> EncodeMessage J m \<noteq> point")
    case True
    have "m \<le> k \<longleftrightarrow> k = m \<or> m + 1 \<le> k" "m \<le> l \<longleftrightarrow> l = m \<or> m + 1 \<le> l" for l by auto
    with True 1 show ?thesis by (subst DecodeMessage_from.simps) auto
  next
    case False
    then show ?thesis by (subst DecodeMessage_from.simps) (auto simp: not_less)
  qed
qed

text \<open>What ElGamal needs of the curve: the nonnegative multiples of the base point are a cyclic group of order \<open>n\<close>.\<close>

definition jub_laws :: "jubjub \<Rightarrow> int \<Rightarrow> bool" where
  "jub_laws J n \<longleftrightarrow>
     (\<forall>a b. 0 \<le> a \<and> 0 \<le> b \<longrightarrow> Add J (Mul J a (B8 J)) (Mul J b (B8 J)) = Mul J (a + b) (B8 J)) \<and>
     (\<forall>a b. 0 \<le> a \<and> 0 \<le> b \<longrightarrow> Mul J a (Mul J b (B8 J)) = Mul J (a * b) (B8 J)) \<and>
     (\<forall>a b. 0 \<le> b \<and> b \<le> a \<longrightarrow> Add J (Mul J a (B8 J)) (NegatePoint (Mul J b (B8 J))) = Mul J (a - b) (B8 J)) \<and>
     (\<forall>a b. 0 \<le> a \<and> 0 \<le> b \<longrightarrow> (Mul J a (B8 J) = Mul J b (B8 J) \<longleftrightarrow> a mod n = b mod n))"

text \<open>Stand-ins with the assumed laws: the additive group of the field, and ciphers that append the key.\<close>

definition toy_jubjub :: jubjub where
  "toy_jubjub = \<lparr>B8 = (1, 1), Mul = (\<lambda>k p. (k * fst p mod SNARK_SCALAR_FIELD, 1)),
     Add = (\<lambda>p q. ((fst p + fst q) mod SNARK_SCALAR_FIELD, 1))\<rparr>"

lemma toy_jubjub_laws: "jub_laws toy_jubjub SNARK_SCALAR_FIELD"
proof -
  have "(a mod n + (n - b mod n)) mod n = (a - b) mod n" for a b n :: int
    by (metis add_diff_eq diff_add_eq mod_add_self2 mod_diff_eq)
  then show ?thesis by (simp add: jub_laws_def toy_jubjub_def NegatePoint_def mod_simps)
qed

definition toy_note_crypto :: note_crypto where
  "toy_note_crypto = \<lparr>hkdf = (\<lambda>s salt info n. take n (s @ info @ replicate n 0)), Seal = (\<lambda>k n p a. p @ k),
     Open = (\<lambda>k n c a. if drop (length c - length k) c = k then Some (take (length c - length k) c) else None),
     ValidKey = (\<lambda>k. True), Encapsulate = (\<lambda>ek coins. (coins, 1 # coins)),
     Decapsulate = (\<lambda>dk c. case c of [] \<Rightarrow> None | _ # s \<Rightarrow> Some s),
     ChachaSeal = (\<lambda>k n p a. p @ k),
     ChachaOpen = (\<lambda>k n c a. if drop (length c - length k) c = k then Some (take (length c - length k) c) else None)\<rparr>"

lemma toy_note_crypto_laws: "note_aead toy_note_crypto" "hkdf_length toy_note_crypto" "kem_correct toy_note_crypto ek dk"
  by (auto simp: kem_correct_def note_aead_def hkdf_length_def toy_note_crypto_def min_def)

subsection \<open>Properties\<close>

text \<open>
  The payload of a note round-trips. With a 32-byte key, a token id and an amount of at most 256 bits are
  encrypted and decrypted back exactly; one of more than 256 bits is never encrypted (the client panics), so
  no payload carries a truncated amount.
\<close>

theorem note_payload_roundtrip:
  assumes "note_aead cr" "length nonce = 12" "length key = 32" "0 \<le> tokenId" "0 \<le> amount"
  shows "if tokenId < 2 ^ 256 \<and> amount < 2 ^ 256
    then \<exists>ct. EncryptNotePayload cr (Some nonce) key tokenId amount = Some (Inr ct) \<and> DecryptNotePayload cr key ct = Inr (tokenId, amount)
    else EncryptNotePayload cr (Some nonce) key tokenId amount = None"
proof (cases "tokenId < 2 ^ 256 \<and> amount < 2 ^ 256")
  case True
  then obtain ct where "EncryptNotePayload cr (Some nonce) key tokenId amount = Some (Inr ct)"
    using encrypt_note_total [of key tokenId amount] assms by auto
  with True decrypt_encrypt_note [OF assms(1,2) this] assms(4,5) show ?thesis by simp
next
  case False
  then have "FillBytes 32 tokenId = None \<or> FillBytes 32 amount = None" using assms(4,5) by (auto simp: FillBytes_def)
  with False assms(3) show ?thesis by (auto simp: EncryptNotePayload_def split: Option.bind_split)
qed

theorem note_payload_roundtrip_witness:
  "\<exists>ct. EncryptNotePayload toy_note_crypto (Some (replicate 12 7)) (replicate 32 1) 5 1000 = Some (Inr ct) \<and>
     DecryptNotePayload toy_note_crypto (replicate 32 1) ct = Inr (5, 1000)"
  using note_payload_roundtrip [OF toy_note_crypto_laws(1), of "replicate 12 7" "replicate 32 1" 5 1000] by simp

text \<open>
  C39. ElGamal decryption inverts encryption within the allowed range. A message below the range is found, as
  itself, by the search over the range (which never runs beyond it), whatever the (nonnegative) key and randomness; a message at
  or above the range, but below the order of the group, is reported as not found rather than as another value.
\<close>

theorem elgamal_roundtrip:
  assumes "jub_laws J n" "0 \<le> m" "m < n" "bound \<le> n" "BabyEncrypt J m r (Mul J sk (B8 J)) = (c1, c2)" "0 \<le> r" "0 \<le> sk"
  shows "BabyDecrypt J c1 c2 sk (Some bound) = (if m < bound then Some m else None)"
proof -
  have c: "c1 = Mul J r (B8 J)" "c2 = Add J (Mul J m (B8 J)) (Mul J r (Mul J sk (B8 J)))"
    using assms(5) by (simp_all add: BabyEncrypt_def EncodeMessage_def)
  then have "Add J c2 (NegatePoint (Mul J sk c1)) = EncodeMessage J m"
    using assms(1,2,6,7) by (simp add: jub_laws_def EncodeMessage_def algebra_simps)
  then have d: "BabyDecrypt J c1 c2 sk (Some bound) = DecodeMessage J (EncodeMessage J m) bound"
    by (simp add: BabyDecrypt_def)
  have e: "EncodeMessage J l = EncodeMessage J m \<longleftrightarrow> l = m" if "0 \<le> l" "l < n" for l
    using assms(1-3) that by (simp add: jub_laws_def EncodeMessage_def mod_pos_pos_trivial)
  have "DecodeMessage J (EncodeMessage J m) bound = Some k \<longleftrightarrow> k = m \<and> m < bound" for k
    unfolding DecodeMessage_def DecodeMessage_from_Some using e assms(2-4) by (auto intro: e [THEN iffD1])
  then show ?thesis using d by (cases "DecodeMessage J (EncodeMessage J m) bound") auto
qed

theorem elgamal_roundtrip_witness:
  "\<exists>c1 c2. BabyEncrypt toy_jubjub 42 17 (Mul toy_jubjub 9 (B8 toy_jubjub)) = (c1, c2) \<and>
     BabyDecrypt toy_jubjub c1 c2 9 (Some 1000) = Some 42"
proof -
  obtain c1 c2 where "BabyEncrypt toy_jubjub 42 17 (Mul toy_jubjub 9 (B8 toy_jubjub)) = (c1, c2)" by (meson surj_pair)
  with elgamal_roundtrip [OF toy_jubjub_laws _ _ _ this, of 1000] show ?thesis by (simp add: SNARK_SCALAR_FIELD_def)
qed

end
