(* ===== verification/Client_Scan.thy ===== *)
theory Client_Scan
  imports Client_Notes
begin

section \<open>How a recipient finds its notes\<close>

text \<open>
  \<^verbatim>\<open>enygma_dvp/src/core/scan.go\<close>: the scans over the note events of the vaults. An event that does not decrypt
  belongs to somebody else and is skipped; any other irregularity ends the whole scan with an error.
\<close>

subsection \<open>The loop\<close>

datatype scan_error = Decapsulation_failed nat | Commitment_failed nat | Commitment_mismatch nat

text \<open>One event gives an error, nothing (\<^verbatim>\<open>continue\<close>) or a note.\<close>

fun scan_loop :: "(nat \<Rightarrow> 'e \<Rightarrow> scan_error + 'n option) \<Rightarrow> nat \<Rightarrow> 'e list \<Rightarrow> 'n list \<Rightarrow> scan_error + 'n list" where
  "scan_loop f i [] owned = Inr owned"
| "scan_loop f i (ev # evs) owned = (case f i ev of
       Inl err \<Rightarrow> Inl err
     | Inr None \<Rightarrow> scan_loop f (Suc i) evs owned
     | Inr (Some note) \<Rightarrow> scan_loop f (Suc i) evs (owned @ [note]))"

definition check_commitment :: "nat \<Rightarrow> int option \<Rightarrow> int \<Rightarrow> scan_error option" where
  "check_commitment i expected onChain = (case expected of
       None \<Rightarrow> Some (Commitment_failed i)
     | Some c \<Rightarrow> if c \<noteq> onChain then Some (Commitment_mismatch i) else None)"

subsection \<open>ERC20, ERC721 and ERC1155 notes\<close>

record OnChainErc20Event =
  Commitment :: int
  CipherText :: "byte list"
  EncTxData :: "byte list"

record OwnedErc20Note =
  note_commitment :: int
  TokenId :: int
  Amount :: int
  SaltBField :: int

definition scan_erc20_event ::
  "('a) crypto_scheme \<Rightarrow> client_hash \<Rightarrow> byte list \<Rightarrow> int \<Rightarrow> nat \<Rightarrow> OnChainErc20Event \<Rightarrow> scan_error + OwnedErc20Note option" where
  "scan_erc20_event cr H dk pkSpend i ev = (case Decapsulate cr dk (CipherText ev) of
       None \<Rightarrow> Inl (Decapsulation_failed i)
     | Some ss \<Rightarrow>
       (let saltB = DerivePaymentSalt cr ss; encKey = DerivePaymentKey cr ss in
        case DecryptNotePayload cr encKey (EncTxData ev) of
          Inl _ \<Rightarrow> Inr None
        | Inr (tokenId, amount) \<Rightarrow>
          (let saltBField = SaltBToField saltB in
           case check_commitment i (client_Erc20CommitmentV2 H pkSpend saltBField amount tokenId) (Commitment ev) of
             Some err \<Rightarrow> Inl err
           | None \<Rightarrow> Inr (Some \<lparr>note_commitment = Commitment ev, TokenId = tokenId, Amount = amount, SaltBField = saltBField\<rparr>))))"

definition ScanForErc20Notes ::
  "('a) crypto_scheme \<Rightarrow> client_hash \<Rightarrow> byte list \<Rightarrow> int \<Rightarrow> OnChainErc20Event list \<Rightarrow> scan_error + OwnedErc20Note list" where
  "ScanForErc20Notes cr H dk pkSpend events = scan_loop (scan_erc20_event cr H dk pkSpend) 0 events []"

record OwnedErc721Note =
  note721_commitment :: int
  note721_contract :: int
  note721_tokenId :: int
  note721_salt :: int

definition scan_erc721_event ::
  "('a) crypto_scheme \<Rightarrow> client_hash \<Rightarrow> byte list \<Rightarrow> int \<Rightarrow> nat \<Rightarrow> OnChainErc20Event \<Rightarrow> scan_error + OwnedErc721Note option" where
  "scan_erc721_event cr H dk pkSpend i ev = (case Decapsulate cr dk (CipherText ev) of
       None \<Rightarrow> Inl (Decapsulation_failed i)
     | Some ss \<Rightarrow>
       (let saltB = DerivePaymentSalt cr ss; encKey = DerivePaymentKey cr ss in
        case DecryptNotePayload cr encKey (EncTxData ev) of
          Inl _ \<Rightarrow> Inr None
        | Inr (contractAddress, tokenId) \<Rightarrow>
          (let saltBField = SaltBToField saltB in
           case check_commitment i (client_Erc721Commitment H tokenId pkSpend saltBField) (Commitment ev) of
             Some err \<Rightarrow> Inl err
           | None \<Rightarrow> Inr (Some \<lparr>note721_commitment = Commitment ev, note721_contract = contractAddress,
               note721_tokenId = tokenId, note721_salt = saltBField\<rparr>))))"

definition ScanForErc721Notes ::
  "('a) crypto_scheme \<Rightarrow> client_hash \<Rightarrow> byte list \<Rightarrow> int \<Rightarrow> OnChainErc20Event list \<Rightarrow> scan_error + OwnedErc721Note list" where
  "ScanForErc721Notes cr H dk pkSpend events = scan_loop (scan_erc721_event cr H dk pkSpend) 0 events []"

record OnChainErc1155Event = OnChainErc20Event +
  ContractAddress :: int

record OwnedErc1155Note = OwnedErc20Note +
  note_contract :: int

definition scan_erc1155_event ::
  "('a) crypto_scheme \<Rightarrow> client_hash \<Rightarrow> byte list \<Rightarrow> int \<Rightarrow> nat \<Rightarrow> OnChainErc1155Event \<Rightarrow> scan_error + OwnedErc1155Note option" where
  "scan_erc1155_event cr H dk pkSpend i ev = (case Decapsulate cr dk (CipherText ev) of
       None \<Rightarrow> Inl (Decapsulation_failed i)
     | Some ss \<Rightarrow>
       (let saltB = DerivePaymentSalt cr ss; encKey = DerivePaymentKey cr ss in
        case DecryptNotePayload cr encKey (EncTxData ev) of
          Inl _ \<Rightarrow> Inr None
        | Inr (tokenId, amount) \<Rightarrow>
          (let saltBField = SaltBToField saltB in
           case check_commitment i (client_Erc1155Commitment H tokenId amount pkSpend saltBField) (Commitment ev) of
             Some err \<Rightarrow> Inl err
           | None \<Rightarrow> Inr (Some \<lparr>note_commitment = Commitment ev, TokenId = tokenId, Amount = amount,
               SaltBField = saltBField, note_contract = ContractAddress ev\<rparr>))))"

definition ScanForErc1155Notes ::
  "('a) crypto_scheme \<Rightarrow> client_hash \<Rightarrow> byte list \<Rightarrow> int \<Rightarrow> OnChainErc1155Event list \<Rightarrow> scan_error + OwnedErc1155Note list" where
  "ScanForErc1155Notes cr H dk pkSpend events = scan_loop (scan_erc1155_event cr H dk pkSpend) 0 events []"

subsection \<open>Pending swaps\<close>

record OnChainZkDvpEvent =
  CommitmentA :: int
  CommitmentB :: int
  swap_CipherText :: "byte list"
  swap_EncTxData :: "byte list"

record ZkDvpSwapInfo =
  info_CommitmentA :: int
  info_CommitmentB :: int
  TokenIdOut :: int
  AmountOut :: int
  SaltStar :: "byte list"
  swap_SaltBField :: int

definition scan_swap_event ::
  "('a) note_crypto_scheme \<Rightarrow> client_hash \<Rightarrow> byte list \<Rightarrow> int \<Rightarrow> int \<Rightarrow> int \<Rightarrow> int \<Rightarrow> nat \<Rightarrow> OnChainZkDvpEvent \<Rightarrow>
   scan_error + ZkDvpSwapInfo option" where
  "scan_swap_event cr H dk aliceSpendPk bobSpendPk amountIn tokenIdIn i ev = (case Decapsulate cr dk (swap_CipherText ev) of
       None \<Rightarrow> Inl (Decapsulation_failed i)
     | Some ss \<Rightarrow>
       (case DecryptSwapPayload cr ss (swap_EncTxData ev) of
          Inl _ \<Rightarrow> Inr None
        | Inr (tokenIdOut, amountOut, saltStar) \<Rightarrow>
          (let saltStarField = SaltBToField saltStar; saltBField = SaltBToField ss in
           case check_commitment i (client_Erc20CommitmentV2 H aliceSpendPk saltStarField amountOut tokenIdOut) (CommitmentA ev) of
             Some err \<Rightarrow> Inl err
           | None \<Rightarrow>
           case check_commitment i (client_Erc20CommitmentV2 H bobSpendPk saltBField amountIn tokenIdIn) (CommitmentB ev) of
             Some err \<Rightarrow> Inl err
           | None \<Rightarrow> Inr (Some \<lparr>info_CommitmentA = CommitmentA ev, info_CommitmentB = CommitmentB ev, TokenIdOut = tokenIdOut,
               AmountOut = amountOut, SaltStar = saltStar, swap_SaltBField = saltBField\<rparr>))))"

definition ScanForZkDvpSwap ::
  "('a) note_crypto_scheme \<Rightarrow> client_hash \<Rightarrow> byte list \<Rightarrow> int \<Rightarrow> int \<Rightarrow> int \<Rightarrow> int \<Rightarrow> OnChainZkDvpEvent list \<Rightarrow>
   scan_error + ZkDvpSwapInfo list" where
  "ScanForZkDvpSwap cr H dk aliceSpendPk bobSpendPk amountIn tokenIdIn events =
     scan_loop (scan_swap_event cr H dk aliceSpendPk bobSpendPk amountIn tokenIdIn) 0 events []"

subsection \<open>Lemmas\<close>

lemma check_commitment_None [simp]: "check_commitment i e c = None \<longleftrightarrow> e = Some c"
  by (auto simp: check_commitment_def split: option.splits)

lemma check_commitment_self [simp]: "check_commitment i (Some c) c = None"
  by simp

lemma scan_loop_Inr:
  assumes "\<And>i j ev n. f i ev = Inr n \<longleftrightarrow> f j ev = Inr n"
  shows "scan_loop f i evs owned = Inr notes \<longleftrightarrow>
    (\<exists>ns. list_all2 (\<lambda>ev n. f 0 ev = Inr n) evs ns \<and> notes = owned @ concat (map (case_option [] (\<lambda>n. [n])) ns))"
proof (induction evs arbitrary: i owned)
  case (Cons ev evs)
  show ?case
  proof (cases "f i ev")
    case (Inl e)
    then have "f 0 ev \<noteq> Inr n" for n using assms [of i ev n 0] by simp
    with Inl show ?thesis by (simp add: list_all2_Cons1)
  next
    case (Inr n)
    then have "f 0 ev = Inr n" using assms by blast
    with Inr show ?thesis by (cases n) (auto simp: Cons.IH list_all2_Cons1)
  qed
qed auto

lemma scan_loop_Inl:
  assumes "\<And>i. \<exists>err. f i ev = Inl err" "ev \<in> set evs"
  shows "\<exists>err. scan_loop f i evs owned = Inl err"
  using assms(2)
proof (induction evs arbitrary: i owned)
  case (Cons e evs)
  show ?case
  proof (cases "e = ev")
    case True
    then show ?thesis using assms(1) [of i] by auto
  next
    case False
    with Cons show ?thesis by (auto split: sum.split option.split)
  qed
qed simp

text \<open>The plaintext of an event for a recipient, when the event is addressed to it.\<close>

definition payload_of :: "('a) crypto_scheme \<Rightarrow> byte list \<Rightarrow> OnChainErc20Event \<Rightarrow> (int \<times> int \<times> int) option" where
  "payload_of cr dk ev = (case Decapsulate cr dk (CipherText ev) of
       None \<Rightarrow> None
     | Some ss \<Rightarrow> (case DecryptNotePayload cr (DerivePaymentKey cr ss) (EncTxData ev) of
         Inl _ \<Rightarrow> None
       | Inr (tokenId, amount) \<Rightarrow> Some (SaltBToField (DerivePaymentSalt cr ss), amount, tokenId)))"

lemma scan_erc20_event_Inr:
  "scan_erc20_event cr H dk pk i ev = Inr n \<longleftrightarrow> Decapsulate cr dk (CipherText ev) \<noteq> None \<and>
     (case payload_of cr dk ev of
        None \<Rightarrow> n = None
      | Some (salt, amount, tokenId) \<Rightarrow> H [pk, salt, amount, tokenId] = Some (Commitment ev) \<and>
          n = Some \<lparr>note_commitment = Commitment ev, TokenId = tokenId, Amount = amount, SaltBField = salt\<rparr>)"
  by (auto simp: scan_erc20_event_def payload_of_def client_Erc20CommitmentV2_def Let_def split: option.splits sum.splits)

lemma scan_erc20_event_Inl:
  assumes "payload_of cr dk ev = Some (salt, amount, tokenId)" "H [pk, salt, amount, tokenId] \<noteq> Some (Commitment ev)"
  shows "\<exists>err. scan_erc20_event cr H dk pk i ev = Inl err"
proof (cases "scan_erc20_event cr H dk pk i ev")
  case (Inr n)
  with assms show ?thesis by (simp add: scan_erc20_event_Inr)
qed simp

lemma payload_of_sent:
  assumes "kem_correct cr ek dk" "note_aead cr" "length nonce = 12" "Encapsulate cr ek coins = (ss, ct)"
    "EncryptNotePayload cr (Some nonce) (DerivePaymentKey cr ss) tokenId amount = Some (Inr enc)"
    "CipherText ev = ct" "EncTxData ev = enc"
  shows "payload_of cr dk ev = Some (SaltBToField (DerivePaymentSalt cr ss), \<bar>amount\<bar>, \<bar>tokenId\<bar>)"
proof -
  have "Decapsulate cr dk ct = Some ss" using assms(1,4) unfolding kem_correct_def by (metis fst_conv snd_conv)
  with assms decrypt_encrypt_note [OF assms(2,3,5)] show ?thesis by (simp add: payload_of_def)
qed

lemma payload_of_bounds:
  "payload_of cr dk ev = Some (salt, amount, tokenId) \<Longrightarrow> 0 \<le> amount \<and> amount < 2 ^ 256"
proof -
  assume "payload_of cr dk ev = Some (salt, amount, tokenId)"
  then obtain plain where "length plain = 64" "amount = SetBytes (drop 32 plain)"
    by (auto simp: payload_of_def DecryptNotePayload_def split: option.splits sum.splits if_splits)
  then show ?thesis using SetBytes_bounds [of "drop 32 plain"] by simp
qed

subsection \<open>Example events\<close>

definition toy_secret :: "byte list" where
  "toy_secret = replicate 32 7"

definition toy_capsule :: "byte list" where
  "toy_capsule = 1 # toy_secret"

definition toy_enc :: "int \<Rightarrow> int \<Rightarrow> byte list" where
  "toy_enc tokenId amount = replicate 12 0 @ be_bytes 32 tokenId @ be_bytes 32 amount @ DerivePaymentKey toy_note_crypto toy_secret"

definition toy_commitment :: "int \<Rightarrow> int \<Rightarrow> int \<Rightarrow> int" where
  "toy_commitment pk tokenId amount = sum_list [pk, SaltBToField (DerivePaymentSalt toy_note_crypto toy_secret), amount, tokenId]"

lemma toy_capsule_sent: "Encapsulate toy_note_crypto ek toy_secret = (toy_secret, toy_capsule)"
  by (simp add: toy_note_crypto_def toy_capsule_def)

lemma toy_enc_sent:
  assumes "0 \<le> tokenId" "0 \<le> amount" "tokenId < 2 ^ 256" "amount < 2 ^ 256"
  shows "EncryptNotePayload toy_note_crypto (Some (replicate 12 0)) (DerivePaymentKey toy_note_crypto toy_secret) tokenId amount
    = Some (Inr (toy_enc tokenId amount))"
  using assms toy_note_crypto_laws(2)
  by (simp add: EncryptNotePayload_def toy_enc_def FillBytes_def hkdf_length_def DerivePaymentKey_def hkdfDerive_def)
    (simp add: toy_note_crypto_def)

subsection \<open>Properties\<close>

text \<open>
  C29. The scan returns exactly the recipient's notes, and each can be spent. When the scan succeeds, the notes are,
  in order, those of the events whose payload decrypts under the recipient's keys, and every returned note
  opens its on-chain commitment under the recipient's spend key, with an amount of the chain's 256 bits.
\<close>

theorem note_scan_exact:
  assumes "ScanForErc20Notes cr H dk pkSpend events = Inr notes"
  shows "map note_commitment notes = map Commitment (filter (\<lambda>ev. payload_of cr dk ev \<noteq> None) events) \<and>
    list_all (\<lambda>n. client_Erc20CommitmentV2 H pkSpend (SaltBField n) (Amount n) (TokenId n) = Some (note_commitment n) \<and>
      0 \<le> Amount n \<and> Amount n < 2 ^ 256) notes"
proof -
  have "scan_erc20_event cr H dk pkSpend i ev = Inr n \<longleftrightarrow> scan_erc20_event cr H dk pkSpend j ev = Inr n" for i j ev n
    by (simp add: scan_erc20_event_Inr)
  from scan_loop_Inr [of "scan_erc20_event cr H dk pkSpend", OF this] assms obtain ns where
    ns: "list_all2 (\<lambda>ev n. scan_erc20_event cr H dk pkSpend 0 ev = Inr n) events ns"
    "notes = concat (map (case_option [] (\<lambda>n. [n])) ns)"
    unfolding ScanForErc20Notes_def by auto
  show ?thesis
    using ns(1) unfolding ns(2)
    by (induction rule: list_all2_induct)
      (auto simp: scan_erc20_event_Inr client_Erc20CommitmentV2_def dest: payload_of_bounds split: option.splits)
qed

theorem note_scan_exact_witness:
  "\<exists>found. ScanForErc20Notes toy_note_crypto (\<lambda>xs. Some (sum_list xs)) [] 3
      [\<lparr>Commitment = toy_commitment 3 5 100, CipherText = toy_capsule, EncTxData = toy_enc 5 100\<rparr>,
       \<lparr>Commitment = 8, CipherText = toy_capsule, EncTxData = []\<rparr>] = Inr found \<and>
    map note_commitment found = [toy_commitment 3 5 100]"
proof -
  let ?evs = "[\<lparr>Commitment = toy_commitment 3 5 100, CipherText = toy_capsule, EncTxData = toy_enc 5 100\<rparr>,
       \<lparr>Commitment = 8, CipherText = toy_capsule, EncTxData = []\<rparr>]"
  have p: "payload_of toy_note_crypto [] (?evs ! 0) = Some (SaltBToField (DerivePaymentSalt toy_note_crypto toy_secret), 100, 5)"
    "payload_of toy_note_crypto [] (?evs ! 1) = None"
    using payload_of_sent [OF toy_note_crypto_laws(3,1) _ toy_capsule_sent toy_enc_sent, of 5 100 "?evs ! 0"]
    by (simp_all add: payload_of_def DecryptNotePayload_def split: option.split)
  have "Decapsulate toy_note_crypto [] toy_capsule = Some toy_secret" by (simp add: toy_note_crypto_def toy_capsule_def)
  then have "\<exists>n. scan_erc20_event toy_note_crypto (\<lambda>xs. Some (sum_list xs)) [] 3 i (?evs ! 0) = Inr (Some n)"
    "scan_erc20_event toy_note_crypto (\<lambda>xs. Some (sum_list xs)) [] 3 i (?evs ! 1) = Inr None" for i
    using p by (simp_all add: scan_erc20_event_Inr toy_commitment_def)
  note ev = this
  from ev(1) obtain n0 where "scan_erc20_event toy_note_crypto (\<lambda>xs. Some (sum_list xs)) [] 3 0 (?evs ! 0) = Inr (Some n0)" by blast
  with ev(2) [of "Suc 0"] have n: "ScanForErc20Notes toy_note_crypto (\<lambda>xs. Some (sum_list xs)) [] 3 ?evs = Inr [n0]"
    by (simp add: ScanForErc20Notes_def)
  from note_scan_exact [OF n] p show ?thesis using n by auto
qed

text \<open>
  One event can block a recipient's scan for good. Anybody who knows the public view key of a recipient can
  encrypt a payload to it; if the event's commitment is not the one of that payload, every scan over events
  that include it fails, and no note of any other event is returned.
\<close>

theorem one_event_blocks_scan:
  assumes "kem_correct cr ek dk" "note_aead cr" "length nonce = 12" "Encapsulate cr ek coins = (ss, ct)"
    and "EncryptNotePayload cr (Some nonce) (DerivePaymentKey cr ss) tokenId amount = Some (Inr enc)"
    and "0 \<le> tokenId" "0 \<le> amount"
    and "client_Erc20CommitmentV2 H pkSpend (SaltBToField (DerivePaymentSalt cr ss)) amount tokenId \<noteq> Some c"
    and "\<lparr>Commitment = c, CipherText = ct, EncTxData = enc\<rparr> \<in> set events"
  shows "\<exists>err. ScanForErc20Notes cr H dk pkSpend events = Inl err"
proof -
  let ?ev = "\<lparr>Commitment = c, CipherText = ct, EncTxData = enc\<rparr>"
  have "payload_of cr dk ?ev = Some (SaltBToField (DerivePaymentSalt cr ss), amount, tokenId)"
    using payload_of_sent [OF assms(1-5), of ?ev] assms(6,7) by simp
  then have "\<exists>err. scan_erc20_event cr H dk pkSpend i ?ev = Inl err" for i
    using assms(8) by (intro scan_erc20_event_Inl) (simp_all add: client_Erc20CommitmentV2_def)
  then show ?thesis unfolding ScanForErc20Notes_def using assms(9) by (rule scan_loop_Inl)
qed

theorem one_event_blocks_scan_witness:
  "\<exists>err. ScanForErc20Notes toy_note_crypto (\<lambda>xs. Some (sum_list xs)) [] 3
      [\<lparr>Commitment = toy_commitment 3 5 100, CipherText = toy_capsule, EncTxData = toy_enc 5 100\<rparr>,
       \<lparr>Commitment = toy_commitment 4 5 100, CipherText = toy_capsule, EncTxData = toy_enc 5 100\<rparr>] = Inl err"
  using one_event_blocks_scan [OF toy_note_crypto_laws(3,1) _ toy_capsule_sent toy_enc_sent, of 5 100 "\<lambda>xs. Some (sum_list xs)" 3
      "toy_commitment 4 5 100" "[\<lparr>Commitment = toy_commitment 3 5 100, CipherText = toy_capsule, EncTxData = toy_enc 5 100\<rparr>,
       \<lparr>Commitment = toy_commitment 4 5 100, CipherText = toy_capsule, EncTxData = toy_enc 5 100\<rparr>]" "[]"]
  by (simp add: client_Erc20CommitmentV2_def toy_commitment_def)

end
