(* ===== verification/Client_Witness.thy ===== *)
theory Client_Witness
  imports Client_Scan Merkle_Tree Go_Text
begin

section \<open>From a client's note to a circuit assignment\<close>

text \<open>
  What the request builders and the handlers of the proving servers share: decimal strings become witness
  variables, a note with its key and its Merkle proof becomes the private part of an assignment, and the
  library's Poseidon gives the digests of the circuit's.
\<close>

subsection \<open>Witness variables\<close>

text \<open>
  A witness variable from a string: gnark reads it with the base its prefix names, and the assignment fails when
  it is no numeral. The public signals of a reply are read from the same strings by \<^verbatim>\<open>ParseBigInt\<close>, in base 10.
\<close>

definition var :: "string \<Rightarrow> fr option" where
  "var s = bigInt_SetString0 s"

definition ParseBigInt :: "string \<Rightarrow> int option" where
  "ParseBigInt s = bigInt_SetString s"

text \<open>A loop over the variables of an array.\<close>

definition vars :: "nat \<Rightarrow> string list \<Rightarrow> fr list option" where
  "vars n xs = mapM (\<lambda>i. do { s \<leftarrow> idx xs i; var s }) [0..<n]"

definition decimals :: "nat \<Rightarrow> string list \<Rightarrow> int list option" where
  "decimals n xs = mapM (\<lambda>i. do { s \<leftarrow> idx xs i; ParseBigInt s }) [0..<n]"

definition path_witness :: "string list \<Rightarrow> fr list option" where
  "path_witness es = mapM (\<lambda>j. do { s \<leftarrow> idx es j; var s }) [0..<8]"

text \<open>An encryption that returned: neither error nor panic.\<close>

definition sealed :: "('e + 'a) option \<Rightarrow> 'a option" where
  "sealed r = (case r of Some (Inr x) \<Rightarrow> Some x | _ \<Rightarrow> None)"

subsection \<open>Lemmas\<close>

lemma var_String [simp]: "var (bigInt_String n) = Some n"
  by (simp add: var_def SetString0_String)

lemma ParseBigInt_String [simp]: "ParseBigInt (bigInt_String n) = Some n"
  by (simp add: ParseBigInt_def SetString_String)

lemma vars_String: "length xs = n \<Longrightarrow> vars n (map bigInt_String xs) = Some xs"
proof -
  assume "length xs = n"
  moreover have "(\<lambda>i. do { s \<leftarrow> idx (map bigInt_String xs) i; var s }) = idx xs"
    by (rule ext) (simp add: idx_def)
  ultimately show ?thesis by (simp add: vars_def mapM_idx_take)
qed

lemma decimals_String: "length xs = n \<Longrightarrow> decimals n (map bigInt_String xs) = Some xs"
proof -
  assume "length xs = n"
  moreover have "(\<lambda>i. do { s \<leftarrow> idx (map bigInt_String xs) i; ParseBigInt s }) = idx xs"
    by (rule ext) (simp add: idx_def)
  ultimately show ?thesis by (simp add: decimals_def mapM_idx_take)
qed

lemma path_witness_vars: "path_witness = vars 8"
  by (rule ext) (simp add: path_witness_def vars_def)

lemma path_witness_String: "length es = 8 \<Longrightarrow> path_witness (map bigInt_String es) = Some es"
  by (simp add: path_witness_vars vars_String)

text \<open>The library's Poseidon and the circuit's give the same digest where the library gives one, on at most nine inputs: for more the circuit
  has no constants.\<close>

definition poseidon_agrees :: "client_hash \<Rightarrow> hasher \<Rightarrow> bool" where
  "poseidon_agrees H pos \<longleftrightarrow> (\<forall>xs h. length xs \<le> 9 \<longrightarrow> H xs = Some h \<longrightarrow> pos xs = Some h)"

lemma poseidon_agreesD: "poseidon_agrees H pos \<Longrightarrow> H xs = Some h \<Longrightarrow> length xs \<le> 9 \<Longrightarrow> pos xs = Some h"
  by (simp add: poseidon_agrees_def)

lemma merkle_path_agrees:
  "poseidon_agrees H pos \<Longrightarrow> merkle_path H c k ss = Some r \<Longrightarrow> merkle_path pos c k ss = Some r"
  by (rule merkle_path_agree) (simp_all add: poseidon_agrees_def hashes_agree_def)

text \<open>A key pair that owns a note, and a Merkle proof of that note.\<close>

definition proves_note :: "client_hash \<Rightarrow> nat \<Rightarrow> KeyPair \<Rightarrow> int \<Rightarrow> int \<Rightarrow> int \<Rightarrow> MerkleProof_data \<Rightarrow> bool" where
  "proves_note H d key salt value tokenId p \<longleftrightarrow> H [PrivateKey key] = Some (PublicKey key) \<and>
     0 \<le> Indices p \<and> Indices p < 2 ^ d \<and> length (Elements p) = d \<and>
     (case H [PublicKey key, salt, value, tokenId] of None \<Rightarrow> False
      | Some cm \<Rightarrow> merkle_path H cm (Indices p) (Elements p) = Some (Root p))"

lemma proves_note_from_tree:
  assumes "field_hash H" "mt_inv H keccak256 mt" "H [PrivateKey key] = Some (PublicKey key)"
    "H [PublicKey key, salt, value, tokenId] = Some cm" "cm \<in> set (tree mt ! 0)"
  shows "\<exists>p. GenerateProof mt cm = Some (Inr p) \<and> proves_note H (depth mt) key salt value tokenId p"
  using field_hash.GenerateProof_current [OF assms(1,2,5)] assms(3,4) by (auto simp: proves_note_def)

lemma index_canonical:
  assumes "proves_note H 8 key salt value tokenId p"
  shows "fv (Indices p) = Indices p" "0 \<le> Indices p" "Indices p < 256"
proof -
  show i: "0 \<le> Indices p" "Indices p < 256" using assms by (simp_all add: proves_note_def)
  then show "fv (Indices p) = Indices p" by (simp add: fv_def SNARK_SCALAR_FIELD_def)
qed

subsection \<open>Example notes\<close>

lemma sum_hash_Some: "\<exists>h. sum_hash xs = Some h"
  by (simp add: sum_hash_def)

lemma merkle_path_sum_hash: "\<exists>r. merkle_path sum_hash c k ss = Some r"
  by (induction ss arbitrary: c k) (simp_all add: sum_hash_def)

definition toy_key :: "int \<Rightarrow> KeyPair" where
  "toy_key sk = \<lparr>PrivateKey = sk, PublicKey = the (sum_hash [sk])\<rparr>"

definition toy_proof :: "int \<Rightarrow> int \<Rightarrow> int \<Rightarrow> int \<Rightarrow> MerkleProof_data" where
  "toy_proof sk salt v t = (let cm = the (sum_hash [PublicKey (toy_key sk), salt, v, t]) in
     \<lparr>Element = cm, Elements = replicate 8 0, Indices = 2, Root = the (merkle_path sum_hash cm 2 (replicate 8 0))\<rparr>)"

lemma toy_proves: "proves_note sum_hash 8 (toy_key sk) salt v t (toy_proof sk salt v t)"
proof -
  obtain pk where pk: "sum_hash [sk] = Some pk" using sum_hash_Some by blast
  obtain cm where cm: "sum_hash [pk, salt, v, t] = Some cm" using sum_hash_Some by blast
  obtain r where r: "merkle_path sum_hash cm 2 (replicate 8 0) = Some r" using merkle_path_sum_hash by blast
  show ?thesis by (simp add: proves_note_def toy_key_def toy_proof_def pk cm r)
qed

lemma toy_agrees: "poseidon_agrees sum_hash sum_hash"
  by (simp add: poseidon_agrees_def)

lemma toy_proof_length: "length (Elements (toy_proof sk salt v t)) = 8"
  by (simp add: toy_proof_def Let_def)

end
