(* ===== verification/Client_Dvp.thy ===== *)
theory Client_Dvp
  imports Client_Witness Dvp_Destination
begin

section \<open>The requests for the proofs of a delivery-versus-payment swap\<close>

text \<open>
  The client functions of \<^verbatim>\<open>enygma_dvp/src/core/prover_erc.go\<close> that build the two sides of a swap, and the
  handlers of the proving server (\<^verbatim>\<open>gnark_circuits/server/circuits/dvpInit\<close> and \<^verbatim>\<open>dvpDestination\<close>) that turn a
  request into a circuit assignment. A request is \<^verbatim>\<open>None\<close> when the client returns an error (or panics)
  before it sends one. Random bytes are arguments.
\<close>

subsection \<open>Requests and the server's assignments\<close>

record DvPInitiatorRequest =
  stMessage :: string
  stTreeNumber :: string
  stMerkleRoot :: string
  stNullifier :: string
  stCommitB :: string
  stCommitA :: string
  stRevertCommitA :: string
  wtSpendKeyIn :: string
  wtValueIn :: string
  wtSaltIn :: string
  wtTokenIdIn :: string
  wtPathElements :: "string list"
  wtPathIndex :: string
  wtSpendPkBob :: string
  wtSaltB :: string
  wtValueBob :: string
  wtTokenIdBob :: string
  wtSaltA :: string
  wtRevertSalt :: string

definition dvp_range :: fr where
  "dvp_range = 10 ^ 36"

definition dvpInit_witness :: "DvPInitiatorRequest \<Rightarrow> DvPInitiatorCircuit option" where
  "dvpInit_witness req = do {
     msg \<leftarrow> var (stMessage req); tree \<leftarrow> var (stTreeNumber req); root \<leftarrow> var (stMerkleRoot req);
     nf \<leftarrow> var (stNullifier req); cB \<leftarrow> var (stCommitB req); cA \<leftarrow> var (stCommitA req);
     rA \<leftarrow> var (stRevertCommitA req); sk \<leftarrow> var (wtSpendKeyIn req); value \<leftarrow> var (wtValueIn req);
     salt \<leftarrow> var (wtSaltIn req); token \<leftarrow> var (wtTokenIdIn req); path \<leftarrow> path_witness (wtPathElements req);
     index \<leftarrow> var (wtPathIndex req); pkBob \<leftarrow> var (wtSpendPkBob req); saltB \<leftarrow> var (wtSaltB req);
     valueBob \<leftarrow> var (wtValueBob req); tokenBob \<leftarrow> var (wtTokenIdBob req); saltA \<leftarrow> var (wtSaltA req);
     revert \<leftarrow> var (wtRevertSalt req);
     Some \<lparr>DvPInitiatorCircuit.Config = \<lparr>DvPInitiatorCircuitConfig.TmMerkleTreeDepth = 8, DvPInitiatorCircuitConfig.TmRange = dvp_range\<rparr>, DvPInitiatorCircuit.StMessage = msg, DvPInitiatorCircuit.StTreeNumber = tree, DvPInitiatorCircuit.StMerkleRoot = root,
       DvPInitiatorCircuit.StNullifier = nf, DvPInitiatorCircuit.StCommitB = cB, DvPInitiatorCircuit.StCommitA = cA, DvPInitiatorCircuit.StRevertCommitA = rA, DvPInitiatorCircuit.WtSpendKeyIn = sk, DvPInitiatorCircuit.WtValueIn = value,
       DvPInitiatorCircuit.WtSaltIn = salt, DvPInitiatorCircuit.WtTokenIdIn = token, DvPInitiatorCircuit.WtPathElements = path, DvPInitiatorCircuit.WtPathIndex = index, DvPInitiatorCircuit.WtSpendPkBob = pkBob,
       DvPInitiatorCircuit.WtSaltB = saltB, DvPInitiatorCircuit.WtValueBob = valueBob, DvPInitiatorCircuit.WtTokenIdBob = tokenBob, DvPInitiatorCircuit.WtSaltA = saltA, DvPInitiatorCircuit.WtRevertSalt = revert\<rparr> }"

record DvPDestinationRequest =
  d_stMessage :: string
  d_stTreeNumber :: string
  d_stMerkleRoot :: string
  d_stNullifier :: string
  d_stCommitA :: string
  d_wtSpendKeyIn :: string
  d_wtValueIn :: string
  d_wtSaltIn :: string
  d_wtTokenIdIn :: string
  d_wtPathElements :: "string list"
  d_wtPathIndex :: string
  d_wtSpendPkAlice :: string
  d_wtSaltA :: string
  d_wtSaltB :: string
  d_wtValueAlice :: string
  d_wtTokenIdAlice :: string

definition dvpDestination_witness :: "DvPDestinationRequest \<Rightarrow> DvPDestinationCircuit option" where
  "dvpDestination_witness req = do {
     msg \<leftarrow> var (d_stMessage req); tree \<leftarrow> var (d_stTreeNumber req); root \<leftarrow> var (d_stMerkleRoot req);
     nf \<leftarrow> var (d_stNullifier req); cA \<leftarrow> var (d_stCommitA req); sk \<leftarrow> var (d_wtSpendKeyIn req);
     value \<leftarrow> var (d_wtValueIn req); salt \<leftarrow> var (d_wtSaltIn req); token \<leftarrow> var (d_wtTokenIdIn req);
     path \<leftarrow> path_witness (d_wtPathElements req); index \<leftarrow> var (d_wtPathIndex req);
     pkAlice \<leftarrow> var (d_wtSpendPkAlice req); saltA \<leftarrow> var (d_wtSaltA req); saltB \<leftarrow> var (d_wtSaltB req);
     valueAlice \<leftarrow> var (d_wtValueAlice req); tokenAlice \<leftarrow> var (d_wtTokenIdAlice req);
     Some \<lparr>DvPDestinationCircuit.Config = \<lparr>TmMerkleTreeDepth = 8, TmRange = dvp_range\<rparr>, StMessage = msg, StTreeNumber = tree,
       StMerkleRoot = root, StNullifier = nf, StCommitA = cA, WtSpendKeyIn = sk, WtValueIn = value, WtSaltIn = salt,
       WtTokenIdIn = token, WtPathElements = path, WtPathIndex = index, WtSpendPkAlice = pkAlice, WtSaltA = saltA,
       WtSaltB = saltB, WtValueAlice = valueAlice, WtTokenIdAlice = tokenAlice\<rparr> }"

subsection \<open>Alice's side\<close>

record DvPInitiatorResult =
  Statement :: "int list"
  NumberOfInputs :: nat
  NumberOfOutputs :: nat
  res_CipherText :: "byte list"
  res_EncTxData :: "byte list"
  CommitB :: int
  CommitA :: int
  RevertCommitA :: int
  SaltA :: int

text \<open>What both initiator functions do once the two salts are known.\<close>

definition initiator_from_salts ::
  "client_hash \<Rightarrow> byte list \<Rightarrow> KeyPair \<Rightarrow> int \<Rightarrow> int \<Rightarrow> int \<Rightarrow> int \<Rightarrow> int \<Rightarrow> int \<Rightarrow> int \<Rightarrow> int \<Rightarrow> int \<Rightarrow> MerkleProof_data \<Rightarrow>
   nat \<Rightarrow> byte list \<Rightarrow> byte list \<Rightarrow> (DvPInitiatorRequest \<times> DvPInitiatorResult) option" where
  "initiator_from_salts H revertBytes aliceKey aliceSaltIn valueIn tokenIdIn bobSpendPk saltB valueBob tokenIdBob saltA
     treeNum merkleProof merkleDepth cipherText encTxData = do {
     let revertSalt = SaltBToField revertBytes;
     let pathIndex = Indices merkleProof;
     nf \<leftarrow> GetNullifierWithTree H (PrivateKey aliceKey) treeNum pathIndex merkleDepth;
     commitB \<leftarrow> client_Erc20CommitmentV2 H bobSpendPk saltB valueIn tokenIdIn;
     commitA \<leftarrow> client_Erc20CommitmentV2 H (PublicKey aliceKey) saltA valueBob tokenIdBob;
     revertCommitA \<leftarrow> client_Erc20CommitmentV2 H (PublicKey aliceKey) revertSalt valueIn tokenIdIn;
     pathElems \<leftarrow> mapM (idx (Elements merkleProof)) [0..<merkleDepth];
     let message = commitA;
     Some (\<lparr>stMessage = bigInt_String message, stTreeNumber = bigInt_String treeNum,
         stMerkleRoot = bigInt_String (Root merkleProof), stNullifier = bigInt_String nf, stCommitB = bigInt_String commitB,
         stCommitA = bigInt_String commitA, stRevertCommitA = bigInt_String revertCommitA,
         wtSpendKeyIn = bigInt_String (PrivateKey aliceKey), wtValueIn = bigInt_String valueIn,
         wtSaltIn = bigInt_String aliceSaltIn, wtTokenIdIn = bigInt_String tokenIdIn,
         wtPathElements = map bigInt_String pathElems, wtPathIndex = bigInt_String pathIndex,
         wtSpendPkBob = bigInt_String bobSpendPk, wtSaltB = bigInt_String saltB, wtValueBob = bigInt_String valueBob,
         wtTokenIdBob = bigInt_String tokenIdBob, wtSaltA = bigInt_String saltA, wtRevertSalt = bigInt_String revertSalt\<rparr>,
       \<lparr>Statement = [message, treeNum, Root merkleProof, nf, commitB, commitA, revertCommitA],
         NumberOfInputs = 1, NumberOfOutputs = 1, res_CipherText = cipherText, res_EncTxData = encTxData,
         CommitB = commitB, CommitA = commitA, RevertCommitA = revertCommitA, SaltA = saltA\<rparr>) }"

definition DvPInitiatorProof ::
  "('a) crypto_scheme \<Rightarrow> client_hash \<Rightarrow> byte list \<Rightarrow> byte list option \<Rightarrow> byte list \<Rightarrow> KeyPair \<Rightarrow> int \<Rightarrow> int \<Rightarrow> int \<Rightarrow> int \<Rightarrow>
   byte list \<Rightarrow> int \<Rightarrow> int \<Rightarrow> int \<Rightarrow> MerkleProof_data \<Rightarrow> nat \<Rightarrow> (DvPInitiatorRequest \<times> DvPInitiatorResult) option" where
  "DvPInitiatorProof cr H coins nonce revertBytes aliceKey aliceSaltIn valueIn tokenIdIn bobSpendPk bobViewEncapKey
     valueBob tokenIdBob treeNum merkleProof merkleDepth = (
     if \<not> ValidKey cr bobViewEncapKey then None
     else do {
       let (ss, cipherText) = Encapsulate cr bobViewEncapKey coins;
       let saltB = SaltBToField (DerivePaymentSalt cr ss);
       let saltA = SaltBToField (DeriveDvpSaltInit cr ss);
       encTxData \<leftarrow> sealed (EncryptNotePayload cr nonce (DerivePaymentKey cr ss) tokenIdIn valueIn);
       initiator_from_salts H revertBytes aliceKey aliceSaltIn valueIn tokenIdIn bobSpendPk saltB valueBob tokenIdBob saltA
         treeNum merkleProof merkleDepth cipherText encTxData })"

definition DvPInitiatorProofFromSalts ::
  "client_hash \<Rightarrow> byte list \<Rightarrow> KeyPair \<Rightarrow> int \<Rightarrow> int \<Rightarrow> int \<Rightarrow> int \<Rightarrow> int \<Rightarrow> int \<Rightarrow> int \<Rightarrow> int \<Rightarrow> int \<Rightarrow> MerkleProof_data \<Rightarrow> nat \<Rightarrow>
   (DvPInitiatorRequest \<times> DvPInitiatorResult) option" where
  "DvPInitiatorProofFromSalts H revertBytes aliceKey aliceSaltIn valueIn tokenIdIn bobSpendPk saltB valueBob tokenIdBob saltA
     treeNum merkleProof merkleDepth =
     initiator_from_salts H revertBytes aliceKey aliceSaltIn valueIn tokenIdIn bobSpendPk saltB valueBob tokenIdBob saltA
       treeNum merkleProof merkleDepth [] []"

record ZkDvpSwapInitResult =
  AliceNullifier :: int
  init_CommitmentB :: int
  init_CommitmentA :: int
  init_CipherText :: "byte list"
  init_EncTxData :: "byte list"
  init_SaltStar :: "byte list"
  SaltStarField :: int

definition ZkDvpInitiateSwap ::
  "('a) note_crypto_scheme \<Rightarrow> client_hash \<Rightarrow> byte list \<Rightarrow> byte list option \<Rightarrow> byte list \<Rightarrow> byte list \<Rightarrow> KeyPair \<Rightarrow> int \<Rightarrow> int \<Rightarrow>
   int \<Rightarrow> int \<Rightarrow> byte list \<Rightarrow> int \<Rightarrow> int \<Rightarrow> nat \<Rightarrow> MerkleProof_data option \<Rightarrow> int \<Rightarrow>
   (DvPInitiatorRequest \<times> ZkDvpSwapInitResult) option" where
  "ZkDvpInitiateSwap cr H coins nonce saltStar revertBytes aliceKey aliceSaltIn amountIn tokenIdIn bobSpendPk bobViewEncapKey
     tokenIdOut amountOut merkleDepth merkleProof treeNum = (
     if \<not> ValidKey cr bobViewEncapKey then None
     else do {
       let (ss, cipherText) = Encapsulate cr bobViewEncapKey coins;
       let saltBField = SaltBToField (DerivePaymentSalt cr ss);
       commitmentB \<leftarrow> client_Erc20CommitmentV2 H bobSpendPk saltBField amountIn tokenIdIn;
       let saltStarField = SaltBToField saltStar;
       commitmentA \<leftarrow> client_Erc20CommitmentV2 H (PublicKey aliceKey) saltStarField amountOut tokenIdOut;
       encTxData \<leftarrow> sealed (EncryptSwapPayload cr nonce (DerivePaymentKey cr ss) tokenIdOut amountOut saltStar);
       let (pathIndices, pathElements, merkleRoot) = (case merkleProof of
           Some p \<Rightarrow> (Indices p, Elements p, Root p)
         | None \<Rightarrow> (0, replicate merkleDepth 0, 0));
       nullifier \<leftarrow> GetNullifierWithTree H (PrivateKey aliceKey) treeNum pathIndices merkleDepth;
       let revertSalt = RandomInField revertBytes;
       revertCommit \<leftarrow> client_Erc20CommitmentV2 H (PublicKey aliceKey) revertSalt amountIn tokenIdIn;
       let saltAField = SaltBToField (DeriveDvpSaltInit cr ss);
       pathElems \<leftarrow> mapM (\<lambda>j. if j < merkleDepth then map_option bigInt_String (idx pathElements j) else Some []) [0..<8];
       Some (\<lparr>stMessage = bigInt_String commitmentB, stTreeNumber = bigInt_String treeNum,
           stMerkleRoot = bigInt_String merkleRoot, stNullifier = bigInt_String nullifier,
           stCommitB = bigInt_String commitmentB, stCommitA = bigInt_String commitmentA,
           stRevertCommitA = bigInt_String revertCommit, wtSpendKeyIn = bigInt_String (PrivateKey aliceKey),
           wtValueIn = bigInt_String amountIn, wtSaltIn = bigInt_String aliceSaltIn, wtTokenIdIn = bigInt_String tokenIdIn,
           wtPathElements = pathElems, wtPathIndex = bigInt_String pathIndices, wtSpendPkBob = bigInt_String bobSpendPk,
           wtSaltB = bigInt_String saltBField, wtValueBob = bigInt_String amountOut, wtTokenIdBob = bigInt_String tokenIdOut,
           wtSaltA = bigInt_String saltAField, wtRevertSalt = bigInt_String revertSalt\<rparr>,
         \<lparr>AliceNullifier = nullifier, init_CommitmentB = commitmentB, init_CommitmentA = commitmentA,
           init_CipherText = cipherText, init_EncTxData = encTxData, init_SaltStar = saltStar, SaltStarField = saltStarField\<rparr>) })"

subsection \<open>Bob's side\<close>

definition DvPDestinationProof ::
  "client_hash \<Rightarrow> KeyPair \<Rightarrow> int \<Rightarrow> int \<Rightarrow> int \<Rightarrow> int \<Rightarrow> int \<Rightarrow> int \<Rightarrow> int \<Rightarrow> int \<Rightarrow> int \<Rightarrow> int \<Rightarrow> MerkleProof_data \<Rightarrow> nat \<Rightarrow>
   (DvPDestinationRequest \<times> int list) option" where
  "DvPDestinationProof H bobKey bobSaltIn valueIn tokenIdIn aliceSpendPk saltA saltB valueAlice tokenIdAlice commitA
     treeNum merkleProof merkleDepth = do {
     let pathIndex = Indices merkleProof;
     nf \<leftarrow> GetNullifierWithTree H (PrivateKey bobKey) treeNum pathIndex merkleDepth;
     commitB \<leftarrow> client_Erc20CommitmentV2 H (PublicKey bobKey) saltB valueAlice tokenIdAlice;
     pathElems \<leftarrow> mapM (idx (Elements merkleProof)) [0..<merkleDepth];
     Some (\<lparr>d_stMessage = bigInt_String commitB, d_stTreeNumber = bigInt_String treeNum,
         d_stMerkleRoot = bigInt_String (Root merkleProof), d_stNullifier = bigInt_String nf, d_stCommitA = bigInt_String commitA,
         d_wtSpendKeyIn = bigInt_String (PrivateKey bobKey), d_wtValueIn = bigInt_String valueIn,
         d_wtSaltIn = bigInt_String bobSaltIn, d_wtTokenIdIn = bigInt_String tokenIdIn,
         d_wtPathElements = map bigInt_String pathElems, d_wtPathIndex = bigInt_String pathIndex,
         d_wtSpendPkAlice = bigInt_String aliceSpendPk, d_wtSaltA = bigInt_String saltA, d_wtSaltB = bigInt_String saltB,
         d_wtValueAlice = bigInt_String valueAlice, d_wtTokenIdAlice = bigInt_String tokenIdAlice\<rparr>,
       [commitB, treeNum, Root merkleProof, nf, commitA]) }"

subsection \<open>Lemmas\<close>

lemma initiator_witness:
  assumes "initiator_from_salts H rb key saltIn v t pkB saltB vB tB saltA tr p 8 ct enc = Some (req, res)"
    and "length (Elements p) = 8"
  obtains c nf cB cA rA where "dvpInit_witness req = Some c"
    "H [PrivateKey key, tr * 256 + Indices p] = Some nf" "H [pkB, saltB, v, t] = Some cB" "H [PublicKey key, saltA, vB, tB] = Some cA"
    "H [PublicKey key, SaltBToField rb, v, t] = Some rA"
    "c = DvPInitiatorCircuit.make (DvPInitiatorCircuitConfig.make 8 dvp_range) cA tr (Root p) nf cB cA rA (PrivateKey key) v saltIn t
       (Elements p) (Indices p) pkB saltB vB tB saltA (SaltBToField rb)"
    "Statement res = [cA, tr, Root p, nf, cB, cA, rA]" "CommitA res = cA" "CommitB res = cB" "SaltA res = saltA"
    "res_CipherText res = ct" "res_EncTxData res = enc"
proof -
  from assms obtain nf cB cA rA where h: "H [PrivateKey key, tr * 256 + Indices p] = Some nf" "H [pkB, saltB, v, t] = Some cB"
    "H [PublicKey key, saltA, vB, tB] = Some cA" "H [PublicKey key, SaltBToField rb, v, t] = Some rA"
    by (auto simp: initiator_from_salts_def GetNullifierWithTree_def client_Erc20CommitmentV2_def Let_def bind_eq_Some_conv)
  show ?thesis
    by (rule that [OF _ h refl])
      (use assms h in \<open>auto simp: initiator_from_salts_def GetNullifierWithTree_def client_Erc20CommitmentV2_def Let_def mapM_idx_take
        dvpInit_witness_def path_witness_String DvPInitiatorCircuit.make_def DvPInitiatorCircuitConfig.make_def\<close>)
qed

text \<open>The request fits the circuit except for the nullifier, which the client derives from the tree as well.\<close>

lemma initiator_accepted:
  assumes "gnark api" "poseidon_agrees H pos" "proves_note H 8 key saltIn v t p"
    and "0 \<le> v" "v < dvp_range" "0 \<le> vB" "vB < dvp_range" "0 \<le> tr" "tr < 2 ^ 240"
    and r: "initiator_from_salts H rb key saltIn v t pkB saltB vB tB saltA tr p 8 ct enc = Some (req, res)"
  shows "\<exists>c. dvpInit_witness req = Some c \<and>
    (DvPInitiatorCircuit_Define api pos c = Some () \<longleftrightarrow>
      tr = 0 \<or> collides pos [PrivateKey key, Indices p] [PrivateKey key, tr * 256 + Indices p])"
proof -
  have len: "length (Elements p) = 8" using assms(3) by (simp add: proves_note_def)
  from r len obtain c nf cB cA rA where c: "dvpInit_witness req = Some c"
    and h: "H [PrivateKey key, tr * 256 + Indices p] = Some nf" "H [pkB, saltB, v, t] = Some cB" "H [PublicKey key, saltA, vB, tB] = Some cA"
      "H [PublicKey key, SaltBToField rb, v, t] = Some rA"
    and ceq: "c = DvPInitiatorCircuit.make (DvPInitiatorCircuitConfig.make 8 dvp_range) cA tr (Root p) nf cB cA rA (PrivateKey key) v saltIn t
       (Elements p) (Indices p) pkB saltB vB tB saltA (SaltBToField rb)"
    by (rule initiator_witness)
  note pos = h [THEN poseidon_agreesD [OF assms(2)]]
  from assms(3) obtain cm where cm: "H [PublicKey key, saltIn, v, t] = Some cm" "merkle_path H cm (Indices p) (Elements p) = Some (Root p)"
    and pk: "H [PrivateKey key] = Some (PublicKey key)" by (auto simp: proves_note_def split: option.splits)
  note note_pos = pk [THEN poseidon_agreesD [OF assms(2)]] cm(1) [THEN poseidon_agreesD [OF assms(2)]] merkle_path_agrees [OF assms(2) cm(2)]
  note ix = index_canonical [OF assms(3)]
  have range: "fv v < fv dvp_range" "fv vB < fv dvp_range"
    using assms(4-7) by (simp_all add: fv_def dvp_range_def SNARK_SCALAR_FIELD_def)
  have g: "fv (tr * 256 + Indices p) = tr * 256 + Indices p"
    using assms(8,9) ix(2,3) by (intro fv_id) (simp_all add: SNARK_SCALAR_FIELD_def)
  have "DvPInitiatorCircuit_Define api pos c = Some () \<longleftrightarrow> initiator_spec pos c"
    by (rule gnark.DvPInitiatorCircuit_Define_iff [OF assms(1)]) (simp add: ceq DvPInitiatorCircuit.make_def DvPInitiatorCircuitConfig.make_def)
  also have "\<dots> \<longleftrightarrow> hashes_to pos [PrivateKey key, Indices p] nf"
    using pos note_pos range len ix
    by (simp add: initiator_spec_def spends_eval hashes_to_def ceq DvPInitiatorCircuit.make_def DvPInitiatorCircuitConfig.make_def split: option.splits)
  also have "\<dots> \<longleftrightarrow> tr = 0 \<or> collides pos [PrivateKey key, Indices p] [PrivateKey key, tr * 256 + Indices p]"
    using pos(1) g ix(1) by (cases "tr = 0") (auto simp: collides_def hashes_to_iff)
  finally show ?thesis using c by blast
qed

lemma DvPInitiatorProof_Some:
  assumes "DvPInitiatorProof cr H coins nonce rb key saltIn v t pkB ek vB tB tr p d = Some (req, res)" "Encapsulate cr ek coins = (ss, ct)"
  obtains enc where "EncryptNotePayload cr nonce (DerivePaymentKey cr ss) t v = Some (Inr enc)"
    "initiator_from_salts H rb key saltIn v t pkB (SaltBToField (DerivePaymentSalt cr ss)) vB tB (SaltBToField (DeriveDvpSaltInit cr ss))
       tr p d ct enc = Some (req, res)"
  using assms by (auto simp: DvPInitiatorProof_def sealed_def bind_eq_Some_conv split: if_splits option.splits sum.splits)

lemma destination_witness:
  assumes "DvPDestinationProof H key saltIn v t pkA saltA saltB vA tA cA tr p 8 = Some (req, stmt)" "length (Elements p) = 8"
  obtains c nf cB where "dvpDestination_witness req = Some c" "H [PrivateKey key, tr * 256 + Indices p] = Some nf"
    "H [PublicKey key, saltB, vA, tA] = Some cB" "stmt = [cB, tr, Root p, nf, cA]"
    "c = DvPDestinationCircuit.make (DvPDestinationCircuitConfig.make 8 dvp_range) cB tr (Root p) nf cA (PrivateKey key) v saltIn t
       (Elements p) (Indices p) pkA saltA saltB vA tA"
proof -
  from assms obtain nf cB where h: "H [PrivateKey key, tr * 256 + Indices p] = Some nf" "H [PublicKey key, saltB, vA, tA] = Some cB"
    by (auto simp: DvPDestinationProof_def GetNullifierWithTree_def client_Erc20CommitmentV2_def Let_def bind_eq_Some_conv)
  show ?thesis
    by (rule that [OF _ h _ refl])
      (use assms h in \<open>auto simp: DvPDestinationProof_def GetNullifierWithTree_def client_Erc20CommitmentV2_def Let_def mapM_idx_take
        dvpDestination_witness_def path_witness_String DvPDestinationCircuit.make_def DvPDestinationCircuitConfig.make_def\<close>)
qed

lemma destination_accepted:
  assumes "gnark api" "poseidon_agrees H pos" "proves_note H 8 key saltIn v t p"
    and "0 \<le> v" "v < dvp_range" "0 \<le> vA" "vA < dvp_range" "H [pkA, saltA, v, t] = Some cA"
    and r: "DvPDestinationProof H key saltIn v t pkA saltA saltB vA tA cA 0 p 8 = Some (req, stmt)"
  shows "\<exists>c. dvpDestination_witness req = Some c \<and> DvPDestinationCircuit_Define api pos c = Some ()"
proof -
  have len: "length (Elements p) = 8" using assms(3) by (simp add: proves_note_def)
  from r len obtain c nf cB where c: "dvpDestination_witness req = Some c"
    and h: "H [PrivateKey key, 0 * 256 + Indices p] = Some nf" "H [PublicKey key, saltB, vA, tA] = Some cB"
    and ceq: "c = DvPDestinationCircuit.make (DvPDestinationCircuitConfig.make 8 dvp_range) cB 0 (Root p) nf cA (PrivateKey key) v saltIn t
       (Elements p) (Indices p) pkA saltA saltB vA tA"
    by (rule destination_witness)
  note pos = h [THEN poseidon_agreesD [OF assms(2)]] poseidon_agreesD [OF assms(2,8)]
  from assms(3) obtain cm where cm: "H [PublicKey key, saltIn, v, t] = Some cm" "merkle_path H cm (Indices p) (Elements p) = Some (Root p)"
    and pk: "H [PrivateKey key] = Some (PublicKey key)" by (auto simp: proves_note_def split: option.splits)
  note note_pos = pk [THEN poseidon_agreesD [OF assms(2)]] cm(1) [THEN poseidon_agreesD [OF assms(2)]] merkle_path_agrees [OF assms(2) cm(2)]
  have range: "fv v < fv dvp_range" "fv vA < fv dvp_range"
    using assms(4-7) by (simp_all add: fv_def dvp_range_def SNARK_SCALAR_FIELD_def)
  have "destination_spec pos c"
    using pos note_pos range len index_canonical [OF assms(3)]
    by (simp add: destination_spec_def spends_eval hashes_to_def ceq DvPDestinationCircuit.make_def DvPDestinationCircuitConfig.make_def)
  then have "DvPDestinationCircuit_Define api pos c = Some ()"
    using gnark.DvPDestinationCircuit_Define_iff [OF assms(1), of c pos]
    by (simp add: ceq DvPDestinationCircuit.make_def DvPDestinationCircuitConfig.make_def)
  with c show ?thesis by blast
qed

lemma ZkDvpInitiateSwap_Some:
  assumes "ZkDvpInitiateSwap cr H coins nonce saltStar rb key saltIn v t pkB ek tOut aOut d mp tr = Some (req, res)"
    "Encapsulate cr ek coins = (ss, ct)"
  shows "H [pkB, SaltBToField (DerivePaymentSalt cr ss), v, t] = Some (init_CommitmentB res)"
    "H [PublicKey key, SaltBToField saltStar, aOut, tOut] = Some (init_CommitmentA res)"
    "init_CipherText res = ct"
    "stMessage req = bigInt_String (init_CommitmentB res)" "stCommitA req = bigInt_String (init_CommitmentA res)"
    "wtSpendKeyIn req = bigInt_String (PrivateKey key)" "wtSaltA req = bigInt_String (SaltBToField (DeriveDvpSaltInit cr ss))"
    "wtValueBob req = bigInt_String aOut" "wtTokenIdBob req = bigInt_String tOut"
proof -
  obtain ix els root where m: "(case mp of Some p \<Rightarrow> (Indices p, Elements p, Root p) | None \<Rightarrow> (0, replicate d 0, 0)) = (ix, els, root)"
    by (meson prod_cases3)
  note z = assms(1) [unfolded ZkDvpInitiateSwap_def assms(2) m Let_def prod.case client_Erc20CommitmentV2_def]
  show "H [pkB, SaltBToField (DerivePaymentSalt cr ss), v, t] = Some (init_CommitmentB res)"
    "H [PublicKey key, SaltBToField saltStar, aOut, tOut] = Some (init_CommitmentA res)"
    "init_CipherText res = ct"
    "stMessage req = bigInt_String (init_CommitmentB res)" "stCommitA req = bigInt_String (init_CommitmentA res)"
    "wtSpendKeyIn req = bigInt_String (PrivateKey key)" "wtSaltA req = bigInt_String (SaltBToField (DeriveDvpSaltInit cr ss))"
    "wtValueBob req = bigInt_String aOut" "wtTokenIdBob req = bigInt_String tOut"
    using z by (auto simp: bind_eq_Some_conv split: if_splits)
qed

lemma dvpInit_witness_fields:
  assumes "dvpInit_witness req = Some c"
  shows "var (stMessage req) = Some (DvPInitiatorCircuit.StMessage c)" "var (stCommitA req) = Some (DvPInitiatorCircuit.StCommitA c)"
    "var (wtSpendKeyIn req) = Some (DvPInitiatorCircuit.WtSpendKeyIn c)" "var (wtSaltA req) = Some (DvPInitiatorCircuit.WtSaltA c)"
    "var (wtValueBob req) = Some (WtValueBob c)" "var (wtTokenIdBob req) = Some (WtTokenIdBob c)"
    "DvPInitiatorCircuitConfig.TmMerkleTreeDepth (DvPInitiatorCircuit.Config c) = 8"
  using assms by (auto simp: dvpInit_witness_def bind_eq_Some_conv)

subsection \<open>An example\<close>

text \<open>Alice has 50 of token 9 and Bob 70 of token 10, each in a tree with empty siblings.\<close>

lemma toy_initiator:
  assumes "0 \<le> t" "0 \<le> v" "t < 2 ^ 256" "v < 2 ^ 256" "length (Elements p) = 8"
  shows "\<exists>req res. DvPInitiatorProof toy_note_crypto sum_hash toy_secret (Some (replicate 12 0)) rb (toy_key sk) salt v t pkB ek vB tB tr
    p 8 = Some (req, res)"
proof -
  have "ValidKey toy_note_crypto ek" by (simp add: toy_note_crypto_def)
  then show ?thesis
    using toy_enc_sent [OF assms(1-4)] assms(5)
    by (simp add: DvPInitiatorProof_def toy_capsule_sent initiator_from_salts_def GetNullifierWithTree_def
        client_Erc20CommitmentV2_def sealed_def sum_hash_def mapM_idx_take Let_def)
qed

subsection \<open>Properties\<close>

text \<open>
  The initiator's request and the circuit agree on the first tree only. For a note of the client's current tree
  (with the proof that the tree generates), the assignment that the server builds from the request
  satisfies the initiator circuit exactly when the tree number is 0, or Poseidon collides: the client hashes
  \<^verbatim>\<open>treeNumber * 256 + index\<close> into the nullifier and the circuit only the index. After the first
  roll-over no honest swap can be proved.
\<close>

theorem dvp_initiator_request_accepted:
  assumes "gnark api" "poseidon_agrees H pos" "field_hash H" "mt_inv H keccak256 mt" "depth mt = 8" "treeNumber mt < 2 ^ 240"
    and "H [PrivateKey key] = Some (PublicKey key)" "H [PublicKey key, saltIn, v, t] = Some cm" "cm \<in> set (tree mt ! 0)"
    and "GenerateProof mt cm = Some (Inr p)"
    and "0 \<le> v" "v < dvp_range" "0 \<le> vB" "vB < dvp_range"
    and "DvPInitiatorProof cr H coins nonce rb key saltIn v t pkB ek vB tB (int (treeNumber mt)) p 8 = Some (req, res)"
  shows "\<exists>c. dvpInit_witness req = Some c \<and>
    (DvPInitiatorCircuit_Define api pos c = Some () \<longleftrightarrow>
      treeNumber mt = 0 \<or> collides pos [PrivateKey key, Indices p] [PrivateKey key, int (treeNumber mt) * 256 + Indices p])"
proof -
  have p: "proves_note H 8 key saltIn v t p"
    using proves_note_from_tree [OF assms(3,4,7-9)] assms(5,10) by simp
  obtain ss ct where "Encapsulate cr ek coins = (ss, ct)" by (meson surj_pair)
  with assms(15) obtain enc where
    "initiator_from_salts H rb key saltIn v t pkB (SaltBToField (DerivePaymentSalt cr ss)) vB tB (SaltBToField (DeriveDvpSaltInit cr ss))
       (int (treeNumber mt)) p 8 ct enc = Some (req, res)"
    by (rule DvPInitiatorProof_Some)
  from initiator_accepted [OF assms(1,2) p assms(11-14) _ _ this] assms(6) show ?thesis by simp
qed

theorem dvp_initiator_request_accepted_witness:
  "\<exists>mt p req res c. mt_inv sum_hash keccak_seven mt \<and> treeNumber mt = 0 \<and> GenerateProof mt (the (sum_hash [PublicKey (toy_key 3), 11, 50, 9])) = Some (Inr p) \<and>
     DvPInitiatorProof toy_note_crypto sum_hash toy_secret (Some (replicate 12 0)) [] (toy_key 3) 11 50 9 35 [] 70 10 0 p 8 = Some (req, res) \<and>
     dvpInit_witness req = Some c \<and> DvPInitiatorCircuit_Define fr_api sum_hash c = Some ()"
proof -
  obtain cm where cm: "sum_hash [PublicKey (toy_key 3), 11, 50, 9] = Some cm" "canonical [cm]"
    by (simp add: sum_hash_def canonical_def)
  obtain mt0 where mt0: "mt_inv sum_hash keccak_seven mt0" "tree mt0 ! 0 = []" "depth mt0 = 8" "prevTrees mt0 = []"
    using field_hash.NewMerkleTree_inv [OF sum_hash_field_hash, of 8 keccak_seven] by (auto simp: NewMerkleTree_def bind_eq_Some_conv)
  obtain mt where mt: "mt_inv sum_hash keccak_seven mt" "depth mt = 8" "tree mt ! 0 = [cm]" "prevTrees mt = []"
    using field_hash.InsertLeaves_ok [OF sum_hash_field_hash mt0(1), of "[cm]"] mt0 cm(2) by auto
  then have n: "treeNumber mt = 0" by (simp add: mt_inv_def)
  obtain p where p: "GenerateProof mt cm = Some (Inr p)" "length (Elements p) = 8"
    using field_hash.GenerateProof_current [OF sum_hash_field_hash mt(1), of cm] mt by auto
  obtain req res where r: "DvPInitiatorProof toy_note_crypto sum_hash toy_secret (Some (replicate 12 0)) [] (toy_key 3) 11 50 9 35 [] 70 10 (int (treeNumber mt)) p 8 = Some (req, res)"
    using toy_initiator [of 9 50 p] p(2) by fastforce
  have "sum_hash [PrivateKey (toy_key 3)] = Some (PublicKey (toy_key 3))" by (simp add: toy_key_def sum_hash_def)
  note key = this
  have "treeNumber mt < 2 ^ 240" "cm \<in> set (tree mt ! 0)" "(0 :: int) \<le> 50" "(0 :: int) \<le> 70" "50 < dvp_range" "70 < dvp_range"
    by (simp_all add: mt n dvp_range_def)
  from dvp_initiator_request_accepted [OF gnark_fr_api toy_agrees sum_hash_field_hash mt(1,2) this(1) key cm(1) this(2) p(1) this(3,5,4,6) r]
  obtain c where "dvpInit_witness req = Some c" "DvPInitiatorCircuit_Define fr_api sum_hash c = Some ()" using n by blast
  with mt(1) n p(1) r cm(1) show ?thesis
    by (intro exI [of _ mt] exI [of _ p] exI [of _ req] exI [of _ res] exI [of _ c]) simp
qed

text \<open>
  C16. The two sides of a swap meet. From the capsule and the payload that Alice publishes Bob recovers her secret,
  the token and the amount she delivers, and with the values he derives his own request succeeds. In the first
  tree of each vault both requests satisfy their circuits, Alice's message is the commitment that Bob's
  proof creates, and Bob's message is the commitment that Alice's proof creates, which is what the settlement
  compares.
\<close>

theorem dvp_swap_requests_match:
  assumes "gnark api" "poseidon_agrees H pos" "kem_correct cr ek dk" "note_aead cr" "length nonce = 12"
    and "proves_note H 8 aliceKey aliceSalt v t pA" "proves_note H 8 bobKey bobSalt vB tB pB"
    and "0 \<le> v" "v < dvp_range" "0 \<le> vB" "vB < dvp_range" "0 \<le> t" "H [PrivateKey bobKey, Indices pB] \<noteq> None"
    and "DvPInitiatorProof cr H coins (Some nonce) rb aliceKey aliceSalt v t (PublicKey bobKey) ek vB tB 0 pA 8 = Some (reqA, res)"
  shows "\<exists>ss reqB stmtB cA cB. Decapsulate cr dk (res_CipherText res) = Some ss \<and>
    DecryptNotePayload cr (DerivePaymentKey cr ss) (res_EncTxData res) = Inr (t, v) \<and>
    DvPDestinationProof H bobKey bobSalt vB tB (PublicKey aliceKey) (SaltBToField (DeriveDvpSaltInit cr ss))
      (SaltBToField (DerivePaymentSalt cr ss)) v t (CommitA res) 0 pB 8 = Some (reqB, stmtB) \<and>
    dvpInit_witness reqA = Some cA \<and> DvPInitiatorCircuit_Define api pos cA = Some () \<and>
    dvpDestination_witness reqB = Some cB \<and> DvPDestinationCircuit_Define api pos cB = Some () \<and>
    Statement res ! 0 = stmtB ! 4 \<and> stmtB ! 0 = Statement res ! 4"
proof -
  obtain ss ct where e: "Encapsulate cr ek coins = (ss, ct)" by (meson surj_pair)
  with assms(14) obtain enc where enc: "EncryptNotePayload cr (Some nonce) (DerivePaymentKey cr ss) t v = Some (Inr enc)"
    and i: "initiator_from_salts H rb aliceKey aliceSalt v t (PublicKey bobKey) (SaltBToField (DerivePaymentSalt cr ss)) vB tB
       (SaltBToField (DeriveDvpSaltInit cr ss)) 0 pA 8 ct enc = Some (reqA, res)"
    by (rule DvPInitiatorProof_Some)
  have len: "length (Elements pA) = 8" "length (Elements pB) = 8" using assms(6,7) by (simp_all add: proves_note_def)
  from i len(1) obtain nf comB comA where h: "H [PublicKey bobKey, SaltBToField (DerivePaymentSalt cr ss), v, t] = Some comB"
      "H [PublicKey aliceKey, SaltBToField (DeriveDvpSaltInit cr ss), vB, tB] = Some comA"
    and r: "Statement res ! 0 = comA" "Statement res ! 4 = comB" "CommitA res = comA" "res_CipherText res = ct" "res_EncTxData res = enc"
    by (rule initiator_witness) simp
  have d: "Decapsulate cr dk ct = Some ss" using assms(3) e unfolding kem_correct_def by (metis fst_conv snd_conv)
  have x: "DecryptNotePayload cr (DerivePaymentKey cr ss) enc = Inr (t, v)"
    using decrypt_encrypt_note [OF assms(4,5) enc] assms(8,12) by simp
  from assms(13) h(1) len(2) obtain reqB stmtB where b: "DvPDestinationProof H bobKey bobSalt vB tB (PublicKey aliceKey)
      (SaltBToField (DeriveDvpSaltInit cr ss)) (SaltBToField (DerivePaymentSalt cr ss)) v t comA 0 pB 8 = Some (reqB, stmtB)"
    "stmtB ! 0 = comB" "stmtB ! 4 = comA"
    by (auto simp: DvPDestinationProof_def GetNullifierWithTree_def client_Erc20CommitmentV2_def Let_def mapM_idx_take)
  from initiator_accepted [OF assms(1,2,6,8-11) _ _ i] obtain cA where "dvpInit_witness reqA = Some cA"
    "DvPInitiatorCircuit_Define api pos cA = Some ()" by auto
  moreover from destination_accepted [OF assms(1,2,7,10,11,8,9) h(2) b(1)] obtain cB where "dvpDestination_witness reqB = Some cB"
    "DvPDestinationCircuit_Define api pos cB = Some ()" by auto
  ultimately show ?thesis using d x b r by metis
qed

theorem dvp_swap_requests_match_witness:
  "\<exists>reqA res ss. DvPInitiatorProof toy_note_crypto sum_hash toy_secret (Some (replicate 12 0)) [] (toy_key 3) 11 50 9
      (PublicKey (toy_key 4)) [] 70 10 0 (toy_proof 3 11 50 9) 8 = Some (reqA, res) \<and>
    DecryptNotePayload toy_note_crypto (DerivePaymentKey toy_note_crypto ss) (res_EncTxData res) = Inr (9, 50)"
proof -
  obtain reqA res where r: "DvPInitiatorProof toy_note_crypto sum_hash toy_secret (Some (replicate 12 0)) [] (toy_key 3) 11 50 9
      (PublicKey (toy_key 4)) [] 70 10 0 (toy_proof 3 11 50 9) 8 = Some (reqA, res)"
    using toy_initiator [of 9 50, OF _ _ _ _ toy_proof_length] by fastforce
  have "(0 :: int) \<le> 50" "50 < dvp_range" "(0 :: int) \<le> 70" "70 < dvp_range" "(0 :: int) \<le> 9"
    "sum_hash [PrivateKey (toy_key 4), Indices (toy_proof 4 12 70 10)] \<noteq> None" "length (replicate 12 (0 :: byte)) = 12"
    by (simp_all add: dvp_range_def sum_hash_def)
  from dvp_swap_requests_match [OF gnark_fr_api toy_agrees toy_note_crypto_laws(3,1) this(7) toy_proves toy_proves this(1-6) r]
  show ?thesis using r by blast
qed

text \<open>
  The older swap request cannot be proved. \<^verbatim>\<open>ZkDvpInitiateSwap\<close> commits to what Alice receives with a fresh salt but
  sends the circuit the salt derived from the shared secret, and sets the message to the commitment for Bob
  where the circuit wants the one for Alice. A satisfying assignment would need the two salts to agree (or a
  collision), and the two commitments to have the same value.
\<close>

theorem zkdvp_request_unprovable:
  assumes "gnark api" "poseidon_agrees H pos" "H [PrivateKey key] = Some (PublicKey key)" "Encapsulate cr ek coins = (ss, ct)"
    and "ZkDvpInitiateSwap cr H coins nonce saltStar rb key saltIn v t pkB ek tOut aOut d mp tr = Some (req, res)"
    and "dvpInit_witness req = Some c" "DvPInitiatorCircuit_Define api pos c = Some ()"
  shows "(SaltBToField saltStar = SaltBToField (DeriveDvpSaltInit cr ss) \<or>
      collides pos [PublicKey key, SaltBToField saltStar, aOut, tOut] [PublicKey key, SaltBToField (DeriveDvpSaltInit cr ss), aOut, tOut]) \<and>
    fv (init_CommitmentB res) = fv (init_CommitmentA res)"
proof -
  note z = ZkDvpInitiateSwap_Some [OF assms(5,4)] and f = dvpInit_witness_fields [OF assms(6)]
  have c: "DvPInitiatorCircuit.StMessage c = init_CommitmentB res" "DvPInitiatorCircuit.StCommitA c = init_CommitmentA res"
    "DvPInitiatorCircuit.WtSpendKeyIn c = PrivateKey key" "DvPInitiatorCircuit.WtSaltA c = SaltBToField (DeriveDvpSaltInit cr ss)"
    "WtValueBob c = aOut" "WtTokenIdBob c = tOut"
    using f(1-6) unfolding z var_String by simp_all
  have "initiator_spec pos c"
    using gnark.DvPInitiatorCircuit_Define_iff [OF assms(1)] assms(7) f(7) by simp
  then have s: "fv (init_CommitmentB res) = fv (init_CommitmentA res)"
    "hashes_to pos [PublicKey key, SaltBToField (DeriveDvpSaltInit cr ss), aOut, tOut] (init_CommitmentA res)"
    using poseidon_agreesD [OF assms(2,3)] by (auto simp: initiator_spec_def spends_def c)
  have "hashes_to pos [PublicKey key, SaltBToField saltStar, aOut, tOut] (init_CommitmentA res)"
    using poseidon_agreesD [OF assms(2) z(2)] by (simp add: hashes_to_def)
  from hashes_to_unique [OF this s(2)] show ?thesis using s(1) by (auto simp: SaltBToField_def fv_def)
qed

theorem zkdvp_request_unprovable_witness:
  "\<exists>req res c. ZkDvpInitiateSwap toy_note_crypto sum_hash toy_secret (Some (replicate 12 0)) toy_secret [] (toy_key 3) 11 50 9
      (PublicKey (toy_key 3)) [] 9 50 8 (Some (toy_proof 3 11 50 9)) 0 = Some (req, res) \<and>
    dvpInit_witness req = Some c \<and> DvPInitiatorCircuit_Define fr_api sum_hash c = Some () \<and>
    fv (init_CommitmentB res) = fv (init_CommitmentA res)"
proof -
  let ?p = "toy_proof 3 11 50 9" and ?s = "SaltBToField toy_secret"
  have hk: "DerivePaymentSalt toy_note_crypto toy_secret = toy_secret" "DeriveDvpSaltInit toy_note_crypto toy_secret = toy_secret"
    by (simp_all add: DerivePaymentSalt_def DeriveDvpSaltInit_def hkdfDerive_def toy_note_crypto_def toy_secret_def)
  have k: "sum_hash [PrivateKey (toy_key 3)] = Some (PublicKey (toy_key 3))" by (simp add: toy_key_def sum_hash_def)
  have mapM8: "mapM (\<lambda>j. if j < 8 then map_option bigInt_String (idx (Elements ?p) j) else Some []) [0..<8] = Some (map bigInt_String (Elements ?p))"
    using toy_proof_length [of 3 11 50 9] by (simp add: mapM_Some_iff list_all2_conv_all_nth idx_nth)
  obtain enc where enc: "EncryptSwapPayload toy_note_crypto (Some (replicate 12 0)) (DerivePaymentKey toy_note_crypto toy_secret) 9 50 toy_secret = Some (Inr enc)"
    using toy_note_crypto_laws(2) by (simp add: EncryptSwapPayload_def FillBytes_def hkdf_length_def DerivePaymentKey_def hkdfDerive_def)
  obtain cA where cA: "sum_hash [PublicKey (toy_key 3), ?s, 50, 9] = Some cA" using sum_hash_Some by blast
  obtain nf where nf: "sum_hash [PrivateKey (toy_key 3), Indices ?p] = Some nf" using sum_hash_Some by blast
  obtain rA where rA: "sum_hash [PublicKey (toy_key 3), SaltBToField [], 50, 9] = Some rA" using sum_hash_Some by blast
  have misc: "ValidKey toy_note_crypto []" "RandomInField [] = SaltBToField []" "take 8 (Elements ?p) = Elements ?p"
    using toy_proof_length [of 3 11 50 9] by (simp_all add: toy_note_crypto_def RandomInField_def SaltBToField_def)
  obtain req ires where i: "initiator_from_salts sum_hash [] (toy_key 3) 11 50 9 (PublicKey (toy_key 3)) ?s 50 9 ?s 0 ?p 8 [] [] = Some (req, ires)"
    using toy_proof_length [of 3 11 50 9]
    by (simp add: initiator_from_salts_def GetNullifierWithTree_def client_Erc20CommitmentV2_def cA nf rA mapM_idx_take Let_def)
  obtain res where r: "ZkDvpInitiateSwap toy_note_crypto sum_hash toy_secret (Some (replicate 12 0)) toy_secret [] (toy_key 3) 11 50 9
      (PublicKey (toy_key 3)) [] 9 50 8 (Some ?p) 0 = Some (req, res)"
    using i toy_proof_length [of 3 11 50 9]
    by (auto simp: ZkDvpInitiateSwap_def initiator_from_salts_def toy_capsule_sent hk sealed_def GetNullifierWithTree_def
        client_Erc20CommitmentV2_def cA nf rA misc mapM8 enc mapM_idx_take Let_def)
  have "(0 :: int) \<le> 50" "50 < dvp_range" "(0 :: int) \<le> 0" "(0 :: int) < 2 ^ 240" by (simp_all add: dvp_range_def)
  from initiator_accepted [OF gnark_fr_api toy_agrees toy_proves this(1,2,1,2,3,4) i]
  obtain c where "dvpInit_witness req = Some c" "DvPInitiatorCircuit_Define fr_api sum_hash c = Some ()" by blast
  with zkdvp_request_unprovable [OF gnark_fr_api toy_agrees k toy_capsule_sent r] r show ?thesis by blast
qed

text \<open>
  Swaps are never found by the scan that is meant to find them. \<^verbatim>\<open>ScanForZkDvpSwap\<close> uses the shared secret itself as salt
  and as key, while \<^verbatim>\<open>ZkDvpInitiateSwap\<close> derives both from it: unless Poseidon gives Bob's commitment the same
  value under the underived salt, the scan of a swap's own event never reports the swap.
\<close>

theorem zkdvp_swap_never_found:
  assumes "kem_correct cr ek dk" "Encapsulate cr ek coins = (ss, ct)"
    and "ZkDvpInitiateSwap cr H coins nonce saltStar rb key saltIn v t pkB ek tOut aOut d mp tr = Some (req, res)"
    and "H [pkB, SaltBToField ss, v, t] \<noteq> H [pkB, SaltBToField (DerivePaymentSalt cr ss), v, t]"
  shows "\<nexists>info. ScanForZkDvpSwap cr H dk (PublicKey key) pkB v t
    [\<lparr>CommitmentA = init_CommitmentA res, CommitmentB = init_CommitmentB res, swap_CipherText = init_CipherText res,
      swap_EncTxData = init_EncTxData res\<rparr>] = Inr [info]"
proof -
  note z = ZkDvpInitiateSwap_Some [OF assms(3,2)]
  have "Decapsulate cr dk ct = Some ss" using assms(1,2) unfolding kem_correct_def by (metis fst_conv snd_conv)
  moreover have "H [pkB, SaltBToField ss, v, t] \<noteq> Some (init_CommitmentB res)" using assms(4) z(1) by simp
  ultimately show ?thesis
    by (auto simp: ScanForZkDvpSwap_def scan_swap_event_def client_Erc20CommitmentV2_def z(3) Let_def split: sum.splits option.splits)
qed

theorem zkdvp_swap_never_found_witness:
  "\<exists>req res. ZkDvpInitiateSwap (toy_note_crypto\<lparr>hkdf := \<lambda>_ _ _ n. be_bytes n 1\<rparr>) (\<lambda>xs. Some (sum_list xs)) [] (Some (replicate 12 0)) [] []
      (toy_key 3) 11 50 9 35 [] 10 70 8 None 0 = Some (req, res) \<and>
    (\<nexists>info. ScanForZkDvpSwap (toy_note_crypto\<lparr>hkdf := \<lambda>_ _ _ n. be_bytes n 1\<rparr>) (\<lambda>xs. Some (sum_list xs)) [] (PublicKey (toy_key 3)) 35 50 9
      [\<lparr>CommitmentA = init_CommitmentA res, CommitmentB = init_CommitmentB res, swap_CipherText = init_CipherText res,
        swap_EncTxData = init_EncTxData res\<rparr>] = Inr [info])"
proof -
  let ?cr = "toy_note_crypto\<lparr>hkdf := \<lambda>_ _ _ n. be_bytes n 1\<rparr>" and ?H = "\<lambda>xs. Some (sum_list xs)"
  have e: "Encapsulate ?cr [] [] = ([], [1])" "kem_correct ?cr [] []" "ValidKey ?cr []"
    by (simp_all add: toy_note_crypto_def kem_correct_def)
  have "SaltBToField (DerivePaymentSalt ?cr []) = 1"
    by (simp add: SaltBToField_def DerivePaymentSalt_def hkdfDerive_def SetBytes_be_bytes SNARK_SCALAR_FIELD_def)
  moreover have "SaltBToField [] = 0" by (simp add: SaltBToField_def SetBytes_def)
  ultimately have ne: "?H [35, SaltBToField [], 50, 9] \<noteq> ?H [35, SaltBToField (DerivePaymentSalt ?cr []), 50, 9]" by simp
  obtain enc where enc: "EncryptSwapPayload ?cr (Some (replicate 12 0)) (DerivePaymentKey ?cr []) 10 70 [] = Some (Inr enc)"
    by (simp add: EncryptSwapPayload_def FillBytes_def DerivePaymentKey_def hkdfDerive_def)
  have "\<exists>es. mapM (\<lambda>j. if j < 8 then map_option bigInt_String (idx (replicate 8 0) j) else Some []) [0..<8] = Some es"
    by (rule mapM_total) (auto simp: idx_def)
  then obtain req res where r: "ZkDvpInitiateSwap ?cr ?H [] (Some (replicate 12 0)) [] [] (toy_key 3) 11 50 9 35 [] 10 70 8 None 0 = Some (req, res)"
    using e enc by (auto simp: ZkDvpInitiateSwap_def sealed_def GetNullifierWithTree_def client_Erc20CommitmentV2_def Let_def)
  from zkdvp_swap_never_found [OF e(2,1) r ne] r show ?thesis by blast
qed

end
