(* ===== verification/Client_Payment.thy ===== *)
theory Client_Payment
  imports Client_Witness Retail_Payment Relay_Retail
begin

section \<open>Retail payments: from the client to the recipient\<close>

text \<open>
  The retail requests of \<^verbatim>\<open>enygma_dvp/src/core/prover_erc.go\<close> (the retail package uses that client), the
  witnesses that \<^verbatim>\<open>enygma_retail_payments/gnark_circuits/server/circuits\<close> builds from them, the layout of the
  statement for the contract, and the notes sent over a channel (\<^verbatim>\<open>src/core/payment/payment.go\<close>). As for
  swaps, \<^term>\<open>None\<close> is an error of the client or a panic; randomness is an argument. The main theorem follows
  one payment through the client, the circuit, the relayer and the recipient's scan.
\<close>

subsection \<open>Requests and results\<close>

fun chunkBigIntSlice :: "int list \<Rightarrow> nat \<Rightarrow> int list list" where
  "chunkBigIntSlice arr chunkSize = (if chunkSize = 0 \<or> arr = [] then []
     else take chunkSize arr # chunkBigIntSlice (drop chunkSize arr) chunkSize)"

declare chunkBigIntSlice.simps [simp del]

record PaymentRequest =
  q_message :: string
  q_treeNumbers :: "string list"
  q_merkleRoots :: "string list"
  q_nullifiers :: "string list"
  q_commitmentsOut :: "string list"
  q_contractAddress :: string
  q_fee :: string
  q_privateKeysIn :: "string list"
  q_valuesIn :: "string list"
  q_saltsIn :: "string list"
  q_pathElements :: "string list list"
  q_pathIndices :: "string list"
  q_tokenId :: string
  q_spendPublicKeysOut :: "string list"
  q_valuesOut :: "string list"
  q_saltsOut :: "string list"

record PaymentResult =
  r_statement :: "int list"
  r_inputs :: nat
  r_outputs :: nat
  r_cipherText :: "byte list"
  r_encTxData :: "byte list"
  r_saltB :: int
  r_saltA :: "int option"
  r_contractAddress :: "int option"
  r_fee :: "int option"
  r_saltRelayer :: "int option"

definition bigIntSliceToStrings :: "int list \<Rightarrow> string list" where
  "bigIntSliceToStrings vals = map bigInt_String vals"

subsection \<open>The client\<close>

text \<open>
  The loops over the inputs: nullifier, position and path of each. The bound payments give a padding input the
  nullifier 0, \<^verbatim>\<open>PaymentProof\<close> hashes a nullifier with the tree number also for padding.
\<close>

definition bound_input :: "client_hash \<Rightarrow> nat \<Rightarrow> int list \<Rightarrow> KeyPair list \<Rightarrow> MerkleProof_data option list \<Rightarrow> nat \<Rightarrow> (int \<times> int \<times> int list) option" where
  "bound_input H merkleDepth valuesIn keysIn merkleProofs i = do {
     v \<leftarrow> idx valuesIn i;
     if v = 0 then Some (0, 0, replicate merkleDepth 0)
     else do {
       mp \<leftarrow> idx merkleProofs i; p \<leftarrow> mp;
       key \<leftarrow> idx keysIn i;
       nf \<leftarrow> GetNullifier H (PrivateKey key) (Indices p);
       Some (nf, Indices p, Elements p) } }"

definition tree_input ::
  "client_hash \<Rightarrow> nat \<Rightarrow> int list \<Rightarrow> int list \<Rightarrow> KeyPair list \<Rightarrow> MerkleProof_data option list \<Rightarrow> nat \<Rightarrow> (int \<times> int \<times> int list) option" where
  "tree_input H merkleDepth treeNumbers valuesIn keysIn merkleProofs i = do {
     v \<leftarrow> idx valuesIn i;
     (pathIndex, elements) \<leftarrow> (if v = 0 then Some (0, replicate merkleDepth 0)
       else do { mp \<leftarrow> idx merkleProofs i; p \<leftarrow> mp; Some (Indices p, Elements p) });
     key \<leftarrow> idx keysIn i;
     tr \<leftarrow> idx treeNumbers i;
     nf \<leftarrow> GetNullifierWithTree H (PrivateKey key) tr pathIndex merkleDepth;
     Some (nf, pathIndex, elements) }"

definition payment_roots :: "int list \<Rightarrow> MerkleProof_data option list \<Rightarrow> int list option" where
  "payment_roots valuesIn merkleProofs = mapM (\<lambda>i. do {
     v \<leftarrow> idx valuesIn i;
     if v = 0 then Some 0 else do { mp \<leftarrow> idx merkleProofs i; p \<leftarrow> mp; Some (Root p) } }) [0..<length valuesIn]"

text \<open>Output 0 is sealed for the recipient's view key; the others have random salts.\<close>

definition payment_outputs ::
  "('a) crypto_scheme \<Rightarrow> client_hash \<Rightarrow> byte list \<Rightarrow> byte list option \<Rightarrow> (nat \<Rightarrow> byte list) \<Rightarrow> byte list \<Rightarrow> int list \<Rightarrow> int list \<Rightarrow> int \<Rightarrow>
   (int list \<times> int list \<times> byte list \<times> byte list) option" where
  "payment_outputs cr H coins nonce rand viewEncapKey valuesOut spendPks tokenId = (
     if \<not> ValidKey cr viewEncapKey then None
     else do {
       let (ss0, ctxt0) = Encapsulate cr viewEncapKey coins;
       v0 \<leftarrow> idx valuesOut 0;
       ctxtII0 \<leftarrow> sealed (EncryptNotePayload cr nonce (DerivePaymentKey cr ss0) tokenId v0);
       let salts = map (\<lambda>i. if i = 0 then SaltBToField (DerivePaymentSalt cr ss0) else RandomInField (rand i)) [0..<length valuesOut];
       cmts \<leftarrow> mapM (\<lambda>i. do {
           pk \<leftarrow> idx spendPks i; salt \<leftarrow> idx salts i; v \<leftarrow> idx valuesOut i;
           client_Erc20CommitmentV2 H pk salt v tokenId }) [0..<length valuesOut];
       Some (salts, cmts, ctxt0, ctxtII0) })"

definition payment_statement :: "int \<Rightarrow> int list \<Rightarrow> int list \<Rightarrow> int list \<Rightarrow> int list \<Rightarrow> int list option" where
  "payment_statement message treeNumbers roots nfs cmts = do {
     triples \<leftarrow> mapM (\<lambda>i. do { t \<leftarrow> idx treeNumbers i; r \<leftarrow> idx roots i; n \<leftarrow> idx nfs i; Some [t, r, n] }) [0..<length nfs];
     Some (message # concat triples @ cmts) }"

text \<open>What the four request functions have in common, given their inputs; an absent address or fee is not sent.\<close>

definition build_payment ::
  "('a) crypto_scheme \<Rightarrow> client_hash \<Rightarrow> byte list \<Rightarrow> byte list option \<Rightarrow> (nat \<Rightarrow> byte list) \<Rightarrow> (nat \<Rightarrow> (int \<times> int \<times> int list) option) \<Rightarrow>
   int option \<Rightarrow> int option \<Rightarrow> int \<Rightarrow> int list \<Rightarrow> KeyPair list \<Rightarrow> int list \<Rightarrow> int list \<Rightarrow> int list \<Rightarrow> byte list \<Rightarrow> nat \<Rightarrow>
   MerkleProof_data option list \<Rightarrow> int list \<Rightarrow> int \<Rightarrow> (PaymentRequest \<times> PaymentResult) option" where
  "build_payment cr H coins nonce rand input address fee message valuesIn keysIn saltsIn valuesOut spendPks viewEncapKey merkleDepth
     merkleProofs treeNumbers tokenId = do {
     ins \<leftarrow> mapM input [0..<length valuesIn];
     let nfs = map fst ins;
     let indices = map (fst \<circ> snd) ins;
     let elements = concat (map (snd \<circ> snd) ins);
     (salts, cmts, ctxt, enc) \<leftarrow> payment_outputs cr H coins nonce rand viewEncapKey valuesOut spendPks tokenId;
     roots \<leftarrow> payment_roots valuesIn merkleProofs;
     statement \<leftarrow> payment_statement message treeNumbers roots nfs cmts;
     Some (\<lparr>q_message = bigInt_String message, q_treeNumbers = bigIntSliceToStrings treeNumbers,
         q_merkleRoots = bigIntSliceToStrings roots, q_nullifiers = bigIntSliceToStrings nfs,
         q_commitmentsOut = bigIntSliceToStrings cmts,
         q_contractAddress = (case address of None \<Rightarrow> [] | Some a \<Rightarrow> bigInt_String a),
         q_fee = (case fee of None \<Rightarrow> [] | Some f \<Rightarrow> bigInt_String f),
         q_privateKeysIn = bigIntSliceToStrings (map PrivateKey keysIn), q_valuesIn = bigIntSliceToStrings valuesIn,
         q_saltsIn = bigIntSliceToStrings saltsIn,
         q_pathElements = map bigIntSliceToStrings (chunkBigIntSlice elements merkleDepth),
         q_pathIndices = bigIntSliceToStrings indices, q_tokenId = bigInt_String tokenId,
         q_spendPublicKeysOut = bigIntSliceToStrings spendPks, q_valuesOut = bigIntSliceToStrings valuesOut,
         q_saltsOut = bigIntSliceToStrings salts\<rparr>,
       \<lparr>r_statement = statement @ (case address of None \<Rightarrow> [] | Some a \<Rightarrow> [a]) @ (case fee of None \<Rightarrow> [] | Some f \<Rightarrow> [f]),
         r_inputs = length valuesIn, r_outputs = length valuesOut, r_cipherText = ctxt, r_encTxData = enc,
         r_saltB = salts ! 0, r_saltA = idx salts 1, r_contractAddress = address, r_fee = fee, r_saltRelayer = None\<rparr>) }"

definition PaymentProof where
  "PaymentProof cr H coins nonce rand message valuesIn keysIn saltsIn valuesOut spendPks viewEncapKeys merkleDepth merkleProofs
     treeNumbers tokenId = do {
     ek \<leftarrow> idx viewEncapKeys 0;
     build_payment cr H coins nonce rand (tree_input H merkleDepth treeNumbers valuesIn keysIn merkleProofs) None None message
       valuesIn keysIn saltsIn valuesOut spendPks ek merkleDepth merkleProofs treeNumbers tokenId }"

definition BoundPaymentProof where
  "BoundPaymentProof cr H coins nonce rand contractAddress message valuesIn keysIn saltsIn valuesOut spendPks viewEncapKeys
     merkleDepth merkleProofs treeNumbers tokenId = do {
     ek \<leftarrow> idx viewEncapKeys 0;
     build_payment cr H coins nonce rand (bound_input H merkleDepth valuesIn keysIn merkleProofs) (Some contractAddress) None message
       valuesIn keysIn saltsIn valuesOut spendPks ek merkleDepth merkleProofs treeNumbers tokenId }"

definition BoundPaymentFeeProof where
  "BoundPaymentFeeProof cr H coins nonce rand contractAddress fee message valuesIn keysIn saltsIn valuesOut spendPks viewEncapKeys
     merkleDepth merkleProofs treeNumbers tokenId = do {
     ek \<leftarrow> idx viewEncapKeys 0;
     build_payment cr H coins nonce rand (bound_input H merkleDepth valuesIn keysIn merkleProofs) (Some contractAddress) (Some fee) message
       valuesIn keysIn saltsIn valuesOut spendPks ek merkleDepth merkleProofs treeNumbers tokenId }"

definition BoundPaymentRelayerProof where
  "BoundPaymentRelayerProof cr H coins nonce rand contractAddress message valuesIn keysIn saltsIn valuesOut relayerSpendPk spendPks
     bobViewEncapKey merkleDepth merkleProofs treeNumbers tokenId = (
     if length valuesOut \<noteq> 3 then None
     else do {
       bobSpendPk \<leftarrow> idx spendPks 0;
       aliceSpendPk \<leftarrow> idx spendPks 1;
       (req, res) \<leftarrow> build_payment cr H coins nonce rand (bound_input H merkleDepth valuesIn keysIn merkleProofs) (Some contractAddress) None
         message valuesIn keysIn saltsIn valuesOut [bobSpendPk, aliceSpendPk, relayerSpendPk] bobViewEncapKey merkleDepth merkleProofs
         treeNumbers tokenId;
       Some (req, res\<lparr>r_saltRelayer := Some (RandomInField (rand 2))\<rparr>) })"

text \<open>The layout that the contract reads: the trees, the roots and the nullifiers grouped.\<close>

definition contract_layout :: "nat \<Rightarrow> nat \<Rightarrow> int list \<Rightarrow> int list option" where
  "contract_layout inputs outputs statement = do {
     message \<leftarrow> idx statement 0;
     trees \<leftarrow> mapM (\<lambda>i. idx statement (1 + i * 3)) [0..<inputs];
     roots \<leftarrow> mapM (\<lambda>i. idx statement (1 + i * 3 + 1)) [0..<inputs];
     nfs \<leftarrow> mapM (\<lambda>i. idx statement (1 + i * 3 + 2)) [0..<inputs];
     cmts \<leftarrow> mapM (\<lambda>i. idx statement (1 + 3 * inputs + i)) [0..<outputs];
     Some (message # trees @ roots @ nfs @ cmts) }"

definition ContractStatement :: "PaymentResult \<Rightarrow> int list option" where
  "ContractStatement r = do {
     out \<leftarrow> contract_layout (r_inputs r) (r_outputs r) (r_statement r);
     Some (out @ (case r_contractAddress r of None \<Rightarrow> [] | Some a \<Rightarrow> [a]) @ (case r_fee r of None \<Rightarrow> [] | Some f \<Rightarrow> [f])) }"

subsection \<open>The proving endpoints\<close>

definition payment_witness :: "nat \<Rightarrow> nat \<Rightarrow> PaymentRequest \<Rightarrow> PaymentCircuit option" where
  "payment_witness inputs outputs req = do {
     message \<leftarrow> var (q_message req); address \<leftarrow> var (q_contractAddress req); token \<leftarrow> var (q_tokenId req);
     trees \<leftarrow> vars inputs (q_treeNumbers req); roots \<leftarrow> vars inputs (q_merkleRoots req); nfs \<leftarrow> vars inputs (q_nullifiers req);
     keys \<leftarrow> vars inputs (q_privateKeysIn req); valuesIn \<leftarrow> vars inputs (q_valuesIn req); saltsIn \<leftarrow> vars inputs (q_saltsIn req);
     indices \<leftarrow> vars inputs (q_pathIndices req);
     paths \<leftarrow> mapM (\<lambda>i. do { row \<leftarrow> idx (q_pathElements req) i; path_witness row }) [0..<inputs];
     cmts \<leftarrow> vars outputs (q_commitmentsOut req); pks \<leftarrow> vars outputs (q_spendPublicKeysOut req);
     valuesOut \<leftarrow> vars outputs (q_valuesOut req); saltsOut \<leftarrow> vars outputs (q_saltsOut req);
     Some \<lparr>Config = \<lparr>TmNInputs = inputs, TmMOutputs = outputs, TmMerkleTreeDepth = 8, TmRange = 10 ^ 36\<rparr>, StMessage = message,
       StTreeNumbers = trees, StMerkleRoots = roots, StNullifiers = nfs, StCommitmentsOut = cmts, StContractAddress = address,
       WtPrivateKeysIn = keys, WtValuesIn = valuesIn, WtSaltsIn = saltsIn, WtPathElements = paths, WtPathIndices = indices,
       WtTokenId = token, WtSpendPublicKeysOut = pks, WtValuesOut = valuesOut, WtSaltsOut = saltsOut\<rparr> }"

definition payment_signal :: "nat \<Rightarrow> nat \<Rightarrow> PaymentRequest \<Rightarrow> int list option" where
  "payment_signal inputs outputs req = do {
     message \<leftarrow> ParseBigInt (q_message req);
     triples \<leftarrow> mapM (\<lambda>i. do {
         t \<leftarrow> idx (q_treeNumbers req) i; t \<leftarrow> ParseBigInt t; r \<leftarrow> idx (q_merkleRoots req) i; r \<leftarrow> ParseBigInt r;
         n \<leftarrow> idx (q_nullifiers req) i; n \<leftarrow> ParseBigInt n; Some [t, r, n] }) [0..<inputs];
     cmts \<leftarrow> decimals outputs (q_commitmentsOut req);
     address \<leftarrow> ParseBigInt (q_contractAddress req);
     Some (message # concat triples @ cmts @ [address]) }"

definition paymentFee_witness :: "nat \<Rightarrow> PaymentRequest \<Rightarrow> PaymentFeeCircuit option" where
  "paymentFee_witness outputs req = do {
     c \<leftarrow> payment_witness 1 outputs req;
     fee \<leftarrow> var (q_fee req);
     Some (PaymentCircuit.extend c (PaymentFeeCircuit.fields fee)) }"

subsection \<open>Notes over a channel\<close>

record ChannelNote =
  cn_amount :: int
  cn_tokenId :: int
  cn_salt :: int

definition aesGCMEncrypt :: "('a) crypto_scheme \<Rightarrow> byte list option \<Rightarrow> byte list \<Rightarrow> byte list \<Rightarrow> channel_error + byte list" where
  "aesGCMEncrypt cr rand key plaintext = (case rand of
       None \<Rightarrow> Inl Rand_failed
     | Some nonce \<Rightarrow> Inr (nonce @ Seal cr key nonce plaintext []))"

definition aesGCMDecrypt :: "('a) crypto_scheme \<Rightarrow> byte list \<Rightarrow> byte list \<Rightarrow> channel_error + byte list" where
  "aesGCMDecrypt cr key ct = (
     if length ct < 12 then Inl Ciphertext_too_short
     else case Open cr key (take 12 ct) (drop 12 ct) [] of
       None \<Rightarrow> Inl Auth_failed
     | Some plaintext \<Rightarrow> Inr plaintext)"

definition ChannelEncryptNote ::
  "('a) crypto_scheme \<Rightarrow> byte list option \<Rightarrow> byte list \<Rightarrow> int \<Rightarrow> int \<Rightarrow> int \<Rightarrow> (channel_error + byte list) option" where
  "ChannelEncryptNote cr rand channelKey amount tokenId salt = do {
     a \<leftarrow> FillBytes 32 amount; t \<leftarrow> FillBytes 32 tokenId; s \<leftarrow> FillBytes 32 salt;
     Some (aesGCMEncrypt cr rand channelKey (a @ t @ s)) }"

definition ChannelDecryptNote :: "('a) crypto_scheme \<Rightarrow> byte list \<Rightarrow> byte list \<Rightarrow> (channel_error + nat) + ChannelNote" where
  "ChannelDecryptNote cr channelKey ct = (case aesGCMDecrypt cr channelKey ct of
       Inl e \<Rightarrow> Inl (Inl e)
     | Inr plaintext \<Rightarrow>
       if length plaintext \<noteq> 96 then Inl (Inr (length plaintext))
       else Inr \<lparr>cn_amount = SetBytes (take 32 plaintext), cn_tokenId = SetBytes (take 32 (drop 32 plaintext)),
                 cn_salt = SetBytes (drop 64 plaintext)\<rparr>)"

subsection \<open>Lemmas\<close>

lemma chunk_single: "xs \<noteq> [] \<Longrightarrow> chunkBigIntSlice xs (length xs) = [xs]"
  by (simp add: chunkBigIntSlice.simps)

lemma upt_payment: "[0..<Suc 0] = [0]" "[0..<1] = [0]" "[0..<Suc (Suc 0)] = [0, 1]" "[0..<2] = [0, 1]"
  by (simp_all add: upt_rec)

lemma vars_Strings:
  "vars 1 [bigInt_String a] = Some [a]" "vars 2 [bigInt_String a, bigInt_String b] = Some [a, b]"
  "decimals 2 [bigInt_String a, bigInt_String b] = Some [a, b]"
  by (simp_all add: vars_def decimals_def idx_def upt_payment)

lemma payment_outputs_two:
  assumes "payment_outputs cr H coins nonce rand ek [v0, v1] [pk0, pk1] t = Some (salts, cmts, ct, enc)"
  obtains ss c0 c1 where "ValidKey cr ek" "Encapsulate cr ek coins = (ss, ct)"
    "sealed (EncryptNotePayload cr nonce (DerivePaymentKey cr ss) t v0) = Some enc"
    "H [pk0, SaltBToField (DerivePaymentSalt cr ss), v0, t] = Some c0" "H [pk1, RandomInField (rand 1), v1, t] = Some c1"
    "salts = [SaltBToField (DerivePaymentSalt cr ss), RandomInField (rand 1)]" "cmts = [c0, c1]"
proof -
  obtain ss ct' where e: "Encapsulate cr ek coins = (ss, ct')" by (meson surj_pair)
  with assms obtain c0 c1 where x: "ValidKey cr ek" "Encapsulate cr ek coins = (ss, ct)"
    "sealed (EncryptNotePayload cr nonce (DerivePaymentKey cr ss) t v0) = Some enc"
    "H [pk0, SaltBToField (DerivePaymentSalt cr ss), v0, t] = Some c0" "H [pk1, RandomInField (rand 1), v1, t] = Some c1"
    "salts = [SaltBToField (DerivePaymentSalt cr ss), RandomInField (rand 1)]" "cmts = [c0, c1]"
    by (auto simp: payment_outputs_def client_Erc20CommitmentV2_def idx_def upt_payment bind_eq_Some_conv split: if_splits)
  show thesis by (rule that [OF x])
qed

text \<open>A payment of one note into two, as the client builds it and the server reads it.\<close>

definition single_witness :: "int \<Rightarrow> int \<Rightarrow> KeyPair \<Rightarrow> int \<Rightarrow> int \<Rightarrow> MerkleProof_data \<Rightarrow> int \<Rightarrow> int \<Rightarrow> int list \<Rightarrow> int list \<Rightarrow> int list \<Rightarrow> int list \<Rightarrow> int \<Rightarrow> PaymentCircuit" where
  "single_witness msg addr key salt v p tr nf cmts pks values salts t = \<lparr>Config = \<lparr>TmNInputs = 1, TmMOutputs = 2, TmMerkleTreeDepth = 8, TmRange = 10 ^ 36\<rparr>,
     StMessage = msg, StTreeNumbers = [tr], StMerkleRoots = [Root p], StNullifiers = [nf], StCommitmentsOut = cmts, StContractAddress = addr,
     WtPrivateKeysIn = [PrivateKey key], WtValuesIn = [v], WtSaltsIn = [salt], WtPathElements = [Elements p], WtPathIndices = [Indices p],
     WtTokenId = t, WtSpendPublicKeysOut = pks, WtValuesOut = values, WtSaltsOut = salts\<rparr>"

lemma build_payment_single:
  assumes b: "build_payment cr H coins nonce rand (bound_input H 8 [v] [key] [Some p]) (Some addr) fee msg [v] [key] [salt] [v0, v1] [pk0, pk1]
      ek 8 [Some p] [tr] t = Some (req, res)"
    and "v \<noteq> 0" and len: "length (Elements p) = 8"
  obtains ss nf c0 c1 where "ValidKey cr ek" "Encapsulate cr ek coins = (ss, r_cipherText res)"
    "sealed (EncryptNotePayload cr nonce (DerivePaymentKey cr ss) t v0) = Some (r_encTxData res)"
    "H [PrivateKey key, Indices p] = Some nf" "H [pk0, SaltBToField (DerivePaymentSalt cr ss), v0, t] = Some c0"
    "H [pk1, RandomInField (rand 1), v1, t] = Some c1"
    "r_statement res = [msg, tr, Root p, nf, c0, c1, addr] @ (case fee of None \<Rightarrow> [] | Some f \<Rightarrow> [f])"
    "r_inputs res = 1 \<and> r_outputs res = 2 \<and> r_contractAddress res = Some addr \<and> r_fee res = fee"
    "payment_signal 1 2 req = Some [msg, tr, Root p, nf, c0, c1, addr]"
    "q_fee req = (case fee of None \<Rightarrow> [] | Some f \<Rightarrow> bigInt_String f)"
    "payment_witness 1 2 req = Some (single_witness msg addr key salt v p tr nf [c0, c1] [pk0, pk1] [v0, v1]
       [SaltBToField (DerivePaymentSalt cr ss), RandomInField (rand 1)] t)"
proof -
  have ch: "chunkBigIntSlice (Elements p) 8 = [Elements p]" using chunk_single [of "Elements p"] len by force
  from b \<open>v \<noteq> 0\<close> obtain nf salts cmts ct enc where nf: "H [PrivateKey key, Indices p] = Some nf"
    and out: "payment_outputs cr H coins nonce rand ek [v0, v1] [pk0, pk1] t = Some (salts, cmts, ct, enc)"
    and req: "req = \<lparr>q_message = bigInt_String msg, q_treeNumbers = [bigInt_String tr], q_merkleRoots = [bigInt_String (Root p)],
         q_nullifiers = [bigInt_String nf], q_commitmentsOut = map bigInt_String cmts, q_contractAddress = bigInt_String addr,
         q_fee = (case fee of None \<Rightarrow> [] | Some f \<Rightarrow> bigInt_String f), q_privateKeysIn = [bigInt_String (PrivateKey key)],
         q_valuesIn = [bigInt_String v], q_saltsIn = [bigInt_String salt], q_pathElements = [map bigInt_String (Elements p)],
         q_pathIndices = [bigInt_String (Indices p)], q_tokenId = bigInt_String t, q_spendPublicKeysOut = [bigInt_String pk0, bigInt_String pk1],
         q_valuesOut = [bigInt_String v0, bigInt_String v1], q_saltsOut = map bigInt_String salts\<rparr>"
    and res: "r_statement res = [msg, tr, Root p, nf] @ cmts @ [addr] @ (case fee of None \<Rightarrow> [] | Some f \<Rightarrow> [f])"
      "r_inputs res = 1 \<and> r_outputs res = 2 \<and> r_contractAddress res = Some addr \<and> r_fee res = fee" "r_cipherText res = ct" "r_encTxData res = enc"
    by (auto simp: build_payment_def bound_input_def payment_roots_def payment_statement_def GetNullifier_def idx_def upt_payment ch
        bigIntSliceToStrings_def bind_eq_Some_conv)
  from out obtain ss c0 c1 where x: "ValidKey cr ek" "Encapsulate cr ek coins = (ss, ct)"
    "sealed (EncryptNotePayload cr nonce (DerivePaymentKey cr ss) t v0) = Some enc"
    "H [pk0, SaltBToField (DerivePaymentSalt cr ss), v0, t] = Some c0" "H [pk1, RandomInField (rand 1), v1, t] = Some c1"
    "salts = [SaltBToField (DerivePaymentSalt cr ss), RandomInField (rand 1)]" "cmts = [c0, c1]" by (rule payment_outputs_two)
  show thesis
  proof (rule that [of ss nf c0 c1])
    show "payment_signal 1 2 req = Some [msg, tr, Root p, nf, c0, c1, addr]"
      by (simp add: payment_signal_def req x upt_payment idx_def vars_Strings)
    show "payment_witness 1 2 req = Some (single_witness msg addr key salt v p tr nf [c0, c1] [pk0, pk1] [v0, v1]
       [SaltBToField (DerivePaymentSalt cr ss), RandomInField (rand 1)] t)"
      by (simp add: payment_witness_def req x upt_payment idx_def vars_Strings vars_Strings [simplified] path_witness_String [OF len] single_witness_def)
  qed (use x nf res in \<open>simp_all add: req\<close>)
qed

lemma single_notes_ok:
  assumes "poseidon_agrees H pos" "proves_note H 8 key salt v t p" "0 < v" "v < 10 ^ 36" "0 \<le> v0" "v0 < 10 ^ 36" "0 \<le> v1" "v1 < 10 ^ 36"
    and h: "H [PrivateKey key, Indices p] = Some nf" "H [pk0, s0, v0, t] = Some c0" "H [PublicKey key, s1, v1, t] = Some c1"
    and "\<not> is_change 0"
  shows "payment_notes_ok is_change pos
    (PaymentCircuit.extend (single_witness 0 addr key salt v p tr nf [c0, c1] [pk0, PublicKey key] [v0, v1] [s0, s1] t) ext)"
proof -
  note pos = h [THEN poseidon_agreesD [OF assms(1)]]
  from assms(2) obtain cm where cm: "H [PublicKey key, salt, v, t] = Some cm" "merkle_path H cm (Indices p) (Elements p) = Some (Root p)"
    and pk: "H [PrivateKey key] = Some (PublicKey key)" and len: "length (Elements p) = 8" by (auto simp: proves_note_def split: option.splits)
  note note_pos = pk [THEN poseidon_agreesD [OF assms(1)]] cm(1) [THEN poseidon_agreesD [OF assms(1)]] merkle_path_agrees [OF assms(1) cm(2)]
  note ix = index_canonical [OF assms(2)]
  have v: "fv v = v" "fv v0 = v0" "fv v1 = v1" "fv (10 ^ 36) = 10 ^ 36" using assms(3-8) by (simp_all add: fv_def SNARK_SCALAR_FIELD_def)
  show ?thesis
    using pos note_pos ix len v assms(3-8,12)
    by (auto simp: payment_notes_ok_def payment_input_ok_def payment_output_ok_def spends_eval hashes_to_def single_witness_def
        PaymentCircuit.defs less_Suc_eq numeral_2_eq_2)
qed

lemma single_sums:
  "sum_in (PaymentCircuit.extend (single_witness 0 addr key salt v p tr nf cmts pks [v0, v1] salts t) ext) = v"
  "sum_out (PaymentCircuit.extend (single_witness 0 addr key salt v p tr nf cmts pks [v0, v1] salts t) ext) = v0 + v1"
  by (simp_all add: sum_in_def sum_out_def single_witness_def PaymentCircuit.defs numeral_2_eq_2)

lemma extend_unit: "PaymentCircuit.extend c () = (c :: PaymentCircuit)"
  by (simp add: PaymentCircuit.defs)

lemma sealed_Some: "sealed r = Some x \<longleftrightarrow> r = Some (Inr x)"
  by (auto simp: sealed_def split: option.splits sum.splits)

lemma those_Strings: "those (map (bigInt_SetString \<circ> bigInt_String) xs) = Some xs"
  by (induction xs) (simp_all add: SetString_String)

lemma RelayRetailPayment_accepts:
  assumes "rootHistory vlt (stmt ! 1) (stmt ! 2) = Some True" "nullifiers vlt (stmt ! 1) (stmt ! 3) = Some False"
  shows "RelayRetailPayment vlt \<lparr>pay_vaultId = bigInt_String vid, pay_proof = map bigInt_String els, pay_signal = map bigInt_String stmt,
      pay_cipherText = hex0x ct, pay_encTxData = hex0x enc\<rparr> =
    Inr ([nullifier_key (stmt ! 1) (stmt ! 3)],
      Payment (buildPaymentReceipt \<lparr>vaultId = vid, proof_elems = els, publicSignal = stmt, cipherText = ct, encTxData = enc\<rparr>) vid ct enc)"
  using assms by (simp add: RelayRetailPayment_def parseRequest_def those_Strings SetString_String)

text \<open>The note that the recipient finds in the event of a payment, and its proof in any tree that holds it.\<close>

lemma payment_received:
  assumes "kem_correct cr ek dk" "note_aead cr" "length nonce = 12" "Encapsulate cr ek coins = (ss, ct)"
    and "EncryptNotePayload cr (Some nonce) (DerivePaymentKey cr ss) t v = Some (Inr enc)" "0 \<le> t" "0 \<le> v"
    and "H [pk, SaltBToField (DerivePaymentSalt cr ss), v, t] = Some c"
  shows "ScanForErc20Notes cr H dk pk [\<lparr>Commitment = c, CipherText = ct, EncTxData = enc\<rparr>] =
    Inr [\<lparr>note_commitment = c, TokenId = t, Amount = v, SaltBField = SaltBToField (DerivePaymentSalt cr ss)\<rparr>]"
proof -
  let ?ev = "\<lparr>Commitment = c, CipherText = ct, EncTxData = enc\<rparr>"
  have "payload_of cr dk ?ev = Some (SaltBToField (DerivePaymentSalt cr ss), v, t)"
    using payload_of_sent [OF assms(1-5), of ?ev] assms(6,7) by simp
  moreover from this have "Decapsulate cr dk ct \<noteq> None" by (auto simp: payload_of_def split: option.splits)
  ultimately have "scan_erc20_event cr H dk pk 0 ?ev =
      Inr (Some \<lparr>note_commitment = c, TokenId = t, Amount = v, SaltBField = SaltBToField (DerivePaymentSalt cr ss)\<rparr>)"
    using assms(8) by (simp add: scan_erc20_event_Inr)
  then show ?thesis by (simp add: ScanForErc20Notes_def)
qed

text \<open>Grouping an interleaved statement.\<close>

lemma concat_if_filter: "concat (map (\<lambda>i. if P i then [] else [f i]) xs) = map f (filter (\<lambda>i. \<not> P i) xs)"
  by (induction xs) simp_all

lemma concat_triples:
  assumes "\<And>i. length (f i) = 3" "i < n" "k < 3"
  shows "concat (map f [0..<n]) ! (i * 3 + k) = f i ! k \<and> length (concat (map f [0..<n])) = n * 3"
proof -
  have len: "length (concat (map f [0..<m])) = m * 3" for m by (induction m) (simp_all add: assms(1))
  have "concat (map f [0..<n]) ! (i * 3 + k) = f i ! k" using assms(2)
  proof (induction n)
    case (Suc n)
    show ?case
    proof (cases "i = n")
      case True
      then show ?thesis using len [of n] by (simp add: nth_append)
    next
      case False
      with Suc.prems have "i < n" by simp
      moreover from this have "i * 3 + k < length (concat (map f [0..<n]))" using len [of n] assms(3) by (simp add: field_simps)
      ultimately show ?thesis using Suc.IH by (simp add: nth_append)
    qed
  qed simp
  with len show ?thesis by simp
qed

lemma contract_layout_interleaved:
  assumes "length ts = n" "length rs = n" "length ns = n" "length cs = m"
  shows "contract_layout n m (msg # concat (map (\<lambda>i. [ts ! i, rs ! i, ns ! i]) [0..<n]) @ cs @ rest) = Some (msg # ts @ rs @ ns @ cs)"
proof -
  let ?f = "\<lambda>i. [ts ! i, rs ! i, ns ! i]"
  let ?s = "concat (map ?f [0..<n])"
  have len: "length ?s = n * 3" using concat_triples [of ?f 0 n 0] by (cases "n = 0") simp_all
  have pick: "idx (msg # ?s @ cs @ rest) (1 + i * 3 + k) = Some (?f i ! k)" if "i < n" "k < 3" for i k
  proof -
    have "i * 3 + k < n * 3" using that by linarith
    with concat_triples [of ?f i n k] that len show ?thesis by (simp add: idx_def nth_append)
  qed
  have "mapM (\<lambda>i. idx (msg # ?s @ cs @ rest) (1 + i * 3)) [0..<n] = Some ts"
    using pick [of _ 0] assms(1) by (simp add: mapM_Some_iff list_all2_conv_all_nth)
  moreover have "mapM (\<lambda>i. idx (msg # ?s @ cs @ rest) (1 + i * 3 + 1)) [0..<n] = Some rs"
    using pick [of _ 1] assms(2) by (simp add: mapM_Some_iff list_all2_conv_all_nth)
  moreover have "mapM (\<lambda>i. idx (msg # ?s @ cs @ rest) (1 + i * 3 + 2)) [0..<n] = Some ns"
    using pick [of _ 2] assms(3) by (simp add: mapM_Some_iff list_all2_conv_all_nth)
  moreover have "mapM (\<lambda>i. idx (msg # ?s @ cs @ rest) (1 + 3 * n + i)) [0..<m] = Some cs"
    using len assms(4) by (simp add: mapM_Some_iff list_all2_conv_all_nth idx_def nth_append)
  ultimately show ?thesis by (simp add: contract_layout_def idx_def)
qed

lemma payment_statement_Some:
  assumes "payment_statement msg ts rs ns cs = Some st" "length ts = length ns" "length rs = length ns"
  shows "st = msg # concat (map (\<lambda>i. [ts ! i, rs ! i, ns ! i]) [0..<length ns]) @ cs"
proof -
  have "mapM (\<lambda>i. do { t \<leftarrow> idx ts i; r \<leftarrow> idx rs i; n \<leftarrow> idx ns i; Some [t, r, n] }) [0..<length ns] =
      Some (map (\<lambda>i. [ts ! i, rs ! i, ns ! i]) [0..<length ns])"
    using assms(2,3) by (simp add: mapM_Some_iff list_all2_conv_all_nth idx_def)
  with assms(1) show ?thesis by (simp add: payment_statement_def)
qed

lemma receipt_keys_statement:
  assumes "length trees = n" "length roots = n" "length nfs = n"
  shows "receipt_keys \<lparr>proof8 = els, signal = msg # trees @ roots @ nfs @ rest, nIn = int n, nOut = m\<rparr> =
    map (\<lambda>i. nullifier_key (trees ! i) (nfs ! i)) (filter (\<lambda>i. nfs ! i \<noteq> 0) [0..<n])"
proof -
  have at: "(msg # trees @ roots @ nfs @ rest) ! (1 + 2 * n + i) = nfs ! i" "(msg # trees @ roots @ nfs @ rest) ! (1 + i) = trees ! i"
    if "i < n" for i using that assms by (simp_all add: nth_append)
  have "receipt_keys \<lparr>proof8 = els, signal = msg # trees @ roots @ nfs @ rest, nIn = int n, nOut = m\<rparr> =
      concat (map (\<lambda>i. if nfs ! i = 0 then [] else [nullifier_key (trees ! i) (nfs ! i)]) [0..<n])"
    unfolding receipt_keys_def Let_def by (intro arg_cong [where f = concat] map_cong) (use at in \<open>simp_all del: nth_Cons_Suc add: nth_append\<close>)
  then show ?thesis by (simp add: concat_if_filter)
qed

subsection \<open>Properties\<close>

text \<open>
  C14. A payment arrives. Alice spends a note of her tree and pays part of it to Bob, the rest to herself. The
  assignment that the server builds from her request satisfies the payment circuit, and its public signals are
  the statement she submits. The relayer accepts that statement, with any proof, for a vault that knows her
  root and not her nullifier, and hands the contract the same statement, capsule and payload. Bob's scan of
  the resulting event returns exactly one note, with the amount and the token that Alice chose; and in any
  client tree that holds its commitment, Bob finds a proof with which he can spend it in turn.
\<close>

theorem payment_arrives:
  assumes "gnark api" "poseidon_agrees H pos" "kem_correct cr ek dk" "note_aead cr" "length nonce = 12"
    and "proves_note H 8 key salt v t p" "0 < v" "v < 10 ^ 36" "0 \<le> v0" "0 \<le> v1" "v0 + v1 = v" "0 \<le> t"
    and "H [PrivateKey bobKey] = Some (PublicKey bobKey)"
    and "BoundPaymentProof cr H coins (Some nonce) rand addr 0 [v] [key] [salt] [v0, v1] [PublicKey bobKey, PublicKey key] [ek] 8
      [Some p] [tr] t = Some (req, res)"
    and "rootHistory vlt tr (Root p) = Some True" "\<forall>nf. H [PrivateKey key, Indices p] = Some nf \<longrightarrow> nullifiers vlt tr nf = Some False"
    and "length els = 8"
  shows "\<exists>c nf stmt rc ct enc n. payment_witness 1 2 req = Some c \<and> PaymentCircuit_Define api pos c = Some () \<and>
    payment_signal 1 2 req = Some stmt \<and> ContractStatement res = Some stmt \<and> H [PrivateKey key, Indices p] = Some nf \<and>
    RelayRetailPayment vlt \<lparr>pay_vaultId = bigInt_String vid, pay_proof = map bigInt_String els, pay_signal = map bigInt_String stmt,
        pay_cipherText = hex0x (r_cipherText res), pay_encTxData = hex0x (r_encTxData res)\<rparr>
      = Inr ([nullifier_key tr nf], Payment rc vid ct enc) \<and> Statement rc = stmt \<and>
    ScanForErc20Notes cr H dk (PublicKey bobKey) [\<lparr>Commitment = stmt ! 4, CipherText = ct, EncTxData = enc\<rparr>] = Inr [n] \<and>
    Amount n = v0 \<and> TokenId n = t \<and> note_commitment n = stmt ! 4 \<and>
    (\<forall>keccak256 mt. field_hash H \<and> mt_inv H keccak256 mt \<and> depth mt = 8 \<and> stmt ! 4 \<in> set (tree mt ! 0) \<longrightarrow>
      (\<exists>q. GenerateProof mt (stmt ! 4) = Some (Inr q) \<and> proves_note H 8 bobKey (SaltBField n) (Amount n) (TokenId n) q))"
proof -
  have len: "length (Elements p) = 8" using assms(6) by (simp add: proves_note_def)
  from assms(14) have b: "build_payment cr H coins (Some nonce) rand (bound_input H 8 [v] [key] [Some p]) (Some addr) None 0 [v] [key] [salt]
      [v0, v1] [PublicKey bobKey, PublicKey key] ek 8 [Some p] [tr] t = Some (req, res)"
    by (simp add: BoundPaymentProof_def idx_def)
  from b _ len obtain ss nf c0 c1 where e: "Encapsulate cr ek coins = (ss, r_cipherText res)"
    "sealed (EncryptNotePayload cr (Some nonce) (DerivePaymentKey cr ss) t v0) = Some (r_encTxData res)"
    and h: "H [PrivateKey key, Indices p] = Some nf" "H [PublicKey bobKey, SaltBToField (DerivePaymentSalt cr ss), v0, t] = Some c0"
      "H [PublicKey key, RandomInField (rand 1), v1, t] = Some c1"
    and r: "r_statement res = [0, tr, Root p, nf, c0, c1, addr]" "r_inputs res = 1 \<and> r_outputs res = 2 \<and> r_contractAddress res = Some addr \<and> r_fee res = None"
      "payment_signal 1 2 req = Some [0, tr, Root p, nf, c0, c1, addr]"
    and w: "payment_witness 1 2 req = Some (single_witness 0 addr key salt v p tr nf [c0, c1] [PublicKey bobKey, PublicKey key] [v0, v1]
       [SaltBToField (DerivePaymentSalt cr ss), RandomInField (rand 1)] t)"
    by (rule build_payment_single) (use assms(7) in auto)
  let ?c = "single_witness 0 addr key salt v p tr nf [c0, c1] [PublicKey bobKey, PublicKey key] [v0, v1]
       [SaltBToField (DerivePaymentSalt cr ss), RandomInField (rand 1)] t" and ?stmt = "[0, tr, Root p, nf, c0, c1, addr]"
  have "payment_notes_ok (\<lambda>j. j \<ge> 1) pos ?c"
    using single_notes_ok [OF assms(2,6,7,8,9) _ assms(10) _ h, of "\<lambda>j. j \<ge> 1" addr tr "()"] assms(8-11) by (simp add: extend_unit)
  moreover have "sum_in ?c = v" "sum_out ?c = v0 + v1" using single_sums [where ext = "()"] by (simp_all add: extend_unit)
  ultimately have acc: "PaymentCircuit_Define api pos ?c = Some ()"
    using gnark.PaymentCircuit_Define_iff [OF assms(1), of ?c pos] assms(11) by (simp add: single_witness_def)
  have cs: "ContractStatement res = Some ?stmt" using r by (simp add: ContractStatement_def contract_layout_def idx_def upt_payment)
  have rel: "RelayRetailPayment vlt \<lparr>pay_vaultId = bigInt_String vid, pay_proof = map bigInt_String els, pay_signal = map bigInt_String ?stmt,
        pay_cipherText = hex0x (r_cipherText res), pay_encTxData = hex0x (r_encTxData res)\<rparr> = Inr ([nullifier_key tr nf],
      Payment (buildPaymentReceipt \<lparr>vaultId = vid, proof_elems = els, publicSignal = ?stmt, cipherText = r_cipherText res,
        encTxData = r_encTxData res\<rparr>) vid (r_cipherText res) (r_encTxData res))"
    using RelayRetailPayment_accepts [of vlt ?stmt vid els] assms(15,16) h(1) by simp
  have scan: "ScanForErc20Notes cr H dk (PublicKey bobKey) [\<lparr>Commitment = c0, CipherText = r_cipherText res, EncTxData = r_encTxData res\<rparr>] =
      Inr [\<lparr>note_commitment = c0, TokenId = t, Amount = v0, SaltBField = SaltBToField (DerivePaymentSalt cr ss)\<rparr>]"
    by (rule payment_received [OF assms(3-5) e(1)]) (use e(2) assms(9,12) h(2) in \<open>simp_all add: sealed_Some\<close>)
  have "\<exists>q. GenerateProof mt c0 = Some (Inr q) \<and> proves_note H 8 bobKey (SaltBToField (DerivePaymentSalt cr ss)) v0 t q"
    if "field_hash H" "mt_inv H keccak256 mt" "depth mt = 8" "c0 \<in> set (tree mt ! 0)" for keccak256 mt
    using proves_note_from_tree [OF that(1,2) assms(13) h(2) that(4)] that(3) by simp
  moreover have "Statement (buildPaymentReceipt \<lparr>vaultId = vid, proof_elems = els, publicSignal = ?stmt, cipherText = r_cipherText res,
      encTxData = r_encTxData res\<rparr>) = ?stmt" by (simp add: buildPaymentReceipt_def Let_def)
  ultimately show ?thesis
    using w acc r(3) cs h(1) rel scan
    by (intro exI [of _ ?c] exI [of _ nf] exI [of _ ?stmt] exI [of _ "buildPaymentReceipt \<lparr>vaultId = vid, proof_elems = els,
        publicSignal = ?stmt, cipherText = r_cipherText res, encTxData = r_encTxData res\<rparr>"] exI [of _ "r_cipherText res"]
        exI [of _ "r_encTxData res"]
        exI [of _ "\<lparr>note_commitment = c0, TokenId = t, Amount = v0, SaltBField = SaltBToField (DerivePaymentSalt cr ss)\<rparr>"])
      auto
qed

lemma toy_payment:
  assumes "0 \<le> t" "t < 2 ^ 256" "0 \<le> v0" "v0 < 2 ^ 256" "v \<noteq> 0"
  shows "\<exists>req res. build_payment toy_note_crypto sum_hash toy_secret (Some (replicate 12 0)) rand
    (bound_input sum_hash 8 [v] [key] [Some p]) addr fee msg [v] [key] [salt] [v0, v1] [pk0, pk1] ek 8 [Some p] [tr] t = Some (req, res)"
proof -
  have "ValidKey toy_note_crypto ek" by (simp add: toy_note_crypto_def)
  then show ?thesis
    using toy_enc_sent [OF assms(1,3,2,4)] assms(5)
    by (simp add: build_payment_def bound_input_def payment_outputs_def payment_roots_def payment_statement_def toy_capsule_sent
        GetNullifier_def client_Erc20CommitmentV2_def sealed_def sum_hash_def idx_def upt_payment)
qed

theorem payment_arrives_witness:
  "\<exists>req res c n ct enc. BoundPaymentProof toy_note_crypto sum_hash toy_secret (Some (replicate 12 0)) (\<lambda>_. []) 99 0 [50] [toy_key 3] [11] [30, 20]
      [PublicKey (toy_key 4), PublicKey (toy_key 3)] [[]] 8 [Some (toy_proof 3 11 50 9)] [1] 9 = Some (req, res) \<and>
    payment_witness 1 2 req = Some c \<and> PaymentCircuit_Define fr_api sum_hash c = Some () \<and>
    ScanForErc20Notes toy_note_crypto sum_hash [] (PublicKey (toy_key 4)) [\<lparr>Commitment = note_commitment n, CipherText = ct, EncTxData = enc\<rparr>] = Inr [n] \<and>
    Amount n = 30 \<and> TokenId n = 9"
proof -
  obtain req res where r: "BoundPaymentProof toy_note_crypto sum_hash toy_secret (Some (replicate 12 0)) (\<lambda>_. []) 99 0 [50] [toy_key 3] [11] [30, 20]
      [PublicKey (toy_key 4), PublicKey (toy_key 3)] [[]] 8 [Some (toy_proof 3 11 50 9)] [1] 9 = Some (req, res)"
    using toy_payment [of 9 30 50] by (fastforce simp: BoundPaymentProof_def idx_def)
  have x: "sum_hash [PrivateKey (toy_key 4)] = Some (PublicKey (toy_key 4))" "length (replicate 12 (0 :: byte)) = 12"
    "rootHistory (open_vault 0) 1 (Root (toy_proof 3 11 50 9)) = Some True"
    "\<forall>nf. sum_hash [PrivateKey (toy_key 3), Indices (toy_proof 3 11 50 9)] = Some nf \<longrightarrow> nullifiers (open_vault 0) 1 nf = Some False"
    by (simp_all add: toy_key_def sum_hash_def open_vault_def)
  from payment_arrives [OF gnark_fr_api toy_agrees toy_note_crypto_laws(3,1) x(2) toy_proves _ _ _ _ _ _ x(1) r x(3,4), where els = "replicate 8 0" and vid = 1 and dk = "[]"]
  obtain c stmt n ct enc where "payment_witness 1 2 req = Some c" "PaymentCircuit_Define fr_api sum_hash c = Some ()"
    "ScanForErc20Notes toy_note_crypto sum_hash [] (PublicKey (toy_key 4)) [\<lparr>Commitment = stmt ! 4, CipherText = ct, EncTxData = enc\<rparr>] = Inr [n]"
    "Amount n = 30" "TokenId n = 9" "note_commitment n = stmt ! 4" by auto
  with r show ?thesis
    by (intro exI [of _ req] exI [of _ res] exI [of _ c] exI [of _ n] exI [of _ ct] exI [of _ enc]) simp
qed

text \<open>
  A payment with a protocol fee is provable exactly when it balances. For a note of the sender and outputs and
  fee within the range of the circuit, the assignment built from the request satisfies the fee circuit exactly
  when both outputs and the fee together are the value of the note; the statement for the contract is the
  statement of a plain payment with the fee at its end.
\<close>

theorem fee_request_accepted_iff_balanced:
  assumes "gnark api" "poseidon_agrees H pos" "proves_note H 8 key salt v t p" "0 < v" "v < 10 ^ 36"
    and "0 \<le> v0" "v0 < 10 ^ 36" "0 \<le> v1" "v1 < 10 ^ 36" "0 \<le> fee" "fee < 10 ^ 36"
    and "BoundPaymentFeeProof cr H coins nonce rand addr fee 0 [v] [key] [salt] [v0, v1] [pkBob, PublicKey key] [ek] 8 [Some p] [tr] t = Some (req, res)"
  shows "\<exists>c stmt. paymentFee_witness 2 req = Some c \<and> (PaymentFeeCircuit_Define api pos c = Some () \<longleftrightarrow> v0 + v1 + fee = v) \<and>
    payment_signal 1 2 req = Some stmt \<and> ContractStatement res = Some (stmt @ [fee])"
proof -
  have len: "length (Elements p) = 8" using assms(3) by (simp add: proves_note_def)
  from assms(12) have b: "build_payment cr H coins nonce rand (bound_input H 8 [v] [key] [Some p]) (Some addr) (Some fee) 0 [v] [key] [salt]
      [v0, v1] [pkBob, PublicKey key] ek 8 [Some p] [tr] t = Some (req, res)"
    by (simp add: BoundPaymentFeeProof_def idx_def)
  from b _ len obtain ss nf c0 c1
    where h: "H [PrivateKey key, Indices p] = Some nf" "H [pkBob, SaltBToField (DerivePaymentSalt cr ss), v0, t] = Some c0"
      "H [PublicKey key, RandomInField (rand 1), v1, t] = Some c1"
    and r: "r_statement res = [0, tr, Root p, nf, c0, c1, addr, fee]"
      "r_inputs res = 1 \<and> r_outputs res = 2 \<and> r_contractAddress res = Some addr \<and> r_fee res = Some fee"
      "payment_signal 1 2 req = Some [0, tr, Root p, nf, c0, c1, addr]" "q_fee req = bigInt_String fee"
    and w: "payment_witness 1 2 req = Some (single_witness 0 addr key salt v p tr nf [c0, c1] [pkBob, PublicKey key] [v0, v1]
       [SaltBToField (DerivePaymentSalt cr ss), RandomInField (rand 1)] t)"
    by (rule build_payment_single) (use assms(4) in auto)
  let ?c = "PaymentCircuit.extend (single_witness 0 addr key salt v p tr nf [c0, c1] [pkBob, PublicKey key] [v0, v1]
       [SaltBToField (DerivePaymentSalt cr ss), RandomInField (rand 1)] t) (PaymentFeeCircuit.fields fee)"
  have n: "payment_notes_ok (\<lambda>j. j = 1) pos ?c" by (rule single_notes_ok [OF assms(2-9) h]) simp
  have f: "fv (v0 + v1 + fee) = v0 + v1 + fee" "fv v = v" using assms(4-11) by (simp_all add: fv_def SNARK_SCALAR_FIELD_def)
  have "StFee ?c = fee" "TmMerkleTreeDepth (Config ?c) < 254" by (simp_all add: PaymentCircuit.defs PaymentFeeCircuit.defs single_witness_def)
  with gnark.PaymentFeeCircuit_Define_iff [OF assms(1), of ?c pos] n f
  have "PaymentFeeCircuit_Define api pos ?c = Some () \<longleftrightarrow> v0 + v1 + fee = v" by (simp add: single_sums)
  moreover have "paymentFee_witness 2 req = Some ?c" using w by (simp add: paymentFee_witness_def r(4))
  moreover have "ContractStatement res = Some ([0, tr, Root p, nf, c0, c1, addr] @ [fee])"
    using r(1,2) by (simp add: ContractStatement_def contract_layout_def idx_def upt_payment)
  ultimately show ?thesis using r(3) by blast
qed

theorem fee_request_accepted_iff_balanced_witness:
  "\<exists>req res c. BoundPaymentFeeProof toy_note_crypto sum_hash toy_secret (Some (replicate 12 0)) (\<lambda>_. []) 99 5 0 [50] [toy_key 3] [11] [30, 15]
      [PublicKey (toy_key 4), PublicKey (toy_key 3)] [[]] 8 [Some (toy_proof 3 11 50 9)] [1] 9 = Some (req, res) \<and>
    paymentFee_witness 2 req = Some c \<and> PaymentFeeCircuit_Define fr_api sum_hash c = Some ()"
proof -
  obtain req res where r: "BoundPaymentFeeProof toy_note_crypto sum_hash toy_secret (Some (replicate 12 0)) (\<lambda>_. []) 99 5 0 [50] [toy_key 3] [11] [30, 15]
      [PublicKey (toy_key 4), PublicKey (toy_key 3)] [[]] 8 [Some (toy_proof 3 11 50 9)] [1] 9 = Some (req, res)"
    using toy_payment [of 9 30 50] by (fastforce simp: BoundPaymentFeeProof_def idx_def)
  from fee_request_accepted_iff_balanced [OF gnark_fr_api toy_agrees toy_proves _ _ _ _ _ _ _ _ r] r show ?thesis by auto
qed

text \<open>
  The statement the client submits is the one the relayer and the contract read. For any number of
  inputs and outputs the grouped statement is the message, the trees, the roots, the nullifiers, the
  commitments and the address; the root of a padding input is 0, that of any other input is the root of its
  proof; and the keys that the swap relayer claims for a receipt with this statement are, in order, those of
  the nonzero nullifiers of the inputs with their trees.
\<close>

theorem contract_statement_read:
  assumes "BoundPaymentProof cr H coins nonce rand addr msg valuesIn keysIn saltsIn valuesOut pks eks d proofs trees t = Some (req, res)"
    and "length trees = length valuesIn"
  shows "\<exists>roots nfs cmts stmt. ContractStatement res = Some stmt \<and> stmt = msg # trees @ roots @ nfs @ cmts @ [addr] \<and>
    length roots = length valuesIn \<and> length nfs = length valuesIn \<and> length cmts = length valuesOut \<and>
    payment_roots valuesIn proofs = Some roots \<and>
    (\<forall>i<length valuesIn. \<exists>k es. bound_input H d valuesIn keysIn proofs i = Some (nfs ! i, k, es)) \<and>
    receipt_keys \<lparr>proof8 = els, signal = stmt, nIn = int (length valuesIn), nOut = int (length valuesOut)\<rparr> =
      map (\<lambda>i. nullifier_key (trees ! i) (nfs ! i)) (filter (\<lambda>i. nfs ! i \<noteq> 0) [0..<length valuesIn])"
proof -
  let ?n = "length valuesIn"
  from assms(1) obtain ek ins salts cmts ct enc roots st where
    ins: "mapM (bound_input H d valuesIn keysIn proofs) [0..<?n] = Some ins"
    and out: "payment_outputs cr H coins nonce rand ek valuesOut pks t = Some (salts, cmts, ct, enc)"
    and roots: "payment_roots valuesIn proofs = Some roots" and st: "payment_statement msg trees roots (map fst ins) cmts = Some st"
    and res: "r_statement res = st @ [addr]" "r_inputs res = ?n" "r_outputs res = length valuesOut" "r_contractAddress res = Some addr" "r_fee res = None"
    by (auto simp: BoundPaymentProof_def build_payment_def bind_eq_Some_conv Let_def)
  have len: "length ins = ?n" "length roots = ?n" "length cmts = length valuesOut"
    using mapM_length [OF ins] roots out
    by (auto simp: payment_roots_def payment_outputs_def bind_eq_Some_conv Let_def split: if_splits prod.splits dest!: mapM_length)
  define nfs where "nfs = map fst ins"
  have n: "length nfs = ?n" by (simp add: nfs_def len)
  have "st = msg # concat (map (\<lambda>i. [trees ! i, roots ! i, nfs ! i]) [0..<?n]) @ cmts"
    using payment_statement_Some [OF st] len assms(2) by (simp add: nfs_def)
  then have cs: "ContractStatement res = Some (msg # trees @ roots @ nfs @ cmts @ [addr])"
    using contract_layout_interleaved [OF assms(2) len(2) n len(3), of msg "[addr]"] res by (simp add: ContractStatement_def)
  have bi: "\<exists>k es. bound_input H d valuesIn keysIn proofs i = Some (nfs ! i, k, es)" if "i < ?n" for i
    using mapM_nth [OF ins, of i] that len by (simp add: nfs_def) (metis prod.collapse)
  show ?thesis using cs bi len n roots receipt_keys_statement [OF assms(2) len(2) n] by blast
qed

theorem contract_statement_read_witness:
  "\<exists>req res stmt. BoundPaymentProof toy_note_crypto sum_hash toy_secret (Some (replicate 12 0)) (\<lambda>_. []) 99 0 [50] [toy_key 3] [11] [30, 20]
      [PublicKey (toy_key 4), PublicKey (toy_key 3)] [[]] 8 [Some (toy_proof 3 11 50 9)] [1] 9 = Some (req, res) \<and>
    ContractStatement res = Some stmt \<and> length stmt = 7"
proof -
  obtain req res where r: "BoundPaymentProof toy_note_crypto sum_hash toy_secret (Some (replicate 12 0)) (\<lambda>_. []) 99 0 [50] [toy_key 3] [11] [30, 20]
      [PublicKey (toy_key 4), PublicKey (toy_key 3)] [[]] 8 [Some (toy_proof 3 11 50 9)] [1] 9 = Some (req, res)"
    using toy_payment [of 9 30 50] by (fastforce simp: BoundPaymentProof_def idx_def)
  from contract_statement_read [OF this] r show ?thesis by fastforce
qed

text \<open>
  The older payment request cannot be served. \<^verbatim>\<open>PaymentProof\<close> does not send the contract address that the
  endpoint requires, so no assignment is ever built from it, whatever its size.
\<close>

theorem payment_without_address_rejected:
  assumes "PaymentProof cr H coins nonce rand msg valuesIn keysIn saltsIn valuesOut pks eks d proofs trees t = Some (req, res)"
  shows "payment_witness n m req = None"
proof -
  have "q_contractAddress req = []"
    using assms by (auto simp: PaymentProof_def build_payment_def bind_eq_Some_conv Let_def)
  moreover have "var [] = None" by (simp add: var_def bigInt_SetString0_def)
  ultimately show ?thesis by (simp add: payment_witness_def split: Option.bind_splits)
qed

theorem payment_without_address_rejected_witness:
  "\<exists>req res. PaymentProof toy_note_crypto sum_hash toy_secret (Some (replicate 12 0)) (\<lambda>_. []) 0 [50] [toy_key 3] [11] [30, 20]
      [PublicKey (toy_key 4), PublicKey (toy_key 3)] [[]] 8 [Some (toy_proof 3 11 50 9)] [1] 9 = Some (req, res) \<and>
    payment_witness 1 2 req = None"
proof -
  have "ValidKey toy_note_crypto []" by (simp add: toy_note_crypto_def)
  then obtain req res where "PaymentProof toy_note_crypto sum_hash toy_secret (Some (replicate 12 0)) (\<lambda>_. []) 0 [50] [toy_key 3] [11] [30, 20]
      [PublicKey (toy_key 4), PublicKey (toy_key 3)] [[]] 8 [Some (toy_proof 3 11 50 9)] [1] 9 = Some (req, res)"
    using toy_enc_sent [of 9 30]
    by (simp add: PaymentProof_def build_payment_def tree_input_def payment_outputs_def payment_roots_def payment_statement_def toy_capsule_sent
        GetNullifierWithTree_def client_Erc20CommitmentV2_def sealed_def sum_hash_def idx_def upt_payment)
  with payment_without_address_rejected [OF this] show ?thesis by blast
qed

text \<open>
  A note sent over a channel comes back. With values of at most 256 bits the note is encrypted, and decryption
  with the same key returns the amount, the token and the salt; no other value is encrypted.
\<close>

theorem channel_note_roundtrip:
  assumes "note_aead cr" "length nonce = 12" "0 \<le> amount" "0 \<le> tokenId" "0 \<le> salt"
  shows "if amount < 2 ^ 256 \<and> tokenId < 2 ^ 256 \<and> salt < 2 ^ 256
    then \<exists>ct. ChannelEncryptNote cr (Some nonce) key amount tokenId salt = Some (Inr ct) \<and>
      ChannelDecryptNote cr key ct = Inr \<lparr>cn_amount = amount, cn_tokenId = tokenId, cn_salt = salt\<rparr>
    else ChannelEncryptNote cr (Some nonce) key amount tokenId salt = None"
proof (cases "amount < 2 ^ 256 \<and> tokenId < 2 ^ 256 \<and> salt < 2 ^ 256")
  case True
  then obtain a t s where f: "FillBytes 32 amount = Some a" "FillBytes 32 tokenId = Some t" "FillBytes 32 salt = Some s"
    using assms(3-5) by (simp add: FillBytes_def)
  note b = f [THEN FillBytes_SetBytes]
  let ?ct = "nonce @ Seal cr key nonce (a @ t @ s) []"
  have "Open cr key (take 12 ?ct) (drop 12 ?ct) [] = Some (a @ t @ s)" using assms(1,2) by (simp add: note_aead_def)
  then have "ChannelDecryptNote cr key ?ct = Inr \<lparr>cn_amount = amount, cn_tokenId = tokenId, cn_salt = salt\<rparr>"
    using b assms(2-5) by (simp add: ChannelDecryptNote_def aesGCMDecrypt_def)
  moreover have "ChannelEncryptNote cr (Some nonce) key amount tokenId salt = Some (Inr ?ct)"
    by (simp add: ChannelEncryptNote_def aesGCMEncrypt_def f)
  ultimately show ?thesis using True by simp
next
  case False
  then show ?thesis using assms(3-5) by (auto simp: ChannelEncryptNote_def FillBytes_def split: Option.bind_splits)
qed

theorem channel_note_roundtrip_witness:
  "\<exists>ct. ChannelEncryptNote toy_note_crypto (Some (replicate 12 0)) [] 30 9 4 = Some (Inr ct) \<and>
    ChannelDecryptNote toy_note_crypto [] ct = Inr \<lparr>cn_amount = 30, cn_tokenId = 9, cn_salt = 4\<rparr>"
  using channel_note_roundtrip [OF toy_note_crypto_laws(1), of "replicate 12 0" 30 9 4 "[]"] by simp

end
