(* ===== verification/Prove_Server.thy ===== *)
theory Prove_Server
  imports Client_Witness
begin

section \<open>A proving endpoint and its client\<close>

text \<open>
  What the handlers of the proving servers have in common (\<^verbatim>\<open>server/circuits/*/handler.go\<close>): bind the JSON body,
  build the witness, prove, verify, and answer with the proof in the contract's order and the public signals;
  the API-key guard in front of them (\<^verbatim>\<open>server/api/server.go\<close>); and the client's side of the exchange
  (\<^verbatim>\<open>PostProof\<close>, \<^verbatim>\<open>postAndParse\<close>). The Groth16 backend of gnark is a parameter.
\<close>

subsection \<open>The proving backend\<close>

record groth16_proof =
  Ar :: "int \<times> int"
  Bs :: "(int \<times> int) \<times> (int \<times> int)"
  Krs :: "int \<times> int"

record 'c groth16 =
  Compiles :: bool
  Prove :: "'c \<Rightarrow> groth16_proof option"
  Verify :: "groth16_proof \<Rightarrow> 'c \<Rightarrow> bool"

text \<open>
  What gnark documents for keys that belong to the circuit: the circuit compiles, \<^verbatim>\<open>Prove\<close> succeeds exactly
  on the satisfying assignments, and \<^verbatim>\<open>Verify\<close> accepts what \<^verbatim>\<open>Prove\<close> returned.
\<close>

definition proves_exactly :: "'c groth16 \<Rightarrow> ('c \<Rightarrow> unit option) \<Rightarrow> bool" where
  "proves_exactly g define \<longleftrightarrow> Compiles g \<and> (\<forall>c. Prove g c \<noteq> None \<longleftrightarrow> define c = Some ()) \<and>
     (\<forall>c p. Prove g c = Some p \<longrightarrow> Verify g p c)"

subsection \<open>The server\<close>

datatype prove_stage = Stage_auth | Stage_route | Stage_bind | Stage_parse | Stage_busy | Stage_compile | Stage_witness | Stage_prove | Stage_verify | Stage_panic

datatype server_reply = Failed nat prove_stage | Proved "string list" "string list"

text \<open>The coordinates in the order of the Solidity verifier.\<close>

definition proofRemix :: "groth16_proof \<Rightarrow> int list" where
  "proofRemix p = (let (ax, ay) = Ar p; ((bx0, bx1), (by0, by1)) = Bs p; (cx, cy) = Krs p
     in [ax, ay, bx1, bx0, by1, by0, cx, cy])"

text \<open>
  A JSON array read into a Go array of a fixed size, and the \<^verbatim>\<open>required\<close> bindings: no field is empty, and no
  array has empty elements only.
\<close>

definition json_array :: "nat \<Rightarrow> string list \<Rightarrow> string list" where
  "json_array n xs = take n xs @ replicate (n - length xs) []"

definition required :: "string list \<Rightarrow> string list list \<Rightarrow> bool" where
  "required scalars arrays \<longleftrightarrow> (\<forall>s\<in>set scalars. s \<noteq> []) \<and> (\<forall>a\<in>set arrays. \<exists>s\<in>set a. s \<noteq> [])"

text \<open>
  The body of a handler, given the bound request's witness and public signals. A panic is recovered by gin and
  answered like an internal error. Numbers are printed in decimal.
\<close>

definition prove_endpoint :: "'c groth16 \<Rightarrow> bool \<Rightarrow> 'c option \<Rightarrow> int list option \<Rightarrow> server_reply" where
  "prove_endpoint g bound witness signals = (
     if \<not> bound then Failed 400 Stage_bind
     else if \<not> Compiles g then Failed 500 Stage_compile
     else case witness of None \<Rightarrow> Failed 500 Stage_witness
     | Some w \<Rightarrow>
       (case Prove g w of None \<Rightarrow> Failed 500 Stage_prove
       | Some p \<Rightarrow>
         if \<not> Verify g p w then Failed 500 Stage_verify
         else case signals of None \<Rightarrow> Failed 500 Stage_panic
         | Some publicSignal \<Rightarrow> Proved (map bigInt_String (proofRemix p)) (map bigInt_String publicSignal)))"

text \<open>The guard: with a key configured, every request has to carry it in \<^verbatim>\<open>X-Gnark-Key\<close>.\<close>

definition api_key_guard :: "string \<Rightarrow> string \<Rightarrow> server_reply \<Rightarrow> server_reply" where
  "api_key_guard apiKey header reply = (if apiKey \<noteq> [] \<and> header \<noteq> apiKey then Failed 401 Stage_auth else reply)"

subsection \<open>The client\<close>

datatype request_error = Not_built | No_active_slots | Status nat | Proof_length nat | Invalid_number string nat

record AuctionProofResult =
  res_proof :: "int list"
  res_signal :: "int list"

text \<open>The client posts with no header of its own.\<close>

definition PostProof :: "string \<Rightarrow> server_reply \<Rightarrow> request_error + (string list \<times> string list)" where
  "PostProof apiKey served = (case api_key_guard apiKey [] served of
       Failed status stage \<Rightarrow> Inl (Status status)
     | Proved p s \<Rightarrow> Inr (p, s))"

fun numbers_from :: "nat \<Rightarrow> string list \<Rightarrow> request_error + int list" where
  "numbers_from i [] = Inr []"
| "numbers_from i (n # ns) = (case bigInt_SetString n of
       None \<Rightarrow> Inl (Invalid_number n i)
     | Some v \<Rightarrow> (case numbers_from (Suc i) ns of Inl e \<Rightarrow> Inl e | Inr vs \<Rightarrow> Inr (v # vs)))"

definition jsonNumbersToBigInts :: "string list \<Rightarrow> request_error + int list" where
  "jsonNumbersToBigInts ns = numbers_from 0 ns"

definition postAndParse :: "string \<Rightarrow> server_reply \<Rightarrow> request_error + AuctionProofResult" where
  "postAndParse apiKey served = (case PostProof apiKey served of
       Inl e \<Rightarrow> Inl e
     | Inr (p, s) \<Rightarrow>
       if length p \<noteq> 8 then Inl (Proof_length (length p))
       else case jsonNumbersToBigInts p of Inl e \<Rightarrow> Inl e
       | Inr pr \<Rightarrow> (case jsonNumbersToBigInts s of Inl e \<Rightarrow> Inl e
         | Inr sig \<Rightarrow> Inr \<lparr>res_proof = pr, res_signal = sig\<rparr>))"

subsection \<open>Lemmas\<close>

lemma jsonNumbers_String [simp]: "jsonNumbersToBigInts (map bigInt_String vs) = Inr vs"
proof -
  have "numbers_from i (map bigInt_String vs) = Inr vs" for i
    by (induction vs arbitrary: i) (simp_all add: SetString_String)
  then show ?thesis by (simp add: jsonNumbersToBigInts_def)
qed

lemma length_proofRemix [simp]: "length (proofRemix p) = 8"
  by (simp add: proofRemix_def split_beta Let_def)

declare bigInt_String_nonempty [simp]

lemma json_array_exact [simp]: "length xs = n \<Longrightarrow> json_array n xs = xs"
  by (simp add: json_array_def)

lemma length_json_array [simp]: "length (json_array n xs) = n"
  by (simp add: json_array_def)

lemma array_present: "(\<exists>s\<in>set (map bigInt_String vs). s \<noteq> []) \<longleftrightarrow> vs \<noteq> []"
  by (cases vs) simp_all

text \<open>An exchange with a server without an API key, over a request that binds and whose signals parse.\<close>

lemma exchange_iff:
  assumes "proves_exactly g define"
  shows "postAndParse [] (prove_endpoint g True (Some c) (Some sig)) =
    (case Prove g c of None \<Rightarrow> Inl (Status 500) | Some p \<Rightarrow> Inr \<lparr>res_proof = proofRemix p, res_signal = sig\<rparr>)"
    "Prove g c \<noteq> None \<longleftrightarrow> define c = Some ()"
  using assms
  by (auto simp: proves_exactly_def postAndParse_def PostProof_def api_key_guard_def prove_endpoint_def split: option.splits)

text \<open>What an exchange gives: the proof and the signals exactly when the circuit accepts the assignment.\<close>

definition answers :: "request_error + AuctionProofResult \<Rightarrow> bool \<Rightarrow> int list \<Rightarrow> bool" where
  "answers r ok sig \<longleftrightarrow> (if ok then (\<exists>p. length p = 8 \<and> r = Inr \<lparr>res_proof = p, res_signal = sig\<rparr>) else r = Inl (Status 500))"

lemma exchange_answers:
  assumes "proves_exactly g define" "define c = Some () \<longleftrightarrow> ok"
  shows "answers (postAndParse [] (prove_endpoint g True (Some c) (Some sig))) ok sig"
  using exchange_iff(1) [OF assms(1), of c sig] exchange_iff(2) [OF assms(1), of c] assms(2) by (auto simp: answers_def split: option.splits)

lemma answers_guarded:
  "apiKey \<noteq> [] \<Longrightarrow> postAndParse apiKey served = Inl (Status 401)"
  by (simp add: postAndParse_def PostProof_def api_key_guard_def)

text \<open>A backend that proves exactly the assignments of a circuit, for the examples.\<close>

definition toy_groth16 :: "('c \<Rightarrow> unit option) \<Rightarrow> 'c groth16" where
  "toy_groth16 define = \<lparr>Compiles = True,
     Prove = (\<lambda>c. map_option (\<lambda>_. \<lparr>Ar = (1, 2), Bs = ((3, 4), (5, 6)), Krs = (7, 8)\<rparr>) (define c)), Verify = (\<lambda>p c. True)\<rparr>"

lemma toy_groth16_exact: "proves_exactly (toy_groth16 define) define"
  by (auto simp: proves_exactly_def toy_groth16_def)

end
