(* ===== verification/Auction_Client.thy ===== *)
theory Auction_Client
  imports Prove_Server Auction
begin

section \<open>The auction: from the participants to the circuits\<close>

text \<open>
  The client of \<^verbatim>\<open>enygma_dvp_auctions/src/core/prover_auction.go\<close> and the six endpoints of its proving server
  (\<^verbatim>\<open>gnark_circuits/server/circuits/auction*\<close>). Each client function computes the statement, posts the request
  and parses the answer; each handler turns a request into the assignment of its circuit and lists the
  public signals. The theorems follow an honest auction: every request is proved exactly when the circuit's
  condition on it holds, and the settlement pays the highest bid.
\<close>

subsection \<open>Locking the token\<close>

record AuctionLockParams =
  lp_Bob :: KeyPair
  lp_TokenId :: int
  lp_SaltIn :: int
  lp_TreeNumber :: int
  lp_MerkleProof :: MerkleProof_data
  lp_SaltLocked :: int
  lp_SaltRevert :: int

record AuctionLockRequest =
  lr_stAuctionId :: string
  lr_stTreeNumber :: string
  lr_stMerkleRoot :: string
  lr_stNullifier :: string
  lr_stCommitLocked :: string
  lr_stNftTokenId :: string
  lr_stRevertCommit :: string
  lr_wtTreeNumber :: string
  lr_wtSpendKey :: string
  lr_wtTokenId :: string
  lr_wtSaltIn :: string
  lr_wtPathElements :: "string list"
  lr_wtPathIndex :: string
  lr_wtSaltLocked :: string
  lr_wtSaltRevert :: string

definition auction_GetNullifierWithTree :: "client_hash \<Rightarrow> int \<Rightarrow> int \<Rightarrow> int \<Rightarrow> int option" where
  "auction_GetNullifierWithTree H sk tr pathIndex = GetNullifier H sk (tr * 256 + pathIndex)"

definition lock_payload :: "client_hash \<Rightarrow> AuctionLockParams \<Rightarrow> AuctionLockRequest option" where
  "lock_payload H p = do {
     nullifier \<leftarrow> auction_GetNullifierWithTree H (PrivateKey (lp_Bob p)) (lp_TreeNumber p) (Indices (lp_MerkleProof p));
     commitLocked \<leftarrow> client_Erc721Commitment H (lp_TokenId p) (PublicKey (lp_Bob p)) (lp_SaltLocked p);
     auctionId \<leftarrow> GetAuctionId H commitLocked;
     revertCommit \<leftarrow> client_Erc721Commitment H (lp_TokenId p) (PublicKey (lp_Bob p)) (lp_SaltRevert p);
     Some \<lparr>lr_stAuctionId = bigInt_String auctionId, lr_stTreeNumber = bigInt_String (lp_TreeNumber p),
       lr_stMerkleRoot = bigInt_String (Root (lp_MerkleProof p)), lr_stNullifier = bigInt_String nullifier,
       lr_stCommitLocked = bigInt_String commitLocked, lr_stNftTokenId = bigInt_String (lp_TokenId p),
       lr_stRevertCommit = bigInt_String revertCommit, lr_wtTreeNumber = bigInt_String (lp_TreeNumber p),
       lr_wtSpendKey = bigInt_String (PrivateKey (lp_Bob p)), lr_wtTokenId = bigInt_String (lp_TokenId p),
       lr_wtSaltIn = bigInt_String (lp_SaltIn p), lr_wtPathElements = map bigInt_String (Elements (lp_MerkleProof p)),
       lr_wtPathIndex = bigInt_String (Indices (lp_MerkleProof p)), lr_wtSaltLocked = bigInt_String (lp_SaltLocked p),
       lr_wtSaltRevert = bigInt_String (lp_SaltRevert p)\<rparr> }"

definition posted :: "string \<Rightarrow> ('r \<Rightarrow> server_reply) \<Rightarrow> 'r option \<Rightarrow> request_error + AuctionProofResult" where
  "posted apiKey server req = (case req of None \<Rightarrow> Inl Not_built | Some r \<Rightarrow> postAndParse apiKey (server r))"

definition AuctionLockProof :: "client_hash \<Rightarrow> string \<Rightarrow> (AuctionLockRequest \<Rightarrow> server_reply) \<Rightarrow> AuctionLockParams \<Rightarrow> request_error + AuctionProofResult" where
  "AuctionLockProof H apiKey server p = posted apiKey server (lock_payload H p)"

definition lock_witness :: "AuctionLockRequest \<Rightarrow> AuctionLockCircuit option" where
  "lock_witness req = do {
     auctionId \<leftarrow> var (lr_stAuctionId req); stTree \<leftarrow> var (lr_stTreeNumber req); root \<leftarrow> var (lr_stMerkleRoot req);
     nf \<leftarrow> var (lr_stNullifier req); locked \<leftarrow> var (lr_stCommitLocked req); nft \<leftarrow> var (lr_stNftTokenId req);
     revert \<leftarrow> var (lr_stRevertCommit req); wtTree \<leftarrow> var (lr_wtTreeNumber req); sk \<leftarrow> var (lr_wtSpendKey req);
     token \<leftarrow> var (lr_wtTokenId req); saltIn \<leftarrow> var (lr_wtSaltIn req); index \<leftarrow> var (lr_wtPathIndex req);
     saltLocked \<leftarrow> var (lr_wtSaltLocked req); saltRevert \<leftarrow> var (lr_wtSaltRevert req);
     path \<leftarrow> vars 8 (json_array 8 (lr_wtPathElements req));
     Some \<lparr>AuctionLockCircuit.Config = \<lparr>AuctionLockCircuitConfig.TmMerkleTreeDepth = 8\<rparr>, AuctionLockCircuit.StAuctionId = auctionId,
       AuctionLockCircuit.StTreeNumber = stTree, AuctionLockCircuit.StMerkleRoot = root, AuctionLockCircuit.StNullifier = nf,
       AuctionLockCircuit.StCommitLocked = locked, AuctionLockCircuit.StNftTokenId = nft, AuctionLockCircuit.StRevertCommit = revert,
       AuctionLockCircuit.WtTreeNumber = wtTree, AuctionLockCircuit.WtSpendKey = sk, AuctionLockCircuit.WtTokenId = token,
       AuctionLockCircuit.WtSaltIn = saltIn, AuctionLockCircuit.WtPathElements = path, AuctionLockCircuit.WtPathIndex = index,
       AuctionLockCircuit.WtSaltLocked = saltLocked, AuctionLockCircuit.WtSaltRevert = saltRevert\<rparr> }"

definition lock_signal :: "AuctionLockRequest \<Rightarrow> int list option" where
  "lock_signal req = mapM ParseBigInt [lr_stAuctionId req, lr_stTreeNumber req, lr_stMerkleRoot req, lr_stNullifier req,
     lr_stCommitLocked req, lr_stNftTokenId req, lr_stRevertCommit req]"

definition lock_handler :: "AuctionLockCircuit groth16 \<Rightarrow> AuctionLockRequest \<Rightarrow> server_reply" where
  "lock_handler g req = prove_endpoint g
     (required [lr_stAuctionId req, lr_stTreeNumber req, lr_stMerkleRoot req, lr_stNullifier req, lr_stCommitLocked req,
        lr_stNftTokenId req, lr_stRevertCommit req, lr_wtTreeNumber req, lr_wtSpendKey req, lr_wtTokenId req, lr_wtSaltIn req,
        lr_wtPathIndex req, lr_wtSaltLocked req, lr_wtSaltRevert req] [json_array 8 (lr_wtPathElements req)])
     (lock_witness req) (lock_signal req)"

subsection \<open>Bidding\<close>

record AuctionBidParams =
  bp_AuctionId :: int
  bp_Bidder :: KeyPair
  bp_BidAmount :: int
  bp_TokenId :: int
  bp_SaltIn :: int
  bp_TreeNumber :: int
  bp_MerkleProof :: MerkleProof_data
  bp_BobPk :: int
  bp_SaltA :: int
  bp_SaltB :: int
  bp_SaltRevert :: int

record AuctionBidRequest =
  br_stAuctionId :: string
  br_stTreeNumber :: string
  br_stMerkleRoot :: string
  br_stNullifier :: string
  br_stCommitA :: string
  br_stCommitB :: string
  br_stRevertCommit :: string
  br_wtAuctionId :: string
  br_wtTreeNumber :: string
  br_wtSpendKey :: string
  br_wtAmount :: string
  br_wtTokenId :: string
  br_wtSaltIn :: string
  br_wtPathElements :: "string list"
  br_wtPathIndex :: string
  br_wtSpendPkBob :: string
  br_wtSaltA :: string
  br_wtSaltB :: string
  br_wtBidAmount :: string
  br_wtSaltRevert :: string

definition bid_payload :: "client_hash \<Rightarrow> AuctionBidParams \<Rightarrow> AuctionBidRequest option" where
  "bid_payload H p = do {
     nullifier \<leftarrow> auction_GetNullifierWithTree H (PrivateKey (bp_Bidder p)) (bp_TreeNumber p) (Indices (bp_MerkleProof p));
     commitA \<leftarrow> client_Erc20CommitmentV2 H (PublicKey (bp_Bidder p)) (bp_SaltA p) (bp_BidAmount p) (bp_TokenId p);
     commitB \<leftarrow> client_Erc20CommitmentV2 H (bp_BobPk p) (bp_SaltB p) (bp_BidAmount p) (bp_TokenId p);
     revertCommit \<leftarrow> client_Erc20CommitmentV2 H (PublicKey (bp_Bidder p)) (bp_SaltRevert p) (bp_BidAmount p) (bp_TokenId p);
     Some \<lparr>br_stAuctionId = bigInt_String (bp_AuctionId p), br_stTreeNumber = bigInt_String (bp_TreeNumber p),
       br_stMerkleRoot = bigInt_String (Root (bp_MerkleProof p)), br_stNullifier = bigInt_String nullifier,
       br_stCommitA = bigInt_String commitA, br_stCommitB = bigInt_String commitB, br_stRevertCommit = bigInt_String revertCommit,
       br_wtAuctionId = bigInt_String (bp_AuctionId p), br_wtTreeNumber = bigInt_String (bp_TreeNumber p),
       br_wtSpendKey = bigInt_String (PrivateKey (bp_Bidder p)), br_wtAmount = bigInt_String (bp_BidAmount p),
       br_wtTokenId = bigInt_String (bp_TokenId p), br_wtSaltIn = bigInt_String (bp_SaltIn p),
       br_wtPathElements = map bigInt_String (Elements (bp_MerkleProof p)),
       br_wtPathIndex = bigInt_String (Indices (bp_MerkleProof p)), br_wtSpendPkBob = bigInt_String (bp_BobPk p),
       br_wtSaltA = bigInt_String (bp_SaltA p), br_wtSaltB = bigInt_String (bp_SaltB p),
       br_wtBidAmount = bigInt_String (bp_BidAmount p), br_wtSaltRevert = bigInt_String (bp_SaltRevert p)\<rparr> }"

definition AuctionBidProof :: "client_hash \<Rightarrow> string \<Rightarrow> (AuctionBidRequest \<Rightarrow> server_reply) \<Rightarrow> AuctionBidParams \<Rightarrow> request_error + AuctionProofResult" where
  "AuctionBidProof H apiKey server p = posted apiKey server (bid_payload H p)"

definition bid_witness :: "AuctionBidRequest \<Rightarrow> AuctionBidCircuit option" where
  "bid_witness req = do {
     stId \<leftarrow> var (br_stAuctionId req); stTree \<leftarrow> var (br_stTreeNumber req); root \<leftarrow> var (br_stMerkleRoot req);
     nf \<leftarrow> var (br_stNullifier req); cA \<leftarrow> var (br_stCommitA req); cB \<leftarrow> var (br_stCommitB req); cR \<leftarrow> var (br_stRevertCommit req);
     wtId \<leftarrow> var (br_wtAuctionId req); wtTree \<leftarrow> var (br_wtTreeNumber req); sk \<leftarrow> var (br_wtSpendKey req);
     amount \<leftarrow> var (br_wtAmount req); token \<leftarrow> var (br_wtTokenId req); saltIn \<leftarrow> var (br_wtSaltIn req);
     index \<leftarrow> var (br_wtPathIndex req); pkBob \<leftarrow> var (br_wtSpendPkBob req); saltA \<leftarrow> var (br_wtSaltA req);
     saltB \<leftarrow> var (br_wtSaltB req); bid \<leftarrow> var (br_wtBidAmount req); saltR \<leftarrow> var (br_wtSaltRevert req);
     path \<leftarrow> vars 8 (json_array 8 (br_wtPathElements req));
     Some \<lparr>AuctionBidCircuit.Config = \<lparr>AuctionBidCircuitConfig.TmMerkleTreeDepth = 8, AuctionBidCircuitConfig.TmRange = 10 ^ 36\<rparr>,
       AuctionBidCircuit.StAuctionId = stId, AuctionBidCircuit.StTreeNumber = stTree, AuctionBidCircuit.StMerkleRoot = root,
       AuctionBidCircuit.StNullifier = nf, AuctionBidCircuit.StCommitA = cA, AuctionBidCircuit.StCommitB = cB,
       AuctionBidCircuit.StRevertCommit = cR, AuctionBidCircuit.WtAuctionId = wtId, AuctionBidCircuit.WtTreeNumber = wtTree,
       AuctionBidCircuit.WtSpendKey = sk, AuctionBidCircuit.WtAmount = amount, AuctionBidCircuit.WtTokenId = token,
       AuctionBidCircuit.WtSaltIn = saltIn, AuctionBidCircuit.WtPathElements = path, AuctionBidCircuit.WtPathIndex = index,
       AuctionBidCircuit.WtSpendPkBob = pkBob, AuctionBidCircuit.WtSaltA = saltA, AuctionBidCircuit.WtSaltB = saltB,
       AuctionBidCircuit.WtBidAmount = bid, AuctionBidCircuit.WtSaltRevert = saltR\<rparr> }"

definition bid_signal :: "AuctionBidRequest \<Rightarrow> int list option" where
  "bid_signal req = mapM ParseBigInt [br_stAuctionId req, br_stTreeNumber req, br_stMerkleRoot req, br_stNullifier req,
     br_stCommitA req, br_stCommitB req, br_stRevertCommit req]"

definition bid_handler :: "AuctionBidCircuit groth16 \<Rightarrow> AuctionBidRequest \<Rightarrow> server_reply" where
  "bid_handler g req = prove_endpoint g
     (required [br_stAuctionId req, br_stTreeNumber req, br_stMerkleRoot req, br_stNullifier req, br_stCommitA req,
        br_stCommitB req, br_stRevertCommit req, br_wtAuctionId req, br_wtTreeNumber req, br_wtSpendKey req, br_wtAmount req,
        br_wtTokenId req, br_wtSaltIn req, br_wtPathIndex req, br_wtSpendPkBob req, br_wtSaltA req, br_wtSaltB req,
        br_wtBidAmount req, br_wtSaltRevert req] [json_array 8 (br_wtPathElements req)])
     (bid_witness req) (bid_signal req)"

subsection \<open>The winner of a batch, and of the auction\<close>

text \<open>
  The loop that both settlement functions run: among the active entries the first of the largest amount
  (\<^term>\<open>None\<close> is the index \<^verbatim>\<open>-1\<close> of no winner).
\<close>

definition winner_step :: "(bool \<times> int) list \<Rightarrow> nat \<Rightarrow> nat option \<Rightarrow> nat option" where
  "winner_step xs i winnerIdx = (
     if \<not> fst (xs ! i) then winnerIdx
     else case winnerIdx of None \<Rightarrow> Some i
     | Some w \<Rightarrow> if snd (xs ! i) > snd (xs ! w) then Some i else winnerIdx)"

definition pick_winner :: "(bool \<times> int) list \<Rightarrow> nat option" where
  "pick_winner xs = fold (winner_step xs) [0..<length xs] None"

subsection \<open>A batch\<close>

record AuctionBatchSlot =
  bs_Active :: bool
  bs_CommitA :: int
  bs_Pk :: int
  bs_SaltA :: int
  bs_Amount :: int
  bs_TokenId :: int

record AuctionBatchParams =
  bt_AuctionId :: int
  bt_Slots :: "AuctionBatchSlot list"

record AuctionBatchRequest =
  tr_stAuctionId :: string
  tr_stBidCommitA :: "string list"
  tr_stBatchWinnerCommit :: string
  tr_stBatchWinnerPk :: string
  tr_stBatchWinnerAmount :: string
  tr_wtAuctionId :: string
  tr_wtActive :: "string list"
  tr_wtPkBidder :: "string list"
  tr_wtSaltA :: "string list"
  tr_wtAmount :: "string list"
  tr_wtTokenId :: "string list"
  tr_wtWinnerIdx :: string

definition slot_string :: "(AuctionBatchSlot \<Rightarrow> int) \<Rightarrow> AuctionBatchSlot \<Rightarrow> string" where
  "slot_string f s = (if bs_Active s then bigInt_String (f s) else ''0'')"

definition batch_payload :: "AuctionBatchParams \<Rightarrow> nat \<Rightarrow> AuctionBatchRequest" where
  "batch_payload p winnerIdx = (let winner = bt_Slots p ! winnerIdx in
     \<lparr>tr_stAuctionId = bigInt_String (bt_AuctionId p), tr_stBidCommitA = map (slot_string bs_CommitA) (bt_Slots p),
       tr_stBatchWinnerCommit = bigInt_String (bs_CommitA winner), tr_stBatchWinnerPk = bigInt_String (bs_Pk winner),
       tr_stBatchWinnerAmount = bigInt_String (bs_Amount winner), tr_wtAuctionId = bigInt_String (bt_AuctionId p),
       tr_wtActive = map (\<lambda>s. if bs_Active s then ''1'' else ''0'') (bt_Slots p),
       tr_wtPkBidder = map (slot_string bs_Pk) (bt_Slots p), tr_wtSaltA = map (slot_string bs_SaltA) (bt_Slots p),
       tr_wtAmount = map (slot_string bs_Amount) (bt_Slots p), tr_wtTokenId = map (slot_string bs_TokenId) (bt_Slots p),
       tr_wtWinnerIdx = bigInt_String (int winnerIdx)\<rparr>)"

definition batch_winner :: "AuctionBatchParams \<Rightarrow> nat option" where
  "batch_winner p = pick_winner (map (\<lambda>s. (bs_Active s, bs_Amount s)) (bt_Slots p))"

definition AuctionBatchProof :: "string \<Rightarrow> (AuctionBatchRequest \<Rightarrow> server_reply) \<Rightarrow> AuctionBatchParams \<Rightarrow> request_error + AuctionProofResult" where
  "AuctionBatchProof apiKey server p = (case batch_winner p of
       None \<Rightarrow> Inl No_active_slots
     | Some winnerIdx \<Rightarrow> postAndParse apiKey (server (batch_payload p winnerIdx)))"

definition batch_witness :: "AuctionBatchRequest \<Rightarrow> AuctionBatchCircuit option" where
  "batch_witness req = do {
     stId \<leftarrow> var (tr_stAuctionId req); wCommit \<leftarrow> var (tr_stBatchWinnerCommit req); wPk \<leftarrow> var (tr_stBatchWinnerPk req);
     wAmount \<leftarrow> var (tr_stBatchWinnerAmount req); commits \<leftarrow> vars 100 (json_array 100 (tr_stBidCommitA req));
     wtId \<leftarrow> var (tr_wtAuctionId req); winnerIdx \<leftarrow> var (tr_wtWinnerIdx req);
     actives \<leftarrow> vars 100 (json_array 100 (tr_wtActive req)); pks \<leftarrow> vars 100 (json_array 100 (tr_wtPkBidder req));
     salts \<leftarrow> vars 100 (json_array 100 (tr_wtSaltA req)); amounts \<leftarrow> vars 100 (json_array 100 (tr_wtAmount req));
     tokens \<leftarrow> vars 100 (json_array 100 (tr_wtTokenId req));
     Some \<lparr>AuctionBatchCircuit.StAuctionId = stId, StBidCommitA = commits, AuctionBatchCircuit.StBatchWinnerCommit = wCommit,
       AuctionBatchCircuit.StBatchWinnerPk = wPk, AuctionBatchCircuit.StBatchWinnerAmount = wAmount, AuctionBatchCircuit.WtAuctionId = wtId,
       WtActive = actives, WtPkBidder = pks, AuctionBatchCircuit.WtSaltA = salts, AuctionBatchCircuit.WtAmount = amounts,
       AuctionBatchCircuit.WtTokenId = tokens, WtWinnerIdx = winnerIdx\<rparr> }"

definition batch_signal :: "AuctionBatchRequest \<Rightarrow> int list option" where
  "batch_signal req = do {
     stId \<leftarrow> ParseBigInt (tr_stAuctionId req);
     commits \<leftarrow> decimals 100 (json_array 100 (tr_stBidCommitA req));
     wCommit \<leftarrow> ParseBigInt (tr_stBatchWinnerCommit req); wPk \<leftarrow> ParseBigInt (tr_stBatchWinnerPk req); wAmount \<leftarrow> ParseBigInt (tr_stBatchWinnerAmount req);
     Some (stId # commits @ [wCommit, wPk, wAmount]) }"

definition batch_handler :: "AuctionBatchCircuit groth16 \<Rightarrow> AuctionBatchRequest \<Rightarrow> server_reply" where
  "batch_handler g req = prove_endpoint g
     (required [tr_stAuctionId req, tr_stBatchWinnerCommit req, tr_stBatchWinnerPk req, tr_stBatchWinnerAmount req,
        tr_wtAuctionId req, tr_wtWinnerIdx req]
       (map (json_array 100) [tr_stBidCommitA req, tr_wtActive req, tr_wtPkBidder req, tr_wtSaltA req, tr_wtAmount req, tr_wtTokenId req]))
     (batch_witness req) (batch_signal req)"

subsection \<open>The settlement\<close>

record AuctionFinalBatchResult =
  fb_Active :: bool
  fb_Commit :: int
  fb_Pk :: int
  fb_Amount :: int

record AuctionFinalParams =
  fp_AuctionId :: int
  fp_Batches :: "AuctionFinalBatchResult list"
  fp_BobPk :: int
  fp_SaltB :: int
  fp_UsdcTokenId :: int
  fp_SaltAlice :: int
  fp_NftTokenId :: int
  fp_FloorPrice :: int

record AuctionFinalRequest =
  fr_stAuctionId :: string
  fr_stBatchWinnerCommit :: "string list"
  fr_stBatchWinnerPk :: "string list"
  fr_stBatchWinnerAmount :: "string list"
  fr_stOverallWinnerCommit :: string
  fr_stWinnerPk :: string
  fr_stWinnerCommitB :: string
  fr_stWinnerNftCommit :: string
  fr_stNftTokenId :: string
  fr_stWinningAmount :: string
  fr_stFloorPrice :: string
  fr_wtAuctionId :: string
  fr_wtBatchActive :: "string list"
  fr_wtWinnerBatchIdx :: string
  fr_wtPkBob :: string
  fr_wtSaltB :: string
  fr_wtUsdcTokenId :: string
  fr_wtSaltAlice :: string
  fr_wtNftTokenId :: string

definition result_string :: "(AuctionFinalBatchResult \<Rightarrow> int) \<Rightarrow> AuctionFinalBatchResult \<Rightarrow> string" where
  "result_string f b = (if fb_Active b then bigInt_String (f b) else ''0'')"

definition final_payload :: "client_hash \<Rightarrow> AuctionFinalParams \<Rightarrow> nat \<Rightarrow> AuctionFinalRequest option" where
  "final_payload H p winnerIdx = do {
     let winner = fp_Batches p ! winnerIdx;
     commitB \<leftarrow> client_Erc20CommitmentV2 H (fp_BobPk p) (fp_SaltB p) (fb_Amount winner) (fp_UsdcTokenId p);
     winnerNftCommit \<leftarrow> client_Erc721Commitment H (fp_NftTokenId p) (fb_Pk winner) (fp_SaltAlice p);
     Some \<lparr>fr_stAuctionId = bigInt_String (fp_AuctionId p), fr_stBatchWinnerCommit = map (result_string fb_Commit) (fp_Batches p),
       fr_stBatchWinnerPk = map (result_string fb_Pk) (fp_Batches p), fr_stBatchWinnerAmount = map (result_string fb_Amount) (fp_Batches p),
       fr_stOverallWinnerCommit = bigInt_String (fb_Commit winner), fr_stWinnerPk = bigInt_String (fb_Pk winner),
       fr_stWinnerCommitB = bigInt_String commitB, fr_stWinnerNftCommit = bigInt_String winnerNftCommit,
       fr_stNftTokenId = bigInt_String (fp_NftTokenId p), fr_stWinningAmount = bigInt_String (fb_Amount winner),
       fr_stFloorPrice = bigInt_String (fp_FloorPrice p), fr_wtAuctionId = bigInt_String (fp_AuctionId p),
       fr_wtBatchActive = map (\<lambda>b. if fb_Active b then ''1'' else ''0'') (fp_Batches p),
       fr_wtWinnerBatchIdx = bigInt_String (int winnerIdx), fr_wtPkBob = bigInt_String (fp_BobPk p),
       fr_wtSaltB = bigInt_String (fp_SaltB p), fr_wtUsdcTokenId = bigInt_String (fp_UsdcTokenId p),
       fr_wtSaltAlice = bigInt_String (fp_SaltAlice p), fr_wtNftTokenId = bigInt_String (fp_NftTokenId p)\<rparr> }"

definition final_winner :: "AuctionFinalParams \<Rightarrow> nat option" where
  "final_winner p = pick_winner (map (\<lambda>b. (fb_Active b, fb_Amount b)) (fp_Batches p))"

definition AuctionFinalProof :: "client_hash \<Rightarrow> string \<Rightarrow> (AuctionFinalRequest \<Rightarrow> server_reply) \<Rightarrow> AuctionFinalParams \<Rightarrow> request_error + AuctionProofResult" where
  "AuctionFinalProof H apiKey server p = (case final_winner p of
       None \<Rightarrow> Inl No_active_slots
     | Some winnerIdx \<Rightarrow> posted apiKey server (final_payload H p winnerIdx))"

definition final_witness :: "AuctionFinalRequest \<Rightarrow> AuctionFinalCircuit option" where
  "final_witness req = do {
     stId \<leftarrow> var (fr_stAuctionId req); commits \<leftarrow> vars 10 (json_array 10 (fr_stBatchWinnerCommit req));
     pks \<leftarrow> vars 10 (json_array 10 (fr_stBatchWinnerPk req)); amounts \<leftarrow> vars 10 (json_array 10 (fr_stBatchWinnerAmount req));
     wCommit \<leftarrow> var (fr_stOverallWinnerCommit req); wPk \<leftarrow> var (fr_stWinnerPk req); cB \<leftarrow> var (fr_stWinnerCommitB req);
     cN \<leftarrow> var (fr_stWinnerNftCommit req); stNft \<leftarrow> var (fr_stNftTokenId req); amount \<leftarrow> var (fr_stWinningAmount req);
     floor \<leftarrow> var (fr_stFloorPrice req); wtId \<leftarrow> var (fr_wtAuctionId req); winnerIdx \<leftarrow> var (fr_wtWinnerBatchIdx req);
     pkBob \<leftarrow> var (fr_wtPkBob req); saltB \<leftarrow> var (fr_wtSaltB req); usdc \<leftarrow> var (fr_wtUsdcTokenId req);
     saltAlice \<leftarrow> var (fr_wtSaltAlice req); wtNft \<leftarrow> var (fr_wtNftTokenId req);
     actives \<leftarrow> vars 10 (json_array 10 (fr_wtBatchActive req));
     Some \<lparr>AuctionFinalCircuit.StAuctionId = stId, StBatchWinnerCommit = commits, StBatchWinnerPk = pks, StBatchWinnerAmount = amounts,
       StOverallWinnerCommit = wCommit, StWinnerPk = wPk, StWinnerCommitB = cB, StWinnerNftCommit = cN,
       AuctionFinalCircuit.StNftTokenId = stNft, StWinningAmount = amount, StFloorPrice = floor, AuctionFinalCircuit.WtAuctionId = wtId,
       WtBatchActive = actives, WtWinnerBatchIdx = winnerIdx, WtPkBob = pkBob, AuctionFinalCircuit.WtSaltB = saltB, WtUsdcTokenId = usdc,
       WtSaltAlice = saltAlice, WtNftTokenId = wtNft\<rparr> }"

definition final_signal :: "AuctionFinalRequest \<Rightarrow> int list option" where
  "final_signal req = do {
     stId \<leftarrow> ParseBigInt (fr_stAuctionId req); commits \<leftarrow> decimals 10 (json_array 10 (fr_stBatchWinnerCommit req));
     pks \<leftarrow> decimals 10 (json_array 10 (fr_stBatchWinnerPk req)); amounts \<leftarrow> decimals 10 (json_array 10 (fr_stBatchWinnerAmount req));
     outcome \<leftarrow> mapM ParseBigInt [fr_stOverallWinnerCommit req, fr_stWinnerPk req, fr_stWinnerCommitB req, fr_stWinnerNftCommit req,
       fr_stNftTokenId req, fr_stWinningAmount req, fr_stFloorPrice req];
     Some (stId # commits @ pks @ amounts @ outcome) }"

definition final_handler :: "AuctionFinalCircuit groth16 \<Rightarrow> AuctionFinalRequest \<Rightarrow> server_reply" where
  "final_handler g req = prove_endpoint g
     (required [fr_stAuctionId req, fr_stOverallWinnerCommit req, fr_stWinnerPk req, fr_stWinnerCommitB req, fr_stWinnerNftCommit req,
        fr_stNftTokenId req, fr_stWinningAmount req, fr_stFloorPrice req, fr_wtAuctionId req, fr_wtWinnerBatchIdx req, fr_wtPkBob req,
        fr_wtSaltB req, fr_wtUsdcTokenId req, fr_wtSaltAlice req, fr_wtNftTokenId req]
       (map (json_array 10) [fr_stBatchWinnerCommit req, fr_stBatchWinnerPk req, fr_stBatchWinnerAmount req, fr_wtBatchActive req]))
     (final_witness req) (final_signal req)"

subsection \<open>Taking a deposit back\<close>

record AuctionRevertParams =
  rv_Bob :: KeyPair
  rv_TokenId :: int
  rv_SaltLocked :: int
  rv_SaltOut :: int

record AuctionRevertRequest =
  rr_stAuctionId :: string
  rr_stCommitLocked :: string
  rr_stNftTokenId :: string
  rr_stRevertedCommit :: string
  rr_wtSpendKey :: string
  rr_wtTokenId :: string
  rr_wtSaltLocked :: string
  rr_wtSaltOut :: string

definition revert_payload :: "client_hash \<Rightarrow> AuctionRevertParams \<Rightarrow> AuctionRevertRequest option" where
  "revert_payload H p = do {
     commitLocked \<leftarrow> client_Erc721Commitment H (rv_TokenId p) (PublicKey (rv_Bob p)) (rv_SaltLocked p);
     auctionId \<leftarrow> GetAuctionId H commitLocked;
     revertedCommit \<leftarrow> client_Erc721Commitment H (rv_TokenId p) (PublicKey (rv_Bob p)) (rv_SaltOut p);
     Some \<lparr>rr_stAuctionId = bigInt_String auctionId, rr_stCommitLocked = bigInt_String commitLocked,
       rr_stNftTokenId = bigInt_String (rv_TokenId p), rr_stRevertedCommit = bigInt_String revertedCommit,
       rr_wtSpendKey = bigInt_String (PrivateKey (rv_Bob p)), rr_wtTokenId = bigInt_String (rv_TokenId p),
       rr_wtSaltLocked = bigInt_String (rv_SaltLocked p), rr_wtSaltOut = bigInt_String (rv_SaltOut p)\<rparr> }"

definition AuctionRevertProof :: "client_hash \<Rightarrow> string \<Rightarrow> (AuctionRevertRequest \<Rightarrow> server_reply) \<Rightarrow> AuctionRevertParams \<Rightarrow> request_error + AuctionProofResult" where
  "AuctionRevertProof H apiKey server p = posted apiKey server (revert_payload H p)"

definition revert_witness :: "AuctionRevertRequest \<Rightarrow> AuctionRevertCircuit option" where
  "revert_witness req = do {
     auctionId \<leftarrow> var (rr_stAuctionId req); locked \<leftarrow> var (rr_stCommitLocked req); nft \<leftarrow> var (rr_stNftTokenId req);
     reverted \<leftarrow> var (rr_stRevertedCommit req); sk \<leftarrow> var (rr_wtSpendKey req); token \<leftarrow> var (rr_wtTokenId req);
     saltLocked \<leftarrow> var (rr_wtSaltLocked req); saltOut \<leftarrow> var (rr_wtSaltOut req);
     Some \<lparr>AuctionRevertCircuit.StAuctionId = auctionId, AuctionRevertCircuit.StCommitLocked = locked,
       AuctionRevertCircuit.StNftTokenId = nft, StRevertedCommit = reverted, AuctionRevertCircuit.WtSpendKey = sk,
       AuctionRevertCircuit.WtTokenId = token, AuctionRevertCircuit.WtSaltLocked = saltLocked, WtSaltOut = saltOut\<rparr> }"

definition revert_signal :: "AuctionRevertRequest \<Rightarrow> int list option" where
  "revert_signal req = mapM ParseBigInt [rr_stAuctionId req, rr_stCommitLocked req, rr_stNftTokenId req, rr_stRevertedCommit req]"

definition revert_handler :: "AuctionRevertCircuit groth16 \<Rightarrow> AuctionRevertRequest \<Rightarrow> server_reply" where
  "revert_handler g req = prove_endpoint g
     (required [rr_stAuctionId req, rr_stCommitLocked req, rr_stNftTokenId req, rr_stRevertedCommit req, rr_wtSpendKey req,
        rr_wtTokenId req, rr_wtSaltLocked req, rr_wtSaltOut req] [])
     (revert_witness req) (revert_signal req)"

record AuctionWithdrawParams =
  wp_AuctionId :: int
  wp_Bidder :: KeyPair
  wp_SaltA :: int
  wp_Amount :: int
  wp_TokenId :: int

record AuctionWithdrawRequest =
  wr_stAuctionId :: string
  wr_stCommitA :: string
  wr_wtSpendKey :: string
  wr_wtSaltA :: string
  wr_wtAmount :: string
  wr_wtTokenId :: string
  wr_wtAuctionId :: string

definition withdraw_payload :: "client_hash \<Rightarrow> AuctionWithdrawParams \<Rightarrow> AuctionWithdrawRequest option" where
  "withdraw_payload H p = do {
     commitA \<leftarrow> client_Erc20CommitmentV2 H (PublicKey (wp_Bidder p)) (wp_SaltA p) (wp_Amount p) (wp_TokenId p);
     Some \<lparr>wr_stAuctionId = bigInt_String (wp_AuctionId p), wr_stCommitA = bigInt_String commitA,
       wr_wtSpendKey = bigInt_String (PrivateKey (wp_Bidder p)), wr_wtSaltA = bigInt_String (wp_SaltA p),
       wr_wtAmount = bigInt_String (wp_Amount p), wr_wtTokenId = bigInt_String (wp_TokenId p),
       wr_wtAuctionId = bigInt_String (wp_AuctionId p)\<rparr> }"

definition AuctionWithdrawProof :: "client_hash \<Rightarrow> string \<Rightarrow> (AuctionWithdrawRequest \<Rightarrow> server_reply) \<Rightarrow> AuctionWithdrawParams \<Rightarrow> request_error + AuctionProofResult" where
  "AuctionWithdrawProof H apiKey server p = posted apiKey server (withdraw_payload H p)"

definition withdraw_witness :: "AuctionWithdrawRequest \<Rightarrow> AuctionWithdrawCircuit option" where
  "withdraw_witness req = do {
     stId \<leftarrow> var (wr_stAuctionId req); cA \<leftarrow> var (wr_stCommitA req); sk \<leftarrow> var (wr_wtSpendKey req); saltA \<leftarrow> var (wr_wtSaltA req);
     amount \<leftarrow> var (wr_wtAmount req); token \<leftarrow> var (wr_wtTokenId req); wtId \<leftarrow> var (wr_wtAuctionId req);
     Some \<lparr>AuctionWithdrawCircuit.StAuctionId = stId, AuctionWithdrawCircuit.StCommitA = cA, AuctionWithdrawCircuit.WtSpendKey = sk,
       AuctionWithdrawCircuit.WtSaltA = saltA, AuctionWithdrawCircuit.WtAmount = amount, AuctionWithdrawCircuit.WtTokenId = token,
       AuctionWithdrawCircuit.WtAuctionId = wtId\<rparr> }"

definition withdraw_signal :: "AuctionWithdrawRequest \<Rightarrow> int list option" where
  "withdraw_signal req = mapM ParseBigInt [wr_stAuctionId req, wr_stCommitA req]"

definition withdraw_handler :: "AuctionWithdrawCircuit groth16 \<Rightarrow> AuctionWithdrawRequest \<Rightarrow> server_reply" where
  "withdraw_handler g req = prove_endpoint g
     (required [wr_stAuctionId req, wr_stCommitA req, wr_wtSpendKey req, wr_wtSaltA req, wr_wtAmount req, wr_wtTokenId req,
        wr_wtAuctionId req] [])
     (withdraw_witness req) (withdraw_signal req)"

subsection \<open>The winner is the first of the largest bids\<close>

lemma winner_fold:
  assumes "k \<le> length xs"
  shows "case fold (winner_step xs) [0..<k] None of
      None \<Rightarrow> \<forall>i<k. \<not> fst (xs ! i)
    | Some w \<Rightarrow> w < k \<and> fst (xs ! w) \<and> (\<forall>i<k. fst (xs ! i) \<longrightarrow> snd (xs ! i) \<le> snd (xs ! w)) \<and>
        (\<forall>i<w. fst (xs ! i) \<longrightarrow> snd (xs ! i) < snd (xs ! w))"
  using assms
proof (induction k)
  case (Suc k)
  have step: "fold (winner_step xs) [0..<Suc k] None = winner_step xs k (fold (winner_step xs) [0..<k] None)" by simp
  show ?case
  proof (cases "fold (winner_step xs) [0..<k] None")
    case None
    with Suc have "\<forall>i<k. \<not> fst (xs ! i)" by simp
    then show ?thesis by (simp add: step None winner_step_def [of xs k] less_Suc_eq del: upt_Suc)
  next
    case (Some w)
    with Suc have IH: "w < k" "fst (xs ! w)" "\<forall>i<k. fst (xs ! i) \<longrightarrow> snd (xs ! i) \<le> snd (xs ! w)"
      "\<forall>i<w. fst (xs ! i) \<longrightarrow> snd (xs ! i) < snd (xs ! w)" by simp_all
    then show ?thesis
      by (simp add: step Some winner_step_def [of xs k] less_Suc_eq del: upt_Suc) (meson le_less_trans order.strict_implies_order)
  qed
qed simp

lemma pick_winner_None: "pick_winner xs = None \<longleftrightarrow> (\<forall>x\<in>set xs. \<not> fst x)"
proof -
  have "pick_winner xs = None \<Longrightarrow> \<forall>i<length xs. \<not> fst (xs ! i)"
    using winner_fold [OF order.refl, of xs] by (simp add: pick_winner_def)
  moreover have "pick_winner xs = Some w \<Longrightarrow> w < length xs \<and> fst (xs ! w)" for w
    using winner_fold [OF order.refl, of xs] by (simp add: pick_winner_def)
  ultimately show ?thesis
    unfolding all_set_conv_all_nth by (cases "pick_winner xs") blast+
qed

lemma pick_winner_Some:
  assumes "pick_winner xs = Some w"
  shows "w < length xs" "fst (xs ! w)" "\<And>i. i < length xs \<Longrightarrow> fst (xs ! i) \<Longrightarrow> snd (xs ! i) \<le> snd (xs ! w)"
    "\<And>i. i < w \<Longrightarrow> fst (xs ! i) \<Longrightarrow> snd (xs ! i) < snd (xs ! w)"
  using winner_fold [OF order.refl, of xs] assms by (simp_all add: pick_winner_def)

subsection \<open>Honest requests\<close>

lemma global_leaf:
  assumes "proves_note H 8 key salt v t p" "0 \<le> tr" "tr < 2 ^ 240"
  shows "fv (tr * 256 + Indices p) = tr * 256 + Indices p"
  using index_canonical [OF assms(1)] assms(2,3) by (intro fv_id) (simp_all add: SNARK_SCALAR_FIELD_def)

lemma opens_note:
  assumes "poseidon_agrees H pos" "proves_note H 8 key salt v t p"
  shows "opens pos 8 (PrivateKey key) salt v t (Indices p) (Elements p) P \<longleftrightarrow> P (PublicKey key) (Root p)"
proof -
  from assms(2) obtain cm where cm: "H [PublicKey key, salt, v, t] = Some cm" "merkle_path H cm (Indices p) (Elements p) = Some (Root p)"
    and pk: "H [PrivateKey key] = Some (PublicKey key)" and len: "length (Elements p) = 8"
    by (auto simp: proves_note_def split: option.splits)
  note agree = poseidon_agreesD [OF assms(1)]
  show ?thesis
    using agree [OF pk] agree [OF cm(1)] merkle_path_agrees [OF assms(1) cm(2)] index_canonical [OF assms(2)] len
    by (simp add: opens_eval)
qed

lemma proves_note_path:
  assumes "proves_note H 8 key salt v t p"
  shows "length (Elements p) = 8" "Elements p \<noteq> []"
  using assms by (auto simp: proves_note_def)

lemmas client_hashes = auction_GetNullifierWithTree_def GetNullifier_def GetAuctionId_def client_Erc721Commitment_def client_Erc20CommitmentV2_def

lemma String_0: "''0'' = bigInt_String 0" and String_1: "''1'' = bigInt_String 1"
  by code_simp+

definition active_value :: "(AuctionBatchSlot \<Rightarrow> int) \<Rightarrow> AuctionBatchSlot \<Rightarrow> int" where
  "active_value f s = (if bs_Active s then f s else 0)"

lemma slot_strings:
  "map (slot_string f) slots = map bigInt_String (map (active_value f) slots)"
  "map (\<lambda>s. if bs_Active s then ''1'' else ''0'') slots = map bigInt_String (map (active_value (\<lambda>s. 1)) slots)"
  by (simp_all add: slot_string_def active_value_def String_0 String_1)

definition honest_slot :: "client_hash \<Rightarrow> AuctionBatchSlot \<Rightarrow> bool" where
  "honest_slot H s \<longleftrightarrow> (bs_Active s \<longrightarrow> H [bs_Pk s, bs_SaltA s, bs_Amount s, bs_TokenId s] = Some (bs_CommitA s) \<and>
     0 < bs_Amount s \<and> bs_Amount s < SNARK_SCALAR_FIELD)"

lemma batch_winner_Some:
  assumes "batch_winner p = Some w"
  shows "w < length (bt_Slots p)" "bs_Active (bt_Slots p ! w)" "\<And>s. s \<in> set (bt_Slots p) \<Longrightarrow> bs_Active s \<Longrightarrow> bs_Amount s \<le> bs_Amount (bt_Slots p ! w)"
proof -
  note w = pick_winner_Some [OF assms [unfolded batch_winner_def]]
  show l: "w < length (bt_Slots p)" using w(1) by simp
  show "bs_Active (bt_Slots p ! w)" using w(2) l by simp
  show "bs_Amount s \<le> bs_Amount (bt_Slots p ! w)" if "s \<in> set (bt_Slots p)" "bs_Active s" for s
    using w(3) l that by (fastforce simp: in_set_conv_nth)
qed

definition batch_statement :: "AuctionBatchParams \<Rightarrow> AuctionBatchSlot \<Rightarrow> int list" where
  "batch_statement p s = bt_AuctionId p # map (active_value bs_CommitA) (bt_Slots p) @ [bs_CommitA s, bs_Pk s, bs_Amount s]"

lemma batch_proved:
  assumes "gnark api" "poseidon_agrees H pos" "proves_exactly g (AuctionBatchCircuit_Define api pos)" "pos [0, 0, 0, 0] \<noteq> None"
    and "length (bt_Slots p) = 100" "\<forall>s\<in>set (bt_Slots p). honest_slot H s" "batch_winner p = Some w"
  shows "answers (AuctionBatchProof [] (batch_handler g) p) True (batch_statement p (bt_Slots p ! w))"
proof -
  note win = batch_winner_Some [OF assms(7)]
  let ?w = "bt_Slots p ! w" and ?vals = "\<lambda>f. map (active_value f) (bt_Slots p)"
  let ?c = "AuctionBatchCircuit.make (bt_AuctionId p) (?vals bs_CommitA) (bs_CommitA ?w) (bs_Pk ?w) (bs_Amount ?w) (bt_AuctionId p)
    (?vals (\<lambda>s. 1)) (?vals bs_Pk) (?vals bs_SaltA) (?vals bs_Amount) (?vals bs_TokenId) (int w)"
  have ne: "bt_Slots p \<noteq> []" using assms(5) by auto
  have sent: "AuctionBatchProof [] (batch_handler g) p = postAndParse [] (prove_endpoint g True (Some ?c) (Some (batch_statement p ?w)))"
    using assms(5,7) ne
    by (simp add: AuctionBatchProof_def batch_payload_def Let_def batch_handler_def batch_witness_def batch_signal_def slot_strings
        required_def ex_in_conv vars_String decimals_String AuctionBatchCircuit.make_def batch_statement_def del: map_map)
  have n: "fv (int w) = int w" "w < 100" using win(1) assms(5) by (auto simp: fv_def SNARK_SCALAR_FIELD_def)
  have slot: "batch_slot_ok pos ?c i" if "i < 100" for i
  proof -
    have s: "honest_slot H (bt_Slots p ! i)" "bt_Slots p ! i \<in> set (bt_Slots p)" using that assms(5,6) by simp_all
    show ?thesis
    proof (cases "bs_Active (bt_Slots p ! i)")
      case True
      have "bs_Amount (bt_Slots p ! i) \<le> bs_Amount ?w" using win(3) s(2) True by blast
      moreover have "honest_slot H ?w" using assms(6) win(1) by simp
      ultimately have "fv (bs_Amount (bt_Slots p ! i)) \<le> fv (bs_Amount ?w)"
        using s(1) True win(2) by (simp add: honest_slot_def fv_id)
      then show ?thesis
        using s(1) True that assms(5) poseidon_agreesD [OF assms(2)]
        by (auto simp: batch_slot_ok_def batch_note_def hashes_to_def honest_slot_def active_value_def AuctionBatchCircuit.make_def)
    next
      case False
      then show ?thesis
        using that assms(4,5) by (simp add: batch_slot_ok_def batch_note_def active_value_def AuctionBatchCircuit.make_def)
    qed
  qed
  have "batch_spec pos ?c"
    using slot win n assms(5,6)
    by (auto simp: batch_spec_def batch_winner_ok_def AuctionBatchSize_def active_value_def honest_slot_def fv_id AuctionBatchCircuit.make_def)
  then have "AuctionBatchCircuit_Define api pos ?c = Some () \<longleftrightarrow> True"
    using gnark.AuctionBatchCircuit_Define_iff [OF assms(1)] by blast
  from exchange_answers [OF assms(3) this] show ?thesis by (simp add: sent)
qed

definition result_value :: "(AuctionFinalBatchResult \<Rightarrow> int) \<Rightarrow> AuctionFinalBatchResult \<Rightarrow> int" where
  "result_value f b = (if fb_Active b then f b else 0)"

lemma result_strings:
  "map (result_string f) bs = map bigInt_String (map (result_value f) bs)"
  "map (\<lambda>b. if fb_Active b then ''1'' else ''0'') bs = map bigInt_String (map (result_value (\<lambda>b. 1)) bs)"
  by (simp_all add: result_string_def result_value_def String_0 String_1)

lemma final_winner_Some:
  assumes "final_winner p = Some w"
  shows "w < length (fp_Batches p)" "fb_Active (fp_Batches p ! w)" "\<And>b. b \<in> set (fp_Batches p) \<Longrightarrow> fb_Active b \<Longrightarrow> fb_Amount b \<le> fb_Amount (fp_Batches p ! w)"
proof -
  note w = pick_winner_Some [OF assms [unfolded final_winner_def]]
  show l: "w < length (fp_Batches p)" using w(1) by simp
  show "fb_Active (fp_Batches p ! w)" using w(2) l by simp
  show "fb_Amount b \<le> fb_Amount (fp_Batches p ! w)" if "b \<in> set (fp_Batches p)" "fb_Active b" for b
    using w(3) l that by (fastforce simp: in_set_conv_nth)
qed

definition final_statement :: "AuctionFinalParams \<Rightarrow> AuctionFinalBatchResult \<Rightarrow> int \<Rightarrow> int \<Rightarrow> int list" where
  "final_statement p b cB cN = fp_AuctionId p # map (result_value fb_Commit) (fp_Batches p) @ map (result_value fb_Pk) (fp_Batches p) @
     map (result_value fb_Amount) (fp_Batches p) @ [fb_Commit b, fb_Pk b, cB, cN, fp_NftTokenId p, fb_Amount b, fp_FloorPrice p]"

lemma final_proved:
  assumes "gnark api" "poseidon_agrees H pos" "proves_exactly g (AuctionFinalCircuit_Define api pos)"
    and "length (fp_Batches p) = 10" "final_winner p = Some w"
    and "\<forall>b\<in>set (fp_Batches p). fb_Active b \<longrightarrow> 0 < fb_Amount b \<and> fb_Amount b < SNARK_SCALAR_FIELD"
    and "0 \<le> fp_FloorPrice p" "fp_FloorPrice p < SNARK_SCALAR_FIELD"
    and "H [fp_BobPk p, fp_SaltB p, fb_Amount (fp_Batches p ! w), fp_UsdcTokenId p] = Some cB"
    and "H [fb_Pk (fp_Batches p ! w), fp_SaltAlice p, 1, fp_NftTokenId p] = Some cN"
  shows "answers (AuctionFinalProof H [] (final_handler g) p) (fp_FloorPrice p \<le> fb_Amount (fp_Batches p ! w))
    (final_statement p (fp_Batches p ! w) cB cN)"
proof -
  note win = final_winner_Some [OF assms(5)]
  let ?w = "fp_Batches p ! w" and ?vals = "\<lambda>f. map (result_value f) (fp_Batches p)"
  let ?c = "AuctionFinalCircuit.make (fp_AuctionId p) (?vals fb_Commit) (?vals fb_Pk) (?vals fb_Amount) (fb_Commit ?w) (fb_Pk ?w) cB cN
    (fp_NftTokenId p) (fb_Amount ?w) (fp_FloorPrice p) (fp_AuctionId p) (?vals (\<lambda>b. 1)) (int w) (fp_BobPk p) (fp_SaltB p)
    (fp_UsdcTokenId p) (fp_SaltAlice p) (fp_NftTokenId p)"
  have ne: "fp_Batches p \<noteq> []" using assms(4) by auto
  have sent: "AuctionFinalProof H [] (final_handler g) p = postAndParse [] (prove_endpoint g True (Some ?c) (Some (final_statement p ?w cB cN)))"
    using assms(4,5,9,10) ne
    by (simp add: AuctionFinalProof_def posted_def final_payload_def client_hashes Let_def final_handler_def final_witness_def final_signal_def
        result_strings required_def ex_in_conv vars_String decimals_String AuctionFinalCircuit.make_def final_statement_def del: map_map)
  have n: "fv (int w) = int w" "w < 10" using win(1) assms(4) by (auto simp: fv_def SNARK_SCALAR_FIELD_def)
  have amount: "fv (fb_Amount b) = fb_Amount b" "0 < fb_Amount b" if "b \<in> set (fp_Batches p)" "fb_Active b" for b
    using assms(6) that by (auto simp: fv_id)
  have w: "?w \<in> set (fp_Batches p)" using win(1) by simp
  have batch: "final_batch_ok ?c i" if "i < 10" for i
    using that assms(4) win(3) amount amount [OF w win(2)] by (auto simp: final_batch_ok_def result_value_def AuctionFinalCircuit.make_def)
  have "final_spec pos ?c \<longleftrightarrow> fp_FloorPrice p \<le> fb_Amount ?w"
    using batch win n assms(4,7,8) amount [OF w win(2)] assms(9,10) [THEN poseidon_agreesD [OF assms(2)]]
    by (simp add: final_spec_def final_winner_ok_def AuctionFinalBatches_def result_value_def hashes_to_def fv_id AuctionFinalCircuit.make_def)
  with gnark.AuctionFinalCircuit_Define_iff [OF assms(1), of pos ?c]
  have "AuctionFinalCircuit_Define api pos ?c = Some () \<longleftrightarrow> fp_FloorPrice p \<le> fb_Amount ?w" by blast
  from exchange_answers [OF assms(3) this] show ?thesis by (simp add: sent)
qed

subsection \<open>A whole auction\<close>

definition no_batch :: AuctionFinalBatchResult where
  "no_batch = \<lparr>fb_Active = False, fb_Commit = 0, fb_Pk = 0, fb_Amount = 0\<rparr>"

definition batch_result :: "AuctionBatchParams \<Rightarrow> AuctionFinalBatchResult" where
  "batch_result p = (case batch_winner p of None \<Rightarrow> no_batch
     | Some w \<Rightarrow> let s = bt_Slots p ! w in \<lparr>fb_Active = True, fb_Commit = bs_CommitA s, fb_Pk = bs_Pk s, fb_Amount = bs_Amount s\<rparr>)"

definition settles :: "AuctionFinalParams \<Rightarrow> AuctionBatchParams list \<Rightarrow> bool" where
  "settles p batches \<longleftrightarrow> length batches \<le> 10 \<and>
     fp_Batches p = map batch_result batches @ replicate (10 - length batches) no_batch"

definition active_bids :: "AuctionBatchParams list \<Rightarrow> AuctionBatchSlot set" where
  "active_bids batches = {s \<in> \<Union> (set ` bt_Slots ` set batches). bs_Active s}"

lemma batch_winner_None: "batch_winner p = None \<longleftrightarrow> (\<forall>s\<in>set (bt_Slots p). \<not> bs_Active s)"
  by (auto simp: batch_winner_def pick_winner_None)

lemma batch_result_active:
  assumes "fb_Active (batch_result p)"
  obtains w where "batch_winner p = Some w" "bt_Slots p ! w \<in> set (bt_Slots p)" "bs_Active (bt_Slots p ! w)"
    "batch_result p = \<lparr>fb_Active = True, fb_Commit = bs_CommitA (bt_Slots p ! w), fb_Pk = bs_Pk (bt_Slots p ! w), fb_Amount = bs_Amount (bt_Slots p ! w)\<rparr>"
proof (cases "batch_winner p")
  case (Some w)
  with batch_winner_Some [OF Some] show thesis by (intro that [of w]) (simp_all add: batch_result_def Let_def)
qed (use assms in \<open>simp add: batch_result_def no_batch_def\<close>)

lemma final_winner_highest:
  assumes "settles p batches" "active_bids batches \<noteq> {}"
  obtains w s where "final_winner p = Some w" "s \<in> active_bids batches" "\<forall>t\<in>active_bids batches. bs_Amount t \<le> bs_Amount s"
    "fp_Batches p ! w = \<lparr>fb_Active = True, fb_Commit = bs_CommitA s, fb_Pk = bs_Pk s, fb_Amount = bs_Amount s\<rparr>"
proof -
  have bs: "set (fp_Batches p) \<subseteq> insert no_batch (batch_result ` set batches)" "batch_result ` set batches \<subseteq> set (fp_Batches p)"
    using assms(1) by (auto simp: settles_def)
  have active: "\<exists>b\<in>set batches. t \<in> set (bt_Slots b) \<and> fb_Active (batch_result b) \<and> bs_Amount t \<le> fb_Amount (batch_result b)"
    if "t \<in> active_bids batches" for t
  proof -
    from that obtain b where b: "b \<in> set batches" "t \<in> set (bt_Slots b)" "bs_Active t" by (auto simp: active_bids_def)
    then obtain w where w: "batch_winner b = Some w" using batch_winner_None by fastforce
    from batch_winner_Some(3) [OF w b(2,3)] w b show ?thesis by (auto simp: batch_result_def Let_def)
  qed
  have "final_winner p \<noteq> None"
  proof -
    obtain t where "t \<in> active_bids batches" using assms(2) by blast
    then obtain b where "b \<in> set batches" "fb_Active (batch_result b)" using active by blast
    then have "\<exists>x\<in>set (fp_Batches p). fb_Active x" using bs(2) by blast
    then show ?thesis by (auto simp: final_winner_def pick_winner_None)
  qed
  then obtain w where w: "final_winner p = Some w" by blast
  note win = final_winner_Some [OF w]
  have "fp_Batches p ! w \<in> insert no_batch (batch_result ` set batches)" using win(1) bs(1) nth_mem by blast
  then obtain b where b: "b \<in> set batches" "fp_Batches p ! w = batch_result b" using win(2) by (auto simp: no_batch_def)
  then obtain v where v: "bt_Slots b ! v \<in> set (bt_Slots b)" "bs_Active (bt_Slots b ! v)"
    "batch_result b = \<lparr>fb_Active = True, fb_Commit = bs_CommitA (bt_Slots b ! v), fb_Pk = bs_Pk (bt_Slots b ! v), fb_Amount = bs_Amount (bt_Slots b ! v)\<rparr>"
    using win(2) batch_result_active by metis
  show thesis
  proof (rule that [OF w])
    show "bt_Slots b ! v \<in> active_bids batches" using v(1,2) b(1) by (auto simp: active_bids_def)
    show "\<forall>t\<in>active_bids batches. bs_Amount t \<le> bs_Amount (bt_Slots b ! v)"
    proof
      fix t assume "t \<in> active_bids batches"
      then obtain b' where b': "b' \<in> set batches" "fb_Active (batch_result b')" "bs_Amount t \<le> fb_Amount (batch_result b')" using active by blast
      have "fb_Amount (batch_result b') \<le> fb_Amount (fp_Batches p ! w)" using win(3) b'(1,2) bs(2) by blast
      with b'(3) show "bs_Amount t \<le> bs_Amount (bt_Slots b ! v)" by (simp add: b(2) v(3))
    qed
    show "fp_Batches p ! w = \<lparr>fb_Active = True, fb_Commit = bs_CommitA (bt_Slots b ! v), fb_Pk = bs_Pk (bt_Slots b ! v),
      fb_Amount = bs_Amount (bt_Slots b ! v)\<rparr>" using b(2) v(3) by simp
  qed
qed

text \<open>The statement of a settlement: winner and amount, the seller's payout and the winner's token.\<close>

definition pays_bid :: "client_hash \<Rightarrow> AuctionFinalParams \<Rightarrow> int list \<Rightarrow> AuctionBatchSlot \<Rightarrow> bool" where
  "pays_bid H p sig s \<longleftrightarrow> length sig = 38 \<and> sig ! 31 = bs_CommitA s \<and> sig ! 32 = bs_Pk s \<and> sig ! 36 = bs_Amount s \<and>
     H [fp_BobPk p, fp_SaltB p, bs_Amount s, fp_UsdcTokenId p] = Some (sig ! 33) \<and>
     H [bs_Pk s, fp_SaltAlice p, 1, fp_NftTokenId p] = Some (sig ! 34)"

subsection \<open>Properties\<close>

text \<open>
  An honest lock is proved. For a note of the token in a tree of any number, the seller's request is answered
  with a proof and the statement for \<^verbatim>\<open>initAuction\<close> exactly when the two fresh salts differ in the field,
  and with an internal error otherwise.
\<close>

theorem auction_lock_proved:
  assumes "gnark api" "poseidon_agrees H pos" "proves_exactly g (AuctionLockCircuit_Define api pos)"
    and "proves_note H 8 (lp_Bob p) (lp_SaltIn p) 1 (lp_TokenId p) (lp_MerkleProof p)" "0 \<le> lp_TreeNumber p" "lp_TreeNumber p < 2 ^ 240"
    and "H [PrivateKey (lp_Bob p), lp_TreeNumber p * 256 + Indices (lp_MerkleProof p)] = Some nf"
    and "H [PublicKey (lp_Bob p), lp_SaltLocked p, 1, lp_TokenId p] = Some locked" "H [locked] = Some auctionId"
    and "H [PublicKey (lp_Bob p), lp_SaltRevert p, 1, lp_TokenId p] = Some revert"
  shows "answers (AuctionLockProof H [] (lock_handler g) p) (fv (lp_SaltRevert p) \<noteq> fv (lp_SaltLocked p))
    [auctionId, lp_TreeNumber p, Root (lp_MerkleProof p), nf, locked, lp_TokenId p, revert]"
proof -
  note path = proves_note_path [OF assms(4)]
  let ?c = "AuctionLockCircuit.make (AuctionLockCircuitConfig.make 8) auctionId (lp_TreeNumber p) (Root (lp_MerkleProof p)) nf locked
      (lp_TokenId p) revert (lp_TreeNumber p) (PrivateKey (lp_Bob p)) (lp_TokenId p) (lp_SaltIn p) (Elements (lp_MerkleProof p))
      (Indices (lp_MerkleProof p)) (lp_SaltLocked p) (lp_SaltRevert p)"
  have sent: "AuctionLockProof H [] (lock_handler g) p = postAndParse [] (prove_endpoint g True (Some ?c)
      (Some [auctionId, lp_TreeNumber p, Root (lp_MerkleProof p), nf, locked, lp_TokenId p, revert]))"
    using assms(7-10) path
    by (simp add: AuctionLockProof_def posted_def lock_payload_def client_hashes lock_handler_def lock_witness_def lock_signal_def
        required_def ex_in_conv vars_String decimals_String AuctionLockCircuit.make_def AuctionLockCircuitConfig.make_def)
  note agree = poseidon_agreesD [OF assms(2)]
  have "AuctionLockCircuit_Define api pos ?c = Some () \<longleftrightarrow> lock_spec pos ?c"
    by (rule gnark.AuctionLockCircuit_Define_iff [OF assms(1)]) (simp add: AuctionLockCircuit.make_def AuctionLockCircuitConfig.make_def)
  also have "\<dots> \<longleftrightarrow> fv (lp_SaltRevert p) \<noteq> fv (lp_SaltLocked p)"
    using assms(7-10) [THEN agree] path global_leaf [OF assms(4-6)]
    by (simp add: lock_spec_def lock_leaf_def hashes_to_def opens_note [OF assms(2,4)] AuctionLockCircuit.make_def AuctionLockCircuitConfig.make_def)
  finally show ?thesis
    using exchange_answers [OF assms(3)] by (simp add: sent)
qed

text \<open>
  An honest bid is proved, for a note in a tree of any number: the request is answered with a proof and the
  statement for \<^verbatim>\<open>submitBid\<close> exactly when the amount is positive and below the range of the circuit and the two
  fresh salts differ in the field.
\<close>

theorem auction_bid_proved:
  assumes "gnark api" "poseidon_agrees H pos" "proves_exactly g (AuctionBidCircuit_Define api pos)"
    and "proves_note H 8 (bp_Bidder p) (bp_SaltIn p) (bp_BidAmount p) (bp_TokenId p) (bp_MerkleProof p)"
    and "0 \<le> bp_TreeNumber p" "bp_TreeNumber p < 2 ^ 240" "0 \<le> bp_BidAmount p" "bp_BidAmount p < SNARK_SCALAR_FIELD"
    and "H [PrivateKey (bp_Bidder p), bp_TreeNumber p * 256 + Indices (bp_MerkleProof p)] = Some nf"
    and "H [PublicKey (bp_Bidder p), bp_SaltA p, bp_BidAmount p, bp_TokenId p] = Some cA"
    and "H [bp_BobPk p, bp_SaltB p, bp_BidAmount p, bp_TokenId p] = Some cB"
    and "H [PublicKey (bp_Bidder p), bp_SaltRevert p, bp_BidAmount p, bp_TokenId p] = Some cR"
  shows "answers (AuctionBidProof H [] (bid_handler g) p)
    (0 < bp_BidAmount p \<and> bp_BidAmount p < 10 ^ 36 \<and> fv (bp_SaltRevert p) \<noteq> fv (bp_SaltA p))
    [bp_AuctionId p, bp_TreeNumber p, Root (bp_MerkleProof p), nf, cA, cB, cR]"
proof -
  note path = proves_note_path [OF assms(4)]
  let ?c = "AuctionBidCircuit.make (AuctionBidCircuitConfig.make 8 (10 ^ 36)) (bp_AuctionId p) (bp_TreeNumber p) (Root (bp_MerkleProof p))
      nf cA cB cR (bp_AuctionId p) (bp_TreeNumber p) (PrivateKey (bp_Bidder p)) (bp_BidAmount p) (bp_TokenId p) (bp_SaltIn p)
      (Elements (bp_MerkleProof p)) (Indices (bp_MerkleProof p)) (bp_BobPk p) (bp_SaltA p) (bp_SaltB p) (bp_BidAmount p) (bp_SaltRevert p)"
  have sent: "AuctionBidProof H [] (bid_handler g) p = postAndParse [] (prove_endpoint g True (Some ?c)
      (Some [bp_AuctionId p, bp_TreeNumber p, Root (bp_MerkleProof p), nf, cA, cB, cR]))"
    using assms(9-12) path
    by (simp add: AuctionBidProof_def posted_def bid_payload_def client_hashes bid_handler_def bid_witness_def bid_signal_def required_def ex_in_conv
        vars_String decimals_String AuctionBidCircuit.make_def AuctionBidCircuitConfig.make_def)
  note agree = poseidon_agreesD [OF assms(2)]
  have range: "fv (bp_BidAmount p) = bp_BidAmount p" "fv (10 ^ 36) = 10 ^ 36"
    using assms(7,8) by (simp_all add: fv_id SNARK_SCALAR_FIELD_def)
  have "AuctionBidCircuit_Define api pos ?c = Some () \<longleftrightarrow> bid_spec pos ?c"
    by (rule gnark.AuctionBidCircuit_Define_iff [OF assms(1)]) (simp add: AuctionBidCircuit.make_def AuctionBidCircuitConfig.make_def)
  also have "\<dots> \<longleftrightarrow> 0 < bp_BidAmount p \<and> bp_BidAmount p < 10 ^ 36 \<and> fv (bp_SaltRevert p) \<noteq> fv (bp_SaltA p)"
    using assms(9-12) [THEN agree] path global_leaf [OF assms(4-6)] range
    by (simp add: bid_spec_def bid_leaf_def hashes_to_def opens_note [OF assms(2,4)] AuctionBidCircuit.make_def AuctionBidCircuitConfig.make_def)
  finally show ?thesis
    using exchange_answers [OF assms(3)] by (simp add: sent)
qed

text \<open>
  The seller of a cancelled auction is answered with a proof for the auction that the lock named, exactly when
  the output salt is fresh.
\<close>

theorem auction_revert_proved:
  assumes "gnark api" "poseidon_agrees H pos" "proves_exactly g (AuctionRevertCircuit_Define api pos)"
    and "H [PrivateKey (rv_Bob p)] = Some (PublicKey (rv_Bob p))"
    and "H [PublicKey (rv_Bob p), rv_SaltLocked p, 1, rv_TokenId p] = Some locked" "H [locked] = Some auctionId"
    and "H [PublicKey (rv_Bob p), rv_SaltOut p, 1, rv_TokenId p] = Some reverted"
  shows "answers (AuctionRevertProof H [] (revert_handler g) p) (fv (rv_SaltOut p) \<noteq> fv (rv_SaltLocked p))
    [auctionId, locked, rv_TokenId p, reverted]"
proof -
  let ?c = "AuctionRevertCircuit.make auctionId locked (rv_TokenId p) reverted (PrivateKey (rv_Bob p)) (rv_TokenId p) (rv_SaltLocked p) (rv_SaltOut p)"
  have sent: "AuctionRevertProof H [] (revert_handler g) p =
      postAndParse [] (prove_endpoint g True (Some ?c) (Some [auctionId, locked, rv_TokenId p, reverted]))"
    using assms(5-7)
    by (simp add: AuctionRevertProof_def posted_def revert_payload_def client_hashes revert_handler_def revert_witness_def revert_signal_def
        required_def AuctionRevertCircuit.make_def)
  have "revert_spec pos ?c \<longleftrightarrow> fv (rv_SaltOut p) \<noteq> fv (rv_SaltLocked p)"
    using assms(4-7) [THEN poseidon_agreesD [OF assms(2)]] by (auto simp: revert_spec_def hashes_to_def AuctionRevertCircuit.make_def)
  with gnark.AuctionRevertCircuit_Define_iff [OF assms(1), of pos ?c]
  have "AuctionRevertCircuit_Define api pos ?c = Some () \<longleftrightarrow> fv (rv_SaltOut p) \<noteq> fv (rv_SaltLocked p)" by blast
  from exchange_answers [OF assms(3) this] show ?thesis by (simp add: sent)
qed

text \<open>A bidder who kept the salt is always answered with the proof that withdraws the bid.\<close>

theorem auction_withdraw_proved:
  assumes "gnark api" "poseidon_agrees H pos" "proves_exactly g (AuctionWithdrawCircuit_Define api pos)"
    and "H [PrivateKey (wp_Bidder p)] = Some (PublicKey (wp_Bidder p))"
    and "H [PublicKey (wp_Bidder p), wp_SaltA p, wp_Amount p, wp_TokenId p] = Some cA"
  shows "answers (AuctionWithdrawProof H [] (withdraw_handler g) p) True [wp_AuctionId p, cA]"
proof -
  let ?c = "AuctionWithdrawCircuit.make (wp_AuctionId p) cA (PrivateKey (wp_Bidder p)) (wp_SaltA p) (wp_Amount p) (wp_TokenId p) (wp_AuctionId p)"
  have sent: "AuctionWithdrawProof H [] (withdraw_handler g) p = postAndParse [] (prove_endpoint g True (Some ?c) (Some [wp_AuctionId p, cA]))"
    using assms(5)
    by (simp add: AuctionWithdrawProof_def posted_def withdraw_payload_def client_hashes withdraw_handler_def withdraw_witness_def
        withdraw_signal_def required_def AuctionWithdrawCircuit.make_def)
  have "withdraw_spec pos ?c"
    using assms(4,5) [THEN poseidon_agreesD [OF assms(2)]] by (auto simp: withdraw_spec_def hashes_to_def AuctionWithdrawCircuit.make_def)
  with gnark.AuctionWithdrawCircuit_Define_iff [OF assms(1), of pos ?c]
  have "AuctionWithdrawCircuit_Define api pos ?c = Some () \<longleftrightarrow> True" by blast
  from exchange_answers [OF assms(3) this] show ?thesis by (simp add: sent)
qed

text \<open>
  C15. An honest auction settles with its highest bid. Let the auctioneer open up to ten batches of a hundred
  slots, each with at least one bid, all bids opened correctly and with amounts and keys in the field, and settle with a floor price,
  salts, tokens and seller's key in the field. Then every batch
  is proved, with the first of its largest bids as winner; and the settlement over the batch winners is answered
  with the statement that pays a bid which no other bid exceeds (its commitment, key and amount, the seller's
  payout of that amount, and the token for the winner's key) exactly when that bid reaches the floor price.
\<close>

theorem honest_auction_settles:
  assumes "gnark api" "poseidon_agrees H pos" "iden3_total H"
    and "proves_exactly gb (AuctionBatchCircuit_Define api pos)" "proves_exactly gf (AuctionFinalCircuit_Define api pos)"
    and "\<forall>b\<in>set batches. length (bt_Slots b) = 100 \<and> (\<forall>s\<in>set (bt_Slots b). honest_slot H s) \<and> (\<exists>s\<in>set (bt_Slots b). bs_Active s)"
    and "batches \<noteq> []" "settles p batches" "0 \<le> fp_FloorPrice p" "fp_FloorPrice p < SNARK_SCALAR_FIELD"
    and "canonical [fp_BobPk p, fp_SaltB p, fp_UsdcTokenId p, fp_SaltAlice p, fp_NftTokenId p]" "\<forall>s\<in>active_bids batches. canonical [bs_Pk s]"
  shows "(\<forall>b\<in>set batches. \<exists>w. batch_winner b = Some w \<and>
      answers (AuctionBatchProof [] (batch_handler gb) b) True (batch_statement b (bt_Slots b ! w))) \<and>
    (\<exists>s\<in>active_bids batches. (\<forall>t\<in>active_bids batches. bs_Amount t \<le> bs_Amount s) \<and>
      (if bs_Amount s < fp_FloorPrice p then AuctionFinalProof H [] (final_handler gf) p = Inl (Status 500)
       else (\<exists>r. AuctionFinalProof H [] (final_handler gf) p = Inr r \<and> pays_bid H p (res_signal r) s)))"
proof (intro conjI ballI)
  fix b assume b: "b \<in> set batches"
  then obtain w where w: "batch_winner b = Some w" using assms(6) batch_winner_None by fastforce
  have "pos [0, 0, 0, 0] \<noteq> None"
    using iden3_hashes [OF assms(3), of "[0, 0, 0, 0]"] poseidon_agreesD [OF assms(2), of "[0, 0, 0, 0]"] by fastforce
  from batch_proved [OF assms(1,2,4) this _ _ w] assms(6) b w
  show "\<exists>w. batch_winner b = Some w \<and> answers (AuctionBatchProof [] (batch_handler gb) b) True (batch_statement b (bt_Slots b ! w))" by blast
next
  have "active_bids batches \<noteq> {}" using assms(6,7) by (cases batches) (auto simp: active_bids_def)
  with assms(8) obtain w s where w: "final_winner p = Some w" "s \<in> active_bids batches" "\<forall>t\<in>active_bids batches. bs_Amount t \<le> bs_Amount s"
    "fp_Batches p ! w = \<lparr>fb_Active = True, fb_Commit = bs_CommitA s, fb_Pk = bs_Pk s, fb_Amount = bs_Amount s\<rparr>"
    by (rule final_winner_highest)
  have amt: "0 < bs_Amount s" "bs_Amount s < SNARK_SCALAR_FIELD" using w(2) assms(6) by (auto simp: active_bids_def honest_slot_def)
  have hB: "\<exists>h. H [fp_BobPk p, fp_SaltB p, bs_Amount s, fp_UsdcTokenId p] = Some h"
    using iden3_hashes [OF assms(3), of "[fp_BobPk p, fp_SaltB p, bs_Amount s, fp_UsdcTokenId p]"] assms(11) amt by auto
  have "canonical [bs_Pk s]" using assms(12) w(2) by blast
  then have hN: "\<exists>h. H [bs_Pk s, fp_SaltAlice p, 1, fp_NftTokenId p] = Some h"
    using iden3_hashes [OF assms(3), of "[bs_Pk s, fp_SaltAlice p, 1, fp_NftTokenId p]"] assms(11) by auto
  obtain cB cN where c: "H [fp_BobPk p, fp_SaltB p, bs_Amount s, fp_UsdcTokenId p] = Some cB" "H [bs_Pk s, fp_SaltAlice p, 1, fp_NftTokenId p] = Some cN"
    using hB hN by blast
  have len: "length (fp_Batches p) = 10" using assms(8) by (simp add: settles_def)
  have amounts: "\<forall>b\<in>set (fp_Batches p). fb_Active b \<longrightarrow> 0 < fb_Amount b \<and> fb_Amount b < SNARK_SCALAR_FIELD"
  proof (intro ballI impI)
    fix x assume x: "x \<in> set (fp_Batches p)" "fb_Active x"
    then obtain b where b: "b \<in> set batches" "x = batch_result b" using assms(8) by (auto simp: settles_def no_batch_def)
    with x(2) obtain v where "bt_Slots b ! v \<in> set (bt_Slots b)" "bs_Active (bt_Slots b ! v)" "fb_Amount x = bs_Amount (bt_Slots b ! v)"
      using batch_result_active [of b] by (metis AuctionFinalBatchResult.select_convs(4))
    then show "0 < fb_Amount x \<and> fb_Amount x < SNARK_SCALAR_FIELD" using assms(6) b(1) by (auto simp: honest_slot_def)
  qed
  have "answers (AuctionFinalProof H [] (final_handler gf) p) (fp_FloorPrice p \<le> bs_Amount s) (final_statement p (fp_Batches p ! w) cB cN)"
    using final_proved [OF assms(1,2,5) len w(1) amounts assms(9,10), of cB cN] c w(4) by simp
  then have "if bs_Amount s < fp_FloorPrice p then AuctionFinalProof H [] (final_handler gf) p = Inl (Status 500)
     else (\<exists>r. AuctionFinalProof H [] (final_handler gf) p = Inr r \<and> pays_bid H p (res_signal r) s)"
    using c w(4) len by (auto simp: answers_def final_statement_def pays_bid_def nth_append)
  with w(2,3) show "\<exists>s\<in>active_bids batches. (\<forall>t\<in>active_bids batches. bs_Amount t \<le> bs_Amount s) \<and>
      (if bs_Amount s < fp_FloorPrice p then AuctionFinalProof H [] (final_handler gf) p = Inl (Status 500)
       else (\<exists>r. AuctionFinalProof H [] (final_handler gf) p = Inr r \<and> pays_bid H p (res_signal r) s))" by blast
qed

subsection \<open>Examples\<close>

definition toy_lock :: AuctionLockParams where
  "toy_lock = \<lparr>lp_Bob = toy_key 3, lp_TokenId = 77, lp_SaltIn = 11, lp_TreeNumber = 2, lp_MerkleProof = toy_proof 3 11 1 77,
     lp_SaltLocked = 12, lp_SaltRevert = 14\<rparr>"

theorem auction_lock_proved_witness:
  "\<exists>sig. answers (AuctionLockProof sum_hash [] (lock_handler (toy_groth16 (AuctionLockCircuit_Define fr_api sum_hash))) toy_lock) True sig"
proof -
  obtain nf locked auctionId revert where h: "sum_hash [PrivateKey (toy_key 3), 2 * 256 + Indices (toy_proof 3 11 1 77)] = Some nf"
    "sum_hash [PublicKey (toy_key 3), 12, 1, 77] = Some locked" "sum_hash [locked] = Some auctionId"
    "sum_hash [PublicKey (toy_key 3), 14, 1, 77] = Some revert"
    using sum_hash_Some by metis
  have "fv 14 \<noteq> fv 12" by (simp add: fv_def SNARK_SCALAR_FIELD_def)
  then show ?thesis
    using auction_lock_proved [OF gnark_fr_api toy_agrees toy_groth16_exact, where p = toy_lock and nf = nf and locked = locked and auctionId = auctionId and revert = revert] h toy_proves [of 3 11 1 77]
    by (intro exI) (simp add: toy_lock_def)
qed

definition toy_bid :: AuctionBidParams where
  "toy_bid = \<lparr>bp_AuctionId = 5, bp_Bidder = toy_key 3, bp_BidAmount = 50, bp_TokenId = 9, bp_SaltIn = 11, bp_TreeNumber = 2,
     bp_MerkleProof = toy_proof 3 11 50 9, bp_BobPk = 101, bp_SaltA = 12, bp_SaltB = 13, bp_SaltRevert = 14\<rparr>"

theorem auction_bid_proved_witness:
  "\<exists>sig. answers (AuctionBidProof sum_hash [] (bid_handler (toy_groth16 (AuctionBidCircuit_Define fr_api sum_hash))) toy_bid) True sig"
proof -
  obtain nf cA cB cR where h: "sum_hash [PrivateKey (toy_key 3), 2 * 256 + Indices (toy_proof 3 11 50 9)] = Some nf"
    "sum_hash [PublicKey (toy_key 3), 12, 50, 9] = Some cA" "sum_hash [101, 13, 50, 9] = Some cB"
    "sum_hash [PublicKey (toy_key 3), 14, 50, 9] = Some cR"
    using sum_hash_Some by metis
  have "fv 14 \<noteq> fv 12" by (simp add: fv_def SNARK_SCALAR_FIELD_def)
  then show ?thesis
    using auction_bid_proved [OF gnark_fr_api toy_agrees toy_groth16_exact, where p = toy_bid and nf = nf and cA = cA and cB = cB and cR = cR] h toy_proves [of 3 11 50 9]
    by (intro exI) (simp add: toy_bid_def SNARK_SCALAR_FIELD_def)
qed

theorem auction_revert_proved_witness:
  "\<exists>sig. answers (AuctionRevertProof sum_hash [] (revert_handler (toy_groth16 (AuctionRevertCircuit_Define fr_api sum_hash)))
     \<lparr>rv_Bob = toy_key 3, rv_TokenId = 77, rv_SaltLocked = 12, rv_SaltOut = 15\<rparr>) True sig"
proof -
  let ?p = "\<lparr>rv_Bob = toy_key 3, rv_TokenId = 77, rv_SaltLocked = 12, rv_SaltOut = 15\<rparr>"
  obtain locked auctionId reverted where h: "sum_hash [PublicKey (toy_key 3), 12, 1, 77] = Some locked" "sum_hash [locked] = Some auctionId"
    "sum_hash [PublicKey (toy_key 3), 15, 1, 77] = Some reverted"
    using sum_hash_Some by metis
  have "fv 15 \<noteq> fv 12" by (simp add: fv_def SNARK_SCALAR_FIELD_def)
  moreover have "sum_hash [PrivateKey (toy_key 3)] = Some (PublicKey (toy_key 3))"
    using toy_proves [of 3] by (auto simp: proves_note_def)
  ultimately show ?thesis
    using auction_revert_proved [OF gnark_fr_api toy_agrees toy_groth16_exact, where p = ?p] h by auto
qed

theorem auction_withdraw_proved_witness:
  "\<exists>sig. answers (AuctionWithdrawProof sum_hash [] (withdraw_handler (toy_groth16 (AuctionWithdrawCircuit_Define fr_api sum_hash)))
     \<lparr>wp_AuctionId = 5, wp_Bidder = toy_key 3, wp_SaltA = 12, wp_Amount = 50, wp_TokenId = 9\<rparr>) True sig"
proof -
  let ?p = "\<lparr>wp_AuctionId = 5, wp_Bidder = toy_key 3, wp_SaltA = 12, wp_Amount = 50, wp_TokenId = 9\<rparr>"
  obtain cA where "sum_hash [PublicKey (toy_key 3), 12, 50, 9] = Some cA" using sum_hash_Some by blast
  moreover have "sum_hash [PrivateKey (toy_key 3)] = Some (PublicKey (toy_key 3))"
    using toy_proves [of 3] by (auto simp: proves_note_def)
  ultimately show ?thesis
    using auction_withdraw_proved [OF gnark_fr_api toy_agrees toy_groth16_exact, where p = ?p] by auto
qed

text \<open>A batch with bids of 50, 30 and 50; the first of the two largest wins.\<close>

definition toy_slot :: "int \<Rightarrow> int \<Rightarrow> AuctionBatchSlot" where
  "toy_slot pk v = \<lparr>bs_Active = True, bs_CommitA = the (sum_hash [pk, 12, v, 9]), bs_Pk = pk, bs_SaltA = 12, bs_Amount = v, bs_TokenId = 9\<rparr>"

definition toy_batch :: AuctionBatchParams where
  "toy_batch = \<lparr>bt_AuctionId = 5, bt_Slots = [toy_slot 101 50, toy_slot 102 30, toy_slot 103 50] @
     replicate 97 \<lparr>bs_Active = False, bs_CommitA = 0, bs_Pk = 0, bs_SaltA = 0, bs_Amount = 0, bs_TokenId = 0\<rparr>\<rparr>"

definition toy_final :: "int \<Rightarrow> AuctionFinalParams" where
  "toy_final floor = \<lparr>fp_AuctionId = 5, fp_Batches = batch_result toy_batch # replicate 9 no_batch, fp_BobPk = 35, fp_SaltB = 13,
     fp_UsdcTokenId = 9, fp_SaltAlice = 15, fp_NftTokenId = 77, fp_FloorPrice = floor\<rparr>"

lemma toy_honest: "\<forall>s\<in>set (bt_Slots toy_batch). honest_slot sum_hash s" "active_bids [toy_batch] = {toy_slot 101 50, toy_slot 102 30, toy_slot 103 50}"
  by (auto simp: toy_batch_def toy_slot_def honest_slot_def active_bids_def sum_hash_def SNARK_SCALAR_FIELD_def)

theorem honest_auction_settles_witness:
  "(\<exists>r s. AuctionFinalProof sum_hash [] (final_handler (toy_groth16 (AuctionFinalCircuit_Define fr_api sum_hash))) (toy_final 50) = Inr r \<and>
      pays_bid sum_hash (toy_final 50) (res_signal r) s \<and> bs_Amount s = 50) \<and>
   AuctionFinalProof sum_hash [] (final_handler (toy_groth16 (AuctionFinalCircuit_Define fr_api sum_hash))) (toy_final 51) = Inl (Status 500)"
proof -
  have b: "\<forall>b\<in>set [toy_batch]. length (bt_Slots b) = 100 \<and> (\<forall>s\<in>set (bt_Slots b). honest_slot sum_hash s) \<and> (\<exists>s\<in>set (bt_Slots b). bs_Active s)"
    using toy_honest(1) by (simp add: toy_batch_def toy_slot_def)
  have s: "settles (toy_final f) [toy_batch]" and f: "fp_FloorPrice (toy_final f) = f" for f
    by (simp_all add: settles_def toy_final_def)
  have p: "(50::int) < SNARK_SCALAR_FIELD" "(51::int) < SNARK_SCALAR_FIELD" by (simp_all add: SNARK_SCALAR_FIELD_def)
  have amt: "bs_Amount (toy_slot pk v) = v" for pk v by (simp add: toy_slot_def)
  note settled = honest_auction_settles [OF gnark_fr_api toy_agrees sum_hash_total toy_groth16_exact toy_groth16_exact b, unfolded toy_honest(2)]
  have c: "canonical [fp_BobPk (toy_final v), fp_SaltB (toy_final v), fp_UsdcTokenId (toy_final v), fp_SaltAlice (toy_final v), fp_NftTokenId (toy_final v)]"
    "\<forall>s\<in>{toy_slot 101 50, toy_slot 102 30, toy_slot 103 50}. canonical [bs_Pk s]" for v
    by (simp_all add: toy_final_def toy_slot_def SNARK_SCALAR_FIELD_def)
  from settled [of "toy_final 50", OF _ s _ _ c] settled [of "toy_final 51", OF _ s _ _ c] p show ?thesis
    by (simp add: f amt) (use amt in blast)
qed

text \<open>
  The API key locks the project's own client out: against a server with a key configured, each of the six
  requests either fails before it is sent or is answered with status 401, since the client sends no
  \<^verbatim>\<open>X-Gnark-Key\<close> header.
\<close>

theorem api_key_locks_client_out:
  assumes "apiKey \<noteq> []"
  shows "AuctionLockProof H apiKey lock lp \<in> {Inl Not_built, Inl (Status 401)} \<and>
    AuctionBidProof H apiKey bid bp \<in> {Inl Not_built, Inl (Status 401)} \<and>
    AuctionBatchProof apiKey batch tp \<in> {Inl No_active_slots, Inl (Status 401)} \<and>
    AuctionFinalProof H apiKey final fp \<in> {Inl No_active_slots, Inl Not_built, Inl (Status 401)} \<and>
    AuctionRevertProof H apiKey revert rp \<in> {Inl Not_built, Inl (Status 401)} \<and>
    AuctionWithdrawProof H apiKey withdraw wp \<in> {Inl Not_built, Inl (Status 401)}"
  by (simp_all add: AuctionLockProof_def AuctionBidProof_def AuctionBatchProof_def AuctionFinalProof_def AuctionRevertProof_def
      AuctionWithdrawProof_def posted_def answers_guarded [OF assms] split: option.splits)

theorem api_key_locks_client_out_witness:
  "AuctionBatchProof ''secret'' (batch_handler (toy_groth16 (AuctionBatchCircuit_Define fr_api sum_hash))) toy_batch
     \<in> {Inl No_active_slots, Inl (Status 401)}"
  using api_key_locks_client_out [of "''secret''"] by simp

end
