(* ===== verification/Bank_Complete.thy ===== *)
theory Bank_Complete
  imports Payment_Client
begin

section \<open>Honest bank transactions satisfy the circuit\<close>

text \<open>
  The converse of the safety theorems of the payments circuit: for the whole set of banks, a sender who knows the
  key and the opening of its balance, values that balance, and commitments and hashes as the client computes
  them, every block of the circuit is satisfied. The group law of Baby Jubjub is a hypothesis, stated once for
  the commitment function of the client's curve library.
\<close>

definition pt :: "int \<times> int \<Rightarrow> Point" where
  "pt p = \<lparr>X = fst p, Y = snd p\<rparr>"

lemma pt_simps [simp]: "X (pt p) = fst p" "Y (pt p) = snd p"
  by (simp_all add: pt_def)

text \<open>
  The commitments \<open>com v r\<close> are curve points, the gadget computes them, addition adds the openings, and the
  generators have order \<open>P\<close>.
\<close>

definition pedersen_curve :: "frontend_API \<Rightarrow> pedersen \<Rightarrow> (int \<Rightarrow> int \<Rightarrow> int \<times> int) \<Rightarrow> bool" where
  "pedersen_curve api ped com \<longleftrightarrow>
     (\<forall>v r. 0 \<le> v \<and> v < SNARK_SCALAR_FIELD \<and> 0 \<le> r \<and> r < SNARK_SCALAR_FIELD \<longrightarrow> ped v r = Some (pt (com v r))) \<and>
     (\<forall>v r. 0 \<le> v \<and> 0 \<le> r \<longrightarrow> AssertPointsIsOnCurve api (fst (com v r)) (snd (com v r)) = Some ()) \<and>
     (\<forall>v r v' r'. 0 \<le> v \<and> 0 \<le> r \<and> 0 \<le> v' \<and> 0 \<le> r' \<longrightarrow>
        PointAdd api (pt (com v r)) (pt (com v' r')) = Some (pt (com (v + v') (r + r')))) \<and>
     (\<forall>a b. 0 \<le> a \<and> 0 \<le> b \<longrightarrow> com (a * P) (b * P) = (0, 1))"

text \<open>The sums of the slots before \<open>m\<close>.\<close>

definition upto :: "int list \<Rightarrow> nat \<Rightarrow> int" where
  "upto xs m = (\<Sum>i<m. xs ! i)"

lemma upto_simps [simp]: "upto xs 0 = 0" "upto xs (Suc m) = upto xs m + xs ! m"
  by (simp_all add: upto_def)

text \<open>The transaction's own commitments.\<close>

definition committed :: "(int \<Rightarrow> int \<Rightarrow> int \<times> int) \<Rightarrow> nat \<Rightarrow> EnygmaCircuit \<Rightarrow> bool" where
  "committed com n c \<longleftrightarrow> length (TxValues c) = n \<and> length (TxRandomValues c) = n \<and>
     TxCommit c = map (\<lambda>i. com (TxValues c ! i) (TxRandomValues c ! i)) [0..<n] \<and>
     (\<forall>i<n. 0 \<le> TxValues c ! i \<and> TxValues c ! i < SNARK_SCALAR_FIELD \<and> 0 \<le> TxRandomValues c ! i \<and> TxRandomValues c ! i < SNARK_SCALAR_FIELD)"

context gnark
begin

lemma client_indicator:
  assumes "client_setup c n sid s" "i < n"
  shows "is_sender api c i = Some (if i = sid then 1 else 0)" "sender_is api c i = Some (if i = sid then 1 else 0)"
  using assms client_sends [OF assms(1)] by (auto simp: is_sender_Some sender_is_Some client_setup_def)

lemma client_in_set:
  assumes "client_setup c n sid s"
  shows "check_sender_in_set api c = Some ()"
proof -
  have "foldM (\<lambda>i acc. do { isEqual \<leftarrow> is_sender api c i; Some (Add api isEqual acc) }) [0..<m] 0 = Some (if sid < m then 1 else 0)"
    if "m \<le> n" for m
    using that
  proof (induction m)
    case (Suc m)
    then show ?case using client_indicator [OF assms, of m] by (auto simp: foldM_append Add)
  qed simp
  from this [of n] assms show ?thesis by (simp add: check_sender_in_set_def client_setup_def AssertIsEqual)
qed

lemma client_select:
  assumes "client_setup c n sid s" "length vals = n"
  shows "select_sender api c vals = Some (fv (vals ! sid))"
proof -
  have "foldM (\<lambda>i acc. do { eq \<leftarrow> sender_is api c i; v \<leftarrow> idx vals i; Some (Add api acc (Mul api eq v)) }) [0..<m] 0 =
      Some (if sid < m then fv (vals ! sid) else 0)" if "m \<le> n" for m
    using that
  proof (induction m)
    case (Suc m)
    then show ?case using client_indicator [OF assms(1), of m] assms(2) by (cases "m = sid") (auto simp: foldM_append Add Mul idx_nth less_Suc_eq)
  qed simp
  from this [of n] assms show ?thesis by (simp add: select_sender_def client_setup_def)
qed

lemma client_value:
  assumes cs: "client_setup c n sid s" and "length (TxValues c) = n" "TxValues c ! sid = P - v" "SenderTxValue c = v"
    and v: "0 < v" "v < 2 ^ 64" and hint: "hint Site_value = ModHint (P - v)"
  shows "check_sender_value api hint c = Some (P - v, v)"
proof -
  have p: "0 \<le> P - v" "P - v < P" "P - v < 2 ^ 252" "P < 2 ^ 252" "fv P = P" "fv v = v" "v < 2 ^ 64"
    using v by (simp_all add: P_def fv_def SNARK_SCALAR_FIELD_def)
  then have f: "fv (P - v) = P - v" by (intro fv_below_P)
  have "ReduceModP api (ModHint (P - v)) (P - v) = Some (P - v)"
    using ReduceModP_honest [of "P - v"] p(1,2) P_bounds(1,3) mod_pos_pos_trivial [OF p(1,2)] by auto
  then show ?thesis
    using client_select [OF cs assms(2)] assms(3,4) hint p f
    by (simp add: check_sender_value_def ToBinary FromBinary le_value_le_bits Sub AssertIsEqual)
qed

lemma client_receivers:
  assumes cs: "client_setup c n sid s" and "length (TxValues c) = n"
    and range: "\<forall>i<n. i \<noteq> sid \<longrightarrow> 0 \<le> TxValues c ! i \<and> TxValues c ! i < 2 ^ 64"
    and total: "(\<Sum>i\<leftarrow>[0..<n]. if i = sid then 0 else TxValues c ! i) = v" "0 \<le> v" "v < 2 ^ 64"
  shows "check_receivers_sum api c v = Some ()"
proof -
  have "foldM (\<lambda>i acc. do {
         isSenderSlot \<leftarrow> is_sender api c i; v \<leftarrow> idx (TxValues c) i; nonSenderValue \<leftarrow> Select api isSenderSlot 0 v;
         nonSenderBits \<leftarrow> ToBinary api nonSenderValue 64;
         Some (Add api acc (FromBinary api nonSenderBits)) }) [0..<m] 0 =
      Some (fv (\<Sum>i\<leftarrow>[0..<m]. if i = sid then 0 else TxValues c ! i))" if "m \<le> n" for m
    using that
  proof (induction m)
    case (Suc m)
    have "fv (TxValues c ! m) = TxValues c ! m" if "m \<noteq> sid"
    proof (rule fv_id)
      have "TxValues c ! m < 2 ^ 64" using range Suc.prems that by simp
      then show "TxValues c ! m < SNARK_SCALAR_FIELD" by (simp add: SNARK_SCALAR_FIELD_def)
    qed (use range Suc.prems that in simp)
    then show ?case
      using Suc client_indicator [OF cs, of m] assms(2) range
      by (auto simp: foldM_append Add Select ToBinary FromBinary le_value_le_bits idx_nth)
  qed simp
  from this [of n] cs total show ?thesis by (simp add: check_receivers_sum_def client_setup_def AssertIsEqual)
qed

lemma client_secret:
  assumes "client_setup c n sid s" "canonical_hash Hash" "Hash [PreviousSenderRandomValue c, SecretKey c] = Some h"
    and "s ! sid = h mod P" "hint Site_secret = ModHint h"
  shows "check_sender_secret api Hash hint c = Some (h mod P)"
proof -
  have "0 \<le> h" "h < SNARK_SCALAR_FIELD" using assms(2,3) by (auto simp: canonical_hash_def)
  then have "ReduceModP api (hint Site_secret) h = Some (h mod P)" using ReduceModP_honest assms(5) by simp
  moreover have "select_sender api c (SharedSecrets c) = Some (fv (h mod P))"
    using client_select [OF assms(1), of "SharedSecrets c"] assms(1,4) by (simp add: client_setup_def)
  ultimately show ?thesis using assms(3) by (simp add: check_sender_secret_def AssertIsEqual)
qed

lemma client_public_key:
  assumes "client_setup c n sid s" "canonical_hash Hash" "Hash [SecretKey c, SecretKey c] = Some h"
    and "length (PublicKeys c) = n" "PublicKeys c ! sid = h mod P" "hint Site_pk = ModHint h"
  shows "check_public_key api Hash hint c = Some ()"
proof -
  have "0 \<le> h" "h < SNARK_SCALAR_FIELD" using assms(2,3) by (auto simp: canonical_hash_def)
  then have "ReduceModP api (hint Site_pk) h = Some (h mod P)" using ReduceModP_honest assms(6) by simp
  then show ?thesis
    using client_select [OF assms(1,4)] assms(3,5) by (simp add: check_public_key_def AssertIsEqual)
qed

lemma client_previous:
  assumes "client_setup c n sid s" "pedersen_curve api ped com" "length (PreviousCommit c) = n"
    and "PreviousCommit c ! sid = com (PreviousSenderBalance c) (PreviousSenderRandomValue c)"
    and "0 \<le> PreviousSenderBalance c" "PreviousSenderBalance c < SNARK_SCALAR_FIELD"
    and "0 \<le> PreviousSenderRandomValue c" "PreviousSenderRandomValue c < SNARK_SCALAR_FIELD"
  shows "check_previous_commitment api ped c = Some ()"
proof -
  have "sid < n" using assms(1) by (simp add: client_setup_def)
  then show ?thesis
    using client_select [OF assms(1), of "map fst (PreviousCommit c)"] client_select [OF assms(1), of "map snd (PreviousCommit c)"] assms(2-8)
    by (simp add: check_previous_commitment_def pedersen_curve_def AssertIsEqual)
qed

lemma client_solvency:
  assumes "0 \<le> v" "v \<le> PreviousSenderBalance c" "PreviousSenderBalance c < 2 ^ 64"
  shows "check_solvency api c v = Some ()"
proof -
  have "fv (PreviousSenderBalance c) = PreviousSenderBalance c" "fv v = v"
    using assms by (auto intro!: fv_id simp: SNARK_SCALAR_FIELD_def)
  moreover have "fv 2 = 2" by (simp add: fv_def SNARK_SCALAR_FIELD_def)
  ultimately show ?thesis
    using assms by (auto simp: check_solvency_def Let_def ToBinary FromBinary le_value_le_bits AssertIsEqual fv_IsZero Add Cmp)
qed

lemma committed_on_curve:
  assumes "pedersen_curve api ped com" "committed com n c" "NCommitment (Config c) = n"
    and "length (PreviousCommit c) = n" "\<forall>(x, y)\<in>set (PreviousCommit c). AssertPointsIsOnCurve api x y = Some ()"
  shows "check_on_curve api c = Some ()"
proof -
  have "(case PreviousCommit c ! i of (px, py) \<Rightarrow> do { AssertPointsIsOnCurve api px py;
      case TxCommit c ! i of (tx, ty) \<Rightarrow> AssertPointsIsOnCurve api tx ty }) = Some ()" if "i < n" for i
    using assms that nth_mem [of i "PreviousCommit c"]
    by (cases "PreviousCommit c ! i") (fastforce simp: committed_def pedersen_curve_def split_beta)
  moreover have "length (TxCommit c) = n" using assms(2) by (simp add: committed_def)
  ultimately show ?thesis using assms(3,4) by (simp add: check_on_curve_def forM_Some_iff idx_nth split_beta)
qed

lemma committed_openings:
  assumes "pedersen_curve api ped com" "committed com n c" "NCommitment (Config c) = n"
  shows "check_tx_commitments api ped c = Some ()"
  using assms by (auto simp: check_tx_commitments_def forM_Some_iff committed_def pedersen_curve_def idx_nth AssertIsEqual split_beta)

lemma committed_zero_sums:
  assumes com: "pedersen_curve api ped com" "committed com n c" "NCommitment (Config c) = n" and "0 < n"
    and total: "upto (TxValues c) n = a * P" "upto (TxRandomValues c) n = b * P"
    and small: "a * P < SNARK_SCALAR_FIELD" "b * P < SNARK_SCALAR_FIELD"
  shows "check_zero_sums api ped c = Some ()"
proof -
  let ?v = "TxValues c" and ?r = "TxRandomValues c"
  have nonneg: "0 \<le> upto ?v m" "0 \<le> upto ?r m" if "m \<le> n" for m
    using com(2) that by (auto simp: upto_def committed_def intro!: sum_nonneg)
  have ab: "0 \<le> a" "0 \<le> b" using nonneg [of n] total P_bounds(3) by (auto simp: zero_le_mult_iff)
  have sums: "foldM (\<lambda>i (sx, sy). do { v \<leftarrow> idx ?v i; r \<leftarrow> idx ?r i; Some (Add api sx v, Add api sy r) }) [0..<m] (0, 0) =
      Some (fv (upto ?v m), fv (upto ?r m))" if "m \<le> n" for m
    using that com(2) by (induction m) (auto simp: foldM_append Add idx_nth committed_def)
  have points: "foldM (\<lambda>i p. do { (x, y) \<leftarrow> idx (TxCommit c) i; PointAdd api p \<lparr>X = x, Y = y\<rparr> }) [1..<Suc m] (pt (com (?v ! 0) (?r ! 0))) =
      Some (pt (com (upto ?v (Suc m)) (upto ?r (Suc m))))" if "Suc m \<le> n" for m
    using that
  proof (induction m)
    case (Suc m)
    have "PointAdd api (pt (com (upto ?v (Suc m)) (upto ?r (Suc m)))) (pt (com (?v ! Suc m) (?r ! Suc m))) =
        Some (pt (com (upto ?v (Suc (Suc m))) (upto ?r (Suc (Suc m)))))"
      using com(1,2) nonneg [of "Suc m"] Suc.prems by (simp add: pedersen_curve_def committed_def)
    moreover have "idx (TxCommit c) (Suc m) = Some (com (?v ! Suc m) (?r ! Suc m))"
      using com(2) Suc.prems by (simp add: committed_def idx_nth)
    ultimately show ?case using Suc by (simp add: foldM_append pt_def split_beta)
  qed simp
  have "ped (fv (upto ?v n)) (fv (upto ?r n)) = Some (pt (0, 1))"
    using com(1) ab small nonneg [of n] total by (simp add: pedersen_curve_def fv_id)
  moreover have "idx (TxCommit c) 0 = Some (com (?v ! 0) (?r ! 0))" using com(2) \<open>0 < n\<close> by (simp add: committed_def idx_nth)
  moreover have "com (upto ?v n) (upto ?r n) = (0, 1)" using com(1) ab total by (simp add: pedersen_curve_def)
  ultimately show ?thesis
    using sums [of n] points [of "n - 1"] \<open>0 < n\<close> com(3)
    by (simp add: check_zero_sums_def AssertIsEqual pt_def split_beta)
qed

end

subsection \<open>A whole transaction\<close>

text \<open>What the client commits to.\<close>

lemma GenCommitment_commits:
  assumes "length s = n" and "sid < n" "txValues ! sid = P - v"
    and "GenCommitmentAndRandom Hash bj v (int sid) txValues nf (full_set n) s = Some (commits, rs)"
  shows "commits = map (\<lambda>i. curve_PedersenCommitment bj (txValues ! i) (rs ! i)) [0..<n]"
proof -
  from assms(1,2,4) obtain hs where hs: "mapM (slot_value Hash 21 (int sid) s nf) [0..<n] = Some hs" "length hs = n"
    "rs = map (\<lambda>i. if i = sid then (\<Sum>j\<leftarrow>[0..<n]. if j = sid then 0 else hs ! j) mod P else P - hs ! i) [0..<n]"
    by (rule client_random_values)
  let ?S = "(\<Sum>j\<leftarrow>[0..<n]. if j = sid then 0 else hs ! j) mod P"
  have "GetRSum Hash (int sid) s nf (full_set n) = Some ?S" using GetRSum_sum [OF assms(1) hs(1)] by simp
  then have m: "mapM (\<lambda>i. do { r \<leftarrow> idx (hs[sid := ?S]) i;
         if int i = int sid then Some (curve_PedersenCommitment bj (GetNegative v) r)
         else do { tv \<leftarrow> idx txValues i; Some (curve_PedersenCommitment bj tv (GetNegative r)) } }) [0..<n] = Some commits"
    using assms hs(1,2) by (auto simp: GenCommitmentAndRandom_def GetRValues_def bind_eq_Some_conv)
  show ?thesis
  proof (rule nth_equalityI)
    show len: "length commits = length (map (\<lambda>i. curve_PedersenCommitment bj (txValues ! i) (rs ! i)) [0..<n])"
      using mapM_length [OF m] by simp
    show "commits ! i = map (\<lambda>i. curve_PedersenCommitment bj (txValues ! i) (rs ! i)) [0..<n] ! i" if "i < length commits" for i
      using mapM_nth [OF m, of i] that len assms(3) hs(2,3)
      by (cases "i = sid") (auto simp: bind_eq_Some_conv idx_Some_iff GetNegative_def)
  qed
qed

text \<open>A sender who may pay \<open>v\<close>: the key and the balance are its own and the values of the other slots sum to \<open>v\<close>.\<close>

definition may_pay :: "hasher \<Rightarrow> (int \<Rightarrow> int \<Rightarrow> int \<times> int) \<Rightarrow> frontend_API \<Rightarrow> EnygmaCircuit \<Rightarrow> nat \<Rightarrow> nat \<Rightarrow> int \<Rightarrow> bool" where
  "may_pay Hash com api c n sid v \<longleftrightarrow> 0 < v \<and> v < 2 ^ 64 \<and> SenderTxValue c = v \<and>
     v \<le> PreviousSenderBalance c \<and> PreviousSenderBalance c < 2 ^ 64 \<and>
     0 \<le> PreviousSenderRandomValue c \<and> PreviousSenderRandomValue c < SNARK_SCALAR_FIELD \<and>
     length (TxValues c) = n \<and> TxValues c ! sid = P - v \<and>
     (\<forall>i<n. i \<noteq> sid \<longrightarrow> 0 \<le> TxValues c ! i \<and> TxValues c ! i < 2 ^ 64) \<and>
     (\<Sum>i\<leftarrow>[0..<n]. if i = sid then 0 else TxValues c ! i) = v \<and>
     length (PublicKeys c) = n \<and> length (PreviousCommit c) = n \<and>
     (\<exists>h. Hash [SecretKey c, SecretKey c] = Some h \<and> PublicKeys c ! sid = h mod P) \<and>
     PreviousCommit c ! sid = com (PreviousSenderBalance c) (PreviousSenderRandomValue c) \<and>
     (\<forall>(x, y)\<in>set (PreviousCommit c). AssertPointsIsOnCurve api x y = Some ())"

text \<open>The remaining reduction hints, answered honestly.\<close>

definition honest_sender_hints :: "hasher \<Rightarrow> EnygmaCircuit \<Rightarrow> int \<Rightarrow> (hint_site \<Rightarrow> fr \<times> fr) \<Rightarrow> bool" where
  "honest_sender_hints Hash c v hint \<longleftrightarrow> hint Site_value = ModHint (P - v) \<and>
     (\<forall>h. Hash [PreviousSenderRandomValue c, SecretKey c] = Some h \<longrightarrow> hint Site_secret = ModHint h) \<and>
     (\<forall>h. Hash [SecretKey c, SecretKey c] = Some h \<longrightarrow> hint Site_pk = ModHint h)"

lemma upto_remove: "sid < n \<Longrightarrow> upto xs n = xs ! sid + (\<Sum>i\<leftarrow>[0..<n]. if i = sid then 0 else xs ! i)"
proof -
  assume "sid < n"
  then have "upto xs n = xs ! sid + (\<Sum>i\<in>{..<n} - {sid}. xs ! i)" unfolding upto_def by (subst sum.remove [of _ sid]) auto
  also have "(\<Sum>i\<in>{..<n} - {sid}. xs ! i) = (\<Sum>i\<leftarrow>[0..<n]. if i = sid then 0 else xs ! i)"
    unfolding interv_sum_list_conv_sum_set_nat using \<open>sid < n\<close>
    by (subst (2) sum.remove [of _ sid]) (auto simp: lessThan_atLeast0 intro: sum.cong)
  finally show ?thesis .
qed

context gnark
begin

lemma payment_committed:
  assumes cs: "client_setup c n sid s" and "n \<le> 7" and pay: "may_pay Hash (curve_PedersenCommitment bj) api c n sid v"
    and gen: "GenCommitmentAndRandom Hash bj v (int sid) (TxValues c) nf (full_set n) s = Some (TxCommit c, TxRandomValues c)"
  obtains b where "committed (curve_PedersenCommitment bj) n c" "upto (TxRandomValues c) n = b * P" "b * P < SNARK_SCALAR_FIELD"
proof -
  have st: "NCommitment (Config c) = n" "length s = n" "sid < n" using cs by (auto simp: client_setup_def)
  have p: "0 < v" "v < 2 ^ 64" "length (TxValues c) = n" "TxValues c ! sid = P - v"
    "\<forall>i<n. i \<noteq> sid \<longrightarrow> 0 \<le> TxValues c ! i \<and> TxValues c ! i < 2 ^ 64" using pay by (simp_all add: may_pay_def)
  from st(2,3) gen obtain hs where hs: "mapM (slot_value Hash 21 (int sid) s nf) [0..<n] = Some hs" "length hs = n"
    "TxRandomValues c = map (\<lambda>i. if i = sid then (\<Sum>j\<leftarrow>[0..<n]. if j = sid then 0 else hs ! j) mod P else P - hs ! i) [0..<n]"
    by (rule client_random_values)
  have rng: "0 \<le> hs ! i \<and> hs ! i < P" if i: "i < n" for i
  proof -
    obtain x where "x mod P = hs ! i" using mapM_nth [OF hs(1), of i] i by (auto simp: slot_value_def bind_eq_Some_conv)
    then show ?thesis using P_bounds(3) pos_mod_bound [of P x] pos_mod_sign [of P x] by simp
  qed
  then have rs: "0 \<le> TxRandomValues c ! i \<and> TxRandomValues c ! i \<le> P" if "i < n" for i
    using that P_bounds(3) by (auto simp: hs(3) less_imp_le)
  have vs: "0 \<le> TxValues c ! i \<and> TxValues c ! i < SNARK_SCALAR_FIELD" if "i < n" for i
  proof (cases "i = sid")
    case True
    then show ?thesis using p(1,2,4) by (simp add: P_def SNARK_SCALAR_FIELD_def)
  next
    case False
    then have "0 \<le> TxValues c ! i \<and> TxValues c ! i < 2 ^ 64" using p(5) that by simp
    moreover have "2 ^ 64 \<le> SNARK_SCALAR_FIELD" by (simp add: SNARK_SCALAR_FIELD_def)
    ultimately show ?thesis by linarith
  qed
  have "P < SNARK_SCALAR_FIELD" using P_bounds by linarith
  then have opened: "committed (curve_PedersenCommitment bj) n c"
    using GenCommitment_commits [OF st(2,3) p(4) gen] p(3) hs(3) rs vs by (fastforce simp: committed_def)
  have "upto (TxRandomValues c) n mod P = 0"
    using client_randoms_cancel [OF cs gen] by (simp add: upto_def interv_sum_list_conv_sum_set_nat lessThan_atLeast0)
  then obtain b where "upto (TxRandomValues c) n = P * b" by blast
  then have b: "upto (TxRandomValues c) n = b * P" by simp
  have "upto (TxRandomValues c) n \<le> (\<Sum>i<n. P)" unfolding upto_def using rs by (intro sum_mono) simp
  also have "\<dots> \<le> 7 * P" using assms(2) P_bounds(3) by simp
  finally have small: "b * P < SNARK_SCALAR_FIELD" using b P_bounds(1) by linarith
  show thesis by (rule that [OF opened b small])
qed

lemma payment_satisfies:
  assumes "canonical_hash Hash" "honest_hints api Hash c nf hint" and cs: "client_setup c n sid s" and "n \<le> 7"
    and com: "pedersen_curve api ped (curve_PedersenCommitment bj)"
    and pay: "may_pay Hash (curve_PedersenCommitment bj) api c n sid v" and hints: "honest_sender_hints Hash c v hint"
    and secret: "Hash [PreviousSenderRandomValue c, SecretKey c] = Some h" "s ! sid = h mod P"
    and nf: "Hash [h mod P, BlockNumber c] = Some nf" "TxNullifier c = nf" and own: "Hash [s ! sid] = Some own"
    and gen: "GenCommitmentAndRandom Hash bj v (int sid) (TxValues c) nf (full_set n) s = Some (TxCommit c, TxRandomValues c)"
    and tags: "TagMessageGen Hash (int sid) s nf (full_set n) = Some (MessageTags c)"
    and fingers: "FingerPrintGen Hash s (int sid) = Some (FingerPrintofSharedSecrets c)"
  shows "EnygmaCircuit_Define api Hash ped hint c = Some ()"
proof -
  have st: "NCommitment (Config c) = n" "length s = n" "sid < n" "0 < n" using cs by (auto simp: client_setup_def)
  have p: "0 < v" "v < 2 ^ 64" "SenderTxValue c = v" "v \<le> PreviousSenderBalance c" "PreviousSenderBalance c < 2 ^ 64"
    "0 \<le> PreviousSenderRandomValue c" "PreviousSenderRandomValue c < SNARK_SCALAR_FIELD" "length (TxValues c) = n"
    "TxValues c ! sid = P - v" "\<forall>i<n. i \<noteq> sid \<longrightarrow> 0 \<le> TxValues c ! i \<and> TxValues c ! i < 2 ^ 64"
    "(\<Sum>i\<leftarrow>[0..<n]. if i = sid then 0 else TxValues c ! i) = v" "length (PublicKeys c) = n" "length (PreviousCommit c) = n"
    using pay by (simp_all add: may_pay_def)
  from payment_committed [OF cs assms(4) pay gen] obtain b where opened: "committed (curve_PedersenCommitment bj) n c"
    and b: "upto (TxRandomValues c) n = b * P" and small: "b * P < SNARK_SCALAR_FIELD" .
  have blocks: "check_random_factors api Hash hint c (\<lambda>d. slot_hash Hash c d nf) = Some ()" "check_tags api Hash hint c (\<lambda>d. slot_hash Hash c d nf) = Some ()"
    "check_fingerprints api Hash hint c = Some ()"
    using random_factors_accepted [OF assms(1,2) cs gen] tags_accepted [OF assms(1,2) cs tags] fingerprints_accepted [OF assms(1,2) cs fingers own] .
  have zero: "check_zero_sums api ped c = Some ()"
    using committed_zero_sums [OF com opened st(1,4), of 1 b] upto_remove [OF st(3), of "TxValues c"] p(9,11) b small P_bounds(1,3) by simp
  have key: "check_public_key api Hash hint c = Some ()"
    using client_public_key [OF cs assms(1) _ p(12)] pay hints by (auto simp: may_pay_def honest_sender_hints_def)
  have prev: "check_previous_commitment api ped c = Some ()"
  proof (rule client_previous [OF cs com p(13)])
    show "PreviousSenderBalance c < SNARK_SCALAR_FIELD" using p(5) by (simp add: SNARK_SCALAR_FIELD_def)
  qed (use pay p in \<open>auto simp: may_pay_def\<close>)
  have curve: "check_on_curve api c = Some ()"
    using committed_on_curve [OF com opened st(1) p(13)] pay by (simp add: may_pay_def)
  have paid: "check_sender_value api hint c = Some (P - v, v)"
    using client_value [OF cs p(8,9,3,1,2)] hints by (simp add: honest_sender_hints_def)
  have sec: "check_sender_secret api Hash hint c = Some (h mod P)"
    using client_secret [OF cs assms(1) secret] hints secret(1) by (simp add: honest_sender_hints_def)
  have "check_nullifier api Hash c (h mod P) = Some nf" using nf by (simp add: check_nullifier_def AssertIsEqual)
  then show ?thesis
    using client_in_set [OF cs] paid client_receivers [OF cs p(8,10,11)] curve sec blocks key prev zero client_solvency [of v c]
      committed_openings [OF com opened st(1)] p(1,2,4,5)
    by (simp add: EnygmaCircuit_Define_def AssertIsEqual)
qed

end

end
