(* ===== verification/Bank_Server.thy ===== *)
theory Bank_Server
  imports Prove_Server Bank_Complete Bank_Fee Bank_Burn
begin

section \<open>The proving server of the banks\<close>

text \<open>
  The endpoints of \<^verbatim>\<open>gnark-server/pkg/circuits/*/handler.go\<close>: transfers, transfers with a fee, deposits,
  withdrawals and burns, with the parser of \<^verbatim>\<open>utils/utils.go\<close> and the route table of \<^verbatim>\<open>pkg/api/server.go\<close>. The
  handlers of the four circuits over an anonymity set share their binding rules, witness fields and the layout
  of the public signals; each adds its own. The Groth16 backend and the curve arithmetic are arguments.
\<close>

subsection \<open>Requests\<close>

record bank_request =
  er_publicKeys :: "string list"
  er_previousCommits :: "string list list"
  er_txCommits :: "string list list"
  er_blockNumber :: string
  er_anonymitySet :: "string list"
  er_messageTags :: "string list"
  er_nullifier :: string
  er_senderID :: string
  er_sharedSecrets :: "string list"
  er_secretKey :: string
  er_previousSenderBalance :: string
  er_previousSenderRandomValue :: string
  er_txValues :: "string list"
  er_txRandomValues :: "string list"
  er_senderTxValue :: string
  er_domainId :: string

record EnygmaRequest = bank_request +
  er_fingerprints :: "string list list"

record hashed_request = bank_request +
  er_hashedSecrets :: "string list"

record DepositRequest = hashed_request +
  er_hash :: string
  er_pkDeposit :: string
  er_depositAddress :: string

record WithdrawRequest = hashed_request +
  er_hashes :: "string list"
  er_skDeposits :: "string list"
  er_vPerDeposit :: "string list"
  er_withdrawAddress :: string

record EnygmaFeeRequest = hashed_request +
  er_fee :: string

record BurnRequest =
  bu_publicKey :: string
  bu_previousCommit :: "string list"
  bu_newCommit :: "string list"
  bu_amount :: string
  bu_blockNumber :: string
  bu_nullifier :: string
  bu_secretKey :: string
  bu_previousBalance :: string
  bu_previousRandomValue :: string
  bu_domainId :: string

subsection \<open>Parsing\<close>

text \<open>
  The parser of the handlers: it remembers the first string that is not a decimal and gives 0 for it.
\<close>

definition BigIntParser_Parse :: "string \<Rightarrow> string option \<Rightarrow> int \<times> string option" where
  "BigIntParser_Parse s err = (case ParseBigInt s of
       None \<Rightarrow> (0, if err = None then Some s else err)
     | Some n \<Rightarrow> (n, err))"

fun parse_each :: "string list \<Rightarrow> string option \<Rightarrow> int list \<times> string option" where
  "parse_each [] err = ([], err)"
| "parse_each (s # ss) err = (let (n, err') = BigIntParser_Parse s err; (ns, err'') = parse_each ss err' in (n # ns, err''))"

definition bp_value :: "string \<Rightarrow> int" where
  "bp_value s = fst (BigIntParser_Parse s None)"

definition bp_point :: "string list \<Rightarrow> int \<times> int" where
  "bp_point xs = (bp_value (json_array 2 xs ! 0), bp_value (json_array 2 xs ! 1))"

text \<open>The \<^verbatim>\<open>binding\<close> tags: every array has six entries, no single field is empty.\<close>

definition bank_bound :: "('a) bank_request_scheme \<Rightarrow> bool" where
  "bank_bound req \<longleftrightarrow>
     list_all (\<lambda>xs. length xs = 6) [er_publicKeys req, er_anonymitySet req, er_messageTags req, er_sharedSecrets req,
       er_txValues req, er_txRandomValues req] \<and>
     length (er_previousCommits req) = 6 \<and> length (er_txCommits req) = 6 \<and>
     list_all (\<lambda>s. s \<noteq> []) [er_blockNumber req, er_nullifier req, er_senderID req, er_secretKey req, er_previousSenderBalance req,
       er_previousSenderRandomValue req, er_senderTxValue req, er_domainId req]"

text \<open>
  The strings the handler parses (their order only decides which one an error message names); \<open>row\<close> gives the
  fingerprints or the hashed secret of a slot. The coordinates of a point are a Go array of two. Sender, amount,
  key and block number are handed to gnark as strings.
\<close>

definition bank_slot_strings :: "('a) bank_request_scheme \<Rightarrow> (nat \<Rightarrow> string list) \<Rightarrow> nat \<Rightarrow> string list" where
  "bank_slot_strings req row i = [er_sharedSecrets req ! i] @ row i @ [er_publicKeys req ! i] @
     json_array 2 (er_previousCommits req ! i) @ json_array 2 (er_txCommits req ! i) @
     [er_txValues req ! i, er_txRandomValues req ! i, er_anonymitySet req ! i, er_messageTags req ! i]"

definition bank_strings :: "('a) bank_request_scheme \<Rightarrow> (nat \<Rightarrow> string list) \<Rightarrow> string list" where
  "bank_strings req row = concat (map (bank_slot_strings req row) [0..<6]) @
     [er_previousSenderBalance req, er_previousSenderRandomValue req, er_nullifier req, er_domainId req]"

definition bank_witness :: "('a) bank_request_scheme \<Rightarrow> bank_tx option" where
  "bank_witness req = do {
     senderId \<leftarrow> var (er_senderID req); senderTxValue \<leftarrow> var (er_senderTxValue req);
     secretKey \<leftarrow> var (er_secretKey req); blockNumber \<leftarrow> var (er_blockNumber req);
     Some \<lparr>Config = \<lparr>NCommitment = 6\<rparr>, PublicKeys = map bp_value (er_publicKeys req),
       PreviousCommit = map bp_point (er_previousCommits req), TxCommit = map bp_point (er_txCommits req), BlockNumber = blockNumber,
       AnonymitySet = map bp_value (er_anonymitySet req), MessageTags = map bp_value (er_messageTags req),
       TxNullifier = bp_value (er_nullifier req), DomainId = bp_value (er_domainId req), SenderId = senderId,
       SharedSecrets = map bp_value (er_sharedSecrets req), SecretKey = secretKey,
       PreviousSenderBalance = bp_value (er_previousSenderBalance req),
       PreviousSenderRandomValue = bp_value (er_previousSenderRandomValue req), TxValues = map bp_value (er_txValues req),
       TxRandomValues = map bp_value (er_txRandomValues req), SenderTxValue = senderTxValue\<rparr> }"

definition flatten_points :: "(int \<times> int) list \<Rightarrow> int list" where
  "flatten_points ps = concat (map (\<lambda>(x, y). [x, y]) ps)"

text \<open>The public signals the four handlers over an anonymity set have in common.\<close>

definition bank_signal :: "('a) bank_request_scheme \<Rightarrow> int list" where
  "bank_signal req = map bp_value (er_publicKeys req) @
     flatten_points (map bp_point (er_previousCommits req)) @ flatten_points (map bp_point (er_txCommits req)) @
     [bp_value (er_blockNumber req)] @ map bp_value (er_anonymitySet req) @ map bp_value (er_messageTags req) @
     [bp_value (er_nullifier req)]"

text \<open>
  The body of a handler, after binding: the parse errors, the witness, a slot of the prove limiter (\<open>acquired\<close>
  says whether one came free in time), proof, self-verification, reply.
\<close>

definition bank_endpoint :: "'c groth16 \<Rightarrow> bool \<Rightarrow> bool \<Rightarrow> string list \<Rightarrow> 'c option \<Rightarrow> int list \<Rightarrow> server_reply" where
  "bank_endpoint g acquired bound strings witness signals = (
     if \<not> bound then Failed 400 Stage_bind
     else if snd (parse_each strings None) \<noteq> None then Failed 400 Stage_parse
     else case witness of None \<Rightarrow> Failed 400 Stage_witness
     | Some w \<Rightarrow>
       if \<not> acquired then Failed 503 Stage_busy
       else case Prove g w of None \<Rightarrow> Failed 400 Stage_prove
       | Some p \<Rightarrow>
         if \<not> Verify g p w then Failed 500 Stage_verify
         else Proved (map bigInt_String (proofRemix p)) (map bigInt_String signals))"

subsection \<open>Transfers\<close>

definition enygma_bound :: "EnygmaRequest \<Rightarrow> bool" where
  "enygma_bound req \<longleftrightarrow> length (er_fingerprints req) = 6 \<and> list_all (\<lambda>row. length row = 6) (er_fingerprints req) \<and> bank_bound req"

definition enygma_witness :: "EnygmaRequest \<Rightarrow> EnygmaCircuit option" where
  "enygma_witness req = do {
     b \<leftarrow> bank_witness req;
     Some (bank_tx.extend b (EnygmaCircuit.fields (map (map bp_value) (er_fingerprints req)))) }"

definition enygma_signal :: "EnygmaRequest \<Rightarrow> int list" where
  "enygma_signal req = concat (map (map bp_value) (er_fingerprints req)) @ bank_signal req @ [bp_value (er_domainId req)]"

definition enygma_handler :: "EnygmaCircuit groth16 \<Rightarrow> bool \<Rightarrow> EnygmaRequest \<Rightarrow> server_reply" where
  "enygma_handler g acquired req = bank_endpoint g acquired (enygma_bound req)
     (bank_strings req (\<lambda>i. er_fingerprints req ! i)) (enygma_witness req) (enygma_signal req)"

subsection \<open>Deposits\<close>

definition hashed_bound :: "('a) hashed_request_scheme \<Rightarrow> bool" where
  "hashed_bound req \<longleftrightarrow> length (er_hashedSecrets req) = 6 \<and> bank_bound req"

definition hashed_witness :: "('a) hashed_request_scheme \<Rightarrow> hashed_bank_tx option" where
  "hashed_witness req = do {
     b \<leftarrow> bank_witness req;
     Some (bank_tx.extend b (hashed_bank_tx.fields (map bp_value (er_hashedSecrets req)))) }"

definition hashed_strings :: "('a) hashed_request_scheme \<Rightarrow> string list" where
  "hashed_strings req = bank_strings req (\<lambda>i. [er_hashedSecrets req ! i])"

definition deposit_witness :: "DepositRequest \<Rightarrow> DepositEnygmaCircuit option" where
  "deposit_witness req = do {
     address \<leftarrow> var (er_depositAddress req); hash \<leftarrow> var (er_hash req); pkDeposit \<leftarrow> var (er_pkDeposit req);
     b \<leftarrow> hashed_witness req;
     Some (hashed_bank_tx.extend b (DepositEnygmaCircuit.fields hash pkDeposit address)) }"

definition deposit_signal :: "DepositRequest \<Rightarrow> int list" where
  "deposit_signal req = map bp_value (er_hashedSecrets req) @ bank_signal req @ [bp_value (er_hash req), bp_value (er_domainId req)]"

definition deposit_handler :: "DepositEnygmaCircuit groth16 \<Rightarrow> bool \<Rightarrow> DepositRequest \<Rightarrow> server_reply" where
  "deposit_handler g acquired req = bank_endpoint g acquired
     (hashed_bound req \<and> list_all (\<lambda>s. s \<noteq> []) [er_hash req, er_pkDeposit req, er_depositAddress req])
     (hashed_strings req) (deposit_witness req) (deposit_signal req)"

subsection \<open>Withdrawals\<close>

text \<open>Ten notes in Go arrays of ten; the total is the sum of their parsed values.\<close>

definition totalDepositValue :: "WithdrawRequest \<Rightarrow> int" where
  "totalDepositValue req = sum_list (map bp_value (json_array 10 (er_vPerDeposit req)))"

definition withdrawal_strings :: "WithdrawRequest \<Rightarrow> string list" where
  "withdrawal_strings req = hashed_strings req @
     concat (map (\<lambda>i. [json_array 10 (er_hashes req) ! i, json_array 10 (er_skDeposits req) ! i, json_array 10 (er_vPerDeposit req) ! i]) [0..<10])"

definition withdrawal_witness :: "WithdrawRequest \<Rightarrow> WithdrawEnygmaCircuit option" where
  "withdrawal_witness req = do {
     address \<leftarrow> var (er_withdrawAddress req);
     b \<leftarrow> hashed_witness req;
     Some (hashed_bank_tx.extend b (WithdrawEnygmaCircuit.fields (totalDepositValue req)
       (map bp_value (json_array 10 (er_hashes req))) (map bp_value (json_array 10 (er_skDeposits req)))
       (map bp_value (json_array 10 (er_vPerDeposit req))) address)) }"

definition withdrawal_signal :: "WithdrawRequest \<Rightarrow> int list" where
  "withdrawal_signal req = map bp_value (er_hashedSecrets req) @ bank_signal req @ [totalDepositValue req, bp_value (er_domainId req)]"

definition withdrawal_handler :: "WithdrawEnygmaCircuit groth16 \<Rightarrow> bool \<Rightarrow> WithdrawRequest \<Rightarrow> server_reply" where
  "withdrawal_handler g acquired req = bank_endpoint g acquired
     (hashed_bound req \<and> required [er_withdrawAddress req]
        (map (json_array 10) [er_hashes req, er_skDeposits req, er_vPerDeposit req]))
     (withdrawal_strings req) (withdrawal_witness req) (withdrawal_signal req)"

subsection \<open>Transfers with a fee\<close>

definition sumTxVal :: "EnygmaFeeRequest \<Rightarrow> int" where
  "sumTxVal req = (sum_list (map bp_value (er_txValues req)) + bp_value (er_fee req)) mod P"

text \<open>The commitments added in order, starting with the first, and the fee times the value generator.\<close>

definition sumCommit :: "babyjub \<Rightarrow> EnygmaFeeRequest \<Rightarrow> int \<times> int" where
  "sumCommit bj req = AddPks bj
     (foldl (AddPks bj) (bp_point (er_txCommits req ! 0)) (map bp_point (tl (er_txCommits req))))
     (BJ_Mul bj (bp_value (er_fee req)) (X G, Y G))"

definition fee_witness :: "babyjub \<Rightarrow> EnygmaFeeRequest \<Rightarrow> EnygmaFeeCircuit option" where
  "fee_witness bj req = do {
     b \<leftarrow> hashed_witness req;
     Some (hashed_bank_tx.extend b (EnygmaFeeCircuit.fields (bp_value (er_fee req)) (sumCommit bj req) (sumTxVal req))) }"

definition fee_signal :: "babyjub \<Rightarrow> EnygmaFeeRequest \<Rightarrow> int list" where
  "fee_signal bj req = map bp_value (er_hashedSecrets req) @ bank_signal req @
     [bp_value (er_fee req), fst (sumCommit bj req), snd (sumCommit bj req), sumTxVal req, bp_value (er_domainId req)]"

definition fee_handler :: "babyjub \<Rightarrow> EnygmaFeeCircuit groth16 \<Rightarrow> bool \<Rightarrow> EnygmaFeeRequest \<Rightarrow> server_reply" where
  "fee_handler bj g acquired req = bank_endpoint g acquired (hashed_bound req \<and> er_fee req \<noteq> [])
     (er_fee req # hashed_strings req) (fee_witness bj req) (fee_signal bj req)"

subsection \<open>Burns\<close>

definition burn_strings :: "BurnRequest \<Rightarrow> string list" where
  "burn_strings req = [bu_publicKey req, bu_amount req, bu_blockNumber req, bu_nullifier req, bu_secretKey req,
     bu_previousBalance req, bu_previousRandomValue req, bu_domainId req] @
     json_array 2 (bu_previousCommit req) @ json_array 2 (bu_newCommit req)"

definition burn_witness :: "BurnRequest \<Rightarrow> BurnCircuit" where
  "burn_witness req = \<lparr>BurnPublicKey = bp_value (bu_publicKey req), BurnPreviousCommit = bp_point (bu_previousCommit req),
     NewCommit = bp_point (bu_newCommit req), Amount = bp_value (bu_amount req), BurnBlockNumber = bp_value (bu_blockNumber req),
     BurnNullifier = bp_value (bu_nullifier req), BurnDomainId = bp_value (bu_domainId req), BurnSecretKey = bp_value (bu_secretKey req),
     PreviousBalance = bp_value (bu_previousBalance req), PreviousRandomValue = bp_value (bu_previousRandomValue req)\<rparr>"

definition burn_signal :: "BurnRequest \<Rightarrow> int list" where
  "burn_signal req = [bp_value (bu_publicKey req)] @ flatten_points [bp_point (bu_previousCommit req), bp_point (bu_newCommit req)] @
     [bp_value (bu_amount req), bp_value (bu_blockNumber req), bp_value (bu_nullifier req), bp_value (bu_domainId req)]"

definition burn_handler :: "BurnCircuit groth16 \<Rightarrow> bool \<Rightarrow> BurnRequest \<Rightarrow> server_reply" where
  "burn_handler g acquired req = bank_endpoint g acquired
     (required [bu_publicKey req, bu_amount req, bu_blockNumber req, bu_nullifier req, bu_secretKey req, bu_previousBalance req,
        bu_previousRandomValue req, bu_domainId req] [json_array 2 (bu_previousCommit req), json_array 2 (bu_newCommit req)])
     (burn_strings req) (Some (burn_witness req)) (burn_signal req)"

subsection \<open>In front of the handlers\<close>

text \<open>
  \<^verbatim>\<open>requireJSONContentType\<close> on ASCII headers and \<^verbatim>\<open>maxBodySize\<close>: a body over the limit fails to bind.
\<close>

definition lower :: "char \<Rightarrow> char" where
  "lower c = (let k = of_char c :: nat in if 65 \<le> k \<and> k < 91 then char_of (k + 32) else c)"

definition requireJSONContentType :: "string \<Rightarrow> bool" where
  "requireJSONContentType ct \<longleftrightarrow> map lower (TrimSpace (takeWhile (\<lambda>c. c \<noteq> CHR '';'') ct)) = ''application/json''"

definition maxRequestBodyBytes :: nat where
  "maxRequestBodyBytes = 512 * 1024"

definition NewServer :: "string \<Rightarrow> nat \<Rightarrow> server_reply \<Rightarrow> server_reply" where
  "NewServer contentType bodyBytes reply = (
     if \<not> requireJSONContentType contentType then Failed 415 Stage_auth
     else if bodyBytes > maxRequestBodyBytes then Failed 400 Stage_bind
     else reply)"

subsection \<open>Public inputs\<close>

text \<open>The public fields of the circuits, in the order of their declaration, which is gnark's order.\<close>

definition bank_public :: "('a) bank_tx_scheme \<Rightarrow> int list" where
  "bank_public c = PublicKeys c @ flatten_points (PreviousCommit c) @ flatten_points (TxCommit c) @ [BlockNumber c] @
     AnonymitySet c @ MessageTags c @ [TxNullifier c]"

definition enygma_public :: "EnygmaCircuit \<Rightarrow> int list" where
  "enygma_public c = concat (FingerPrintofSharedSecrets c) @ bank_public c @ [DomainId c]"

definition deposit_public :: "DepositEnygmaCircuit \<Rightarrow> int list" where
  "deposit_public c = HashedSharedSecrets c @ bank_public c @ [DepositHash c, DomainId c]"

definition withdrawal_public :: "WithdrawEnygmaCircuit \<Rightarrow> int list" where
  "withdrawal_public c = HashedSharedSecrets c @ bank_public c @ [TotalDepositValue c, DomainId c]"

definition fee_public :: "EnygmaFeeCircuit \<Rightarrow> int list" where
  "fee_public c = HashedSharedSecrets c @ bank_public c @
     [Fee c, fst (SumTxCommit c), snd (SumTxCommit c), SumTxValuesWithFee c, DomainId c]"

definition burn_public :: "BurnCircuit \<Rightarrow> int list" where
  "burn_public c = BurnPublicKey c # flatten_points [BurnPreviousCommit c, NewCommit c] @
     [Amount c, BurnBlockNumber c, BurnNullifier c, BurnDomainId c]"

text \<open>A number the way every printer writes it: decimal, no prefix, no leading zero.\<close>

definition plain :: "string \<Rightarrow> bool" where
  "plain s \<longleftrightarrow> (\<exists>n. s = bigInt_String n)"

subsection \<open>Lemmas\<close>

lemma parse_each_eq:
  "parse_each ss err = (map bp_value ss, case err of Some e \<Rightarrow> Some e | None \<Rightarrow> find (\<lambda>s. ParseBigInt s = None) ss)"
  by (induction ss arbitrary: err) (auto simp: BigIntParser_Parse_def bp_value_def split: option.splits)

lemma bp_value_String [simp]: "bp_value (bigInt_String n) = n"
  by (simp add: bp_value_def BigIntParser_Parse_def)

lemma plain_value: "plain s \<Longrightarrow> var s = Some (bp_value s)"
  by (auto simp: plain_def)

lemma bank_endpoint_Proved:
  "bank_endpoint g acquired bound strings w sig = Proved p s \<longleftrightarrow> bound \<and> (\<forall>x\<in>set strings. ParseBigInt x \<noteq> None) \<and> acquired \<and>
     (\<exists>c pr. w = Some c \<and> Prove g c = Some pr \<and> Verify g pr c \<and> p = map bigInt_String (proofRemix pr) \<and> s = map bigInt_String sig)"
  by (auto simp: bank_endpoint_def parse_each_eq find_None_iff split: option.splits if_splits)

lemma bank_witness_public:
  "bank_witness req = Some b \<Longrightarrow> plain (er_blockNumber req) \<Longrightarrow> bank_public b = bank_signal req \<and> DomainId b = bp_value (er_domainId req)"
  by (auto simp: bank_witness_def bank_public_def bank_signal_def bind_eq_Some_conv plain_value)

lemmas extended = bank_tx.extend_def hashed_bank_tx.extend_def hashed_bank_tx.fields_def EnygmaCircuit.fields_def
  DepositEnygmaCircuit.fields_def WithdrawEnygmaCircuit.fields_def EnygmaFeeCircuit.fields_def bank_public_def

lemma witness_public:
  "plain (er_blockNumber rt) \<Longrightarrow> enygma_witness rt = Some ct \<Longrightarrow> enygma_public ct = enygma_signal rt"
  "plain (er_blockNumber rd) \<Longrightarrow> plain (er_hash rd) \<Longrightarrow> deposit_witness rd = Some cd \<Longrightarrow> deposit_public cd = deposit_signal rd"
  "plain (er_blockNumber rw) \<Longrightarrow> withdrawal_witness rw = Some cw \<Longrightarrow> withdrawal_public cw = withdrawal_signal rw"
  "plain (er_blockNumber rf) \<Longrightarrow> fee_witness bj rf = Some cf \<Longrightarrow> fee_public cf = fee_signal bj rf"
  "burn_public (burn_witness rb) = burn_signal rb"
  by (auto simp: enygma_witness_def enygma_public_def enygma_signal_def deposit_witness_def hashed_witness_def deposit_public_def
      deposit_signal_def withdrawal_witness_def withdrawal_public_def withdrawal_signal_def fee_witness_def fee_public_def fee_signal_def
      burn_public_def burn_witness_def burn_signal_def bind_eq_Some_conv plain_value extended dest!: bank_witness_public)

subsection \<open>Example requests\<close>

definition six_withdraw :: WithdrawEnygmaCircuit where
  "six_withdraw = \<lparr>Config = \<lparr>NCommitment = 6\<rparr>, PublicKeys = replicate 6 0, PreviousCommit = replicate 6 (0, 1),
     TxCommit = replicate 6 (0, 1), BlockNumber = 3, AnonymitySet = [0, 1, 2, 3, 4, 5], MessageTags = replicate 6 0, TxNullifier = 0,
     DomainId = 1, SenderId = 0, SharedSecrets = replicate 6 0, SecretKey = 4, PreviousSenderBalance = 9,
     PreviousSenderRandomValue = 6, TxValues = [P - 5, 0, 0, 0, 0, 0], TxRandomValues = [0, P, P, P, P, P], SenderTxValue = 5,
     HashedSharedSecrets = replicate 6 0, TotalDepositValue = 5, Hashes = replicate 10 0, SkDeposits = replicate 10 1,
     VPerDeposit = 5 # replicate 9 0, WithdrawAddress = 7\<rparr>"

lemma upt_6: "[0..<6] = [0, 1, 2, 3, 4, 5]"
  by (simp add: upt_rec)

lemma six_replicate: "replicate 6 x = [x, x, x, x, x, x]"
  by (simp add: numeral_eq_Suc)

lemma six_fields:
  "NCommitment (Config six_withdraw) = 6" "PublicKeys six_withdraw = [0, 0, 0, 0, 0, 0]"
  "PreviousCommit six_withdraw = [(0, 1), (0, 1), (0, 1), (0, 1), (0, 1), (0, 1)]"
  "TxCommit six_withdraw = [(0, 1), (0, 1), (0, 1), (0, 1), (0, 1), (0, 1)]" "AnonymitySet six_withdraw = [0, 1, 2, 3, 4, 5]"
  "MessageTags six_withdraw = [0, 0, 0, 0, 0, 0]" "TxNullifier six_withdraw = 0" "SenderId six_withdraw = 0"
  "SharedSecrets six_withdraw = [0, 0, 0, 0, 0, 0]" "PreviousSenderBalance six_withdraw = 9"
  "TxRandomValues six_withdraw = [0, P, P, P, P, P]" "TxValues six_withdraw = [P - 5, 0, 0, 0, 0, 0]" "SenderTxValue six_withdraw = 5"
  "HashedSharedSecrets six_withdraw = [0, 0, 0, 0, 0, 0]" "TotalDepositValue six_withdraw = 5"
  "Hashes six_withdraw = replicate 10 0" "SkDeposits six_withdraw = replicate 10 1" "VPerDeposit six_withdraw = 5 # replicate 9 0"
  by (simp_all add: six_withdraw_def six_replicate)

lemma six_numbers: "fv 3 = 3" "fv (- 2) \<noteq> 0" "fv (- 3) \<noteq> 0" "fv (- 4) \<noteq> 0" "fv (- 5) \<noteq> 0"
  by (simp_all add: fv_def SNARK_SCALAR_FIELD_def)

lemma six_slots:
  "is_sender fr_api six_withdraw i = (if i < 6 then Some (if i = 0 then 1 else 0) else None)"
  "sender_is fr_api six_withdraw i = (if i < 6 then Some (if i = 0 then 1 else 0) else None)"
  using pay_numbers six_numbers
  by (auto simp: is_sender_def sender_is_def six_fields idx_def fr.api_laws less_Suc_eq numeral_eq_Suc)

lemmas six_simps = six_fields six_slots pay_simps upt_6 idx_def

lemma six_select: "select_sender fr_api six_withdraw [a, b, c, d, e, f] = Some (fv a)"
  by (simp add: select_sender_def six_simps)

lemma six_withdraw_sat: "WithdrawEnygmaCircuit_Define fr_api zero_hash zero_ped pay_hint six_withdraw = Some ()"
proof -
  have "withdraw_note zero_hash six_withdraw i" if "i < 10" for i
    using that by (simp add: withdraw_note_def six_fields zero_hash_def)
  then have "check_withdraw_notes fr_api zero_hash six_withdraw = Some ()"
    by (simp add: fr.withdraw_notes_iff six_fields upt_10)
  moreover have "check_sender_in_set fr_api six_withdraw = Some ()" by (simp add: check_sender_in_set_def six_simps)
  moreover have "check_sender_value fr_api pay_hint six_withdraw = Some (P - 5, 5)"
    by (simp add: check_sender_value_def six_simps six_select pay_bit_simps)
  moreover have "check_receivers_sum fr_api six_withdraw 0 = Some ()" by (simp add: check_receivers_sum_def six_simps pay_bit_simps)
  moreover have "check_on_curve fr_api six_withdraw = Some ()" by (simp add: check_on_curve_def AssertPointsIsOnCurve_def six_simps)
  moreover have "check_sender_secret fr_api zero_hash pay_hint six_withdraw = Some 0" by (simp add: check_sender_secret_def six_simps six_select)
  moreover have "check_hashed_secrets fr_api zero_hash pay_hint six_withdraw = Some ()" by (simp add: check_hashed_secrets_def six_simps)
  moreover have "check_hashed_nullifier fr_api zero_hash six_withdraw = Some ()" by (simp add: check_hashed_nullifier_def six_simps six_select)
  moreover have "check_public_key fr_api zero_hash pay_hint six_withdraw = Some ()" by (simp add: check_public_key_def six_simps six_select)
  moreover have "check_previous_commitment fr_api zero_ped six_withdraw = Some ()" by (simp add: check_previous_commitment_def six_simps six_select)
  moreover have "check_tags fr_api zero_hash pay_hint six_withdraw (block_slot zero_hash six_withdraw) = Some ()"
    by (simp add: check_tags_def block_slot_def six_simps)
  moreover have "check_solvency fr_api six_withdraw 5 = Some ()" by (simp add: check_solvency_def six_simps pay_bit_simps fr.Cmp)
  moreover have "check_own_sum fr_api zero_ped six_withdraw v = Some ()" for v by (simp add: check_own_sum_def six_simps)
  moreover have "check_tx_commitments fr_api zero_ped six_withdraw = Some ()" by (simp add: check_tx_commitments_def six_simps)
  moreover have "check_random_factors fr_api zero_hash pay_hint six_withdraw (block_slot zero_hash six_withdraw) = Some ()"
    by (simp add: check_random_factors_def random_pass_def block_slot_def six_simps)
  ultimately show ?thesis by (simp add: WithdrawEnygmaCircuit_Define_def six_fields pay_simps)
qed

text \<open>A printed withdrawal and a printed burn, and requests that are all ones.\<close>

definition six_request :: WithdrawRequest where
  "six_request = \<lparr>er_publicKeys = map bigInt_String (replicate 6 0), er_previousCommits = replicate 6 (map bigInt_String [0, 1]),
     er_txCommits = replicate 6 (map bigInt_String [0, 1]), er_blockNumber = bigInt_String 3,
     er_anonymitySet = map bigInt_String [0, 1, 2, 3, 4, 5], er_messageTags = map bigInt_String (replicate 6 0),
     er_nullifier = bigInt_String 0, er_senderID = bigInt_String 0, er_sharedSecrets = map bigInt_String (replicate 6 0),
     er_secretKey = bigInt_String 4, er_previousSenderBalance = bigInt_String 9, er_previousSenderRandomValue = bigInt_String 6,
     er_txValues = map bigInt_String [P - 5, 0, 0, 0, 0, 0], er_txRandomValues = map bigInt_String [0, P, P, P, P, P],
     er_senderTxValue = bigInt_String 5, er_domainId = bigInt_String 1, er_hashedSecrets = map bigInt_String (replicate 6 0),
     er_hashes = map bigInt_String (replicate 10 0), er_skDeposits = map bigInt_String (replicate 10 1),
     er_vPerDeposit = map bigInt_String (5 # replicate 9 0), er_withdrawAddress = bigInt_String 7\<rparr>"

definition burn_request :: BurnRequest where
  "burn_request = \<lparr>bu_publicKey = bigInt_String (BurnPublicKey burn_example), bu_previousCommit = map bigInt_String [0, 1],
     bu_newCommit = map bigInt_String [0, 1], bu_amount = bigInt_String (Amount burn_example),
     bu_blockNumber = bigInt_String (BurnBlockNumber burn_example), bu_nullifier = bigInt_String (BurnNullifier burn_example),
     bu_secretKey = bigInt_String (BurnSecretKey burn_example), bu_previousBalance = bigInt_String (PreviousBalance burn_example),
     bu_previousRandomValue = bigInt_String (PreviousRandomValue burn_example), bu_domainId = bigInt_String (BurnDomainId burn_example)\<rparr>"

lemma bp_point_String [simp]: "bp_point [bigInt_String x, bigInt_String y] = (x, y)"
  by (simp add: bp_point_def)

lemma six_request_witness: "withdrawal_witness six_request = Some six_withdraw"
  by (simp add: withdrawal_witness_def hashed_witness_def bank_witness_def six_request_def six_withdraw_def extended totalDepositValue_def
      six_replicate comp_def sum_list_replicate)

lemma six_request_strings: "\<forall>x\<in>set (withdrawal_strings six_request). ParseBigInt x \<noteq> None"
  unfolding withdrawal_strings_def hashed_strings_def bank_strings_def bank_slot_strings_def upt_6 upt_10
  by (simp add: six_request_def six_replicate) 

lemma six_request_bound: "hashed_bound six_request"
  by (simp add: six_request_def hashed_bound_def bank_bound_def)

lemma six_request_proved:
  assumes "Prove g six_withdraw = Some pr" "Verify g pr six_withdraw"
  shows "withdrawal_handler g True six_request = Proved (map bigInt_String (proofRemix pr)) (map bigInt_String (withdrawal_signal six_request))"
  using assms six_request_witness six_request_strings six_request_bound
  by (simp add: withdrawal_handler_def bank_endpoint_Proved required_def) (simp add: six_request_def)

lemma burn_request_proved:
  assumes "Prove g burn_example = Some pr" "Verify g pr burn_example"
  shows "burn_handler g True burn_request = Proved (map bigInt_String (proofRemix pr)) (map bigInt_String (burn_signal burn_request))"
proof -
  have "burn_witness burn_request = burn_example" by (simp add: burn_witness_def burn_request_def burn_example_def)
  with assms show ?thesis by (simp add: burn_handler_def bank_endpoint_Proved required_def burn_request_def burn_strings_def)
qed

lemma withdraw_proved:
  assumes "proves_exactly g define" "withdrawal_handler g acquired req = Proved p s"
  obtains c where "withdrawal_witness req = Some c" "define c = Some ()" "s = map bigInt_String (withdrawal_signal req)" "hashed_bound req"
  using assms by (auto simp: withdrawal_handler_def bank_endpoint_Proved proves_exactly_def)

lemma withdraw_fields:
  assumes "withdrawal_witness req = Some c" "hashed_bound req"
  shows "NCommitment (Config c) = 6" "TotalDepositValue c = totalDepositValue req"
    "PreviousSenderBalance c = bp_value (er_previousSenderBalance req)" "i < 6 \<Longrightarrow> TxValues c ! i = bp_value (er_txValues req ! i)"
  using assms by (auto simp: withdrawal_witness_def hashed_witness_def bank_witness_def bind_eq_Some_conv extended hashed_bound_def bank_bound_def)

lemma flatten_length [simp]: "length (flatten_points ps) = 2 * length ps"
  by (induction ps) (auto simp: flatten_points_def)

lemma bank_signal_length: "bank_bound req \<Longrightarrow> length (bank_signal req) = 44"
  by (simp add: bank_signal_def bank_bound_def)

subsection \<open>Properties\<close>

text \<open>
  A withdrawal that is proved takes out of the account what it publishes. Whatever the request, when the endpoint
  answers with a proof, the signal at position 50 is the sum of the request's ten note values; one bank's slot
  is the negative of that sum modulo the group order, every other slot is 0, and the previous balance covers it.
\<close>

theorem withdraw_reply_total:
  assumes "gnark api" "proves_exactly g (\<lambda>c. WithdrawEnygmaCircuit_Define api pos ped (hints c) c)"
    and "withdrawal_handler g acquired req = Proved p s"
  shows "s ! 50 = bigInt_String (totalDepositValue req) \<and>
    fv (totalDepositValue req) \<le> fv (bp_value (er_previousSenderBalance req)) \<and> fv (bp_value (er_previousSenderBalance req)) < 2 ^ 64 \<and>
    (\<exists>i<6. fv (bp_value (er_txValues req ! i)) = (P - fv (totalDepositValue req)) mod P \<and>
       (\<forall>j<6. j \<noteq> i \<longrightarrow> fv (bp_value (er_txValues req ! j)) = 0))"
proof -
  from assms(2,3) obtain c where c: "withdrawal_witness req = Some c" "WithdrawEnygmaCircuit_Define api pos ped (hints c) c = Some ()"
    "s = map bigInt_String (withdrawal_signal req)" "hashed_bound req" by (rule withdraw_proved)
  have "length (er_hashedSecrets req) = 6" "length (bank_signal req) = 44" using c(4) bank_signal_length by (auto simp: hashed_bound_def)
  then have "s ! 50 = bigInt_String (totalDepositValue req)" by (simp add: c(3) withdrawal_signal_def nth_append)
  moreover have "check_withdraw_notes api pos c = Some ()" using gnark.withdraw_blocks [OF assms(1) c(2)] by blast
  then have "fv (TotalDepositValue c) = fv (SenderTxValue c)" using gnark.withdraw_notes_iff [OF assms(1), of pos c] by auto
  ultimately show ?thesis
    using gnark.withdraw_debits [OF assms(1) c(2)] withdraw_fields [OF c(1,4)] by (auto simp: sender_slot_def SNARK_SCALAR_FIELD_def)
qed

theorem withdraw_reply_total_witness:
  "\<exists>p s. withdrawal_handler (toy_groth16 (\<lambda>c. WithdrawEnygmaCircuit_Define fr_api zero_hash zero_ped pay_hint c)) True six_request = Proved p s \<and>
     s ! 50 = bigInt_String 5 \<and> (\<exists>i<6. fv (bp_value (er_txValues six_request ! i)) = (P - 5) mod P)"
proof -
  let ?d = "\<lambda>c. WithdrawEnygmaCircuit_Define fr_api zero_hash zero_ped pay_hint c"
  obtain pr where "Prove (toy_groth16 ?d) six_withdraw = Some pr" "Verify (toy_groth16 ?d) pr six_withdraw"
    using six_withdraw_sat by (auto simp: toy_groth16_def)
  then obtain p s where ps: "withdrawal_handler (toy_groth16 ?d) True six_request = Proved p s" using six_request_proved by blast
  have "totalDepositValue six_request = 5" by (simp add: totalDepositValue_def six_request_def sum_list_replicate)
  then show ?thesis
    using withdraw_reply_total [OF gnark_fr_api toy_groth16_exact [of ?d] ps] ps pay_numbers by auto
qed

text \<open>
  A burn that is proved is covered and settles. The published previous commitment opens to some balance below
  \<open>2 ^ 64\<close> that is at least the published amount, the published new commitment opens to the difference under the
  same blinding factor, and the request's key hashes to the published public key.
\<close>

theorem burn_reply_settles:
  assumes "gnark api" "proves_exactly g (\<lambda>c. BurnCircuit_Define api pos ped (hints c) c)"
    and "burn_handler g acquired req = Proved p s"
  shows "s = map bigInt_String (burn_public (burn_witness req)) \<and>
    fv (bp_value (bu_amount req)) \<le> fv (bp_value (bu_previousBalance req)) \<and> fv (bp_value (bu_previousBalance req)) < 2 ^ 64 \<and>
    commits_to (bp_point (bu_previousCommit req)) (ped (bp_value (bu_previousBalance req)) (bp_value (bu_previousRandomValue req))) \<and>
    commits_to (bp_point (bu_newCommit req)) (ped (fv (bp_value (bu_previousBalance req)) - fv (bp_value (bu_amount req)))
      (bp_value (bu_previousRandomValue req))) \<and>
    (\<exists>h. pos [bp_value (bu_secretKey req), bp_value (bu_secretKey req)] = Some h \<and> reduces (fv h) (fv (bp_value (bu_publicKey req))))"
proof -
  let ?c = "burn_witness req"
  have "s = map bigInt_String (burn_signal req)" and "BurnCircuit_Define api pos ped (hints ?c) ?c = Some ()"
    using assms(2,3) by (auto simp: burn_handler_def bank_endpoint_Proved proves_exactly_def)
  then obtain key secret where "s = map bigInt_String (burn_public ?c)" "burn_spec pos ped ?c key secret"
    using gnark.burn_sound [OF assms(1)] witness_public(5) by metis
  then show ?thesis by (auto simp: burn_spec_def) (simp_all add: burn_witness_def)
qed

theorem burn_reply_settles_witness:
  "\<exists>g p s. burn_handler g True burn_request = Proved p s \<and> s = map bigInt_String (burn_public (burn_witness burn_request)) \<and>
     fv (bp_value (bu_amount burn_request)) \<le> fv (bp_value (bu_previousBalance burn_request))"
proof -
  have "reduces 0 0" using P_bounds(3) by (simp add: reduces_def)
  then have "burn_spec zero_hash zero_ped burn_example 0 0"
    using pay_numbers by (simp add: burn_spec_def commits_to_def burn_example_def zero_hash_def zero_ped_def)
  then obtain hint where hint: "BurnCircuit_Define fr_api zero_hash zero_ped hint burn_example = Some ()"
    using gnark.burn_complete [OF gnark_fr_api] by blast
  let ?d = "\<lambda>c. BurnCircuit_Define fr_api zero_hash zero_ped hint c"
  obtain pr where "Prove (toy_groth16 ?d) burn_example = Some pr" "Verify (toy_groth16 ?d) pr burn_example"
    using hint by (auto simp: toy_groth16_def)
  then obtain p s where ps: "burn_handler (toy_groth16 ?d) True burn_request = Proved p s" using burn_request_proved by blast
  from burn_reply_settles [OF gnark_fr_api toy_groth16_exact [of ?d] ps] ps show ?thesis by blast
qed

text \<open>
  C27. A reply carries the public inputs of the assignment that was proved. When the strings that gnark reads itself
  (the block number, and the note hash of a deposit) are plain decimals, an endpoint that answers with a proof
  publishes exactly the public fields of the assignment it proved, in the circuit's order.
\<close>

theorem replies_publish_public_inputs:
  "(plain (er_blockNumber rt) \<and> enygma_handler gt acquired rt = Proved p s \<longrightarrow>
      (\<exists>c. enygma_witness rt = Some c \<and> Prove gt c \<noteq> None \<and> s = map bigInt_String (enygma_public c))) \<and>
   (plain (er_blockNumber rd) \<and> plain (er_hash rd) \<and> deposit_handler gd acquired rd = Proved p s \<longrightarrow>
      (\<exists>c. deposit_witness rd = Some c \<and> Prove gd c \<noteq> None \<and> s = map bigInt_String (deposit_public c))) \<and>
   (plain (er_blockNumber rw) \<and> withdrawal_handler gw acquired rw = Proved p s \<longrightarrow>
      (\<exists>c. withdrawal_witness rw = Some c \<and> Prove gw c \<noteq> None \<and> s = map bigInt_String (withdrawal_public c))) \<and>
   (plain (er_blockNumber rf) \<and> fee_handler bj gf acquired rf = Proved p s \<longrightarrow>
      (\<exists>c. fee_witness bj rf = Some c \<and> Prove gf c \<noteq> None \<and> s = map bigInt_String (fee_public c))) \<and>
   (burn_handler gb acquired rb = Proved p s \<longrightarrow>
      Prove gb (burn_witness rb) \<noteq> None \<and> s = map bigInt_String (burn_public (burn_witness rb)))"
  by (auto simp: enygma_handler_def deposit_handler_def withdrawal_handler_def fee_handler_def burn_handler_def bank_endpoint_Proved
      witness_public)

definition ones :: "bank_request" where
  "ones = (let n = bigInt_String 1; ns = replicate 6 n; ps = replicate 6 [n, n] in
     \<lparr>er_publicKeys = ns, er_previousCommits = ps, er_txCommits = ps, er_blockNumber = n, er_anonymitySet = ns, er_messageTags = ns,
       er_nullifier = n, er_senderID = n, er_sharedSecrets = ns, er_secretKey = n, er_previousSenderBalance = n,
       er_previousSenderRandomValue = n, er_txValues = ns, er_txRandomValues = ns, er_senderTxValue = n, er_domainId = n\<rparr>)"

definition ones_transfer :: EnygmaRequest where
  "ones_transfer = bank_request.extend ones (EnygmaRequest.fields (replicate 6 (replicate 6 (bigInt_String 1))))"

definition ones_deposit :: DepositRequest where
  "ones_deposit = hashed_request.extend (bank_request.extend ones (hashed_request.fields (replicate 6 (bigInt_String 1))))
     (DepositRequest.fields (bigInt_String 1) (bigInt_String 1) (bigInt_String 1))"

definition ones_fee :: EnygmaFeeRequest where
  "ones_fee = hashed_request.extend (bank_request.extend ones (hashed_request.fields (replicate 6 (bigInt_String 1))))
     (EnygmaFeeRequest.fields (bigInt_String 1))"

definition accept_all :: "'c groth16" where
  "accept_all = toy_groth16 (\<lambda>c. Some ())"

lemma accept_all_endpoint:
  "bound \<Longrightarrow> \<forall>x\<in>set strings. ParseBigInt x \<noteq> None \<Longrightarrow> w \<noteq> None \<Longrightarrow> \<exists>p s. bank_endpoint accept_all True bound strings w sig = Proved p s"
  by (auto simp: bank_endpoint_Proved accept_all_def toy_groth16_def)

lemmas ones_simps = ones_transfer_def ones_deposit_def ones_fee_def ones_def bank_request.extend_def hashed_request.extend_def
  EnygmaRequest.fields_def hashed_request.fields_def DepositRequest.fields_def EnygmaFeeRequest.fields_def six_replicate

lemma ones_strings:
  "\<forall>x\<in>set (bank_strings ones_transfer (\<lambda>i. er_fingerprints ones_transfer ! i)). ParseBigInt x \<noteq> None"
  "\<forall>x\<in>set (hashed_strings ones_deposit). ParseBigInt x \<noteq> None" "\<forall>x\<in>set (hashed_strings ones_fee). ParseBigInt x \<noteq> None"
  unfolding hashed_strings_def bank_strings_def bank_slot_strings_def upt_6 by (simp_all add: ones_simps Let_def)

lemma ones_bound: "enygma_bound ones_transfer" "hashed_bound ones_deposit" "hashed_bound ones_fee"
  by (simp_all add: enygma_bound_def hashed_bound_def bank_bound_def ones_simps Let_def)

lemma ones_witness: "enygma_witness ones_transfer \<noteq> None" "deposit_witness ones_deposit \<noteq> None" "fee_witness bj ones_fee \<noteq> None"
  by (simp_all add: enygma_witness_def deposit_witness_def fee_witness_def hashed_witness_def bank_witness_def ones_simps Let_def)

lemma ones_present: "list_all (\<lambda>s. s \<noteq> []) [er_hash ones_deposit, er_pkDeposit ones_deposit, er_depositAddress ones_deposit]"
  "er_fee ones_fee \<noteq> []" "ParseBigInt (er_fee ones_fee) \<noteq> None"
  by (simp_all add: ones_simps Let_def)

lemma ones_proved:
  "\<exists>p s. enygma_handler accept_all True ones_transfer = Proved p s" "\<exists>p s. deposit_handler accept_all True ones_deposit = Proved p s"
  "\<exists>p s. withdrawal_handler accept_all True six_request = Proved p s" "\<exists>p s. fee_handler bj accept_all True ones_fee = Proved p s"
  "\<exists>p s. burn_handler accept_all True burn_request = Proved p s"
proof -
  have acc: "\<exists>pr. Prove accept_all c = Some pr \<and> Verify accept_all pr c" for c :: 'c
    by (simp add: accept_all_def toy_groth16_def)
  show "\<exists>p s. enygma_handler accept_all True ones_transfer = Proved p s"
    unfolding enygma_handler_def by (rule accept_all_endpoint [OF ones_bound(1) ones_strings(1) ones_witness(1)])
  show "\<exists>p s. deposit_handler accept_all True ones_deposit = Proved p s"
    unfolding deposit_handler_def by (rule accept_all_endpoint [OF conjI [OF ones_bound(2) ones_present(1)] ones_strings(2) ones_witness(2)])
  show "\<exists>p s. fee_handler bj accept_all True ones_fee = Proved p s"
    unfolding fee_handler_def using ones_strings(3) ones_present(3)
    by (intro accept_all_endpoint conjI ones_bound(3) ones_present(2) ones_witness(3)) simp
  show "\<exists>p s. withdrawal_handler accept_all True six_request = Proved p s" "\<exists>p s. burn_handler accept_all True burn_request = Proved p s"
    using acc [of six_withdraw] acc [of burn_example] six_request_proved burn_request_proved by blast+
qed

lemma ones_plain: "plain (er_blockNumber ones_transfer)" "plain (er_blockNumber ones_deposit)" "plain (er_hash ones_deposit)"
  "plain (er_blockNumber ones_fee)" "plain (er_blockNumber six_request)"
  by (auto simp: ones_simps Let_def plain_def six_request_def)

theorem replies_publish_public_inputs_witness:
  "(\<exists>p c. enygma_handler accept_all True ones_transfer = Proved p (map bigInt_String (enygma_public c))) \<and>
   (\<exists>p c. deposit_handler accept_all True ones_deposit = Proved p (map bigInt_String (deposit_public c))) \<and>
   (\<exists>p c. withdrawal_handler accept_all True six_request = Proved p (map bigInt_String (withdrawal_public c))) \<and>
   (\<exists>p c. fee_handler toy_curve accept_all True ones_fee = Proved p (map bigInt_String (fee_public c))) \<and>
   (\<exists>p c. burn_handler accept_all True burn_request = Proved p (map bigInt_String (burn_public c)))"
  using replies_publish_public_inputs [where rt = ones_transfer and gt = accept_all and acquired = True and rd = ones_deposit and
      gd = accept_all and rw = six_request and gw = accept_all and rf = ones_fee and bj = toy_curve and gf = accept_all and rb = burn_request
      and gb = accept_all] ones_proved ones_plain
  by metis

text \<open>
  A page of another origin cannot drive the server: a POST with one of the three content types a browser sends
  without a preflight, whatever its parameters, is answered 415 before a handler runs.
\<close>

theorem simple_posts_refused:
  assumes "t \<in> {''text/plain'', ''application/x-www-form-urlencoded'', ''multipart/form-data''}" "params = [] \<or> hd params = CHR '';''"
  shows "NewServer (t @ params) n reply = Failed 415 Stage_auth"
proof -
  have "takeWhile (\<lambda>c. c \<noteq> CHR '';'') params = []" using assms(2) by (cases params) auto
  then have "takeWhile (\<lambda>c. c \<noteq> CHR '';'') (t @ params) = t" using assms(1) by auto
  moreover have "\<forall>t\<in>set [''text/plain'', ''application/x-www-form-urlencoded'', ''multipart/form-data''].
      map lower (TrimSpace t) \<noteq> ''application/json''" by code_simp
  ultimately show ?thesis using assms(1) by (auto simp: NewServer_def requireJSONContentType_def)
qed

theorem simple_posts_refused_witness:
  "NewServer ''text/plain; charset=utf-8'' 10 (Proved [] []) = Failed 415 Stage_auth"
  using simple_posts_refused [of "''text/plain''" "''; charset=utf-8''" 10 "Proved [] []"] by simp

lemma bank_update_block:
  "bank_strings (req\<lparr>er_blockNumber := b\<rparr>) row = bank_strings req row"
  "b \<noteq> [] \<Longrightarrow> bank_bound req \<Longrightarrow> bank_bound (req\<lparr>er_blockNumber := b\<rparr>)"
  "var b = var (er_blockNumber req) \<Longrightarrow> bank_witness (req\<lparr>er_blockNumber := b\<rparr>) = bank_witness req"
  "bank_bound req \<Longrightarrow> bank_signal (req\<lparr>er_blockNumber := b\<rparr>) = (bank_signal req)[30 := bp_value b]"
  by (auto simp: bank_strings_def bank_slot_strings_def [abs_def] bank_bound_def bank_witness_def bank_signal_def list_update_append)

text \<open>
  A reply can publish a block number that was not proved. gnark reads the block number with the base its prefix
  names, the reply prints it with the decimal parser, whose error is not looked at any more: replacing the block
  number of an accepted request by another notation of the same number gives the same proof, with the decimal
  reading, 0 where there is none, as the published block number.
\<close>

theorem prefixed_block_number_published:
  assumes "enygma_handler g acquired req = Proved p s" "var b = var (er_blockNumber req)" "b \<noteq> []"
  shows "enygma_handler g acquired (req\<lparr>er_blockNumber := b\<rparr>) = Proved p (s[66 := bigInt_String (bp_value b)])"
proof -
  have bound: "enygma_bound req" using assms(1) by (simp add: enygma_handler_def bank_endpoint_Proved)
  have rows: "length (concat xss) = 6 * length xss" if "list_all (\<lambda>row. length row = 6) xss" for xss :: "int list list"
    using that by (induction xss) auto
  have "length (concat (map (map bp_value) (er_fingerprints req))) = 36" "length (bank_signal req) = 44"
    using bound rows [of "map (map bp_value) (er_fingerprints req)"] by (auto simp: enygma_bound_def list_all_iff bank_signal_length)
  then have "enygma_signal (req\<lparr>er_blockNumber := b\<rparr>) = (enygma_signal req)[66 := bp_value b]"
    using bound bank_update_block(4) [of req b] by (simp add: enygma_signal_def enygma_bound_def list_update_append)
  moreover have "enygma_bound (req\<lparr>er_blockNumber := b\<rparr>)" using bound bank_update_block(2) [OF assms(3), of req] by (simp add: enygma_bound_def)
  ultimately show ?thesis
    using assms(1) bank_update_block(3) [OF assms(2)] by (auto simp: enygma_handler_def enygma_witness_def bank_endpoint_Proved bank_update_block(1) map_update)
qed

theorem prefixed_block_number_published_witness:
  "\<exists>p s. enygma_handler accept_all True (ones_transfer\<lparr>er_blockNumber := ''0x1''\<rparr>) = Proved p (s[66 := bigInt_String 0])"
proof -
  obtain p s where "enygma_handler accept_all True ones_transfer = Proved p s" using ones_proved(1) by blast
  moreover have "er_blockNumber ones_transfer = bigInt_String 1" by (simp add: ones_simps Let_def)
  moreover have "var ''0x1'' = Some 1" "bp_value ''0x1'' = 0" by code_simp+
  ultimately show ?thesis using prefixed_block_number_published [of accept_all True ones_transfer p s "''0x1''"] by auto
qed

text \<open>
  C32. The shape of the answers. A reply with a proof has eight proof coordinates and as many signals as the verifier
  contract of its endpoint takes: 81 for a transfer, 52 for a deposit or a withdrawal, 55 for a transfer with a
  fee, 9 for a burn; every entry is a number in plain decimal notation.
\<close>

theorem reply_shapes:
  assumes "(enygma_handler gt acquired rt, 81) = (Proved p s, n) \<or> (deposit_handler gd acquired rd, 52) = (Proved p s, n) \<or>
    (withdrawal_handler gw acquired rw, 52) = (Proved p s, n) \<or> (fee_handler bj gf acquired rf, 55) = (Proved p s, n) \<or>
    (burn_handler gb acquired rb, 9) = (Proved p s, n)"
  shows "length p = 8 \<and> length s = n \<and> list_all plain p \<and> list_all plain s"
proof -
  have rows: "length (concat xss) = 6 * length xss" if "\<forall>row\<in>set xss. length row = 6" for xss :: "int list list"
    using that by (induction xss) auto
  have "length (enygma_signal rt) = 81" if "enygma_bound rt"
    using that rows [of "map (map bp_value) (er_fingerprints rt)"]
    by (auto simp: enygma_signal_def enygma_bound_def bank_signal_length list_all_iff)
  moreover have "length (deposit_signal rd) = 52" if "hashed_bound rd"
    using that by (simp add: deposit_signal_def hashed_bound_def bank_signal_length)
  moreover have "length (withdrawal_signal rw) = 52" if "hashed_bound rw"
    using that by (simp add: withdrawal_signal_def hashed_bound_def bank_signal_length)
  moreover have "length (fee_signal bj rf) = 55" if "hashed_bound rf"
    using that by (simp add: fee_signal_def hashed_bound_def bank_signal_length)
  moreover have "length (burn_signal rb) = 9" by (simp add: burn_signal_def)
  moreover have "list_all plain (map bigInt_String ns)" for ns by (auto simp: list_all_iff plain_def)
  ultimately show ?thesis
    using assms
    by (auto simp: enygma_handler_def deposit_handler_def withdrawal_handler_def fee_handler_def burn_handler_def bank_endpoint_Proved)
qed

theorem reply_shapes_witness: "\<exists>p s. enygma_handler accept_all True ones_transfer = Proved p s \<and> length p = 8 \<and> length s = 81"
proof -
  obtain p s where ps: "enygma_handler accept_all True ones_transfer = Proved p s" using ones_proved(1) by blast
  then have "(enygma_handler accept_all True ones_transfer, 81 :: nat) = (Proved p s, 81)" by simp
  from reply_shapes [OF disjI1 [OF this]] ps show ?thesis by blast
qed

end
