(* ===== verification/Bank_Transfer.thy ===== *)
theory Bank_Transfer
  imports Bank_Server Relay_Bank Agreement
begin

unbundle bit_operations_syntax

section \<open>A bank's transfer: from the command line to the contract call\<close>

text \<open>
  The command-line client of the bank network (\<^verbatim>\<open>go_client/transaction/main.go\<close>), the request it sends to the
  proving server (\<^verbatim>\<open>go_client/internal/proof/genProof.go\<close>), whose endpoint is \<^term>\<open>enygma_handler\<close>, and the request
  to the relayer, whose validation is \<^term>\<open>check_transfer\<close>. What the client reads from the chain, the answers of
  the two servers and the hash are arguments.
\<close>

subsection \<open>Arguments and environment\<close>

record TransactionArgs =
  QtyBanks :: int
  ta_Value :: int
  ta_SenderId :: int
  Sk :: int
  PreviousV :: int
  PreviousR :: int

datatype arg_error = Usage | Invalid_qtyBank | Invalid_value | Invalid_senderId | Env_not_set string | Env_invalid string

definition bigIntFromEnv :: "(string \<Rightarrow> string) \<Rightarrow> string \<Rightarrow> arg_error + int" where
  "bigIntFromEnv env name = (
     if env name = [] then Inl (Env_not_set name)
     else case bigInt_SetString (env name) of None \<Rightarrow> Inl (Env_invalid name) | Some v \<Rightarrow> Inr v)"

definition parseArguments :: "(string \<Rightarrow> string) \<Rightarrow> string list \<Rightarrow> arg_error + TransactionArgs" where
  "parseArguments env args = (
     if length args < 4 then Inl Usage
     else case Atoi (args ! 1) of None \<Rightarrow> Inl Invalid_qtyBank
     | Some qtyBanks \<Rightarrow> (case bigInt_SetString (args ! 2) of None \<Rightarrow> Inl Invalid_value
     | Some val \<Rightarrow> (case Atoi (args ! 3) of None \<Rightarrow> Inl Invalid_senderId
     | Some senderId \<Rightarrow> (case bigIntFromEnv env ''ENYGMA_SK'' of Inl e \<Rightarrow> Inl e
     | Inr sk \<Rightarrow> (case bigIntFromEnv env ''ENYGMA_PREVIOUS_V'' of Inl e \<Rightarrow> Inl e
     | Inr previousV \<Rightarrow> (case bigIntFromEnv env ''ENYGMA_PREVIOUS_R'' of Inl e \<Rightarrow> Inl e
     | Inr previousR \<Rightarrow> Inr \<lparr>QtyBanks = qtyBanks, ta_Value = val, ta_SenderId = senderId, Sk = sk,
         PreviousV = previousV, PreviousR = previousR\<rparr>))))))"

text \<open>The identifier of a deployment, from the chain id and the 20 bytes of the contract's address.\<close>

definition computeDomainId :: "int \<Rightarrow> byte list \<Rightarrow> int" where
  "computeDomainId chainID contractAddr = (push_bit 160 chainID OR SetBytes contractAddr)"

definition GenerateTxValues :: "int \<Rightarrow> int list" where
  "GenerateTxValues v = [GetNegative v, 60, 40, 0, 0, 0]"

definition generateKIndex :: "int list" where
  "generateKIndex = [0, 1, 2, 3, 4, 5]"

subsection \<open>The proving request\<close>

definition convertBigIntsToStrings :: "int list \<Rightarrow> string list" where
  "convertBigIntsToStrings bigInts = map bigInt_String bigInts"

definition point_strings :: "int \<times> int \<Rightarrow> string list" where
  "point_strings p = [bigInt_String (fst p), bigInt_String (snd p)]"

definition proof_request ::
  "TransactionArgs \<Rightarrow> int \<Rightarrow> int \<Rightarrow> int list \<Rightarrow> (int \<times> int) list \<Rightarrow> (int \<times> int) list \<Rightarrow> int list \<Rightarrow> int list \<Rightarrow> int list \<Rightarrow> int list \<Rightarrow>
   int list list \<Rightarrow> int list \<Rightarrow> int \<Rightarrow> EnygmaRequest" where
  "proof_request args nullifier blockHash publicKey previousCommit txCommit txValue txRandom secrets k_index fingerPrint tagMessage domainId =
     \<lparr>er_publicKeys = map bigInt_String publicKey,
       er_previousCommits = map point_strings previousCommit, er_txCommits = map point_strings txCommit,
       er_blockNumber = bigInt_String blockHash, er_anonymitySet = convertBigIntsToStrings k_index,
       er_messageTags = convertBigIntsToStrings tagMessage, er_nullifier = bigInt_String nullifier,
       er_senderID = bigInt_String (ta_SenderId args), er_sharedSecrets = convertBigIntsToStrings secrets,
       er_secretKey = bigInt_String (Sk args), er_previousSenderBalance = bigInt_String (PreviousV args),
       er_previousSenderRandomValue = bigInt_String (PreviousR args), er_txValues = convertBigIntsToStrings txValue,
       er_txRandomValues = convertBigIntsToStrings txRandom, er_senderTxValue = bigInt_String (ta_Value args),
       er_domainId = bigInt_String domainId, er_fingerprints = map convertBigIntsToStrings fingerPrint\<rparr>"

datatype proof_error = Server_status nat | Malformed_proof nat | Undecodable | Empty_signal

definition GenerateProof_reply :: "server_reply \<Rightarrow> proof_error + int list \<times> int list" where
  "GenerateProof_reply reply = (case reply of
       Failed status stage \<Rightarrow> Inl (Server_status status)
     | Proved p s \<Rightarrow>
       (case (mapM bigInt_SetString p, mapM bigInt_SetString s) of
          (Some pr, Some sig) \<Rightarrow>
            if length pr \<noteq> 8 then Inl (Malformed_proof (length pr))
            else if sig = [] then Inl Empty_signal else Inr (pr, sig)
        | _ \<Rightarrow> Inl Undecodable))"

subsection \<open>Submitting the transfer\<close>

text \<open>The relay request: the circuit's slots are 0-based, the contract's accounts 1-based.\<close>

definition relay_request :: "(int \<times> int) list \<Rightarrow> int list \<times> int list \<Rightarrow> int list \<Rightarrow> RelayTransferRequest" where
  "relay_request txCommit resp k_index = \<lparr>Proof = map (\<lambda>i. if i < length (fst resp) then bigInt_String (fst resp ! i) else []) [0..<8],
     PublicSignal = map bigInt_String (snd resp), Commitments = map point_strings txCommit, KIndex = map (\<lambda>k. k + 1) k_index\<rparr>"

text \<open>
  The direct call. More than 81 signals do not fit its array; fewer leave entries nil, which the contract binding
  cannot encode. Both are panics.
\<close>

definition direct_call :: "(int \<times> int) list \<Rightarrow> int list \<times> int list \<Rightarrow> int list \<Rightarrow> transfer_call option" where
  "direct_call txCommit resp k_index = (
     if length (snd resp) \<noteq> 81 then None
     else Some \<lparr>proof8 = take 8 (fst resp), pubSig = snd resp, commitments = txCommit, kIndex = map (\<lambda>k. k + 1) k_index\<rparr>)"

datatype transfer_error = Proof_failed proof_error | Relay_failed nat | Direct_failed | Not_moved

definition verifyTransferOnChain :: "(int \<times> int \<Rightarrow> int \<times> int \<Rightarrow> int \<times> int) \<Rightarrow> int \<times> int \<Rightarrow> int \<times> int \<Rightarrow> int \<times> int \<Rightarrow> bool" where
  "verifyTransferOnChain addPedComm newBal prevBalance senderDelta \<longleftrightarrow> newBal = addPedComm prevBalance senderDelta"

text \<open>What the client computes before it asks for a proof: nullifier, commitments and the request.\<close>

definition transfer_values ::
  "hasher \<Rightarrow> babyjub \<Rightarrow> TransactionArgs \<Rightarrow> int list \<Rightarrow> (int \<times> int) list \<Rightarrow> int list \<Rightarrow> int \<Rightarrow> int \<Rightarrow> byte list \<Rightarrow>
   (EnygmaRequest \<times> (int \<times> int) list \<times> (int \<times> int) list) option" where
  "transfer_values Hash bj args secrets balances keys blockHash chainID contractAddr = (
     if balances = [] \<or> keys = [] then None
     else do {
       let referenceBalance = tl balances;
       let publicKeys = tl keys;
       let domainId = computeDomainId chainID contractAddr;
       let k_index = generateKIndex;
       fingerPrint \<leftarrow> FingerPrintGen Hash secrets (ta_SenderId args);
       let txValue = GenerateTxValues (ta_Value args);
       own \<leftarrow> (if ta_SenderId args < 0 then None else idx secrets (nat (ta_SenderId args)));
       nullifier \<leftarrow> Hash [own, blockHash];
       tagMessage \<leftarrow> TagMessageGen Hash (ta_SenderId args) secrets nullifier k_index;
       (txCommit, txRandom) \<leftarrow> GenCommitmentAndRandom Hash bj (ta_Value args) (ta_SenderId args) txValue nullifier k_index secrets;
       Some (proof_request args nullifier blockHash publicKeys referenceBalance txCommit txValue txRandom secrets k_index fingerPrint
         tagMessage domainId, txCommit, referenceBalance) })"

text \<open>
  The transaction; \<open>prove\<close> and \<open>relay\<close> are the two servers, \<open>direct\<close> the contract call of the direct mode (with
  the choice of the mode), \<open>newBal\<close> the balance read back. \<^term>\<open>None\<close> is a panic.
\<close>

definition executeTransaction ::
  "hasher \<Rightarrow> babyjub \<Rightarrow> TransactionArgs \<Rightarrow> int list \<Rightarrow> (int \<times> int) list \<Rightarrow> int list \<Rightarrow> int \<Rightarrow> int \<Rightarrow> byte list \<Rightarrow>
   (EnygmaRequest \<Rightarrow> server_reply) \<Rightarrow> (RelayTransferRequest \<Rightarrow> nat) \<Rightarrow> (transfer_call \<Rightarrow> bool) option \<Rightarrow>
   (int \<times> int \<Rightarrow> int \<times> int \<Rightarrow> int \<times> int) \<Rightarrow> int \<times> int \<Rightarrow> (transfer_error + unit) option" where
  "executeTransaction Hash bj args secrets balances keys blockHash chainID contractAddr prove relay direct addPedComm newBal = do {
     (req, txCommit, referenceBalance) \<leftarrow> transfer_values Hash bj args secrets balances keys blockHash chainID contractAddr;
     case GenerateProof_reply (prove req) of
       Inl e \<Rightarrow> Some (Inl (Proof_failed e))
     | Inr resp \<Rightarrow> do {
         submitted \<leftarrow> (case direct of
             None \<Rightarrow> (let status = relay (relay_request txCommit resp generateKIndex) in
               Some (if status \<noteq> 200 then Inl (Relay_failed status) else Inr ()))
           | Some call \<Rightarrow> do {
               tc \<leftarrow> direct_call txCommit resp generateKIndex;
               Some (if call tc then Inr () else Inl Direct_failed) });
         case submitted of Inl e \<Rightarrow> Some (Inl e)
         | Inr () \<Rightarrow> do {
             prevBalance \<leftarrow> idx referenceBalance (nat (ta_SenderId args));
             delta \<leftarrow> idx txCommit (nat (ta_SenderId args));
             Some (if verifyTransferOnChain addPedComm newBal prevBalance delta then Inr () else Inl Not_moved) } } }"

subsection \<open>What the server makes of the client's request\<close>

lemma computeDomainId_value:
  assumes "length addr = 20"
  shows "computeDomainId chain addr = chain * 2 ^ 160 + SetBytes addr"
proof -
  have "take_bit 160 (SetBytes addr) = SetBytes addr"
    using SetBytes_bounds [of addr] assms by (intro take_bit_int_eq_self) simp_all
  then have "computeDomainId chain addr = concat_bit 160 (SetBytes addr) chain"
    by (simp add: computeDomainId_def concat_bit_def or.commute)
  also have "\<dots> = chain * 2 ^ 160 + SetBytes addr"
    using \<open>take_bit 160 (SetBytes addr) = SetBytes addr\<close> by (simp add: concat_bit_eq push_bit_eq_mult)
  finally show ?thesis .
qed

lemma bp_point_strings [simp]: "bp_point (point_strings p) = p"
  by (simp add: point_strings_def)

lemma map_bp_point [simp]: "map (bp_point \<circ> point_strings) ps = ps"
  by (rule map_idI) simp

lemma map_bp_value [simp]: "map (bp_value \<circ> bigInt_String) ns = ns"
  by (rule map_idI) simp

definition transfer_circuit ::
  "TransactionArgs \<Rightarrow> int \<Rightarrow> int \<Rightarrow> int list \<Rightarrow> (int \<times> int) list \<Rightarrow> (int \<times> int) list \<Rightarrow> int list \<Rightarrow> int list \<Rightarrow> int list \<Rightarrow> int list \<Rightarrow>
   int list list \<Rightarrow> int list \<Rightarrow> int \<Rightarrow> EnygmaCircuit" where
  "transfer_circuit args nullifier blockHash publicKey previousCommit txCommit txValue txRandom secrets k_index fingerPrint tagMessage domainId =
     \<lparr>Config = \<lparr>NCommitment = 6\<rparr>, PublicKeys = publicKey, PreviousCommit = previousCommit, TxCommit = txCommit, BlockNumber = blockHash,
       AnonymitySet = k_index, MessageTags = tagMessage, TxNullifier = nullifier, DomainId = domainId, SenderId = ta_SenderId args,
       SharedSecrets = secrets, SecretKey = Sk args, PreviousSenderBalance = PreviousV args, PreviousSenderRandomValue = PreviousR args,
       TxValues = txValue, TxRandomValues = txRandom, SenderTxValue = ta_Value args, FingerPrintofSharedSecrets = fingerPrint\<rparr>"

definition six_banks :: "EnygmaCircuit \<Rightarrow> bool" where
  "six_banks c \<longleftrightarrow> length (FingerPrintofSharedSecrets c) = 6 \<and> list_all (\<lambda>row. length row = 6) (FingerPrintofSharedSecrets c) \<and>
     length (PublicKeys c) = 6 \<and> length (PreviousCommit c) = 6 \<and> length (TxCommit c) = 6 \<and> length (AnonymitySet c) = 6 \<and>
     length (MessageTags c) = 6 \<and> length (SharedSecrets c) = 6 \<and> length (TxValues c) = 6 \<and> length (TxRandomValues c) = 6"

lemma request_witness:
  "enygma_witness (proof_request args nf blockHash pks prev txc txv txr secrets k fp tags did) =
    Some (transfer_circuit args nf blockHash pks prev txc txv txr secrets k fp tags did)"
  by (simp add: enygma_witness_def bank_witness_def extended proof_request_def convertBigIntsToStrings_def transfer_circuit_def comp_def map_idI)

lemma handler_request:
  assumes c: "c = transfer_circuit args nf blockHash pks prev txc txv txr secrets k fp tags did" and six: "six_banks c"
  shows "enygma_handler g True (proof_request args nf blockHash pks prev txc txv txr secrets k fp tags did) =
    (case Prove g c of None \<Rightarrow> Failed 400 Stage_prove
     | Some p \<Rightarrow> if \<not> Verify g p c then Failed 500 Stage_verify
       else Proved (map bigInt_String (proofRemix p)) (map bigInt_String (enygma_public c)))"
proof -
  let ?r = "proof_request args nf blockHash pks prev txc txv txr secrets k fp tags did"
  have s: "length fp = 6" "list_all (\<lambda>row. length row = 6) fp" "length pks = 6" "length prev = 6" "length txc = 6" "length k = 6"
    "length tags = 6" "length secrets = 6" "length txv = 6" "length txr = 6"
    using six by (simp_all add: six_banks_def c transfer_circuit_def)
  have bound: "enygma_bound ?r"
    using s by (simp add: enygma_bound_def bank_bound_def proof_request_def convertBigIntsToStrings_def list_all_iff)
  let ?row = "\<lambda>i. er_fingerprints ?r ! i"
  have "\<forall>x\<in>set (bank_slot_strings ?r ?row i). \<exists>n. x = bigInt_String n" if i: "i < 6" for i
    using s i by (auto simp: bank_slot_strings_def proof_request_def convertBigIntsToStrings_def point_strings_def)
  then have "\<forall>x\<in>set (bank_strings ?r ?row). \<exists>n. x = bigInt_String n"
    by (fastforce simp: bank_strings_def proof_request_def)
  then have "\<forall>x\<in>set (bank_strings ?r ?row). ParseBigInt x \<noteq> None" by fastforce
  then have parse: "snd (parse_each (bank_strings ?r ?row) None) = None"
    by (auto simp: parse_each_eq find_None_iff)
  have w: "enygma_witness ?r = Some c" unfolding c by (rule request_witness)
  have sig: "enygma_signal ?r = enygma_public c"
    by (simp add: enygma_signal_def bank_signal_def proof_request_def convertBigIntsToStrings_def c transfer_circuit_def enygma_public_def
        bank_public_def comp_def map_idI)
  show ?thesis by (simp add: enygma_handler_def bank_endpoint_def bound parse w sig split: option.split)
qed

lemma public_length: "six_banks c \<Longrightarrow> length (enygma_public c) = 81"
proof -
  assume s: "six_banks c"
  have "length (concat xss) = 6 * length xss" if "list_all (\<lambda>row. length row = 6) xss" for xss :: "int list list"
    using that by (induction xss) auto
  moreover have "length (flatten_points ps) = 2 * length ps" for ps by (induction ps) (auto simp: flatten_points_def)
  ultimately show ?thesis using s by (simp add: enygma_public_def bank_public_def six_banks_def)
qed

subsection \<open>The solver and the demo amount\<close>

text \<open>The hints gnark's solver computes: the honest quotient and remainder at every reduction.\<close>

definition solver_nullifier :: "hasher \<Rightarrow> EnygmaCircuit \<Rightarrow> int" where
  "solver_nullifier Hash c = the (Hash [the (Hash [PreviousSenderRandomValue c, SecretKey c]) mod P, BlockNumber c])"

definition solver_slot :: "hasher \<Rightarrow> EnygmaCircuit \<Rightarrow> int \<Rightarrow> nat \<Rightarrow> int" where
  "solver_slot Hash c d i = the (slot_hash Hash c (the (Hash [d])) (solver_nullifier Hash c) i)"

definition solver_hints0 :: "hasher \<Rightarrow> EnygmaCircuit \<Rightarrow> hint_site \<Rightarrow> fr \<times> fr" where
  "solver_hints0 Hash c site = (case site of
       Site_value \<Rightarrow> ModHint (P - SenderTxValue c)
     | Site_secret \<Rightarrow> ModHint (the (Hash [PreviousSenderRandomValue c, SecretKey c]))
     | Site_pk \<Rightarrow> ModHint (the (Hash [SecretKey c, SecretKey c]))
     | Site_finger i \<Rightarrow> ModHint (the (Hash [SharedSecrets c ! i]))
     | Site_tag i \<Rightarrow> ModHint (solver_slot Hash c 12 i)
     | Site_random i \<Rightarrow> ModHint (solver_slot Hash c 21 i)
     | _ \<Rightarrow> (0, 0))"

definition solver_hints :: "frontend_API \<Rightarrow> hasher \<Rightarrow> EnygmaCircuit \<Rightarrow> hint_site \<Rightarrow> fr \<times> fr" where
  "solver_hints api Hash c site = (if site = Site_sum
     then (case random_pass api (\<lambda>d. slot_hash Hash c d (solver_nullifier Hash c)) (solver_hints0 Hash c) c (the (Hash [21])) of
             None \<Rightarrow> (0, 0) | Some (hs, acc) \<Rightarrow> ModHint acc)
     else solver_hints0 Hash c site)"

lemma solver_hints_honest:
  assumes "nf = solver_nullifier Hash c"
  shows "honest_hints api Hash c nf (solver_hints api Hash c)" "honest_sender_hints Hash c (SenderTxValue c) (solver_hints api Hash c)"
proof -
  have "random_pass api slot (solver_hints api Hash c) c d = random_pass api slot (solver_hints0 Hash c) c d" for slot d
    by (simp add: random_pass_def solver_hints_def)
  then show "honest_hints api Hash c nf (solver_hints api Hash c)"
    by (auto simp: honest_hints_def assms solver_hints_def solver_hints0_def solver_slot_def idx_Some_iff)
  show "honest_sender_hints Hash c (SenderTxValue c) (solver_hints api Hash c)"
    by (auto simp: honest_sender_hints_def solver_hints_def solver_hints0_def)
qed

lemma generateKIndex_full: "generateKIndex = full_set 6"
  by (simp add: generateKIndex_def full_set_def upt_rec)

lemma transfer_values_Some:
  assumes "transfer_values Hash bj args secrets balances keys blockHash chainID addr = Some (req, txCommit, refBal)"
  obtains sec nf fp tags txr where "balances \<noteq> []" "keys \<noteq> []" "refBal = tl balances" "0 \<le> ta_SenderId args"
    "idx secrets (nat (ta_SenderId args)) = Some sec" "Hash [sec, blockHash] = Some nf"
    "FingerPrintGen Hash secrets (ta_SenderId args) = Some fp"
    "TagMessageGen Hash (ta_SenderId args) secrets nf (full_set 6) = Some tags"
    "GenCommitmentAndRandom Hash bj (ta_Value args) (ta_SenderId args) (GenerateTxValues (ta_Value args)) nf (full_set 6) secrets = Some (txCommit, txr)"
    "req = proof_request args nf blockHash (tl keys) (tl balances) txCommit (GenerateTxValues (ta_Value args)) txr secrets (full_set 6) fp tags
       (computeDomainId chainID addr)"
  using assms
  by (auto simp: transfer_values_def generateKIndex_full bind_eq_Some_conv Let_def split: if_splits)

lemma handler_accepts:
  assumes "GenerateProof_reply (enygma_handler g acq req) = Inr resp"
  obtains c where "enygma_witness req = Some c" "Prove g c \<noteq> None"
  using assms
  by (cases "enygma_handler g acq req") (auto simp: GenerateProof_reply_def enygma_handler_def bank_endpoint_Proved)

text \<open>
  The client's transaction values are those of the demo (60 and 40 for banks 1 and 2): whatever the arguments, a
  proof comes back only when the sender is bank 0 and the value 100. Every other transfer, a valid one too, is
  refused by the proving server.
\<close>

theorem cli_pays_demo_amount_only:
  assumes "gnark api" "proves_exactly g (\<lambda>c. EnygmaCircuit_Define api Hash ped (solver_hints api Hash c) c)"
    and "transfer_values Hash bj args secrets balances keys blockHash chainID addr = Some (req, txCommit, refBal)"
    and "GenerateProof_reply (enygma_handler g acq req) = Inr resp"
  shows "fv (ta_SenderId args) = 0 \<and> fv (ta_Value args) = 100"
proof -
  from assms(3) obtain nf fp tags txr where "req = proof_request args nf blockHash (tl keys) (tl balances) txCommit (GenerateTxValues (ta_Value args)) txr
      secrets (full_set 6) fp tags (computeDomainId chainID addr)" by (rule transfer_values_Some) blast
  with assms(4) obtain c where p: "Prove g c \<noteq> None"
    and c: "c = transfer_circuit args nf blockHash (tl keys) (tl balances) txCommit (GenerateTxValues (ta_Value args)) txr secrets (full_set 6) fp tags
      (computeDomainId chainID addr)" by (elim handler_accepts) (auto simp: request_witness)
  from assms(2) p have "EnygmaCircuit_Define api Hash ped (solver_hints api Hash c) c = Some ()" by (simp add: proves_exactly_def)
  moreover have n: "NCommitment (Config c) = 6" by (simp add: c transfer_circuit_def)
  ultimately obtain s where s: "sender_slot c s" "credits c = fv (SenderTxValue c)"
      "\<forall>i<6. i \<noteq> s \<longrightarrow> fv (TxValues c ! i) < 2 ^ 64" "fv (TxValues c ! s) = (P - fv (SenderTxValue c)) mod P"
      "fv (SenderTxValue c) < 2 ^ 64"
    using gnark.conserves [OF assms(1), of Hash ped "solver_hints api Hash c" c] by (auto simp: SNARK_SCALAR_FIELD_def)
  let ?x = "fv (ta_Value args)"
  have tx: "TxValues c = [P - ta_Value args, 60, 40, 0, 0, 0]" "SenderTxValue c = ta_Value args" "AnonymitySet c = [0, 1, 2, 3, 4, 5]"
      "SenderId c = ta_SenderId args"
    by (simp_all add: c transfer_circuit_def GenerateTxValues_def GetNegative_def generateKIndex_full [symmetric] generateKIndex_def)
  have fvs: "fv 60 = 60" "fv 40 = 40" by (simp_all add: fv_def SNARK_SCALAR_FIELD_def)
  have s6: "s < 6" using s(1) n by (simp add: sender_slot_def)
  have "s = 0"
  proof (rule ccontr)
    assume "s \<noteq> 0"
    with s6 have "fv (TxValues c ! s) \<le> 60" by (auto simp: tx fvs less_Suc_eq numeral_eq_Suc)
    have "?x = 0"
    proof (rule ccontr)
      assume "?x \<noteq> 0"
      then have "(P - ?x) mod P = P - ?x" using s(5) tx(2) by (intro mod_pos_pos_trivial) (auto simp: P_def less_le)
      with \<open>fv (TxValues c ! s) \<le> 60\<close> s(4,5) tx(2) show False by (simp add: P_def)
    qed
    have "fv (P - ta_Value args) = fv (P - ?x)" by (rule fv_reduce(4) [symmetric])
    then have "fv (TxValues c ! 0) = P" using \<open>?x = 0\<close> P_bounds by (simp add: tx fv_id)
    moreover have "fv (TxValues c ! 0) < 2 ^ 64" using s(3) \<open>s \<noteq> 0\<close> by simp
    ultimately show False by (simp add: P_def)
  qed
  then have "sends c 0" using s(1) n by (simp add: sender_slot_def)
  then have "fv (ta_SenderId args) = 0" by (simp add: sends_def tx)
  moreover have "credits c = 100"
    using s(1) n \<open>s = 0\<close> by (simp add: credits_def sender_slot_def upt_rec) (simp add: tx fvs)
  ultimately show ?thesis using s(2) tx(2) by simp
qed

subsection \<open>An honest transfer\<close>

lemma FingerPrintGen_shape:
  assumes "FingerPrintGen Hash s (int sid) = Some fp" and "sid < length s"
  shows "length fp = length s \<and> list_all (\<lambda>row. length row = length s \<and> list_all (\<lambda>x. 0 \<le> x \<and> x < P) row) fp"
proof -
  let ?ok = "\<lambda>fp. length fp = length s \<and> list_all (\<lambda>row. length row = length s \<and> list_all (\<lambda>x. 0 \<le> x \<and> x < P) row) fp"
  let ?f = "\<lambda>i fp. if int i = int sid then Some fp else do { si \<leftarrow> idx s i; h \<leftarrow> Hash [si]; row \<leftarrow> idx fp i;
         if 0 \<le> int sid \<and> nat (int sid) < length row then Some (fp[i := row[nat (int sid) := h mod P]]) else None }"
  have f: "foldM ?f [0..<length s] (replicate (length s) (replicate (length s) 0)) = Some fp"
    using assms(1) by (simp only: FingerPrintGen_def Let_def)
  have upd: "?ok (fp[i := row[sid := h mod P]])" if "?ok fp" "idx fp i = Some row" for fp i row h
  proof -
    have r: "row \<in> set fp" using that(2) by (auto simp: idx_Some_iff)
    then have row: "length row = length s" "list_all (\<lambda>x. 0 \<le> x \<and> x < P) row" using that(1) by (auto simp: list_all_iff)
    have "list_all (\<lambda>x. 0 \<le> x \<and> x < P) (row[sid := h mod P])"
      using row(2) P_bounds(3) by (auto simp: list_all_iff dest!: set_update_subset_insert [THEN subsetD])
    then show ?thesis using that(1) row(1) by (auto simp: list_all_iff dest!: set_update_subset_insert [THEN subsetD])
  qed
  show ?thesis
  proof (rule foldM_invariant [OF f, where P = ?ok])
    show "?ok (replicate (length s) (replicate (length s) 0))" using P_bounds(3) by (simp add: list_all_iff)
    show "?ok v" if "?ok u" "?f i u = Some v" for i u v
      using that upd [of u i] by (auto simp: bind_eq_Some_conv split: if_splits)
  qed
qed

lemma Pr_below: "0 \<le> x \<Longrightarrow> x < P \<Longrightarrow> x < bn254Fr"
  by (simp add: P_def bn254Fr_def)

lemma below_append: "below m (xs @ ys) \<longleftrightarrow> below m xs \<and> below m ys"
  by (simp add: below_def)

lemma below_points: "list_all (\<lambda>(x, y). below m [x, y]) ps \<Longrightarrow> below m (flatten_points ps)"
  by (induction ps) (auto simp: flatten_points_def below_def)

lemma below_rows: "list_all (below m) rows \<Longrightarrow> below m (concat rows)"
  by (induction rows) (simp_all add: below_append below_def)

lemma TagMessageGen_below:
  assumes "TagMessageGen Hash sid s nf (full_set (length s)) = Some tags"
  shows "length tags = length s \<and> below bn254Fr tags"
proof -
  have m: "mapM (slot_value Hash 12 sid s nf) [0..<length s] = Some tags" using assms by (simp add: TagMessageGen_def)
  have "\<exists>x. x mod P = tags ! i" if i: "i < length s" for i
    using mapM_nth [OF m, of i] i by (auto simp: slot_value_def bind_eq_Some_conv)
  then have "0 \<le> tags ! i \<and> tags ! i < P" if "i < length s" for i
    using that P_bounds(3) by (metis pos_mod_bound pos_mod_sign)
  moreover have "length tags = length s" using mapM_length [OF m] by simp
  ultimately show ?thesis using Pr_below by (auto simp: below_def list_all_length)
qed

text \<open>What the client reads from the chain, and what the sender's account looks like there.\<close>

definition chain_view :: "(int \<times> int) list \<Rightarrow> int list \<Rightarrow> int \<Rightarrow> int \<Rightarrow> byte list \<Rightarrow> bool" where
  "chain_view balances keys blockHash chainID addr \<longleftrightarrow> length balances = 7 \<and> length keys = 7 \<and>
     list_all (\<lambda>(x, y). below bn254Fr [x, y]) balances \<and> below bn254Fr keys \<and>
     0 \<le> blockHash \<and> blockHash < bn254Fr \<and> 0 \<le> chainID \<and> chainID < 2 ^ 93 \<and> length addr = 20"

definition sender_account :: "hasher \<Rightarrow> babyjub \<Rightarrow> frontend_API \<Rightarrow> TransactionArgs \<Rightarrow> int list \<Rightarrow> (int \<times> int) list \<Rightarrow> int list \<Rightarrow> bool" where
  "sender_account Hash bj api args secrets balances keys \<longleftrightarrow> length secrets = 6 \<and>
     0 \<le> PreviousR args \<and> PreviousR args < SNARK_SCALAR_FIELD \<and> PreviousV args < 2 ^ 64 \<and>
     (\<exists>h. Hash [PreviousR args, Sk args] = Some h \<and> secrets ! 0 = h mod P \<and> Hash [h mod P] \<noteq> None) \<and>
     (\<exists>h. Hash [Sk args, Sk args] = Some h \<and> keys ! 1 = h mod P) \<and>
     balances ! 1 = curve_PedersenCommitment bj (PreviousV args) (PreviousR args) \<and>
     (\<forall>(x, y)\<in>set (tl balances). AssertPointsIsOnCurve api x y = Some ())"

lemma domain_below: "chain_view balances keys blockHash chainID addr \<Longrightarrow> 0 \<le> computeDomainId chainID addr \<and> computeDomainId chainID addr < bn254Fr"
proof -
  assume v: "chain_view balances keys blockHash chainID addr"
  then have "chainID * 2 ^ 160 \<le> (2 ^ 93 - 1) * 2 ^ 160" "0 \<le> chainID * 2 ^ 160" by (simp_all add: chain_view_def)
  moreover have "SetBytes addr < 2 ^ 160" "0 \<le> SetBytes addr" using SetBytes_bounds [of addr] v by (simp_all add: chain_view_def)
  ultimately show ?thesis using v by (simp add: computeDomainId_value chain_view_def bn254Fr_def)
qed

lemma demo_circuit:
  assumes "gnark api" "canonical_hash Hash" and curve: "pedersen_curve api ped (curve_PedersenCommitment bj)"
    and view: "chain_view balances keys blockHash chainID addr" and acc: "sender_account Hash bj api args secrets balances keys"
    and args: "ta_SenderId args = 0" "ta_Value args = 100" "100 \<le> PreviousV args"
    and vals: "idx secrets 0 = Some sec" "Hash [sec, blockHash] = Some nf" "FingerPrintGen Hash secrets 0 = Some fp"
      "TagMessageGen Hash 0 secrets nf (full_set 6) = Some tags"
      "GenCommitmentAndRandom Hash bj 100 0 (GenerateTxValues 100) nf (full_set 6) secrets = Some (txCommit, txr)"
    and c: "c = transfer_circuit args nf blockHash (tl keys) (tl balances) txCommit (GenerateTxValues 100) txr secrets (full_set 6) fp tags did"
  shows "EnygmaCircuit_Define api Hash ped (solver_hints api Hash c) c = Some ()"
proof -
  obtain h where h: "Hash [PreviousR args, Sk args] = Some h" "secrets ! 0 = h mod P" "Hash [h mod P] \<noteq> None"
    using acc by (auto simp: sender_account_def)
  obtain h' where sec: "Hash [h mod P] = Some h'" using h(3) by blast
  have "sec = h mod P" using vals(1) h(2) by (simp add: idx_Some_iff)
  then have nf: "solver_nullifier Hash c = nf" "Hash [h mod P, blockHash] = Some nf"
    using vals(2) h(1) by (simp_all add: solver_nullifier_def c transfer_circuit_def)
  have ready: "client_setup c 6 0 secrets"
    using acc by (simp add: client_setup_def c transfer_circuit_def args sender_account_def)
  have tl: "tl keys ! 0 = keys ! 1" "tl balances ! 0 = balances ! 1" "length (tl keys) = 6" "length (tl balances) = 6"
    using view by (simp_all add: chain_view_def nth_tl)
  have idx6: "i < 6 \<Longrightarrow> i = 0 \<or> i = 1 \<or> i = 2 \<or> i = 3 \<or> i = 4 \<or> i = 5" for i :: nat by auto
  have pay: "may_pay Hash (curve_PedersenCommitment bj) api c 6 0 100"
    using acc args tl
    by (auto simp: may_pay_def c transfer_circuit_def sender_account_def GenerateTxValues_def GetNegative_def upt_rec dest!: idx6)
  note hints = solver_hints_honest [OF nf(1) [symmetric], of api]
  show ?thesis
  proof (rule gnark.payment_satisfies [OF assms(1,2) hints(1) ready _ curve pay _ _ h(2) _ _ sec [folded h(2)]])
    show "honest_sender_hints Hash c 100 (solver_hints api Hash c)" using hints(2) args by (simp add: c transfer_circuit_def)
  qed (use h nf vals args in \<open>simp_all add: c transfer_circuit_def\<close>)
qed

definition canonical_curve :: "babyjub \<Rightarrow> bool" where
  "canonical_curve bj \<longleftrightarrow> (\<forall>v r. below bn254Fr [fst (curve_PedersenCommitment bj v r), snd (curve_PedersenCommitment bj v r)])"

lemma demo_shape:
  assumes view: "chain_view balances keys blockHash chainID addr" and acc: "sender_account Hash bj api args secrets balances keys"
    and hash: "canonical_hash Hash" and curve: "canonical_curve bj"
    and vals: "Hash [sec, blockHash] = Some nf" "FingerPrintGen Hash secrets 0 = Some fp"
      "TagMessageGen Hash 0 secrets nf (full_set 6) = Some tags"
      "GenCommitmentAndRandom Hash bj 100 0 (GenerateTxValues 100) nf (full_set 6) secrets = Some (txCommit, txr)"
    and c: "c = transfer_circuit args nf blockHash (tl keys) (tl balances) txCommit (GenerateTxValues 100) txr secrets (full_set 6) fp tags
      (computeDomainId chainID addr)"
  shows "six_banks c" "below bn254Fr (enygma_public c)" "length txCommit = 6 \<and> list_all (\<lambda>(x, y). below bn254Fr [x, y]) txCommit"
proof -
  have len: "length secrets = 6" using acc by (simp add: sender_account_def)
  from len vals(4) obtain hs where "length hs = 6"
    "txr = map (\<lambda>i. if i = 0 then (\<Sum>j\<leftarrow>[0..<6]. if j = 0 then 0 else hs ! j) mod P else P - hs ! i) [0..<6]"
    using client_random_values [of secrets 6 0 Hash bj 100 "GenerateTxValues 100" nf txCommit txr] by auto
  then have txr: "length txr = 6" by simp
  have "txCommit = map (\<lambda>i. curve_PedersenCommitment bj (GenerateTxValues 100 ! i) (txr ! i)) [0..<6]"
    using GenCommitment_commits [OF len, of 0 "GenerateTxValues 100" 100 Hash bj nf txCommit txr] vals(4)
    by (simp add: GenerateTxValues_def GetNegative_def)
  then show comm: "length txCommit = 6 \<and> list_all (\<lambda>(x, y). below bn254Fr [x, y]) txCommit"
    using curve by (auto simp: canonical_curve_def list_all_iff split_beta)
  have fp: "length fp = 6" "list_all (\<lambda>row. length row = 6) fp" "list_all (below bn254Fr) fp"
    using FingerPrintGen_shape [of Hash secrets 0 fp] vals(2) len Pr_below by (auto simp: list_all_iff below_def)
  have tags: "length tags = 6" "below bn254Fr tags" using TagMessageGen_below [of Hash 0 secrets nf tags] vals(3) len by simp_all
  have tls: "length (tl keys) = 6" "length (tl balances) = 6" "below bn254Fr (tl keys)" "list_all (\<lambda>(x, y). below bn254Fr [x, y]) (tl balances)"
    using view by (cases keys; cases balances; auto simp: chain_view_def below_def)+
  show six: "six_banks c"
    using fp(1,2) tags(1) tls(1,2) comm txr len by (simp add: six_banks_def c transfer_circuit_def GenerateTxValues_def)
  have "0 \<le> nf \<and> nf < bn254Fr" using hash vals(1) by (auto simp: canonical_hash_def bn254Fr_def SNARK_SCALAR_FIELD_def)
  moreover have "below bn254Fr (full_set 6)" by (simp add: generateKIndex_full [symmetric] generateKIndex_def below_def bn254Fr_def)
  ultimately show "below bn254Fr (enygma_public c)"
    using below_rows [OF fp(3)] tags(2) tls(3) below_points [OF tls(4)] below_points [OF conjunct2 [OF comm]] domain_below [OF view] view
    by (simp add: enygma_public_def bank_public_def c transfer_circuit_def below_append chain_view_def) (simp add: below_def)
qed

lemma demo_reply:
  assumes "gnark api" "canonical_hash Hash" "pedersen_curve api ped (curve_PedersenCommitment bj)" "canonical_curve bj"
    and g: "proves_exactly g (\<lambda>c. EnygmaCircuit_Define api Hash ped (solver_hints api Hash c) c)"
    and view: "chain_view balances keys blockHash chainID addr" and acc: "sender_account Hash bj api args secrets balances keys"
    and args: "ta_SenderId args = 0" "ta_Value args = 100" "100 \<le> PreviousV args"
    and t: "transfer_values Hash bj args secrets balances keys blockHash chainID addr = Some (req, txCommit, refBal)"
  obtains p c where "GenerateProof_reply (enygma_handler g True req) = Inr (proofRemix p, enygma_public c)" "Prove g c = Some p"
    "length (enygma_public c) = 81" "below bn254Fr (enygma_public c)" "refBal = tl balances"
    "length txCommit = 6" "list_all (\<lambda>(x, y). below bn254Fr [x, y]) txCommit"
proof -
  from t obtain sec nf fp tags txr where v: "refBal = tl balances" "idx secrets 0 = Some sec" "Hash [sec, blockHash] = Some nf"
    "FingerPrintGen Hash secrets 0 = Some fp" "TagMessageGen Hash 0 secrets nf (full_set 6) = Some tags"
    "GenCommitmentAndRandom Hash bj 100 0 (GenerateTxValues 100) nf (full_set 6) secrets = Some (txCommit, txr)"
    and req: "req = proof_request args nf blockHash (tl keys) (tl balances) txCommit (GenerateTxValues 100) txr secrets (full_set 6) fp tags
       (computeDomainId chainID addr)"
    by (rule transfer_values_Some) (simp add: args)
  define c where c: "c = transfer_circuit args nf blockHash (tl keys) (tl balances) txCommit (GenerateTxValues 100) txr secrets (full_set 6) fp tags
       (computeDomainId chainID addr)"
  note shape = demo_shape [OF view acc assms(2,4) v(3-6) c]
  have "EnygmaCircuit_Define api Hash ped (solver_hints api Hash c) c = Some ()"
    by (rule demo_circuit [OF assms(1-3) view acc args v(2-6) c])
  then obtain p where p: "Prove g c = Some p" "Verify g p c" using g unfolding proves_exactly_def by (metis not_None_eq)
  have reply: "GenerateProof_reply (enygma_handler g True req) = Inr (proofRemix p, enygma_public c)"
    using handler_request [OF c shape(1), of g] p public_length [OF shape(1)]
    by (auto simp: req GenerateProof_reply_def mapM_map SetString_String mapM_Some [of id, simplified])
  show thesis by (rule that [OF reply p(1) public_length [OF shape(1)] shape(2) v(1)]) (use shape(3) in simp_all)
qed

text \<open>
  C13. A transfer from the command line reaches the contract: bank 0, whose account on the chain opens to the balance it
  holds and who pays 100 out of at least 100, gets a proof of its request from the server, the relayer accepts the
  request with the accounts 1 to 6 and the client's commitments, and the client reports success exactly when the
  balance it reads back is the old one with its own commitment added.
\<close>

theorem cli_transfer_succeeds:
  assumes "gnark api" "canonical_hash Hash" "pedersen_curve api ped (curve_PedersenCommitment bj)" "canonical_curve bj"
    and g: "proves_exactly g (\<lambda>c. EnygmaCircuit_Define api Hash ped (solver_hints api Hash c) c)"
      "\<forall>c p. Prove g c = Some p \<longrightarrow> below bn254Fq (proofRemix p)"
    and view: "chain_view balances keys blockHash chainID addr" and acc: "sender_account Hash bj api args secrets balances keys"
    and args: "ta_SenderId args = 0" "ta_Value args = 100" "100 \<le> PreviousV args"
    and t: "transfer_values Hash bj args secrets balances keys blockHash chainID addr = Some (req, txCommit, refBal)"
    and relay: "\<forall>r call. check_transfer 81 r = Inr call \<longrightarrow> kIndex call = [1, 2, 3, 4, 5, 6] \<longrightarrow> commitments call = txCommit \<longrightarrow> relay r = 200"
  shows "executeTransaction Hash bj args secrets balances keys blockHash chainID addr (enygma_handler g True) relay None addPedComm newBal =
    Some (if newBal = addPedComm (balances ! 1) (txCommit ! 0) then Inr () else Inl Not_moved)"
proof -
  from demo_reply [OF assms(1-4) g(1) view acc args t] obtain p c where
    r: "GenerateProof_reply (enygma_handler g True req) = Inr (proofRemix p, enygma_public c)" "Prove g c = Some p"
    "length (enygma_public c) = 81" "below bn254Fr (enygma_public c)" "refBal = tl balances"
    "length txCommit = 6" "list_all (\<lambda>(x, y). below bn254Fr [x, y]) txCommit" .
  let ?call = "\<lparr>proof8 = proofRemix p, pubSig = enygma_public c, commitments = txCommit, kIndex = [1, 2, 3, 4, 5, 6]\<rparr>"
  have "map (\<lambda>i. if i < length (proofRemix p) then bigInt_String (proofRemix p ! i) else []) [0..<8] = map bigInt_String (proofRemix p)"
    by (rule nth_equalityI) simp_all
  then have printed: "relay_request txCommit (proofRemix p, enygma_public c) generateKIndex = print_call ?call"
    unfolding relay_request_def fst_conv snd_conv by (simp add: print_call_def generateKIndex_def point_strings_def split_beta)
  have "call_bounds 81 ?call"
    using r g(2) by (simp add: call_bounds_def)
  then have "check_transfer 81 (print_call ?call) = Inr ?call" by (rule check_transfer_print)
  then have sent: "relay (relay_request txCommit (proofRemix p, enygma_public c) generateKIndex) = 200" using relay by (simp add: printed)
  have read: "idx refBal (nat (ta_SenderId args)) = Some (balances ! 1)" "idx txCommit (nat (ta_SenderId args)) = Some (txCommit ! 0)"
    using view r(5,6) by (simp_all add: chain_view_def idx_def nth_tl args)
  show ?thesis
    by (simp only: executeTransaction_def t r(1) sent read bind.bind_lunit prod.case sum.case option.case Let_def if_False simp_thms
        old.unit.case verifyTransferOnChain_def)
qed

text \<open>The content type the client sends passes the server's guard.\<close>

lemma client_content_type: "n \<le> maxRequestBodyBytes \<Longrightarrow> NewServer ''application/json; charset=UTF-8'' n reply = reply"
proof -
  have "requireJSONContentType ''application/json; charset=UTF-8''" by code_simp
  then show "n \<le> maxRequestBodyBytes \<Longrightarrow> ?thesis" by (simp add: NewServer_def)
qed

subsection \<open>Deployments\<close>

lemma digit_unique:
  assumes "a * k + x = b * k + y" "0 \<le> x" "x < k" "0 \<le> y" "y < (k :: int)"
  shows "a = b \<and> x = y"
proof -
  have "a = (a * k + x) div k" "b = (b * k + y) div k" using assms(2-5) by simp_all
  with assms(1) show ?thesis by simp
qed

lemma SetBytes_inj: "length xs = length ys \<Longrightarrow> SetBytes xs = SetBytes ys \<Longrightarrow> xs = ys"
proof (induction xs ys rule: rev_induct2)
  case (4 x xs y ys)
  have "uint x < 256" "uint y < 256" using uint_lt2p [of x] uint_lt2p [of y] by simp_all
  with 4(3) have "SetBytes xs = SetBytes ys \<and> uint x = uint y"
    using digit_unique [of "SetBytes xs" 256 "uint x" "SetBytes ys" "uint y"] by (simp add: SetBytes_snoc mult.commute)
  with 4 show ?case by (simp add: word_uint_eq_iff)
qed simp_all

text \<open>
  A domain id names one deployment: for contract addresses of 20 bytes, equal domain ids come from the same
  chain id and the same address.
\<close>

theorem domain_id_binds:
  assumes "length a = 20" "length b = 20" "computeDomainId c a = computeDomainId d b"
  shows "c = d \<and> a = b"
proof -
  have "SetBytes a < 2 ^ 160" "0 \<le> SetBytes a" "SetBytes b < 2 ^ 160" "0 \<le> SetBytes b"
    using SetBytes_bounds [of a] SetBytes_bounds [of b] assms(1,2) by simp_all
  moreover have "c * 2 ^ 160 + SetBytes a = d * 2 ^ 160 + SetBytes b" using assms by (simp add: computeDomainId_value)
  ultimately have "c = d \<and> SetBytes a = SetBytes b" using digit_unique by blast
  with SetBytes_inj assms(1,2) show ?thesis by auto
qed

theorem domain_id_binds_witness:
  "computeDomainId 1 (replicate 20 0) \<noteq> computeDomainId 2 (replicate 20 0)"
  using domain_id_binds [of "replicate 20 0" "replicate 20 0" 1 2] by auto

subsection \<open>An example\<close>

definition zero_curve :: babyjub where
  "zero_curve = \<lparr>BJ_Mul = (\<lambda>n p. (0, 1)), BJ_Add = (\<lambda>p q. (0, 1))\<rparr>"

definition toy_args :: TransactionArgs where
  "toy_args = \<lparr>QtyBanks = 6, ta_Value = 100, ta_SenderId = 0, Sk = 3, PreviousV = 500, PreviousR = 7\<rparr>"

lemma zero_commitment: "curve_PedersenCommitment zero_curve v r = (0, 1)"
  by (simp add: curve_PedersenCommitment_def AddPks_def zero_curve_def)

lemma zero_on_curve: "AssertPointsIsOnCurve fr_api 0 1 = Some ()"
  by (simp add: AssertPointsIsOnCurve_def fr.api_laws fr.AssertIsEqual)

lemma zero_pedersen: "pedersen_curve fr_api zero_ped (curve_PedersenCommitment zero_curve)" "canonical_curve zero_curve"
  using pay_point by (simp_all add: pedersen_curve_def canonical_curve_def zero_commitment zero_ped_def zero_on_curve pt_def below_def bn254Fr_def)

lemma toy_transfer: "\<exists>req tc rb. transfer_values zero_hash zero_curve toy_args (replicate 6 0) (replicate 7 (0, 1)) (replicate 7 0) 5 1 (replicate 20 0) = Some (req, tc, rb)"
proof -
  have "FingerPrintGen zero_hash (replicate 6 0) 0 \<noteq> None" by code_simp
  moreover have "TagMessageGen zero_hash 0 (replicate 6 0) 0 generateKIndex \<noteq> None" by code_simp
  moreover have "GenCommitmentAndRandom zero_hash zero_curve 100 0 (GenerateTxValues 100) 0 generateKIndex (replicate 6 0) \<noteq> None" by code_simp
  ultimately show ?thesis by (auto simp: transfer_values_def toy_args_def zero_hash_def idx_def Let_def split: prod.splits)
qed

lemma toy_view: "chain_view (replicate 7 (0, 1)) (replicate 7 0) 5 1 (replicate 20 0)"
  "sender_account zero_hash zero_curve fr_api toy_args (replicate 6 0) (replicate 7 (0, 1)) (replicate 7 0)"
  by (simp_all add: chain_view_def sender_account_def below_def bn254Fr_def zero_hash_def zero_commitment zero_on_curve toy_args_def
      SNARK_SCALAR_FIELD_def list_all_iff)

definition toy_backend :: "EnygmaCircuit groth16" where
  "toy_backend = toy_groth16 (\<lambda>c. EnygmaCircuit_Define fr_api zero_hash zero_ped (solver_hints fr_api zero_hash c) c)"

lemma toy_backend_exact: "proves_exactly toy_backend (\<lambda>c. EnygmaCircuit_Define fr_api zero_hash zero_ped (solver_hints fr_api zero_hash c) c)"
  "\<forall>c p. Prove toy_backend c = Some p \<longrightarrow> below bn254Fq (proofRemix p)"
proof -
  show "proves_exactly toy_backend (\<lambda>c. EnygmaCircuit_Define fr_api zero_hash zero_ped (solver_hints fr_api zero_hash c) c)"
    unfolding toy_backend_def by (rule toy_groth16_exact)
  show "\<forall>c p. Prove toy_backend c = Some p \<longrightarrow> below bn254Fq (proofRemix p)"
    by (auto simp: toy_backend_def toy_groth16_def proofRemix_def below_def bn254Fq_def)
qed

lemma zero_hash_canonical: "canonical_hash zero_hash"
  by (simp add: canonical_hash_def zero_hash_def SNARK_SCALAR_FIELD_def)

theorem cli_transfer_succeeds_witness:
  "executeTransaction zero_hash zero_curve toy_args (replicate 6 0) (replicate 7 (0, 1)) (replicate 7 0) 5 1 (replicate 20 0)
     (enygma_handler toy_backend True) (\<lambda>r. case check_transfer 81 r of Inl e \<Rightarrow> 400 | Inr call \<Rightarrow> 200) None (\<lambda>p q. p) (0, 1) = Some (Inr ())"
proof -
  obtain req tc rb where t: "transfer_values zero_hash zero_curve toy_args (replicate 6 0) (replicate 7 (0, 1)) (replicate 7 0) 5 1 (replicate 20 0) = Some (req, tc, rb)"
    using toy_transfer by blast
  show ?thesis
    using cli_transfer_succeeds [OF gnark_fr_api zero_hash_canonical zero_pedersen toy_backend_exact toy_view _ _ _ t,
        where relay = "\<lambda>r. case check_transfer 81 r of Inl e \<Rightarrow> 400 | Inr call \<Rightarrow> 200" and addPedComm = "\<lambda>p q. p" and newBal = "(0, 1)"]
    by (simp add: toy_args_def)
qed

theorem cli_pays_demo_amount_only_witness:
  "\<exists>req tc rb resp. transfer_values zero_hash zero_curve toy_args (replicate 6 0) (replicate 7 (0, 1)) (replicate 7 0) 5 1 (replicate 20 0) = Some (req, tc, rb) \<and>
     GenerateProof_reply (enygma_handler toy_backend True req) = Inr resp \<and> fv (ta_SenderId toy_args) = 0 \<and> fv (ta_Value toy_args) = 100"
proof -
  obtain req tc rb where t: "transfer_values zero_hash zero_curve toy_args (replicate 6 0) (replicate 7 (0, 1)) (replicate 7 0) 5 1 (replicate 20 0) = Some (req, tc, rb)"
    using toy_transfer by blast
  have args: "ta_SenderId toy_args = 0" "ta_Value toy_args = 100" "100 \<le> PreviousV toy_args" by (simp_all add: toy_args_def)
  obtain resp where resp: "GenerateProof_reply (enygma_handler toy_backend True req) = Inr resp"
    by (rule demo_reply [OF gnark_fr_api zero_hash_canonical zero_pedersen toy_backend_exact(1) toy_view args t]) blast
  show ?thesis
    using cli_pays_demo_amount_only [OF gnark_fr_api toy_backend_exact(1) t resp] t resp by blast
qed

end
