(* ===== verification/Prove_Limiter.thy ===== *)
theory Prove_Limiter
  imports Go_Text "HOL-Library.Multiset"
begin

section \<open>The limiter of the proving server\<close>

text \<open>
  \<^verbatim>\<open>gnark-server/utils/prove_limiter.go\<close>: a buffered channel as a semaphore, shared by the handlers. A handler
  acquires a slot or gives up after a timeout (503), proves, and releases the slot right after \<^verbatim>\<open>groth16.Prove\<close>
  has returned. The release is not deferred: when the prover panics, gin recovers and answers 500, and the slot
  stays taken. The model is a step relation over any number of concurrent handlers; \<open>used\<close> is the number of
  elements in the channel.
\<close>

subsection \<open>State and steps\<close>

definition newProveLimiter :: "nat \<Rightarrow> string \<Rightarrow> nat" where
  "newProveLimiter gomaxprocs env = (
     if env = [] then gomaxprocs
     else case Atoi env of None \<Rightarrow> gomaxprocs | Some n \<Rightarrow> if n > 0 then nat n else gomaxprocs)"

datatype prover = Acquiring | Proving | Replied nat | Panicked

record limiter =
  capacity :: nat
  used :: nat
  provers :: "prover list"

inductive limiter_step :: "limiter \<Rightarrow> limiter \<Rightarrow> bool" where
  arrive: "limiter_step s (s\<lparr>provers := provers s @ [Acquiring]\<rparr>)"
| Acquire: "i < length (provers s) \<Longrightarrow> provers s ! i = Acquiring \<Longrightarrow> used s < capacity s \<Longrightarrow>
    limiter_step s (s\<lparr>used := used s + 1, provers := (provers s)[i := Proving]\<rparr>)"
| timeout: "i < length (provers s) \<Longrightarrow> provers s ! i = Acquiring \<Longrightarrow>
    limiter_step s (s\<lparr>provers := (provers s)[i := Replied 503]\<rparr>)"
| Release: "i < length (provers s) \<Longrightarrow> provers s ! i = Proving \<Longrightarrow> used s > 0 \<Longrightarrow> status \<in> {200, 400, 500} \<Longrightarrow>
    limiter_step s (s\<lparr>used := used s - 1, provers := (provers s)[i := Replied status]\<rparr>)"
| panic: "i < length (provers s) \<Longrightarrow> provers s ! i = Proving \<Longrightarrow>
    limiter_step s (s\<lparr>provers := (provers s)[i := Panicked]\<rparr>)"

inductive_cases limiter_stepE: "limiter_step s s'"

inductive limiter_run :: "limiter \<Rightarrow> limiter \<Rightarrow> bool" for s where
  start: "limiter_run s s"
| further: "limiter_run s t \<Longrightarrow> limiter_step t u \<Longrightarrow> limiter_run s u"

definition idle_limiter :: "nat \<Rightarrow> limiter" where
  "idle_limiter n = \<lparr>capacity = n, used = 0, provers = []\<rparr>"

abbreviation proving :: "limiter \<Rightarrow> nat" where
  "proving s \<equiv> count (mset (provers s)) Proving"

abbreviation panicked :: "limiter \<Rightarrow> nat" where
  "panicked s \<equiv> count (mset (provers s)) Panicked"

subsection \<open>The invariant\<close>

definition accounted :: "limiter \<Rightarrow> bool" where
  "accounted s \<longleftrightarrow> used s = proving s + panicked s \<and> used s \<le> capacity s"

lemma count_update:
  "i < length xs \<Longrightarrow> count (mset (xs[i := y])) p + (if xs ! i = p then 1 else 0) = count (mset xs) p + (if y = p then 1 else 0)"
proof -
  assume i: "i < length xs"
  then have "xs ! i \<in># mset xs" by simp
  then have "0 < count (mset xs) (xs ! i)" by (simp add: count_greater_zero_iff)
  with i show ?thesis by (auto simp: mset_update)
qed

lemma step_accounted: "limiter_step s s' \<Longrightarrow> accounted s \<Longrightarrow> accounted s' \<and> capacity s' = capacity s \<and> panicked s \<le> panicked s'"
proof (induction rule: limiter_step.induct)
  case (Acquire i s)
  then show ?case using count_update [of i "provers s" Proving Proving] count_update [of i "provers s" Proving Panicked]
    by (simp add: accounted_def)
next
  case (timeout i s)
  then show ?case using count_update [of i "provers s" "Replied 503" Proving] count_update [of i "provers s" "Replied 503" Panicked]
    by (simp add: accounted_def)
next
  case (Release i s status)
  then show ?case using count_update [of i "provers s" "Replied status" Proving] count_update [of i "provers s" "Replied status" Panicked]
    by (simp add: accounted_def del: count_mset_0_iff) linarith
next
  case (panic i s)
  then show ?case using count_update [of i "provers s" Panicked Proving] count_update [of i "provers s" Panicked Panicked]
    by (simp add: accounted_def)
qed (simp add: accounted_def)

lemma run_accounted: "limiter_run s s' \<Longrightarrow> accounted s \<Longrightarrow> accounted s' \<and> capacity s' = capacity s \<and> panicked s \<le> panicked s'"
proof (induction rule: limiter_run.induct)
  case (further t u)
  then show ?case using step_accounted [of t u] by auto
qed simp

lemma idle_accounted: "accounted (idle_limiter n)"
  by (simp add: accounted_def idle_limiter_def)

lemma proving_positive: "i < length (provers s) \<Longrightarrow> provers s ! i = Proving \<Longrightarrow> 0 < proving s"
  by (metis count_greater_zero_iff nth_mem_mset)

subsection \<open>Properties\<close>

text \<open>
  C31. The limiter counts what it should. In every reachable state at most the configured number of proofs is being
  computed; the slots taken are those of the running proofs and of the handlers that panicked; a handler whose
  proof is ready can release its slot at once; and while no handler has panicked, a waiting request can acquire a
  slot whenever fewer proofs than the capacity are running.
\<close>

theorem limiter_bounds_proofs:
  assumes "limiter_run (idle_limiter n) s"
  shows "proving s \<le> n \<and> used s = proving s + panicked s \<and>
    (\<forall>i<length (provers s). provers s ! i = Proving \<longrightarrow> (\<exists>s'. limiter_step s s' \<and> used s' = used s - 1 \<and> provers s' ! i = Replied 200)) \<and>
    (\<forall>i<length (provers s). provers s ! i = Acquiring \<and> panicked s = 0 \<and> proving s < n \<longrightarrow>
       (\<exists>s'. limiter_step s s' \<and> provers s' ! i = Proving))"
proof -
  have inv: "accounted s" "capacity s = n" using run_accounted [OF assms idle_accounted] by (simp_all add: idle_limiter_def)
  have "\<exists>s'. limiter_step s s' \<and> used s' = used s - 1 \<and> provers s' ! i = Replied 200"
    if i: "i < length (provers s)" "provers s ! i = Proving" for i
  proof -
    have "used s > 0" using proving_positive [OF i] inv(1) by (simp add: accounted_def)
    from limiter_step.Release [OF i this, of 200] i show ?thesis by (intro exI) auto
  qed
  moreover have "\<exists>s'. limiter_step s s' \<and> provers s' ! i = Proving"
    if i: "i < length (provers s)" "provers s ! i = Acquiring" and free: "panicked s = 0" "proving s < n" for i
  proof -
    have "used s < capacity s" using inv free by (simp add: accounted_def)
    from limiter_step.Acquire [OF i this] i show ?thesis by (intro exI) auto
  qed
  ultimately show ?thesis using inv by (auto simp: accounted_def)
qed

text \<open>
  Panics use the limiter up. Once as many handlers have panicked as there are slots, no later state computes a
  proof, and a request that arrives can only be answered 503.
\<close>

theorem panics_exhaust_limiter:
  assumes "limiter_run (idle_limiter n) s" "panicked s = n" "limiter_run s s'"
  shows "proving s' = 0 \<and> used s' = n \<and>
    (\<forall>i s''. i < length (provers s') \<and> provers s' ! i = Acquiring \<and> limiter_step s' s'' \<longrightarrow> provers s'' ! i \<in> {Acquiring, Replied 503})"
proof -
  have s: "accounted s" "capacity s = n" using run_accounted [OF assms(1) idle_accounted] by (simp_all add: idle_limiter_def)
  have s': "accounted s'" "capacity s' = n" "n \<le> panicked s'" using run_accounted [OF assms(3) s(1)] s(2) assms(2) by simp_all
  then have full: "proving s' = 0" "used s' = n" unfolding accounted_def by linarith+
  have "provers s'' ! i \<in> {Acquiring, Replied 503}"
    if i: "i < length (provers s')" "provers s' ! i = Acquiring" and "limiter_step s' s''" for i s''
    using that(3) i full s'(2) by (elim limiter_stepE) (auto simp: nth_append nth_list_update)
  with full show ?thesis by blast
qed

subsection \<open>Example\<close>

lemma toy_limiter_run: "limiter_run (idle_limiter 1) \<lparr>capacity = 1, used = 1, provers = [Panicked]\<rparr>"
proof -
  let ?a = "\<lparr>capacity = 1, used = 0, provers = [Acquiring]\<rparr>" let ?b = "\<lparr>capacity = 1, used = 1, provers = [Proving]\<rparr>"
  have "limiter_run (idle_limiter 1) ?a" using limiter_run.further [OF limiter_run.start limiter_step.arrive, of "idle_limiter 1"] by (simp add: idle_limiter_def)
  then have "limiter_run (idle_limiter 1) ?b" by (rule limiter_run.further) (use limiter_step.Acquire [of 0 ?a] in simp)
  then show ?thesis by (rule limiter_run.further) (use limiter_step.panic [of 0 ?b] in simp)
qed

theorem limiter_bounds_proofs_witness: "panicked \<lparr>capacity = 1, used = 1, provers = [Panicked]\<rparr> = 1"
  using limiter_bounds_proofs [OF toy_limiter_run] by simp

theorem panics_exhaust_limiter_witness:
  "\<forall>s''. limiter_step \<lparr>capacity = 1, used = 1, provers = [Panicked, Acquiring]\<rparr> s'' \<longrightarrow> provers s'' ! 1 \<in> {Acquiring, Replied 503}"
proof -
  have "limiter_run \<lparr>capacity = 1, used = 1, provers = [Panicked]\<rparr> \<lparr>capacity = 1, used = 1, provers = [Panicked, Acquiring]\<rparr>"
    using limiter_run.further [OF limiter_run.start limiter_step.arrive, of "\<lparr>capacity = 1, used = 1, provers = [Panicked]\<rparr>"] by simp
  from panics_exhaust_limiter [OF toy_limiter_run _ this] show ?thesis by auto
qed

end
