(* ===== verification/Merkle_Status.thy ===== *)
theory Merkle_Status
  imports Merkle_Tree
begin

unbundle bit_operations_syntax

section \<open>The Merkle status service\<close>

text \<open>
  \<^verbatim>\<open>enygma_dvp/gnark_circuits/server/utils/merkle_status.go\<close>: the two endpoints that rebuild a vault's Merkle tree from
  its \<^verbatim>\<open>Commitment\<close> events and compare its root with the root on chain, and the cross-check of the vault
  addresses with the registry of the exchange contract. The server has its own copy of the tree; it is shown to
  refine the client's (\<^theory_text>\<open>Merkle_Tree\<close>). The node behind the RPC URL, the receipts file and \<^verbatim>\<open>url.ParseRequestURI\<close>'s verdict
  are arguments; \<^term>\<open>None\<close> is a panic, which gin answers as an internal error.
\<close>

subsection \<open>The local tree\<close>

record localMerkleTree =
  lm_depth :: nat
  lm_zeros :: "int list"
  lm_tree :: "int list list"

definition localPoseidon2 :: "native_hash \<Rightarrow> int \<Rightarrow> int \<Rightarrow> int option" where
  "localPoseidon2 Hash left right = Hash [left, right]"

definition localZeroValue :: "(byte list \<Rightarrow> byte list) \<Rightarrow> int" where
  "localZeroValue keccak256 = SetBytes (keccak256 (ascii ''ZkDvp'')) mod SNARK_SCALAR_FIELD"

text \<open>The slice is allocated at its full length, and \<^verbatim>\<open>z[i]\<close> is written in place.\<close>

definition buildZeroLevels :: "native_hash \<Rightarrow> (byte list \<Rightarrow> byte list) \<Rightarrow> nat \<Rightarrow> int list option" where
  "buildZeroLevels Hash keccak256 d = (let z = replicate d 0 in
     if d = 0 then None
     else foldM (\<lambda>i z. do {
            p \<leftarrow> idx z (i - 1);
            h \<leftarrow> localPoseidon2 Hash p p;
            Some (z[i := h]) }) [1..<d] (z[0 := localZeroValue keccak256]))"

definition resetToEmpty :: "native_hash \<Rightarrow> localMerkleTree \<Rightarrow> localMerkleTree option" where
  "resetToEmpty Hash mt = (if lm_depth mt = 0 then None else do {
     z \<leftarrow> idx (lm_zeros mt) (lm_depth mt - 1);
     top \<leftarrow> localPoseidon2 Hash z z;
     Some (mt\<lparr>lm_tree := (replicate (lm_depth mt + 1) [])[lm_depth mt := [top]]\<rparr>) })"

definition newLocalMerkleTree :: "native_hash \<Rightarrow> (byte list \<Rightarrow> byte list) \<Rightarrow> nat \<Rightarrow> localMerkleTree option" where
  "newLocalMerkleTree Hash keccak256 d = do {
     zs \<leftarrow> buildZeroLevels Hash keccak256 d;
     z \<leftarrow> idx zs (d - 1);
     top \<leftarrow> localPoseidon2 Hash z z;
     Some \<lparr>lm_depth = d, lm_zeros = zs, lm_tree = (replicate (d + 1) [])[d := [top]]\<rparr> }"

text \<open>One level of \<^verbatim>\<open>rebuildSparse\<close>: \<^verbatim>\<open>pos\<close> runs over the even positions, and the zero is read at each of them.\<close>

definition sparse_level :: "native_hash \<Rightarrow> int list \<Rightarrow> nat \<Rightarrow> int list \<Rightarrow> int list option" where
  "sparse_level Hash zs level nodes = mapM (\<lambda>k. let pos = 2 * k in do {
     z \<leftarrow> idx zs level;
     right \<leftarrow> (if pos + 1 < length nodes then idx nodes (pos + 1) else Some z);
     left \<leftarrow> idx nodes pos;
     localPoseidon2 Hash left right }) [0..<(length nodes + 1) div 2]"

definition rebuildSparse :: "native_hash \<Rightarrow> localMerkleTree \<Rightarrow> localMerkleTree option" where
  "rebuildSparse Hash mt = do {
     t \<leftarrow> foldM (\<lambda>level t. do {
         nodes \<leftarrow> idx t level;
         parents \<leftarrow> sparse_level Hash (lm_zeros mt) level nodes;
         if level + 1 < length t then Some (t[level + 1 := parents]) else None })
       [0..<lm_depth mt] (lm_tree mt);
     Some (mt\<lparr>lm_tree := t\<rparr>) }"

definition local_insertLeaf :: "native_hash \<Rightarrow> localMerkleTree \<Rightarrow> int \<Rightarrow> localMerkleTree option" where
  "local_insertLeaf Hash mt leaf = do {
     cur \<leftarrow> idx (lm_tree mt) 0;
     mt1 \<leftarrow> (if int (length cur) + 1 \<ge> sint (push_bit (lm_depth mt) 1 :: 64 word)
              then resetToEmpty Hash mt else Some mt);
     cur1 \<leftarrow> idx (lm_tree mt1) 0;
     rebuildSparse Hash (mt1\<lparr>lm_tree := (lm_tree mt1)[0 := cur1 @ [leaf]]\<rparr>) }"

definition local_root :: "localMerkleTree \<Rightarrow> string option" where
  "local_root mt = do { top \<leftarrow> idx (lm_tree mt) (lm_depth mt); r \<leftarrow> idx top 0; Some (bigInt_String r) }"

record TreeOutput =
  to_Depth :: nat
  to_Root :: string
  to_Levels :: "string list list"
  to_Zeros :: "string list"

text \<open>The levels and zeros of a tree fill slices of the declared depth, so a tree with other lengths panics or pads.\<close>

definition tree_snapshot :: "localMerkleTree \<Rightarrow> TreeOutput option" where
  "tree_snapshot mt = (
     if length (lm_tree mt) > lm_depth mt + 1 \<or> length (lm_zeros mt) > lm_depth mt then None
     else do {
       r \<leftarrow> local_root mt;
       Some \<lparr>to_Depth = lm_depth mt, to_Root = r,
         to_Levels = map (map bigInt_String) (lm_tree mt) @ replicate (lm_depth mt + 1 - length (lm_tree mt)) [],
         to_Zeros = map bigInt_String (lm_zeros mt) @ replicate (lm_depth mt - length (lm_zeros mt)) []\<rparr> })"

subsection \<open>The node\<close>

text \<open>
  Selectors and topics, and the JSON-RPC calls. A reply's \<^verbatim>\<open>result\<close> is a text, a list of log entries (their
  topics), null or absent, or something else; \<^verbatim>\<open>http.Post\<close>, the decoder and an \<^verbatim>\<open>error\<close> member give \<^term>\<open>None\<close>.
\<close>

definition keccak4 :: "(byte list \<Rightarrow> byte list) \<Rightarrow> string \<Rightarrow> string" where
  "keccak4 keccak256 sig = EncodeToString (take 4 (keccak256 (ascii sig)))"

definition keccak32Hex :: "(byte list \<Rightarrow> byte list) \<Rightarrow> string \<Rightarrow> string" where
  "keccak32Hex keccak256 sig = ''0x'' @ EncodeToString (keccak256 (ascii sig))"

datatype rpc_request = Eth_call string string | Eth_getLogs string string

datatype rpc_result = R_string string | R_logs "string list list" | R_null | R_other

datatype rpc_error = Rpc_failed | Unexpected_result | Bad_hex string | Result_too_short string

type_synonym rpc_node = "rpc_request \<Rightarrow> rpc_result option"

definition ethCallUint256 :: "rpc_node \<Rightarrow> string \<Rightarrow> string \<Rightarrow> rpc_error + int" where
  "ethCallUint256 rpc contractAddr selectorHex = (case rpc (Eth_call contractAddr (''0x'' @ selectorHex)) of
       None \<Rightarrow> Inl Rpc_failed
     | Some (R_string s) \<Rightarrow> (let hexStr = TrimPrefix s ''0x'' in
         if hexStr = [] then Inr 0
         else case bigInt_SetString16 hexStr of None \<Rightarrow> Inl (Bad_hex hexStr) | Some v \<Rightarrow> Inr v)
     | Some _ \<Rightarrow> Inl Unexpected_result)"

definition ethCallAddress :: "rpc_node \<Rightarrow> string \<Rightarrow> string \<Rightarrow> 64 word \<Rightarrow> rpc_error + string" where
  "ethCallAddress rpc contractAddr selectorHex arg = (
     case rpc (Eth_call contractAddr (''0x'' @ selectorHex @ Sprintf_064x arg)) of
       None \<Rightarrow> Inl Rpc_failed
     | Some (R_string s) \<Rightarrow> (let hexStr = TrimPrefix s ''0x'' in
         if length hexStr < 40 then Inl (Result_too_short hexStr)
         else Inr (ToLower (''0x'' @ drop (length hexStr - 40) hexStr)))
     | Some _ \<Rightarrow> Inl Unexpected_result)"

text \<open>The result is encoded again and decoded as a list of entries: null is the empty list, a text is an error.\<close>

definition ethGetLogs :: "rpc_node \<Rightarrow> string \<Rightarrow> string \<Rightarrow> rpc_error + string list list" where
  "ethGetLogs rpc contractAddr topic0 = (case rpc (Eth_getLogs contractAddr topic0) of
       None \<Rightarrow> Inl Rpc_failed
     | Some (R_logs logs) \<Rightarrow> Inr logs
     | Some R_null \<Rightarrow> Inr []
     | Some _ \<Rightarrow> Inl Unexpected_result)"

subsection \<open>Input validation\<close>

text \<open>
  \<^verbatim>\<open>filepath.Clean\<close> on a relative Unix path: empty segments and \<^verbatim>\<open>.\<close> vanish, \<^verbatim>\<open>..\<close> takes back the segment before it
  unless that is a \<^verbatim>\<open>..\<close> itself; the segments are kept in reverse.
\<close>

definition clean_step :: "string \<Rightarrow> string list \<Rightarrow> string list" where
  "clean_step seg out = (
     if seg = [] \<or> seg = ''.'' then out
     else if seg = ''..'' then (case out of
         [] \<Rightarrow> [''..'']
       | prev # below \<Rightarrow> if prev = ''..'' then ''..'' # out else below)
     else seg # out)"

definition filepath_Clean :: "string \<Rightarrow> string" where
  "filepath_Clean p = (let out = fold clean_step (Split (CHR ''/'') p) [] in
     if out = [] then ''.'' else strings_Join (CHR ''/'') (rev out))"

definition filepath_IsAbs :: "string \<Rightarrow> bool" where
  "filepath_IsAbs p \<longleftrightarrow> take 1 p = ''/''"

datatype input_error = Path_absolute | Path_traverses | Url_invalid | Url_scheme string | Body_invalid

fun dotdot_loop :: "nat \<Rightarrow> string list \<Rightarrow> input_error + unit" where
  "dotdot_loop n [] = Inr ()"
| "dotdot_loop n (seg # segs) = (
     if seg = ''..'' then (if n + 1 > 1 then Inl Path_traverses else dotdot_loop (n + 1) segs)
     else dotdot_loop n segs)"

definition validateReceiptsPath :: "string \<Rightarrow> input_error + unit" where
  "validateReceiptsPath p = (if filepath_IsAbs p then Inl Path_absolute
     else dotdot_loop 0 (Split (CHR ''/'') (filepath_Clean p)))"

text \<open>
  The scheme of a URL that parses: the characters before the first colon, in lower case, when they are a letter
  followed by letters, digits, \<^verbatim>\<open>+\<close>, \<^verbatim>\<open>-\<close> and \<^verbatim>\<open>.\<close>; whether it parses is the argument \<open>url_ok\<close>.
\<close>

definition is_letter :: "char \<Rightarrow> bool" where
  "is_letter c \<longleftrightarrow> (let k = of_char c :: nat in 65 \<le> k \<and> k < 91 \<or> 97 \<le> k \<and> k < 123)"

definition is_scheme_char :: "char \<Rightarrow> bool" where
  "is_scheme_char c \<longleftrightarrow> is_letter c \<or> digit_value c < 10 \<or> c \<in> {CHR ''+'', CHR ''-'', CHR ''.''}"

definition getScheme :: "string \<Rightarrow> string" where
  "getScheme raw = (let scheme = takeWhile is_scheme_char raw; rest = dropWhile is_scheme_char raw in
     if scheme \<noteq> [] \<and> is_letter (hd scheme) \<and> take 1 rest = '':'' then ToLower scheme else [])"

definition validateRPCURL :: "(string \<Rightarrow> bool) \<Rightarrow> string \<Rightarrow> input_error + unit" where
  "validateRPCURL url_ok raw = (if \<not> url_ok raw then Inl Url_invalid
     else if getScheme raw \<noteq> ''http'' \<and> getScheme raw \<noteq> ''https'' then Inl (Url_scheme (getScheme raw))
     else Inr ())"

subsection \<open>Receipts and the registry\<close>

text \<open>The receipts file: the contract addresses by contract name, or \<^term>\<open>None\<close> when it cannot be read or decoded.\<close>

type_synonym receipts = "string \<Rightarrow> (string \<rightharpoonup> string) option"

definition vaultNames :: "string list" where
  "vaultNames = [''Erc20CoinVault'', ''Erc721CoinVault'', ''Erc1155CoinVault'', ''EnygmaErc20CoinVault'']"

definition loadVaultAddresses :: "receipts \<Rightarrow> string \<Rightarrow> (string \<rightharpoonup> string) option" where
  "loadVaultAddresses files receiptsPath = (case files receiptsPath of
       None \<Rightarrow> None
     | Some all \<Rightarrow> Some (fold (\<lambda>name out. case all name of Some r \<Rightarrow> out(name \<mapsto> r) | None \<Rightarrow> out) vaultNames Map.empty))"

definition vaultIDByName :: "string \<Rightarrow> 64 word" where
  "vaultIDByName name = (
     if name = ''Erc20CoinVault'' then 0 else if name = ''Erc721CoinVault'' then 1
     else if name = ''Erc1155CoinVault'' then 2 else if name = ''EnygmaErc20CoinVault'' then 3 else 0)"

definition vaultNameByID :: "64 word \<Rightarrow> string option" where
  "vaultNameByID vid = map_of (map (\<lambda>name. (vaultIDByName name, name)) vaultNames) vid"

record VaultRegistryEntry =
  re_VaultID :: "64 word"
  re_Name :: string
  re_AddressInDvP :: "rpc_error + string"
  re_AddressInReceipts :: string
  re_Match :: bool

datatype registry_error = Receipts_unreadable | Dvp_not_found

record EnygmaDvPCheck =
  dc_Address :: string
  dc_AllMatch :: bool
  dc_Entries :: "VaultRegistryEntry list"
  dc_Error :: "registry_error option"

definition registry_entry :: "rpc_node \<Rightarrow> string \<Rightarrow> (string \<rightharpoonup> string) \<Rightarrow> string \<Rightarrow> string \<Rightarrow> VaultRegistryEntry" where
  "registry_entry rpc dvpAddr receiptsAddrs vaultByIDSel name = (
     let id = vaultIDByName name;
         receiptAddr = ToLower (case receiptsAddrs name of Some a \<Rightarrow> a | None \<Rightarrow> [])
     in case ethCallAddress rpc dvpAddr vaultByIDSel id of
          Inl err \<Rightarrow> \<lparr>re_VaultID = id, re_Name = name, re_AddressInDvP = Inl err,
            re_AddressInReceipts = receiptAddr, re_Match = False\<rparr>
        | Inr onChainAddr \<Rightarrow> \<lparr>re_VaultID = id, re_Name = name, re_AddressInDvP = Inr onChainAddr,
            re_AddressInReceipts = receiptAddr, re_Match = (onChainAddr = receiptAddr)\<rparr>)"

definition checkEnygmaDvPRegistry ::
  "rpc_node \<Rightarrow> receipts \<Rightarrow> string \<Rightarrow> (string \<rightharpoonup> string) \<Rightarrow> string \<Rightarrow> EnygmaDvPCheck" where
  "checkEnygmaDvPRegistry rpc files receiptsPath receiptsAddrs vaultByIDSel = (
     let failed = \<lambda>err. \<lparr>dc_Address = [], dc_AllMatch = False, dc_Entries = [], dc_Error = Some err\<rparr>
     in case files receiptsPath of
          None \<Rightarrow> failed Receipts_unreadable
        | Some all \<Rightarrow> (case all ''EnygmaDvp'' of
            None \<Rightarrow> failed Dvp_not_found
          | Some dvpAddr \<Rightarrow> (
              let (entries, allMatch) = fold (\<lambda>name (entries, allMatch).
                    let e = registry_entry rpc dvpAddr receiptsAddrs vaultByIDSel name
                    in (entries @ [e], if re_Match e then allMatch else False)) vaultNames ([], True)
              in \<lparr>dc_Address = dvpAddr, dc_AllMatch = allMatch, dc_Entries = entries, dc_Error = None\<rparr>)))"

subsection \<open>A vault's status\<close>

datatype vault_error =
  Not_in_receipts | CurrentRoot_failed rpc_error | TreeNumber_failed rpc_error | GetLogs_failed rpc_error
| Too_few_topics nat nat | Bad_commitment nat string

record VaultMerkleStatus =
  vs_Name :: string
  vs_Address :: string
  vs_OnChainRoot :: string
  vs_LocalRoot :: string
  vs_Match :: bool
  vs_LeafCount :: nat
  vs_TreeNumber :: "64 word"
  vs_Tree :: TreeOutput
  vs_Error :: "vault_error option"

definition no_tree :: TreeOutput where
  "no_tree = \<lparr>to_Depth = 0, to_Root = [], to_Levels = [], to_Zeros = []\<rparr>"

definition new_status :: "string \<Rightarrow> string \<Rightarrow> VaultMerkleStatus" where
  "new_status name addr = \<lparr>vs_Name = name, vs_Address = addr, vs_OnChainRoot = [], vs_LocalRoot = [], vs_Match = False,
     vs_LeafCount = 0, vs_TreeNumber = 0, vs_Tree = no_tree, vs_Error = None\<rparr>"

text \<open>The loop over the log entries, with its index.\<close>

fun replay_logs ::
  "native_hash \<Rightarrow> nat \<Rightarrow> string list list \<Rightarrow> localMerkleTree \<Rightarrow> (vault_error + localMerkleTree) option" where
  "replay_logs Hash i [] mt = Some (Inr mt)"
| "replay_logs Hash i (topics # logs) mt = (
     if length topics < 3 then Some (Inl (Too_few_topics i (length topics)))
     else case bigInt_SetString16 (TrimPrefix (topics ! 2) ''0x'') of
         None \<Rightarrow> Some (Inl (Bad_commitment i (topics ! 2)))
       | Some leaf \<Rightarrow> do { mt' \<leftarrow> local_insertLeaf Hash mt leaf; replay_logs Hash (Suc i) logs mt' })"

definition checkVault ::
  "native_hash \<Rightarrow> (byte list \<Rightarrow> byte list) \<Rightarrow> rpc_node \<Rightarrow> string \<Rightarrow> string \<Rightarrow> nat \<Rightarrow> string \<Rightarrow> string \<Rightarrow> string \<Rightarrow>
   VaultMerkleStatus option" where
  "checkVault Hash keccak256 rpc name addr d commitmentTopic currentRootSel treeNumberSel = (
     let s = new_status name addr in
     case ethCallUint256 rpc addr currentRootSel of
       Inl err \<Rightarrow> Some (s\<lparr>vs_Error := Some (CurrentRoot_failed err)\<rparr>)
     | Inr onChainRoot \<Rightarrow> (let s = s\<lparr>vs_OnChainRoot := bigInt_String onChainRoot\<rparr> in
     case ethCallUint256 rpc addr treeNumberSel of
       Inl err \<Rightarrow> Some (s\<lparr>vs_Error := Some (TreeNumber_failed err)\<rparr>)
     | Inr treeNum \<Rightarrow> (let s = s\<lparr>vs_TreeNumber := word_of_int \<bar>treeNum\<bar>\<rparr> in
     case ethGetLogs rpc addr commitmentTopic of
       Inl err \<Rightarrow> Some (s\<lparr>vs_Error := Some (GetLogs_failed err)\<rparr>)
     | Inr logs \<Rightarrow> (let s = s\<lparr>vs_LeafCount := length logs\<rparr> in do {
         mt0 \<leftarrow> newLocalMerkleTree Hash keccak256 d;
         r \<leftarrow> replay_logs Hash 0 logs mt0;
         case r of
           Inl err \<Rightarrow> Some (s\<lparr>vs_Error := Some err\<rparr>)
         | Inr mt \<Rightarrow> do {
             localRoot \<leftarrow> local_root mt;
             t \<leftarrow> tree_snapshot mt;
             Some (s\<lparr>vs_LocalRoot := localRoot, vs_Match := (localRoot = bigInt_String onChainRoot), vs_Tree := t\<rparr>) } }))))"

subsection \<open>The handlers\<close>

record MerkleStatusRequest =
  ms_RpcUrl :: string
  ms_ReceiptsPath :: string

datatype vault_reply =
  Input_refused input_error
| Unknown_vault_id "64 word"
| No_vault_given
| Unknown_vault string
| Receipts_failed
| Vault_not_in_receipts string
| Status_report EnygmaDvPCheck "VaultMerkleStatus list"
| Vault_report VaultMerkleStatus

definition reply_code :: "vault_reply \<Rightarrow> nat" where
  "reply_code r = (case r of
     Input_refused _ \<Rightarrow> 400 | Unknown_vault_id _ \<Rightarrow> 400 | No_vault_given \<Rightarrow> 400 | Unknown_vault _ \<Rightarrow> 400
   | Receipts_failed \<Rightarrow> 500 | Vault_not_in_receipts _ \<Rightarrow> 500 | Status_report _ _ \<Rightarrow> 200 | Vault_report _ \<Rightarrow> 200)"

definition or_default :: "string \<Rightarrow> string \<Rightarrow> string" where
  "or_default s dflt = (if s = [] then dflt else s)"

definition merkle_treeDepth :: nat where
  "merkle_treeDepth = 8"

text \<open>The nodes are reached by their URL; both handlers hash their selectors once, when they are made.\<close>

definition MerkleStatusHandler ::
  "native_hash \<Rightarrow> (byte list \<Rightarrow> byte list) \<Rightarrow> (string \<Rightarrow> bool) \<Rightarrow> receipts \<Rightarrow> (string \<Rightarrow> rpc_node) \<Rightarrow>
   MerkleStatusRequest \<Rightarrow> vault_reply option" where
  "MerkleStatusHandler Hash keccak256 url_ok files nodes req = (
     let commitmentTopic = keccak32Hex keccak256 ''Commitment(uint256,uint256)'';
         currentRootSel = keccak4 keccak256 ''currentRoot()'';
         treeNumberSel = keccak4 keccak256 ''treeNumber()'';
         vaultByIDSel = keccak4 keccak256 ''vaultById(uint256)'';
         url = or_default (ms_RpcUrl req) ''http://127.0.0.1:8545'';
         path = or_default (ms_ReceiptsPath req) ''../build/receipts.json''
     in case validateRPCURL url_ok url of Inl err \<Rightarrow> Some (Input_refused err)
     | Inr _ \<Rightarrow> (case validateReceiptsPath path of Inl err \<Rightarrow> Some (Input_refused err)
     | Inr _ \<Rightarrow> (case loadVaultAddresses files path of None \<Rightarrow> Some Receipts_failed
     | Some vaultAddrs \<Rightarrow> do {
         let dvpCheck = checkEnygmaDvPRegistry (nodes url) files path vaultAddrs vaultByIDSel;
         statuses \<leftarrow> mapM (\<lambda>name. case vaultAddrs name of
             None \<Rightarrow> Some ((new_status name [])\<lparr>vs_Error := Some Not_in_receipts\<rparr>)
           | Some addr \<Rightarrow> checkVault Hash keccak256 (nodes url) name addr merkle_treeDepth
               commitmentTopic currentRootSel treeNumberSel) vaultNames;
         Some (Status_report dvpCheck statuses) })))"

record MerkleVaultRequest =
  mv_Vault :: string
  mv_VaultID :: "64 word option"
  mv_RpcUrl :: string
  mv_ReceiptsPath :: string

text \<open>The request is \<^term>\<open>None\<close> when the body does not bind.\<close>

definition MerkleVaultHandler ::
  "native_hash \<Rightarrow> (byte list \<Rightarrow> byte list) \<Rightarrow> (string \<Rightarrow> bool) \<Rightarrow> receipts \<Rightarrow> (string \<Rightarrow> rpc_node) \<Rightarrow>
   MerkleVaultRequest option \<Rightarrow> vault_reply option" where
  "MerkleVaultHandler Hash keccak256 url_ok files nodes bound = (case bound of None \<Rightarrow> Some (Input_refused Body_invalid)
   | Some req \<Rightarrow>
     let commitmentTopic = keccak32Hex keccak256 ''Commitment(uint256,uint256)'';
         currentRootSel = keccak4 keccak256 ''currentRoot()'';
         treeNumberSel = keccak4 keccak256 ''treeNumber()'';
         url = or_default (mv_RpcUrl req) ''http://127.0.0.1:8545'';
         path = or_default (mv_ReceiptsPath req) ''../build/receipts.json''
     in case validateRPCURL url_ok url of Inl err \<Rightarrow> Some (Input_refused err)
     | Inr _ \<Rightarrow> (case validateReceiptsPath path of Inl err \<Rightarrow> Some (Input_refused err)
     | Inr _ \<Rightarrow> (
         let resolved = (if mv_Vault req = [] then (case mv_VaultID req of
                 None \<Rightarrow> Inr []
               | Some vid \<Rightarrow> (case vaultNameByID vid of None \<Rightarrow> Inl vid | Some n \<Rightarrow> Inr n))
               else Inr (mv_Vault req))
         in case resolved of
           Inl vid \<Rightarrow> Some (Unknown_vault_id vid)
         | Inr vaultName \<Rightarrow>
             if vaultName = [] then Some No_vault_given
             else if vaultName \<notin> set vaultNames then Some (Unknown_vault vaultName)
             else (case loadVaultAddresses files path of None \<Rightarrow> Some Receipts_failed
             | Some vaultAddrs \<Rightarrow> (case vaultAddrs vaultName of
                 None \<Rightarrow> Some (Vault_not_in_receipts vaultName)
               | Some addr \<Rightarrow> do {
                   s \<leftarrow> checkVault Hash keccak256 (nodes url) vaultName addr merkle_treeDepth
                     commitmentTopic currentRootSel treeNumberSel;
                   Some (Vault_report s) })))))"

text \<open>The commitment of a log entry, when the loop accepts it.\<close>

definition log_commitment :: "string list \<Rightarrow> int option" where
  "log_commitment topics = do { t \<leftarrow> idx topics 2; bigInt_SetString16 (TrimPrefix t ''0x'') }"

subsection \<open>The server's tree is the client's\<close>

definition local_of :: "MerkleTree \<Rightarrow> localMerkleTree" where
  "local_of mt = \<lparr>lm_depth = depth mt, lm_zeros = zeros mt, lm_tree = tree mt\<rparr>"

lemma local_of_sel [simp]:
  "lm_depth (local_of mt) = depth mt" "lm_zeros (local_of mt) = zeros mt" "lm_tree (local_of mt) = tree mt"
  by (simp_all add: local_of_def)

lemma local_of_update [simp]: "(local_of mt)\<lparr>lm_tree := t\<rparr> = local_of (mt\<lparr>tree := t\<rparr>)"
  by (simp add: local_of_def)

lemma zero_levels_steps:
  assumes "n < d"
  shows "foldM (\<lambda>i z. do { p \<leftarrow> idx z (i - 1); h \<leftarrow> localPoseidon2 Hash p p; Some (z[i := h]) })
      [1..<Suc n] ((replicate d 0)[0 := v]) =
    map_option (\<lambda>l. l @ replicate (d - Suc n) 0)
      (foldM (\<lambda>level levels. do { z \<leftarrow> idx levels (level - 1); h \<leftarrow> HashLeftRight Hash z z; Some (levels @ [h]) })
        [1..<Suc n] [v]) \<and>
    (\<forall>l. foldM (\<lambda>level levels. do { z \<leftarrow> idx levels (level - 1); h \<leftarrow> HashLeftRight Hash z z; Some (levels @ [h]) })
        [1..<Suc n] [v] = Some l \<longrightarrow> length l = Suc n)"
  using assms
proof (induction n)
  case 0
  then show ?case by (cases d) simp_all
next
  case (Suc n)
  have upt: "[Suc 0..<Suc (Suc n)] = [Suc 0..<Suc n] @ [Suc n]" by simp
  show ?case
  proof (cases "foldM (\<lambda>level levels. do { z \<leftarrow> idx levels (level - 1); h \<leftarrow> HashLeftRight Hash z z; Some (levels @ [h]) })
        [1..<Suc n] [v]")
    case None
    with Suc show ?thesis by (simp add: upt foldM_append del: upt_Suc)
  next
    case (Some l)
    with Suc have l: "length l = Suc n" by simp
    have "idx (l @ replicate (d - Suc n) 0) n = idx l n" using l by (simp add: idx_def nth_append)
    moreover have "d - Suc n = Suc (d - Suc (Suc n))" using Suc.prems by simp
    then have "(l @ replicate (d - Suc n) 0)[Suc n := h] = l @ h # replicate (d - Suc (Suc n)) 0" for h
      using l by (simp add: list_update_append)
    ultimately show ?thesis
      using Suc Some l by (auto simp: upt foldM_append localPoseidon2_def HashLeftRight_def idx_nth simp del: upt_Suc split: Option.bind_splits)
  qed
qed

lemma buildZeroLevels_client: "buildZeroLevels Hash keccak256 d = getZeroValueLevels Hash keccak256 d"
proof (cases d)
  case (Suc n)
  have z: "localZeroValue keccak256 = GetZeroValue keccak256" by (simp add: localZeroValue_def GetZeroValue_def)
  show ?thesis
    using zero_levels_steps [of n d Hash "GetZeroValue keccak256"] Suc
    by (simp add: buildZeroLevels_def getZeroValueLevels_def z option.map_ident del: upt_Suc)
qed (simp add: buildZeroLevels_def getZeroValueLevels_def)

lemma empty_levels: "(replicate (d + 1) [])[d := [x]] = replicate d [] @ [[x]]"
  by (induction d) simp_all

lemma newLocalMerkleTree_client:
  "newLocalMerkleTree Hash keccak256 d = map_option local_of (NewMerkleTree Hash keccak256 d)"
proof (cases "d = 0")
  case False
  then show ?thesis
    unfolding newLocalMerkleTree_def NewMerkleTree_def buildZeroLevels_client empty_tree_def empty_levels
    by (auto simp: local_of_def localPoseidon2_def HashLeftRight_def split: Option.bind_splits)
qed (simp add: newLocalMerkleTree_def NewMerkleTree_def buildZeroLevels_client getZeroValueLevels_def)

lemma mapM_upt_Suc: "mapM f [0..<Suc n] = do { y \<leftarrow> f 0; ys \<leftarrow> mapM (\<lambda>k. f (Suc k)) [0..<n]; Some (y # ys) }"
  by (simp only: upt_conv_Cons [OF zero_less_Suc] mapM.simps map_Suc_upt [symmetric] mapM_map)

lemma sparse_level_client:
  assumes "idx zs level = Some z"
  shows "sparse_level Hash zs level nodes = hash_level Hash (Some z) nodes"
proof (induction nodes rule: induct_list012)
  case (3 x y xs)
  have "(length (x # y # xs) + 1) div 2 = Suc ((length xs + 1) div 2)" by simp
  moreover have "idx (x # y # xs) (2 * Suc k + 1) = idx xs (2 * k + 1)" for k by (simp add: idx_def)
  ultimately show ?case
    using 3(1) assms
    by (simp add: sparse_level_def mapM_upt_Suc localPoseidon2_def HashLeftRight_def Let_def del: upt_Suc cong: if_cong)
qed (use assms in \<open>simp_all add: sparse_level_def localPoseidon2_def HashLeftRight_def\<close>)

lemma rebuildSparse_client:
  assumes "length (zeros mt) = depth mt"
  shows "rebuildSparse Hash (local_of mt) = map_option local_of (rebuildSparseTree Hash mt)"
proof -
  have "foldM (\<lambda>level t. do { nodes \<leftarrow> idx t level; parents \<leftarrow> sparse_level Hash (zeros mt) level nodes;
         if level + 1 < length t then Some (t[level + 1 := parents]) else None }) [0..<depth mt] (tree mt) =
      foldM (\<lambda>level t. do { nodes \<leftarrow> idx t level; parents \<leftarrow> hash_level Hash (idx (zeros mt) level) nodes;
         if level + 1 < length t then Some (t[level + 1 := parents]) else None }) [0..<depth mt] (tree mt)"
    using assms by (intro foldM_cong refl) (simp add: sparse_level_client idx_nth)
  then show ?thesis
    by (simp add: rebuildSparse_def rebuildSparseTree_def split: Option.bind_splits)
qed

context field_hash
begin

lemma local_insertLeaf_client:
  assumes inv: "mt_inv Hash keccak256 mt"
  shows "local_insertLeaf Hash (local_of mt) leaf = map_option local_of (InsertLeaf Hash keccak256 mt leaf)"
proof -
  note z = zeros_ok [OF inv]
  have d: "0 < depth mt" and gz: "getZeroValueLevels Hash keccak256 (depth mt) = Some (zeros mt)"
    using inv by (auto simp: mt_inv_def)
  have reset: "resetToEmpty Hash (local_of mt) = map_option local_of (newTree Hash keccak256 mt)"
    using d unfolding resetToEmpty_def newTree_def gz empty_tree_def empty_levels local_of_sel
    by (auto simp: localPoseidon2_def HashLeftRight_def local_of_def split: Option.bind_splits)
  have grow: "(do { cur \<leftarrow> idx (tree m) 0; rebuildSparse Hash (local_of (m\<lparr>tree := (tree m)[0 := cur @ [leaf]]\<rparr>)) }) =
      map_option local_of (do { cur \<leftarrow> idx (tree m) 0; rebuildSparseTree Hash (m\<lparr>tree := (tree m)[0 := cur @ [leaf]]\<rparr>) })"
    if "length (zeros m) = depth m" for m
    using rebuildSparse_client that by (auto split: Option.bind_splits)
  have nt: "length (zeros m) = depth m" if "newTree Hash keccak256 mt = Some m" for m
    using that gz z(1) by (auto simp: newTree_def bind_eq_Some_conv)
  show ?thesis
    using grow [OF z(1)] grow [OF nt] reset
    by (auto simp: local_insertLeaf_def InsertLeaf_def InsertLeaves_def maxLeaves_def split: Option.bind_splits)
qed

lemma insert_one:
  assumes "mt_inv Hash keccak256 mt" and "canonical [c]"
  shows "\<exists>mt'. InsertLeaf Hash keccak256 mt c = Some mt' \<and> mt_inv Hash keccak256 mt' \<and> depth mt' = depth mt \<and>
    tree mt' ! 0 = (if length (tree mt ! 0) + 1 < 2 ^ depth mt then tree mt ! 0 @ [c] else [c])"
  using InsertLeaves_ok [OF assms(1), of "[c]"] assms(2) by (auto simp: InsertLeaf_def)

lemma insert_each:
  assumes "mt_inv Hash keccak256 mt" and "canonical cs"
  shows "\<exists>mt'. foldM (\<lambda>c m. InsertLeaf Hash keccak256 m c) cs mt = Some mt' \<and> mt_inv Hash keccak256 mt' \<and> depth mt' = depth mt \<and>
    tree mt' ! 0 = fold (\<lambda>c l. if length l + 1 < 2 ^ depth mt then l @ [c] else [c]) cs (tree mt ! 0)"
  using assms
proof (induction cs arbitrary: mt)
  case (Cons c cs)
  from Cons.prems have "canonical [c]" "canonical cs" by simp_all
  from insert_one [OF Cons.prems(1) this(1)] obtain m where m: "InsertLeaf Hash keccak256 mt c = Some m"
      "mt_inv Hash keccak256 m" "depth m = depth mt"
      "tree m ! 0 = (if length (tree mt ! 0) + 1 < 2 ^ depth mt then tree mt ! 0 @ [c] else [c])" by blast
  from Cons.IH [OF m(2) \<open>canonical cs\<close>] m(1,3,4) show ?case by simp
qed simp

lemma replay_each:
  assumes "mt_inv Hash keccak256 mt" and "canonical cs"
  shows "foldM (\<lambda>c m. local_insertLeaf Hash m c) cs (local_of mt) =
    map_option local_of (foldM (\<lambda>c m. InsertLeaf Hash keccak256 m c) cs mt)"
  using assms
proof (induction cs arbitrary: mt)
  case (Cons c cs)
  then have can: "canonical [c]" "canonical cs" by simp_all
  from insert_one [OF Cons.prems(1) can(1)] obtain m where
    m: "InsertLeaf Hash keccak256 mt c = Some m" "mt_inv Hash keccak256 m" by blast
  with Cons.IH [OF m(2) can(2)] local_insertLeaf_client [OF Cons.prems(1), of c] show ?case by simp
qed simp

lemma replay_logs_each:
  assumes "mapM log_commitment logs = Some cs"
  shows "replay_logs Hash i logs lt = map_option Inr (foldM (\<lambda>c m. local_insertLeaf Hash m c) cs lt)"
  using assms
proof (induction logs arbitrary: i cs lt)
  case (Cons topics logs)
  then obtain c cs' where c: "log_commitment topics = Some c" "mapM log_commitment logs = Some cs'" "cs = c # cs'"
    by (auto simp: bind_eq_Some_conv)
  then have "2 < length topics" "bigInt_SetString16 (TrimPrefix (topics ! 2) ''0x'') = Some c"
    by (auto simp: log_commitment_def idx_Some_iff bind_eq_Some_conv)
  with Cons.IH [OF c(2)] c(3) show ?case by (auto split: Option.bind_splits)
qed simp

lemma replay_client:
  assumes "mt_inv Hash keccak256 mt" and "mapM log_commitment logs = Some cs" and "canonical cs"
  shows "replay_logs Hash i logs (local_of mt) =
    map_option (\<lambda>m. Inr (local_of m)) (foldM (\<lambda>c m. InsertLeaf Hash keccak256 m c) cs mt)"
  using replay_each [OF assms(1,3)] by (simp add: replay_logs_each [OF assms(2)] option.map_comp comp_def)

end

lemma fold_roll_room:
  "length l + length xs < M \<Longrightarrow> fold (\<lambda>c l. if length l + 1 < M then l @ [c] else [c]) xs l = l @ xs"
  by (induction xs arbitrary: l) simp_all

lemma fold_roll_over:
  assumes "xs \<noteq> []" and "M \<le> length l + length xs" and "length xs < M"
  shows "fold (\<lambda>c l. if length l + 1 < M then l @ [c] else [c]) xs l = drop (M - 1 - length l) xs"
proof -
  let ?f = "\<lambda>c l. if length l + 1 < M then l @ [c] else [c]" and ?j = "M - 1 - length l"
  have j: "?j < length xs" using assms by (cases xs) auto
  have "fold ?f xs l = fold ?f (take ?j xs @ xs ! ?j # drop (Suc ?j) xs) l"
    using id_take_nth_drop [OF j] by (rule arg_cong)
  also have "\<dots> = fold ?f (xs ! ?j # drop (Suc ?j) xs) (fold ?f (take ?j xs) l)" by (simp only: fold_append comp_apply)
  also have "fold ?f (take ?j xs) l = l @ take ?j xs"
    by (cases "?j = 0") (simp, rule fold_roll_room, use j assms(3) in auto)
  also have "fold ?f (xs ! ?j # drop (Suc ?j) xs) (l @ take ?j xs) = fold ?f (drop (Suc ?j) xs) [xs ! ?j]"
  proof -
    have "\<not> length (l @ take ?j xs) + 1 < M" using j by auto
    then show ?thesis by (simp only: fold_simps if_False)
  qed
  also have "\<dots> = [xs ! ?j] @ drop (Suc ?j) xs" using assms(3) j by (intro fold_roll_room) simp
  also have "\<dots> = drop ?j xs" using j by (simp add: Cons_nth_drop_Suc)
  finally show ?thesis .
qed

subsection \<open>Paths\<close>

text \<open>How far a path leads below the directory it starts in: a name goes down by one, \<^verbatim>\<open>..\<close> up by one.\<close>

definition seg_step :: "string \<Rightarrow> int" where
  "seg_step seg = (if seg = [] \<or> seg = ''.'' then 0 else if seg = ''..'' then - 1 else 1)"

definition net_depth :: "string list \<Rightarrow> int" where
  "net_depth segs = sum_list (map seg_step segs)"

lemma clean_shape:
  "\<exists>a k. fold clean_step segs [] = a @ replicate k ''..'' \<and> ''..'' \<notin> set a \<and> net_depth segs = int (length a) - int k \<and>
     (\<forall>n. - int k \<le> net_depth (take n segs)) \<and> (\<exists>n. net_depth (take n segs) = - int k)"
proof (induction segs rule: rev_induct)
  case Nil
  show ?case by (rule exI [of _ "[]"], rule exI [of _ 0]) (simp add: net_depth_def)
next
  case (snoc seg segs)
  then obtain a k where h: "fold clean_step segs [] = a @ replicate k ''..''" "''..'' \<notin> set a"
      "net_depth segs = int (length a) - int k" "\<And>n. - int k \<le> net_depth (take n segs)"
      "\<exists>n. net_depth (take n segs) = - int k" by blast
  have net: "net_depth (segs @ [seg]) = net_depth segs + seg_step seg" by (simp add: net_depth_def)
  have pre: "net_depth (take n (segs @ [seg])) = (if n \<le> length segs then net_depth (take n segs) else net_depth segs + seg_step seg)" for n
    by (cases "n - length segs") (auto simp: net_depth_def)
  have low: "\<exists>n. net_depth (take n (segs @ [seg])) = - int k"
  proof -
    from h(5) obtain n where "net_depth (take n segs) = - int k" by blast
    then have "net_depth (take (min n (length segs)) segs) = - int k" by (cases "n \<le> length segs") (simp_all add: min_def)
    then have "net_depth (take (min n (length segs)) (segs @ [seg])) = - int k" by (simp add: pre)
    then show ?thesis by (rule exI)
  qed
  have keep: ?case if "fold clean_step (segs @ [seg]) [] = b @ replicate k ''..''" "''..'' \<notin> set b"
      "net_depth segs + seg_step seg = int (length b) - int k" for b
  proof -
    have "- int k \<le> net_depth (take n (segs @ [seg]))" for n unfolding pre using that(3) h(4) by simp
    with that low net show ?thesis by (intro exI [of _ b] exI [of _ k]) simp
  qed
  consider "seg = [] \<or> seg = ''.''" | "seg = ''..''" "a = []" | x b where "seg = ''..''" "a = x # b"
    | "seg \<noteq> []" "seg \<noteq> ''.''" "seg \<noteq> ''..''" by (cases a) auto
  then show ?case
  proof cases
    case 1
    then show ?thesis using keep [of a] h by (auto simp: clean_step_def seg_step_def)
  next
    case 2
    have f: "fold clean_step (segs @ [seg]) [] = [] @ replicate (Suc k) ''..''"
      using 2 h(1) by (cases k) (simp_all add: clean_step_def)
    have b: "- int (Suc k) \<le> net_depth (take n (segs @ [seg]))" for n
      unfolding pre using h(3) h(4) [of n] 2 by (simp add: seg_step_def)
    have l: "net_depth (take (Suc (length segs)) (segs @ [seg])) = - int (Suc k)"
      using net h(3) 2 by (simp add: seg_step_def)
    show ?thesis
      using f b l net h(3) 2 by (intro exI [of _ "[]"] exI [of _ "Suc k"] conjI allI exI [of _ "Suc (length segs)"]) (simp_all add: seg_step_def)
  next
    case (3 x b)
    then show ?thesis using keep [of b] h by (auto simp: clean_step_def seg_step_def)
  next
    case 4
    then show ?thesis using keep [of "seg # a"] h by (auto simp: clean_step_def seg_step_def)
  qed
qed

lemma clean_parts: "s \<in> set (fold clean_step segs out) \<Longrightarrow> s \<in> set segs \<union> set out"
proof (induction segs arbitrary: out)
  case (Cons seg segs)
  have "set (clean_step seg out) \<subseteq> insert seg (set out)"
    by (auto simp: clean_step_def split: list.splits if_splits)
  with Cons.IH [of "clean_step seg out"] Cons.prems show ?case by auto
qed simp

lemma Split_Clean:
  "Split (CHR ''/'') (filepath_Clean p) =
     (let out = fold clean_step (Split (CHR ''/'') p) [] in if out = [] then [''.''] else rev out)"
proof -
  let ?out = "fold clean_step (Split (CHR ''/'') p) []"
  have "\<forall>s\<in>set (rev ?out). CHR ''/'' \<notin> set s" using clean_parts [of _ "Split (CHR ''/'') p" "[]"] Split_parts by fastforce
  then show ?thesis by (simp add: filepath_Clean_def Let_def Split_Join)
qed

lemma dotdot_loop_Inr: "n \<le> 1 \<Longrightarrow> dotdot_loop n segs = Inr () \<longleftrightarrow> n + count_list segs ''..'' \<le> 1"
  by (induction n segs rule: dotdot_loop.induct) auto

lemma count_dotdot: "''..'' \<notin> set a \<Longrightarrow> count_list (a @ replicate k ''..'') ''..'' = k"
  by (induction k) (simp_all add: count_list_append count_notin)

lemma accepted_path:
  "validateReceiptsPath p = Inr () \<longleftrightarrow>
     \<not> filepath_IsAbs p \<and> (\<forall>n. - 1 \<le> net_depth (take n (Split (CHR ''/'') p)))"
proof -
  let ?segs = "Split (CHR ''/'') p"
  obtain a k where c: "fold clean_step ?segs [] = a @ replicate k ''..''" "''..'' \<notin> set a"
      "\<And>n. - int k \<le> net_depth (take n ?segs)" "\<exists>n. net_depth (take n ?segs) = - int k"
    using clean_shape [of ?segs] by blast
  have "count_list (Split (CHR ''/'') (filepath_Clean p)) ''..'' = k"
    using c(1,2) count_dotdot [OF c(2), of k] by (auto simp: Split_Clean Let_def)
  then have "dotdot_loop 0 (Split (CHR ''/'') (filepath_Clean p)) = Inr () \<longleftrightarrow> k \<le> 1" by (simp add: dotdot_loop_Inr)
  moreover have "k \<le> 1 \<longleftrightarrow> (\<forall>n. - 1 \<le> net_depth (take n ?segs))"
    using c(3,4) by (metis (no_types, opaque_lifting) le_minus_iff neg_le_iff_le of_nat_1 of_nat_le_iff order_trans)
  ultimately show ?thesis by (simp add: validateReceiptsPath_def)
qed

text \<open>A node for a vault with two commitments, and the receipts of a deployment.\<close>

definition demo_node :: rpc_node where
  "demo_node req = (case req of
       Eth_call to data \<Rightarrow>
         if data = ''0x07'' then Some (R_string ''0x10c21'') else if to = ''0xd'' then Some (R_string (replicate 64 (CHR ''A''))) else None
     | Eth_getLogs addr topic \<Rightarrow> Some (R_logs [[topic, ''0x0'', ''0x5''], [topic, ''0x0'', ''0x6'']]))"

lemma lower_A: "(char_of (97 :: nat) :: char) = CHR ''a''"
  by code_simp

definition demo_receipts :: receipts where
  "demo_receipts path = Some (\<lambda>name. if name = ''EnygmaDvp'' then Some ''0xd''
     else Some (''0x'' @ replicate 40 (if name = ''Erc20CoinVault'' then CHR ''a'' else CHR ''A'')))"

lemma demo_queries:
  "ethCallUint256 demo_node addr ''07'' = Inr 68641" "ethGetLogs demo_node addr topic = Inr [[topic, ''0x0'', ''0x5''], [topic, ''0x0'', ''0x6'']]"
  by (simp_all add: ethCallUint256_def ethGetLogs_def demo_node_def TrimPrefix_def bigInt_SetString16_def parse_hex_def digit_value_def)

lemma demo_commitments: "mapM log_commitment [[topic, ''0x0'', ''0x5''], [topic, ''0x0'', ''0x6'']] = Some [5, 6]"
  by (simp add: log_commitment_def TrimPrefix_def bigInt_SetString16_def parse_hex_def digit_value_def)

lemma demo_client:
  "NewMerkleTree sum_hash keccak_seven 2 = Some (mt_two\<lparr>tree := [[], [], [70594]]\<rparr>)"
  "foldM (\<lambda>c m. InsertLeaf sum_hash keccak_seven m c) [5, 6] (mt_two\<lparr>tree := [[], [], [70594]]\<rparr>) = Some mt_two"
  "MerkleTree_Root mt_two = Some 68641"
  by (simp_all add: NewMerkleTree_def InsertLeaf_def InsertLeaves_def rebuildSparseTree_def empty_tree_def MerkleTree_Root_def
      mt_two_def mt_eval seven_zero maxLeaves_eq cong: bind_strict)

lemma checkVault_client:
  assumes "field_hash Hash" and "0 < d" and "d < 63"
    and "ethCallUint256 rpc addr rootSel = Inr r" and "ethCallUint256 rpc addr numSel = Inr n"
    and "ethGetLogs rpc addr topic = Inr logs" and "mapM log_commitment logs = Some cs" and "canonical cs"
  shows "\<exists>mt0 mt root s. NewMerkleTree Hash keccak256 d = Some mt0 \<and>
    foldM (\<lambda>c m. InsertLeaf Hash keccak256 m c) cs mt0 = Some mt \<and> MerkleTree_Root mt = Some root \<and>
    checkVault Hash keccak256 rpc name addr d topic rootSel numSel = Some s \<and> vs_Error s = None \<and>
    vs_LeafCount s = length cs \<and> (vs_Match s \<longleftrightarrow> r = root) \<and>
    vs_Tree s = \<lparr>to_Depth = d, to_Root = bigInt_String root, to_Levels = Tree (GetTree mt), to_Zeros = Zeros (GetTree mt)\<rparr>"
proof -
  obtain mt0 where mt0: "NewMerkleTree Hash keccak256 d = Some mt0" "mt_inv Hash keccak256 mt0" "depth mt0 = d"
    using field_hash.NewMerkleTree_inv [OF assms(1-3)] by blast
  from field_hash.insert_each [OF assms(1) mt0(2) assms(8)] obtain mt where
    mt: "foldM (\<lambda>c m. InsertLeaf Hash keccak256 m c) cs mt0 = Some mt" "mt_inv Hash keccak256 mt" "depth mt = d"
    using mt0(3) by auto
  obtain root where root: "MerkleTree_Root mt = Some root" using field_hash.Root_Some [OF assms(1) mt(2)] by blast
  have rp: "replay_logs Hash 0 logs (local_of mt0) = Some (Inr (local_of mt))"
    using field_hash.replay_client [OF assms(1) mt0(2) assms(7,8)] mt(1) by simp
  have lr: "local_root (local_of mt) = Some (bigInt_String root)"
    using root by (auto simp: local_root_def MerkleTree_Root_def bind_eq_Some_conv)
  have len: "length (tree mt) = depth mt + 1" "length (zeros mt) = depth mt"
    using tree_ok_length mt(2) field_hash.zeros_ok(1) [OF assms(1) mt(2)] by (auto simp: mt_inv_def)
  have sn: "tree_snapshot (local_of mt) =
      Some \<lparr>to_Depth = d, to_Root = bigInt_String root, to_Levels = Tree (GetTree mt), to_Zeros = Zeros (GetTree mt)\<rparr>"
    using len mt(3) lr by (simp add: tree_snapshot_def GetTree_def)
  have eq: "bigInt_String root = bigInt_String r \<longleftrightarrow> r = root" by (metis SetString_String option.inject)
  show ?thesis
    using mt0 mt root rp lr sn eq assms(4-6) mapM_length [OF assms(7)] newLocalMerkleTree_client [of Hash keccak256 d]
    by (simp add: checkVault_def new_status_def)
qed

subsection \<open>Properties\<close>

text \<open>
  C28. The status of a vault is the status of the client's tree. When the node answers the three queries with numbers and
  well-formed entries, \<^term>\<open>checkVault\<close> reports no error, counts the entries, publishes the levels and zeros of the
  tree a client has after inserting the same commitments one by one, and reports a match exactly when the root on
  chain is the root of that client's tree.
\<close>

theorem vault_status_is_client_tree:
  assumes "field_hash Hash" and "0 < d" and "d < 63"
    and "ethCallUint256 rpc addr rootSel = Inr r" and "ethCallUint256 rpc addr numSel = Inr n"
    and "ethGetLogs rpc addr topic = Inr logs" and "mapM log_commitment logs = Some cs" and "canonical cs"
  shows "\<exists>mt0 mt root s. NewMerkleTree Hash keccak256 d = Some mt0 \<and>
    foldM (\<lambda>c m. InsertLeaf Hash keccak256 m c) cs mt0 = Some mt \<and> MerkleTree_Root mt = Some root \<and>
    checkVault Hash keccak256 rpc name addr d topic rootSel numSel = Some s \<and> vs_Error s = None \<and>
    vs_LeafCount s = length cs \<and> (vs_Match s \<longleftrightarrow> r = root) \<and>
    vs_Tree s = \<lparr>to_Depth = d, to_Root = bigInt_String root, to_Levels = Tree (GetTree mt), to_Zeros = Zeros (GetTree mt)\<rparr>"
  by (rule checkVault_client [OF assms])

theorem vault_status_is_client_tree_witness:
  "canonical [5, 6] \<and> (\<exists>s. checkVault sum_hash keccak_seven demo_node ''vault'' ''0xa'' 2 ''topic'' ''07'' ''07'' = Some s \<and>
     vs_Error s = None \<and> vs_LeafCount s = 2 \<and> vs_Match s)"
  using vault_status_is_client_tree [OF sum_hash_field_hash _ _ demo_queries(1,1,2) demo_commitments, of 2 keccak_seven "''vault''" "''0xa''" "''topic''"]
  by (auto simp: demo_client SNARK_SCALAR_FIELD_def simp del: foldM.simps)

text \<open>
  Where the replay leaves the client's tree. The client inserts the outputs of one transaction as a batch and rolls
  over for the whole batch; the replay inserts them one at a time. While the batch fits the two end in the same
  tree; when it does not, the client's new tree holds the batch, and the replayed one only the part of the batch
  that came after the old tree was full.
\<close>

theorem replay_splits_batches:
  assumes "field_hash Hash" and "mt_inv Hash keccak256 mt" and "leaves \<noteq> []" and "canonical leaves"
    and "length leaves < 2 ^ depth mt"
  shows "\<exists>client replayed. InsertLeaves Hash keccak256 mt leaves = Some client \<and>
    foldM (\<lambda>c m. local_insertLeaf Hash m c) leaves (local_of mt) = Some replayed \<and>
    (if length (tree mt ! 0) + length leaves < 2 ^ depth mt
     then lm_tree replayed ! 0 = tree client ! 0
     else tree client ! 0 = leaves \<and> lm_tree replayed ! 0 = drop (2 ^ depth mt - 1 - length (tree mt ! 0)) leaves)"
proof -
  from field_hash.InsertLeaves_ok [OF assms(1-4)] assms(5) obtain client where
    c: "InsertLeaves Hash keccak256 mt leaves = Some client"
      "if length (tree mt ! 0) + length leaves < 2 ^ depth mt then tree client ! 0 = tree mt ! 0 @ leaves else tree client ! 0 = leaves"
    by (auto split: if_splits)
  from field_hash.insert_each [OF assms(1,2,4)] obtain mt' where
    m: "foldM (\<lambda>c m. InsertLeaf Hash keccak256 m c) leaves mt = Some mt'"
      "tree mt' ! 0 = fold (\<lambda>c l. if length l + 1 < 2 ^ depth mt then l @ [c] else [c]) leaves (tree mt ! 0)" by blast
  have "foldM (\<lambda>c m. local_insertLeaf Hash m c) leaves (local_of mt) = Some (local_of mt')"
    using field_hash.replay_each [OF assms(1,2,4)] m(1) by simp
  with c m(2) fold_roll_room [of "tree mt ! 0" leaves "2 ^ depth mt"] fold_roll_over [OF assms(3) _ assms(5), of "tree mt ! 0"]
  show ?thesis by (auto split: if_splits)
qed

theorem replay_splits_batches_witness:
  "mt_inv sum_hash keccak_seven mt_two \<and> (\<exists>client replayed. InsertLeaves sum_hash keccak_seven mt_two [9, 10] = Some client \<and>
     foldM (\<lambda>c m. local_insertLeaf sum_hash m c) [9, 10] (local_of mt_two) = Some replayed \<and>
     tree client ! 0 = [9, 10] \<and> lm_tree replayed ! 0 = [10])"
  using replay_splits_batches [OF sum_hash_field_hash mt_two_inv, of "[9, 10]"] mt_two_inv
  by (auto simp: mt_two_def SNARK_SCALAR_FIELD_def)

text \<open>
  The paths that \<^verbatim>\<open>validateReceiptsPath\<close> accepts are the relative ones that, followed segment by segment, are
  never more than one level above the working directory.
\<close>

theorem receipts_path_accepted_iff:
  "validateReceiptsPath p = Inr () \<longleftrightarrow>
     \<not> filepath_IsAbs p \<and> (\<forall>n. - 1 \<le> net_depth (take n (Split (CHR ''/'') p)))"
  by (rule accepted_path)

lemma loaded_addresses:
  "loadVaultAddresses files path = Some addrs \<Longrightarrow>
   \<exists>all. files path = Some all \<and> (\<forall>name\<in>set vaultNames. addrs name = all name)"
  by (auto simp: loadVaultAddresses_def vaultNames_def split: option.splits)

lemma registry_fold:
  "fold (\<lambda>name (entries, allMatch). let e = f name in (entries @ [e], if re_Match e then allMatch else False)) names (es, b) =
   (es @ map f names, b \<and> (\<forall>name\<in>set names. re_Match (f name)))"
  by (induction names arbitrary: es b) (simp_all add: Let_def)

lemma registry_entry_Match:
  "re_Match (registry_entry rpc dvp addrs sel name) \<longleftrightarrow>
     (\<exists>a. addrs name = Some a \<and> ethCallAddress rpc dvp sel (vaultIDByName name) = Inr (ToLower a))"
proof -
  have "ethCallAddress rpc dvp sel (vaultIDByName name) \<noteq> Inr []"
    by (simp add: ethCallAddress_def ToLower_def Let_def split: option.splits rpc_result.splits)
  then show ?thesis
    by (auto simp: registry_entry_def Let_def ToLower_def split: sum.splits option.splits)
qed

text \<open>
  The registry check is exact: \<^verbatim>\<open>AllMatch\<close> is reported exactly when the receipts name the exchange contract and all four
  vaults and the contract returns, for each vault id, the address in the receipts up to the case of its letters.
\<close>

theorem registry_all_match_iff:
  assumes "loadVaultAddresses files path = Some addrs"
  shows "dc_AllMatch (checkEnygmaDvPRegistry rpc files path addrs sel) \<longleftrightarrow>
    (\<exists>all dvp. files path = Some all \<and> all ''EnygmaDvp'' = Some dvp \<and>
       (\<forall>name\<in>set vaultNames. \<exists>a. all name = Some a \<and> ethCallAddress rpc dvp sel (vaultIDByName name) = Inr (ToLower a)))"
  using loaded_addresses [OF assms] unfolding checkEnygmaDvPRegistry_def registry_fold
  by (auto simp: Let_def registry_entry_Match split: option.splits)

theorem registry_all_match_iff_witness:
  "loadVaultAddresses demo_receipts ''r.json'' \<noteq> None \<and>
   dc_AllMatch (checkEnygmaDvPRegistry demo_node demo_receipts ''r.json'' (the (loadVaultAddresses demo_receipts ''r.json'')) ''08'')"
proof -
  obtain addrs where a: "loadVaultAddresses demo_receipts ''r.json'' = Some addrs"
    by (simp add: loadVaultAddresses_def demo_receipts_def)
  then show ?thesis
    using registry_all_match_iff [OF a, of demo_node "''08''"]
    by (simp add: demo_receipts_def vaultNames_def ethCallAddress_def demo_node_def TrimPrefix_def ToLower_def lower_A)
qed

lemma vaultNameByID_name:
  "i < 4 \<Longrightarrow> vaultNameByID (word_of_nat i) = Some (vaultNames ! i) \<and> vaultNames ! i \<noteq> [] \<and> vaultNames ! i \<in> set vaultNames"
proof -
  assume "i < 4"
  then consider "i = 0" | "i = 1" | "i = 2" | "i = 3" by linarith
  then show ?thesis by cases (simp_all add: vaultNameByID_def vaultNames_def vaultIDByName_def)
qed

text \<open>
  The two endpoints agree: a vault's row of the full report is what \<^verbatim>\<open>/util/merkleVault\<close> answers for that vault,
  whether it is asked for by name or by its id.
\<close>

theorem vault_endpoint_agrees:
  assumes "MerkleStatusHandler Hash keccak256 url_ok files nodes \<lparr>ms_RpcUrl = u, ms_ReceiptsPath = p\<rparr> = Some (Status_report chk rows)"
    and "i < 4" and "vs_Error (rows ! i) \<noteq> Some Not_in_receipts"
    and "vault = (vaultNames ! i, vid) \<or> vault = ([], Some (word_of_nat i))"
  shows "MerkleVaultHandler Hash keccak256 url_ok files nodes
    (Some \<lparr>mv_Vault = fst vault, mv_VaultID = snd vault, mv_RpcUrl = u, mv_ReceiptsPath = p\<rparr>) = Some (Vault_report (rows ! i))"
proof -
  let ?url = "or_default u ''http://127.0.0.1:8545''" and ?path = "or_default p ''../build/receipts.json''"
  from assms(1) obtain addrs where ok: "validateRPCURL url_ok ?url = Inr ()" "validateReceiptsPath ?path = Inr ()"
      "loadVaultAddresses files ?path = Some addrs"
    and rows: "mapM (\<lambda>name. case addrs name of
             None \<Rightarrow> Some ((new_status name [])\<lparr>vs_Error := Some Not_in_receipts\<rparr>)
           | Some addr \<Rightarrow> checkVault Hash keccak256 (nodes ?url) name addr merkle_treeDepth
               (keccak32Hex keccak256 ''Commitment(uint256,uint256)'') (keccak4 keccak256 ''currentRoot()'')
               (keccak4 keccak256 ''treeNumber()'')) vaultNames = Some rows"
    by (auto simp: MerkleStatusHandler_def Let_def bind_eq_Some_conv split: sum.splits option.splits)
  have "i < length vaultNames" using assms(2) by (simp add: vaultNames_def)
  from mapM_nth [OF rows this] assms(3) obtain addr where addr: "addrs (vaultNames ! i) = Some addr"
    "checkVault Hash keccak256 (nodes ?url) (vaultNames ! i) addr merkle_treeDepth
       (keccak32Hex keccak256 ''Commitment(uint256,uint256)'') (keccak4 keccak256 ''currentRoot()'')
       (keccak4 keccak256 ''treeNumber()'') = Some (rows ! i)"
    by (auto split: option.splits dest: arg_cong [where f = vs_Error])
  show ?thesis
    using assms(4) ok addr vaultNameByID_name [OF assms(2)]
    by (auto simp: MerkleVaultHandler_def Let_def)
qed

lemma demo_report:
  "\<exists>chk rows. MerkleStatusHandler sum_hash keccak_seven (\<lambda>_. True) demo_receipts (\<lambda>_. demo_node) \<lparr>ms_RpcUrl = [], ms_ReceiptsPath = []\<rparr> =
     Some (Status_report chk rows) \<and> vs_Error (rows ! 2) = None"
proof -
  let ?check = "\<lambda>name addr. checkVault sum_hash keccak_seven demo_node name addr merkle_treeDepth ''0x07'' ''07'' ''07''"
  have ok: "\<exists>s. ?check name addr = Some s \<and> vs_Error s = None" for name addr
    using checkVault_client [OF sum_hash_field_hash _ _ demo_queries(1,1,2) demo_commitments, of merkle_treeDepth]
    by (fastforce simp: merkle_treeDepth_def SNARK_SCALAR_FIELD_def)
  then obtain f where f: "?check name addr = Some (f name addr)" "vs_Error (f name addr) = None" for name addr by metis
  have k: "EncodeToString (take 4 [7]) = ''07''" "EncodeToString [7] = ''07''" by code_simp+
  have v: "validateReceiptsPath ''../build/receipts.json'' = Inr ()" "validateRPCURL (\<lambda>_. True) ''http://127.0.0.1:8545'' = Inr ()"
    by code_simp+
  show ?thesis
    using f v by (simp add: MerkleStatusHandler_def Let_def or_default_def keccak4_def keccak32Hex_def keccak_seven_def k
        loadVaultAddresses_def demo_receipts_def vaultNames_def)
qed

theorem vault_endpoint_agrees_witness:
  "\<exists>chk rows. MerkleStatusHandler sum_hash keccak_seven (\<lambda>_. True) demo_receipts (\<lambda>_. demo_node) \<lparr>ms_RpcUrl = [], ms_ReceiptsPath = []\<rparr> =
     Some (Status_report chk rows) \<and>
   MerkleVaultHandler sum_hash keccak_seven (\<lambda>_. True) demo_receipts (\<lambda>_. demo_node)
     (Some \<lparr>mv_Vault = [], mv_VaultID = Some 2, mv_RpcUrl = [], mv_ReceiptsPath = []\<rparr>) = Some (Vault_report (rows ! 2))"
  using demo_report vault_endpoint_agrees [of sum_hash keccak_seven "\<lambda>_. True" demo_receipts "\<lambda>_. demo_node" "[]" "[]" _ _ 2 "([], Some 2)"]
  by fastforce

end
