(* ===== verification/Tag_Payment.thy ===== *)
theory Tag_Payment
  imports Tag_Scan
begin

section \<open>Payment notifications and the auditor\<close>

text \<open>
  \<^verbatim>\<open>enygma_retail_payments/private_tags/src/payment_notify.go\<close>, the note that travels with a private tag, and
  \<^verbatim>\<open>enygma_retail_payments/src/core/auditor/auditor.go\<close>, the encryption of a user's view key for the auditor. The
  cryptography is the argument of \<^theory_text>\<open>Tag_Channel\<close>; a decapsulation key is its 64-byte seed.
\<close>

subsection \<open>Payment notes\<close>

record PaymentNote =
  pn_Amount :: int
  pn_TokenId :: int
  pn_Salt :: int

text \<open>\<^verbatim>\<open>FillBytes\<close> writes the absolute value into its 32 bytes and panics when it does not fit.\<close>

definition PreparePaymentTag ::
  "iden3_hash \<Rightarrow> crypto \<Rightarrow> byte list option \<Rightarrow> 64 word option \<Rightarrow> int \<Rightarrow> int \<Rightarrow> byte list \<Rightarrow> int \<Rightarrow> int \<Rightarrow> int \<Rightarrow>
   (tag_error + 64 word \<times> byte list list \<times> byte list) option" where
  "PreparePaymentTag H cr rand currentBlock windowSize recipientPkSpend channelSS amount tokenId saltB = do {
     let channelKey = DeriveChannelKey cr channelSS;
     a \<leftarrow> FillBytes 32 amount;
     t \<leftarrow> FillBytes 32 tokenId;
     s \<leftarrow> FillBytes 32 saltB;
     PrepareTagWithWindow H cr rand currentBlock windowSize recipientPkSpend channelSS channelKey (a @ t @ s) }"

datatype payment_note_error = Note_undecryptable channel_error | Note_length nat

definition DecryptPaymentNote :: "crypto \<Rightarrow> byte list \<Rightarrow> byte list \<Rightarrow> payment_note_error + PaymentNote" where
  "DecryptPaymentNote cr channelSS ctxt = (let channelKey = DeriveChannelKey cr channelSS in
     case DecryptPayload cr channelKey ctxt of
       Inl err \<Rightarrow> Inl (Note_undecryptable err)
     | Inr plaintext \<Rightarrow>
         if length plaintext \<noteq> 96 then Inl (Note_length (length plaintext))
         else Inr \<lparr>pn_Amount = SetBytes (take 32 plaintext), pn_TokenId = SetBytes (take 32 (drop 32 plaintext)),
           pn_Salt = SetBytes (take 32 (drop 64 plaintext))\<rparr>)"

subsection \<open>The auditor\<close>

record AuditorKeyPair =
  DecapsKey :: "byte list"
  EncapsKey :: "byte list"

datatype audit_error = Keygen_failed | Invalid_auditor_key | Encrypt_failed | Decapsulate_failed | Decrypt_failed channel_error
  | Parse_key_failed

text \<open>The random source gives a seed or fails; the encapsulation key of a seed is an argument.\<close>

definition NewAuditorKeyPair :: "(byte list \<Rightarrow> byte list) \<Rightarrow> byte list option \<Rightarrow> audit_error + AuditorKeyPair" where
  "NewAuditorKeyPair EncapsulationKey seed = (case seed of
       None \<Rightarrow> Inl Keygen_failed
     | Some dk \<Rightarrow> Inr \<lparr>DecapsKey = dk, EncapsKey = EncapsulationKey dk\<rparr>)"

definition deriveAuditKey :: "crypto \<Rightarrow> byte list \<Rightarrow> byte list" where
  "deriveAuditKey cr ss = hkdf cr ss [] (ascii ''enygma-audit-view-key-v1'') 32"

definition audit_aesGCMEncryptWithAAD ::
  "crypto \<Rightarrow> byte list option \<Rightarrow> byte list \<Rightarrow> byte list \<Rightarrow> byte list \<Rightarrow> channel_error + byte list" where
  "audit_aesGCMEncryptWithAAD cr rand key plaintext aad = (case rand of
       None \<Rightarrow> Inl Rand_failed
     | Some nonce \<Rightarrow> Inr (nonce @ Seal cr key nonce plaintext aad))"

definition audit_aesGCMDecryptWithAAD ::
  "crypto \<Rightarrow> byte list \<Rightarrow> byte list \<Rightarrow> byte list \<Rightarrow> channel_error + byte list" where
  "audit_aesGCMDecryptWithAAD cr key ct aad = (
     if length ct < 12 then Inl Ciphertext_too_short
     else case Open cr key (take 12 ct) (drop 12 ct) aad of
       None \<Rightarrow> Inl Auth_failed
     | Some plaintext \<Rightarrow> Inr plaintext)"

definition EncryptViewKeyForAuditor ::
  "crypto \<Rightarrow> byte list \<Rightarrow> byte list option \<Rightarrow> byte list \<Rightarrow> byte list \<Rightarrow> audit_error + byte list \<times> byte list" where
  "EncryptViewKeyForAuditor cr coins rand auditorPK userDK = (
     if \<not> ValidKey cr auditorPK then Inl Invalid_auditor_key
     else let (ss, mlKemCt) = Encapsulate cr auditorPK coins; encKey = deriveAuditKey cr ss
     in case audit_aesGCMEncryptWithAAD cr rand encKey userDK mlKemCt of
       Inl err \<Rightarrow> Inl Encrypt_failed
     | Inr aesCt \<Rightarrow> Inr (mlKemCt, aesCt))"

definition NewDecapsulationKey768 :: "byte list \<Rightarrow> byte list option" where
  "NewDecapsulationKey768 seed = (if length seed = 64 then Some seed else None)"

definition AuditorDecryptViewKey :: "crypto \<Rightarrow> byte list \<Rightarrow> byte list \<Rightarrow> byte list \<Rightarrow> audit_error + byte list" where
  "AuditorDecryptViewKey cr auditorDK mlKemCt aesCt = (case Decapsulate cr auditorDK mlKemCt of
       None \<Rightarrow> Inl Decapsulate_failed
     | Some ss \<Rightarrow>
         (let encKey = deriveAuditKey cr ss in
          case audit_aesGCMDecryptWithAAD cr encKey aesCt mlKemCt of
            Inl err \<Rightarrow> Inl (Decrypt_failed err)
          | Inr seed \<Rightarrow> (case NewDecapsulationKey768 seed of
              None \<Rightarrow> Inl Parse_key_failed
            | Some userDK \<Rightarrow> Inr userDK)))"

subsection \<open>Properties\<close>

text \<open>
  What the auditor relies on: AES-GCM rejects a ciphertext under associated data other than it was sealed with
  (stated for associated data of one length, as ML-KEM capsules are).
\<close>

definition aad_bound :: "crypto \<Rightarrow> bool" where
  "aad_bound cr \<longleftrightarrow> (\<forall>k k' n p a a'. length k = length k' \<longrightarrow> length a = length a' \<longrightarrow> a \<noteq> a' \<longrightarrow>
     Open cr k' n (Seal cr k n p a) a' = None)"

definition hkdf_exact :: "crypto \<Rightarrow> bool" where
  "hkdf_exact cr \<longleftrightarrow> (\<forall>s salt info n. length (hkdf cr s salt info n) = n)"

lemma FillBytes_nonneg: "0 \<le> v \<Longrightarrow> v < 256 ^ 32 \<Longrightarrow> \<exists>bs. FillBytes 32 v = Some bs \<and> length bs = 32 \<and> SetBytes bs = v"
  using FillBytes_SetBytes [of 32 v] by (auto simp: FillBytes_def)

lemma PrepareTagWithWindow_total:
  assumes "iden3_total H" and "0 \<le> pk" "pk < SNARK_SCALAR_FIELD" and "0 \<le> w"
  shows "\<exists>tags. PrepareTagWithWindow H cr (Some nonce) (Some cur) w pk ss k payload =
      Some (Inr (cur + 1, tags, nonce @ Seal cr k nonce payload [])) \<and> length tags = nat w"
proof -
  obtain ts where ts: "tag_window_loop H (cur + 1) pk ss [0..<nat w] = Some (Inr ts)"
    using tag_window_loop_total [OF assms(1-3)] by blast
  with tag_window_loop_nth [OF ts] assms(4) show ?thesis
    by (simp add: PrepareTagWithWindow_def DeriveTagWindow_def EncryptPayload_def)
qed

text \<open>
  A tagged payment reaches its recipient with its note. For a recipient key in the field and values of up to 256
  bits the sender's preparation succeeds; and whichever block of the window the entry lands in, the recipient's scan of that
  block returns it, and its ciphertext decrypts to the amount, token and salt of the payment, from which the
  recipient recomputes the output commitment.
\<close>

theorem tagged_payment_delivered:
  assumes "iden3_total H" and "aead_correct cr" and "length nonce = 12" and "0 \<le> windowSize"
    and "ch \<in> set channels" and "\<forall>c\<in>set channels. 0 \<le> PkSpend c \<and> PkSpend c < SNARK_SCALAR_FIELD"
    and "0 \<le> amount" "amount < 256 ^ 32" "0 \<le> tokenId" "tokenId < 256 ^ 32" "0 \<le> saltB" "saltB < 256 ^ 32"
  shows "\<exists>tags ctxt. PreparePaymentTag H cr (Some nonce) (Some cur) windowSize (PkSpend ch) (Channel_SharedSecret ch) amount tokenId saltB =
      Some (Inr (cur + 1, tags, ctxt)) \<and> length tags = nat windowSize \<and>
    DecryptPaymentNote cr (Channel_SharedSecret ch) ctxt = Inr \<lparr>pn_Amount = amount, pn_TokenId = tokenId, pn_Salt = saltB\<rparr> \<and>
    (\<forall>i<length tags. \<forall>who getEntries entries.
       getEntries (cur + 1 + word_of_nat i) = Some entries \<longrightarrow> \<lparr>Publisher = who, Tag = tags ! i, Ctxt = ctxt\<rparr> \<in> set entries \<longrightarrow>
       (\<exists>found. ScanBlock H getEntries (cur + 1 + word_of_nat i) channels = Some (Inr found) \<and>
          \<lparr>BlockNumber = cur + 1 + word_of_nat i, Entry = \<lparr>Publisher = who, Tag = tags ! i, Ctxt = ctxt\<rparr>,
            Scanned_SharedSecret = Channel_SharedSecret ch\<rparr> \<in> set found))"
proof -
  obtain a t s where b: "FillBytes 32 amount = Some a" "FillBytes 32 tokenId = Some t" "FillBytes 32 saltB = Some s"
      "length a = 32" "length t = 32" "length s = 32" "SetBytes a = amount" "SetBytes t = tokenId" "SetBytes s = saltB"
    using FillBytes_nonneg assms(7-12) by metis
  let ?k = "DeriveChannelKey cr (Channel_SharedSecret ch)"
  let ?ctxt = "nonce @ Seal cr ?k nonce (a @ t @ s) []"
  obtain tags where pre: "PrepareTagWithWindow H cr (Some nonce) (Some cur) windowSize (PkSpend ch) (Channel_SharedSecret ch) ?k (a @ t @ s) =
      Some (Inr (cur + 1, tags, ?ctxt))" and len: "length tags = nat windowSize"
    using PrepareTagWithWindow_total [OF assms(1) _ _ assms(4), of "PkSpend ch"] assms(5,6) by blast
  have "PreparePaymentTag H cr (Some nonce) (Some cur) windowSize (PkSpend ch) (Channel_SharedSecret ch) amount tokenId saltB =
      Some (Inr (cur + 1, tags, ?ctxt))" using pre b by (simp add: PreparePaymentTag_def)
  moreover have "DecryptPayload cr ?k ?ctxt = Inr (a @ t @ s)"
    by (rule DecryptPayload_EncryptPayload [OF assms(2,3)]) (simp add: EncryptPayload_def)
  then have "DecryptPaymentNote cr (Channel_SharedSecret ch) ?ctxt = Inr \<lparr>pn_Amount = amount, pn_TokenId = tokenId, pn_Salt = saltB\<rparr>"
    using b by (simp add: DecryptPaymentNote_def)
  moreover have "\<exists>found. ScanBlock H getEntries (cur + 1 + word_of_nat i) channels = Some (Inr found) \<and>
          \<lparr>BlockNumber = cur + 1 + word_of_nat i, Entry = \<lparr>Publisher = who, Tag = tags ! i, Ctxt = ?ctxt\<rparr>,
            Scanned_SharedSecret = Channel_SharedSecret ch\<rparr> \<in> set found"
    if "i < length tags" "getEntries (cur + 1 + word_of_nat i) = Some entries"
      "\<lparr>Publisher = who, Tag = tags ! i, Ctxt = ?ctxt\<rparr> \<in> set entries" for i who getEntries entries
    using tag_window_scan [where getEntries = getEntries, OF assms(1-3) pre that assms(5,6)] by blast
  ultimately show ?thesis using len by blast
qed

theorem tagged_payment_delivered_witness:
  "iden3_total toy_hash \<and> (\<exists>tags ctxt. PreparePaymentTag toy_hash toy_crypto (Some (replicate 12 0)) (Some 9) 3 5 [7] 40 1 77 =
      Some (Inr (10, tags, ctxt)) \<and> length tags = 3 \<and>
    DecryptPaymentNote toy_crypto [7] ctxt = Inr \<lparr>pn_Amount = 40, pn_TokenId = 1, pn_Salt = 77\<rparr>)"
  using tagged_payment_delivered [of toy_hash toy_crypto "replicate 12 0" 3 "\<lparr>Channel_SharedSecret = [7], PkSpend = 5\<rparr>"
      "[\<lparr>Channel_SharedSecret = [7], PkSpend = 5\<rparr>]" 40 1 77 9] toy_laws(1) toy_crypto_laws(2)
  by (auto simp: SNARK_SCALAR_FIELD_def)

text \<open>A dummy tag decrypts under its channel but is never read as a payment: its marker has 15 bytes.\<close>

theorem dummy_is_no_payment:
  assumes "aead_correct cr" and "length nonce = 12"
    and "PrepareDummyTag H cr (Some nonce) b pk ss = Some (Inr (tag, ctxt))"
  shows "DecryptPaymentNote cr ss ctxt = Inl (Note_length 15)"
proof -
  obtain r where r: "DeriveTag H b pk ss = Some r" using assms(3) by (auto simp: PrepareDummyTag_def bind_eq_Some_conv)
  have "EncryptPayload cr (Some nonce) (DeriveChannelKey cr ss) (ascii dummyMsgMarker) = Inr ctxt"
    using assms(3) r by (cases r) (simp_all add: PrepareDummyTag_def EncryptPayload_def)
  from DecryptPayload_EncryptPayload [OF assms(1,2) this] show ?thesis
    by (simp add: DecryptPaymentNote_def ascii_def dummyMsgMarker_def)
qed

text \<open>
  The auditor recovers exactly the view key that was encrypted for it, and a capsule swapped for another is
  refused: no other capsule of that length decrypts the ciphertext, whatever shared secret it decapsulates to.
\<close>

theorem auditor_recovers_view_key:
  assumes "kem_correct cr (EncapsKey kp) (DecapsKey kp)" and "aead_correct cr" and "aad_bound cr" and "hkdf_exact cr"
    and "length nonce = 12" and "length userDK = 64"
  shows "\<exists>mlKemCt aesCt. EncryptViewKeyForAuditor cr coins (Some nonce) (EncapsKey kp) userDK = Inr (mlKemCt, aesCt) \<and>
    AuditorDecryptViewKey cr (DecapsKey kp) mlKemCt aesCt = Inr userDK \<and>
    (\<forall>c dk. length c = length mlKemCt \<longrightarrow> c \<noteq> mlKemCt \<longrightarrow>
       AuditorDecryptViewKey cr dk c aesCt \<in> {Inl Decapsulate_failed, Inl (Decrypt_failed Auth_failed)})"
proof -
  obtain ss ct where e: "Encapsulate cr (EncapsKey kp) coins = (ss, ct)" by force
  let ?aes = "nonce @ Seal cr (deriveAuditKey cr ss) nonce userDK ct"
  have k: "ValidKey cr (EncapsKey kp)" "Decapsulate cr (DecapsKey kp) ct = Some ss"
    using assms(1) e by (auto simp: kem_correct_def dest: spec [of _ coins])
  have enc: "EncryptViewKeyForAuditor cr coins (Some nonce) (EncapsKey kp) userDK = Inr (ct, ?aes)"
    using k e by (simp add: EncryptViewKeyForAuditor_def audit_aesGCMEncryptWithAAD_def)
  have dec: "AuditorDecryptViewKey cr (DecapsKey kp) ct ?aes = Inr userDK"
    using k assms(2,5,6) by (simp add: AuditorDecryptViewKey_def audit_aesGCMDecryptWithAAD_def aead_correct_def NewDecapsulationKey768_def)
  have bad: "AuditorDecryptViewKey cr dk c ?aes \<in> {Inl Decapsulate_failed, Inl (Decrypt_failed Auth_failed)}"
    if "length c = length ct" "c \<noteq> ct" for c dk
  proof (cases "Decapsulate cr dk c")
    case (Some ss')
    have "Open cr (deriveAuditKey cr ss') nonce (Seal cr (deriveAuditKey cr ss) nonce userDK ct) c = None"
      using assms(3,4) that unfolding aad_bound_def hkdf_exact_def by (metis deriveAuditKey_def)
    then show ?thesis using Some assms(5) by (simp add: AuditorDecryptViewKey_def audit_aesGCMDecryptWithAAD_def)
  qed (simp add: AuditorDecryptViewKey_def)
  with enc dec show ?thesis by blast
qed

text \<open>A cryptography for the example: the ciphertext carries the key and the associated data behind the text.\<close>

definition audit_crypto :: crypto where
  "audit_crypto = toy_crypto\<lparr>hkdf := (\<lambda>s salt info n. take n (s @ replicate n 0)), Seal := (\<lambda>k n p a. p @ k @ a),
     Open := (\<lambda>k n c a. if drop (length c - length (k @ a)) c = k @ a then Some (take (length c - length (k @ a)) c) else None)\<rparr>"

lemma audit_crypto_laws:
  "kem_correct audit_crypto ek dk" "aead_correct audit_crypto" "aad_bound audit_crypto" "hkdf_exact audit_crypto"
  by (auto simp: kem_correct_def aead_correct_def aad_bound_def hkdf_exact_def audit_crypto_def toy_crypto_def min_def)

theorem auditor_recovers_view_key_witness:
  "\<exists>mlKemCt aesCt. EncryptViewKeyForAuditor audit_crypto [5] (Some (replicate 12 0)) [1] (replicate 64 9) = Inr (mlKemCt, aesCt) \<and>
     AuditorDecryptViewKey audit_crypto [2] mlKemCt aesCt = Inr (replicate 64 9)"
  using auditor_recovers_view_key [OF audit_crypto_laws, where kp = "\<lparr>DecapsKey = [2], EncapsKey = [1]\<rparr>" and nonce = "replicate 12 0" and userDK = "replicate 64 9" and coins = "[5]"]
  by auto

end
