(* ===== verification/Client_JoinSplit.thy ===== *)
theory Client_JoinSplit
  imports Client_Payment Erc20_JoinSplit
begin

section \<open>Join-split and withdrawal requests\<close>

text \<open>
  The ERC20 requests of \<^verbatim>\<open>enygma_dvp/src/core/prover_erc.go\<close>: \<^verbatim>\<open>Erc20JoinSplitProof\<close>, its variant with given salts and
  \<^verbatim>\<open>Erc20WithdrawProof\<close>. The proving server is the argument \<open>post\<close>, which answers an endpoint and a request with the
  proof's numbers or fails; randomness is an argument, per output. \<^term>\<open>None\<close> is an error of the client or a panic. The
  fields of a request are named as those of the circuit (\<^theory_text>\<open>Erc20_JoinSplit\<close>), which the theorems fill in from them.
\<close>

subsection \<open>Requests and results\<close>

record JoinSplitRequest =
  js_StMessage :: string
  js_StTreeNumber :: "string list"
  js_StMerkleRoots :: "string list"
  js_StNullifiers :: "string list"
  js_StCommitmentOut :: "string list"
  js_WtPrivateKeysIn :: "string list"
  js_WtValuesIn :: "string list"
  js_WtSaltsIn :: "string list"
  js_WtPathElements :: "string list list"
  js_WtPathIndices :: "string list"
  js_WtTokenId :: string
  js_WtSpendPublicKeysOut :: "string list"
  js_WtValuesOut :: "string list"
  js_WtSaltsOut :: "string list"

record AuditEncryptionData =
  AuthKeyX :: int
  AuthKeyY :: int
  audit_Nonce :: int
  audit_Encrypted :: "int list"
  audit_RealLength :: nat

record ProofResult =
  pr_Proof :: "string list"
  pr_Statement :: "int list"
  pr_NumberOfInputs :: nat
  pr_NumberOfOutputs :: nat
  pr_CipherText :: "byte list list"
  pr_EncTxData :: "byte list list"
  pr_SaltsOut :: "int list"
  pr_AuditData :: "AuditEncryptionData option"

type_synonym 'r prover = "string \<Rightarrow> 'r \<Rightarrow> string list option"

text \<open>\<^verbatim>\<open>ProofResult.ContractStatement\<close>: the triples of the statement regrouped for the contract.\<close>

definition ProofResult_ContractStatement :: "ProofResult \<Rightarrow> int list option" where
  "ProofResult_ContractStatement r = contract_layout (pr_NumberOfInputs r) (pr_NumberOfOutputs r) (pr_Statement r)"

subsection \<open>The client\<close>

definition joinsplit_endpoint :: "bool \<Rightarrow> string" where
  "joinsplit_endpoint use10_2 = (if use10_2 then ''/proof/joinSplitERC20_10_2'' else ''/proof/joinSplitERC20'')"

text \<open>An input: its commitment is computed (only its error matters), then its path and its nullifier.\<close>

definition checked_input ::
  "client_hash \<Rightarrow> nat \<Rightarrow> int \<Rightarrow> int list \<Rightarrow> int list \<Rightarrow> KeyPair list \<Rightarrow> int list \<Rightarrow> MerkleProof_data option list \<Rightarrow> nat \<Rightarrow>
   (int \<times> int \<times> int list) option" where
  "checked_input H merkleDepth tokenId treeNumbers valuesIn keysIn saltsIn merkleProofs i = do {
     key \<leftarrow> idx keysIn i;
     salt \<leftarrow> idx saltsIn i;
     v \<leftarrow> idx valuesIn i;
     _ \<leftarrow> client_Erc20CommitmentV2 H (KeyPair.PublicKey key) salt v tokenId;
     tree_input H merkleDepth treeNumbers valuesIn keysIn merkleProofs i }"

text \<open>An output sealed for its recipient: salt, commitment, capsule and payload.\<close>

definition sealed_output ::
  "('a) crypto_scheme \<Rightarrow> client_hash \<Rightarrow> byte list \<Rightarrow> byte list option \<Rightarrow> byte list \<Rightarrow> int \<Rightarrow> int \<Rightarrow> int \<Rightarrow>
   (int \<times> int \<times> byte list \<times> byte list) option" where
  "sealed_output cr H coins nonce viewEncapKey spendPk v tokenId = (
     if \<not> ValidKey cr viewEncapKey then None
     else do {
       let (ss, ctI) = Encapsulate cr viewEncapKey coins;
       let saltBField = SaltBToField (DerivePaymentSalt cr ss);
       ctII \<leftarrow> sealed (EncryptNotePayload cr nonce (DerivePaymentKey cr ss) tokenId v);
       cmt \<leftarrow> client_Erc20CommitmentV2 H spendPk saltBField v tokenId;
       Some (saltBField, cmt, ctI, ctII) })"

text \<open>What the three functions do once the inputs and outputs are known: roots, request, proof and statement.\<close>

definition submit_joinsplit where
  "submit_joinsplit post use10_2 message treeNumbers valuesIn keysIn saltsIn merkleDepth merkleProofs tokenId ins
     spendPks valuesOut saltsOut cmts cts encs = do {
     let nfs = map fst ins;
     let elements = concat (map (snd \<circ> snd) ins);
     roots \<leftarrow> payment_roots valuesIn merkleProofs;
     prf \<leftarrow> post (joinsplit_endpoint use10_2)
       \<lparr>js_StMessage = bigInt_String message, js_StTreeNumber = bigIntSliceToStrings treeNumbers,
         js_StMerkleRoots = bigIntSliceToStrings roots, js_StNullifiers = bigIntSliceToStrings nfs,
         js_StCommitmentOut = bigIntSliceToStrings cmts, js_WtPrivateKeysIn = bigIntSliceToStrings (map PrivateKey keysIn),
         js_WtValuesIn = bigIntSliceToStrings valuesIn, js_WtSaltsIn = bigIntSliceToStrings saltsIn,
         js_WtPathElements = map bigIntSliceToStrings (chunkBigIntSlice elements merkleDepth),
         js_WtPathIndices = bigIntSliceToStrings (map (fst \<circ> snd) ins), js_WtTokenId = bigInt_String tokenId,
         js_WtSpendPublicKeysOut = bigIntSliceToStrings spendPks, js_WtValuesOut = bigIntSliceToStrings valuesOut,
         js_WtSaltsOut = bigIntSliceToStrings saltsOut\<rparr>;
     statement \<leftarrow> payment_statement message treeNumbers roots nfs cmts;
     Some \<lparr>pr_Proof = prf, pr_Statement = statement, pr_NumberOfInputs = length valuesIn, pr_NumberOfOutputs = length valuesOut,
       pr_CipherText = cts, pr_EncTxData = encs, pr_SaltsOut = [], pr_AuditData = None\<rparr> }"

definition Erc20JoinSplitProof where
  "Erc20JoinSplitProof post cr H coins nonces message valuesIn keysIn saltsIn valuesOut spendPks viewEncapKeys merkleDepth merkleProofs
     treeNumbers tokenId use10_2 = do {
     ins \<leftarrow> mapM (checked_input H merkleDepth tokenId treeNumbers valuesIn keysIn saltsIn merkleProofs) [0..<length valuesIn];
     outs \<leftarrow> mapM (\<lambda>i. do {
         ek \<leftarrow> idx viewEncapKeys i; v \<leftarrow> idx valuesOut i; pk \<leftarrow> idx spendPks i;
         sealed_output cr H (coins i) (nonces i) ek pk v tokenId }) [0..<length valuesOut];
     submit_joinsplit post use10_2 message treeNumbers valuesIn keysIn saltsIn merkleDepth merkleProofs tokenId ins spendPks valuesOut
       (map fst outs) (map (fst \<circ> snd) outs) (map (fst \<circ> snd \<circ> snd) outs) (map (snd \<circ> snd \<circ> snd) outs) }"

definition Erc20JoinSplitProofFromSalts where
  "Erc20JoinSplitProofFromSalts post H message valuesIn keysIn saltsIn valuesOut spendPks saltsOut cts encs merkleDepth
     merkleProofs treeNumbers tokenId use10_2 = do {
     ins \<leftarrow> mapM (tree_input H merkleDepth treeNumbers valuesIn keysIn merkleProofs) [0..<length valuesIn];
     cmts \<leftarrow> mapM (\<lambda>i. do {
         pk \<leftarrow> idx spendPks i; salt \<leftarrow> idx saltsOut i; v \<leftarrow> idx valuesOut i;
         client_Erc20CommitmentV2 H pk salt v tokenId }) [0..<length valuesOut];
     submit_joinsplit post use10_2 message treeNumbers valuesIn keysIn saltsIn merkleDepth merkleProofs tokenId ins spendPks valuesOut
       saltsOut cmts cts encs }"

definition Erc20WithdrawProof where
  "Erc20WithdrawProof post H message valuesIn keysIn saltsIn withdrawAmount recipient dummySpendPk merkleDepth merkleProofs treeNumbers
     tokenId use10_2 = do {
     ins \<leftarrow> mapM (checked_input H merkleDepth tokenId treeNumbers valuesIn keysIn saltsIn merkleProofs) [0..<length valuesIn];
     withdrawCommitment \<leftarrow> client_Erc20CommitmentV2 H recipient 0 withdrawAmount tokenId;
     dummyCommitment \<leftarrow> client_Erc20CommitmentV2 H dummySpendPk 0 0 tokenId;
     submit_joinsplit post use10_2 message treeNumbers valuesIn keysIn saltsIn merkleDepth merkleProofs tokenId ins
       [recipient, dummySpendPk] [withdrawAmount, 0] [0, 0] [withdrawCommitment, dummyCommitment] [] [] }"

subsection \<open>Notes to spend and notes to create\<close>

record spend_note =
  sn_key :: KeyPair
  sn_salt :: int
  sn_value :: int
  sn_tree :: int
  sn_proof :: MerkleProof_data

record out_note =
  on_spendPk :: int
  on_viewKey :: "byte list"
  on_value :: int

abbreviation sn_nullifier_input :: "spend_note \<Rightarrow> int list" where
  "sn_nullifier_input n \<equiv> [PrivateKey (sn_key n), sn_tree n * 256 + Indices (sn_proof n)]"

text \<open>A note that the client can spend: owned, in its tree, of a value within the range.\<close>

definition spendable :: "client_hash \<Rightarrow> int \<Rightarrow> int \<Rightarrow> spend_note \<Rightarrow> bool" where
  "spendable H tokenId rng n \<longleftrightarrow> proves_note H 8 (sn_key n) (sn_salt n) (sn_value n) tokenId (sn_proof n) \<and>
     0 < sn_value n \<and> sn_value n < rng \<and> 0 \<le> sn_tree n \<and> sn_tree n < 2 ^ 240 \<and> H (sn_nullifier_input n) \<noteq> None"

text \<open>The circuit's fields, filled in from the request's fields of the same names.\<close>

definition joinsplit_assignment :: "nat \<Rightarrow> nat \<Rightarrow> fr \<Rightarrow> JoinSplitRequest \<Rightarrow> Erc20Circuit option" where
  "joinsplit_assignment inputs outputs rng req = do {
     message \<leftarrow> var (js_StMessage req); token \<leftarrow> var (js_WtTokenId req);
     trees \<leftarrow> vars inputs (js_StTreeNumber req); roots \<leftarrow> vars inputs (js_StMerkleRoots req);
     nfs \<leftarrow> vars inputs (js_StNullifiers req); cmts \<leftarrow> vars outputs (js_StCommitmentOut req);
     keys \<leftarrow> vars inputs (js_WtPrivateKeysIn req); valuesIn \<leftarrow> vars inputs (js_WtValuesIn req);
     saltsIn \<leftarrow> vars inputs (js_WtSaltsIn req);
     paths \<leftarrow> mapM (\<lambda>i. do { row \<leftarrow> idx (js_WtPathElements req) i; vars 8 row }) [0..<inputs];
     indices \<leftarrow> vars inputs (js_WtPathIndices req); pks \<leftarrow> vars outputs (js_WtSpendPublicKeysOut req);
     valuesOut \<leftarrow> vars outputs (js_WtValuesOut req); saltsOut \<leftarrow> vars outputs (js_WtSaltsOut req);
     Some (Erc20Circuit.make (Erc20CircuitConfig.make inputs outputs 8 rng) message trees roots nfs cmts keys valuesIn saltsIn paths
       indices token pks valuesOut saltsOut) }"

text \<open>A proving server for the circuit: it answers exactly the requests whose assignment satisfies it.\<close>

definition joinsplit_server :: "frontend_API \<Rightarrow> hasher \<Rightarrow> nat \<Rightarrow> nat \<Rightarrow> fr \<Rightarrow> JoinSplitRequest prover \<Rightarrow> bool" where
  "joinsplit_server api pos inputs outputs rng post \<longleftrightarrow> (\<forall>use10_2 req. post (joinsplit_endpoint use10_2) req \<noteq> None \<longleftrightarrow>
     (\<exists>c. joinsplit_assignment inputs outputs rng req = Some c \<and> Erc20Circuit_Define api pos c = Some ()))"

subsection \<open>Lemmas\<close>

lemma chunk_concat: "0 < d \<Longrightarrow> \<forall>xs\<in>set xss. length xs = d \<Longrightarrow> chunkBigIntSlice (concat xss) d = xss"
  by (induction xss) (auto simp: chunkBigIntSlice.simps)

lemma mapM_upt_map: "(\<And>i. i < length xs \<Longrightarrow> f i = Some (g (xs ! i))) \<Longrightarrow> n = length xs \<Longrightarrow> mapM f [0..<n] = Some (map g xs)"
  by (simp add: mapM_Some_iff list_all2_conv_all_nth)

lemma spendable_input:
  assumes "\<forall>n\<in>set ns. spendable H t rng n" and "i < length ns" and "H (sn_nullifier_input (ns ! i)) = Some nf"
  shows "tree_input H 8 (map sn_tree ns) (map sn_value ns) (map sn_key ns) (map (\<lambda>n. Some (sn_proof n)) ns) i =
      Some (nf, Indices (sn_proof (ns ! i)), Elements (sn_proof (ns ! i)))"
    "checked_input H 8 t (map sn_tree ns) (map sn_value ns) (map sn_key ns) (map sn_salt ns) (map (\<lambda>n. Some (sn_proof n)) ns) i =
      Some (nf, Indices (sn_proof (ns ! i)), Elements (sn_proof (ns ! i)))"
proof -
  have "spendable H t rng (ns ! i)" using assms(1,2) by simp
  then have v: "sn_value (ns ! i) \<noteq> 0" and cm: "H [PublicKey (sn_key (ns ! i)), sn_salt (ns ! i), sn_value (ns ! i), t] \<noteq> None"
    by (auto simp: spendable_def proves_note_def split: option.splits)
  show t: "tree_input H 8 (map sn_tree ns) (map sn_value ns) (map sn_key ns) (map (\<lambda>n. Some (sn_proof n)) ns) i =
      Some (nf, Indices (sn_proof (ns ! i)), Elements (sn_proof (ns ! i)))"
    using assms(2,3) v by (simp add: tree_input_def GetNullifierWithTree_def idx_nth)
  show "checked_input H 8 t (map sn_tree ns) (map sn_value ns) (map sn_key ns) (map sn_salt ns) (map (\<lambda>n. Some (sn_proof n)) ns) i =
      Some (nf, Indices (sn_proof (ns ! i)), Elements (sn_proof (ns ! i)))"
    using assms(2) t cm by (auto simp: checked_input_def client_Erc20CommitmentV2_def idx_nth)
qed

text \<open>The request that is posted, as an assignment; the outputs are lists of equal length.\<close>

definition joinsplit_circuit :: "fr \<Rightarrow> int \<Rightarrow> int \<Rightarrow> spend_note list \<Rightarrow> int list \<Rightarrow> int list \<Rightarrow> int list \<Rightarrow> int list \<Rightarrow> int list \<Rightarrow> Erc20Circuit" where
  "joinsplit_circuit rng message t ns nfs pks valuesOut saltsOut cmts =
     Erc20Circuit.make (Erc20CircuitConfig.make (length ns) (length valuesOut) 8 rng) message (map sn_tree ns) (map (Root \<circ> sn_proof) ns) nfs cmts
       (map PrivateKey (map sn_key ns)) (map sn_value ns) (map sn_salt ns) (map (Elements \<circ> sn_proof) ns) (map (Indices \<circ> sn_proof) ns) t
       pks valuesOut saltsOut"

lemma roots_spendable:
  assumes "\<forall>n\<in>set ns. spendable H t rng n"
  shows "payment_roots (map sn_value ns) (map (\<lambda>n. Some (sn_proof n)) ns) = Some (map (Root \<circ> sn_proof) ns)"
  unfolding payment_roots_def
proof (rule mapM_upt_map)
  fix i assume i: "i < length (ns)"
  with assms have "spendable H t rng (ns ! i)" by simp
  then have "sn_value (ns ! i) \<noteq> 0" by (simp add: spendable_def)
  with i show "(do { v \<leftarrow> idx (map sn_value ns) i;
      if v = 0 then Some 0 else do { mp \<leftarrow> idx (map (\<lambda>n. Some (sn_proof n)) ns) i; p \<leftarrow> mp; Some (Root p) } }) = Some ((Root \<circ> sn_proof) (ns ! i))"
    by (simp add: idx_nth)
qed simp

lemma submit_joinsplit_posts:
  assumes ns: "\<forall>n\<in>set ns. spendable H t rng n" and nfs: "length nfs = length ns"
    and outs: "length pks = length valuesOut" "length saltsOut = length valuesOut" "length cmts = length valuesOut"
    and server: "joinsplit_server api pos (length ns) (length valuesOut) rng post"
    and ins: "ins = map (\<lambda>(nf, n). (nf, Indices (sn_proof n), Elements (sn_proof n))) (zip nfs ns)"
    and sub: "sub = submit_joinsplit post use10_2 message (map sn_tree ns) (map sn_value ns) (map sn_key ns) (map sn_salt ns) 8
      (map (\<lambda>n. Some (sn_proof n)) ns) t ins pks valuesOut saltsOut cmts cts encs"
  shows "sub \<noteq> None \<longleftrightarrow> Erc20Circuit_Define api pos (joinsplit_circuit rng message t ns nfs pks valuesOut saltsOut cmts) = Some ()"
    and "sub = Some r \<Longrightarrow>
      pr_Statement r = message # concat (map (\<lambda>i. [sn_tree (ns ! i), Root (sn_proof (ns ! i)), nfs ! i]) [0..<length ns]) @ cmts \<and>
      pr_NumberOfInputs r = length ns \<and> pr_NumberOfOutputs r = length valuesOut \<and> pr_CipherText r = cts \<and> pr_EncTxData r = encs"
proof -
  have elems: "\<forall>xs\<in>set (map (Elements \<circ> sn_proof) ns). length xs = 8" using ns by (auto simp: spendable_def proves_note_def)
  have parts: "map fst ins = nfs" "map (fst \<circ> snd) ins = map (Indices \<circ> sn_proof) ns" "map (snd \<circ> snd) ins = map (Elements \<circ> sn_proof) ns"
    using nfs by (auto simp: ins intro!: nth_equalityI)
  have ch: "chunkBigIntSlice (concat (map (Elements \<circ> sn_proof) ns)) 8 = map (Elements \<circ> sn_proof) ns"
    by (rule chunk_concat [OF _ elems]) simp
  let ?req = "\<lparr>js_StMessage = bigInt_String message, js_StTreeNumber = bigIntSliceToStrings (map sn_tree ns),
         js_StMerkleRoots = bigIntSliceToStrings (map (Root \<circ> sn_proof) ns), js_StNullifiers = bigIntSliceToStrings nfs,
         js_StCommitmentOut = bigIntSliceToStrings cmts, js_WtPrivateKeysIn = bigIntSliceToStrings (map PrivateKey (map sn_key ns)),
         js_WtValuesIn = bigIntSliceToStrings (map sn_value ns), js_WtSaltsIn = bigIntSliceToStrings (map sn_salt ns),
         js_WtPathElements = map bigIntSliceToStrings (map (Elements \<circ> sn_proof) ns),
         js_WtPathIndices = bigIntSliceToStrings (map (Indices \<circ> sn_proof) ns), js_WtTokenId = bigInt_String t,
         js_WtSpendPublicKeysOut = bigIntSliceToStrings pks, js_WtValuesOut = bigIntSliceToStrings valuesOut,
         js_WtSaltsOut = bigIntSliceToStrings saltsOut\<rparr>"
  let ?st = "message # concat (map (\<lambda>i. [sn_tree (ns ! i), Root (sn_proof (ns ! i)), nfs ! i]) [0..<length ns]) @ cmts"
  have rows: "mapM (\<lambda>i. do { row \<leftarrow> idx (map bigIntSliceToStrings (map (Elements \<circ> sn_proof) ns)) i; vars 8 row }) [0..<length ns] =
      Some (map (Elements \<circ> sn_proof) ns)"
    by (rule mapM_upt_map) (use elems in \<open>auto simp: idx_nth bigIntSliceToStrings_def vars_String\<close>)
  have a: "joinsplit_assignment (length ns) (length valuesOut) rng ?req = Some (joinsplit_circuit rng message t ns nfs pks valuesOut saltsOut cmts)"
    using nfs outs rows unfolding bigIntSliceToStrings_def
    by (simp add: joinsplit_assignment_def joinsplit_circuit_def vars_String [unfolded map_map] vars_String del: map_map)
  have st: "payment_statement message (map sn_tree ns) (map (Root \<circ> sn_proof) ns) nfs cmts = Some ?st"
  proof -
    have "mapM (\<lambda>i. do { tr \<leftarrow> idx (map sn_tree ns) i; r \<leftarrow> idx (map (Root \<circ> sn_proof) ns) i; n \<leftarrow> idx nfs i; Some [tr, r, n] }) [0..<length nfs] =
        Some (map (\<lambda>i. [sn_tree (ns ! i), Root (sn_proof (ns ! i)), nfs ! i]) [0..<length ns])"
      using nfs by (simp add: mapM_Some_iff list_all2_conv_all_nth idx_nth)
    then show ?thesis by (simp add: payment_statement_def)
  qed
  have eq: "sub = map_option (\<lambda>prf. \<lparr>pr_Proof = prf, pr_Statement = ?st, pr_NumberOfInputs = length ns, pr_NumberOfOutputs = length valuesOut,
      pr_CipherText = cts, pr_EncTxData = encs, pr_SaltsOut = [], pr_AuditData = None\<rparr>) (post (joinsplit_endpoint use10_2) ?req)"
    unfolding sub submit_joinsplit_def Let_def parts roots_spendable [OF ns] ch
    by (simp add: st split: Option.bind_splits)
  have "post (joinsplit_endpoint use10_2) ?req \<noteq> None \<longleftrightarrow>
      Erc20Circuit_Define api pos (joinsplit_circuit rng message t ns nfs pks valuesOut saltsOut cmts) = Some ()"
    using server [unfolded joinsplit_server_def, rule_format, of use10_2 ?req] unfolding a by (simp del: map_map)
  with eq show "sub \<noteq> None \<longleftrightarrow> Erc20Circuit_Define api pos (joinsplit_circuit rng message t ns nfs pks valuesOut saltsOut cmts) = Some ()"
    by (simp del: map_map)
  show "sub = Some r \<Longrightarrow> pr_Statement r = ?st \<and> pr_NumberOfInputs r = length ns \<and> pr_NumberOfOutputs r = length valuesOut \<and>
      pr_CipherText r = cts \<and> pr_EncTxData r = encs"
    using eq by (auto simp del: map_map)
qed

text \<open>What the circuit says of that assignment: the nullifiers that the client hashed with the tree number have to be the circuit's.\<close>

lemma joinsplit_circuit_accepted:
  assumes "gnark api" "poseidon_agrees H pos" and ns: "\<forall>n\<in>set ns. spendable H t rng n"
    and nfs: "length nfs = length ns" "\<forall>i<length ns. H (sn_nullifier_input (ns ! i)) = Some (nfs ! i)"
    and outs: "length pks = length valuesOut" "length saltsOut = length valuesOut" "length cmts = length valuesOut"
      "\<forall>j<length valuesOut. 0 \<le> valuesOut ! j \<and> valuesOut ! j < rng \<and> H [pks ! j, saltsOut ! j, valuesOut ! j, t] = Some (cmts ! j)"
    and rng: "0 < rng" "rng \<le> SNARK_SCALAR_FIELD - 1"
  shows "Erc20Circuit_Define api pos (joinsplit_circuit rng message t ns nfs pks valuesOut saltsOut cmts) = Some () \<longleftrightarrow>
    fv (sum_list valuesOut) = fv (sum_list (map sn_value ns)) \<and>
    (\<forall>n\<in>set ns. sn_tree n = 0 \<or> collides pos [PrivateKey (sn_key n), Indices (sn_proof n)] (sn_nullifier_input n))"
proof -
  let ?c = "joinsplit_circuit rng message t ns nfs pks valuesOut saltsOut cmts"
  have r: "fv rng = rng" using rng by (intro fv_id) auto
  have inp: "erc20_input_ok pos ?c i \<longleftrightarrow> sn_tree (ns ! i) = 0 \<or> collides pos [PrivateKey (sn_key (ns ! i)), Indices (sn_proof (ns ! i))] (sn_nullifier_input (ns ! i))"
    if i: "i < length ns" for i
  proof -
    let ?n = "ns ! i"
    have sp: "spendable H t rng ?n" using ns i by simp
    then have pn: "proves_note H 8 (sn_key ?n) (sn_salt ?n) (sn_value ?n) t (sn_proof ?n)" and v: "0 < sn_value ?n" "sn_value ?n < rng"
      and tr: "0 \<le> sn_tree ?n" "sn_tree ?n < 2 ^ 240" by (auto simp: spendable_def)
    from pn obtain cm where cm: "H [PublicKey (sn_key ?n), sn_salt ?n, sn_value ?n, t] = Some cm"
        "merkle_path H cm (Indices (sn_proof ?n)) (Elements (sn_proof ?n)) = Some (Root (sn_proof ?n))"
      and pk: "H [PrivateKey (sn_key ?n)] = Some (PublicKey (sn_key ?n))" and len: "length (Elements (sn_proof ?n)) = 8"
      by (auto simp: proves_note_def split: option.splits)
    note hp = pk [THEN poseidon_agreesD [OF assms(2)]] cm(1) [THEN poseidon_agreesD [OF assms(2)]] merkle_path_agrees [OF assms(2) cm(2)]
    have nf: "pos (sn_nullifier_input ?n) = Some (nfs ! i)" using nfs(2) i by (intro poseidon_agreesD [OF assms(2)]) simp_all
    note ix = index_canonical [OF pn]
    have g: "fv (sn_tree ?n * 256 + Indices (sn_proof ?n)) = sn_tree ?n * 256 + Indices (sn_proof ?n)"
      using tr ix(2,3) by (intro fv_id) (simp_all add: SNARK_SCALAR_FIELD_def)
    have vv: "fv (sn_value ?n) = sn_value ?n" using v rng by (intro fv_id) auto
    have "erc20_input_ok pos ?c i \<longleftrightarrow> hashes_to pos [PrivateKey (sn_key ?n), Indices (sn_proof ?n)] (nfs ! i)"
      using i nfs(1) hp ix len v vv r
      by (simp add: erc20_input_ok_def spends_eval hashes_to_def joinsplit_circuit_def Erc20Circuit.make_def Erc20CircuitConfig.make_def split: option.splits)
    also have "\<dots> \<longleftrightarrow> sn_tree ?n = 0 \<or> collides pos [PrivateKey (sn_key ?n), Indices (sn_proof ?n)] (sn_nullifier_input ?n)"
      using nf g ix(1) by (cases "sn_tree ?n = 0") (auto simp: collides_def hashes_to_iff)
    finally show ?thesis .
  qed
  have out: "erc20_output_ok pos ?c j" if "j < length valuesOut" for j
  proof -
    have v: "0 \<le> valuesOut ! j" "valuesOut ! j < rng" using outs(4) that by blast+
    have h: "pos [pks ! j, saltsOut ! j, valuesOut ! j, t] = Some (cmts ! j)"
      using outs(4) that by (intro poseidon_agreesD [OF assms(2)]) simp_all
    have "fv (valuesOut ! j) = valuesOut ! j" using v rng by (intro fv_id) auto
    then show ?thesis
      using that outs(1-3) v h r
      by (simp add: erc20_output_ok_def hashes_to_def joinsplit_circuit_def Erc20Circuit.make_def Erc20CircuitConfig.make_def)
  qed
  have "Erc20Circuit_Define api pos ?c = Some () \<longleftrightarrow> erc20_spec pos ?c"
    by (rule gnark.Erc20Circuit_Define_iff [OF assms(1)]) (simp add: joinsplit_circuit_def Erc20Circuit.make_def Erc20CircuitConfig.make_def)
  also have "\<dots> \<longleftrightarrow> fv (sum_list valuesOut) = fv (sum_list (map sn_value ns)) \<and> (\<forall>i<length ns. erc20_input_ok pos ?c i)"
    using out by (simp add: erc20_spec_def joinsplit_circuit_def Erc20Circuit.make_def Erc20CircuitConfig.make_def sum_list_sum_nth atLeast0LessThan conj_commute)
  also have "\<dots> \<longleftrightarrow> fv (sum_list valuesOut) = fv (sum_list (map sn_value ns)) \<and> (\<forall>n\<in>set ns. sn_tree n = 0 \<or> collides pos [PrivateKey (sn_key n), Indices (sn_proof n)] (sn_nullifier_input n))"
    using inp by (auto simp: all_set_conv_all_nth)
  finally show ?thesis .
qed

text \<open>A request for notes to spend and notes to create, and what is computed for it before it is posted.\<close>

definition joinsplit_request where
  "joinsplit_request post cr H coins nonces message ns os t use10_2 =
     Erc20JoinSplitProof post cr H coins nonces message (map sn_value ns) (map sn_key ns) (map sn_salt ns) (map on_value os)
       (map on_spendPk os) (map on_viewKey os) 8 (map (\<lambda>n. Some (sn_proof n)) ns) (map sn_tree ns) t use10_2"

definition sealed_outputs where
  "sealed_outputs cr H coins nonces os t =
     mapM (\<lambda>j. sealed_output cr H (coins j) (nonces j) (on_viewKey (os ! j)) (on_spendPk (os ! j)) (on_value (os ! j)) t) [0..<length os]"

lemma sealed_output_Some:
  assumes "sealed_output cr H coins nonce ek pk v t = Some (salt, cmt, ctI, ctII)"
  obtains ss where "ValidKey cr ek" "Encapsulate cr ek coins = (ss, ctI)" "salt = SaltBToField (DerivePaymentSalt cr ss)"
    "EncryptNotePayload cr nonce (DerivePaymentKey cr ss) t v = Some (Inr ctII)" "H [pk, salt, v, t] = Some cmt"
proof -
  obtain ss ct where e: "Encapsulate cr ek coins = (ss, ct)" by force
  show thesis
    by (rule that [of ss]) (use assms e in \<open>auto simp: sealed_output_def client_Erc20CommitmentV2_def bind_eq_Some_conv sealed_Some Let_def split: if_splits\<close>)
qed

lemma checked_inputs:
  assumes ns: "\<forall>n\<in>set ns. spendable H t rng n"
  shows "mapM (checked_input H 8 t (map sn_tree ns) (map sn_value ns) (map sn_key ns) (map sn_salt ns) (map (\<lambda>n. Some (sn_proof n)) ns))
      [0..<length (map sn_value ns)] =
    Some (map (\<lambda>(nf, n). (nf, Indices (sn_proof n), Elements (sn_proof n))) (zip (map (\<lambda>n. the (H (sn_nullifier_input n))) ns) ns))"
proof -
  have "mapM (checked_input H 8 t (map sn_tree ns) (map sn_value ns) (map sn_key ns) (map sn_salt ns) (map (\<lambda>n. Some (sn_proof n)) ns))
      [0..<length (map sn_value ns)] =
      Some (map (\<lambda>n. (the (H (sn_nullifier_input n)), Indices (sn_proof n), Elements (sn_proof n))) ns)"
  proof (rule mapM_upt_map)
    fix i assume i: "i < length ns"
    with ns obtain nf where nf: "H (sn_nullifier_input (ns ! i)) = Some nf" by (meson nth_mem not_None_eq spendable_def)
    from spendable_input(2) [OF ns i nf] nf
    show "checked_input H 8 t (map sn_tree ns) (map sn_value ns) (map sn_key ns) (map sn_salt ns) (map (\<lambda>n. Some (sn_proof n)) ns) i =
        Some (the (H (sn_nullifier_input (ns ! i))), Indices (sn_proof (ns ! i)), Elements (sn_proof (ns ! i)))" by simp
  qed simp
  moreover have "map (\<lambda>n. (the (H (sn_nullifier_input n)), Indices (sn_proof n), Elements (sn_proof n))) ns =
      map (\<lambda>(nf, n). (nf, Indices (sn_proof n), Elements (sn_proof n))) (zip (map (\<lambda>n. the (H (sn_nullifier_input n))) ns) ns)"
    by (rule nth_equalityI) simp_all
  ultimately show ?thesis by simp
qed

lemma joinsplit_statement:
  assumes "length nfs = length ns"
  shows "contract_layout (length ns) (length cmts)
      (message # concat (map (\<lambda>i. [sn_tree (ns ! i), Root (sn_proof (ns ! i)), nfs ! i]) [0..<length ns]) @ cmts) =
    Some (message # map sn_tree ns @ map (Root \<circ> sn_proof) ns @ nfs @ cmts)"
proof -
  have "concat (map (\<lambda>i. [sn_tree (ns ! i), Root (sn_proof (ns ! i)), nfs ! i]) [0..<length ns]) =
      concat (map (\<lambda>i. [map sn_tree ns ! i, map (Root \<circ> sn_proof) ns ! i, nfs ! i]) [0..<length ns])"
    by (intro arg_cong [where f = concat] map_cong) simp_all
  then show ?thesis
    using contract_layout_interleaved [of "map sn_tree ns" "length ns" "map (Root \<circ> sn_proof) ns" nfs cmts "length cmts" message "[]"] assms by simp
qed

lemma joinsplit_request_submits:
  assumes ns: "\<forall>n\<in>set ns. spendable H t rng n" and outs: "sealed_outputs cr H coins nonces os t = Some outs"
  shows "joinsplit_request post cr H coins nonces message ns os t use10_2 =
    submit_joinsplit post use10_2 message (map sn_tree ns) (map sn_value ns) (map sn_key ns) (map sn_salt ns) 8
      (map (\<lambda>n. Some (sn_proof n)) ns) t
      (map (\<lambda>(nf, n). (nf, Indices (sn_proof n), Elements (sn_proof n))) (zip (map (\<lambda>n. the (H (sn_nullifier_input n))) ns) ns))
      (map on_spendPk os) (map on_value os) (map fst outs) (map (fst \<circ> snd) outs) (map (fst \<circ> snd \<circ> snd) outs) (map (snd \<circ> snd \<circ> snd) outs)"
proof -
  have "mapM (\<lambda>i. do { ek \<leftarrow> idx (map on_viewKey os) i; v \<leftarrow> idx (map on_value os) i; pk \<leftarrow> idx (map on_spendPk os) i;
      sealed_output cr H (coins i) (nonces i) ek pk v t }) [0..<length (map on_value os)] = Some outs"
    using outs by (simp add: sealed_outputs_def mapM_Some_iff list_all2_conv_all_nth idx_nth)
  then show ?thesis using checked_inputs [OF ns] by (simp add: joinsplit_request_def Erc20JoinSplitProof_def del: length_map)
qed

lemma sealed_outputs_nth:
  assumes "sealed_outputs cr H coins nonces os t = Some outs"
  shows "length outs = length os" "\<And>j. j < length os \<Longrightarrow> H [on_spendPk (os ! j), fst (outs ! j), on_value (os ! j), t] = Some (fst (snd (outs ! j)))"
proof -
  show len: "length outs = length os" using mapM_length [OF assms [unfolded sealed_outputs_def]] by simp
  fix j assume j: "j < length os"
  from mapM_nth [OF assms [unfolded sealed_outputs_def], of j] j
  have "sealed_output cr H (coins j) (nonces j) (on_viewKey (os ! j)) (on_spendPk (os ! j)) (on_value (os ! j)) t =
      Some (fst (outs ! j), fst (snd (outs ! j)), fst (snd (snd (outs ! j))), snd (snd (snd (outs ! j))))" by simp
  then show "H [on_spendPk (os ! j), fst (outs ! j), on_value (os ! j), t] = Some (fst (snd (outs ! j)))"
    by (rule sealed_output_Some)
qed

lemma joinsplit_provable:
  assumes "gnark api" and "poseidon_agrees H pos" and "joinsplit_server api pos (length ns) (length os) rng post"
    and "\<forall>n\<in>set ns. spendable H t rng n" and "\<forall>out\<in>set os. 0 \<le> on_value out \<and> on_value out < rng"
    and "sealed_outputs cr H coins nonces os t \<noteq> None" and "0 < rng" and "rng < SNARK_SCALAR_FIELD"
  shows "joinsplit_request post cr H coins nonces message ns os t use10_2 \<noteq> None \<longleftrightarrow>
    fv (sum_list (map on_value os)) = fv (sum_list (map sn_value ns)) \<and>
    (\<forall>n\<in>set ns. sn_tree n = 0 \<or> collides pos [PrivateKey (sn_key n), Indices (sn_proof n)] (sn_nullifier_input n))"
proof -
  obtain outs where outs: "sealed_outputs cr H coins nonces os t = Some outs" using assms(6) by blast
  let ?nfs = "map (\<lambda>n. the (H (sn_nullifier_input n))) ns"
  have nf: "\<forall>i<length ns. H (sn_nullifier_input (ns ! i)) = Some (?nfs ! i)"
    using assms(4) by (auto simp: spendable_def dest!: nth_mem bspec)
  note so = sealed_outputs_nth [OF outs]
  have out: "\<forall>j<length (map on_value os). 0 \<le> map on_value os ! j \<and> map on_value os ! j < rng \<and>
      H [map on_spendPk os ! j, map fst outs ! j, map on_value os ! j, t] = Some (map (fst \<circ> snd) outs ! j)"
    using so assms(5) by simp
  have "joinsplit_request post cr H coins nonces message ns os t use10_2 \<noteq> None \<longleftrightarrow>
      Erc20Circuit_Define api pos (joinsplit_circuit rng message t ns ?nfs (map on_spendPk os) (map on_value os) (map fst outs) (map (fst \<circ> snd) outs)) = Some ()"
    unfolding joinsplit_request_submits [OF assms(4) outs]
    by (rule submit_joinsplit_posts(1) [OF assms(4) _ _ _ _ _ refl refl]) (use so(1) assms(3) in simp_all)
  also have "\<dots> \<longleftrightarrow> fv (sum_list (map on_value os)) = fv (sum_list (map sn_value ns)) \<and>
      (\<forall>n\<in>set ns. sn_tree n = 0 \<or> collides pos [PrivateKey (sn_key n), Indices (sn_proof n)] (sn_nullifier_input n))"
    by (rule joinsplit_circuit_accepted [OF assms(1,2,4) _ nf _ _ _ out assms(7)]) (use so(1) assms(8) in simp_all)
  finally show ?thesis .
qed

text \<open>Example notes: one of 50 is split into 30 and 20.\<close>

definition toy_spend :: "int \<Rightarrow> spend_note" where
  "toy_spend tr = \<lparr>sn_key = toy_key 5, sn_salt = 3, sn_value = 50, sn_tree = tr, sn_proof = toy_proof 5 3 50 9\<rparr>"

definition toy_outs :: "out_note list" where
  "toy_outs = [\<lparr>on_spendPk = 11, on_viewKey = [], on_value = 30\<rparr>, \<lparr>on_spendPk = 12, on_viewKey = [], on_value = 20\<rparr>]"

definition toy_js_server :: "frontend_API \<Rightarrow> hasher \<Rightarrow> nat \<Rightarrow> nat \<Rightarrow> fr \<Rightarrow> JoinSplitRequest prover" where
  "toy_js_server api pos inputs outputs rng endpoint req = (case joinsplit_assignment inputs outputs rng req of
       None \<Rightarrow> None
     | Some c \<Rightarrow> if Erc20Circuit_Define api pos c = Some () then Some [''1''] else None)"

lemma toy_js_server_proves: "joinsplit_server api pos inputs outputs rng (toy_js_server api pos inputs outputs rng)"
  by (auto simp: joinsplit_server_def toy_js_server_def split: option.splits)

lemma toy_spendable: "0 \<le> tr \<Longrightarrow> tr < 2 ^ 240 \<Longrightarrow> spendable sum_hash 9 1000 (toy_spend tr)"
  using toy_proves [of 5 3 50 9] by (simp add: spendable_def toy_spend_def sum_hash_def)

lemma toy_sealed: "sealed_outputs toy_note_crypto sum_hash (\<lambda>j. toy_secret) (\<lambda>j. Some (replicate 12 7)) toy_outs 9 \<noteq> None"
proof -
  have "\<exists>x. sealed_output toy_note_crypto sum_hash toy_secret (Some (replicate 12 7)) ek pk v 9 = Some x" if v: "\<bar>v\<bar> < 2 ^ 256" for ek pk v
  proof -
    have "length (DerivePaymentKey toy_note_crypto toy_secret) = 32"
      using toy_note_crypto_laws(2) by (simp add: hkdf_length_def DerivePaymentKey_def hkdfDerive_def)
    then obtain ct where "EncryptNotePayload toy_note_crypto (Some (replicate 12 7)) (DerivePaymentKey toy_note_crypto toy_secret) 9 v = Some (Inr ct)"
      using encrypt_note_total [OF _ _ v, of _ 9 toy_note_crypto "replicate 12 7"] by auto
    then show ?thesis
      using toy_capsule_sent [of ek] by (simp add: sealed_output_def toy_note_crypto_def sealed_def client_Erc20CommitmentV2_def sum_hash_def Let_def)
  qed
  moreover have "\<bar>on_value (toy_outs ! j)\<bar> < 2 ^ 256" if "j < length toy_outs" for j
    using that by (auto simp: toy_outs_def less_Suc_eq)
  ultimately have "\<exists>outs. sealed_outputs toy_note_crypto sum_hash (\<lambda>j. toy_secret) (\<lambda>j. Some (replicate 12 7)) toy_outs 9 = Some outs"
    unfolding sealed_outputs_def by (intro mapM_total) simp
  then show ?thesis by blast
qed

lemma toy_js_setup:
  "joinsplit_server fr_api sum_hash (length [toy_spend 0]) (length toy_outs) 1000 (toy_js_server fr_api sum_hash 1 2 1000)"
  "\<forall>n\<in>set [toy_spend 0]. spendable sum_hash 9 1000 n" "\<forall>out\<in>set toy_outs. 0 \<le> on_value out \<and> on_value out < 1000"
  "sum_list (map on_value toy_outs) = sum_list (map sn_value [toy_spend 0])"
proof -
  have len: "length [toy_spend 0] = 1" "length toy_outs = 2" by (simp_all add: toy_outs_def)
  show "joinsplit_server fr_api sum_hash (length [toy_spend 0]) (length toy_outs) 1000 (toy_js_server fr_api sum_hash 1 2 1000)"
    unfolding len by (rule toy_js_server_proves)
  show "\<forall>n\<in>set [toy_spend 0]. spendable sum_hash 9 1000 n" using toy_spendable [of 0] by simp
qed (simp_all add: toy_outs_def toy_spend_def)

lemma toy_joinsplit_proved:
  "\<exists>r. joinsplit_request (toy_js_server fr_api sum_hash 1 2 1000) toy_note_crypto sum_hash (\<lambda>j. toy_secret) (\<lambda>j. Some (replicate 12 7)) 0
     [toy_spend 0] toy_outs 9 False = Some r"
  using joinsplit_provable [OF gnark_fr_api toy_agrees toy_js_setup(1-3) toy_sealed] toy_js_setup(4) toy_spendable [of 0]
  by (simp add: toy_spend_def SNARK_SCALAR_FIELD_def)

subsection \<open>Properties\<close>

text \<open>
  When a join-split request is proved. For notes that the client owns and outputs that it can seal, a server that
  proves exactly the circuit answers the request if and only if the values balance and every note is in tree 0, or the
  hash of its key and global index collides with that of its key and path index: the client's nullifier has the
  tree number, the circuit's has not.
\<close>

theorem joinsplit_provable_iff:
  assumes "gnark api" and "poseidon_agrees H pos" and "joinsplit_server api pos (length ns) (length os) rng post"
    and "\<forall>n\<in>set ns. spendable H t rng n" and "\<forall>out\<in>set os. 0 \<le> on_value out \<and> on_value out < rng"
    and "sealed_outputs cr H coins nonces os t \<noteq> None" and "0 < rng" and "rng < SNARK_SCALAR_FIELD"
  shows "joinsplit_request post cr H coins nonces message ns os t use10_2 \<noteq> None \<longleftrightarrow>
    fv (sum_list (map on_value os)) = fv (sum_list (map sn_value ns)) \<and>
    (\<forall>n\<in>set ns. sn_tree n = 0 \<or> collides pos [PrivateKey (sn_key n), Indices (sn_proof n)] (sn_nullifier_input n))"
  by (rule joinsplit_provable [OF assms])

theorem joinsplit_provable_iff_witness:
  "spendable sum_hash 9 1000 (toy_spend 0) \<and>
   joinsplit_request (toy_js_server fr_api sum_hash 1 2 1000) toy_note_crypto sum_hash (\<lambda>j. toy_secret) (\<lambda>j. Some (replicate 12 7)) 0
     [toy_spend 0] toy_outs 9 False \<noteq> None"
  using joinsplit_provable_iff [OF gnark_fr_api toy_agrees toy_js_setup(1-3) toy_sealed] toy_js_setup(4) toy_spendable [of 0]
  by (simp add: toy_spend_def SNARK_SCALAR_FIELD_def)

text \<open>
  C18. What a proved join-split delivers. The statement regrouped for the contract is the message, the trees, roots and nullifiers of the
  notes in order, and the output commitments; and each recipient, scanning the event of its output, finds exactly
  the note that the sender created for it.
\<close>

theorem joinsplit_delivers:
  assumes "gnark api" and "joinsplit_server api pos (length ns) (length os) rng post" and "\<forall>n\<in>set ns. spendable H t rng n"
    and "joinsplit_request post cr H coins nonces message ns os t use10_2 = Some r"
    and "sealed_outputs cr H coins nonces os t \<noteq> None" and "note_aead cr" and "0 \<le> t"
  shows "\<exists>cmts. length cmts = length os \<and>
    ProofResult_ContractStatement r = Some (message # map sn_tree ns @ map (Root \<circ> sn_proof) ns @
      map (\<lambda>n. the (H (sn_nullifier_input n))) ns @ cmts) \<and>
    (\<forall>j dk nonce. j < length os \<longrightarrow> kem_correct cr (on_viewKey (os ! j)) dk \<longrightarrow> nonces j = Some nonce \<longrightarrow> length nonce = 12 \<longrightarrow> 0 \<le> on_value (os ! j) \<longrightarrow>
      (\<exists>salt. ScanForErc20Notes cr H dk (on_spendPk (os ! j))
          [\<lparr>Commitment = cmts ! j, CipherText = pr_CipherText r ! j, EncTxData = pr_EncTxData r ! j\<rparr>] =
        Inr [\<lparr>note_commitment = cmts ! j, TokenId = t, Amount = on_value (os ! j), SaltBField = salt\<rparr>]))"
proof -
  obtain outs where outs: "sealed_outputs cr H coins nonces os t = Some outs" using assms(5) by blast
  note so = sealed_outputs_nth [OF outs]
  let ?nfs = "map (\<lambda>n. the (H (sn_nullifier_input n))) ns" and ?cmts = "map (fst \<circ> snd) outs"
  have r: "pr_Statement r = message # concat (map (\<lambda>i. [sn_tree (ns ! i), Root (sn_proof (ns ! i)), ?nfs ! i]) [0..<length ns]) @ ?cmts"
      "pr_NumberOfInputs r = length ns" "pr_NumberOfOutputs r = length os" "pr_CipherText r = map (fst \<circ> snd \<circ> snd) outs"
      "pr_EncTxData r = map (snd \<circ> snd \<circ> snd) outs"
    using submit_joinsplit_posts(2) [OF assms(3) _ _ _ _ _ refl, of ?nfs "map on_spendPk os" "map on_value os" "map fst outs" ?cmts api pos post, OF _ _ _ _ _ assms(4) [unfolded joinsplit_request_submits [OF assms(3) outs], symmetric]]
      so(1) assms(2) by simp_all
  have cs: "ProofResult_ContractStatement r = Some (message # map sn_tree ns @ map (Root \<circ> sn_proof) ns @ ?nfs @ ?cmts)"
    using joinsplit_statement [of ?nfs ns ?cmts message] so(1) by (simp add: ProofResult_ContractStatement_def r)
  have scan: "\<exists>salt. ScanForErc20Notes cr H dk (on_spendPk (os ! j))
          [\<lparr>Commitment = ?cmts ! j, CipherText = pr_CipherText r ! j, EncTxData = pr_EncTxData r ! j\<rparr>] =
        Inr [\<lparr>note_commitment = ?cmts ! j, TokenId = t, Amount = on_value (os ! j), SaltBField = salt\<rparr>]"
    if j: "j < length os" and k: "kem_correct cr (on_viewKey (os ! j)) dk" "nonces j = Some nonce" "length nonce = 12" "0 \<le> on_value (os ! j)" for j dk nonce
  proof -
    from mapM_nth [OF outs [unfolded sealed_outputs_def], of j] j
    have "sealed_output cr H (coins j) (Some nonce) (on_viewKey (os ! j)) (on_spendPk (os ! j)) (on_value (os ! j)) t =
        Some (fst (outs ! j), fst (snd (outs ! j)), fst (snd (snd (outs ! j))), snd (snd (snd (outs ! j))))" using k(2) by simp
    then obtain ss where ss: "Encapsulate cr (on_viewKey (os ! j)) (coins j) = (ss, fst (snd (snd (outs ! j))))"
        "fst (outs ! j) = SaltBToField (DerivePaymentSalt cr ss)"
        "EncryptNotePayload cr (Some nonce) (DerivePaymentKey cr ss) t (on_value (os ! j)) = Some (Inr (snd (snd (snd (outs ! j)))))"
        "H [on_spendPk (os ! j), fst (outs ! j), on_value (os ! j), t] = Some (fst (snd (outs ! j)))"
      by (rule sealed_output_Some)
    from payment_received [where H = H, OF k(1) assms(6) k(3) ss(1,3) assms(7) k(4) ss(4) [unfolded ss(2)]] j so(1)
    show ?thesis by (auto simp: r)
  qed
  have "length ?cmts = length os" using so(1) by simp
  with cs scan show ?thesis by (intro exI [of _ ?cmts] conjI allI impI)
qed

theorem joinsplit_delivers_witness:
  "\<exists>r cmts. joinsplit_request (toy_js_server fr_api sum_hash 1 2 1000) toy_note_crypto sum_hash (\<lambda>j. toy_secret) (\<lambda>j. Some (replicate 12 7)) 0
     [toy_spend 0] toy_outs 9 False = Some r \<and> length cmts = 2 \<and>
   (\<exists>salt. ScanForErc20Notes toy_note_crypto sum_hash [] 12 [\<lparr>Commitment = cmts ! 1, CipherText = pr_CipherText r ! 1, EncTxData = pr_EncTxData r ! 1\<rparr>] =
      Inr [\<lparr>note_commitment = cmts ! 1, TokenId = 9, Amount = 20, SaltBField = salt\<rparr>])"
proof -
  obtain r where r: "joinsplit_request (toy_js_server fr_api sum_hash 1 2 1000) toy_note_crypto sum_hash (\<lambda>j. toy_secret) (\<lambda>j. Some (replicate 12 7)) 0
     [toy_spend 0] toy_outs 9 False = Some r"
    using toy_joinsplit_proved by blast
  from joinsplit_delivers [OF gnark_fr_api toy_js_setup(1,2) r toy_sealed toy_note_crypto_laws(1)] obtain cmts where
    c: "length cmts = length toy_outs" "\<forall>j dk nonce. j < length toy_outs \<longrightarrow> kem_correct toy_note_crypto (on_viewKey (toy_outs ! j)) dk \<longrightarrow>
      Some (replicate 12 7) = Some nonce \<longrightarrow> length nonce = 12 \<longrightarrow> 0 \<le> on_value (toy_outs ! j) \<longrightarrow>
      (\<exists>salt. ScanForErc20Notes toy_note_crypto sum_hash dk (on_spendPk (toy_outs ! j))
          [\<lparr>Commitment = cmts ! j, CipherText = pr_CipherText r ! j, EncTxData = pr_EncTxData r ! j\<rparr>] =
        Inr [\<lparr>note_commitment = cmts ! j, TokenId = 9, Amount = on_value (toy_outs ! j), SaltBField = salt\<rparr>])" by auto
  have o: "length toy_outs = 2" "on_spendPk (toy_outs ! 1) = 12" "on_value (toy_outs ! 1) = 20" by (simp_all add: toy_outs_def)
  have "\<exists>salt. ScanForErc20Notes toy_note_crypto sum_hash [] 12 [\<lparr>Commitment = cmts ! 1, CipherText = pr_CipherText r ! 1, EncTxData = pr_EncTxData r ! 1\<rparr>] =
      Inr [\<lparr>note_commitment = cmts ! 1, TokenId = 9, Amount = 20, SaltBField = salt\<rparr>]"
    using c(2) [rule_format, of 1 "[]" "replicate 12 7"] toy_note_crypto_laws(3) by (simp only: o) simp
  with c(1) r show ?thesis unfolding o(1) by (intro exI [of _ r] exI [of _ cmts] conjI)
qed

text \<open>
  A withdrawal is a join-split into the recipient's public note and an empty note: with the same server it is
  answered if and only if it takes out all that its notes hold, under the same condition on the trees. Its statement then
  ends with the commitment that the contract recomputes from the recipient's address and the amount.
\<close>

theorem withdraw_provable_iff:
  assumes "gnark api" and "poseidon_agrees H pos" and "joinsplit_server api pos (length ns) 2 rng post"
    and "\<forall>n\<in>set ns. spendable H t rng n" and "0 \<le> amount" and "amount < rng" and "rng < SNARK_SCALAR_FIELD"
    and "H [recipient, 0, amount, t] = Some c" and "H [dummy, 0, 0, t] = Some e"
  shows "(case Erc20WithdrawProof post H message (map sn_value ns) (map sn_key ns) (map sn_salt ns) amount recipient dummy 8
      (map (\<lambda>n. Some (sn_proof n)) ns) (map sn_tree ns) t use10_2 of
    None \<Rightarrow> \<not> (fv amount = fv (sum_list (map sn_value ns)) \<and>
      (\<forall>n\<in>set ns. sn_tree n = 0 \<or> collides pos [PrivateKey (sn_key n), Indices (sn_proof n)] (sn_nullifier_input n)))
  | Some r \<Rightarrow> fv amount = fv (sum_list (map sn_value ns)) \<and>
      (\<forall>n\<in>set ns. sn_tree n = 0 \<or> collides pos [PrivateKey (sn_key n), Indices (sn_proof n)] (sn_nullifier_input n)) \<and>
      ProofResult_ContractStatement r = Some (message # map sn_tree ns @ map (Root \<circ> sn_proof) ns @
        map (\<lambda>n. the (H (sn_nullifier_input n))) ns @ [c, e]))"
proof -
  let ?nfs = "map (\<lambda>n. the (H (sn_nullifier_input n))) ns"
  let ?sub = "submit_joinsplit post use10_2 message (map sn_tree ns) (map sn_value ns) (map sn_key ns) (map sn_salt ns) 8
      (map (\<lambda>n. Some (sn_proof n)) ns) t (map (\<lambda>(nf, n). (nf, Indices (sn_proof n), Elements (sn_proof n))) (zip ?nfs ns))
      [recipient, dummy] [amount, 0] [0, 0] [c, e] [] []"
  have w: "Erc20WithdrawProof post H message (map sn_value ns) (map sn_key ns) (map sn_salt ns) amount recipient dummy 8
      (map (\<lambda>n. Some (sn_proof n)) ns) (map sn_tree ns) t use10_2 = ?sub"
    unfolding Erc20WithdrawProof_def checked_inputs [OF assms(4)] using assms(8,9) by (simp add: client_Erc20CommitmentV2_def)
  have nf: "\<forall>i<length ns. H (sn_nullifier_input (ns ! i)) = Some (?nfs ! i)"
    using assms(4) by (auto simp: spendable_def dest!: nth_mem bspec)
  have out: "\<forall>j<length [amount, 0]. 0 \<le> [amount, 0] ! j \<and> [amount, 0] ! j < rng \<and>
      H [[recipient, dummy] ! j, [0, 0] ! j, [amount, 0] ! j, t] = Some ([c, e] ! j)"
    using assms(5,6,8,9) by (auto simp: less_Suc_eq)
  have server: "joinsplit_server api pos (length ns) (length [amount, 0]) rng post" using assms(3) by (simp add: numeral_2_eq_2)
  have "?sub \<noteq> None \<longleftrightarrow> Erc20Circuit_Define api pos (joinsplit_circuit rng message t ns ?nfs [recipient, dummy] [amount, 0] [0, 0] [c, e]) = Some ()"
    by (rule submit_joinsplit_posts(1) [OF assms(4) _ _ _ _ server refl refl]) simp_all
  also have "\<dots> \<longleftrightarrow> fv (sum_list [amount, 0]) = fv (sum_list (map sn_value ns)) \<and>
      (\<forall>n\<in>set ns. sn_tree n = 0 \<or> collides pos [PrivateKey (sn_key n), Indices (sn_proof n)] (sn_nullifier_input n))"
    by (rule joinsplit_circuit_accepted [OF assms(1,2,4) _ nf _ _ _ out]) (use assms(5-7) in simp_all)
  finally have iff: "?sub \<noteq> None \<longleftrightarrow> fv amount = fv (sum_list (map sn_value ns)) \<and>
      (\<forall>n\<in>set ns. sn_tree n = 0 \<or> collides pos [PrivateKey (sn_key n), Indices (sn_proof n)] (sn_nullifier_input n))" by simp
  have "ProofResult_ContractStatement r = Some (message # map sn_tree ns @ map (Root \<circ> sn_proof) ns @ ?nfs @ [c, e])" if "?sub = Some r" for r
  proof -
    have "length ?nfs = length ns" "length [recipient, dummy] = length [amount, 0]" "length [0, 0 :: int] = length [amount, 0]" "length [c, e] = length [amount, 0]" by simp_all
    from submit_joinsplit_posts(2) [OF assms(4) this server refl that [symmetric]] joinsplit_statement [of ?nfs ns "[c, e]" message]
    show ?thesis by (simp add: ProofResult_ContractStatement_def numeral_2_eq_2)
  qed
  with iff show ?thesis unfolding w by (cases ?sub) auto
qed

theorem withdraw_provable_iff_witness:
  "\<exists>r. Erc20WithdrawProof (toy_js_server fr_api sum_hash 1 2 1000) sum_hash 0 [50] [toy_key 5] [3] 50 77 12 8
     [Some (toy_proof 5 3 50 9)] [0] 9 False = Some r"
proof -
  have s: "joinsplit_server fr_api sum_hash (length [toy_spend 0]) 2 1000 (toy_js_server fr_api sum_hash 1 2 1000)"
    using toy_js_setup(1) by (simp add: toy_outs_def numeral_2_eq_2)
  obtain c e where "sum_hash [77, 0, 50, 9] = Some c" "sum_hash [12, 0, 0, 9] = Some e" by (simp add: sum_hash_def)
  from withdraw_provable_iff [OF gnark_fr_api toy_agrees s toy_js_setup(2) _ _ _ this, of 0 False] show ?thesis
    by (simp add: toy_spend_def SNARK_SCALAR_FIELD_def split: option.splits)
qed

end
