(* ===== verification/Client_Assets.thy ===== *)
theory Client_Assets
  imports Client_JoinSplit
begin

section \<open>ERC721 and ERC1155 requests, and the audit trail\<close>

text \<open>
  The remaining request functions of \<^verbatim>\<open>enygma_dvp/src/core/prover_erc.go\<close> with \<^verbatim>\<open>prepareErc1155ProofParams\<close> of
  \<^verbatim>\<open>prover_auction.go\<close>, and the Poseidon cipher over HTTP: the client's \<^verbatim>\<open>PoseidonEncrypt\<close> and \<^verbatim>\<open>AuditorDecrypt\<close> and the handlers
  of \<^verbatim>\<open>gnark_circuits/server/utils\<close>. Servers, randomness and cryptography are arguments as for join-splits.
\<close>

subsection \<open>The cipher over HTTP\<close>

record PoseidonUtilRequest =
  pu_key :: "string \<times> string"
  pu_nonce :: string
  pu_realLength :: nat
  pu_values :: "string list"

datatype util_reply = Util_refused | Util_values "string list"

text \<open>
  The handlers; the outer \<^term>\<open>None\<close> is a panic. The \<^verbatim>\<open>required\<close> bindings refuse an empty nonce, a key of two empty texts
  and the length 0.
\<close>

definition util_bound :: "PoseidonUtilRequest \<Rightarrow> bool" where
  "util_bound req \<longleftrightarrow> pu_key req \<noteq> ([], []) \<and> pu_nonce req \<noteq> [] \<and> pu_realLength req \<noteq> 0"

definition util_key :: "PoseidonUtilRequest \<Rightarrow> ((int \<times> int) \<times> int) option" where
  "util_key req = do {
     key0 \<leftarrow> bigInt_SetString (fst (pu_key req));
     key1 \<leftarrow> bigInt_SetString (snd (pu_key req));
     nonce \<leftarrow> bigInt_SetString (pu_nonce req);
     Some ((key0, key1), nonce) }"

definition PoseidonEncryptHandler :: "poseidon_tables \<Rightarrow> PoseidonUtilRequest \<Rightarrow> util_reply option" where
  "PoseidonEncryptHandler T req = (if \<not> util_bound req then Some Util_refused
     else case util_key req of None \<Rightarrow> Some Util_refused
     | Some (key, nonce) \<Rightarrow>
         if length (pu_values req) \<noteq> pu_realLength req then Some Util_refused
         else (case mapM bigInt_SetString (pu_values req) of None \<Rightarrow> Some Util_refused
         | Some plaintext \<Rightarrow> do {
             encrypted \<leftarrow> NativePoseidonEncrypt T key nonce (pu_realLength req) plaintext;
             Some (Util_values (map bigInt_String encrypted)) }))"

definition PoseidonDecryptHandler :: "poseidon_tables \<Rightarrow> PoseidonUtilRequest \<Rightarrow> util_reply option" where
  "PoseidonDecryptHandler T req = (if \<not> util_bound req then Some Util_refused
     else case util_key req of None \<Rightarrow> Some Util_refused
     | Some (key, nonce) \<Rightarrow>
         (case mapM bigInt_SetString (pu_values req) of None \<Rightarrow> Some Util_refused
         | Some encrypted \<Rightarrow> do {
             r \<leftarrow> NativePoseidonDecrypt T key nonce (pu_realLength req) encrypted;
             Some (case r of Inl _ \<Rightarrow> Util_refused | Inr plaintext \<Rightarrow> Util_values (map bigInt_String plaintext)) }))"

text \<open>The client: any reply but the values is an error.\<close>

type_synonym util_server = "string \<Rightarrow> PoseidonUtilRequest \<Rightarrow> util_reply option"

definition read_util :: "util_reply option \<Rightarrow> int list option" where
  "read_util reply = (case reply of Some (Util_values vs) \<Rightarrow> mapM bigInt_SetString vs | _ \<Rightarrow> None)"

definition PoseidonEncrypt :: "util_server \<Rightarrow> int \<times> int \<Rightarrow> int \<Rightarrow> nat \<Rightarrow> int list \<Rightarrow> int list option" where
  "PoseidonEncrypt util key nonce realLength plaintext = read_util (util ''/util/poseidonEncrypt''
     \<lparr>pu_key = (bigInt_String (fst key), bigInt_String (snd key)), pu_nonce = bigInt_String nonce, pu_realLength = realLength,
       pu_values = map bigInt_String plaintext\<rparr>)"

definition AuditorDecrypt :: "util_server \<Rightarrow> int \<Rightarrow> int \<Rightarrow> int \<Rightarrow> int list \<Rightarrow> nat \<Rightarrow> int list option" where
  "AuditorDecrypt util authKeyX authKeyY nonce encrypted realLength = read_util (util ''/util/poseidonDecrypt''
     \<lparr>pu_key = (bigInt_String authKeyX, bigInt_String authKeyY), pu_nonce = bigInt_String nonce, pu_realLength = realLength,
       pu_values = map bigInt_String encrypted\<rparr>)"

text \<open>The random values of an audit, from 32 and 16 random bytes; the order of the base point is that of the library.\<close>

definition BASE_POINT_ORDER :: int where
  "BASE_POINT_ORDER = 2736030358979909402780800718157159386076813972158567259200215660948447373041"

definition RandomAuditorScalar :: "byte list \<Rightarrow> int" where
  "RandomAuditorScalar b = (let r = SetBytes b mod BASE_POINT_ORDER in if r = 0 then 1 else r)"

definition RandomNonce :: "byte list \<Rightarrow> int" where
  "RandomNonce b = SetBytes b + 1"

definition AuditorEncKey :: "jubjub \<Rightarrow> int \<Rightarrow> int \<Rightarrow> int \<Rightarrow> int \<times> int" where
  "AuditorEncKey J pubKeyX pubKeyY r = Mul J r (pubKeyX, pubKeyY)"

subsection \<open>Ownership requests\<close>

record OwnershipRequest =
  ow_StMessage :: string
  ow_StTreeNumbers :: "string list"
  ow_StMerkleRoots :: "string list"
  ow_StNullifiers :: "string list"
  ow_StCommitmentOut :: "string list"
  ow_WtPrivateKeysIn :: "string list"
  ow_WtValues :: "string list"
  ow_WtContractAddress :: string
  ow_WtPathElements :: "string list list"
  ow_WtPathIndices :: "string list"
  ow_WtPublicKeysOut :: "string list"
  ow_WtSaltsIn :: "string list"
  ow_WtSaltsOut :: "string list"

record audit_fields =
  StAuditorPublickey :: "string list"
  StAuditorAuthKey :: "string list"
  StAuditorNonce :: string
  StAuditorEncryptedValues :: "string list"
  WtAuditorRandom :: string

record Erc1155OwnershipRequest = OwnershipRequest +
  ow_StAssetGroupTreeNumber :: "string list"
  ow_StAssetGroupMerkleRoot :: "string list"
  ow_WtErc1155TokenId :: "string list"
  ow_WtAssetGroupPathElements :: "string list list"
  ow_WtAssetGroupPathIndices :: "string list"
  ow_audit :: "audit_fields option"

definition single_result :: "string list \<Rightarrow> int list \<Rightarrow> int \<Rightarrow> byte list \<Rightarrow> byte list \<Rightarrow> AuditEncryptionData option \<Rightarrow> ProofResult" where
  "single_result prf statement saltOut ctI ctII audit = \<lparr>pr_Proof = prf, pr_Statement = statement, pr_NumberOfInputs = 1,
     pr_NumberOfOutputs = 1, pr_CipherText = [ctI], pr_EncTxData = [ctII], pr_SaltsOut = [saltOut], pr_AuditData = audit\<rparr>"

definition Erc721OwnershipProofFromSalt where
  "Erc721OwnershipProofFromSalt post H message v keyIn saltIn keyOut saltOut ctI ctII merkleDepth p tr contract = do {
     _ \<leftarrow> client_Erc721Commitment H v (KeyPair.PublicKey keyIn) saltIn;
     nf \<leftarrow> GetNullifierWithTree H (PrivateKey keyIn) tr (Indices p) merkleDepth;
     cmt \<leftarrow> client_Erc721Commitment H v (KeyPair.PublicKey keyOut) saltOut;
     prf \<leftarrow> post ''/proof/ownershipERC721''
       \<lparr>ow_StMessage = bigInt_String message, ow_StTreeNumbers = [bigInt_String tr], ow_StMerkleRoots = [bigInt_String (Root p)],
         ow_StNullifiers = [bigInt_String nf], ow_StCommitmentOut = [bigInt_String cmt],
         ow_WtPrivateKeysIn = [bigInt_String (PrivateKey keyIn)], ow_WtValues = [bigInt_String v],
         ow_WtContractAddress = bigInt_String contract, ow_WtPathElements = [bigIntSliceToStrings (Elements p)],
         ow_WtPathIndices = [bigInt_String (Indices p)], ow_WtPublicKeysOut = [bigInt_String (KeyPair.PublicKey keyOut)],
         ow_WtSaltsIn = [bigInt_String saltIn], ow_WtSaltsOut = [bigInt_String saltOut]\<rparr>;
     Some (single_result prf [message, tr, Root p, nf, cmt] saltOut ctI ctII None) }"

text \<open>Its capsule holds the contract address and the token, and the salt comes from the shared secret; a missing key is an error.\<close>

definition Erc721OwnershipProof where
  "Erc721OwnershipProof post cr H coins nonce message v keyIn saltIn keyOut viewEncapKey merkleDepth p tr contract = do {
     ek \<leftarrow> viewEncapKey;
     if \<not> ValidKey cr ek then None
     else do {
       let (ss, ctI) = Encapsulate cr ek coins;
       let saltOut = SaltBToField (DerivePaymentSalt cr ss);
       ctII \<leftarrow> sealed (EncryptNotePayload cr nonce (DerivePaymentKey cr ss) contract v);
       Erc721OwnershipProofFromSalt post H message v keyIn saltIn keyOut saltOut ctI ctII merkleDepth p tr contract } }"

text \<open>The ERC1155 requests carry a membership proof of the token in its asset group.\<close>

definition erc1155_ownership_request where
  "erc1155_ownership_request message v keyIn saltIn keyOut saltOut p tr contract tokenId agTree agProof nf cmt audit =
     \<lparr>ow_StMessage = bigInt_String message, ow_StTreeNumbers = [bigInt_String tr], ow_StMerkleRoots = [bigInt_String (Root p)],
       ow_StNullifiers = [bigInt_String nf], ow_StCommitmentOut = [bigInt_String cmt],
       ow_WtPrivateKeysIn = [bigInt_String (PrivateKey keyIn)], ow_WtValues = [bigInt_String v],
       ow_WtContractAddress = bigInt_String contract, ow_WtPathElements = [bigIntSliceToStrings (Elements p)],
       ow_WtPathIndices = [bigInt_String (Indices p)], ow_WtPublicKeysOut = [bigInt_String (KeyPair.PublicKey keyOut)],
       ow_WtSaltsIn = [bigInt_String saltIn], ow_WtSaltsOut = [bigInt_String saltOut],
       ow_StAssetGroupTreeNumber = [bigInt_String agTree], ow_StAssetGroupMerkleRoot = [bigInt_String (Root agProof)],
       ow_WtErc1155TokenId = [bigInt_String tokenId], ow_WtAssetGroupPathElements = [bigIntSliceToStrings (Elements agProof)],
       ow_WtAssetGroupPathIndices = [bigInt_String (Indices agProof)], ow_audit = audit\<rparr>"

definition Erc1155NonFungibleOwnershipProofFromSalt where
  "Erc1155NonFungibleOwnershipProofFromSalt post H message v keyIn saltIn keyOut saltOut ctI ctII merkleDepth p tr contract tokenId
     agTree agProof = do {
     nf \<leftarrow> GetNullifierWithTree H (PrivateKey keyIn) tr (Indices p) merkleDepth;
     cmt \<leftarrow> client_Erc1155Commitment H tokenId v (KeyPair.PublicKey keyOut) saltOut;
     prf \<leftarrow> post ''/proof/erc1155NonFungible''
       (erc1155_ownership_request message v keyIn saltIn keyOut saltOut p tr contract tokenId agTree agProof nf cmt None);
     Some (single_result prf [message, tr, Root p, nf, cmt, agTree, Root agProof] saltOut ctI ctII None) }"

definition Erc1155NonFungibleOwnershipProof where
  "Erc1155NonFungibleOwnershipProof post cr H coins nonce message v keyIn saltIn keyOut viewEncapKey merkleDepth p tr contract tokenId
     agTree agProof = do {
     ek \<leftarrow> viewEncapKey;
     (saltOut, cmt, ctI, ctII) \<leftarrow> sealed_output cr H coins nonce ek (KeyPair.PublicKey keyOut) v tokenId;
     Erc1155NonFungibleOwnershipProofFromSalt post H message v keyIn saltIn keyOut saltOut ctI ctII merkleDepth p tr contract tokenId
       agTree agProof }"

text \<open>The encryption for the auditor: the fields of the request and the data of the result.\<close>

definition audit_encrypt ::
  "util_server \<Rightarrow> jubjub \<Rightarrow> byte list \<Rightarrow> byte list \<Rightarrow> int \<Rightarrow> int \<Rightarrow> int list \<Rightarrow> (audit_fields \<times> AuditEncryptionData) option" where
  "audit_encrypt util J rand_scalar rand_nonce pubKeyX pubKeyY plaintext = do {
     let auditorRandom = RandomAuditorScalar rand_scalar;
     let auditorNonce = RandomNonce rand_nonce;
     let authKey = AuditorEncKey J pubKeyX pubKeyY auditorRandom;
     encrypted \<leftarrow> PoseidonEncrypt util authKey auditorNonce (length plaintext) plaintext;
     Some (\<lparr>StAuditorPublickey = [bigInt_String pubKeyX, bigInt_String pubKeyY],
         StAuditorAuthKey = [bigInt_String (fst authKey), bigInt_String (snd authKey)], StAuditorNonce = bigInt_String auditorNonce,
         StAuditorEncryptedValues = bigIntSliceToStrings encrypted, WtAuditorRandom = bigInt_String auditorRandom\<rparr>,
       \<lparr>AuthKeyX = fst authKey, AuthKeyY = snd authKey, audit_Nonce = auditorNonce, audit_Encrypted = encrypted,
         audit_RealLength = length plaintext\<rparr>) }"

definition Erc1155NonFungibleAuditorProof where
  "Erc1155NonFungibleAuditorProof post util J cr H coins nonce rand_scalar rand_nonce message v keyIn saltIn keyOut viewEncapKey merkleDepth
     p tr contract tokenId agTree agProof pubKeyX pubKeyY = do {
     nf \<leftarrow> GetNullifierWithTree H (PrivateKey keyIn) tr (Indices p) merkleDepth;
     ek \<leftarrow> viewEncapKey;
     (saltOut, cmt, ctI, ctII) \<leftarrow> sealed_output cr H coins nonce ek (KeyPair.PublicKey keyOut) v tokenId;
     (fields, audit) \<leftarrow> audit_encrypt util J rand_scalar rand_nonce pubKeyX pubKeyY [v, tokenId, contract];
     prf \<leftarrow> post ''/proof/erc1155NonFungibleAuditor''
       (erc1155_ownership_request message v keyIn saltIn keyOut saltOut p tr contract tokenId agTree agProof nf cmt (Some fields));
     Some (single_result prf [message, tr, Root p, nf, cmt, agTree, Root agProof] saltOut ctI ctII (Some audit)) }"

subsection \<open>Fungible join-splits\<close>

record Erc1155JoinSplitRequest = JoinSplitRequest +
  js_StAssetGroupMerkleRoot :: string
  js_StAssetGroupTreeNumber :: string
  js_WtErc1155ContractAddress :: string
  js_WtAssetGroupPathElements :: "string list"
  js_WtAssetGroupPathIndices :: string
  js_audit :: "audit_fields option"

text \<open>The loops of \<^verbatim>\<open>prepareErc1155ProofParams\<close>: these nullifiers are hashed without the tree number.\<close>

definition erc1155_input ::
  "client_hash \<Rightarrow> nat \<Rightarrow> int \<Rightarrow> int list \<Rightarrow> KeyPair list \<Rightarrow> int list \<Rightarrow> MerkleProof_data option list \<Rightarrow> nat \<Rightarrow> (int \<times> int \<times> int list) option" where
  "erc1155_input H merkleDepth tokenId valuesIn keysIn saltsIn merkleProofs i = do {
     v \<leftarrow> idx valuesIn i;
     key \<leftarrow> idx keysIn i;
     salt \<leftarrow> idx saltsIn i;
     _ \<leftarrow> client_Erc1155Commitment H tokenId v (KeyPair.PublicKey key) salt;
     (pathIndex, elements) \<leftarrow> (if v = 0 then Some (0, replicate merkleDepth 0)
       else do { mp \<leftarrow> idx merkleProofs i; p \<leftarrow> mp; Some (Indices p, Elements p) });
     nf \<leftarrow> GetNullifier H (PrivateKey key) pathIndex;
     Some (nf, pathIndex, elements) }"

definition prepareErc1155ProofParams where
  "prepareErc1155ProofParams cr H coins nonces valuesIn keysIn saltsIn valuesOut keysOut viewEncapKeys merkleDepth merkleProofs tokenId = do {
     ins \<leftarrow> mapM (erc1155_input H merkleDepth tokenId valuesIn keysIn saltsIn merkleProofs) [0..<length valuesIn];
     outs \<leftarrow> mapM (\<lambda>i. do {
         ek' \<leftarrow> idx viewEncapKeys i; ek \<leftarrow> ek'; v \<leftarrow> idx valuesOut i; key \<leftarrow> idx keysOut i;
         sealed_output cr H (coins i) (nonces i) ek (KeyPair.PublicKey key) v tokenId }) [0..<length keysOut];
     Some (ins, outs) }"

definition erc1155_joinsplit where
  "erc1155_joinsplit post endpoint cr H coins nonces audit message valuesIn keysIn saltsIn valuesOut keysOut viewEncapKeys merkleDepth
     merkleProofs treeNumbers contract tokenId agTree agProof = do {
     (ins, outs) \<leftarrow> prepareErc1155ProofParams cr H coins nonces valuesIn keysIn saltsIn valuesOut keysOut viewEncapKeys merkleDepth
       merkleProofs tokenId;
     roots \<leftarrow> payment_roots valuesIn merkleProofs;
     aud \<leftarrow> audit;
     let nfs = map fst ins;
     let cmts = map (fst \<circ> snd) outs;
     prf \<leftarrow> post endpoint
       \<lparr>js_StMessage = bigInt_String message, js_StTreeNumber = bigIntSliceToStrings treeNumbers,
         js_StMerkleRoots = bigIntSliceToStrings roots, js_StNullifiers = bigIntSliceToStrings nfs,
         js_StCommitmentOut = bigIntSliceToStrings cmts, js_WtPrivateKeysIn = bigIntSliceToStrings (map PrivateKey keysIn),
         js_WtValuesIn = bigIntSliceToStrings valuesIn, js_WtSaltsIn = bigIntSliceToStrings saltsIn,
         js_WtPathElements = map bigIntSliceToStrings (chunkBigIntSlice (concat (map (snd \<circ> snd) ins)) merkleDepth),
         js_WtPathIndices = bigIntSliceToStrings (map (fst \<circ> snd) ins), js_WtTokenId = bigInt_String tokenId,
         js_WtSpendPublicKeysOut = bigIntSliceToStrings (map KeyPair.PublicKey keysOut), js_WtValuesOut = bigIntSliceToStrings valuesOut,
         js_WtSaltsOut = bigIntSliceToStrings (map fst outs), js_StAssetGroupMerkleRoot = bigInt_String (Root agProof),
         js_StAssetGroupTreeNumber = bigInt_String agTree, js_WtErc1155ContractAddress = bigInt_String contract,
         js_WtAssetGroupPathElements = bigIntSliceToStrings (Elements agProof),
         js_WtAssetGroupPathIndices = bigInt_String (Indices agProof), js_audit = map_option fst aud\<rparr>;
     statement \<leftarrow> payment_statement message treeNumbers roots nfs cmts;
     Some \<lparr>pr_Proof = prf, pr_Statement = statement, pr_NumberOfInputs = length valuesIn, pr_NumberOfOutputs = length valuesOut,
       pr_CipherText = map (fst \<circ> snd \<circ> snd) outs, pr_EncTxData = map (snd \<circ> snd \<circ> snd) outs, pr_SaltsOut = map fst outs,
       pr_AuditData = map_option snd aud\<rparr> }"

definition Erc1155FungibleJoinSplitProof where
  "Erc1155FungibleJoinSplitProof post cr H coins nonces = erc1155_joinsplit post ''/proof/erc155Fungible'' cr H coins nonces (Some None)"

text \<open>The plaintext of the audit: the values in, the values out, the token and the contract.\<close>

definition Erc1155FungibleAuditorProof where
  "Erc1155FungibleAuditorProof post util J cr H coins nonces rand_scalar rand_nonce message valuesIn keysIn saltsIn valuesOut keysOut
     viewEncapKeys merkleDepth merkleProofs treeNumbers contract tokenId agTree agProof pubKeyX pubKeyY =
     erc1155_joinsplit post ''/proof/erc1155FungibleAuditor'' cr H coins nonces
       (map_option Some (audit_encrypt util J rand_scalar rand_nonce pubKeyX pubKeyY (valuesIn @ valuesOut @ [tokenId, contract])))
       message valuesIn keysIn saltsIn valuesOut keysOut viewEncapKeys merkleDepth merkleProofs treeNumbers contract tokenId agTree agProof"

subsection \<open>Lemmas\<close>

text \<open>A service that serves the two handlers of the proving server.\<close>

definition serves_util :: "poseidon_tables \<Rightarrow> util_server \<Rightarrow> bool" where
  "serves_util T util \<longleftrightarrow> (\<forall>req. util ''/util/poseidonEncrypt'' req = PoseidonEncryptHandler T req \<and>
     util ''/util/poseidonDecrypt'' req = PoseidonDecryptHandler T req)"

lemma mapM_SetString [simp]: "mapM bigInt_SetString (map bigInt_String xs) = Some xs"
  by (induction xs) (simp_all add: SetString_String)

lemma util_roundtrip:
  assumes "serves_util T util" and "poseidon_tables_wf T 4" and "canonical plaintext" and "plaintext \<noteq> []"
  obtains ct where "PoseidonEncrypt util key nonce (length plaintext) plaintext = Some ct"
    "length ct = pad_to_3 (length plaintext) + 1"
    "AuditorDecrypt util (fst key) (snd key) nonce ct (length plaintext) = Some plaintext"
proof -
  obtain ct where ct: "NativePoseidonEncrypt T key nonce (length plaintext) plaintext = Some ct"
    using encrypt_total [OF assms(2)] by blast
  note d = decrypt_encrypt(1,2) [OF ct assms(3)]
  have e: "PoseidonEncrypt util key nonce (length plaintext) plaintext = Some ct"
    using assms(1,4) ct by (simp add: PoseidonEncrypt_def serves_util_def PoseidonEncryptHandler_def util_bound_def util_key_def
      bigInt_String_nonempty SetString_String read_util_def)
  have "AuditorDecrypt util (fst key) (snd key) nonce ct (length plaintext) = Some plaintext"
    using assms(1,4) d(1) by (simp add: AuditorDecrypt_def serves_util_def PoseidonDecryptHandler_def util_bound_def util_key_def
      bigInt_String_nonempty SetString_String read_util_def)
  with e d(2) show ?thesis by (rule that)
qed

lemma audit_encrypt_Some:
  assumes "serves_util T util" and "poseidon_tables_wf T 4" and "canonical plaintext" and "plaintext \<noteq> []"
  obtains f a where "audit_encrypt util J rs rn x y plaintext = Some (f, a)"
    "AuditorDecrypt util (AuthKeyX a) (AuthKeyY a) (audit_Nonce a) (audit_Encrypted a) (audit_RealLength a) = Some plaintext"
    "StAuditorAuthKey f = [bigInt_String (AuthKeyX a), bigInt_String (AuthKeyY a)]"
    "StAuditorNonce f = bigInt_String (audit_Nonce a)" "StAuditorEncryptedValues f = bigIntSliceToStrings (audit_Encrypted a)"
proof -
  let ?key = "AuditorEncKey J x y (RandomAuditorScalar rs)"
  obtain ct where ct: "PoseidonEncrypt util ?key (RandomNonce rn) (length plaintext) plaintext = Some ct"
    "length ct = pad_to_3 (length plaintext) + 1"
    "AuditorDecrypt util (fst ?key) (snd ?key) (RandomNonce rn) ct (length plaintext) = Some plaintext"
    by (rule util_roundtrip [OF assms])
  then have "\<exists>f a. audit_encrypt util J rs rn x y plaintext = Some (f, a) \<and>
    AuditorDecrypt util (AuthKeyX a) (AuthKeyY a) (audit_Nonce a) (audit_Encrypted a) (audit_RealLength a) = Some plaintext \<and>
    StAuditorAuthKey f = [bigInt_String (AuthKeyX a), bigInt_String (AuthKeyY a)] \<and> StAuditorNonce f = bigInt_String (audit_Nonce a) \<and>
    StAuditorEncryptedValues f = bigIntSliceToStrings (audit_Encrypted a)"
    by (simp add: audit_encrypt_def Let_def)
  then show ?thesis by (elim exE conjE) (rule that)
qed

lemma erc1155_joinsplit_audit:
  assumes "erc1155_joinsplit post endpoint cr H coins nonces (Some (Some (f, a))) message valuesIn keysIn saltsIn valuesOut keysOut
    viewEncapKeys merkleDepth merkleProofs treeNumbers contract tokenId agTree agProof = Some r"
  shows "pr_AuditData r = Some a" and "\<exists>req. post endpoint req = Some (pr_Proof r) \<and> js_audit req = Some f"
  using assms by (auto simp: erc1155_joinsplit_def Let_def bind_eq_Some_conv split: prod.splits)

text \<open>What a recipient reads from the capsule of one output.\<close>

lemma capsule_opened:
  assumes "kem_correct cr ek dk" "note_aead cr" "length nonce = 12" "Encapsulate cr ek coins = (ss, ct)"
    and "EncryptNotePayload cr (Some nonce) (DerivePaymentKey cr ss) x y = Some (Inr enc)" "0 \<le> x" "0 \<le> y"
  shows "Decapsulate cr dk ct = Some ss" and "DecryptNotePayload cr (DerivePaymentKey cr ss) enc = Inr (x, y)"
proof -
  show "Decapsulate cr dk ct = Some ss" using assms(1,4) unfolding kem_correct_def by (metis fst_conv snd_conv)
  show "DecryptNotePayload cr (DerivePaymentKey cr ss) enc = Inr (x, y)" using decrypt_encrypt_note [OF assms(2,3,5)] assms(6,7) by simp
qed

lemma Erc721OwnershipProof_Some:
  assumes "Erc721OwnershipProof post cr H coins nonce message v keyIn saltIn keyOut viewEncapKey merkleDepth p tr contract = Some r"
  obtains ek ss ctI ctII cmt where "viewEncapKey = Some ek" "Encapsulate cr ek coins = (ss, ctI)"
    "EncryptNotePayload cr nonce (DerivePaymentKey cr ss) contract v = Some (Inr ctII)"
    "client_Erc721Commitment H v (KeyPair.PublicKey keyOut) (SaltBToField (DerivePaymentSalt cr ss)) = Some cmt"
    "pr_Statement r ! 4 = cmt" "pr_CipherText r = [ctI]" "pr_EncTxData r = [ctII]" "pr_SaltsOut r = [SaltBToField (DerivePaymentSalt cr ss)]"
  using assms by (auto simp: Erc721OwnershipProof_def Erc721OwnershipProofFromSalt_def single_result_def Let_def bind_eq_Some_conv sealed_Some
    split: prod.splits if_splits)

lemma Erc1155NonFungibleOwnershipProof_Some:
  assumes "Erc1155NonFungibleOwnershipProof post cr H coins nonce message v keyIn saltIn keyOut viewEncapKey merkleDepth p tr contract tokenId
    agTree agProof = Some r"
  obtains ek ss ctI ctII cmt where "viewEncapKey = Some ek" "Encapsulate cr ek coins = (ss, ctI)"
    "EncryptNotePayload cr nonce (DerivePaymentKey cr ss) tokenId v = Some (Inr ctII)"
    "client_Erc1155Commitment H tokenId v (KeyPair.PublicKey keyOut) (SaltBToField (DerivePaymentSalt cr ss)) = Some cmt"
    "pr_Statement r ! 4 = cmt" "pr_CipherText r = [ctI]" "pr_EncTxData r = [ctII]" "pr_SaltsOut r = [SaltBToField (DerivePaymentSalt cr ss)]"
  using assms by (auto simp: Erc1155NonFungibleOwnershipProof_def Erc1155NonFungibleOwnershipProofFromSalt_def sealed_output_def single_result_def
    Let_def bind_eq_Some_conv sealed_Some split: prod.splits if_splits)

text \<open>An example transfer of token 9 of contract 33, and an audited split.\<close>

definition toy_util :: util_server where
  "toy_util path req = (if path = ''/util/poseidonEncrypt'' then PoseidonEncryptHandler (uniform_tables 4 5) req
     else PoseidonDecryptHandler (uniform_tables 4 5) req)"

lemma toy_util_serves: "serves_util (uniform_tables 4 5) toy_util" "poseidon_tables_wf (uniform_tables 4 5) 4"
  by (simp_all add: serves_util_def toy_util_def poseidon_tables_wf_def uniform_tables_def N_ROUNDS_P_def list_all_iff)

lemma toy_sealed_output:
  assumes "\<bar>x\<bar> < 2 ^ 256" "\<bar>y\<bar> < 2 ^ 256"
  obtains ct where "EncryptNotePayload toy_note_crypto (Some (replicate 12 7)) (DerivePaymentKey toy_note_crypto toy_secret) x y = Some (Inr ct)"
proof -
  have "length (DerivePaymentKey toy_note_crypto toy_secret) = 32"
    using toy_note_crypto_laws(2) by (simp add: hkdf_length_def DerivePaymentKey_def hkdfDerive_def)
  then show ?thesis using encrypt_note_total [OF _ assms, of _ toy_note_crypto "replicate 12 7"] that by blast
qed

lemma toy_transfer_request:
  "\<exists>r. Erc721OwnershipProof (\<lambda>_ _. Some [''1'']) toy_note_crypto sum_hash toy_secret (Some (replicate 12 7)) 0 9 (toy_key 5) 3
     (toy_key 6) (Some []) 8 (toy_proof 5 3 50 9) 0 33 = Some r"
proof -
  obtain ct where "EncryptNotePayload toy_note_crypto (Some (replicate 12 7)) (DerivePaymentKey toy_note_crypto toy_secret) 33 9 = Some (Inr ct)"
    by (rule toy_sealed_output [of 33 9]) simp_all
  moreover have "ValidKey toy_note_crypto []" by (simp add: toy_note_crypto_def)
  ultimately show ?thesis
    by (simp add: Erc721OwnershipProof_def Erc721OwnershipProofFromSalt_def toy_capsule_sent sealed_def client_Erc721Commitment_def
      client_Erc20CommitmentV2_def GetNullifierWithTree_def sum_hash_def Let_def)
qed

lemma toy_erc1155_request:
  "\<exists>r. Erc1155NonFungibleOwnershipProof (\<lambda>_ _. Some [''1'']) toy_note_crypto sum_hash toy_secret (Some (replicate 12 7)) 0 1 (toy_key 5) 3
     (toy_key 6) (Some []) 8 (toy_proof 5 3 50 9) 0 33 9 0 (toy_proof 5 3 50 9) = Some r"
proof -
  obtain ct where "EncryptNotePayload toy_note_crypto (Some (replicate 12 7)) (DerivePaymentKey toy_note_crypto toy_secret) 9 1 = Some (Inr ct)"
    by (rule toy_sealed_output [of 9 1]) simp_all
  moreover have "ValidKey toy_note_crypto []" by (simp add: toy_note_crypto_def)
  ultimately show ?thesis
    by (simp add: Erc1155NonFungibleOwnershipProof_def Erc1155NonFungibleOwnershipProofFromSalt_def sealed_output_def toy_capsule_sent sealed_def
      client_Erc1155Commitment_def client_Erc20CommitmentV2_def GetNullifierWithTree_def sum_hash_def Let_def)
qed

lemma toy_audited_request:
  "\<exists>r. Erc1155FungibleAuditorProof (\<lambda>_ _. Some [''1'']) toy_util toy_jubjub toy_note_crypto sum_hash (\<lambda>_. toy_secret)
     (\<lambda>_. Some (replicate 12 7)) (replicate 32 1) (replicate 16 2) 0 [50] [toy_key 5] [3] [50] [toy_key 6] [Some []] 8
     [Some (toy_proof 5 3 50 9)] [0] 33 9 0 (toy_proof 5 3 50 9) 1 1 = Some r"
proof -
  obtain ct where "EncryptNotePayload toy_note_crypto (Some (replicate 12 7)) (DerivePaymentKey toy_note_crypto toy_secret) 9 50 = Some (Inr ct)"
    by (rule toy_sealed_output [of 9 50]) simp_all
  moreover have "ValidKey toy_note_crypto []" by (simp add: toy_note_crypto_def)
  moreover obtain f a where "audit_encrypt toy_util toy_jubjub (replicate 32 1) (replicate 16 2) 1 1 [50, 50, 9, 33] = Some (f, a)"
    by (rule audit_encrypt_Some [OF toy_util_serves, of "[50, 50, 9, 33]"]) (auto simp: canonical_def SNARK_SCALAR_FIELD_def)
  ultimately show ?thesis
    by (simp add: Erc1155FungibleAuditorProof_def erc1155_joinsplit_def prepareErc1155ProofParams_def erc1155_input_def sealed_output_def
      toy_capsule_sent sealed_def client_Erc1155Commitment_def client_Erc20CommitmentV2_def GetNullifier_def sum_hash_def Let_def
      payment_roots_def payment_statement_def upt_payment)
qed

subsection \<open>Properties\<close>

text \<open>
  The transfer of an ERC721 token reaches its new owner: from the event with the commitment of the statement and the
  capsule and payload of the result, the scan finds exactly one note, of the contract and the token, with the salt under which
  the commitment opens.
\<close>

theorem erc721_transfer_delivered:
  assumes "Erc721OwnershipProof post cr H coins (Some nonce) message v keyIn saltIn keyOut (Some ek) merkleDepth p tr contract = Some r"
    and "kem_correct cr ek dk" and "note_aead cr" and "length nonce = 12" and "0 \<le> contract" and "0 \<le> v"
  shows "ScanForErc721Notes cr H dk (KeyPair.PublicKey keyOut)
      [\<lparr>Commitment = pr_Statement r ! 4, CipherText = hd (pr_CipherText r), EncTxData = hd (pr_EncTxData r)\<rparr>] =
    Inr [\<lparr>note721_commitment = pr_Statement r ! 4, note721_contract = contract, note721_tokenId = v, note721_salt = hd (pr_SaltsOut r)\<rparr>]"
  using assms(1)
proof (rule Erc721OwnershipProof_Some)
  fix ek' ss ctI ctII cmt
  assume r: "Some ek = Some ek'" "Encapsulate cr ek' coins = (ss, ctI)"
    "EncryptNotePayload cr (Some nonce) (DerivePaymentKey cr ss) contract v = Some (Inr ctII)"
    "client_Erc721Commitment H v (KeyPair.PublicKey keyOut) (SaltBToField (DerivePaymentSalt cr ss)) = Some cmt"
    "pr_Statement r ! 4 = cmt" "pr_CipherText r = [ctI]" "pr_EncTxData r = [ctII]" "pr_SaltsOut r = [SaltBToField (DerivePaymentSalt cr ss)]"
  have k: "kem_correct cr ek' dk" using assms(2) r(1) by simp
  show ?thesis using capsule_opened [OF k assms(3,4) r(2,3) assms(5,6)] r(4-8)
    by (simp add: ScanForErc721Notes_def scan_erc721_event_def Let_def)
qed

theorem erc721_transfer_delivered_witness:
  "\<exists>r. Erc721OwnershipProof (\<lambda>_ _. Some [''1'']) toy_note_crypto sum_hash toy_secret (Some (replicate 12 7)) 0 9 (toy_key 5) 3
     (toy_key 6) (Some []) 8 (toy_proof 5 3 50 9) 0 33 = Some r \<and>
    ScanForErc721Notes toy_note_crypto sum_hash [] (KeyPair.PublicKey (toy_key 6))
      [\<lparr>Commitment = pr_Statement r ! 4, CipherText = hd (pr_CipherText r), EncTxData = hd (pr_EncTxData r)\<rparr>] =
    Inr [\<lparr>note721_commitment = pr_Statement r ! 4, note721_contract = 33, note721_tokenId = 9, note721_salt = hd (pr_SaltsOut r)\<rparr>]"
proof -
  obtain r where r: "Erc721OwnershipProof (\<lambda>_ _. Some [''1'']) toy_note_crypto sum_hash toy_secret (Some (replicate 12 7)) 0 9 (toy_key 5) 3
     (toy_key 6) (Some []) 8 (toy_proof 5 3 50 9) 0 33 = Some r" using toy_transfer_request by blast
  from r erc721_transfer_delivered [OF r toy_note_crypto_laws(3) toy_note_crypto_laws(1)] show ?thesis by (intro exI [of _ r] conjI) simp_all
qed

text \<open>
  The transfer of an ERC1155 token reaches its new owner: the scan of the event finds exactly one note, with the token and
  the value, the contract of the event and the salt under which the commitment opens.
\<close>

theorem erc1155_transfer_delivered:
  assumes "Erc1155NonFungibleOwnershipProof post cr H coins (Some nonce) message v keyIn saltIn keyOut (Some ek) merkleDepth p tr contract
      tokenId agTree agProof = Some r"
    and "kem_correct cr ek dk" and "note_aead cr" and "length nonce = 12" and "0 \<le> tokenId" and "0 \<le> v"
  shows "ScanForErc1155Notes cr H dk (KeyPair.PublicKey keyOut)
      [\<lparr>Commitment = pr_Statement r ! 4, CipherText = hd (pr_CipherText r), EncTxData = hd (pr_EncTxData r), ContractAddress = contract\<rparr>] =
    Inr [\<lparr>note_commitment = pr_Statement r ! 4, TokenId = tokenId, Amount = v, SaltBField = hd (pr_SaltsOut r), note_contract = contract\<rparr>]"
  using assms(1)
proof (rule Erc1155NonFungibleOwnershipProof_Some)
  fix ek' ss ctI ctII cmt
  assume r: "Some ek = Some ek'" "Encapsulate cr ek' coins = (ss, ctI)"
    "EncryptNotePayload cr (Some nonce) (DerivePaymentKey cr ss) tokenId v = Some (Inr ctII)"
    "client_Erc1155Commitment H tokenId v (KeyPair.PublicKey keyOut) (SaltBToField (DerivePaymentSalt cr ss)) = Some cmt"
    "pr_Statement r ! 4 = cmt" "pr_CipherText r = [ctI]" "pr_EncTxData r = [ctII]" "pr_SaltsOut r = [SaltBToField (DerivePaymentSalt cr ss)]"
  have k: "kem_correct cr ek' dk" using assms(2) r(1) by simp
  show ?thesis using capsule_opened [OF k assms(3,4) r(2,3) assms(5,6)] r(4-8)
    by (simp add: ScanForErc1155Notes_def scan_erc1155_event_def Let_def)
qed

theorem erc1155_transfer_delivered_witness:
  "\<exists>r. Erc1155NonFungibleOwnershipProof (\<lambda>_ _. Some [''1'']) toy_note_crypto sum_hash toy_secret (Some (replicate 12 7)) 0 1 (toy_key 5) 3
     (toy_key 6) (Some []) 8 (toy_proof 5 3 50 9) 0 33 9 0 (toy_proof 5 3 50 9) = Some r \<and>
    ScanForErc1155Notes toy_note_crypto sum_hash [] (KeyPair.PublicKey (toy_key 6))
      [\<lparr>Commitment = pr_Statement r ! 4, CipherText = hd (pr_CipherText r), EncTxData = hd (pr_EncTxData r), ContractAddress = 33\<rparr>] =
    Inr [\<lparr>note_commitment = pr_Statement r ! 4, TokenId = 9, Amount = 1, SaltBField = hd (pr_SaltsOut r), note_contract = 33\<rparr>]"
proof -
  obtain r where r: "Erc1155NonFungibleOwnershipProof (\<lambda>_ _. Some [''1'']) toy_note_crypto sum_hash toy_secret (Some (replicate 12 7)) 0 1 (toy_key 5) 3
     (toy_key 6) (Some []) 8 (toy_proof 5 3 50 9) 0 33 9 0 (toy_proof 5 3 50 9) = Some r" using toy_erc1155_request by blast
  from r erc1155_transfer_delivered [OF r toy_note_crypto_laws(3) toy_note_crypto_laws(1)] show ?thesis by (intro exI [of _ r] conjI) simp_all
qed

text \<open>
  An audited split can be audited: with the two handlers behind the client, from the audit data of the result alone
  \<^verbatim>\<open>AuditorDecrypt\<close> returns the values in, the values out, the token and the contract. That data is the text of the
  public fields of the request, authentication key, nonce and encrypted values: no private key of the auditor is needed.
\<close>

theorem audit_trail_recovered:
  assumes "serves_util T util" and "poseidon_tables_wf T 4" and "canonical (valuesIn @ valuesOut @ [tokenId, contract])"
    and "Erc1155FungibleAuditorProof post util J cr H coins nonces rand_scalar rand_nonce message valuesIn keysIn saltsIn valuesOut keysOut
      viewEncapKeys merkleDepth merkleProofs treeNumbers contract tokenId agTree agProof pubKeyX pubKeyY = Some r"
  shows "\<exists>a req fld. pr_AuditData r = Some a \<and>
    AuditorDecrypt util (AuthKeyX a) (AuthKeyY a) (audit_Nonce a) (audit_Encrypted a) (audit_RealLength a) =
      Some (valuesIn @ valuesOut @ [tokenId, contract]) \<and>
    post ''/proof/erc1155FungibleAuditor'' req = Some (pr_Proof r) \<and> js_audit req = Some fld \<and>
    StAuditorAuthKey fld = [bigInt_String (AuthKeyX a), bigInt_String (AuthKeyY a)] \<and> StAuditorNonce fld = bigInt_String (audit_Nonce a) \<and>
    StAuditorEncryptedValues fld = bigIntSliceToStrings (audit_Encrypted a)"
proof -
  obtain f a where a: "audit_encrypt util J rand_scalar rand_nonce pubKeyX pubKeyY (valuesIn @ valuesOut @ [tokenId, contract]) = Some (f, a)"
    "AuditorDecrypt util (AuthKeyX a) (AuthKeyY a) (audit_Nonce a) (audit_Encrypted a) (audit_RealLength a) =
      Some (valuesIn @ valuesOut @ [tokenId, contract])"
    "StAuditorAuthKey f = [bigInt_String (AuthKeyX a), bigInt_String (AuthKeyY a)]"
    "StAuditorNonce f = bigInt_String (audit_Nonce a)" "StAuditorEncryptedValues f = bigIntSliceToStrings (audit_Encrypted a)"
    by (rule audit_encrypt_Some [OF assms(1-3)]) simp_all
  from erc1155_joinsplit_audit [OF assms(4) [unfolded Erc1155FungibleAuditorProof_def a(1) option.map]] a(2-5) show ?thesis by blast
qed

theorem audit_trail_recovered_witness:
  "\<exists>r a. Erc1155FungibleAuditorProof (\<lambda>_ _. Some [''1'']) toy_util toy_jubjub toy_note_crypto sum_hash (\<lambda>_. toy_secret)
     (\<lambda>_. Some (replicate 12 7)) (replicate 32 1) (replicate 16 2) 0 [50] [toy_key 5] [3] [50] [toy_key 6] [Some []] 8
     [Some (toy_proof 5 3 50 9)] [0] 33 9 0 (toy_proof 5 3 50 9) 1 1 = Some r \<and>
    pr_AuditData r = Some a \<and>
    AuditorDecrypt toy_util (AuthKeyX a) (AuthKeyY a) (audit_Nonce a) (audit_Encrypted a) (audit_RealLength a) = Some [50, 50, 9, 33]"
proof -
  obtain r where r: "Erc1155FungibleAuditorProof (\<lambda>_ _. Some [''1'']) toy_util toy_jubjub toy_note_crypto sum_hash (\<lambda>_. toy_secret)
     (\<lambda>_. Some (replicate 12 7)) (replicate 32 1) (replicate 16 2) 0 [50] [toy_key 5] [3] [50] [toy_key 6] [Some []] 8
     [Some (toy_proof 5 3 50 9)] [0] 33 9 0 (toy_proof 5 3 50 9) 1 1 = Some r" using toy_audited_request by blast
  have "canonical ([50] @ [50] @ [9, 33])" by (auto simp: canonical_def SNARK_SCALAR_FIELD_def)
  from audit_trail_recovered [OF toy_util_serves this r] obtain a where "pr_AuditData r = Some a"
    "AuditorDecrypt toy_util (AuthKeyX a) (AuthKeyY a) (audit_Nonce a) (audit_Encrypted a) (audit_RealLength a) = Some [50, 50, 9, 33]" by auto
  with r show ?thesis by (intro exI [of _ r] exI [of _ a] conjI)
qed

text \<open>
  The random nonce of an audit lies between 1 and \<open>2 ^ 128\<close>, and both ends occur: all bytes 0 give 1 and all bytes 255
  give \<open>2 ^ 128\<close>, one bit more than the 128 that the function announces.
\<close>

theorem RandomNonce_range:
  assumes "length b = 16"
  shows "1 \<le> RandomNonce b \<and> RandomNonce b \<le> 2 ^ 128 \<and> RandomNonce (replicate 16 255) = 2 ^ 128 \<and> RandomNonce (replicate 16 0) = 1"
proof -
  have "RandomNonce (replicate 16 255) = 2 ^ 128" by code_simp
  moreover have "RandomNonce (replicate 16 0) = 1" by code_simp
  ultimately show ?thesis using SetBytes_bounds [of b] assms by (simp add: RandomNonce_def)
qed

theorem RandomNonce_range_witness: "RandomNonce (replicate 16 3) \<le> 2 ^ 128 \<and> RandomNonce (replicate 16 255) = 2 ^ 128"
  using RandomNonce_range [of "replicate 16 3"] by simp

end
