(* ===== verification/Dvp_Server.thy ===== *)
theory Dvp_Server
  imports Prove_Server Client_Dvp Private_Mint Client_Assets Merkle_Status
begin

section \<open>The proving server of the swap package and the mint client\<close>

text \<open>
  \<^verbatim>\<open>enygma_dvp/gnark_circuits/server\<close>: the configuration, the routes with the API-key guard, and the three proving
  handlers (\<^verbatim>\<open>privateMint\<close>, \<^verbatim>\<open>dvpInit\<close>, \<^verbatim>\<open>dvpDestination\<close>) around the witnesses of \<open>Client_Dvp\<close>; the status handlers are
  those of \<open>Merkle_Status\<close>. The client's minting request of \<^verbatim>\<open>prover_erc.go\<close> is composed with them, and so are the
  requests of \<open>Client_Dvp\<close>, \<open>Client_JoinSplit\<close> and \<open>Client_Assets\<close>.
\<close>

subsection \<open>Configuration\<close>

record dvp_Config =
  cfg_Port :: string
  cfg_APIKey :: string
  cfg_PrivateMintPk :: string
  cfg_PrivateMintVk :: string
  cfg_DvPInitiatorPk :: string
  cfg_DvPInitiatorVk :: string
  cfg_DvPDestinationPk :: string
  cfg_DvPDestinationVk :: string

definition dvp_Load :: dvp_Config where
  "dvp_Load = \<lparr>cfg_Port = ''8081'', cfg_APIKey = [], cfg_PrivateMintPk = ''./scripts/keys/PrivateMintPK.key'',
     cfg_PrivateMintVk = ''./scripts/keys/PrivateMintVK.key'', cfg_DvPInitiatorPk = ''./scripts/keys/DvPInitiatorPK.key'',
     cfg_DvPInitiatorVk = ''./scripts/keys/DvPInitiatorVK.key'', cfg_DvPDestinationPk = ''./scripts/keys/DvPDestinationPK.key'',
     cfg_DvPDestinationVk = ''./scripts/keys/DvPDestinationVK.key''\<rparr>"

subsection \<open>The handlers\<close>

record PrivateMintRequest =
  pm_commitment :: string
  pm_contractAddress :: string
  pm_tokenId :: string
  pm_salt :: string
  pm_amount :: string
  pm_publicKey :: string
  pm_cipherText :: string

definition privateMint_witness :: "PrivateMintRequest \<Rightarrow> PrivateMintCircuit option" where
  "privateMint_witness req = do {
     commitment \<leftarrow> var (pm_commitment req); contract \<leftarrow> var (pm_contractAddress req); token \<leftarrow> var (pm_tokenId req);
     salt \<leftarrow> var (pm_salt req); amount \<leftarrow> var (pm_amount req); pk \<leftarrow> var (pm_publicKey req); tag \<leftarrow> var (pm_cipherText req);
     Some (PrivateMintCircuit.make (PrivateMintConfig.make dvp_range) commitment contract token tag salt amount pk) }"

definition privateMint_signal :: "PrivateMintRequest \<Rightarrow> int list option" where
  "privateMint_signal req = mapM ParseBigInt [pm_commitment req, pm_contractAddress req, pm_tokenId req, pm_cipherText req]"

definition privateMint_handler :: "PrivateMintCircuit groth16 \<Rightarrow> PrivateMintRequest \<Rightarrow> server_reply" where
  "privateMint_handler g req = prove_endpoint g
     (required [pm_commitment req, pm_contractAddress req, pm_tokenId req, pm_salt req, pm_amount req, pm_publicKey req,
        pm_cipherText req] [])
     (privateMint_witness req) (privateMint_signal req)"

definition dvpInit_signal :: "DvPInitiatorRequest \<Rightarrow> int list option" where
  "dvpInit_signal req = mapM ParseBigInt [stMessage req, stTreeNumber req, stMerkleRoot req, stNullifier req, stCommitB req,
     stCommitA req, stRevertCommitA req]"

definition dvpInit_handler :: "DvPInitiatorCircuit groth16 \<Rightarrow> DvPInitiatorRequest \<Rightarrow> server_reply" where
  "dvpInit_handler g body = (let req = body\<lparr>wtPathElements := json_array 8 (wtPathElements body)\<rparr> in prove_endpoint g
     (required [stMessage req, stTreeNumber req, stMerkleRoot req, stNullifier req, stCommitB req, stCommitA req, stRevertCommitA req,
        wtSpendKeyIn req, wtValueIn req, wtSaltIn req, wtTokenIdIn req, wtPathIndex req, wtSpendPkBob req, wtSaltB req,
        wtValueBob req, wtTokenIdBob req, wtSaltA req, wtRevertSalt req] [wtPathElements req])
     (dvpInit_witness req) (dvpInit_signal req))"

definition dvpDestination_signal :: "DvPDestinationRequest \<Rightarrow> int list option" where
  "dvpDestination_signal req = mapM ParseBigInt [d_stMessage req, d_stTreeNumber req, d_stMerkleRoot req, d_stNullifier req, d_stCommitA req]"

definition dvpDestination_handler :: "DvPDestinationCircuit groth16 \<Rightarrow> DvPDestinationRequest \<Rightarrow> server_reply" where
  "dvpDestination_handler g body = (let req = body\<lparr>d_wtPathElements := json_array 8 (d_wtPathElements body)\<rparr> in prove_endpoint g
     (required [d_stMessage req, d_stTreeNumber req, d_stMerkleRoot req, d_stNullifier req, d_stCommitA req, d_wtSpendKeyIn req,
        d_wtValueIn req, d_wtSaltIn req, d_wtTokenIdIn req, d_wtPathIndex req, d_wtSpendPkAlice req, d_wtSaltA req, d_wtSaltB req,
        d_wtValueAlice req, d_wtTokenIdAlice req] [d_wtPathElements req])
     (dvpDestination_witness req) (dvpDestination_signal req))"

subsection \<open>Routes\<close>

datatype dvp_endpoint = EP_privateMint | EP_dvpInitiator | EP_dvpDestination | EP_merkleStatus | EP_merkleVault

definition dvp_routes :: "(string \<times> dvp_endpoint) list" where
  "dvp_routes = [(''/proof/privateMint'', EP_privateMint), (''/proof/dvpInitiator'', EP_dvpInitiator),
     (''/proof/dvpDestination'', EP_dvpDestination), (''/util/merkleStatus'', EP_merkleStatus), (''/util/merkleVault'', EP_merkleVault)]"

text \<open>
  A body is a JSON object with the fields of one request type; where another type is expected a required field is missing. The status
  handler takes what does not bind as an empty request.
\<close>

datatype dvp_body = Body_mint PrivateMintRequest | Body_init DvPInitiatorRequest | Body_dest DvPDestinationRequest
  | Body_status MerkleStatusRequest | Body_vault MerkleVaultRequest | Body_other

record dvp_backend =
  g_mint :: "PrivateMintCircuit groth16"
  g_init :: "DvPInitiatorCircuit groth16"
  g_dest :: "DvPDestinationCircuit groth16"
  status_handler :: "MerkleStatusRequest \<Rightarrow> vault_reply option"
  vault_handler :: "MerkleVaultRequest option \<Rightarrow> vault_reply option"

type_synonym dvp_answer = "server_reply + vault_reply option"

definition dvp_handle :: "dvp_backend \<Rightarrow> dvp_endpoint \<Rightarrow> dvp_body \<Rightarrow> dvp_answer" where
  "dvp_handle b e body = (case e of
     EP_privateMint \<Rightarrow> Inl (case body of Body_mint r \<Rightarrow> privateMint_handler (g_mint b) r | _ \<Rightarrow> Failed 400 Stage_bind)
   | EP_dvpInitiator \<Rightarrow> Inl (case body of Body_init r \<Rightarrow> dvpInit_handler (g_init b) r | _ \<Rightarrow> Failed 400 Stage_bind)
   | EP_dvpDestination \<Rightarrow> Inl (case body of Body_dest r \<Rightarrow> dvpDestination_handler (g_dest b) r | _ \<Rightarrow> Failed 400 Stage_bind)
   | EP_merkleStatus \<Rightarrow> Inr (status_handler b (case body of Body_status r \<Rightarrow> r | _ \<Rightarrow> \<lparr>ms_RpcUrl = [], ms_ReceiptsPath = []\<rparr>))
   | EP_merkleVault \<Rightarrow> Inr (vault_handler b (case body of Body_vault r \<Rightarrow> Some r | _ \<Rightarrow> None)))"

definition dvp_NewServer :: "dvp_Config \<Rightarrow> dvp_backend \<Rightarrow> string \<Rightarrow> string \<Rightarrow> dvp_body \<Rightarrow> dvp_answer" where
  "dvp_NewServer cfg b header path body = (
     if cfg_APIKey cfg \<noteq> [] \<and> header \<noteq> cfg_APIKey cfg then Inl (Failed 401 Stage_auth)
     else case map_of dvp_routes path of None \<Rightarrow> Inl (Failed 404 Stage_route) | Some e \<Rightarrow> dvp_handle b e body)"

text \<open>What the client reads from an answer: one without the field \<^verbatim>\<open>proof\<close> decodes to an empty proof.\<close>

definition as_posted :: "dvp_answer \<Rightarrow> server_reply" where
  "as_posted r = (case r of Inl p \<Rightarrow> p | Inr None \<Rightarrow> Failed 500 Stage_panic
     | Inr (Some v) \<Rightarrow> if reply_code v = 200 then Proved [] [] else Failed (reply_code v) Stage_bind)"

definition dvp_post :: "dvp_Config \<Rightarrow> dvp_backend \<Rightarrow> ('r \<Rightarrow> dvp_body) \<Rightarrow> 'r prover" where
  "dvp_post cfg b encode path req = (case PostProof [] (as_posted (dvp_NewServer cfg b [] path (encode req))) of
     Inl _ \<Rightarrow> None | Inr (prf, _) \<Rightarrow> Some prf)"

definition dvp_util :: "dvp_Config \<Rightarrow> dvp_backend \<Rightarrow> (PoseidonUtilRequest \<Rightarrow> dvp_body) \<Rightarrow> util_server" where
  "dvp_util cfg b encode path req = (case PostProof [] (as_posted (dvp_NewServer cfg b [] path (encode req))) of
     Inl _ \<Rightarrow> Some Util_refused | Inr _ \<Rightarrow> Some (Util_values []))"

subsection \<open>Minting\<close>

record PrivateMintProofResponse =
  mp_Proof :: "string list"
  mp_PublicSignal :: "string list"

record Erc20PrivateMintResult =
  mr_Commitment :: int
  mr_CipherText :: int
  mr_Salt :: int
  mr_ProofResponse :: PrivateMintProofResponse

type_synonym dvp_service = "string \<Rightarrow> dvp_body \<Rightarrow> dvp_answer"

definition post_mint :: "dvp_service \<Rightarrow> PrivateMintRequest \<Rightarrow> request_error + PrivateMintProofResponse" where
  "post_mint server req = (case PostProof [] (as_posted (server ''/proof/privateMint'' (Body_mint req))) of
     Inl e \<Rightarrow> Inl e | Inr (p, s) \<Rightarrow> Inr \<lparr>mp_Proof = p, mp_PublicSignal = s\<rparr>)"

definition Erc20PrivateMintProof ::
  "client_hash \<Rightarrow> dvp_service \<Rightarrow> int \<Rightarrow> int \<Rightarrow> int \<Rightarrow> int \<Rightarrow> int \<Rightarrow> request_error + Erc20PrivateMintResult" where
  "Erc20PrivateMintProof H server pkSpend salt amount tokenId contractAddress = (
     case client_Erc20CommitmentV2 H pkSpend salt amount tokenId of None \<Rightarrow> Inl Not_built
     | Some commitment \<Rightarrow> (case H [pkSpend, salt, contractAddress] of None \<Rightarrow> Inl Not_built
     | Some tag \<Rightarrow> (case post_mint server
         \<lparr>pm_commitment = bigInt_String commitment, pm_contractAddress = bigInt_String contractAddress, pm_tokenId = bigInt_String tokenId,
           pm_salt = bigInt_String salt, pm_amount = bigInt_String amount, pm_publicKey = bigInt_String pkSpend,
           pm_cipherText = bigInt_String tag\<rparr> of
         Inl e \<Rightarrow> Inl e
       | Inr resp \<Rightarrow> Inr \<lparr>mr_Commitment = commitment, mr_CipherText = tag, mr_Salt = salt, mr_ProofResponse = resp\<rparr>)))"

subsection \<open>Lemmas\<close>

lemma ParseBigInt_all: "mapM ParseBigInt (map bigInt_String vs) = Some vs"
  by (induction vs) (simp_all add: ParseBigInt_def SetString_String)

lemma route_lookup [simp]:
  "map_of dvp_routes ''/proof/privateMint'' = Some EP_privateMint" "map_of dvp_routes ''/proof/dvpInitiator'' = Some EP_dvpInitiator"
  "map_of dvp_routes ''/proof/dvpDestination'' = Some EP_dvpDestination"
  by (simp_all add: dvp_routes_def)

lemma unrouted [simp]: "map_of dvp_routes path = None \<Longrightarrow> dvp_post cfg b encode path req = None"
  by (simp add: dvp_post_def dvp_NewServer_def as_posted_def PostProof_def api_key_guard_def)

lemma util_unrouted: "map_of dvp_routes path = None \<Longrightarrow> dvp_util cfg b encode path req = Some Util_refused"
  by (simp add: dvp_util_def dvp_NewServer_def as_posted_def PostProof_def api_key_guard_def)

text \<open>A client exchange with an endpoint of a server without API key.\<close>

lemma posted_endpoint:
  assumes "proves_exactly g define"
  shows "PostProof [] (prove_endpoint g True (Some c) (Some sig)) =
    (case Prove g c of None \<Rightarrow> Inl (Status 500) | Some p \<Rightarrow> Inr (map bigInt_String (proofRemix p), map bigInt_String sig))"
    "Prove g c \<noteq> None \<longleftrightarrow> define c = Some ()"
  using assms by (auto simp: proves_exactly_def PostProof_def api_key_guard_def prove_endpoint_def split: option.splits)

text \<open>The initiator's request as the server sees it: its signals are the statement of the client.\<close>

lemma initiator_handled:
  assumes "initiator_from_salts H rb key saltIn v t pkB saltB vB tB saltA tr p 8 ct enc = Some (req, res)" "length (Elements p) = 8"
    and "dvpInit_witness req = Some c"
  shows "dvpInit_handler g req = prove_endpoint g True (Some c) (Some (DvPInitiatorResult.Statement res))"
proof -
  have r: "length (wtPathElements req) = 8" "\<exists>s\<in>set (wtPathElements req). s \<noteq> []" "dvpInit_signal req = Some (DvPInitiatorResult.Statement res)"
    using assms(1,2) nth_mem [of 0 "Elements p"]
    by (auto simp del: nth_mem simp: mapM_idx_take initiator_from_salts_def Let_def bind_eq_Some_conv dvpInit_signal_def ParseBigInt_def SetString_String)
  then have "req\<lparr>wtPathElements := json_array 8 (wtPathElements req)\<rparr> = req" by simp
  moreover have "required [stMessage req, stTreeNumber req, stMerkleRoot req, stNullifier req, stCommitB req, stCommitA req, stRevertCommitA req,
        wtSpendKeyIn req, wtValueIn req, wtSaltIn req, wtTokenIdIn req, wtPathIndex req, wtSpendPkBob req, wtSaltB req,
        wtValueBob req, wtTokenIdBob req, wtSaltA req, wtRevertSalt req] [wtPathElements req]"
    using assms(1) r(2) by (auto simp: initiator_from_salts_def Let_def bind_eq_Some_conv required_def)
  ultimately show ?thesis using r(3) assms(3) by (simp add: dvpInit_handler_def)
qed

lemma destination_handled:
  assumes "DvPDestinationProof H key saltIn v t pkA saltA saltB vA tA cA tr p 8 = Some (req, stmt)" "length (Elements p) = 8"
    and "dvpDestination_witness req = Some c"
  shows "dvpDestination_handler g req = prove_endpoint g True (Some c) (Some stmt)"
proof -
  have r: "length (d_wtPathElements req) = 8" "\<exists>s\<in>set (d_wtPathElements req). s \<noteq> []" "dvpDestination_signal req = Some stmt"
    using assms(1,2) nth_mem [of 0 "Elements p"]
    by (auto simp del: nth_mem simp: mapM_idx_take DvPDestinationProof_def Let_def bind_eq_Some_conv dvpDestination_signal_def ParseBigInt_def SetString_String)
  then have "req\<lparr>d_wtPathElements := json_array 8 (d_wtPathElements req)\<rparr> = req" by simp
  moreover have "required [d_stMessage req, d_stTreeNumber req, d_stMerkleRoot req, d_stNullifier req, d_stCommitA req, d_wtSpendKeyIn req,
        d_wtValueIn req, d_wtSaltIn req, d_wtTokenIdIn req, d_wtPathIndex req, d_wtSpendPkAlice req, d_wtSaltA req, d_wtSaltB req,
        d_wtValueAlice req, d_wtTokenIdAlice req] [d_wtPathElements req]"
    using assms(1) r(2) by (auto simp: DvPDestinationProof_def Let_def bind_eq_Some_conv required_def)
  ultimately show ?thesis using r(3) assms(3) by (simp add: dvpDestination_handler_def)
qed

text \<open>What a client gets from the server as it is configured.\<close>

definition exchange :: "dvp_backend \<Rightarrow> string \<Rightarrow> dvp_body \<Rightarrow> request_error + (string list \<times> string list)" where
  "exchange b path body = PostProof [] (as_posted (dvp_NewServer dvp_Load b [] path body))"

lemma exchange_endpoint:
  "exchange b ''/proof/dvpInitiator'' (Body_init ri) = PostProof [] (dvpInit_handler (g_init b) ri)"
  "exchange b ''/proof/dvpDestination'' (Body_dest rd) = PostProof [] (dvpDestination_handler (g_dest b) rd)"
  "exchange b ''/proof/privateMint'' (Body_mint rm) = PostProof [] (privateMint_handler (g_mint b) rm)"
  by (simp_all add: exchange_def dvp_NewServer_def dvp_Load_def dvp_handle_def as_posted_def)

definition toy_dvp_backend :: dvp_backend where
  "toy_dvp_backend = \<lparr>g_mint = toy_groth16 (PrivateMintCircuit_Define fr_api sum_hash), g_init = toy_groth16 (DvPInitiatorCircuit_Define fr_api sum_hash),
     g_dest = toy_groth16 (DvPDestinationCircuit_Define fr_api sum_hash), status_handler = (\<lambda>_. None), vault_handler = (\<lambda>_. None)\<rparr>"

lemma toy_dvp_backend_exact:
  "proves_exactly (g_mint toy_dvp_backend) (PrivateMintCircuit_Define fr_api sum_hash)"
  "proves_exactly (g_init toy_dvp_backend) (DvPInitiatorCircuit_Define fr_api sum_hash)"
  "proves_exactly (g_dest toy_dvp_backend) (DvPDestinationCircuit_Define fr_api sum_hash)"
  by (simp_all add: toy_dvp_backend_def toy_groth16_exact)

subsection \<open>Properties\<close>

text \<open>
  When a mint is proved. Over the configured server, a mint request with a field element as amount is answered with a proof
  exactly when the amount is below \<open>10 ^ 36\<close>; the public signals are then the commitment, the contract, the token and the tag,
  and the result holds the commitment and the salt with which the note is spent. Otherwise the answer is the status 500.
\<close>

theorem mint_proved_iff:
  assumes "gnark api" and "poseidon_agrees H pos" and "proves_exactly (g_mint b) (PrivateMintCircuit_Define api pos)"
    and "H [pk, salt, amount, t] = Some c" and "H [pk, salt, contract] = Some tag" and "0 \<le> amount" and "amount < SNARK_SCALAR_FIELD"
  shows "if amount < 10 ^ 36
    then \<exists>prf. length prf = 8 \<and> Erc20PrivateMintProof H (dvp_NewServer dvp_Load b []) pk salt amount t contract =
      Inr \<lparr>mr_Commitment = c, mr_CipherText = tag, mr_Salt = salt,
        mr_ProofResponse = \<lparr>mp_Proof = prf, mp_PublicSignal = map bigInt_String [c, contract, t, tag]\<rparr>\<rparr>
    else Erc20PrivateMintProof H (dvp_NewServer dvp_Load b []) pk salt amount t contract = Inl (Status 500)"
proof -
  let ?req = "\<lparr>pm_commitment = bigInt_String c, pm_contractAddress = bigInt_String contract, pm_tokenId = bigInt_String t,
      pm_salt = bigInt_String salt, pm_amount = bigInt_String amount, pm_publicKey = bigInt_String pk, pm_cipherText = bigInt_String tag\<rparr>"
  let ?c = "PrivateMintCircuit.make (PrivateMintConfig.make dvp_range) c contract t tag salt amount pk"
  have h: "privateMint_handler (g_mint b) ?req = prove_endpoint (g_mint b) True (Some ?c) (Some [c, contract, t, tag])"
    by (simp add: privateMint_handler_def required_def privateMint_witness_def var_String privateMint_signal_def ParseBigInt_def SetString_String)
  have "PrivateMintCircuit_Define api pos ?c = Some () \<longleftrightarrow> mint_spec pos ?c" by (rule gnark.PrivateMintCircuit_Define_iff [OF assms(1)])
  also have "\<dots> \<longleftrightarrow> fv amount < fv dvp_range"
    using assms(4,5) [THEN poseidon_agreesD [OF assms(2)]]
    by (simp add: mint_spec_def mint_note_def mint_tag_def PrivateMintCircuit.make_def PrivateMintConfig.make_def hashes_to_def)
  also have "\<dots> \<longleftrightarrow> amount < 10 ^ 36"
    using assms(6,7) by (simp add: fv_def dvp_range_def SNARK_SCALAR_FIELD_def)
  finally have d: "Prove (g_mint b) ?c \<noteq> None \<longleftrightarrow> amount < 10 ^ 36" using posted_endpoint(2) [OF assms(3)] by blast
  have "Erc20PrivateMintProof H (dvp_NewServer dvp_Load b []) pk salt amount t contract =
      (case PostProof [] (privateMint_handler (g_mint b) ?req) of Inl e \<Rightarrow> Inl e
       | Inr (prf, sig) \<Rightarrow> Inr \<lparr>mr_Commitment = c, mr_CipherText = tag, mr_Salt = salt, mr_ProofResponse = \<lparr>mp_Proof = prf, mp_PublicSignal = sig\<rparr>\<rparr>)"
    using assms(4,5) exchange_endpoint(3) [of b ?req]
    by (auto simp: Erc20PrivateMintProof_def client_Erc20CommitmentV2_def post_mint_def exchange_def split: sum.splits)
  with d show ?thesis unfolding h posted_endpoint(1) [OF assms(3)] by (auto split: option.splits)
qed

theorem mint_proved_iff_witness:
  "\<exists>prf c tag. Erc20PrivateMintProof sum_hash (dvp_NewServer dvp_Load toy_dvp_backend []) 34 11 50 9 77 =
      Inr \<lparr>mr_Commitment = c, mr_CipherText = tag, mr_Salt = 11,
        mr_ProofResponse = \<lparr>mp_Proof = prf, mp_PublicSignal = map bigInt_String [c, 77, 9, tag]\<rparr>\<rparr>"
proof -
  obtain c tag where "sum_hash [34, 11, 50, 9] = Some c" "sum_hash [34, 11, 77] = Some tag" by (simp add: sum_hash_def)
  from mint_proved_iff [OF gnark_fr_api toy_agrees toy_dvp_backend_exact(1) this] show ?thesis by (auto simp: SNARK_SCALAR_FIELD_def)
qed

text \<open>
  C17. A swap over the configured server. Alice's request is answered with a proof exactly when her note is in tree 0, or the hash collides on her
  key and the two indices; Bob's, for a note of tree 0, always. The public signals of each answer are the statement that the client
  submits to the contract, and each message is the commitment that the other proof creates.
\<close>

theorem dvp_swap_proved:
  assumes "gnark api" and "poseidon_agrees H pos" and "proves_exactly (g_init b) (DvPInitiatorCircuit_Define api pos)"
    and "proves_exactly (g_dest b) (DvPDestinationCircuit_Define api pos)"
    and "proves_note H 8 keyA saltInA vA tA pA" and "proves_note H 8 keyB saltInB vB tB pB"
    and "0 \<le> vA" "vA < dvp_range" "0 \<le> vB" "vB < dvp_range" "0 \<le> tr" "tr < 2 ^ 240"
    and "DvPInitiatorProofFromSalts H rb keyA saltInA vA tA (KeyPair.PublicKey keyB) saltB vB tB saltA tr pA 8 = Some (reqA, resA)"
    and "DvPDestinationProof H keyB saltInB vB tB (KeyPair.PublicKey keyA) saltA saltB vA tA (CommitA resA) 0 pB 8 = Some (reqB, stmtB)"
  shows "(if tr = 0 \<or> collides pos [PrivateKey keyA, Indices pA] [PrivateKey keyA, tr * 256 + Indices pA]
      then \<exists>prf. exchange b ''/proof/dvpInitiator'' (Body_init reqA) = Inr (prf, map bigInt_String (DvPInitiatorResult.Statement resA))
      else exchange b ''/proof/dvpInitiator'' (Body_init reqA) = Inl (Status 500)) \<and>
    (\<exists>prf. exchange b ''/proof/dvpDestination'' (Body_dest reqB) = Inr (prf, map bigInt_String stmtB)) \<and>
    DvPInitiatorResult.Statement resA ! 0 = stmtB ! 4 \<and> stmtB ! 0 = DvPInitiatorResult.Statement resA ! 4"
proof (intro conjI)
  note ini = assms(13) [unfolded DvPInitiatorProofFromSalts_def]
  have len: "length (Elements pA) = 8" "length (Elements pB) = 8" using assms(5,6) by (simp_all add: proves_note_def)
  obtain c where c: "dvpInit_witness reqA = Some c" "DvPInitiatorCircuit_Define api pos c = Some () \<longleftrightarrow>
      tr = 0 \<or> collides pos [PrivateKey keyA, Indices pA] [PrivateKey keyA, tr * 256 + Indices pA]"
    using initiator_accepted [OF assms(1,2,5,7-12) ini] by blast
  show "if tr = 0 \<or> collides pos [PrivateKey keyA, Indices pA] [PrivateKey keyA, tr * 256 + Indices pA]
      then \<exists>prf. exchange b ''/proof/dvpInitiator'' (Body_init reqA) = Inr (prf, map bigInt_String (DvPInitiatorResult.Statement resA))
      else exchange b ''/proof/dvpInitiator'' (Body_init reqA) = Inl (Status 500)"
    unfolding exchange_endpoint initiator_handled [OF ini len(1) c(1)] posted_endpoint(1) [OF assms(3)]
    using posted_endpoint(2) [OF assms(3), of c] c(2) by (auto split: option.splits)
  from ini len(1) obtain cA where cA: "H [KeyPair.PublicKey keyA, saltA, vB, tB] = Some cA" "CommitA resA = cA" and stA: "DvPInitiatorResult.Statement resA ! 0 = cA" and
    cB: "H [KeyPair.PublicKey keyB, saltB, vA, tA] = Some (DvPInitiatorResult.Statement resA ! 4)" by (rule initiator_witness) auto
  obtain d where d: "dvpDestination_witness reqB = Some d" "DvPDestinationCircuit_Define api pos d = Some ()"
    using destination_accepted [OF assms(1,2,6,9,10,7,8) cA(1) assms(14) [unfolded cA(2)]] by blast
  show "\<exists>prf. exchange b ''/proof/dvpDestination'' (Body_dest reqB) = Inr (prf, map bigInt_String stmtB)"
    unfolding exchange_endpoint destination_handled [OF assms(14) len(2) d(1)] posted_endpoint(1) [OF assms(4)]
    using posted_endpoint(2) [OF assms(4), of d] d(2) by (auto split: option.splits)
  from assms(14) len(2) have "stmtB ! 4 = CommitA resA \<and> H [KeyPair.PublicKey keyB, saltB, vA, tA] = Some (stmtB ! 0)"
    by (rule destination_witness) auto
  with cA(2) stA cB show "DvPInitiatorResult.Statement resA ! 0 = stmtB ! 4" "stmtB ! 0 = DvPInitiatorResult.Statement resA ! 4" by simp_all
qed

theorem dvp_swap_proved_witness:
  "\<exists>reqA resA reqB stmtB prfA prfB.
    DvPInitiatorProofFromSalts sum_hash [] (toy_key 3) 11 50 9 (KeyPair.PublicKey (toy_key 4)) 21 70 10 22 0 (toy_proof 3 11 50 9) 8 = Some (reqA, resA) \<and>
    exchange toy_dvp_backend ''/proof/dvpInitiator'' (Body_init reqA) = Inr (prfA, map bigInt_String (DvPInitiatorResult.Statement resA)) \<and>
    exchange toy_dvp_backend ''/proof/dvpDestination'' (Body_dest reqB) = Inr (prfB, map bigInt_String stmtB)"
proof -
  obtain reqA resA where a: "DvPInitiatorProofFromSalts sum_hash [] (toy_key 3) 11 50 9 (KeyPair.PublicKey (toy_key 4)) 21 70 10 22 0 (toy_proof 3 11 50 9) 8 =
      Some (reqA, resA)"
    using toy_proof_length [of 3 11 50 9] by (simp add: DvPInitiatorProofFromSalts_def initiator_from_salts_def GetNullifierWithTree_def
      client_Erc20CommitmentV2_def sum_hash_def mapM_idx_take Let_def)
  obtain reqB stmtB where b: "DvPDestinationProof sum_hash (toy_key 4) 12 70 10 (KeyPair.PublicKey (toy_key 3)) 22 21 50 9 (CommitA resA) 0 (toy_proof 4 12 70 10) 8 =
      Some (reqB, stmtB)"
    using toy_proof_length [of 4 12 70 10] by (simp add: DvPDestinationProof_def GetNullifierWithTree_def
      client_Erc20CommitmentV2_def sum_hash_def mapM_idx_take Let_def)
  from dvp_swap_proved [OF gnark_fr_api toy_agrees toy_dvp_backend_exact(2,3) toy_proves toy_proves _ _ _ _ _ _ a b] a
  show ?thesis by (auto simp: dvp_range_def)
qed

text \<open>
  Requests that no route serves. Whatever the configuration, the proving backend and the arguments, the join-split, ERC721 and ERC1155 functions and the
  two functions for the Poseidon cipher fail against this server: it has no route for their endpoints, although it contains the handlers of the cipher.
\<close>

theorem unserved_requests_fail:
  "Erc20JoinSplitProof (dvp_post cfg b enc) cr H coins nonces message valuesIn keysIn saltsIn valuesOut spendPks viewKeys d proofs trees tokenId use10_2 = None \<and>
   Erc20JoinSplitProofFromSalts (dvp_post cfg b enc) H message valuesIn keysIn saltsIn valuesOut spendPks saltsOut cts encs d proofs trees tokenId use10_2 = None \<and>
   Erc20WithdrawProof (dvp_post cfg b enc) H message valuesIn keysIn saltsIn amount recipient dummy d proofs trees tokenId use10_2 = None \<and>
   Erc721OwnershipProof (dvp_post cfg b enc721) cr H coin nonce message v keyIn saltIn keyOut viewKey d p tr contract = None \<and>
   Erc1155NonFungibleOwnershipProof (dvp_post cfg b enc1155) cr H coin nonce message v keyIn saltIn keyOut viewKey d p tr contract tokenId agTree agProof = None \<and>
   Erc1155FungibleJoinSplitProof (dvp_post cfg b encFung) cr H coins nonces message valuesIn keysIn saltsIn valuesOut keysOut viewKeys1155 d proofs trees contract tokenId
     agTree agProof = None \<and>
   PoseidonEncrypt (dvp_util cfg b encUtil) key nn n plaintext = None \<and> AuditorDecrypt (dvp_util cfg b encUtil) x y nn cs n = None"
proof (intro conjI)
  have u: "map_of dvp_routes (joinsplit_endpoint use10_2) = None" "map_of dvp_routes ''/proof/ownershipERC721'' = None"
      "map_of dvp_routes ''/proof/erc1155NonFungible'' = None" "map_of dvp_routes ''/proof/erc155Fungible'' = None"
      "map_of dvp_routes ''/util/poseidonEncrypt'' = None" "map_of dvp_routes ''/util/poseidonDecrypt'' = None"
    by (simp_all add: dvp_routes_def joinsplit_endpoint_def)
  have j: "submit_joinsplit (dvp_post cfg b enc) use10_2 m ts vi ki si dd mp t ins pks vo so cm ct en = None" for m ts vi ki si dd mp t ins pks vo so cm ct en
    using u(1) by (simp add: submit_joinsplit_def Let_def bind_eq_None_conv)
  show "Erc20JoinSplitProof (dvp_post cfg b enc) cr H coins nonces message valuesIn keysIn saltsIn valuesOut spendPks viewKeys d proofs trees tokenId use10_2 = None"
    by (simp add: Erc20JoinSplitProof_def j bind_eq_None_conv)
  show "Erc20JoinSplitProofFromSalts (dvp_post cfg b enc) H message valuesIn keysIn saltsIn valuesOut spendPks saltsOut cts encs d proofs trees tokenId use10_2 = None"
    by (simp add: Erc20JoinSplitProofFromSalts_def j bind_eq_None_conv)
  show "Erc20WithdrawProof (dvp_post cfg b enc) H message valuesIn keysIn saltsIn amount recipient dummy d proofs trees tokenId use10_2 = None"
    by (simp add: Erc20WithdrawProof_def j bind_eq_None_conv)
  show "Erc721OwnershipProof (dvp_post cfg b enc721) cr H coin nonce message v keyIn saltIn keyOut viewKey d p tr contract = None"
    using u(2) by (simp add: Erc721OwnershipProof_def Erc721OwnershipProofFromSalt_def Let_def bind_eq_None_conv split: prod.splits)
  show "Erc1155NonFungibleOwnershipProof (dvp_post cfg b enc1155) cr H coin nonce message v keyIn saltIn keyOut viewKey d p tr contract tokenId agTree agProof = None"
    using u(3) by (auto simp: Erc1155NonFungibleOwnershipProof_def Erc1155NonFungibleOwnershipProofFromSalt_def Let_def bind_eq_None_conv split: prod.splits)
  show "Erc1155FungibleJoinSplitProof (dvp_post cfg b encFung) cr H coins nonces message valuesIn keysIn saltsIn valuesOut keysOut viewKeys1155 d proofs trees contract tokenId
      agTree agProof = None"
    using u(4) by (auto simp: Erc1155FungibleJoinSplitProof_def erc1155_joinsplit_def Let_def bind_eq_None_conv split: prod.splits)
  show "PoseidonEncrypt (dvp_util cfg b encUtil) key nn n plaintext = None" "AuditorDecrypt (dvp_util cfg b encUtil) x y nn cs n = None"
    using u(5,6) by (simp_all add: PoseidonEncrypt_def AuditorDecrypt_def util_unrouted read_util_def)
qed

end
