(* ===== verification/Legacy_Prover.thy ===== *)
theory Legacy_Prover
  imports Dvp_Server
begin

section \<open>The map-based provers and the older auction requests\<close>

text \<open>
  The rest of \<^verbatim>\<open>enygma_dvp/src/core/prover.go\<close>, \<^verbatim>\<open>prover_erc.go\<close> and \<^verbatim>\<open>prover_auction.go\<close>: the helpers on untyped values, the provers that
  pass a map of inputs through to an endpoint, \<^verbatim>\<open>GnarkProver\<close>, which chooses one of them by the name of a key file, and the typed requests of
  the first auction protocol. A payload is the list of its fields in the order of the source.
\<close>

subsection \<open>Untyped values\<close>

datatype go_value = VNil | VStr string | VInt int | VStrs "string list" | VAnys "go_value list"

type_synonym go_inputs = "string \<rightharpoonup> go_value"
type_synonym payload = "(string \<times> go_value) list"

text \<open>A slice may be nil, which has no elements and is encoded as null.\<close>

type_synonym slice = "go_value list option"

definition get :: "go_inputs \<Rightarrow> string \<Rightarrow> go_value" where
  "get inputs k = (case inputs k of None \<Rightarrow> VNil | Some v \<Rightarrow> v)"

definition elems :: "slice \<Rightarrow> go_value list" where
  "elems s = (case s of None \<Rightarrow> [] | Some vs \<Rightarrow> vs)"

definition slice_value :: "slice \<Rightarrow> go_value" where
  "slice_value s = (case s of None \<Rightarrow> VNil | Some vs \<Rightarrow> VAnys vs)"

text \<open>\<^verbatim>\<open>fmt.Sprintf("%v", v)\<close>.\<close>

fun Sprintf_v :: "go_value \<Rightarrow> string" where
  "Sprintf_v VNil = ''<nil>''"
| "Sprintf_v (VStr s) = s"
| "Sprintf_v (VInt i) = bigInt_String i"
| "Sprintf_v (VStrs ss) = ''['' @ strings_Join (CHR '' '') ss @ '']''"
| "Sprintf_v (VAnys vs) = ''['' @ strings_Join (CHR '' '') (map Sprintf_v vs) @ '']''"

definition toString :: "go_value \<Rightarrow> string" where
  "toString v = (if v = VNil then [] else Sprintf_v v)"

definition toInterfaceSlice :: "go_value \<Rightarrow> slice" where
  "toInterfaceSlice v = (case v of VAnys vs \<Rightarrow> Some vs | VStrs ss \<Rightarrow> Some (map VStr ss) | _ \<Rightarrow> None)"

definition toStringSlice :: "go_value \<Rightarrow> string list" where
  "toStringSlice v = map toString (elems (toInterfaceSlice v))"

definition toNestedStringSlice :: "go_value \<Rightarrow> string list list" where
  "toNestedStringSlice v = map toStringSlice (elems (toInterfaceSlice v))"

definition splitIntoTwo :: "slice \<Rightarrow> nat \<Rightarrow> slice \<times> slice" where
  "splitIntoTwo arr splitAt = (if length (elems arr) \<le> splitAt then (arr, None)
     else (Some (take splitAt (elems arr)), Some (drop splitAt (elems arr))))"

text \<open>Chunks of a fixed size; the last one is filled up with nil.\<close>

function chunks_from :: "nat \<Rightarrow> go_value list \<Rightarrow> go_value list list" where
  "chunks_from n [] = []"
| "chunks_from n (v # vs) = (if n = 0 then [] else
     (take n (v # vs) @ replicate (n - length (v # vs)) VNil) # chunks_from n (drop n (v # vs)))"
  by pat_completeness auto
termination by (relation "measure (length \<circ> snd)") auto

definition ChunkArray :: "go_value list \<Rightarrow> int \<Rightarrow> go_value list list" where
  "ChunkArray arr chunkSize = chunks_from (nat (if chunkSize \<le> 0 then 8 else chunkSize)) arr"

definition SplitPathElements :: "go_inputs \<Rightarrow> go_value list list" where
  "SplitPathElements inputs = ChunkArray (elems (toInterfaceSlice (get inputs ''wt_pathElements''))) 8"

definition chunks_value :: "go_value list list \<Rightarrow> go_value" where
  "chunks_value cs = (if cs = [] then VNil else VAnys (map VAnys cs))"

subsection \<open>Provers that pass a map through\<close>

record ProofResponse =
  resp_Status :: nat
  resp_Message :: string

type_synonym map_prover = "string \<Rightarrow> payload \<Rightarrow> (string list \<times> string list) option"

definition passed_through :: "map_prover \<Rightarrow> string \<Rightarrow> payload \<Rightarrow> ProofResponse option" where
  "passed_through post endpoint payload = do { _ \<leftarrow> post endpoint payload; Some \<lparr>resp_Status = 200, resp_Message = ''ok''\<rparr> }"

definition Erc20Proof_payload :: "go_inputs \<Rightarrow> payload" where
  "Erc20Proof_payload inputs =
    [(''StMessage'', VStr (toString (get inputs ''st_message''))),
     (''StTreeNumber'', VStrs (toStringSlice (get inputs ''st_treeNumbers''))), (''StMerkleRoots'', get inputs ''st_merkleRoots''),
     (''StNullifiers'', get inputs ''st_nullifiers''), (''StCommitmentOut'', get inputs ''st_commitmentsOut''),
     (''WtPrivateKeysIn'', get inputs ''wt_privateKeysIn''), (''WtPublicKeysOut'', get inputs ''wt_publicKeysOut''),
     (''WtPathElements'', chunks_value (SplitPathElements inputs)),
     (''WtPathIndices'', VStrs (toStringSlice (get inputs ''wt_pathIndices''))), (''WtValuesIn'', get inputs ''wt_valuesIn''),
     (''WtValuesOut'', get inputs ''wt_valuesOut''),
     (''WtErc20ContractAddress'', VStr (toString (get inputs ''wt_erc20ContractAddress'')))]"

definition Erc20Proof :: "map_prover \<Rightarrow> go_inputs \<Rightarrow> string \<Rightarrow> ProofResponse option" where
  "Erc20Proof post inputs zkeyPath = passed_through post
     (if zkeyPath = ''./build/JoinSplitErc20_10_2.zkey'' then ''/proof/joinSplitERC20_10_2'' else ''/proof/joinSplitERC20'') (Erc20Proof_payload inputs)"

definition Erc721Proof_payload :: "go_inputs \<Rightarrow> payload" where
  "Erc721Proof_payload inputs =
    [(''StMessage'', get inputs ''st_message''), (''StTreeNumbers'', VStrs (toStringSlice (get inputs ''st_treeNumbers''))),
     (''StMerkleRoots'', VStrs (toStringSlice (get inputs ''st_merkleRoots''))), (''StNullifiers'', get inputs ''st_nullifiers''),
     (''StCommitmentOut'', get inputs ''st_commitmentsOut''), (''WtPrivateKeysIn'', get inputs ''wt_privateKeysIn''),
     (''WtValues'', get inputs ''wt_values''), (''WtPathElements'', VAnys [get inputs ''wt_pathElements'']),
     (''WtPathIndices'', get inputs ''wt_pathIndices''), (''WtPublicKeysOut'', get inputs ''wt_publicKeysOut'')]"

definition Erc721Proof :: "map_prover \<Rightarrow> go_inputs \<Rightarrow> ProofResponse option" where
  "Erc721Proof post inputs = passed_through post ''/proof/ownershipERC721'' (Erc721Proof_payload inputs)"

definition Erc1155FungibleProof_payload :: "go_inputs \<Rightarrow> payload" where
  "Erc1155FungibleProof_payload inputs =
    (let (split1, split2) = splitIntoTwo (toInterfaceSlice (get inputs ''wt_pathElements'')) 8 in
    [(''StMessage'', get inputs ''st_message''), (''StTreeNumbers'', VStrs (toStringSlice (get inputs ''st_treeNumbers''))),
     (''StMerkleRoots'', get inputs ''st_merkleRoots''), (''StCommitmentOut'', get inputs ''st_commitmentsOut''),
     (''StNullifiers'', get inputs ''st_nullifiers''),
     (''StAssetGroupMerkleRoot'', VStr (toString (get inputs ''st_assetGroup_merkleRoot''))),
     (''StAssetGroupTreeNumber'', VStr (toString (get inputs ''st_assetGroup_treeNumber''))),
     (''WtPrivateKeysIn'', get inputs ''wt_privateKeysIn''), (''WtValuesIn'', VStrs (toStringSlice (get inputs ''wt_valuesIn''))),
     (''WtPathElements'', VAnys [slice_value split1, slice_value split2]),
     (''WtPathIndices'', VStrs (toStringSlice (get inputs ''wt_pathIndices''))),
     (''WtErc1155ContractAddress'', get inputs ''wt_erc1155ContractAddress''),
     (''WtErc1155TokenId'', get inputs ''wt_erc1155TokenId''), (''WtPublicKeysOut'', get inputs ''wt_publicKeysOut''),
     (''WtValuesOut'', VStrs (toStringSlice (get inputs ''wt_valuesOut''))),
     (''WtAssetGroupPathElements'', VStrs (toStringSlice (get inputs ''wt_assetGroup_pathElements''))),
     (''WtAssetGroupPathIndices'', get inputs ''wt_assetGroup_pathIndices'')])"

definition Erc1155FungibleProof :: "map_prover \<Rightarrow> go_inputs \<Rightarrow> ProofResponse option" where
  "Erc1155FungibleProof post inputs = passed_through post ''/proof/erc155Fungible'' (Erc1155FungibleProof_payload inputs)"

definition Erc1155FungibleAuditorMapProof_payload :: "go_inputs \<Rightarrow> payload" where
  "Erc1155FungibleAuditorMapProof_payload inputs =
    (let (split1, split2) = splitIntoTwo (toInterfaceSlice (get inputs ''wt_pathElements'')) 8 in
    [(''StMessage'', get inputs ''st_message''), (''StTreeNumbers'', VStrs (toStringSlice (get inputs ''st_treeNumbers''))),
     (''StMerkleRoots'', get inputs ''st_merkleRoots''), (''StCommitmentOut'', get inputs ''st_commitmentsOut''),
     (''StNullifiers'', get inputs ''st_nullifiers''),
     (''StAssetGroupMerkleRoot'', VStr (toString (get inputs ''st_assetGroup_merkleRoot''))),
     (''StAssetGroupTreeNumber'', VStr (toString (get inputs ''st_assetGroup_treeNumber''))),
     (''WtPrivateKeysIn'', get inputs ''wt_privateKeysIn''), (''WtValuesIn'', VStrs (toStringSlice (get inputs ''wt_valuesIn''))),
     (''WtPathElements'', VAnys [slice_value split1, slice_value split2]),
     (''WtPathIndices'', VStrs (toStringSlice (get inputs ''wt_pathIndices''))),
     (''WtErc1155ContractAddress'', get inputs ''wt_erc1155ContractAddress''),
     (''WtErc1155TokenId'', get inputs ''wt_erc1155TokenId''), (''WtPublicKeysOut'', get inputs ''wt_publicKeysOut''),
     (''WtValuesOut'', VStrs (toStringSlice (get inputs ''wt_valuesOut''))),
     (''WtAssetGroupPathElements'', VStrs (toStringSlice (get inputs ''wt_assetGroup_pathElements''))),
     (''WtAssetGroupPathIndices'', get inputs ''wt_assetGroup_pathIndices''),
     (''StAuditorPublickey'', get inputs ''st_auditor_publicKey''), (''StAuditorAuthKey'', get inputs ''st_auditor_authKey''),
     (''StAuditorNonce'', get inputs ''st_auditor_nonce''), (''StAuditorEncryptedValues'', get inputs ''st_auditor_encryptedValues''),
     (''WtAuditorRandom'', get inputs ''wt_auditor_random'')])"

definition Erc1155FungibleAuditorMapProof :: "map_prover \<Rightarrow> go_inputs \<Rightarrow> ProofResponse option" where
  "Erc1155FungibleAuditorMapProof post inputs = passed_through post ''/proof/erc1155FungibleAuditor'' (Erc1155FungibleAuditorMapProof_payload inputs)"

definition Erc1155NonFungibleProof_payload :: "go_inputs \<Rightarrow> payload" where
  "Erc1155NonFungibleProof_payload inputs =
    [(''StMessage'', VStr (toString (get inputs ''st_message''))),
     (''StTreeNumbers'', VStrs (toStringSlice (get inputs ''st_treeNumbers''))), (''StMerkleRoots'', get inputs ''st_merkleRoots''),
     (''StNullifiers'', get inputs ''st_nullifiers''), (''StCommitmentOut'', get inputs ''st_commitmentsOut''),
     (''StAssetGroupTreeNumber'', VStrs (toStringSlice (get inputs ''st_assetGroup_treeNumbers''))),
     (''StAssetGroupMerkleRoot'', get inputs ''st_assetGroup_merkleRoots''), (''WtPrivateKeysIn'', get inputs ''wt_privateKeysIn''),
     (''WtValues'', get inputs ''wt_values''), (''WtPathElements'', VAnys [get inputs ''wt_pathElements'']),
     (''WtPathIndices'', get inputs ''wt_pathIndices''), (''WtErc1155TokenId'', get inputs ''wt_erc1155TokenIds''),
     (''WtPublicKeysOut'', get inputs ''wt_publicKeysOut''), (''WtErc1155ContractAddress'', get inputs ''wt_erc1155ContractAddress''),
     (''WtAssetGroupPathElements'', VAnys (map VStrs (toNestedStringSlice (get inputs ''wt_assetGroup_pathElements'')))),
     (''WtAssetGroupPathIndices'', get inputs ''wt_assetGroup_pathIndices'')]"

definition Erc1155NonFungibleProof :: "map_prover \<Rightarrow> go_inputs \<Rightarrow> ProofResponse option" where
  "Erc1155NonFungibleProof post inputs = passed_through post ''/proof/erc1155NonFungible'' (Erc1155NonFungibleProof_payload inputs)"

definition Erc1155NonFungibleWithAuditorProof_payload :: "go_inputs \<Rightarrow> payload" where
  "Erc1155NonFungibleWithAuditorProof_payload inputs =
    [(''StMessage'', VStr (toString (get inputs ''st_message''))),
     (''StTreeNumbers'', VStrs (toStringSlice (get inputs ''st_treeNumbers''))), (''StMerkleRoots'', get inputs ''st_merkleRoots''),
     (''StNullifiers'', get inputs ''st_nullifiers''), (''StCommitmentOut'', get inputs ''st_commitmentsOut''),
     (''StAssetGroupTreeNumber'', VStrs (toStringSlice (get inputs ''st_assetGroup_treeNumbers''))),
     (''StAssetGroupMerkleRoot'', get inputs ''st_assetGroup_merkleRoots''), (''WtPrivateKeysIn'', get inputs ''wt_privateKeysIn''),
     (''WtValues'', get inputs ''wt_values''), (''WtPathElements'', VAnys [get inputs ''wt_pathElements'']),
     (''WtPathIndices'', get inputs ''wt_pathIndices''), (''WtErc1155TokenIds'', get inputs ''wt_erc1155TokenIds''),
     (''WtPublicKeysOut'', get inputs ''wt_publicKeysOut''), (''WtErc1155ContractAddress'', get inputs ''wt_erc1155ContractAddress''),
     (''WtAssetGroupPathElements'', VAnys (map VStrs (toNestedStringSlice (get inputs ''wt_assetGroup_pathElements'')))),
     (''WtAssetGroupPathIndices'', get inputs ''wt_assetGroup_pathIndices''),
     (''StAuditorPublickey'', get inputs ''st_auditor_publicKey''), (''StAuditorAuthKey'', get inputs ''st_auditor_authKey''),
     (''StAuditorNonce'', get inputs ''st_auditor_nonce''), (''StAuditorEncryptedValues'', get inputs ''st_auditor_encryptedValues''),
     (''WtAuditorRandom'', get inputs ''wt_auditor_random'')]"

definition Erc1155NonFungibleWithAuditorProof :: "map_prover \<Rightarrow> go_inputs \<Rightarrow> ProofResponse option" where
  "Erc1155NonFungibleWithAuditorProof post inputs = passed_through post ''/proof/erc1155NonFungibleAuditor'' (Erc1155NonFungibleWithAuditorProof_payload inputs)"

definition AuctionInitMapProof_payload :: "go_inputs \<Rightarrow> payload" where
  "AuctionInitMapProof_payload inputs =
    [(''StBeacon'', VStr (toString (get inputs ''st_beacon''))), (''StVaultId'', VStr (toString (get inputs ''st_vaultId''))),
     (''StAuctionId'', VStr (toString (get inputs ''st_auctionId''))),
     (''StTreeNumber'', VStr (toString (get inputs ''st_treeNumber''))), (''StMerkleRoot'', get inputs ''st_merkleRoot''),
     (''StNullifier'', get inputs ''st_nullifier''),
     (''StAssetGroupMerkleRoot'', VStr (toString (get inputs ''st_assetGroup_merkleRoot''))),
     (''WtCommitment'', get inputs ''wt_commitment''), (''WtPathElements'', get inputs ''wt_pathElements''),
     (''WtPathIndices'', VStr (toString (get inputs ''wt_pathIndices''))), (''WtPrivateKey'', get inputs ''wt_privateKey''),
     (''WtIdParams'', get inputs ''wt_idParams''), (''WtContractAddress'', get inputs ''wt_contractAddress''),
     (''WtAssetGroupPathElements'', VStrs (toStringSlice (get inputs ''wt_assetGroup_pathElements''))),
     (''WtAssetGroupPathIndices'', get inputs ''wt_assetGroup_pathIndices'')]"

definition AuctionInitMapProof :: "map_prover \<Rightarrow> go_inputs \<Rightarrow> ProofResponse option" where
  "AuctionInitMapProof post inputs = passed_through post ''/proof/auctionInit'' (AuctionInitMapProof_payload inputs)"

definition AuctionBidMapProof_payload :: "go_inputs \<Rightarrow> payload" where
  "AuctionBidMapProof_payload inputs =
    (let (split1, split2) = splitIntoTwo (toInterfaceSlice (get inputs ''wt_pathElements'')) 8 in
    [(''StAuctionId'', VStr (toString (get inputs ''st_auctionId''))),
     (''StBlindedBid'', VStr (toString (get inputs ''st_blindedBid''))), (''StVaultId'', VStr (toString (get inputs ''st_vaultId''))),
     (''StTreeNumbers'', VStrs (toStringSlice (get inputs ''st_treeNumbers''))),
     (''StMerkleRoots'', VStrs (toStringSlice (get inputs ''st_merkleRoots''))),
     (''StNullifiers'', VStrs (toStringSlice (get inputs ''st_nullifiers''))),
     (''StCommitmentsOuts'', VStrs (toStringSlice (get inputs ''st_commitmentsOut''))),
     (''StAssetGroupMerkleRoot'', VStr (toString (get inputs ''st_assetGroup_merkleRoot''))),
     (''WtBidAmount'', VStr (toString (get inputs ''wt_bidAmount''))),
     (''WtBidRandom'', VStr (toString (get inputs ''wt_bidRandom''))),
     (''WtPrivateKeys'', VStrs (toStringSlice (get inputs ''wt_privateKeysIn''))),
     (''WtPathElements'', VAnys [VStrs (map toString (elems split1)), VStrs (map toString (elems split2))]),
     (''WtPathIndices'', VStrs (toStringSlice (get inputs ''wt_pathIndices''))),
     (''WtContractAddress'', VStr (toString (get inputs ''wt_contractAddress''))),
     (''WtRecipientPK'', VStrs (toStringSlice (get inputs ''wt_publicKeysOut''))),
     (''WtValuesOut'', VStrs (toStringSlice (get inputs ''wt_valuesOut''))),
     (''WtAssetGroupPathElements'', VStrs (toStringSlice (get inputs ''wt_assetGroup_pathElements''))),
     (''WtAssetGroupPathIndices'', VStr (toString (get inputs ''wt_assetGroup_pathIndices''))),
     (''WtIdParamsIn'', VAnys (map VStrs (toNestedStringSlice (get inputs ''wt_idParamsIn'')))),
     (''WtIdParamsOut'', VAnys (map VStrs (toNestedStringSlice (get inputs ''wt_idParamsOut''))))])"

definition AuctionBidMapProof :: "map_prover \<Rightarrow> go_inputs \<Rightarrow> ProofResponse option" where
  "AuctionBidMapProof post inputs = passed_through post ''/proof/auctionBid'' (AuctionBidMapProof_payload inputs)"

definition AuctionBidAuditorProof_payload :: "go_inputs \<Rightarrow> payload" where
  "AuctionBidAuditorProof_payload inputs =
    (let (split1, split2) = splitIntoTwo (toInterfaceSlice (get inputs ''wt_pathElements'')) 8 in
    [(''stBeacon'', VStr (toString (get inputs ''st_beacon''))), (''stAuctionId'', VStr (toString (get inputs ''st_auctionId''))),
     (''stBlindedBid'', VStr (toString (get inputs ''st_blindedBid''))), (''stVaultId'', VStr (toString (get inputs ''st_vaultId''))),
     (''stTreeNumbers'', VStrs (toStringSlice (get inputs ''st_treeNumbers''))),
     (''stMerkleRoots'', VStrs (toStringSlice (get inputs ''st_merkleRoots''))),
     (''stNullifiers'', VStrs (toStringSlice (get inputs ''st_nullifiers''))),
     (''stCommitmentsOuts'', VStrs (toStringSlice (get inputs ''st_commitmentsOut''))),
     (''stAssetGroupTreeNumber'', VStr (toString (get inputs ''st_assetGroup_treeNumber''))),
     (''stAssetGrupoMerkleRoot'', VStr (toString (get inputs ''st_assetGroup_merkleRoot''))),
     (''stAuctioneerPublicKey'', VStrs (toStringSlice (get inputs ''st_auctioneer_publicKey''))),
     (''stAuctioneerAuthKey'', VStrs (toStringSlice (get inputs ''st_auctioneer_authKey''))),
     (''stAuctioneerNonce'', VStr (toString (get inputs ''st_auctioneer_nonce''))),
     (''stAuctioneerEncryptedValues'', VStrs (toStringSlice (get inputs ''st_auctioneer_encryptedValues''))),
     (''wtAuctioneerRandom'', VStr (toString (get inputs ''wt_auctioneer_random''))),
     (''stAuditorPublicKey'', VStrs (toStringSlice (get inputs ''st_auditor_publicKey''))),
     (''stAuditorAuthKey'', VStrs (toStringSlice (get inputs ''st_auditor_authKey''))),
     (''stAuditorNonce'', VStr (toString (get inputs ''st_auditor_nonce''))),
     (''stAuditorEncryptedValues'', VStrs (toStringSlice (get inputs ''st_auditor_encryptedValues''))),
     (''wtAuditoRandom'', VStr (toString (get inputs ''wt_auditor_random''))),
     (''wtBidAmount'', VStr (toString (get inputs ''wt_bidAmount''))),
     (''wtBidRandom'', VStr (toString (get inputs ''wt_bidRandom''))),
     (''wtPrivateKeysIn'', VStrs (toStringSlice (get inputs ''wt_privateKeysIn''))),
     (''wtPathElements'', VAnys [VStrs (map toString (elems split1)), VStrs (map toString (elems split2))]),
     (''wtPathIndices'', VStrs (toStringSlice (get inputs ''wt_pathIndices''))),
     (''wtContractAddress'', VStr (toString (get inputs ''wt_contractAddress''))),
     (''wtPublicKeysOut'', VStrs (toStringSlice (get inputs ''wt_publicKeysOut''))),
     (''wtAssetGroupPathElements'', VStrs (toStringSlice (get inputs ''wt_assetGroup_pathElements''))),
     (''wtAssetGroupPathIndices'', VStr (toString (get inputs ''wt_assetGroup_pathIndices''))),
     (''wtIdParamsIn'', VAnys (map VStrs (toNestedStringSlice (get inputs ''wt_idParamsIn'')))),
     (''wtIdParamsOut'', VAnys (map VStrs (toNestedStringSlice (get inputs ''wt_idParamsOut''))))])"

definition AuctionBidAuditorProof :: "map_prover \<Rightarrow> go_inputs \<Rightarrow> ProofResponse option" where
  "AuctionBidAuditorProof post inputs = passed_through post ''/proof/auctionBidAuditor'' (AuctionBidAuditorProof_payload inputs)"

definition AuctionInitAuditorProof_payload :: "go_inputs \<Rightarrow> payload" where
  "AuctionInitAuditorProof_payload inputs =
    [(''StBeacon'', VStr (toString (get inputs ''st_beacon''))), (''StAuctionId'', VStr (toString (get inputs ''st_auctionId''))),
     (''StVaultId'', VStr (toString (get inputs ''st_vaultId''))), (''StTreeNumber'', VStr (toString (get inputs ''st_treeNumber''))),
     (''StMerkleRoot'', get inputs ''st_merkleRoot''), (''StNullifier'', get inputs ''st_nullifier''),
     (''StAuditorPublicKey'', VStrs (toStringSlice (get inputs ''st_auditor_publicKey''))),
     (''StAuditorAuthKey'', VStrs (toStringSlice (get inputs ''st_auditor_authKey''))),
     (''StAuditorNonce'', get inputs ''st_auditor_nonce''),
     (''StAuditorEncryptedValues'', VStrs (toStringSlice (get inputs ''st_auditor_encryptedValues''))),
     (''WtAuditorRandom'', get inputs ''wt_auditor_random''), (''StAssetGroupTreeNumber'', get inputs ''st_assetGroup_treeNumber''),
     (''StAssetGroupMerkleRoot'', VStr (toString (get inputs ''st_assetGroup_merkleRoot''))),
     (''WtCommitment'', get inputs ''wt_commitment''), (''WtPathElements'', get inputs ''wt_pathElements''),
     (''WtPathIndices'', VStr (toString (get inputs ''wt_pathIndices''))), (''WtPrivateKey'', get inputs ''wt_privateKey''),
     (''WtIdParams'', get inputs ''wt_idParams''), (''WtContractAddress'', get inputs ''wt_contractAddress''),
     (''WtAssetGroupPathElements'', VStrs (toStringSlice (get inputs ''wt_assetGroup_pathElements''))),
     (''WtAssetGroupPathIndices'', get inputs ''wt_assetGroup_pathIndices'')]"

definition AuctionInitAuditorProof :: "map_prover \<Rightarrow> go_inputs \<Rightarrow> ProofResponse option" where
  "AuctionInitAuditorProof post inputs = passed_through post ''/proof/auctionInitAuditor'' (AuctionInitAuditorProof_payload inputs)"

definition AuctionPrivateOpeningProof_payload :: "go_inputs \<Rightarrow> payload" where
  "AuctionPrivateOpeningProof_payload inputs =
    [(''StVaultId'', VStr (toString (get inputs ''st_auctionId''))),
     (''StBlindedBid'', VStr (toString (get inputs ''st_blindedBid''))),
     (''WtBidAmount'', VStr (toString (get inputs ''wt_bidAmount''))),
     (''WtBidRandom'', VStr (toString (get inputs ''wt_bidRandom'')))]"

definition AuctionPrivateOpeningProof :: "map_prover \<Rightarrow> go_inputs \<Rightarrow> ProofResponse option" where
  "AuctionPrivateOpeningProof post inputs = passed_through post ''/proof/auctionPrivateOpening'' (AuctionPrivateOpeningProof_payload inputs)"

definition AuctionNotWinningBidProof_payload :: "go_inputs \<Rightarrow> payload" where
  "AuctionNotWinningBidProof_payload inputs =
    [(''StVaultId'', VStr (toString (get inputs ''st_auctionId''))),
     (''StBlindedBidDifference'', VStr (toString (get inputs ''st_blindedBidDifference''))),
     (''StBidBlockNumber'', VStr (toString (get inputs ''st_bidBlockNumber''))),
     (''StWinningBidBlockNumber'', VStr (toString (get inputs ''st_winningBidBlockNumber''))),
     (''WtBidAmount'', VStr (toString (get inputs ''wt_bidAmount''))),
     (''WtBidRandom'', VStr (toString (get inputs ''wt_bidRandom''))),
     (''WtWinningBidAmount'', VStr (toString (get inputs ''wt_winningBidAmount''))),
     (''WtWinningBidRandom'', VStr (toString (get inputs ''wt_winningBidRandom'')))]"

definition AuctionNotWinningBidProof :: "map_prover \<Rightarrow> go_inputs \<Rightarrow> ProofResponse option" where
  "AuctionNotWinningBidProof post inputs = passed_through post ''/proof/auctionNotWinning'' (AuctionNotWinningBidProof_payload inputs)"

definition PrivateMintProof_payload :: "go_inputs \<Rightarrow> payload" where
  "PrivateMintProof_payload inputs =
    (let salt = (case inputs ''salt'' of None \<Rightarrow> ''0'' | Some s \<Rightarrow> if s = VNil then ''0'' else toString s) in
    [(''commitment'', VStr (toString (get inputs ''commitment''))), (''contractAddress'', VStr (toString (get inputs ''contractAddress''))),
     (''tokenId'', VStr (toString (get inputs ''tokenId''))), (''salt'', VStr salt), (''amount'', VStr (toString (get inputs ''amount''))),
     (''publicKey'', VStr (toString (get inputs ''publicKey''))), (''cipherText'', VStr (toString (get inputs ''cipherText'')))])"

definition PrivateMintProof :: "map_prover \<Rightarrow> go_inputs \<Rightarrow> PrivateMintProofResponse option" where
  "PrivateMintProof post inputs = do {
     (p, s) \<leftarrow> post ''/proof/privateMint'' (PrivateMintProof_payload inputs);
     Some \<lparr>mp_Proof = p, mp_PublicSignal = s\<rparr> }"

subsection \<open>Dispatch by key file\<close>

fun strings_Contains :: "string \<Rightarrow> string \<Rightarrow> bool" where
  "strings_Contains [] sub \<longleftrightarrow> sub = []"
| "strings_Contains (c # cs) sub \<longleftrightarrow> take (length sub) (c # cs) = sub \<or> strings_Contains cs sub"

text \<open>The cases of the switch in their order; the first name contained in the path is taken.\<close>

datatype zkey_case = Case_OwnershipErc721 | Case_JoinSplitErc20 | Case_OwnershipErc1155NonFungibleWithAuditor | Case_OwnershipErc1155NonFungible
  | Case_JoinSplitErc1155WithAuditor | Case_JoinSplitErc1155 | Case_AuctionInit_Auditor | Case_AuctionInit
  | Case_AuctionBid_Auditor | Case_AuctionBid | Case_AuctionPrivateOpening | Case_AuctionNotWinningBid | Case_PrivateMint

definition zkey_cases :: "(string \<times> zkey_case) list" where
  "zkey_cases = [(''OwnershipErc721'', Case_OwnershipErc721),
     (''JoinSplitErc20'', Case_JoinSplitErc20),
     (''OwnershipErc1155NonFungibleWithAuditor'', Case_OwnershipErc1155NonFungibleWithAuditor),
     (''OwnershipErc1155NonFungible'', Case_OwnershipErc1155NonFungible),
     (''JoinSplitErc1155WithAuditor'', Case_JoinSplitErc1155WithAuditor),
     (''JoinSplitErc1155'', Case_JoinSplitErc1155),
     (''AuctionInit_Auditor'', Case_AuctionInit_Auditor),
     (''AuctionInit'', Case_AuctionInit),
     (''AuctionBid_Auditor'', Case_AuctionBid_Auditor),
     (''AuctionBid'', Case_AuctionBid),
     (''AuctionPrivateOpening'', Case_AuctionPrivateOpening),
     (''AuctionNotWinningBid'', Case_AuctionNotWinningBid),
     (''PrivateMint'', Case_PrivateMint)]"

definition zkey_dispatch :: "string \<Rightarrow> zkey_case option" where
  "zkey_dispatch zkeyPath = map_option snd (find (\<lambda>(name, _). strings_Contains zkeyPath name) zkey_cases)"

text \<open>The two pointers of the source: one response or the other; the error for an unknown name is \<^term>\<open>None\<close> like every other.\<close>

definition GnarkProver :: "map_prover \<Rightarrow> go_inputs \<Rightarrow> string \<Rightarrow> (ProofResponse + PrivateMintProofResponse) option" where
  "GnarkProver post inputs zkeyPath = Option.bind (zkey_dispatch zkeyPath) (\<lambda>c. case c of
     Case_OwnershipErc721 \<Rightarrow> map_option Inl (Erc721Proof post inputs)
   | Case_JoinSplitErc20 \<Rightarrow> map_option Inl (Erc20Proof post inputs zkeyPath)
   | Case_OwnershipErc1155NonFungibleWithAuditor \<Rightarrow> map_option Inl (Erc1155NonFungibleWithAuditorProof post inputs)
   | Case_OwnershipErc1155NonFungible \<Rightarrow> map_option Inl (Erc1155NonFungibleProof post inputs)
   | Case_JoinSplitErc1155WithAuditor \<Rightarrow> map_option Inl (Erc1155FungibleAuditorMapProof post inputs)
   | Case_JoinSplitErc1155 \<Rightarrow> map_option Inl (Erc1155FungibleProof post inputs)
   | Case_AuctionInit_Auditor \<Rightarrow> map_option Inl (AuctionInitAuditorProof post inputs)
   | Case_AuctionInit \<Rightarrow> map_option Inl (AuctionInitMapProof post inputs)
   | Case_AuctionBid_Auditor \<Rightarrow> map_option Inl (AuctionBidAuditorProof post inputs)
   | Case_AuctionBid \<Rightarrow> map_option Inl (AuctionBidMapProof post inputs)
   | Case_AuctionPrivateOpening \<Rightarrow> map_option Inl (AuctionPrivateOpeningProof post inputs)
   | Case_AuctionNotWinningBid \<Rightarrow> map_option Inl (AuctionNotWinningBidProof post inputs)
   | Case_PrivateMint \<Rightarrow> map_option Inr (PrivateMintProof post inputs))"

subsection \<open>Requests of the first auction protocol\<close>

definition Erc20UniqueId :: "client_hash \<Rightarrow> int \<Rightarrow> int \<Rightarrow> int option" where
  "Erc20UniqueId H contractAddress amount = H [contractAddress, amount]"

definition Erc721UniqueId :: "client_hash \<Rightarrow> int \<Rightarrow> int \<Rightarrow> int option" where
  "Erc721UniqueId H contractAddress tokenId = H [contractAddress, tokenId]"

definition Pedersen :: "client_hash \<Rightarrow> int \<Rightarrow> int \<Rightarrow> int option" where
  "Pedersen H amount random = H [amount, random]"

definition computeUniqueId :: "client_hash \<Rightarrow> int \<Rightarrow> int \<Rightarrow> int list \<Rightarrow> int option" where
  "computeUniqueId H vault contractAddress idParams = (
     if vault = 0 then do { a \<leftarrow> idx idParams 0; Erc20UniqueId H contractAddress a }
     else if vault = 1 then do { t \<leftarrow> idx idParams 0; Erc721UniqueId H contractAddress t }
     else if vault = 2 then do { t \<leftarrow> idx idParams 1; a \<leftarrow> idx idParams 0; Erc1155UniqueId H contractAddress t a }
     else None)"

definition resolveAssetGroupProof :: "int \<Rightarrow> MerkleProof_data option \<Rightarrow> nat \<Rightarrow> int list \<times> int" where
  "resolveAssetGroupProof assetGroupMerkleRoot assetGroupMerkleProof merkleDepth = (case assetGroupMerkleProof of
     Some p \<Rightarrow> if assetGroupMerkleRoot \<noteq> 0 then (Elements p, Indices p) else (replicate merkleDepth 0, 0)
   | None \<Rightarrow> (replicate merkleDepth 0, 0))"

definition old_result :: "int list \<Rightarrow> nat \<Rightarrow> nat \<Rightarrow> ProofResult" where
  "old_result statement inputs outputs = \<lparr>pr_Proof = [], pr_Statement = statement, pr_NumberOfInputs = inputs, pr_NumberOfOutputs = outputs,
     pr_CipherText = [], pr_EncTxData = [], pr_SaltsOut = [], pr_AuditData = None\<rparr>"

abbreviation VNum :: "int \<Rightarrow> go_value" where
  "VNum v \<equiv> VStr (bigInt_String v)"

abbreviation VNums :: "int list \<Rightarrow> go_value" where
  "VNums vs \<equiv> VStrs (bigIntSliceToStrings vs)"

definition dvp_AuctionInitProof where
  "dvp_AuctionInitProof post H beacon (tokenId :: int) contract keyIn merkleDepth merkleProof merkleRoot tr vault agRoot agProof idParams = do {
     nf \<leftarrow> GetNullifier H (PrivateKey keyIn) (Indices merkleProof);
     uniqueId \<leftarrow> computeUniqueId H vault contract idParams;
     cm \<leftarrow> GetCommitment H uniqueId (KeyPair.PublicKey keyIn);
     auctionId \<leftarrow> GetAuctionId H cm;
     let (agElements, agIndices) = resolveAssetGroupProof agRoot agProof merkleDepth;
     _ \<leftarrow> (post :: map_prover) ''/proof/auctionInit''
       [(''StBeacon'', VNum beacon), (''StVaultId'', VNum vault), (''StAuctionId'', VNum auctionId), (''StNullifier'', VNum nf),
        (''StTreeNumber'', VNum tr), (''StMerkleRoot'', VNum merkleRoot), (''WtPrivateKey'', VNum (PrivateKey keyIn)),
        (''WtPathElements'', VNums (Elements merkleProof)), (''WtPathIndices'', VNum (Indices merkleProof)), (''WtCommitment'', VNum cm),
        (''StAssetGroupMerkleRoot'', VNum agRoot), (''WtAssetGroupPathElements'', VNums agElements), (''WtAssetGroupPathIndices'', VNum agIndices),
        (''WtIdParams'', VNums idParams), (''WtContractAddress'', VNum contract)];
     Some (old_result [beacon, vault, auctionId, tr, merkleRoot, nf, agRoot] 1 1) }"

definition old_bid_input ::
  "client_hash \<Rightarrow> int \<Rightarrow> int \<Rightarrow> int list list \<Rightarrow> nat \<Rightarrow> int list \<Rightarrow> KeyPair list \<Rightarrow> MerkleProof_data option list \<Rightarrow> nat \<Rightarrow> (int \<times> int \<times> int list) option" where
  "old_bid_input H vault contract idParamsIn merkleDepth valuesIn keysIn merkleProofs i = do {
     params \<leftarrow> idx idParamsIn i;
     _ \<leftarrow> computeUniqueId H vault contract params;
     v \<leftarrow> idx valuesIn i;
     (pathIndex, elements) \<leftarrow> (if v = 0 then Some (0, replicate merkleDepth 0)
       else do { mp \<leftarrow> idx merkleProofs i; p \<leftarrow> mp; Some (Indices p, Elements p) });
     key \<leftarrow> idx keysIn i;
     nf \<leftarrow> GetNullifier H (PrivateKey key) pathIndex;
     Some (nf, pathIndex, elements) }"

definition dvp_AuctionBidProof where
  "dvp_AuctionBidProof post H auctionId bidAmount bidRandom contract valuesIn keysIn valuesOut keysOut merkleDepth merkleProofs roots trees vault
     idParamsIn idParamsOut agRoot agProof = do {
     blinded \<leftarrow> Pedersen H bidAmount bidRandom;
     ins \<leftarrow> mapM (old_bid_input H vault contract idParamsIn merkleDepth valuesIn keysIn merkleProofs) [0..<length valuesIn];
     cmts \<leftarrow> mapM (\<lambda>i. do { params \<leftarrow> idx idParamsOut i; uid \<leftarrow> computeUniqueId H vault contract params; key \<leftarrow> idx keysOut i;
         GetCommitment H uid (KeyPair.PublicKey key) }) [0..<length keysOut];
     let (agElements, agIndices) = resolveAssetGroupProof agRoot agProof merkleDepth;
     let nfs = map fst ins;
     _ \<leftarrow> (post :: map_prover) ''/proof/auctionBid''
       [(''StAuctionId'', VNum auctionId), (''StBlindedBid'', VNum blinded), (''StVaultId'', VNum vault), (''StTreeNumbers'', VNums trees),
        (''StMerkleRoots'', VNums roots), (''StNullifiers'', VNums nfs), (''StCommitmentsOuts'', VNums cmts), (''StAssetGroupMerkleRoot'', VNum agRoot),
        (''WtBidAmount'', VNum bidAmount), (''WtBidRandom'', VNum bidRandom), (''WtPrivateKeys'', VNums (map PrivateKey keysIn)),
        (''WtValuesIn'', VNums valuesIn),
        (''WtPathElements'', VAnys (map VNums (chunkBigIntSlice (concat (map (snd \<circ> snd) ins)) merkleDepth))),
        (''WtPathIndices'', VNums (map (fst \<circ> snd) ins)), (''WtContractAddress'', VNum contract),
        (''WtRecipientPK'', VNums (map KeyPair.PublicKey keysOut)), (''WtValuesOut'', VNums valuesOut),
        (''WtAssetGroupPathElements'', VNums agElements), (''WtAssetGroupPathIndices'', VNum agIndices),
        (''WtIdParamsIn'', VNums (concat idParamsIn)), (''WtIdParamsOut'', VNums (concat idParamsOut))];
     Some (old_result ([auctionId, blinded, vault] @ trees @ roots @ nfs @ cmts @ [agRoot]) 2 2) }"

definition AuctionPrivateOpeningProof2 where
  "AuctionPrivateOpeningProof2 post auctionId blindedBid bidAmount bidRandom = do {
     _ \<leftarrow> (post :: map_prover) ''/proof/auctionPrivateOpening''
       [(''StVaultId'', VNum auctionId), (''StBlindedBid'', VNum blindedBid), (''WtBidAmount'', VNum bidAmount), (''WtBidRandom'', VNum bidRandom)];
     Some (old_result [auctionId, blindedBid] 1 1) }"

definition AuctionNotWinningBidProof2 where
  "AuctionNotWinningBidProof2 post H auctionId bidBlock winningBlock bidAmount bidRandom winningAmount winningRandom = do {
     blindedBid \<leftarrow> Pedersen H bidAmount bidRandom;
     blindedWinning \<leftarrow> Pedersen H winningAmount winningRandom;
     let difference = (blindedWinning - blindedBid + SNARK_SCALAR_FIELD) mod SNARK_SCALAR_FIELD;
     _ \<leftarrow> (post :: map_prover) ''/proof/auctionNotWinning''
       [(''StAuctionId'', VNum auctionId), (''StBlindedBidDifference'', VNum difference), (''StBidBlockNumber'', VNum bidBlock),
        (''StWinningBidBlockNumber'', VNum winningBlock), (''WtBidAmount'', VNum bidAmount), (''WtBidRandom'', VNum bidRandom),
        (''WtWinningBidAmount'', VNum winningAmount), (''WtWinningBidRandom'', VNum winningRandom)];
     Some (old_result [auctionId, difference, bidBlock, winningBlock] 1 1) }"

subsection \<open>Lemmas\<close>

text \<open>The swap server behind a map-based prover; an encoder gives the body a payload has.\<close>

definition dvp_map_post :: "dvp_Config \<Rightarrow> dvp_backend \<Rightarrow> (payload \<Rightarrow> dvp_body) \<Rightarrow> map_prover" where
  "dvp_map_post cfg b encode path payload = (case PostProof [] (as_posted (dvp_NewServer cfg b [] path (encode payload))) of
     Inl _ \<Rightarrow> None | Inr r \<Rightarrow> Some r)"

lemma map_unrouted: "map_of dvp_routes path = None \<Longrightarrow> passed_through (dvp_map_post cfg b encode) path payload = None"
  by (simp add: passed_through_def dvp_map_post_def dvp_NewServer_def as_posted_def PostProof_def api_key_guard_def)

lemma zkey_dispatch_names:
  "zkey_dispatch ''./build/OwnershipErc721.zkey'' = Some Case_OwnershipErc721"
  "zkey_dispatch ''./build/JoinSplitErc20.zkey'' = Some Case_JoinSplitErc20"
  "zkey_dispatch ''./build/JoinSplitErc20_10_2.zkey'' = Some Case_JoinSplitErc20"
  "zkey_dispatch ''./build/OwnershipErc1155NonFungible.zkey'' = Some Case_OwnershipErc1155NonFungible"
  "zkey_dispatch ''./build/OwnershipErc1155NonFungibleWithAuditor.zkey'' = Some Case_OwnershipErc1155NonFungibleWithAuditor"
  "zkey_dispatch ''./build/JoinSplitErc1155.zkey'' = Some Case_JoinSplitErc1155"
  "zkey_dispatch ''./build/JoinSplitErc1155WithAuditor.zkey'' = Some Case_JoinSplitErc1155WithAuditor"
  "zkey_dispatch ''./build/AuctionInit.zkey'' = Some Case_AuctionInit"
  "zkey_dispatch ''./build/AuctionInit_Auditor.zkey'' = Some Case_AuctionInit_Auditor"
  "zkey_dispatch ''./build/AuctionBid.zkey'' = Some Case_AuctionBid"
  "zkey_dispatch ''./build/AuctionBid_Auditor.zkey'' = Some Case_AuctionBid_Auditor"
  "zkey_dispatch ''./build/AuctionPrivateOpening.zkey'' = Some Case_AuctionPrivateOpening"
  "zkey_dispatch ''./build/AuctionNotWinningBid.zkey'' = Some Case_AuctionNotWinningBid"
  "zkey_dispatch ''./build/PrivateMint.zkey'' = Some Case_PrivateMint"
  "zkey_dispatch ''./build/DvPInitiator.zkey'' = None"
  by code_simp+

lemmas passed_provers = Erc721Proof_def Erc20Proof_def Erc1155NonFungibleWithAuditorProof_def Erc1155NonFungibleProof_def
  Erc1155FungibleAuditorMapProof_def Erc1155FungibleProof_def AuctionInitAuditorProof_def AuctionInitMapProof_def AuctionBidAuditorProof_def
  AuctionBidMapProof_def AuctionPrivateOpeningProof_def AuctionNotWinningBidProof_def

lemma chunks_from_step:
  "vs \<noteq> [] \<Longrightarrow> 0 < n \<Longrightarrow> chunks_from n vs = (take n vs @ replicate (n - length vs) VNil) # chunks_from n (drop n vs)"
  by (cases vs) simp_all

declare chunks_from.simps(2) [simp del]

lemma chunks_from_concat:
  assumes "0 < n"
  shows "(\<forall>c\<in>set (chunks_from n vs). length c = n) \<and> length vs \<le> n * length (chunks_from n vs) \<and>
    n * length (chunks_from n vs) < length vs + n \<and>
    concat (chunks_from n vs) = vs @ replicate (n * length (chunks_from n vs) - length vs) VNil"
proof (induction "length vs" arbitrary: vs rule: less_induct)
  case less
  show ?case
  proof (cases "vs = []")
    case False
    then have shorter: "length (drop n vs) < length vs" using assms by simp
    show ?thesis
    proof (cases "n \<le> length vs")
      case True
      define cs where "cs = chunks_from n (drop n vs)"
      have cs: "\<forall>c\<in>set cs. length c = n" "length vs - n \<le> n * length cs" "n * length cs < length vs - n + n"
          "concat cs = drop n vs @ replicate (n * length cs - (length vs - n)) VNil"
        using less [OF shorter] unfolding cs_def [symmetric] by simp_all
      have e: "chunks_from n vs = take n vs # cs" using True chunks_from_step [OF False assms] by (simp add: cs_def)
      have l: "n * length (chunks_from n vs) = n + n * length cs" unfolding e by simp
      have c: "concat (chunks_from n vs) = vs @ replicate (n * length cs - (length vs - n)) VNil"
        unfolding e using cs(4) by (simp flip: append_assoc)
      have "\<forall>c\<in>set (chunks_from n vs). length c = n" unfolding e using cs(1) True by simp
      with c cs(2,3) True show ?thesis unfolding l by (simp add: add.commute)
    next
      case short: False
      then have "drop n vs = []" by simp
      then show ?thesis using short False unfolding chunks_from_step [OF False assms] by (simp add: Suc_le_eq)
    qed
  qed (use assms in simp)
qed

subsection \<open>Properties\<close>

text \<open>
  Chunking loses nothing: for a positive size every chunk has exactly that size, and joined together the chunks are the elements followed by
  fewer than one chunk of nil; a size that is not positive stands for 8.
\<close>

theorem ChunkArray_roundtrip:
  "\<exists>k. concat (ChunkArray arr n) = arr @ replicate k VNil \<and> int k < (if n \<le> 0 then 8 else n) \<and>
    (\<forall>c\<in>set (ChunkArray arr n). int (length c) = (if n \<le> 0 then 8 else n))"
proof -
  define m where "m = nat (if n \<le> 0 then 8 else n)"
  have m: "0 < m" "int m = (if n \<le> 0 then 8 else n)" by (simp_all add: m_def)
  from chunks_from_concat [OF m(1), of arr] show ?thesis unfolding ChunkArray_def m_def [symmetric] m(2) [symmetric]
    by (intro exI [of _ "m * length (chunks_from m arr) - length arr"]) (simp only: of_nat_less_iff of_nat_eq_iff, auto)
qed

theorem ChunkArray_roundtrip_witness: "\<exists>k. concat (ChunkArray (map VInt [1..10]) 0) = map VInt [1..10] @ replicate k VNil \<and> k < 8"
  using ChunkArray_roundtrip [of "map VInt [1..10]" 0] by auto

text \<open>
  The dispatch reaches every prover under the name of its own key file, although names are prefixes of others (the variants with an auditor
  are tested first); any name without one of the thirteen is refused.
\<close>

theorem GnarkProver_by_name:
  "GnarkProver post inputs ''./build/OwnershipErc721.zkey'' = map_option Inl (Erc721Proof post inputs) \<and>
   GnarkProver post inputs ''./build/JoinSplitErc20.zkey'' = map_option Inl (passed_through post ''/proof/joinSplitERC20'' (Erc20Proof_payload inputs)) \<and>
   GnarkProver post inputs ''./build/JoinSplitErc20_10_2.zkey'' =
     map_option Inl (passed_through post ''/proof/joinSplitERC20_10_2'' (Erc20Proof_payload inputs)) \<and>
   GnarkProver post inputs ''./build/OwnershipErc1155NonFungible.zkey'' = map_option Inl (Erc1155NonFungibleProof post inputs) \<and>
   GnarkProver post inputs ''./build/OwnershipErc1155NonFungibleWithAuditor.zkey'' = map_option Inl (Erc1155NonFungibleWithAuditorProof post inputs) \<and>
   GnarkProver post inputs ''./build/JoinSplitErc1155.zkey'' = map_option Inl (Erc1155FungibleProof post inputs) \<and>
   GnarkProver post inputs ''./build/JoinSplitErc1155WithAuditor.zkey'' = map_option Inl (Erc1155FungibleAuditorMapProof post inputs) \<and>
   GnarkProver post inputs ''./build/AuctionInit.zkey'' = map_option Inl (AuctionInitMapProof post inputs) \<and>
   GnarkProver post inputs ''./build/AuctionInit_Auditor.zkey'' = map_option Inl (AuctionInitAuditorProof post inputs) \<and>
   GnarkProver post inputs ''./build/AuctionBid.zkey'' = map_option Inl (AuctionBidMapProof post inputs) \<and>
   GnarkProver post inputs ''./build/AuctionBid_Auditor.zkey'' = map_option Inl (AuctionBidAuditorProof post inputs) \<and>
   GnarkProver post inputs ''./build/AuctionPrivateOpening.zkey'' = map_option Inl (AuctionPrivateOpeningProof post inputs) \<and>
   GnarkProver post inputs ''./build/AuctionNotWinningBid.zkey'' = map_option Inl (AuctionNotWinningBidProof post inputs) \<and>
   GnarkProver post inputs ''./build/PrivateMint.zkey'' = map_option Inr (PrivateMintProof post inputs) \<and>
   GnarkProver post inputs ''./build/DvPInitiator.zkey'' = None"
  by (simp add: GnarkProver_def zkey_dispatch_names Erc20Proof_def)

text \<open>
  Against the swap server only the mint goes through: whatever the configuration, the inputs and the name, the dispatch never returns the plain
  response, because none of the twelve endpoints behind it is routed.
\<close>

theorem GnarkProver_only_mint_served:
  "GnarkProver (dvp_map_post cfg b encode) inputs zkeyPath \<noteq> Some (Inl r)"
proof -
  have u: "passed_through (dvp_map_post cfg b encode) path payload = None"
    if "path \<noteq> ''/proof/privateMint''" "path \<noteq> ''/proof/dvpInitiator''" "path \<noteq> ''/proof/dvpDestination''" "path \<noteq> ''/util/merkleStatus''"
      "path \<noteq> ''/util/merkleVault''" for path payload
    using that by (intro map_unrouted) (simp add: dvp_routes_def)
  show ?thesis unfolding GnarkProver_def passed_provers
    by (cases "zkey_dispatch zkeyPath") (simp_all add: u split: zkey_case.split)
qed

text \<open>
  The two requests about a losing bid disagree. Given the same values, the map-based prover sends the auction under the name of the
  vault, and all other fields as the typed function does.
\<close>

theorem not_winning_requests_disagree:
  assumes "Pedersen H bidAmount bidRandom = Some c" and "Pedersen H winningAmount winningRandom = Some w"
    and "inputs = [''st_auctionId'' \<mapsto> VNum auctionId, ''st_blindedBidDifference'' \<mapsto> VNum ((w - c + SNARK_SCALAR_FIELD) mod SNARK_SCALAR_FIELD),
      ''st_bidBlockNumber'' \<mapsto> VNum bidBlock, ''st_winningBidBlockNumber'' \<mapsto> VNum winningBlock, ''wt_bidAmount'' \<mapsto> VNum bidAmount,
      ''wt_bidRandom'' \<mapsto> VNum bidRandom, ''wt_winningBidAmount'' \<mapsto> VNum winningAmount, ''wt_winningBidRandom'' \<mapsto> VNum winningRandom]"
  shows "\<exists>rest. AuctionNotWinningBidProof_payload inputs = (''StVaultId'', VNum auctionId) # rest \<and>
    AuctionNotWinningBidProof2 post H auctionId bidBlock winningBlock bidAmount bidRandom winningAmount winningRandom =
      map_option (\<lambda>_. old_result [auctionId, (w - c + SNARK_SCALAR_FIELD) mod SNARK_SCALAR_FIELD, bidBlock, winningBlock] 1 1)
        (post ''/proof/auctionNotWinning'' ((''StAuctionId'', VNum auctionId) # rest))"
  using assms(1,2) unfolding assms(3)
  by (intro exI conjI, simp add: AuctionNotWinningBidProof_payload_def get_def toString_def)
    (simp add: AuctionNotWinningBidProof2_def Let_def map_option_case bind_split split: option.splits)

theorem not_winning_requests_disagree_witness:
  "\<exists>inputs rest. AuctionNotWinningBidProof_payload inputs = (''StVaultId'', VNum 5) # rest \<and>
    AuctionNotWinningBidProof2 (\<lambda>_ _. Some ([], [])) sum_hash 5 100 200 30 1 50 2 \<noteq> None"
proof -
  obtain c w where h: "Pedersen sum_hash 30 1 = Some c" "Pedersen sum_hash 50 2 = Some w" by (simp add: Pedersen_def sum_hash_def)
  from not_winning_requests_disagree [OF h refl, of 5 100 200 "\<lambda>_ _. Some ([], [])"] show ?thesis by auto
qed

end
