(* ===== verification/Retail_Server.thy ===== *)
theory Retail_Server
  imports Dvp_Server Client_Payment
begin

section \<open>The proving server of the retail package\<close>

text \<open>
  \<^verbatim>\<open>enygma_retail_payments/gnark_circuits/server\<close>: its configuration, routes and five handlers around the witnesses of
  \<open>Client_Payment\<close>. The handlers of \<^verbatim>\<open>payment\<close>, \<^verbatim>\<open>payment2in\<close> and \<^verbatim>\<open>privateMint\<close> keep the witness of a request in a variable of that
  request; those of \<^verbatim>\<open>paymentFee\<close> and \<^verbatim>\<open>paymentRelayerFeePublic\<close> keep it in one variable of the handler, which concurrent requests
  share. Both are instances of one machine that interleaves requests.
\<close>

subsection \<open>Configuration and routes\<close>

record retail_Config =
  rc_Port :: string
  rc_PaymentPk :: string
  rc_PaymentVk :: string
  rc_Payment2inPk :: string
  rc_Payment2inVk :: string
  rc_PaymentFeePk :: string
  rc_PaymentFeeVk :: string
  rc_PaymentRelayerFeePublicPk :: string
  rc_PaymentRelayerFeePublicVk :: string
  rc_PrivateMintPk :: string
  rc_PrivateMintVk :: string

definition retail_Load :: retail_Config where
  "retail_Load = \<lparr>rc_Port = ''8082'', rc_PaymentPk = ''./scripts/keys/PaymentPK.key'', rc_PaymentVk = ''./scripts/keys/PaymentVK.key'',
     rc_Payment2inPk = ''./scripts/keys/Payment2inPK.key'', rc_Payment2inVk = ''./scripts/keys/Payment2inVK.key'',
     rc_PaymentFeePk = ''./scripts/keys/PaymentFeePK.key'', rc_PaymentFeeVk = ''./scripts/keys/PaymentFeeVK.key'',
     rc_PaymentRelayerFeePublicPk = ''./scripts/keys/PaymentRelayerFeePublicPK.key'',
     rc_PaymentRelayerFeePublicVk = ''./scripts/keys/PaymentRelayerFeePublicVK.key'',
     rc_PrivateMintPk = ''./scripts/keys/PrivateMintPK.key'', rc_PrivateMintVk = ''./scripts/keys/PrivateMintVK.key''\<rparr>"

datatype retail_endpoint = EP_payment | EP_payment2in | EP_paymentFee | EP_paymentRelayerFeePublic | EP_retailMint

definition retail_routes :: "(string \<times> retail_endpoint) list" where
  "retail_routes = [(''/proof/payment'', EP_payment), (''/proof/payment2in'', EP_payment2in), (''/proof/paymentFee'', EP_paymentFee),
     (''/proof/paymentRelayerFeePublic'', EP_paymentRelayerFeePublic), (''/proof/privateMint'', EP_retailMint)]"

subsection \<open>Requests\<close>

text \<open>The arrays of a request have the sizes of the endpoint.\<close>

definition sized_request :: "nat \<Rightarrow> nat \<Rightarrow> PaymentRequest \<Rightarrow> PaymentRequest" where
  "sized_request n m req = req\<lparr>q_treeNumbers := json_array n (q_treeNumbers req), q_merkleRoots := json_array n (q_merkleRoots req),
     q_nullifiers := json_array n (q_nullifiers req), q_commitmentsOut := json_array m (q_commitmentsOut req),
     q_privateKeysIn := json_array n (q_privateKeysIn req), q_valuesIn := json_array n (q_valuesIn req), q_saltsIn := json_array n (q_saltsIn req),
     q_pathElements := map (json_array 8) (take n (q_pathElements req)) @ replicate (n - length (q_pathElements req)) (replicate 8 []),
     q_pathIndices := json_array n (q_pathIndices req), q_spendPublicKeysOut := json_array m (q_spendPublicKeysOut req),
     q_valuesOut := json_array m (q_valuesOut req), q_saltsOut := json_array m (q_saltsOut req)\<rparr>"

definition payment_bound :: "bool \<Rightarrow> PaymentRequest \<Rightarrow> bool" where
  "payment_bound fee req \<longleftrightarrow> required ([q_message req, q_contractAddress req, q_tokenId req] @ (if fee then [q_fee req] else []))
     [q_treeNumbers req, q_merkleRoots req, q_nullifiers req, q_commitmentsOut req, q_privateKeysIn req, q_valuesIn req, q_saltsIn req,
      concat (q_pathElements req), q_pathIndices req, q_spendPublicKeysOut req, q_valuesOut req, q_saltsOut req]"

subsection \<open>Handlers with a witness of their own\<close>

definition payment_handler :: "PaymentCircuit groth16 \<Rightarrow> PaymentRequest \<Rightarrow> server_reply" where
  "payment_handler g body = (let req = sized_request 1 2 body in
     prove_endpoint g (payment_bound False req) (payment_witness 1 2 req) (payment_signal 1 2 req))"

definition payment2in_handler :: "PaymentCircuit groth16 \<Rightarrow> PaymentRequest \<Rightarrow> server_reply" where
  "payment2in_handler g body = (let req = sized_request 2 2 body in
     prove_endpoint g (payment_bound False req) (payment_witness 2 2 req) (payment_signal 2 2 req))"

text \<open>The mint handler of this package is that of the swap package but for the hints it registers.\<close>

definition retail_privateMint_handler :: "PrivateMintCircuit groth16 \<Rightarrow> PrivateMintRequest \<Rightarrow> server_reply" where
  "retail_privateMint_handler g req = prove_endpoint g
     (required [pm_commitment req, pm_contractAddress req, pm_tokenId req, pm_salt req, pm_amount req, pm_publicKey req,
        pm_cipherText req] [])
     (privateMint_witness req) (privateMint_signal req)"

subsection \<open>Handlers with a shared witness\<close>

definition paymentFee_signal :: "nat \<Rightarrow> PaymentRequest \<Rightarrow> int list option" where
  "paymentFee_signal outputs req = do {
     signals \<leftarrow> payment_signal 1 outputs req;
     fee \<leftarrow> ParseBigInt (q_fee req);
     Some (signals @ [fee]) }"

text \<open>
  A request in flight: started, its fields assigned, its proof computed, or answered. The cell is the variable \<^verbatim>\<open>witness\<close>; it is assigned,
  read for the full witness, and read again for the public part. \<^term>\<open>slot\<close> says which cell a request uses.
\<close>

datatype request_pc = P_start | P_filled | P_proven groth16_proof | P_answered server_reply

record 'r job =
  job_request :: 'r
  job_pc :: request_pc

record ('r, 'c) handler_state =
  cells :: "nat \<Rightarrow> 'c option"
  jobs :: "'r job list"

record ('r, 'c) handler_code =
  slot :: "nat \<Rightarrow> nat"
  backend :: "'c groth16"
  binds :: "'r \<Rightarrow> bool"
  witness_of :: "'r \<Rightarrow> 'c option"
  signals_of :: "'r \<Rightarrow> int list option"

definition job_next :: "('r, 'c) handler_code \<Rightarrow> 'c option \<Rightarrow> 'r job \<Rightarrow> 'c option \<times> request_pc" where
  "job_next h cell j = (case job_pc j of
     P_start \<Rightarrow> if binds h (job_request j) then (witness_of h (job_request j), P_filled) else (cell, P_answered (Failed 400 Stage_bind))
   | P_filled \<Rightarrow> (cell, case cell of None \<Rightarrow> P_answered (Failed 500 Stage_witness)
       | Some w \<Rightarrow> (case Prove (backend h) w of None \<Rightarrow> P_answered (Failed 500 Stage_prove) | Some p \<Rightarrow> P_proven p))
   | P_proven p \<Rightarrow> (cell, P_answered (case cell of None \<Rightarrow> Failed 500 Stage_witness
       | Some w \<Rightarrow> if \<not> Verify (backend h) p w then Failed 500 Stage_verify
           else (case signals_of h (job_request j) of None \<Rightarrow> Failed 500 Stage_panic
             | Some s \<Rightarrow> Proved (map bigInt_String (proofRemix p)) (map bigInt_String s))))
   | P_answered r \<Rightarrow> (cell, P_answered r))"

definition job_step :: "('r, 'c) handler_code \<Rightarrow> nat \<Rightarrow> ('r, 'c) handler_state \<Rightarrow> ('r, 'c) handler_state" where
  "job_step h i s = (let j = jobs s ! i; k = slot h i; (c, pc) = job_next h (cells s k) j in
     \<lparr>cells = (cells s)(k := c), jobs = (jobs s)[i := j\<lparr>job_pc := pc\<rparr>]\<rparr>)"

definition handler_start :: "'r list \<Rightarrow> ('r, 'c) handler_state" where
  "handler_start reqs = \<lparr>cells = (\<lambda>_. None), jobs = map (\<lambda>r. \<lparr>job_request = r, job_pc = P_start\<rparr>) reqs\<rparr>"

inductive handler_reach :: "('r, 'c) handler_code \<Rightarrow> 'r list \<Rightarrow> ('r, 'c) handler_state \<Rightarrow> bool" for h reqs where
  reach_start: "handler_reach h reqs (handler_start reqs)"
| reach_step: "handler_reach h reqs s \<Longrightarrow> i < length (jobs s) \<Longrightarrow> handler_reach h reqs (job_step h i s)"

text \<open>The handlers that capture their witness use one cell for all requests; a handler with a variable of its own gives each request a cell.\<close>

definition paymentFee_handler :: "PaymentFeeCircuit groth16 \<Rightarrow> (PaymentRequest, PaymentFeeCircuit) handler_code" where
  "paymentFee_handler g = \<lparr>slot = (\<lambda>_. 0), backend = g, binds = payment_bound True \<circ> sized_request 1 2,
     witness_of = paymentFee_witness 2 \<circ> sized_request 1 2, signals_of = paymentFee_signal 2 \<circ> sized_request 1 2\<rparr>"

definition paymentRelayerFeePublic_handler ::
  "PaymentRelayerFeePublicCircuit groth16 \<Rightarrow> (PaymentRequest, PaymentRelayerFeePublicCircuit) handler_code" where
  "paymentRelayerFeePublic_handler g = \<lparr>slot = (\<lambda>_. 0), backend = g, binds = payment_bound True \<circ> sized_request 1 3,
     witness_of = paymentFee_witness 3 \<circ> sized_request 1 3, signals_of = paymentFee_signal 3 \<circ> sized_request 1 3\<rparr>"

definition payment_code :: "PaymentCircuit groth16 \<Rightarrow> (PaymentRequest, PaymentCircuit) handler_code" where
  "payment_code g = \<lparr>slot = (\<lambda>i. i), backend = g, binds = payment_bound False \<circ> sized_request 1 2,
     witness_of = payment_witness 1 2 \<circ> sized_request 1 2, signals_of = payment_signal 1 2 \<circ> sized_request 1 2\<rparr>"

subsection \<open>Lemmas\<close>

text \<open>What a request would be answered on its own.\<close>

definition alone :: "('r, 'c) handler_code \<Rightarrow> 'r \<Rightarrow> server_reply" where
  "alone h r = prove_endpoint (backend h) (binds h r) (witness_of h r) (signals_of h r)"

definition job_ok :: "('r, 'c) handler_code \<Rightarrow> 'c option \<Rightarrow> 'r job \<Rightarrow> bool" where
  "job_ok h cell j = (case job_pc j of
     P_start \<Rightarrow> True
   | P_filled \<Rightarrow> binds h (job_request j) \<and> cell = witness_of h (job_request j)
   | P_proven p \<Rightarrow> binds h (job_request j) \<and> cell = witness_of h (job_request j) \<and>
       (\<exists>w. witness_of h (job_request j) = Some w \<and> Prove (backend h) w = Some p)
   | P_answered r \<Rightarrow> r = alone h (job_request j))"

lemma job_next_ok:
  assumes "Compiles (backend h)" "job_ok h cell j" "job_next h cell j = (c, pc)"
  shows "job_ok h c (j\<lparr>job_pc := pc\<rparr>)"
  using assms by (auto simp: job_ok_def job_next_def alone_def prove_endpoint_def split: request_pc.splits option.splits if_splits)

lemma handler_reach_requests: "handler_reach h reqs s \<Longrightarrow> map job_request (jobs s) = reqs"
proof (induction rule: handler_reach.induct)
  case (reach_step s i)
  then show ?case by (auto simp: job_step_def Let_def split_beta map_update intro!: list_update_same_conv [THEN iffD2])
qed (simp add: handler_start_def comp_def)

text \<open>With a cell per request every interleaving answers each request as if it were alone.\<close>

lemma own_cells_invariant:
  assumes "handler_reach h reqs s" "inj (slot h)" "Compiles (backend h)"
  shows "\<forall>i<length (jobs s). job_ok h (cells s (slot h i)) (jobs s ! i)"
  using assms(1)
proof (induction rule: handler_reach.induct)
  case (reach_step s i)
  let ?j = "jobs s ! i" and ?k = "slot h i"
  obtain c pc where n: "job_next h (cells s ?k) ?j = (c, pc)" by (meson surj_pair)
  have "job_ok h c (?j\<lparr>job_pc := pc\<rparr>)" using job_next_ok [OF assms(3) _ n] reach_step by blast
  moreover have "slot h i' \<noteq> ?k" if "i' \<noteq> i" for i' using that assms(2) by (auto dest: injD)
  ultimately show ?case using reach_step n by (auto simp: job_step_def Let_def nth_list_update)
qed (simp add: handler_start_def job_ok_def)

text \<open>A schedule is a list of the requests that step.\<close>

lemma length_job_step [simp]: "length (jobs (job_step h i s)) = length (jobs s)"
  by (simp add: job_step_def Let_def split_beta)

lemma schedule_reach:
  "handler_reach h reqs s \<Longrightarrow> set is \<subseteq> {..<length (jobs s)} \<Longrightarrow> handler_reach h reqs (fold (job_step h) is s)"
proof (induction "is" arbitrary: s)
  case (Cons i "is")
  have "handler_reach h reqs (job_step h i s)" using Cons.prems by (intro reach_step) auto
  then show ?case using Cons.IH [of "job_step h i s"] Cons.prems(2) by simp
qed simp

lemma schedule_reach_start: "set is \<subseteq> {..<length reqs} \<Longrightarrow> handler_reach h reqs (fold (job_step h) is (handler_start reqs))"
  by (rule schedule_reach [OF reach_start]) (simp add: handler_start_def)

text \<open>A request for one note into two binds as it is.\<close>

lemma single_request_bound:
  assumes b: "build_payment cr H coins nonce rand (bound_input H 8 [v] [key] [Some p]) (Some addr) fee msg [v] [key] [salt] [v0, v1] [pk0, pk1]
      ek 8 [Some p] [tr] t = Some (req, res)"
    and "v \<noteq> 0" and len: "length (Elements p) = 8"
  shows "sized_request 1 2 req = req" and "payment_bound (fee \<noteq> None) req"
proof -
  have ch: "chunkBigIntSlice (Elements p) 8 = [Elements p]" using chunk_single [of "Elements p"] len by force
  obtain x xs where es: "Elements p = x # xs" "length xs = 7" using len by (cases "Elements p") auto
  from b \<open>v \<noteq> 0\<close> obtain nf salts cmts ct enc
    where out: "payment_outputs cr H coins nonce rand ek [v0, v1] [pk0, pk1] t = Some (salts, cmts, ct, enc)"
    and req: "req = \<lparr>q_message = bigInt_String msg, q_treeNumbers = [bigInt_String tr], q_merkleRoots = [bigInt_String (Root p)],
         q_nullifiers = [bigInt_String nf], q_commitmentsOut = map bigInt_String cmts, q_contractAddress = bigInt_String addr,
         q_fee = (case fee of None \<Rightarrow> [] | Some f \<Rightarrow> bigInt_String f), q_privateKeysIn = [bigInt_String (PrivateKey key)],
         q_valuesIn = [bigInt_String v], q_saltsIn = [bigInt_String salt], q_pathElements = [map bigInt_String (Elements p)],
         q_pathIndices = [bigInt_String (Indices p)], q_tokenId = bigInt_String t, q_spendPublicKeysOut = [bigInt_String pk0, bigInt_String pk1],
         q_valuesOut = [bigInt_String v0, bigInt_String v1], q_saltsOut = map bigInt_String salts\<rparr>"
    by (auto simp: build_payment_def bound_input_def payment_roots_def payment_statement_def GetNullifier_def idx_def upt_payment ch
        bigIntSliceToStrings_def bind_eq_Some_conv)
  from out obtain s0 s1 c0 c1 where x: "salts = [s0, s1]" "cmts = [c0, c1]" by (rule payment_outputs_two) auto
  show "sized_request 1 2 req = req" using len by (simp add: sized_request_def req x json_array_def numeral_2_eq_2)
  show "payment_bound (fee \<noteq> None) req" by (cases fee) (auto simp: payment_bound_def required_def req x es(1))
qed

lemma alone_handlers:
  "alone (payment_code g) req = payment_handler g req"
  "alone (paymentFee_handler gf) req = prove_endpoint gf (payment_bound True (sized_request 1 2 req))
     (paymentFee_witness 2 (sized_request 1 2 req)) (paymentFee_signal 2 (sized_request 1 2 req))"
  by (simp_all add: alone_def payment_code_def payment_handler_def paymentFee_handler_def Let_def)

lemma single_circuit_iff:
  assumes "gnark api" "poseidon_agrees H pos" "proves_note H 8 key salt v t p" "0 < v" "v < 10 ^ 36" "0 \<le> v0" "v0 < 10 ^ 36" "0 \<le> v1" "v1 < 10 ^ 36"
    and h: "H [PrivateKey key, Indices p] = Some nf" "H [pk0, s0, v0, t] = Some c0" "H [KeyPair.PublicKey key, s1, v1, t] = Some c1"
  shows "PaymentCircuit_Define api pos (single_witness 0 addr key salt v p tr nf [c0, c1] [pk0, KeyPair.PublicKey key] [v0, v1] [s0, s1] t) = Some ()
    \<longleftrightarrow> v0 + v1 = v"
proof -
  let ?c = "single_witness 0 addr key salt v p tr nf [c0, c1] [pk0, KeyPair.PublicKey key] [v0, v1] [s0, s1] t"
  have "payment_notes_ok (\<lambda>j. j \<ge> 1) pos ?c" using single_notes_ok [OF assms(2-12), of "\<lambda>j. j \<ge> 1" addr tr "()"] by (simp add: extend_unit)
  moreover have "sum_in ?c = v" "sum_out ?c = v0 + v1" using single_sums [where ext = "()"] by (simp_all add: extend_unit)
  moreover have "fv (v0 + v1) = v0 + v1" "fv v = v" using assms(4-9) by (simp_all add: fv_def SNARK_SCALAR_FIELD_def)
  ultimately show ?thesis using gnark.PaymentCircuit_Define_iff [OF assms(1), of ?c pos] by (simp add: single_witness_def)
qed

text \<open>A fee payment as its endpoint sees it.\<close>

lemma fee_request_handled:
  assumes "BoundPaymentFeeProof cr H coins nonce rand addr fee 0 [v] [key] [salt] [v0, v1] [pkBob, pkA] [ek] 8 [Some p] [tr] t = Some (req, res)"
    and "v \<noteq> 0" and "length (Elements p) = 8"
  shows "binds (paymentFee_handler g) req" and "witness_of (paymentFee_handler g) req = paymentFee_witness 2 req"
    and "payment_signal 1 2 req = Some stmt \<Longrightarrow> signals_of (paymentFee_handler g) req = Some (stmt @ [fee])"
proof -
  from assms(1) have b: "build_payment cr H coins nonce rand (bound_input H 8 [v] [key] [Some p]) (Some addr) (Some fee) 0 [v] [key] [salt]
      [v0, v1] [pkBob, pkA] ek 8 [Some p] [tr] t = Some (req, res)"
    by (simp add: BoundPaymentFeeProof_def idx_def)
  note bound = single_request_bound [OF b assms(2,3)]
  from b assms(2,3) have "q_fee req = bigInt_String fee" by (rule build_payment_single) simp
  with bound show "binds (paymentFee_handler g) req" "witness_of (paymentFee_handler g) req = paymentFee_witness 2 req"
    "payment_signal 1 2 req = Some stmt \<Longrightarrow> signals_of (paymentFee_handler g) req = Some (stmt @ [fee])"
    by (simp_all add: paymentFee_handler_def paymentFee_signal_def ParseBigInt_def SetString_String)
qed

lemma toy_fee_request:
  assumes "0 < v" "v < 10 ^ 36" "0 \<le> v0" "v0 + v1 + 5 = v" "0 \<le> v1"
  obtains req c stmt where "binds (paymentFee_handler g) req" "witness_of (paymentFee_handler g) req = Some c" "signals_of (paymentFee_handler g) req = Some stmt"
    "PaymentFeeCircuit_Define fr_api sum_hash c = Some ()" "stmt ! 2 = Root (toy_proof 3 11 v 9)"
proof -
  have v: "v0 < 2 ^ 256" "v \<noteq> 0" "v0 < 10 ^ 36" "v1 < 10 ^ 36" using assms by simp_all
  obtain req res where r: "BoundPaymentFeeProof toy_note_crypto sum_hash toy_secret (Some (replicate 12 0)) (\<lambda>_. []) 99 5 0 [v] [toy_key 3] [11] [v0, v1]
      [KeyPair.PublicKey (toy_key 4), KeyPair.PublicKey (toy_key 3)] [[]] 8 [Some (toy_proof 3 11 v 9)] [1] 9 = Some (req, res)"
    using toy_payment [of 9 v0 v] v assms(3) by (fastforce simp: BoundPaymentFeeProof_def idx_def)
  obtain c stmt where c: "paymentFee_witness 2 req = Some c" "PaymentFeeCircuit_Define fr_api sum_hash c = Some ()" "payment_signal 1 2 req = Some stmt"
      "ContractStatement res = Some (stmt @ [5])"
    using fee_request_accepted_iff_balanced [OF gnark_fr_api toy_agrees toy_proves assms(1,2,3) v(3) assms(5) v(4) _ _ r] assms(4) by auto
  from r have "build_payment toy_note_crypto sum_hash toy_secret (Some (replicate 12 0)) (\<lambda>_. []) (bound_input sum_hash 8 [v] [toy_key 3] [Some (toy_proof 3 11 v 9)])
      (Some 99) (Some 5) 0 [v] [toy_key 3] [11] [v0, v1] [KeyPair.PublicKey (toy_key 4), KeyPair.PublicKey (toy_key 3)] [] 8 [Some (toy_proof 3 11 v 9)] [1] 9 = Some (req, res)"
    by (simp add: BoundPaymentFeeProof_def idx_def)
  then have "payment_signal 1 2 req = Some stmt \<Longrightarrow> stmt ! 2 = Root (toy_proof 3 11 v 9) \<and> 2 < length stmt"
    using v(2) toy_proof_length by (rule build_payment_single) auto
  with c fee_request_handled [OF r v(2) toy_proof_length] show thesis by (intro that [of req c "stmt @ [5]"]) (auto simp: nth_append)
qed

subsection \<open>Properties\<close>

text \<open>
  C23. A payment request is answered for itself. In every interleaving of concurrent requests to \<^verbatim>\<open>/proof/payment\<close> each answer is the one that the
  request gets alone. For a note of the sender and outputs in range that answer is a proof exactly when the
  outputs make up the note, and then its signals are the statement for the contract; otherwise it is the status 500.
\<close>

theorem payment_requests_isolated:
  assumes "gnark api" and "poseidon_agrees H pos" and "proves_exactly g (PaymentCircuit_Define api pos)"
    and "proves_note H 8 key salt v t p" and "0 < v" "v < 10 ^ 36" "0 \<le> v0" "v0 < 10 ^ 36" "0 \<le> v1" "v1 < 10 ^ 36"
    and "BoundPaymentProof cr H coins nonce rand addr 0 [v] [key] [salt] [v0, v1] [pkBob, KeyPair.PublicKey key] [ek] 8 [Some p] [tr] t = Some (req, res)"
    and "handler_reach (payment_code g) reqs s" and "i < length reqs" and "reqs ! i = req" and "job_pc (jobs s ! i) = P_answered r"
  shows "r = payment_handler g req \<and> (if v0 + v1 = v
    then \<exists>prf stmt. r = Proved prf (map bigInt_String stmt) \<and> ContractStatement res = Some stmt
    else r = Failed 500 Stage_prove)"
proof -
  have comp: "Compiles g" using assms(3) by (simp add: proves_exactly_def)
  have "map job_request (jobs s) = reqs" using assms(12) by (rule handler_reach_requests)
  then have i: "i < length (jobs s)" "job_request (jobs s ! i) = req" using assms(13,14) by auto
  from own_cells_invariant [OF assms(12)] comp i(1) have "job_ok (payment_code g) (cells s i) (jobs s ! i)"
    by (auto simp: payment_code_def inj_def)
  then have r: "r = payment_handler g req" using assms(15) i(2) by (simp add: job_ok_def alone_handlers)
  have len: "length (Elements p) = 8" using assms(4) by (simp add: proves_note_def)
  from assms(11) have b: "build_payment cr H coins nonce rand (bound_input H 8 [v] [key] [Some p]) (Some addr) None 0 [v] [key] [salt]
      [v0, v1] [pkBob, KeyPair.PublicKey key] ek 8 [Some p] [tr] t = Some (req, res)"
    by (simp add: BoundPaymentProof_def idx_def)
  note bound = single_request_bound [OF b _ len]
  from b _ len obtain ss nf c0 c1
    where h: "H [PrivateKey key, Indices p] = Some nf" "H [pkBob, SaltBToField (DerivePaymentSalt cr ss), v0, t] = Some c0"
      "H [KeyPair.PublicKey key, RandomInField (rand 1), v1, t] = Some c1"
    and st: "r_statement res = [0, tr, Root p, nf, c0, c1, addr]" "r_inputs res = 1 \<and> r_outputs res = 2 \<and> r_contractAddress res = Some addr \<and> r_fee res = None"
      "payment_signal 1 2 req = Some [0, tr, Root p, nf, c0, c1, addr]"
    and w: "payment_witness 1 2 req = Some (single_witness 0 addr key salt v p tr nf [c0, c1] [pkBob, KeyPair.PublicKey key] [v0, v1]
       [SaltBToField (DerivePaymentSalt cr ss), RandomInField (rand 1)] t)"
    by (rule build_payment_single) (use assms(5) in auto)
  let ?c = "single_witness 0 addr key salt v p tr nf [c0, c1] [pkBob, KeyPair.PublicKey key] [v0, v1]
       [SaltBToField (DerivePaymentSalt cr ss), RandomInField (rand 1)] t" and ?stmt = "[0, tr, Root p, nf, c0, c1, addr]"
  have iff: "Prove g ?c \<noteq> None \<longleftrightarrow> v0 + v1 = v"
    using single_circuit_iff [OF assms(1,2,4-10) h] assms(3) by (simp add: proves_exactly_def)
  have cs: "ContractStatement res = Some ?stmt" using st by (simp add: ContractStatement_def contract_layout_def idx_def upt_payment)
  have "payment_handler g req = prove_endpoint g True (Some ?c) (Some ?stmt)"
    using bound assms(5) w st(3) by (simp add: payment_handler_def)
  also have "\<dots> = (case Prove g ?c of None \<Rightarrow> Failed 500 Stage_prove
      | Some prf \<Rightarrow> Proved (map bigInt_String (proofRemix prf)) (map bigInt_String ?stmt))"
    using assms(3) by (auto simp: prove_endpoint_def proves_exactly_def split: option.splits)
  finally show ?thesis using r iff cs by (auto split: option.splits)
qed

lemma payment_alone_run:
  assumes "slot h 0 = 0" "Compiles (backend h)"
  shows "\<exists>s. handler_reach h [req] s \<and> job_pc (jobs s ! 0) = P_answered (alone h req)"
proof -
  have "handler_reach h [req] (fold (job_step h) [0, 0, 0] (handler_start [req]))" by (rule schedule_reach_start) simp
  moreover have "job_pc (jobs (fold (job_step h) [0, 0, 0] (handler_start [req])) ! 0) = P_answered (alone h req)"
    using assms by (auto simp: handler_start_def job_step_def job_next_def alone_def prove_endpoint_def split: option.splits)
  ultimately show ?thesis by blast
qed

theorem payment_requests_isolated_witness:
  "\<exists>req res s prf stmt. BoundPaymentProof toy_note_crypto sum_hash toy_secret (Some (replicate 12 0)) (\<lambda>_. []) 99 0 [50] [toy_key 3] [11] [30, 20]
      [KeyPair.PublicKey (toy_key 4), KeyPair.PublicKey (toy_key 3)] [[]] 8 [Some (toy_proof 3 11 50 9)] [1] 9 = Some (req, res) \<and>
    handler_reach (payment_code (toy_groth16 (PaymentCircuit_Define fr_api sum_hash))) [req] s \<and>
    job_pc (jobs s ! 0) = P_answered (Proved prf (map bigInt_String stmt)) \<and> ContractStatement res = Some stmt"
proof -
  let ?g = "toy_groth16 (PaymentCircuit_Define fr_api sum_hash)"
  obtain req res where r: "BoundPaymentProof toy_note_crypto sum_hash toy_secret (Some (replicate 12 0)) (\<lambda>_. []) 99 0 [50] [toy_key 3] [11] [30, 20]
      [KeyPair.PublicKey (toy_key 4), KeyPair.PublicKey (toy_key 3)] [[]] 8 [Some (toy_proof 3 11 50 9)] [1] 9 = Some (req, res)"
    using toy_payment [of 9 30 50] by (fastforce simp: BoundPaymentProof_def idx_def)
  obtain s where s: "handler_reach (payment_code ?g) [req] s" "job_pc (jobs s ! 0) = P_answered (payment_handler ?g req)"
    using payment_alone_run [of "payment_code ?g" req] unfolding alone_handlers by (auto simp: payment_code_def toy_groth16_def)
  from payment_requests_isolated [OF gnark_fr_api toy_agrees toy_groth16_exact toy_proves _ _ _ _ _ _ r s(1) _ _ s(2)] r s
  show ?thesis by auto
qed

text \<open>
  Fee requests do not stay apart. When two requests to \<^verbatim>\<open>/proof/paymentFee\<close> overlap, there is a run in which both answers carry one and
  the same proof, that of the second request's payment, the first of them with the public signals of the first request. Neither the prover nor the
  verifier of the handler objects, because both read the shared variable.
\<close>

theorem fee_requests_share_witness:
  assumes "binds (paymentFee_handler g) r1" and "binds (paymentFee_handler g) r2"
    and "signals_of (paymentFee_handler g) r1 = Some s1" and "signals_of (paymentFee_handler g) r2 = Some s2"
    and "witness_of (paymentFee_handler g) r2 = Some c2" and "Prove g c2 = Some prf" and "Verify g prf c2"
  shows "\<exists>s. handler_reach (paymentFee_handler g) [r1, r2] s \<and>
    job_pc (jobs s ! 0) = P_answered (Proved (map bigInt_String (proofRemix prf)) (map bigInt_String s1)) \<and>
    job_pc (jobs s ! 1) = P_answered (Proved (map bigInt_String (proofRemix prf)) (map bigInt_String s2))"
proof -
  let ?h = "paymentFee_handler g"
  define run where "run = fold (job_step ?h) [0, 1, 0, 0, 1, 1] (handler_start [r1, r2])"
  have "handler_reach ?h [r1, r2] run" unfolding run_def by (rule schedule_reach_start) simp
  moreover have "job_pc (jobs run ! 0) = P_answered (Proved (map bigInt_String (proofRemix prf)) (map bigInt_String s1))"
      "job_pc (jobs run ! 1) = P_answered (Proved (map bigInt_String (proofRemix prf)) (map bigInt_String s2))"
    using assms by (simp_all add: run_def handler_start_def job_step_def job_next_def paymentFee_handler_def)
  ultimately show ?thesis by blast
qed

theorem fee_requests_share_witness_witness:
  "\<exists>r1 r2 s prf s1 s2. handler_reach (paymentFee_handler (toy_groth16 (PaymentFeeCircuit_Define fr_api sum_hash))) [r1, r2] s \<and>
    job_pc (jobs s ! 0) = P_answered (Proved prf (map bigInt_String s1)) \<and> job_pc (jobs s ! 1) = P_answered (Proved prf (map bigInt_String s2)) \<and>
    s1 ! 2 = Root (toy_proof 3 11 50 9) \<and> s2 ! 2 = Root (toy_proof 3 11 60 9)"
proof -
  let ?g = "toy_groth16 (PaymentFeeCircuit_Define fr_api sum_hash)"
  obtain r1 c1 s1 where a: "binds (paymentFee_handler ?g) r1" "witness_of (paymentFee_handler ?g) r1 = Some c1" "signals_of (paymentFee_handler ?g) r1 = Some s1"
    "PaymentFeeCircuit_Define fr_api sum_hash c1 = Some ()" "s1 ! 2 = Root (toy_proof 3 11 50 9)"
    by (rule toy_fee_request [of 50 30 15]) simp_all
  obtain r2 c2 s2 where b: "binds (paymentFee_handler ?g) r2" "witness_of (paymentFee_handler ?g) r2 = Some c2" "signals_of (paymentFee_handler ?g) r2 = Some s2"
    "PaymentFeeCircuit_Define fr_api sum_hash c2 = Some ()" "s2 ! 2 = Root (toy_proof 3 11 60 9)"
    by (rule toy_fee_request [of 60 30 25]) simp_all
  obtain pf where p: "Prove ?g c2 = Some pf" "Verify ?g pf c2" using b(4) by (simp add: toy_groth16_def)
  from fee_requests_share_witness [OF a(1) b(1) a(3) b(3,2) p] a(5) b(5) show ?thesis by blast
qed

end
