(* ===== verification/Eth_Client.thy ===== *)
theory Eth_Client
  imports Prelude
begin

section \<open>Sending a transaction\<close>

text \<open>
  What the clients use of go-ethereum, which is not part of the repository: \<^verbatim>\<open>BoundContract.Transact\<close> followed by \<^verbatim>\<open>bind.WaitMined\<close>. Sending runs
  the call once on the present state to estimate its gas, and fails when it reverts, unless the caller has fixed a gas limit. While the
  transaction is pending others may be mined before it. It is then mined, whether it reverts or not, and the caller gets its receipt:
  the logs are in it, and so is a status that none of the callers reads. \<^term>\<open>None\<close> is a wait that does not end.
\<close>

record 's tx_env =
  fixed_gas :: bool
  sent_ok :: bool
  mined_before :: "('s \<Rightarrow> 's) option"

datatype 'e tx_error = Not_sent | Call_reverts 'e

definition send_tx :: "'s tx_env \<Rightarrow> ('s \<Rightarrow> 'e + 's \<times> 'l list) \<Rightarrow> 's \<Rightarrow> (('e tx_error + 'l list) \<times> 's) option" where
  "send_tx env exec s = (if \<not> sent_ok env then Some (Inl Not_sent, s)
     else case (if fixed_gas env then None else Some (exec s)) of
       Some (Inl e) \<Rightarrow> Some (Inl (Call_reverts e), s)
     | _ \<Rightarrow> (case mined_before env of
         None \<Rightarrow> None
       | Some others \<Rightarrow> (let s1 = others s in
           Some (case exec s1 of Inl _ \<Rightarrow> (Inr [], s1) | Inr (s2, logs) \<Rightarrow> (Inr logs, s2)))))"

text \<open>A transaction that reverts in every state never changes it, and either fails or is reported as done.\<close>

lemma send_tx_reverting:
  assumes "\<And>s. \<exists>e. exec s = Inl e"
  shows "send_tx env exec s = (if \<not> sent_ok env then Some (Inl Not_sent, s)
    else if \<not> fixed_gas env then Some (Inl (Call_reverts (projl (exec s))), s)
    else map_option (\<lambda>others. (Inr [], others s)) (mined_before env))"
proof -
  from assms obtain g where "exec x = Inl (g x)" for x by metis
  then show ?thesis by (simp add: send_tx_def Let_def split: option.split)
qed

lemma send_tx_undisturbed:
  assumes "sent_ok env" "mined_before env = Some id" "exec s = Inr (s', logs)"
  shows "send_tx env exec s = Some (Inr logs, s')"
  using assms by (simp add: send_tx_def)

end
