(* ===== verification/User_Registry.thy ===== *)
theory User_Registry
  imports Tag_Payment Eth_Client
begin

section \<open>The user registry\<close>

text \<open>
  \<^verbatim>\<open>contracts/user_registry/UserRegistry.sol\<close> of the retail package and its two Go clients,
  \<^verbatim>\<open>src/core/user_registry/registry.go\<close> (registration, fees, key lookups) and \<^verbatim>\<open>private_tags/src/registry.go\<close> (what a sender
  needs to set up a channel). The contract is a state with its transactions; a client call reads the state of the chain at that
  moment, so a function that makes several calls is given a sequence of states, \<^term>\<open>None\<close> where a call does not get through.
\<close>

subsection \<open>The contract\<close>

record StoredKeys =
  registered :: bool
  sk_pkSpend :: int
  sk_pkView :: "byte list"
  sk_mlKemAuditCt :: "byte list"
  sk_aesAuditCt :: "byte list"

record registry_state =
  reg_keys :: "address \<Rightarrow> StoredKeys"
  reg_userIndex :: "address \<Rightarrow> 32 word"
  reg_userList :: "address list"
  reg_owner :: address
  registrationFee :: int
  reg_balance :: int

datatype registry_revert = AlreadyRegistered address | NotRegistered address | IndexOutOfRange int nat | InvalidPkViewLength nat
  | InvalidMlKemAuditCtLength nat | InvalidAesAuditCtLength nat | InsufficientFee int int | NotOwner | WithdrawFailed

definition new_registry :: "address \<Rightarrow> registry_state" where
  "new_registry deployer = \<lparr>reg_keys = (\<lambda>_. \<lparr>registered = False, sk_pkSpend = 0, sk_pkView = [], sk_mlKemAuditCt = [], sk_aesAuditCt = []\<rparr>),
     reg_userIndex = (\<lambda>_. 0), reg_userList = [], reg_owner = deployer, registrationFee = 0, reg_balance = 0\<rparr>"

definition register ::
  "address \<Rightarrow> int \<Rightarrow> int \<Rightarrow> byte list \<Rightarrow> byte list \<Rightarrow> byte list \<Rightarrow> registry_state \<Rightarrow> registry_revert + registry_state" where
  "register sender val pkSpend pkView mlKemAuditCt aesAuditCt s = (
     if val < registrationFee s then Inl (InsufficientFee (registrationFee s) val)
     else if length pkView \<noteq> 1184 then Inl (InvalidPkViewLength (length pkView))
     else if length mlKemAuditCt \<noteq> 1088 then Inl (InvalidMlKemAuditCtLength (length mlKemAuditCt))
     else if length aesAuditCt \<noteq> 92 then Inl (InvalidAesAuditCtLength (length aesAuditCt))
     else if registered (reg_keys s sender) then Inl (AlreadyRegistered sender)
     else Inr (s\<lparr>reg_userIndex := (reg_userIndex s)(sender := word_of_nat (length (reg_userList s))),
       reg_userList := reg_userList s @ [sender],
       reg_keys := (reg_keys s)(sender := \<lparr>registered = True, sk_pkSpend = pkSpend, sk_pkView = pkView,
         sk_mlKemAuditCt = mlKemAuditCt, sk_aesAuditCt = aesAuditCt\<rparr>),
       reg_balance := reg_balance s + val\<rparr>))"

definition getKeys :: "registry_state \<Rightarrow> address \<Rightarrow> registry_revert + int \<times> byte list" where
  "getKeys s user = (let k = reg_keys s user in
     if \<not> registered k then Inl (NotRegistered user) else Inr (sk_pkSpend k, sk_pkView k))"

definition getAuditCiphertexts :: "registry_state \<Rightarrow> address \<Rightarrow> registry_revert + byte list \<times> byte list" where
  "getAuditCiphertexts s user = (let k = reg_keys s user in
     if \<not> registered k then Inl (NotRegistered user) else Inr (sk_mlKemAuditCt k, sk_aesAuditCt k))"

definition getUserCount :: "registry_state \<Rightarrow> int" where
  "getUserCount s = int (length (reg_userList s))"

definition getUserAt :: "registry_state \<Rightarrow> int \<Rightarrow> registry_revert + address" where
  "getUserAt s index = (if index \<ge> int (length (reg_userList s)) then Inl (IndexOutOfRange index (length (reg_userList s)))
     else Inr (reg_userList s ! nat index))"

definition getUserIndex :: "registry_state \<Rightarrow> address \<Rightarrow> registry_revert + 32 word" where
  "getUserIndex s user = (if \<not> registered (reg_keys s user) then Inl (NotRegistered user) else Inr (reg_userIndex s user))"

definition setRegistrationFee :: "address \<Rightarrow> int \<Rightarrow> registry_state \<Rightarrow> registry_revert + registry_state" where
  "setRegistrationFee sender fee s = (if sender \<noteq> reg_owner s then Inl NotOwner else Inr (s\<lparr>registrationFee := fee\<rparr>))"

text \<open>Whether the owner accepts the transfer is not the contract's to decide: the flag says it.\<close>

definition withdrawFees :: "address \<Rightarrow> bool \<Rightarrow> registry_state \<Rightarrow> registry_revert + registry_state" where
  "withdrawFees sender accepted s = (if sender \<noteq> reg_owner s then Inl NotOwner
     else if \<not> accepted then Inl WithdrawFailed else Inr (s\<lparr>reg_balance := 0\<rparr>))"

datatype registry_tx = Tx_register address int int "byte list" "byte list" "byte list" | Tx_setRegistrationFee address int
  | Tx_withdrawFees address bool

fun registry_exec :: "registry_tx \<Rightarrow> registry_state \<Rightarrow> registry_revert + registry_state" where
  "registry_exec (Tx_register sender val pkSpend pkView ml aes) s = register sender val pkSpend pkView ml aes s"
| "registry_exec (Tx_setRegistrationFee sender fee) s = setRegistrationFee sender fee s"
| "registry_exec (Tx_withdrawFees sender accepted) s = withdrawFees sender accepted s"

text \<open>A reverted transaction leaves the state.\<close>

definition mine_tx :: "registry_tx \<Rightarrow> registry_state \<Rightarrow> registry_state" where
  "mine_tx tx s = (case registry_exec tx s of Inl _ \<Rightarrow> s | Inr s' \<Rightarrow> s')"

inductive registry_later :: "registry_state \<Rightarrow> registry_state \<Rightarrow> bool" for s where
  later_refl: "registry_later s s"
| later_step: "registry_later s t \<Longrightarrow> registry_later s (mine_tx tx t)"

subsection \<open>The client\<close>

datatype directory_error = Abi_not_found | Rpc_failed | Reverted registry_revert | Registry_empty | No_user_with_pkSpend int
  | Setup_failed channel_error

record UserKeys =
  SpendKey :: int
  ViewKey :: "byte list"
  MlKemAuditCt :: "byte list"
  AesAuditCt :: "byte list"

text \<open>The states that successive calls see, and whether the contract's interface file is found.\<close>

record registry_client =
  registry_abi :: bool
  registry_views :: "nat \<Rightarrow> registry_state option"

definition registry_call :: "registry_client \<Rightarrow> nat \<Rightarrow> (registry_state \<Rightarrow> registry_revert + 'a) \<Rightarrow> directory_error + 'a" where
  "registry_call c i f = (if \<not> registry_abi c then Inl Abi_not_found
     else case registry_views c i of None \<Rightarrow> Inl Rpc_failed
       | Some s \<Rightarrow> (case f s of Inl r \<Rightarrow> Inl (Reverted r) | Inr v \<Rightarrow> Inr v))"

text \<open>\<^verbatim>\<open>int(count.Int64())\<close>: the low 64 bits, signed.\<close>

definition bigInt_Int64 :: "int \<Rightarrow> int" where
  "bigInt_Int64 v = sint (word_of_int v :: 64 word)"

definition GetRegistrationFee :: "registry_client \<Rightarrow> nat \<Rightarrow> directory_error + int" where
  "GetRegistrationFee c i = registry_call c i (\<lambda>s. Inr (registrationFee s))"

definition LookupKeys :: "registry_client \<Rightarrow> nat \<Rightarrow> address \<Rightarrow> directory_error + UserKeys" where
  "LookupKeys c i user = (case registry_call c i (\<lambda>s. getKeys s user) of
       Inl e \<Rightarrow> Inl e
     | Inr (pkSpend, pkView) \<Rightarrow> Inr \<lparr>SpendKey = pkSpend, ViewKey = pkView, MlKemAuditCt = [], AesAuditCt = []\<rparr>)"

definition LookupAuditCiphertexts :: "registry_client \<Rightarrow> nat \<Rightarrow> address \<Rightarrow> directory_error + byte list \<times> byte list" where
  "LookupAuditCiphertexts c i user = registry_call c i (\<lambda>s. getAuditCiphertexts s user)"

definition GetUserCount :: "registry_client \<Rightarrow> nat \<Rightarrow> directory_error + int" where
  "GetUserCount c i = (case registry_call c i (\<lambda>s. Inr (getUserCount s)) of Inl e \<Rightarrow> Inl e | Inr n \<Rightarrow> Inr (bigInt_Int64 n))"

definition GetUserIndex :: "registry_client \<Rightarrow> nat \<Rightarrow> address \<Rightarrow> directory_error + int" where
  "GetUserIndex c i user = (case registry_call c i (\<lambda>s. getUserIndex s user) of Inl e \<Rightarrow> Inl e | Inr w \<Rightarrow> Inr (uint w))"

definition GetUserAt :: "registry_client \<Rightarrow> nat \<Rightarrow> int \<Rightarrow> directory_error + address" where
  "GetUserAt c i index = registry_call c i (\<lambda>s. getUserAt s index)"

text \<open>The transactions of the client; the other transactions that are mined before one of them are in its \<^term>\<open>mined_before\<close>.\<close>

definition transact ::
  "registry_client \<Rightarrow> nat \<Rightarrow> registry_state tx_env \<Rightarrow> registry_tx \<Rightarrow> ((directory_error + unit) \<times> registry_state option) option" where
  "transact c i env tx = (if \<not> registry_abi c then Some (Inl Abi_not_found, registry_views c i)
     else case registry_views c i of
       None \<Rightarrow> Some (Inl Rpc_failed, None)
     | Some s \<Rightarrow> map_option (\<lambda>(r, s'). (case r of Inl Not_sent \<Rightarrow> Inl Rpc_failed | Inl (Call_reverts e) \<Rightarrow> Inl (Reverted e) | Inr _ \<Rightarrow> Inr (), Some s'))
         (send_tx env (\<lambda>s. map_sum id (\<lambda>t. (t, [] :: unit list)) (registry_exec tx s)) s))"

definition Register ::
  "registry_client \<Rightarrow> registry_state tx_env \<Rightarrow> address \<Rightarrow> int \<Rightarrow> byte list \<Rightarrow> byte list \<Rightarrow> byte list \<Rightarrow> ((directory_error + unit) \<times> registry_state option) option" where
  "Register c env auth pkSpend pkView mlKemAuditCt aesAuditCt = (
     case GetRegistrationFee c 0 of
       Inl e \<Rightarrow> Some (Inl e, registry_views c 0)
     | Inr fee \<Rightarrow> transact c 1 env (Tx_register auth fee pkSpend pkView mlKemAuditCt aesAuditCt))"

definition SetRegistrationFee :: "registry_client \<Rightarrow> registry_state tx_env \<Rightarrow> address \<Rightarrow> int \<Rightarrow> ((directory_error + unit) \<times> registry_state option) option" where
  "SetRegistrationFee c env auth fee = transact c 0 env (Tx_setRegistrationFee auth fee)"

definition WithdrawFees :: "registry_client \<Rightarrow> registry_state tx_env \<Rightarrow> address \<Rightarrow> bool \<Rightarrow> ((directory_error + unit) \<times> registry_state option) option" where
  "WithdrawFees c env auth accepted = transact c 0 env (Tx_withdrawFees auth accepted)"

subsection \<open>The sender's helpers\<close>

definition GetRecipientIndex :: "registry_client \<Rightarrow> nat \<Rightarrow> address \<Rightarrow> directory_error + int" where
  "GetRecipientIndex c i recipient = (case registry_call c i (\<lambda>s. getUserIndex s recipient) of Inl e \<Rightarrow> Inl e | Inr w \<Rightarrow> Inr (uint w))"

definition GetRecipientPkView :: "registry_client \<Rightarrow> nat \<Rightarrow> address \<Rightarrow> directory_error + byte list" where
  "GetRecipientPkView c i recipient = (case registry_call c i (\<lambda>s. getKeys s recipient) of Inl e \<Rightarrow> Inl e | Inr (_, pkView) \<Rightarrow> Inr pkView)"

text \<open>Iteration \<open>j\<close> of the loop makes two calls, and skips the index when one fails.\<close>

fun find_recipient_loop :: "registry_client \<Rightarrow> int \<Rightarrow> nat \<Rightarrow> nat \<Rightarrow> directory_error + address \<times> byte list \<times> int" where
  "find_recipient_loop c pkSpend j 0 = Inl (No_user_with_pkSpend pkSpend)"
| "find_recipient_loop c pkSpend j (Suc n) = (case registry_call c (1 + 2 * j) (\<lambda>s. getUserAt s (int j)) of
       Inl _ \<Rightarrow> find_recipient_loop c pkSpend (Suc j) n
     | Inr candidate \<Rightarrow> (case registry_call c (2 + 2 * j) (\<lambda>s. getKeys s candidate) of
         Inl _ \<Rightarrow> find_recipient_loop c pkSpend (Suc j) n
       | Inr (sp, pv) \<Rightarrow> if sp = pkSpend then Inr (candidate, pv, int j) else find_recipient_loop c pkSpend (Suc j) n))"

definition FindRecipientByPkSpend :: "registry_client \<Rightarrow> int \<Rightarrow> directory_error + address \<times> byte list \<times> int" where
  "FindRecipientByPkSpend c pkSpend = (case registry_call c 0 (\<lambda>s. Inr (getUserCount s)) of
       Inl e \<Rightarrow> Inl e
     | Inr n \<Rightarrow> find_recipient_loop c pkSpend 0 (nat (bigInt_Int64 n)))"

definition PrepareChannelSetupForRecipient ::
  "crypto \<Rightarrow> byte list \<Rightarrow> byte list option \<Rightarrow> int option list \<Rightarrow> registry_client \<Rightarrow> address \<Rightarrow> byte list \<Rightarrow> byte list \<Rightarrow> PrivacyMode \<Rightarrow> int list \<Rightarrow>
   (directory_error + byte list \<times> byte list \<times> byte list \<times> byte list) option" where
  "PrepareChannelSetupForRecipient cr coins nonce draws c recipientAddr message senderId mode excludedIndices = (
     case GetUserCount c 0 of
       Inl e \<Rightarrow> Some (Inl e)
     | Inr totalUsers \<Rightarrow>
         if totalUsers = 0 then Some (Inl Registry_empty)
         else (case GetRecipientIndex c 1 recipientAddr of
           Inl e \<Rightarrow> Some (Inl e)
         | Inr recipientIdx \<Rightarrow> (case GetRecipientPkView c 2 recipientAddr of
             Inl e \<Rightarrow> Some (Inl e)
           | Inr pkView \<Rightarrow> map_option (map_sum Setup_failed id)
               (PrepareChannelSetup cr coins nonce draws pkView message senderId mode totalUsers recipientIdx excludedIndices))))"

subsection \<open>What a client relies on\<close>

text \<open>
  A directory whose states only grow: entries stay, users are appended, and each has its position as its number.
\<close>

locale user_directory =
  fixes ok :: "'s \<Rightarrow> bool" and later :: "'s \<Rightarrow> 's \<Rightarrow> bool" and users :: "'s \<Rightarrow> 'u list"
    and entry :: "'s \<Rightarrow> 'u \<Rightarrow> 'k option" and number :: "'s \<Rightarrow> 'u \<Rightarrow> 32 word"
  assumes later_ok: "ok s \<Longrightarrow> later s t \<Longrightarrow> ok t"
    and later_users: "later s t \<Longrightarrow> \<exists>new. users t = users s @ new"
    and later_entry: "later s t \<Longrightarrow> entry s u = Some k \<Longrightarrow> entry t u = Some k"
    and listed: "ok s \<Longrightarrow> u \<in> set (users s) \<longleftrightarrow> entry s u \<noteq> None"
    and numbered: "ok s \<Longrightarrow> i < length (users s) \<Longrightarrow> number s (users s ! i) = word_of_nat i"
begin

lemma position_kept:
  assumes "later s t" "i < length (users s)"
  shows "i < length (users t)" "users t ! i = users s ! i"
  using later_users [OF assms(1)] assms(2) by (auto simp: nth_append)

lemma number_kept:
  assumes "ok s" "later s t" "i < length (users s)" "i < 2 ^ 32"
  shows "unat (number t (users s ! i)) = i"
  using numbered [OF later_ok [OF assms(1,2)] position_kept(1) [OF assms(2,3)]] position_kept(2) [OF assms(2,3)] assms(4)
  by (simp add: unat_of_nat take_bit_nat_eq_self)

lemma entry_at:
  assumes "ok s" "later s t" "i < length (users s)"
  shows "entry t (users t ! i) = entry s (users s ! i) \<and> entry s (users s ! i) \<noteq> None"
proof -
  obtain k where "entry s (users s ! i) = Some k" using listed [OF assms(1), of "users s ! i"] assms(3) by fastforce
  with later_entry [OF assms(2) this] position_kept(2) [OF assms(2,3)] show ?thesis by simp
qed

end

definition registry_ok :: "registry_state \<Rightarrow> bool" where
  "registry_ok s \<longleftrightarrow> (\<forall>u. u \<in> set (reg_userList s) \<longleftrightarrow> registered (reg_keys s u)) \<and>
     (\<forall>i<length (reg_userList s). reg_userIndex s (reg_userList s ! i) = word_of_nat i)"

definition stored :: "registry_state \<Rightarrow> address \<Rightarrow> StoredKeys option" where
  "stored s u = (if registered (reg_keys s u) then Some (reg_keys s u) else None)"

lemma register_Inr:
  assumes "register u val pk pv ml aes s = Inr t"
  shows "reg_userList t = reg_userList s @ [u]" "\<not> registered (reg_keys s u)"
    "reg_keys t = (reg_keys s)(u := \<lparr>registered = True, sk_pkSpend = pk, sk_pkView = pv, sk_mlKemAuditCt = ml, sk_aesAuditCt = aes\<rparr>)"
    "reg_userIndex t = (reg_userIndex s)(u := word_of_nat (length (reg_userList s)))"
  using assms by (auto simp: register_def split: if_splits)

lemma mine_cases:
  obtains "reg_userList (mine_tx tx s) = reg_userList s" "reg_keys (mine_tx tx s) = reg_keys s" "reg_userIndex (mine_tx tx s) = reg_userIndex s"
  | u val pk pv ml aes where "register u val pk pv ml aes s = Inr (mine_tx tx s)"
proof (cases "registry_exec tx s")
  case (Inr t)
  then show ?thesis using that
    by (cases tx) (auto simp: mine_tx_def setRegistrationFee_def withdrawFees_def split: if_splits)
qed (use that in \<open>simp add: mine_tx_def\<close>)

lemma mine_ok: "registry_ok s \<Longrightarrow> registry_ok (mine_tx tx s)"
proof (cases rule: mine_cases [of tx s])
  case (2 u val pk pv ml aes)
  assume ok: "registry_ok s"
  note r = register_Inr [OF 2]
  have "u \<notin> set (reg_userList s)" using ok r(2) by (simp add: registry_ok_def)
  then have "reg_userList s ! i \<noteq> u" if "i < length (reg_userList s)" for i using that nth_mem by metis
  then show ?thesis using ok by (auto simp: registry_ok_def r nth_append less_Suc_eq)
qed (simp add: registry_ok_def)

lemma later_ok: "registry_later s t \<Longrightarrow> registry_ok s \<Longrightarrow> registry_ok t"
  by (induction rule: registry_later.induct) (auto intro: mine_ok)

lemma new_registry_ok: "registry_ok (new_registry d)"
  by (simp add: registry_ok_def new_registry_def)

lemma later_appends: "registry_later s t \<Longrightarrow> \<exists>new. reg_userList t = reg_userList s @ new"
proof (induction rule: registry_later.induct)
  case (later_step t tx)
  show ?case by (cases rule: mine_cases [of tx t]) (use later_step.IH in \<open>auto dest: register_Inr(1)\<close>)
qed simp

lemma later_stored: "registry_later s t \<Longrightarrow> stored s u = Some k \<Longrightarrow> stored t u = Some k"
proof (induction rule: registry_later.induct)
  case (later_step t tx)
  then have IH: "stored t u = Some k" by simp
  show ?case
  proof (cases rule: mine_cases [of tx t])
    case (2 v val pk pv ml aes)
    then show ?thesis using IH register_Inr(2,3) [OF 2] by (auto simp: stored_def split: if_splits)
  qed (use IH in \<open>auto simp: stored_def split: if_splits\<close>)
qed simp

interpretation registry: user_directory registry_ok registry_later reg_userList stored reg_userIndex
proof (unfold_locales, goal_cases)
  case (1 s t) then show ?case by (blast intro: later_ok)
next
  case (2 s t) then show ?case by (rule later_appends)
next
  case (3 s t u k) then show ?case by (rule later_stored)
qed (simp_all add: registry_ok_def stored_def)

lemma later_register: "register u val pk pv ml aes s = Inr t \<Longrightarrow> registry_later s t"
  using later_step [OF later_refl, of s "Tx_register u val pk pv ml aes"] by (simp add: mine_tx_def)

lemma registered_ok:
  assumes "registry_later (new_registry d) s0" "register u val pk pv ml aes s0 = Inr s"
  shows "registry_ok s"
  by (meson assms later_register later_ok new_registry_ok)

lemma registered_stored:
  assumes "register u val pk pv ml aes s0 = Inr s"
  shows "stored s u = Some \<lparr>registered = True, sk_pkSpend = pk, sk_pkView = pv, sk_mlKemAuditCt = ml, sk_aesAuditCt = aes\<rparr>"
  using register_Inr(3) [OF assms] by (simp add: stored_def)

lemma stored_reads:
  assumes "stored s u = Some k"
  shows "getKeys s u = Inr (sk_pkSpend k, sk_pkView k)" "getAuditCiphertexts s u = Inr (sk_mlKemAuditCt k, sk_aesAuditCt k)"
    "getUserIndex s u = Inr (reg_userIndex s u)"
  using assms by (auto simp: stored_def getKeys_def getAuditCiphertexts_def getUserIndex_def split: if_splits)

lemma Int64_small: "0 \<le> v \<Longrightarrow> v < 2 ^ 63 \<Longrightarrow> bigInt_Int64 v = v"
  by (simp add: bigInt_Int64_def sint_sbintrunc' signed_take_bit_int_eq_self)

text \<open>Enough draws for the decoys of the subset mode; the other modes draw none.\<close>

definition enough_draws :: "PrivacyMode \<Rightarrow> int \<Rightarrow> int \<Rightarrow> int option list \<Rightarrow> bool" where
  "enough_draws mode n r draws \<longleftrightarrow> (case mode of
     PrivacySubset \<Rightarrow> set draws \<subseteq> Some ` {0..<n} \<and> decoys (nat n) \<le> card {i\<in>{0..<n}. Some i \<in> set draws \<and> i \<noteq> r}
   | PrivacyUndefined _ \<Rightarrow> False | _ \<Rightarrow> True)"

lemma bitmap_marks_recipient:
  assumes "0 \<le> r" "r < n" "enough_draws mode n r draws"
  shows "\<exists>bs. buildBitmap mode n r excl draws = Some bs \<and> marked bs r"
  using assms bitmap_subset_returns [of r n draws excl] bitmap_modes_exact [of n r excl draws]
  by (cases mode) (auto simp: enough_draws_def)

lemma setup_returns:
  assumes "kem_correct cr ek dk" and "length message + length senderId + 8 < 2 ^ 32" and "buildBitmap mode n r excl draws = Some bitmap"
  shows "\<exists>ss c1 c2. PrepareChannelSetup cr coins (Some nonce) draws ek message senderId mode n r excl = Some (Inr (ss, c1, c2, bitmap))"
proof -
  have "encodeChannelPayload \<lparr>Message = message, SenderId = senderId\<rparr> = Some (wire message senderId)"
    using encode_wire [of "\<lparr>Message = message, SenderId = senderId\<rparr>"] assms(2) by simp
  then show ?thesis using assms(1,3)
    by (simp add: PrepareChannelSetup_def kem_correct_def aesGCMEncryptWithAAD_def split: prod.split)
qed

subsection \<open>Properties\<close>

text \<open>
  C22. A registered user can be reached. Whatever is registered before and after, and however the three lookups of the sender interleave with further
  registrations: while there are fewer than \<open>2 ^ 32\<close> users, for a defined privacy mode, with random draws that hit enough other users when the mode is the
  subset mode (whose loop does not end otherwise), and a message that fits the 32-bit lengths, the setup for the address of the user succeeds; its bitmap marks the user's own number, and a record published from it is recognised
  by the holder of the decapsulation key that belongs to the registered view key, with the sender's secret and message.
\<close>

theorem registered_recipient_reached:
  assumes "registry_later (new_registry deployer) s0" and "register recipient val pkSpend ek ml aes s0 = Inr s"
    and "registry_abi c" and "registry_views c 0 = Some v0" "registry_views c 1 = Some v1" "registry_views c 2 = Some v2"
    and "registry_later s v0" "registry_later s v1" "registry_later s v2" and "length (reg_userList v0) < 2 ^ 32"
    and "enough_draws mode (getUserCount v0) (getUserCount s0) draws"
    and "kem_correct cr ek dk" and "aead_correct cr" and "length nonce = 12" and "length message + length senderId + 8 < 2 ^ 32"
  shows "\<exists>ss c1 c2 bitmap. PrepareChannelSetupForRecipient cr coins (Some nonce) draws c recipient message senderId mode excl =
      Some (Inr (ss, c1, c2, bitmap)) \<and> marked bitmap (getUserCount s0) \<and>
    (\<forall>reg i publisher. getChannel reg i = Some \<lparr>Sender = publisher, C1 = c1, C2 = c2, Bitmap = bitmap\<rparr> \<longrightarrow>
       scan_channel cr reg dk i = Some (Some \<lparr>ChannelIdx = i, SharedSecret = ss, FoundMessage = message,
         FoundSenderId = senderId, FoundSender = publisher\<rparr>))"
proof -
  let ?n = "length (reg_userList s0)"
  have ok: "registry_ok s" by (rule registered_ok [OF assms(1,2)])
  have at: "?n < length (reg_userList s)" "reg_userList s ! ?n = recipient" using register_Inr(1) [OF assms(2)] by simp_all
  have n: "?n < length (reg_userList v0)" using registry.position_kept(1) [OF assms(7) at(1)] .
  have "unat (reg_userIndex v1 recipient) = ?n" using registry.number_kept [OF ok assms(8) at(1)] at(2) n assms(10) by simp
  then have idx: "uint (reg_userIndex v1 recipient) = int ?n" by (metis uint_nat)
  have small: "bigInt_Int64 (getUserCount v0) = getUserCount v0" "getUserCount v0 \<noteq> 0" "int ?n = getUserCount s0"
    using n assms(10) by (auto simp: getUserCount_def intro!: Int64_small)
  note k = registered_stored [OF assms(2)]
  note reads = stored_reads [OF later_stored [OF _ k]]
  obtain bitmap where b: "buildBitmap mode (getUserCount v0) (getUserCount s0) excl draws = Some bitmap" "marked bitmap (getUserCount s0)"
    using bitmap_marks_recipient [OF _ _ assms(11)] n by (auto simp: getUserCount_def)
  obtain ss c1 c2 where p: "PrepareChannelSetup cr coins (Some nonce) draws ek message senderId mode (getUserCount v0) (getUserCount s0) excl =
      Some (Inr (ss, c1, c2, bitmap))" using setup_returns [OF assms(12,15) b(1)] by blast
  have "PrepareChannelSetupForRecipient cr coins (Some nonce) draws c recipient message senderId mode excl = Some (Inr (ss, c1, c2, bitmap))"
    using p n assms(3-6) idx reads(3) [OF assms(8)] reads(1) [OF assms(9)] small
    by (simp add: PrepareChannelSetupForRecipient_def GetUserCount_def GetRecipientIndex_def GetRecipientPkView_def registry_call_def)
  moreover have "scan_channel cr reg dk i = Some (Some \<lparr>ChannelIdx = i, SharedSecret = ss, FoundMessage = message,
         FoundSenderId = senderId, FoundSender = publisher\<rparr>)"
    if "getChannel reg i = Some \<lparr>Sender = publisher, C1 = c1, C2 = c2, Bitmap = bitmap\<rparr>" for reg i publisher
    using channel_delivered [OF assms(12-15) p that] by blast
  ultimately show ?thesis using b(2) by blast
qed

text \<open>A registry with two users, both registered by the contract.\<close>

definition toy_user :: "address \<Rightarrow> int \<Rightarrow> registry_tx" where
  "toy_user u pk = Tx_register u 0 pk (replicate 1184 7) (replicate 1088 8) (replicate 92 9)"

definition toy_users :: registry_state where
  "toy_users = mine_tx (toy_user 21 5) (mine_tx (toy_user 20 4) (new_registry 1))"

definition toy_client :: registry_client where
  "toy_client = \<lparr>registry_abi = True, registry_views = (\<lambda>_. Some toy_users)\<rparr>"

lemma toy_users_later: "registry_later (new_registry 1) (mine_tx (toy_user 20 4) (new_registry 1))" "registry_later (new_registry 1) toy_users"
  unfolding toy_users_def by (intro later_step later_refl)+

lemma toy_users_list: "reg_userList toy_users = [20, 21]" "registered (reg_keys toy_users u) \<longleftrightarrow> u = 20 \<or> u = 21"
    "sk_pkSpend (reg_keys toy_users 20) = 4" "sk_pkSpend (reg_keys toy_users 21) = 5" "sk_pkView (reg_keys toy_users 21) = replicate 1184 7"
    "reg_owner toy_users = 1" "registrationFee toy_users = 0"
  by (auto simp: toy_users_def toy_user_def mine_tx_def register_def new_registry_def)

theorem registered_recipient_reached_witness:
  "\<exists>ss c1 c2 bitmap. PrepareChannelSetupForRecipient toy_crypto [5] (Some (replicate 12 0)) [] toy_client 21 [1, 2] [3] PrivacyNone [] =
     Some (Inr (ss, c1, c2, bitmap)) \<and> marked bitmap 1"
proof -
  let ?s0 = "mine_tx (toy_user 20 4) (new_registry 1)"
  have reg: "register 21 0 5 (replicate 1184 7) (replicate 1088 8) (replicate 92 9) ?s0 = Inr toy_users" and "getUserCount ?s0 = 1"
    by (simp_all add: toy_users_def toy_user_def mine_tx_def register_def new_registry_def getUserCount_def)
  note this(2)
  moreover have "\<exists>ss c1 c2 bitmap. PrepareChannelSetupForRecipient toy_crypto [5] (Some (replicate 12 0)) [] toy_client 21 [1, 2] [3] PrivacyNone [] =
      Some (Inr (ss, c1, c2, bitmap)) \<and> marked bitmap (getUserCount ?s0) \<and>
    (\<forall>reg i publisher. getChannel reg i = Some \<lparr>Sender = publisher, C1 = c1, C2 = c2, Bitmap = bitmap\<rparr> \<longrightarrow>
       scan_channel toy_crypto reg [] i = Some (Some \<lparr>ChannelIdx = i, SharedSecret = ss, FoundMessage = [1, 2], FoundSenderId = [3], FoundSender = publisher\<rparr>))"
    by (rule registered_recipient_reached [OF toy_users_later(1) reg _ _ _ _ later_refl later_refl later_refl _ _ toy_crypto_laws])
      (simp_all add: toy_client_def toy_users_list(1) enough_draws_def)
  ultimately show ?thesis by (metis (no_types, lifting))
qed

text \<open>
  A registered view key can be audited. In every later state the lookup returns the pair that was registered, and the auditor decrypts it to
  the user's decapsulation key.
\<close>

theorem registered_view_key_audited:
  assumes "kem_correct cr (EncapsKey kp) (DecapsKey kp)" and "aead_correct cr" and "length nonce = 12" and "length userDK = 64"
    and "EncryptViewKeyForAuditor cr coins (Some nonce) (EncapsKey kp) userDK = Inr (ml, aes)"
    and "register user val pkSpend pkView ml aes s0 = Inr s" and "registry_abi c" and "registry_views c i = Some t" and "registry_later s t"
  shows "LookupKeys c i user = Inr \<lparr>SpendKey = pkSpend, ViewKey = pkView, MlKemAuditCt = [], AesAuditCt = []\<rparr> \<and>
    (\<exists>mlKemCt aesCt. LookupAuditCiphertexts c i user = Inr (mlKemCt, aesCt) \<and>
       AuditorDecryptViewKey cr (DecapsKey kp) mlKemCt aesCt = Inr userDK)"
proof -
  note reads = stored_reads [OF later_stored [OF assms(9) registered_stored [OF assms(6)]]]
  obtain ss ct where e: "Encapsulate cr (EncapsKey kp) coins = (ss, ct)" by force
  have k: "ValidKey cr (EncapsKey kp)" "Decapsulate cr (DecapsKey kp) ct = Some ss"
    using assms(1) e by (auto simp: kem_correct_def dest: spec [of _ coins])
  have "ml = ct" "aes = nonce @ Seal cr (deriveAuditKey cr ss) nonce userDK ct"
    using assms(5) k e by (auto simp: EncryptViewKeyForAuditor_def audit_aesGCMEncryptWithAAD_def)
  then have "AuditorDecryptViewKey cr (DecapsKey kp) ml aes = Inr userDK"
    using k assms(2-4) by (simp add: AuditorDecryptViewKey_def audit_aesGCMDecryptWithAAD_def aead_correct_def NewDecapsulationKey768_def)
  with reads assms(7,8) show ?thesis by (simp add: LookupKeys_def LookupAuditCiphertexts_def registry_call_def)
qed

text \<open>A cipher with a tag of 16 bytes.\<close>

definition tag16_crypto :: crypto where
  "tag16_crypto = toy_crypto\<lparr>Seal := (\<lambda>k n p a. p @ take 16 (k @ replicate 16 0)), Open := (\<lambda>k n c a. Some (take (length c - 16) c))\<rparr>"

lemma tag16_laws: "kem_correct tag16_crypto ek dk" "aead_correct tag16_crypto"
  by (auto simp: kem_correct_def aead_correct_def tag16_crypto_def toy_crypto_def)

theorem registered_view_key_audited_witness:
  "\<exists>ml aes s mlKemCt aesCt. register 20 0 4 (replicate 1184 7) ml aes (new_registry 1) = Inr s \<and>
     LookupAuditCiphertexts \<lparr>registry_abi = True, registry_views = (\<lambda>_. Some s)\<rparr> 0 20 = Inr (mlKemCt, aesCt) \<and>
     AuditorDecryptViewKey tag16_crypto [2] mlKemCt aesCt = Inr (replicate 64 9)"
proof -
  let ?kp = "\<lparr>DecapsKey = [2], EncapsKey = [1]\<rparr>"
  obtain ml aes where e: "EncryptViewKeyForAuditor tag16_crypto (replicate 1087 0) (Some (replicate 12 0)) (EncapsKey ?kp) (replicate 64 9) = Inr (ml, aes)"
    and len: "length ml = 1088" "length aes = 92"
    by (auto simp: EncryptViewKeyForAuditor_def audit_aesGCMEncryptWithAAD_def tag16_crypto_def toy_crypto_def Let_def)
  obtain s where s: "register 20 0 4 (replicate 1184 7) ml aes (new_registry 1) = Inr s" using len by (simp add: register_def new_registry_def)
  from registered_view_key_audited [OF tag16_laws _ _ e s, where c = "\<lparr>registry_abi = True, registry_views = (\<lambda>_. Some s)\<rparr>" and i = 0 and t = s]
  show ?thesis using s by (simp add: later_refl) blast
qed

text \<open>
  The lookup by spend key returns the first registrant. While registrations go on, the search returns the address, view key and number of the user with
  the least number among those counted at its start that have the key, and an error exactly when there is none.
\<close>

theorem lookup_by_pkSpend_first:
  assumes "registry_later (new_registry deployer) s" and "registry_abi c" and "registry_views c 0 = Some s"
    and "\<forall>i. \<exists>t. registry_views c i = Some t \<and> registry_later s t" and "length (reg_userList s) < 2 ^ 63"
  shows "FindRecipientByPkSpend c pkSpend =
    (case [i \<leftarrow> [0..<length (reg_userList s)]. sk_pkSpend (reg_keys s (reg_userList s ! i)) = pkSpend] of
       [] \<Rightarrow> Inl (No_user_with_pkSpend pkSpend)
     | i # _ \<Rightarrow> Inr (reg_userList s ! i, sk_pkView (reg_keys s (reg_userList s ! i)), int i))"
proof -
  have ok: "registry_ok s" using assms(1) by (rule later_ok [OF _ new_registry_ok])
  have step: "registry_call c a (\<lambda>s. getUserAt s (int j)) = Inr (reg_userList s ! j)"
      "registry_call c b (\<lambda>s'. getKeys s' (reg_userList s ! j)) = Inr (sk_pkSpend (reg_keys s (reg_userList s ! j)), sk_pkView (reg_keys s (reg_userList s ! j)))"
    if j: "j < length (reg_userList s)" for a b j
  proof -
    obtain t u where v: "registry_views c a = Some t" "registry_later s t" "registry_views c b = Some u" "registry_later s u" using assms(4) by blast
    have "stored s (reg_userList s ! j) = Some (reg_keys s (reg_userList s ! j))"
      using registry.listed [OF ok] nth_mem [OF j] by (auto simp: stored_def split: if_splits)
    from stored_reads(1) [OF later_stored [OF v(4) this]] registry.position_kept [OF v(2) j] v assms(2)
    show "registry_call c a (\<lambda>s. getUserAt s (int j)) = Inr (reg_userList s ! j)"
      "registry_call c b (\<lambda>s'. getKeys s' (reg_userList s ! j)) = Inr (sk_pkSpend (reg_keys s (reg_userList s ! j)), sk_pkView (reg_keys s (reg_userList s ! j)))"
      by (simp_all add: registry_call_def getUserAt_def)
  qed
  have loop: "find_recipient_loop c pkSpend j n =
    (case [i \<leftarrow> [j..<j + n]. sk_pkSpend (reg_keys s (reg_userList s ! i)) = pkSpend] of
       [] \<Rightarrow> Inl (No_user_with_pkSpend pkSpend)
     | i # _ \<Rightarrow> Inr (reg_userList s ! i, sk_pkView (reg_keys s (reg_userList s ! i)), int i))"
    if "j + n \<le> length (reg_userList s)" for j n
    using that
  proof (induction n arbitrary: j)
    case (Suc n)
    then have "j < length (reg_userList s)" "[j..<j + Suc n] = j # [Suc j..<Suc j + n]" by (simp_all add: upt_conv_Cons)
    with step [of j] Suc.IH [of "Suc j"] Suc.prems show ?case by simp
  qed simp
  have "FindRecipientByPkSpend c pkSpend = find_recipient_loop c pkSpend 0 (length (reg_userList s))"
    using assms(2,3,5) by (simp add: FindRecipientByPkSpend_def registry_call_def getUserCount_def Int64_small)
  then show ?thesis using loop [of 0 "length (reg_userList s)"] by simp
qed

theorem lookup_by_pkSpend_first_witness:
  "FindRecipientByPkSpend toy_client 5 = Inr (21, replicate 1184 7, 1) \<and> FindRecipientByPkSpend toy_client 6 = Inl (No_user_with_pkSpend 6)"
  using lookup_by_pkSpend_first [OF toy_users_later(2), of toy_client 5] lookup_by_pkSpend_first [OF toy_users_later(2), of toy_client 6]
  by (simp add: toy_client_def later_refl toy_users_list upt_conv_Cons del: replicate.simps)

text \<open>
  A registration can be reported and not take place. When the owner raises the fee while the transaction is pending, it is mined as reverted;
  the client has the fee of before, does not look at the receipt, and returns without an error for a user who is not registered.
\<close>

theorem registration_reported_but_reverted:
  assumes "registry_abi c" and "registry_views c 0 = Some s" "registry_views c 1 = Some s" and "sent_ok env"
    and "mined_before env = Some (mine_tx (Tx_setRegistrationFee (reg_owner s) fee'))" and "registrationFee s < fee'"
    and "length pkView = 1184" "length ml = 1088" "length aes = 92" and "\<not> registered (reg_keys s auth)"
  shows "\<exists>s'. Register c env auth pkSpend pkView ml aes = Some (Inr (), Some s') \<and> \<not> registered (reg_keys s' auth)"
  using assms by (simp add: Register_def GetRegistrationFee_def registry_call_def transact_def send_tx_def register_def mine_tx_def setRegistrationFee_def)

theorem registration_reported_but_reverted_witness:
  "\<exists>s'. Register toy_client \<lparr>fixed_gas = False, sent_ok = True, mined_before = Some (mine_tx (Tx_setRegistrationFee 1 10))\<rparr> 30 6
      (replicate 1184 0) (replicate 1088 0) (replicate 92 0) = Some (Inr (), Some s') \<and> \<not> registered (reg_keys s' 30)"
  by (rule registration_reported_but_reverted [of toy_client toy_users _ 10]) (simp_all add: toy_client_def toy_users_list)

end
