(* ===== verification/Vault_Merkle.thy ===== *)
theory Vault_Merkle
  imports Merkle_Tree
begin

section \<open>The Merkle tree of the vault contracts\<close>

text \<open>
  \<^verbatim>\<open>enygma_dvp/contracts/core/contracts/vaults/Merkle.sol\<close>, which every vault inherits: the incremental tree that keeps one filled node per
  level, the history of roots, and the spent and locked nullifiers. The clients build their membership proofs against a tree of their own that keeps all
  nodes (\<^theory_text>\<open>Merkle_Tree\<close>); the theory shows that the contract's tree refines it, batch by batch. The hash contract is the argument \<open>Hash\<close>,
  \<^term>\<open>None\<close> is a revert, \<^verbatim>\<open>uint256\<close> counters are natural numbers, and the storage arrays have their Solidity bounds checks.
\<close>

subsection \<open>The contract\<close>

record vault_merkle =
  nullifierSet :: "int \<Rightarrow> int \<Rightarrow> bool"
  lockedNullifiers :: "int \<Rightarrow> int \<Rightarrow> bool"
  treeDepth :: nat
  nextLeafIndex :: nat
  merkleRoot :: int
  newTreeRoot :: int
  vault_treeNumber :: nat
  vault_zeros :: "int list"
  filledSubTrees :: "int list"
  rootHistory :: "int \<Rightarrow> int \<Rightarrow> bool"

definition hashLeftRight :: "native_hash \<Rightarrow> int \<Rightarrow> int \<Rightarrow> int option" where
  "hashLeftRight Hash left right = Hash [left, right]"

definition ZERO_VALUE :: "(byte list \<Rightarrow> byte list) \<Rightarrow> int" where
  "ZERO_VALUE keccak256 = SetBytes (keccak256 (ascii ''ZkDvp'')) mod SNARK_SCALAR_FIELD"

definition fresh_merkle :: vault_merkle where
  "fresh_merkle = \<lparr>nullifierSet = (\<lambda>_ _. False), lockedNullifiers = (\<lambda>_ _. False), treeDepth = 0, nextLeafIndex = 0, merkleRoot = 0, newTreeRoot = 0,
     vault_treeNumber = 0, vault_zeros = [], filledSubTrees = [], rootHistory = (\<lambda>_ _. False)\<rparr>"

definition record_root :: "vault_merkle \<Rightarrow> int \<Rightarrow> vault_merkle" where
  "record_root v root = v\<lparr>rootHistory := (rootHistory v)(int (vault_treeNumber v) := (rootHistory v (int (vault_treeNumber v)))(root := True))\<rparr>"

definition initializeMerkle :: "native_hash \<Rightarrow> (byte list \<Rightarrow> byte list) \<Rightarrow> nat \<Rightarrow> vault_merkle \<Rightarrow> vault_merkle option" where
  "initializeMerkle Hash keccak256 d v = (if d = 0 then None else do {
     (zs, currentZero) \<leftarrow> foldM (\<lambda>i (zs, currentZero). do {
         h \<leftarrow> hashLeftRight Hash currentZero currentZero;
         Some (zs[i := currentZero], h) }) [0..<d] ((replicate d 0)[0 := ZERO_VALUE keccak256], ZERO_VALUE keccak256);
     Some (record_root (v\<lparr>treeDepth := d, filledSubTrees := replicate d 0, vault_zeros := zs,
       newTreeRoot := currentZero, merkleRoot := currentZero\<rparr>) currentZero) })"

text \<open>The inner loop of \<^verbatim>\<open>insertLeaves\<close>: it hashes pairs of the array in place, from the even positions on.\<close>

function pair_loop ::
  "native_hash \<Rightarrow> int option \<Rightarrow> nat \<Rightarrow> nat \<Rightarrow> nat \<Rightarrow> nat \<Rightarrow> nat \<Rightarrow> int list \<Rightarrow> int \<Rightarrow> (nat \<times> int list \<times> int) option" where
  "pair_loop Hash zero count start insertionElement levelInsertionIndex nextLevelHashIndex hs filled = (
     if insertionElement < count then do {
       right \<leftarrow> (if insertionElement < count - 1 then idx hs (insertionElement + 1) else zero);
       left \<leftarrow> idx hs insertionElement;
       let filled' = (if insertionElement = count - 1 \<or> insertionElement = count - 2 then left else filled);
       let nextLevelHashIndex' = levelInsertionIndex div 2 - start;
       h \<leftarrow> hashLeftRight Hash left right;
       if nextLevelHashIndex' < length hs
       then pair_loop Hash zero count start (insertionElement + 2) (levelInsertionIndex + 2) nextLevelHashIndex' (hs[nextLevelHashIndex' := h]) filled'
       else None }
     else Some (nextLevelHashIndex, hs, filled))"
  by pat_completeness auto
termination by (relation "measure (\<lambda>(_, _, count, _, e, _). count - e)") auto

declare pair_loop.simps [simp del]

text \<open>One level; the state is \<^verbatim>\<open>levelInsertionIndex\<close>, \<^verbatim>\<open>count\<close>, \<^verbatim>\<open>nextLevelHashIndex\<close>, the array and the filled nodes.\<close>

definition insert_level ::
  "native_hash \<Rightarrow> int list \<Rightarrow> nat \<Rightarrow> nat \<times> nat \<times> nat \<times> int list \<times> int list \<Rightarrow> (nat \<times> nat \<times> nat \<times> int list \<times> int list) option" where
  "insert_level Hash zs level = (\<lambda>(levelInsertionIndex, count, nextLevelHashIndex, hs, filled). do {
     let start = levelInsertionIndex div 2;
     f \<leftarrow> idx filled level;
     (e, i, k, hs1) \<leftarrow> (if levelInsertionIndex mod 2 = 1 then do {
           let k = levelInsertionIndex div 2 - start;
           x \<leftarrow> idx hs 0;
           h \<leftarrow> hashLeftRight Hash f x;
           Some (1, levelInsertionIndex + 1, k, hs[k := h]) }
         else Some (0, levelInsertionIndex, nextLevelHashIndex, hs));
     (k', hs2, f') \<leftarrow> pair_loop Hash (idx zs level) count start e i k hs1 f;
     Some (start, k' + 1, k', hs2, filled[level := f']) })"

definition vault_newTree :: "vault_merkle \<Rightarrow> vault_merkle" where
  "vault_newTree v = v\<lparr>merkleRoot := newTreeRoot v, nextLeafIndex := 0, vault_treeNumber := vault_treeNumber v + 1\<rparr>"

definition vault_insertLeaves :: "native_hash \<Rightarrow> int list \<Rightarrow> vault_merkle \<Rightarrow> vault_merkle option" where
  "vault_insertLeaves Hash leafHashes v = do {
     let count = length leafHashes;
     let v1 = (if nextLeafIndex v + count \<ge> 2 ^ treeDepth v then vault_newTree v else v);
     (_, _, _, hs, filled) \<leftarrow> foldM (insert_level Hash (vault_zeros v1)) [0..<treeDepth v1]
        (nextLeafIndex v1, count, 0, leafHashes, filledSubTrees v1);
     root \<leftarrow> idx hs 0;
     Some (record_root (v1\<lparr>nextLeafIndex := nextLeafIndex v1 + count, filledSubTrees := filled, merkleRoot := root\<rparr>) root) }"

definition vault_lock :: "int \<Rightarrow> int \<Rightarrow> vault_merkle \<Rightarrow> vault_merkle option" where
  "vault_lock t nf v = (if lockedNullifiers v t nf \<or> nf = 0 then None
     else Some (v\<lparr>lockedNullifiers := (lockedNullifiers v)(t := (lockedNullifiers v t)(nf := True))\<rparr>))"

definition vault_unlock :: "int \<Rightarrow> int \<Rightarrow> vault_merkle \<Rightarrow> vault_merkle option" where
  "vault_unlock t nf v = (if nf = 0 \<or> nullifierSet v t nf \<or> \<not> lockedNullifiers v t nf then None
     else Some (v\<lparr>lockedNullifiers := (lockedNullifiers v)(t := (lockedNullifiers v t)(nf := False))\<rparr>))"

definition setNullifier :: "int \<Rightarrow> int \<Rightarrow> vault_merkle \<Rightarrow> vault_merkle option" where
  "setNullifier t nf v = (if nullifierSet v t nf \<or> nf = 0 then None
     else Some (v\<lparr>nullifierSet := (nullifierSet v)(t := (nullifierSet v t)(nf := True))\<rparr>))"

definition isValidRoot :: "vault_merkle \<Rightarrow> int \<Rightarrow> int \<Rightarrow> bool" where
  "isValidRoot v t root = rootHistory v t root"

definition isValidNullifier :: "vault_merkle \<Rightarrow> int \<Rightarrow> int \<Rightarrow> bool" where
  "isValidNullifier v t nf = nullifierSet v t nf"

subsection \<open>Levels\<close>

lemma hash_level_append:
  "even (length a) \<Longrightarrow> hash_level Hash z (a @ b) = do { x \<leftarrow> hash_level Hash z a; y \<leftarrow> hash_level Hash z b; Some (x @ y) }"
  by (induction a rule: induct_list012) (auto split: Option.bind_splits)

lemma hash_level_take:
  assumes "hash_level Hash z xs = Some ys" "2 * k \<le> length xs"
  shows "hash_level Hash z (take (2 * k) xs) = Some (take k ys)"
proof -
  have "hash_level Hash z (take (2 * k) xs @ drop (2 * k) xs) = Some ys" using assms(1) by simp
  then obtain a b where ab: "hash_level Hash z (take (2 * k) xs) = Some a" "hash_level Hash z (drop (2 * k) xs) = Some b" "ys = a @ b"
    using assms(2) by (subst (asm) hash_level_append) (auto simp: bind_eq_Some_conv)
  then show ?thesis using hash_level_nth [OF ab(1)] assms(2) by simp
qed

text \<open>The loop computes the level above of the elements that are left, and remembers the last node at an even position.\<close>

lemma pair_loop_level:
  assumes "hash_level Hash zero (drop e (take count hs)) = Some ys" "count \<le> length hs" "k \<le> e" "i div 2 - start = k" "start \<le> i div 2"
  shows "\<exists>hs'. pair_loop Hash zero count start e i k0 hs f =
      Some (if ys = [] then k0 else k + length ys - 1, hs', if ys = [] then f else hs ! (e + 2 * (length ys - 1))) \<and>
    length hs' = length hs \<and> take (k + length ys) hs' = take k hs @ ys"
  using assms
proof (induction "count - e" arbitrary: e i k k0 hs f ys rule: less_induct)
  case less
  show ?case
  proof (cases "e < count")
    case False
    then show ?thesis using less.prems by (simp add: pair_loop.simps [of _ _ _ _ e])
  next
    case True
    let ?x = "hs ! e" and ?r = "if e < count - 1 then Some (hs ! (e + 1)) else zero"
    have split: "drop e (take count hs) = (if e + 1 < count then ?x # hs ! (e + 1) # drop (e + 2) (take count hs) else [?x])"
      using True less.prems(2) by (auto simp: Cons_nth_drop_Suc [symmetric] min_def not_less)
    obtain r h rest where h: "?r = Some r" "Hash [?x, r] = Some h" "hash_level Hash zero (drop (e + 2) (take count hs)) = Some rest" "ys = h # rest"
    proof (cases "e + 1 < count")
      case True
      then have "e < count - 1" by simp
      with less.prems(1) True that show ?thesis by (auto simp: split bind_eq_Some_conv HashLeftRight_def)
    next
      case False
      then have "\<not> e < count - 1" "drop (e + 2) (take count hs) = []" by simp_all
      with less.prems(1) False that show ?thesis by (auto simp: split bind_eq_Some_conv HashLeftRight_def)
    qed
    let ?hs = "hs[k := h]"
    have same: "drop (e + 2) (take count ?hs) = drop (e + 2) (take count hs)"
      using less.prems(3) by (simp add: drop_update_cancel take_update_swap)
    have k: "k < length hs" using True less.prems(2,3) by simp
    let ?f = "if e = count - 1 \<or> e = count - 2 then ?x else f"
    have pre: "count - (e + 2) < count - e" "hash_level Hash zero (drop (e + 2) (take count ?hs)) = Some rest" "count \<le> length ?hs" "k + 1 \<le> e + 2"
        "(i + 2) div 2 - start = k + 1" "start \<le> (i + 2) div 2"
      using True less.prems(2-5) h(3) same by simp_all
    from less.hyps [OF pre, of k ?f] obtain hs' where
      hs': "pair_loop Hash zero count start (e + 2) (i + 2) k ?hs ?f =
        Some (if rest = [] then k else k + 1 + length rest - 1, hs', if rest = [] then ?f else ?hs ! (e + 2 + 2 * (length rest - 1)))"
        "length hs' = length ?hs" "take (k + 1 + length rest) hs' = take (k + 1) ?hs @ rest"
      by blast
    have "(if e < count - 1 then idx hs (e + 1) else zero) = Some r" using True less.prems(2) h(1) by (auto simp: idx_def)
    moreover have "idx hs e = Some ?x" "hashLeftRight Hash ?x r = Some h" "i div 2 - start < length hs"
      using True less.prems(2,4) h(2) k by (simp_all add: idx_def hashLeftRight_def)
    ultimately have "pair_loop Hash zero count start e i k0 hs f = pair_loop Hash zero count start (e + 2) (i + 2) k ?hs ?f"
      using True less.prems(4) by (simp only: pair_loop.simps [of _ _ _ _ e] if_True Let_def bind.simps)
    moreover have "take (k + 1) ?hs = take k hs @ [h]" using k by (simp add: take_Suc_conv_app_nth)
    moreover have "rest = [] \<longleftrightarrow> e = count - 1 \<or> e = count - 2"
    proof -
      have "length rest = (count - (e + 2) + 1) div 2" using hash_level_nth [OF h(3)] less.prems(2) by (simp add: min_def)
      moreover have "(m + 1) div 2 = 0 \<longleftrightarrow> m = 0" for m :: nat by (cases m) auto
      ultimately have "rest = [] \<longleftrightarrow> count - (e + 2) = 0" by (metis length_0_conv)
      then show ?thesis using True by auto
    qed
    ultimately show ?thesis using hs' h(4) less.prems(3) by (cases rest) (auto simp: algebra_simps nth_list_update)
  qed
qed

text \<open>One level: with the filled node in front when the insertion starts at an odd position, the array holds the level above.\<close>

lemma insert_level_above:
  assumes "hash_level Hash (idx zs l) ((if odd i then [filled ! l] else []) @ take c hs) = Some ys" "0 < c" "c \<le> length hs" "l < length filled"
  shows "\<exists>k hs'. insert_level Hash zs l (i, c, k0, hs, filled) = Some (i div 2, length ys, k, hs',
      filled[l := ((if odd i then [filled ! l] else []) @ take c hs) ! (2 * (length ys - 1))]) \<and>
    length hs' = length hs \<and> take (length ys) hs' = ys"
proof (cases "odd i")
  case False
  from assms(1) False have "hash_level Hash (idx zs l) (drop 0 (take c hs)) = Some ys" by simp
  from pair_loop_level [OF this assms(3), of 0 i "i div 2" k0 "filled ! l"] obtain hs' where
    p: "pair_loop Hash (idx zs l) c (i div 2) 0 i k0 hs (filled ! l) = Some (if ys = [] then k0 else length ys - 1, hs',
        if ys = [] then filled ! l else hs ! (2 * (length ys - 1)))" "length hs' = length hs" "take (length ys) hs' = ys" by auto
  have len: "length ys = (c + 1) div 2" using hash_level_nth [OF assms(1)] False assms(3) by (simp add: min_def)
  then have ys: "ys \<noteq> []" "2 * (length ys - 1) < c" using assms(2) by (auto simp: length_0_conv [symmetric] simp del: length_0_conv)
  show ?thesis using p ys False assms(4) by (simp add: insert_level_def idx_nth mod_2_eq_odd)
next
  case True
  let ?f = "filled ! l" and ?i = "i + 1"
  obtain x xs where hs: "hs = x # xs" using assms(2,3) by (cases hs) auto
  obtain c' where c: "c = Suc c'" using assms(2) by (cases c) auto
  from assms(1) True hs c obtain h ys' where h: "Hash [?f, x] = Some h" "hash_level Hash (idx zs l) (take c' xs) = Some ys'" "ys = h # ys'"
    by (auto simp: bind_eq_Some_conv HashLeftRight_def)
  have i2: "?i div 2 - i div 2 = 1" "i div 2 \<le> ?i div 2" using True by (auto elim!: oddE)
  have "hash_level Hash (idx zs l) (drop 1 (take c (h # xs))) = Some ys'" "c \<le> length (h # xs)" using h(2) c assms(3) hs by simp_all
  from pair_loop_level [OF this, of 1 ?i "i div 2" 0 ?f] i2 obtain hs' where
    p: "pair_loop Hash (idx zs l) c (i div 2) 1 ?i 0 (h # xs) ?f = Some (if ys' = [] then 0 else length ys', hs',
        if ys' = [] then ?f else (h # xs) ! (1 + 2 * (length ys' - 1)))" "length hs' = length (h # xs)" "take (1 + length ys') hs' = take 1 (h # xs) @ ys'"
    by auto
  have "length ys' = (c' + 1) div 2" using hash_level_nth [OF h(2)] c assms(3) hs by (simp add: min_def)
  then have ys: "ys' \<noteq> [] \<Longrightarrow> 2 * (length ys' - 1) < c'" by (auto simp: length_0_conv [symmetric] simp del: length_0_conv)
  have nth: "(if ys' = [] then ?f else (h # xs) ! (1 + 2 * (length ys' - 1))) = ([?f] @ take c hs) ! (2 * length ys')"
    using ys hs c by (cases ys') (auto simp: numeral_2_eq_2)
  have st: "insert_level Hash zs l (i, c, k0, hs, filled) = Some (i div 2, length ys, length ys', hs', filled[l := ([?f] @ take c hs) ! (2 * length ys')])"
    using p(1) True assms(4) h(1,3) hs unfolding nth by (auto simp: insert_level_def idx_nth odd_iff_mod_2_eq_one hashLeftRight_def)
  show ?thesis using st p(2,3) True h(3) hs by simp
qed

subsection \<open>All levels\<close>

text \<open>How many nodes a level has, and where the last one at an even position is.\<close>

lemma linked_length: "linked Hash zs t d \<Longrightarrow> l < d \<Longrightarrow> length (t ! Suc l) = (length (t ! l) + 1) div 2"
  using hash_level_nth [of Hash "idx zs l" "t ! l" "t ! Suc l"] by (simp add: linked_def)

lemma div_power_Suc: "(n :: nat) div 2 ^ Suc k = n div 2 ^ k div 2"
  by (metis div_mult2_eq power_Suc2)

lemma level_length:
  assumes "linked Hash zs t d" "l \<le> d"
  shows "length (t ! 0) div 2 ^ l \<le> length (t ! l) \<and> length (t ! l) \<le> length (t ! 0) div 2 ^ l + 1"
  using assms(2)
proof (induction l)
  case (Suc l)
  then show ?case using linked_length [OF assms(1), of l] div_power_Suc [of "length (t ! 0)" l] by linarith
qed simp

text \<open>What the contract remembers of a level: its node before the insertion position when that position is odd.\<close>

definition fills :: "nat \<Rightarrow> nat \<Rightarrow> int list list \<Rightarrow> int list \<Rightarrow> bool" where
  "fills d n t filled \<longleftrightarrow> length filled = d \<and> (\<forall>l<d. odd (n div 2 ^ l) \<longrightarrow> filled ! l = t ! l ! (n div 2 ^ l - 1))"

text \<open>Levels whose first nodes are complete.\<close>

definition prefix_levels :: "native_hash \<Rightarrow> int list \<Rightarrow> nat \<Rightarrow> nat \<Rightarrow> int list list \<Rightarrow> bool" where
  "prefix_levels Hash zs d n t \<longleftrightarrow> n < 2 ^ d \<and> length (t ! 0) = n \<and> (\<forall>l<d. n div 2 ^ l \<le> length (t ! l) \<and>
     hash_level Hash (idx zs l) (take (2 * (n div 2 ^ l div 2)) (t ! l)) = Some (take (n div 2 ^ l div 2) (t ! (l + 1))))"

lemma prefix_linked:
  assumes "linked Hash zs t d" "length (t ! 0) < 2 ^ d"
  shows "prefix_levels Hash zs d (length (t ! 0)) t"
  unfolding prefix_levels_def
proof (intro conjI allI impI assms refl)
  fix l assume l: "l < d"
  show len: "length (t ! 0) div 2 ^ l \<le> length (t ! l)" using level_length [OF assms(1), of l] l by simp
  have "hash_level Hash (idx zs l) (t ! l) = Some (t ! (l + 1))" using assms(1) l by (simp add: linked_def)
  then show "hash_level Hash (idx zs l) (take (2 * (length (t ! 0) div 2 ^ l div 2)) (t ! l)) = Some (take (length (t ! 0) div 2 ^ l div 2) (t ! (l + 1)))"
    by (rule hash_level_take) (use len in linarith)
qed

lemma prefix_empty: "0 < d \<Longrightarrow> t ! 0 = [] \<Longrightarrow> prefix_levels Hash zs d 0 t"
  by (simp add: prefix_levels_def)

lemma insert_levels_step:
  assumes new: "linked Hash zs t' d" and old: "prefix_levels Hash zs d n t" and k: "k < d"
    and eq: "t' ! k = take (n div 2 ^ k) (t ! k) @ take c hs" "0 < c" "c \<le> length hs" and f: "odd (n div 2 ^ k) \<longrightarrow> filled ! k = t ! k ! (n div 2 ^ k - 1)"
    and len: "length filled = d"
  shows "\<exists>m c' hs'. insert_level Hash zs k (n div 2 ^ k, c, k0, hs, filled) = Some (n div 2 ^ Suc k, c', m, hs',
      filled[k := t' ! k ! (2 * (length (t' ! Suc k) - 1))]) \<and> 0 < c' \<and> c' \<le> length hs' \<and>
    t' ! Suc k = take (n div 2 ^ Suc k) (t ! Suc k) @ take c' hs'"
proof -
  let ?i = "n div 2 ^ k" and ?j = "n div 2 ^ Suc k"
  have j: "?j = ?i div 2" by (rule div_power_Suc)
  have il: "?i \<le> length (t ! k)" and pre: "hash_level Hash (idx zs k) (take (2 * ?j) (t ! k)) = Some (take ?j (t ! Suc k))"
    using old k unfolding j by (auto simp: prefix_levels_def)
  let ?P = "(if odd ?i then [filled ! k] else []) @ take c hs"
  have sp: "t' ! k = take (2 * ?j) (t ! k) @ ?P"
  proof (cases "odd ?i")
    case True
    then have "?i = Suc (2 * ?j)" unfolding j by simp
    then show ?thesis using eq(1) f True il by (simp add: take_Suc_conv_app_nth)
  next
    case False
    then have "2 * ?j = ?i" unfolding j by simp
    then show ?thesis using eq(1) False by (simp only: if_False append_Nil)
  qed
  have ev: "length (take (2 * ?j) (t ! k)) = 2 * ?j" using il j by simp
  have up: "hash_level Hash (idx zs k) (t' ! k) = Some (t' ! Suc k)" using new k by (simp add: linked_def)
  then obtain ys where ys: "hash_level Hash (idx zs k) ?P = Some ys" "t' ! Suc k = take ?j (t ! Suc k) @ ys"
    unfolding sp using pre ev by (subst (asm) hash_level_append) (auto simp: bind_eq_Some_conv)
  have "length ys = (length ?P + 1) div 2" "length (take ?j (t ! Suc k)) = ?j"
    using hash_level_nth [OF ys(1)] hash_level_nth [OF pre] ev by auto
  then have pos: "0 < length ys" "length (t' ! Suc k) = ?j + length ys" using eq(2,3) ys(2) by auto
  have at: "2 * (?j + length ys - 1) = length (take (2 * ?j) (t ! k)) + 2 * (length ys - 1)" unfolding ev using pos(1) by (cases ys) simp_all
  have "?P ! (2 * (length ys - 1)) = t' ! k ! (2 * (length (t' ! Suc k) - 1))"
    unfolding sp pos(2) at by (simp only: nth_append_length_plus)
  moreover from insert_level_above [OF ys(1) eq(2,3), of k0] len k obtain m hs' where
    s: "insert_level Hash zs k (?i, c, k0, hs, filled) = Some (?i div 2, length ys, m, hs', filled[k := ?P ! (2 * (length ys - 1))])"
      "length hs' = length hs" "take (length ys) hs' = ys" by blast
  moreover have "length ys \<le> length hs'" using s(3) by (metis length_take min.cobounded1 nat_le_linear min.absorb2 min_def)
  ultimately show ?thesis using ys(2) pos(1) unfolding j by metis
qed

lemma insert_levels:
  assumes new: "linked Hash zs t' d" and old: "prefix_levels Hash zs d n t" and leaves: "t' ! 0 = t ! 0 @ leaves" "leaves \<noteq> []"
    and f: "fills d n t filled"
  shows "k \<le> d \<Longrightarrow> \<exists>m c hs filled'. foldM (insert_level Hash zs) [0..<k] (n, length leaves, 0, leaves, filled) = Some (n div 2 ^ k, c, m, hs, filled') \<and>
    0 < c \<and> c \<le> length hs \<and> t' ! k = take (n div 2 ^ k) (t ! k) @ take c hs \<and> length filled' = d \<and>
    (\<forall>l<d. filled' ! l = (if l < k then t' ! l ! (2 * (length (t' ! Suc l) - 1)) else filled ! l))"
proof (induction k)
  case 0
  then show ?case using leaves f old by (auto simp: fills_def prefix_levels_def)
next
  case (Suc k)
  then obtain m c hs filled' where IH: "foldM (insert_level Hash zs) [0..<k] (n, length leaves, 0, leaves, filled) = Some (n div 2 ^ k, c, m, hs, filled')"
    "0 < c" "c \<le> length hs" "t' ! k = take (n div 2 ^ k) (t ! k) @ take c hs" "length filled' = d"
    "\<forall>l<d. filled' ! l = (if l < k then t' ! l ! (2 * (length (t' ! Suc l) - 1)) else filled ! l)" by auto
  have "odd (n div 2 ^ k) \<longrightarrow> filled' ! k = t ! k ! (n div 2 ^ k - 1)" using IH(6) f Suc.prems by (simp add: fills_def)
  from insert_levels_step [OF new old _ IH(4,2,3) this IH(5), of m] Suc.prems obtain m' c' hs' where
    s: "insert_level Hash zs k (n div 2 ^ k, c, m, hs, filled') = Some (n div 2 ^ Suc k, c', m', hs', filled'[k := t' ! k ! (2 * (length (t' ! Suc k) - 1))])"
      "0 < c'" "c' \<le> length hs'" "t' ! Suc k = take (n div 2 ^ Suc k) (t ! Suc k) @ take c' hs'" by auto
  then show ?case using IH Suc.prems by (auto simp: foldM_append nth_list_update less_Suc_eq)
qed

lemma fills_after:
  assumes "linked Hash zs t d" "length filled = d" "\<forall>l<d. filled ! l = t ! l ! (2 * (length (t ! Suc l) - 1))"
  shows "fills d (length (t ! 0)) t filled"
  unfolding fills_def
proof (intro conjI allI impI assms(2))
  fix l assume l: "l < d" and o: "odd (length (t ! 0) div 2 ^ l)"
  let ?q = "length (t ! 0) div 2 ^ l"
  have "length (t ! Suc l) = (length (t ! l) + 1) div 2" by (rule linked_length [OF assms(1) l])
  moreover have "?q \<le> length (t ! l)" "length (t ! l) \<le> ?q + 1" using level_length [OF assms(1), of l] l by simp_all
  moreover obtain r where "?q = 2 * r + 1" using o by (auto elim: oddE)
  ultimately have "2 * (length (t ! Suc l) - 1) = ?q - 1" by auto
  then show "filled ! l = t ! l ! (?q - 1)" using assms(3) l by simp
qed

subsection \<open>The refinement\<close>

definition vault_refines :: "native_hash \<Rightarrow> (byte list \<Rightarrow> byte list) \<Rightarrow> MerkleTree \<Rightarrow> vault_merkle \<Rightarrow> bool" where
  "vault_refines Hash keccak256 mt v \<longleftrightarrow> mt_inv Hash keccak256 mt \<and> treeDepth v = depth mt \<and> vault_zeros v = zeros mt \<and>
     vault_treeNumber v = treeNumber mt \<and> nextLeafIndex v = length (tree mt ! 0) \<and> MerkleTree_Root mt = Some (merkleRoot v) \<and>
     fills (depth mt) (length (tree mt ! 0)) (tree mt) (filledSubTrees v) \<and>
     rootHistory v (int (treeNumber mt)) (merkleRoot v) \<and>
     (\<forall>k<length (prevTrees mt). rootHistory v (int k) (prevTrees mt ! k ! depth mt ! 0))"

lemma record_root_sel [simp]:
  "treeDepth (record_root v r) = treeDepth v" "vault_zeros (record_root v r) = vault_zeros v" "vault_treeNumber (record_root v r) = vault_treeNumber v"
  "nextLeafIndex (record_root v r) = nextLeafIndex v" "merkleRoot (record_root v r) = merkleRoot v" "filledSubTrees (record_root v r) = filledSubTrees v"
  "rootHistory (record_root v r) t x \<longleftrightarrow> t = int (vault_treeNumber v) \<and> x = r \<or> rootHistory v t x"
  by (auto simp: record_root_def)

lemma fills_zero: "length filled = d \<Longrightarrow> fills d 0 t filled"
  by (simp add: fills_def)

lemma vault_insert_root:
  assumes new: "linked Hash zs t' d" and old: "prefix_levels Hash zs d n t" and leaves: "t' ! 0 = t ! 0 @ leaves" "leaves \<noteq> []"
    and f: "fills d n t filled"
  shows "\<exists>a b c hs filled'. foldM (insert_level Hash zs) [0..<d] (n, length leaves, 0, leaves, filled) = Some (a, b, c, hs, filled') \<and>
    idx hs 0 = Some (t' ! d ! 0) \<and> fills d (length (t' ! 0)) t' filled'"
proof -
  from insert_levels [OF assms order_refl] obtain m c hs filled' where
    r: "foldM (insert_level Hash zs) [0..<d] (n, length leaves, 0, leaves, filled) = Some (n div 2 ^ d, c, m, hs, filled')"
    "0 < c" "c \<le> length hs" "t' ! d = take (n div 2 ^ d) (t ! d) @ take c hs" "length filled' = d"
    "\<forall>l<d. filled' ! l = t' ! l ! (2 * (length (t' ! Suc l) - 1))" by auto
  have "n div 2 ^ d = 0" using old by (simp add: prefix_levels_def)
  then have "idx hs 0 = Some (t' ! d ! 0)" using r(2-4) by (cases hs) (auto simp: idx_def)
  with r(1) fills_after [OF new r(5,6)] show ?thesis by blast
qed

context field_hash
begin

lemma vault_insert_refines:
  assumes ref: "vault_refines Hash keccak256 mt v" and ne: "leaves \<noteq> []" and can: "canonical leaves" and fits: "length leaves \<le> 2 ^ depth mt"
  shows "\<exists>mt' v'. InsertLeaves Hash keccak256 mt leaves = Some mt' \<and> vault_insertLeaves Hash leaves v = Some v' \<and>
    vault_refines Hash keccak256 mt' v' \<and> depth mt' = depth mt"
proof -
  have inv: "mt_inv Hash keccak256 mt" using ref by (simp add: vault_refines_def)
  from InsertLeaves_ok [OF inv ne can fits] obtain mt' where mt': "InsertLeaves Hash keccak256 mt leaves = Some mt'" "mt_inv Hash keccak256 mt'"
    "depth mt' = depth mt" "if length (tree mt ! 0) + length leaves < 2 ^ depth mt
     then tree mt' ! 0 = tree mt ! 0 @ leaves \<and> prevTrees mt' = prevTrees mt
     else tree mt' ! 0 = leaves \<and> prevTrees mt' = prevTrees mt @ [tree mt]" by blast
  let ?d = "depth mt" and ?v1 = "if nextLeafIndex v + length leaves \<ge> 2 ^ treeDepth v then vault_newTree v else v"
  have z: "zeros mt' = zeros mt" using inv mt'(2,3) by (simp add: mt_inv_def)
  have "tree mt' ! 0 \<noteq> []" using mt'(4) ne by (auto split: if_splits)
  then have lnk: "linked Hash (zeros mt) (tree mt') ?d" using mt'(2,3) z by (simp add: mt_inv_def tree_ok_def)
  have tn: "treeNumber mt' = length (prevTrees mt')" "treeNumber mt = length (prevTrees mt)" using inv mt'(2) by (simp_all add: mt_inv_def)
  have root: "MerkleTree_Root mt' = Some (tree mt' ! ?d ! 0)" "MerkleTree_Root mt = Some (tree mt ! ?d ! 0)"
    using Root_Some [OF mt'(2)] Root_Some [OF inv] mt'(3) by simp_all
  have d: "0 < ?d" and ok: "tree_ok Hash (zeros mt) ?d (tree mt)" using inv by (simp_all add: mt_inv_def)
  have full: "nextLeafIndex v + length leaves \<ge> 2 ^ treeDepth v \<longleftrightarrow> \<not> length (tree mt ! 0) + length leaves < 2 ^ ?d"
    using ref by (auto simp: vault_refines_def)
  let ?t = "if length (tree mt ! 0) + length leaves < 2 ^ ?d then tree mt else [[]]"
  have pre: "prefix_levels Hash (zeros mt) ?d (nextLeafIndex ?v1) ?t" "tree mt' ! 0 = ?t ! 0 @ leaves" "fills ?d (nextLeafIndex ?v1) ?t (filledSubTrees ?v1)"
    "vault_zeros ?v1 = zeros mt" "treeDepth ?v1 = ?d" "vault_treeNumber ?v1 = treeNumber mt'"
    using ref full mt'(4) d ok tn prefix_linked [of Hash "zeros mt" "tree mt" ?d] prefix_empty [OF d]
    by (auto simp: vault_refines_def vault_newTree_def tree_ok_def fills_zero split: if_splits) (auto simp: fills_def)
  from vault_insert_root [OF lnk pre(1,2) ne pre(3)] obtain a b c hs filled' where
    r: "foldM (insert_level Hash (zeros mt)) [0..<?d] (nextLeafIndex ?v1, length leaves, 0, leaves, filledSubTrees ?v1) = Some (a, b, c, hs, filled')"
      "idx hs 0 = Some (tree mt' ! ?d ! 0)" "fills ?d (length (tree mt' ! 0)) (tree mt') filled'" by blast
  let ?v' = "record_root (?v1\<lparr>nextLeafIndex := nextLeafIndex ?v1 + length leaves, filledSubTrees := filled', merkleRoot := tree mt' ! ?d ! 0\<rparr>) (tree mt' ! ?d ! 0)"
  have vi: "vault_insertLeaves Hash leaves v = Some ?v'" using r(1,2) pre(4,5) by (simp add: vault_insertLeaves_def Let_def)
  have next': "nextLeafIndex ?v1 + length leaves = length (tree mt' ! 0)" using pre(1,2) by (simp add: prefix_levels_def)
  have hist: "rootHistory ?v1 (int k) (prevTrees mt' ! k ! ?d ! 0)" if "k < length (prevTrees mt')" for k
    using ref mt'(4) that root(2) tn(2) by (auto simp: vault_refines_def vault_newTree_def nth_append less_Suc_eq split: if_splits)
  have "vault_refines Hash keccak256 mt' ?v'"
    unfolding vault_refines_def using mt'(2,3) z root(1) r(3) pre(4-6) next' hist by simp
  with mt'(1,3) vi show ?thesis by blast
qed

end

subsection \<open>Properties\<close>

lemma initialize_zeros:
  assumes "getZeroValueLevels Hash keccak256 (Suc k) = Some zs" "HashLeftRight Hash (zs ! k) (zs ! k) = Some z0" "Suc k \<le> d"
  shows "foldM (\<lambda>i (zs, currentZero). do { h \<leftarrow> hashLeftRight Hash currentZero currentZero; Some (zs[i := currentZero], h) })
     [0..<Suc k] ((replicate d 0)[0 := ZERO_VALUE keccak256], ZERO_VALUE keccak256) = Some (zs @ replicate (d - Suc k) 0, z0) \<and> length zs = Suc k"
  using assms
proof (induction k arbitrary: zs z0)
  case 0
  then show ?case by (cases d) (auto simp: getZeroValueLevels_def ZERO_VALUE_def GetZeroValue_def hashLeftRight_def HashLeftRight_def bind_eq_Some_conv)
next
  case (Suc k)
  let ?g = "\<lambda>level levels. do { z \<leftarrow> idx levels (level - 1); h \<leftarrow> HashLeftRight Hash z z; Some (levels @ [h]) }"
  from Suc.prems(1) obtain ys h where ys: "getZeroValueLevels Hash keccak256 (Suc k) = Some ys" "HashLeftRight Hash (ys ! k) (ys ! k) = Some h" "zs = ys @ [h]"
    "k < length ys"
    by (auto simp: getZeroValueLevels_def foldM_append bind_eq_Some_conv idx_Some_iff)
  from Suc.IH [OF ys(1,2)] Suc.prems(3) have IH: "foldM (\<lambda>i (zs, currentZero). do { h \<leftarrow> hashLeftRight Hash currentZero currentZero; Some (zs[i := currentZero], h) })
     [0..<Suc k] ((replicate d 0)[0 := ZERO_VALUE keccak256], ZERO_VALUE keccak256) = Some (ys @ replicate (d - Suc k) 0, h)" "length ys = Suc k" by simp_all
  have "(ys @ replicate (d - Suc k) 0)[Suc k := h] = ys @ [h] @ replicate (d - Suc (Suc k)) 0"
    using IH(2) Suc.prems(3) by (simp add: list_update_append Suc_diff_Suc [symmetric] del: replicate_Suc flip: replicate_Suc) (metis Suc_diff_Suc Suc_le_lessD list_update_code(2) replicate_Suc)
  moreover have "[0..<Suc (Suc k)] = [0..<Suc k] @ [Suc k]" by simp
  ultimately show ?case using IH Suc.prems(2) ys(3) by (simp only: foldM_append) (simp add: hashLeftRight_def HashLeftRight_def nth_append)
qed

context field_hash
begin

lemma vault_initial:
  assumes "0 < d" "d < 63"
  shows "\<exists>mt v. NewMerkleTree Hash keccak256 d = Some mt \<and> initializeMerkle Hash keccak256 d fresh_merkle = Some v \<and>
    vault_refines Hash keccak256 mt v \<and> depth mt = d"
proof -
  from NewMerkleTree_inv [OF assms] obtain mt where mt: "NewMerkleTree Hash keccak256 d = Some mt" "mt_inv Hash keccak256 mt" "tree mt ! 0 = []" "depth mt = d"
    by blast
  note z = zeros_ok [OF mt(2)]
  obtain k where k: "d = Suc k" using assms(1) by (cases d) auto
  have p: "prevTrees mt = []" "treeNumber mt = 0" using mt(1) by (auto simp: NewMerkleTree_def bind_eq_Some_conv)
  have e: "empty_tree Hash (zeros mt) d = Some (tree mt)" "getZeroValueLevels Hash keccak256 (Suc k) = Some (zeros mt)"
    using mt(2-4) k by (simp_all add: mt_inv_def tree_ok_def)
  then obtain z0 where z0: "HashLeftRight Hash (zeros mt ! k) (zeros mt ! k) = Some z0" "tree mt = replicate d [] @ [[z0]]"
    using z(1) k mt(4) by (auto simp: empty_tree_def bind_eq_Some_conv idx_Some_iff)
  have "MerkleTree_Root mt = Some z0" using z0(2) mt(4) by (simp add: MerkleTree_Root_def idx_def nth_append)
  moreover have i: "initializeMerkle Hash keccak256 d fresh_merkle = Some (record_root (fresh_merkle\<lparr>treeDepth := d, filledSubTrees := replicate d 0,
      vault_zeros := zeros mt, newTreeRoot := z0, merkleRoot := z0\<rparr>) z0)"
    using initialize_zeros [OF e(2) z0(1), of d] k by (simp add: initializeMerkle_def del: upt_Suc)
  ultimately have "vault_refines Hash keccak256 mt (record_root (fresh_merkle\<lparr>treeDepth := d, filledSubTrees := replicate d 0,
      vault_zeros := zeros mt, newTreeRoot := z0, merkleRoot := z0\<rparr>) z0)"
    using mt p by (simp add: vault_refines_def fills_zero fresh_merkle_def)
  with mt i show ?thesis by blast
qed

lemma vault_batches:
  assumes "vault_refines Hash keccak256 mt v" "\<forall>b\<in>set batches. b \<noteq> [] \<and> canonical b \<and> length b \<le> 2 ^ depth mt"
  shows "\<exists>mt' v'. foldM (\<lambda>b m. InsertLeaves Hash keccak256 m b) batches mt = Some mt' \<and> foldM (vault_insertLeaves Hash) batches v = Some v' \<and>
    vault_refines Hash keccak256 mt' v' \<and> depth mt' = depth mt"
  using assms
proof (induction batches arbitrary: mt v)
  case (Cons b batches)
  from vault_insert_refines [OF Cons.prems(1), of b] Cons.prems(2) obtain mt1 v1 where
    s: "InsertLeaves Hash keccak256 mt b = Some mt1" "vault_insertLeaves Hash b v = Some v1" "vault_refines Hash keccak256 mt1 v1" "depth mt1 = depth mt" by auto
  from Cons.IH [OF s(3)] Cons.prems(2) s show ?case by simp
qed auto

end

text \<open>
  The hash contract is only known to agree with the library where the library has a value (it reduces what the library refuses):
  an insertion that goes through with the one goes through with the other, with the same result.
\<close>

definition contract_hash_agrees :: "native_hash \<Rightarrow> native_hash \<Rightarrow> bool" where
  "contract_hash_agrees Hash K \<longleftrightarrow> (\<forall>xs h. length xs \<in> {2, 4} \<longrightarrow> Hash xs = Some h \<longrightarrow> K xs = Some h)"

lemma foldM_mono:
  assumes "\<And>x s t. f x s = Some t \<Longrightarrow> g x s = Some t" "foldM f xs s = Some t"
  shows "foldM g xs s = Some t"
  using assms(2) by (induction xs arbitrary: s) (auto simp: bind_eq_Some_conv dest: assms(1))

lemma contract_pair: "contract_hash_agrees Hash K \<Longrightarrow> hashLeftRight Hash l r = Some h \<Longrightarrow> hashLeftRight K l r = Some h"
  by (simp add: contract_hash_agrees_def hashLeftRight_def)

lemma pair_loop_agrees:
  assumes "contract_hash_agrees Hash K"
  shows "pair_loop Hash zero count start e i k hs f = Some t \<Longrightarrow> pair_loop K zero count start e i k hs f = Some t"
proof (induction "count - e" arbitrary: e i k hs f rule: less_induct)
  case less
  note run = less.prems [unfolded pair_loop.simps [of Hash zero count start e i k hs f]]
  show ?case
  proof (cases "e < count")
    case True
    with run obtain right left h where r: "(if e < count - 1 then idx hs (e + 1) else zero) = Some right" "idx hs e = Some left"
      "hashLeftRight Hash left right = Some h" "i div 2 - start < length hs"
      "pair_loop Hash zero count start (e + 2) (i + 2) (i div 2 - start) (hs[i div 2 - start := h]) (if e = count - 1 \<or> e = count - 2 then left else f) = Some t"
      by (auto simp: Let_def bind_eq_Some_conv simp del: idx_Some_iff split: if_split_asm)
    have "pair_loop K zero count start (e + 2) (i + 2) (i div 2 - start) (hs[i div 2 - start := h]) (if e = count - 1 \<or> e = count - 2 then left else f) = Some t"
      using True by (intro less.hyps [OF _ r(5)]) simp
    then show ?thesis
      unfolding pair_loop.simps [of K zero count start e i k hs f] using r(1,2,4) contract_pair [OF assms r(3)] True by (simp add: Let_def)
  next
    case False
    then show ?thesis using run by (simp add: pair_loop.simps [of K zero count start e i k hs f])
  qed
qed

lemma insert_level_agrees:
  assumes "contract_hash_agrees Hash K" "insert_level Hash zs level s = Some t"
  shows "insert_level K zs level s = Some t"
  using assms(2) contract_pair [OF assms(1)] pair_loop_agrees [OF assms(1)]
  by (cases s) (auto simp: insert_level_def Let_def bind_eq_Some_conv split: if_splits)

lemma vault_insertLeaves_agrees:
  assumes "contract_hash_agrees Hash K" "vault_insertLeaves Hash leafHashes v = Some v'"
  shows "vault_insertLeaves K leafHashes v = Some v'"
proof -
  have "foldM (insert_level Hash zs) ls s = Some t \<Longrightarrow> foldM (insert_level K zs) ls s = Some t" for zs ls s t
    by (rule foldM_mono) (rule insert_level_agrees [OF assms(1)])
  with assms(2) show ?thesis by (fastforce simp: vault_insertLeaves_def Let_def bind_eq_Some_conv)
qed

text \<open>
  C11. The contract and the client have one tree. After every sequence of batches, each a nonempty list of field elements that fits a tree, the contract's
  incremental insertion and the client's rebuilding of the whole tree have the same root, tree number and number of leaves; and every proof the client
  generates for a leaf of its current tree is for a root that the contract accepts for that tree.
\<close>

theorem vault_tree_is_client_tree:
  assumes "field_hash Hash" and "0 < d" "d < 63" and "\<forall>b\<in>set batches. b \<noteq> [] \<and> canonical b \<and> length b \<le> 2 ^ d"
  shows "\<exists>mt v. (do { m \<leftarrow> NewMerkleTree Hash keccak256 d; foldM (\<lambda>b m. InsertLeaves Hash keccak256 m b) batches m }) = Some mt \<and>
    (do { v \<leftarrow> initializeMerkle Hash keccak256 d fresh_merkle; foldM (vault_insertLeaves Hash) batches v }) = Some v \<and>
    MerkleTree_Root mt = Some (merkleRoot v) \<and> vault_treeNumber v = treeNumber mt \<and> nextLeafIndex v = length (tree mt ! 0) \<and>
    (\<forall>x\<in>set (tree mt ! 0). \<exists>p. GenerateProof mt x = Some (Inr p) \<and> Element p = x \<and> isValidRoot v (int (vault_treeNumber v)) (Root p))"
proof -
  from field_hash.vault_initial [OF assms(1-3)] obtain m0 v0 where
    i: "NewMerkleTree Hash keccak256 d = Some m0" "initializeMerkle Hash keccak256 d fresh_merkle = Some v0" "vault_refines Hash keccak256 m0 v0" "depth m0 = d" by blast
  from field_hash.vault_batches [OF assms(1) i(3) assms(4) [folded i(4)]] obtain mt v where
    b: "foldM (\<lambda>b m. InsertLeaves Hash keccak256 m b) batches m0 = Some mt" "foldM (vault_insertLeaves Hash) batches v0 = Some v"
      "vault_refines Hash keccak256 mt v" by blast
  have "\<exists>p. GenerateProof mt x = Some (Inr p) \<and> Element p = x \<and> isValidRoot v (int (vault_treeNumber v)) (Root p)" if "x \<in> set (tree mt ! 0)" for x
    using field_hash.GenerateProof_current [OF assms(1) _ that] b(3) by (fastforce simp: vault_refines_def isValidRoot_def)
  with i b show ?thesis by (auto simp: vault_refines_def)
qed

theorem vault_tree_is_client_tree_witness:
  "\<exists>mt v. (do { m \<leftarrow> NewMerkleTree sum_hash keccak_seven 2; foldM (\<lambda>b m. InsertLeaves sum_hash keccak_seven m b) [[5], [6, 9], [10]] m }) = Some mt \<and>
    (do { v \<leftarrow> initializeMerkle sum_hash keccak_seven 2 fresh_merkle; foldM (vault_insertLeaves sum_hash) [[5], [6, 9], [10]] v }) = Some v \<and>
    MerkleTree_Root mt = Some (merkleRoot v) \<and> vault_treeNumber v = treeNumber mt"
  using vault_tree_is_client_tree [OF sum_hash_field_hash, of 2 "[[5], [6, 9], [10]]" keccak_seven] by (auto simp: SNARK_SCALAR_FIELD_def)

end
