(* ===== verification/Vault_Erc20.thy ===== *)
theory Vault_Erc20
  imports Vault_Merkle
begin

section \<open>The ERC20 vault\<close>

text \<open>
  \<^verbatim>\<open>vaults/Erc20CoinVault.sol\<close> with what it inherits from \<^verbatim>\<open>AbstractCoinVault.sol\<close>, and the proof check of \<^verbatim>\<open>Verifier.sol\<close> and
  \<^verbatim>\<open>GenericGroth16Verifier.sol\<close> that it calls. The token contract and the pairing precompile are arguments: a token call reverts
  (\<^term>\<open>None\<close>) or returns a boolean, the precompile fails (\<^term>\<open>None\<close>) or returns its verdict. Token calls are atomic here, so the
  re-entrancy guards have nothing to guard. \<^term>\<open>None\<close> is a revert throughout.
\<close>

subsection \<open>State and calls\<close>

datatype log_value = L_bytes "byte list" | L_int int

text \<open>A log: the event, its indexed arguments, and its other arguments by name.\<close>

record vault_log =
  log_event :: string
  log_indexed :: "int list"
  log_data :: "(string \<times> log_value) list"

record 'k erc20_token =
  tok_approve :: "int \<Rightarrow> int \<Rightarrow> int \<Rightarrow> 'k \<Rightarrow> 'k option"
  tok_transferFrom :: "int \<Rightarrow> int \<Rightarrow> int \<Rightarrow> int \<Rightarrow> 'k \<Rightarrow> (bool \<times> 'k) option"
  tok_transfer :: "int \<Rightarrow> int \<Rightarrow> int \<Rightarrow> 'k \<Rightarrow> (bool \<times> 'k) option"

record 'k vault_env =
  poseidonContract :: native_hash
  asset :: "'k erc20_token"
  vk_icLengths :: "nat list"
  pairing :: "nat \<Rightarrow> int list \<Rightarrow> int list \<Rightarrow> bool option"

record 'k erc20_vault =
  vaultMerkle :: vault_merkle
  vault_id :: int
  vault_this :: int
  vault_asset :: int
  token_ledger :: 'k
  vault_logs :: "vault_log list"

record contract_receipt =
  cr_proof :: "int list"
  cr_statement :: "int list"
  cr_numberOfInputs :: nat
  cr_numberOfOutputs :: nat

definition emit_log :: "string \<Rightarrow> int list \<Rightarrow> (string \<times> log_value) list \<Rightarrow> 'k erc20_vault \<Rightarrow> 'k erc20_vault" where
  "emit_log e indexed vals v = v\<lparr>vault_logs := vault_logs v @ [\<lparr>log_event = e, log_indexed = indexed, log_data = vals\<rparr>]\<rparr>"

definition emit_Commitment :: "int \<Rightarrow> 'k erc20_vault \<Rightarrow> 'k erc20_vault" where
  "emit_Commitment c v = emit_log ''Commitment'' [vault_id v, c] [] v"

definition emit_EncryptedNote :: "int \<Rightarrow> byte list \<Rightarrow> byte list \<Rightarrow> 'k erc20_vault \<Rightarrow> 'k erc20_vault" where
  "emit_EncryptedNote c ctI ctII v =
     emit_log ''EncryptedNote'' [vault_id v, c] [(''ciphertextI'', L_bytes ctI), (''ciphertextII'', L_bytes ctII)] v"

definition emit_Nullifier :: "int \<Rightarrow> int \<Rightarrow> 'k erc20_vault \<Rightarrow> 'k erc20_vault" where
  "emit_Nullifier t nf v = emit_log ''Nullifier'' [vault_id v, t, nf] [] v"

subsection \<open>The proof check\<close>

definition groth16_verify :: "'k vault_env \<Rightarrow> nat \<Rightarrow> nat \<Rightarrow> int list \<Rightarrow> int list \<Rightarrow> bool option" where
  "groth16_verify env icLength vk pf input = (if length input + 1 \<noteq> icLength \<or> (\<exists>x\<in>set input. x \<ge> SNARK_SCALAR_FIELD) then None
     else pairing env vk pf input)"

definition verifyProof :: "'k vault_env \<Rightarrow> nat \<Rightarrow> int list \<Rightarrow> int list \<Rightarrow> bool option" where
  "verifyProof env vk pf inputs = (if \<not> vk < length (vk_icLengths env) then None
     else groth16_verify env (vk_icLengths env ! vk) vk pf inputs)"

definition vk_of_receipt :: "contract_receipt \<Rightarrow> nat" where
  "vk_of_receipt r = (if cr_numberOfInputs r = 1 \<and> cr_numberOfOutputs r = 2 then (if length (cr_statement r) = 8 then 2 else 0)
     else if cr_numberOfInputs r = 1 \<and> cr_numberOfOutputs r = 3 then 3
     else if cr_numberOfInputs r = 1 then 23
     else if cr_numberOfInputs r = 2 then 1 else 6)"

definition checkReceiptConditions :: "'k vault_env \<Rightarrow> 'k erc20_vault \<Rightarrow> contract_receipt \<Rightarrow> unit option" where
  "checkReceiptConditions env v r = (let n = cr_numberOfInputs r; stmt = cr_statement r; cIdx = 1 + 3 * n in do {
     _ \<leftarrow> (if cr_numberOfOutputs r = 2 \<or> cr_numberOfOutputs r = 3
           then do { a \<leftarrow> idx stmt (cIdx + cr_numberOfOutputs r); if a = vault_this v then Some () else None }
           else Some ());
     c0 \<leftarrow> idx stmt cIdx;
     c1 \<leftarrow> idx stmt (cIdx + 1);
     if c0 = c1 then None else do {
       _ \<leftarrow> foldM (\<lambda>i _. do {
           root \<leftarrow> idx stmt (1 + n + i);
           if root = 0 then Some () else do {
             t \<leftarrow> idx stmt (1 + i);
             nf \<leftarrow> idx stmt (1 + 2 * n + i);
             if \<not> isValidRoot (vaultMerkle v) t root \<or> isValidNullifier (vaultMerkle v) t nf then None else Some () } }) [0..<n] ();
       if n \<noteq> 1 \<and> n \<noteq> 2 \<and> n \<noteq> 10 then None else do {
         _ \<leftarrow> verifyProof env (vk_of_receipt r) (cr_proof r) stmt;
         Some () } } })"

subsection \<open>Operations\<close>

definition insert_commitment :: "'k vault_env \<Rightarrow> int \<Rightarrow> 'k erc20_vault \<Rightarrow> 'k erc20_vault option" where
  "insert_commitment env c v = do {
     m \<leftarrow> vault_insertLeaves (poseidonContract env) [c] (vaultMerkle v);
     Some (emit_Commitment c (v\<lparr>vaultMerkle := m\<rparr>)) }"

text \<open>The common part of \<^verbatim>\<open>deposit\<close> and \<^verbatim>\<open>depositV2\<close>; the boolean that the token returns is dropped.\<close>

definition deposit_note :: "'k vault_env \<Rightarrow> int \<Rightarrow> int list \<Rightarrow> 'k erc20_vault \<Rightarrow> (int \<times> 'k erc20_vault) option" where
  "deposit_note env sender params v = do {
     amount \<leftarrow> idx params 0; pkSpend \<leftarrow> idx params 1; salt \<leftarrow> idx params 2; tokenId \<leftarrow> idx params 3;
     (_, k) \<leftarrow> tok_transferFrom (asset env) (vault_this v) sender (vault_this v) amount (token_ledger v);
     c \<leftarrow> poseidonContract env [pkSpend, salt, amount, tokenId];
     v' \<leftarrow> insert_commitment env c (v\<lparr>token_ledger := k\<rparr>);
     Some (c, v') }"

definition vault_deposit :: "'k vault_env \<Rightarrow> int \<Rightarrow> int list \<Rightarrow> 'k erc20_vault \<Rightarrow> 'k erc20_vault option" where
  "vault_deposit env sender params v = map_option snd (deposit_note env sender params v)"

definition vault_depositV2 :: "'k vault_env \<Rightarrow> int \<Rightarrow> int list \<Rightarrow> byte list \<Rightarrow> byte list \<Rightarrow> 'k erc20_vault \<Rightarrow> 'k erc20_vault option" where
  "vault_depositV2 env sender params ctI ctII v = do {
     (c, v') \<leftarrow> deposit_note env sender params v;
     Some (emit_EncryptedNote c ctI ctII v') }"

definition nullifyFromReceipt :: "contract_receipt \<Rightarrow> 'k erc20_vault \<Rightarrow> 'k erc20_vault option" where
  "nullifyFromReceipt r v = (let n = cr_numberOfInputs r in foldM (\<lambda>i v. do {
     t \<leftarrow> idx (cr_statement r) (1 + i);
     nf \<leftarrow> idx (cr_statement r) (1 + 2 * n + i);
     root \<leftarrow> idx (cr_statement r) (1 + n + i);
     if root = 0 then Some v
     else if lockedNullifiers (vaultMerkle v) t nf then None
     else do { m \<leftarrow> setNullifier t nf (vaultMerkle v); Some (emit_Nullifier t nf (v\<lparr>vaultMerkle := m\<rparr>)) } }) [0..<n] v)"

text \<open>The nonzero commitments are counted, and then as many are taken from the first on.\<close>

definition insertCommitmentsFromReceipt :: "'k vault_env \<Rightarrow> contract_receipt \<Rightarrow> 'k erc20_vault \<Rightarrow> 'k erc20_vault option" where
  "insertCommitmentsFromReceipt env r v = do {
     cs \<leftarrow> mapM (\<lambda>i. idx (cr_statement r) (1 + 3 * cr_numberOfInputs r + i)) [0..<cr_numberOfOutputs r];
     let out = take (length (filter (\<lambda>c. c \<noteq> 0) cs)) cs;
     m \<leftarrow> vault_insertLeaves (poseidonContract env) out (vaultMerkle v);
     Some ((fold emit_Commitment out v)\<lparr>vaultMerkle := m\<rparr>) }"

definition vault_transfer :: "'k vault_env \<Rightarrow> contract_receipt \<Rightarrow> 'k erc20_vault \<Rightarrow> 'k erc20_vault option" where
  "vault_transfer env r v = do {
     _ \<leftarrow> (if cr_numberOfOutputs r = 2 then do { m \<leftarrow> idx (cr_statement r) 0; if m \<noteq> 0 then None else Some () } else Some ());
     _ \<leftarrow> checkReceiptConditions env v r;
     v1 \<leftarrow> nullifyFromReceipt r v;
     insertCommitmentsFromReceipt env r v1 }"

definition vault_transferV2 :: "'k vault_env \<Rightarrow> contract_receipt \<Rightarrow> byte list list \<Rightarrow> byte list list \<Rightarrow> 'k erc20_vault \<Rightarrow> 'k erc20_vault option" where
  "vault_transferV2 env r ctI ctII v = (if length ctI \<noteq> cr_numberOfOutputs r \<or> length ctII \<noteq> cr_numberOfOutputs r then None else do {
     _ \<leftarrow> checkReceiptConditions env v r;
     v1 \<leftarrow> nullifyFromReceipt r v;
     v2 \<leftarrow> insertCommitmentsFromReceipt env r v1;
     foldM (\<lambda>i v. do { c \<leftarrow> idx (cr_statement r) (1 + 3 * cr_numberOfInputs r + i); a \<leftarrow> idx ctI i; b \<leftarrow> idx ctII i;
        Some (emit_EncryptedNote c a b v) }) [0..<cr_numberOfOutputs r] v2 })"

text \<open>What both withdrawals do once the output commitment is known: check it, spend the inputs, pay the recipient.\<close>

definition withdraw_to :: "'k vault_env \<Rightarrow> int \<Rightarrow> int \<Rightarrow> int \<Rightarrow> contract_receipt \<Rightarrow> 'k erc20_vault \<Rightarrow> 'k erc20_vault option" where
  "withdraw_to env commitment recipient amount r v = (let n = cr_numberOfInputs r in do {
     c \<leftarrow> idx (cr_statement r) (1 + 3 * n);
     if c \<noteq> commitment then None else do {
       _ \<leftarrow> checkReceiptConditions env v r;
       v1 \<leftarrow> foldM (\<lambda>i v. do {
           nf \<leftarrow> idx (cr_statement r) (1 + 2 * n + i);
           if nf = 0 then Some v
           else do { t \<leftarrow> idx (cr_statement r) (1 + i); m \<leftarrow> setNullifier t nf (vaultMerkle v); Some (emit_Nullifier t nf (v\<lparr>vaultMerkle := m\<rparr>)) } }) [0..<n] v;
       (_, k) \<leftarrow> tok_transfer (asset env) (vault_this v) recipient amount (token_ledger v1);
       Some (v1\<lparr>token_ledger := k\<rparr>) } })"

definition vault_withdrawV2 :: "'k vault_env \<Rightarrow> int list \<Rightarrow> int \<Rightarrow> contract_receipt \<Rightarrow> 'k erc20_vault \<Rightarrow> 'k erc20_vault option" where
  "vault_withdrawV2 env withdrawParams recipient r v = do {
     amount \<leftarrow> idx withdrawParams 0; tokenId \<leftarrow> idx withdrawParams 1;
     commitment \<leftarrow> poseidonContract env [recipient, 0, amount, tokenId];
     withdraw_to env commitment recipient amount r v }"

definition erc20_generateUniqueId :: "'k vault_env \<Rightarrow> 'k erc20_vault \<Rightarrow> int \<Rightarrow> int option" where
  "erc20_generateUniqueId env v amount = poseidonContract env [vault_asset v, amount]"

definition vault_withdraw :: "'k vault_env \<Rightarrow> int list \<Rightarrow> int \<Rightarrow> contract_receipt \<Rightarrow> 'k erc20_vault \<Rightarrow> 'k erc20_vault option" where
  "vault_withdraw env withdrawParams recipient r v = do {
     amount \<leftarrow> idx withdrawParams 0;
     uid \<leftarrow> erc20_generateUniqueId env v amount;
     commitment \<leftarrow> poseidonContract env [uid, recipient];
     withdraw_to env commitment recipient amount r v }"

subsection \<open>Lemmas\<close>

lemma nullifierSet_mono:
  assumes "setNullifier t nf m = Some m'"
  shows "nullifierSet m a b \<Longrightarrow> nullifierSet m' a b" "nullifierSet m' t nf" "\<not> nullifierSet m t nf"
  using assms by (auto simp: setNullifier_def split: if_splits)

lemma emit_sel [simp]:
  "vaultMerkle (emit_log e i d v) = vaultMerkle v" "token_ledger (emit_log e i d v) = token_ledger v" "vault_this (emit_log e i d v) = vault_this v"
  "vault_id (emit_log e i d v) = vault_id v" "vault_logs (emit_log e i d v) = vault_logs v @ [\<lparr>log_event = e, log_indexed = i, log_data = d\<rparr>]"
  by (simp_all add: emit_log_def)

lemmas emit_defs = emit_Commitment_def emit_EncryptedNote_def emit_Nullifier_def

text \<open>A join-split of the client ends with its output commitments; the check of a receipt with two or three outputs reads one position further.\<close>

lemma check_needs_address:
  assumes "cr_numberOfOutputs r = 2 \<or> cr_numberOfOutputs r = 3" "length (cr_statement r) = 1 + 3 * cr_numberOfInputs r + cr_numberOfOutputs r"
  shows "checkReceiptConditions env v r = None"
  using assms by (simp add: checkReceiptConditions_def Let_def idx_def)

lemma foldM_unit: "foldM f xs () = Some () \<Longrightarrow> i \<in> set xs \<Longrightarrow> f i () = Some ()"
  by (induction xs) (auto simp: bind_eq_Some_conv)

lemma check_fresh:
  assumes "checkReceiptConditions env v r = Some ()" "i < cr_numberOfInputs r" "idx (cr_statement r) (1 + cr_numberOfInputs r + i) = Some root" "root \<noteq> 0"
  shows "\<exists>t nf. idx (cr_statement r) (1 + i) = Some t \<and> idx (cr_statement r) (1 + 2 * cr_numberOfInputs r + i) = Some nf \<and>
    isValidRoot (vaultMerkle v) t root \<and> \<not> isValidNullifier (vaultMerkle v) t nf"
proof -
  let ?f = "\<lambda>i (_ :: unit). do { root \<leftarrow> idx (cr_statement r) (1 + cr_numberOfInputs r + i);
       if root = 0 then Some () else do { t \<leftarrow> idx (cr_statement r) (1 + i); nf \<leftarrow> idx (cr_statement r) (1 + 2 * cr_numberOfInputs r + i);
         if \<not> isValidRoot (vaultMerkle v) t root \<or> isValidNullifier (vaultMerkle v) t nf then None else Some () } }"
  from assms(1) have "foldM ?f [0..<cr_numberOfInputs r] () = Some ()"
    by (auto simp: checkReceiptConditions_def Let_def bind_eq_Some_conv split: if_splits)
  from foldM_unit [OF this, of i] assms(2) have "?f i () = Some ()" by simp
  then show ?thesis using assms(3,4) by (auto simp: bind_eq_Some_conv split: if_splits)
qed

lemma nullify_fold:
  assumes "foldM (\<lambda>i v. do { t \<leftarrow> idx stmt (1 + i); nf \<leftarrow> idx stmt (1 + 2 * n + i); root \<leftarrow> idx stmt (1 + n + i);
     if root = 0 then Some v else if lockedNullifiers (vaultMerkle v) t nf then None
     else do { m \<leftarrow> setNullifier t nf (vaultMerkle v); Some (emit_Nullifier t nf (v\<lparr>vaultMerkle := m\<rparr>)) } }) xs v = Some v'"
  shows "(\<forall>a b. isValidNullifier (vaultMerkle v) a b \<longrightarrow> isValidNullifier (vaultMerkle v') a b) \<and>
    (\<forall>i\<in>set xs. \<forall>t nf root. idx stmt (1 + i) = Some t \<longrightarrow> idx stmt (1 + 2 * n + i) = Some nf \<longrightarrow> idx stmt (1 + n + i) = Some root \<longrightarrow> root \<noteq> 0 \<longrightarrow>
       isValidNullifier (vaultMerkle v') t nf)"
  using assms
proof (induction xs arbitrary: v)
  case (Cons j xs)
  let ?f = "\<lambda>i v. do { t \<leftarrow> idx stmt (1 + i); nf \<leftarrow> idx stmt (1 + 2 * n + i); root \<leftarrow> idx stmt (1 + n + i);
     if root = 0 then Some v else if lockedNullifiers (vaultMerkle v) t nf then None
     else do { m \<leftarrow> setNullifier t nf (vaultMerkle v); Some (emit_Nullifier t nf (v\<lparr>vaultMerkle := m\<rparr>)) } }"
  from Cons.prems obtain v1 where v1: "?f j v = Some v1" "foldM ?f xs v1 = Some v'" by (auto simp: bind_eq_Some_conv)
  note IH = Cons.IH [OF v1(2)]
  have mono: "isValidNullifier (vaultMerkle v1) a b" if "isValidNullifier (vaultMerkle v) a b" for a b
    using v1(1) that by (auto simp: bind_eq_Some_conv emit_defs isValidNullifier_def setNullifier_def split: if_splits)
  have "isValidNullifier (vaultMerkle v1) t nf"
    if "idx stmt (1 + j) = Some t" "idx stmt (1 + 2 * n + j) = Some nf" "idx stmt (1 + n + j) = Some root" "root \<noteq> 0" for t nf root
    using v1(1) that by (auto simp: bind_eq_Some_conv emit_defs isValidNullifier_def setNullifier_def split: if_splits)
  then show ?case using IH mono by auto
qed simp

lemma insertLeaves_nullifiers: "vault_insertLeaves Hash xs m = Some m' \<Longrightarrow> nullifierSet m' = nullifierSet m"
  by (auto simp: vault_insertLeaves_def vault_newTree_def record_root_def bind_eq_Some_conv Let_def split: if_splits)

lemma insertCommitments_nullifiers:
  assumes "insertCommitmentsFromReceipt env r v = Some v'"
  shows "isValidNullifier (vaultMerkle v') t nf = isValidNullifier (vaultMerkle v) t nf"
  using assms insertLeaves_nullifiers [of "poseidonContract env" _ "vaultMerkle v"]
  by (auto simp: insertCommitmentsFromReceipt_def Let_def bind_eq_Some_conv isValidNullifier_def)

subsection \<open>Properties\<close>

text \<open>
  A note is transferred once. When a transfer succeeds, each input with a nonzero root has a root that the vault knows for its tree and a nullifier that was
  not spent in it; afterwards the nullifier is spent, and every transfer with that input, in this state or in any state where the nullifier is still
  spent, reverts.
\<close>

theorem vault_transfer_spends_once:
  assumes "vault_transfer env r v = Some v'" and "i < cr_numberOfInputs r" and "idx (cr_statement r) (1 + cr_numberOfInputs r + i) = Some root" and "root \<noteq> 0"
  shows "\<exists>t nf. idx (cr_statement r) (1 + i) = Some t \<and> idx (cr_statement r) (1 + 2 * cr_numberOfInputs r + i) = Some nf \<and>
    isValidRoot (vaultMerkle v) t root \<and> \<not> isValidNullifier (vaultMerkle v) t nf \<and> isValidNullifier (vaultMerkle v') t nf \<and>
    (\<forall>env' w. isValidNullifier (vaultMerkle w) t nf \<longrightarrow> vault_transfer env' r w = None)"
proof -
  obtain v1 where s: "checkReceiptConditions env v r = Some ()" "nullifyFromReceipt r v = Some v1" "insertCommitmentsFromReceipt env r v1 = Some v'"
    using assms(1) by (auto simp: vault_transfer_def bind_eq_Some_conv)
  from check_fresh [OF s(1) assms(2-4)] obtain t nf where
    tn: "idx (cr_statement r) (1 + i) = Some t" "idx (cr_statement r) (1 + 2 * cr_numberOfInputs r + i) = Some nf"
      "isValidRoot (vaultMerkle v) t root" "\<not> isValidNullifier (vaultMerkle v) t nf" by blast
  have "isValidNullifier (vaultMerkle v1) t nf"
    using nullify_fold [OF s(2) [unfolded nullifyFromReceipt_def Let_def]] assms(2-4) tn(1,2) by (auto simp: atLeast0LessThan)
  then have "isValidNullifier (vaultMerkle v') t nf" using insertCommitments_nullifiers [OF s(3)] by simp
  moreover have "vault_transfer env' r w = None" if "isValidNullifier (vaultMerkle w) t nf" for env' w
  proof (rule ccontr)
    assume "vault_transfer env' r w \<noteq> None"
    then have "checkReceiptConditions env' w r = Some ()" by (auto simp: vault_transfer_def bind_eq_Some_conv)
    from check_fresh [OF this assms(2-4)] tn(1,2) that show False by auto
  qed
  ultimately show ?thesis using tn by blast
qed

text \<open>A vault at address 77 with a token whose ledger is one balance, and a verifier that rejects every proof.\<close>

definition toy_token :: "int erc20_token" where
  "toy_token = \<lparr>tok_approve = (\<lambda>sender spender amount k. Some k),
     tok_transferFrom = (\<lambda>caller from dest amount k. Some (True, k + amount)),
     tok_transfer = (\<lambda>caller dest amount k. if amount \<le> k then Some (True, k - amount) else None)\<rparr>"

definition toy_env :: "int vault_env" where
  "toy_env = \<lparr>poseidonContract = sum_hash, asset = toy_token, vk_icLengths = [8, 11], pairing = (\<lambda>vk pf input. Some False)\<rparr>"

definition toy_merkle :: vault_merkle where
  "toy_merkle = fresh_merkle\<lparr>treeDepth := 2, vault_zeros := [7, 2146], filledSubTrees := [0, 0], rootHistory := (\<lambda>t r. t = 0 \<and> r = 33)\<rparr>"

definition toy_vault :: "int erc20_vault" where
  "toy_vault = \<lparr>vaultMerkle = toy_merkle, vault_id = 0, vault_this = 77, vault_asset = 78, token_ledger = 1000, vault_logs = []\<rparr>"

definition toy_receipt :: contract_receipt where
  "toy_receipt = \<lparr>cr_proof = [], cr_statement = [0, 0, 33, 5, 11, 12, 77], cr_numberOfInputs = 1, cr_numberOfOutputs = 2\<rparr>"

theorem vault_transfer_spends_once_witness:
  "\<exists>v'. vault_transfer toy_env toy_receipt toy_vault = Some v' \<and> isValidNullifier (vaultMerkle v') 0 5 \<and> vault_transfer toy_env toy_receipt v' = None"
proof -
  have "verifyProof toy_env (vk_of_receipt toy_receipt) [] [0, 0, 33, 5, 11, 12, 77] = Some False"
    by (simp add: verifyProof_def groth16_verify_def vk_of_receipt_def toy_receipt_def toy_env_def SNARK_SCALAR_FIELD_def)
  then have c: "checkReceiptConditions toy_env toy_vault toy_receipt = Some ()"
    by (simp add: checkReceiptConditions_def idx_def numeral_eq_Suc toy_receipt_def toy_vault_def toy_merkle_def isValidRoot_def isValidNullifier_def fresh_merkle_def)
  obtain v1 where n: "nullifyFromReceipt toy_receipt toy_vault = Some v1" "vaultMerkle v1 = toy_merkle\<lparr>nullifierSet := (\<lambda>_ _. False)(0 := (\<lambda>_. False)(5 := True))\<rparr>"
    by (simp add: nullifyFromReceipt_def idx_def numeral_eq_Suc toy_receipt_def toy_vault_def toy_merkle_def setNullifier_def emit_defs fresh_merkle_def)
  have "\<exists>m. vault_insertLeaves sum_hash [11, 12] (vaultMerkle v1) = Some m"
    by (simp add: n(2) vault_insertLeaves_def toy_merkle_def fresh_merkle_def insert_level_def pair_loop.simps idx_def numeral_eq_Suc hashLeftRight_def sum_hash_def)
  then obtain v' where i: "insertCommitmentsFromReceipt toy_env toy_receipt v1 = Some v'"
    by (auto simp: insertCommitmentsFromReceipt_def toy_receipt_def toy_env_def idx_def numeral_eq_Suc)
  have "vault_transfer toy_env toy_receipt toy_vault = Some v'" using c n(1) i by (simp add: vault_transfer_def toy_receipt_def idx_def)
  from vault_transfer_spends_once [OF this, of 0 33] this show ?thesis by (auto simp: toy_receipt_def idx_def)
qed

text \<open>
  C12. The vault pays out without a note. The result of the proof check is not looked at, and inputs with root and nullifier zero are not checked: with any
  proof that the verifier rejects, for any amount that the token contract can transfer, a withdrawal made up from nothing but the commitment to the
  recipient and the amount succeeds, pays the recipient, and changes nothing else in the vault, so that it can be repeated.
\<close>

theorem vault_pays_without_note:
  assumes "0 < length (vk_icLengths env)" and "vk_icLengths env ! 0 = 8"
    and "poseidonContract env [recipient, 0, amount, tokenId] = Some c" and "c < SNARK_SCALAR_FIELD" and "vault_this v < SNARK_SCALAR_FIELD" and "c \<noteq> 0"
    and "pairing env 0 pf [0, 0, 0, 0, c, 0, vault_this v] = Some False"
    and "tok_transfer (asset env) (vault_this v) recipient amount (token_ledger v) = Some (b, k)"
  shows "vault_withdrawV2 env [amount, tokenId] recipient
      \<lparr>cr_proof = pf, cr_statement = [0, 0, 0, 0, c, 0, vault_this v], cr_numberOfInputs = 1, cr_numberOfOutputs = 2\<rparr> v = Some (v\<lparr>token_ledger := k\<rparr>)"
proof -
  let ?r = "\<lparr>cr_proof = pf, cr_statement = [0, 0, 0, 0, c, 0, vault_this v], cr_numberOfInputs = 1, cr_numberOfOutputs = 2\<rparr>"
  have "verifyProof env (vk_of_receipt ?r) (cr_proof ?r) (cr_statement ?r) = Some False"
    using assms(1,2,4,5,7) by (simp add: verifyProof_def vk_of_receipt_def groth16_verify_def SNARK_SCALAR_FIELD_def)
  then have "checkReceiptConditions env v ?r = Some ()" using assms(6) by (simp add: checkReceiptConditions_def idx_def numeral_eq_Suc)
  then show ?thesis using assms(3,8) by (simp add: vault_withdrawV2_def withdraw_to_def idx_def numeral_eq_Suc)
qed

theorem vault_pays_without_note_witness:
  "\<exists>c. vault_withdrawV2 toy_env [900, 0] 5 \<lparr>cr_proof = [], cr_statement = [0, 0, 0, 0, c, 0, 77], cr_numberOfInputs = 1, cr_numberOfOutputs = 2\<rparr> toy_vault =
     Some (toy_vault\<lparr>token_ledger := 100\<rparr>)"
proof -
  obtain c where c: "sum_hash [5, 0, 900, 0] = Some c" "c < SNARK_SCALAR_FIELD" "c \<noteq> 0" by (simp add: sum_hash_def fv_def SNARK_SCALAR_FIELD_def)
  from vault_pays_without_note [of toy_env 5 900 0 c toy_vault "[]" True 100] c show ?thesis
    by (auto simp: toy_env_def toy_vault_def toy_token_def SNARK_SCALAR_FIELD_def)
qed

end
