(* ===== verification/Endpoints.thy ===== *)
theory Endpoints
  imports Eth_Client Vault_Erc20 Client_Assets
begin

section \<open>The endpoints of the exchange\<close>

text \<open>
  \<^verbatim>\<open>enygma_dvp/src/core/endpoints\<close>: the operations of users (\<^verbatim>\<open>user.go\<close>), relayer (\<^verbatim>\<open>relayer.go\<close>) and administrator (\<^verbatim>\<open>admin.go\<close>), which
  build a proof, send one or two transactions and read the receipt. The contracts are an argument, a function from a call and a state to
  the next state with its logs or a revert; the theorems put the ERC20 vault of \<open>Vault_Erc20\<close> there. The \<open>k\<close>-th transaction of an
  operation has the \<open>k\<close>-th environment (\<open>Eth_Client\<close>). A nil pointer or key is \<^term>\<open>None\<close> in its field; \<^term>\<open>None\<close> as a result is a
  wait that does not end or a panic.
\<close>

subsection \<open>Receipts and calls\<close>

record G1Point =
  g1_X :: "int option"
  g1_Y :: "int option"

record G2Point =
  g2_X :: "int option \<times> int option"
  g2_Y :: "int option \<times> int option"

record SnarkProof =
  proof_A :: G1Point
  proof_B :: G2Point
  proof_C :: G1Point

record ProofReceipt =
  rc_Proof :: SnarkProof
  rc_Statement :: "int list"
  rc_NumberOfInputs :: int
  rc_NumberOfOutputs :: int

definition zero_SnarkProof :: SnarkProof where
  "zero_SnarkProof = \<lparr>proof_A = \<lparr>g1_X = None, g1_Y = None\<rparr>, proof_B = \<lparr>g2_X = (None, None), g2_Y = (None, None)\<rparr>,
     proof_C = \<lparr>g1_X = None, g1_Y = None\<rparr>\<rparr>"

definition result_receipt :: "ProofResult \<Rightarrow> ProofReceipt" where
  "result_receipt r = \<lparr>rc_Proof = zero_SnarkProof, rc_Statement = pr_Statement r, rc_NumberOfInputs = int (pr_NumberOfInputs r),
     rc_NumberOfOutputs = int (pr_NumberOfOutputs r)\<rparr>"

text \<open>The calls, each with the contract it goes to first.\<close>

datatype contract_call = Approve_call int int int | SetApprovalForAll_call int int | Deposit_call int "int list"
  | DepositV2_call int "int list" "byte list" "byte list" | Withdraw_call int "int list" int ProofReceipt
  | WithdrawV2_call int "int list" int ProofReceipt | TransferV2_call int ProofReceipt "byte list list" "byte list list"
  | MixFunds_call int ProofReceipt | SubmitUnspentErc20_call int ProofReceipt | SubmitPartialSettlement_call int ProofReceipt int int
  | Swap_call int ProofReceipt ProofReceipt int int | Exchange_call int ProofReceipt ProofReceipt int int
  | Payment_call int ProofReceipt int "byte list" "byte list"
  | AddAssetToGroup_call int int "int list" int | Mint_call int int int | Mint1155_call int int int int "byte list"
  | MintBatch_call int int "int list" "int list" "byte list"

datatype endpoint_error = Tx_failed "string tx_error" | Keys_failed | Encapsulation_error | Encryption_error | Commitment_error | Proof_error
  | Event_unknown | No_commitment_logs | Statement_too_short nat nat | Logs_failed | Abi_encoding_failed | Unimplemented

record 'w chain =
  chain_run :: "int \<Rightarrow> contract_call \<Rightarrow> 'w \<Rightarrow> string + 'w \<times> vault_log list"
  chain_envs :: "nat \<Rightarrow> 'w tx_env"
  abi_events :: "string list"

type_synonym ('w, 'a) outcome = "((endpoint_error + 'a) \<times> 'w) option"

definition call_contract :: "'w chain \<Rightarrow> nat \<Rightarrow> int \<Rightarrow> contract_call \<Rightarrow> 'w \<Rightarrow> ('w, vault_log list) outcome" where
  "call_contract ch k auth call w = map_option (map_prod (map_sum Tx_failed id) id) (send_tx (chain_envs ch k) (chain_run ch auth call) w)"

definition and_then :: "('w, 'a) outcome \<Rightarrow> ('a \<Rightarrow> 'w \<Rightarrow> ('w, 'b) outcome) \<Rightarrow> ('w, 'b) outcome" where
  "and_then r f = (case r of None \<Rightarrow> None | Some (Inl e, w) \<Rightarrow> Some (Inl e, w) | Some (Inr x, w) \<Rightarrow> f x w)"

text \<open>A step of the client alone: an error of it, or its value, leaves the state.\<close>

definition locally :: "endpoint_error \<Rightarrow> 'a option \<Rightarrow> 'w \<Rightarrow> ('w, 'a) outcome" where
  "locally e r w = Some (case r of None \<Rightarrow> Inl e | Some x \<Rightarrow> Inr x, w)"

text \<open>The values that \<^verbatim>\<open>UnpackIntoMap\<close> gives are the arguments in the data of the log: those that are not indexed.\<close>

definition log_commitments :: "vault_log list \<Rightarrow> int list" where
  "log_commitments logs = List.map_filter (\<lambda>l. if log_event l \<noteq> ''Commitment'' then None
     else case map_of (log_data l) ''commitment'' of Some (L_int c) \<Rightarrow> Some c | _ \<Rightarrow> None) logs"

definition getCommitmentsFromTx :: "'w chain \<Rightarrow> vault_log list \<Rightarrow> endpoint_error + int list" where
  "getCommitmentsFromTx ch logs = (if ''Commitment'' \<notin> set (abi_events ch) then Inl Event_unknown
     else if log_commitments logs = [] then Inl No_commitment_logs else Inr (log_commitments logs))"

definition getCommitmentFromTx :: "'w chain \<Rightarrow> vault_log list \<Rightarrow> endpoint_error + int" where
  "getCommitmentFromTx ch logs = (if ''Commitment'' \<notin> set (abi_events ch) then Inl Event_unknown
     else case log_commitments logs of [] \<Rightarrow> Inl No_commitment_logs | c # _ \<Rightarrow> Inr c)"

subsection \<open>Deposits\<close>

definition DepositErc20 :: "'w chain \<Rightarrow> int \<Rightarrow> int \<Rightarrow> int \<Rightarrow> int \<Rightarrow> int \<Rightarrow> int \<Rightarrow> int \<Rightarrow> 'w \<Rightarrow> ('w, int list) outcome" where
  "DepositErc20 ch auth vaultAddr erc20Addr depositAmount pkSpend salt tokenId w =
     and_then (call_contract ch 0 auth (Approve_call erc20Addr vaultAddr depositAmount) w) (\<lambda>_ w1.
     and_then (call_contract ch 1 auth (Deposit_call vaultAddr [depositAmount, pkSpend, salt, tokenId]) w1) (\<lambda>logs w2.
     Some (getCommitmentsFromTx ch logs, w2)))"

definition DepositErc20V2 ::
  "'w chain \<Rightarrow> ('a) crypto_scheme \<Rightarrow> client_hash \<Rightarrow> byte list \<Rightarrow> byte list option \<Rightarrow> int \<Rightarrow> int \<Rightarrow> int \<Rightarrow> int \<Rightarrow> int \<Rightarrow> int \<Rightarrow> byte list \<Rightarrow> 'w \<Rightarrow>
   ('w, unit) outcome" where
  "DepositErc20V2 ch cr H coins nonce auth vaultAddr erc20Addr depositAmount tokenId recipientSpendPk recipientViewEncapKey w = (
     if \<not> ValidKey cr recipientViewEncapKey then Some (Inl Encapsulation_error, w)
     else let (ss, ct) = Encapsulate cr recipientViewEncapKey coins; saltBField = SaltBToField (DerivePaymentSalt cr ss)
     in case EncryptNotePayload cr nonce (DerivePaymentKey cr ss) tokenId depositAmount of
       None \<Rightarrow> None
     | Some (Inl _) \<Rightarrow> Some (Inl Encryption_error, w)
     | Some (Inr enc) \<Rightarrow>
         and_then (locally Commitment_error (client_Erc20CommitmentV2 H recipientSpendPk saltBField depositAmount tokenId) w) (\<lambda>_ w.
         and_then (call_contract ch 0 auth (Approve_call erc20Addr vaultAddr depositAmount) w) (\<lambda>_ w1.
         and_then (call_contract ch 1 auth (DepositV2_call vaultAddr [depositAmount, recipientSpendPk, saltBField, tokenId] ct enc) w1)
           (\<lambda>_ w2. Some (Inr (), w2)))))"

definition DepositErc721 :: "'w chain \<Rightarrow> int \<Rightarrow> int \<Rightarrow> int \<Rightarrow> int \<Rightarrow> int \<Rightarrow> int \<Rightarrow> 'w \<Rightarrow> ('w, int list) outcome" where
  "DepositErc721 ch auth vaultAddr erc721Addr nftID pkSpend salt w =
     and_then (call_contract ch 0 auth (Approve_call erc721Addr vaultAddr nftID) w) (\<lambda>_ w1.
     and_then (call_contract ch 1 auth (Deposit_call vaultAddr [nftID, pkSpend, salt]) w1) (\<lambda>logs w2.
     Some (getCommitmentsFromTx ch logs, w2)))"

text \<open>An error of sending the deposit is printed and swallowed: the function returns no commitments and no error.\<close>

definition DepositErc1155 :: "'w chain \<Rightarrow> int \<Rightarrow> int \<Rightarrow> int \<Rightarrow> int \<Rightarrow> int \<Rightarrow> int \<Rightarrow> int \<Rightarrow> 'w \<Rightarrow> ('w, int list) outcome" where
  "DepositErc1155 ch auth vaultAddr erc1155Addr tokenID amount pkSpend salt w =
     and_then (call_contract ch 0 auth (SetApprovalForAll_call erc1155Addr vaultAddr) w) (\<lambda>_ w1.
     case call_contract ch 1 auth (Deposit_call vaultAddr [amount, tokenID, pkSpend, salt]) w1 of
       None \<Rightarrow> None
     | Some (Inl _, w2) \<Rightarrow> Some (Inr [], w2)
     | Some (Inr logs, w2) \<Rightarrow> Some (getCommitmentsFromTx ch logs, w2))"

definition DepositErc1155Batch ::
  "'w chain \<Rightarrow> int \<Rightarrow> int \<Rightarrow> int \<Rightarrow> int list \<Rightarrow> int list \<Rightarrow> int list \<Rightarrow> int list \<Rightarrow> 'w \<Rightarrow> ('w, int list) outcome" where
  "DepositErc1155Batch ch auth vaultAddr erc1155Addr tokenIDs amounts pkSpeends salts w =
     and_then (call_contract ch 0 auth (SetApprovalForAll_call erc1155Addr vaultAddr) w) (\<lambda>_ w1.
     and_then (call_contract ch 1 auth (Deposit_call vaultAddr (tokenIDs @ amounts @ pkSpeends @ salts)) w1) (\<lambda>logs w2.
     Some (getCommitmentsFromTx ch logs, w2)))"

subsection \<open>Withdrawals and transfers\<close>

text \<open>The index of the first output commitment in the statement, or an error when the statement ends before it.\<close>

definition statement_at :: "nat \<Rightarrow> ProofResult \<Rightarrow> endpoint_error + int" where
  "statement_at i r = (if i \<ge> length (pr_Statement r) then Inl (Statement_too_short i (length (pr_Statement r))) else Inr (pr_Statement r ! i))"

definition WithdrawErc20 where
  "WithdrawErc20 ch post cr H coins nonces rand dummyViewKey auth vaultAddr amount withdrawKey wtSaltIn accountAddr accountSpendPk
     accountViewEncapKey tokenId merkleDepth merkleProof stTreeNumber use10_2 w =
     and_then (locally Keys_failed (NewSpendKeyPair H rand) w) (\<lambda>dummyKey w.
     and_then (locally Keys_failed dummyViewKey w) (\<lambda>dummyEk w.
     and_then (locally Proof_error (Erc20JoinSplitProof post cr H coins nonces 0 [amount, 0] [withdrawKey, dummyKey] [wtSaltIn, 0] [amount, 0]
         [accountSpendPk, KeyPair.PublicKey dummyKey] [accountViewEncapKey, dummyEk] merkleDepth [merkleProof, None] [stTreeNumber, 0] tokenId use10_2) w) (\<lambda>result w.
     and_then (call_contract ch 0 auth (Withdraw_call vaultAddr [amount] accountAddr (result_receipt result)) w) (\<lambda>_ w1.
     Some (statement_at (1 + pr_NumberOfInputs result * 3) result, w1)))))"

definition WithdrawErc20V2 where
  "WithdrawErc20V2 ch post H rand auth vaultAddr amount withdrawKey wtSaltIn recipientAddr tokenId merkleDepth merkleProof stTreeNumber use10_2 w =
     and_then (locally Keys_failed (NewSpendKeyPair H rand) w) (\<lambda>dummyKey w.
     and_then (locally Proof_error (Erc20WithdrawProof post H 0 [amount, 0] [withdrawKey, dummyKey] [wtSaltIn, 0] amount recipientAddr
         (KeyPair.PublicKey dummyKey) merkleDepth [merkleProof, None] [stTreeNumber, 0] tokenId use10_2) w) (\<lambda>result w.
     and_then (call_contract ch 0 auth (WithdrawV2_call vaultAddr [amount, tokenId] recipientAddr (result_receipt result)) w) (\<lambda>_ w1.
     Some (Inr (), w1))))"

definition TransferErc20V2 where
  "TransferErc20V2 ch post cr H coins nonces auth vaultAddr stMessage wtValuesIn keysIn wtSaltsIn wtValuesOut recipientSpendPks recipientViewEncapKeys
     tokenId merkleDepth merkleProofs stTreeNumbers use10_2 w =
     and_then (locally Proof_error (Erc20JoinSplitProof post cr H coins nonces stMessage wtValuesIn keysIn wtSaltsIn wtValuesOut recipientSpendPks
         recipientViewEncapKeys merkleDepth merkleProofs stTreeNumbers tokenId use10_2) w) (\<lambda>result w.
     and_then (call_contract ch 0 auth (TransferV2_call vaultAddr (result_receipt result) (pr_CipherText result) (pr_EncTxData result)) w) (\<lambda>_ w1.
     Some (Inr (), w1)))"

text \<open>The output of these withdrawals is public, and no view key is passed.\<close>

definition GenerateSingleErc1155Proof where
  "GenerateSingleErc1155Proof post post1 cr H coins nonces stMessage amountOrOne keyIn wtSaltIn keyOut merkleDepth merkleProof stTreeNumber
     contract tokenID agTree agProof isFungible =
     (if isFungible then Erc1155FungibleJoinSplitProof post cr H coins nonces stMessage [amountOrOne] [keyIn] [wtSaltIn] [amountOrOne] [keyOut] [None]
        merkleDepth [Some merkleProof] [stTreeNumber] contract tokenID agTree agProof
      else Erc1155NonFungibleOwnershipProof post1 cr H (coins 0) (nonces 0) stMessage amountOrOne keyIn wtSaltIn keyOut None merkleDepth merkleProof
        stTreeNumber contract tokenID agTree agProof)"

text \<open>A key pair with only a public key, the number of an address; its private key is nil and never read.\<close>

definition address_key :: "int \<Rightarrow> KeyPair" where
  "address_key accountAddr = \<lparr>PrivateKey = 0, PublicKey = accountAddr\<rparr>"

definition WithdrawERC1155 where
  "WithdrawERC1155 ch post post1 cr H coins nonces auth vaultAddr amount tokenID withdrawKey wtSaltIn accountAddr erc1155Addr merkleDepth merkleProof
     stTreeNumber agTree agProof isFungible w =
     and_then (locally Proof_error (GenerateSingleErc1155Proof post post1 cr H coins nonces 0 amount withdrawKey wtSaltIn (address_key accountAddr) merkleDepth merkleProof
         stTreeNumber erc1155Addr tokenID agTree agProof isFungible) w) (\<lambda>result w.
     and_then (call_contract ch 0 auth (Withdraw_call vaultAddr [amount, tokenID] accountAddr (result_receipt result)) w) (\<lambda>_ w1.
     Some (statement_at 4 result, w1)))"

definition GenerateOwnershipProof where
  "GenerateOwnershipProof post cr H coins nonce stMessage nftID keyIn wtSaltIn keyOut merkleDepth merkleProof stTreeNumber erc721Addr =
     Erc721OwnershipProof post cr H coins nonce stMessage nftID keyIn wtSaltIn keyOut None merkleDepth merkleProof stTreeNumber erc721Addr"

definition WithdrawErc721 where
  "WithdrawErc721 ch post cr H coins nonce auth vaultAddr nftID withdrawKey wtSaltIn accountAddr erc721Addr merkleDepth merkleProof stTreeNumber w =
     and_then (locally Proof_error (Erc721OwnershipProof post cr H coins nonce 0 nftID withdrawKey wtSaltIn (address_key accountAddr) None merkleDepth merkleProof
         stTreeNumber erc721Addr) w) (\<lambda>result w.
     and_then (call_contract ch 0 auth (Withdraw_call vaultAddr [nftID] accountAddr (result_receipt result)) w) (\<lambda>_ w1.
     Some (statement_at 4 result, w1)))"

definition withdrawERC1155Batch :: "'w \<Rightarrow> ('w, int) outcome" where
  "withdrawERC1155Batch w = Some (Inl Unimplemented, w)"

definition GenerateErc1155BatchProof :: "'w \<Rightarrow> ('w, ProofResult) outcome" where
  "GenerateErc1155BatchProof w = Some (Inl Unimplemented, w)"

definition GenerateErc1155JoinSplitProof where
  "GenerateErc1155JoinSplitProof post cr H coins nonces stMessage wtValuesIn keysIn wtSaltsIn wtValuesOut keysOut merkleDepth merkleProofs stTreeNumbers
     contract tokenID agTree agProof =
     Erc1155FungibleJoinSplitProof post cr H coins nonces stMessage wtValuesIn keysIn wtSaltsIn wtValuesOut keysOut (replicate (length keysOut) None)
       merkleDepth merkleProofs stTreeNumbers contract tokenID agTree agProof"

definition GenerateErc20JoinSplitProof where
  "GenerateErc20JoinSplitProof post cr H coins nonces stMessage wtValuesIn keysIn wtSaltsIn wtValuesOut recipientSpendPks recipientViewEncapKeys
     merkleDepth merkleProofs stTreeNumbers tokenId use10_2 =
     Erc20JoinSplitProof post cr H coins nonces stMessage wtValuesIn keysIn wtSaltsIn wtValuesOut recipientSpendPks recipientViewEncapKeys
       merkleDepth merkleProofs stTreeNumbers tokenId use10_2"

text \<open>With fewer than two inputs the first input is sent on whole, whatever the amounts out are; the proofs and tree numbers are passed as they are.\<close>

definition MixErc20 where
  "MixErc20 post cr H coins nonces rand dummyViewKey inAmounts inKeys wtSaltsIn outAmounts recipientSpendPks recipientViewEncapKeys tokenId
     merkleDepth merkleProofs stTreeNumbers use10_2 =
     (if length inAmounts < 2 \<or> length inKeys < 2 then do {
        dummyKey \<leftarrow> NewSpendKeyPair H rand;
        dummyEk \<leftarrow> dummyViewKey;
        amount \<leftarrow> idx inAmounts 0; key \<leftarrow> idx inKeys 0; salt \<leftarrow> idx wtSaltsIn 0; pk \<leftarrow> idx recipientSpendPks 0; ek \<leftarrow> idx recipientViewEncapKeys 0;
        Erc20JoinSplitProof post cr H coins nonces 0 [amount, 0] [key, dummyKey] [salt, 0] [amount, 0] [pk, KeyPair.PublicKey dummyKey] [ek, dummyEk]
          merkleDepth merkleProofs stTreeNumbers tokenId use10_2 }
      else Erc20JoinSplitProof post cr H coins nonces 0 inAmounts inKeys wtSaltsIn outAmounts recipientSpendPks recipientViewEncapKeys
        merkleDepth merkleProofs stTreeNumbers tokenId use10_2)"

definition WithdrawEnygma where
  "WithdrawEnygma post cr H coins nonces rand dummyViewKey outSpendPk outViewEncapKey amount withdrawKey wtSaltIn tokenId commitmentProof merkleDepth
     stTreeNumber use10_2 = do {
     dummyKey \<leftarrow> NewSpendKeyPair H rand;
     dummyEk \<leftarrow> dummyViewKey;
     Erc20JoinSplitProof post cr H coins nonces 0 [amount, 0] [withdrawKey, dummyKey] [wtSaltIn, 0] [amount, 0]
       [outSpendPk, KeyPair.PublicKey dummyKey] [outViewEncapKey, dummyEk] merkleDepth [commitmentProof, None] [stTreeNumber, 0] tokenId use10_2 }"

text \<open>A failed call counts as not owning the token.\<close>

definition CheckOwnership :: "int option \<Rightarrow> int \<Rightarrow> bool" where
  "CheckOwnership ownerOf accountAddr = (case ownerOf of None \<Rightarrow> False | Some tokenOwner \<Rightarrow> tokenOwner = accountAddr)"

subsection \<open>Scanning\<close>

record Erc20Note =
  en_VaultId :: int
  en_Commitment :: int
  en_TokenId :: int
  en_Amount :: int
  en_SaltBField :: int

text \<open>One log; \<^term>\<open>None\<close> is a \<^verbatim>\<open>continue\<close>.\<close>

definition scan_log :: "('a) crypto_scheme \<Rightarrow> byte list \<Rightarrow> vault_log \<Rightarrow> Erc20Note option" where
  "scan_log cr dk l = (case log_indexed l of
       vid # cmt # _ \<Rightarrow>
         (case (map_of (log_data l) ''cipherText'', map_of (log_data l) ''encTxData'') of
            (Some (L_bytes ct), Some (L_bytes enc)) \<Rightarrow> do {
              ss \<leftarrow> Decapsulate cr dk ct;
              (tokenId, amount) \<leftarrow> (case DecryptNotePayload cr (DerivePaymentKey cr ss) enc of Inl _ \<Rightarrow> None | Inr x \<Rightarrow> Some x);
              Some \<lparr>en_VaultId = vid, en_Commitment = cmt, en_TokenId = tokenId, en_Amount = amount,
                en_SaltBField = SaltBToField (DerivePaymentSalt cr ss)\<rparr> }
          | _ \<Rightarrow> None)
     | _ \<Rightarrow> None)"

definition ScanErc20Notes :: "'w chain \<Rightarrow> ('a) crypto_scheme \<Rightarrow> vault_log list option \<Rightarrow> byte list \<Rightarrow> endpoint_error + Erc20Note list" where
  "ScanErc20Notes ch cr FilterLogs dk = (if ''EncryptedNote'' \<notin> set (abi_events ch) then Inl Event_unknown
     else case FilterLogs of None \<Rightarrow> Inl Logs_failed
       | Some logs \<Rightarrow> Inr (List.map_filter (scan_log cr dk) (filter (\<lambda>l. log_event l = ''EncryptedNote'') logs)))"

subsection \<open>Relayer and administrator\<close>

definition SendMixFundsToChain :: "'w chain \<Rightarrow> int \<Rightarrow> int \<Rightarrow> ProofReceipt \<Rightarrow> int list \<Rightarrow> 'w \<Rightarrow> ('w, int list) outcome" where
  "SendMixFundsToChain ch auth contractAddr receipt cmts w =
     and_then (call_contract ch 0 auth (MixFunds_call contractAddr receipt) w) (\<lambda>_ w1. Some (Inr cmts, w1))"

definition SendUnspentErc20 :: "'w chain \<Rightarrow> int \<Rightarrow> int \<Rightarrow> ProofReceipt \<Rightarrow> 'w \<Rightarrow> ('w, unit) outcome" where
  "SendUnspentErc20 ch auth contractAddr receipt w =
     and_then (call_contract ch 0 auth (SubmitUnspentErc20_call contractAddr receipt) w) (\<lambda>_ w1. Some (Inr (), w1))"

definition SubmitPartialSettlement :: "'w chain \<Rightarrow> int \<Rightarrow> int \<Rightarrow> ProofReceipt \<Rightarrow> int \<Rightarrow> int \<Rightarrow> 'w \<Rightarrow> ('w, vault_log list) outcome" where
  "SubmitPartialSettlement ch auth contractAddr receipt vid gid w =
     call_contract ch 0 auth (SubmitPartialSettlement_call contractAddr receipt vid gid) w"

text \<open>Swap and exchange read their output commitments only after the transaction.\<close>

definition swap_commitments :: "ProofReceipt \<Rightarrow> ProofReceipt \<Rightarrow> endpoint_error + int list" where
  "swap_commitments r1 r2 = (if length (rc_Statement r1) \<le> 8 then Inl (Statement_too_short 8 (length (rc_Statement r1)))
     else if length (rc_Statement r2) \<le> 4 then Inl (Statement_too_short 4 (length (rc_Statement r2)))
     else Inr [rc_Statement r1 ! 7, rc_Statement r1 ! 8, rc_Statement r2 ! 4])"

definition endpoint_Swap :: "'w chain \<Rightarrow> int \<Rightarrow> int \<Rightarrow> ProofReceipt \<Rightarrow> ProofReceipt \<Rightarrow> int \<Rightarrow> int \<Rightarrow> 'w \<Rightarrow> ('w, int list) outcome" where
  "endpoint_Swap ch auth contractAddr paymentReceipt deliveryReceipt paymentVaultId deliveryVaultId w =
     and_then (call_contract ch 0 auth (Swap_call contractAddr paymentReceipt deliveryReceipt paymentVaultId deliveryVaultId) w)
       (\<lambda>_ w1. Some (swap_commitments paymentReceipt deliveryReceipt, w1))"

definition SubmitPayment :: "'w chain \<Rightarrow> int \<Rightarrow> int \<Rightarrow> ProofReceipt \<Rightarrow> int \<Rightarrow> byte list \<Rightarrow> byte list \<Rightarrow> 'w \<Rightarrow> ('w, vault_log list) outcome" where
  "SubmitPayment ch auth contractAddr receipt vid ctxt enc w = call_contract ch 0 auth (Payment_call contractAddr receipt vid ctxt enc) w"

definition endpoint_Exchange :: "'w chain \<Rightarrow> int \<Rightarrow> int \<Rightarrow> ProofReceipt \<Rightarrow> ProofReceipt \<Rightarrow> int \<Rightarrow> int \<Rightarrow> 'w \<Rightarrow> ('w, int list) outcome" where
  "endpoint_Exchange ch auth contractAddr receipt1 receipt2 vid1 vid2 w =
     and_then (call_contract ch 0 auth (Exchange_call contractAddr receipt1 receipt2 vid1 vid2) w)
       (\<lambda>_ w1. Some (swap_commitments receipt1 receipt2, w1))"

definition AddAssetToGroup :: "'w chain \<Rightarrow> int \<Rightarrow> int \<Rightarrow> int \<Rightarrow> int list \<Rightarrow> int \<Rightarrow> 'w \<Rightarrow> ('w, vault_log list) outcome" where
  "AddAssetToGroup ch auth contractAddr vid uniqueIdParams gid w = call_contract ch 0 auth (AddAssetToGroup_call contractAddr vid uniqueIdParams gid) w"

definition MintErc20 :: "'w chain \<Rightarrow> int \<Rightarrow> int \<Rightarrow> int \<Rightarrow> int \<Rightarrow> 'w \<Rightarrow> ('w, vault_log list) outcome" where
  "MintErc20 ch auth contractAddr account depositAmount w = call_contract ch 0 auth (Mint_call contractAddr account depositAmount) w"

definition MintErc721 :: "'w chain \<Rightarrow> int \<Rightarrow> int \<Rightarrow> int \<Rightarrow> int \<Rightarrow> 'w \<Rightarrow> ('w, vault_log list) outcome" where
  "MintErc721 ch auth contractAddr account nftID w = call_contract ch 0 auth (Mint_call contractAddr account nftID) w"

definition MintErc1155 :: "'w chain \<Rightarrow> int \<Rightarrow> int \<Rightarrow> int \<Rightarrow> int \<Rightarrow> int \<Rightarrow> 'w \<Rightarrow> ('w, vault_log list) outcome" where
  "MintErc1155 ch auth contractAddr account tokenID amount w = call_contract ch 0 auth (Mint1155_call contractAddr account tokenID amount []) w"

definition MintErc1155Batch :: "'w chain \<Rightarrow> int \<Rightarrow> int \<Rightarrow> int \<Rightarrow> int list \<Rightarrow> int list \<Rightarrow> byte list \<Rightarrow> 'w \<Rightarrow> ('w, vault_log list) outcome" where
  "MintErc1155Batch ch auth contractAddr account tokenIds amounts bytes w = call_contract ch 0 auth (MintBatch_call contractAddr account tokenIds amounts bytes) w"

text \<open>The ABI encoding of a list of numbers is the argument \<open>encode\<close>.\<close>

definition MintErc1155Fungible :: "(int list \<Rightarrow> byte list option) \<Rightarrow> 'w chain \<Rightarrow> int \<Rightarrow> int \<Rightarrow> int \<Rightarrow> int \<Rightarrow> int \<Rightarrow> 'w \<Rightarrow> ('w, vault_log list) outcome" where
  "MintErc1155Fungible encode ch auth contractAddr account tokenID amount w =
     and_then (locally Abi_encoding_failed (encode [0]) w) (\<lambda>bytes w. call_contract ch 0 auth (Mint1155_call contractAddr account tokenID amount bytes) w)"

definition MintErc1155NonFungible :: "(int list \<Rightarrow> byte list option) \<Rightarrow> 'w chain \<Rightarrow> int \<Rightarrow> int \<Rightarrow> int \<Rightarrow> int \<Rightarrow> 'w \<Rightarrow> ('w, vault_log list) outcome" where
  "MintErc1155NonFungible encode ch auth contractAddr account tokenID w =
     and_then (locally Abi_encoding_failed (encode [1]) w) (\<lambda>bytes w. call_contract ch 0 auth (Mint1155_call contractAddr account tokenID 1 bytes) w)"

subsection \<open>The endpoints on the ERC20 vault\<close>

text \<open>
  The contracts of a chain that has one ERC20 vault and its token. How go-ethereum packs a receipt is the argument \<open>pack\<close>; it fails, or
  keeps the statement and the two counts.
\<close>

definition abi_faithful :: "(ProofReceipt \<Rightarrow> contract_receipt option) \<Rightarrow> bool" where
  "abi_faithful pack \<longleftrightarrow> (\<forall>r c. pack r = Some c \<longrightarrow> cr_statement c = rc_Statement r \<and> int (cr_numberOfInputs c) = rc_NumberOfInputs r \<and>
     int (cr_numberOfOutputs c) = rc_NumberOfOutputs r)"

definition call_reply :: "'k erc20_vault \<Rightarrow> 'k erc20_vault option \<Rightarrow> string + 'k erc20_vault \<times> vault_log list" where
  "call_reply v r = (case r of None \<Rightarrow> Inl ''revert'' | Some v' \<Rightarrow> Inr (v', drop (length (vault_logs v)) (vault_logs v')))"

definition vault_run ::
  "'k vault_env \<Rightarrow> (ProofReceipt \<Rightarrow> contract_receipt option) \<Rightarrow> int \<Rightarrow> contract_call \<Rightarrow> 'k erc20_vault \<Rightarrow> string + 'k erc20_vault \<times> vault_log list" where
  "vault_run env pack sender call v = call_reply v (case call of
     Approve_call token spender amount \<Rightarrow>
       if token = vault_asset v then map_option (\<lambda>k. v\<lparr>token_ledger := k\<rparr>) (tok_approve (asset env) sender spender amount (token_ledger v)) else None
   | Deposit_call a params \<Rightarrow> if a = vault_this v then vault_deposit env sender params v else None
   | DepositV2_call a params ctI ctII \<Rightarrow> if a = vault_this v then vault_depositV2 env sender params ctI ctII v else None
   | Withdraw_call a params recipient r \<Rightarrow> if a = vault_this v then do { c \<leftarrow> pack r; vault_withdraw env params recipient c v } else None
   | WithdrawV2_call a params recipient r \<Rightarrow> if a = vault_this v then do { c \<leftarrow> pack r; vault_withdrawV2 env params recipient c v } else None
   | TransferV2_call a r ctI ctII \<Rightarrow> if a = vault_this v then do { c \<leftarrow> pack r; vault_transferV2 env c ctI ctII v } else None
   | _ \<Rightarrow> None)"

definition vault_chain :: "'k vault_env \<Rightarrow> (ProofReceipt \<Rightarrow> contract_receipt option) \<Rightarrow> (nat \<Rightarrow> 'k erc20_vault tx_env) \<Rightarrow> 'k erc20_vault chain" where
  "vault_chain env pack envs = \<lparr>chain_run = vault_run env pack, chain_envs = envs, abi_events = [''Commitment'', ''EncryptedNote'', ''Nullifier'']\<rparr>"

lemma vault_chain_sel [simp]:
  "chain_run (vault_chain env pack envs) = vault_run env pack" "chain_envs (vault_chain env pack envs) = envs"
  "abi_events (vault_chain env pack envs) = [''Commitment'', ''EncryptedNote'', ''Nullifier'']"
  by (simp_all add: vault_chain_def)

subsection \<open>Lemmas\<close>

lemma and_then_Inr [simp]: "and_then (Some (Inr x, w)) f = f x w"
  by (simp add: and_then_def)

lemma and_then_locally: "and_then (locally e r w) f = (case r of None \<Rightarrow> Some (Inl e, w) | Some x \<Rightarrow> f x w)"
  by (simp add: and_then_def locally_def split: option.split)

lemma locally_Some [simp]: "locally e (Some x) w = Some (Inr x, w)" and locally_None [simp]: "locally e None w = Some (Inl e, w)"
  by (simp_all add: locally_def)

text \<open>The statement of a join-split ends with its outputs.\<close>

lemma statement_length:
  assumes "payment_statement message trs roots nfs cmts = Some stmt"
  shows "length stmt = 1 + 3 * length nfs + length cmts"
proof -
  have "list_all2 (\<lambda>_ y. length y = 3) xs ys \<Longrightarrow> length (concat ys) = 3 * length xs" for xs :: "nat list" and ys :: "int list list"
    by (induction rule: list_all2_induct) simp_all
  moreover from assms obtain ys where "mapM (\<lambda>i. do { t \<leftarrow> idx trs i; r \<leftarrow> idx roots i; n \<leftarrow> idx nfs i; Some [t, r, n] }) [0..<length nfs] = Some ys"
      "stmt = message # concat ys @ cmts"
    by (auto simp: payment_statement_def bind_eq_Some_conv)
  moreover from this(1) have "list_all2 (\<lambda>_ y. length y = 3) [0..<length nfs] ys"
    unfolding mapM_Some_iff by (rule list_all2_mono) (auto simp: bind_eq_Some_conv)
  ultimately show ?thesis by fastforce
qed

lemma joinsplit_shape:
  assumes "submit_joinsplit post use10_2 message trs valuesIn keysIn saltsIn d proofs t ins pks valuesOut salts cmts cts encs = Some r"
    and "length ins = length valuesIn" "length cmts = length valuesOut"
  shows "pr_NumberOfInputs r = length valuesIn" "pr_NumberOfOutputs r = length valuesOut"
    "length (pr_Statement r) = 1 + 3 * pr_NumberOfInputs r + pr_NumberOfOutputs r"
  using assms statement_length [of message trs _ "map fst ins" cmts]
  by (auto simp: submit_joinsplit_def bind_eq_Some_conv Let_def)

lemma joinsplit_result_shape:
  assumes "Erc20JoinSplitProof post cr H coins nonces message valuesIn keysIn saltsIn valuesOut pks eks d proofs trs t use10_2 = Some r"
  shows "pr_NumberOfOutputs r = length valuesOut" "length (pr_Statement r) = 1 + 3 * pr_NumberOfInputs r + pr_NumberOfOutputs r"
  using assms joinsplit_shape [of post use10_2 message trs valuesIn keysIn saltsIn d proofs t _ pks valuesOut]
  by (auto simp: Erc20JoinSplitProof_def bind_eq_Some_conv dest!: mapM_length)

lemma withdraw_result_shape:
  assumes "Erc20WithdrawProof post H message valuesIn keysIn saltsIn amount recipient pk d proofs trs t use10_2 = Some r"
  shows "pr_NumberOfOutputs r = 2" "length (pr_Statement r) = 1 + 3 * pr_NumberOfInputs r + pr_NumberOfOutputs r"
  using assms joinsplit_shape [of post use10_2 message trs valuesIn keysIn saltsIn d proofs t _ "[recipient, pk]" "[amount, 0]" "[0, 0]"]
  by (auto simp: Erc20WithdrawProof_def bind_eq_Some_conv dest!: mapM_length)

text \<open>On such a receipt the vault reverts in every state.\<close>

lemma vault_run_reverts:
  assumes "abi_faithful pack" "pr_NumberOfOutputs r = 2 \<or> pr_NumberOfOutputs r = 3" "length (pr_Statement r) = 1 + 3 * pr_NumberOfInputs r + pr_NumberOfOutputs r"
  shows "vault_run env pack sender (Withdraw_call a params recipient (result_receipt r)) v = Inl ''revert''"
    "vault_run env pack sender (WithdrawV2_call a params recipient (result_receipt r)) v = Inl ''revert''"
    "vault_run env pack sender (TransferV2_call a (result_receipt r) ctI ctII) v = Inl ''revert''"
proof -
  have c: "checkReceiptConditions env v c = None" if "pack (result_receipt r) = Some c" for c
  proof (rule check_needs_address)
    have "cr_statement c = pr_Statement r" "cr_numberOfInputs c = pr_NumberOfInputs r" "cr_numberOfOutputs c = pr_NumberOfOutputs r"
      using assms(1) [unfolded abi_faithful_def, rule_format, OF that] by (simp_all add: result_receipt_def)
    then show "cr_numberOfOutputs c = 2 \<or> cr_numberOfOutputs c = 3" "length (cr_statement c) = 1 + 3 * cr_numberOfInputs c + cr_numberOfOutputs c"
      using assms(2,3) by simp_all
  qed
  have w: "withdraw_to env x recipient y c v = None" if "pack (result_receipt r) = Some c" for x y c
    using c [OF that] by (auto simp: withdraw_to_def Let_def split: Option.bind_splits)
  show "vault_run env pack sender (Withdraw_call a params recipient (result_receipt r)) v = Inl ''revert''"
    "vault_run env pack sender (WithdrawV2_call a params recipient (result_receipt r)) v = Inl ''revert''"
    "vault_run env pack sender (TransferV2_call a (result_receipt r) ctI ctII) v = Inl ''revert''"
    using c w by (auto simp: vault_run_def call_reply_def vault_withdraw_def vault_withdrawV2_def vault_transferV2_def split: Option.bind_splits option.splits)
qed

text \<open>What is left of an operation whose only transaction reverts in every state.\<close>

lemma reverting_call:
  assumes "\<And>v. vault_run env pack auth call v = Inl e" "and_then (call_contract (vault_chain env pack envs) 0 auth call w) f = Some (res, w')"
  shows "(\<exists>x. res = Inl x \<and> w' = w) \<or> (fixed_gas (envs 0) \<and> (\<exists>others. mined_before (envs 0) = Some others \<and> f [] (others w) = Some (res, w')))"
proof -
  have "call_contract (vault_chain env pack envs) 0 auth call w = (if \<not> sent_ok (envs 0) then Some (Inl (Tx_failed Not_sent), w)
    else if \<not> fixed_gas (envs 0) then Some (Inl (Tx_failed (Call_reverts e)), w)
    else map_option (\<lambda>others. (Inr [], others w)) (mined_before (envs 0)))"
    using assms(1) by (subst call_contract_def, subst send_tx_reverting) (auto simp: option.map_comp comp_def)
  with assms(2) show ?thesis by (auto simp: and_then_def split: if_splits option.splits)
qed

lemma capsule_deposit:
  assumes "kem_correct cr ek dk" "hkdf_length cr" "\<bar>tokenId\<bar> < 2 ^ 256" "\<bar>amount\<bar> < 2 ^ 256"
  obtains ss ct enc where "ValidKey cr ek" "Encapsulate cr ek coins = (ss, ct)"
    "EncryptNotePayload cr (Some nonce) (DerivePaymentKey cr ss) tokenId amount = Some (Inr enc)"
proof -
  obtain ss ct where e: "Encapsulate cr ek coins = (ss, ct)" by force
  have "length (DerivePaymentKey cr ss) = 32" using assms(2) by (simp add: hkdf_length_def DerivePaymentKey_def hkdfDerive_def)
  from encrypt_note_total [OF this assms(3,4)] e assms(1) that show ?thesis by (auto simp: kem_correct_def)
qed

subsection \<open>Properties\<close>

text \<open>
  C24. A deposit arrives, but its endpoint for recipients does not find it. For a key, token and amount in the field, when the token accepts the approval and the
  transfer and nothing comes in between, the deposit succeeds: the vault's tree is the client's tree with the commitment appended, and its log opens, for the holder of the view key, to the note of
  that commitment, token and amount. The scan of the same logs by \<^verbatim>\<open>ScanErc20Notes\<close> returns nothing, for any key: it looks the
  capsule and payload up under names that the event does not have.
\<close>

theorem deposit_arrives_unseen:
  assumes "kem_correct cr ek dk" and "note_aead cr" and "hkdf_length cr" and "length nonce = 12"
    and "canonical [pkSpend, amount, tokenId]" and "iden3_total H" and "contract_hash_agrees H (poseidonContract env)"
    and "vault_refines H keccak256 mt (vaultMerkle v)" and "vault_logs v = []"
    and "tok_approve (asset env) auth (vault_this v) amount (token_ledger v) = Some k1"
    and "tok_transferFrom (asset env) (vault_this v) auth (vault_this v) amount k1 = Some (b, k2)"
    and "\<forall>k. sent_ok (envs k) \<and> mined_before (envs k) = Some id"
  shows "\<exists>v' c ct enc salt mt'. DepositErc20V2 (vault_chain env pack envs) cr H coins (Some nonce) auth (vault_this v) (vault_asset v) amount tokenId pkSpend ek v =
      Some (Inr (), v') \<and>
    InsertLeaf H keccak256 mt c = Some mt' \<and> vault_refines H keccak256 mt' (vaultMerkle v') \<and>
    ScanForErc20Notes cr H dk pkSpend [\<lparr>Commitment = c, CipherText = ct, EncTxData = enc\<rparr>] =
      Inr [\<lparr>note_commitment = c, TokenId = tokenId, Amount = amount, SaltBField = salt\<rparr>] \<and>
    vault_logs v' = [\<lparr>log_event = ''Commitment'', log_indexed = [vault_id v, c], log_data = []\<rparr>,
      \<lparr>log_event = ''EncryptedNote'', log_indexed = [vault_id v, c], log_data = [(''ciphertextI'', L_bytes ct), (''ciphertextII'', L_bytes enc)]\<rparr>] \<and>
    (\<forall>dk'. ScanErc20Notes (vault_chain env pack envs) cr (Some (vault_logs v')) dk' = Inr [])"
proof -
  have t: "0 \<le> tokenId" "0 \<le> amount" "tokenId < 2 ^ 256" "amount < 2 ^ 256" using assms(5) by (simp_all add: SNARK_SCALAR_FIELD_def)
  obtain ss ct enc where e: "ValidKey cr ek" "Encapsulate cr ek coins = (ss, ct)"
    "EncryptNotePayload cr (Some nonce) (DerivePaymentKey cr ss) tokenId amount = Some (Inr enc)"
    by (rule capsule_deposit [OF assms(1,3), of tokenId amount coins nonce]) (use t in simp_all)
  let ?salt = "SaltBToField (DerivePaymentSalt cr ss)"
  obtain c where c: "H [pkSpend, ?salt, amount, tokenId] = Some c" "canonical [c]"
    using iden3_hashes [OF assms(6), of "[pkSpend, ?salt, amount, tokenId]"] assms(5) by (auto simp: SaltBToField_def)
  have "1 \<le> (2 :: nat) ^ depth mt" by simp
  from field_hash.vault_insert_refines [OF iden3_field_hash [OF assms(6)] assms(8), of "[c]"] c(2) this obtain mt' m where
    m: "InsertLeaf H keccak256 mt c = Some mt'" "vault_insertLeaves H [c] (vaultMerkle v) = Some m" "vault_refines H keccak256 mt' m"
    by (auto simp: InsertLeaf_def)
  let ?v1 = "v\<lparr>token_ledger := k1\<rparr>" and ?v2 = "v\<lparr>token_ledger := k2, vaultMerkle := m\<rparr>"
  let ?v' = "emit_EncryptedNote c ct enc (emit_Commitment c ?v2)"
  have a: "vault_run env pack auth (Approve_call (vault_asset v) (vault_this v) amount) v = Inr (?v1, [])"
    using assms(9,10) by (simp add: vault_run_def call_reply_def)
  have "poseidonContract env [pkSpend, ?salt, amount, tokenId] = Some c" "vault_insertLeaves (poseidonContract env) [c] (vaultMerkle v) = Some m"
    using assms(7) c(1) vault_insertLeaves_agrees [OF assms(7) m(2)] by (simp_all add: contract_hash_agrees_def)
  then have d: "vault_depositV2 env auth [amount, pkSpend, ?salt, tokenId] ct enc ?v1 = Some ?v'"
    using assms(11) by (simp add: vault_depositV2_def deposit_note_def idx_def numeral_eq_Suc insert_commitment_def)
  have "call_contract (vault_chain env pack envs) 0 auth (Approve_call (vault_asset v) (vault_this v) amount) v = Some (Inr [], ?v1)"
    using assms(12) a by (simp add: call_contract_def send_tx_undisturbed)
  moreover have "\<exists>logs. call_contract (vault_chain env pack envs) 1 auth (DepositV2_call (vault_this v) [amount, pkSpend, ?salt, tokenId] ct enc) ?v1 = Some (Inr logs, ?v')"
    using assms(12) d by (simp add: call_contract_def send_tx_undisturbed vault_run_def call_reply_def)
  ultimately have "DepositErc20V2 (vault_chain env pack envs) cr H coins (Some nonce) auth (vault_this v) (vault_asset v) amount tokenId pkSpend ek v = Some (Inr (), ?v')"
    using e c(1) by (auto simp: DepositErc20V2_def client_Erc20CommitmentV2_def)
  moreover have logs: "vault_logs ?v' = [\<lparr>log_event = ''Commitment'', log_indexed = [vault_id v, c], log_data = []\<rparr>,
      \<lparr>log_event = ''EncryptedNote'', log_indexed = [vault_id v, c], log_data = [(''ciphertextI'', L_bytes ct), (''ciphertextII'', L_bytes enc)]\<rparr>]"
    using assms(9) by (simp add: emit_defs)
  moreover have "ScanErc20Notes (vault_chain env pack envs) cr (Some (vault_logs ?v')) dk' = Inr []" for dk'
    unfolding logs by (simp add: ScanErc20Notes_def scan_log_def map_filter_def)
  moreover have "vaultMerkle ?v' = m" by (simp add: emit_defs)
  moreover note payment_received [where H = H, OF assms(1,2,4) e(2,3) t(1,2) c(1)] m(1,3)
  ultimately show ?thesis by (metis (no_types, lifting))
qed

text \<open>A vault with an empty tree of depth 2 behind undisturbed transactions.\<close>

definition calm :: "nat \<Rightarrow> 's tx_env" where
  "calm k = \<lparr>fixed_gas = False, sent_ok = True, mined_before = Some id\<rparr>"

definition drop_pack :: "ProofReceipt \<Rightarrow> contract_receipt option" where
  "drop_pack r = (if rc_NumberOfInputs r < 0 \<or> rc_NumberOfOutputs r < 0 then None else Some \<lparr>cr_proof = [], cr_statement = rc_Statement r, cr_numberOfInputs = nat (rc_NumberOfInputs r), cr_numberOfOutputs = nat (rc_NumberOfOutputs r)\<rparr>)"

lemma toy_merkle_refines: "\<exists>mt v. vault_refines sum_hash keccak_seven mt v"
  using field_hash.vault_initial [OF sum_hash_field_hash, of 2 keccak_seven] by auto

theorem deposit_arrives_unseen_witness:
  "\<exists>v v' c. DepositErc20V2 (vault_chain toy_env drop_pack calm) toy_note_crypto sum_hash toy_secret (Some (replicate 12 0)) 5 77 78 40 0 11 [] v = Some (Inr (), v') \<and>
     (\<exists>ct enc salt. ScanForErc20Notes toy_note_crypto sum_hash [] 11 [\<lparr>Commitment = c, CipherText = ct, EncTxData = enc\<rparr>] =
        Inr [\<lparr>note_commitment = c, TokenId = 0, Amount = 40, SaltBField = salt\<rparr>]) \<and>
     ScanErc20Notes (vault_chain toy_env drop_pack calm) toy_note_crypto (Some (vault_logs v')) [] = Inr []"
proof -
  obtain mt m where r: "vault_refines sum_hash keccak_seven mt m" using toy_merkle_refines by blast
  let ?v = "toy_vault\<lparr>vaultMerkle := m\<rparr>"
  have v: "vault_this ?v = 77" "vault_asset ?v = 78" "vault_logs ?v = []" "token_ledger ?v = 1000" by (simp_all add: toy_vault_def)
  have "\<exists>v' c ct enc salt mt'. DepositErc20V2 (vault_chain toy_env drop_pack calm) toy_note_crypto sum_hash toy_secret (Some (replicate 12 0)) 5 (vault_this ?v) (vault_asset ?v) 40 0 11 [] ?v =
      Some (Inr (), v') \<and>
    InsertLeaf sum_hash keccak_seven mt c = Some mt' \<and> vault_refines sum_hash keccak_seven mt' (vaultMerkle v') \<and>
    ScanForErc20Notes toy_note_crypto sum_hash [] 11 [\<lparr>Commitment = c, CipherText = ct, EncTxData = enc\<rparr>] =
      Inr [\<lparr>note_commitment = c, TokenId = 0, Amount = 40, SaltBField = salt\<rparr>] \<and>
    vault_logs v' = [\<lparr>log_event = ''Commitment'', log_indexed = [vault_id ?v, c], log_data = []\<rparr>,
      \<lparr>log_event = ''EncryptedNote'', log_indexed = [vault_id ?v, c], log_data = [(''ciphertextI'', L_bytes ct), (''ciphertextII'', L_bytes enc)]\<rparr>] \<and>
    (\<forall>dk'. ScanErc20Notes (vault_chain toy_env drop_pack calm) toy_note_crypto (Some (vault_logs v')) dk' = Inr [])"
    by (rule deposit_arrives_unseen [OF toy_note_crypto_laws(3,1,2) _ _ sum_hash_total, where ?k1.0 = 1000 and b = True and ?k2.0 = 1040])
      (use r in \<open>simp_all add: v toy_env_def toy_token_def calm_def contract_hash_agrees_def SNARK_SCALAR_FIELD_def\<close>)
  then show ?thesis unfolding v by blast
qed

text \<open>
  The plain deposit is reported as failed. Under the same conditions \<^verbatim>\<open>DepositErc20\<close> takes the tokens and inserts the commitment, and returns an error: it
  reads the commitment from the data of the log, and in the event it is indexed.
\<close>

theorem deposit_reported_failed:
  assumes "tok_approve (asset env) auth (vault_this v) amount (token_ledger v) = Some k1"
    and "vault_deposit env auth [amount, pkSpend, salt, tokenId] (v\<lparr>token_ledger := k1\<rparr>) = Some v'"
    and "\<forall>k. sent_ok (envs k) \<and> mined_before (envs k) = Some id"
  shows "DepositErc20 (vault_chain env pack envs) auth (vault_this v) (vault_asset v) amount pkSpend salt tokenId v = Some (Inl No_commitment_logs, v') \<and>
    nextLeafIndex (vaultMerkle v') = (if nextLeafIndex (vaultMerkle v) + 1 < 2 ^ treeDepth (vaultMerkle v) then nextLeafIndex (vaultMerkle v) + 1 else 1)"
proof -
  let ?v1 = "v\<lparr>token_ledger := k1\<rparr>"
  from assms(2) obtain c m k2 where d: "vault_insertLeaves (poseidonContract env) [c] (vaultMerkle v) = Some m"
    "v' = emit_Commitment c (v\<lparr>token_ledger := k2, vaultMerkle := m\<rparr>)"
    by (auto simp: vault_deposit_def deposit_note_def insert_commitment_def bind_eq_Some_conv)
  have "call_contract (vault_chain env pack envs) 0 auth (Approve_call (vault_asset v) (vault_this v) amount) v = Some (Inr [], ?v1)"
    using assms(1,3) by (simp add: call_contract_def send_tx_undisturbed vault_run_def call_reply_def)
  moreover have "call_contract (vault_chain env pack envs) 1 auth (Deposit_call (vault_this v) [amount, pkSpend, salt, tokenId]) ?v1 =
      Some (Inr [\<lparr>log_event = ''Commitment'', log_indexed = [vault_id v, c], log_data = []\<rparr>], v')"
    using assms(2,3) d(2) by (simp add: call_contract_def send_tx_undisturbed vault_run_def call_reply_def emit_defs)
  ultimately have "DepositErc20 (vault_chain env pack envs) auth (vault_this v) (vault_asset v) amount pkSpend salt tokenId v = Some (Inl No_commitment_logs, v')"
    by (simp add: DepositErc20_def getCommitmentsFromTx_def log_commitments_def map_filter_def)
  moreover have "nextLeafIndex m = (if nextLeafIndex (vaultMerkle v) + 1 < 2 ^ treeDepth (vaultMerkle v) then nextLeafIndex (vaultMerkle v) + 1 else 1)"
    using d(1) by (auto simp: vault_insertLeaves_def vault_newTree_def bind_eq_Some_conv Let_def split: if_splits)
  ultimately show ?thesis using d(2) by (simp add: emit_defs)
qed

theorem deposit_reported_failed_witness:
  "\<exists>v v'. DepositErc20 (vault_chain toy_env drop_pack calm) 5 77 78 40 11 3 0 v = Some (Inl No_commitment_logs, v') \<and> token_ledger v' = token_ledger v + 40"
proof -
  obtain mt m where r: "vault_refines sum_hash keccak_seven mt m" using toy_merkle_refines by blast
  obtain c where c: "sum_hash [11, 3, 40, 0] = Some c" "canonical [c]" by (simp add: sum_hash_def fv_def SNARK_SCALAR_FIELD_def)
  obtain m' where m': "vault_insertLeaves sum_hash [c] m = Some m'"
    using field_hash.vault_insert_refines [OF sum_hash_field_hash r, of "[c]"] c(2) by auto
  let ?v = "toy_vault\<lparr>vaultMerkle := m\<rparr>"
  obtain v' where v': "vault_deposit toy_env 5 [40, 11, 3, 0] (?v\<lparr>token_ledger := 1000\<rparr>) = Some v'" "token_ledger v' = 1040"
    using c(1) m' by (simp add: vault_deposit_def deposit_note_def idx_def numeral_eq_Suc insert_commitment_def toy_env_def toy_token_def toy_vault_def emit_defs)
  from deposit_reported_failed [OF _ v'(1), where envs = calm and pack = drop_pack] v'(2) show ?thesis
    by (intro exI [of _ ?v] exI [of _ v']) (simp add: toy_vault_def toy_env_def toy_token_def calm_def)
qed

text \<open>An error that leaves the chain, or a return with a fixed gas limit after which only the transactions of others are there.\<close>

definition no_effect :: "(nat \<Rightarrow> 's tx_env) \<Rightarrow> 's \<Rightarrow> 'e + 'a \<Rightarrow> 's \<Rightarrow> bool" where
  "no_effect envs w res w' \<longleftrightarrow> (\<exists>e. res = Inl e \<and> w' = w) \<or> (fixed_gas (envs 0) \<and> (\<exists>others. mined_before (envs 0) = Some others \<and> w' = others w))"

lemma no_effect_Inl [simp]: "no_effect envs w (Inl e) w"
  by (simp add: no_effect_def)

lemma reverting_no_effect:
  assumes "\<And>v. vault_run env pack auth call v = Inl e" "\<And>logs w1. f logs w1 = Some (g logs, w1)"
    "and_then (call_contract (vault_chain env pack envs) 0 auth call w) f = Some (res, w')"
  shows "no_effect envs w res w'"
  using reverting_call [OF assms(1,3)] assms(2) by (auto simp: no_effect_def)

lemma transfer_no_effect:
  assumes "abi_faithful pack" "length valuesOut = 2 \<or> length valuesOut = 3"
    "TransferErc20V2 (vault_chain env pack envs) post cr H coins nonces auth vaultAddr message valuesIn keysIn saltsIn valuesOut pks eks tokenId d proofs trs use10_2 w = Some (res, w')"
  shows "no_effect envs w res w'"
proof (cases "Erc20JoinSplitProof post cr H coins nonces message valuesIn keysIn saltsIn valuesOut pks eks d proofs trs tokenId use10_2")
  case (Some r)
  note sh = joinsplit_result_shape [OF Some]
  have "vault_run env pack auth (TransferV2_call vaultAddr (result_receipt r) (pr_CipherText r) (pr_EncTxData r)) v = Inl ''revert''" for v
    using vault_run_reverts(3) [OF assms(1) _ sh(2)] sh(1) assms(2) by simp
  from reverting_no_effect [OF this, of "\<lambda>_ w1. Some (Inr (), w1)"] Some assms(3) show ?thesis by (simp add: TransferErc20V2_def)
qed (use assms(3) in \<open>auto simp: TransferErc20V2_def and_then_def\<close>)

lemma withdrawV2_no_effect:
  assumes "abi_faithful pack"
    "WithdrawErc20V2 (vault_chain env pack envs) post H rand auth vaultAddr amount key salt recipient tokenId d p tr use10_2 w = Some (res, w')"
  shows "no_effect envs w res w'"
proof (cases "do { dk \<leftarrow> NewSpendKeyPair H rand; Erc20WithdrawProof post H 0 [amount, 0] [key, dk] [salt, 0] amount recipient (KeyPair.PublicKey dk) d [p, None] [tr, 0] tokenId use10_2 }")
  case (Some r)
  then obtain dk where dk: "NewSpendKeyPair H rand = Some dk"
    "Erc20WithdrawProof post H 0 [amount, 0] [key, dk] [salt, 0] amount recipient (KeyPair.PublicKey dk) d [p, None] [tr, 0] tokenId use10_2 = Some r"
    by (auto simp: bind_eq_Some_conv)
  note sh = withdraw_result_shape [OF dk(2)]
  have "vault_run env pack auth (WithdrawV2_call vaultAddr [amount, tokenId] recipient (result_receipt r)) v = Inl ''revert''" for v
    using vault_run_reverts(2) [OF assms(1) _ sh(2)] sh(1) by simp
  from reverting_no_effect [OF this, of "\<lambda>_ w1. Some (Inr (), w1)"] dk assms(2) show ?thesis by (simp add: WithdrawErc20V2_def)
next
  case None
  then show ?thesis using assms(2) by (cases "NewSpendKeyPair H rand") (auto simp: WithdrawErc20V2_def and_then_def)
qed

lemma withdraw_no_effect:
  assumes "abi_faithful pack"
    "WithdrawErc20 (vault_chain env pack envs) post cr H coins nonces rand dummyView auth vaultAddr amount key salt account accountPk accountEk tokenId d p tr use10_2 w = Some (res, w')"
  shows "no_effect envs w res w'"
proof (cases "do { dk \<leftarrow> NewSpendKeyPair H rand; de \<leftarrow> dummyView; Erc20JoinSplitProof post cr H coins nonces 0 [amount, 0] [key, dk] [salt, 0] [amount, 0]
     [accountPk, KeyPair.PublicKey dk] [accountEk, de] d [p, None] [tr, 0] tokenId use10_2 }")
  case (Some r)
  then obtain dk de where dk: "NewSpendKeyPair H rand = Some dk" "dummyView = Some de"
    "Erc20JoinSplitProof post cr H coins nonces 0 [amount, 0] [key, dk] [salt, 0] [amount, 0]
     [accountPk, KeyPair.PublicKey dk] [accountEk, de] d [p, None] [tr, 0] tokenId use10_2 = Some r"
    by (auto simp: bind_eq_Some_conv)
  note sh = joinsplit_result_shape [OF dk(3)]
  have "vault_run env pack auth (Withdraw_call vaultAddr [amount] account (result_receipt r)) v = Inl ''revert''" for v
    using vault_run_reverts(1) [OF assms(1) _ sh(2)] sh(1) by simp
  from reverting_no_effect [OF this, of "\<lambda>_ w1. Some (statement_at (1 + pr_NumberOfInputs r * 3) r, w1)"] dk assms(2) show ?thesis by (simp add: WithdrawErc20_def)
next
  case None
  then show ?thesis using assms(2) by (cases "NewSpendKeyPair H rand"; cases dummyView) (auto simp: WithdrawErc20_def and_then_def)
qed

text \<open>
  The client's transfers and withdrawals of ERC20 notes never settle. Their statement has no contract address, which the vault requires of a receipt
  with two or three outputs; so whatever notes they spend, whatever proof the server gives and whatever else is mined in between, the operation returns an
  error and leaves the chain as it is, or, when the caller has fixed the gas limit, returns as if it had succeeded, with none of its effects.
\<close>

theorem client_spends_never_settle:
  assumes "abi_faithful pack" and "length valuesOut = 2 \<or> length valuesOut = 3"
  shows "(TransferErc20V2 (vault_chain env pack envs) post cr H coins nonces auth vaultAddr message valuesIn keysIn saltsIn valuesOut pks eks tokenId d proofs trs use10_2 w = Some (r1, w1) \<longrightarrow>
      no_effect envs w r1 w1) \<and>
    (WithdrawErc20V2 (vault_chain env pack envs) post H rand auth vaultAddr amount key salt recipient tokenId d p tr use10_2 w = Some (r2, w2) \<longrightarrow> no_effect envs w r2 w2) \<and>
    (WithdrawErc20 (vault_chain env pack envs) post cr H coins nonces rand dummyView auth vaultAddr amount key salt account accountPk accountEk tokenId d p tr use10_2 w = Some (r3, w3) \<longrightarrow>
      no_effect envs w r3 w3)"
  by (intro conjI impI) (erule transfer_no_effect [OF assms] withdrawV2_no_effect [OF assms(1)] withdraw_no_effect [OF assms(1)])+

theorem client_spends_never_settle_witness:
  "\<exists>res v'. TransferErc20V2 (vault_chain toy_env drop_pack calm) (toy_js_server fr_api sum_hash 1 2 1000) toy_note_crypto sum_hash (\<lambda>j. toy_secret) (\<lambda>j. Some (replicate 12 7)) 5 77 0
     (map sn_value [toy_spend 0]) (map sn_key [toy_spend 0]) (map sn_salt [toy_spend 0]) (map on_value toy_outs) (map on_spendPk toy_outs) (map on_viewKey toy_outs) 9 8
     (map (\<lambda>n. Some (sn_proof n)) [toy_spend 0]) (map sn_tree [toy_spend 0]) False toy_vault = Some (res, v') \<and> res \<noteq> Inl Proof_error \<and> no_effect calm toy_vault res v'"
proof -
  obtain r where r: "joinsplit_request (toy_js_server fr_api sum_hash 1 2 1000) toy_note_crypto sum_hash (\<lambda>j. toy_secret) (\<lambda>j. Some (replicate 12 7)) 0
     [toy_spend 0] toy_outs 9 False = Some r"
    using toy_joinsplit_proved by blast
  have pk: "abi_faithful drop_pack" by (auto simp: abi_faithful_def drop_pack_def split: if_splits)
  have out: "length (map on_value toy_outs) = 2" by (simp add: toy_outs_def)
  note sh = joinsplit_result_shape [OF r [unfolded joinsplit_request_def]]
  have "vault_run toy_env drop_pack 5 (TransferV2_call 77 (result_receipt r) (pr_CipherText r) (pr_EncTxData r)) toy_vault = Inl ''revert''"
    using vault_run_reverts(3) [OF pk _ sh(2)] sh(1) out by simp
  then have "call_contract (vault_chain toy_env drop_pack calm) 0 5 (TransferV2_call 77 (result_receipt r) (pr_CipherText r) (pr_EncTxData r)) toy_vault =
      Some (Inl (Tx_failed (Call_reverts ''revert'')), toy_vault)"
    by (simp add: call_contract_def send_tx_def calm_def)
  then have t: "TransferErc20V2 (vault_chain toy_env drop_pack calm) (toy_js_server fr_api sum_hash 1 2 1000) toy_note_crypto sum_hash (\<lambda>j. toy_secret) (\<lambda>j. Some (replicate 12 7)) 5 77 0
     (map sn_value [toy_spend 0]) (map sn_key [toy_spend 0]) (map sn_salt [toy_spend 0]) (map on_value toy_outs) (map on_spendPk toy_outs) (map on_viewKey toy_outs) 9 8
     (map (\<lambda>n. Some (sn_proof n)) [toy_spend 0]) (map sn_tree [toy_spend 0]) False toy_vault = Some (Inl (Tx_failed (Call_reverts ''revert'')), toy_vault)"
    unfolding TransferErc20V2_def r [unfolded joinsplit_request_def] by (simp add: and_then_def)
  note e = client_spends_never_settle [OF pk disjI1 [OF out], THEN conjunct1, rule_format, OF t]
  show ?thesis by (rule exI, rule exI, rule conjI [OF t conjI [OF _ e]]) simp
qed

text \<open>
  The operations without a view key always fail. The withdrawals of ERC721 and ERC1155 tokens and the wrappers that pass no view key
  are refused by the request builder, for all their arguments, before anything is sent.
\<close>

theorem keyless_operations_fail:
  "WithdrawErc721 ch post cr H coin nonce auth vaultAddr nftID key salt account erc721Addr d p tr w = Some (Inl Proof_error, w) \<and>
   WithdrawERC1155 ch post2 post1 cr H coins nonces auth vaultAddr amount tokenID key salt account erc1155Addr d p tr agTree agProof isFungible w = Some (Inl Proof_error, w) \<and>
   GenerateOwnershipProof post cr H coin nonce message nftID key salt keyOut d p tr erc721Addr = None \<and>
   GenerateSingleErc1155Proof post2 post1 cr H coins nonces message amount key salt keyOut d p tr erc1155Addr tokenID agTree agProof isFungible = None \<and>
   GenerateErc1155JoinSplitProof post2 cr H coins nonces message valuesIn keysIn saltsIn valuesOut (keyOut # keysOut) d proofs trs erc1155Addr tokenID agTree agProof = None"
proof -
  have nil: "erc1155_joinsplit post2 ep cr H coins nonces aud message valuesIn keysIn saltsIn valuesOut (k # ks) (None # es) d proofs trs c t a b = None"
    for ep aud message valuesIn keysIn saltsIn valuesOut k ks es proofs trs c t a b
  proof -
    have "mapM (\<lambda>i. do { ek' \<leftarrow> idx (None # es) i; ek \<leftarrow> ek'; v \<leftarrow> idx valuesOut i; key \<leftarrow> idx (k # ks) i;
        sealed_output cr H (coins i) (nonces i) ek (KeyPair.PublicKey key) v t }) [0..<length (k # ks)] = None"
      by (rule mapM_None [of 0]) (simp_all add: idx_def)
    then show ?thesis by (simp add: erc1155_joinsplit_def prepareErc1155ProofParams_def del: upt_Suc)
  qed
  have single: "GenerateSingleErc1155Proof post2 post1 cr H coins nonces message amount key salt keyOut d p tr c t a b f = None" for message keyOut c t a b f
    by (simp add: GenerateSingleErc1155Proof_def Erc1155FungibleJoinSplitProof_def nil Erc1155NonFungibleOwnershipProof_def)
  show ?thesis
    by (simp add: WithdrawErc721_def WithdrawERC1155_def GenerateOwnershipProof_def Erc721OwnershipProof_def GenerateErc1155JoinSplitProof_def
        Erc1155FungibleJoinSplitProof_def nil single and_then_def)
qed

end
