(* ===== verification/Spec2Isabelle.thy ===== *)
theory Spec2Isabelle
  imports Erc20_JoinSplit Dvp_Destination Private_Mint Retail_Payment Auction Auction_Revert Auction_Withdraw
    Merkle_Tree Tag_Scan Agreement Payment_Client Bank_Bridge Bank_Fee Bank_Burn
    Relay_Bank Relay_Dvp Relay_Retail Client_Scan Client_Dvp Client_Payment Auction_Client Bank_Transfer Prove_Limiter
    Merkle_Status Tag_Payment Client_JoinSplit Client_Assets Dvp_Server Legacy_Prover Retail_Server User_Registry
    Eth_Client Vault_Merkle Vault_Erc20 Endpoints
begin

text \<open>
  \<^bold>\<open>Enygma: a verification library for the Go code of the repository.\<close>

  Enygma is a family of private payment protocols on a public chain. Four packages share one design: notes or
  balances are hiding commitments, a zero-knowledge circuit (gnark) proves that a transaction is allowed, a
  contract checks the proof and records nullifiers, and Go clients keep the private state, build the
  witnesses and scan the chain.

  \<^item> \<^verbatim>\<open>enygma_dvp\<close>: notes for ERC20 tokens, a join-split circuit, delivery versus payment between two
    parties, private minting, and the client with its Merkle tree.
  \<^item> \<^verbatim>\<open>enygma_dvp_auctions\<close>: sealed-bid auctions over such notes: bid, lock, batch, settle, withdraw, revert.
  \<^item> \<^verbatim>\<open>enygma_retail_payments\<close>: payments with and without relayer fees, and private messaging tags that tell
    a recipient which transactions are for him.
  \<^item> \<^verbatim>\<open>enygma_payments\<close>: a ledger of Pedersen commitments between banks, its transfer circuit, the pairwise
    key agreement of the banks and the client that computes the witness of a transfer.

  \<^bold>\<open>How the code is modelled.\<close> Go functions that can panic, and circuits whose constraints can be violated,
  are functions into \<^typ>\<open>'a option\<close> (\<^term>\<open>None\<close> is the panic or the violated constraint); errors that the
  code returns are values of sum types; state is passed and returned explicitly. Field elements and
  \<^verbatim>\<open>big.Int\<close> values are integers, with the reduction \<^const>\<open>fv\<close> modulo the BN254 scalar field written out;
  \<^verbatim>\<open>uint32\<close>, \<^verbatim>\<open>uint64\<close> and bytes are words and wrap. Loops over fixed ranges are the combinators \<^const>\<open>mapM\<close>,
  \<^const>\<open>foldM\<close> and \<^const>\<open>forM\<close> of the prelude, so they are total; the only loop of the code that may run
  forever, the decoy loop of the bitmap, takes the list of random draws it makes, and a theorem says when it
  returns and when it does not. The search of the ElGamal decryption is a \<^theory_text>\<open>function\<close> with a termination proof.
  The concurrent handlers of the relayers are program points over shared state, with a step relation and all
  interleavings (\<open>Relay_Machine\<close>). Randomness (salts, nonces, the coins of a capsule) is an argument.

  \<^bold>\<open>What is a parameter.\<close> The gnark API is a record of operations with the locale \<open>gnark\<close> for its documented
  laws, interpreted on the arithmetic of the field (\<^const>\<open>fr_api\<close>). Its \<^verbatim>\<open>ToBinary\<close> has a law for fewer than
  254 bits only. The circuits are generic in the hash \<open>pos\<close>, of which the Poseidon permutation of the
  repository is an instance for all constant tables; the payments circuit also in the Pedersen gadget. The
  iden3 hash and curve, ML-KEM, AES-GCM, ChaCha20-Poly1305, HKDF, SHA-256, Keccak, the JSON encoder, the Ethereum
  node and the contracts that are not modelled are
  arguments; what a theorem relies on of them is a named predicate (\<open>kem_correct\<close>, \<open>aead_correct\<close>, \<open>note_aead\<close>, \<open>jub_laws\<close>,
  \<open>iden3_total\<close>, \<open>logs_by_block\<close>, \<open>kem768_correct\<close>, \<open>hashes_agree\<close>, \<open>canonical_hash\<close>, \<open>poseidon_agrees\<close>,
  \<open>pedersen_curve\<close>, \<open>canonical_curve\<close>, \<open>field_hash\<close>, \<open>contract_hash_agrees\<close>, \<open>serves_util\<close> and \<open>joinsplit_server\<close> for servers,
  \<open>abi_faithful\<close> for the packing of calls, \<open>proves_exactly\<close> for the Groth16 backend), correctness and not
  security, and each theorem with a hypothesis has a witness that instantiates it. Security statements are
  of the form "the good outcome, or these two explicit inputs of the hash collide".

  \<^bold>\<open>The theories.\<close>

  \<^descr>[\<open>Prelude\<close>, \<open>Go_Text\<close>, \<open>Gnark\<close>] Go's indexing, slices and loops, the field, bytes; decimal and
    hexadecimal text and files; the circuit API with its gadgets as equivalences on assignments.
  \<^descr>[\<open>Poseidon\<close>] \<^verbatim>\<open>gnark_circuits/poseidon\<close>: the circuit permutation and the native one are the same function;
    the sponge cipher decrypts what it encrypts.
  \<^descr>[\<open>Primitives\<close>] \<^verbatim>\<open>gnark_circuits/primitives\<close>: keys, nullifiers, commitments and the Merkle gadget, which
    computes the reference path and binds a leaf to a root and a position.
  \<^descr>[\<open>Erc20_JoinSplit\<close>, \<open>Dvp_Initiator\<close>, \<open>Dvp_Destination\<close>, \<open>Private_Mint\<close>] \<^verbatim>\<open>enygma_dvp/.../templates\<close>: each
    \<^verbatim>\<open>Define\<close> method accepts exactly its specification; join-splits conserve value and cannot spend a note
    twice, a swap gives each side what the other pledged, minted notes are spendable.
  \<^descr>[\<open>Retail_Payment\<close>] \<^verbatim>\<open>enygma_retail_payments/.../templates\<close>: the payment circuits conserve value; the
    unbounded fee of one of them absorbs any imbalance.
  \<^descr>[\<open>Auction_Bid\<close>, \<open>Auction_Lock\<close>, \<open>Auction_Revert\<close>, \<open>Auction_Withdraw\<close>, \<open>Auction_Batch\<close>, \<open>Auction_Final\<close>,
    \<open>Auction\<close>] \<^verbatim>\<open>enygma_dvp_auctions/.../templates\<close>: deposits are returned to their owners only, and in a
    settlement built on accepted batch proofs the highest bid wins and the winner is a bidder.
  \<^descr>[\<open>Merkle_Tree\<close>] \<^verbatim>\<open>enygma_dvp/src/core/merkle.go\<close>: insertion keeps the tree well formed, generated proofs are
    accepted by the circuit gadget; archived roots, empty batches and persistence.
  \<^descr>[\<open>Tag_Channel\<close>, \<open>Tag_Scan\<close>] \<^verbatim>\<open>enygma_retail_payments/private_tags/src\<close>: a channel and a tag reach their
    recipient, incremental scans equal one scan (locale \<open>incremental_scan\<close>, interpreted on both scanners), and
    where 32-bit and 64-bit sums wrap.
  \<^descr>[\<open>Agreement\<close>] \<^verbatim>\<open>go_client/agreement/manager.go\<close> and \<^verbatim>\<open>initializeSecrets\<close>: leader and follower agree, an
    unconfirmed secret is not accepted, no bank makes up another's identity.
  \<^descr>[\<open>BabyJub\<close>, \<open>Bank_Circuit\<close>, \<open>Enygma_Payment\<close>, \<open>Payment_Client\<close>] \<^verbatim>\<open>gnark-server/utils/circuits.go\<close>, the blocks
    the bank circuits share, \<^verbatim>\<open>pkg/circuits/enygma/circuit.go\<close>, \<^verbatim>\<open>go_client/internal/randomness\<close>: a transfer
    conserves money and is covered by the sender's balance, only the account holder sends it, its blinding
    factors cancel, and the values the client computes are the ones the circuit checks.
  \<^descr>[\<open>Bank_Bridge\<close>, \<open>Bank_Fee\<close>, \<open>Bank_Burn\<close>] \<^verbatim>\<open>pkg/circuits/{deposit,withdraw,enygma_fee,burn}/circuit.go\<close>: deposits
    and withdrawals change the balance of their own bank only, a fee payment conserves money and is covered
    with its fee, the burn circuit is its specification; the single notes of a withdrawal are not bounded.
    (\<open>Bank_Example\<close> holds the common example transaction.)
  \<^descr>[\<open>Relay_Machine\<close>] the concurrent part of the three \<^verbatim>\<open>relayer/server/handler.go\<close>: keys in flight, the submission
    mutex, nonces and the counter of pending transactions. No key is held twice, submissions are serialised,
    every request is answered (when the node reports mined transactions) and nothing is left behind.
  \<^descr>[\<open>Relay_Bank\<close>, \<open>Relay_Dvp\<close>, \<open>Relay_Retail\<close>] the handlers themselves up to the transaction they submit:
    configuration and authentication, validation of transfers, receipts, swaps and exchanges, the claim of
    nullifiers, the retry loop of the tag window, channels. What is submitted was checked, a nullifier is in
    flight once, a tag reported as published is found by its recipient.
  \<^descr>[\<open>Client_Notes\<close>, \<open>Client_Scan\<close>] \<^verbatim>\<open>enygma_dvp/src/core/utils.go\<close> and \<^verbatim>\<open>scan.go\<close>: nullifiers, commitments, salts,
    the two payload formats and ElGamal round-trip; a scan returns exactly the notes of the recipient, unless
    one malformed event makes all of it fail.
  \<^descr>[\<open>Client_Witness\<close>, \<open>Client_Dvp\<close>] the swap requests of \<^verbatim>\<open>prover_erc.go\<close> and the witnesses the proving server builds
    from them (\<^verbatim>\<open>server/circuits/dvpInit\<close>, \<^verbatim>\<open>dvpDestination\<close>), composed with the client tree, the capsules and the
    circuits: both sides of a swap meet, in the first tree. A variable read by gnark follows the base prefix of
    its string, a published signal is read in base 10.
  \<^descr>[\<open>Client_Payment\<close>] the retail requests of \<^verbatim>\<open>prover_erc.go\<close> with the endpoint, the relayer and the scan of the
    recipient: a payment arrives; requests without a contract address are refused, and a fee request is
    accepted exactly when it balances in the field. Notes sent over a channel round-trip.
  \<^descr>[\<open>Prove_Server\<close>, \<open>Auction_Client\<close>] a proving endpoint over a Groth16 backend, and the six requests of
    \<^verbatim>\<open>prover_auction.go\<close> with their endpoints: honest locks, bids, reverts and withdrawals are proved, and an honest
    auction settles with a highest bid exactly when it reaches the floor price.
  \<^descr>[\<open>Bank_Server\<close>, \<open>Prove_Limiter\<close>] the five endpoints of \<^verbatim>\<open>gnark-server\<close> and its semaphore: what an endpoint
    publishes are the public inputs of the assignment it proved, when the strings are plain decimals; the answers
    have the sizes the contracts take; a proved withdrawal or burn is covered by the balance it opens; at most the
    configured number of proofs runs, and a panicking proof keeps its slot.
  \<^descr>[\<open>Bank_Complete\<close>, \<open>Bank_Transfer\<close>] an honest transfer satisfies the circuit, and \<^verbatim>\<open>transaction/main.go\<close> from the
    arguments to the relayer's answer: the transfer of the demo succeeds, and no other amount can be proved.

  \<^descr>[\<open>Merkle_Status\<close>] \<^verbatim>\<open>enygma_dvp/.../server/utils/merkle_status.go\<close>: the service that replays the logs of a vault. Its tree is the
    client's tree after single insertions; paths and URLs it accepts; where a batch at the end of a tree makes it differ.
  \<^descr>[\<open>Tag_Payment\<close>] \<^verbatim>\<open>private_tags/src/payment_notify.go\<close> and \<^verbatim>\<open>src/core/auditor\<close>: a tagged payment reaches its recipient, a dummy is no
    payment, the auditor recovers a view key.
  \<^descr>[\<open>Client_JoinSplit\<close>, \<open>Client_Assets\<close>] the ERC20, ERC721 and ERC1155 requests of \<^verbatim>\<open>prover_erc.go\<close> and the audit cipher: when a request can be
    proved, what it delivers to the recipients, what the auditor reads.
  \<^descr>[\<open>Dvp_Server\<close>, \<open>Legacy_Prover\<close>] the proving server of the swap package with its routes and key guard, the mint request, the map-based requests
    and their dispatch: which requests of the client are answered, and that the others cannot be.
  \<^descr>[\<open>Retail_Server\<close>] the proving server of the retail package as a machine over all interleavings of concurrent requests: handlers with a
    witness of their own answer each request for itself; two handlers share one witness and do not.
  \<^descr>[\<open>User_Registry\<close>, \<open>Eth_Client\<close>] the contract \<^verbatim>\<open>UserRegistry.sol\<close> with both Go clients: the locale \<open>user_directory\<close> states what a directory keeps
    under later registrations, interpreted on the contract; a registered user is reached however lookups and registrations interleave.
    \<open>Eth_Client\<close> says what a transaction sent through go-ethereum does.
  \<^descr>[\<open>Vault_Merkle\<close>, \<open>Vault_Erc20\<close>] \<^verbatim>\<open>Merkle.sol\<close>, \<^verbatim>\<open>Erc20CoinVault.sol\<close> and the verifier before the pairing: the incremental tree of the contract
    and the tree of the Go client are one; a nullifier is spent once; a withdrawal without a note is paid.
  \<^descr>[\<open>Endpoints\<close>] \<^verbatim>\<open>enygma_dvp/src/core/endpoints\<close>: every operation of users, relayers and administrators as its sequence of contract calls, composed
    with the vault: deposits arrive but are not found by the endpoint's scan, and transfers and withdrawals never settle.

  \<^bold>\<open>Bounds.\<close> Value conservation over the integers assumes that the range bound of a circuit times its number
  of notes stays below the field order (the totals do not wrap), which holds for the deployed sizes. The
  batch and settlement circuits have the sizes of the source, 100 bids and 10 batches. The payments
  circuit's blinding factors are treated for at most eight banks; it is deployed with six.

  \<^bold>\<open>Not modelled.\<close> The constant tables (data: the theorems hold for all tables), compiling and the inside of Groth16 proving,
  key files and key generation, generated contract bindings, connection and deployment helpers (\<^verbatim>\<open>web3.go\<close>, \<^verbatim>\<open>scripts\<close>), demos and
  command line tools, and the Solidity contracts other than the user registry, the ERC20 vault with its tree and the verifier. Of these
  the pairing, the token and the hash contract are arguments; token calls are atomic. The derivation of the generators (\<^verbatim>\<open>nums.go\<close>) computes
  square roots, whose termination rests on the primality of the field order, which no theory available here provides. The
  packages hold copies of some files (\<^verbatim>\<open>poseidon\<close>, \<^verbatim>\<open>primitives\<close>); one copy of each is modelled.
\<close>

end
